(* ===== verification/Prelude.thy ===== *)
theory Prelude
  imports Complex_Main "HOL-Library.AList" "HOL-Library.Multiset" "HOL-Library.Char_ord" "HOL-Library.List_Lexorder"
begin

text \<open>
  Shared vocabulary of the SeedSync development.

  \<^item> Python errors as values, and a result type with its bind.
  \<^item> Python values as the dynamically typed code sees them (\<open>pyval\<close>).
  \<^item> Dictionaries as association lists in insertion order (\<open>dict\<close>), with the lemmas on
    \<open>AList.update\<close> and \<open>AList.delete\<close> the components share.
  \<^item> The string operations of the standard library the sources call: \<open>strip\<close>, \<open>rstrip\<close>,
    \<open>lower\<close>, \<open>split\<close>, \<open>startswith\<close>, \<open>os.path.join\<close>.
  \<^item> \<open>bisect.insort\<close>, as the binary search it is, and its equivalence with list insertion.

  A Python \<open>str\<close> is a \<open>string\<close>; a character stands for the code point with its number, so
  the strings of the model range over the code points 0 to 255. The order on strings is the
  lexicographic order on code points, which is Python's.
\<close>

section \<open>Errors and results\<close>

datatype py_error =
    TypeError
  | ValueError
  | KeyError
  | IndexError
  | OverflowError
  | OSError
  | AppError string string

type_synonym 'a result = "py_error + 'a"

definition rbind :: "'e + 'a \<Rightarrow> ('a \<Rightarrow> 'e + 'b) \<Rightarrow> 'e + 'b" where
  "rbind r f = (case r of Inl e \<Rightarrow> Inl e | Inr x \<Rightarrow> f x)"

lemma rbind_simps [simp]:
  "rbind (Inl e) f = Inl e"
  "rbind (Inr x) f = f x"
  by (simp_all add: rbind_def)

lemma rbind_Inr_iff: "rbind r f = Inr y \<longleftrightarrow> (\<exists>x. r = Inr x \<and> f x = Inr y)"
  by (cases r) auto

lemma rbind_assoc: "rbind (rbind r f) g = rbind r (\<lambda>x. rbind (f x) g)"
  by (cases r) auto

section \<open>Optional values\<close>

definition opt_holds :: "('a \<Rightarrow> bool) \<Rightarrow> 'a option \<Rightarrow> bool" where
  "opt_holds P x = (case x of None \<Rightarrow> False | Some v \<Rightarrow> P v)"

lemma opt_holds_simps [simp]: "\<not> opt_holds P None" "opt_holds P (Some v) = P v"
  by (simp_all add: opt_holds_def)

lemma opt_holds_iff: "opt_holds P x \<longleftrightarrow> (\<exists>v. x = Some v \<and> P v)"
  by (cases x) auto

section \<open>Python values\<close>

datatype pyfloat = FFinite rat | FInf bool | FNaN

datatype pyval =
    PNone
  | PBool bool
  | PInt int
  | PFloat pyfloat
  | PStr string
  | PDate int
  | PEnum string int
  | PList "pyval list"
  | PDict "(string \<times> pyval) list"

definition of_opt_int :: "int option \<Rightarrow> pyval" where
  "of_opt_int v = (case v of None \<Rightarrow> PNone | Some n \<Rightarrow> PInt n)"

definition of_opt_date :: "int option \<Rightarrow> pyval" where
  "of_opt_date v = (case v of None \<Rightarrow> PNone | Some n \<Rightarrow> PDate n)"

definition of_opt_str :: "string option \<Rightarrow> pyval" where
  "of_opt_str v = (case v of None \<Rightarrow> PNone | Some s \<Rightarrow> PStr s)"

section \<open>Dictionaries\<close>

type_synonym ('k, 'v) dict = "('k \<times> 'v) list"

named_theorems dict_simps \<open>rewrite rules for dictionary updates and deletions\<close>

abbreviation dict_get :: "('k, 'v) dict \<Rightarrow> 'k \<Rightarrow> 'v option" where
  "dict_get d k \<equiv> map_of d k"

abbreviation dict_keys :: "('k, 'v) dict \<Rightarrow> 'k list" where
  "dict_keys d \<equiv> map fst d"

abbreviation dict_set :: "'k \<Rightarrow> 'v \<Rightarrow> ('k, 'v) dict \<Rightarrow> ('k, 'v) dict" where
  "dict_set k v d \<equiv> AList.update k v d"

abbreviation dict_pop :: "'k \<Rightarrow> ('k, 'v) dict \<Rightarrow> ('k, 'v) dict" where
  "dict_pop k d \<equiv> AList.delete k d"

abbreviation dict_ok :: "('k, 'v) dict \<Rightarrow> bool" where
  "dict_ok d \<equiv> distinct (map fst d)"

lemma dict_get_set [simp, dict_simps]: "map_of (AList.update k v d) = (map_of d)(k \<mapsto> v)"
  by (simp add: update_conv')

lemma dict_get_pop [simp, dict_simps]: "map_of (AList.delete k d) = (map_of d)(k := None)"
  by (simp add: delete_conv')

lemma dict_ok_set [simp, intro]: "dict_ok d \<Longrightarrow> dict_ok (AList.update k v d)"
  by (rule distinct_update)

lemma dict_ok_pop [simp, intro]: "dict_ok d \<Longrightarrow> dict_ok (AList.delete k d)"
  by (rule distinct_delete)

lemma fst_set_update [simp, dict_simps]: "fst ` set (AList.update k v d) = insert k (fst ` set d)"
  by (metis dom_map_of_conv_image_fst dom_fun_upd option.distinct(1) update_conv')

lemma fst_set_delete [simp, dict_simps]: "fst ` set (AList.delete k d) = fst ` set d - {k}"
  by (metis delete_keys set_filter delete_conv' dom_fun_upd dom_map_of_conv_image_fst)

lemma dict_set_new: "k \<notin> fst ` set d \<Longrightarrow> AList.update k v d = d @ [(k, v)]"
  by (induction d) auto

lemma map_of_in_iff: "map_of d k \<noteq> None \<longleftrightarrow> k \<in> fst ` set d"
  by (metis map_of_eq_None_iff)

lemma map_of_SomeE: "map_of d k = Some v \<Longrightarrow> k \<in> fst ` set d"
  by (metis map_of_in_iff option.distinct(1))

lemma dict_ok_map_of_set: "dict_ok d \<Longrightarrow> (k, v) \<in> set d \<longleftrightarrow> map_of d k = Some v"
  by (metis map_of_eq_Some_iff)

text \<open>A dictionary restricted to the keys that pass a test, as a comprehension with an
  \<open>if\<close> keeps them.\<close>

lemma map_of_filter_key:
  "map_of (filter (\<lambda>(k, v). P k) d) k = (if P k then map_of d k else None)"
  by (induction d) auto

lemma fold_pop_get:
  "map_of (fold AList.delete ks d) k = (if k \<in> set ks then None else map_of d k)"
  by (induction ks arbitrary: d) auto

lemma fold_pop_ok: "dict_ok d \<Longrightarrow> dict_ok (fold AList.delete ks d)"
  by (induction ks arbitrary: d) auto

lemma fst_set_fold_pop: "fst ` set (fold AList.delete ks d) = fst ` set d - set ks"
  by (induction ks arbitrary: d) auto

section \<open>Strings\<close>

definition code_of :: "char \<Rightarrow> nat" where
  "code_of c = of_char c"

text \<open>\<open>str.strip\<close> removes the white space of Python's \<open>str.isspace\<close>.\<close>

definition is_space :: "char \<Rightarrow> bool" where
  "is_space c = (let n = code_of c in
     (9 \<le> n \<and> n \<le> 13) \<or> (28 \<le> n \<and> n \<le> 32) \<or> n = 133 \<or> n = 160)"

definition rstrip_by :: "(char \<Rightarrow> bool) \<Rightarrow> string \<Rightarrow> string" where
  "rstrip_by p s = rev (dropWhile p (rev s))"

definition strip :: "string \<Rightarrow> string" where
  "strip s = rstrip_by is_space (dropWhile is_space s)"

definition rstrip_char :: "char \<Rightarrow> string \<Rightarrow> string" where
  "rstrip_char c s = rstrip_by (\<lambda>x. x = c) s"

definition startswith :: "string \<Rightarrow> string \<Rightarrow> bool" where
  "startswith s p = (take (length p) s = p)"

definition endswith :: "string \<Rightarrow> string \<Rightarrow> bool" where
  "endswith s p = (length p \<le> length s \<and> drop (length s - length p) s = p)"

definition lower_char :: "char \<Rightarrow> char" where
  "lower_char c = (let n = code_of c in
     if (65 \<le> n \<and> n \<le> 90) \<or> (192 \<le> n \<and> n \<le> 222 \<and> n \<noteq> 215) then char_of (n + 32) else c)"

definition lower :: "string \<Rightarrow> string" where
  "lower s = map lower_char s"

text \<open>\<open>s.split(c)\<close> for a single separator character: never empty.\<close>

fun split_on :: "char \<Rightarrow> string \<Rightarrow> string list" where
  "split_on c [] = [[]]"
| "split_on c (x # xs) =
     (if x = c then [] # split_on c xs
      else case split_on c xs of [] \<Rightarrow> [[x]] | w # ws \<Rightarrow> (x # w) # ws)"

text \<open>\<open>p in s\<close> on strings: substring test.\<close>

fun is_substring :: "string \<Rightarrow> string \<Rightarrow> bool" where
  "is_substring p [] = (p = [])"
| "is_substring p (x # xs) = (startswith (x # xs) p \<or> is_substring p xs)"

text \<open>\<open>posixpath.join\<close> of two components.\<close>

definition path_join :: "string \<Rightarrow> string \<Rightarrow> string" where
  "path_join a b =
     (if startswith b ''/'' then b
      else if a = [] \<or> endswith a ''/'' then a @ b
      else a @ ''/'' @ b)"

lemma split_on_nonempty [simp]: "split_on c s \<noteq> []"
  by (induction s) (auto split: list.splits)

lemma split_on_plain: "c \<notin> set s \<Longrightarrow> split_on c s = [s]"
  by (induction s) auto

lemma dropWhile_dropWhile [simp]: "dropWhile p (dropWhile p xs) = dropWhile p xs"
  by (induction xs) auto

lemma strip_idem_right [simp]: "rstrip_by p (rstrip_by p s) = rstrip_by p s"
  by (simp add: rstrip_by_def)

lemma is_substring_iff: "is_substring p s \<longleftrightarrow> (\<exists>a b. s = a @ p @ b)"
proof (induction s)
  case Nil
  show ?case by auto
next
  case (Cons x xs)
  have "startswith (x # xs) p \<longleftrightarrow> (\<exists>b. x # xs = p @ b)"
    unfolding startswith_def by (metis append_eq_conv_conj append_take_drop_id)
  moreover have "(\<exists>a b. x # xs = a @ p @ b) \<longleftrightarrow>
      (\<exists>b. x # xs = p @ b) \<or> (\<exists>a b. xs = a @ p @ b)"
    by (metis append_Cons append_Nil list.exhaust list.inject)
  ultimately show ?case using Cons.IH by simp
qed

section \<open>bisect.insort\<close>

text \<open>
  \<open>bisect.bisect_right(a, x)\<close>: the loop over \<open>lo\<close> and \<open>hi\<close>, and \<open>insort\<close>, which inserts at
  the position it finds.
\<close>

function bisect_right :: "'a::linorder list \<Rightarrow> 'a \<Rightarrow> nat \<Rightarrow> nat \<Rightarrow> nat" where
  "bisect_right a x lo hi =
     (if lo < hi then
        (let mid = (lo + hi) div 2
         in if x < a ! mid then bisect_right a x lo mid else bisect_right a x (Suc mid) hi)
      else lo)"
  by pat_completeness auto
termination
  by (relation "measure (\<lambda>(a, x, lo, hi). hi - lo)") auto

declare bisect_right.simps [simp del]

definition py_insort :: "'a::linorder list \<Rightarrow> 'a \<Rightarrow> 'a list" where
  "py_insort a x = (let i = bisect_right a x 0 (length a) in take i a @ x # drop i a)"

lemma bisect_right_spec:
  assumes "sorted a" "lo \<le> hi" "hi \<le> length a"
    and "\<forall>i < lo. a ! i \<le> x" and "\<forall>i. hi \<le> i \<and> i < length a \<longrightarrow> x < a ! i"
  shows "bisect_right a x lo hi \<le> length a \<and>
    (\<forall>i < bisect_right a x lo hi. a ! i \<le> x) \<and>
    (\<forall>i. bisect_right a x lo hi \<le> i \<and> i < length a \<longrightarrow> x < a ! i)"
  using assms
proof (induction a x lo hi rule: bisect_right.induct)
  case (1 a x lo hi)
  show ?case
  proof (cases "lo < hi")
    case False
    with "1.prems" show ?thesis by (subst (1 2 3) bisect_right.simps) auto
  next
    case True
    let ?mid = "(lo + hi) div 2"
    from True have mid: "lo \<le> ?mid" "?mid < hi" by auto
    show ?thesis
    proof (cases "x < a ! ?mid")
      case less: True
      have "\<forall>i. ?mid \<le> i \<and> i < length a \<longrightarrow> x < a ! i"
        using less "1.prems"(1) by (meson le_less_trans less_le_trans sorted_nth_mono)
      with "1.IH"(1)[OF True refl less] "1.prems" mid True less show ?thesis
        by (subst (1 2 3) bisect_right.simps) (simp add: Let_def)
    next
      case ge: False
      have "\<forall>i < Suc ?mid. a ! i \<le> x"
      proof (intro allI impI)
        fix i assume i: "i < Suc ?mid"
        have "?mid < length a" using mid(2) "1.prems"(3) by simp
        with i "1.prems"(1) have "a ! i \<le> a ! ?mid" by (simp add: sorted_nth_mono)
        with ge show "a ! i \<le> x" by simp
      qed
      with "1.IH"(2)[OF True refl ge] "1.prems" mid True ge show ?thesis
        by (subst (1 2 3) bisect_right.simps) (simp add: Let_def)
    qed
  qed
qed

lemma py_insort_split:
  assumes "sorted a"
  obtains ys zs where "py_insort a x = ys @ x # zs" "a = ys @ zs"
    "\<forall>y\<in>set ys. y \<le> x" "\<forall>z\<in>set zs. x < z"
proof -
  let ?i = "bisect_right a x 0 (length a)"
  have spec: "?i \<le> length a" "\<forall>i < ?i. a ! i \<le> x" "\<forall>i. ?i \<le> i \<and> i < length a \<longrightarrow> x < a ! i"
    using bisect_right_spec[OF assms, of 0 "length a" x] leD by fastforce+
  show thesis
  proof (rule that)
    show "py_insort a x = take ?i a @ x # drop ?i a" by (simp add: py_insort_def Let_def)
    show "a = take ?i a @ drop ?i a" by simp
    show "\<forall>y\<in>set (take ?i a). y \<le> x" using spec(1,2) by (auto simp: in_set_conv_nth)
    show "\<forall>z\<in>set (drop ?i a). x < z" using spec by (auto simp: in_set_conv_nth)
  qed
qed

lemma sorted_py_insort: "sorted a \<Longrightarrow> sorted (py_insort a x)"
  by (rule py_insort_split[of a x]) (auto simp: sorted_append dest: less_imp_le)

lemma set_py_insort [simp]: "sorted a \<Longrightarrow> set (py_insort a x) = insert x (set a)"
  by (rule py_insort_split[of a x]) auto

lemma distinct_py_insort: "sorted a \<Longrightarrow> distinct (py_insort a x) \<longleftrightarrow> x \<notin> set a \<and> distinct a"
  by (rule py_insort_split[of a x]) auto

lemma py_insort_eq_insort: "sorted a \<Longrightarrow> py_insort a x = insort x a"
proof -
  assume s: "sorted a"
  obtain ys zs where yz: "py_insort a x = ys @ x # zs" "a = ys @ zs"
    "\<forall>y\<in>set ys. y \<le> x" "\<forall>z\<in>set zs. x < z"
    by (rule py_insort_split[OF s])
  have "sort (x # a) = ys @ x # zs"
    using s yz by (intro properties_for_sort) (auto simp: sorted_append dest: less_imp_le)
  with s yz(1) show ?thesis by (simp add: sorted_sort_id)
qed

end
