(* ===== verification/File_Id.thy ===== *)
theory File_Id
  imports Prelude
begin

text \<open>
  File identities: \<open>ModelFile.build_file_id\<close> and the part of the \<open>json\<close> module it needs.

  A scoped identity is the text \<open>json.dumps([path_pair_id, full_path], separators=(",", ":"))\<close>.
  The encoder \<open>dumps_str\<close> and the string scanner \<open>scan_str\<close> of \<open>json\<close> work on lists of code points
  (natural numbers), so that the escapes \<open>\uXXXX\<close> and surrogate pairs are handled in full.
  Every string of the program that has an identity is encoded through \<open>codes\<close>.

  The section on identities states the contract the rest of the program relies on (locale
  \<open>identity_scheme\<close>) and interprets it with \<open>build_file_id\<close>.
\<close>

section \<open>json strings\<close>

definition codes :: "string \<Rightarrow> nat list" where
  "codes s = map of_char s"

lemma inj_codes: "codes s = codes t \<longleftrightarrow> s = t"
  unfolding codes_def by (metis inj_map_eq_map inj_of_char)

lemma codes_bound: "n \<in> set (codes s) \<Longrightarrow> n < 256"
  by (auto simp: codes_def)

definition hex_digit :: "nat \<Rightarrow> char" where
  "hex_digit n = (if n < 10 then char_of (48 + n) else char_of (87 + n))"

definition hex4 :: "nat \<Rightarrow> string" where
  "hex4 n = [hex_digit (n div 4096 mod 16), hex_digit (n div 256 mod 16),
             hex_digit (n div 16 mod 16), hex_digit (n mod 16)]"

text \<open>The replacement table \<open>ESCAPE_DCT\<close> and the \<open>\uXXXX\<close> escapes of \<open>py_encode_basestring_ascii\<close>.\<close>

definition u_escape :: "nat \<Rightarrow> string" where
  "u_escape n = CHR 0x5C # CHR ''u'' # hex4 n"

definition esc_code :: "nat \<Rightarrow> string" where
  "esc_code n =
     (if n = 34 then [CHR 0x5C, CHR 0x22]
      else if n = 92 then [CHR 0x5C, CHR 0x5C]
      else if n = 10 then [CHR 0x5C, CHR ''n'']
      else if n = 13 then [CHR 0x5C, CHR ''r'']
      else if n = 9 then [CHR 0x5C, CHR ''t'']
      else if n = 12 then [CHR 0x5C, CHR ''f'']
      else if n = 8 then [CHR 0x5C, CHR ''b'']
      else if 32 \<le> n \<and> n \<le> 126 then [char_of n]
      else if n < 65536 then u_escape n
      else u_escape (55296 + (n - 65536) div 1024) @ u_escape (56320 + (n - 65536) mod 1024))"

definition dumps_str :: "nat list \<Rightarrow> string" where
  "dumps_str cps = CHR 0x22 # concat (map esc_code cps) @ [CHR 0x22]"

text \<open>The scanner: \<open>py_scanstring\<close> with \<open>strict=True\<close>, started after the opening quote.\<close>

definition hex_val :: "char \<Rightarrow> nat option" where
  "hex_val c = (let n = of_char c :: nat in
     if 48 \<le> n \<and> n \<le> 57 then Some (n - 48)
     else if 97 \<le> n \<and> n \<le> 102 then Some (n - 87)
     else if 65 \<le> n \<and> n \<le> 70 then Some (n - 55)
     else None)"

definition decode_hex4 :: "string \<Rightarrow> (nat \<times> string) option" where
  "decode_hex4 s = (case s of a # b # c # d # r \<Rightarrow>
       (case (hex_val a, hex_val b, hex_val c, hex_val d) of
          (Some w, Some x, Some y, Some z) \<Rightarrow> Some (4096 * w + 256 * x + 16 * y + z, r)
        | _ \<Rightarrow> None)
     | _ \<Rightarrow> None)"

definition backslash :: "char \<Rightarrow> nat option" where
  "backslash c =
     (if c = CHR 0x22 then Some 34 else if c = CHR 0x5C then Some 92
      else if c = CHR ''/'' then Some 47 else if c = CHR ''b'' then Some 8
      else if c = CHR ''f'' then Some 12 else if c = CHR ''n'' then Some 10
      else if c = CHR ''r'' then Some 13 else if c = CHR ''t'' then Some 9 else None)"

text \<open>One \<open>\u\<close> escape, joined with a following low surrogate when it is a high one.\<close>

definition decode_u :: "string \<Rightarrow> (nat \<times> string) option" where
  "decode_u s =
     (case decode_hex4 s of
        None \<Rightarrow> None
      | Some (u, r) \<Rightarrow>
          if 55296 \<le> u \<and> u \<le> 56319 \<and> take 2 r = [CHR 0x5C, CHR ''u''] then
            (case decode_hex4 (drop 2 r) of
               None \<Rightarrow> None
             | Some (u2, r2) \<Rightarrow>
                 if 56320 \<le> u2 \<and> u2 \<le> 57343
                 then Some (65536 + (u - 55296) * 1024 + (u2 - 56320), r2)
                 else Some (u, r))
          else Some (u, r))"

lemma decode_hex4_length: "decode_hex4 s = Some (u, r) \<Longrightarrow> length r < length s"
  by (auto simp: decode_hex4_def split: list.splits option.splits)

lemma decode_u_length: "decode_u s = Some (u, r) \<Longrightarrow> length r < length s"
  by (auto simp: decode_u_def split: option.splits if_splits dest!: decode_hex4_length)

function scan_str :: "string \<Rightarrow> (nat list \<times> string) option" where
  "scan_str [] = None"
| "scan_str (c # s) =
     (if c = CHR 0x22 then Some ([], s)
      else if c = CHR 0x5C then
        (case s of
           [] \<Rightarrow> None
         | e # s' \<Rightarrow>
             (case (if e = CHR ''u'' then decode_u s' else map_option (\<lambda>n. (n, s')) (backslash e)) of
                None \<Rightarrow> None
              | Some (n, r) \<Rightarrow> map_option (\<lambda>(ns, r'). (n # ns, r')) (scan_str r)))
      else if of_char c < (32::nat) then None
      else map_option (\<lambda>(ns, r). (of_char c # ns, r)) (scan_str s))"
  by pat_completeness auto
termination
  by (relation "measure length")
    (auto split: if_splits option.splits dest!: decode_u_length)

declare scan_str.simps(2) [simp del]

lemma hex_val_digit: "n < 16 \<Longrightarrow> hex_val (hex_digit n) = Some n"
  by (auto simp: hex_val_def hex_digit_def Let_def)

lemma base16_step:
  "256 * (k::nat) + 16 * m + r = 16 * (16 * k + m) + r"
  "4096 * (k::nat) + 256 * m = 256 * (16 * k + m)"
  by simp_all

lemma base16_digits:
  "4096 * ((n::nat) div 16 div 16 div 16) + 256 * (n div 16 div 16 mod 16) +
     16 * (n div 16 mod 16) + n mod 16 = n"
proof -
  define q where "q = n div 16"
  define p where "p = q div 16"
  have p: "16 * (p div 16) + p mod 16 = p" and q: "16 * p + q mod 16 = q" and n: "16 * q + n mod 16 = n"
    unfolding p_def q_def by (rule mult_div_mod_eq)+
  have "4096 * (p div 16) + 256 * (p mod 16) + 16 * (q mod 16) + n mod 16 = n"
    by (simp only: base16_step p q n)
  then show ?thesis by (simp only: q_def[symmetric] p_def[symmetric])
qed

lemma decode_hex4_hex4: "n < 65536 \<Longrightarrow> decode_hex4 (hex4 n @ r) = Some (n, r)"
proof -
  assume n: "n < 65536"
  have q: "n div 256 = n div 16 div 16" "n div 4096 = n div 16 div 16 div 16"
    by (simp_all add: div_mult2_eq[symmetric])
  have "n div 16 div 16 div 16 < 16" using n by simp
  then have "n div 16 div 16 div 16 mod 16 = n div 16 div 16 div 16" by simp
  then have d: "n div 4096 mod 16 = n div 4096" unfolding q .
  have h: "n div 4096 < 16" using n by simp
  have "4096 * (n div 4096) + 256 * (n div 256 mod 16) + 16 * (n div 16 mod 16) + n mod 16 = n"
    unfolding q by (rule base16_digits)
  then show ?thesis by (simp add: hex4_def decode_hex4_def d hex_val_digit h)
qed

definition scalar :: "nat \<Rightarrow> bool" where
  "scalar n = (n < 55296 \<or> (57344 \<le> n \<and> n < 1114112))"

lemma decode_u_bmp:
  assumes "n < 55296 \<or> 57344 \<le> n" "n < 65536"
  shows "decode_u (hex4 n @ r) = Some (n, r)"
  using assms by (auto simp: decode_u_def decode_hex4_hex4)

lemma decode_u_pair:
  assumes "65536 \<le> n" "n < 1114112"
  shows "decode_u (hex4 (55296 + (n - 65536) div 1024) @
           u_escape (56320 + (n - 65536) mod 1024) @ r) = Some (n, r)"
proof -
  let ?h = "55296 + (n - 65536) div 1024" and ?l = "56320 + (n - 65536) mod 1024"
  have h: "?h \<le> 56319" "?h < 65536" using assms by auto
  have l: "?l \<le> 57343" "?l < 65536" by (auto simp: less_Suc_eq_le[symmetric])
  have "65536 + (?h - 55296) * 1024 + (?l - 56320) = n"
    using assms(1) by (simp add: div_mult_mod_eq)
  then show ?thesis
    using h l by (simp add: decode_u_def decode_hex4_hex4 u_escape_def)
qed

lemma scan_str_plain:
  assumes "32 \<le> n" "n \<le> 126" "n \<noteq> 34" "n \<noteq> 92"
  shows "scan_str (char_of n # s) = map_option (\<lambda>(ns, r). (n # ns, r)) (scan_str s)"
proof -
  have "char_of n \<noteq> CHR 0x22" "char_of n \<noteq> CHR 0x5C"
    using assms by (auto dest!: arg_cong[where f = "of_char :: char \<Rightarrow> nat"])
  with assms show ?thesis by (simp add: scan_str.simps(2))
qed

lemma scan_str_esc:
  assumes "scalar n"
  shows "scan_str (esc_code n @ s) = map_option (\<lambda>(ns, r). (n # ns, r)) (scan_str s)"
proof -
  consider "n \<in> {34, 92, 10, 13, 9, 12, 8}" | "32 \<le> n \<and> n \<le> 126 \<and> n \<noteq> 34 \<and> n \<noteq> 92"
    | "n \<notin> {34, 92, 10, 13, 9, 12, 8}" "\<not> (32 \<le> n \<and> n \<le> 126)" "n < 65536"
    | "65536 \<le> n"
    by fastforce
  then show ?thesis
  proof cases
    case 1
    then show ?thesis by (auto simp: esc_code_def backslash_def scan_str.simps(2))
  next
    case 2
    then show ?thesis by (simp add: esc_code_def scan_str_plain)
  next
    case 3
    with assms show ?thesis
      by (auto simp: esc_code_def u_escape_def decode_u_bmp scalar_def scan_str.simps(2))
  next
    case 4
    with assms have "n < 1114112" by (auto simp: scalar_def)
    with 4 show ?thesis
      by (simp add: esc_code_def u_escape_def[of "55296 + _"] decode_u_pair scan_str.simps(2))
  qed
qed

text \<open>Scanning what the encoder wrote gives the string back, and leaves the text after it.\<close>

lemma scan_str_dumps:
  assumes "\<forall>n\<in>set cps. scalar n"
  shows "scan_str (concat (map esc_code cps) @ CHR 0x22 # r) = Some (cps, r)"
  using assms by (induction cps) (simp_all add: scan_str_esc scan_str.simps(2))

lemma dumps_str_prefix_inj:
  assumes "\<forall>n\<in>set a. scalar n" "\<forall>n\<in>set b. scalar n" "dumps_str a @ r = dumps_str b @ q"
  shows "a = b \<and> r = q"
proof -
  have "concat (map esc_code a) @ CHR 0x22 # r = concat (map esc_code b) @ CHR 0x22 # q"
    using assms(3) by (simp add: dumps_str_def)
  then have "Some (a, r) = Some (b, q)"
    by (metis scan_str_dumps[OF assms(1), of r] scan_str_dumps[OF assms(2), of q])
  then show ?thesis by simp
qed

lemma scalar_codes: "\<forall>n\<in>set (codes s). scalar n"
  by (auto simp: scalar_def dest: codes_bound)

section \<open>Identities\<close>

definition build_file_id :: "string \<Rightarrow> string option \<Rightarrow> string" where
  "build_file_id full_path path_pair_id =
     (case path_pair_id of
        None \<Rightarrow> full_path
      | Some p \<Rightarrow> CHR ''['' # dumps_str (codes p) @ CHR '','' # dumps_str (codes full_path) @ [CHR '']''])"

text \<open>
  What the program relies on: within the paths of one scheme, a scope and a path are recovered from
  their identity. The Model keys its roots by identity, the persisted markers are keyed by it, and
  the status parser joins jobs with roots by it.
\<close>

locale identity_scheme =
  fixes ident :: "'path \<Rightarrow> 'scope option \<Rightarrow> string"
    and good :: "'path \<Rightarrow> 'scope option \<Rightarrow> bool"
  assumes ident_inject:
    "good p s \<Longrightarrow> good p' s' \<Longrightarrow> ident p s = ident p' s' \<Longrightarrow> p = p' \<and> s = s'"
begin

lemma same_path_other_scope: "good p s \<Longrightarrow> good p s' \<Longrightarrow> s \<noteq> s' \<Longrightarrow> ident p s \<noteq> ident p s'"
  using ident_inject by blast

lemma inj_on_paths: "(\<And>p. p \<in> P \<Longrightarrow> good p s) \<Longrightarrow> inj_on (\<lambda>p. ident p s) P"
  by (rule inj_onI) (use ident_inject in blast)

lemma ident_eq_iff: "good p s \<Longrightarrow> good p' s' \<Longrightarrow> ident p s = ident p' s' \<longleftrightarrow> p = p' \<and> s = s'"
  using ident_inject by blast

end

text \<open>
  An unscoped path is its own identity, so it collides with a scoped identity exactly when it is
  spelled like one: a list of two strings in JSON. Every other path is plain, also one that only
  starts with a bracket.
\<close>

definition scan_quoted :: "string \<Rightarrow> (nat list \<times> string) option" where
  "scan_quoted s = (case s of [] \<Rightarrow> None | c # r \<Rightarrow> if c = CHR 0x22 then scan_str r else None)"

definition spelled_scoped :: "string \<Rightarrow> bool" where
  "spelled_scoped p \<longleftrightarrow>
     startswith p ''['' \<and>
     (case scan_quoted (drop 1 p) of
        None \<Rightarrow> False
      | Some (a, r) \<Rightarrow>
          startswith r '','' \<and>
          (case scan_quoted (drop 1 r) of None \<Rightarrow> False | Some (b, q) \<Rightarrow> q = '']''))"

definition plain_path :: "string \<Rightarrow> string option \<Rightarrow> bool" where
  "plain_path p s = (s = None \<longrightarrow> \<not> spelled_scoped p)"

lemma scan_quoted_dumps: "\<forall>n\<in>set cps. scalar n \<Longrightarrow> scan_quoted (dumps_str cps @ r) = Some (cps, r)"
  by (simp add: scan_quoted_def dumps_str_def scan_str_dumps)

lemma scoped_id_spelled: "spelled_scoped (build_file_id p (Some s))"
  by (simp add: spelled_scoped_def build_file_id_def startswith_def scan_quoted_dumps scalar_codes)

lemma build_file_id_scoped_inj:
  assumes "build_file_id p (Some s) = build_file_id p' (Some s')"
  shows "p = p' \<and> s = s'"
proof -
  have eq: "dumps_str (codes s) @ CHR '','' # dumps_str (codes p) @ [CHR '']''] =
      dumps_str (codes s') @ CHR '','' # dumps_str (codes p') @ [CHR '']'']"
    using assms by (simp add: build_file_id_def)
  have "codes s = codes s'"
    and r: "CHR '','' # dumps_str (codes p) @ [CHR '']''] = CHR '','' # dumps_str (codes p') @ [CHR '']'']"
    using dumps_str_prefix_inj[OF scalar_codes scalar_codes eq] by auto
  moreover from r have "dumps_str (codes p) @ [] = dumps_str (codes p') @ []" by simp
  then have "codes p = codes p'"
    using dumps_str_prefix_inj[OF scalar_codes scalar_codes] by blast
  ultimately show ?thesis by (simp add: inj_codes)
qed

interpretation file_id: identity_scheme build_file_id plain_path
proof unfold_locales
  fix p s p' s'
  assume good: "plain_path p s" "plain_path p' s'" and eq: "build_file_id p s = build_file_id p' s'"
  have unscoped: "build_file_id q None = q" for q by (simp add: build_file_id_def)
  have clash: False if "plain_path q' None" "q' = build_file_id q (Some t)" for q t q'
    using that scoped_id_spelled[of q t] by (simp add: plain_path_def)
  show "p = p' \<and> s = s'"
  proof (cases s; cases s')
    assume "s = None" "s' = None"
    with eq show ?thesis by (simp only: unscoped)
  next
    fix t assume s: "s = None" "s' = Some t"
    from eq have "p = build_file_id p' (Some t)" unfolding s unscoped .
    with good(1) show ?thesis unfolding s(1) by (rule clash[THEN FalseE])
  next
    fix t assume s: "s = Some t" "s' = None"
    from eq have "p' = build_file_id p (Some t)" unfolding s unscoped by (rule sym)
    with good(2) show ?thesis unfolding s(2) by (rule clash[THEN FalseE])
  next
    fix t t' assume "s = Some t" "s' = Some t'"
    with eq show ?thesis using build_file_id_scoped_inj by blast
  qed
qed

end
