(* ===== verification/Model_File.thy ===== *)
theory Model_File
  imports File_Id
begin

unbundle bit_operations_syntax

text \<open>
  \<open>model/file.py\<close>: the class \<open>ModelFile\<close>.

  The slots of an object are the record \<open>file_attrs\<close>; a file is its attributes and its list of
  children. The \<open>__flags\<close> slot is the integer bit set of the source and the \<open>__runtime\<close> slot
  its sparse dictionary, which holds only values that differ from their default. A parent
  pointer is kept as the full path of the parent, all that the code reads through it besides its
  presence; \<open>fa_ident\<close> is the identity of the object, which Python's \<open>is\<close> compares.
  A \<open>datetime\<close> is a number.

  A property setter of the source is a function \<open>set_x :: pyval \<Rightarrow> model_file \<Rightarrow> model_file result\<close>
  with the checks and the errors of the source, over a total function \<open>put_x\<close> that stores an
  accepted value. The locale \<open>sparse_attribute\<close> states what a reader of an attribute kept in
  \<open>__runtime\<close> relies on; each such attribute interprets it.
\<close>

section \<open>Data\<close>

datatype file_state =
    DEFAULT | DOWNLOADING | QUEUED | DOWNLOADED | DELETED | EXTRACTING | EXTRACTED
  | VALIDATING | VALIDATED | CORRUPT | MOVE_FAILED

definition state_of_enum :: "int \<Rightarrow> file_state option" where
  "state_of_enum n =
     (if n = 0 then Some DEFAULT else if n = 1 then Some DOWNLOADING else if n = 2 then Some QUEUED
      else if n = 3 then Some DOWNLOADED else if n = 4 then Some DELETED
      else if n = 5 then Some EXTRACTING else if n = 6 then Some EXTRACTED
      else if n = 7 then Some VALIDATING else if n = 8 then Some VALIDATED
      else if n = 9 then Some CORRUPT else if n = 10 then Some MOVE_FAILED else None)"

record file_attrs =
  fa_ident :: nat
  fa_name :: string
  fa_flags :: int
  fa_state :: file_state
  fa_remote_size :: "int option"
  fa_local_size :: "int option"
  fa_local_created :: "int option"
  fa_local_modified :: "int option"
  fa_remote_created :: "int option"
  fa_remote_modified :: "int option"
  fa_runtime :: "(string, pyval) dict option"
  fa_update_timestamp :: int
  fa_parent_path :: "string option"
  fa_path_pair_id :: "string option"
  fa_path_pair_name :: "string option"

datatype model_file = ModelFile (attrs: file_attrs) (kids: "model_file list")

definition upd :: "(file_attrs \<Rightarrow> file_attrs) \<Rightarrow> model_file \<Rightarrow> model_file" where
  "upd g f = ModelFile (g (attrs f)) (kids f)"

lemma upd_simps [simp]: "attrs (upd g f) = g (attrs f)" "kids (upd g f) = kids f"
  by (simp_all add: upd_def)

lemma upd_upd [simp]: "upd g (upd h f) = upd (\<lambda>a. g (h a)) f"
  by (simp add: upd_def)

abbreviation DIR :: int where "DIR \<equiv> 1"
abbreviation REMOTE_PRESENT :: int where "REMOTE_PRESENT \<equiv> 2"
abbreviation LOCAL_PRESENT :: int where "LOCAL_PRESENT \<equiv> 4"
abbreviation REMOTE_CONTENT :: int where "REMOTE_CONTENT \<equiv> 8"
abbreviation REMOTE_PRESENT_EXPLICIT :: int where "REMOTE_PRESENT_EXPLICIT \<equiv> 16"
abbreviation LOCAL_PRESENT_EXPLICIT :: int where "LOCAL_PRESENT_EXPLICIT \<equiv> 32"
abbreviation REMOTE_CONTENT_EXPLICIT :: int where "REMOTE_CONTENT_EXPLICIT \<equiv> 64"

definition new_model_file :: "nat \<Rightarrow> int \<Rightarrow> string \<Rightarrow> bool \<Rightarrow> model_file" where
  "new_model_file ident now name is_dir =
     ModelFile \<lparr>fa_ident = ident, fa_name = name, fa_flags = (if is_dir then DIR else 0),
       fa_state = DEFAULT, fa_remote_size = None, fa_local_size = None,
       fa_local_created = None, fa_local_modified = None,
       fa_remote_created = None, fa_remote_modified = None,
       fa_runtime = None, fa_update_timestamp = now, fa_parent_path = None,
       fa_path_pair_id = None, fa_path_pair_name = None\<rparr> []"

section \<open>Flags\<close>

definition get_flag :: "int \<Rightarrow> file_attrs \<Rightarrow> bool" where
  "get_flag k a = (fa_flags a AND k \<noteq> 0)"

definition set_flag :: "int \<Rightarrow> bool \<Rightarrow> file_attrs \<Rightarrow> file_attrs" where
  "set_flag k v a = a\<lparr>fa_flags := if v then fa_flags a OR k else fa_flags a AND NOT k\<rparr>"

lemma set_flag_field [simp]:
  "fa_ident (set_flag k v a) = fa_ident a" "fa_name (set_flag k v a) = fa_name a"
  "fa_state (set_flag k v a) = fa_state a" "fa_remote_size (set_flag k v a) = fa_remote_size a"
  "fa_local_size (set_flag k v a) = fa_local_size a" "fa_runtime (set_flag k v a) = fa_runtime a"
  "fa_local_created (set_flag k v a) = fa_local_created a"
  "fa_local_modified (set_flag k v a) = fa_local_modified a"
  "fa_remote_created (set_flag k v a) = fa_remote_created a"
  "fa_remote_modified (set_flag k v a) = fa_remote_modified a"
  "fa_update_timestamp (set_flag k v a) = fa_update_timestamp a"
  "fa_parent_path (set_flag k v a) = fa_parent_path a"
  "fa_path_pair_id (set_flag k v a) = fa_path_pair_id a"
  "fa_path_pair_name (set_flag k v a) = fa_path_pair_name a"
  by (simp_all add: set_flag_def)

lemma get_flag_bit: "get_flag (2 ^ i) a = bit (fa_flags a) i"
  by (simp add: get_flag_def and_exp_eq_0_iff_not_bit)

lemma get_set_flag_exp:
  "get_flag (2 ^ i) (set_flag (2 ^ j) v a) = (if i = j then v else get_flag (2 ^ i) a)"
  by (auto simp: get_flag_bit set_flag_def bit_or_iff bit_and_iff bit_not_iff bit_exp_iff)

lemma mask_exp:
  "(1::int) = 2 ^ 0" "(2::int) = 2 ^ 1" "(4::int) = 2 ^ 2" "(8::int) = 2 ^ 3"
  "(16::int) = 2 ^ 4" "(32::int) = 2 ^ 5" "(64::int) = 2 ^ 6"
  by simp_all

text \<open>Setting one bit is read back, and changes no other bit of the seven.\<close>

definition flag_masks :: "int set" where
  "flag_masks = {1, 2, 4, 8, 16, 32, 64}"

lemma flag_masksE:
  assumes "k \<in> flag_masks"
  obtains i where "k = 2 ^ i"
proof -
  have "flag_masks \<subseteq> range (\<lambda>i. 2 ^ i)"
    unfolding flag_masks_def using mask_exp by (metis empty_subsetI insert_subset rangeI)
  with assms that show thesis by blast
qed

lemma get_set_flag:
  assumes "k \<in> flag_masks" "m \<in> flag_masks"
  shows "get_flag k (set_flag m v a) = (if k = m then v else get_flag k a)"
proof -
  obtain i j where ij: "k = 2 ^ i" "m = 2 ^ j"
    using assms by (metis flag_masksE)
  have "(2::int) ^ i = 2 ^ j \<longleftrightarrow> i = j" by simp
  then show ?thesis unfolding ij using get_set_flag_exp[of i j v a] by simp
qed

lemma flag_masks_mem [simp]:
  "1 \<in> flag_masks" "2 \<in> flag_masks" "4 \<in> flag_masks" "8 \<in> flag_masks"
  "16 \<in> flag_masks" "32 \<in> flag_masks" "64 \<in> flag_masks"
  by (simp_all add: flag_masks_def)

lemma get_flag_field [simp]:
  "get_flag k (a\<lparr>fa_state := s\<rparr>) = get_flag k a" "get_flag k (a\<lparr>fa_remote_size := z\<rparr>) = get_flag k a"
  "get_flag k (a\<lparr>fa_local_size := z\<rparr>) = get_flag k a" "get_flag k (a\<lparr>fa_runtime := r\<rparr>) = get_flag k a"
  "get_flag k (a\<lparr>fa_local_created := t\<rparr>) = get_flag k a"
  "get_flag k (a\<lparr>fa_local_modified := t\<rparr>) = get_flag k a"
  "get_flag k (a\<lparr>fa_remote_created := t\<rparr>) = get_flag k a"
  "get_flag k (a\<lparr>fa_remote_modified := t\<rparr>) = get_flag k a"
  "get_flag k (a\<lparr>fa_update_timestamp := u\<rparr>) = get_flag k a"
  "get_flag k (a\<lparr>fa_parent_path := p\<rparr>) = get_flag k a"
  "get_flag k (a\<lparr>fa_path_pair_id := p\<rparr>) = get_flag k a"
  "get_flag k (a\<lparr>fa_path_pair_name := p\<rparr>) = get_flag k a"
  by (simp_all add: get_flag_def)

section \<open>The runtime dictionary\<close>

definition runtime_value :: "string \<Rightarrow> pyval \<Rightarrow> file_attrs \<Rightarrow> pyval" where
  "runtime_value key dflt a =
     (case fa_runtime a of
        None \<Rightarrow> dflt
      | Some d \<Rightarrow> (case map_of d key of None \<Rightarrow> dflt | Some v \<Rightarrow> v))"

definition set_runtime :: "string \<Rightarrow> pyval \<Rightarrow> pyval \<Rightarrow> file_attrs \<Rightarrow> file_attrs" where
  "set_runtime key value dflt a =
     (if value = dflt then
        (case fa_runtime a of
           None \<Rightarrow> a
         | Some d \<Rightarrow>
             (let d' = dict_pop key d in a\<lparr>fa_runtime := if d' = [] then None else Some d'\<rparr>))
      else a\<lparr>fa_runtime :=
             Some (dict_set key value (case fa_runtime a of None \<Rightarrow> [] | Some d \<Rightarrow> d))\<rparr>)"

lemma set_runtime_field [simp]:
  "fa_ident (set_runtime k v d a) = fa_ident a" "fa_name (set_runtime k v d a) = fa_name a"
  "fa_flags (set_runtime k v d a) = fa_flags a" "fa_state (set_runtime k v d a) = fa_state a"
  "fa_remote_size (set_runtime k v d a) = fa_remote_size a"
  "fa_local_size (set_runtime k v d a) = fa_local_size a"
  "fa_local_created (set_runtime k v d a) = fa_local_created a"
  "fa_local_modified (set_runtime k v d a) = fa_local_modified a"
  "fa_remote_created (set_runtime k v d a) = fa_remote_created a"
  "fa_remote_modified (set_runtime k v d a) = fa_remote_modified a"
  "fa_update_timestamp (set_runtime k v d a) = fa_update_timestamp a"
  "fa_parent_path (set_runtime k v d a) = fa_parent_path a"
  "fa_path_pair_id (set_runtime k v d a) = fa_path_pair_id a"
  "fa_path_pair_name (set_runtime k v d a) = fa_path_pair_name a"
  by (simp_all add: set_runtime_def Let_def split: option.splits)

lemma get_flag_set_runtime [simp]: "get_flag m (set_runtime k v d a) = get_flag m a"
  by (simp add: get_flag_def)

lemma runtime_value_field [simp]:
  "runtime_value k d (set_flag m v a) = runtime_value k d a"
  "runtime_value k d (a\<lparr>fa_state := s\<rparr>) = runtime_value k d a"
  "runtime_value k d (a\<lparr>fa_remote_size := z\<rparr>) = runtime_value k d a"
  "runtime_value k d (a\<lparr>fa_local_size := z\<rparr>) = runtime_value k d a"
  "runtime_value k d (a\<lparr>fa_local_created := t\<rparr>) = runtime_value k d a"
  "runtime_value k d (a\<lparr>fa_local_modified := t\<rparr>) = runtime_value k d a"
  "runtime_value k d (a\<lparr>fa_remote_created := t\<rparr>) = runtime_value k d a"
  "runtime_value k d (a\<lparr>fa_remote_modified := t\<rparr>) = runtime_value k d a"
  "runtime_value k d (a\<lparr>fa_update_timestamp := u\<rparr>) = runtime_value k d a"
  "runtime_value k d (a\<lparr>fa_parent_path := p\<rparr>) = runtime_value k d a"
  "runtime_value k d (a\<lparr>fa_path_pair_id := p\<rparr>) = runtime_value k d a"
  "runtime_value k d (a\<lparr>fa_path_pair_name := p\<rparr>) = runtime_value k d a"
  by (simp_all add: runtime_value_def)

lemma delete_Nil_lookup: "AList.delete k d = [] \<Longrightarrow> k' \<noteq> k \<Longrightarrow> map_of d k' = None"
  by (metis delete_conv' fun_upd_other map_of.simps(1))

lemma runtime_value_same [simp]: "runtime_value k d (set_runtime k v d a) = v"
  by (auto simp: runtime_value_def set_runtime_def Let_def split: option.splits if_splits)

lemma runtime_value_other [simp]:
  "k' \<noteq> k \<Longrightarrow> runtime_value k' d' (set_runtime k v d a) = runtime_value k' d' a"
  by (auto simp: runtime_value_def set_runtime_def Let_def dest: delete_Nil_lookup
      split: option.splits if_splits)

text \<open>The dictionary is allocated only while it holds something.\<close>

definition runtime_ok :: "file_attrs \<Rightarrow> bool" where
  "runtime_ok a = (case fa_runtime a of None \<Rightarrow> True | Some d \<Rightarrow> d \<noteq> [] \<and> dict_ok d)"

lemma update_not_Nil [simp]: "AList.update k v d \<noteq> []"
  by (cases d) auto

lemma runtime_ok_set: "runtime_ok a \<Longrightarrow> runtime_ok (set_runtime k v d a)"
  by (auto simp: runtime_ok_def set_runtime_def Let_def intro: distinct_update distinct_delete
      split: option.splits)

text \<open>What the readers of an attribute in the dictionary rely on.\<close>

locale sparse_attribute =
  fixes key :: string
    and dflt :: pyval
    and enc :: "'a \<Rightarrow> pyval"
    and dec :: "pyval \<Rightarrow> 'a"
  assumes dec_enc: "dec (enc x) = x"
begin

lemma get_put: "dec (runtime_value key dflt (set_runtime key (enc x) dflt a)) = x"
  by (simp add: dec_enc)

lemma put_put:
  "runtime_value k d (set_runtime key (enc x) dflt (set_runtime key (enc y) dflt a)) =
   runtime_value k d (set_runtime key (enc x) dflt a)"
  by (cases "k = key")
    (auto simp: runtime_value_def set_runtime_def Let_def dest: delete_Nil_lookup
      split: option.splits if_splits)

lemma unset_default: "runtime_ok a \<Longrightarrow> fa_runtime a = None \<Longrightarrow>
    fa_runtime (set_runtime key dflt dflt a) = None"
  by (simp add: set_runtime_def)

end


section \<open>Reading attributes\<close>

definition as_opt_int :: "pyval \<Rightarrow> int option" where
  "as_opt_int v = (case v of PInt n \<Rightarrow> Some n | _ \<Rightarrow> None)"

definition as_opt_date :: "pyval \<Rightarrow> int option" where
  "as_opt_date v = (case v of PDate n \<Rightarrow> Some n | _ \<Rightarrow> None)"

definition as_opt_str :: "pyval \<Rightarrow> string option" where
  "as_opt_str v = (case v of PStr s \<Rightarrow> Some s | _ \<Rightarrow> None)"

text \<open>Python's truth value.\<close>

definition as_bool :: "pyval \<Rightarrow> bool" where
  "as_bool v =
     (case v of
        PNone \<Rightarrow> False | PBool b \<Rightarrow> b | PInt n \<Rightarrow> n \<noteq> 0 | PFloat x \<Rightarrow> x \<noteq> FFinite 0
      | PStr s \<Rightarrow> s \<noteq> [] | PList xs \<Rightarrow> xs \<noteq> [] | PDict d \<Rightarrow> d \<noteq> [] | PDate _ \<Rightarrow> True | PEnum _ _ \<Rightarrow> True)"

definition as_opt_ints :: "pyval \<Rightarrow> int list option" where
  "as_opt_ints v =
     (case v of PList xs \<Rightarrow> Some (map (\<lambda>x. case x of PInt n \<Rightarrow> n | _ \<Rightarrow> 0) xs) | _ \<Rightarrow> None)"

definition of_opt_ints :: "int list option \<Rightarrow> pyval" where
  "of_opt_ints v = (case v of None \<Rightarrow> PNone | Some ns \<Rightarrow> PList (map PInt ns))"

lemma as_of [simp]:
  "as_opt_int (of_opt_int v) = v" "as_opt_date (of_opt_date v) = v"
  "as_opt_str (of_opt_str u) = u" "as_bool (PBool b) = b" "as_opt_ints (of_opt_ints w) = w"
  by (auto simp: as_opt_int_def of_opt_int_def as_opt_date_def of_opt_date_def as_opt_str_def
      of_opt_str_def as_bool_def as_opt_ints_def of_opt_ints_def comp_def split: option.splits)

abbreviation a_is_dir :: "file_attrs \<Rightarrow> bool" where
  "a_is_dir a \<equiv> get_flag DIR a"

abbreviation a_remote_present :: "file_attrs \<Rightarrow> bool" where
  "a_remote_present a \<equiv> get_flag REMOTE_PRESENT a"

abbreviation a_local_present :: "file_attrs \<Rightarrow> bool" where
  "a_local_present a \<equiv> get_flag LOCAL_PRESENT a"

abbreviation a_remote_content :: "file_attrs \<Rightarrow> bool" where
  "a_remote_content a \<equiv> get_flag REMOTE_CONTENT a"

definition a_transferred_size :: "file_attrs \<Rightarrow> int option" where
  "a_transferred_size a = as_opt_int (runtime_value ''transferred_size'' PNone a)"

definition a_display_size_total :: "file_attrs \<Rightarrow> int option" where
  "a_display_size_total a = as_opt_int (runtime_value ''display_size_total'' PNone a)"

definition a_display_transferred_size :: "file_attrs \<Rightarrow> int option" where
  "a_display_transferred_size a = as_opt_int (runtime_value ''display_transferred_size'' PNone a)"

definition a_download_progress :: "file_attrs \<Rightarrow> int option" where
  "a_download_progress a = as_opt_int (runtime_value ''download_progress'' PNone a)"

definition a_downloading_speed :: "file_attrs \<Rightarrow> int option" where
  "a_downloading_speed a = as_opt_int (runtime_value ''downloading_speed'' PNone a)"

definition a_eta :: "file_attrs \<Rightarrow> int option" where
  "a_eta a = as_opt_int (runtime_value ''eta'' PNone a)"

definition a_is_extractable :: "file_attrs \<Rightarrow> bool" where
  "a_is_extractable a = as_bool (runtime_value ''is_extractable'' (PBool False) a)"

definition a_is_stoppable :: "file_attrs \<Rightarrow> bool" where
  "a_is_stoppable a = as_bool (runtime_value ''is_stoppable'' (PBool False) a)"

definition a_explicitly_stopped :: "file_attrs \<Rightarrow> bool" where
  "a_explicitly_stopped a = as_bool (runtime_value ''explicitly_stopped'' (PBool False) a)"

definition a_complete_local_coverage :: "file_attrs \<Rightarrow> bool" where
  "a_complete_local_coverage a = as_bool (runtime_value ''complete_local_coverage'' (PBool False) a)"

definition a_resume_checkpoint_present :: "file_attrs \<Rightarrow> bool" where
  "a_resume_checkpoint_present a = as_bool (runtime_value ''resume_checkpoint_present'' (PBool False) a)"

definition a_downloaded_timestamp :: "file_attrs \<Rightarrow> int option" where
  "a_downloaded_timestamp a = as_opt_date (runtime_value ''downloaded_timestamp'' PNone a)"

definition a_validation_progress :: "file_attrs \<Rightarrow> int option" where
  "a_validation_progress a = as_opt_int (runtime_value ''validation_progress'' PNone a)"

definition a_validation_error :: "file_attrs \<Rightarrow> string option" where
  "a_validation_error a = as_opt_str (runtime_value ''validation_error'' PNone a)"

definition a_corrupt_chunks :: "file_attrs \<Rightarrow> int list option" where
  "a_corrupt_chunks a = as_opt_ints (runtime_value ''corrupt_chunks'' PNone a)"

definition a_final_move_succeeded :: "file_attrs \<Rightarrow> bool" where
  "a_final_move_succeeded a = as_bool (runtime_value ''final_move_succeeded'' (PBool False) a)"

definition a_final_move_pending :: "file_attrs \<Rightarrow> bool" where
  "a_final_move_pending a = as_bool (runtime_value ''final_move_pending'' (PBool False) a)"

lemmas runtime_getters =
  a_transferred_size_def a_display_size_total_def a_display_transferred_size_def
  a_download_progress_def a_downloading_speed_def a_eta_def a_is_extractable_def
  a_is_stoppable_def a_explicitly_stopped_def a_complete_local_coverage_def
  a_resume_checkpoint_present_def a_downloaded_timestamp_def a_validation_progress_def
  a_validation_error_def a_corrupt_chunks_def a_final_move_succeeded_def a_final_move_pending_def

text \<open>The seventeen attributes kept in the dictionary satisfy the contract.\<close>

interpretation transferred_size: sparse_attribute "''transferred_size''" PNone of_opt_int as_opt_int
  by unfold_locales simp

interpretation display_size_total: sparse_attribute "''display_size_total''" PNone of_opt_int as_opt_int
  by unfold_locales simp

interpretation display_transferred_size:
  sparse_attribute "''display_transferred_size''" PNone of_opt_int as_opt_int
  by unfold_locales simp

interpretation download_progress: sparse_attribute "''download_progress''" PNone of_opt_int as_opt_int
  by unfold_locales simp

interpretation downloading_speed: sparse_attribute "''downloading_speed''" PNone of_opt_int as_opt_int
  by unfold_locales simp

interpretation eta: sparse_attribute "''eta''" PNone of_opt_int as_opt_int
  by unfold_locales simp

interpretation is_extractable: sparse_attribute "''is_extractable''" "PBool False" PBool as_bool
  by unfold_locales simp

interpretation is_stoppable: sparse_attribute "''is_stoppable''" "PBool False" PBool as_bool
  by unfold_locales simp

interpretation explicitly_stopped: sparse_attribute "''explicitly_stopped''" "PBool False" PBool as_bool
  by unfold_locales simp

interpretation complete_local_coverage:
  sparse_attribute "''complete_local_coverage''" "PBool False" PBool as_bool
  by unfold_locales simp

interpretation resume_checkpoint_present:
  sparse_attribute "''resume_checkpoint_present''" "PBool False" PBool as_bool
  by unfold_locales simp

interpretation downloaded_timestamp:
  sparse_attribute "''downloaded_timestamp''" PNone of_opt_date as_opt_date
  by unfold_locales simp

interpretation validation_progress: sparse_attribute "''validation_progress''" PNone of_opt_int as_opt_int
  by unfold_locales simp

interpretation validation_error: sparse_attribute "''validation_error''" PNone of_opt_str as_opt_str
  by unfold_locales simp

interpretation corrupt_chunks: sparse_attribute "''corrupt_chunks''" PNone of_opt_ints as_opt_ints
  by unfold_locales simp

interpretation final_move_succeeded:
  sparse_attribute "''final_move_succeeded''" "PBool False" PBool as_bool
  by unfold_locales simp

interpretation final_move_pending: sparse_attribute "''final_move_pending''" "PBool False" PBool as_bool
  by unfold_locales simp

section \<open>Writing attributes\<close>

text \<open>Total writers, for values the checks accept.\<close>

definition sized_content :: "int option \<Rightarrow> bool \<Rightarrow> bool" where
  "sized_content z is_dir = (case z of None \<Rightarrow> False | Some n \<Rightarrow> \<not> is_dir \<or> 0 < n)"

definition put_remote_size :: "int option \<Rightarrow> file_attrs \<Rightarrow> file_attrs" where
  "put_remote_size z a =
     (let a1 = a\<lparr>fa_remote_size := z\<rparr>;
          a2 = (if get_flag REMOTE_PRESENT_EXPLICIT a1 then a1 else set_flag REMOTE_PRESENT (z \<noteq> None) a1)
      in if get_flag REMOTE_CONTENT_EXPLICIT a2 then a2
         else set_flag REMOTE_CONTENT (sized_content z (a_is_dir a2)) a2)"

definition put_local_size :: "int option \<Rightarrow> file_attrs \<Rightarrow> file_attrs" where
  "put_local_size z a =
     (let a1 = a\<lparr>fa_local_size := z\<rparr>
      in if get_flag LOCAL_PRESENT_EXPLICIT a1 then a1 else set_flag LOCAL_PRESENT (z \<noteq> None) a1)"

definition put_remote_present :: "bool \<Rightarrow> file_attrs \<Rightarrow> file_attrs" where
  "put_remote_present b a = set_flag REMOTE_PRESENT b (set_flag REMOTE_PRESENT_EXPLICIT True a)"

definition put_local_present :: "bool \<Rightarrow> file_attrs \<Rightarrow> file_attrs" where
  "put_local_present b a = set_flag LOCAL_PRESENT b (set_flag LOCAL_PRESENT_EXPLICIT True a)"

definition put_remote_content :: "bool \<Rightarrow> file_attrs \<Rightarrow> file_attrs" where
  "put_remote_content b a = set_flag REMOTE_CONTENT b (set_flag REMOTE_CONTENT_EXPLICIT True a)"

abbreviation put_opt_int :: "string \<Rightarrow> int option \<Rightarrow> file_attrs \<Rightarrow> file_attrs" where
  "put_opt_int key v \<equiv> set_runtime key (of_opt_int v) PNone"

abbreviation put_bool :: "string \<Rightarrow> bool \<Rightarrow> file_attrs \<Rightarrow> file_attrs" where
  "put_bool key b \<equiv> set_runtime key (PBool b) (PBool False)"

text \<open>The setters of the source, with their checks.\<close>

definition set_state :: "pyval \<Rightarrow> model_file \<Rightarrow> model_file result" where
  "set_state v f =
     (case v of
        PEnum c n \<Rightarrow>
          (if c = ''ModelFile.State'' then
             (case state_of_enum n of
                None \<Rightarrow> Inl TypeError
              | Some s \<Rightarrow> Inr (upd (\<lambda>a. a\<lparr>fa_state := s\<rparr>) f))
           else Inl TypeError)
      | _ \<Rightarrow> Inl TypeError)"

definition set_remote_size :: "pyval \<Rightarrow> model_file \<Rightarrow> model_file result" where
  "set_remote_size v f =
     (case v of
        PInt n \<Rightarrow> if n < 0 then Inl ValueError else Inr (upd (put_remote_size (Some n)) f)
      | PNone \<Rightarrow> Inr (upd (put_remote_size None) f)
      | _ \<Rightarrow> Inl TypeError)"

definition set_local_size :: "pyval \<Rightarrow> model_file \<Rightarrow> model_file result" where
  "set_local_size v f =
     (case v of
        PInt n \<Rightarrow> if n < 0 then Inl ValueError else Inr (upd (put_local_size (Some n)) f)
      | PNone \<Rightarrow> Inr (upd (put_local_size None) f)
      | _ \<Rightarrow> Inl TypeError)"

definition set_remote_present :: "pyval \<Rightarrow> model_file \<Rightarrow> model_file result" where
  "set_remote_present v f =
     (case v of PBool b \<Rightarrow> Inr (upd (put_remote_present b) f) | _ \<Rightarrow> Inl TypeError)"

definition set_local_present :: "pyval \<Rightarrow> model_file \<Rightarrow> model_file result" where
  "set_local_present v f =
     (case v of PBool b \<Rightarrow> Inr (upd (put_local_present b) f) | _ \<Rightarrow> Inl TypeError)"

definition set_remote_has_transferable_content :: "pyval \<Rightarrow> model_file \<Rightarrow> model_file result" where
  "set_remote_has_transferable_content v f =
     (case v of PBool b \<Rightarrow> Inr (upd (put_remote_content b) f) | _ \<Rightarrow> Inl TypeError)"

text \<open>An optional integer of the runtime dictionary: out of range is \<open>err\<close>, not an integer is a
  \<open>TypeError\<close>.\<close>

definition set_ranged :: "py_error \<Rightarrow> (int \<Rightarrow> bool) \<Rightarrow> string \<Rightarrow> pyval \<Rightarrow> model_file \<Rightarrow> model_file result" where
  "set_ranged err ok key v f =
     (case v of
        PInt n \<Rightarrow> if ok n then Inr (upd (set_runtime key v PNone) f) else Inl err
      | PNone \<Rightarrow> Inr (upd (set_runtime key PNone PNone) f)
      | _ \<Rightarrow> Inl TypeError)"

definition set_transferred_size :: "pyval \<Rightarrow> model_file \<Rightarrow> model_file result" where
  "set_transferred_size = set_ranged ValueError (\<lambda>n. \<not> n < 0) ''transferred_size''"

definition set_display_size_total :: "pyval \<Rightarrow> model_file \<Rightarrow> model_file result" where
  "set_display_size_total = set_ranged TypeError (\<lambda>n. 0 \<le> n) ''display_size_total''"

definition set_display_transferred_size :: "pyval \<Rightarrow> model_file \<Rightarrow> model_file result" where
  "set_display_transferred_size = set_ranged TypeError (\<lambda>n. 0 \<le> n) ''display_transferred_size''"

definition set_download_progress :: "pyval \<Rightarrow> model_file \<Rightarrow> model_file result" where
  "set_download_progress = set_ranged ValueError (\<lambda>n. \<not> (n < 0 \<or> n > 100)) ''download_progress''"

definition set_downloading_speed :: "pyval \<Rightarrow> model_file \<Rightarrow> model_file result" where
  "set_downloading_speed = set_ranged ValueError (\<lambda>n. \<not> n < 0) ''downloading_speed''"

definition set_eta :: "pyval \<Rightarrow> model_file \<Rightarrow> model_file result" where
  "set_eta = set_ranged ValueError (\<lambda>n. \<not> n < 0) ''eta''"

definition set_validation_progress :: "pyval \<Rightarrow> model_file \<Rightarrow> model_file result" where
  "set_validation_progress = set_ranged ValueError (\<lambda>n. \<not> (n < 0 \<or> n > 100)) ''validation_progress''"

definition set_update_timestamp :: "pyval \<Rightarrow> model_file \<Rightarrow> model_file result" where
  "set_update_timestamp v f =
     (case v of PDate t \<Rightarrow> Inr (upd (\<lambda>a. a\<lparr>fa_update_timestamp := t\<rparr>) f) | _ \<Rightarrow> Inl TypeError)"

text \<open>\<open>is_extractable\<close>, \<open>is_stoppable\<close>, \<open>explicitly_stopped\<close>, \<open>complete_local_coverage\<close> and
  \<open>resume_checkpoint_present\<close> are stored as they come.\<close>

definition set_unchecked_flag :: "string \<Rightarrow> pyval \<Rightarrow> model_file \<Rightarrow> model_file result" where
  "set_unchecked_flag key v f = Inr (upd (set_runtime key v (PBool False)) f)"

definition set_local_created_timestamp :: "pyval \<Rightarrow> model_file \<Rightarrow> model_file result" where
  "set_local_created_timestamp v f =
     (case v of PDate t \<Rightarrow> Inr (upd (\<lambda>a. a\<lparr>fa_local_created := Some t\<rparr>) f) | _ \<Rightarrow> Inl TypeError)"

definition set_local_modified_timestamp :: "pyval \<Rightarrow> model_file \<Rightarrow> model_file result" where
  "set_local_modified_timestamp v f =
     (case v of PDate t \<Rightarrow> Inr (upd (\<lambda>a. a\<lparr>fa_local_modified := Some t\<rparr>) f) | _ \<Rightarrow> Inl TypeError)"

definition set_remote_created_timestamp :: "pyval \<Rightarrow> model_file \<Rightarrow> model_file result" where
  "set_remote_created_timestamp v f =
     (case v of PDate t \<Rightarrow> Inr (upd (\<lambda>a. a\<lparr>fa_remote_created := Some t\<rparr>) f) | _ \<Rightarrow> Inl TypeError)"

definition set_remote_modified_timestamp :: "pyval \<Rightarrow> model_file \<Rightarrow> model_file result" where
  "set_remote_modified_timestamp v f =
     (case v of PDate t \<Rightarrow> Inr (upd (\<lambda>a. a\<lparr>fa_remote_modified := Some t\<rparr>) f) | _ \<Rightarrow> Inl TypeError)"

definition set_downloaded_timestamp :: "pyval \<Rightarrow> model_file \<Rightarrow> model_file result" where
  "set_downloaded_timestamp v f =
     (case v of
        PDate t \<Rightarrow> Inr (upd (set_runtime ''downloaded_timestamp'' v PNone) f)
      | PNone \<Rightarrow> Inr (upd (set_runtime ''downloaded_timestamp'' PNone PNone) f)
      | _ \<Rightarrow> Inl TypeError)"

definition set_validation_error :: "pyval \<Rightarrow> model_file \<Rightarrow> model_file result" where
  "set_validation_error v f =
     (case v of
        PStr s \<Rightarrow> Inr (upd (set_runtime ''validation_error'' v PNone) f)
      | PNone \<Rightarrow> Inr (upd (set_runtime ''validation_error'' PNone PNone) f)
      | _ \<Rightarrow> Inl TypeError)"

definition is_chunk :: "pyval \<Rightarrow> bool" where
  "is_chunk v = (case v of PInt n \<Rightarrow> 0 \<le> n | _ \<Rightarrow> False)"

definition set_corrupt_chunks :: "pyval \<Rightarrow> model_file \<Rightarrow> model_file result" where
  "set_corrupt_chunks v f =
     (case v of
        PNone \<Rightarrow> Inr (upd (set_runtime ''corrupt_chunks'' PNone PNone) f)
      | PList xs \<Rightarrow>
          if list_all is_chunk xs then Inr (upd (set_runtime ''corrupt_chunks'' v PNone) f)
          else Inl TypeError
      | _ \<Rightarrow> Inl TypeError)"

definition set_checked_flag :: "string \<Rightarrow> pyval \<Rightarrow> model_file \<Rightarrow> model_file result" where
  "set_checked_flag key v f =
     (case v of PBool b \<Rightarrow> Inr (upd (set_runtime key v (PBool False)) f) | _ \<Rightarrow> Inl TypeError)"

definition set_final_move_succeeded :: "pyval \<Rightarrow> model_file \<Rightarrow> model_file result" where
  "set_final_move_succeeded = set_checked_flag ''final_move_succeeded''"

definition set_final_move_pending :: "pyval \<Rightarrow> model_file \<Rightarrow> model_file result" where
  "set_final_move_pending = set_checked_flag ''final_move_pending''"

definition set_path_pair_id :: "pyval \<Rightarrow> model_file \<Rightarrow> model_file result" where
  "set_path_pair_id v f =
     (case v of
        PStr s \<Rightarrow> Inr (upd (\<lambda>a. a\<lparr>fa_path_pair_id := Some s\<rparr>) f)
      | PNone \<Rightarrow> Inr (upd (\<lambda>a. a\<lparr>fa_path_pair_id := None\<rparr>) f)
      | _ \<Rightarrow> Inl TypeError)"

definition set_path_pair_name :: "pyval \<Rightarrow> model_file \<Rightarrow> model_file result" where
  "set_path_pair_name v f =
     (case v of
        PStr s \<Rightarrow> Inr (upd (\<lambda>a. a\<lparr>fa_path_pair_name := Some s\<rparr>) f)
      | PNone \<Rightarrow> Inr (upd (\<lambda>a. a\<lparr>fa_path_pair_name := None\<rparr>) f)
      | _ \<Rightarrow> Inl TypeError)"


section \<open>Tree, paths, identity\<close>

abbreviation mf_name :: "model_file \<Rightarrow> string" where
  "mf_name f \<equiv> fa_name (attrs f)"

abbreviation mf_state :: "model_file \<Rightarrow> file_state" where
  "mf_state f \<equiv> fa_state (attrs f)"

definition full_path :: "model_file \<Rightarrow> string" where
  "full_path f =
     (case fa_parent_path (attrs f) of
        None \<Rightarrow> mf_name f
      | Some p \<Rightarrow> path_join p (mf_name f))"

definition file_id :: "model_file \<Rightarrow> string" where
  "file_id f = build_file_id (full_path f) (fa_path_pair_id (attrs f))"

text \<open>A child's path runs through its parent: giving a file a parent moves its whole subtree.\<close>

fun adopt :: "string \<Rightarrow> model_file \<Rightarrow> model_file" where
  "adopt p (ModelFile a cs) =
     (let b = a\<lparr>fa_parent_path := Some p\<rparr>
      in ModelFile b (map (adopt (path_join p (fa_name a))) cs))"

definition add_child :: "model_file \<Rightarrow> model_file \<Rightarrow> model_file result" where
  "add_child f c =
     (if \<not> a_is_dir (attrs f) then Inl TypeError
      else if fa_ident (attrs c) = fa_ident (attrs f) then Inl ValueError
      else if mf_name c \<in> set (map mf_name (kids f)) then Inl ValueError
      else Inr (ModelFile (attrs f) (kids f @ [adopt (full_path f) c])))"

definition child_count :: "model_file \<Rightarrow> int" where
  "child_count f = int (length (kids f))"

text \<open>\<open>{f.name: f for f in children}\<close>: of two children with one name the last is kept.\<close>

definition children_dict :: "model_file list \<Rightarrow> (string, model_file) dict" where
  "children_dict cs = fold (\<lambda>f. dict_set (mf_name f) f) cs []"

lemma children_dict_fold:
  "set (fold (\<lambda>f. dict_set (mf_name f) f) cs d) \<subseteq> set d \<union> (\<lambda>f. (mf_name f, f)) ` set cs"
proof (induction cs arbitrary: d)
  case Nil
  show ?case by simp
next
  case (Cons c cs)
  have "set (dict_set (mf_name c) c d) \<subseteq> set d \<union> {(mf_name c, c)}"
    by (induction d) auto
  with Cons[of "dict_set (mf_name c) c d"] show ?case by auto
qed

lemma children_dict_elem: "(n, c) \<in> set (children_dict cs) \<Longrightarrow> c \<in> set cs \<and> n = mf_name c"
  using children_dict_fold[of cs "[]"] by (auto simp: children_dict_def)

lemma fold_children_ok: "dict_ok d \<Longrightarrow> dict_ok (fold (\<lambda>f. dict_set (mf_name f) f) cs d)"
  by (induction cs arbitrary: d) (auto intro: distinct_update)

lemma children_dict_ok: "dict_ok (children_dict cs)"
  by (simp add: children_dict_def fold_children_ok)

lemma kid_smaller: "c \<in> set cs \<Longrightarrow> size c < Suc (size_list size cs)"
  by (induction cs) auto

lemma children_dict_smaller: "(n, c) \<in> set (children_dict cs) \<Longrightarrow> size c < Suc (size_list size cs)"
  using children_dict_elem kid_smaller by blast

section \<open>Equality\<close>

text \<open>\<open>__comparison_attributes\<close>: update time, parent, children and the explicit-presence bits are
  left out, and so is the resume checkpoint.\<close>

definition comparison_attributes where
  "comparison_attributes a =
     (fa_name a, a_is_dir a, fa_state a, fa_remote_size a, fa_local_size a,
      a_remote_present a, a_local_present a, a_remote_content a,
      a_transferred_size a, a_display_size_total a, a_display_transferred_size a,
      a_download_progress a, a_downloading_speed a, a_eta a,
      a_is_extractable a, a_is_stoppable a, a_explicitly_stopped a, a_complete_local_coverage a,
      fa_local_created a, fa_local_modified a, fa_remote_created a, fa_remote_modified a,
      a_downloaded_timestamp a, a_validation_progress a, a_validation_error a, a_corrupt_chunks a,
      a_final_move_succeeded a, a_final_move_pending a, fa_path_pair_id a, fa_path_pair_name a)"

function mf_eq :: "model_file \<Rightarrow> model_file \<Rightarrow> bool" where
  "mf_eq (ModelFile a cs) (ModelFile b ds) \<longleftrightarrow>
     comparison_attributes a = comparison_attributes b \<and>
     length cs = length ds \<and>
     set (map fst (children_dict cs)) = set (map fst (children_dict ds)) \<and>
     list_all (\<lambda>(n, c). case map_of (children_dict ds) n of None \<Rightarrow> False | Some d \<Rightarrow> mf_eq c d)
       (children_dict cs)"
  by pat_completeness auto
termination
  by (relation "measure (\<lambda>(f, g). size f)") (auto dest: children_dict_smaller)

declare mf_eq.simps [simp del]

lemma mf_eq_iff:
  "mf_eq f g \<longleftrightarrow>
     comparison_attributes (attrs f) = comparison_attributes (attrs g) \<and>
     length (kids f) = length (kids g) \<and>
     fst ` set (children_dict (kids f)) = fst ` set (children_dict (kids g)) \<and>
     (\<forall>n c d. map_of (children_dict (kids f)) n = Some c \<longrightarrow>
        map_of (children_dict (kids g)) n = Some d \<longrightarrow> mf_eq c d)"
proof -
  obtain a cs b ds where fg: "f = ModelFile a cs" "g = ModelFile b ds" by (cases f, cases g)
  have look: "(n, c) \<in> set (children_dict cs) \<longleftrightarrow> map_of (children_dict cs) n = Some c" for n c
    by (rule dict_ok_map_of_set[OF children_dict_ok])
  have "(\<forall>(n, c) \<in> set (children_dict cs).
          case map_of (children_dict ds) n of None \<Rightarrow> False | Some d \<Rightarrow> mf_eq c d) \<longleftrightarrow>
        (\<forall>n c d. map_of (children_dict cs) n = Some c \<longrightarrow>
          map_of (children_dict ds) n = Some d \<longrightarrow> mf_eq c d)"
    if keys: "fst ` set (children_dict cs) = fst ` set (children_dict ds)"
  proof -
    have "\<exists>d. map_of (children_dict ds) n = Some d" if "map_of (children_dict cs) n = Some c" for n c
      using map_of_SomeE[OF that] keys map_of_in_iff[of "children_dict ds" n] by auto
    then show ?thesis by (fastforce simp: look split: option.splits)
  qed
  then show ?thesis
    unfolding fg by (auto simp: mf_eq.simps list_all_iff)
qed

lemma children_dict_size: "map_of (children_dict (kids f)) n = Some c \<Longrightarrow> size c < size f"
  by (cases f) (auto dest!: map_of_SomeD children_dict_smaller)

lemma mf_eq_refl [simp]: "mf_eq f f"
proof (induction f rule: measure_induct_rule[of size])
  case (less f)
  then show ?case by (subst mf_eq_iff) (auto dest: children_dict_size)
qed

lemma mf_eq_sym: "mf_eq f g \<Longrightarrow> mf_eq g f"
proof (induction f arbitrary: g rule: measure_induct_rule[of size])
  case (less f)
  have "mf_eq d c" if c: "map_of (children_dict (kids f)) n = Some c"
    and d: "map_of (children_dict (kids g)) n = Some d" for n c d
  proof (rule less.IH)
    show "size c < size f" using c by (rule children_dict_size)
    show "mf_eq c d" using less.prems c d by (simp add: mf_eq_iff[of f g])
  qed
  with less.prems show ?case by (auto simp: mf_eq_iff[of f g] mf_eq_iff[of g f])
qed

lemma mf_eq_trans: "mf_eq f g \<Longrightarrow> mf_eq g h \<Longrightarrow> mf_eq f h"
proof (induction f arbitrary: g h rule: measure_induct_rule[of size])
  case (less f)
  have "mf_eq c e" if c: "map_of (children_dict (kids f)) n = Some c"
    and e: "map_of (children_dict (kids h)) n = Some e" for n c e
  proof -
    have "n \<in> fst ` set (children_dict (kids g))"
      using map_of_SomeE[OF c] less.prems(1) by (auto simp: mf_eq_iff[of f g])
    then obtain d where d: "map_of (children_dict (kids g)) n = Some d"
      using map_of_in_iff[of "children_dict (kids g)" n] by auto
    have "mf_eq c d" using less.prems(1) c d by (simp add: mf_eq_iff[of f g])
    moreover have "mf_eq d e" using less.prems(2) d e by (simp add: mf_eq_iff[of g h])
    ultimately show "mf_eq c e" using less.IH children_dict_size[OF c] by blast
  qed
  with less.prems show ?case
    by (auto simp: mf_eq_iff[of f g] mf_eq_iff[of g h] mf_eq_iff[of f h])
qed

section \<open>Well-formed attributes\<close>

definition nat_or_none :: "pyval \<Rightarrow> bool" where
  "nat_or_none v = (case v of PNone \<Rightarrow> True | PInt n \<Rightarrow> 0 \<le> n | _ \<Rightarrow> False)"

definition percent_or_none :: "pyval \<Rightarrow> bool" where
  "percent_or_none v = (case v of PNone \<Rightarrow> True | PInt n \<Rightarrow> 0 \<le> n \<and> n \<le> 100 | _ \<Rightarrow> False)"

definition chunks_or_none :: "pyval \<Rightarrow> bool" where
  "chunks_or_none v = (case v of PNone \<Rightarrow> True | PList xs \<Rightarrow> list_all is_chunk xs | _ \<Rightarrow> False)"

definition bool_val :: "pyval \<Rightarrow> bool" where
  "bool_val v = (case v of PBool b \<Rightarrow> True | _ \<Rightarrow> False)"

definition opt_nonneg :: "int option \<Rightarrow> bool" where
  "opt_nonneg z = (case z of None \<Rightarrow> True | Some n \<Rightarrow> 0 \<le> n)"

text \<open>The values a key of the runtime dictionary may hold, and what it stands for when absent.\<close>

definition runtime_keys :: "string list" where
  "runtime_keys =
     [''transferred_size'', ''display_size_total'', ''display_transferred_size'',
      ''downloading_speed'', ''eta'', ''download_progress'', ''validation_progress'',
      ''corrupt_chunks'', ''final_move_succeeded'', ''final_move_pending'']"

definition runtime_accepts :: "string \<Rightarrow> pyval \<Rightarrow> bool" where
  "runtime_accepts k v =
     (if k \<in> {''transferred_size'', ''display_size_total'', ''display_transferred_size'',
             ''downloading_speed'', ''eta''} then nat_or_none v
      else if k \<in> {''download_progress'', ''validation_progress''} then percent_or_none v
      else if k = ''corrupt_chunks'' then chunks_or_none v
      else if k \<in> {''final_move_succeeded'', ''final_move_pending''} then bool_val v
      else True)"

definition runtime_default :: "string \<Rightarrow> pyval" where
  "runtime_default k =
     (if k \<in> {''is_extractable'', ''is_stoppable'', ''explicitly_stopped'',
             ''complete_local_coverage'', ''resume_checkpoint_present'', ''final_move_succeeded'',
             ''final_move_pending''} then PBool False else PNone)"

text \<open>What the checked setters keep: sizes and rates are not negative, percentages are percentages,
  and where no caller set presence explicitly it agrees with the size.\<close>

definition wf_attrs :: "file_attrs \<Rightarrow> bool" where
  "wf_attrs a \<longleftrightarrow>
     runtime_ok a \<and> opt_nonneg (fa_remote_size a) \<and> opt_nonneg (fa_local_size a) \<and>
     list_all (\<lambda>k. runtime_accepts k (runtime_value k (runtime_default k) a)) runtime_keys \<and>
     (get_flag REMOTE_PRESENT_EXPLICIT a \<or> a_remote_present a = (fa_remote_size a \<noteq> None)) \<and>
     (get_flag LOCAL_PRESENT_EXPLICIT a \<or> a_local_present a = (fa_local_size a \<noteq> None)) \<and>
     (get_flag REMOTE_CONTENT_EXPLICIT a \<or>
        a_remote_content a = sized_content (fa_remote_size a) (a_is_dir a))"

text \<open>One assignment to one property of a \<open>ModelFile\<close>.\<close>

datatype attribute_write =
    WState pyval | WRemoteSize pyval | WLocalSize pyval | WRemotePresent pyval | WLocalPresent pyval
  | WRemoteContent pyval | WTransferredSize pyval | WDisplaySizeTotal pyval
  | WDisplayTransferredSize pyval | WDownloadProgress pyval | WDownloadingSpeed pyval | WEta pyval
  | WIsExtractable pyval | WIsStoppable pyval | WExplicitlyStopped pyval
  | WCompleteLocalCoverage pyval | WResumeCheckpoint pyval | WLocalCreated pyval
  | WLocalModified pyval | WRemoteCreated pyval | WRemoteModified pyval | WDownloaded pyval
  | WValidationProgress pyval | WValidationError pyval | WCorruptChunks pyval
  | WFinalMoveSucceeded pyval | WFinalMovePending pyval | WPathPairId pyval | WPathPairName pyval
  | WUpdateTimestamp pyval

fun write_attribute :: "attribute_write \<Rightarrow> model_file \<Rightarrow> model_file result" where
  "write_attribute (WState v) = set_state v"
| "write_attribute (WRemoteSize v) = set_remote_size v"
| "write_attribute (WLocalSize v) = set_local_size v"
| "write_attribute (WRemotePresent v) = set_remote_present v"
| "write_attribute (WLocalPresent v) = set_local_present v"
| "write_attribute (WRemoteContent v) = set_remote_has_transferable_content v"
| "write_attribute (WTransferredSize v) = set_transferred_size v"
| "write_attribute (WDisplaySizeTotal v) = set_display_size_total v"
| "write_attribute (WDisplayTransferredSize v) = set_display_transferred_size v"
| "write_attribute (WDownloadProgress v) = set_download_progress v"
| "write_attribute (WDownloadingSpeed v) = set_downloading_speed v"
| "write_attribute (WEta v) = set_eta v"
| "write_attribute (WIsExtractable v) = set_unchecked_flag ''is_extractable'' v"
| "write_attribute (WIsStoppable v) = set_unchecked_flag ''is_stoppable'' v"
| "write_attribute (WExplicitlyStopped v) = set_unchecked_flag ''explicitly_stopped'' v"
| "write_attribute (WCompleteLocalCoverage v) = set_unchecked_flag ''complete_local_coverage'' v"
| "write_attribute (WResumeCheckpoint v) = set_unchecked_flag ''resume_checkpoint_present'' v"
| "write_attribute (WLocalCreated v) = set_local_created_timestamp v"
| "write_attribute (WLocalModified v) = set_local_modified_timestamp v"
| "write_attribute (WRemoteCreated v) = set_remote_created_timestamp v"
| "write_attribute (WRemoteModified v) = set_remote_modified_timestamp v"
| "write_attribute (WDownloaded v) = set_downloaded_timestamp v"
| "write_attribute (WValidationProgress v) = set_validation_progress v"
| "write_attribute (WValidationError v) = set_validation_error v"
| "write_attribute (WCorruptChunks v) = set_corrupt_chunks v"
| "write_attribute (WFinalMoveSucceeded v) = set_final_move_succeeded v"
| "write_attribute (WFinalMovePending v) = set_final_move_pending v"
| "write_attribute (WPathPairId v) = set_path_pair_id v"
| "write_attribute (WPathPairName v) = set_path_pair_name v"
| "write_attribute (WUpdateTimestamp v) = set_update_timestamp v"

fun write_attributes :: "attribute_write list \<Rightarrow> model_file \<Rightarrow> model_file result" where
  "write_attributes [] f = Inr f"
| "write_attributes (w # ws) f = rbind (write_attribute w f) (write_attributes ws)"

lemmas attribute_setters =
  set_state_def set_remote_size_def set_local_size_def set_remote_present_def set_local_present_def
  set_remote_has_transferable_content_def set_transferred_size_def set_display_size_total_def
  set_display_transferred_size_def set_download_progress_def set_downloading_speed_def set_eta_def
  set_unchecked_flag_def set_local_created_timestamp_def set_local_modified_timestamp_def
  set_remote_created_timestamp_def set_remote_modified_timestamp_def set_downloaded_timestamp_def
  set_validation_progress_def set_validation_error_def set_corrupt_chunks_def
  set_final_move_succeeded_def set_final_move_pending_def set_path_pair_id_def
  set_path_pair_name_def set_update_timestamp_def set_ranged_def set_checked_flag_def

lemmas attribute_puts =
  put_remote_size_def put_local_size_def put_remote_present_def put_local_present_def
  put_remote_content_def Let_def

lemmas value_checks =
  nat_or_none_def percent_or_none_def chunks_or_none_def bool_val_def opt_nonneg_def


lemma runtime_ok_field [simp]:
  "runtime_ok (set_flag m v a) = runtime_ok a"
  "runtime_ok (a\<lparr>fa_state := s\<rparr>) = runtime_ok a"
  "runtime_ok (a\<lparr>fa_remote_size := z\<rparr>) = runtime_ok a"
  "runtime_ok (a\<lparr>fa_local_size := z\<rparr>) = runtime_ok a"
  "runtime_ok (a\<lparr>fa_local_created := t\<rparr>) = runtime_ok a"
  "runtime_ok (a\<lparr>fa_local_modified := t\<rparr>) = runtime_ok a"
  "runtime_ok (a\<lparr>fa_remote_created := t\<rparr>) = runtime_ok a"
  "runtime_ok (a\<lparr>fa_remote_modified := t\<rparr>) = runtime_ok a"
  "runtime_ok (a\<lparr>fa_update_timestamp := u\<rparr>) = runtime_ok a"
  "runtime_ok (a\<lparr>fa_parent_path := p\<rparr>) = runtime_ok a"
  "runtime_ok (a\<lparr>fa_path_pair_id := p\<rparr>) = runtime_ok a"
  "runtime_ok (a\<lparr>fa_path_pair_name := p\<rparr>) = runtime_ok a"
  by (simp_all add: runtime_ok_def)

lemma wf_attrs_put:
  assumes "wf_attrs a"
  shows "opt_nonneg z \<Longrightarrow> wf_attrs (put_remote_size z a)"
    and "opt_nonneg z \<Longrightarrow> wf_attrs (put_local_size z a)"
    and "wf_attrs (put_remote_present b a)" "wf_attrs (put_local_present b a)"
    and "wf_attrs (put_remote_content b a)"
  using assms
  by (auto simp: wf_attrs_def attribute_puts get_set_flag)

lemma wf_attrs_set_runtime:
  assumes "wf_attrs a" "runtime_accepts k v" "d = runtime_default k"
  shows "wf_attrs (set_runtime k v d a)"
proof -
  have "runtime_accepts k' (runtime_value k' (runtime_default k') (set_runtime k v d a))"
    if "runtime_accepts k' (runtime_value k' (runtime_default k') a)" for k'
    using that assms(2,3) by (cases "k' = k") auto
  with assms(1) show ?thesis by (auto simp: wf_attrs_def runtime_ok_set list_all_iff)
qed

lemma wf_attrs_field [simp]:
  "wf_attrs (a\<lparr>fa_state := s\<rparr>) = wf_attrs a"
  "wf_attrs (a\<lparr>fa_local_created := t\<rparr>) = wf_attrs a"
  "wf_attrs (a\<lparr>fa_local_modified := t\<rparr>) = wf_attrs a"
  "wf_attrs (a\<lparr>fa_remote_created := t\<rparr>) = wf_attrs a"
  "wf_attrs (a\<lparr>fa_remote_modified := t\<rparr>) = wf_attrs a"
  "wf_attrs (a\<lparr>fa_update_timestamp := u\<rparr>) = wf_attrs a"
  "wf_attrs (a\<lparr>fa_parent_path := p\<rparr>) = wf_attrs a"
  "wf_attrs (a\<lparr>fa_path_pair_id := p\<rparr>) = wf_attrs a"
  "wf_attrs (a\<lparr>fa_path_pair_name := p\<rparr>) = wf_attrs a"
  by (simp_all add: wf_attrs_def)

lemma wf_attrs_new: "wf_attrs (attrs (new_model_file i t n d))"
proof -
  have "\<not> get_flag k (attrs (new_model_file i t n d))" if "k \<in> {2, 4, 8}" for k
    using that by (auto simp: get_flag_def new_model_file_def)
  then show ?thesis
    by (simp add: wf_attrs_def new_model_file_def runtime_ok_def opt_nonneg_def runtime_value_def
        runtime_keys_def runtime_accepts_def runtime_default_def value_checks sized_content_def)
qed

lemma write_attribute_wf:
  assumes wf: "wf_attrs (attrs f)" and w: "write_attribute w f = Inr f'"
  shows "wf_attrs (attrs f')"
  using w
  by (cases w)
    (auto simp: attribute_setters value_checks runtime_accepts_def runtime_default_def wf
      intro!: wf_attrs_put[OF wf] wf_attrs_set_runtime[OF wf]
      split: pyval.splits if_splits option.splits)

end
