(* ===== verification/Job_Status.thy ===== *)
theory Job_Status
  imports Model_File
begin

text \<open>
  \<open>lftp/job_status.py\<close>: the class \<open>LftpJobStatus\<close>, the record the LFTP status parser produces for
  one transfer job and the Model's active-progress projection consumes.

  The invariant \<open>wf_job\<close> states what the guards of the setters keep: a queued job carries no
  transfer state, and the parser provenance is one of the three fixed shapes.
\<close>

section \<open>Data\<close>

datatype job_type = MIRROR | PGET | GET

fun job_type_value :: "job_type \<Rightarrow> string" where
  "job_type_value MIRROR = ''mirror''"
| "job_type_value PGET = ''pget''"
| "job_type_value GET = ''get''"

datatype job_state = JOB_QUEUED | JOB_RUNNING

record transfer_state =
  size_local :: "int option"
  size_remote :: "int option"
  percent_local :: "int option"
  ts_speed :: "int option"
  ts_eta :: "int option"

definition empty_transfer_state :: transfer_state where
  "empty_transfer_state =
     \<lparr>size_local = None, size_remote = None, percent_local = None, ts_speed = None, ts_eta = None\<rparr>"

record job_status =
  js_id :: int
  js_type :: job_type
  js_state :: job_state
  js_name :: string
  js_flags :: string
  js_remote_path :: "string option"
  js_local_path :: "string option"
  js_path_pair_id :: "string option"
  js_path_pair_name :: "string option"
  js_total :: transfer_state
  js_active_files :: "(string, transfer_state) dict"
  js_record_shape :: string
  js_record_fields :: "(string, bool) dict"

section \<open>Operations\<close>

definition new_job_status ::
  "int \<Rightarrow> job_type \<Rightarrow> job_state \<Rightarrow> string \<Rightarrow> string \<Rightarrow> string option \<Rightarrow> string option \<Rightarrow> job_status" where
  "new_job_status job_id job_type state name flags remote_path local_path =
     \<lparr>js_id = job_id, js_type = job_type, js_state = state, js_name = name, js_flags = flags,
      js_remote_path = map_option strip remote_path, js_local_path = map_option strip local_path,
      js_path_pair_id = None, js_path_pair_name = None,
      js_total = empty_transfer_state, js_active_files = [],
      js_record_shape = ''none'',
      js_record_fields = [(''bytes'', False), (''percent'', False), (''speed'', False), (''eta'', False)]\<rparr>"

definition js_set_name :: "pyval \<Rightarrow> job_status \<Rightarrow> job_status result" where
  "js_set_name v j =
     (case v of PStr s \<Rightarrow> if s = [] then Inl TypeError else Inr (j\<lparr>js_name := s\<rparr>) | _ \<Rightarrow> Inl TypeError)"

definition js_set_path_pair_id :: "pyval \<Rightarrow> job_status \<Rightarrow> job_status result" where
  "js_set_path_pair_id v j =
     (case v of PStr s \<Rightarrow> Inr (j\<lparr>js_path_pair_id := Some s\<rparr>)
      | PNone \<Rightarrow> Inr (j\<lparr>js_path_pair_id := None\<rparr>) | _ \<Rightarrow> Inl TypeError)"

definition js_set_path_pair_name :: "pyval \<Rightarrow> job_status \<Rightarrow> job_status result" where
  "js_set_path_pair_name v j =
     (case v of PStr s \<Rightarrow> Inr (j\<lparr>js_path_pair_name := Some s\<rparr>)
      | PNone \<Rightarrow> Inr (j\<lparr>js_path_pair_name := None\<rparr>) | _ \<Rightarrow> Inl TypeError)"

definition js_file_id :: "job_status \<Rightarrow> string" where
  "js_file_id j = build_file_id (js_name j) (js_path_pair_id j)"

definition set_total_transfer_state :: "transfer_state \<Rightarrow> job_status \<Rightarrow> job_status result" where
  "set_total_transfer_state t j =
     (if js_state j = JOB_QUEUED then Inl TypeError else Inr (j\<lparr>js_total := t\<rparr>))"

definition add_active_file_transfer_state ::
  "string \<Rightarrow> transfer_state \<Rightarrow> job_status \<Rightarrow> job_status result" where
  "add_active_file_transfer_state filename t j =
     (if js_state j = JOB_QUEUED then Inl TypeError
      else Inr (j\<lparr>js_active_files := dict_set filename t (js_active_files j)\<rparr>))"

definition get_active_file_transfer_states :: "job_status \<Rightarrow> (string \<times> transfer_state) list" where
  "get_active_file_transfer_states j = zip (map fst (js_active_files j)) (map snd (js_active_files j))"

definition is_true :: "pyval \<Rightarrow> bool" where
  "is_true v = (v = PBool True)"

definition fixed_shape :: "pyval \<Rightarrow> string" where
  "fixed_shape v =
     (case v of PStr s \<Rightarrow> if s \<in> {''at'', ''got'', ''none''} then s else ''none'' | _ \<Rightarrow> ''none'')"

lemma fixed_shape_range: "fixed_shape v \<in> {''at'', ''got'', ''none''}"
  by (cases v) (auto simp: fixed_shape_def)

definition set_record_provenance ::
  "pyval \<Rightarrow> pyval \<Rightarrow> pyval \<Rightarrow> pyval \<Rightarrow> pyval \<Rightarrow> job_status \<Rightarrow> job_status" where
  "set_record_provenance shape bytes percent speed eta j =
     j\<lparr>js_record_shape := fixed_shape shape,
       js_record_fields :=
         [(''bytes'', is_true bytes), (''percent'', is_true percent),
          (''speed'', is_true speed), (''eta'', is_true eta)]\<rparr>"

text \<open>\<open>__eq__\<close> compares every field but the paths, the path pair and the parser provenance; two
  dictionaries are equal when they hold the same bindings.\<close>

definition js_eq :: "job_status \<Rightarrow> job_status \<Rightarrow> bool" where
  "js_eq i j \<longleftrightarrow>
     js_id i = js_id j \<and> js_type i = js_type j \<and> js_state i = js_state j \<and>
     js_name i = js_name j \<and> js_flags i = js_flags j \<and> js_total i = js_total j \<and>
     set (js_active_files i) = set (js_active_files j)"

section \<open>Invariant\<close>

definition wf_job :: "job_status \<Rightarrow> bool" where
  "wf_job j \<longleftrightarrow>
     dict_ok (js_active_files j) \<and>
     js_record_shape j \<in> {''at'', ''got'', ''none''} \<and>
     map fst (js_record_fields j) = [''bytes'', ''percent'', ''speed'', ''eta''] \<and>
     (js_state j = JOB_QUEUED \<longrightarrow> js_total j = empty_transfer_state \<and> js_active_files j = [])"

datatype job_write =
    JName pyval | JPathPairId pyval | JPathPairName pyval | JTotal transfer_state
  | JActive string transfer_state | JProvenance pyval pyval pyval pyval pyval

fun write_job :: "job_write \<Rightarrow> job_status \<Rightarrow> job_status result" where
  "write_job (JName v) j = js_set_name v j"
| "write_job (JPathPairId v) j = js_set_path_pair_id v j"
| "write_job (JPathPairName v) j = js_set_path_pair_name v j"
| "write_job (JTotal t) j = set_total_transfer_state t j"
| "write_job (JActive n t) j = add_active_file_transfer_state n t j"
| "write_job (JProvenance s b p v e) j = Inr (set_record_provenance s b p v e j)"

lemmas job_setters =
  js_set_name_def js_set_path_pair_id_def js_set_path_pair_name_def set_total_transfer_state_def
  add_active_file_transfer_state_def set_record_provenance_def

lemma wf_job_new: "wf_job (new_job_status i t s n f r l)"
  by (simp add: wf_job_def new_job_status_def)

lemma wf_job_write: "wf_job j \<Longrightarrow> write_job w j = Inr j' \<Longrightarrow> wf_job j'"
proof (cases w)
  case (JProvenance s b p v e)
  moreover assume "wf_job j" "write_job w j = Inr j'"
  ultimately show ?thesis using fixed_shape_range[of s] by (auto simp: wf_job_def job_setters)
qed (auto simp: wf_job_def job_setters simp del: insert_iff intro: distinct_update
      split: pyval.splits if_splits)

fun write_jobs :: "job_write list \<Rightarrow> job_status \<Rightarrow> job_status result" where
  "write_jobs [] j = Inr j"
| "write_jobs (w # ws) j = rbind (write_job w j) (write_jobs ws)"

lemma wf_job_writes: "wf_job j \<Longrightarrow> write_jobs ws j = Inr j' \<Longrightarrow> wf_job j'"
  by (induction ws arbitrary: j) (auto simp: rbind_Inr_iff dest: wf_job_write)

lemma get_active_states [simp]: "get_active_file_transfer_states j = js_active_files j"
  by (simp add: get_active_file_transfer_states_def zip_map_fst_snd)

text \<open>The identity and the state of a job never change, whatever is written to it.\<close>

lemma write_job_frame:
  "write_job w j = Inr j' \<Longrightarrow> js_id j' = js_id j \<and> js_type j' = js_type j \<and> js_state j' = js_state j"
  by (cases w) (auto simp: job_setters split: pyval.splits if_splits)

end
