(* ===== verification/Model_State.thy ===== *)
theory Model_State
  imports Job_Status
begin

text \<open>
  \<open>model/model.py\<close>, part one: the state of the class \<open>Model\<close>, its publication of effective root
  records, its version counters and its notifications.

  Every method runs in the state and exception monad \<open>'a mop\<close>: it takes the model and returns
  either its result or the exception, together with the model as the method left it, so that a
  raise keeps the writes made before it. Listeners, the version callback and the diagnostic
  recorder are outside code: what they are told is appended to \<open>m_events\<close>.

  \<open>m_trace_levels\<close> is the set of levels for which the installed diagnostic gate answers
  \<open>True\<close>, \<open>m_clock\<close> the value \<open>time.time()\<close> returns. The model's lock-free methods run under
  the controller's model lock, so one method is one step.
\<close>

section \<open>Data\<close>

type_synonym job_identity = "int \<times> string"

record overlay =
  ov_progress :: "int option"
  ov_transferred :: "int option"
  ov_speed :: "int option"
  ov_eta :: "int option"

record listener =
  li_id :: nat
  li_version_changed :: bool
  li_version_published :: bool
  li_summary_changed :: bool

record publication_snapshot =
  ps_schema :: string
  ps_caller :: string
  ps_basis :: string
  ps_raw_state :: string
  ps_before_state :: string
  ps_after_state :: string
  ps_before_progress :: "int option"
  ps_after_progress :: "int option"
  ps_before_display_transferred :: "int option"
  ps_after_display_transferred :: "int option"
  ps_before_display_total :: "int option"
  ps_after_display_total :: "int option"
  ps_before_local_size :: "int option"
  ps_after_local_size :: "int option"
  ps_before_coverage :: bool
  ps_after_coverage :: bool
  ps_explicit_stop :: bool
  ps_overlay_present :: bool
  ps_context :: "pyval option"

datatype model_event =
    FileAdded nat model_file
  | FileRemoved nat model_file
  | FileUpdated nat model_file model_file
  | VersionChanged nat int "string option" string
  | VersionPublished nat int int "string option" string
  | SummaryChanged nat
  | VersionCallback int int
  | Provenance string string "job_identity option" "job_identity option" string
      "publication_snapshot option"

record model =
  m_clock :: int
  m_files :: "(string, model_file) dict"
  m_ordered :: "string list"
  m_by_name :: "(string, string set) dict"
  m_listeners :: "listener list"
  m_version :: int
  m_scope_versions :: "(string option, int) dict"
  m_tree_file_count :: int
  m_timestamp_generation :: int
  m_version_callback :: bool
  m_overlays :: "(string, overlay) dict"
  m_overlay_ids :: "(string, job_identity) dict"
  m_overlay_epochs :: "(string, int) dict"
  m_replacement_depth :: int
  m_base_fallbacks :: "(string, int) dict"
  m_suppress_clear :: int
  m_correction_ids :: "string set"
  m_correction_old :: "(string, model_file) dict"
  m_published :: "(string, model_file) dict"
  m_published_ids :: "(string, job_identity) dict"
  m_retiring_ids :: "(string, job_identity) dict"
  m_trace_levels :: "string set"
  m_trace_recorder :: bool
  m_events :: "model_event list"

definition new_model :: "int \<Rightarrow> model" where
  "new_model now =
     \<lparr>m_clock = now, m_files = [], m_ordered = [], m_by_name = [], m_listeners = [],
      m_version = 0, m_scope_versions = [], m_tree_file_count = 0, m_timestamp_generation = 0,
      m_version_callback = False, m_overlays = [], m_overlay_ids = [], m_overlay_epochs = [],
      m_replacement_depth = 0, m_base_fallbacks = [], m_suppress_clear = 0,
      m_correction_ids = {}, m_correction_old = [], m_published = [], m_published_ids = [],
      m_retiring_ids = [], m_trace_levels = {}, m_trace_recorder = False, m_events = []\<rparr>"

section \<open>Methods that may raise\<close>

type_synonym 'a mop = "model \<Rightarrow> 'a result \<times> model"

definition mret :: "'a \<Rightarrow> 'a mop" where
  "mret x m = (Inr x, m)"

definition mraise :: "py_error \<Rightarrow> 'a mop" where
  "mraise e m = (Inl e, m)"

definition mget :: "(model \<Rightarrow> 'a) \<Rightarrow> 'a mop" where
  "mget g m = (Inr (g m), m)"

definition mmod :: "(model \<Rightarrow> model) \<Rightarrow> unit mop" where
  "mmod g m = (Inr (), g m)"

definition mlift :: "'a result \<Rightarrow> 'a mop" where
  "mlift r m = (r, m)"

definition mbind :: "'a mop \<Rightarrow> ('a \<Rightarrow> 'b mop) \<Rightarrow> 'b mop" where
  "mbind p k m = (case p m of (Inl e, m') \<Rightarrow> (Inl e, m') | (Inr x, m') \<Rightarrow> k x m')"

abbreviation mseq :: "'a mop \<Rightarrow> 'b mop \<Rightarrow> 'b mop" where
  "mseq p q \<equiv> mbind p (\<lambda>_. q)"

text \<open>\<open>try: p finally: q\<close>: an exception of \<open>q\<close> replaces the outcome of \<open>p\<close>.\<close>

definition mfinally :: "'a mop \<Rightarrow> unit mop \<Rightarrow> 'a mop" where
  "mfinally p q m =
     (case p m of (r, m') \<Rightarrow>
        (case q m' of (Inl e, m'') \<Rightarrow> (Inl e, m'') | (Inr _, m'') \<Rightarrow> (r, m'')))"

fun mfor :: "'x list \<Rightarrow> ('x \<Rightarrow> unit mop) \<Rightarrow> unit mop" where
  "mfor [] body = mret ()"
| "mfor (x # xs) body = mseq (body x) (mfor xs body)"

lemmas mop_defs = mret_def mraise_def mget_def mmod_def mlift_def mbind_def mfinally_def

section \<open>Diagnostics\<close>

definition emit :: "model_event \<Rightarrow> model \<Rightarrow> model" where
  "emit e m = m\<lparr>m_events := m_events m @ [e]\<rparr>"

definition set_completion_provenance_diagnostics :: "string set \<Rightarrow> bool \<Rightarrow> model \<Rightarrow> model" where
  "set_completion_provenance_diagnostics levels recorder m =
     m\<lparr>m_trace_levels := levels, m_trace_recorder := recorder\<rparr>"

definition record_provenance ::
  "string \<Rightarrow> string \<Rightarrow> job_identity option \<Rightarrow> job_identity option \<Rightarrow> string \<Rightarrow>
   publication_snapshot option \<Rightarrow> bool \<Rightarrow> model \<Rightarrow> model" where
  "record_provenance fid reason prev identity level snapshot gate_checked m =
     (if \<not> gate_checked \<and> level \<notin> m_trace_levels m then m
      else if \<not> m_trace_recorder m then m
      else emit (Provenance fid reason prev identity level snapshot) m)"

section \<open>Publication\<close>

definition valid_identity :: "job_identity \<Rightarrow> bool" where
  "valid_identity i = (0 \<le> fst i \<and> snd i \<noteq> [])"

definition overlay_writes :: "overlay \<Rightarrow> attribute_write list" where
  "overlay_writes ov =
     [WDownloadProgress (of_opt_int (ov_progress ov)), WTransferredSize (of_opt_int (ov_transferred ov)),
      WDownloadingSpeed (of_opt_int (ov_speed ov)), WEta (of_opt_int (ov_eta ov))]"

definition opt_write :: "('a \<Rightarrow> attribute_write) \<Rightarrow> 'a option \<Rightarrow> attribute_write list" where
  "opt_write w v = (case v of None \<Rightarrow> [] | Some x \<Rightarrow> [w x])"

fun state_enum :: "file_state \<Rightarrow> int" where
  "state_enum DEFAULT = 0" | "state_enum DOWNLOADING = 1" | "state_enum QUEUED = 2"
| "state_enum DOWNLOADED = 3" | "state_enum DELETED = 4" | "state_enum EXTRACTING = 5"
| "state_enum EXTRACTED = 6" | "state_enum VALIDATING = 7" | "state_enum VALIDATED = 8"
| "state_enum CORRUPT = 9" | "state_enum MOVE_FAILED = 10"

text \<open>The assignments by which a snapshot copies a root, in the order of the source.\<close>

definition snapshot_writes :: "file_attrs \<Rightarrow> attribute_write list" where
  "snapshot_writes a =
     [WState (PEnum ''ModelFile.State'' (state_enum (fa_state a))),
      WRemoteSize (of_opt_int (fa_remote_size a)), WLocalSize (of_opt_int (fa_local_size a)),
      WRemotePresent (PBool (a_remote_present a)), WLocalPresent (PBool (a_local_present a)),
      WRemoteContent (PBool (a_remote_content a)),
      WTransferredSize (of_opt_int (a_transferred_size a)),
      WDisplaySizeTotal (of_opt_int (a_display_size_total a)),
      WDisplayTransferredSize (of_opt_int (a_display_transferred_size a)),
      WDownloadProgress (of_opt_int (a_download_progress a)),
      WDownloadingSpeed (of_opt_int (a_downloading_speed a)), WEta (of_opt_int (a_eta a)),
      WIsExtractable (PBool (a_is_extractable a)), WIsStoppable (PBool (a_is_stoppable a)),
      WExplicitlyStopped (PBool (a_explicitly_stopped a)),
      WCompleteLocalCoverage (PBool (a_complete_local_coverage a)),
      WResumeCheckpoint (PBool (a_resume_checkpoint_present a))] @
     opt_write (\<lambda>t. WLocalCreated (PDate t)) (fa_local_created a) @
     opt_write (\<lambda>t. WLocalModified (PDate t)) (fa_local_modified a) @
     opt_write (\<lambda>t. WRemoteCreated (PDate t)) (fa_remote_created a) @
     opt_write (\<lambda>t. WRemoteModified (PDate t)) (fa_remote_modified a) @
     [WDownloaded (of_opt_date (a_downloaded_timestamp a)),
      WValidationProgress (of_opt_int (a_validation_progress a)),
      WValidationError (of_opt_str (a_validation_error a)),
      WCorruptChunks (of_opt_ints (a_corrupt_chunks a)),
      WFinalMoveSucceeded (PBool (a_final_move_succeeded a)),
      WPathPairId (of_opt_str (fa_path_pair_id a)), WPathPairName (of_opt_str (fa_path_pair_name a))]"

definition snapshot :: "int \<Rightarrow> overlay option \<Rightarrow> model_file \<Rightarrow> model_file result" where
  "snapshot now ov f =
     write_attributes
       (snapshot_writes (attrs f) @ (case ov of None \<Rightarrow> [] | Some v \<Rightarrow> overlay_writes v))
       (new_model_file 0 now (mf_name f) (a_is_dir (attrs f)))"

text \<open>\<open>__full_effective_file\<close>: a deep copy of the root with its overlay written over it.\<close>

definition full_effective_file :: "model_file \<Rightarrow> model_file mop" where
  "full_effective_file f m =
     (case map_of (m_overlays m) (file_id f) of
        None \<Rightarrow> (Inr f, m)
      | Some ov \<Rightarrow> (write_attributes (overlay_writes ov) f, m))"

text \<open>The job a publication is bound to, and where that binding comes from.\<close>

definition publication_identity ::
  "model_file \<Rightarrow> job_identity option \<Rightarrow> model \<Rightarrow> job_identity option \<times> string" where
  "publication_identity f structural m =
     (case map_of (m_overlay_ids m) (file_id f) of
        Some i \<Rightarrow> (Some i, ''active'')
      | None \<Rightarrow>
          (case structural of
             Some s \<Rightarrow>
               if fst s \<ge> 0 \<and> snd s = ''mirror'' \<and> fa_parent_path (attrs f) = None \<and>
                  a_is_dir (attrs f) \<and> mf_state f = DOWNLOADING \<and> a_is_stoppable (attrs f) \<and>
                  \<not> a_explicitly_stopped (attrs f)
               then (Some s, ''structural'')
               else (map_of (m_retiring_ids m) (file_id f), ''retiring'')
           | None \<Rightarrow> (map_of (m_retiring_ids m) (file_id f), ''retiring'')))"

definition finite_integer :: "int option \<Rightarrow> int option" where
  "finite_integer v = (case v of Some n \<Rightarrow> if 0 \<le> n \<and> n \<le> 2 ^ 63 - 1 then Some n else None | None \<Rightarrow> None)"

definition finite_progress :: "int option \<Rightarrow> int option" where
  "finite_progress v = (case v of Some n \<Rightarrow> if 0 \<le> n \<and> n \<le> 100 then Some n else None | None \<Rightarrow> None)"

fun state_label :: "file_state \<Rightarrow> string" where
  "state_label DEFAULT = ''default''" | "state_label DOWNLOADING = ''downloading''"
| "state_label QUEUED = ''queued''" | "state_label DOWNLOADED = ''downloaded''"
| "state_label DELETED = ''deleted''" | "state_label EXTRACTING = ''extracting''"
| "state_label EXTRACTED = ''extracted''" | "state_label VALIDATING = ''validating''"
| "state_label VALIDATED = ''validated''" | "state_label CORRUPT = ''corrupt''"
| "state_label MOVE_FAILED = ''move_failed''"

definition rollback_snapshot ::
  "string \<Rightarrow> string \<Rightarrow> model_file \<Rightarrow> model_file \<Rightarrow> model_file \<Rightarrow> bool \<Rightarrow> pyval option \<Rightarrow> publication_snapshot" where
  "rollback_snapshot caller basis raw before after overlay_present ctx =
     \<lparr>ps_schema = ''model_published_snapshot_transition.v1'', ps_caller = caller, ps_basis = basis,
      ps_raw_state = state_label (mf_state raw), ps_before_state = state_label (mf_state before),
      ps_after_state = state_label (mf_state after),
      ps_before_progress = finite_progress (a_download_progress (attrs before)),
      ps_after_progress = finite_progress (a_download_progress (attrs after)),
      ps_before_display_transferred = finite_integer (a_display_transferred_size (attrs before)),
      ps_after_display_transferred = finite_integer (a_display_transferred_size (attrs after)),
      ps_before_display_total = finite_integer (a_display_size_total (attrs before)),
      ps_after_display_total = finite_integer (a_display_size_total (attrs after)),
      ps_before_local_size = finite_integer (fa_local_size (attrs before)),
      ps_after_local_size = finite_integer (fa_local_size (attrs after)),
      ps_before_coverage = a_complete_local_coverage (attrs before),
      ps_after_coverage = a_complete_local_coverage (attrs after),
      ps_explicit_stop = a_explicitly_stopped (attrs after),
      ps_overlay_present = overlay_present, ps_context = ctx\<rparr>"

text \<open>Which job the new publication is recorded under.\<close>

definition bind_publication ::
  "string \<Rightarrow> job_identity option \<Rightarrow> string \<Rightarrow> model_file option \<Rightarrow> model_file \<Rightarrow> model \<Rightarrow> model" where
  "bind_publication fid identity source prev published m =
     (let prev_id = map_of (m_published_ids m) fid;
          debug_preserve = (prev_id \<noteq> None \<and> identity = None \<and> ''debug'' \<in> m_trace_levels m)
      in case identity of
        Some i \<Rightarrow>
          if valid_identity i then
            (let m1 = m\<lparr>m_published_ids := dict_set fid i (m_published_ids m)\<rparr>
             in if source = ''retiring''
                then record_provenance fid ''retiring_identity_published'' prev_id (Some i) ''info'' None False m1
                else if prev_id \<noteq> Some i
                then record_provenance fid ''identity_bound'' prev_id (Some i) ''info'' None False m1
                else m1)
          else if opt_holds (\<lambda>p. mf_eq p published) prev \<and> prev_id \<noteq> None then m
          else (let m1 = m\<lparr>m_published_ids := dict_pop fid (m_published_ids m)\<rparr>
                in if prev_id \<noteq> None
                   then record_provenance fid ''changed_unbound_publication'' prev_id None ''info'' None False m1
                   else m1)
      | None \<Rightarrow>
          if opt_holds (\<lambda>p. mf_eq p published) prev \<and> prev_id \<noteq> None then
            (if debug_preserve
             then record_provenance fid ''equal_publication_preserved'' prev_id prev_id ''debug'' None False m
             else m)
          else (let m1 = m\<lparr>m_published_ids := dict_pop fid (m_published_ids m)\<rparr>
                in if prev_id \<noteq> None
                   then record_provenance fid ''changed_unbound_publication'' prev_id None ''info'' None False m1
                   else m1))"

definition record_rollback ::
  "string \<Rightarrow> pyval option \<Rightarrow> model_file \<Rightarrow> job_identity option \<Rightarrow> string \<Rightarrow> model_file option \<Rightarrow>
   job_identity option \<Rightarrow> model_file \<Rightarrow> model \<Rightarrow> model" where
  "record_rollback caller ctx f identity source prev prev_id published m =
     (case prev of
        None \<Rightarrow> m
      | Some p \<Rightarrow>
          if fa_parent_path (attrs f) = None \<and> mf_state p = DOWNLOADING \<and> mf_state published = DEFAULT \<and>
             ''info'' \<in> m_trace_levels m \<and> m_trace_recorder m
          then (let ok = opt_holds valid_identity identity;
                    snap = rollback_snapshot caller (if ok then source else ''base'') f p published
                             (map_of (m_overlays m) (file_id f) \<noteq> None) ctx
                in record_provenance (file_id f) ''published_state_rollback'' prev_id
                     (if ok then identity else None) ''info'' (Some snap) True m)
          else m)"

definition refresh_published_file ::
  "model_file \<Rightarrow> job_identity option \<Rightarrow> string \<Rightarrow> pyval option \<Rightarrow> model_file mop" where
  "refresh_published_file f structural caller ctx m =
     (let fid = file_id f;
          prev = map_of (m_published m) fid;
          prev_id = map_of (m_published_ids m) fid;
          (identity, source) = publication_identity f structural m
      in case snapshot (m_clock m) (map_of (m_overlays m) fid) f of
           Inl e \<Rightarrow> (Inl e, m)
         | Inr published \<Rightarrow>
             (let m1 = bind_publication fid identity source prev published m;
                  m2 = m1\<lparr>m_published := dict_set fid published (m_published m1)\<rparr>;
                  m3 = record_rollback caller ctx f identity source prev prev_id published m2
              in (Inr published, m3)))"

section \<open>Versions and notifications\<close>

definition scope_version :: "string option \<Rightarrow> model \<Rightarrow> int" where
  "scope_version scope m = (case map_of (m_scope_versions m) scope of None \<Rightarrow> 0 | Some v \<Rightarrow> v)"

definition advance_version :: "model_file \<Rightarrow> (int \<times> int) mop" where
  "advance_version f m =
     (let scope = fa_path_pair_id (attrs f);
          m1 = m\<lparr>m_version := m_version m + 1,
                 m_scope_versions := dict_set scope (scope_version scope m + 1) (m_scope_versions m)\<rparr>;
          gv = m_version m1;
          sv = scope_version scope m1
      in (Inr (gv, sv), if m_version_callback m1 then emit (VersionCallback gv sv) m1 else m1))"

definition set_version_publication_callback :: "bool \<Rightarrow> model \<Rightarrow> model" where
  "set_version_publication_callback present m = m\<lparr>m_version_callback := present\<rparr>"

definition notify_versioned_change :: "model_file \<Rightarrow> int \<Rightarrow> int \<Rightarrow> model \<Rightarrow> model" where
  "notify_versioned_change f gv sv m =
     fold (\<lambda>l m.
        let m1 = (if li_version_changed l
                  then emit (VersionChanged (li_id l) sv (fa_path_pair_id (attrs f)) (file_id f)) m else m)
        in if li_version_published l
           then emit (VersionPublished (li_id l) sv gv (fa_path_pair_id (attrs f)) (file_id f)) m1 else m1)
       (m_listeners m) m"

definition notify_legacy_publication_change :: "model_file option \<Rightarrow> model_file \<Rightarrow> model \<Rightarrow> model" where
  "notify_legacy_publication_change old new m =
     (case old of
        None \<Rightarrow> m
      | Some o' \<Rightarrow> fold (\<lambda>l. emit (FileUpdated (li_id l) o' new)) (m_listeners m) m)"

definition notify_legacy_overlay_correction :: "string \<Rightarrow> model_file option \<Rightarrow> unit mop" where
  "notify_legacy_overlay_correction fid f m =
     (if fid \<notin> m_correction_ids m then (Inr (), m)
      else if map_of (m_overlays m) fid \<noteq> None then (Inr (), m)
      else
        (let old = map_of (m_correction_old m) fid;
             m1 = m\<lparr>m_correction_ids := m_correction_ids m - {fid},
                    m_correction_old := dict_pop fid (m_correction_old m)\<rparr>
         in case f of
              None \<Rightarrow> (Inr (), m1)
            | Some g \<Rightarrow>
                mbind (full_effective_file g)
                  (\<lambda>new. mmod (notify_legacy_publication_change old new)) m1))"

definition notify_summary_changed :: "model \<Rightarrow> model" where
  "notify_summary_changed m =
     fold (\<lambda>l m. if li_summary_changed l then emit (SummaryChanged (li_id l)) m else m) (m_listeners m) m"

definition add_listener :: "listener \<Rightarrow> model \<Rightarrow> model" where
  "add_listener l m = (if l \<in> set (m_listeners m) then m else m\<lparr>m_listeners := m_listeners m @ [l]\<rparr>)"

definition remove_listener :: "listener \<Rightarrow> model \<Rightarrow> model" where
  "remove_listener l m = m\<lparr>m_listeners := remove1 l (m_listeners m)\<rparr>"

definition set_downloaded_timestamp_overlay_generation :: "pyval \<Rightarrow> model \<Rightarrow> model" where
  "set_downloaded_timestamp_overlay_generation v m =
     m\<lparr>m_timestamp_generation := (case v of PInt n \<Rightarrow> if 0 \<le> n then n else 0 | _ \<Rightarrow> 0)\<rparr>"

definition set_tree_file_count :: "pyval \<Rightarrow> model \<Rightarrow> model" where
  "set_tree_file_count v m =
     m\<lparr>m_tree_file_count := (case v of PInt n \<Rightarrow> if 0 \<le> n then n else 0 | _ \<Rightarrow> 0)\<rparr>"

text \<open>The block that ends every change of a live projection: publish the root's effective record,
  advance the versions, correct a queued legacy record, notify the scoped readers.\<close>

definition republish_root :: "string \<Rightarrow> pyval option \<Rightarrow> string \<Rightarrow> unit mop" where
  "republish_root caller ctx fid m =
     (case map_of (m_files m) fid of
        None \<Rightarrow> notify_legacy_overlay_correction fid None m
      | Some f \<Rightarrow>
          mbind (refresh_published_file f None caller ctx)
            (\<lambda>_. mbind (advance_version f)
              (\<lambda>(gv, sv). mseq (notify_legacy_overlay_correction fid (Some f))
                (mmod (notify_versioned_change f gv sv)))) m)"

end
