(* ===== verification/Model_Ops.thy ===== *)
theory Model_Ops
  imports Model_State
begin

text \<open>
  \<open>model/model.py\<close>, part two: the methods of \<open>Model\<close> that change its roots and its active-progress
  overlays. A Python \<open>set\<close> that the source iterates in sorted order is iterated in that order
  here; where the source iterates one in no particular order, the sorted order is taken.
\<close>

section \<open>Clearing and restoring live projections\<close>

definition pop_overlay :: "string \<Rightarrow> model \<Rightarrow> model" where
  "pop_overlay fid m =
     m\<lparr>m_overlays := dict_pop fid (m_overlays m), m_overlay_ids := dict_pop fid (m_overlay_ids m),
       m_overlay_epochs := dict_pop fid (m_overlay_epochs m)\<rparr>"

definition sorted_keys :: "string list \<Rightarrow> string list" where
  "sorted_keys ks = sort (remdups ks)"

definition clear_active_progress_overlays :: "pyval option \<Rightarrow> string option \<Rightarrow> unit mop" where
  "clear_active_progress_overlays ctx ctx_fid m =
     (if m_suppress_clear m \<noteq> 0 then (Inr (), m)
      else
        (let removed = sorted_keys (dict_keys (m_overlays m));
             m1 = m\<lparr>m_overlays := [], m_overlay_ids := [], m_overlay_epochs := []\<rparr>
         in mfor removed
              (\<lambda>fid. republish_root ''clear_active_progress_overlays''
                 (if ctx_fid = Some fid then ctx else None) fid) m1))"

definition clear_active_progress_overlays_except :: "string set \<Rightarrow> string set mop" where
  "clear_active_progress_overlays_except preserved m =
     (let removed = filter (\<lambda>fid. fid \<notin> preserved) (sorted_keys (dict_keys (m_overlays m)))
      in mseq (mmod (fold pop_overlay removed))
           (mseq (mfor removed (republish_root ''clear_active_progress_overlays_except'' None))
             (mret (set removed))) m)"

definition clear_overlay_if_identity_matches :: "string \<Rightarrow> job_identity \<Rightarrow> bool mop" where
  "clear_overlay_if_identity_matches fid identity m =
     (if map_of (m_overlay_ids m) fid \<noteq> Some identity then (Inr False, m)
      else if map_of (m_overlays m) fid = None then (Inr False, m)
      else
        mseq (republish_root ''clear_active_progress_overlay_if_job_identity_matches'' None fid)
          (mret True) (pop_overlay fid m))"

text \<open>A root whose live counters may be shown: downloading, stoppable, not stopped, and without a
  display union of its own.\<close>

definition root_authority :: "model_file \<Rightarrow> bool" where
  "root_authority f \<longleftrightarrow>
     mf_state f = DOWNLOADING \<and> a_is_stoppable (attrs f) \<and> \<not> a_explicitly_stopped (attrs f) \<and>
     a_display_size_total (attrs f) = None \<and> a_display_transferred_size (attrs f) = None"

definition changed_overlay_ids ::
  "(string, overlay) dict \<Rightarrow> (string, job_identity) dict \<Rightarrow> model \<Rightarrow> string list" where
  "changed_overlay_ids normalized ids m =
     filter (\<lambda>fid. map_of (m_overlays m) fid \<noteq> map_of normalized fid \<or>
                   map_of (m_overlay_ids m) fid \<noteq> map_of ids fid)
       (sorted_keys (dict_keys (m_overlays m) @ dict_keys normalized))"

definition may_restore :: "model \<Rightarrow> (string, job_identity) dict \<Rightarrow> string \<Rightarrow> bool" where
  "may_restore m ids fid =
     (case (map_of ids fid, map_of (m_files m) fid) of
        (Some i, Some f) \<Rightarrow> valid_identity i \<and> root_authority f
      | _ \<Rightarrow> False)"

definition restore_active_progress_overlays ::
  "(string, overlay) dict \<Rightarrow> (string, job_identity) dict \<Rightarrow> string set mop" where
  "restore_active_progress_overlays overlays ids m =
     (let normalized = filter (\<lambda>(fid, _). may_restore m ids fid) overlays;
          nids = map (\<lambda>(fid, _). (fid, the (map_of ids fid))) normalized;
          changed = changed_overlay_ids normalized nids m;
          epochs = filter (\<lambda>(fid, _). map_of normalized fid \<noteq> None) (m_overlay_epochs m)
      in mseq (mmod (\<lambda>m. m\<lparr>m_overlays := normalized, m_overlay_ids := nids, m_overlay_epochs := epochs\<rparr>))
           (mseq (mfor changed (republish_root ''restore_active_progress_overlays'' None))
             (mret (set changed))) m)"

definition replace_active_progress_overlays :: "(string, overlay) dict \<Rightarrow> string set \<Rightarrow> string set mop" where
  "replace_active_progress_overlays overlays changed_root_ids m =
     (let changed = filter (\<lambda>fid. fid \<in> changed_root_ids \<and> map_of (m_overlays m) fid \<noteq> map_of overlays fid)
                      (m_ordered m)
      in mseq (mmod (\<lambda>m. m\<lparr>m_overlays := overlays, m_overlay_ids := [], m_overlay_epochs := []\<rparr>))
           (mseq (mfor changed (republish_root ''replace_active_progress_overlays'' None))
             (mret (set changed))) m)"

section \<open>Publishing LFTP counters\<close>

text \<open>A delayed positive counter of the same job does not move a published counter backwards;
  zero and \<open>None\<close> are explicit resets.\<close>

definition keep_counter :: "int option \<Rightarrow> int option \<Rightarrow> int option" where
  "keep_counter prior incoming =
     (case (incoming, prior) of
        (Some n, Some p) \<Rightarrow> if 0 < n then Some (max n p) else Some n
      | _ \<Rightarrow> incoming)"

definition merge_overlay :: "overlay \<Rightarrow> overlay \<Rightarrow> overlay" where
  "merge_overlay prior ov =
     \<lparr>ov_progress = keep_counter (ov_progress prior) (ov_progress ov),
      ov_transferred = keep_counter (ov_transferred prior) (ov_transferred ov),
      ov_speed = ov_speed ov, ov_eta = ov_eta ov\<rparr>"

datatype admission = Rejected string | Stale "job_identity option" | Admitted overlay job_identity

definition admit_counter ::
  "model \<Rightarrow> (string \<Rightarrow> bool) \<Rightarrow> (string \<Rightarrow> int option) option \<Rightarrow> string \<Rightarrow> overlay \<Rightarrow>
   job_identity option \<Rightarrow> admission" where
  "admit_counter m epoch_matches epoch_for fid ov identity =
     (case (identity, map_of (m_files m) fid) of
        (Some i, Some f) \<Rightarrow>
          if \<not> valid_identity i then Rejected ''job_identity''
          else if \<not> epoch_matches fid then Rejected ''lifecycle_epoch''
          else
            (let epoch = (case epoch_for of None \<Rightarrow> None | Some g \<Rightarrow> g fid)
             in if epoch_for \<noteq> None \<and> epoch = None then Rejected ''lifecycle_epoch''
                else if opt_holds (\<lambda>p. opt_holds (\<lambda>e. p \<noteq> e) epoch) (map_of (m_overlay_epochs m) fid)
                then Rejected ''lifecycle_epoch''
                else
                  (case map_of (m_overlay_ids m) fid of
                     Some p \<Rightarrow>
                       if p \<noteq> i then Stale (if fst i > fst p then Some p else None)
                       else if \<not> root_authority f then Rejected ''root_authority''
                       else Admitted (case map_of (m_overlays m) fid of
                                        Some prior \<Rightarrow> merge_overlay prior ov | None \<Rightarrow> ov) i
                   | None \<Rightarrow>
                       if \<not> root_authority f then Rejected ''root_authority'' else Admitted ov i))
      | _ \<Rightarrow> Rejected ''job_identity'')"

text \<open>The loop over the reported counters: the first rejection ends it; otherwise the admitted
  counters, the identities to retire and whether a counter was stale.\<close>

fun admit_all ::
  "(string \<Rightarrow> overlay \<Rightarrow> admission) \<Rightarrow> (string, overlay) dict \<Rightarrow>
   string + (string, overlay) dict \<times> (string, job_identity) dict \<times> (string, job_identity) dict \<times> bool" where
  "admit_all adm [] = Inr ([], [], [], False)"
| "admit_all adm ((fid, ov) # rest) =
     (case adm fid ov of
        Rejected reason \<Rightarrow> Inl reason
      | Stale p \<Rightarrow>
          rbind (admit_all adm rest) (\<lambda>(ns, is, ps, _).
            Inr (ns, is, (case p of None \<Rightarrow> ps | Some q \<Rightarrow> (fid, q) # ps), True))
      | Admitted ov' i \<Rightarrow>
          rbind (admit_all adm rest) (\<lambda>(ns, is, ps, r). Inr ((fid, ov') # ns, (fid, i) # is, ps, r)))"

definition next_epochs :: "(string \<Rightarrow> int option) option \<Rightarrow> (string, overlay) dict \<Rightarrow> (string, int) dict" where
  "next_epochs epoch_for ns =
     (case epoch_for of
        None \<Rightarrow> []
      | Some g \<Rightarrow> List.map_filter (\<lambda>(fid, _). map_option (Pair fid) (g fid)) ns)"

definition publish_active_lftp_root_counters ::
  "(string, overlay) dict \<Rightarrow> (string, job_identity) dict \<Rightarrow> (string \<Rightarrow> bool) \<Rightarrow>
   (string \<Rightarrow> int option) option \<Rightarrow> (string set \<times> string) mop" where
  "publish_active_lftp_root_counters overlays ids epoch_matches epoch_for m =
     (case admit_all (\<lambda>fid ov. admit_counter m epoch_matches epoch_for fid ov (map_of ids fid)) overlays of
        Inl reason \<Rightarrow> mseq (clear_active_progress_overlays None None) (mret ({}, reason)) m
      | Inr (ns, nids, mismatches, rejected) \<Rightarrow>
          if rejected then
            mseq (mfor (sort_key fst mismatches)
                   (\<lambda>(fid, p). mseq (clear_overlay_if_identity_matches fid p) (mret ())))
              (mret ({}, ''job_identity'')) m
          else
            (let changed = changed_overlay_ids ns nids m
             in mseq (mmod (\<lambda>m. m\<lparr>m_overlays := ns, m_overlay_ids := nids,
                                  m_overlay_epochs := next_epochs epoch_for ns\<rparr>))
                  (mseq (mfor changed (republish_root ''publish_active_lftp_root_counters'' None))
                    (mret (set changed, ''accepted''))) m))"

section \<open>Authoritative replacement\<close>

definition candidate_can_retain :: "model_file \<Rightarrow> bool" where
  "candidate_can_retain f =
     (let a = attrs f;
          progress = a_download_progress a; transferred = a_transferred_size a;
          progress_valid = (case progress of Some p \<Rightarrow> 0 \<le> p \<and> p < 100 | None \<Rightarrow> False);
          transferred_valid = (case transferred of
              Some t \<Rightarrow> 0 \<le> t \<and> (case fa_remote_size a of None \<Rightarrow> True | Some r \<Rightarrow> t \<le> r)
            | None \<Rightarrow> False)
      in if mf_state f \<noteq> DOWNLOADING \<or> \<not> a_is_stoppable a \<or> a_explicitly_stopped a \<or>
            a_display_size_total a \<noteq> None \<or> a_display_transferred_size a \<noteq> None \<or>
            a_complete_local_coverage a then False
         else if (case fa_local_size a of Some l \<Rightarrow> l \<le> 0 | None \<Rightarrow> False) then False
         else if progress \<noteq> None \<and> \<not> progress_valid then False
         else if transferred \<noteq> None \<and> \<not> transferred_valid then False
         else if \<not> progress_valid \<and> \<not> transferred_valid then False
         else (case progress of Some p \<Rightarrow> progress_valid \<and> 0 < p | None \<Rightarrow> False) \<or>
              (case transferred of Some t \<Rightarrow> transferred_valid \<and> 0 < t | None \<Rightarrow> False))"

definition retire_for_candidate :: "model_file \<Rightarrow> model \<Rightarrow> model" where
  "retire_for_candidate f m =
     (if m_replacement_depth m = 0 \<or> map_of (m_overlays m) (file_id f) = None then m
      else if \<not> candidate_can_retain f then pop_overlay (file_id f) m else m)"

text \<open>The bookkeeping before and after the operation of \<open>apply_with_active_progress_retained\<close>.\<close>

fun effective_files :: "(string, model_file) dict \<Rightarrow> (string, model_file) dict mop" where
  "effective_files [] = mret []"
| "effective_files ((fid, f) # rest) =
     mbind (full_effective_file f) (\<lambda>g. mbind (effective_files rest) (\<lambda>gs. mret ((fid, g) # gs)))"

definition begin_retire :: "string \<Rightarrow> model \<Rightarrow> model" where
  "begin_retire fid m =
     (let m1 = (case map_of (m_overlay_ids m) fid of
                  None \<Rightarrow> m
                | Some i \<Rightarrow> m\<lparr>m_retiring_ids := dict_set fid i (m_retiring_ids m)\<rparr>);
          m2 = pop_overlay fid m1
      in m2\<lparr>m_correction_ids := m_correction_ids m2 - {fid},
            m_correction_old := dict_pop fid (m_correction_old m2)\<rparr>)"

definition publish_retired :: "string \<Rightarrow> unit mop" where
  "publish_retired fid m =
     (case map_of (m_files m) fid of
        None \<Rightarrow> (Inr (), m)
      | Some f \<Rightarrow>
          (let prev = map_of (m_published m) fid
           in mbind (refresh_published_file f None ''apply_with_active_progress_retained'' None)
                (\<lambda>new. if opt_holds (\<lambda>p. mf_eq p new) prev then mret ()
                       else mbind (advance_version f)
                              (\<lambda>(gv, sv). mmod (notify_versioned_change f gv sv))) m))"

definition queue_correction :: "string \<times> model_file \<Rightarrow> model \<Rightarrow> model" where
  "queue_correction p m =
     (if map_of (m_overlays m) (fst p) \<noteq> None \<and> map_of (m_files m) (fst p) \<noteq> None
      then m\<lparr>m_correction_ids := insert (fst p) (m_correction_ids m),
             m_correction_old := dict_set (fst p) (snd p) (m_correction_old m)\<rparr>
      else m)"

definition end_retire :: "string list \<Rightarrow> (string, model_file) dict \<Rightarrow> unit mop" where
  "end_retire retired retained =
     mseq (mmod (\<lambda>m. m\<lparr>m_suppress_clear := m_suppress_clear m - 1\<rparr>))
       (mseq (mfor retired publish_retired)
         (mmod (\<lambda>m. fold (\<lambda>fid m. m\<lparr>m_retiring_ids := dict_pop fid (m_retiring_ids m)\<rparr>) retired
                      (fold queue_correction retained m))))"

definition apply_with_active_progress_retained :: "'r mop \<Rightarrow> string set \<Rightarrow> 'r mop" where
  "apply_with_active_progress_retained operation retire_file_ids m =
     (let retired = sorted_list_of_set retire_file_ids
      in mbind (effective_files (filter (\<lambda>(fid, _). map_of (m_overlays m) fid \<noteq> None) (m_files m)))
           (\<lambda>retained.
             mseq (mmod (fold begin_retire retired))
               (mseq (mmod (\<lambda>m. m\<lparr>m_suppress_clear := m_suppress_clear m + 1\<rparr>))
                 (mfinally operation (end_retire retired retained)))) m)"

definition status_identity :: "job_status option \<Rightarrow> job_identity option" where
  "status_identity s = map_option (\<lambda>j. (js_id j, job_type_value (js_type j))) s"

definition status_reset :: "job_status option \<Rightarrow> bool" where
  "status_reset s =
     (case s of
        None \<Rightarrow> False
      | Some j \<Rightarrow> (case size_local (js_total j) of Some n \<Rightarrow> n \<le> 0 | None \<Rightarrow> False) \<or>
                  (case percent_local (js_total j) of Some n \<Rightarrow> n \<le> 0 | None \<Rightarrow> False))"

definition must_retire ::
  "(string, job_status) dict \<Rightarrow> (string \<Rightarrow> int option) \<Rightarrow> model \<Rightarrow> string \<Rightarrow> job_identity \<Rightarrow> bool" where
  "must_retire statuses epoch_for m fid identity =
     (let status = map_of statuses fid;
          stored = map_of (m_overlay_epochs m) fid
      in status_identity status \<noteq> Some identity \<or>
         \<not> opt_holds (\<lambda>j. js_state j = JOB_RUNNING) status \<or>
         status_reset status \<or>
         (stored \<noteq> None \<and> epoch_for fid \<noteq> stored))"

definition base_fallbacks ::
  "(string, job_status) dict \<Rightarrow> string list \<Rightarrow> model \<Rightarrow> (string, int) dict" where
  "base_fallbacks statuses retire m =
     List.map_filter (\<lambda>fid.
        if map_of statuses fid \<noteq> None then None
        else case map_of (m_files m) fid of
            None \<Rightarrow> None
          | Some f \<Rightarrow> (case a_transferred_size (attrs f) of
                Some n \<Rightarrow> if 0 \<le> n then Some (fid, n) else None
              | None \<Rightarrow> None)) retire"

definition rise :: "int option \<Rightarrow> int option \<Rightarrow> int option" where
  "rise candidate current =
     (case candidate of
        Some n \<Rightarrow> if 0 < n \<and> (case current of None \<Rightarrow> True | Some c \<Rightarrow> c < n) then Some n else current
      | None \<Rightarrow> current)"

definition refresh_retained ::
  "(string, job_status) dict \<Rightarrow> string set \<Rightarrow> string set \<Rightarrow> string \<times> overlay \<Rightarrow> unit mop" where
  "refresh_retained statuses retire replaced p m =
     (let fid = fst p; ov = snd p
      in if fid \<in> retire then (Inr (), m)
         else case (map_of statuses fid, map_of (m_files m) fid) of
           (Some j, Some f) \<Rightarrow>
             if fid \<in> replaced \<and> \<not> candidate_can_retain f then
               (case map_of (m_overlay_ids m) fid of
                  None \<Rightarrow> (Inr (), m)
                | Some i \<Rightarrow> mseq (clear_overlay_if_identity_matches fid i) (mret ()) m)
             else
               (let a = attrs f;
                    speed = (case a_downloading_speed a of None \<Rightarrow> ts_speed (js_total j) | Some v \<Rightarrow> Some v);
                    eta = (case a_eta a of None \<Rightarrow> ts_eta (js_total j) | Some v \<Rightarrow> Some v);
                    refreshed = \<lparr>ov_progress = rise (a_download_progress a) (ov_progress ov),
                                 ov_transferred = rise (a_transferred_size a) (ov_transferred ov),
                                 ov_speed = speed, ov_eta = eta\<rparr>
                in if refreshed = ov then (Inr (), m)
                   else mseq (mmod (\<lambda>m. m\<lparr>m_overlays := dict_set fid refreshed (m_overlays m)\<rparr>))
                          (republish_root ''apply_authoritative_root_replacement'' None fid) m)
         | _ \<Rightarrow> (Inr (), m))"

definition replaced_ids :: "(string, model_file) dict \<Rightarrow> model \<Rightarrow> string set" where
  "replaced_ids before m =
     set (map fst (filter (\<lambda>(fid, f). \<not> opt_holds (\<lambda>g. fa_ident (attrs g) = fa_ident (attrs f)) (map_of before fid)) (m_files m)))"

definition apply_authoritative_root_replacement ::
  "'r mop \<Rightarrow> (string, job_status) dict \<Rightarrow> (string \<Rightarrow> int option) \<Rightarrow> 'r mop" where
  "apply_authoritative_root_replacement operation statuses epoch_for m =
     (let retire = map fst (filter (\<lambda>(fid, i). must_retire statuses epoch_for m fid i) (m_overlay_ids m));
          before = m_files m;
          previous_fallbacks = m_base_fallbacks m
      in mbind
           (mseq (mmod (\<lambda>m. m\<lparr>m_base_fallbacks := base_fallbacks statuses retire m\<rparr>))
             (mfinally
               (mseq (mmod (\<lambda>m. m\<lparr>m_replacement_depth := m_replacement_depth m + 1\<rparr>))
                 (mfinally (apply_with_active_progress_retained operation (set retire))
                   (mmod (\<lambda>m. m\<lparr>m_replacement_depth := m_replacement_depth m - 1\<rparr>))))
               (mmod (\<lambda>m. m\<lparr>m_base_fallbacks := previous_fallbacks\<rparr>))))
           (\<lambda>result m. mseq (mfor (m_overlays m) (refresh_retained statuses (set retire) (replaced_ids before m)))
                         (mret result) m) m)"

section \<open>Roots\<close>

definition already_exists :: py_error where
  "already_exists = AppError ''ModelError'' ''File already exists in the model''"

definition does_not_exist :: py_error where
  "does_not_exist = AppError ''ModelError'' ''File does not exist in the model''"

definition lookup_ambiguous :: py_error where
  "lookup_ambiguous = AppError ''ModelError'' ''File lookup is ambiguous in the model''"

definition index_name :: "string \<Rightarrow> string \<Rightarrow> (string, string set) dict \<Rightarrow> (string, string set) dict" where
  "index_name name fid d =
     dict_set name (insert fid (case map_of d name of None \<Rightarrow> {} | Some s \<Rightarrow> s)) d"

definition unindex_name :: "string \<Rightarrow> string \<Rightarrow> (string, string set) dict \<Rightarrow> (string, string set) dict" where
  "unindex_name name fid d =
     (let s = (case map_of d name of None \<Rightarrow> {} | Some s \<Rightarrow> s) - {fid}
      in if s = {} then dict_pop name d else dict_set name s d)"

definition insert_root :: "model_file \<Rightarrow> model \<Rightarrow> model" where
  "insert_root f m =
     m\<lparr>m_files := dict_set (file_id f) f (m_files m),
       m_ordered := py_insort (m_ordered m) (file_id f),
       m_by_name := index_name (mf_name f) (file_id f) (m_by_name m)\<rparr>"

definition add_file :: "model_file \<Rightarrow> job_identity option \<Rightarrow> unit mop" where
  "add_file f structural =
     mseq (clear_active_progress_overlays None None)
       (\<lambda>m. if map_of (m_files m) (file_id f) \<noteq> None then (Inl already_exists, m)
            else
              mseq (mmod (insert_root f))
               (mseq (refresh_published_file f structural ''add_file'' None)
                 (mbind (\<lambda>m. if m_listeners m = [] then (Inr None, m)
                             else mbind (full_effective_file f) (\<lambda>g. mret (Some g)) m)
                   (\<lambda>legacy. mbind (advance_version f)
                     (\<lambda>(gv, sv). mseq
                       (mmod (\<lambda>m. case legacy of
                                None \<Rightarrow> m
                              | Some g \<Rightarrow> fold (\<lambda>l. emit (FileAdded (li_id l) g)) (m_listeners m) m))
                       (mmod (notify_versioned_change f gv sv)))))) m)"

definition resolve_file_id :: "string \<Rightarrow> model \<Rightarrow> string result" where
  "resolve_file_id identifier m =
     (if map_of (m_files m) identifier \<noteq> None then Inr identifier
      else case map_of (m_by_name m) identifier of
          None \<Rightarrow> Inl does_not_exist
        | Some s \<Rightarrow>
            if s = {} then Inl does_not_exist
            else if card s > 1 then Inl lookup_ambiguous
            else Inr (the_elem s))"

definition get_file :: "string \<Rightarrow> model \<Rightarrow> model_file result" where
  "get_file name m =
     rbind (resolve_file_id name m)
       (\<lambda>fid. case map_of (m_files m) fid of None \<Rightarrow> Inl KeyError | Some f \<Rightarrow> Inr f)"

definition delete_root :: "string \<Rightarrow> model_file \<Rightarrow> model \<Rightarrow> model" where
  "delete_root fid f m =
     (let m1 = m\<lparr>m_files := dict_pop fid (m_files m), m_ordered := remove1 fid (m_ordered m),
                 m_by_name := unindex_name (mf_name f) fid (m_by_name m),
                 m_published := dict_pop fid (m_published m),
                 m_published_ids := dict_pop fid (m_published_ids m)\<rparr>;
          m2 = (case map_of (m_published_ids m) fid of
                  None \<Rightarrow> m1
                | Some i \<Rightarrow> record_provenance fid ''published_root_removed'' (Some i) None ''info'' None False m1);
          m3 = pop_overlay fid m2
      in m3\<lparr>m_correction_ids := m_correction_ids m3 - {fid},
            m_correction_old := dict_pop fid (m_correction_old m3)\<rparr>)"

definition published_or_refresh :: "model_file \<Rightarrow> string \<Rightarrow> pyval option \<Rightarrow> model_file mop" where
  "published_or_refresh f caller ctx m =
     (case map_of (m_published m) (file_id f) of
        Some p \<Rightarrow> (Inr p, m)
      | None \<Rightarrow> refresh_published_file f None caller ctx m)"

definition remove_file :: "string \<Rightarrow> unit mop" where
  "remove_file filename =
     mseq (clear_active_progress_overlays None None)
       (mbind (\<lambda>m. (resolve_file_id filename m, m))
         (\<lambda>fid. mbind (\<lambda>m. (case map_of (m_files m) fid of None \<Rightarrow> Inl KeyError | Some f \<Rightarrow> Inr f, m))
           (\<lambda>f. mseq (published_or_refresh f ''remove_file'' None)
             (mbind (full_effective_file f)
               (\<lambda>legacy. mseq (mmod (delete_root fid f))
                 (mbind (advance_version f)
                   (\<lambda>(gv, sv). mseq
                     (mmod (\<lambda>m. fold (\<lambda>l. emit (FileRemoved (li_id l) legacy)) (m_listeners m) m))
                     (mmod (notify_versioned_change f gv sv)))))))))"

definition with_base_fallback :: "model_file \<Rightarrow> model \<Rightarrow> model_file result" where
  "with_base_fallback f m =
     (case (a_transferred_size (attrs f), map_of (m_base_fallbacks m) (file_id f), fa_local_size (attrs f)) of
        (None, Some n, Some l) \<Rightarrow> if 0 \<le> n \<and> n \<le> l then set_transferred_size (PInt n) f else Inr f
      | _ \<Rightarrow> Inr f)"

definition update_file :: "model_file \<Rightarrow> job_identity option \<Rightarrow> pyval option \<Rightarrow> unit mop" where
  "update_file file0 structural ctx =
     mbind (\<lambda>m. (with_base_fallback file0 m, m))
       (\<lambda>f. mseq (mmod (retire_for_candidate f))
         (mseq (clear_active_progress_overlays ctx (Some (file_id f)))
           (\<lambda>m. case map_of (m_files m) (file_id f) of
                 None \<Rightarrow> (Inl does_not_exist, m)
               | Some old \<Rightarrow>
                   mseq (published_or_refresh old ''update_file_previous'' ctx)
                    (mbind (full_effective_file old)
                      (\<lambda>legacy_old. mseq (mmod (\<lambda>m. m\<lparr>m_files := dict_set (file_id f) f (m_files m)\<rparr>))
                        (mseq (refresh_published_file f structural ''update_file_candidate'' ctx)
                          (mbind (full_effective_file f)
                            (\<lambda>legacy_new. mbind (advance_version f)
                              (\<lambda>(gv, sv). mseq
                                (mmod (\<lambda>m. fold (\<lambda>l. emit (FileUpdated (li_id l) legacy_old legacy_new))
                                              (m_listeners m) m))
                                (mmod (notify_versioned_change f gv sv)))))))) m)))"

definition get_file_names :: "model \<Rightarrow> string set" where
  "get_file_names m = set (dict_keys (m_by_name m))"

definition get_file_ids :: "model \<Rightarrow> string set" where
  "get_file_ids m = set (dict_keys (m_files m))"

definition iter_files :: "model \<Rightarrow> model_file list" where
  "iter_files m = map snd (m_files m)"

definition iter_files_by_id :: "model \<Rightarrow> model_file option list" where
  "iter_files_by_id m = map (map_of (m_files m)) (m_ordered m)"

definition file_count :: "model \<Rightarrow> int" where
  "file_count m = int (length (m_files m))"

section \<open>Publication provenance\<close>

definition published_file_with_job_identity ::
  "string \<Rightarrow> model \<Rightarrow> model_file option \<times> job_identity option" where
  "published_file_with_job_identity fid m = (map_of (m_published m) fid, map_of (m_published_ids m) fid)"

definition clear_published_identity_if_matches :: "string \<Rightarrow> job_identity \<Rightarrow> bool mop" where
  "clear_published_identity_if_matches fid expected m =
     (if map_of (m_published_ids m) fid \<noteq> Some expected then (Inr False, m)
      else (Inr True, record_provenance fid ''identity_consumed'' (Some expected) None ''info'' None False
              (m\<lparr>m_published_ids := dict_pop fid (m_published_ids m)\<rparr>)))"

definition clear_published_identity_if_replaced :: "string \<Rightarrow> job_identity \<Rightarrow> bool mop" where
  "clear_published_identity_if_replaced fid replacement m =
     (case map_of (m_published_ids m) fid of
        None \<Rightarrow> (Inr False, m)
      | Some current \<Rightarrow>
          if \<not> valid_identity current \<or> \<not> valid_identity replacement then (Inr False, m)
          else if current = replacement \<or> fst replacement < fst current then (Inr False, m)
          else (Inr True, record_provenance fid ''identity_replaced'' (Some current) None ''info'' None False
                  (m\<lparr>m_published_ids := dict_pop fid (m_published_ids m)\<rparr>)))"

section \<open>Candidate models\<close>

definition insert_candidate_file :: "model_file \<Rightarrow> model \<Rightarrow> model result" where
  "insert_candidate_file f m =
     (if map_of (m_files m) (file_id f) \<noteq> None
      then Inl (AppError ''ModelError'' ''Duplicate root while composing model candidate'')
      else Inr (insert_root f m))"

fun insert_candidate_files :: "model_file list \<Rightarrow> model \<Rightarrow> model result" where
  "insert_candidate_files [] m = Inr m"
| "insert_candidate_files (f # fs) m = rbind (insert_candidate_file f m) (insert_candidate_files fs)"

definition compose_candidate ::
  "model \<Rightarrow> string set \<Rightarrow> model_file list \<Rightarrow> pyval \<Rightarrow> int option \<Rightarrow> model result" where
  "compose_candidate live removed replacements tree_count generation =
     (if opt_holds (\<lambda>g. m_timestamp_generation live \<noteq> g) generation
      then Inl (AppError ''ModelError'' ''Cannot reuse roots rendered with a stale downloaded timestamp overlay'')
      else
        (let gen = (case generation of None \<Rightarrow> m_timestamp_generation live | Some g \<Rightarrow> g);
             c0 = set_downloaded_timestamp_overlay_generation (PInt gen) (new_model (m_clock live));
             kept = filter (\<lambda>f. file_id f \<notin> removed) (iter_files live)
         in rbind (insert_candidate_files kept c0)
              (\<lambda>c1. rbind (insert_candidate_files replacements c1)
                (\<lambda>c2. Inr (set_tree_file_count tree_count c2)))))"

end
