(* ===== verification/Publication.thy ===== *)
theory Publication
  imports Model_Ops
begin

text \<open>
  What the Model publishes. \<open>Model.__refresh_published_file\<close> copies a root field by field through
  the checked setters, which may raise; the lemmas here show that for well-formed roots and
  overlays no assignment raises and that the record is the root's own attributes under the
  counters of its overlay (\<open>effective_record\<close>).
\<close>

definition opt_percent :: "int option \<Rightarrow> bool" where
  "opt_percent z = (case z of None \<Rightarrow> True | Some n \<Rightarrow> 0 \<le> n \<and> n \<le> 100)"

definition wf_overlay :: "overlay \<Rightarrow> bool" where
  "wf_overlay v \<longleftrightarrow>
     opt_percent (ov_progress v) \<and> opt_nonneg (ov_transferred v) \<and> opt_nonneg (ov_speed v) \<and>
     opt_nonneg (ov_eta v)"

text \<open>The effective attributes of a root: its own, under the counters of its overlay.\<close>

definition effective_attrs :: "overlay option \<Rightarrow> file_attrs \<Rightarrow> file_attrs" where
  "effective_attrs ov a =
     (case ov of
        None \<Rightarrow> a
      | Some v \<Rightarrow>
          put_opt_int ''eta'' (ov_eta v) (put_opt_int ''downloading_speed'' (ov_speed v)
            (put_opt_int ''transferred_size'' (ov_transferred v)
              (put_opt_int ''download_progress'' (ov_progress v) a))))"

lemma set_nonneg_opt:
  assumes "opt_nonneg z"
  shows "set_transferred_size (of_opt_int z) f = Inr (upd (put_opt_int ''transferred_size'' z) f)"
    "set_downloading_speed (of_opt_int z) f = Inr (upd (put_opt_int ''downloading_speed'' z) f)"
    "set_eta (of_opt_int z) f = Inr (upd (put_opt_int ''eta'' z) f)"
    "set_display_size_total (of_opt_int z) f = Inr (upd (put_opt_int ''display_size_total'' z) f)"
    "set_display_transferred_size (of_opt_int z) f =
       Inr (upd (put_opt_int ''display_transferred_size'' z) f)"
  using assms
  by (simp_all add: attribute_setters of_opt_int_def opt_nonneg_def split: option.splits)

lemma set_percent_opt:
  assumes "opt_percent z"
  shows "set_download_progress (of_opt_int z) f = Inr (upd (put_opt_int ''download_progress'' z) f)"
    "set_validation_progress (of_opt_int z) f = Inr (upd (put_opt_int ''validation_progress'' z) f)"
  using assms
  by (simp_all add: attribute_setters of_opt_int_def opt_percent_def split: option.splits)

lemma overlay_writes_ok:
  "wf_overlay v \<Longrightarrow> write_attributes (overlay_writes v) f = Inr (upd (effective_attrs (Some v)) f)"
  by (simp add: overlay_writes_def set_nonneg_opt set_percent_opt wf_overlay_def effective_attrs_def upd_def)

lemma as_opt_int_checks:
  "nat_or_none v \<Longrightarrow> opt_nonneg (as_opt_int v)"
  "percent_or_none v \<Longrightarrow> opt_percent (as_opt_int v)"
  by (auto simp: nat_or_none_def percent_or_none_def as_opt_int_def opt_nonneg_def opt_percent_def
      split: pyval.splits)

lemma wf_attrs_runtime:
  "wf_attrs a \<Longrightarrow> k \<in> set runtime_keys \<Longrightarrow> runtime_accepts k (runtime_value k (runtime_default k) a)"
  by (simp add: wf_attrs_def list_all_iff)

lemma wf_attrs_values:
  assumes wf: "wf_attrs a"
  shows "opt_nonneg (fa_remote_size a)" "opt_nonneg (fa_local_size a)"
    "opt_nonneg (a_transferred_size a)" "opt_nonneg (a_display_size_total a)"
    "opt_nonneg (a_display_transferred_size a)" "opt_nonneg (a_downloading_speed a)"
    "opt_nonneg (a_eta a)" "opt_percent (a_download_progress a)"
    "opt_percent (a_validation_progress a)"
proof -
  note at = wf_attrs_runtime[OF wf, unfolded runtime_keys_def]
  show "opt_nonneg (fa_remote_size a)" "opt_nonneg (fa_local_size a)"
    using wf by (simp_all add: wf_attrs_def)
  show "opt_nonneg (a_transferred_size a)" "opt_nonneg (a_display_size_total a)"
    "opt_nonneg (a_display_transferred_size a)" "opt_nonneg (a_downloading_speed a)"
    "opt_nonneg (a_eta a)"
    using at[of "''transferred_size''"] at[of "''display_size_total''"] at[of "''eta''"]
      at[of "''display_transferred_size''"] at[of "''downloading_speed''"]
    by (simp_all add: runtime_getters runtime_accepts_def runtime_default_def as_opt_int_checks)
  show "opt_percent (a_download_progress a)" "opt_percent (a_validation_progress a)"
    using at[of "''download_progress''"] at[of "''validation_progress''"]
    by (simp_all add: runtime_getters runtime_accepts_def runtime_default_def as_opt_int_checks)
qed

lemma wf_attrs_chunks:
  assumes "wf_attrs a"
  shows "case a_corrupt_chunks a of None \<Rightarrow> True | Some ns \<Rightarrow> list_all is_chunk (map PInt ns)"
  using wf_attrs_runtime[OF assms, of "''corrupt_chunks''"]
  by (auto simp: runtime_keys_def runtime_accepts_def runtime_default_def a_corrupt_chunks_def
      chunks_or_none_def as_opt_ints_def is_chunk_def list_all_iff split: pyval.splits)

lemma set_sized_opt:
  assumes "opt_nonneg z"
  shows "set_remote_size (of_opt_int z) f = Inr (upd (put_remote_size z) f)"
    "set_local_size (of_opt_int z) f = Inr (upd (put_local_size z) f)"
  using assms by (auto simp: set_remote_size_def set_local_size_def of_opt_int_def opt_nonneg_def
      split: option.splits)

lemma set_state_enum: "set_state (PEnum ''ModelFile.State'' (state_enum s)) f = Inr (upd (\<lambda>a. a\<lparr>fa_state := s\<rparr>) f)"
  by (cases s) (simp_all add: set_state_def state_of_enum_def)

lemma set_opt_values:
  "set_downloaded_timestamp (of_opt_date t) f = Inr (upd (set_runtime ''downloaded_timestamp'' (of_opt_date t) PNone) f)"
  "set_validation_error (of_opt_str s) f = Inr (upd (set_runtime ''validation_error'' (of_opt_str s) PNone) f)"
  "set_path_pair_id (of_opt_str s) f = Inr (upd (\<lambda>a. a\<lparr>fa_path_pair_id := s\<rparr>) f)"
  "set_path_pair_name (of_opt_str s) f = Inr (upd (\<lambda>a. a\<lparr>fa_path_pair_name := s\<rparr>) f)"
  by (cases t; cases s; simp add: set_downloaded_timestamp_def set_validation_error_def
      set_path_pair_id_def set_path_pair_name_def of_opt_date_def of_opt_str_def)+

lemma set_chunks_opt:
  "(case z of None \<Rightarrow> True | Some ns \<Rightarrow> list_all is_chunk (map PInt ns)) \<Longrightarrow>
   set_corrupt_chunks (of_opt_ints z) f = Inr (upd (set_runtime ''corrupt_chunks'' (of_opt_ints z) PNone) f)"
  by (cases z) (auto simp: set_corrupt_chunks_def of_opt_ints_def)

lemma write_attributes_append:
  "write_attributes (ws @ vs) f = rbind (write_attributes ws f) (write_attributes vs)"
proof (induction ws arbitrary: f)
  case (Cons w ws)
  then show ?case by (cases "write_attribute w f") simp_all
qed simp


definition or_else :: "'a option \<Rightarrow> 'a option \<Rightarrow> 'a option" where
  "or_else z old = (case z of None \<Rightarrow> old | Some t \<Rightarrow> Some t)"

text \<open>What the assignments of a snapshot leave in a fresh record.\<close>

definition copy_attrs :: "file_attrs \<Rightarrow> file_attrs \<Rightarrow> file_attrs" where
  "copy_attrs a b =
     (let b1 = put_local_size (fa_local_size a) (put_remote_size (fa_remote_size a) (b\<lparr>fa_state := fa_state a\<rparr>));
          b2 = put_remote_content (a_remote_content a) (put_local_present (a_local_present a)
                 (put_remote_present (a_remote_present a) b1));
          b3 = put_opt_int ''display_transferred_size'' (a_display_transferred_size a)
                (put_opt_int ''display_size_total'' (a_display_size_total a)
                  (put_opt_int ''transferred_size'' (a_transferred_size a) b2));
          b4 = put_opt_int ''eta'' (a_eta a) (put_opt_int ''downloading_speed'' (a_downloading_speed a)
                (put_opt_int ''download_progress'' (a_download_progress a) b3));
          b5 = put_bool ''explicitly_stopped'' (a_explicitly_stopped a)
                (put_bool ''is_stoppable'' (a_is_stoppable a)
                  (put_bool ''is_extractable'' (a_is_extractable a) b4));
          b6 = put_bool ''resume_checkpoint_present'' (a_resume_checkpoint_present a)
                (put_bool ''complete_local_coverage'' (a_complete_local_coverage a) b5);
          b7 = fa_local_created_update (or_else (fa_local_created a)) b6;
          b8 = fa_local_modified_update (or_else (fa_local_modified a)) b7;
          b9 = fa_remote_created_update (or_else (fa_remote_created a)) b8;
          b10 = fa_remote_modified_update (or_else (fa_remote_modified a)) b9;
          b11 = put_opt_int ''validation_progress'' (a_validation_progress a)
                 (set_runtime ''downloaded_timestamp'' (of_opt_date (a_downloaded_timestamp a)) PNone b10);
          b12 = set_runtime ''corrupt_chunks'' (of_opt_ints (a_corrupt_chunks a)) PNone
                 (set_runtime ''validation_error'' (of_opt_str (a_validation_error a)) PNone b11);
          b13 = put_bool ''final_move_succeeded'' (a_final_move_succeeded a) b12
      in b13\<lparr>fa_path_pair_id := fa_path_pair_id a, fa_path_pair_name := fa_path_pair_name a\<rparr>)"

lemma or_else_simps [simp]: "or_else None = (\<lambda>x. x)" "or_else (Some t) = (\<lambda>_. Some t)"
  by (auto simp: or_else_def)

lemma write_opt_time:
  assumes "\<And>t f. write_attribute (w t) f = Inr (upd (u (\<lambda>_. Some t)) f)" "\<And>a. u (\<lambda>x. x) a = a"
  shows "write_attributes (opt_write w z @ ws) f = write_attributes ws (upd (u (or_else z)) f)"
  by (cases z) (simp_all add: opt_write_def assms upd_def)

lemma write_opt_times:
  "write_attributes (opt_write (\<lambda>t. WLocalCreated (PDate t)) z @ ws) f =
     write_attributes ws (upd (fa_local_created_update (or_else z)) f)"
  "write_attributes (opt_write (\<lambda>t. WLocalModified (PDate t)) z @ ws) f =
     write_attributes ws (upd (fa_local_modified_update (or_else z)) f)"
  "write_attributes (opt_write (\<lambda>t. WRemoteCreated (PDate t)) z @ ws) f =
     write_attributes ws (upd (fa_remote_created_update (or_else z)) f)"
  "write_attributes (opt_write (\<lambda>t. WRemoteModified (PDate t)) z @ ws) f =
     write_attributes ws (upd (fa_remote_modified_update (or_else z)) f)"
  by (rule write_opt_time; simp add: set_local_created_timestamp_def set_local_modified_timestamp_def
      set_remote_created_timestamp_def set_remote_modified_timestamp_def)+

lemmas accepted_writes =
  set_nonneg_opt set_percent_opt set_sized_opt set_state_enum set_opt_values set_chunks_opt
  set_remote_present_def set_local_present_def set_remote_has_transferable_content_def
  set_unchecked_flag_def set_final_move_succeeded_def set_checked_flag_def

lemma snapshot_writes_ok:
  assumes "wf_attrs a"
  shows "write_attributes (snapshot_writes a @ ws) f = write_attributes ws (upd (copy_attrs a) f)"
  using wf_attrs_values[OF assms] wf_attrs_chunks[OF assms]
  by (simp add: snapshot_writes_def write_opt_times accepted_writes copy_attrs_def upd_def Let_def del: upd_upd)

lemma put_frame [simp]:
  "fa_name (put_remote_size z a) = fa_name a" "fa_name (put_local_size z a) = fa_name a" "fa_name (put_remote_present b a) = fa_name a"
  "fa_name (put_local_present b a) = fa_name a" "fa_name (put_remote_content b a) = fa_name a"
  "fa_state (put_remote_size z a) = fa_state a" "fa_state (put_local_size z a) = fa_state a" "fa_state (put_remote_present b a) = fa_state a"
  "fa_state (put_local_present b a) = fa_state a" "fa_state (put_remote_content b a) = fa_state a"
  "fa_local_created (put_remote_size z a) = fa_local_created a" "fa_local_created (put_local_size z a) = fa_local_created a" "fa_local_created (put_remote_present b a) = fa_local_created a"
  "fa_local_created (put_local_present b a) = fa_local_created a" "fa_local_created (put_remote_content b a) = fa_local_created a"
  "fa_local_modified (put_remote_size z a) = fa_local_modified a" "fa_local_modified (put_local_size z a) = fa_local_modified a" "fa_local_modified (put_remote_present b a) = fa_local_modified a"
  "fa_local_modified (put_local_present b a) = fa_local_modified a" "fa_local_modified (put_remote_content b a) = fa_local_modified a"
  "fa_remote_created (put_remote_size z a) = fa_remote_created a" "fa_remote_created (put_local_size z a) = fa_remote_created a" "fa_remote_created (put_remote_present b a) = fa_remote_created a"
  "fa_remote_created (put_local_present b a) = fa_remote_created a" "fa_remote_created (put_remote_content b a) = fa_remote_created a"
  "fa_remote_modified (put_remote_size z a) = fa_remote_modified a" "fa_remote_modified (put_local_size z a) = fa_remote_modified a" "fa_remote_modified (put_remote_present b a) = fa_remote_modified a"
  "fa_remote_modified (put_local_present b a) = fa_remote_modified a" "fa_remote_modified (put_remote_content b a) = fa_remote_modified a"
  "fa_path_pair_id (put_remote_size z a) = fa_path_pair_id a" "fa_path_pair_id (put_local_size z a) = fa_path_pair_id a" "fa_path_pair_id (put_remote_present b a) = fa_path_pair_id a"
  "fa_path_pair_id (put_local_present b a) = fa_path_pair_id a" "fa_path_pair_id (put_remote_content b a) = fa_path_pair_id a"
  "fa_path_pair_name (put_remote_size z a) = fa_path_pair_name a" "fa_path_pair_name (put_local_size z a) = fa_path_pair_name a" "fa_path_pair_name (put_remote_present b a) = fa_path_pair_name a"
  "fa_path_pair_name (put_local_present b a) = fa_path_pair_name a" "fa_path_pair_name (put_remote_content b a) = fa_path_pair_name a"
  "fa_parent_path (put_remote_size z a) = fa_parent_path a" "fa_parent_path (put_local_size z a) = fa_parent_path a" "fa_parent_path (put_remote_present b a) = fa_parent_path a"
  "fa_parent_path (put_local_present b a) = fa_parent_path a" "fa_parent_path (put_remote_content b a) = fa_parent_path a"
  "fa_remote_size (put_remote_size z a) = z" "fa_remote_size (put_local_size z a) = fa_remote_size a" "fa_remote_size (put_remote_present b a) = fa_remote_size a"
  "fa_remote_size (put_local_present b a) = fa_remote_size a" "fa_remote_size (put_remote_content b a) = fa_remote_size a"
  "fa_local_size (put_remote_size z a) = fa_local_size a" "fa_local_size (put_local_size z a) = z" "fa_local_size (put_remote_present b a) = fa_local_size a"
  "fa_local_size (put_local_present b a) = fa_local_size a" "fa_local_size (put_remote_content b a) = fa_local_size a"
  "runtime_value k d (put_remote_size z a) = runtime_value k d a" "runtime_value k d (put_local_size z a) = runtime_value k d a"
  "runtime_value k d (put_remote_present b a) = runtime_value k d a" "runtime_value k d (put_local_present b a) = runtime_value k d a" "runtime_value k d (put_remote_content b a) = runtime_value k d a"
  by (simp_all add: attribute_puts)

lemma put_flags [simp]:
  "a_is_dir (put_remote_size z a) = a_is_dir a" "a_is_dir (put_local_size z a) = a_is_dir a"
  "a_is_dir (put_remote_present b a) = a_is_dir a" "a_is_dir (put_local_present b a) = a_is_dir a"
  "a_is_dir (put_remote_content b a) = a_is_dir a"
  "a_remote_present (put_remote_present b a) = b" "a_local_present (put_local_present b a) = b"
  "a_remote_content (put_remote_content b a) = b"
  "a_remote_present (put_local_present b a) = a_remote_present a"
  "a_remote_present (put_remote_content b a) = a_remote_present a"
  "a_local_present (put_remote_content b a) = a_local_present a"
  by (simp_all add: attribute_puts get_set_flag)

lemma time_update_frame [simp]:
  "runtime_value k d (fa_local_created_update g a) = runtime_value k d a"
  "runtime_value k d (fa_local_modified_update g a) = runtime_value k d a"
  "runtime_value k d (fa_remote_created_update g a) = runtime_value k d a"
  "runtime_value k d (fa_remote_modified_update g a) = runtime_value k d a"
  "get_flag m (fa_local_created_update g a) = get_flag m a"
  "get_flag m (fa_local_modified_update g a) = get_flag m a"
  "get_flag m (fa_remote_created_update g a) = get_flag m a"
  "get_flag m (fa_remote_modified_update g a) = get_flag m a"
  by (simp_all add: runtime_value_def get_flag_def)

lemma or_else_right [simp]: "or_else z None = z"
  by (simp add: or_else_def split: option.splits)

lemma copy_attrs_frame [simp]:
  "fa_name (copy_attrs a b) = fa_name b" "fa_parent_path (copy_attrs a b) = fa_parent_path b"
  "fa_path_pair_id (copy_attrs a b) = fa_path_pair_id a"
  by (simp_all add: copy_attrs_def Let_def)

lemma copy_attrs_comparison:
  assumes "fa_name b = fa_name a" "a_is_dir b = a_is_dir a"
    "fa_local_created b = None" "fa_local_modified b = None"
    "fa_remote_created b = None" "fa_remote_modified b = None" "\<not> a_final_move_pending b"
  shows "comparison_attributes (copy_attrs a b) =
    comparison_attributes (put_bool ''final_move_pending'' False a)"
  using assms by (simp add: comparison_attributes_def copy_attrs_def Let_def runtime_getters)

lemma effective_comparison_cong:
  "comparison_attributes a = comparison_attributes b \<Longrightarrow>
   comparison_attributes (effective_attrs ov a) = comparison_attributes (effective_attrs ov b)"
  by (cases ov) (simp_all add: comparison_attributes_def effective_attrs_def runtime_getters)

definition effective_record :: "int \<Rightarrow> overlay option \<Rightarrow> model_file \<Rightarrow> model_file" where
  "effective_record now ov f =
     ModelFile (effective_attrs ov (copy_attrs (attrs f) (attrs (new_model_file 0 now (mf_name f) (a_is_dir (attrs f)))))) []"

definition wf_opt_overlay :: "overlay option \<Rightarrow> bool" where
  "wf_opt_overlay ov = (case ov of None \<Rightarrow> True | Some v \<Rightarrow> wf_overlay v)"

lemma snapshot_total:
  assumes "wf_attrs (attrs f)" "wf_opt_overlay ov"
  shows "snapshot now ov f = Inr (effective_record now ov f)"
proof (cases ov)
  case None
  then show ?thesis
    using snapshot_writes_ok[OF assms(1), of "[]"]
    by (simp add: snapshot_def effective_record_def effective_attrs_def upd_def new_model_file_def)
next
  case (Some v)
  with assms show ?thesis
    by (simp add: snapshot_def snapshot_writes_ok overlay_writes_ok wf_opt_overlay_def
        effective_record_def upd_def new_model_file_def)
qed

lemma effective_record_comparison:
  "comparison_attributes (attrs (effective_record now ov f)) =
   comparison_attributes (effective_attrs ov (put_bool ''final_move_pending'' False (attrs f)))"
proof -
  have "comparison_attributes (copy_attrs (attrs f) (attrs (new_model_file 0 now (mf_name f) (a_is_dir (attrs f))))) =
      comparison_attributes (put_bool ''final_move_pending'' False (attrs f))"
    by (rule copy_attrs_comparison)
      (simp_all add: new_model_file_def get_flag_def a_final_move_pending_def runtime_value_def as_bool_def)
  then show ?thesis
    unfolding effective_record_def model_file.sel by (rule effective_comparison_cong)
qed

lemma effective_attrs_frame [simp]:
  "fa_name (effective_attrs ov a) = fa_name a" "fa_state (effective_attrs ov a) = fa_state a"
  "fa_parent_path (effective_attrs ov a) = fa_parent_path a"
  "fa_path_pair_id (effective_attrs ov a) = fa_path_pair_id a"
  "fa_local_size (effective_attrs ov a) = fa_local_size a"
  "fa_remote_size (effective_attrs ov a) = fa_remote_size a"
  by (simp_all add: effective_attrs_def split: option.splits)

lemma effective_record_id:
  "fa_parent_path (attrs f) = None \<Longrightarrow> file_id (effective_record now ov f) = file_id f"
  by (simp add: file_id_def full_path_def effective_record_def new_model_file_def)

lemma full_effective_total:
  "wf_opt_overlay (map_of (m_overlays m) (file_id f)) \<Longrightarrow>
   full_effective_file f m =
     (Inr (upd (effective_attrs (map_of (m_overlays m) (file_id f))) f), m)"
  by (cases "map_of (m_overlays m) (file_id f)")
    (simp_all add: full_effective_file_def wf_opt_overlay_def overlay_writes_ok effective_attrs_def upd_def)

end
