(* ===== verification/Method_Logic.thy ===== *)
theory Method_Logic
  imports Publication
begin

text \<open>
  Rules for the methods of \<open>Model\<close>, which run in the state and exception monad: a Hoare triple
  with one postcondition for returning and one for raising (\<open>triple\<close>), methods that keep a field
  (\<open>leaves\<close>), and functions that only notify outside code (\<open>quiet\<close>).
\<close>

section \<open>Reasoning about methods\<close>

text \<open>\<open>triple P p Q E\<close>: from a model with \<open>P\<close>, \<open>p\<close> returns with \<open>Q\<close> or raises with \<open>E\<close>.\<close>

definition triple ::
  "(model \<Rightarrow> bool) \<Rightarrow> 'a mop \<Rightarrow> ('a \<Rightarrow> model \<Rightarrow> bool) \<Rightarrow> (py_error \<Rightarrow> model \<Rightarrow> bool) \<Rightarrow> bool" where
  "triple P p Q E \<longleftrightarrow>
     (\<forall>m. P m \<longrightarrow> (case p m of (Inr x, m') \<Rightarrow> Q x m' | (Inl e, m') \<Rightarrow> E e m'))"

definition leaves :: "(model \<Rightarrow> 'b) \<Rightarrow> 'a mop \<Rightarrow> bool" where
  "leaves fld p \<longleftrightarrow> (\<forall>m. fld (snd (p m)) = fld m)"

named_theorems mop_rules \<open>introduction rules for methods composed in the monad\<close>

lemma triple_ret: "(\<And>m. P m \<Longrightarrow> Q x m) \<Longrightarrow> triple P (mret x) Q E"
  by (simp add: triple_def mret_def)

lemma triple_mod: "(\<And>m. P m \<Longrightarrow> Q () (g m)) \<Longrightarrow> triple P (mmod g) Q E"
  by (simp add: triple_def mmod_def)

lemma triple_bind:
  "triple P p R E \<Longrightarrow> (\<And>x. triple (R x) (k x) Q E) \<Longrightarrow> triple P (mbind p k) Q E"
  unfolding triple_def mbind_def
  by (auto split: prod.splits sum.splits) (metis (no_types, lifting) prod.case sum.case)+

lemma triple_for:
  "(\<And>x xs. triple (I (x # xs)) (body x) (\<lambda>_. I xs) E) \<Longrightarrow> triple (I xs) (mfor xs body) (\<lambda>_. I []) E"
  by (induction xs) (auto intro: triple_ret triple_bind)

lemma triple_conseq:
  "triple P p Q E \<Longrightarrow> (\<And>m. P' m \<Longrightarrow> P m) \<Longrightarrow> (\<And>x m. Q x m \<Longrightarrow> Q' x m) \<Longrightarrow> (\<And>e m. E e m \<Longrightarrow> E' e m) \<Longrightarrow>
   triple P' p Q' E'"
  by (fastforce simp: triple_def split: prod.splits sum.splits)

lemma tripleD:
  "triple P p Q E \<Longrightarrow> P m \<Longrightarrow> p m = (Inr x, m') \<Longrightarrow> Q x m'"
  "triple P p Q E \<Longrightarrow> P m \<Longrightarrow> p m = (Inl e, m') \<Longrightarrow> E e m'"
  by (fastforce simp: triple_def)+

lemma leaves_rules [mop_rules]:
  "leaves fld (mret x)" "leaves fld (mraise e)" "leaves fld (mget g)" "leaves fld (mlift r)"
  by (simp_all add: leaves_def mop_defs)

lemma leaves_mod [mop_rules]: "(\<And>m. fld (g m) = fld m) \<Longrightarrow> leaves fld (mmod g)"
  by (simp add: leaves_def mmod_def)

lemma leaves_bind [mop_rules]:
  "leaves fld p \<Longrightarrow> (\<And>x. leaves fld (k x)) \<Longrightarrow> leaves fld (mbind p k)"
  unfolding leaves_def mbind_def by (auto split: prod.splits sum.splits) (metis snd_conv)+

lemma leaves_finally [mop_rules]:
  "leaves fld p \<Longrightarrow> leaves fld q \<Longrightarrow> leaves fld (mfinally p q)"
  unfolding leaves_def mfinally_def by (auto split: prod.splits sum.splits) (metis snd_conv)+

lemma leaves_for [mop_rules]: "(\<And>x. leaves fld (body x)) \<Longrightarrow> leaves fld (mfor xs body)"
  by (induction xs) (auto intro: mop_rules)

lemma leavesD: "leaves fld p \<Longrightarrow> p m = (r, m') \<Longrightarrow> fld m' = fld m"
  by (metis leaves_def snd_conv)

section \<open>Notifications\<close>

text \<open>A function is quiet when it changes nothing but the record of what outside code was told.\<close>

definition quiet :: "(model \<Rightarrow> model) \<Rightarrow> bool" where
  "quiet g \<longleftrightarrow> (\<forall>m. \<exists>es. g m = m\<lparr>m_events := es\<rparr>)"

lemma quietI: "(\<And>m. \<exists>es. g m = m\<lparr>m_events := es\<rparr>) \<Longrightarrow> quiet g"
  by (simp add: quiet_def)

lemma quietE:
  assumes "quiet g"
  obtains es where "g m = m\<lparr>m_events := es\<rparr>"
  using assms by (auto simp: quiet_def)

lemma quiet_id: "quiet (\<lambda>m. m)"
proof (rule quietI)
  fix m :: model
  have "m = m\<lparr>m_events := m_events m\<rparr>" by simp
  then show "\<exists>es. m = m\<lparr>m_events := es\<rparr>" ..
qed

lemma quiet_emit: "quiet (emit e)"
  by (auto simp: quiet_def emit_def)

lemma quiet_compose: "quiet g \<Longrightarrow> quiet h \<Longrightarrow> quiet (\<lambda>m. h (g m))"
proof (rule quietI)
  fix m :: model assume "quiet g" "quiet h"
  obtain es where "g m = m\<lparr>m_events := es\<rparr>" using \<open>quiet g\<close> by (rule quietE)
  moreover obtain fs where "h (g m) = (g m)\<lparr>m_events := fs\<rparr>" using \<open>quiet h\<close> by (rule quietE)
  ultimately show "\<exists>es. h (g m) = m\<lparr>m_events := es\<rparr>" by auto
qed

lemma quiet_fold: "(\<And>x. quiet (g x)) \<Longrightarrow> quiet (fold g xs)"
proof (induction xs)
  case (Cons x xs)
  then show ?case using quiet_compose[of "g x" "fold g xs"] by (simp add: comp_def)
qed (simp add: id_def quiet_id)

lemma quiet_if: "quiet g \<Longrightarrow> quiet h \<Longrightarrow> quiet (\<lambda>m. if b m then g m else h m)"
  by (simp add: quiet_def)

lemma quiet_over_listeners:
  "(\<And>l. quiet (g l)) \<Longrightarrow> quiet (\<lambda>m. fold g (m_listeners m) m)"
proof (rule quietI)
  fix m :: model assume "\<And>l. quiet (g l)"
  then have "quiet (fold g (m_listeners m))" by (rule quiet_fold)
  then show "\<exists>es. fold g (m_listeners m) m = m\<lparr>m_events := es\<rparr>" by (auto simp: quiet_def)
qed

lemma quiet_record_provenance: "quiet (record_provenance fid r p i l s g)"
  unfolding record_provenance_def[abs_def] by (intro quiet_if quiet_id quiet_emit)

lemma quiet_record_rollback: "quiet (record_rollback c x f i s p j q)"
proof (cases p)
  case None
  show ?thesis unfolding record_rollback_def[abs_def] None option.case by (rule quiet_id)
next
  case (Some a)
  show ?thesis
    unfolding record_rollback_def[abs_def] Some option.case Let_def
    by (intro quiet_if[OF quietI quiet_id]) (rule quiet_record_provenance[unfolded quiet_def, rule_format])
qed

lemma quiet_notify:
  "quiet (notify_versioned_change f gv sv)" "quiet (notify_legacy_publication_change old new)"
  "quiet notify_summary_changed"
proof -
  show "quiet (notify_versioned_change f gv sv)"
    unfolding notify_versioned_change_def[abs_def] Let_def
    by (intro quiet_over_listeners quiet_if quiet_compose[of "\<lambda>m. if _ then _ m else m"] quiet_emit quiet_id)
  show "quiet (notify_legacy_publication_change old new)"
    unfolding notify_legacy_publication_change_def[abs_def]
    by (cases old) (simp_all add: quiet_id quiet_over_listeners quiet_emit)
  show "quiet notify_summary_changed"
    unfolding notify_summary_changed_def[abs_def]
    by (intro quiet_over_listeners quiet_if quiet_emit quiet_id)
qed
end
