(* ===== verification/Model_Invariant.thy ===== *)
theory Model_Invariant
  imports Method_Logic
begin

text \<open>
  The invariant of the Model: its roots, its version counters, its overlays, its publications, and
  the coherence of what is published with what is stored (\<open>minv\<close>); the effect of one publication
  and of one version step on it.
\<close>

section \<open>The invariant\<close>

definition root_file :: "model_file \<Rightarrow> bool" where
  "root_file f \<longleftrightarrow>
     fa_parent_path (attrs f) = None \<and> plain_path (mf_name f) (fa_path_pair_id (attrs f)) \<and>
     wf_attrs (attrs f)"

definition ids_by_name :: "(string, model_file) dict \<Rightarrow> string \<Rightarrow> string set" where
  "ids_by_name files n = {fid. \<exists>f. map_of files fid = Some f \<and> mf_name f = n}"

definition some_nonempty :: "'a set \<Rightarrow> 'a set option" where
  "some_nonempty s = (if s = {} then None else Some s)"

text \<open>The roots are keyed by their identity, the order list is the sorted list of the keys, and the
  name index holds for every name the identities of the roots that bear it.\<close>

definition roots_ok ::
  "(string, model_file) dict \<Rightarrow> string list \<Rightarrow> (string, string set) dict \<Rightarrow> bool" where
  "roots_ok files ordered by_name \<longleftrightarrow>
     dict_ok files \<and> (\<forall>fid f. map_of files fid = Some f \<longrightarrow> fid = file_id f \<and> root_file f) \<and>
     sorted ordered \<and> distinct ordered \<and> set ordered = fst ` set files \<and>
     (\<forall>n. map_of by_name n = some_nonempty (ids_by_name files n))"

text \<open>The global version is the sum of the versions of the scopes.\<close>

definition versions_ok :: "int \<Rightarrow> (string option, int) dict \<Rightarrow> bool" where
  "versions_ok version scopes \<longleftrightarrow>
     dict_ok scopes \<and> (\<forall>v\<in>snd ` set scopes. 1 \<le> v) \<and> version = sum_list (map snd scopes)"

text \<open>Overlays hold values the setters accept; a job or an epoch is only recorded for an overlay.\<close>

definition overlays_ok ::
  "(string, overlay) dict \<Rightarrow> (string, job_identity) dict \<Rightarrow> (string, int) dict \<Rightarrow> bool" where
  "overlays_ok overlays ids epochs \<longleftrightarrow>
     (\<forall>v\<in>snd ` set overlays. wf_overlay v) \<and>
     (\<forall>fid i. map_of ids fid = Some i \<longrightarrow> valid_identity i \<and> fid \<in> dom (map_of overlays)) \<and>
     dom (map_of epochs) \<subseteq> dom (map_of overlays)"

text \<open>Only roots are published, and a job is only bound to a published root.\<close>

definition published_ok ::
  "(string, model_file) dict \<Rightarrow> (string, model_file) dict \<Rightarrow> (string, job_identity) dict \<Rightarrow>
   (string, job_identity) dict \<Rightarrow> bool" where
  "published_ok files published ids retiring \<longleftrightarrow>
     dom (map_of published) \<subseteq> dom (map_of files) \<and>
     (\<forall>fid i. map_of ids fid = Some i \<longrightarrow> valid_identity i \<and> fid \<in> dom (map_of published)) \<and>
     (\<forall>fid i. map_of retiring fid = Some i \<longrightarrow> valid_identity i)"

text \<open>Outside \<open>R\<close>, the record readers see is the effective record of the root: its own attributes
  under its overlay.\<close>

definition coherent ::
  "string set \<Rightarrow> (string, model_file) dict \<Rightarrow> (string, overlay) dict \<Rightarrow> (string, model_file) dict \<Rightarrow> bool" where
  "coherent R files overlays published \<longleftrightarrow>
     (\<forall>fid f. fid \<notin> R \<longrightarrow> map_of files fid = Some f \<longrightarrow>
        (\<exists>now. map_of published fid = Some (effective_record now (map_of overlays fid) f)))"

definition minv :: "string set \<Rightarrow> model \<Rightarrow> bool" where
  "minv R m \<longleftrightarrow>
     roots_ok (m_files m) (m_ordered m) (m_by_name m) \<and>
     versions_ok (m_version m) (m_scope_versions m) \<and>
     overlays_ok (m_overlays m) (m_overlay_ids m) (m_overlay_epochs m) \<and>
     published_ok (m_files m) (m_published m) (m_published_ids m) (m_retiring_ids m) \<and>
     coherent R (m_files m) (m_overlays m) (m_published m)"

abbreviation model_inv :: "model \<Rightarrow> bool" where
  "model_inv \<equiv> minv {}"

lemma minv_frame [simp]:
  "minv R (m\<lparr>m_events := es\<rparr>) = minv R m" "minv R (m\<lparr>m_clock := c\<rparr>) = minv R m"
  "minv R (m\<lparr>m_suppress_clear := k\<rparr>) = minv R m" "minv R (m\<lparr>m_replacement_depth := k\<rparr>) = minv R m"
  "minv R (m\<lparr>m_base_fallbacks := b\<rparr>) = minv R m" "minv R (m\<lparr>m_listeners := ls\<rparr>) = minv R m"
  "minv R (m\<lparr>m_version_callback := cb\<rparr>) = minv R m" "minv R (m\<lparr>m_tree_file_count := n\<rparr>) = minv R m"
  "minv R (m\<lparr>m_timestamp_generation := n\<rparr>) = minv R m"
  "minv R (m\<lparr>m_trace_levels := ts\<rparr>) = minv R m" "minv R (m\<lparr>m_trace_recorder := tr\<rparr>) = minv R m"
  "minv R (m\<lparr>m_correction_ids := s, m_correction_old := d\<rparr>) = minv R m"
  by (simp_all add: minv_def)

lemma minv_quiet: "quiet g \<Longrightarrow> minv R (g m) = minv R m"
  by (rule quietE[of g m]) simp_all

lemma minv_mono: "minv R m \<Longrightarrow> R \<subseteq> S \<Longrightarrow> minv S m"
  by (auto simp: minv_def coherent_def)

lemma minv_new: "model_inv (new_model now)"
  by (simp add: minv_def roots_ok_def versions_ok_def overlays_ok_def published_ok_def coherent_def
      new_model_def ids_by_name_def some_nonempty_def)

lemma root_name_of_id:
  "root_file f \<Longrightarrow> root_file g \<Longrightarrow> file_id f = file_id g \<Longrightarrow>
   mf_name f = mf_name g \<and> fa_path_pair_id (attrs f) = fa_path_pair_id (attrs g)"
  using file_id.ident_eq_iff by (auto simp: root_file_def file_id_def full_path_def)

lemma minv_root:
  "minv R m \<Longrightarrow> map_of (m_files m) fid = Some f \<Longrightarrow> fid = file_id f \<and> root_file f"
  by (simp add: minv_def roots_ok_def)

lemma minv_overlay: "minv R m \<Longrightarrow> wf_opt_overlay (map_of (m_overlays m) fid)"
  by (auto simp: minv_def overlays_ok_def wf_opt_overlay_def split: option.splits dest!: map_of_SomeD)

section \<open>Publication\<close>

definition rebinds :: "string \<Rightarrow> job_identity option \<Rightarrow> model \<Rightarrow> model \<Rightarrow> bool" where
  "rebinds fid i m m' \<longleftrightarrow>
     (\<exists>es ids. m' = m\<lparr>m_published_ids := ids, m_events := es\<rparr> \<and>
       (\<forall>k j. map_of ids k = Some j \<longrightarrow>
          map_of (m_published_ids m) k = Some j \<or> (k = fid \<and> i = Some j \<and> valid_identity j)))"

lemma rebindsI:
  assumes "\<forall>k j. map_of ids k = Some j \<longrightarrow>
    map_of (m_published_ids m) k = Some j \<or> (k = fid \<and> i = Some j \<and> valid_identity j)"
  shows "rebinds fid i m (m\<lparr>m_published_ids := ids\<rparr>)"
proof -
  have "m\<lparr>m_published_ids := ids\<rparr> = m\<lparr>m_published_ids := ids, m_events := m_events m\<rparr>" by simp
  with assms show ?thesis unfolding rebinds_def by blast
qed

lemma rebinds_steps:
  "rebinds fid i m m"
  "rebinds fid i m (m\<lparr>m_published_ids := dict_pop fid (m_published_ids m)\<rparr>)"
  "valid_identity j \<Longrightarrow>
     rebinds fid (Some j) m (m\<lparr>m_published_ids := dict_set fid j (m_published_ids m)\<rparr>)"
  using rebindsI[of "m_published_ids m" m fid i] by (auto intro!: rebindsI split: if_splits)

lemma rebinds_say:
  assumes "rebinds fid i m m'"
  shows "rebinds fid i m (record_provenance fid r a b l sn g m')"
proof -
  obtain es where "record_provenance fid r a b l sn g m' = m'\<lparr>m_events := es\<rparr>"
    by (rule quietE[OF quiet_record_provenance])
  with assms show ?thesis unfolding rebinds_def by fastforce
qed

lemma rebinds_if:
  "(b \<Longrightarrow> rebinds fid i m x) \<Longrightarrow> (\<not> b \<Longrightarrow> rebinds fid i m y) \<Longrightarrow> rebinds fid i m (if b then x else y)"
  by simp

lemma rebinds_bind_publication: "rebinds fid i m (bind_publication fid i s p q m)"
  unfolding bind_publication_def Let_def
  by (cases i; simp only: option.case; (rule rebinds_if | rule rebinds_say | rule rebinds_steps | assumption)+)

text \<open>Publishing a well-formed root returns its effective record, stores it, and touches nothing else
  but the job it is bound to.\<close>

lemma refresh_published_file_spec:
  assumes "wf_attrs (attrs f)" "wf_opt_overlay (map_of (m_overlays m) (file_id f))"
  obtains ids es where
    "refresh_published_file f s c x m =
       (Inr (effective_record (m_clock m) (map_of (m_overlays m) (file_id f)) f),
        m\<lparr>m_published := dict_set (file_id f)
             (effective_record (m_clock m) (map_of (m_overlays m) (file_id f)) f) (m_published m),
          m_published_ids := ids, m_events := es\<rparr>)"
    "\<forall>k j. map_of ids k = Some j \<longrightarrow>
       map_of (m_published_ids m) k = Some j \<or>
       (k = file_id f \<and> fst (publication_identity f s m) = Some j \<and> valid_identity j)"
proof -
  let ?rec = "effective_record (m_clock m) (map_of (m_overlays m) (file_id f)) f"
  obtain i src where pid: "publication_identity f s m = (i, src)" by (cases "publication_identity f s m")
  let ?m1 = "bind_publication (file_id f) i src (map_of (m_published m) (file_id f)) ?rec m"
  obtain es ids where m1: "?m1 = m\<lparr>m_published_ids := ids, m_events := es\<rparr>"
    and ids: "\<forall>k j. map_of ids k = Some j \<longrightarrow>
       map_of (m_published_ids m) k = Some j \<or> (k = file_id f \<and> i = Some j \<and> valid_identity j)"
    using rebinds_bind_publication unfolding rebinds_def by blast
  obtain es' where es': "record_rollback c x f i src (map_of (m_published m) (file_id f))
      (map_of (m_published_ids m) (file_id f)) ?rec
      (?m1\<lparr>m_published := dict_set (file_id f) ?rec (m_published ?m1)\<rparr>) =
     ?m1\<lparr>m_published := dict_set (file_id f) ?rec (m_published ?m1)\<rparr>\<lparr>m_events := es'\<rparr>"
    by (rule quietE[OF quiet_record_rollback])
  show thesis
  proof (rule that)
    show "refresh_published_file f s c x m =
       (Inr ?rec, m\<lparr>m_published := dict_set (file_id f) ?rec (m_published m),
          m_published_ids := ids, m_events := es'\<rparr>)"
      using es' unfolding refresh_published_file_def Let_def pid m1 snapshot_total[OF assms]
      by (simp add: m1)
    show "\<forall>k j. map_of ids k = Some j \<longrightarrow> map_of (m_published_ids m) k = Some j \<or>
       (k = file_id f \<and> fst (publication_identity f s m) = Some j \<and> valid_identity j)"
      using ids pid by simp
  qed
qed

lemma published_ok_publish:
  assumes "published_ok files pub ids ret" "map_of files fid = Some f"
    and "\<forall>k j. map_of ids' k = Some j \<longrightarrow> map_of ids k = Some j \<or> (k = fid \<and> i = Some j \<and> valid_identity j)"
  shows "published_ok files (dict_set fid r pub) ids' ret"
proof -
  have "valid_identity j \<and> k \<in> insert fid (dom (map_of pub))" if "map_of ids' k = Some j" for k j
    using assms(1,3) that unfolding published_ok_def by blast
  with assms(1,2) show ?thesis unfolding published_ok_def by auto
qed

lemma coherent_publish:
  "coherent (insert fid R) files ov pub \<Longrightarrow> map_of files fid = Some f \<Longrightarrow>
   coherent R files ov (dict_set fid (effective_record now (map_of ov fid) f) pub)"
  by (auto simp: coherent_def)

lemma refresh_published_file_minv:
  assumes inv: "minv (insert (file_id f) R) m" and f: "map_of (m_files m) (file_id f) = Some f"
  obtains ids es where
    "refresh_published_file f s c x m =
       (Inr (effective_record (m_clock m) (map_of (m_overlays m) (file_id f)) f),
        m\<lparr>m_published := dict_set (file_id f)
             (effective_record (m_clock m) (map_of (m_overlays m) (file_id f)) f) (m_published m),
          m_published_ids := ids, m_events := es\<rparr>)"
    "minv R (m\<lparr>m_published := dict_set (file_id f)
             (effective_record (m_clock m) (map_of (m_overlays m) (file_id f)) f) (m_published m),
          m_published_ids := ids, m_events := es\<rparr>)"
proof (rule refresh_published_file_spec)
  show "wf_attrs (attrs f)" using minv_root[OF inv f] by (simp add: root_file_def)
  show "wf_opt_overlay (map_of (m_overlays m) (file_id f))" by (rule minv_overlay[OF inv])
  fix ids es
  assume eq: "refresh_published_file f s c x m =
       (Inr (effective_record (m_clock m) (map_of (m_overlays m) (file_id f)) f),
        m\<lparr>m_published := dict_set (file_id f)
             (effective_record (m_clock m) (map_of (m_overlays m) (file_id f)) f) (m_published m),
          m_published_ids := ids, m_events := es\<rparr>)"
    and ids: "\<forall>k j. map_of ids k = Some j \<longrightarrow>
       map_of (m_published_ids m) k = Some j \<or>
       (k = file_id f \<and> fst (publication_identity f s m) = Some j \<and> valid_identity j)"
  show thesis
  proof (rule that[OF eq])
    show "minv R (m\<lparr>m_published := dict_set (file_id f)
             (effective_record (m_clock m) (map_of (m_overlays m) (file_id f)) f) (m_published m),
          m_published_ids := ids, m_events := es\<rparr>)" (is "minv R ?m'")
      using inv f ids published_ok_publish[of "m_files m" "m_published m" "m_published_ids m"]
        coherent_publish[of "file_id f" R]
      by (auto simp: minv_def)
  qed
qed

section \<open>Versions\<close>

lemma sum_list_dict_set:
  "dict_ok d \<Longrightarrow> sum_list (map snd (dict_set k (v + 1 :: int) d)) =
     sum_list (map snd d) + (v + 1) - (case map_of d k of None \<Rightarrow> 0 | Some w \<Rightarrow> w)"
proof (induction d)
  case (Cons p d)
  then have "fst p \<notin> fst ` set d" "dict_ok d" by auto
  moreover from this have "map_of d (fst p) = None" by (simp add: map_of_eq_None_iff)
  ultimately show ?case using Cons.IH by (cases p) (auto split: option.splits)
qed simp

lemma snd_set_update: "snd ` set (AList.update k v d) \<subseteq> insert v (snd ` set d)"
  by (induction d) auto

lemma scope_version_nonneg: "versions_ok v (m_scope_versions m) \<Longrightarrow> 0 \<le> scope_version s m"
  unfolding versions_ok_def scope_version_def
  by (fastforce split: option.splits dest!: map_of_SomeD)

text \<open>\<open>advances m m'\<close>: no version counter of \<open>m'\<close> is behind its counter in \<open>m\<close>.\<close>

definition advances :: "model \<Rightarrow> model \<Rightarrow> bool" where
  "advances m m' \<longleftrightarrow> m_version m \<le> m_version m' \<and> (\<forall>s. scope_version s m \<le> scope_version s m')"

lemma advances_refl [simp]: "advances m m"
  by (simp add: advances_def)

lemma advances_trans [trans]: "advances m n \<Longrightarrow> advances n k \<Longrightarrow> advances m k"
  unfolding advances_def by (meson order_trans)

lemma advances_same:
  "m_version m' = m_version m \<Longrightarrow> m_scope_versions m' = m_scope_versions m \<Longrightarrow> advances m m'"
  by (simp add: advances_def scope_version_def)

lemma advance_version_spec:
  obtains es where
    "advance_version f m =
       (Inr (m_version m + 1, scope_version (fa_path_pair_id (attrs f)) m + 1),
        m\<lparr>m_version := m_version m + 1,
          m_scope_versions := dict_set (fa_path_pair_id (attrs f))
            (scope_version (fa_path_pair_id (attrs f)) m + 1) (m_scope_versions m),
          m_events := es\<rparr>)"
proof -
  let ?s = "fa_path_pair_id (attrs f)"
  let ?m1 = "m\<lparr>m_version := m_version m + 1,
      m_scope_versions := dict_set ?s (scope_version ?s m + 1) (m_scope_versions m)\<rparr>"
  have "scope_version ?s ?m1 = scope_version ?s m + 1" by (simp add: scope_version_def)
  then have "advance_version f m =
     (Inr (m_version m + 1, scope_version ?s m + 1), ?m1\<lparr>m_events := (if m_version_callback m
        then m_events m @ [VersionCallback (m_version m + 1) (scope_version ?s m + 1)] else m_events m)\<rparr>)"
    by (simp add: advance_version_def Let_def emit_def)
  then show thesis by (rule that)
qed

lemma versions_ok_advance:
  assumes inv: "versions_ok v (m_scope_versions m)"
  shows "versions_ok (v + 1) (dict_set s (scope_version s m + 1) (m_scope_versions m))"
proof -
  let ?d = "dict_set s (scope_version s m + 1) (m_scope_versions m)"
  have "\<forall>v\<in>snd ` set ?d. 1 \<le> v"
    using inv scope_version_nonneg[OF inv, of s]
      snd_set_update[of s "scope_version s m + 1" "m_scope_versions m"]
    unfolding versions_ok_def by fastforce
  moreover have "sum_list (map snd ?d) = sum_list (map snd (m_scope_versions m)) + 1"
    using inv by (auto simp: versions_ok_def sum_list_dict_set scope_version_def split: option.splits)
  ultimately show ?thesis using inv by (simp add: versions_ok_def distinct_update)
qed

lemma minv_advance:
  "minv R m \<Longrightarrow> minv R (m\<lparr>m_version := m_version m + 1,
     m_scope_versions := dict_set s (scope_version s m + 1) (m_scope_versions m), m_events := es\<rparr>)"
  by (simp add: minv_def versions_ok_advance)

lemma advances_advance:
  "advances m (m\<lparr>m_version := m_version m + 1,
     m_scope_versions := dict_set s (scope_version s m + 1) (m_scope_versions m), m_events := es\<rparr>)"
  by (simp add: advances_def scope_version_def)

end
