(* ===== verification/Model_Overlays.thy ===== *)
theory Model_Overlays
  imports Model_Invariant
begin

text \<open>
  The methods of the Model that change its active-progress overlays keep its invariant, never
  raise, and leave the roots alone. \<open>steady\<close> relates the models before and after a series of
  publications; \<open>kept\<close> also lets the overlays change.
\<close>

section \<open>Republishing\<close>

text \<open>\<open>steady m m'\<close>: from \<open>m\<close> to \<open>m'\<close> records were published and readers told, while roots,
  overlays and modes stayed as they were, and no version went back.\<close>

definition fixed_part :: "model \<Rightarrow> model" where
  "fixed_part m = m\<lparr>m_published := [], m_published_ids := [], m_version := 0, m_scope_versions := [],
     m_correction_ids := {}, m_correction_old := [], m_events := []\<rparr>"

definition steady :: "model \<Rightarrow> model \<Rightarrow> bool" where
  "steady m m' \<longleftrightarrow> fixed_part m' = fixed_part m \<and> advances m m'"

lemma steady_refl [simp]: "steady m m"
  by (simp add: steady_def)

lemma steady_trans [trans]: "steady m n \<Longrightarrow> steady n k \<Longrightarrow> steady m k"
  unfolding steady_def using advances_trans by auto

lemma fixed_part_fields:
  "fixed_part m' = fixed_part m \<longleftrightarrow>
     m_clock m' = m_clock m \<and> m_files m' = m_files m \<and> m_ordered m' = m_ordered m \<and>
     m_by_name m' = m_by_name m \<and> m_listeners m' = m_listeners m \<and>
     m_tree_file_count m' = m_tree_file_count m \<and>
     m_timestamp_generation m' = m_timestamp_generation m \<and>
     m_version_callback m' = m_version_callback m \<and> m_overlays m' = m_overlays m \<and>
     m_overlay_ids m' = m_overlay_ids m \<and> m_overlay_epochs m' = m_overlay_epochs m \<and>
     m_replacement_depth m' = m_replacement_depth m \<and> m_base_fallbacks m' = m_base_fallbacks m \<and>
     m_suppress_clear m' = m_suppress_clear m \<and> m_retiring_ids m' = m_retiring_ids m \<and>
     m_trace_levels m' = m_trace_levels m \<and> m_trace_recorder m' = m_trace_recorder m"
  by (cases m; cases m') (auto simp: fixed_part_def)

lemma steadyD:
  assumes "steady m m'"
  shows "m_files m' = m_files m" "m_ordered m' = m_ordered m" "m_by_name m' = m_by_name m"
    "m_listeners m' = m_listeners m" "m_overlays m' = m_overlays m"
    "m_overlay_ids m' = m_overlay_ids m" "m_overlay_epochs m' = m_overlay_epochs m"
    "m_replacement_depth m' = m_replacement_depth m" "m_base_fallbacks m' = m_base_fallbacks m"
    "m_suppress_clear m' = m_suppress_clear m" "m_retiring_ids m' = m_retiring_ids m"
    "m_clock m' = m_clock m" "advances m m'"
  using assms by (auto simp: steady_def fixed_part_fields)

text \<open>\<open>kept m m'\<close>: the roots and the modes stayed as they were; overlays may have changed.\<close>

definition kept :: "model \<Rightarrow> model \<Rightarrow> bool" where
  "kept m m' \<longleftrightarrow>
     m_files m' = m_files m \<and> m_ordered m' = m_ordered m \<and> m_by_name m' = m_by_name m \<and>
     m_listeners m' = m_listeners m \<and> m_replacement_depth m' = m_replacement_depth m \<and>
     m_base_fallbacks m' = m_base_fallbacks m \<and> m_suppress_clear m' = m_suppress_clear m \<and>
     m_retiring_ids m' = m_retiring_ids m \<and> m_clock m' = m_clock m \<and> advances m m'"

lemma kept_refl [simp]: "kept m m"
  by (simp add: kept_def)

lemma kept_trans [trans]: "kept m n \<Longrightarrow> kept n k \<Longrightarrow> kept m k"
  unfolding kept_def using advances_trans by auto

lemma steady_kept: "steady m m' \<Longrightarrow> kept m m'"
  using steadyD[of m m'] by (simp add: kept_def)

lemma kept_overlays:
  "kept m (m\<lparr>m_overlays := ov, m_overlay_ids := ids, m_overlay_epochs := ep\<rparr>)"
  by (simp add: kept_def advances_same)

lemma kept_pop_overlay: "kept m (pop_overlay fid m)"
  by (simp add: pop_overlay_def kept_overlays)

lemma steady_quiet: "quiet g \<Longrightarrow> steady m (g m)"
  by (rule quietE[of g m]) (simp_all add: steady_def fixed_part_def advances_same)

lemma notify_legacy_overlay_correction_spec:
  assumes "minv R m"
  obtains m' where "notify_legacy_overlay_correction fid f m = (Inr (), m')" "steady m m'" "minv R m'"
proof -
  let ?old = "map_of (m_correction_old m) fid"
  let ?m1 = "m\<lparr>m_correction_ids := m_correction_ids m - {fid},
               m_correction_old := dict_pop fid (m_correction_old m)\<rparr>"
  have s1: "steady m ?m1" by (simp add: steady_def fixed_part_def advances_same)
  have i1: "minv R ?m1" using assms by simp
  have n: "steady m (notify_legacy_publication_change ?old g ?m1)"
    "minv R (notify_legacy_publication_change ?old g ?m1)" for g
    using steady_trans[OF s1 steady_quiet[OF quiet_notify(2)]] i1 minv_quiet[OF quiet_notify(2)] by auto
  consider "fid \<notin> m_correction_ids m \<or> map_of (m_overlays m) fid \<noteq> None"
    | "fid \<in> m_correction_ids m" "map_of (m_overlays m) fid = None" "f = None"
    | g where "fid \<in> m_correction_ids m" "map_of (m_overlays m) fid = None" "f = Some g"
    by (cases f) auto
  then show thesis
  proof cases
    case 1
    then show ?thesis using that[of m] assms by (auto simp: notify_legacy_overlay_correction_def)
  next
    case 2
    then show ?thesis
      using that[of ?m1] s1 i1 by (simp add: notify_legacy_overlay_correction_def Let_def)
  next
    case 3
    have "full_effective_file g ?m1 = (Inr (upd (effective_attrs (map_of (m_overlays m) (file_id g))) g), ?m1)"
      using full_effective_total[OF minv_overlay[OF i1]] by simp
    with 3 that[OF _ n] show ?thesis
      by (simp add: notify_legacy_overlay_correction_def Let_def mbind_def mmod_def)
  qed
qed

lemma minv_absent:
  assumes "minv (insert fid R) m" "map_of (m_files m) fid = None"
  shows "minv R m"
proof -
  have "\<exists>now. map_of (m_published m) k = Some (effective_record now (map_of (m_overlays m) k) f)"
    if "k \<notin> R" "map_of (m_files m) k = Some f" for k f
    using that assms by (cases "k = fid") (auto simp: minv_def coherent_def)
  with assms(1) show ?thesis by (simp add: minv_def coherent_def)
qed

lemma republish_root_spec:
  assumes inv: "minv (insert fid R) m"
  obtains m' where "republish_root c x fid m = (Inr (), m')" "steady m m'" "minv R m'"
proof (cases "map_of (m_files m) fid")
  case None
  with inv have "minv R m" by (rule minv_absent)
  then show ?thesis
    using notify_legacy_overlay_correction_spec[of R m fid None thesis] that None
    by (simp add: republish_root_def)
next
  case (Some f)
  then have fid: "fid = file_id f" using minv_root[OF inv] by blast
  let ?m1 = "\<lambda>ids es. m\<lparr>m_published := dict_set (file_id f)
      (effective_record (m_clock m) (map_of (m_overlays m) (file_id f)) f) (m_published m),
      m_published_ids := ids, m_events := es\<rparr>"
  have inv': "minv (insert (file_id f) R) m" and f: "map_of (m_files m) (file_id f) = Some f"
    using inv Some fid by simp_all
  obtain ids es where r: "refresh_published_file f None c x m =
      (Inr (effective_record (m_clock m) (map_of (m_overlays m) (file_id f)) f), ?m1 ids es)"
    and i1: "minv R (?m1 ids es)"
    by (rule refresh_published_file_minv[OF inv' f])
  let ?s = "fa_path_pair_id (attrs f)"
  obtain es2 where a: "advance_version f (?m1 ids es) =
     (Inr (m_version m + 1, scope_version ?s (?m1 ids es) + 1), (?m1 ids es)\<lparr>m_version := m_version m + 1,
          m_scope_versions := dict_set ?s (scope_version ?s (?m1 ids es) + 1) (m_scope_versions m),
          m_events := es2\<rparr>)" (is "_ = (_, ?m2)")
    by (rule advance_version_spec[of f "?m1 ids es"]) simp
  have i2: "minv R ?m2" using minv_advance[OF i1, where s = ?s and es = es2] by simp
  have s2: "steady m ?m2"
    using advances_advance[where m = m and s = ?s and es = es2]
    by (simp add: steady_def fixed_part_def advances_def scope_version_def)
  obtain m3 where n: "notify_legacy_overlay_correction fid (Some f) ?m2 = (Inr (), m3)"
    and s3: "steady ?m2 m3" and i3: "minv R m3"
    by (rule notify_legacy_overlay_correction_spec[OF i2])
  let ?m4 = "notify_versioned_change f (m_version m + 1) (scope_version ?s (?m1 ids es) + 1) m3"
  have "republish_root c x fid m = (Inr (), ?m4)"
    using r a n Some by (simp add: republish_root_def mbind_def mmod_def)
  moreover have "steady m ?m4"
    using steady_trans[OF steady_trans[OF s2 s3] steady_quiet[OF quiet_notify(1)]] .
  ultimately show ?thesis using that i3 minv_quiet[OF quiet_notify(1)] by metis
qed

lemma republish_all:
  assumes "minv (R \<union> set fids) m"
  obtains m' where "mfor fids (\<lambda>fid. republish_root c (x fid) fid) m = (Inr (), m')"
    "steady m m'" "minv R m'"
proof -
  have "\<exists>m'. mfor fids (\<lambda>fid. republish_root c (x fid) fid) m = (Inr (), m') \<and> steady m m' \<and> minv R m'"
    using assms
  proof (induction fids arbitrary: m)
    case Nil
    then show ?case by (simp add: mret_def)
  next
    case (Cons fid fids)
    then have "minv (insert fid (R \<union> set fids)) m" by simp
    then obtain m1 where m1: "republish_root c (x fid) fid m = (Inr (), m1)" "steady m m1"
      "minv (R \<union> set fids) m1"
      by (rule republish_root_spec)
    from Cons.IH[OF m1(3)] obtain m2 where
      "mfor fids (\<lambda>fid. republish_root c (x fid) fid) m1 = (Inr (), m2)" "steady m1 m2" "minv R m2" by blast
    with m1 show ?case using steady_trans by (auto simp: mbind_def)
  qed
  then show thesis using that by blast
qed

section \<open>Overlays\<close>

text \<open>New overlays leave every record coherent but those of the roots whose overlay changed.\<close>

lemma minv_overlays_change:
  assumes "minv R m" "overlays_ok ov ids ep"
    and "\<And>fid. fid \<notin> S \<Longrightarrow> map_of (m_files m) fid \<noteq> None \<Longrightarrow> map_of ov fid = map_of (m_overlays m) fid"
  shows "minv (R \<union> S) (m\<lparr>m_overlays := ov, m_overlay_ids := ids, m_overlay_epochs := ep\<rparr>)"
  using assms by (simp add: minv_def coherent_def)

lemma snd_set_pop: "snd ` set (dict_pop k d) \<subseteq> snd ` set d"
  by (auto simp: AList.delete_eq)

lemma overlays_ok_pop:
  "overlays_ok ov ids ep \<Longrightarrow> overlays_ok (dict_pop fid ov) (dict_pop fid ids) (dict_pop fid ep)"
proof -
  assume ok: "overlays_ok ov ids ep"
  then have "\<forall>v\<in>snd ` set ov. wf_overlay v" unfolding overlays_ok_def by (rule conjunct1)
  then have wf: "\<forall>v\<in>snd ` set (dict_pop fid ov). wf_overlay v" by (meson snd_set_pop subsetD)
  have "valid_identity i \<and> k \<noteq> fid \<and> k \<in> dom (map_of ov)"
    if "map_of (dict_pop fid ids) k = Some i" for k i
    using ok that by (auto simp: overlays_ok_def simp del: split_paired_All split: if_splits)
  moreover have "dom (map_of (dict_pop fid ep)) \<subseteq> dom (map_of (dict_pop fid ov))"
    using ok by (auto simp: overlays_ok_def simp del: split_paired_All)
  ultimately show ?thesis using wf by (simp add: overlays_ok_def del: split_paired_All)
qed

lemma minv_pop_overlay: "minv R m \<Longrightarrow> minv (insert fid R) (pop_overlay fid m)"
proof -
  assume inv: "minv R m"
  then have "overlays_ok (m_overlays m) (m_overlay_ids m) (m_overlay_epochs m)" by (simp add: minv_def)
  from minv_overlays_change[OF inv overlays_ok_pop[OF this, of fid], of "{fid}"] show ?thesis
    by (simp add: pop_overlay_def)
qed

lemma minv_fold_pop: "minv R m \<Longrightarrow> minv (R \<union> set fids) (fold pop_overlay fids m)"
proof (induction fids arbitrary: R m)
  case (Cons fid fids)
  from Cons.IH[OF minv_pop_overlay[OF Cons.prems]] show ?case by simp
qed simp

lemma kept_fold_pop: "kept m (fold pop_overlay fids m)"
proof (induction fids arbitrary: m)
  case (Cons fid fids)
  show ?case using kept_trans[OF kept_pop_overlay Cons.IH] by simp
qed simp

lemma overlays_fold_pop: "m_overlays (fold pop_overlay fids m) = fold AList.delete fids (m_overlays m)"
  by (induction fids arbitrary: m) (simp_all add: pop_overlay_def)

lemma overlays_ok_Nil: "overlays_ok [] [] []"
  by (simp add: overlays_ok_def)

lemma set_sorted_keys [simp]: "set (sorted_keys ks) = set ks"
  by (simp add: sorted_keys_def)

lemma clear_active_progress_overlays_spec:
  assumes inv: "minv R m"
  obtains m' where "clear_active_progress_overlays ctx cf m = (Inr (), m')" "minv R m'"
    "steady (if m_suppress_clear m \<noteq> 0 then m
             else m\<lparr>m_overlays := [], m_overlay_ids := [], m_overlay_epochs := []\<rparr>) m'"
proof (cases "m_suppress_clear m = 0")
  case False
  then show ?thesis using that[of m] inv by (simp add: clear_active_progress_overlays_def)
next
  case True
  let ?m1 = "m\<lparr>m_overlays := [], m_overlay_ids := [], m_overlay_epochs := []\<rparr>"
  let ?ks = "sorted_keys (dict_keys (m_overlays m))"
  have "minv (R \<union> set ?ks) ?m1"
    by (rule minv_overlays_change[OF inv overlays_ok_Nil])
      (metis list.set_map map_of_in_iff map_of.simps(1) set_sorted_keys)
  then obtain m2 where
    "mfor ?ks (\<lambda>fid. republish_root ''clear_active_progress_overlays''
        (if cf = Some fid then ctx else None) fid) ?m1 = (Inr (), m2)"
    "steady ?m1 m2" "minv R m2"
    by (rule republish_all)
  with True that show ?thesis by (simp add: clear_active_progress_overlays_def Let_def)
qed

lemma clear_active_progress_overlays_except_spec:
  assumes inv: "minv R m"
  obtains m' r where "clear_active_progress_overlays_except keep m = (Inr r, m')" "minv R m'" "kept m m'"
    "\<And>fid. map_of (m_overlays m') fid = (if fid \<in> keep then map_of (m_overlays m) fid else None)"
proof -
  let ?rm = "filter (\<lambda>fid. fid \<notin> keep) (sorted_keys (dict_keys (m_overlays m)))"
  obtain m2 where m2: "mfor ?rm (\<lambda>fid. republish_root ''clear_active_progress_overlays_except'' None fid)
      (fold pop_overlay ?rm m) = (Inr (), m2)"
    "steady (fold pop_overlay ?rm m) m2" "minv R m2"
    by (rule republish_all[OF minv_fold_pop[OF inv, of ?rm], where x = "\<lambda>_. None"])
  show thesis
  proof (rule that)
    show "clear_active_progress_overlays_except keep m = (Inr (set ?rm), m2)"
      using m2(1) by (simp add: clear_active_progress_overlays_except_def mbind_def mmod_def mret_def)
    show "minv R m2" by (rule m2(3))
    show "kept m m2" by (rule kept_trans[OF kept_fold_pop steady_kept[OF m2(2)]])
    show "map_of (m_overlays m2) fid = (if fid \<in> keep then map_of (m_overlays m) fid else None)" for fid
      using map_of_in_iff[of "m_overlays m" fid]
      by (auto simp: steadyD(5)[OF m2(2)] overlays_fold_pop fold_pop_get)
  qed
qed

lemma install_overlays:
  assumes inv: "minv R m" and ok: "overlays_ok ov ids ep"
    and ch: "\<And>fid. map_of (m_files m) fid \<noteq> None \<Longrightarrow> map_of ov fid \<noteq> map_of (m_overlays m) fid \<Longrightarrow>
      fid \<in> set changed"
  obtains m' where
    "mseq (mmod (\<lambda>m. m\<lparr>m_overlays := ov, m_overlay_ids := ids, m_overlay_epochs := ep\<rparr>))
       (mseq (mfor changed (republish_root c None)) (mret r)) m = (Inr r, m')"
    "minv R m'" "steady (m\<lparr>m_overlays := ov, m_overlay_ids := ids, m_overlay_epochs := ep\<rparr>) m'"
proof -
  let ?m1 = "m\<lparr>m_overlays := ov, m_overlay_ids := ids, m_overlay_epochs := ep\<rparr>"
  have "minv (R \<union> set changed) ?m1"
    by (rule minv_overlays_change[OF inv ok]) (use ch in blast)
  then obtain m2 where "mfor changed (\<lambda>fid. republish_root c None fid) ?m1 = (Inr (), m2)"
    "steady ?m1 m2" "minv R m2"
    by (rule republish_all)
  with that show thesis by (simp add: mbind_def mmod_def mret_def)
qed

lemma map_of_keyed: "map_of (map (\<lambda>(k, v). (k, g k v)) d) k = map_option (g k) (map_of d k)"
  by (induction d) auto

lemma minv_overlay_ids:
  "minv R m \<Longrightarrow> map_of (m_overlay_ids m) fid = Some i \<Longrightarrow>
   valid_identity i \<and> map_of (m_overlays m) fid \<noteq> None"
  unfolding minv_def overlays_ok_def dom_def by blast

lemma clear_overlay_if_identity_matches_spec:
  assumes inv: "minv R m"
  obtains m' b where "clear_overlay_if_identity_matches fid i m = (Inr b, m')" "minv R m'"
    "steady (if b then pop_overlay fid m else m) m'"
    "b \<longleftrightarrow> map_of (m_overlay_ids m) fid = Some i"
proof (cases "map_of (m_overlay_ids m) fid = Some i")
  case False
  with that[of False m] inv show ?thesis by (simp add: clear_overlay_if_identity_matches_def)
next
  case True
  with inv have "map_of (m_overlays m) fid \<noteq> None" using minv_overlay_ids by blast
  moreover obtain m' where "republish_root ''clear_active_progress_overlay_if_job_identity_matches'' None fid
      (pop_overlay fid m) = (Inr (), m')" "steady (pop_overlay fid m) m'" "minv R m'"
    by (rule republish_root_spec[OF minv_pop_overlay[OF inv]])
  ultimately show ?thesis
    using True that[of True m'] by (simp add: clear_overlay_if_identity_matches_def mbind_def mret_def)
qed

lemma changed_overlay_ids_cover:
  assumes "map_of ns fid \<noteq> map_of (m_overlays m) fid"
  shows "fid \<in> set (changed_overlay_ids ns ids m)"
proof -
  have "fid \<in> fst ` set ns \<union> fst ` set (m_overlays m)"
    using assms map_of_in_iff[of ns fid] map_of_in_iff[of "m_overlays m" fid] by auto
  with assms show ?thesis by (auto simp: changed_overlay_ids_def)
qed

lemma may_restore_valid: "may_restore m ids fid \<Longrightarrow> \<exists>i. map_of ids fid = Some i \<and> valid_identity i"
  by (auto simp: may_restore_def split: option.splits)

lemma restore_active_progress_overlays_spec:
  assumes inv: "minv R m" and wf: "\<forall>v\<in>snd ` set overlays. wf_overlay v"
  obtains m' r where "restore_active_progress_overlays overlays ids m = (Inr r, m')" "minv R m'" "kept m m'"
    "\<And>fid. map_of (m_overlays m') fid = (if may_restore m ids fid then map_of overlays fid else None)"
proof -
  let ?ns = "filter (\<lambda>(fid, _). may_restore m ids fid) overlays"
  let ?nids = "map (\<lambda>(fid, _). (fid, the (map_of ids fid))) ?ns"
  let ?ch = "changed_overlay_ids ?ns ?nids m"
  let ?ep = "filter (\<lambda>(fid, _). map_of ?ns fid \<noteq> None) (m_overlay_epochs m)"
  have ns: "map_of ?ns fid = (if may_restore m ids fid then map_of overlays fid else None)" for fid
    by (rule map_of_filter_key)
  have nids: "map_of ?nids fid = map_option (\<lambda>_. the (map_of ids fid)) (map_of ?ns fid)" for fid
    by (rule map_of_keyed)
  have ep: "map_of ?ep fid = (if map_of ?ns fid \<noteq> None then map_of (m_overlay_epochs m) fid else None)" for fid
    by (rule map_of_filter_key)
  have "overlays_ok ?ns ?nids ?ep"
    unfolding overlays_ok_def
  proof (intro conjI allI impI)
    show "\<forall>v\<in>snd ` set ?ns. wf_overlay v" using wf by auto
    show "valid_identity i" if "map_of ?nids fid = Some i" for fid i
      using that may_restore_valid[of m ids fid] unfolding nids ns by (auto split: if_splits)
    show "fid \<in> dom (map_of ?ns)" if "map_of ?nids fid = Some i" for fid i
      using that unfolding nids by auto
    show "dom (map_of ?ep) \<subseteq> dom (map_of ?ns)"
      unfolding dom_def ep by auto
  qed
  then obtain m' where m': "restore_active_progress_overlays overlays ids m = (Inr (set ?ch), m')" "minv R m'"
    and st: "steady (m\<lparr>m_overlays := ?ns, m_overlay_ids := ?nids, m_overlay_epochs := ?ep\<rparr>) m'"
    unfolding restore_active_progress_overlays_def Let_def
    by (rule install_overlays[OF inv _ changed_overlay_ids_cover])
  show thesis
  proof (rule that[OF m'])
    show "kept m m'" by (rule kept_trans[OF kept_overlays steady_kept[OF st]])
    show "map_of (m_overlays m') fid = (if may_restore m ids fid then map_of overlays fid else None)" for fid
      using steadyD(5)[OF st] ns by simp
  qed
qed

lemma replace_active_progress_overlays_spec:
  assumes inv: "minv R m" and wf: "\<forall>v\<in>snd ` set overlays. wf_overlay v"
    and cover: "\<And>fid. map_of (m_files m) fid \<noteq> None \<Longrightarrow> map_of overlays fid \<noteq> map_of (m_overlays m) fid \<Longrightarrow>
      fid \<in> changed"
  obtains m' r where "replace_active_progress_overlays overlays changed m = (Inr r, m')" "minv R m'"
    "steady (m\<lparr>m_overlays := overlays, m_overlay_ids := [], m_overlay_epochs := []\<rparr>) m'"
proof -
  let ?ch = "filter (\<lambda>fid. fid \<in> changed \<and> map_of (m_overlays m) fid \<noteq> map_of overlays fid) (m_ordered m)"
  have "overlays_ok overlays [] []" using wf by (simp add: overlays_ok_def)
  moreover have "fid \<in> set ?ch" if "map_of (m_files m) fid \<noteq> None"
    "map_of overlays fid \<noteq> map_of (m_overlays m) fid" for fid
    using that cover inv map_of_in_iff[of "m_files m" fid] by (auto simp: minv_def roots_ok_def)
  ultimately obtain m' where
    "replace_active_progress_overlays overlays changed m = (Inr (set ?ch), m')" "minv R m'"
    "steady (m\<lparr>m_overlays := overlays, m_overlay_ids := [], m_overlay_epochs := []\<rparr>) m'"
    unfolding replace_active_progress_overlays_def Let_def by (rule install_overlays[OF inv])
  then show thesis by (rule that)
qed

section \<open>LFTP counters\<close>

definition admitted_overlay :: "admission \<Rightarrow> overlay" where
  "admitted_overlay a = (case a of Admitted ov i \<Rightarrow> ov | _ \<Rightarrow> undefined)"

definition admitted_identity :: "admission \<Rightarrow> job_identity" where
  "admitted_identity a = (case a of Admitted ov i \<Rightarrow> i | _ \<Rightarrow> undefined)"

lemma admit_all_accepted:
  assumes "admit_all adm d = Inr (ns, nids, ps, False)"
  shows "(\<forall>(k, ov)\<in>set d. \<exists>ov' i. adm k ov = Admitted ov' i) \<and>
    ns = map (\<lambda>(k, ov). (k, admitted_overlay (adm k ov))) d \<and>
    nids = map (\<lambda>(k, ov). (k, admitted_identity (adm k ov))) d"
  using assms
proof (induction d arbitrary: ns nids ps)
  case (Cons p d)
  obtain k ov where p: "p = (k, ov)" by (cases p)
  show ?case
  proof (cases "adm k ov")
    case (Admitted ov' i)
    with Cons.prems p obtain ns' nids' where
      "admit_all adm d = Inr (ns', nids', ps, False)" "ns = (k, ov') # ns'" "nids = (k, i) # nids'"
      by (auto simp: rbind_Inr_iff)
    with Cons.IH[OF this(1)] p Admitted show ?thesis
      by (simp add: admitted_overlay_def admitted_identity_def)
  qed (use Cons.prems p in \<open>auto simp: rbind_Inr_iff\<close>)
qed simp

lemma admit_counter_admitted:
  assumes "admit_counter m em ef fid ov i = Admitted ov' j"
  obtains f where "map_of (m_files m) fid = Some f" "root_authority f" "valid_identity j" "i = Some j"
    "ov' = ov \<or> (\<exists>prior. map_of (m_overlays m) fid = Some prior \<and> ov' = merge_overlay prior ov)"
proof (cases i; cases "map_of (m_files m) fid")
  fix k f assume i: "i = Some k" and f: "map_of (m_files m) fid = Some f"
  let ?e = "case ef of None \<Rightarrow> None | Some g \<Rightarrow> g fid"
  let ?stale = "opt_holds (\<lambda>p. opt_holds (\<lambda>e. p \<noteq> e) ?e) (map_of (m_overlay_epochs m) fid)"
  have "valid_identity k" "em fid" "\<not> (ef \<noteq> None \<and> ?e = None)" "\<not> ?stale"
    using assms i f by (auto simp only: admit_counter_def Let_def prod.case option.case if_True
        admission.distinct not_False_eq_True if_False split: if_split_asm)
  then have "(case map_of (m_overlay_ids m) fid of
        Some p \<Rightarrow> if p \<noteq> k then Stale (if fst k > fst p then Some p else None)
          else if \<not> root_authority f then Rejected ''root_authority''
          else Admitted (case map_of (m_overlays m) fid of Some prior \<Rightarrow> merge_overlay prior ov | None \<Rightarrow> ov) k
      | None \<Rightarrow> if \<not> root_authority f then Rejected ''root_authority'' else Admitted ov k) = Admitted ov' j"
    using assms unfolding admit_counter_def Let_def i f prod.case option.case by (simp only: simp_thms if_False)
  then have "root_authority f" "k = j"
    "ov' = ov \<or> (\<exists>prior. map_of (m_overlays m) fid = Some prior \<and> ov' = merge_overlay prior ov)"
    by (auto split: option.split_asm if_split_asm)
  then show thesis using that i f \<open>valid_identity k\<close> by blast
qed (use assms in \<open>auto simp: admit_counter_def\<close>)

lemma keep_counter_ranges:
  "opt_nonneg p \<Longrightarrow> opt_nonneg n \<Longrightarrow> opt_nonneg (keep_counter p n)"
  "opt_percent p \<Longrightarrow> opt_percent n \<Longrightarrow> opt_percent (keep_counter p n)"
  by (auto simp: keep_counter_def opt_nonneg_def opt_percent_def split: option.splits)

lemma wf_merge_overlay: "wf_overlay p \<Longrightarrow> wf_overlay v \<Longrightarrow> wf_overlay (merge_overlay p v)"
  by (simp add: wf_overlay_def merge_overlay_def keep_counter_ranges)

lemma next_epochs_keys: "fst ` set (next_epochs ef ns) \<subseteq> fst ` set ns"
  by (force simp: next_epochs_def List.map_filter_def split: option.splits)

lemma clear_mismatches_spec:
  assumes "minv R m"
  obtains m' where "mfor ps (\<lambda>(fid, p). mseq (clear_overlay_if_identity_matches fid p) (mret ())) m = (Inr (), m')"
    "minv R m'" "kept m m'"
proof -
  have "\<exists>m'. mfor ps (\<lambda>(fid, p). mseq (clear_overlay_if_identity_matches fid p) (mret ())) m = (Inr (), m') \<and>
      minv R m' \<and> kept m m'"
    using assms
  proof (induction ps arbitrary: m)
    case (Cons q ps)
    obtain m1 b where m1: "clear_overlay_if_identity_matches (fst q) (snd q) m = (Inr b, m1)" "minv R m1"
      "steady (if b then pop_overlay (fst q) m else m) m1"
      by (rule clear_overlay_if_identity_matches_spec[OF Cons.prems])
    have "kept m m1"
      using kept_trans[OF _ steady_kept[OF m1(3)], of m] kept_pop_overlay by simp
    with m1 Cons.IH[OF m1(2)] kept_trans show ?case
      by (auto simp: mbind_def mret_def split: prod.splits)
  qed (simp add: mret_def)
  then show thesis using that by blast
qed

text \<open>The three outcomes of a publication of counters.\<close>

lemma publish_accepted_overlays_ok:
  assumes inv: "minv R m" and wf: "\<forall>v\<in>snd ` set overlays. wf_overlay v"
    and acc: "admit_all (\<lambda>fid ov. admit_counter m em ef fid ov (map_of ids fid)) overlays = Inr (ns, nids, ps, False)"
  shows "overlays_ok ns nids (next_epochs ef ns)"
proof -
  let ?adm = "\<lambda>fid ov. admit_counter m em ef fid ov (map_of ids fid)"
  note acc' = admit_all_accepted[OF acc]
  have adm: "\<exists>ov' i. ?adm k v = Admitted ov' i" if "map_of overlays k = Some v" for k v
    using acc' map_of_SomeD[OF that] by auto
  have ns: "map_of ns k = map_option (\<lambda>v. admitted_overlay (?adm k v)) (map_of overlays k)" for k
    using acc' map_of_keyed[of "\<lambda>k v. admitted_overlay (?adm k v)"] by simp
  have nids: "map_of nids k = map_option (\<lambda>v. admitted_identity (?adm k v)) (map_of overlays k)" for k
    using acc' map_of_keyed[of "\<lambda>k v. admitted_identity (?adm k v)"] by simp
  show ?thesis
    unfolding overlays_ok_def
  proof (intro conjI allI impI)
    show "\<forall>v\<in>snd ` set ns. wf_overlay v"
    proof
      fix v assume "v \<in> snd ` set ns"
      then obtain k u where u: "(k, u) \<in> set overlays" "v = admitted_overlay (?adm k u)" using acc' by auto
      with acc' obtain i where a: "?adm k u = Admitted v i" by (fastforce simp: admitted_overlay_def)
      have "wf_overlay u" using wf u(1) by force
      moreover have "wf_overlay p" if "map_of (m_overlays m) k = Some p" for p
        using minv_overlay[OF inv, of k] that by (simp add: wf_opt_overlay_def)
      ultimately show "wf_overlay v"
        by (rule_tac admit_counter_admitted[OF a]) (auto intro: wf_merge_overlay)
    qed
  next
    fix k i assume "map_of nids k = Some i"
    then obtain u where u: "map_of overlays k = Some u" "i = admitted_identity (?adm k u)"
      unfolding nids by auto
    with adm[OF u(1)] obtain v where a: "?adm k u = Admitted v i" by (auto simp: admitted_identity_def)
    show "valid_identity i" by (rule admit_counter_admitted[OF a])
    show "k \<in> dom (map_of ns)" using u(1) ns by auto
  next
    show "dom (map_of (next_epochs ef ns)) \<subseteq> dom (map_of ns)"
      using next_epochs_keys by (simp add: dom_map_of_conv_image_fst)
  qed
qed

lemma publish_active_lftp_root_counters_spec:
  assumes inv: "minv R m" and wf: "\<forall>v\<in>snd ` set overlays. wf_overlay v"
  obtains m' r where "publish_active_lftp_root_counters overlays ids em ef m = (Inr r, m')"
    "minv R m'" "kept m m'"
proof (cases "admit_all (\<lambda>fid ov. admit_counter m em ef fid ov (map_of ids fid)) overlays")
  case (Inl reason)
  obtain m' where "clear_active_progress_overlays None None m = (Inr (), m')" "minv R m'"
    and st: "steady (if m_suppress_clear m \<noteq> 0 then m
             else m\<lparr>m_overlays := [], m_overlay_ids := [], m_overlay_epochs := []\<rparr>) m'"
    by (rule clear_active_progress_overlays_spec[OF inv])
  moreover have "kept m m'"
    using kept_trans[OF _ steady_kept[OF st], of m] kept_overlays by (simp split: if_splits)
  ultimately show ?thesis
    using Inl that by (simp add: publish_active_lftp_root_counters_def mbind_def mret_def)
next
  case (Inr q)
  obtain ns nids ps rej where q: "q = (ns, nids, ps, rej)" by (cases q)
  show ?thesis
  proof (cases rej)
    case True
    obtain m' where "mfor (sort_key fst ps) (\<lambda>(fid, p). mseq (clear_overlay_if_identity_matches fid p) (mret ())) m
        = (Inr (), m')" "minv R m'" "kept m m'"
      by (rule clear_mismatches_spec[OF inv])
    with True Inr q that show ?thesis
      by (simp add: publish_active_lftp_root_counters_def mbind_def mret_def)
  next
    case False
    have ok: "overlays_ok ns nids (next_epochs ef ns)"
      by (rule publish_accepted_overlays_ok[OF inv wf]) (use Inr q False in auto)
    let ?ch = "changed_overlay_ids ns nids m"
    obtain m' where "mseq (mmod (\<lambda>m. m\<lparr>m_overlays := ns, m_overlay_ids := nids, m_overlay_epochs := next_epochs ef ns\<rparr>))
       (mseq (mfor ?ch (republish_root ''publish_active_lftp_root_counters'' None)) (mret (set ?ch, ''accepted''))) m
       = (Inr (set ?ch, ''accepted''), m')" "minv R m'"
      and st: "steady (m\<lparr>m_overlays := ns, m_overlay_ids := nids, m_overlay_epochs := next_epochs ef ns\<rparr>) m'"
      by (rule install_overlays[OF inv ok changed_overlay_ids_cover])
    moreover have "kept m m'" by (rule kept_trans[OF kept_overlays steady_kept[OF st]])
    ultimately show ?thesis
      using Inr q False that by (simp add: publish_active_lftp_root_counters_def Let_def)
  qed
qed
end
