(* ===== verification/Model_Roots.thy ===== *)
theory Model_Roots
  imports Model_Overlays
begin

text \<open>
  Adding, updating and removing roots: what each method does on each branch, and that each keeps the
  invariant of the Model.
\<close>

declare split_paired_All [simp del] split_paired_Ex [simp del]

section \<open>The roots and their indexes\<close>

lemma ids_by_name_insert:
  "map_of files k = None \<Longrightarrow>
   ids_by_name (dict_set k f files) n = (if n = mf_name f then insert k (ids_by_name files n) else ids_by_name files n)"
  by (auto simp: ids_by_name_def)

lemma ids_by_name_replace:
  "map_of files k = Some g \<Longrightarrow> mf_name g = mf_name f \<Longrightarrow>
   ids_by_name (dict_set k f files) n = ids_by_name files n"
  by (auto simp: ids_by_name_def)

lemma ids_by_name_delete:
  "map_of files k = Some f \<Longrightarrow>
   ids_by_name (dict_pop k files) n = (if n = mf_name f then ids_by_name files n - {k} else ids_by_name files n)"
  by (auto simp: ids_by_name_def)

lemma roots_ok_insert:
  assumes "roots_ok files ordered names" "root_file f" "map_of files (file_id f) = None"
  shows "roots_ok (dict_set (file_id f) f files) (py_insort ordered (file_id f))
           (index_name (mf_name f) (file_id f) names)"
  using assms map_of_in_iff[of files "file_id f"]
  by (auto simp: roots_ok_def distinct_update sorted_py_insort distinct_py_insort index_name_def
      ids_by_name_insert some_nonempty_def split: if_splits)

lemma roots_ok_replace:
  assumes "roots_ok files ordered names" "root_file f" "map_of files (file_id f) = Some g"
  shows "roots_ok (dict_set (file_id f) f files) ordered names"
proof -
  have g: "file_id g = file_id f" "root_file g" using assms by (auto simp: roots_ok_def)
  then have "mf_name g = mf_name f" using root_name_of_id assms(2) by blast
  moreover have "insert (file_id f) (fst ` set files) = fst ` set files"
    using map_of_SomeE[OF assms(3)] by auto
  ultimately show ?thesis
    using assms by (simp add: roots_ok_def distinct_update ids_by_name_replace)
qed

lemma roots_ok_delete:
  assumes "roots_ok files ordered names" "map_of files fid = Some f"
  shows "roots_ok (dict_pop fid files) (remove1 fid ordered) (unindex_name (mf_name f) fid names)"
proof -
  have "map_of (unindex_name (mf_name f) fid names) n = some_nonempty (ids_by_name (dict_pop fid files) n)" for n
    using assms by (auto simp: roots_ok_def unindex_name_def Let_def ids_by_name_delete some_nonempty_def)
  moreover have "map_of (dict_pop fid files) k = Some g \<Longrightarrow> k = file_id g \<and> root_file g" for k g
    using assms by (auto simp: roots_ok_def split: if_splits)
  ultimately show ?thesis
    using assms by (simp add: roots_ok_def distinct_delete sorted_remove1 distinct_remove1 set_remove1_eq)
qed

lemma coherent_set_file:
  "coherent R files ov pub \<Longrightarrow> coherent (insert k R) (dict_set k f files) ov pub"
  by (auto simp: coherent_def)

lemma published_ok_set_file:
  "published_ok files pub ids ret \<Longrightarrow> published_ok (dict_set k f files) pub ids ret"
  unfolding published_ok_def by auto

lemma minv_insert_root:
  assumes "minv R m" "root_file f" "map_of (m_files m) (file_id f) = None"
  shows "minv (insert (file_id f) R) (insert_root f m)"
  using assms by (simp add: minv_def insert_root_def roots_ok_insert coherent_set_file published_ok_set_file)

lemma minv_replace_root:
  assumes "minv R m" "root_file f" "map_of (m_files m) (file_id f) = Some g"
  shows "minv (insert (file_id f) R) (m\<lparr>m_files := dict_set (file_id f) f (m_files m)\<rparr>)"
  using assms by (simp add: minv_def roots_ok_replace coherent_set_file published_ok_set_file)

lemma published_ok_delete:
  assumes "published_ok files pub ids ret"
  shows "published_ok (dict_pop k files) (dict_pop k pub) (dict_pop k ids) ret"
  unfolding published_ok_def
proof (intro conjI allI impI)
  show "dom (map_of (dict_pop k pub)) \<subseteq> dom (map_of (dict_pop k files))"
    using assms unfolding published_ok_def dict_get_pop dom_fun_upd by auto
  show "valid_identity i" if "map_of (dict_pop k ids) fid = Some i" for fid i
    using assms that unfolding published_ok_def by (auto split: if_splits)
  show "fid \<in> dom (map_of (dict_pop k pub))" if "map_of (dict_pop k ids) fid = Some i" for fid i
    using assms that unfolding published_ok_def dict_get_pop dom_fun_upd by (auto split: if_splits)
qed (use assms in \<open>auto simp: published_ok_def\<close>)

lemma delete_root_spec:
  obtains es where "delete_root fid f m =
     m\<lparr>m_files := dict_pop fid (m_files m), m_ordered := remove1 fid (m_ordered m),
       m_by_name := unindex_name (mf_name f) fid (m_by_name m),
       m_published := dict_pop fid (m_published m), m_published_ids := dict_pop fid (m_published_ids m),
       m_overlays := dict_pop fid (m_overlays m), m_overlay_ids := dict_pop fid (m_overlay_ids m),
       m_overlay_epochs := dict_pop fid (m_overlay_epochs m),
       m_correction_ids := m_correction_ids m - {fid}, m_correction_old := dict_pop fid (m_correction_old m),
       m_events := es\<rparr>"
proof -
  let ?m1 = "m\<lparr>m_files := dict_pop fid (m_files m), m_ordered := remove1 fid (m_ordered m),
       m_by_name := unindex_name (mf_name f) fid (m_by_name m),
       m_published := dict_pop fid (m_published m), m_published_ids := dict_pop fid (m_published_ids m)\<rparr>"
  obtain es where es: "(case map_of (m_published_ids m) fid of None \<Rightarrow> ?m1
     | Some i \<Rightarrow> record_provenance fid ''published_root_removed'' (Some i) None ''info'' None False ?m1) =
     ?m1\<lparr>m_events := es\<rparr>"
  proof (cases "map_of (m_published_ids m) fid")
    case None
    then show ?thesis using that[of "m_events m"] by simp
  next
    case (Some i)
    obtain es where "record_provenance fid ''published_root_removed'' (Some i) None ''info'' None False ?m1 =
        ?m1\<lparr>m_events := es\<rparr>"
      by (rule quietE[OF quiet_record_provenance])
    then show ?thesis by (intro that[of es]) (simp only: Some option.case)
  qed
  show thesis
    by (rule that[of es]) (simp add: delete_root_def Let_def es pop_overlay_def)
qed

lemma minv_delete_root:
  assumes "minv R m" "map_of (m_files m) fid = Some f"
  shows "minv R (delete_root fid f m)"
  by (rule delete_root_spec[of fid f m])
    (use assms in \<open>auto simp: minv_def roots_ok_delete overlays_ok_pop published_ok_delete coherent_def split: if_splits\<close>)

section \<open>Publishing and versioning as steps\<close>

lemma refresh_step:
  assumes "minv (insert (file_id f) R) m" "map_of (m_files m) (file_id f) = Some f"
  obtains m' where
    "refresh_published_file f s c x m =
       (Inr (effective_record (m_clock m) (map_of (m_overlays m) (file_id f)) f), m')"
    "minv R m'" "steady m m'" "m_version m' = m_version m" "m_scope_versions m' = m_scope_versions m"
proof -
  obtain ids es where
    "refresh_published_file f s c x m =
       (Inr (effective_record (m_clock m) (map_of (m_overlays m) (file_id f)) f),
        m\<lparr>m_published := dict_set (file_id f)
             (effective_record (m_clock m) (map_of (m_overlays m) (file_id f)) f) (m_published m),
          m_published_ids := ids, m_events := es\<rparr>)"
    and i: "minv R (m\<lparr>m_published := dict_set (file_id f)
             (effective_record (m_clock m) (map_of (m_overlays m) (file_id f)) f) (m_published m),
          m_published_ids := ids, m_events := es\<rparr>)" (is "minv R ?m'")
    by (rule refresh_published_file_minv[OF assms])
  moreover have "steady m ?m'" by (simp add: steady_def fixed_part_def advances_same)
  ultimately show thesis by (rule that) simp_all
qed

lemma advance_step:
  assumes "minv R m"
  obtains m' where
    "advance_version f m = (Inr (m_version m + 1, scope_version (fa_path_pair_id (attrs f)) m + 1), m')"
    "minv R m'" "steady m m'" "m_version m' = m_version m + 1"
    "\<And>s. scope_version s m' = scope_version s m + (if s = fa_path_pair_id (attrs f) then 1 else 0)"
proof -
  let ?s = "fa_path_pair_id (attrs f)"
  obtain es where es: "advance_version f m = (Inr (m_version m + 1, scope_version ?s m + 1),
      m\<lparr>m_version := m_version m + 1,
        m_scope_versions := dict_set ?s (scope_version ?s m + 1) (m_scope_versions m), m_events := es\<rparr>)"
    (is "_ = (_, ?m')")
    by (rule advance_version_spec)
  show thesis
  proof (rule that[OF es minv_advance[OF assms]])
    show "steady m ?m'" using advances_advance by (simp add: steady_def fixed_part_def)
    show "scope_version s ?m' = scope_version s m + (if s = ?s then 1 else 0)" for s
      by (simp add: scope_version_def)
  qed simp
qed

lemma published_or_refresh_step:
  assumes inv: "minv R m" and f: "map_of (m_files m) (file_id f) = Some f"
  obtains p m' where "published_or_refresh f c x m = (Inr p, m')" "minv R m'" "steady m m'"
    "m_version m' = m_version m" "m_scope_versions m' = m_scope_versions m"
proof (cases "map_of (m_published m) (file_id f)")
  case None
  have "minv (insert (file_id f) R) m" by (rule minv_mono[OF inv]) auto
  then obtain m' where "refresh_published_file f None c x m =
       (Inr (effective_record (m_clock m) (map_of (m_overlays m) (file_id f)) f), m')"
    "minv R m'" "steady m m'" "m_version m' = m_version m" "m_scope_versions m' = m_scope_versions m"
    using f by (rule refresh_step)
  with None that show ?thesis by (simp add: published_or_refresh_def)
next
  case (Some p)
  with that[of p m] inv show ?thesis by (simp add: published_or_refresh_def)
qed

lemma full_effective_step:
  "minv R m \<Longrightarrow> full_effective_file f m = (Inr (upd (effective_attrs (map_of (m_overlays m) (file_id f))) f), m)"
  by (rule full_effective_total[OF minv_overlay])

lemma clear_step:
  assumes "minv R m"
  obtains m' where "clear_active_progress_overlays ctx cf m = (Inr (), m')" "minv R m'" "kept m m'"
proof -
  obtain m' where m': "clear_active_progress_overlays ctx cf m = (Inr (), m')" "minv R m'"
    and st: "steady (if m_suppress_clear m \<noteq> 0 then m
             else m\<lparr>m_overlays := [], m_overlay_ids := [], m_overlay_epochs := []\<rparr>) m'"
    by (rule clear_active_progress_overlays_spec[OF assms])
  have "kept m m'"
    using kept_trans[OF _ steady_kept[OF st], of m] kept_overlays by (simp split: if_splits)
  with m' show thesis by (rule that)
qed

text \<open>\<open>quiet_step\<close>: telling the listeners ends a method.\<close>

lemma quiet_step:
  assumes "quiet g" "quiet h" "minv R m"
  obtains m' where "mseq (mmod g) (mmod h) m = (Inr (), m')" "minv R m'" "steady m m'"
    "m_version m' = m_version m" "m_scope_versions m' = m_scope_versions m"
proof -
  have q: "quiet (\<lambda>m. h (g m))" using assms(1,2) by (rule quiet_compose)
  then obtain es where es: "h (g m) = m\<lparr>m_events := es\<rparr>" by (rule quietE)
  show thesis
    by (rule that[of "h (g m)"])
      (use steady_quiet[OF q, of m] assms(3) in \<open>simp_all add: mbind_def mmod_def es\<close>)
qed

section \<open>Adding, updating and removing roots\<close>

lemma add_file_spec:
  assumes inv: "minv R m" and f: "root_file f"
  obtains (duplicate) m' where "map_of (m_files m) (file_id f) \<noteq> None"
      "add_file f s m = (Inl already_exists, m')" "minv R m'" "kept m m'"
    | (added) m' where "map_of (m_files m) (file_id f) = None"
      "add_file f s m = (Inr (), m')" "minv R m'"
      "m_files m' = dict_set (file_id f) f (m_files m)" "advances m m'" "m_version m < m_version m'"
      "scope_version (fa_path_pair_id (attrs f)) m < scope_version (fa_path_pair_id (attrs f)) m'"
      "m_suppress_clear m' = m_suppress_clear m" "m_replacement_depth m' = m_replacement_depth m"
      "m_base_fallbacks m' = m_base_fallbacks m" "m_listeners m' = m_listeners m"
proof -
  obtain m1 where m1: "clear_active_progress_overlays None None m = (Inr (), m1)" "minv R m1" "kept m m1"
    by (rule clear_step[OF inv])
  note k1 = m1(3)[unfolded kept_def]
  show thesis
  proof (cases "map_of (m_files m) (file_id f)")
    case (Some g)
    then have "add_file f s m = (Inl already_exists, m1)"
      using m1(1) k1 by (simp add: add_file_def mbind_def)
    with Some m1 show ?thesis by (intro duplicate) simp_all
  next
    case None
    let ?m2 = "insert_root f m1"
    have i2: "minv (insert (file_id f) R) ?m2"
      by (rule minv_insert_root[OF m1(2) f]) (use None k1 in simp)
    have f2: "map_of (m_files ?m2) (file_id f) = Some f" by (simp add: insert_root_def)
    obtain p m3 where m3: "refresh_published_file f s ''add_file'' None ?m2 = (Inr p, m3)"
      "minv R m3" "steady ?m2 m3" "m_version m3 = m_version ?m2" "m_scope_versions m3 = m_scope_versions ?m2"
      by (rule refresh_step[OF i2 f2])
    obtain legacy where l: "(\<lambda>m. if m_listeners m = [] then (Inr None, m)
        else mbind (full_effective_file f) (\<lambda>g. mret (Some g)) m) m3 = (Inr legacy, m3)"
      using full_effective_step[OF m3(2), of f] by (cases "m_listeners m3 = []") (auto simp: mbind_def mret_def)
    obtain m4 where m4: "advance_version f m3 =
        (Inr (m_version m3 + 1, scope_version (fa_path_pair_id (attrs f)) m3 + 1), m4)"
      "minv R m4" "steady m3 m4" "m_version m4 = m_version m3 + 1"
      "\<And>s. scope_version s m4 = scope_version s m3 + (if s = fa_path_pair_id (attrs f) then 1 else 0)"
      by (rule advance_step[OF m3(2), where f = f]) blast
    have q: "quiet (\<lambda>m. case legacy of None \<Rightarrow> m
        | Some g \<Rightarrow> fold (\<lambda>l. emit (FileAdded (li_id l) g)) (m_listeners m) m)"
      by (cases legacy) (simp_all add: quiet_id quiet_over_listeners quiet_emit)
    obtain m5 where m5: "mseq (mmod (\<lambda>m. case legacy of None \<Rightarrow> m
          | Some g \<Rightarrow> fold (\<lambda>l. emit (FileAdded (li_id l) g)) (m_listeners m) m))
        (mmod (notify_versioned_change f (m_version m3 + 1) (scope_version (fa_path_pair_id (attrs f)) m3 + 1))) m4
        = (Inr (), m5)" "minv R m5" "steady m4 m5"
      "m_version m5 = m_version m4" "m_scope_versions m5 = m_scope_versions m4"
      by (rule quiet_step[OF q quiet_notify(1) m4(2)])
    have run: "add_file f s m = (Inr (), m5)"
      using m1(1) m3(1) l m4(1) m5(1) None k1
      by (simp add: add_file_def mbind_def mmod_def[of "insert_root f"])
    have st: "steady ?m2 m5" using m3(3) m4(3) m5(3) steady_trans by blast
    note k5 = steadyD[OF st]
    have v12: "advances m ?m2"
      using k1 advances_trans[OF _ advances_same[of ?m2 m1]] by (simp add: insert_root_def)
    show ?thesis
    proof (rule added[OF None run m5(2)])
      show "m_files m5 = dict_set (file_id f) f (m_files m)" using k5 k1 by (simp add: insert_root_def)
      show "advances m m5" by (rule advances_trans[OF v12 k5(13)])
      show "m_version m < m_version m5" using v12 m3(4) m4(4) m5(4) by (simp add: advances_def)
      show "scope_version (fa_path_pair_id (attrs f)) m < scope_version (fa_path_pair_id (attrs f)) m5"
        using v12 m3(5) m4(5) m5(5) by (auto simp: advances_def scope_version_def)
    qed (use k1 k5 in \<open>simp_all add: insert_root_def\<close>)
  qed
qed

lemma resolve_in_files:
  assumes "minv R m" "resolve_file_id x m = Inr fid"
  obtains f where "map_of (m_files m) fid = Some f" "fid = file_id f"
proof -
  have "\<exists>f. map_of (m_files m) fid = Some f"
  proof (cases "map_of (m_files m) x")
    case None
    with assms(2) obtain t where t: "map_of (m_by_name m) x = Some t" "t \<noteq> {}" "\<not> 1 < card t" "fid = the_elem t"
      by (auto simp: resolve_file_id_def split: option.splits if_splits)
    have ids: "t = ids_by_name (m_files m) x"
      using assms(1) t(1) by (auto simp: minv_def roots_ok_def some_nonempty_def split: if_splits)
    have "t \<subseteq> dom (map_of (m_files m))" unfolding ids ids_by_name_def by auto
    then have "finite t" using finite_dom_map_of finite_subset by blast
    then have "card t = 1" using t(2,3) by (metis One_nat_def Suc_lessI card_gt_0_iff)
    then obtain a where a: "t = {a}" by (rule card_1_singletonE)
    with \<open>t \<subseteq> dom (map_of (m_files m))\<close> t(4) show ?thesis by auto
  next
    case (Some f)
    with assms(2) show ?thesis by (auto simp: resolve_file_id_def)
  qed
  then obtain f where f: "map_of (m_files m) fid = Some f" ..
  show thesis by (rule that[OF f]) (use minv_root[OF assms(1) f] in simp)
qed

lemma resolve_cong:
  "m_files m' = m_files m \<Longrightarrow> m_by_name m' = m_by_name m \<Longrightarrow> resolve_file_id x m' = resolve_file_id x m"
  by (simp add: resolve_file_id_def)

lemma remove_file_spec:
  assumes inv: "minv R m"
  obtains (missing) e m' where "resolve_file_id x m = Inl e" "remove_file x m = (Inl e, m')"
      "minv R m'" "kept m m'"
    | (removed) fid f m' where "resolve_file_id x m = Inr fid" "map_of (m_files m) fid = Some f"
      "remove_file x m = (Inr (), m')" "minv R m'" "m_files m' = dict_pop fid (m_files m)"
      "advances m m'" "m_version m < m_version m'"
      "scope_version (fa_path_pair_id (attrs f)) m < scope_version (fa_path_pair_id (attrs f)) m'"
      "m_suppress_clear m' = m_suppress_clear m" "m_replacement_depth m' = m_replacement_depth m"
      "m_base_fallbacks m' = m_base_fallbacks m" "m_listeners m' = m_listeners m"
proof -
  obtain m1 where m1: "clear_active_progress_overlays None None m = (Inr (), m1)" "minv R m1" "kept m m1"
    by (rule clear_step[OF inv])
  note k1 = m1(3)[unfolded kept_def]
  have res: "resolve_file_id x m1 = resolve_file_id x m" using k1 by (intro resolve_cong) simp_all
  show thesis
  proof (cases "resolve_file_id x m")
    case (Inl e)
    have "remove_file x m = (Inl e, m1)" using m1(1) res Inl by (simp add: remove_file_def mbind_def)
    with Inl m1 show ?thesis by (intro missing) simp_all
  next
    case (Inr fid)
    obtain f where f: "map_of (m_files m) fid = Some f" "fid = file_id f"
      by (rule resolve_in_files[OF inv Inr])
    have f1: "map_of (m_files m1) (file_id f) = Some f" using f k1 by simp
    obtain p m2 where m2: "published_or_refresh f ''remove_file'' None m1 = (Inr p, m2)" "minv R m2"
      "steady m1 m2" "m_version m2 = m_version m1" "m_scope_versions m2 = m_scope_versions m1"
      by (rule published_or_refresh_step[OF m1(2) f1])
    note legacy = full_effective_step[OF m2(2), of f]
    let ?old = "upd (effective_attrs (map_of (m_overlays m2) (file_id f))) f"
    let ?m3 = "delete_root fid f m2"
    have f2: "map_of (m_files m2) fid = Some f" using f f1 steadyD(1)[OF m2(3)] by simp
    have i3: "minv R ?m3" by (rule minv_delete_root[OF m2(2) f2])
    obtain m4 where m4: "advance_version f ?m3 =
        (Inr (m_version ?m3 + 1, scope_version (fa_path_pair_id (attrs f)) ?m3 + 1), m4)"
      "minv R m4" "steady ?m3 m4" "m_version m4 = m_version ?m3 + 1"
      "\<And>s. scope_version s m4 = scope_version s ?m3 + (if s = fa_path_pair_id (attrs f) then 1 else 0)"
      by (rule advance_step[OF i3, where f = f]) blast
    obtain m5 where m5: "mseq (mmod (\<lambda>m. fold (\<lambda>l. emit (FileRemoved (li_id l) ?old)) (m_listeners m) m))
        (mmod (notify_versioned_change f (m_version ?m3 + 1) (scope_version (fa_path_pair_id (attrs f)) ?m3 + 1))) m4
        = (Inr (), m5)" "minv R m5" "steady m4 m5"
      "m_version m5 = m_version m4" "m_scope_versions m5 = m_scope_versions m4"
      by (rule quiet_step[OF quiet_over_listeners[OF quiet_emit] quiet_notify(1) m4(2)])
    have run: "remove_file x m = (Inr (), m5)"
      using m1(1) m2(1) legacy m4(1) m5(1) Inr f k1 res
      by (simp add: remove_file_def mbind_def mmod_def[of "delete_root _ f"])
    have st: "steady ?m3 m5" by (rule steady_trans[OF m4(3) m5(3)])
    note k5 = steadyD[OF st] and k2 = steadyD[OF m2(3)]
    have d: "m_files ?m3 = dict_pop fid (m_files m2)" "m_version ?m3 = m_version m2"
      "m_scope_versions ?m3 = m_scope_versions m2" "m_suppress_clear ?m3 = m_suppress_clear m2"
      "m_replacement_depth ?m3 = m_replacement_depth m2" "m_base_fallbacks ?m3 = m_base_fallbacks m2"
      "m_listeners ?m3 = m_listeners m2"
      by (rule delete_root_spec[of fid f m2], simp)+
    have v: "advances m ?m3"
      using k1 d advances_trans[OF advances_trans[OF _ k2(13)] advances_same[of ?m3 m2]] by simp
    show ?thesis
    proof (rule removed[OF Inr f(1) run m5(2)])
      show "m_files m5 = dict_pop fid (m_files m)" using k5 k2 d k1 by simp
      show "advances m m5" by (rule advances_trans[OF v k5(13)])
      show "m_version m < m_version m5" using v m4(4) m5(4) by (simp add: advances_def)
      show "scope_version (fa_path_pair_id (attrs f)) m < scope_version (fa_path_pair_id (attrs f)) m5"
        using v m4(5) m5(5) by (auto simp: advances_def scope_version_def)
    qed (use k1 k2 k5 d in simp_all)
  qed
qed

lemma with_base_fallback_spec:
  assumes "root_file f0"
  obtains f where "with_base_fallback f0 m = Inr f" "root_file f" "file_id f = file_id f0"
    "fa_path_pair_id (attrs f) = fa_path_pair_id (attrs f0)"
    "f = f0 \<or> (\<exists>n. f = upd (put_opt_int ''transferred_size'' (Some n)) f0)"
proof -
  have "\<exists>f. with_base_fallback f0 m = Inr f \<and>
      (f = f0 \<or> (\<exists>n\<ge>0. f = upd (put_opt_int ''transferred_size'' (Some n)) f0))"
    by (auto simp: with_base_fallback_def set_transferred_size_def set_ranged_def of_opt_int_def
        split: option.splits)
  then obtain f where f: "with_base_fallback f0 m = Inr f"
    and c: "f = f0 \<or> (\<exists>n\<ge>0. f = upd (put_opt_int ''transferred_size'' (Some n)) f0)" by blast
  have wf: "wf_attrs (attrs f)"
    using c assms wf_attrs_set_runtime[of "attrs f0" "''transferred_size''"]
    by (auto simp: root_file_def runtime_accepts_def runtime_default_def nat_or_none_def of_opt_int_def)
  show thesis
    by (rule that[OF f]) (use c assms wf in \<open>auto simp: root_file_def file_id_def full_path_def\<close>)
qed

lemma retire_for_candidate_minv:
  "minv R m \<Longrightarrow> minv (insert (file_id f) R) (retire_for_candidate f m)"
  using minv_pop_overlay minv_mono[of R m "insert (file_id f) R"]
  by (auto simp: retire_for_candidate_def)

lemma retire_for_candidate_kept: "kept m (retire_for_candidate f m)"
  by (simp add: retire_for_candidate_def kept_pop_overlay)

lemma update_file_spec:
  assumes inv: "minv R m" and f0: "root_file f0"
  obtains (missing) m' where "map_of (m_files m) (file_id f0) = None"
      "update_file f0 s ctx m = (Inl does_not_exist, m')" "minv R m'" "kept m m'"
    | (updated) f m' where "map_of (m_files m) (file_id f0) \<noteq> None"
      "with_base_fallback f0 m = Inr f" "update_file f0 s ctx m = (Inr (), m')" "minv R m'"
      "m_files m' = dict_set (file_id f0) f (m_files m)" "advances m m'" "m_version m < m_version m'"
      "scope_version (fa_path_pair_id (attrs f0)) m < scope_version (fa_path_pair_id (attrs f0)) m'"
      "m_suppress_clear m' = m_suppress_clear m" "m_replacement_depth m' = m_replacement_depth m"
      "m_base_fallbacks m' = m_base_fallbacks m" "m_listeners m' = m_listeners m"
proof -
  obtain f where f: "with_base_fallback f0 m = Inr f" "root_file f" "file_id f = file_id f0"
    "fa_path_pair_id (attrs f) = fa_path_pair_id (attrs f0)"
    by (rule with_base_fallback_spec[OF f0])
  let ?R = "insert (file_id f) R" and ?m0 = "retire_for_candidate f m" and ?sc = "fa_path_pair_id (attrs f)"
  obtain m1 where m1: "clear_active_progress_overlays ctx (Some (file_id f)) ?m0 = (Inr (), m1)"
    "minv ?R m1" "kept ?m0 m1"
    by (rule clear_step[OF retire_for_candidate_minv[OF inv]])
  have "kept m m1" by (rule kept_trans[OF retire_for_candidate_kept m1(3)])
  note k1 = this[unfolded kept_def]
  show thesis
  proof (cases "map_of (m_files m) (file_id f)")
    case None
    have "update_file f0 s ctx m = (Inl does_not_exist, m1)"
      using f m1(1) None k1 by (simp add: update_file_def mbind_def mmod_def)
    moreover have "minv R m1" by (rule minv_absent[OF m1(2)]) (use None k1 in simp)
    ultimately show ?thesis using None f \<open>kept m m1\<close> by (intro missing) simp_all
  next
    case (Some old)
    have old: "file_id old = file_id f" using minv_root[OF inv Some] by simp
    have o1: "map_of (m_files m1) (file_id old) = Some old" using Some old k1 by simp
    obtain p m2 where m2: "published_or_refresh old ''update_file_previous'' ctx m1 = (Inr p, m2)"
      "minv ?R m2" "steady m1 m2" "m_version m2 = m_version m1" "m_scope_versions m2 = m_scope_versions m1"
      by (rule published_or_refresh_step[OF m1(2) o1])
    note k2 = steadyD[OF m2(3)]
    note lold = full_effective_step[OF m2(2), of old]
    let ?lo = "upd (effective_attrs (map_of (m_overlays m2) (file_id old))) old"
    let ?m3 = "m2\<lparr>m_files := dict_set (file_id f) f (m_files m2)\<rparr>"
    have "minv (insert (file_id f) ?R) ?m3"
      by (rule minv_replace_root[OF m2(2) f(2)]) (use o1 old k2 in simp)
    then have i3: "minv ?R ?m3" by simp
    have f3: "map_of (m_files ?m3) (file_id f) = Some f" by simp
    obtain q m4 where m4: "refresh_published_file f s ''update_file_candidate'' ctx ?m3 = (Inr q, m4)"
      "minv R m4" "steady ?m3 m4" "m_version m4 = m_version ?m3" "m_scope_versions m4 = m_scope_versions ?m3"
      by (rule refresh_step[OF i3 f3])
    note lnew = full_effective_step[OF m4(2), of f]
    let ?ln = "upd (effective_attrs (map_of (m_overlays m4) (file_id f))) f"
    obtain m5 where m5: "advance_version f m4 = (Inr (m_version m4 + 1, scope_version ?sc m4 + 1), m5)"
      "minv R m5" "steady m4 m5" "m_version m5 = m_version m4 + 1"
      "\<And>s. scope_version s m5 = scope_version s m4 + (if s = ?sc then 1 else 0)"
      by (rule advance_step[OF m4(2), where f = f]) blast
    obtain m6 where m6: "mseq (mmod (\<lambda>m. fold (\<lambda>l. emit (FileUpdated (li_id l) ?lo ?ln)) (m_listeners m) m))
        (mmod (notify_versioned_change f (m_version m4 + 1) (scope_version ?sc m4 + 1))) m5 = (Inr (), m6)"
      "minv R m6" "steady m5 m6" "m_version m6 = m_version m5" "m_scope_versions m6 = m_scope_versions m5"
      by (rule quiet_step[OF quiet_over_listeners[OF quiet_emit] quiet_notify(1) m5(2)])
    have run: "update_file f0 s ctx m = (Inr (), m6)"
      using f m1(1) m2(1) lold m4(1) lnew m5(1) m6(1) Some k1
      by (simp add: update_file_def mbind_def mmod_def[of "retire_for_candidate f"]
          mmod_def[of "\<lambda>m. m\<lparr>m_files := _ m\<rparr>"])
    have st: "steady ?m3 m6" using m4(3) m5(3) m6(3) steady_trans by blast
    note k6 = steadyD[OF st]
    have v: "advances m ?m3"
      using k1 advances_trans[OF advances_trans[OF _ k2(13)] advances_same[of ?m3 m2]] by simp
    show ?thesis
    proof (rule updated[OF _ f(1) run m6(2)])
      show "map_of (m_files m) (file_id f0) \<noteq> None" using Some f by simp
      show "m_files m6 = dict_set (file_id f0) f (m_files m)" using k6 k2 k1 f by simp
      show "advances m m6" by (rule advances_trans[OF v k6(13)])
      show "m_version m < m_version m6" using v m4(4) m5(4) m6(4) by (simp add: advances_def)
      show "scope_version (fa_path_pair_id (attrs f0)) m < scope_version (fa_path_pair_id (attrs f0)) m6"
        using v m4(5) m5(5) m6(5) f(4) by (auto simp: advances_def scope_version_def)
    qed (use k1 k2 k6 in simp_all)
  qed
qed
end
