(* ===== verification/Model_Replacement.thy ===== *)
theory Model_Replacement
  imports Model_Roots
begin

text \<open>
  Methods that run other methods: \<open>apply_with_active_progress_retained\<close> and
  \<open>apply_authoritative_root_replacement\<close> keep the invariant for every operation that does, on its
  normal exit and when it raises.
\<close>

section \<open>Methods that keep the invariant\<close>

text \<open>A method is \<open>preserving\<close> when it keeps the invariant whatever records are still to be published,
  leaves the modes as it found them, and takes no version back. It may raise.\<close>

definition preserving :: "'a mop \<Rightarrow> bool" where
  "preserving p \<longleftrightarrow>
     (\<forall>R m. minv R m \<longrightarrow>
        minv R (snd (p m)) \<and> advances m (snd (p m)) \<and>
        m_suppress_clear (snd (p m)) = m_suppress_clear m \<and>
        m_replacement_depth (snd (p m)) = m_replacement_depth m \<and>
        m_base_fallbacks (snd (p m)) = m_base_fallbacks m)"

lemma preservingI:
  assumes "\<And>R m. minv R m \<Longrightarrow> \<exists>r m'. p m = (r, m') \<and> minv R m' \<and> advances m m' \<and>
        m_suppress_clear m' = m_suppress_clear m \<and> m_replacement_depth m' = m_replacement_depth m \<and>
        m_base_fallbacks m' = m_base_fallbacks m"
  shows "preserving p"
  unfolding preserving_def using assms by fastforce

lemma preservingD:
  assumes "preserving p" "minv R m" "p m = (r, m')"
  shows "minv R m'" "advances m m'" "m_suppress_clear m' = m_suppress_clear m"
    "m_replacement_depth m' = m_replacement_depth m" "m_base_fallbacks m' = m_base_fallbacks m"
  using assms unfolding preserving_def by (metis snd_conv)+

lemma preserving_kept:
  assumes "\<And>R m. minv R m \<Longrightarrow> \<exists>r m'. p m = (r, m') \<and> minv R m' \<and> kept m m'"
  shows "preserving p"
  by (rule preservingI) (use assms in \<open>fastforce simp: kept_def\<close>)

lemma preserving_ret: "preserving (mret x)"
  by (rule preserving_kept) (simp add: mret_def)

lemma preserving_bind:
  assumes "preserving p" "\<And>x. preserving (k x)"
  shows "preserving (mbind p k)"
proof (rule preservingI)
  fix R m assume inv: "minv R m"
  obtain r m1 where p: "p m = (r, m1)" by (cases "p m")
  note d1 = preservingD[OF assms(1) inv p]
  show "\<exists>r m'. mbind p k m = (r, m') \<and> minv R m' \<and> advances m m' \<and>
        m_suppress_clear m' = m_suppress_clear m \<and> m_replacement_depth m' = m_replacement_depth m \<and>
        m_base_fallbacks m' = m_base_fallbacks m"
  proof (cases r)
    case (Inl e)
    with p d1 show ?thesis by (simp add: mbind_def)
  next
    case (Inr x)
    obtain r2 m2 where k: "k x m1 = (r2, m2)" by (cases "k x m1")
    note d2 = preservingD[OF assms(2) d1(1) k]
    from Inr p k d1 d2 advances_trans[OF d1(2) d2(2)] show ?thesis by (simp add: mbind_def)
  qed
qed

lemma preserving_for: "(\<And>x. x \<in> set xs \<Longrightarrow> preserving (body x)) \<Longrightarrow> preserving (mfor xs body)"
  by (induction xs) (simp_all add: preserving_ret preserving_bind)

lemma preserving_add_file: "root_file f \<Longrightarrow> preserving (add_file f s)"
proof (rule preservingI)
  fix R m assume "root_file f" "minv R m"
  from \<open>minv R m\<close> \<open>root_file f\<close> show "\<exists>r m'. add_file f s m = (r, m') \<and> minv R m' \<and> advances m m' \<and>
        m_suppress_clear m' = m_suppress_clear m \<and> m_replacement_depth m' = m_replacement_depth m \<and>
        m_base_fallbacks m' = m_base_fallbacks m"
    by (rule add_file_spec[where s = s]) (auto simp: kept_def)
qed

lemma preserving_update_file: "root_file f \<Longrightarrow> preserving (update_file f s ctx)"
proof (rule preservingI)
  fix R m assume "root_file f" "minv R m"
  from \<open>minv R m\<close> \<open>root_file f\<close> show "\<exists>r m'. update_file f s ctx m = (r, m') \<and> minv R m' \<and> advances m m' \<and>
        m_suppress_clear m' = m_suppress_clear m \<and> m_replacement_depth m' = m_replacement_depth m \<and>
        m_base_fallbacks m' = m_base_fallbacks m"
    by (rule update_file_spec[where s = s and ctx = ctx]) (auto simp: kept_def)
qed

lemma preserving_remove_file: "preserving (remove_file x)"
proof (rule preservingI)
  fix R m assume "minv R m"
  then show "\<exists>r m'. remove_file x m = (r, m') \<and> minv R m' \<and> advances m m' \<and>
        m_suppress_clear m' = m_suppress_clear m \<and> m_replacement_depth m' = m_replacement_depth m \<and>
        m_base_fallbacks m' = m_base_fallbacks m"
    by (rule remove_file_spec[where x = x]) (auto simp: kept_def)
qed

lemma preserving_clear: "preserving (clear_active_progress_overlays ctx cf)"
proof (rule preserving_kept)
  fix R m assume "minv R m"
  then show "\<exists>r m'. clear_active_progress_overlays ctx cf m = (r, m') \<and> minv R m' \<and> kept m m'"
    by (rule clear_step) blast
qed

lemma preserving_clear_except: "preserving (clear_active_progress_overlays_except keep)"
proof (rule preserving_kept)
  fix R m assume "minv R m"
  then show "\<exists>r m'. clear_active_progress_overlays_except keep m = (r, m') \<and> minv R m' \<and> kept m m'"
    by (rule clear_active_progress_overlays_except_spec) blast
qed

lemma preserving_clear_if: "preserving (clear_overlay_if_identity_matches fid i)"
proof (rule preserving_kept)
  fix R m assume "minv R m"
  then obtain m' b where m': "clear_overlay_if_identity_matches fid i m = (Inr b, m')" "minv R m'"
    and st: "steady (if b then pop_overlay fid m else m) m'"
    by (rule clear_overlay_if_identity_matches_spec)
  have "kept m m'"
    using kept_trans[OF _ steady_kept[OF st], of m] kept_pop_overlay by simp
  with m' show "\<exists>r m'. clear_overlay_if_identity_matches fid i m = (r, m') \<and> minv R m' \<and> kept m m'" by blast
qed

lemma preserving_restore:
  "\<forall>v\<in>snd ` set overlays. wf_overlay v \<Longrightarrow> preserving (restore_active_progress_overlays overlays ids)"
proof (rule preserving_kept)
  fix R m assume "\<forall>v\<in>snd ` set overlays. wf_overlay v" "minv R m"
  then show "\<exists>r m'. restore_active_progress_overlays overlays ids m = (r, m') \<and> minv R m' \<and> kept m m'"
    by (rule_tac restore_active_progress_overlays_spec[of R m overlays ids]) blast+
qed

lemma preserving_publish:
  "\<forall>v\<in>snd ` set overlays. wf_overlay v \<Longrightarrow>
   preserving (publish_active_lftp_root_counters overlays ids em ef)"
proof (rule preserving_kept)
  fix R m assume "\<forall>v\<in>snd ` set overlays. wf_overlay v" "minv R m"
  then show "\<exists>r m'. publish_active_lftp_root_counters overlays ids em ef m = (r, m') \<and> minv R m' \<and> kept m m'"
    by (rule_tac publish_active_lftp_root_counters_spec[of R m overlays ids em ef]) blast+
qed

section \<open>Retained projections\<close>

lemma effective_files_total:
  "minv R m \<Longrightarrow> \<exists>gs. effective_files fs m = (Inr gs, m)"
  by (induction fs) (auto simp: mret_def mbind_def full_effective_step)

lemma minv_begin_retire:
  assumes inv: "minv R m"
  shows "minv (insert fid R) (begin_retire fid m)" and "advances m (begin_retire fid m)"
    and "m_suppress_clear (begin_retire fid m) = m_suppress_clear m"
    and "m_replacement_depth (begin_retire fid m) = m_replacement_depth m"
    and "m_base_fallbacks (begin_retire fid m) = m_base_fallbacks m"
proof -
  let ?m1 = "case map_of (m_overlay_ids m) fid of None \<Rightarrow> m
     | Some i \<Rightarrow> m\<lparr>m_retiring_ids := dict_set fid i (m_retiring_ids m)\<rparr>"
  have i1: "minv R ?m1"
  proof (cases "map_of (m_overlay_ids m) fid")
    case (Some i)
    then have "valid_identity i" using minv_overlay_ids[OF inv] by blast
    with inv Some show ?thesis by (simp add: minv_def published_ok_def)
  qed (simp add: inv)
  have b: "begin_retire fid m = (pop_overlay fid ?m1)\<lparr>m_correction_ids := m_correction_ids ?m1 - {fid},
      m_correction_old := dict_pop fid (m_correction_old ?m1)\<rparr>"
    by (simp add: begin_retire_def Let_def pop_overlay_def)
  show "minv (insert fid R) (begin_retire fid m)"
    unfolding b using minv_pop_overlay[OF i1, of fid] by simp
  show "advances m (begin_retire fid m)"
    by (rule advances_same) (simp_all add: b pop_overlay_def split: option.splits)
  show "m_suppress_clear (begin_retire fid m) = m_suppress_clear m"
    "m_replacement_depth (begin_retire fid m) = m_replacement_depth m"
    "m_base_fallbacks (begin_retire fid m) = m_base_fallbacks m"
    by (simp_all add: b pop_overlay_def split: option.splits)
qed

lemma fold_begin_retire:
  assumes "minv R m"
  shows "minv (R \<union> set fids) (fold begin_retire fids m) \<and> advances m (fold begin_retire fids m) \<and>
    m_suppress_clear (fold begin_retire fids m) = m_suppress_clear m \<and>
    m_replacement_depth (fold begin_retire fids m) = m_replacement_depth m \<and>
    m_base_fallbacks (fold begin_retire fids m) = m_base_fallbacks m"
  using assms
proof (induction fids arbitrary: R m)
  case (Cons fid fids)
  note b = minv_begin_retire[OF Cons.prems, of fid]
  from Cons.IH[OF b(1)] b show ?case using advances_trans[OF b(2)] by simp
qed simp

lemma publish_retired_spec:
  assumes inv: "minv (insert fid R) m"
  obtains m' where "publish_retired fid m = (Inr (), m')" "minv R m'" "steady m m'"
proof (cases "map_of (m_files m) fid")
  case None
  with that[of m] minv_absent[OF inv None] show ?thesis by (simp add: publish_retired_def)
next
  case (Some f)
  have fid: "fid = file_id f" using minv_root[OF inv Some] by simp
  have inv': "minv (insert (file_id f) R) m" and f: "map_of (m_files m) (file_id f) = Some f"
    using inv Some fid by simp_all
  obtain m1 where m1: "refresh_published_file f None ''apply_with_active_progress_retained'' None m =
       (Inr (effective_record (m_clock m) (map_of (m_overlays m) (file_id f)) f), m1)" "minv R m1" "steady m m1"
    by (rule refresh_step[OF inv' f])
  let ?new = "effective_record (m_clock m) (map_of (m_overlays m) (file_id f)) f"
  obtain m2 where m2: "advance_version f m1 =
      (Inr (m_version m1 + 1, scope_version (fa_path_pair_id (attrs f)) m1 + 1), m2)" "minv R m2" "steady m1 m2"
    by (rule advance_step[OF m1(2), where f = f])
  let ?m3 = "notify_versioned_change f (m_version m1 + 1) (scope_version (fa_path_pair_id (attrs f)) m1 + 1) m2"
  show ?thesis
  proof (cases "opt_holds (\<lambda>p. mf_eq p ?new) (map_of (m_published m) fid)")
    case True
    then have "publish_retired fid m = (Inr (), m1)"
      using Some m1(1) by (simp add: publish_retired_def Let_def mbind_def mret_def)
    with m1 that show ?thesis by blast
  next
    case False
    then have "publish_retired fid m = (Inr (), ?m3)"
      using Some m1(1) m2(1) by (auto simp: publish_retired_def Let_def mbind_def mmod_def)
    moreover have "minv R ?m3" using m2(2) minv_quiet[OF quiet_notify(1)] by blast
    moreover have "steady m ?m3"
      by (rule steady_trans[OF steady_trans[OF m1(3) m2(3)] steady_quiet[OF quiet_notify(1)]])
    ultimately show ?thesis by (rule that)
  qed
qed

lemma publish_all_retired:
  assumes "minv (R \<union> set fids) m"
  shows "\<exists>m'. mfor fids publish_retired m = (Inr (), m') \<and> minv R m' \<and> steady m m'"
  using assms
proof (induction fids arbitrary: m)
  case (Cons fid fids)
  then have "minv (insert fid (R \<union> set fids)) m" by simp
  then obtain m1 where m1: "publish_retired fid m = (Inr (), m1)" "minv (R \<union> set fids) m1" "steady m m1"
    by (rule publish_retired_spec)
  with Cons.IH[OF m1(2)] steady_trans show ?case by (auto simp: mbind_def)
qed (simp add: mret_def)

lemma queue_correction_frame:
  "minv R (queue_correction p m) = minv R m" "advances m (queue_correction p m)"
  "m_suppress_clear (queue_correction p m) = m_suppress_clear m"
  "m_replacement_depth (queue_correction p m) = m_replacement_depth m"
  "m_base_fallbacks (queue_correction p m) = m_base_fallbacks m"
  by (simp_all add: queue_correction_def advances_same)

lemma fold_queue_correction:
  "(minv R (fold queue_correction ps m) = minv R m) \<and> advances m (fold queue_correction ps m) \<and>
   m_suppress_clear (fold queue_correction ps m) = m_suppress_clear m \<and>
   m_replacement_depth (fold queue_correction ps m) = m_replacement_depth m \<and>
   m_base_fallbacks (fold queue_correction ps m) = m_base_fallbacks m"
proof (induction ps arbitrary: m)
  case (Cons p ps)
  from Cons.IH[of "queue_correction p m"] show ?case
    using advances_trans[OF queue_correction_frame(2)[of m p]] by (simp add: queue_correction_frame)
qed simp

lemma fold_pop_retiring:
  "minv R m \<Longrightarrow>
   minv R (fold (\<lambda>fid m. m\<lparr>m_retiring_ids := dict_pop fid (m_retiring_ids m)\<rparr>) fids m) \<and>
   advances m (fold (\<lambda>fid m. m\<lparr>m_retiring_ids := dict_pop fid (m_retiring_ids m)\<rparr>) fids m) \<and>
   m_suppress_clear (fold (\<lambda>fid m. m\<lparr>m_retiring_ids := dict_pop fid (m_retiring_ids m)\<rparr>) fids m) = m_suppress_clear m \<and>
   m_replacement_depth (fold (\<lambda>fid m. m\<lparr>m_retiring_ids := dict_pop fid (m_retiring_ids m)\<rparr>) fids m) = m_replacement_depth m \<and>
   m_base_fallbacks (fold (\<lambda>fid m. m\<lparr>m_retiring_ids := dict_pop fid (m_retiring_ids m)\<rparr>) fids m) = m_base_fallbacks m"
proof (induction fids arbitrary: m)
  case (Cons fid fids)
  let ?m1 = "m\<lparr>m_retiring_ids := dict_pop fid (m_retiring_ids m)\<rparr>"
  have "minv R ?m1" using Cons.prems by (auto simp: minv_def published_ok_def split: if_splits)
  moreover have "advances m ?m1" by (rule advances_same) simp_all
  ultimately show ?case using Cons.IH[of ?m1] advances_trans by fastforce
qed simp

lemma end_retire_spec:
  assumes "minv (R \<union> set retired) m"
  obtains m' where "end_retire retired retained m = (Inr (), m')" "minv R m'" "advances m m'"
    "m_suppress_clear m' = m_suppress_clear m - 1" "m_replacement_depth m' = m_replacement_depth m"
    "m_base_fallbacks m' = m_base_fallbacks m"
proof -
  let ?m1 = "m\<lparr>m_suppress_clear := m_suppress_clear m - 1\<rparr>"
  have "minv (R \<union> set retired) ?m1" using assms by simp
  from publish_all_retired[OF this] obtain m2 where
    m2: "mfor retired publish_retired ?m1 = (Inr (), m2)" "minv R m2" "steady ?m1 m2" by blast
  let ?m3 = "fold queue_correction retained m2"
  let ?m4 = "fold (\<lambda>fid m. m\<lparr>m_retiring_ids := dict_pop fid (m_retiring_ids m)\<rparr>) retired ?m3"
  have q: "minv R ?m3" "advances m2 ?m3" "m_suppress_clear ?m3 = m_suppress_clear m2"
    "m_replacement_depth ?m3 = m_replacement_depth m2" "m_base_fallbacks ?m3 = m_base_fallbacks m2"
    using fold_queue_correction[of R retained m2] m2(2) by simp_all
  note p = fold_pop_retiring[OF q(1), of retired]
  have run: "end_retire retired retained m = (Inr (), ?m4)"
    using m2(1) by (simp add: end_retire_def mbind_def mmod_def)
  have "advances m ?m4"
    using advances_trans[OF advances_trans[OF advances_trans[OF advances_same[of ?m1 m] steadyD(13)[OF m2(3)]] q(2)]] p
    by simp
  then show thesis
    using p q(3-5) steadyD(8-10)[OF m2(3)] by (intro that[OF run]) simp_all
qed

lemma preserving_retained:
  assumes op: "preserving operation"
  shows "preserving (apply_with_active_progress_retained operation ids)"
proof (rule preservingI)
  fix R m assume inv: "minv R m"
  let ?retired = "sorted_list_of_set ids"
  let ?live = "filter (\<lambda>(fid, _). map_of (m_overlays m) fid \<noteq> None) (m_files m)"
  obtain gs where gs: "effective_files ?live m = (Inr gs, m)" using effective_files_total[OF inv] by blast
  let ?m1 = "fold begin_retire ?retired m"
  note b = fold_begin_retire[OF inv, of ?retired]
  let ?m2 = "?m1\<lparr>m_suppress_clear := m_suppress_clear ?m1 + 1\<rparr>"
  have i2: "minv (R \<union> set ?retired) ?m2" using b by simp
  obtain r m3 where o: "operation ?m2 = (r, m3)" by (cases "operation ?m2")
  note d = preservingD[OF op i2 o]
  obtain m4 where m4: "end_retire ?retired gs m3 = (Inr (), m4)" "minv R m4" "advances m3 m4"
    "m_suppress_clear m4 = m_suppress_clear m3 - 1" "m_replacement_depth m4 = m_replacement_depth m3"
    "m_base_fallbacks m4 = m_base_fallbacks m3"
    by (rule end_retire_spec[OF d(1)])
  have "apply_with_active_progress_retained operation ids m = (r, m4)"
    using gs o m4(1) by (simp add: apply_with_active_progress_retained_def Let_def mbind_def mmod_def mfinally_def)
  moreover have "advances m m4"
    using b advances_trans[OF advances_trans[OF advances_trans[OF _ advances_same[of ?m2 ?m1]] d(2)] m4(3)] by simp
  ultimately show "\<exists>r m'. apply_with_active_progress_retained operation ids m = (r, m') \<and> minv R m' \<and>
      advances m m' \<and> m_suppress_clear m' = m_suppress_clear m \<and>
      m_replacement_depth m' = m_replacement_depth m \<and> m_base_fallbacks m' = m_base_fallbacks m"
    using b d m4 by simp
qed

section \<open>Authoritative replacement\<close>

definition wf_statuses :: "(string, job_status) dict \<Rightarrow> bool" where
  "wf_statuses statuses \<longleftrightarrow>
     (\<forall>j\<in>snd ` set statuses. opt_nonneg (ts_speed (js_total j)) \<and> opt_nonneg (ts_eta (js_total j)))"

lemma rise_ranges:
  "opt_nonneg n \<Longrightarrow> opt_nonneg c \<Longrightarrow> opt_nonneg (rise n c)"
  "opt_percent n \<Longrightarrow> opt_percent c \<Longrightarrow> opt_percent (rise n c)"
  by (auto simp: rise_def opt_nonneg_def opt_percent_def split: option.splits)

lemma opt_nonneg_fallback: "opt_nonneg a \<Longrightarrow> opt_nonneg b \<Longrightarrow> opt_nonneg (case a of None \<Rightarrow> b | Some v \<Rightarrow> Some v)"
  by (auto split: option.splits)

lemma overlays_ok_set:
  assumes "overlays_ok ov ids ep" "wf_overlay v"
  shows "overlays_ok (dict_set fid v ov) ids ep"
proof -
  have "\<forall>w\<in>snd ` set ov. wf_overlay w" using assms(1) unfolding overlays_ok_def by (rule conjunct1)
  then have "\<forall>w\<in>snd ` set (dict_set fid v ov). wf_overlay w"
    using assms(2) snd_set_update[of fid v ov] by (metis insert_iff subsetD)
  moreover have "dom (map_of ov) \<subseteq> dom (map_of (dict_set fid v ov))" by auto
  ultimately show ?thesis using assms(1) unfolding overlays_ok_def by (meson order_trans subsetD)
qed

lemma republish_overlay:
  assumes "minv R m" "wf_overlay v"
  obtains m' where
    "mseq (mmod (\<lambda>m. m\<lparr>m_overlays := dict_set fid v (m_overlays m)\<rparr>)) (republish_root c x fid) m = (Inr (), m')"
    "minv R m'" "kept m m'"
proof -
  let ?m1 = "m\<lparr>m_overlays := dict_set fid v (m_overlays m)\<rparr>"
  have ok: "overlays_ok (dict_set fid v (m_overlays m)) (m_overlay_ids m) (m_overlay_epochs m)"
    using assms by (intro overlays_ok_set) (simp_all add: minv_def)
  have "minv (insert fid R) ?m1" using minv_overlays_change[OF assms(1) ok, of "{fid}"] by simp
  then obtain m2 where m2: "republish_root c x fid ?m1 = (Inr (), m2)" "steady ?m1 m2" "minv R m2"
    by (rule republish_root_spec)
  have "kept m ?m1" by (simp add: kept_def advances_same)
  then have "kept m m2" using kept_trans steady_kept[OF m2(2)] by blast
  with m2 that show thesis by (simp add: mbind_def mmod_def)
qed

lemma preserving_refresh_retained:
  assumes st: "wf_statuses statuses" and wf: "wf_overlay (snd p)"
  shows "preserving (refresh_retained statuses retire replaced p)"
proof (rule preserving_kept)
  fix R m assume inv: "minv R m"
  show "\<exists>r m'. refresh_retained statuses retire replaced p m = (r, m') \<and> minv R m' \<and> kept m m'"
  proof (cases "fst p \<in> retire \<or> map_of statuses (fst p) = None \<or> map_of (m_files m) (fst p) = None")
    case True
    then have "refresh_retained statuses retire replaced p m = (Inr (), m)"
      by (cases "map_of statuses (fst p)"; cases "map_of (m_files m) (fst p)")
        (auto simp: refresh_retained_def Let_def)
    with inv show ?thesis by simp
  next
    case False
    then obtain j f where jf: "fst p \<notin> retire" "map_of statuses (fst p) = Some j"
      "map_of (m_files m) (fst p) = Some f" by auto
    have wfa: "wf_attrs (attrs f)" using minv_root[OF inv jf(3)] by (simp add: root_file_def)
    have wfj: "opt_nonneg (ts_speed (js_total j))" "opt_nonneg (ts_eta (js_total j))"
      using st map_of_SomeD[OF jf(2)] by (force simp: wf_statuses_def)+
    let ?r = "\<lparr>ov_progress = rise (a_download_progress (attrs f)) (ov_progress (snd p)),
        ov_transferred = rise (a_transferred_size (attrs f)) (ov_transferred (snd p)),
        ov_speed = (case a_downloading_speed (attrs f) of None \<Rightarrow> ts_speed (js_total j) | Some v \<Rightarrow> Some v),
        ov_eta = (case a_eta (attrs f) of None \<Rightarrow> ts_eta (js_total j) | Some v \<Rightarrow> Some v)\<rparr>"
    have wfr: "wf_overlay ?r"
      using wf wf_attrs_values[OF wfa] wfj by (simp add: wf_overlay_def rise_ranges opt_nonneg_fallback)
    obtain m2 where m2: "mseq (mmod (\<lambda>m. m\<lparr>m_overlays := dict_set (fst p) ?r (m_overlays m)\<rparr>))
        (republish_root ''apply_authoritative_root_replacement'' None (fst p)) m = (Inr (), m2)"
      "minv R m2" "kept m m2"
      by (rule republish_overlay[OF inv wfr])
    have clr: "\<exists>r m'. mseq (clear_overlay_if_identity_matches (fst p) i) (mret ()) m = (r, m') \<and> minv R m' \<and> kept m m'" for i
      using clear_mismatches_spec[OF inv, of "[(fst p, i)]"] by (fastforce simp: mbind_def mret_def split: prod.splits sum.splits)
    show ?thesis
      using jf m2 clr inv unfolding refresh_retained_def Let_def
      by (cases "fst p \<in> replaced \<and> \<not> candidate_can_retain f"; cases "map_of (m_overlay_ids m) (fst p)";
          cases "?r = snd p") auto
  qed
qed

lemma preserving_replacement:
  assumes op: "preserving operation" and st: "wf_statuses statuses"
  shows "preserving (apply_authoritative_root_replacement operation statuses epoch_for)"
proof (rule preservingI)
  fix R m assume inv: "minv R m"
  let ?ret = "map fst (filter (\<lambda>(fid, i). must_retire statuses epoch_for m fid i) (m_overlay_ids m))"
  let ?m1 = "m\<lparr>m_base_fallbacks := base_fallbacks statuses ?ret m\<rparr>"
  let ?m2 = "?m1\<lparr>m_replacement_depth := m_replacement_depth ?m1 + 1\<rparr>"
  let ?op = "apply_with_active_progress_retained operation (set ?ret)"
  have i2: "minv R ?m2" using inv by simp
  obtain r m3 where o: "?op ?m2 = (r, m3)" by (cases "?op ?m2")
  note d = preservingD[OF preserving_retained[OF op] i2 o]
  let ?m4 = "m3\<lparr>m_replacement_depth := m_replacement_depth m3 - 1\<rparr>\<lparr>m_base_fallbacks := m_base_fallbacks m\<rparr>"
  have i4: "minv R ?m4" using d(1) by simp
  have a4: "advances m ?m4"
    using advances_trans[OF advances_trans[OF advances_same[of ?m2 m] d(2)] advances_same[of ?m4 m3]] by simp
  let ?loop = "mfor (m_overlays ?m4) (refresh_retained statuses (set ?ret) (replaced_ids (m_files m) ?m4))"
  have wf4: "wf_overlay (snd p)" if "p \<in> set (m_overlays ?m4)" for p
    using i4 that by (auto simp: minv_def overlays_ok_def)
  have pl: "preserving ?loop"
    by (rule preserving_for) (rule preserving_refresh_retained[OF st wf4])
  obtain r5 m5 where l: "?loop ?m4 = (r5, m5)" by (cases "?loop ?m4")
  note e = preservingD[OF pl i4 l]
  show "\<exists>r m'. apply_authoritative_root_replacement operation statuses epoch_for m = (r, m') \<and> minv R m' \<and>
      advances m m' \<and> m_suppress_clear m' = m_suppress_clear m \<and>
      m_replacement_depth m' = m_replacement_depth m \<and> m_base_fallbacks m' = m_base_fallbacks m"
  proof (cases r)
    case (Inl ex)
    then have "apply_authoritative_root_replacement operation statuses epoch_for m = (Inl ex, ?m4)"
      using o by (simp add: apply_authoritative_root_replacement_def Let_def mbind_def mmod_def mfinally_def)
    with i4 a4 d show ?thesis by simp
  next
    case (Inr x)
    then have "\<exists>r'. apply_authoritative_root_replacement operation statuses epoch_for m = (r', m5)"
      using o l
      by (cases r5) (simp_all add: apply_authoritative_root_replacement_def Let_def mbind_def mmod_def mfinally_def mret_def)
    with e d advances_trans[OF a4 e(2)] show ?thesis by auto
  qed
qed
end
