(* ===== verification/Keyed_Store.thy ===== *)
theory Keyed_Store
  imports Prelude
begin

text \<open>
  Two interfaces the components share.

  \<^item> \<open>invariant_system\<close>: a state machine with an invariant; what is reachable satisfies it.
  \<^item> \<open>keyed_store\<close>: a store of values under keys that the values carry themselves, with the laws of
    inserting, updating and deleting. The application of a diff (\<open>ModelDiff\<close> of
    \<open>model/diff.py\<close>) to such a store is verified once here, for every order of its changes.
\<close>

section \<open>State machines with an invariant\<close>

locale invariant_system =
  fixes init :: "'s \<Rightarrow> bool"
    and step :: "'s \<Rightarrow> 's \<Rightarrow> bool"
    and inv :: "'s \<Rightarrow> bool"
  assumes init_inv: "init s \<Longrightarrow> inv s"
    and step_inv: "inv s \<Longrightarrow> step s s' \<Longrightarrow> inv s'"
begin

lemma steps_inv: "rtranclp step s s' \<Longrightarrow> inv s \<Longrightarrow> inv s'"
  by (induction rule: rtranclp_induct) (auto intro: step_inv)

lemma reachable_inv: "init s \<Longrightarrow> rtranclp step s s' \<Longrightarrow> inv s'"
  using steps_inv init_inv by blast

end

section \<open>Diffs\<close>

datatype diff_change = ADDED | REMOVED | UPDATED

datatype 'v model_diff = ModelDiff (change: diff_change) (old_file: "'v option") (new_file: "'v option")

text \<open>The value a diff is about, and what it leaves under its key.\<close>

definition diff_subject :: "'v model_diff \<Rightarrow> 'v" where
  "diff_subject d = (case new_file d of Some v \<Rightarrow> v | None \<Rightarrow> the (old_file d))"

fun well_formed_diff :: "'v model_diff \<Rightarrow> bool" where
  "well_formed_diff (ModelDiff ADDED None (Some v)) = True"
| "well_formed_diff (ModelDiff REMOVED (Some v) None) = True"
| "well_formed_diff (ModelDiff UPDATED (Some u) (Some v)) = True"
| "well_formed_diff _ = False"

text \<open>A diff fits a lookup when what it adds is absent and what it removes or updates is present.\<close>

definition diff_fits :: "('v \<Rightarrow> 'k) \<Rightarrow> ('v \<Rightarrow> bool) \<Rightarrow> ('k \<Rightarrow> 'v option) \<Rightarrow> 'v model_diff \<Rightarrow> bool" where
  "diff_fits key good look d \<longleftrightarrow>
     well_formed_diff d \<and>
     (case change d of
        ADDED \<Rightarrow> good (diff_subject d) \<and> look (key (diff_subject d)) = None
      | REMOVED \<Rightarrow> look (key (diff_subject d)) \<noteq> None
      | UPDATED \<Rightarrow> good (diff_subject d) \<and> look (key (diff_subject d)) \<noteq> None)"

section \<open>Keyed stores\<close>

locale keyed_store =
  fixes inv :: "'s \<Rightarrow> bool"
    and look :: "'s \<Rightarrow> 'k \<Rightarrow> 'v option"
    and key :: "'v \<Rightarrow> 'k"
    and good :: "'v \<Rightarrow> bool"
    and ins :: "'v \<Rightarrow> 's \<Rightarrow> 'e + 's"
    and put :: "'v \<Rightarrow> 's \<Rightarrow> 'e + 's"
    and del :: "'k \<Rightarrow> 's \<Rightarrow> 'e + 's"
  assumes look_key: "inv s \<Longrightarrow> look s k = Some v \<Longrightarrow> key v = k \<and> good v"
    and ins_new: "inv s \<Longrightarrow> good v \<Longrightarrow> look s (key v) = None \<Longrightarrow>
      \<exists>s'. ins v s = Inr s' \<and> inv s' \<and> look s' = (look s)(key v \<mapsto> v)"
    and ins_old: "inv s \<Longrightarrow> good v \<Longrightarrow> look s (key v) \<noteq> None \<Longrightarrow> \<exists>e. ins v s = Inl e"
    and put_old: "inv s \<Longrightarrow> good v \<Longrightarrow> look s (key v) \<noteq> None \<Longrightarrow>
      \<exists>s'. put v s = Inr s' \<and> inv s' \<and> look s' = (look s)(key v \<mapsto> v)"
    and put_new: "inv s \<Longrightarrow> good v \<Longrightarrow> look s (key v) = None \<Longrightarrow> \<exists>e. put v s = Inl e"
    and del_old: "inv s \<Longrightarrow> look s k \<noteq> None \<Longrightarrow>
      \<exists>s'. del k s = Inr s' \<and> inv s' \<and> look s' = (look s)(k := None)"
begin

lemma ins_iff: "inv s \<Longrightarrow> good v \<Longrightarrow> (\<exists>s'. ins v s = Inr s') \<longleftrightarrow> look s (key v) = None"
  using ins_new ins_old by (metis Inl_Inr_False)

lemma ins_del:
  assumes "inv s" "good v" "look s (key v) = None"
  shows "\<exists>s1 s2. ins v s = Inr s1 \<and> del (key v) s1 = Inr s2 \<and> look s2 = look s"
proof -
  obtain s1 where s1: "ins v s = Inr s1" "inv s1" "look s1 = (look s)(key v \<mapsto> v)"
    using ins_new[OF assms] by blast
  then obtain s2 where "del (key v) s1 = Inr s2" "look s2 = (look s1)(key v := None)"
    using del_old[of s1 "key v"] by auto
  with s1 assms(3) show ?thesis by (auto simp: fun_upd_idem)
qed

definition apply_diff :: "'v model_diff \<Rightarrow> 's \<Rightarrow> 'e + 's" where
  "apply_diff d s =
     (case change d of
        ADDED \<Rightarrow> ins (diff_subject d) s
      | REMOVED \<Rightarrow> del (key (diff_subject d)) s
      | UPDATED \<Rightarrow> put (diff_subject d) s)"

fun apply_diffs :: "'v model_diff list \<Rightarrow> 's \<Rightarrow> 'e + 's" where
  "apply_diffs [] s = Inr s"
| "apply_diffs (d # ds) s = rbind (apply_diff d s) (apply_diffs ds)"

lemma apply_diff_ok:
  assumes "inv s" "diff_fits key good (look s) d"
  shows "\<exists>s'. apply_diff d s = Inr s' \<and> inv s' \<and> look s' = (look s)(key (diff_subject d) := new_file d)"
proof -
  let ?v = "diff_subject d"
  have wf: "well_formed_diff d" using assms(2) by (simp add: diff_fits_def)
  consider "change d = ADDED" "new_file d = Some ?v" "good ?v" "look s (key ?v) = None"
    | "change d = REMOVED" "new_file d = None" "look s (key ?v) \<noteq> None"
    | "change d = UPDATED" "new_file d = Some ?v" "good ?v" "look s (key ?v) \<noteq> None"
    using wf assms(2)
    by (cases d rule: well_formed_diff.cases) (auto simp: diff_fits_def diff_subject_def)
  then show ?thesis
    using ins_new[OF assms(1)] del_old[OF assms(1)] put_old[OF assms(1)]
    by cases (simp_all add: apply_diff_def)
qed

text \<open>Changes with distinct keys that fit the store apply without an error, in the order given,
  and leave under every key what the change of that key says.\<close>

lemma apply_diffs_ok:
  assumes "inv s" "\<And>d. d \<in> set ds \<Longrightarrow> diff_fits key good (look s) d"
    and "distinct (map (\<lambda>d. key (diff_subject d)) ds)"
  shows "\<exists>s'. apply_diffs ds s = Inr s' \<and> inv s' \<and>
    (\<forall>d\<in>set ds. look s' (key (diff_subject d)) = new_file d) \<and>
    (\<forall>k. k \<notin> (\<lambda>d. key (diff_subject d)) ` set ds \<longrightarrow> look s' k = look s k)"
  using assms
proof (induction ds arbitrary: s)
  case (Cons d ds)
  obtain s1 where s1: "apply_diff d s = Inr s1" "inv s1"
    "look s1 = (look s)(key (diff_subject d) := new_file d)"
    using apply_diff_ok[OF Cons.prems(1)] Cons.prems(2)[of d] by auto
  have "diff_fits key good (look s1) e" if "e \<in> set ds" for e
  proof -
    have "key (diff_subject e) \<noteq> key (diff_subject d)" using Cons.prems(3) that by simp (metis (mono_tags, lifting) imageI)
    then have "look s1 (key (diff_subject e)) = look s (key (diff_subject e))" by (simp add: s1(3))
    then show ?thesis using Cons.prems(2)[of e] that by (simp add: diff_fits_def split: diff_change.splits)
  qed
  from Cons.IH[OF s1(2) this] Cons.prems(3) obtain s2 where
    s2: "apply_diffs ds s1 = Inr s2" "inv s2" "\<forall>d\<in>set ds. look s2 (key (diff_subject d)) = new_file d"
      "\<forall>k. k \<notin> (\<lambda>d. key (diff_subject d)) ` set ds \<longrightarrow> look s2 k = look s1 k"
    by auto
  have "look s2 (key (diff_subject d)) = new_file d"
    using s2(4) Cons.prems(3) s1(3) by (auto simp: image_iff)
  with s1 s2 show ?case by (auto simp: image_iff)
qed simp

end

end
