(* ===== verification/Model_Diff.thy ===== *)
theory Model_Diff
  imports Model_Replacement Keyed_Store
begin

text \<open>
  \<open>model/diff.py\<close>: \<open>ModelDiffUtil.diff_models\<close>. The roots of a Model are a keyed store, which the
  interpretation \<open>model_store\<close> proves from the behaviour of \<open>add_file\<close>, \<open>update_file\<close> and
  \<open>remove_file\<close>; so a diff of two models, applied in any order, turns the one into the other.

  The source iterates sets of identities, in no particular order; the model takes the sorted order,
  and the theorem on applying a diff is about every permutation of it.
\<close>

section \<open>Diffing\<close>

fun collect_results :: "('a \<Rightarrow> 'b result) \<Rightarrow> 'a list \<Rightarrow> 'b list result" where
  "collect_results g [] = Inr []"
| "collect_results g (x # xs) = rbind (g x) (\<lambda>y. rbind (collect_results g xs) (\<lambda>ys. Inr (y # ys)))"

definition updated_diff :: "model_file \<Rightarrow> model_file \<Rightarrow> model_file model_diff list" where
  "updated_diff f g =
     (if fa_ident (attrs f) = fa_ident (attrs g) then []
      else if \<not> mf_eq f g then [ModelDiff UPDATED (Some f) (Some g)]
      else [])"

definition diff_models :: "model \<Rightarrow> model \<Rightarrow> model_file model_diff list result" where
  "diff_models before after =
     (let added = sorted_list_of_set (get_file_ids after - get_file_ids before);
          removed = sorted_list_of_set (get_file_ids before - get_file_ids after);
          both = sorted_list_of_set (get_file_ids before \<inter> get_file_ids after)
      in rbind (collect_results (\<lambda>fid. rbind (get_file fid after)
                   (\<lambda>f. Inr (ModelDiff ADDED None (Some f)))) added)
           (\<lambda>as. rbind (collect_results (\<lambda>fid. rbind (get_file fid before)
                          (\<lambda>f. Inr (ModelDiff REMOVED (Some f) None))) removed)
             (\<lambda>rs. rbind (collect_results (\<lambda>fid. rbind (get_file fid before)
                            (\<lambda>f. rbind (get_file fid after) (\<lambda>g. Inr (updated_diff f g)))) both)
               (\<lambda>us. Inr (as @ rs @ concat us)))))"

lemma collect_results_map: "(\<And>x. x \<in> set xs \<Longrightarrow> g x = Inr (h x)) \<Longrightarrow> collect_results g xs = Inr (map h xs)"
  by (induction xs) auto

lemma get_file_present: "map_of (m_files m) fid = Some f \<Longrightarrow> get_file fid m = Inr f"
  by (simp add: get_file_def resolve_file_id_def)

section \<open>The roots of a Model as a keyed store\<close>

definition outcome :: "unit mop \<Rightarrow> model \<Rightarrow> py_error + model" where
  "outcome p m = (case p m of (Inr _, m') \<Rightarrow> Inr m' | (Inl e, _) \<Rightarrow> Inl e)"

definition store_inv :: "model \<Rightarrow> bool" where
  "store_inv m \<longleftrightarrow> model_inv m \<and> m_base_fallbacks m = []"

lemma no_fallback: "m_base_fallbacks m = [] \<Longrightarrow> with_base_fallback f m = Inr f"
  by (simp add: with_base_fallback_def split: option.splits)

interpretation model_store: keyed_store store_inv "\<lambda>m. map_of (m_files m)" file_id root_file
  "\<lambda>f. outcome (add_file f None)" "\<lambda>f. outcome (update_file f None None)" "\<lambda>fid. outcome (remove_file fid)"
proof unfold_locales
  fix m k v assume "store_inv m" "map_of (m_files m) k = Some v"
  then show "file_id v = k \<and> root_file v" using minv_root[of "{}" m k v] by (simp add: store_inv_def)
next
  fix m v assume s: "store_inv m" and v: "root_file v" and n: "map_of (m_files m) (file_id v) = None"
  from s have "model_inv m" by (simp add: store_inv_def)
  then show "\<exists>m'. outcome (add_file v None) m = Inr m' \<and> store_inv m' \<and>
      map_of (m_files m') = (map_of (m_files m))(file_id v \<mapsto> v)"
    by (rule add_file_spec[OF _ v, where s = None]) (use s n in \<open>auto simp: outcome_def store_inv_def\<close>)
next
  fix m v assume s: "store_inv m" and v: "root_file v" and n: "map_of (m_files m) (file_id v) \<noteq> None"
  from s have "model_inv m" by (simp add: store_inv_def)
  then show "\<exists>e. outcome (add_file v None) m = Inl e"
    by (rule add_file_spec[OF _ v, where s = None]) (use n in \<open>auto simp: outcome_def\<close>)
next
  fix m v assume s: "store_inv m" and v: "root_file v" and n: "map_of (m_files m) (file_id v) \<noteq> None"
  from s have "model_inv m" by (simp add: store_inv_def)
  then show "\<exists>m'. outcome (update_file v None None) m = Inr m' \<and> store_inv m' \<and>
      map_of (m_files m') = (map_of (m_files m))(file_id v \<mapsto> v)"
    by (rule update_file_spec[OF _ v, where s = None and ctx = None])
      (use s n no_fallback[of m v] in \<open>auto simp: outcome_def store_inv_def\<close>)
next
  fix m v assume s: "store_inv m" and v: "root_file v" and n: "map_of (m_files m) (file_id v) = None"
  from s have "model_inv m" by (simp add: store_inv_def)
  then show "\<exists>e. outcome (update_file v None None) m = Inl e"
    by (rule update_file_spec[OF _ v, where s = None and ctx = None]) (use n in \<open>auto simp: outcome_def\<close>)
next
  fix m k assume s: "store_inv m" and n: "map_of (m_files m) k \<noteq> None"
  then have r: "resolve_file_id k m = Inr k" by (simp add: resolve_file_id_def)
  from s have "model_inv m" by (simp add: store_inv_def)
  then show "\<exists>m'. outcome (remove_file k) m = Inr m' \<and> store_inv m' \<and>
      map_of (m_files m') = (map_of (m_files m))(k := None)"
    by (rule remove_file_spec[where x = k]) (use s r in \<open>auto simp: outcome_def store_inv_def\<close>)
qed

section \<open>Replaying a diff\<close>

text \<open>The call on the live model that each change of a diff leads to.\<close>

definition replay_change :: "model_file model_diff \<Rightarrow> unit mop" where
  "replay_change d =
     (case change d of
        ADDED \<Rightarrow> add_file (the (new_file d)) None
      | REMOVED \<Rightarrow> remove_file (file_id (the (old_file d)))
      | UPDATED \<Rightarrow> update_file (the (new_file d)) None None)"

lemma outcome_mseq: "outcome (mseq p q) m = rbind (outcome p m) (outcome q)"
  by (simp add: outcome_def mbind_def split: prod.splits sum.splits)

lemma replay_is_apply:
  "list_all well_formed_diff ds \<Longrightarrow> outcome (mfor ds replay_change) m = model_store.apply_diffs ds m"
proof (induction ds arbitrary: m)
  case Nil
  have "outcome (mret ()) m = Inr m" by (simp add: outcome_def mret_def)
  then show ?case by simp
next
  case (Cons d ds)
  then have d: "outcome (replay_change d) m = model_store.apply_diff d m"
    by (cases d rule: well_formed_diff.cases)
      (auto simp: replay_change_def model_store.apply_diff_def diff_subject_def)
  have ds: "outcome (mfor ds replay_change) = model_store.apply_diffs ds"
    using Cons by (intro ext) simp
  show ?case by (simp add: outcome_mseq d ds)
qed

lemma diff_models_spec:
  "diff_models before after = Inr
     (map (\<lambda>k. ModelDiff ADDED None (map_of (m_files after) k)) (sorted_list_of_set (get_file_ids after - get_file_ids before)) @
      map (\<lambda>k. ModelDiff REMOVED (map_of (m_files before) k) None) (sorted_list_of_set (get_file_ids before - get_file_ids after)) @
      concat (map (\<lambda>k. updated_diff (the (map_of (m_files before) k)) (the (map_of (m_files after) k)))
        (sorted_list_of_set (get_file_ids before \<inter> get_file_ids after))))"
proof -
  have get: "get_file k m = Inr (the (map_of (m_files m) k)) \<and> map_of (m_files m) k \<noteq> None"
    if "k \<in> get_file_ids m" for k m
    using that map_of_in_iff[of "m_files m" k] get_file_present by (force simp: get_file_ids_def)
  have fin: "finite (get_file_ids m)" for m by (simp add: get_file_ids_def)
  have a: "collect_results (\<lambda>fid. rbind (get_file fid after) (\<lambda>f. Inr (ModelDiff ADDED None (Some f))))
      (sorted_list_of_set (get_file_ids after - get_file_ids before)) =
    Inr (map (\<lambda>k. ModelDiff ADDED None (map_of (m_files after) k)) (sorted_list_of_set (get_file_ids after - get_file_ids before)))"
    by (rule collect_results_map) (use get fin in force)
  have r: "collect_results (\<lambda>fid. rbind (get_file fid before) (\<lambda>f. Inr (ModelDiff REMOVED (Some f) None)))
      (sorted_list_of_set (get_file_ids before - get_file_ids after)) =
    Inr (map (\<lambda>k. ModelDiff REMOVED (map_of (m_files before) k) None) (sorted_list_of_set (get_file_ids before - get_file_ids after)))"
    by (rule collect_results_map) (use get fin in force)
  have u: "collect_results (\<lambda>fid. rbind (get_file fid before) (\<lambda>f. rbind (get_file fid after) (\<lambda>g. Inr (updated_diff f g))))
      (sorted_list_of_set (get_file_ids before \<inter> get_file_ids after)) =
    Inr (map (\<lambda>k. updated_diff (the (map_of (m_files before) k)) (the (map_of (m_files after) k)))
        (sorted_list_of_set (get_file_ids before \<inter> get_file_ids after)))"
    by (rule collect_results_map) (use get fin in force)
  show ?thesis unfolding diff_models_def Let_def a r u by simp
qed

text \<open>The keys of the changes of a diff: the identities that were added, removed, or changed.\<close>

definition changed_root :: "model \<Rightarrow> model \<Rightarrow> string \<Rightarrow> bool" where
  "changed_root before after k =
     (updated_diff (the (map_of (m_files before) k)) (the (map_of (m_files after) k)) \<noteq> [])"

lemma concat_updated:
  "concat (map (\<lambda>k. updated_diff (the (map_of (m_files before) k)) (the (map_of (m_files after) k))) ks) =
   map (\<lambda>k. ModelDiff UPDATED (Some (the (map_of (m_files before) k))) (Some (the (map_of (m_files after) k))))
     (filter (changed_root before after) ks)"
  by (induction ks) (auto simp: changed_root_def updated_diff_def)

lemma diff_models_fits:
  assumes b: "store_inv before" and a: "roots_ok (m_files after) (m_ordered after) (m_by_name after)"
    and d: "diff_models before after = Inr ds"
  shows "\<forall>d\<in>set ds. diff_fits file_id root_file (map_of (m_files before)) d"
    and "distinct (map (\<lambda>d. file_id (diff_subject d)) ds)"
    and "\<And>k. k \<in> (\<lambda>d. file_id (diff_subject d)) ` set ds \<longleftrightarrow>
      k \<in> get_file_ids after - get_file_ids before \<or> k \<in> get_file_ids before - get_file_ids after \<or>
      (k \<in> get_file_ids before \<inter> get_file_ids after \<and> changed_root before after k)"
    and "\<And>d. d \<in> set ds \<Longrightarrow> new_file d = map_of (m_files after) (file_id (diff_subject d))"
proof -
  have inB: "\<exists>f. map_of (m_files before) k = Some f \<and> file_id f = k \<and> root_file f" if "k \<in> get_file_ids before" for k
    using that map_of_in_iff[of "m_files before" k] minv_root[of "{}" before k] b
    by (auto simp: get_file_ids_def store_inv_def)
  have inA: "\<exists>f. map_of (m_files after) k = Some f \<and> file_id f = k \<and> root_file f" if "k \<in> get_file_ids after" for k
    using that map_of_in_iff[of "m_files after" k] a by (force simp: get_file_ids_def roots_ok_def)
  have out: "map_of (m_files m) k = None" if "k \<notin> get_file_ids m" for m k
    using that map_of_in_iff[of "m_files m" k] by (auto simp: get_file_ids_def)
  have fin: "finite (get_file_ids m)" for m by (simp add: get_file_ids_def)
  let ?added = "sorted_list_of_set (get_file_ids after - get_file_ids before)"
  let ?removed = "sorted_list_of_set (get_file_ids before - get_file_ids after)"
  let ?both = "filter (changed_root before after) (sorted_list_of_set (get_file_ids before \<inter> get_file_ids after))"
  let ?as = "map (\<lambda>k. ModelDiff ADDED None (map_of (m_files after) k)) ?added"
  let ?rs = "map (\<lambda>k. ModelDiff REMOVED (map_of (m_files before) k) None) ?removed"
  let ?us = "map (\<lambda>k. ModelDiff UPDATED (Some (the (map_of (m_files before) k))) (Some (the (map_of (m_files after) k)))) ?both"
  have ds: "ds = ?as @ ?rs @ ?us"
    using d diff_models_spec[of before after] by (simp add: concat_updated)
  have as: "well_formed_diff d \<and> change d = ADDED \<and> file_id (diff_subject d) = k \<and> root_file (diff_subject d) \<and>
      new_file d = map_of (m_files after) k"
    if "k \<in> get_file_ids after - get_file_ids before" "d = ModelDiff ADDED None (map_of (m_files after) k)" for k d
    using that inA[of k] by (auto simp: diff_subject_def)
  have rs: "well_formed_diff d \<and> change d = REMOVED \<and> file_id (diff_subject d) = k \<and> new_file d = map_of (m_files after) k"
    if "k \<in> get_file_ids before - get_file_ids after" "d = ModelDiff REMOVED (map_of (m_files before) k) None" for k d
    using that inB[of k] out[of k after] by (auto simp: diff_subject_def)
  have us: "well_formed_diff d \<and> change d = UPDATED \<and> file_id (diff_subject d) = k \<and> root_file (diff_subject d) \<and>
      new_file d = map_of (m_files after) k"
    if "k \<in> get_file_ids before \<inter> get_file_ids after"
      "d = ModelDiff UPDATED (Some (the (map_of (m_files before) k))) (Some (the (map_of (m_files after) k)))" for k d
    using that inA[of k] by (auto simp: diff_subject_def)
  have keys: "map (\<lambda>d. file_id (diff_subject d)) ds = ?added @ ?removed @ ?both"
  proof -
    have "map (\<lambda>d. file_id (diff_subject d)) ?as = ?added"
      unfolding map_map comp_def by (rule map_idI) (use as fin in auto)
    moreover have "map (\<lambda>d. file_id (diff_subject d)) ?rs = ?removed"
      unfolding map_map comp_def by (rule map_idI) (use rs fin in auto)
    moreover have "map (\<lambda>d. file_id (diff_subject d)) ?us = ?both"
      unfolding map_map comp_def by (rule map_idI) (use us fin in auto)
    ultimately show ?thesis unfolding ds by simp
  qed
  have elem: "(\<exists>k. k \<in> get_file_ids after - get_file_ids before \<and> d = ModelDiff ADDED None (map_of (m_files after) k)) \<or>
      (\<exists>k. k \<in> get_file_ids before - get_file_ids after \<and> d = ModelDiff REMOVED (map_of (m_files before) k) None) \<or>
      (\<exists>k. k \<in> get_file_ids before \<inter> get_file_ids after \<and>
        d = ModelDiff UPDATED (Some (the (map_of (m_files before) k))) (Some (the (map_of (m_files after) k))))"
    if "d \<in> set ds" for d
    using that fin unfolding ds by auto
  show "distinct (map (\<lambda>d. file_id (diff_subject d)) ds)"
    unfolding keys using fin by auto
  show "k \<in> (\<lambda>d. file_id (diff_subject d)) ` set ds \<longleftrightarrow>
      k \<in> get_file_ids after - get_file_ids before \<or> k \<in> get_file_ids before - get_file_ids after \<or>
      (k \<in> get_file_ids before \<inter> get_file_ids after \<and> changed_root before after k)" for k
    unfolding set_map[symmetric] keys using fin by auto
  show "\<forall>d\<in>set ds. diff_fits file_id root_file (map_of (m_files before)) d"
  proof
    fix d assume "d \<in> set ds"
    from elem[OF this] show "diff_fits file_id root_file (map_of (m_files before)) d"
    proof (elim disjE exE conjE)
      fix k assume "k \<in> get_file_ids after - get_file_ids before" "d = ModelDiff ADDED None (map_of (m_files after) k)"
      from as[OF this] this out[of k before] show ?thesis by (simp add: diff_fits_def)
    next
      fix k assume "k \<in> get_file_ids before - get_file_ids after" "d = ModelDiff REMOVED (map_of (m_files before) k) None"
      from rs[OF this] this inB[of k] show ?thesis by (auto simp: diff_fits_def)
    next
      fix k assume k: "k \<in> get_file_ids before \<inter> get_file_ids after"
        and d: "d = ModelDiff UPDATED (Some (the (map_of (m_files before) k))) (Some (the (map_of (m_files after) k)))"
      have "map_of (m_files before) k \<noteq> None" using k inB[of k] by auto
      with us[OF k d] show ?thesis by (simp add: diff_fits_def)
    qed
  qed
  show "new_file d = map_of (m_files after) (file_id (diff_subject d))" if "d \<in> set ds" for d
    using elem[OF that] as rs us by metis
qed

text \<open>Replaying the changes of a diff, in whatever order, gives the roots of the later model.\<close>

lemma replay_diff_models:
  assumes b: "store_inv before" and a: "roots_ok (m_files after) (m_ordered after) (m_by_name after)"
    and same: "\<And>k f g. map_of (m_files before) k = Some f \<Longrightarrow> map_of (m_files after) k = Some g \<Longrightarrow>
      fa_ident (attrs f) = fa_ident (attrs g) \<Longrightarrow> f = g"
    and d: "diff_models before after = Inr ds" and p: "mset ds' = mset ds"
  shows "\<exists>m'. outcome (mfor ds' replay_change) before = Inr m' \<and> store_inv m' \<and>
    (\<forall>k. rel_option mf_eq (map_of (m_files m') k) (map_of (m_files after) k))"
proof -
  note fits = diff_models_fits[OF b a d]
  have set: "set ds' = set ds" using p by (rule mset_eq_setD)
  have "mset (map (\<lambda>d. file_id (diff_subject d)) ds') = mset (map (\<lambda>d. file_id (diff_subject d)) ds)"
    using p by simp
  then have dist: "distinct (map (\<lambda>d. file_id (diff_subject d)) ds')"
    using fits(2) mset_eq_imp_distinct_iff by blast
  have wf: "list_all well_formed_diff ds'"
    using fits(1) set by (auto simp: list_all_iff diff_fits_def)
  obtain m' where m': "model_store.apply_diffs ds' before = Inr m'" "store_inv m'"
    "\<forall>d\<in>set ds. map_of (m_files m') (file_id (diff_subject d)) = new_file d"
    "\<forall>k. k \<notin> (\<lambda>d. file_id (diff_subject d)) ` set ds \<longrightarrow> map_of (m_files m') k = map_of (m_files before) k"
    using model_store.apply_diffs_ok[OF b _ dist] fits(1) set by auto
  have "rel_option mf_eq (map_of (m_files m') k) (map_of (m_files after) k)" for k
  proof (cases "k \<in> (\<lambda>d. file_id (diff_subject d)) ` set ds")
    case True
    then have "map_of (m_files m') k = map_of (m_files after) k" using m'(3) fits(4) by auto
    then show ?thesis by (cases "map_of (m_files after) k") simp_all
  next
    case False
    then have m'k: "map_of (m_files m') k = map_of (m_files before) k" using m'(4) by simp
    have dom: "map_of (m_files m) k \<noteq> None \<longleftrightarrow> k \<in> get_file_ids m" for m
      using map_of_in_iff[of "m_files m" k] by (simp add: get_file_ids_def)
    show ?thesis
    proof (cases "k \<in> get_file_ids before")
      case True
      then have A: "k \<in> get_file_ids after" and ch: "\<not> changed_root before after k"
        using False fits(3)[of k] by auto
      obtain f g where fg: "map_of (m_files before) k = Some f" "map_of (m_files after) k = Some g"
        using True A dom by blast
      with ch same[OF fg] have "mf_eq f g" by (auto simp: changed_root_def updated_diff_def split: if_splits)
      with fg m'k show ?thesis by simp
    next
      case nB: False
      then have "k \<notin> get_file_ids after" using False fits(3)[of k] by auto
      with nB dom m'k have "map_of (m_files m') k = None" "map_of (m_files after) k = None" by metis+
      then show ?thesis by simp
    qed
  qed
  with m' replay_is_apply[OF wf] show ?thesis by auto
qed

end
