(* ===== verification/Model_Api.thy ===== *)
theory Model_Api
  imports Model_Diff
begin

text \<open>
  The public methods of \<open>Model\<close> as one type of calls, the state machine they make up, and the
  properties of the reachable models. A call may run other calls
  (\<open>apply_with_active_progress_retained\<close>, \<open>apply_authoritative_root_replacement\<close>); a call that
  raises is a step too, from the model before it to the model it leaves.
\<close>

section \<open>Calls\<close>

datatype model_call =
    CAdd model_file "job_identity option"
  | CUpdate model_file "job_identity option" "pyval option"
  | CRemove string
  | CClear "pyval option" "string option"
  | CClearExcept "string set"
  | CClearIf string job_identity
  | CRestore "(string, overlay) dict" "(string, job_identity) dict"
  | CPublish "(string, overlay) dict" "(string, job_identity) dict" "string \<Rightarrow> bool"
      "(string \<Rightarrow> int option) option"
  | CRetained "model_call list" "string set"
  | CReplacement "model_call list" "(string, job_status) dict" "string \<Rightarrow> int option"
  | CConsumeIdentity string job_identity
  | CReplaceIdentity string job_identity
  | CAddListener listener
  | CRemoveListener listener
  | CTreeCount pyval
  | CTimestampGeneration pyval
  | CVersionCallback bool
  | CDiagnostics "string set" bool
  | CNotifySummary

fun run_call :: "model_call \<Rightarrow> unit mop" and run_calls :: "model_call list \<Rightarrow> unit mop" where
  "run_call (CAdd f s) = add_file f s"
| "run_call (CUpdate f s ctx) = update_file f s ctx"
| "run_call (CRemove x) = remove_file x"
| "run_call (CClear ctx fid) = clear_active_progress_overlays ctx fid"
| "run_call (CClearExcept keep) = mseq (clear_active_progress_overlays_except keep) (mret ())"
| "run_call (CClearIf fid i) = mseq (clear_overlay_if_identity_matches fid i) (mret ())"
| "run_call (CRestore ov ids) = mseq (restore_active_progress_overlays ov ids) (mret ())"
| "run_call (CPublish ov ids em ef) = mseq (publish_active_lftp_root_counters ov ids em ef) (mret ())"
| "run_call (CRetained cs ids) = apply_with_active_progress_retained (run_calls cs) ids"
| "run_call (CReplacement cs st ef) = apply_authoritative_root_replacement (run_calls cs) st ef"
| "run_call (CConsumeIdentity fid i) = mseq (clear_published_identity_if_matches fid i) (mret ())"
| "run_call (CReplaceIdentity fid i) = mseq (clear_published_identity_if_replaced fid i) (mret ())"
| "run_call (CAddListener l) = mmod (add_listener l)"
| "run_call (CRemoveListener l) = mmod (remove_listener l)"
| "run_call (CTreeCount v) = mmod (set_tree_file_count v)"
| "run_call (CTimestampGeneration v) = mmod (set_downloaded_timestamp_overlay_generation v)"
| "run_call (CVersionCallback b) = mmod (set_version_publication_callback b)"
| "run_call (CDiagnostics ls b) = mmod (set_completion_provenance_diagnostics ls b)"
| "run_call CNotifySummary = mmod notify_summary_changed"
| "run_calls [] = mret ()"
| "run_calls (c # cs) = mseq (run_call c) (run_calls cs)"

text \<open>What a caller owes: roots are roots with well-formed attributes, overlays and job statuses
  hold values in range.\<close>

fun call_ok :: "model_call \<Rightarrow> bool" where
  "call_ok (CAdd f s) = root_file f"
| "call_ok (CUpdate f s ctx) = root_file f"
| "call_ok (CRestore ov ids) = (\<forall>v\<in>snd ` set ov. wf_overlay v)"
| "call_ok (CPublish ov ids em ef) = (\<forall>v\<in>snd ` set ov. wf_overlay v)"
| "call_ok (CRetained cs ids) = list_all call_ok cs"
| "call_ok (CReplacement cs st ef) = (wf_statuses st \<and> list_all call_ok cs)"
| "call_ok _ = True"

section \<open>Every call keeps the invariant\<close>

lemma preserving_unit: "preserving p \<Longrightarrow> preserving (mseq p (mret x))"
  by (rule preserving_bind[OF _ preserving_ret])

lemma preserving_mod:
  assumes "\<And>R m. minv R m \<Longrightarrow> minv R (g m) \<and> kept m (g m)"
  shows "preserving (mmod g)"
  by (rule preserving_kept) (use assms in \<open>auto simp: mmod_def\<close>)

lemma preserving_fields:
  assumes "\<And>R m. minv R (g m) = minv R m"
    and "\<And>m. advances m (g m) \<and> m_suppress_clear (g m) = m_suppress_clear m \<and>
      m_replacement_depth (g m) = m_replacement_depth m \<and> m_base_fallbacks (g m) = m_base_fallbacks m"
  shows "preserving (mmod g)"
  by (rule preservingI) (use assms in \<open>auto simp: mmod_def\<close>)

lemma minv_pop_published_id: "minv R m \<Longrightarrow> minv R (m\<lparr>m_published_ids := dict_pop k (m_published_ids m)\<rparr>)"
  by (auto simp: minv_def published_ok_def split: if_splits)

lemma preserving_pop_published_id:
  "preserving (\<lambda>m. (r, record_provenance k a b c l sn g (m\<lparr>m_published_ids := dict_pop k (m_published_ids m)\<rparr>)))"
proof (rule preserving_kept)
  fix R m assume inv: "minv R m"
  let ?m1 = "m\<lparr>m_published_ids := dict_pop k (m_published_ids m)\<rparr>"
  have "kept ?m1 (record_provenance k a b c l sn g ?m1)"
    by (rule steady_kept[OF steady_quiet[OF quiet_record_provenance]])
  moreover have "kept m ?m1" by (simp add: kept_def advances_same)
  moreover have "minv R (record_provenance k a b c l sn g ?m1)"
    using minv_pop_published_id[OF inv] minv_quiet[OF quiet_record_provenance] by blast
  ultimately show "\<exists>r' m'. (r, record_provenance k a b c l sn g ?m1) = (r', m') \<and> minv R m' \<and> kept m m'"
    using kept_trans by blast
qed

lemma preserving_if_state:
  assumes "preserving p" "preserving q"
  shows "preserving (\<lambda>m. if b m then p m else q m)"
  using assms by (simp add: preserving_def)

lemma preserving_const: "preserving (\<lambda>m. (r, m))"
  by (simp add: preserving_def)

lemma preserving_consume: "preserving (clear_published_identity_if_matches k i)"
  unfolding clear_published_identity_if_matches_def[abs_def]
  by (intro preserving_if_state preserving_const preserving_pop_published_id)

lemma preserving_replace_identity: "preserving (clear_published_identity_if_replaced k i)"
proof (rule preservingI)
  fix R m assume inv: "minv R m"
  show "\<exists>r m'. clear_published_identity_if_replaced k i m = (r, m') \<and> minv R m' \<and> advances m m' \<and>
        m_suppress_clear m' = m_suppress_clear m \<and> m_replacement_depth m' = m_replacement_depth m \<and>
        m_base_fallbacks m' = m_base_fallbacks m"
  proof (cases "map_of (m_published_ids m) k")
    case None
    with inv show ?thesis by (simp add: clear_published_identity_if_replaced_def)
  next
    case (Some c)
    have p: "preserving (\<lambda>m. (Inr True, record_provenance k ''identity_replaced'' (Some c) None ''info'' None False
        (m\<lparr>m_published_ids := dict_pop k (m_published_ids m)\<rparr>)))"
      by (rule preserving_pop_published_id)
    show ?thesis
      using preservingD[OF p inv refl] inv Some
      by (simp add: clear_published_identity_if_replaced_def)
  qed
qed

lemma preserving_quiet: "quiet g \<Longrightarrow> preserving (mmod g)"
  by (rule preserving_mod) (simp add: minv_quiet steady_kept steady_quiet)

lemma preserving_call: "call_ok c \<Longrightarrow> preserving (run_call c)"
  and preserving_calls: "list_all call_ok cs \<Longrightarrow> preserving (run_calls cs)"
proof (induction c and cs rule: run_call_run_calls.induct)
  case (13 l)
  show ?case unfolding run_call.simps
    by (rule preserving_fields) (simp_all add: add_listener_def advances_same)
next
  case (14 l)
  show ?case unfolding run_call.simps
    by (rule preserving_fields) (simp_all add: remove_listener_def advances_same)
next
  case (15 v)
  show ?case unfolding run_call.simps
    by (rule preserving_fields) (simp_all add: set_tree_file_count_def advances_same)
next
  case (16 v)
  show ?case unfolding run_call.simps
    by (rule preserving_fields) (simp_all add: set_downloaded_timestamp_overlay_generation_def advances_same)
next
  case (17 b)
  show ?case unfolding run_call.simps
    by (rule preserving_fields) (simp_all add: set_version_publication_callback_def advances_same)
next
  case (18 ls b)
  show ?case unfolding run_call.simps
    by (rule preserving_fields) (simp_all add: set_completion_provenance_diagnostics_def advances_same)
qed (simp_all add: preserving_add_file preserving_update_file preserving_remove_file preserving_clear
    preserving_unit preserving_clear_except preserving_clear_if preserving_restore preserving_publish
    preserving_retained preserving_replacement preserving_consume preserving_replace_identity
    preserving_quiet quiet_notify preserving_ret preserving_bind)

section \<open>The state machine\<close>

inductive model_step :: "model \<Rightarrow> model \<Rightarrow> bool" where
  call: "call_ok c \<Longrightarrow> run_call c m = (r, m') \<Longrightarrow> model_step m m'"
| replace: "\<forall>v\<in>snd ` set ov. wf_overlay v \<Longrightarrow>
    (\<And>fid. map_of (m_files m) fid \<noteq> None \<Longrightarrow> map_of ov fid \<noteq> map_of (m_overlays m) fid \<Longrightarrow> fid \<in> changed) \<Longrightarrow>
    replace_active_progress_overlays ov changed m = (r, m') \<Longrightarrow> model_step m m'"
| tick: "model_step m (m\<lparr>m_clock := t\<rparr>)"

inductive_cases model_stepE: "model_step m m'"

definition model_init :: "model \<Rightarrow> bool" where
  "model_init m \<longleftrightarrow> (\<exists>t. m = new_model t)"

lemma model_step_inv_advances:
  assumes "model_inv m" "model_step m m'"
  shows "model_inv m' \<and> advances m m' \<and> m_suppress_clear m' = m_suppress_clear m \<and>
    m_replacement_depth m' = m_replacement_depth m \<and> m_base_fallbacks m' = m_base_fallbacks m"
  using assms(2)
proof cases
  case (call c r)
  show ?thesis using preservingD[OF preserving_call[OF call(1)] assms(1) call(2)] by simp
next
  case (replace ov changed r)
  obtain m2 r2 where m2: "replace_active_progress_overlays ov changed m = (Inr r2, m2)" "model_inv m2"
    and st: "steady (m\<lparr>m_overlays := ov, m_overlay_ids := [], m_overlay_epochs := []\<rparr>) m2"
    by (rule replace_active_progress_overlays_spec[OF assms(1) replace(1,2)])
  have "kept m m2" by (rule kept_trans[OF kept_overlays steady_kept[OF st]])
  with m2 replace(3) show ?thesis by (simp add: kept_def)
next
  case (tick t)
  then show ?thesis using assms(1) by (simp add: advances_same)
qed

interpretation model_machine: invariant_system model_init model_step
  "\<lambda>m. model_inv m \<and> m_suppress_clear m = 0 \<and> m_replacement_depth m = 0 \<and> m_base_fallbacks m = []"
proof unfold_locales
  fix m assume "model_init m"
  then show "model_inv m \<and> m_suppress_clear m = 0 \<and> m_replacement_depth m = 0 \<and> m_base_fallbacks m = []"
    by (auto simp: model_init_def minv_new) (simp_all add: new_model_def)
next
  fix m m'
  assume "model_inv m \<and> m_suppress_clear m = 0 \<and> m_replacement_depth m = 0 \<and> m_base_fallbacks m = []"
    and "model_step m m'"
  then show "model_inv m' \<and> m_suppress_clear m' = 0 \<and> m_replacement_depth m' = 0 \<and> m_base_fallbacks m' = []"
    using model_step_inv_advances[of m m'] by simp
qed

end
