(* ===== verification/Model_Properties.thy ===== *)
theory Model_Properties
  imports Model_Api
begin

text \<open>
  The properties of the Model that its clients rely on: what is reachable, what is published, what
  each method does on each branch, how the counters of LFTP jobs are admitted, and that a diff of two
  models turns the one into the other.
\<close>

declare split_paired_All [simp del] split_paired_Ex [simp del]

section \<open>Concrete roots\<close>

text \<open>Models and roots the witnesses are about.\<close>

definition sample_root :: "nat \<Rightarrow> string \<Rightarrow> model_file" where
  "sample_root i n = new_model_file i 0 n False"

lemma sample_root_root: "\<not> spelled_scoped n \<Longrightarrow> root_file (sample_root i n)"
  using wf_attrs_new[of i 0 n False]
  by (simp add: sample_root_def root_file_def plain_path_def new_model_file_def)

lemma sample_root_id: "file_id (sample_root i n) = n"
  by (simp add: sample_root_def file_id_def full_path_def new_model_file_def build_file_id_def)

lemma not_spelled_a: "\<not> spelled_scoped ''a''"
  by (simp add: spelled_scoped_def startswith_def)

lemma sample_step:
  obtains m where "model_step (new_model 0) m" "m_files m = [(''a'', sample_root 1 ''a'')]"
proof -
  have f: "root_file (sample_root 1 ''a'')" by (rule sample_root_root[OF not_spelled_a])
  obtain m where "add_file (sample_root 1 ''a'') None (new_model 0) = (Inr (), m)"
    "m_files m = [(''a'', sample_root 1 ''a'')]"
    by (rule add_file_spec[OF minv_new f, of 0 None]) (auto simp: new_model_def sample_root_id)
  moreover from this have "model_step (new_model 0) m"
    using model_step.call[of "CAdd (sample_root 1 ''a'') None"] f by simp
  ultimately show thesis using that by blast
qed

section \<open>Reachable models\<close>

text \<open>C1. Whatever public methods are called in whatever order, also nested ones and ones that raise,
  the Model's roots, indexes, version counters, overlays and publications stay consistent, and the
  modes that suppress clearing are left when no method is running.\<close>

theorem reachable_model_invariant:
  assumes "model_init m0" "rtranclp model_step m0 m"
  shows "model_inv m \<and> m_suppress_clear m = 0 \<and> m_replacement_depth m = 0 \<and> m_base_fallbacks m = []"
  using assms by (rule model_machine.reachable_inv)

theorem reachable_model_invariant_witness:
  "\<exists>m. rtranclp model_step (new_model 0) m \<and> m_files m = [(''a'', sample_root 1 ''a'')] \<and> model_inv m"
proof -
  obtain m where m: "model_step (new_model 0) m" "m_files m = [(''a'', sample_root 1 ''a'')]"
    by (rule sample_step)
  have "rtranclp model_step (new_model 0) m" using m(1) by (rule r_into_rtranclp)
  moreover have "model_init (new_model 0)" by (auto simp: model_init_def)
  ultimately show ?thesis using reachable_model_invariant m(2) by blast
qed

lemma copy_attrs_resume: "a_resume_checkpoint_present (copy_attrs a b) = a_resume_checkpoint_present a"
  by (simp add: copy_attrs_def Let_def runtime_getters)

lemma effective_attrs_marks:
  "a_resume_checkpoint_present (effective_attrs ov a) = a_resume_checkpoint_present a"
  "a_final_move_pending (effective_attrs ov a) = a_final_move_pending a"
  by (cases ov; simp add: effective_attrs_def runtime_getters)+

lemma effective_record_marks:
  "a_resume_checkpoint_present (attrs (effective_record now ov f)) = a_resume_checkpoint_present (attrs f)"
  "\<not> a_final_move_pending (attrs (effective_record now ov f))"
proof -
  show "a_resume_checkpoint_present (attrs (effective_record now ov f)) = a_resume_checkpoint_present (attrs f)"
    by (simp add: effective_record_def effective_attrs_marks copy_attrs_resume)
  have "\<not> a_final_move_pending (put_bool ''final_move_pending'' False (attrs f))" by (simp add: runtime_getters)
  then show "\<not> a_final_move_pending (attrs (effective_record now ov f))"
    using effective_record_comparison[of now ov f] by (simp add: comparison_attributes_def effective_attrs_marks)
qed

lemma published_effective:
  assumes "model_inv m" "map_of (m_files m) fid = Some f"
  shows "\<exists>p. fst (published_file_with_job_identity fid m) = Some p \<and> kids p = [] \<and> file_id p = fid \<and>
    a_resume_checkpoint_present (attrs p) = a_resume_checkpoint_present (attrs f) \<and> \<not> a_final_move_pending (attrs p) \<and>
    comparison_attributes (attrs p) =
      comparison_attributes (effective_attrs (map_of (m_overlays m) fid)
        (put_bool ''final_move_pending'' False (attrs f)))"
proof -
  obtain now where "map_of (m_published m) fid = Some (effective_record now (map_of (m_overlays m) fid) f)"
    using assms by (auto simp: minv_def coherent_def)
  moreover have "file_id f = fid" "fa_parent_path (attrs f) = None"
    using minv_root[OF assms] by (simp_all add: root_file_def)
  ultimately show ?thesis
    using effective_record_comparison[of now "map_of (m_overlays m) fid" f] effective_record_id[of f now]
      effective_record_marks[of now "map_of (m_overlays m) fid" f]
    by (simp add: published_file_with_job_identity_def) (simp add: effective_record_def)
qed

text \<open>C5. The record readers get for a root shows the root under its LFTP overlay in everything but the
  mark of a pending final move: every reachable model has a published record for every root, with
  the identity and the resume checkpoint of the root, equal to it in every compared attribute
  once the four counters of the overlay are written over the root and its pending mark is taken off.
  The mark itself is never published: a record says that no move is pending also when the root says one is.\<close>

theorem published_record_is_effective_but_for_pending_moves:
  assumes "model_init m0" "rtranclp model_step m0 m" "map_of (m_files m) fid = Some f"
  shows "\<exists>p. fst (published_file_with_job_identity fid m) = Some p \<and> kids p = [] \<and> file_id p = fid \<and>
    a_resume_checkpoint_present (attrs p) = a_resume_checkpoint_present (attrs f) \<and> \<not> a_final_move_pending (attrs p) \<and>
    comparison_attributes (attrs p) =
      comparison_attributes (effective_attrs (map_of (m_overlays m) fid)
        (put_bool ''final_move_pending'' False (attrs f)))"
  by (rule published_effective[OF _ assms(3)]) (use model_machine.reachable_inv[OF assms(1,2)] in blast)

theorem published_record_is_effective_but_for_pending_moves_witness:
  "\<exists>m p. rtranclp model_step (new_model 0) m \<and> fst (published_file_with_job_identity ''a'' m) = Some p \<and>
     file_id p = ''a''"
proof -
  obtain m where m: "model_step (new_model 0) m" "m_files m = [(''a'', sample_root 1 ''a'')]"
    by (rule sample_step)
  have r: "rtranclp model_step (new_model 0) m" using m(1) by (rule r_into_rtranclp)
  have i: "model_init (new_model 0)" by (auto simp: model_init_def)
  have f: "map_of (m_files m) ''a'' = Some (sample_root 1 ''a'')" using m(2) by simp
  from published_record_is_effective_but_for_pending_moves[OF i r f] r show ?thesis by blast
qed

section \<open>Roots\<close>

text \<open>\<open>add_file\<close> raises exactly when the identity is taken, and then changes no root. Otherwise
  the root is stored under its identity, every other root is untouched, it is published, and the
  global version and the version of its scope move forward.\<close>

theorem add_file_correct:
  assumes "model_inv m" "root_file f"
  shows "(map_of (m_files m) (file_id f) \<noteq> None \<longrightarrow>
      (\<exists>m'. add_file f s m = (Inl already_exists, m') \<and> model_inv m' \<and> m_files m' = m_files m)) \<and>
    (map_of (m_files m) (file_id f) = None \<longrightarrow>
      (\<exists>m' p. add_file f s m = (Inr (), m') \<and> model_inv m' \<and>
         m_files m' = dict_set (file_id f) f (m_files m) \<and>
         map_of (m_published m') (file_id f) = Some p \<and>
         m_version m < m_version m' \<and>
         scope_version (fa_path_pair_id (attrs f)) m < scope_version (fa_path_pair_id (attrs f)) m'))"
proof (rule add_file_spec[OF assms, of s])
  fix m' assume "map_of (m_files m) (file_id f) = None" "add_file f s m = (Inr (), m')" and i: "model_inv m'"
    and f: "m_files m' = dict_set (file_id f) f (m_files m)"
    and "m_version m < m_version m'"
      "scope_version (fa_path_pair_id (attrs f)) m < scope_version (fa_path_pair_id (attrs f)) m'"
  moreover have "\<exists>p. map_of (m_published m') (file_id f) = Some p"
    using published_effective[OF i, of "file_id f" f] f by (auto simp: published_file_with_job_identity_def)
  ultimately show ?thesis by auto
qed (auto simp: kept_def)

theorem add_file_correct_witness:
  "\<exists>m' p. add_file (sample_root 1 ''a'') None (new_model 0) = (Inr (), m') \<and>
     map_of (m_files m') ''a'' = Some (sample_root 1 ''a'') \<and> map_of (m_published m') ''a'' = Some p"
  using add_file_correct[OF minv_new sample_root_root[OF not_spelled_a], of 0 1 None]
  by (auto simp: new_model_def sample_root_id)

text \<open>\<open>update_file\<close> raises exactly when there is no root with that identity, and then changes no
  root. Otherwise it replaces that root and no other, with the candidate as given or with a
  transferred size taken from the replaced LFTP base, and versions move forward.\<close>

theorem update_file_correct:
  assumes "model_inv m" "root_file f"
  shows "(map_of (m_files m) (file_id f) = None \<longrightarrow>
      (\<exists>m'. update_file f s ctx m = (Inl does_not_exist, m') \<and> model_inv m' \<and> m_files m' = m_files m)) \<and>
    (map_of (m_files m) (file_id f) \<noteq> None \<longrightarrow>
      (\<exists>m' g. update_file f s ctx m = (Inr (), m') \<and> model_inv m' \<and>
         with_base_fallback f m = Inr g \<and> file_id g = file_id f \<and>
         (m_base_fallbacks m = [] \<longrightarrow> g = f) \<and>
         m_files m' = dict_set (file_id f) g (m_files m) \<and>
         m_version m < m_version m' \<and>
         scope_version (fa_path_pair_id (attrs f)) m < scope_version (fa_path_pair_id (attrs f)) m'))"
proof (rule update_file_spec[OF assms, of s ctx])
  fix g m' assume *: "map_of (m_files m) (file_id f) \<noteq> None" "with_base_fallback f m = Inr g"
    "update_file f s ctx m = (Inr (), m')" "model_inv m'"
    "m_files m' = dict_set (file_id f) g (m_files m)" "m_version m < m_version m'"
    "scope_version (fa_path_pair_id (attrs f)) m < scope_version (fa_path_pair_id (attrs f)) m'"
  moreover have "file_id g = file_id f"
    using *(2) by (rule_tac with_base_fallback_spec[OF assms(2), of m]) simp
  moreover have "m_base_fallbacks m = [] \<longrightarrow> g = f" using *(2) no_fallback by auto
  ultimately show ?thesis by auto
qed (auto simp: kept_def)

lemma sample_model:
  obtains m where "model_inv m" "m_files m = [(''a'', sample_root 1 ''a'')]" "m_base_fallbacks m = []"
  using sample_step model_step_inv_advances[OF minv_new, of 0] by (metis model.select_convs(15) new_model_def)

theorem update_file_correct_witness:
  "\<exists>m m'. update_file (sample_root 2 ''a'') None None m = (Inr (), m') \<and>
     m_files m = [(''a'', sample_root 1 ''a'')] \<and> m_files m' = [(''a'', sample_root 2 ''a'')]"
proof -
  obtain m where m: "model_inv m" "m_files m = [(''a'', sample_root 1 ''a'')]" "m_base_fallbacks m = []"
    by (rule sample_model)
  from update_file_correct[OF m(1) sample_root_root[OF not_spelled_a], of 2 None None] m show ?thesis
    by (auto simp: sample_root_id)
qed

text \<open>\<open>remove_file\<close> raises exactly when the identifier does not resolve, and then changes no root.
  Otherwise the resolved root, and only it, is gone, with its publication, and versions move forward.\<close>

theorem remove_file_correct:
  assumes "model_inv m"
  shows "(\<forall>e. resolve_file_id x m = Inl e \<longrightarrow>
      (\<exists>m'. remove_file x m = (Inl e, m') \<and> model_inv m' \<and> m_files m' = m_files m)) \<and>
    (\<forall>fid. resolve_file_id x m = Inr fid \<longrightarrow>
      (\<exists>m'. remove_file x m = (Inr (), m') \<and> model_inv m' \<and> map_of (m_files m) fid \<noteq> None \<and>
         m_files m' = dict_pop fid (m_files m) \<and> map_of (m_published m') fid = None \<and>
         map_of (m_published_ids m') fid = None \<and> m_version m < m_version m'))"
proof (rule remove_file_spec[OF assms, of x])
  fix fid f m' assume *: "resolve_file_id x m = Inr fid" "map_of (m_files m) fid = Some f"
    "remove_file x m = (Inr (), m')" "model_inv m'" "m_files m' = dict_pop fid (m_files m)"
    "m_version m < m_version m'"
  have "map_of (m_files m') fid = None" using *(5) by simp
  then have "map_of (m_published m') fid = None"
    using *(4) by (auto simp: minv_def published_ok_def)
  moreover from this have "map_of (m_published_ids m') fid = None"
    using *(4) by (cases "map_of (m_published_ids m') fid") (auto simp: minv_def published_ok_def)
  ultimately show ?thesis using * by auto
qed (auto simp: kept_def)

theorem remove_file_correct_witness:
  "\<exists>m m'. m_files m = [(''a'', sample_root 1 ''a'')] \<and> remove_file ''a'' m = (Inr (), m') \<and> m_files m' = []"
proof -
  obtain m where m: "model_inv m" "m_files m = [(''a'', sample_root 1 ''a'')]" "m_base_fallbacks m = []"
    by (rule sample_model)
  from remove_file_correct[OF m(1), of "''a''"] m show ?thesis by (auto simp: resolve_file_id_def)
qed

section \<open>Reading\<close>

lemma ids_by_name_finite: "finite (ids_by_name files n)"
  by (rule finite_subset[of _ "dom (map_of files)"]) (auto simp: ids_by_name_def finite_dom_map_of)

text \<open>A lookup by identifier: an identity wins over a name; a name finds the one root that bears
  it, fails as ambiguous when several do, and as missing when none does.\<close>

theorem get_file_by_identity_or_name:
  assumes "model_inv m"
  shows "get_file x m =
    (case map_of (m_files m) x of
       Some f \<Rightarrow> Inr f
     | None \<Rightarrow> if ids_by_name (m_files m) x = {} then Inl does_not_exist
               else if card (ids_by_name (m_files m) x) > 1 then Inl lookup_ambiguous
               else Inr (the (map_of (m_files m) (the_elem (ids_by_name (m_files m) x)))))"
proof (cases "map_of (m_files m) x")
  case (Some f)
  then show ?thesis by (simp add: get_file_present)
next
  case None
  have idx: "map_of (m_by_name m) x = some_nonempty (ids_by_name (m_files m) x)"
    using assms by (simp add: minv_def roots_ok_def)
  show ?thesis
  proof (cases "ids_by_name (m_files m) x = {} \<or> card (ids_by_name (m_files m) x) > 1")
    case True
    with None idx show ?thesis by (auto simp: get_file_def resolve_file_id_def some_nonempty_def)
  next
    case False
    then have "resolve_file_id x m = Inr (the_elem (ids_by_name (m_files m) x))"
      using None idx by (simp add: resolve_file_id_def some_nonempty_def)
    then obtain f where "map_of (m_files m) (the_elem (ids_by_name (m_files m) x)) = Some f"
      by (rule resolve_in_files[OF assms])
    with None False idx show ?thesis by (simp add: get_file_def resolve_file_id_def some_nonempty_def)
  qed
qed

theorem get_file_by_identity_or_name_witness:
  "\<exists>m. m_files m = [(''a'', sample_root 1 ''a'')] \<and> get_file ''a'' m = Inr (sample_root 1 ''a'') \<and>
     get_file ''b'' m = Inl does_not_exist"
proof -
  obtain m where m: "model_inv m" "m_files m = [(''a'', sample_root 1 ''a'')]" "m_base_fallbacks m = []"
    by (rule sample_model)
  have "ids_by_name (m_files m) ''b'' = {}"
    by (auto simp: m(2) ids_by_name_def sample_root_def new_model_file_def)
  with get_file_by_identity_or_name[OF m(1), of "''a''"] get_file_by_identity_or_name[OF m(1), of "''b''"] m(2)
  show ?thesis by auto
qed

text \<open>\<open>iter_files_by_id\<close>, which sorts nothing, yields every root exactly once, in the order of the
  identities.\<close>

theorem iter_files_by_id_sorted:
  assumes "model_inv m"
  shows "\<exists>fs. iter_files_by_id m = map Some fs \<and> sorted (map file_id fs) \<and> distinct (map file_id fs) \<and>
    set fs = set (iter_files m)"
proof -
  let ?fs = "map (\<lambda>k. the (map_of (m_files m) k)) (m_ordered m)"
  have r: "dict_ok (m_files m)" "sorted (m_ordered m)" "distinct (m_ordered m)"
    "set (m_ordered m) = fst ` set (m_files m)"
    using assms by (simp_all add: minv_def roots_ok_def)
  have at: "map_of (m_files m) k = Some (the (map_of (m_files m) k)) \<and> file_id (the (map_of (m_files m) k)) = k"
    if "k \<in> set (m_ordered m)" for k
    using that r(4) map_of_in_iff[of "m_files m" k] minv_root[OF assms, of k] by auto
  have "iter_files_by_id m = map Some ?fs" using at by (simp add: iter_files_by_id_def)
  moreover have "map file_id ?fs = m_ordered m" using at by (simp add: map_idI comp_def)
  moreover have "set ?fs = set (iter_files m)"
  proof
    show "set ?fs \<subseteq> set (iter_files m)" 
      using at map_of_SomeD[of "m_files m"] by (fastforce simp: iter_files_def intro: rev_image_eqI)
    show "set (iter_files m) \<subseteq> set ?fs"
    proof
      fix f assume "f \<in> set (iter_files m)"
      then obtain k where k: "(k, f) \<in> set (m_files m)" by (auto simp: iter_files_def)
      then have "map_of (m_files m) k = Some f" using r(1) by simp
      moreover have "k \<in> set (m_ordered m)" using k r(4) by force
      ultimately show "f \<in> set ?fs" by force
    qed
  qed
  ultimately show ?thesis using r by metis
qed

theorem iter_files_by_id_sorted_witness:
  "\<exists>m fs. m_files m = [(''a'', sample_root 1 ''a'')] \<and> iter_files_by_id m = map Some fs \<and> set fs = {sample_root 1 ''a''}"
proof -
  obtain m where m: "model_inv m" "m_files m = [(''a'', sample_root 1 ''a'')]" "m_base_fallbacks m = []"
    by (rule sample_model)
  from iter_files_by_id_sorted[OF m(1)] m(2) show ?thesis by (auto simp: iter_files_def)
qed

section \<open>Versions\<close>

text \<open>Version counters never move back over any step, and the global version always is the sum of
  the versions of the scopes.\<close>

theorem versions_monotone_and_summed:
  assumes "model_init m0" "rtranclp model_step m0 m" "model_step m m'"
  shows "m_version m \<le> m_version m' \<and> (\<forall>s. scope_version s m \<le> scope_version s m') \<and>
    m_version m' = sum_list (map snd (m_scope_versions m'))"
  using model_step_inv_advances[OF _ assms(3)] model_machine.reachable_inv[OF assms(1,2)]
  by (auto simp: advances_def minv_def versions_ok_def)

theorem versions_monotone_and_summed_witness:
  "\<exists>m. model_step (new_model 0) m \<and> m_files m = [(''a'', sample_root 1 ''a'')] \<and>
     m_version m = sum_list (map snd (m_scope_versions m))"
proof -
  obtain m where m: "model_step (new_model 0) m" "m_files m = [(''a'', sample_root 1 ''a'')]"
    by (rule sample_step)
  have "model_init (new_model 0)" by (auto simp: model_init_def)
  from versions_monotone_and_summed[OF this rtranclp.rtrancl_refl m(1)] m show ?thesis by blast
qed

section \<open>Counters of LFTP jobs\<close>

lemma admit_all_rejected:
  "(k, ov) \<in> set d \<Longrightarrow> adm k ov = Rejected r \<Longrightarrow> \<exists>r'. admit_all adm d = Inl r'"
proof (induction d)
  case (Cons p d)
  then show ?case by (cases p; cases "adm (fst p) (snd p)") auto
qed simp

text \<open>Admission of counters fails closed: when one reported counter is rejected, none of the
  report is shown and every counter shown before is withdrawn, while the roots stay.\<close>

theorem rejected_counters_fail_closed:
  assumes "model_inv m" "m_suppress_clear m = 0" "(fid, ov) \<in> set overlays"
    and "admit_counter m epoch_matches epoch_for fid ov (map_of ids fid) = Rejected reason"
  shows "\<exists>reason' m'. publish_active_lftp_root_counters overlays ids epoch_matches epoch_for m = (Inr ({}, reason'), m') \<and>
    m_overlays m' = [] \<and> m_overlay_ids m' = [] \<and> m_overlay_epochs m' = [] \<and> m_files m' = m_files m \<and> model_inv m'"
proof -
  obtain r' where r': "admit_all (\<lambda>fid ov. admit_counter m epoch_matches epoch_for fid ov (map_of ids fid)) overlays = Inl r'"
    using admit_all_rejected[OF assms(3), of "\<lambda>fid ov. admit_counter m epoch_matches epoch_for fid ov (map_of ids fid)"]
      assms(4) by blast
  obtain m' where m': "clear_active_progress_overlays None None m = (Inr (), m')" "model_inv m'"
    "steady (if m_suppress_clear m \<noteq> 0 then m
      else m\<lparr>m_overlays := [], m_overlay_ids := [], m_overlay_epochs := []\<rparr>) m'"
    by (rule clear_active_progress_overlays_spec[OF assms(1)])
  have "publish_active_lftp_root_counters overlays ids epoch_matches epoch_for m = (Inr ({}, r'), m')"
    using r' m'(1) by (simp add: publish_active_lftp_root_counters_def mbind_def mret_def)
  moreover have "m_overlays m' = []" "m_overlay_ids m' = []" "m_overlay_epochs m' = []" "m_files m' = m_files m"
    using steadyD[OF m'(3)] assms(2) by simp_all
  ultimately show ?thesis using m'(2) by blast
qed

definition no_counters :: overlay where
  "no_counters = \<lparr>ov_progress = None, ov_transferred = None, ov_speed = None, ov_eta = None\<rparr>"

theorem rejected_counters_fail_closed_witness:
  "\<exists>reason m'. publish_active_lftp_root_counters [(''a'', no_counters)] [] (\<lambda>_. True) None (new_model 0) =
     (Inr ({}, reason), m') \<and> m_overlays m' = []"
  using rejected_counters_fail_closed[OF minv_new, of 0 "''a''" no_counters "[(''a'', no_counters)]" "\<lambda>_. True" None "[]"
      "''job_identity''"]
  by (auto simp: new_model_def admit_counter_def)

definition rejected_in :: "string set \<Rightarrow> admission \<Rightarrow> bool" where
  "rejected_in S a = (case a of Rejected r \<Rightarrow> r \<in> S | _ \<Rightarrow> True)"

lemma rejected_in_if: "rejected_in S x \<Longrightarrow> rejected_in S y \<Longrightarrow> rejected_in S (if b then x else y)"
  by simp

lemma rejected_in_simps [simp]:
  "rejected_in S (Rejected r) = (r \<in> S)" "rejected_in S (Stale p)" "rejected_in S (Admitted v i)"
  by (simp_all add: rejected_in_def)

lemma admit_counter_reasons:
  "rejected_in {''job_identity'', ''lifecycle_epoch'', ''root_authority''} (admit_counter m em ef fid ov i)"
  unfolding admit_counter_def Let_def
  by (cases i; cases "map_of (m_files m) fid"; cases "map_of (m_overlay_ids m) fid";
      simp only: prod.case option.case; (intro rejected_in_if)?; simp)

lemma admit_all_reasons:
  "(\<And>k ov. rejected_in S (adm k ov)) \<Longrightarrow> admit_all adm d = Inl r \<Longrightarrow> r \<in> S"
proof (induction d)
  case (Cons p d)
  obtain k ov where p: "p = (k, ov)" by (cases p)
  show ?case
  proof (cases "adm k ov")
    case (Rejected q)
    with Cons.prems p show ?thesis using Cons.prems(1)[of k ov] by simp
  next
    case (Stale q)
    with Cons p show ?thesis by (cases "admit_all adm d") auto
  next
    case (Admitted v i)
    with Cons p show ?thesis by (cases "admit_all adm d") auto
  qed
qed simp

lemma accepted_counters:
  assumes inv: "model_inv m" and wf: "\<forall>v\<in>snd ` set overlays. wf_overlay v"
    and run: "publish_active_lftp_root_counters overlays ids em ef m = (Inr (changed, ''accepted''), m')"
  shows "\<exists>ns nids ps. admit_all (\<lambda>fid ov. admit_counter m em ef fid ov (map_of ids fid)) overlays =
      Inr (ns, nids, ps, False) \<and> m_overlays m' = ns \<and> m_overlay_ids m' = nids"
proof (cases "admit_all (\<lambda>fid ov. admit_counter m em ef fid ov (map_of ids fid)) overlays")
  case (Inl r)
  have "r \<noteq> ''accepted''" using admit_all_reasons[OF admit_counter_reasons Inl] by auto
  moreover obtain m2 where "clear_active_progress_overlays None None m = (Inr (), m2)" "model_inv m2" "kept m m2"
    by (rule clear_step[OF inv])
  ultimately show ?thesis
    using run Inl by (simp add: publish_active_lftp_root_counters_def mbind_def mret_def)
next
  case (Inr q)
  obtain ns nids ps rej where q: "q = (ns, nids, ps, rej)" by (cases q)
  show ?thesis
  proof (cases rej)
    case True
    obtain m2 where "mfor (sort_key fst ps) (\<lambda>(fid, p). mseq (clear_overlay_if_identity_matches fid p) (mret ())) m
        = (Inr (), m2)" "model_inv m2" "kept m m2"
      by (rule clear_mismatches_spec[OF inv])
    with run Inr q True show ?thesis by (simp add: publish_active_lftp_root_counters_def mbind_def mret_def)
  next
    case False
    have ok: "overlays_ok ns nids (next_epochs ef ns)"
      by (rule publish_accepted_overlays_ok[OF inv wf]) (use Inr q False in auto)
    let ?ch = "changed_overlay_ids ns nids m"
    obtain m2 where m2: "mseq (mmod (\<lambda>m. m\<lparr>m_overlays := ns, m_overlay_ids := nids, m_overlay_epochs := next_epochs ef ns\<rparr>))
       (mseq (mfor ?ch (republish_root ''publish_active_lftp_root_counters'' None)) (mret (set ?ch, ''accepted''))) m
       = (Inr (set ?ch, ''accepted''), m2)"
      and st: "steady (m\<lparr>m_overlays := ns, m_overlay_ids := nids, m_overlay_epochs := next_epochs ef ns\<rparr>) m2"
      by (rule install_overlays[OF inv ok changed_overlay_ids_cover])
    have "m' = m2" using run Inr q False m2 by (simp add: publish_active_lftp_root_counters_def Let_def)
    with steadyD[OF st] Inr q False show ?thesis by simp
  qed
qed

definition admitted_as :: "(overlay \<Rightarrow> job_identity \<Rightarrow> bool) \<Rightarrow> admission \<Rightarrow> bool" where
  "admitted_as P a = (case a of Admitted v i \<Rightarrow> P v i | _ \<Rightarrow> True)"

lemma admitted_as_simps [simp]:
  "admitted_as P (Rejected r)" "admitted_as P (Stale p)" "admitted_as P (Admitted v i) = P v i"
  by (simp_all add: admitted_as_def)

lemma admitted_as_if:
  "(b \<Longrightarrow> admitted_as P x) \<Longrightarrow> (\<not> b \<Longrightarrow> admitted_as P y) \<Longrightarrow> admitted_as P (if b then x else y)"
  by simp

lemma admit_counter_same_job:
  assumes "map_of (m_overlay_ids m) fid = Some p" "map_of (m_overlays m) fid = Some prior"
  shows "admitted_as (\<lambda>v j. j = p \<and> v = merge_overlay prior ov) (admit_counter m em ef fid ov i)"
  unfolding admit_counter_def Let_def
  by (cases i; cases "map_of (m_files m) fid"; simp only: prod.case option.case assms;
      (intro admitted_as_if)?; simp)

text \<open>While one LFTP job runs, a late report with smaller positive counters never moves the
  shown progress back: after an accepted report the shown counter is the larger of the two, and the
  job shown is still the same.\<close>

theorem counters_of_one_job_do_not_regress:
  assumes "model_inv m" "\<forall>v\<in>snd ` set overlays. wf_overlay v"
    and "publish_active_lftp_root_counters overlays ids epoch_matches epoch_for m = (Inr (changed, ''accepted''), m')"
    and "map_of (m_overlay_ids m) fid = Some job" "map_of (m_overlays m) fid = Some prior"
    and "map_of overlays fid = Some reported"
  shows "map_of (m_overlay_ids m') fid = Some job \<and>
    (\<exists>shown. map_of (m_overlays m') fid = Some shown \<and>
       (\<forall>p n. ov_transferred prior = Some p \<longrightarrow> ov_transferred reported = Some n \<longrightarrow> 0 < n \<longrightarrow>
          ov_transferred shown = Some (max n p)) \<and>
       (\<forall>p n. ov_progress prior = Some p \<longrightarrow> ov_progress reported = Some n \<longrightarrow> 0 < n \<longrightarrow>
          ov_progress shown = Some (max n p)) \<and>
       ov_speed shown = ov_speed reported \<and> ov_eta shown = ov_eta reported)"
proof -
  let ?adm = "\<lambda>fid ov. admit_counter m epoch_matches epoch_for fid ov (map_of ids fid)"
  obtain ns nids ps where acc: "admit_all ?adm overlays = Inr (ns, nids, ps, False)"
    and m': "m_overlays m' = ns" "m_overlay_ids m' = nids"
    using accepted_counters[OF assms(1-3)] by blast
  note acc' = admit_all_accepted[OF acc]
  obtain v j where a: "?adm fid reported = Admitted v j"
    using acc' map_of_SomeD[OF assms(6)] by auto
  have vj: "j = job" "v = merge_overlay prior reported"
    using admit_counter_same_job[OF assms(4,5), of reported epoch_matches epoch_for "map_of ids fid"] a by simp_all
  have "map_of ns fid = map_option (\<lambda>o'. admitted_overlay (?adm fid o')) (map_of overlays fid)"
    using acc' map_of_keyed[of "\<lambda>k v. admitted_overlay (?adm k v)"] by simp
  moreover have "map_of nids fid = map_option (\<lambda>o'. admitted_identity (?adm fid o')) (map_of overlays fid)"
    using acc' map_of_keyed[of "\<lambda>k v. admitted_identity (?adm k v)"] by simp
  ultimately show ?thesis
    using a vj m' assms(6)
    by (simp add: admitted_overlay_def admitted_identity_def merge_overlay_def keep_counter_def)
qed

definition live_root :: model_file where
  "live_root = upd (\<lambda>a. put_bool ''is_stoppable'' True (a\<lparr>fa_state := DOWNLOADING\<rparr>)) (sample_root 1 ''a'')"

definition sample_counters :: "int \<Rightarrow> overlay" where
  "sample_counters n = \<lparr>ov_progress = Some 10, ov_transferred = Some n, ov_speed = None, ov_eta = None\<rparr>"

definition sample_report :: "int \<Rightarrow> (string set \<times> string) mop" where
  "sample_report n = publish_active_lftp_root_counters [(''a'', sample_counters n)] [(''a'', (1, ''mirror''))]
     (\<lambda>_. True) None"

definition live_model :: model where
  "live_model = snd (sample_report 5 (snd (add_file live_root None (new_model 0))))"

lemma wf_sample_counters: "0 \<le> n \<Longrightarrow> \<forall>v\<in>snd ` set [(''a'', sample_counters n)]. wf_overlay v"
  by (simp add: sample_counters_def wf_overlay_def opt_percent_def opt_nonneg_def)

lemma live_root_root: "root_file live_root"
proof -
  have "wf_attrs (put_bool ''is_stoppable'' True ((attrs (sample_root 1 ''a''))\<lparr>fa_state := DOWNLOADING\<rparr>))"
    by (rule wf_attrs_set_runtime)
      (simp_all add: sample_root_def wf_attrs_new runtime_accepts_def runtime_default_def)
  with sample_root_root[OF not_spelled_a, of 1] show ?thesis
    by (simp add: root_file_def live_root_def)
qed

lemma live_model_inv: "model_inv live_model"
proof -
  let ?m1 = "snd (add_file live_root None (new_model 0))"
  have "model_inv ?m1"
    using preserving_add_file[OF live_root_root, of None] minv_new by (simp add: preserving_def)
  then show ?thesis
    using preserving_publish[OF wf_sample_counters[of 5]] by (simp add: preserving_def live_model_def sample_report_def)
qed

theorem counters_of_one_job_do_not_regress_witness:
  "map_of (m_overlays (snd (sample_report 3 live_model))) ''a'' = Some (sample_counters 5)"
proof -
  have run: "sample_report 3 live_model = (Inr ({}, ''accepted''), snd (sample_report 3 live_model))"
    by (rule prod_eqI, code_simp) (rule snd_conv[symmetric])
  have old: "map_of (m_overlay_ids live_model) ''a'' = Some (1, ''mirror'')"
    "map_of (m_overlays live_model) ''a'' = Some (sample_counters 5)" by code_simp+
  from counters_of_one_job_do_not_regress[OF live_model_inv wf_sample_counters[of 3]
      run[unfolded sample_report_def] old, of "sample_counters 3"]
  show ?thesis by (auto simp: sample_counters_def sample_report_def)
qed

text \<open>A report of an older job, arriving after a newer job took over the root, changes nothing.\<close>

theorem late_report_of_older_job_ignored:
  assumes "map_of (m_files m) fid = Some f" "map_of (m_overlay_ids m) fid = Some current"
    and "valid_identity job" "job \<noteq> current" "fst job \<le> fst current" "epoch_matches fid"
  shows "publish_active_lftp_root_counters [(fid, ov)] [(fid, job)] epoch_matches None m = (Inr ({}, ''job_identity''), m)"
  using assms
  by (simp add: publish_active_lftp_root_counters_def admit_counter_def mbind_def mret_def opt_holds_iff)

theorem late_report_of_older_job_ignored_witness:
  "publish_active_lftp_root_counters [(''a'', sample_counters 9)] [(''a'', (0, ''mirror''))] (\<lambda>_. True) None live_model =
     (Inr ({}, ''job_identity''), live_model)"
proof (rule late_report_of_older_job_ignored)
  show "map_of (m_files live_model) ''a'' = Some live_root" by code_simp
  show "map_of (m_overlay_ids live_model) ''a'' = Some (1, ''mirror'')" by code_simp
qed (simp_all add: valid_identity_def)

section \<open>Candidates and diffs\<close>

lemma insert_candidate_files_spec:
  assumes "roots_ok (m_files c) (m_ordered c) (m_by_name c)" "\<forall>f\<in>set fs. root_file f"
  shows "(\<exists>c'. insert_candidate_files fs c = Inr c') \<longleftrightarrow>
      distinct (map file_id fs) \<and> (\<forall>f\<in>set fs. map_of (m_files c) (file_id f) = None)"
    and "insert_candidate_files fs c = Inr c' \<Longrightarrow>
      roots_ok (m_files c') (m_ordered c') (m_by_name c') \<and>
      map_of (m_files c') = map_of (m_files c) ++ map_of (map (\<lambda>f. (file_id f, f)) fs)"
  using assms
proof (induction fs arbitrary: c)
  case (Cons f fs)
  have step: "insert_candidate_file f c =
      (if map_of (m_files c) (file_id f) \<noteq> None
       then Inl (AppError ''ModelError'' ''Duplicate root while composing model candidate'') else Inr (insert_root f c))" for c
    by (simp add: insert_candidate_file_def)
  have files: "map_of (m_files (insert_root f c)) = (map_of (m_files c))(file_id f \<mapsto> f)" for c
    by (simp add: insert_root_def)
  have ok: "roots_ok (m_files (insert_root f c)) (m_ordered (insert_root f c)) (m_by_name (insert_root f c))"
    if "map_of (m_files c) (file_id f) = None" "roots_ok (m_files c) (m_ordered c) (m_by_name c)" "root_file f" for c
    using roots_ok_insert[OF that(2,3,1)] by (simp add: insert_root_def)
  {
    case 1
    show ?case
    proof (cases "map_of (m_files c) (file_id f)")
      case None
      have "(\<exists>c'. insert_candidate_files fs (insert_root f c) = Inr c') \<longleftrightarrow>
          distinct (map file_id fs) \<and> (\<forall>g\<in>set fs. map_of (m_files (insert_root f c)) (file_id g) = None)"
        by (rule Cons.IH(1)[OF ok[OF None]]) (use 1 in simp_all)
      moreover have "(\<forall>g\<in>set fs. ((map_of (m_files c))(file_id f \<mapsto> f)) (file_id g) = None) \<longleftrightarrow>
          file_id f \<notin> file_id ` set fs \<and> (\<forall>g\<in>set fs. map_of (m_files c) (file_id g) = None)"
        by (auto simp: image_iff)
      ultimately show ?thesis using None unfolding files by (auto simp: step)
    qed (simp add: step)
  next
    case 2
    then have n: "map_of (m_files c) (file_id f) = None" by (auto simp: step split: if_splits)
    with 2 have run: "insert_candidate_files fs (insert_root f c) = Inr c'" by (simp add: step)
    have "distinct (map file_id fs) \<and> (\<forall>g\<in>set fs. map_of (m_files (insert_root f c)) (file_id g) = None)"
      using Cons.IH(1)[OF ok[OF n]] 2 run by auto
    then have "file_id f \<notin> file_id ` set fs" unfolding files by (auto split: if_splits)
    then have new: "map_of (map (\<lambda>f. (file_id f, f)) fs) (file_id f) = None"
      by (auto simp: map_of_eq_None_iff image_iff)
    have "roots_ok (m_files c') (m_ordered c') (m_by_name c') \<and>
      map_of (m_files c') = map_of (m_files (insert_root f c)) ++ map_of (map (\<lambda>f. (file_id f, f)) fs)"
      by (rule Cons.IH(2)[OF run ok[OF n]]) (use 2 in simp_all)
    then have "roots_ok (m_files c') (m_ordered c') (m_by_name c')"
      "map_of (m_files c') = (map_of (m_files c))(file_id f \<mapsto> f) ++ map_of (map (\<lambda>f. (file_id f, f)) fs)"
      unfolding files by blast+
    with new show ?case by (auto simp: map_add_def split: option.splits intro!: ext)
  }
qed simp_all

lemma candidate_start:
  "roots_ok (m_files (set_downloaded_timestamp_overlay_generation v (new_model t)))
     (m_ordered (set_downloaded_timestamp_overlay_generation v (new_model t)))
     (m_by_name (set_downloaded_timestamp_overlay_generation v (new_model t)))"
  "m_files (set_downloaded_timestamp_overlay_generation v (new_model t)) = []"
  using minv_new[of t] by (simp_all add: minv_def set_downloaded_timestamp_overlay_generation_def new_model_def)

lemma map_of_root_list:
  assumes "dict_ok d" "\<And>k f. map_of d k = Some f \<Longrightarrow> file_id f = k"
  shows "map_of (map (\<lambda>f. (file_id f, f)) (filter (\<lambda>f. P (file_id f)) (map snd d))) k =
    (if P k then map_of d k else None)"
    and "distinct (map file_id (map snd d))"
proof -
  have "map (\<lambda>f. (file_id f, f)) (filter (\<lambda>f. P (file_id f)) (map snd d)) = filter (\<lambda>(k, f). P k) d \<and>
      map file_id (map snd d) = map fst d"
    using assms
  proof (induction d)
    case (Cons p d)
    obtain j g where p: "p = (j, g)" by (cases p)
    have "file_id f = k" if "map_of d k = Some f" for k f
    proof -
      have "k \<noteq> j" using Cons.prems(1) map_of_SomeE[OF that] p by auto
      then show ?thesis using Cons.prems(2)[of k f] that p by simp
    qed
    then have "map (\<lambda>f. (file_id f, f)) (filter (\<lambda>f. P (file_id f)) (map snd d)) = filter (\<lambda>(k, f). P k) d \<and>
        map file_id (map snd d) = map fst d"
      using Cons.IH Cons.prems(1) by simp
    moreover have "file_id g = j" using Cons.prems(2)[of j g] p by simp
    ultimately show ?case using p by simp
  qed simp
  then have eq: "map (\<lambda>f. (file_id f, f)) (filter (\<lambda>f. P (file_id f)) (map snd d)) = filter (\<lambda>(k, f). P k) d"
    "map file_id (map snd d) = map fst d" by blast+
  show "map_of (map (\<lambda>f. (file_id f, f)) (filter (\<lambda>f. P (file_id f)) (map snd d))) k =
      (if P k then map_of d k else None)"
    unfolding eq(1) by (rule map_of_filter_key)
  show "distinct (map file_id (map snd d))" unfolding eq(2) by (rule assms(1))
qed

text \<open>A candidate model is the live roots without the removed ones and with the replacements; it
  is refused exactly when two replacements share an identity or a replacement collides with a live
  root that is not removed; its indexes are consistent.\<close>

theorem compose_candidate_correct:
  assumes "model_inv live" "\<forall>f\<in>set replacements. root_file f"
  shows "((\<exists>c. compose_candidate live removed replacements tree None = Inr c) \<longleftrightarrow>
      distinct (map file_id replacements) \<and>
      (\<forall>f\<in>set replacements. file_id f \<in> removed \<or> map_of (m_files live) (file_id f) = None)) \<and>
    (\<forall>c. compose_candidate live removed replacements tree None = Inr c \<longrightarrow>
      roots_ok (m_files c) (m_ordered c) (m_by_name c) \<and>
      (\<forall>k. map_of (m_files c) k =
         (case map_of (map (\<lambda>f. (file_id f, f)) replacements) k of
            Some f \<Rightarrow> Some f
          | None \<Rightarrow> if k \<in> removed then None else map_of (m_files live) k)))"
proof -
  let ?c0 = "set_downloaded_timestamp_overlay_generation (PInt (m_timestamp_generation live)) (new_model (m_clock live))"
  let ?kept = "filter (\<lambda>f. file_id f \<notin> removed) (iter_files live)"
  have ok: "dict_ok (m_files live)" "\<And>k f. map_of (m_files live) k = Some f \<Longrightarrow> file_id f = k \<and> root_file f"
    using assms(1) minv_root[OF assms(1)] by (auto simp: minv_def roots_ok_def)
  have kept: "map_of (map (\<lambda>f. (file_id f, f)) ?kept) k = (if k \<notin> removed then map_of (m_files live) k else None)" for k
    unfolding iter_files_def by (rule map_of_root_list(1)[OF ok(1)]) (use ok(2) in blast)
  have "distinct (map file_id (iter_files live))"
    unfolding iter_files_def by (rule map_of_root_list(2)[OF ok(1)]) (use ok(2) in blast)
  then have dist: "distinct (map file_id ?kept)" by (rule distinct_map_filter)
  have roots: "\<forall>f\<in>set ?kept. root_file f" using ok by (force simp: iter_files_def)
  obtain c1 where c1: "insert_candidate_files ?kept ?c0 = Inr c1"
    using insert_candidate_files_spec(1)[OF candidate_start(1) roots] dist by (auto simp: candidate_start(2))
  have r1: "roots_ok (m_files c1) (m_ordered c1) (m_by_name c1)"
    and f1: "map_of (m_files c1) k = (if k \<notin> removed then map_of (m_files live) k else None)" for k
    using insert_candidate_files_spec(2)[OF candidate_start(1) roots c1] kept by (auto simp: candidate_start(2))
  have run: "compose_candidate live removed replacements tree None =
      rbind (insert_candidate_files replacements c1) (\<lambda>c2. Inr (set_tree_file_count tree c2))"
    using c1 by (simp add: compose_candidate_def Let_def)
  have "(\<exists>c. compose_candidate live removed replacements tree None = Inr c) \<longleftrightarrow>
      (\<exists>c. insert_candidate_files replacements c1 = Inr c)"
    unfolding run by (cases "insert_candidate_files replacements c1") auto
  also have "\<dots> \<longleftrightarrow> distinct (map file_id replacements) \<and>
      (\<forall>f\<in>set replacements. file_id f \<in> removed \<or> map_of (m_files live) (file_id f) = None)"
    unfolding insert_candidate_files_spec(1)[OF r1 assms(2)] f1 by auto
  finally have ex: "(\<exists>c. compose_candidate live removed replacements tree None = Inr c) \<longleftrightarrow> \<dots>" .
  have "roots_ok (m_files c) (m_ordered c) (m_by_name c) \<and> (\<forall>k. map_of (m_files c) k =
         (case map_of (map (\<lambda>f. (file_id f, f)) replacements) k of
            Some f \<Rightarrow> Some f | None \<Rightarrow> if k \<in> removed then None else map_of (m_files live) k))"
    if "compose_candidate live removed replacements tree None = Inr c" for c
  proof -
    from that obtain c2 where c2: "insert_candidate_files replacements c1 = Inr c2" "c = set_tree_file_count tree c2"
      unfolding run by (cases "insert_candidate_files replacements c1") auto
    from insert_candidate_files_spec(2)[OF r1 assms(2) c2(1)] c2(2) show ?thesis
      by (simp add: set_tree_file_count_def map_add_def f1 split: option.splits)
  qed
  with ex show ?thesis by blast
qed

theorem compose_candidate_correct_witness:
  "\<exists>c. compose_candidate live_model {''a''} [sample_root 2 ''a''] (PInt 1) None = Inr c \<and>
     map_of (m_files c) ''a'' = Some (sample_root 2 ''a'')"
proof -
  have r: "\<forall>f\<in>set [sample_root 2 ''a'']. root_file f" by (simp add: sample_root_root[OF not_spelled_a])
  from compose_candidate_correct[OF live_model_inv r, of "{''a''}" "PInt 1"] show ?thesis
    by (auto simp: sample_root_id)
qed

text \<open>C7. The diff of two models, replayed on the first one with its changes in any order, succeeds and
  gives the roots of the second one up to the equality of \<open>ModelFile\<close>. (The second model may
  share root objects with the first: one object is one file.)\<close>

theorem replayed_diff_reaches_candidate:
  assumes "model_inv before" "m_base_fallbacks before = []"
    and "roots_ok (m_files after) (m_ordered after) (m_by_name after)"
    and "\<And>k f g. map_of (m_files before) k = Some f \<Longrightarrow> map_of (m_files after) k = Some g \<Longrightarrow>
      fa_ident (attrs f) = fa_ident (attrs g) \<Longrightarrow> f = g"
    and "diff_models before after = Inr ds" and "mset ds' = mset ds"
  shows "\<exists>m'. mfor ds' replay_change before = (Inr (), m') \<and> model_inv m' \<and>
    (\<forall>k. rel_option mf_eq (map_of (m_files m') k) (map_of (m_files after) k))"
proof -
  have "store_inv before" using assms(1,2) by (simp add: store_inv_def)
  then obtain m' where "outcome (mfor ds' replay_change) before = Inr m'" "store_inv m'"
    "\<forall>k. rel_option mf_eq (map_of (m_files m') k) (map_of (m_files after) k)"
    using replay_diff_models[OF _ assms(3) _ assms(5,6)] assms(4) by blast
  then show ?thesis
    by (auto simp: outcome_def store_inv_def split: prod.splits sum.splits)
qed

definition sample_candidate :: model where
  "sample_candidate = (case compose_candidate live_model {''a''} [sample_root 2 ''a''] (PInt 1) None of
     Inr c \<Rightarrow> c | Inl e \<Rightarrow> new_model 0)"

definition sample_diff :: "model_file model_diff list" where
  "sample_diff = [ModelDiff UPDATED (Some live_root) (Some (sample_root 2 ''a''))]"

theorem replayed_diff_reaches_candidate_witness:
  "\<exists>m'. mfor sample_diff replay_change live_model = (Inr (), m') \<and> model_inv m' \<and>
     rel_option mf_eq (map_of (m_files m') ''a'') (Some (sample_root 2 ''a''))"
proof -
  have f: "m_files sample_candidate = [(''a'', sample_root 2 ''a'')]" "m_ordered sample_candidate = [''a'']"
    "m_by_name sample_candidate = [(''a'', {''a''})]" "m_files live_model = [(''a'', live_root)]"
    by code_simp+
  have d: "diff_models live_model sample_candidate = Inr sample_diff" by code_simp
  have b: "m_base_fallbacks live_model = []" by code_simp
  have r: "roots_ok (m_files sample_candidate) (m_ordered sample_candidate) (m_by_name sample_candidate)"
    unfolding f using sample_root_root[OF not_spelled_a, of 2] sample_root_id[of 2 "''a''"]
    by (auto simp: roots_ok_def ids_by_name_def some_nonempty_def sample_root_def new_model_file_def)
  have s: "g = h" if "map_of (m_files live_model) k = Some g" "map_of (m_files sample_candidate) k = Some h"
    "fa_ident (attrs g) = fa_ident (attrs h)" for k g h
  proof -
    have "g = live_root" "h = sample_root 2 ''a''" using that(1,2) by (simp_all add: f split: if_splits)
    with that(3) show ?thesis by (simp add: live_root_def sample_root_def new_model_file_def)
  qed
  have "\<exists>m'. mfor sample_diff replay_change live_model = (Inr (), m') \<and> model_inv m' \<and>
      (\<forall>k. rel_option mf_eq (map_of (m_files m') k) (map_of (m_files sample_candidate) k))"
    by (rule replayed_diff_reaches_candidate[OF live_model_inv b r _ d refl]) (rule s)
  moreover have "map_of (m_files sample_candidate) ''a'' = Some (sample_root 2 ''a'')" by (simp add: f)
  ultimately show ?thesis by metis
qed

end
