(* ===== verification/File_Properties.thy ===== *)
theory File_Properties
  imports Job_Status
begin

text \<open>The properties of \<open>ModelFile\<close>, its identities, and \<open>LftpJobStatus\<close>.\<close>

section \<open>Identities\<close>

text \<open>Identities name files: two roots or paths have one identity only if they have the same path
  and the same path pair, unless an unscoped path is itself spelled like a scoped identity.\<close>

theorem file_id_names_one_file:
  assumes "plain_path p s" "plain_path p' s'"
  shows "build_file_id p s = build_file_id p' s' \<longleftrightarrow> p = p' \<and> s = s'"
  using assms by (rule file_id.ident_eq_iff)

theorem file_id_names_one_file_witness:
  "build_file_id ''[a] b'' None \<noteq> build_file_id ''[a] b'' (Some ''p'')"
  using file_id_names_one_file[of "''[a] b''" None "''[a] b''" "Some ''p''"]
  by (simp add: plain_path_def spelled_scoped_def startswith_def scan_quoted_def)

text \<open>The JSON strings in identities are read back as they were written, whatever characters they
  hold, control characters and characters outside the basic plane included, and reading stops at the
  closing quote.\<close>

theorem json_string_roundtrip:
  assumes "\<forall>n\<in>set cps. scalar n"
  shows "scan_quoted (dumps_str cps @ rest) = Some (cps, rest)"
  using assms by (rule scan_quoted_dumps)

theorem json_string_roundtrip_witness:
  "scan_quoted (dumps_str [34, 10, 233, 128512] @ ''tail'') = Some ([34, 10, 233, 128512], ''tail'')"
  by (rule json_string_roundtrip) (simp add: scalar_def)

section \<open>Attributes\<close>

lemma write_attributes_wf: "write_attributes ws f = Inr f' \<Longrightarrow> wf_attrs (attrs f) \<Longrightarrow> wf_attrs (attrs f')"
  by (induction ws arbitrary: f) (auto simp: rbind_Inr_iff dest: write_attribute_wf)

text \<open>C35. Whatever assignments are made to a new \<open>ModelFile\<close>, as long as none raises, its attributes
  stay well-formed: sizes, rates and times left are not negative, percentages are percentages,
  presence agrees with size where nobody set it explicitly, and the runtime dictionary is allocated
  only while it holds something.\<close>

theorem assignments_keep_attributes_wellformed:
  assumes "write_attributes ws (new_model_file i t n is_dir) = Inr f"
  shows "wf_attrs (attrs f)"
  using assms wf_attrs_new by (rule write_attributes_wf)

definition sample_writes :: "attribute_write list" where
  "sample_writes = [WRemoteSize (PInt 7), WDownloadProgress (PInt 40), WEta PNone, WRemotePresent (PBool False)]"

theorem assignments_keep_attributes_wellformed_witness:
  "\<exists>f. write_attributes sample_writes (new_model_file 1 0 ''a'' False) = Inr f \<and> wf_attrs (attrs f) \<and>
     fa_remote_size (attrs f) = Some 7 \<and> a_download_progress (attrs f) = Some 40"
proof -
  let ?f = "upd (\<lambda>a. put_remote_present False (set_runtime ''eta'' PNone PNone
      (set_runtime ''download_progress'' (PInt 40) PNone (put_remote_size (Some 7) a)))) (new_model_file 1 0 ''a'' False)"
  have w: "write_attributes sample_writes (new_model_file 1 0 ''a'' False) = Inr ?f"
    by (simp add: sample_writes_def attribute_setters)
  have "fa_remote_size (attrs ?f) = Some 7" "a_download_progress (attrs ?f) = Some 40"
    by (simp_all add: put_remote_present_def put_remote_size_def Let_def a_download_progress_def as_opt_int_def)
  with w assignments_keep_attributes_wellformed[OF w] show ?thesis by blast
qed

text \<open>A rejected value raises, and what is out of range never gets stored: a negative size or rate,
  a percentage above a hundred, a value of another type.\<close>

theorem out_of_range_values_raise:
  "n < 0 \<Longrightarrow> set_remote_size (PInt n) f = Inl ValueError \<and> set_local_size (PInt n) f = Inl ValueError \<and>
     set_transferred_size (PInt n) f = Inl ValueError \<and> set_downloading_speed (PInt n) f = Inl ValueError \<and>
     set_eta (PInt n) f = Inl ValueError \<and> set_download_progress (PInt n) f = Inl ValueError \<and>
     set_download_progress (PInt (100 - n)) f = Inl ValueError \<and>
     set_display_size_total (PInt n) f = Inl TypeError \<and> set_corrupt_chunks (PList [PInt n]) f = Inl TypeError"
  by (simp add: attribute_setters is_chunk_def)

theorem out_of_range_values_raise_witness:
  "set_download_progress (PInt 101) (new_model_file 1 0 ''a'' False) = Inl ValueError"
  using out_of_range_values_raise[of "-1"] by simp

text \<open>The equality of \<open>ModelFile\<close>, which compares attributes and, by name, children, is an
  equivalence.\<close>

theorem model_file_equality_is_equivalence: "equivp mf_eq"
  by (rule equivpI) (auto simp: reflp_def symp_def transp_def intro: mf_eq_sym mf_eq_trans)

section \<open>Children\<close>

text \<open>\<open>add_child\<close> accepts a child exactly when the parent is a directory, the child is another
  object and its name is new; the child then comes last and its path runs through the parent.\<close>

theorem add_child_correct:
  "((\<exists>g. add_child f c = Inr g) \<longleftrightarrow>
     a_is_dir (attrs f) \<and> fa_ident (attrs c) \<noteq> fa_ident (attrs f) \<and> mf_name c \<notin> mf_name ` set (kids f)) \<and>
   (\<forall>g. add_child f c = Inr g \<longrightarrow>
     (\<exists>d. kids g = kids f @ [d] \<and> attrs g = attrs f \<and> mf_name d = mf_name c \<and>
       full_path d = path_join (full_path f) (mf_name c) \<and> child_count g = child_count f + 1))"
proof (intro conjI allI impI)
  show "(\<exists>g. add_child f c = Inr g) \<longleftrightarrow>
     a_is_dir (attrs f) \<and> fa_ident (attrs c) \<noteq> fa_ident (attrs f) \<and> mf_name c \<notin> mf_name ` set (kids f)"
    by (auto simp: add_child_def)
  fix g assume "add_child f c = Inr g"
  then have g: "g = ModelFile (attrs f) (kids f @ [adopt (full_path f) c])"
    by (auto simp: add_child_def split: if_splits)
  obtain a cs where c: "c = ModelFile a cs" by (cases c)
  show "\<exists>d. kids g = kids f @ [d] \<and> attrs g = attrs f \<and> mf_name d = mf_name c \<and>
       full_path d = path_join (full_path f) (mf_name c) \<and> child_count g = child_count f + 1"
    by (rule exI[of _ "adopt (full_path f) c"]) (simp add: g c full_path_def[of "ModelFile _ _"] child_count_def)
qed

theorem add_child_correct_witness:
  "\<exists>g. add_child (new_model_file 1 0 ''d'' True) (new_model_file 2 0 ''x'' False) = Inr g"
proof -
  have "a_is_dir (attrs (new_model_file 1 0 ''d'' True))" by (simp add: new_model_file_def get_flag_def)
  then show ?thesis
    using add_child_correct[of "new_model_file 1 0 ''d'' True" "new_model_file 2 0 ''x'' False"]
    by (simp add: new_model_file_def)
qed

section \<open>Job statuses\<close>

text \<open>Whatever is assigned to a job status, a queued job carries no transfer state, and the parser
  provenance is one of the three fixed shapes with its four fields; the identity and the state of the
  job never change.\<close>

theorem job_status_wellformed:
  assumes "write_jobs ws (new_job_status i t s n fl rp lp) = Inr j"
  shows "wf_job j \<and> js_id j = i \<and> js_state j = s"
proof -
  have frame: "js_id j = js_id j0 \<and> js_state j = js_state j0" if "write_jobs ws j0 = Inr j" for j0
    using that by (induction ws arbitrary: j0) (auto simp: rbind_Inr_iff dest: write_job_frame)
  show ?thesis
    using wf_job_writes[OF wf_job_new assms] frame[OF assms] by (simp add: new_job_status_def)
qed

theorem job_status_wellformed_witness:
  "\<exists>j. write_jobs [JName (PStr ''b''), JTotal empty_transfer_state] (new_job_status 3 PGET JOB_RUNNING ''a'' '''' None None) = Inr j \<and>
     wf_job j"
  using job_status_wellformed[of "[JName (PStr ''b''), JTotal empty_transfer_state]" 3 PGET JOB_RUNNING "''a''" "''''" None None]
  by (simp add: job_setters new_job_status_def)

end
