(* ===== verification/Glob.thy ===== *)
theory Glob
  imports Prelude
begin

text \<open>
  The standard library's \<open>fnmatch\<close>: shell patterns with \<open>*\<close>, \<open>?\<close> and character sets.

  \<open>glob_tokens\<close> reads a pattern as \<open>fnmatch.translate\<close> does: a bracket without its closing bracket
  is a literal, empty ranges such as \<open>z-a\<close> are dropped, a set that is empty afterwards matches
  nothing, and a set whose first remaining character is \<open>!\<close> is negated. \<open>glob_match\<close> matches the
  whole name, as the anchored regular expression does. \<open>fnmatch.fnmatch\<close> is the same function on
  POSIX, where \<open>os.path.normcase\<close> is the identity.
\<close>

datatype set_item = Single char | Range char char

datatype glob_token = GStar | GAny | GLit char | GSet bool "set_item list"

fun set_items :: "string \<Rightarrow> set_item list" where
  "set_items [] = []"
| "set_items [a] = [Single a]"
| "set_items [a, b] = [Single a, Single b]"
| "set_items (a # b # c # r) =
     (if b = CHR ''-'' then Range a c # set_items r else Single a # set_items (b # c # r))"

fun live_item :: "set_item \<Rightarrow> bool" where
  "live_item (Single c) = True"
| "live_item (Range a b) = (code_of a \<le> code_of b)"

text \<open>The token of a set, from the text between its brackets.\<close>

definition set_token :: "string \<Rightarrow> glob_token" where
  "set_token body =
     (if startswith body ''!'' then GSet True (filter live_item (set_items (tl body)))
      else case filter live_item (set_items body) of
          [] \<Rightarrow> GSet False []
        | Single c # r \<Rightarrow> if c = CHR ''!'' then GSet True r else GSet False (Single c # r)
        | Range a b # r \<Rightarrow>
            if a = CHR ''!'' then GSet True (Single (CHR ''-'') # Single b # r)
            else GSet False (Range a b # r))"

text \<open>The text up to the closing bracket; one right after the opening, or after \<open>!\<close>, is an element.\<close>

definition set_lead :: "string \<Rightarrow> nat" where
  "set_lead s =
     (let j = (if startswith s ''!'' then 1 else 0)
      in if startswith (drop j s) '']'' then Suc j else j)"

definition set_body :: "string \<Rightarrow> (string \<times> string) option" where
  "set_body s =
     (let j = set_lead s;
          inner = takeWhile (\<lambda>c. c \<noteq> CHR '']'') (drop j s);
          rest = dropWhile (\<lambda>c. c \<noteq> CHR '']'') (drop j s)
      in if rest = [] then None else Some (take j s @ inner, tl rest))"

lemma set_body_length: "set_body s = Some (b, r) \<Longrightarrow> length r < length s"
proof -
  let ?rest = "dropWhile (\<lambda>c. c \<noteq> CHR '']'') (drop (set_lead s) s)"
  assume "set_body s = Some (b, r)"
  then have "?rest \<noteq> []" "r = tl ?rest"
    by (simp_all add: set_body_def Let_def split: if_split_asm)
  then have "length r < length ?rest" by simp
  also have "\<dots> \<le> length s" by (rule order_trans[OF length_dropWhile_le]) simp
  finally show ?thesis .
qed

function glob_tokens :: "string \<Rightarrow> glob_token list" where
  "glob_tokens [] = []"
| "glob_tokens (c # s) =
     (if c = CHR ''*'' then GStar # glob_tokens s
      else if c = CHR ''?'' then GAny # glob_tokens s
      else if c = CHR ''['' then
        (case set_body s of
           None \<Rightarrow> GLit c # glob_tokens s
         | Some (b, r) \<Rightarrow> set_token b # glob_tokens r)
      else GLit c # glob_tokens s)"
  by pat_completeness auto
termination
  by (relation "measure length") (auto dest!: set_body_length)

fun item_has :: "char \<Rightarrow> set_item \<Rightarrow> bool" where
  "item_has x (Single c) = (x = c)"
| "item_has x (Range a b) = (code_of a \<le> code_of x \<and> code_of x \<le> code_of b)"

text \<open>The single characters a token matches.\<close>

fun token_has :: "glob_token \<Rightarrow> char \<Rightarrow> bool" where
  "token_has GStar x = True"
| "token_has GAny x = True"
| "token_has (GLit c) x = (x = c)"
| "token_has (GSet neg items) x = (list_ex (item_has x) items \<noteq> neg)"

fun glob_match :: "glob_token list \<Rightarrow> string \<Rightarrow> bool" where
  "glob_match [] s = (s = [])"
| "glob_match (GStar # ts) [] = glob_match ts []"
| "glob_match (GStar # ts) (x # s) = (glob_match ts (x # s) \<or> glob_match (GStar # ts) s)"
| "glob_match (t # ts) [] = False"
| "glob_match (t # ts) (x # s) = (token_has t x \<and> glob_match ts s)"

definition fnmatchcase :: "string \<Rightarrow> string \<Rightarrow> bool" where
  "fnmatchcase name pat = glob_match (glob_tokens pat) name"

section \<open>What a match is\<close>

text \<open>A name matches when it splits into one piece per token: any text for \<open>*\<close>, one character the
  token has for every other token.\<close>

definition piece_ok :: "glob_token \<Rightarrow> string \<Rightarrow> bool" where
  "piece_ok t p = (t = GStar \<or> (\<exists>x. p = [x] \<and> token_has t x))"

lemma piece_ok_step [intro]: "token_has t x \<Longrightarrow> piece_ok t [x]"
  by (simp add: piece_ok_def)

lemma star_piece [simp]: "piece_ok GStar p"
  by (simp add: piece_ok_def)

lemma pieces_Cons: "piece_ok t p \<Longrightarrow> \<exists>ps. list_all2 piece_ok ts ps \<and> s = concat ps \<Longrightarrow>
    \<exists>ps. list_all2 piece_ok (t # ts) ps \<and> p @ s = concat ps"
  by (metis concat.simps(2) list_all2_Cons)

lemma pieces_char: "token_has t x \<Longrightarrow> \<exists>ps. list_all2 piece_ok ts ps \<and> s = concat ps \<Longrightarrow>
    \<exists>ps. list_all2 piece_ok (t # ts) ps \<and> x # s = concat ps"
  using pieces_Cons[OF piece_ok_step, of t x ts s] by simp

lemma pieces_star_grow: "\<exists>ps. list_all2 piece_ok (GStar # ts) ps \<and> s = concat ps \<Longrightarrow>
    \<exists>ps. list_all2 piece_ok (GStar # ts) ps \<and> x # s = concat ps"
proof -
  assume "\<exists>ps. list_all2 piece_ok (GStar # ts) ps \<and> s = concat ps"
  then obtain p ps where "list_all2 piece_ok ts ps" "s = p @ concat ps"
    by (auto simp: list_all2_Cons1)
  then show ?thesis by (intro exI[of _ "(x # p) # ps"]) simp
qed

lemma glob_match_sound: "glob_match ts s \<Longrightarrow> \<exists>ps. list_all2 piece_ok ts ps \<and> s = concat ps"
proof (induction ts s rule: glob_match.induct)
  case (2 ts)
  then show ?case using pieces_Cons[of GStar "[]" ts "[]"] by simp
next
  case (3 ts x s)
  then show ?case
    using pieces_Cons[of GStar "[]" ts "x # s"] pieces_star_grow[of ts s x] by auto
qed (auto intro: pieces_char)

lemma glob_match_star: "glob_match ts s \<Longrightarrow> glob_match (GStar # ts) (p @ s)"
proof (induction p)
  case Nil
  then show ?case by (cases s) simp_all
qed simp

lemma glob_match_Cons: "t \<noteq> GStar \<Longrightarrow> glob_match (t # ts) (x # s) = (token_has t x \<and> glob_match ts s)"
  by (cases t) simp_all

lemma glob_match_complete: "list_all2 piece_ok ts ps \<Longrightarrow> glob_match ts (concat ps)"
proof (induction ts ps rule: list_all2_induct)
  case (Cons t ts p ps)
  show ?case
  proof (cases "t = GStar")
    case True
    with Cons show ?thesis by (simp add: glob_match_star)
  next
    case False
    with Cons obtain x where "p = [x]" "token_has t x" by (auto simp: piece_ok_def)
    with False Cons show ?thesis by (simp add: glob_match_Cons)
  qed
qed simp

lemma glob_match_iff: "glob_match ts s \<longleftrightarrow> (\<exists>ps. list_all2 piece_ok ts ps \<and> s = concat ps)"
  using glob_match_sound glob_match_complete by blast

text \<open>A pattern without special characters matches only itself.\<close>

definition special_char :: "char \<Rightarrow> bool" where
  "special_char c = (c = CHR ''*'' \<or> c = CHR ''?'' \<or> c = CHR ''['')"

lemma glob_tokens_literal: "\<not> list_ex special_char p \<Longrightarrow> glob_tokens p = map GLit p"
  by (induction p) (auto simp: special_char_def)

lemma glob_match_literal: "glob_match (map GLit p) s \<longleftrightarrow> s = p"
proof (induction p arbitrary: s)
  case (Cons x p)
  then show ?case by (cases s) auto
qed simp

lemma fnmatchcase_literal: "\<not> list_ex special_char p \<Longrightarrow> fnmatchcase s p \<longleftrightarrow> s = p"
  by (simp add: fnmatchcase_def glob_tokens_literal glob_match_literal)

lemma glob_tests:
  "fnmatchcase ''a.nfo'' ''*.nfo''" "\<not> fnmatchcase ''a.nfo2'' ''*.nfo''"
  "fnmatchcase ''x3'' ''x[0-9]''" "\<not> fnmatchcase ''x3'' ''x[!0-9]''"
  "fnmatchcase ''x]'' ''x[]]''" "fnmatchcase ''x[y'' ''x[y''"
  by code_simp+

end
