(* ===== verification/Auto_Queue_Patterns.thy ===== *)
theory Auto_Queue_Patterns
  imports File_Id Glob
begin

text \<open>
  The patterns of \<open>controller/auto_queue.py\<close>: \<open>AutoQueuePattern\<close>, which is the string it wraps,
  \<open>AutoQueuePersist\<close> and the listener that collects the patterns added since it was last drained.

  \<open>json.loads\<close>, which reads the text of one stored pattern, is the argument \<open>loads\<close>; its documented
  behaviour on the text \<open>json.dumps\<close> wrote is a hypothesis where it is needed.
\<close>

section \<open>Definitions\<close>

text \<open>The registered listeners are \<open>AutoQueuePersistListener\<close>s; each is the set of its new patterns.\<close>

record auto_queue_persist =
  ap_patterns :: "string list"
  ap_listeners :: "string set list"

definition new_auto_queue_persist :: auto_queue_persist where
  "new_auto_queue_persist = \<lparr>ap_patterns = [], ap_listeners = []\<rparr>"

definition pattern_added :: "string \<Rightarrow> string set \<Rightarrow> string set" where
  "pattern_added pat l = insert pat l"

definition pattern_removed :: "string \<Rightarrow> string set \<Rightarrow> string set" where
  "pattern_removed pat l = l - {pat}"

definition drain_new_patterns :: "string set \<Rightarrow> string set \<times> string set" where
  "drain_new_patterns l = (l, {})"

definition restore_new_patterns :: "string set \<Rightarrow> string set \<Rightarrow> string set" where
  "restore_new_patterns pats l = l \<union> pats"

definition persist_patterns :: "auto_queue_persist \<Rightarrow> string set" where
  "persist_patterns p = set (ap_patterns p)"

definition add_pattern :: "string \<Rightarrow> auto_queue_persist \<Rightarrow> auto_queue_persist result" where
  "add_pattern pat p =
     (if strip pat = [] then Inl ValueError
      else if pat \<in> set (ap_patterns p) then Inr p
      else Inr (p\<lparr>ap_patterns := ap_patterns p @ [pat],
                  ap_listeners := map (pattern_added pat) (ap_listeners p)\<rparr>))"

definition remove_pattern :: "string \<Rightarrow> auto_queue_persist \<Rightarrow> auto_queue_persist" where
  "remove_pattern pat p =
     (if pat \<in> set (ap_patterns p)
      then p\<lparr>ap_patterns := remove1 pat (ap_patterns p),
             ap_listeners := map (pattern_removed pat) (ap_listeners p)\<rparr>
      else p)"

definition add_pattern_listener :: "string set \<Rightarrow> auto_queue_persist \<Rightarrow> auto_queue_persist" where
  "add_pattern_listener l p = p\<lparr>ap_listeners := ap_listeners p @ [l]\<rparr>"

text \<open>The stored form: a list of texts, each the JSON object of one pattern.\<close>

definition pattern_to_str :: "string \<Rightarrow> string" where
  "pattern_to_str pat =
     [CHR ''{''] @ dumps_str (codes ''pattern'') @ '': '' @ dumps_str (codes pat) @ [CHR ''}'']"

definition pattern_from_str :: "(string \<Rightarrow> pyval result) \<Rightarrow> string \<Rightarrow> string result" where
  "pattern_from_str loads s =
     rbind (loads s) (\<lambda>v. case v of
       PDict d \<Rightarrow> (case dict_get d ''pattern'' of
            None \<Rightarrow> Inl KeyError
          | Some (PStr pat) \<Rightarrow> Inr pat
          | Some _ \<Rightarrow> Inl TypeError)
     | _ \<Rightarrow> Inl TypeError)"

fun read_patterns :: "(string \<Rightarrow> pyval result) \<Rightarrow> pyval list \<Rightarrow> auto_queue_persist \<Rightarrow> auto_queue_persist result" where
  "read_patterns loads [] p = Inr p"
| "read_patterns loads (v # vs) p =
     (case v of
        PStr s \<Rightarrow> rbind (pattern_from_str loads s) (\<lambda>pat. rbind (add_pattern pat p) (read_patterns loads vs))
      | _ \<Rightarrow> Inl TypeError)"

abbreviation patterns_error :: py_error where
  "patterns_error \<equiv> AppError ''PersistError'' ''Error parsing AutoQueuePersist''"

definition patterns_from_doc :: "(string \<Rightarrow> pyval result) \<Rightarrow> pyval \<Rightarrow> auto_queue_persist result" where
  "patterns_from_doc loads doc =
     (case (case doc of
              PDict d \<Rightarrow> (case dict_get d ''patterns'' of
                  None \<Rightarrow> Inl KeyError
                | Some (PList vs) \<Rightarrow> read_patterns loads vs new_auto_queue_persist
                | Some _ \<Rightarrow> Inl TypeError)
            | _ \<Rightarrow> Inl TypeError) of
        Inr p \<Rightarrow> Inr p
      | Inl e \<Rightarrow> if e = ValueError \<or> e = TypeError \<or> e = KeyError then Inl patterns_error else Inl e)"

definition patterns_to_doc :: "auto_queue_persist \<Rightarrow> pyval" where
  "patterns_to_doc p = PDict [(''patterns'', PList (map (\<lambda>pat. PStr (pattern_to_str pat)) (ap_patterns p)))]"

section \<open>Invariant\<close>

definition patterns_ok :: "auto_queue_persist \<Rightarrow> bool" where
  "patterns_ok p \<longleftrightarrow> distinct (ap_patterns p) \<and> list_all (\<lambda>pat. strip pat \<noteq> []) (ap_patterns p) \<and>
     list_all (\<lambda>l. l \<subseteq> set (ap_patterns p)) (ap_listeners p)"

lemma add_pattern_ok: "patterns_ok p \<Longrightarrow> add_pattern pat p = Inr p' \<Longrightarrow>
    patterns_ok p' \<and> persist_patterns p' = insert pat (persist_patterns p)"
  by (auto simp: patterns_ok_def add_pattern_def pattern_added_def persist_patterns_def list_all_iff
      split: if_splits) blast

text \<open>A pattern that is removed is new for no listener: it will not be applied retroactively.\<close>

lemma remove_pattern_ok: "patterns_ok p \<Longrightarrow>
    patterns_ok (remove_pattern pat p) \<and> persist_patterns (remove_pattern pat p) = persist_patterns p - {pat} \<and>
    (\<forall>l\<in>set (ap_listeners (remove_pattern pat p)). pat \<notin> l)"
  by (auto simp: patterns_ok_def remove_pattern_def pattern_removed_def persist_patterns_def list_all_iff)

lemma read_patterns_snoc:
  assumes "\<And>pat. pat \<in> set ps \<Longrightarrow> loads (pattern_to_str pat) = Inr (PDict [(''pattern'', PStr pat)])"
    and "distinct (ap_patterns q @ ps)" "list_all (\<lambda>pat. strip pat \<noteq> []) ps" "ap_listeners q = []"
  shows "read_patterns loads (map (\<lambda>pat. PStr (pattern_to_str pat)) ps) q = Inr (q\<lparr>ap_patterns := ap_patterns q @ ps\<rparr>)"
  using assms
proof (induction ps arbitrary: q)
  case (Cons pat ps)
  let ?q = "q\<lparr>ap_patterns := ap_patterns q @ [pat]\<rparr>"
  have "pattern_from_str loads (pattern_to_str pat) = Inr pat"
    using Cons.prems(1)[of pat] by (simp add: pattern_from_str_def)
  moreover have "add_pattern pat q = Inr ?q" using Cons.prems(2-4) by (simp add: add_pattern_def)
  moreover have "read_patterns loads (map (\<lambda>pat. PStr (pattern_to_str pat)) ps) ?q =
      Inr (?q\<lparr>ap_patterns := ap_patterns ?q @ ps\<rparr>)"
    using Cons.IH[of ?q] Cons.prems by simp
  ultimately show ?case by simp
qed simp

lemma patterns_from_to_doc:
  assumes "patterns_ok p" "ap_listeners p = []"
    and "\<And>pat. loads (pattern_to_str pat) = Inr (PDict [(''pattern'', PStr pat)])"
  shows "patterns_from_doc loads (patterns_to_doc p) = Inr p"
  using assms by (simp add: patterns_from_doc_def patterns_to_doc_def read_patterns_snoc
      new_auto_queue_persist_def patterns_ok_def)

text \<open>A reader of the one layout \<open>json.dumps\<close> writes for a pattern.\<close>

definition loads_pattern :: "string \<Rightarrow> pyval result" where
  "loads_pattern s =
     (let key = [CHR ''{''] @ dumps_str (codes ''pattern'') @ '': ''
      in if startswith s key then
           (case scan_quoted (drop (length key) s) of
              Some (cps, r) \<Rightarrow> if r = [CHR ''}''] then Inr (PDict [(''pattern'', PStr (map char_of cps))]) else Inl ValueError
            | None \<Rightarrow> Inl ValueError)
         else Inl ValueError)"

lemma map_char_of_codes: "map char_of (codes s) = s"
  by (simp add: codes_def o_def)

lemma loads_pattern_to_str: "loads_pattern (pattern_to_str pat) = Inr (PDict [(''pattern'', PStr pat)])"
  by (simp add: loads_pattern_def pattern_to_str_def startswith_def Let_def scan_quoted_dumps scalar_codes
      map_char_of_codes)

end
