(* ===== verification/Auto_Queue.thy ===== *)
theory Auto_Queue
  imports Auto_Queue_Patterns Model_File
begin

text \<open>
  \<open>controller/auto_queue.py\<close>: the class \<open>AutoQueue\<close>, which watches the Model and sends commands to the
  controller.

  \<open>auto_queue\<close> is the state the object keeps between cycles, with the buffers of its two listeners;
  \<open>controller_view\<close> is the controller it talks to (the protocol \<open>_AutoQueueController\<close>): the current
  roots and the questions it answers, fixed during a cycle, and which commands it refuses with an
  exception. \<open>process_once\<close> is one cycle: it returns the commands sent, the markers cleared and the
  report of the cycle, with the new state. The configuration flags and the path pairs
  of \<open>refresh_queue_state\<close> come from outside.

  Where the code iterates over a set of patterns, the model takes the sorted order. The log, the
  breadcrumbs and the trace of a selected archive are not modelled; the counts of the reasons why
  candidates are blocked, which they report, are.
\<close>

section \<open>State and environment\<close>

datatype aq_action = AQ_QUEUE | AQ_EXTRACT | AQ_DELETE_REMOTE

record aq_command =
  cmd_action :: aq_action
  cmd_file_id :: string
  cmd_cycle :: nat
  cmd_token :: "(int \<times> int) option"

record controller_view =
  cv_roots :: "model_file list result"
  cv_is_file_stopped :: "string \<Rightarrow> bool"
  cv_is_owned_incomplete :: "model_file \<Rightarrow> bool"
  cv_is_reconciled :: "string option \<Rightarrow> bool"
  cv_is_delete_eligible :: "model_file \<Rightarrow> bool"
  cv_has_final_publication :: "model_file \<Rightarrow> bool"
  cv_lifecycle_token :: "model_file \<Rightarrow> int \<times> int"
  cv_refuses :: "aq_command \<Rightarrow> bool"

text \<open>The answer of \<open>path_pair_manager.get_enabled_pairs()\<close>: no manager, an exception, or the
  identifiers of the enabled pairs with their \<open>auto_queue\<close> flags.\<close>

datatype pair_source = NoManager | PairsRaise | EnabledPairs "(string \<times> bool) list"

record auto_queue =
  aq_enabled :: bool
  aq_patterns_only :: bool
  aq_auto_extract :: bool
  aq_auto_delete_remote :: bool
  aq_pair_auto_queue :: "(string, bool) dict"
  aq_queue_enabled :: bool
  aq_cycle :: nat
  aq_idle_recorded :: bool
  aq_deferred :: "string set"
  aq_initial :: "string set"
  aq_new_files :: "model_file list"
  aq_modified :: "(model_file \<times> model_file) list"
  aq_removed :: "string set"
  aq_new_patterns :: "string set"

type_synonym candidate_match = "model_file \<times> string option"

definition new_auto_queue :: "bool \<Rightarrow> bool \<Rightarrow> bool \<Rightarrow> bool \<Rightarrow> auto_queue" where
  "new_auto_queue enabled patterns_only auto_extract auto_delete_remote =
     \<lparr>aq_enabled = enabled, aq_patterns_only = patterns_only, aq_auto_extract = auto_extract,
      aq_auto_delete_remote = auto_delete_remote, aq_pair_auto_queue = [], aq_queue_enabled = enabled,
      aq_cycle = 0, aq_idle_recorded = False, aq_deferred = {}, aq_initial = {},
      aq_new_files = [], aq_modified = [], aq_removed = {}, aq_new_patterns = {}\<rparr>"

section \<open>The model listener\<close>

definition aq_file_added :: "model_file \<Rightarrow> auto_queue \<Rightarrow> auto_queue" where
  "aq_file_added f q = q\<lparr>aq_new_files := aq_new_files q @ [f]\<rparr>"

definition aq_file_updated :: "model_file \<Rightarrow> model_file \<Rightarrow> auto_queue \<Rightarrow> auto_queue" where
  "aq_file_updated old_file new_file q = q\<lparr>aq_modified := aq_modified q @ [(old_file, new_file)]\<rparr>"

definition aq_file_removed :: "model_file \<Rightarrow> auto_queue \<Rightarrow> auto_queue" where
  "aq_file_removed f q = q\<lparr>aq_removed := insert (file_id f) (aq_removed q)\<rparr>"

section \<open>Queries\<close>

definition refresh_queue_state :: "pair_source \<Rightarrow> auto_queue \<Rightarrow> auto_queue" where
  "refresh_queue_state pairs q =
     (let q1 = q\<lparr>aq_queue_enabled := aq_enabled q, aq_pair_auto_queue := []\<rparr>
      in case pairs of
           EnabledPairs ps \<Rightarrow>
             if ps = [] then q1
             else let d = fold (\<lambda>(k, v). dict_set k v) ps []
                  in q1\<lparr>aq_pair_auto_queue := d, aq_queue_enabled := list_ex snd d\<rparr>
         | _ \<Rightarrow> q1)"

definition discard_inactive_buffers :: "auto_queue \<Rightarrow> auto_queue" where
  "discard_inactive_buffers q = q\<lparr>aq_new_files := [], aq_modified := [], aq_new_patterns := {}\<rparr>"

definition is_auto_queue_enabled_for_file :: "auto_queue \<Rightarrow> model_file \<Rightarrow> bool" where
  "is_auto_queue_enabled_for_file q f =
     (if aq_pair_auto_queue q \<noteq> [] then
        (case fa_path_pair_id (attrs f) of
           None \<Rightarrow> False
         | Some p \<Rightarrow> (case dict_get (aq_pair_auto_queue q) p of None \<Rightarrow> False | Some b \<Rightarrow> b))
      else True)"

definition is_owned_incomplete_directory :: "controller_view \<Rightarrow> model_file \<Rightarrow> bool" where
  "is_owned_incomplete_directory v f = (a_is_dir (attrs f) \<and> cv_is_owned_incomplete v f)"

definition is_reconciliation_ready :: "controller_view \<Rightarrow> model_file \<Rightarrow> bool" where
  "is_reconciliation_ready v f = cv_is_reconciled v (fa_path_pair_id (attrs f))"

definition is_active_transfer_state :: "file_state \<Rightarrow> bool" where
  "is_active_transfer_state s = (s = QUEUED \<or> s = DOWNLOADING)"

definition aq_match :: "string \<Rightarrow> model_file \<Rightarrow> bool" where
  "aq_match pat f =
     (let p = lower pat; n = lower (mf_name f) in is_substring p n \<or> fnmatchcase n p)"

datatype fingerprint =
  Fingerprint (fp_name: string) bool bool "int option" bool "fingerprint list"

fun remote_tree_fingerprint :: "model_file \<Rightarrow> fingerprint option" where
  "remote_tree_fingerprint (ModelFile a cs) =
     (let children = sort_key fp_name (List.map_filter id (map remote_tree_fingerprint cs));
          evidence = a_remote_present a \<or> fa_remote_size a \<noteq> None \<or> a_remote_content a
      in if \<not> evidence \<and> children = [] then None
         else Some (Fingerprint (fa_name a) (a_is_dir a) (a_remote_present a) (fa_remote_size a)
                      (a_remote_content a) children))"

definition is_remote_discovery_changed :: "model_file \<Rightarrow> model_file \<Rightarrow> bool" where
  "is_remote_discovery_changed old_file new_file \<longleftrightarrow>
     fa_remote_size (attrs old_file) \<noteq> fa_remote_size (attrs new_file) \<or>
     (\<not> a_remote_content (attrs old_file) \<and> a_remote_content (attrs new_file)) \<or>
     (\<not> a_remote_present (attrs old_file) \<and> a_remote_present (attrs new_file) \<and>
        a_remote_content (attrs new_file)) \<or>
     remote_tree_fingerprint old_file \<noteq> remote_tree_fingerprint new_file"

text \<open>The walk of \<open>has_new_remote_only_transfer_branch\<close> down the new tree, beside the old one.\<close>

fun has_new_branch :: "model_file \<Rightarrow> model_file \<Rightarrow> bool" and new_branch_among :: "(string, model_file) dict \<Rightarrow> model_file list \<Rightarrow> bool" where
  "has_new_branch old_file (ModelFile a cs) = new_branch_among (children_dict (kids old_file)) cs"
| "new_branch_among old_children [] = False"
| "new_branch_among old_children (c # cs) =
     (let old_child = dict_get old_children (mf_name c)
      in if opt_holds (\<lambda>o'. a_is_dir (attrs o') \<noteq> a_is_dir (attrs c)) old_child
         then new_branch_among old_children cs
         else if a_remote_present (attrs c) \<and> a_remote_content (attrs c) \<and>
                 (old_child = None \<or> opt_holds (\<lambda>o'. \<not> a_remote_present (attrs o')) old_child) \<and>
                 \<not> a_local_present (attrs c)
         then True
         else if (case old_child of None \<Rightarrow> False | Some o' \<Rightarrow> has_new_branch o' c) then True
         else new_branch_among old_children cs)"

definition is_remote_delete_transition :: "model_file \<Rightarrow> model_file \<Rightarrow> bool" where
  "is_remote_delete_transition old_file new_file =
     (if \<not> a_remote_content (attrs new_file) then False
      else if mf_state old_file = mf_state new_file then False
      else if mf_state new_file = EXTRACTED then mf_state old_file = EXTRACTING
      else if mf_state new_file = DOWNLOADED then
        (if a_is_extractable (attrs new_file) then False
         else \<not> (mf_state old_file = DOWNLOADED \<or> mf_state old_file = EXTRACTED \<or> mf_state old_file = EXTRACTING))
      else False)"

section \<open>Candidates\<close>

text \<open>The patterns in effect, in the order the model iterates over them.\<close>

definition pattern_order :: "string set \<Rightarrow> string list" where
  "pattern_order S = sorted_list_of_set S"

definition by_id :: "model_file list \<Rightarrow> (string, model_file) dict" where
  "by_id fs = fold (\<lambda>f. dict_set (file_id f) f) fs []"

definition match_one ::
  "controller_view \<Rightarrow> auto_queue \<Rightarrow> string set \<Rightarrow> (model_file \<Rightarrow> bool) \<Rightarrow> model_file \<Rightarrow> candidate_match option" where
  "match_one v q pats accept f =
     (if aq_patterns_only q then
        (case find (\<lambda>pat. accept f \<and> aq_match pat f) (pattern_order pats) of
           None \<Rightarrow> None
         | Some pat \<Rightarrow> Some (f, Some pat))
      else if accept f then Some (f, None) else None)"

definition match_candidate ::
  "controller_view \<Rightarrow> auto_queue \<Rightarrow> string set \<Rightarrow> (model_file \<Rightarrow> bool) \<Rightarrow> (string, model_file) dict \<Rightarrow>
   model_file \<Rightarrow> (string, candidate_match) dict \<Rightarrow> (string, candidate_match) dict" where
  "match_candidate v q pats accept current cand matched =
     (case dict_get current (file_id cand) of
        None \<Rightarrow> matched
      | Some f \<Rightarrow>
          if \<not> is_reconciliation_ready v f then matched
          else case match_one v q pats accept f of
                 None \<Rightarrow> matched
               | Some m \<Rightarrow> dict_set (file_id f) m matched)"

definition match_new_pattern ::
  "controller_view \<Rightarrow> (model_file \<Rightarrow> bool) \<Rightarrow> string \<Rightarrow> model_file \<Rightarrow>
   (string, candidate_match) dict \<Rightarrow> (string, candidate_match) dict" where
  "match_new_pattern v accept pat f matched =
     (if is_reconciliation_ready v f \<and> accept f \<and> aq_match pat f
      then dict_set (file_id f) (f, Some pat) matched else matched)"

definition filter_candidates ::
  "controller_view \<Rightarrow> auto_queue \<Rightarrow> string set \<Rightarrow> string set \<Rightarrow> (string, model_file) dict \<Rightarrow>
   (model_file \<Rightarrow> bool) \<Rightarrow> model_file list \<Rightarrow> candidate_match list" where
  "filter_candidates v q pats new_patterns current accept candidates =
     (let step1 = fold (match_candidate v q pats accept current) candidates [];
          step2 = fold (\<lambda>pat. fold (match_new_pattern v accept pat) (map snd current))
                    (pattern_order new_patterns) step1
      in map snd step2)"

section \<open>Why a candidate is blocked\<close>

definition some_match :: "string set \<Rightarrow> model_file \<Rightarrow> bool" where
  "some_match pats f = list_ex (\<lambda>pat. aq_match pat f) (pattern_order pats)"

definition queue_block_reason :: "controller_view \<Rightarrow> auto_queue \<Rightarrow> string set \<Rightarrow> model_file \<Rightarrow> string" where
  "queue_block_reason v q pats f =
     (if fa_remote_size (attrs f) = None then ''missing_remote''
      else if \<not> a_remote_content (attrs f) then ''no_transferable_remote_content''
      else if mf_state f \<noteq> DEFAULT then ''state_not_default''
      else if opt_holds (\<lambda>n. n \<noteq> 0) (fa_local_size (attrs f)) then ''local_present''
      else if aq_patterns_only q \<and> \<not> some_match pats f then ''pattern_no_match''
      else if cv_is_file_stopped v (file_id f) then ''explicitly_stopped''
      else ''filtered_out'')"

definition extract_block_reason :: "auto_queue \<Rightarrow> string set \<Rightarrow> model_file \<Rightarrow> string" where
  "extract_block_reason q pats f =
     (if \<not> aq_auto_extract q then ''auto_extract_disabled''
      else if mf_state f \<noteq> DOWNLOADED then ''state_not_downloaded''
      else case fa_local_size (attrs f) of
          None \<Rightarrow> ''missing_local_size''
        | Some n \<Rightarrow>
            if n \<le> 0 then ''empty_local_size''
            else if \<not> a_is_extractable (attrs f) then ''not_extractable''
            else if aq_patterns_only q \<and> \<not> some_match pats f then ''pattern_no_match''
            else ''filtered_out'')"

text \<open>The loop of \<open>summarize_auto_queue_decisions\<close>: the identities seen, the counts, and the reasons of
  the first three samples.\<close>

fun summarize_loop :: "(model_file \<Rightarrow> string) \<Rightarrow> string list \<Rightarrow> model_file list \<Rightarrow> string list \<Rightarrow>
    (string, nat) dict \<Rightarrow> (string \<times> string) list \<Rightarrow> (string, nat) dict \<times> (string \<times> string) list" where
  "summarize_loop reason selected [] seen counts samples = (counts, samples)"
| "summarize_loop reason selected (f # fs) seen counts samples =
     (if file_id f \<in> set seen then summarize_loop reason selected fs seen counts samples
      else if file_id f \<in> set selected then summarize_loop reason selected fs (file_id f # seen) counts samples
      else let r = reason f;
               n = (case dict_get counts r of None \<Rightarrow> 0 | Some n \<Rightarrow> n)
           in summarize_loop reason selected fs (file_id f # seen) (dict_set r (n + 1) counts)
                (if length samples < 3 then samples @ [(file_id f, r)] else samples))"

definition summarize_auto_queue_decisions ::
  "(model_file \<Rightarrow> string) \<Rightarrow> model_file list \<Rightarrow> string list \<Rightarrow> (string, nat) dict \<times> (string \<times> string) list" where
  "summarize_auto_queue_decisions reason candidates selected = summarize_loop reason selected candidates [] [] []"

section \<open>The queue lane\<close>

definition accept_discovered :: "controller_view \<Rightarrow> auto_queue \<Rightarrow> model_file \<Rightarrow> bool" where
  "accept_discovered v q f \<longleftrightarrow>
     a_remote_content (attrs f) \<and> mf_state f = DEFAULT \<and>
     (\<not> a_local_present (attrs f) \<or> is_owned_incomplete_directory v f) \<and>
     is_auto_queue_enabled_for_file q f"

definition accept_updated :: "controller_view \<Rightarrow> auto_queue \<Rightarrow> (string, bool) dict \<Rightarrow> model_file \<Rightarrow> bool" where
  "accept_updated v q proofs f \<longleftrightarrow>
     a_remote_content (attrs f) \<and> mf_state f = DEFAULT \<and>
     (\<not> a_local_present (attrs f) \<or> is_owned_incomplete_directory v f \<or>
        dict_get proofs (file_id f) = Some True) \<and>
     is_auto_queue_enabled_for_file q f"

text \<open>The modified files whose remote side changed: those that were remote before, with the proof of a
  new remote branch, and those discovered now.\<close>

record modified_split =
  ms_updated :: "model_file list"
  ms_proofs :: "(string, bool) dict"
  ms_discovered :: "model_file list"

definition split_modified_one :: "model_file \<times> model_file \<Rightarrow> modified_split \<Rightarrow> modified_split" where
  "split_modified_one on s =
     (let old_file = fst on; new_file = snd on; k = file_id new_file
      in if \<not> is_remote_discovery_changed old_file new_file then s
         else if a_remote_present (attrs old_file) then
           s\<lparr>ms_updated := ms_updated s @ [new_file],
             ms_proofs := dict_set k (dict_get (ms_proofs s) k = Some True \<or> has_new_branch old_file new_file)
                            (ms_proofs s)\<rparr>
         else s\<lparr>ms_discovered := ms_discovered s @ [new_file]\<rparr>)"

definition split_modified :: "(model_file \<times> model_file) list \<Rightarrow> modified_split" where
  "split_modified ms = fold split_modified_one ms \<lparr>ms_updated = [], ms_proofs = [], ms_discovered = []\<rparr>"

record queue_lane =
  ql_new :: "candidate_match list"
  ql_modified :: "candidate_match list"
  ql_selected :: "candidate_match list"
  ql_reasons :: "(string, nat) dict"
  ql_samples :: "(string \<times> string) list"

definition merge_matches :: "candidate_match list \<Rightarrow> candidate_match list \<Rightarrow> (string, candidate_match) dict" where
  "merge_matches new modified =
     fold (\<lambda>m. dict_set (file_id (fst m)) m) modified (fold (\<lambda>m. dict_set (file_id (fst m)) m) new [])"

definition queue_files ::
  "controller_view \<Rightarrow> auto_queue \<Rightarrow> string set \<Rightarrow> string set \<Rightarrow> (string, model_file) dict \<Rightarrow> queue_lane" where
  "queue_files v q pats new_patterns current =
     (if \<not> aq_queue_enabled q then
        \<lparr>ql_new = [], ql_modified = [], ql_selected = [], ql_reasons = [], ql_samples = []\<rparr>
      else let
          new = filter_candidates v q pats new_patterns current (accept_discovered v q) (aq_new_files q);
          split = split_modified (aq_modified q);
          candidates = fold (\<lambda>f. dict_set (file_id f) f) (aq_new_files q @ ms_updated split @ ms_discovered split) [];
          updated = filter_candidates v q pats new_patterns current
                      (accept_updated v q (ms_proofs split)) (ms_updated split);
          discovered = filter_candidates v q pats new_patterns current (accept_discovered v q) (ms_discovered split);
          selected = filter (\<lambda>m. \<not> cv_is_file_stopped v (file_id (fst m)))
                       (map snd (merge_matches new (updated @ discovered)));
          summary = summarize_auto_queue_decisions (queue_block_reason v q pats) (map snd candidates)
                      (map (\<lambda>m. file_id (fst m)) selected)
        in \<lparr>ql_new = new, ql_modified = updated @ discovered, ql_selected = selected,
            ql_reasons = fst summary, ql_samples = snd summary\<rparr>)"

section \<open>The extract lane\<close>

definition just_downloaded :: "model_file \<times> model_file \<Rightarrow> bool" where
  "just_downloaded on \<longleftrightarrow>
     mf_state (fst on) \<noteq> DOWNLOADED \<and> mf_state (fst on) \<noteq> EXTRACTING \<and> mf_state (snd on) = DOWNLOADED"

definition accept_extract :: "model_file \<Rightarrow> bool" where
  "accept_extract f \<longleftrightarrow>
     mf_state f = DOWNLOADED \<and> opt_holds (\<lambda>n. 0 < n) (fa_local_size (attrs f)) \<and> a_is_extractable (attrs f)"

record extract_lane =
  el_selected :: "candidate_match list"
  el_reasons :: "(string, nat) dict"
  el_samples :: "(string \<times> string) list"

definition extract_files ::
  "controller_view \<Rightarrow> auto_queue \<Rightarrow> string set \<Rightarrow> string set \<Rightarrow> (string, model_file) dict \<Rightarrow> extract_lane" where
  "extract_files v q pats new_patterns current =
     (let candidates = (if aq_enabled q \<and> aq_auto_extract q
                        then aq_new_files q @ map snd (filter just_downloaded (aq_modified q)) else []);
          selected = (if aq_enabled q \<and> aq_auto_extract q
                      then filter_candidates v q pats new_patterns current accept_extract candidates else []);
          summary = summarize_auto_queue_decisions (extract_block_reason q pats) candidates
                      (map (\<lambda>m. file_id (fst m)) selected)
      in \<lparr>el_selected = selected, el_reasons = fst summary, el_samples = snd summary\<rparr>)"

text \<open>Extractable downloads that no pattern selects: their extracted marker is cleared.\<close>

definition blocked_extract_candidates :: "auto_queue \<Rightarrow> candidate_match list \<Rightarrow> model_file list" where
  "blocked_extract_candidates q selected =
     (if aq_enabled q \<and> aq_auto_extract q \<and> aq_patterns_only q then
        map snd (filter (\<lambda>on. just_downloaded on \<and>
            opt_holds (\<lambda>n. 0 < n) (fa_local_size (attrs (snd on))) \<and> a_is_extractable (attrs (snd on)) \<and>
            file_id (snd on) \<notin> (\<lambda>m. file_id (fst m)) ` set selected) (aq_modified q))
      else [])"

section \<open>The delete lane\<close>

record delete_sets =
  ds_deferred :: "string set"
  ds_initial :: "string set"
  ds_matched :: "(string, candidate_match) dict"

text \<open>Evidence that this process completed the transfer.\<close>

definition completion_evidence :: "controller_view \<Rightarrow> model_file \<Rightarrow> model_file \<Rightarrow> bool" where
  "completion_evidence v old_file current_file \<longleftrightarrow>
     is_active_transfer_state (mf_state old_file) \<or> cv_has_final_publication v current_file"

definition delete_new_file :: "controller_view \<Rightarrow> (string, model_file) dict \<Rightarrow> model_file \<Rightarrow> delete_sets \<Rightarrow> delete_sets" where
  "delete_new_file v current f s =
     (case dict_get current (file_id f) of
        None \<Rightarrow> s
      | Some c \<Rightarrow> if is_reconciliation_ready v c then s else s\<lparr>ds_initial := insert (file_id c) (ds_initial s)\<rparr>)"

text \<open>The end of the loop body: the pair, the controller, the transition and the patterns decide.\<close>

definition delete_match ::
  "controller_view \<Rightarrow> auto_queue \<Rightarrow> string set \<Rightarrow> model_file \<Rightarrow> model_file \<Rightarrow> delete_sets \<Rightarrow> delete_sets" where
  "delete_match v q pats old_file c s =
     (if \<not> is_auto_queue_enabled_for_file q c then s
      else if \<not> cv_is_delete_eligible v c then s
      else if \<not> is_remote_delete_transition old_file c then s
      else if aq_patterns_only q then
        (case find (\<lambda>pat. aq_match pat c) (pattern_order pats) of
           None \<Rightarrow> s
         | Some pat \<Rightarrow> s\<lparr>ds_matched := dict_set (file_id c) (c, Some pat) (ds_matched s)\<rparr>)
      else s\<lparr>ds_matched := dict_set (file_id c) (c, None) (ds_matched s)\<rparr>)"

definition delete_modified ::
  "controller_view \<Rightarrow> auto_queue \<Rightarrow> string set \<Rightarrow> (string, model_file) dict \<Rightarrow> model_file \<times> model_file \<Rightarrow>
   delete_sets \<Rightarrow> delete_sets" where
  "delete_modified v q pats current on s =
     (case dict_get current (file_id (snd on)) of
        None \<Rightarrow> s
      | Some c \<Rightarrow>
          if \<not> is_reconciliation_ready v c then s\<lparr>ds_deferred := insert (file_id c) (ds_deferred s)\<rparr>
          else if file_id c \<in> ds_deferred s \<and> \<not> completion_evidence v (fst on) c then s
          else let s1 = s\<lparr>ds_deferred := ds_deferred s - {file_id c}\<rparr>
            in if file_id c \<in> ds_initial s1 \<and> \<not> completion_evidence v (fst on) c then s1
               else let s2 = s1\<lparr>ds_initial := ds_initial s1 - {file_id c}\<rparr>
                 in delete_match v q pats (fst on) c s2)"

definition filter_delete_remote_candidates ::
  "controller_view \<Rightarrow> auto_queue \<Rightarrow> string set \<Rightarrow> (string, model_file) dict \<Rightarrow> delete_sets" where
  "filter_delete_remote_candidates v q pats current =
     (let s0 = \<lparr>ds_deferred = aq_deferred q, ds_initial = aq_initial q, ds_matched = []\<rparr>
      in if \<not> aq_auto_delete_remote q then s0
         else fold (delete_modified v q pats current) (aq_modified q)
                (fold (delete_new_file v current) (aq_new_files q) s0))"

section \<open>Commands and retention\<close>

definition to_command :: "controller_view \<Rightarrow> nat \<Rightarrow> aq_action \<Rightarrow> candidate_match \<Rightarrow> aq_command" where
  "to_command v cycle act m =
     \<lparr>cmd_action = act, cmd_file_id = file_id (fst m), cmd_cycle = cycle,
      cmd_token = (if act = AQ_DELETE_REMOTE then Some (cv_lifecycle_token v (fst m)) else None)\<rparr>"

text \<open>\<open>queue_command\<close> one after the other: the commands the controller took, and whether it raised.\<close>

fun send :: "controller_view \<Rightarrow> aq_command list \<Rightarrow> aq_command list \<times> bool" where
  "send v [] = ([], True)"
| "send v (c # cs) =
     (if cv_refuses v c then ([], False) else let (sent, fine) = send v cs in (c # sent, fine))"

definition retain_remote_growth_event ::
  "controller_view \<Rightarrow> auto_queue \<Rightarrow> string set \<Rightarrow> (string, model_file) dict \<Rightarrow> string set \<Rightarrow>
   model_file \<times> model_file \<Rightarrow> bool" where
  "retain_remote_growth_event v q pats current selected on =
     (case dict_get current (file_id (snd on)) of
        None \<Rightarrow> False
      | Some c \<Rightarrow>
          if \<not> is_reconciliation_ready v (snd on) then True
          else if \<not> is_active_transfer_state (mf_state (fst on)) \<or> \<not> is_remote_discovery_changed (fst on) (snd on)
          then False
          else if file_id (snd on) \<in> selected then False
          else if \<not> a_is_dir (attrs c) \<or> \<not> a_remote_content (attrs c) then False
          else if is_active_transfer_state (mf_state c) then \<not> cv_is_file_stopped v (file_id c)
          else if mf_state c \<noteq> DEFAULT \<or> cv_is_file_stopped v (file_id c) then False
          else if \<not> is_owned_incomplete_directory v c then False
          else if \<not> is_auto_queue_enabled_for_file q c then False
          else \<not> aq_patterns_only q \<or> some_match pats c)"

section \<open>One cycle\<close>

record cycle_report =
  cr_new_candidates :: nat
  cr_modified_candidates :: nat
  cr_queue_count :: nat
  cr_extract_count :: nat
  cr_queue_reasons :: "(string, nat) dict"
  cr_extract_reasons :: "(string, nat) dict"
  cr_samples :: "(string \<times> string) list"

definition idle_report :: cycle_report where
  "idle_report = \<lparr>cr_new_candidates = 0, cr_modified_candidates = 0, cr_queue_count = 0, cr_extract_count = 0,
     cr_queue_reasons = [], cr_extract_reasons = [], cr_samples = []\<rparr>"

record cycle_result =
  cy_commands :: "aq_command list"
  cy_cleared :: "model_file list"
  cy_report :: "cycle_report option"
  cy_raised :: bool

definition quiet_cycle :: cycle_result where
  "quiet_cycle = \<lparr>cy_commands = [], cy_cleared = [], cy_report = None, cy_raised = False\<rparr>"

text \<open>The handler of an exception: the patterns drained for this cycle are new again, except those
  removed in the meantime.\<close>

definition restore_drained :: "string set \<Rightarrow> string set \<Rightarrow> auto_queue \<Rightarrow> auto_queue" where
  "restore_drained pats drained q =
     q\<lparr>aq_new_patterns := restore_new_patterns (drained \<inter> pats) (aq_new_patterns q)\<rparr>"

text \<open>The body under \<open>try\<close>, with the current roots at hand.\<close>

definition active_cycle ::
  "controller_view \<Rightarrow> string set \<Rightarrow> string set \<Rightarrow> (string, model_file) dict \<Rightarrow> auto_queue \<Rightarrow> cycle_result \<times> auto_queue" where
  "active_cycle v pats drained current q =
     (let ql = queue_files v q pats drained current;
          el = extract_files v q pats drained current;
          cleared = blocked_extract_candidates q (el_selected el);
          ds = (if aq_enabled q then filter_delete_remote_candidates v q pats current
                else \<lparr>ds_deferred = aq_deferred q, ds_initial = aq_initial q, ds_matched = []\<rparr>);
          report = \<lparr>cr_new_candidates = length (ql_new ql), cr_modified_candidates = length (ql_modified ql),
            cr_queue_count = length (ql_selected ql), cr_extract_count = length (el_selected el),
            cr_queue_reasons = ql_reasons ql, cr_extract_reasons = el_reasons el,
            cr_samples = take 5 (ql_samples ql @ el_samples el)\<rparr>;
          commands = map (to_command v (aq_cycle q) AQ_QUEUE) (ql_selected ql) @
            map (to_command v (aq_cycle q) AQ_EXTRACT) (el_selected el) @
            map (to_command v (aq_cycle q) AQ_DELETE_REMOTE) (map snd (ds_matched ds));
          q1 = q\<lparr>aq_deferred := ds_deferred ds, aq_initial := ds_initial ds\<rparr>;
          outcome = send v commands
      in if \<not> snd outcome then
           (\<lparr>cy_commands = fst outcome, cy_cleared = cleared, cy_report = Some report, cy_raised = True\<rparr>,
            restore_drained pats drained q1)
         else
           (\<lparr>cy_commands = fst outcome, cy_cleared = cleared, cy_report = Some report, cy_raised = False\<rparr>,
            q1\<lparr>aq_deferred := aq_deferred q1 \<inter> set (dict_keys current),
               aq_initial := aq_initial q1 \<inter> set (dict_keys current),
               aq_new_files := filter (\<lambda>f. file_id f \<in> set (dict_keys current) \<and> \<not> is_reconciliation_ready v f)
                 (aq_new_files q1),
               aq_modified := filter (retain_remote_growth_event v q1 pats current
                 ((\<lambda>m. file_id (fst m)) ` set (ql_selected ql))) (aq_modified q1)\<rparr>))"

definition forget_removed :: "auto_queue \<Rightarrow> auto_queue" where
  "forget_removed q =
     q\<lparr>aq_deferred := aq_deferred q - aq_removed q, aq_initial := aq_initial q - aq_removed q, aq_removed := {}\<rparr>"

definition process_once ::
  "controller_view \<Rightarrow> pair_source \<Rightarrow> string set \<Rightarrow> auto_queue \<Rightarrow> cycle_result \<times> auto_queue" where
  "process_once v pairs pats q =
     (let q1 = forget_removed (refresh_queue_state pairs q)
      in if \<not> aq_enabled q1 \<and> \<not> aq_queue_enabled q1 then (quiet_cycle, discard_inactive_buffers q1)
         else let
             (drained, rest) = drain_new_patterns (aq_new_patterns q1);
             q2 = q1\<lparr>aq_cycle := Suc (aq_cycle q1), aq_new_patterns := rest\<rparr>
           in if drained = {} \<and> aq_new_files q2 = [] \<and> aq_modified q2 = [] then
                (if aq_idle_recorded q2 then (quiet_cycle, q2)
                 else (quiet_cycle\<lparr>cy_report := Some idle_report\<rparr>, q2\<lparr>aq_idle_recorded := True\<rparr>))
              else let q3 = q2\<lparr>aq_idle_recorded := False\<rparr>
                in case cv_roots v of
                     Inl e \<Rightarrow> (quiet_cycle\<lparr>cy_raised := True\<rparr>, restore_drained pats drained q3)
                   | Inr roots \<Rightarrow> active_cycle v pats drained (by_id roots) q3)"

text \<open>Construction: the initial files go through the listener when anything may become active.\<close>

definition start_auto_queue ::
  "bool \<Rightarrow> bool \<Rightarrow> bool \<Rightarrow> bool \<Rightarrow> pair_source \<Rightarrow> model_file list \<Rightarrow> auto_queue" where
  "start_auto_queue enabled patterns_only auto_extract auto_delete_remote pairs initial_files =
     (let q = refresh_queue_state pairs (new_auto_queue enabled patterns_only auto_extract auto_delete_remote)
      in if aq_enabled q \<or> aq_queue_enabled q \<or> auto_extract \<or> auto_delete_remote \<or> pairs \<noteq> NoManager
         then fold aq_file_added initial_files q else q)"

end
