(* ===== verification/Auto_Queue_Lanes.thy ===== *)
theory Auto_Queue_Lanes
  imports Auto_Queue
begin

text \<open>
  What the three lanes of \<open>AutoQueue\<close> select, as facts about the current roots: which files are
  queued, which are extracted, and from which transitions a remote file is deleted.
\<close>

section \<open>Dictionaries with a property\<close>

definition dict_all :: "('k \<Rightarrow> 'v \<Rightarrow> bool) \<Rightarrow> ('k, 'v) dict \<Rightarrow> bool" where
  "dict_all P d \<longleftrightarrow> dict_ok d \<and> (\<forall>k v. map_of d k = Some v \<longrightarrow> P k v)"

lemma dict_all_Nil [simp]: "dict_all P []"
  by (simp add: dict_all_def)

lemma dict_allD: "dict_all P d \<Longrightarrow> map_of d k = Some v \<Longrightarrow> P k v"
  by (simp add: dict_all_def)

lemma dict_all_set: "dict_all P d \<Longrightarrow> P k v \<Longrightarrow> dict_all P (dict_set k v d)"
  by (auto simp: dict_all_def)

lemma dict_all_value: "dict_all P d \<Longrightarrow> v \<in> set (map snd d) \<Longrightarrow> \<exists>k. map_of d k = Some v \<and> P k v"
proof -
  assume d: "dict_all P d" and "v \<in> set (map snd d)"
  then obtain k where "(k, v) \<in> set d" by auto
  moreover have "dict_ok d" using d by (simp only: dict_all_def)
  ultimately have "map_of d k = Some v" by (intro map_of_is_SomeI)
  with d show ?thesis by (auto simp: dict_all_def)
qed

lemma fold_keeps:
  assumes "\<And>x s. x \<in> set xs \<Longrightarrow> I s \<Longrightarrow> I (f x s)" "I s"
  shows "I (fold f xs s)"
  using assms by (induction xs arbitrary: s) auto

lemma fold_reaches:
  assumes "x \<in> set xs" "\<And>s. J (f x s)" "\<And>y s. J s \<Longrightarrow> J (f y s)"
  shows "J (fold f xs s)"
  using assms(1)
proof (induction xs arbitrary: s)
  case (Cons y ys)
  have keep: "J t \<Longrightarrow> J (fold f zs t)" for zs t by (induction zs arbitrary: t) (auto intro: assms(3))
  show ?case
  proof (cases "x = y")
    case True
    with assms(2) keep show ?thesis by simp
  qed (use Cons in simp)
qed simp

section \<open>The current roots\<close>

definition keyed :: "(string, model_file) dict \<Rightarrow> bool" where
  "keyed current \<longleftrightarrow> dict_all (\<lambda>k f. file_id f = k) current"

lemma keyed_by_id: "keyed (by_id fs)"
  unfolding keyed_def by_id_def by (rule fold_keeps) (auto intro: dict_all_set)

lemma keyed_value: "keyed current \<Longrightarrow> f \<in> set (map snd current) \<Longrightarrow> map_of current (file_id f) = Some f"
  unfolding keyed_def by (drule (1) dict_all_value) auto

lemma keyed_id: "keyed current \<Longrightarrow> map_of current k = Some f \<Longrightarrow> file_id f = k"
  by (simp add: keyed_def dict_all_def)

section \<open>Candidates\<close>

lemma set_pattern_order [simp]: "finite S \<Longrightarrow> set (pattern_order S) = S"
  by (simp add: pattern_order_def)

definition pattern_fits :: "auto_queue \<Rightarrow> string set \<Rightarrow> candidate_match \<Rightarrow> bool" where
  "pattern_fits q pats m \<longleftrightarrow>
     (case snd m of
        None \<Rightarrow> \<not> aq_patterns_only q
      | Some pat \<Rightarrow> pat \<in> pats \<and> aq_match pat (fst m))"

definition selection_ok ::
  "controller_view \<Rightarrow> auto_queue \<Rightarrow> string set \<Rightarrow> (string, model_file) dict \<Rightarrow> (model_file \<Rightarrow> bool) \<Rightarrow>
   candidate_match \<Rightarrow> bool" where
  "selection_ok v q pats current accept m \<longleftrightarrow>
     map_of current (file_id (fst m)) = Some (fst m) \<and> is_reconciliation_ready v (fst m) \<and>
     accept (fst m) \<and> pattern_fits q pats m"

lemma match_one_ok:
  assumes "match_one v q pats accept f = Some m" "finite pats"
  shows "fst m = f \<and> accept f \<and> pattern_fits q pats m"
  using assms
  by (auto simp: match_one_def pattern_fits_def find_Some_iff split: if_splits option.splits)
    (metis nth_mem set_pattern_order)

text \<open>The dictionary \<open>files_matched\<close> at the end of \<open>filter_candidates\<close>.\<close>

definition matched_files ::
  "controller_view \<Rightarrow> auto_queue \<Rightarrow> string set \<Rightarrow> string set \<Rightarrow> (string, model_file) dict \<Rightarrow>
   (model_file \<Rightarrow> bool) \<Rightarrow> model_file list \<Rightarrow> (string, candidate_match) dict" where
  "matched_files v q pats new_patterns current accept candidates =
     fold (\<lambda>pat. fold (match_new_pattern v accept pat) (map snd current)) (pattern_order new_patterns)
       (fold (match_candidate v q pats accept current) candidates [])"

lemma filter_candidates_eq:
  "filter_candidates v q pats new_patterns current accept candidates =
   map snd (matched_files v q pats new_patterns current accept candidates)"
  by (simp add: filter_candidates_def matched_files_def Let_def)

lemma matched_files_keeps:
  assumes "\<And>c d. c \<in> set candidates \<Longrightarrow> I d \<Longrightarrow> I (match_candidate v q pats accept current c d)"
    and "\<And>pat f d. pat \<in> new_patterns \<Longrightarrow> f \<in> set (map snd current) \<Longrightarrow> I d \<Longrightarrow> I (match_new_pattern v accept pat f d)"
    and "finite new_patterns" "I []"
  shows "I (matched_files v q pats new_patterns current accept candidates)"
proof -
  have "I (fold (match_candidate v q pats accept current) candidates [])"
    by (rule fold_keeps[where I = I, OF assms(1) assms(4)])
  moreover have "I (fold (match_new_pattern v accept pat) (map snd current) d)"
    if "pat \<in> set (pattern_order new_patterns)" "I d" for pat d
    by (rule fold_keeps[where I = I, OF assms(2) that(2)]) (use that(1) assms(3) in simp_all)
  ultimately show ?thesis
    unfolding matched_files_def by (rule fold_keeps[where I = I, rotated])
qed

lemma matched_files_ok:
  assumes "keyed current" "finite pats" "finite new_patterns"
  shows "dict_all (\<lambda>k m. file_id (fst m) = k \<and> selection_ok v q (pats \<union> new_patterns) current accept m)
    (matched_files v q pats new_patterns current accept candidates)"
    (is "dict_all ?P _")
proof (rule matched_files_keeps[where I = "dict_all ?P", OF _ _ assms(3) dict_all_Nil])
  fix c d
  assume d: "dict_all ?P d"
  show "dict_all ?P (match_candidate v q pats accept current c d)"
  proof (cases "map_of current (file_id c)")
    case (Some f)
    have "?P (file_id f) m" if "match_one v q pats accept f = Some m" "is_reconciliation_ready v f" for m
      using match_one_ok[OF that(1) assms(2)] that(2) Some keyed_id[OF assms(1) Some]
      by (auto simp: selection_ok_def pattern_fits_def split: option.splits)
    with Some d show ?thesis by (auto simp: match_candidate_def intro: dict_all_set split: option.splits)
  qed (use d in \<open>simp add: match_candidate_def\<close>)
next
  fix pat f d
  assume "pat \<in> new_patterns" "f \<in> set (map snd current)" "dict_all ?P d"
  then show "dict_all ?P (match_new_pattern v accept pat f d)"
    using keyed_value[OF assms(1), of f]
    by (auto simp: match_new_pattern_def selection_ok_def pattern_fits_def intro: dict_all_set)
qed

lemma filter_candidates_sound:
  assumes "keyed current" "finite pats" "finite new_patterns"
    and "m \<in> set (filter_candidates v q pats new_patterns current accept candidates)"
  shows "selection_ok v q (pats \<union> new_patterns) current accept m"
  using assms(4) dict_all_value[OF matched_files_ok[OF assms(1-3)]] unfolding filter_candidates_eq by blast

lemma distinct_values:
  "dict_all (\<lambda>k m. g m = k) d \<Longrightarrow> distinct (map g (map snd d))"
proof -
  assume d: "dict_all (\<lambda>k m. g m = k) d"
  have ok: "dict_ok d" using d by (simp only: dict_all_def)
  have "g (snd x) = fst x" if "x \<in> set d" for x
    using d map_of_is_SomeI[OF ok, of "fst x" "snd x"] that by (simp add: dict_all_def)
  then have "map g (map snd d) = map fst d" by simp
  with ok show ?thesis by (simp only:)
qed

text \<open>A candidate that is current, reconciled, acceptable and fits the patterns is selected.\<close>

lemma match_one_complete:
  assumes "accept f" "\<not> aq_patterns_only q \<or> (\<exists>pat\<in>pats. aq_match pat f)" "finite pats"
  shows "\<exists>m. match_one v q pats accept f = Some m"
proof (cases "aq_patterns_only q")
  case True
  then obtain pat where "pat \<in> set (pattern_order pats)" "aq_match pat f" using assms by auto
  then have "find (\<lambda>pat. accept f \<and> aq_match pat f) (pattern_order pats) \<noteq> None"
    using assms(1) by (auto simp: find_None_iff)
  with True show ?thesis by (auto simp: match_one_def)
qed (use assms(1) in \<open>simp add: match_one_def\<close>)

lemma filter_candidates_complete:
  assumes "keyed current" "finite pats" "finite new_patterns"
    and "c \<in> set candidates" "map_of current (file_id c) = Some f" "is_reconciliation_ready v f" "accept f"
    and "\<not> aq_patterns_only q \<or> (\<exists>pat\<in>pats. aq_match pat f)"
  shows "\<exists>m\<in>set (filter_candidates v q pats new_patterns current accept candidates). fst m = f"
proof -
  let ?J = "\<lambda>d. map_of d (file_id f) \<noteq> None"
  obtain m0 where "match_one v q pats accept f = Some m0"
    using match_one_complete[of accept f q pats v] assms by blast
  then have hit: "?J (match_candidate v q pats accept current c d)" for d
    using assms by (simp add: match_candidate_def)
  have keep1: "?J d \<Longrightarrow> ?J (match_candidate v q pats accept current y d)" for y d
    by (auto simp: match_candidate_def split: option.splits)
  have keep2: "?J d \<Longrightarrow> ?J (match_new_pattern v accept pat y d)" for pat y d
    by (auto simp: match_new_pattern_def)
  have j1: "?J (fold (match_candidate v q pats accept current) candidates [])"
    by (rule fold_reaches[where J = ?J, OF assms(4)], rule hit, rule keep1)
  have "?J (fold (match_new_pattern v accept pat) (map snd current) d)" if "?J d" for pat d
    by (rule fold_keeps[where I = ?J, OF keep2 that])
  then have "?J (matched_files v q pats new_patterns current accept candidates)"
    unfolding matched_files_def by (rule fold_keeps[where I = ?J, OF _ j1])
  then obtain m where m: "map_of (matched_files v q pats new_patterns current accept candidates) (file_id f) = Some m"
    by auto
  moreover have "file_id (fst m) = file_id f \<and> selection_ok v q (pats \<union> new_patterns) current accept m"
    by (rule dict_allD[OF matched_files_ok[OF assms(1-3)] m])
  moreover have "file_id f = file_id c" by (rule keyed_id[OF assms(1,5)])
  ultimately have "map_of current (file_id f) = Some (fst m)" unfolding selection_ok_def by metis
  with \<open>file_id f = file_id c\<close> assms(5) have "fst m = f" by simp
  with map_of_SomeD[OF m] show ?thesis unfolding filter_candidates_eq by force
qed

section \<open>The queue lane\<close>

text \<open>A root may be queued when it is \<open>DEFAULT\<close> with transferable remote content, not stopped,
  enabled and reconciled, and either nothing of it is local, or it is a partial directory the
  controller owns, or an update brought a remote branch that is not local.\<close>

definition new_branch_proved :: "auto_queue \<Rightarrow> string \<Rightarrow> bool" where
  "new_branch_proved q k \<longleftrightarrow>
     list_ex (\<lambda>on. file_id (snd on) = k \<and> a_remote_present (attrs (fst on)) \<and> has_new_branch (fst on) (snd on))
       (aq_modified q)"

definition queue_allowed :: "controller_view \<Rightarrow> auto_queue \<Rightarrow> string set \<Rightarrow> model_file \<Rightarrow> bool" where
  "queue_allowed v q pats f \<longleftrightarrow>
     aq_queue_enabled q \<and> a_remote_content (attrs f) \<and> mf_state f = DEFAULT \<and>
     (\<not> a_local_present (attrs f) \<or> is_owned_incomplete_directory v f \<or> new_branch_proved q (file_id f)) \<and>
     is_auto_queue_enabled_for_file q f \<and> is_reconciliation_ready v f \<and>
     \<not> cv_is_file_stopped v (file_id f) \<and> (aq_patterns_only q \<longrightarrow> (\<exists>pat\<in>pats. aq_match pat f))"

lemma split_modified_snoc: "split_modified (ms @ [on]) = split_modified_one on (split_modified ms)"
  by (simp add: split_modified_def)

lemma split_modified_proofs:
  "map_of (ms_proofs (split_modified ms)) k = Some True \<Longrightarrow>
   \<exists>on\<in>set ms. file_id (snd on) = k \<and> a_remote_present (attrs (fst on)) \<and> has_new_branch (fst on) (snd on)"
proof (induction ms rule: rev_induct)
  case Nil
  then show ?case by (simp add: split_modified_def)
next
  case (snoc on ms)
  show ?case
  proof (cases "map_of (ms_proofs (split_modified ms)) k = Some True")
    case True
    with snoc.IH show ?thesis by auto
  next
    case False
    with snoc.prems show ?thesis
      by (auto simp: split_modified_snoc split_modified_one_def Let_def split: if_splits)
  qed
qed

lemma merge_matches_ok:
  assumes "\<And>m. m \<in> set new \<Longrightarrow> Q m" "\<And>m. m \<in> set modified \<Longrightarrow> Q m"
  shows "dict_all (\<lambda>k m. file_id (fst m) = k \<and> Q m) (merge_matches new modified)"
proof -
  let ?P = "dict_all (\<lambda>k m. file_id (fst m) = k \<and> Q m)"
  have new: "?P (fold (\<lambda>m. dict_set (file_id (fst m)) m) new [])"
    by (rule fold_keeps[where I = ?P]) (simp_all add: dict_all_set assms(1))
  show ?thesis unfolding merge_matches_def
    by (rule fold_keeps[where I = ?P, OF _ new]) (simp add: dict_all_set assms(2))
qed

lemma merge_matches_complete:
  assumes "m \<in> set new \<or> m \<in> set modified"
  shows "map_of (merge_matches new modified) (file_id (fst m)) \<noteq> None"
proof -
  let ?J = "\<lambda>d. map_of d (file_id (fst m)) \<noteq> None"
  let ?f = "\<lambda>m. dict_set (file_id (fst m)) m"
  have keep: "?J d \<Longrightarrow> ?J (?f y d)" for y d by simp
  have hit: "?J (?f m d)" for d by simp
  show ?thesis
  proof (cases "m \<in> set modified")
    case True
    then show ?thesis unfolding merge_matches_def by (rule fold_reaches[where J = ?J and f = ?f, OF _ hit keep])
  next
    case False
    with assms have "m \<in> set new" by simp
    then have "?J (fold ?f new [])" by (rule fold_reaches[where J = ?J and f = ?f, OF _ hit keep])
    moreover have "?J (fold ?f modified d)" if "?J d" for d
      using that by (induction modified arbitrary: d) auto
    ultimately show ?thesis unfolding merge_matches_def by blast
  qed
qed

lemma accept_discovered_updated: "accept_discovered v q f \<Longrightarrow> accept_updated v q proofs f"
  by (auto simp: accept_discovered_def accept_updated_def)

lemma selection_ok_mono:
  "selection_ok v q pats current accept m \<Longrightarrow> (\<And>f. accept f \<Longrightarrow> accept' f) \<Longrightarrow> selection_ok v q pats current accept' m"
  by (auto simp: selection_ok_def)

lemma selection_queue_allowed:
  assumes "selection_ok v q pats current (accept_updated v q (ms_proofs (split_modified (aq_modified q)))) m"
    and "aq_queue_enabled q" "\<not> cv_is_file_stopped v (file_id (fst m))"
  shows "map_of current (file_id (fst m)) = Some (fst m) \<and> queue_allowed v q pats (fst m)"
proof -
  have "new_branch_proved q (file_id (fst m))"
    if "map_of (ms_proofs (split_modified (aq_modified q))) (file_id (fst m)) = Some True"
    using split_modified_proofs[OF that] by (auto simp: new_branch_proved_def list_ex_iff)
  moreover have "aq_patterns_only q \<longrightarrow> (\<exists>pat\<in>pats. aq_match pat (fst m))"
    using assms(1) by (auto simp: selection_ok_def pattern_fits_def split: option.splits)
  ultimately show ?thesis
    using assms by (auto simp: selection_ok_def accept_updated_def queue_allowed_def)
qed

lemma queue_files_ok:
  assumes "keyed current" "finite pats" "finite np"
  shows "list_all (\<lambda>m. map_of current (file_id (fst m)) = Some (fst m) \<and> queue_allowed v q (pats \<union> np) (fst m))
      (ql_selected (queue_files v q pats np current))"
    and "distinct (map (\<lambda>m. file_id (fst m)) (ql_selected (queue_files v q pats np current)))"
proof -
  let ?split = "split_modified (aq_modified q)"
  let ?acc = "accept_updated v q (ms_proofs ?split)"
  let ?Q = "selection_ok v q (pats \<union> np) current ?acc"
  define new where "new = filter_candidates v q pats np current (accept_discovered v q) (aq_new_files q)"
  define mods where "mods = filter_candidates v q pats np current ?acc (ms_updated ?split) @
    filter_candidates v q pats np current (accept_discovered v q) (ms_discovered ?split)"
  have sound: "?Q m" if "m \<in> set new \<or> m \<in> set mods" for m
  proof -
    have disc: "selection_ok v q (pats \<union> np) current (accept_discovered v q) m \<Longrightarrow> ?Q m"
      by (erule selection_ok_mono) (rule accept_discovered_updated)
    from that show ?thesis
      unfolding new_def mods_def set_append Un_iff
      using disc filter_candidates_sound[OF assms] by blast
  qed
  have all: "dict_all (\<lambda>k m. file_id (fst m) = k \<and> ?Q m) (merge_matches new mods)"
    by (rule merge_matches_ok) (use sound in blast)+
  have sel: "ql_selected (queue_files v q pats np current) =
      (if aq_queue_enabled q then filter (\<lambda>m. \<not> cv_is_file_stopped v (file_id (fst m))) (map snd (merge_matches new mods)) else [])"
    by (simp add: queue_files_def new_def mods_def Let_def)
  show "list_all (\<lambda>m. map_of current (file_id (fst m)) = Some (fst m) \<and> queue_allowed v q (pats \<union> np) (fst m))
      (ql_selected (queue_files v q pats np current))"
  proof (unfold sel list_all_iff, intro ballI)
    fix m
    assume "m \<in> set (if aq_queue_enabled q then filter (\<lambda>m. \<not> cv_is_file_stopped v (file_id (fst m)))
        (map snd (merge_matches new mods)) else [])"
    then have m: "aq_queue_enabled q" "\<not> cv_is_file_stopped v (file_id (fst m))"
      "m \<in> set (map snd (merge_matches new mods))" by (auto split: if_splits)
    have "?Q m" using dict_all_value[OF all m(3)] by blast
    then show "map_of current (file_id (fst m)) = Some (fst m) \<and> queue_allowed v q (pats \<union> np) (fst m)"
      using m(1,2) by (rule selection_queue_allowed)
  qed
  have "dict_all (\<lambda>k m. file_id (fst m) = k) (merge_matches new mods)"
    using all by (simp add: dict_all_def)
  then have "distinct (map (\<lambda>m. file_id (fst m)) (map snd (merge_matches new mods)))"
    by (rule distinct_values)
  then show "distinct (map (\<lambda>m. file_id (fst m)) (ql_selected (queue_files v q pats np current)))"
    unfolding sel by (cases "aq_queue_enabled q") (simp_all only: if_True if_False distinct_map_filter list.map distinct.simps)
qed

text \<open>A new root that may be queued is queued.\<close>

lemma queue_files_complete:
  assumes "keyed current" "finite pats" "finite np" "aq_queue_enabled q"
    and "c \<in> set (aq_new_files q)" "map_of current (file_id c) = Some f" "accept_discovered v q f"
    and "is_reconciliation_ready v f" "\<not> cv_is_file_stopped v (file_id f)"
    and "\<not> aq_patterns_only q \<or> (\<exists>pat\<in>pats. aq_match pat f)"
  shows "\<exists>m\<in>set (ql_selected (queue_files v q pats np current)). fst m = f"
proof -
  let ?split = "split_modified (aq_modified q)"
  define new where "new = filter_candidates v q pats np current (accept_discovered v q) (aq_new_files q)"
  define mods where "mods = filter_candidates v q pats np current (accept_updated v q (ms_proofs ?split)) (ms_updated ?split) @
    filter_candidates v q pats np current (accept_discovered v q) (ms_discovered ?split)"
  have sel: "ql_selected (queue_files v q pats np current) =
      filter (\<lambda>m. \<not> cv_is_file_stopped v (file_id (fst m))) (map snd (merge_matches new mods))"
    using assms(4) by (simp add: queue_files_def new_def mods_def Let_def)
  obtain m0 where m0: "m0 \<in> set new" "fst m0 = f"
    using filter_candidates_complete[where accept = "accept_discovered v q", OF assms(1-3,5,6,8,7,10)]
    unfolding new_def by blast
  obtain m where m: "map_of (merge_matches new mods) (file_id f) = Some m"
    using merge_matches_complete[of m0 new mods] m0 by auto
  have "dict_all (\<lambda>k m. file_id (fst m) = k \<and> map_of current (file_id (fst m)) = Some (fst m)) (merge_matches new mods)"
    by (rule merge_matches_ok)
      (use filter_candidates_sound[OF assms(1-3)] in \<open>auto simp: new_def mods_def selection_ok_def\<close>)
  from dict_allD[OF this m] keyed_id[OF assms(1,6)] assms(6) have "fst m = f" by (metis option.inject)
  moreover have "m \<in> set (map snd (merge_matches new mods))"
    using map_of_SomeD[OF m] by force
  ultimately show ?thesis unfolding sel using assms(9) by (intro bexI[of _ m]) simp_all
qed

section \<open>The extract lane\<close>

lemma extract_files_ok:
  assumes "keyed current" "finite pats" "finite np"
  shows "list_all (\<lambda>m. map_of current (file_id (fst m)) = Some (fst m) \<and> accept_extract (fst m) \<and>
      is_reconciliation_ready v (fst m) \<and> aq_enabled q \<and> aq_auto_extract q \<and> pattern_fits q (pats \<union> np) m)
      (el_selected (extract_files v q pats np current))"
  using filter_candidates_sound[where accept = accept_extract, OF assms]
  by (auto simp: extract_files_def Let_def list_all_iff selection_ok_def)

section \<open>The delete lane\<close>

definition delete_evidence :: "controller_view \<Rightarrow> auto_queue \<Rightarrow> model_file \<Rightarrow> bool" where
  "delete_evidence v q c \<longleftrightarrow>
     list_ex (\<lambda>on. file_id (snd on) = file_id c \<and> completion_evidence v (fst on) c) (aq_modified q)"

definition delete_allowed :: "controller_view \<Rightarrow> auto_queue \<Rightarrow> string set \<Rightarrow> candidate_match \<Rightarrow> bool" where
  "delete_allowed v q pats m \<longleftrightarrow>
     aq_auto_delete_remote q \<and> is_reconciliation_ready v (fst m) \<and> cv_is_delete_eligible v (fst m) \<and>
     is_auto_queue_enabled_for_file q (fst m) \<and> pattern_fits q pats m \<and>
     list_ex (\<lambda>on. file_id (snd on) = file_id (fst m) \<and> is_remote_delete_transition (fst on) (fst m)) (aq_modified q) \<and>
     (file_id (fst m) \<in> aq_deferred q \<union> aq_initial q \<longrightarrow> delete_evidence v q (fst m))"

text \<open>The invariant of the loop: a file that loses its lineage has shown evidence.\<close>

definition lineage_ok ::
  "controller_view \<Rightarrow> auto_queue \<Rightarrow> string set \<Rightarrow> (string, model_file) dict \<Rightarrow> delete_sets \<Rightarrow> bool" where
  "lineage_ok v q pats current s \<longleftrightarrow>
     (\<forall>k c. map_of current k = Some c \<longrightarrow> k \<in> aq_deferred q \<union> aq_initial q \<longrightarrow>
        k \<in> ds_deferred s \<union> ds_initial s \<or> delete_evidence v q c) \<and>
     dict_all (\<lambda>k m. map_of current k = Some (fst m) \<and> file_id (fst m) = k \<and> delete_allowed v q pats m) (ds_matched s)"

lemma lineage_okD:
  "lineage_ok v q pats current s \<Longrightarrow> map_of current k = Some c \<Longrightarrow> k \<in> aq_deferred q \<union> aq_initial q \<Longrightarrow>
   k \<in> ds_deferred s \<union> ds_initial s \<or> delete_evidence v q c"
  unfolding lineage_ok_def by blast

lemma delete_match_sets [simp]:
  "ds_deferred (delete_match v q pats o' c s) = ds_deferred s" "ds_initial (delete_match v q pats o' c s) = ds_initial s"
  by (simp_all add: delete_match_def split: option.split)

lemma delete_match_ok:
  assumes "lineage_ok v q pats current s" "map_of current (file_id c) = Some c" "finite pats"
    and "on \<in> set (aq_modified q)" "file_id (snd on) = file_id c" "aq_auto_delete_remote q"
    and "is_reconciliation_ready v c" "file_id c \<notin> ds_deferred s" "file_id c \<notin> ds_initial s"
  shows "lineage_ok v q pats current (delete_match v q pats (fst on) c s)"
proof -
  let ?P = "\<lambda>k m. map_of current k = Some (fst m) \<and> file_id (fst m) = k \<and> delete_allowed v q pats m"
  have ev: "file_id c \<in> aq_deferred q \<union> aq_initial q \<longrightarrow> delete_evidence v q c"
    using lineage_okD[OF assms(1,2)] assms(8,9) by blast
  have new: "dict_all ?P (dict_set (file_id c) (c, x) (ds_matched s))"
    if "is_auto_queue_enabled_for_file q c" "cv_is_delete_eligible v c" "is_remote_delete_transition (fst on) c"
      "pattern_fits q pats (c, x)" for x
  proof (rule dict_all_set)
    show "dict_all ?P (ds_matched s)" using assms(1) by (simp add: lineage_ok_def)
    have "list_ex (\<lambda>on. file_id (snd on) = file_id c \<and> is_remote_delete_transition (fst on) c) (aq_modified q)"
      using that(3) assms(4,5) by (auto simp: list_ex_iff)
    with that ev assms(2,6,7) show "?P (file_id c) (c, x)" by (simp add: delete_allowed_def)
  qed
  have "pattern_fits q pats (c, Some pat)" if "find (\<lambda>pat. aq_match pat c) (pattern_order pats) = Some pat" for pat
    using that assms(3) by (auto simp: pattern_fits_def find_Some_iff) (metis nth_mem set_pattern_order)
  moreover have "pattern_fits q pats (c, None)" if "\<not> aq_patterns_only q"
    using that by (simp add: pattern_fits_def)
  ultimately have "dict_all ?P (ds_matched (delete_match v q pats (fst on) c s))"
    using new assms(1) unfolding delete_match_def by (simp add: lineage_ok_def split: option.split)
  then show ?thesis using assms(1) by (simp add: lineage_ok_def)
qed

lemma delete_modified_ok:
  assumes "lineage_ok v q pats current s" "keyed current" "finite pats" "on \<in> set (aq_modified q)"
    and "aq_auto_delete_remote q"
  shows "lineage_ok v q pats current (delete_modified v q pats current on s)"
proof (cases "map_of current (file_id (snd on))")
  case None
  with assms(1) show ?thesis by (simp add: delete_modified_def)
next
  case (Some c)
  have k: "file_id (snd on) = file_id c" using keyed_id[OF assms(2) Some] by simp
  then have cur: "map_of current (file_id c) = Some c" using Some by simp
  let ?ev = "completion_evidence v (fst on) c"
  let ?s1 = "s\<lparr>ds_deferred := ds_deferred s - {file_id c}\<rparr>"
  let ?s2 = "?s1\<lparr>ds_initial := ds_initial s - {file_id c}\<rparr>"
  have evd: "?ev \<Longrightarrow> delete_evidence v q c" using assms(4) k by (auto simp: delete_evidence_def list_ex_iff)
  have other: "map_of current j = Some c' \<Longrightarrow> j \<noteq> file_id c \<Longrightarrow> j \<in> aq_deferred q \<union> aq_initial q \<Longrightarrow>
      j \<in> ds_deferred ?s2 \<union> ds_initial ?s2 \<or> delete_evidence v q c'" for j c'
    using lineage_okD[OF assms(1), of j c'] by auto
  have lose: "lineage_ok v q pats current ?s1" if "file_id c \<notin> ds_deferred s \<or> ?ev"
    using assms(1) that evd cur by (auto simp: lineage_ok_def)
  have lose2: "lineage_ok v q pats current ?s2"
    if "file_id c \<notin> ds_deferred s \<or> ?ev" "file_id c \<notin> ds_initial s \<or> ?ev"
    using lose[OF that(1)] that evd cur by (auto simp: lineage_ok_def)
  have last: "lineage_ok v q pats current (delete_match v q pats (fst on) c ?s2)"
    if "file_id c \<notin> ds_deferred s \<or> ?ev" "file_id c \<notin> ds_initial s \<or> ?ev" "is_reconciliation_ready v c"
    by (rule delete_match_ok[OF lose2[OF that(1,2)] cur assms(3,4) k assms(5) that(3)]) simp_all
  have grow: "lineage_ok v q pats current (s\<lparr>ds_deferred := insert (file_id c) (ds_deferred s)\<rparr>)"
    using assms(1) by (auto simp: lineage_ok_def)
  show ?thesis
    unfolding delete_modified_def Some using assms(1) grow lose last by (simp add: Let_def)
qed

lemma delete_new_file_ok:
  "lineage_ok v q pats current s \<Longrightarrow> lineage_ok v q pats current (delete_new_file v current f s)"
  by (auto simp: delete_new_file_def lineage_ok_def split: option.splits)

lemma filter_delete_remote_ok:
  assumes "keyed current" "finite pats" "aq_auto_delete_remote q"
  shows "lineage_ok v q pats current (filter_delete_remote_candidates v q pats current)"
proof -
  let ?L = "lineage_ok v q pats current"
  let ?s0 = "\<lparr>ds_deferred = aq_deferred q, ds_initial = aq_initial q, ds_matched = []\<rparr>"
  have "?L ?s0" by (simp add: lineage_ok_def)
  then have "?L (fold (delete_new_file v current) (aq_new_files q) ?s0)"
    by (rule fold_keeps[where I = ?L, rotated]) (rule delete_new_file_ok)
  then have "?L (fold (delete_modified v q pats current) (aq_modified q) (fold (delete_new_file v current) (aq_new_files q) ?s0))"
    by (rule fold_keeps[where I = ?L, rotated]) (rule delete_modified_ok[OF _ assms(1,2) _ assms(3)])
  then show ?thesis using assms(3) by (simp add: filter_delete_remote_candidates_def)
qed

end
