(* ===== verification/Auto_Queue_Cycle.thy ===== *)
theory Auto_Queue_Cycle
  imports Auto_Queue_Lanes
begin

text \<open>
  One cycle of \<open>AutoQueue.process\<close> as a whole: the commands it sends, and the state it leaves with and
  without an exception.
\<close>

section \<open>The commands of a cycle\<close>

lemma send_eq: "send v cs = (takeWhile (\<lambda>c. \<not> cv_refuses v c) cs, list_all (\<lambda>c. \<not> cv_refuses v c) cs)"
  by (induction cs) (auto split: prod.splits)

definition cycle_deletes ::
  "controller_view \<Rightarrow> auto_queue \<Rightarrow> string set \<Rightarrow> (string, model_file) dict \<Rightarrow> candidate_match list" where
  "cycle_deletes v q pats current =
     (if aq_enabled q then map snd (ds_matched (filter_delete_remote_candidates v q pats current)) else [])"

definition cycle_commands ::
  "controller_view \<Rightarrow> string set \<Rightarrow> string set \<Rightarrow> (string, model_file) dict \<Rightarrow> auto_queue \<Rightarrow> aq_command list" where
  "cycle_commands v pats drained current q =
     map (to_command v (aq_cycle q) AQ_QUEUE) (ql_selected (queue_files v q pats drained current)) @
     map (to_command v (aq_cycle q) AQ_EXTRACT) (el_selected (extract_files v q pats drained current)) @
     map (to_command v (aq_cycle q) AQ_DELETE_REMOTE) (cycle_deletes v q pats current)"

lemma active_cycle_commands:
  "cy_commands (fst (active_cycle v pats drained current q)) =
     takeWhile (\<lambda>c. \<not> cv_refuses v c) (cycle_commands v pats drained current q)"
  "cy_raised (fst (active_cycle v pats drained current q)) \<longleftrightarrow>
     \<not> list_all (\<lambda>c. \<not> cv_refuses v c) (cycle_commands v pats drained current q)"
  by (auto simp: active_cycle_def cycle_commands_def cycle_deletes_def Let_def send_eq)

text \<open>The state in which a cycle that has something to do starts its work.\<close>

definition working_state :: "pair_source \<Rightarrow> auto_queue \<Rightarrow> auto_queue" where
  "working_state pairs q =
     (forget_removed (refresh_queue_state pairs q))
       \<lparr>aq_cycle := Suc (aq_cycle q), aq_new_patterns := {}, aq_idle_recorded := False\<rparr>"

definition inactive :: "pair_source \<Rightarrow> auto_queue \<Rightarrow> bool" where
  "inactive pairs q \<longleftrightarrow> \<not> aq_enabled q \<and> \<not> aq_queue_enabled (refresh_queue_state pairs q)"

definition idle :: "auto_queue \<Rightarrow> bool" where
  "idle q \<longleftrightarrow> aq_new_patterns q = {} \<and> aq_new_files q = [] \<and> aq_modified q = []"

lemma refresh_fields [simp]:
  "aq_enabled (refresh_queue_state pairs q) = aq_enabled q"
  "aq_cycle (refresh_queue_state pairs q) = aq_cycle q"
  "aq_new_patterns (refresh_queue_state pairs q) = aq_new_patterns q"
  "aq_new_files (refresh_queue_state pairs q) = aq_new_files q"
  "aq_modified (refresh_queue_state pairs q) = aq_modified q"
  "aq_patterns_only (refresh_queue_state pairs q) = aq_patterns_only q"
  "aq_auto_delete_remote (refresh_queue_state pairs q) = aq_auto_delete_remote q"
  "aq_auto_extract (refresh_queue_state pairs q) = aq_auto_extract q"
  "aq_deferred (refresh_queue_state pairs q) = aq_deferred q"
  "aq_initial (refresh_queue_state pairs q) = aq_initial q"
  "aq_removed (refresh_queue_state pairs q) = aq_removed q"
  "aq_idle_recorded (refresh_queue_state pairs q) = aq_idle_recorded q"
  by (auto simp: refresh_queue_state_def Let_def split: pair_source.splits)

lemma forget_fields [simp]:
  "aq_enabled (forget_removed q) = aq_enabled q"
  "aq_queue_enabled (forget_removed q) = aq_queue_enabled q"
  "aq_pair_auto_queue (forget_removed q) = aq_pair_auto_queue q"
  "aq_cycle (forget_removed q) = aq_cycle q"
  "aq_new_patterns (forget_removed q) = aq_new_patterns q"
  "aq_new_files (forget_removed q) = aq_new_files q"
  "aq_modified (forget_removed q) = aq_modified q"
  "aq_patterns_only (forget_removed q) = aq_patterns_only q"
  "aq_auto_delete_remote (forget_removed q) = aq_auto_delete_remote q"
  "aq_auto_extract (forget_removed q) = aq_auto_extract q"
  "aq_deferred (forget_removed q) = aq_deferred q - aq_removed q"
  "aq_initial (forget_removed q) = aq_initial q - aq_removed q"
  "aq_idle_recorded (forget_removed q) = aq_idle_recorded q"
  by (simp_all add: forget_removed_def)

lemma process_once_cases:
  obtains (quiet) "inactive pairs q \<or> idle q" "cy_commands (fst (process_once v pairs pats q)) = []"
      "\<not> cy_raised (fst (process_once v pairs pats q))" "cy_cleared (fst (process_once v pairs pats q)) = []"
  | (no_snapshot) e where "\<not> inactive pairs q" "\<not> idle q" "cv_roots v = Inl e"
      "process_once v pairs pats q = (quiet_cycle\<lparr>cy_raised := True\<rparr>, restore_drained pats (aq_new_patterns q) (working_state pairs q))"
  | (active) roots where "\<not> inactive pairs q" "\<not> idle q" "cv_roots v = Inr roots"
      "process_once v pairs pats q = active_cycle v pats (aq_new_patterns q) (by_id roots) (working_state pairs q)"
proof -
  consider "inactive pairs q" | "\<not> inactive pairs q" "idle q" | "\<not> inactive pairs q" "\<not> idle q" by blast
  then show thesis
  proof cases
    case 1
    show thesis
      by (rule quiet) (use 1 in \<open>simp_all add: process_once_def inactive_def quiet_cycle_def\<close>)
  next
    case 2
    show thesis
      by (rule quiet)
        (use 2 in \<open>simp_all add: process_once_def inactive_def idle_def quiet_cycle_def drain_new_patterns_def Let_def\<close>)
  next
    case 3
    have run: "process_once v pairs pats q =
        (case cv_roots v of
           Inl e \<Rightarrow> (quiet_cycle\<lparr>cy_raised := True\<rparr>, restore_drained pats (aq_new_patterns q) (working_state pairs q))
         | Inr roots \<Rightarrow> active_cycle v pats (aq_new_patterns q) (by_id roots) (working_state pairs q))"
    proof -
      have "\<not> (\<not> aq_enabled q \<and> \<not> aq_queue_enabled (refresh_queue_state pairs q))"
        "\<not> (aq_new_patterns q = {} \<and> aq_new_files q = [] \<and> aq_modified q = [])"
        using 3 by (simp_all add: inactive_def idle_def)
      then show ?thesis
        unfolding working_state_def by (auto simp: process_once_def drain_new_patterns_def Let_def)
    qed
    show thesis
    proof (cases "cv_roots v")
      case (Inl e)
      with 3 run show thesis by (intro no_snapshot[of e]) simp_all
    next
      case (Inr roots)
      with 3 run show thesis by (intro active[of roots]) simp_all
    qed
  qed
qed

text \<open>What the lanes read of the state, they read of the refreshed one.\<close>

lemma working_fields [simp]:
  "aq_enabled (working_state pairs q) = aq_enabled q"
  "aq_queue_enabled (working_state pairs q) = aq_queue_enabled (refresh_queue_state pairs q)"
  "aq_pair_auto_queue (working_state pairs q) = aq_pair_auto_queue (refresh_queue_state pairs q)"
  "aq_patterns_only (working_state pairs q) = aq_patterns_only q"
  "aq_auto_delete_remote (working_state pairs q) = aq_auto_delete_remote q"
  "aq_auto_extract (working_state pairs q) = aq_auto_extract q"
  "aq_modified (working_state pairs q) = aq_modified q"
  "aq_new_files (working_state pairs q) = aq_new_files q"
  "aq_new_patterns (working_state pairs q) = {}"
  "aq_deferred (working_state pairs q) = aq_deferred q - aq_removed q"
  "aq_initial (working_state pairs q) = aq_initial q - aq_removed q"
  by (simp_all add: working_state_def)

lemma enabled_for_file_working [simp]:
  "is_auto_queue_enabled_for_file (working_state pairs q) f =
   is_auto_queue_enabled_for_file (refresh_queue_state pairs q) f"
  "is_auto_queue_enabled_for_file (forget_removed q) f = is_auto_queue_enabled_for_file q f"
  unfolding is_auto_queue_enabled_for_file_def working_fields forget_fields by (rule refl)+

lemma queue_allowed_working:
  "queue_allowed v (working_state pairs q) pats f = queue_allowed v (refresh_queue_state pairs q) pats f"
  by (simp add: queue_allowed_def new_branch_proved_def)

lemma pattern_fits_working:
  "pattern_fits (working_state pairs q) pats m = pattern_fits q pats m"
  "pattern_fits (forget_removed (refresh_queue_state pairs q)) pats m = pattern_fits q pats m"
  unfolding pattern_fits_def working_fields forget_fields refresh_fields by (rule refl)+

lemma delete_allowed_working:
  "delete_allowed v (working_state pairs q) pats m = delete_allowed v (forget_removed (refresh_queue_state pairs q)) pats m"
  by (simp add: delete_allowed_def delete_evidence_def pattern_fits_working)

lemma by_id_value: "map_of (by_id fs) k = Some f \<Longrightarrow> f \<in> set fs"
proof -
  have "dict_all (\<lambda>k f. f \<in> set fs) (by_id fs)"
    unfolding by_id_def by (rule fold_keeps) (auto intro: dict_all_set)
  then show "map_of (by_id fs) k = Some f \<Longrightarrow> f \<in> set fs" by (rule dict_allD)
qed

lemma to_command_fields [simp]:
  "cmd_action (to_command v n act m) = act" "cmd_file_id (to_command v n act m) = file_id (fst m)"
  by (simp_all add: to_command_def)

lemma cycle_queue_commands:
  assumes "c \<in> set (cycle_commands v pats drained current q)" "cmd_action c = AQ_QUEUE"
  obtains m where "m \<in> set (ql_selected (queue_files v q pats drained current))" "c = to_command v (aq_cycle q) AQ_QUEUE m"
  using assms by (auto simp: cycle_commands_def)

lemma cycle_delete_commands:
  assumes "c \<in> set (cycle_commands v pats drained current q)" "cmd_action c = AQ_DELETE_REMOTE"
  obtains m where "aq_enabled q" "m \<in> set (map snd (ds_matched (filter_delete_remote_candidates v q pats current)))"
    "c = to_command v (aq_cycle q) AQ_DELETE_REMOTE m"
  using assms by (auto simp: cycle_commands_def cycle_deletes_def split: if_splits)

lemma sent_command:
  assumes "c \<in> set (cy_commands (fst (process_once v pairs pats q)))"
  obtains roots where "cv_roots v = Inr roots"
    "c \<in> set (cycle_commands v pats (aq_new_patterns q) (by_id roots) (working_state pairs q))"
  using assms
  by (cases rule: process_once_cases[of pairs q v pats])
    (auto simp: quiet_cycle_def active_cycle_commands dest!: set_takeWhileD)

lemma queue_command_allowed:
  assumes "finite pats" "finite (aq_new_patterns q)"
    and "c \<in> set (cy_commands (fst (process_once v pairs pats q)))" "cmd_action c = AQ_QUEUE"
  obtains roots f where "cv_roots v = Inr roots" "f \<in> set roots" "file_id f = cmd_file_id c"
    "queue_allowed v (refresh_queue_state pairs q) (pats \<union> aq_new_patterns q) f"
proof -
  obtain roots where r: "cv_roots v = Inr roots"
    "c \<in> set (cycle_commands v pats (aq_new_patterns q) (by_id roots) (working_state pairs q))"
    by (rule sent_command[OF assms(3)])
  obtain m where m: "m \<in> set (ql_selected (queue_files v (working_state pairs q) pats (aq_new_patterns q) (by_id roots)))"
    "c = to_command v (aq_cycle (working_state pairs q)) AQ_QUEUE m"
    by (rule cycle_queue_commands[OF r(2) assms(4)])
  have ok: "map_of (by_id roots) (file_id (fst m)) = Some (fst m)"
    "queue_allowed v (refresh_queue_state pairs q) (pats \<union> aq_new_patterns q) (fst m)"
    using queue_files_ok(1)[OF keyed_by_id assms(1,2), where q = "working_state pairs q" and v = v] m(1)
    unfolding list_all_iff queue_allowed_working by blast+
  show thesis
    by (rule that[OF r(1) by_id_value[OF ok(1)]]) (simp_all add: m(2) ok(2))
qed

lemma delete_command_allowed:
  assumes "finite pats" "c \<in> set (cy_commands (fst (process_once v pairs pats q)))"
    "cmd_action c = AQ_DELETE_REMOTE"
  obtains roots m where "cv_roots v = Inr roots" "fst m \<in> set roots" "file_id (fst m) = cmd_file_id c"
    "cmd_token c = Some (cv_lifecycle_token v (fst m))" "aq_enabled q"
    "delete_allowed v (forget_removed (refresh_queue_state pairs q)) pats m"
proof -
  let ?w = "working_state pairs q"
  obtain roots where r: "cv_roots v = Inr roots"
    "c \<in> set (cycle_commands v pats (aq_new_patterns q) (by_id roots) ?w)"
    by (rule sent_command[OF assms(2)])
  obtain m where m: "aq_enabled ?w" "m \<in> set (map snd (ds_matched (filter_delete_remote_candidates v ?w pats (by_id roots))))"
    "c = to_command v (aq_cycle ?w) AQ_DELETE_REMOTE m"
    by (rule cycle_delete_commands[OF r(2) assms(3)])
  have "aq_auto_delete_remote ?w"
    using m(2) by (rule contrapos_pp) (simp add: filter_delete_remote_candidates_def)
  then have "lineage_ok v ?w pats (by_id roots) (filter_delete_remote_candidates v ?w pats (by_id roots))"
    by (rule filter_delete_remote_ok[OF keyed_by_id assms(1)])
  then have "dict_all (\<lambda>k m. map_of (by_id roots) k = Some (fst m) \<and> file_id (fst m) = k \<and> delete_allowed v ?w pats m)
      (ds_matched (filter_delete_remote_candidates v ?w pats (by_id roots)))"
    by (simp add: lineage_ok_def)
  from dict_all_value[OF this m(2)] obtain k where
    ok: "map_of (by_id roots) k = Some (fst m)" "delete_allowed v ?w pats m" by blast
  show thesis
    by (rule that[OF r(1) by_id_value[OF ok(1)]])
      (use m ok(2) in \<open>simp_all add: delete_allowed_working to_command_def\<close>)
qed

section \<open>What a cycle leaves\<close>

lemma active_cycle_raised:
  assumes "cy_raised (fst (active_cycle v pats drained current q))"
  shows "aq_new_files (snd (active_cycle v pats drained current q)) = aq_new_files q"
    "aq_modified (snd (active_cycle v pats drained current q)) = aq_modified q"
    "aq_new_patterns (snd (active_cycle v pats drained current q)) = aq_new_patterns q \<union> (drained \<inter> pats)"
  using assms by (auto simp: active_cycle_def Let_def restore_drained_def restore_new_patterns_def split: if_splits)

lemma active_cycle_finished:
  assumes "\<not> cy_raised (fst (active_cycle v pats drained current q))"
  shows "aq_new_files (snd (active_cycle v pats drained current q)) =
      filter (\<lambda>f. file_id f \<in> set (dict_keys current) \<and> \<not> is_reconciliation_ready v f) (aq_new_files q)"
    "aq_deferred (snd (active_cycle v pats drained current q)) \<subseteq> set (dict_keys current)"
    "aq_initial (snd (active_cycle v pats drained current q)) \<subseteq> set (dict_keys current)"
    "aq_new_patterns (snd (active_cycle v pats drained current q)) = aq_new_patterns q"
  using assms by (auto simp: active_cycle_def Let_def split: if_splits)

end
