(* ===== verification/Auto_Queue_Properties.thy ===== *)
theory Auto_Queue_Properties
  imports Auto_Queue_Cycle
begin

text \<open>The properties of \<open>AutoQueue\<close>, with their witnesses.\<close>

section \<open>Sample data\<close>

definition remote_file :: "string \<Rightarrow> model_file" where
  "remote_file name = upd (put_remote_size (Some 1000)) (new_model_file 0 0 name False)"

definition finished_file :: "string \<Rightarrow> model_file" where
  "finished_file name =
     upd (\<lambda>a. (put_local_size (Some 1000) (put_remote_size (Some 1000) a))\<lparr>fa_state := DOWNLOADED\<rparr>)
       (new_model_file 1 0 name False)"

definition sample_view :: "model_file list \<Rightarrow> controller_view" where
  "sample_view roots =
     \<lparr>cv_roots = Inr roots, cv_is_file_stopped = (\<lambda>k. k = ''stopped''), cv_is_owned_incomplete = (\<lambda>f. False),
      cv_is_reconciled = (\<lambda>p. p = None), cv_is_delete_eligible = (\<lambda>f. True), cv_has_final_publication = (\<lambda>f. False),
      cv_lifecycle_token = (\<lambda>f. (1, 2)), cv_refuses = (\<lambda>c. cmd_file_id c = ''refused'')\<rparr>"

definition sample_queue :: auto_queue where
  "sample_queue = start_auto_queue True False True True NoManager [remote_file ''show.mkv'']"

definition finished_queue :: auto_queue where
  "finished_queue = aq_file_updated (upd (\<lambda>a. a\<lparr>fa_state := DOWNLOADING\<rparr>) (remote_file ''show.mkv''))
     (finished_file ''show.mkv'') (new_auto_queue True False True True)"

definition sample_cycle :: "cycle_result \<times> auto_queue" where
  "sample_cycle = process_once (sample_view [remote_file ''show.mkv'']) NoManager {} sample_queue"


lemma sample_cycle_command:
  "hd (cy_commands (fst sample_cycle)) \<in> set (cy_commands (fst sample_cycle))"
  "cmd_action (hd (cy_commands (fst sample_cycle))) = AQ_QUEUE" "\<not> cy_raised (fst sample_cycle)"
  by code_simp+


lemma sample_patterns: "finite (aq_new_patterns sample_queue)" "finite (aq_new_patterns finished_queue)"
  by (simp_all add: sample_queue_def start_auto_queue_def new_auto_queue_def refresh_queue_state_def
      aq_file_added_def finished_queue_def aq_file_updated_def)

section \<open>Commands\<close>

text \<open>C2. \<open>AutoQueue\<close> sends a \<open>QUEUE\<close> command only for a current root that is \<open>DEFAULT\<close> with
  transferable remote content, whose path pair allows automatic queueing and has been reconciled,
  that the user has not stopped, that matches a pattern when patterns are required, and that is
  either absent locally, or a partial directory the controller owns, or has just gained a remote
  branch that is absent locally.\<close>

theorem queue_commands_are_allowed:
  assumes "finite pats" "finite (aq_new_patterns q)"
    and "c \<in> set (cy_commands (fst (process_once v pairs pats q)))" "cmd_action c = AQ_QUEUE"
  shows "\<exists>roots f. cv_roots v = Inr roots \<and> f \<in> set roots \<and> file_id f = cmd_file_id c \<and>
    mf_state f = DEFAULT \<and> a_remote_content (attrs f) \<and> \<not> cv_is_file_stopped v (file_id f) \<and>
    is_reconciliation_ready v f \<and> is_auto_queue_enabled_for_file (refresh_queue_state pairs q) f \<and>
    (aq_patterns_only q \<longrightarrow> (\<exists>pat\<in>pats \<union> aq_new_patterns q. aq_match pat f)) \<and>
    (\<not> a_local_present (attrs f) \<or> is_owned_incomplete_directory v f \<or>
     (\<exists>(old_file, new_file)\<in>set (aq_modified q). file_id new_file = file_id f \<and> has_new_branch old_file new_file))"
proof -
  obtain roots f where f: "cv_roots v = Inr roots" "f \<in> set roots" "file_id f = cmd_file_id c"
    "queue_allowed v (refresh_queue_state pairs q) (pats \<union> aq_new_patterns q) f"
    by (rule queue_command_allowed[OF assms])
  then show ?thesis
    by (intro exI[of _ roots] exI[of _ f]) (auto simp: queue_allowed_def new_branch_proved_def list_ex_iff)
qed

theorem queue_commands_are_allowed_witness:
  "\<exists>roots f. cv_roots (sample_view [remote_file ''show.mkv'']) = Inr roots \<and> f \<in> set roots \<and>
    file_id f = cmd_file_id (hd (cy_commands (fst sample_cycle))) \<and> mf_state f = DEFAULT"
  using queue_commands_are_allowed[of "{}" sample_queue "hd (cy_commands (fst sample_cycle))"
      "sample_view [remote_file ''show.mkv'']" NoManager]
    sample_cycle_command sample_patterns unfolding sample_cycle_def by blast



text \<open>C11. A root that has just been added to the Model and may be queued is queued in the next cycle
  that no exception cuts short.\<close>

theorem new_root_is_queued:
  assumes "finite pats" "finite (aq_new_patterns q)" "cv_roots v = Inr roots"
    and "aq_queue_enabled (refresh_queue_state pairs q)" "new_file \<in> set (aq_new_files q)"
    and "dict_get (by_id roots) (file_id new_file) = Some f"
    and "accept_discovered v (refresh_queue_state pairs q) f" "is_reconciliation_ready v f"
    and "\<not> cv_is_file_stopped v (file_id f)" "\<not> aq_patterns_only q \<or> (\<exists>pat\<in>pats. aq_match pat f)"
    and "\<not> cy_raised (fst (process_once v pairs pats q))"
  shows "\<exists>c\<in>set (cy_commands (fst (process_once v pairs pats q))). cmd_action c = AQ_QUEUE \<and> cmd_file_id c = file_id f"
proof -
  let ?w = "working_state pairs q"
  have "\<not> inactive pairs q" "\<not> idle q" using assms(4,5) by (auto simp: inactive_def idle_def)
  then have run: "process_once v pairs pats q = active_cycle v pats (aq_new_patterns q) (by_id roots) ?w"
    using assms(3) by (cases rule: process_once_cases[of pairs q v pats]) auto
  have acc: "accept_discovered v ?w f" using assms(7) by (simp add: accept_discovered_def)
  have "\<exists>m\<in>set (ql_selected (queue_files v ?w pats (aq_new_patterns q) (by_id roots))). fst m = f"
    by (rule queue_files_complete[OF keyed_by_id assms(1,2) _ _ assms(6) acc assms(8,9)])
      (use assms(4,5,10) in simp_all)
  then obtain m where m: "m \<in> set (ql_selected (queue_files v ?w pats (aq_new_patterns q) (by_id roots)))" "fst m = f"
    by blast
  let ?cs = "cycle_commands v pats (aq_new_patterns q) (by_id roots) ?w"
  have "cy_commands (fst (process_once v pairs pats q)) = ?cs"
    using assms(11) unfolding run active_cycle_commands by (simp add: takeWhile_eq_all_conv list_all_iff)
  moreover have "to_command v (aq_cycle ?w) AQ_QUEUE m \<in> set ?cs" using m(1) by (simp add: cycle_commands_def)
  ultimately show ?thesis using m(2) by (intro bexI[of _ "to_command v (aq_cycle ?w) AQ_QUEUE m"]) simp_all
qed

lemma sample_new_root:
  "aq_queue_enabled (refresh_queue_state NoManager sample_queue)"
  "aq_new_files sample_queue = [remote_file ''show.mkv'']"
  "dict_get (by_id [remote_file ''show.mkv'']) (file_id (remote_file ''show.mkv'')) = Some (remote_file ''show.mkv'')"
  "accept_discovered (sample_view [remote_file ''show.mkv'']) (refresh_queue_state NoManager sample_queue) (remote_file ''show.mkv'')"
  "is_reconciliation_ready (sample_view [remote_file ''show.mkv'']) (remote_file ''show.mkv'')"
  "\<not> cv_is_file_stopped (sample_view [remote_file ''show.mkv'']) (file_id (remote_file ''show.mkv''))"
  "\<not> aq_patterns_only sample_queue"
  by code_simp+

theorem new_root_is_queued_witness:
  "\<exists>c\<in>set (cy_commands (fst (process_once (sample_view [remote_file ''show.mkv'']) NoManager {} sample_queue))).
     cmd_action c = AQ_QUEUE \<and> cmd_file_id c = file_id (remote_file ''show.mkv'')"
  by (rule new_root_is_queued[where new_file = "remote_file ''show.mkv''" and roots = "[remote_file ''show.mkv'']"])
    (use sample_new_root sample_patterns sample_cycle_command(3) in
      \<open>simp_all only: sample_cycle_def finite.emptyI list.set insertI1 simp_thms sample_view_def controller_view.select_convs\<close>)

section \<open>Order, exceptions, retention\<close>

definition action_rank :: "aq_action \<Rightarrow> nat" where
  "action_rank a = (case a of AQ_QUEUE \<Rightarrow> 0 | AQ_EXTRACT \<Rightarrow> 1 | AQ_DELETE_REMOTE \<Rightarrow> 2)"

lemma rank_lane: "map (\<lambda>c. action_rank (cmd_action c)) (map (to_command v n act) ms) = replicate (length ms) (action_rank act)"
  by (induction ms) simp_all

lemma distinct_lane:
  "distinct (map (\<lambda>m. file_id (fst m)) ms) \<Longrightarrow>
   distinct (map (\<lambda>c. (cmd_action c, cmd_file_id c)) (map (to_command v n act) ms))"
proof -
  assume "distinct (map (\<lambda>m. file_id (fst m)) ms)"
  then have "distinct (map (Pair act) (map (\<lambda>m. file_id (fst m)) ms))"
    by (simp add: distinct_map inj_on_def)
  then show ?thesis by (simp add: o_def)
qed

lemma filter_candidates_distinct:
  assumes "keyed current" "finite pats" "finite np"
  shows "distinct (map (\<lambda>m. file_id (fst m)) (filter_candidates v q pats np current accept candidates))"
proof -
  have "dict_all (\<lambda>k m. file_id (fst m) = k) (matched_files v q pats np current accept candidates)"
    using matched_files_ok[OF assms, of v q accept candidates] by (simp add: dict_all_def)
  then show ?thesis unfolding filter_candidates_eq by (rule distinct_values)
qed

lemma cycle_deletes_distinct:
  assumes "finite pats"
  shows "distinct (map (\<lambda>m. file_id (fst m)) (cycle_deletes v q pats (by_id roots)))"
proof (cases "aq_enabled q \<and> aq_auto_delete_remote q")
  case True
  then have "lineage_ok v q pats (by_id roots) (filter_delete_remote_candidates v q pats (by_id roots))"
    using filter_delete_remote_ok[OF keyed_by_id assms] by blast
  then have "dict_all (\<lambda>k m. file_id (fst m) = k) (ds_matched (filter_delete_remote_candidates v q pats (by_id roots)))"
    by (simp add: lineage_ok_def dict_all_def)
  with True show ?thesis unfolding cycle_deletes_def by (simp only: if_True distinct_values)
qed (auto simp: cycle_deletes_def filter_delete_remote_candidates_def)

lemma cycle_commands_ordered:
  assumes "finite pats" "finite np"
  shows "sorted (map (\<lambda>c. action_rank (cmd_action c)) (cycle_commands v pats np (by_id roots) q))"
    "distinct (map (\<lambda>c. (cmd_action c, cmd_file_id c)) (cycle_commands v pats np (by_id roots) q))"
proof -
  let ?key = "\<lambda>c. (cmd_action c, cmd_file_id c)"
  define qs where "qs = map (to_command v (aq_cycle q) AQ_QUEUE) (ql_selected (queue_files v q pats np (by_id roots)))"
  define es where "es = map (to_command v (aq_cycle q) AQ_EXTRACT) (el_selected (extract_files v q pats np (by_id roots)))"
  define ds where "ds = map (to_command v (aq_cycle q) AQ_DELETE_REMOTE) (cycle_deletes v q pats (by_id roots))"
  have cs: "cycle_commands v pats np (by_id roots) q = qs @ es @ ds"
    by (simp add: cycle_commands_def qs_def es_def ds_def)
  show "sorted (map (\<lambda>c. action_rank (cmd_action c)) (cycle_commands v pats np (by_id roots) q))"
    unfolding cs map_append qs_def es_def ds_def rank_lane
    by (auto simp: sorted_append action_rank_def)
  have "distinct (map ?key qs)" unfolding qs_def by (rule distinct_lane[OF queue_files_ok(2)[OF keyed_by_id assms]])
  moreover have "distinct (map ?key es)" unfolding es_def extract_files_def Let_def
    by (rule distinct_lane) (simp add: filter_candidates_distinct[OF keyed_by_id assms])
  moreover have "distinct (map ?key ds)" unfolding ds_def by (rule distinct_lane[OF cycle_deletes_distinct[OF assms(1)]])
  moreover have "set (map ?key qs) \<inter> (set (map ?key es) \<union> set (map ?key ds)) = {}"
    "set (map ?key es) \<inter> set (map ?key ds) = {}"
    by (auto simp: qs_def es_def ds_def)
  ultimately show "distinct (map ?key (cycle_commands v pats np (by_id roots) q))"
    unfolding cs map_append by (simp add: distinct_append del: set_map map_map)
qed

text \<open>The commands of one cycle come in the order queue, extract, delete remote, and none is sent
  twice for the same root.\<close>

theorem commands_are_ordered:
  assumes "finite pats" "finite (aq_new_patterns q)"
  shows "sorted (map (\<lambda>c. action_rank (cmd_action c)) (cy_commands (fst (process_once v pairs pats q)))) \<and>
    distinct (map (\<lambda>c. (cmd_action c, cmd_file_id c)) (cy_commands (fst (process_once v pairs pats q))))"
proof (cases rule: process_once_cases[of pairs q v pats])
  case (active roots)
  let ?cs = "cycle_commands v pats (aq_new_patterns q) (by_id roots) (working_state pairs q)"
  obtain n where "cy_commands (fst (process_once v pairs pats q)) = take n ?cs"
    unfolding active(4) active_cycle_commands(1) by (metis takeWhile_eq_take)
  then show ?thesis
    using cycle_commands_ordered[OF assms, of v roots "working_state pairs q"]
    by (simp add: take_map[symmetric] sorted_wrt_take distinct_take)
qed (simp_all add: quiet_cycle_def)

theorem commands_are_ordered_witness:
  "sorted (map (\<lambda>c. action_rank (cmd_action c)) (cy_commands (fst (process_once (sample_view [remote_file ''show.mkv'']) NoManager {} sample_queue))))"
  using commands_are_ordered[of "{}" sample_queue] sample_patterns by simp

text \<open>When a cycle ends with an exception, nothing is forgotten: the buffered events are still
  there, and every pattern drained for the cycle that the user has not removed is new again.\<close>

theorem raising_cycle_keeps_events:
  assumes "process_once v pairs pats q = (r, q')" "cy_raised r"
  shows "aq_new_files q' = aq_new_files q \<and> aq_modified q' = aq_modified q \<and>
    aq_new_patterns q' = aq_new_patterns q \<inter> pats"
proof (cases rule: process_once_cases[of pairs q v pats])
  case quiet
  with assms show ?thesis by simp
next
  case (no_snapshot e)
  with assms(1) show ?thesis by (auto simp: restore_drained_def restore_new_patterns_def)
next
  case (active roots)
  then have eq: "active_cycle v pats (aq_new_patterns q) (by_id roots) (working_state pairs q) = (r, q')"
    using assms(1) by simp
  with assms(2) active_cycle_raised[of v pats "aq_new_patterns q" "by_id roots" "working_state pairs q"]
  show ?thesis by simp
qed

definition refused_queue :: auto_queue where
  "refused_queue = (start_auto_queue True False False False NoManager [remote_file ''refused''])
     \<lparr>aq_new_patterns := {''mkv'', ''avi''}\<rparr>"

definition refused_cycle :: "cycle_result \<times> auto_queue" where
  "refused_cycle = process_once (sample_view [remote_file ''refused'']) NoManager {''mkv''} refused_queue"

theorem raising_cycle_keeps_events_witness:
  "aq_new_files (snd refused_cycle) = aq_new_files refused_queue \<and> aq_new_patterns (snd refused_cycle) = {''mkv''}"
proof -
  have r: "cy_raised (fst refused_cycle)" by code_simp
  have "aq_new_patterns refused_queue \<inter> {''mkv''} = {''mkv''}" by (simp add: refused_queue_def)
  with raising_cycle_keeps_events[OF _ r, of _ NoManager "{''mkv''}" refused_queue "snd refused_cycle"] show ?thesis
    unfolding refused_cycle_def by (metis prod.collapse)
qed

text \<open>A new root whose path pair is not yet reconciled is kept for a later cycle as long as it is
  in the Model; the lineage memory of a finished cycle only holds roots of the Model.\<close>

theorem unreconciled_roots_are_retained:
  assumes "process_once v pairs pats q = (r, q')" "\<not> cy_raised r" "\<not> inactive pairs q" "\<not> idle q"
    "cv_roots v = Inr roots"
  shows "aq_new_files q' = filter (\<lambda>f. file_id f \<in> file_id ` set roots \<and> \<not> is_reconciliation_ready v f) (aq_new_files q) \<and>
    aq_deferred q' \<union> aq_initial q' \<subseteq> file_id ` set roots"
proof -
  have eq: "active_cycle v pats (aq_new_patterns q) (by_id roots) (working_state pairs q) = (r, q')"
    using assms by (cases rule: process_once_cases[of pairs q v pats]) auto
  have keys: "fst ` set (fold (\<lambda>f. dict_set (file_id f) f) fs d) = file_id ` set fs \<union> fst ` set d"
    for fs :: "model_file list" and d :: "(string, model_file) dict"
    by (induction fs arbitrary: d) auto
  have "set (dict_keys (by_id roots)) = file_id ` set roots" by (simp add: by_id_def keys)
  with active_cycle_finished[of v pats "aq_new_patterns q" "by_id roots" "working_state pairs q"] eq assms(2)
  show ?thesis by simp
qed

definition waiting_file :: model_file where
  "waiting_file = upd (\<lambda>a. a\<lparr>fa_path_pair_id := Some ''pair''\<rparr>) (remote_file ''show.mkv'')"

definition waiting_queue :: auto_queue where
  "waiting_queue = start_auto_queue True False False False NoManager [waiting_file]"

theorem unreconciled_roots_are_retained_witness:
  "aq_new_files (snd (process_once (sample_view [waiting_file]) NoManager {} waiting_queue)) = [waiting_file]"
proof -
  let ?p = "process_once (sample_view [waiting_file]) NoManager {} waiting_queue"
  have "\<not> cy_raised (fst ?p)" "\<not> idle waiting_queue" "\<not> inactive NoManager waiting_queue"
    "\<not> is_reconciliation_ready (sample_view [waiting_file]) waiting_file" "aq_new_files waiting_queue = [waiting_file]"
    by code_simp+
  then show ?thesis
    using unreconciled_roots_are_retained[of "sample_view [waiting_file]" NoManager "{}" waiting_queue "fst ?p" "snd ?p" "[waiting_file]"]
    by (simp add: sample_view_def)
qed

end
