(* ===== verification/Date_Text.thy ===== *)
theory Date_Text
  imports Prelude
begin

text \<open>
  The part of \<open>datetime\<close> the sources use on scan data: \<open>isoformat\<close> and \<open>fromisoformat\<close>, on naive
  values.

  A \<open>datetime\<close> is the record of its fields. \<open>fromisoformat\<close> is modelled on the two layouts
  \<open>isoformat\<close> prints, with and without microseconds; every text of another layout is a
  \<open>ValueError\<close> of the model, although \<open>datetime\<close> reads some of them.
\<close>

record datetime =
  dt_year :: nat
  dt_month :: nat
  dt_day :: nat
  dt_hour :: nat
  dt_minute :: nat
  dt_second :: nat
  dt_microsecond :: nat

definition leap_year :: "nat \<Rightarrow> bool" where
  "leap_year y = (y mod 4 = 0 \<and> (y mod 100 \<noteq> 0 \<or> y mod 400 = 0))"

definition days_in_month :: "nat \<Rightarrow> nat \<Rightarrow> nat" where
  "days_in_month y m = (if m = 2 then (if leap_year y then 29 else 28)
     else if m \<in> {4, 6, 9, 11} then 30 else 31)"

definition valid_datetime :: "datetime \<Rightarrow> bool" where
  "valid_datetime t \<longleftrightarrow>
     1 \<le> dt_year t \<and> dt_year t \<le> 9999 \<and> 1 \<le> dt_month t \<and> dt_month t \<le> 12 \<and>
     1 \<le> dt_day t \<and> dt_day t \<le> days_in_month (dt_year t) (dt_month t) \<and>
     dt_hour t < 24 \<and> dt_minute t < 60 \<and> dt_second t < 60 \<and> dt_microsecond t < 1000000"

text \<open>Decimal fields of a fixed width.\<close>

fun digits :: "nat \<Rightarrow> nat \<Rightarrow> string" where
  "digits 0 n = []"
| "digits (Suc w) n = digits w (n div 10) @ [char_of (48 + n mod 10)]"

definition digit_val :: "char \<Rightarrow> nat option" where
  "digit_val c = (let n = code_of c in if 48 \<le> n \<and> n \<le> 57 then Some (n - 48) else None)"

fun read_digits :: "nat \<Rightarrow> nat \<Rightarrow> string \<Rightarrow> (nat \<times> string) option" where
  "read_digits 0 acc s = Some (acc, s)"
| "read_digits (Suc w) acc [] = None"
| "read_digits (Suc w) acc (c # s) =
     (case digit_val c of None \<Rightarrow> None | Some d \<Rightarrow> read_digits w (10 * acc + d) s)"

definition read_char :: "char \<Rightarrow> string \<Rightarrow> string option" where
  "read_char c s = (case s of [] \<Rightarrow> None | x # r \<Rightarrow> if x = c then Some r else None)"

definition isoformat :: "datetime \<Rightarrow> string" where
  "isoformat t =
     digits 4 (dt_year t) @ CHR ''-'' # digits 2 (dt_month t) @ CHR ''-'' # digits 2 (dt_day t) @
     CHR ''T'' # digits 2 (dt_hour t) @ CHR '':'' # digits 2 (dt_minute t) @ CHR '':'' #
     digits 2 (dt_second t) @
     (if dt_microsecond t = 0 then [] else CHR ''.'' # digits 6 (dt_microsecond t))"

definition read_field :: "nat \<Rightarrow> string \<Rightarrow> (nat \<times> string) option" where
  "read_field w s = read_digits w 0 s"

definition read_sep_field :: "char \<Rightarrow> nat \<Rightarrow> string \<Rightarrow> (nat \<times> string) option" where
  "read_sep_field c w s = Option.bind (read_char c s) (read_field w)"

definition read_micro :: "string \<Rightarrow> nat option" where
  "read_micro s = (if s = [] then Some 0 else
     (case read_sep_field (CHR ''.'') 6 s of Some (us, []) \<Rightarrow> Some us | _ \<Rightarrow> None))"

definition fromisoformat :: "string \<Rightarrow> datetime result" where
  "fromisoformat s =
     (case Option.bind (read_field 4 s) (\<lambda>(y, s).
           Option.bind (read_sep_field (CHR ''-'') 2 s) (\<lambda>(mo, s).
           Option.bind (read_sep_field (CHR ''-'') 2 s) (\<lambda>(d, s).
           Option.bind (read_sep_field (CHR ''T'') 2 s) (\<lambda>(h, s).
           Option.bind (read_sep_field (CHR '':'') 2 s) (\<lambda>(mi, s).
           Option.bind (read_sep_field (CHR '':'') 2 s) (\<lambda>(se, s).
           Option.bind (read_micro s) (\<lambda>us.
             Some \<lparr>dt_year = y, dt_month = mo, dt_day = d, dt_hour = h, dt_minute = mi,
               dt_second = se, dt_microsecond = us\<rparr>)))))))
      of None \<Rightarrow> Inl ValueError
       | Some t \<Rightarrow> if valid_datetime t then Inr t else Inl ValueError)"

lemma digit_val_char: "d < 10 \<Longrightarrow> digit_val (char_of (48 + d)) = Some d"
  by (simp add: digit_val_def code_of_def Let_def)

lemma length_digits [simp]: "length (digits w n) = w"
  by (induction w arbitrary: n) auto

lemma read_digits_append:
  "read_digits (Suc w) acc (s @ c # r) =
     Option.bind (read_digits w acc s) (\<lambda>(a, q). if q = [] then read_digits 1 a (c # r) else None)"
  if "length s = w"
  using that by (induction w arbitrary: acc s) (auto simp: length_Suc_conv split: option.splits)

lemma read_digits_digits:
  "n < 10 ^ w \<Longrightarrow> read_digits w acc (digits w n @ r) = Some (acc * 10 ^ w + n, r)"
proof (induction w arbitrary: n r acc)
  case (Suc w)
  have lt: "n div 10 < 10 ^ w" using Suc.prems by (simp add: less_mult_imp_div_less mult.commute)
  have "read_digits w acc (digits w (n div 10)) = Some (acc * 10 ^ w + n div 10, [])"
    using Suc.IH[OF lt, of acc "[]"] by simp
  then show ?case
    by (simp add: read_digits_append digit_val_char del: read_digits.simps(2,3)) (simp add: digit_val_char)
qed simp

lemma read_field_digits: "n < 10 ^ w \<Longrightarrow> read_field w (digits w n @ r) = Some (n, r)"
  by (simp add: read_field_def read_digits_digits)

lemma read_sep_field_digits: "n < 10 ^ w \<Longrightarrow> read_sep_field c w (c # digits w n @ r) = Some (n, r)"
  by (simp add: read_sep_field_def read_char_def read_field_digits)

lemma read_micro_digits:
  "u < 1000000 \<Longrightarrow> read_micro (if u = 0 then [] else CHR ''.'' # digits 6 u) = Some u"
  using read_sep_field_digits[of u 6 "CHR ''.''" "[]"] by (simp add: read_micro_def)

lemma days_in_month_le: "days_in_month y m \<le> 31"
  by (simp add: days_in_month_def)

lemma fromisoformat_isoformat: "valid_datetime t \<Longrightarrow> fromisoformat (isoformat t) = Inr t"
proof -
  assume v: "valid_datetime t"
  have d: "dt_day t < 100"
    using v days_in_month_le[of "dt_year t" "dt_month t"] by (simp add: valid_datetime_def)
  have "read_field 4 (digits 4 (dt_year t) @ r) = Some (dt_year t, r)" for r
    using v by (intro read_field_digits) (simp add: valid_datetime_def)
  moreover have "read_sep_field c 2 (c # digits 2 n @ r) = Some (n, r)" if "n < 100" for c n r
    using that by (intro read_sep_field_digits) simp
  moreover have "dt_month t < 100" "dt_hour t < 100" "dt_minute t < 100" "dt_second t < 100"
    "dt_microsecond t < 1000000" using v by (auto simp: valid_datetime_def)
  ultimately show ?thesis
    using d v by (simp add: fromisoformat_def isoformat_def read_micro_digits)
      (simp add: valid_datetime_def)
qed

end
