(* ===== verification/System_File.thy ===== *)
theory System_File
  imports Date_Text
begin

unbundle bit_operations_syntax

text \<open>
  \<open>system/file.py\<close>: the class \<open>SystemFile\<close>, a node of a scan, and its dictionary form
  \<open>SystemFileData\<close>, in which the remote scanner sends it.

  The slots of an object are the record \<open>sys_attrs\<close>, the \<open>__flags\<close> slot as the integer bit set of
  the source; a node is its attributes and its list of children (\<open>__children\<close> being \<open>None\<close> or
  empty makes no difference to any reader). A dictionary of the typed form is the record
  \<open>sys_data_fields\<close>, an absent key being \<open>None\<close>; the values the code checks at run time are
  Python values. The round trip is stated with the source's own \<open>__eq__\<close>, \<open>sys_eq\<close>.
\<close>

section \<open>Data\<close>

record sys_attrs =
  sa_name :: string
  sa_size :: int
  sa_flags :: int
  sa_created :: "datetime option"
  sa_modified :: "datetime option"
  sa_mtime_ns :: "int option"
  sa_path_pair_id :: "string option"
  sa_path_pair_name :: "string option"

datatype system_file = SystemFile (sattrs: sys_attrs) (skids: "system_file list")

definition supd :: "(sys_attrs \<Rightarrow> sys_attrs) \<Rightarrow> system_file \<Rightarrow> system_file" where
  "supd g f = SystemFile (g (sattrs f)) (skids f)"

lemma supd_simps [simp]: "sattrs (supd g f) = g (sattrs f)" "skids (supd g f) = skids f"
  by (simp_all add: supd_def)

abbreviation sf_name :: "system_file \<Rightarrow> string" where "sf_name f \<equiv> sa_name (sattrs f)"
abbreviation sf_size :: "system_file \<Rightarrow> int" where "sf_size f \<equiv> sa_size (sattrs f)"

section \<open>Flags\<close>

abbreviation S_DIR :: int where "S_DIR \<equiv> 1"
abbreviation S_STAGING :: int where "S_STAGING \<equiv> 2"
abbreviation S_STATUS_READY :: int where "S_STATUS_READY \<equiv> 4"
abbreviation S_STAGING_COLLISION :: int where "S_STAGING_COLLISION \<equiv> 8"
abbreviation S_STAGING_ORIGIN_KNOWN :: int where "S_STAGING_ORIGIN_KNOWN \<equiv> 16"
abbreviation S_HAS_STAGING_ORIGIN :: int where "S_HAS_STAGING_ORIGIN \<equiv> 32"

definition flag_on :: "int \<Rightarrow> int \<Rightarrow> bool" where
  "flag_on flags k = (flags AND k \<noteq> 0)"

definition sf_is_dir :: "system_file \<Rightarrow> bool" where
  "sf_is_dir f = flag_on (sa_flags (sattrs f)) S_DIR"

definition sf_is_staging :: "system_file \<Rightarrow> bool" where
  "sf_is_staging f = flag_on (sa_flags (sattrs f)) S_STAGING"

definition sf_has_staging_origin :: "system_file \<Rightarrow> bool option" where
  "sf_has_staging_origin f =
     (if \<not> flag_on (sa_flags (sattrs f)) S_STAGING_ORIGIN_KNOWN then None
      else Some (flag_on (sa_flags (sattrs f)) S_HAS_STAGING_ORIGIN))"

definition sf_has_staging_collision :: "system_file \<Rightarrow> bool" where
  "sf_has_staging_collision f = flag_on (sa_flags (sattrs f)) S_STAGING_COLLISION"

definition sf_status_sidecar_ready :: "system_file \<Rightarrow> bool" where
  "sf_status_sidecar_ready f = flag_on (sa_flags (sattrs f)) S_STATUS_READY"

definition put_mask :: "int \<Rightarrow> bool \<Rightarrow> system_file \<Rightarrow> system_file" where
  "put_mask k v f =
     supd (\<lambda>a. a\<lparr>sa_flags := if v then sa_flags a OR k else sa_flags a AND NOT k\<rparr>) f"

section \<open>Setters\<close>

definition sf_set_path_pair_id :: "pyval \<Rightarrow> system_file \<Rightarrow> system_file result" where
  "sf_set_path_pair_id v f =
     (case v of
        PNone \<Rightarrow> Inr (supd (\<lambda>a. a\<lparr>sa_path_pair_id := None\<rparr>) f)
      | PStr s \<Rightarrow> Inr (supd (\<lambda>a. a\<lparr>sa_path_pair_id := Some s\<rparr>) f)
      | _ \<Rightarrow> Inl TypeError)"

definition sf_set_path_pair_name :: "pyval \<Rightarrow> system_file \<Rightarrow> system_file result" where
  "sf_set_path_pair_name v f =
     (case v of
        PNone \<Rightarrow> Inr (supd (\<lambda>a. a\<lparr>sa_path_pair_name := None\<rparr>) f)
      | PStr s \<Rightarrow> Inr (supd (\<lambda>a. a\<lparr>sa_path_pair_name := Some s\<rparr>) f)
      | _ \<Rightarrow> Inl TypeError)"

definition sf_set_is_staging :: "pyval \<Rightarrow> system_file \<Rightarrow> system_file result" where
  "sf_set_is_staging v f =
     (case v of PBool b \<Rightarrow> Inr (put_mask S_STAGING b f) | _ \<Rightarrow> Inl TypeError)"

definition sf_set_has_staging_origin :: "pyval \<Rightarrow> system_file \<Rightarrow> system_file result" where
  "sf_set_has_staging_origin v f =
     (case v of
        PNone \<Rightarrow> Inr (put_mask (S_STAGING_ORIGIN_KNOWN OR S_HAS_STAGING_ORIGIN) False f)
      | PBool b \<Rightarrow>
          Inr (if b then put_mask (S_STAGING_ORIGIN_KNOWN OR S_HAS_STAGING_ORIGIN) True f
               else put_mask S_HAS_STAGING_ORIGIN False (put_mask S_STAGING_ORIGIN_KNOWN True f))
      | _ \<Rightarrow> Inl TypeError)"

definition sf_set_has_staging_collision :: "pyval \<Rightarrow> system_file \<Rightarrow> system_file result" where
  "sf_set_has_staging_collision v f =
     (case v of PBool b \<Rightarrow> Inr (put_mask S_STAGING_COLLISION b f) | _ \<Rightarrow> Inl TypeError)"

definition sf_set_status_sidecar_ready :: "pyval \<Rightarrow> system_file \<Rightarrow> system_file result" where
  "sf_set_status_sidecar_ready v f =
     (case v of PBool b \<Rightarrow> Inr (put_mask S_STATUS_READY b f) | _ \<Rightarrow> Inl TypeError)"

section \<open>Construction and comparison\<close>

definition new_system_file ::
  "string \<Rightarrow> int \<Rightarrow> bool \<Rightarrow> datetime option \<Rightarrow> datetime option \<Rightarrow> bool \<Rightarrow> int option \<Rightarrow> pyval \<Rightarrow>
   system_file result" where
  "new_system_file name sz is_dir created modified is_staging mtime_ns origin =
     (if sz < 0 then Inl ValueError
      else sf_set_has_staging_origin origin
        (SystemFile \<lparr>sa_name = name, sa_size = sz,
           sa_flags = (if is_staging then (if is_dir then S_DIR else 0) OR S_STAGING
                       else if is_dir then S_DIR else 0),
           sa_created = created, sa_modified = modified, sa_mtime_ns = mtime_ns,
           sa_path_pair_id = None, sa_path_pair_name = None\<rparr> []))"

definition sf_add_child :: "system_file \<Rightarrow> system_file \<Rightarrow> system_file result" where
  "sf_add_child f child =
     (if \<not> sf_is_dir f then Inl TypeError else Inr (SystemFile (sattrs f) (skids f @ [child])))"

definition same_attrs :: "system_file \<Rightarrow> system_file \<Rightarrow> bool" where
  "same_attrs f g \<longleftrightarrow>
     sf_name f = sf_name g \<and> sf_size f = sf_size g \<and> sf_is_dir f = sf_is_dir g \<and>
     sa_created (sattrs f) = sa_created (sattrs g) \<and> sa_modified (sattrs f) = sa_modified (sattrs g) \<and>
     sa_mtime_ns (sattrs f) = sa_mtime_ns (sattrs g) \<and>
     sa_path_pair_id (sattrs f) = sa_path_pair_id (sattrs g) \<and>
     sa_path_pair_name (sattrs f) = sa_path_pair_name (sattrs g) \<and>
     sf_is_staging f = sf_is_staging g \<and> sf_has_staging_origin f = sf_has_staging_origin g \<and>
     sf_has_staging_collision f = sf_has_staging_collision g \<and>
     sf_status_sidecar_ready f = sf_status_sidecar_ready g"

fun sys_eq :: "system_file \<Rightarrow> system_file \<Rightarrow> bool" and sys_eqs :: "system_file list \<Rightarrow> system_file list \<Rightarrow> bool" where
  "sys_eq (SystemFile a cs) (SystemFile b ds) =
     (same_attrs (SystemFile a cs) (SystemFile b ds) \<and> sys_eqs cs ds)"
| "sys_eqs [] [] = True"
| "sys_eqs (c # cs) (d # ds) = (sys_eq c d \<and> sys_eqs cs ds)"
| "sys_eqs _ _ = False"

section \<open>The dictionary form\<close>

record sys_data_fields =
  sd_name :: string
  sd_size :: int
  sd_is_dir :: "bool option"
  sd_time_created :: "string option option"
  sd_time_modified :: "string option option"
  sd_mtime_ns :: "int option"
  sd_path_pair_id :: "pyval option"
  sd_path_pair_name :: "pyval option"
  sd_is_staging :: "bool option"
  sd_has_staging_origin :: "pyval option"
  sd_has_staging_collision :: "pyval option"

datatype system_file_data =
  SystemFileData (sd_fields: sys_data_fields) (sd_children: "system_file_data list option")

text \<open>\<open>data.get(key)\<close> and \<open>data.get(key, default)\<close>.\<close>

definition get_or :: "'a \<Rightarrow> 'a option \<Rightarrow> 'a" where
  "get_or d x = (case x of None \<Rightarrow> d | Some v \<Rightarrow> v)"

definition dict_fields :: "system_file \<Rightarrow> sys_data_fields" where
  "dict_fields f =
     \<lparr>sd_name = sf_name f, sd_size = sf_size f, sd_is_dir = Some (sf_is_dir f),
      sd_time_created = map_option (\<lambda>t. Some (isoformat t)) (sa_created (sattrs f)),
      sd_time_modified = map_option (\<lambda>t. Some (isoformat t)) (sa_modified (sattrs f)),
      sd_mtime_ns = sa_mtime_ns (sattrs f),
      sd_path_pair_id = map_option PStr (sa_path_pair_id (sattrs f)),
      sd_path_pair_name = map_option PStr (sa_path_pair_name (sattrs f)),
      sd_is_staging = (if sf_is_staging f then Some True else None),
      sd_has_staging_origin = map_option PBool (sf_has_staging_origin f),
      sd_has_staging_collision = (if sf_has_staging_collision f then Some (PBool True) else None)\<rparr>"

fun to_dict :: "system_file \<Rightarrow> system_file_data" where
  "to_dict (SystemFile a cs) =
     SystemFileData (dict_fields (SystemFile a cs)) (if cs = [] then None else Some (map to_dict cs))"

definition read_time :: "string option option \<Rightarrow> datetime option result" where
  "read_time v = (case v of
       Some (Some s) \<Rightarrow> rbind (fromisoformat s) (\<lambda>t. Inr (Some t))
     | _ \<Rightarrow> Inr None)"

text \<open>\<open>from_dict\<close> up to its loop over the children.\<close>

definition origin_value :: "pyval \<Rightarrow> pyval" where
  "origin_value v = (case v of PBool b \<Rightarrow> PBool b | _ \<Rightarrow> PNone)"

definition from_fields :: "sys_data_fields \<Rightarrow> system_file result" where
  "from_fields d =
     rbind (read_time (sd_time_created d)) (\<lambda>created.
     rbind (read_time (sd_time_modified d)) (\<lambda>modified.
     rbind (new_system_file (sd_name d) (sd_size d) (get_or False (sd_is_dir d)) created modified
              (get_or False (sd_is_staging d)) (sd_mtime_ns d) PNone) (\<lambda>f.
     rbind (sf_set_path_pair_id (get_or PNone (sd_path_pair_id d)) f) (\<lambda>f.
     rbind (sf_set_path_pair_name (get_or PNone (sd_path_pair_name d)) f) (\<lambda>f.
     rbind (sf_set_has_staging_origin (origin_value (get_or PNone (sd_has_staging_origin d))) f) (\<lambda>f.
     sf_set_has_staging_collision (get_or (PBool False) (sd_has_staging_collision d)) f))))))"

fun from_dict :: "system_file_data \<Rightarrow> system_file result" and add_children :: "system_file_data list \<Rightarrow> system_file \<Rightarrow> system_file result" where
  "from_dict (SystemFileData d cs) =
     rbind (from_fields d) (\<lambda>f. case cs of None \<Rightarrow> Inr f | Some ds \<Rightarrow> add_children ds f)"
| "add_children [] f = Inr f"
| "add_children (d # ds) f =
     rbind (from_dict d) (\<lambda>c. rbind (sf_add_child f c) (add_children ds))"

section \<open>Well-formed nodes\<close>

definition node_ok :: "system_file \<Rightarrow> bool" where
  "node_ok f \<longleftrightarrow> 0 \<le> sf_size f \<and> (skids f \<noteq> [] \<longrightarrow> sf_is_dir f) \<and>
     pred_option valid_datetime (sa_created (sattrs f)) \<and>
     pred_option valid_datetime (sa_modified (sattrs f))"

fun sys_ok :: "system_file \<Rightarrow> bool" where
  "sys_ok (SystemFile a cs) = (node_ok (SystemFile a cs) \<and> (\<forall>c\<in>set cs. sys_ok c))"


lemma flag_on_bits:
  "flag_on n S_DIR = bit n 0" "flag_on n S_STAGING = bit n 1" "flag_on n S_STATUS_READY = bit n 2"
  "flag_on n S_STAGING_COLLISION = bit n 3" "flag_on n S_STAGING_ORIGIN_KNOWN = bit n 4"
  "flag_on n S_HAS_STAGING_ORIGIN = bit n 5"
  using and_exp_eq_0_iff_not_bit[of n 0] and_exp_eq_0_iff_not_bit[of n 1] and_exp_eq_0_iff_not_bit[of n 2]
    and_exp_eq_0_iff_not_bit[of n 3] and_exp_eq_0_iff_not_bit[of n 4] and_exp_eq_0_iff_not_bit[of n 5]
  by (simp_all add: flag_on_def)

lemma origin_mask: "S_STAGING_ORIGIN_KNOWN OR S_HAS_STAGING_ORIGIN = 48"
  by simp

lemma mask_bit:
  "bit (1::int) i = (i = 0)" "bit (2::int) i = (i = 1)" "bit (4::int) i = (i = 2)"
  "bit (8::int) i = (i = 3)" "bit (16::int) i = (i = 4)" "bit (32::int) i = (i = 5)"
  "bit (48::int) i = (i = 4 \<or> i = 5)"
proof -
  have e: "bit ((2::int) ^ k) i = (i = k)" for k by (auto simp: bit_exp_iff)
  show "bit (1::int) i = (i = 0)" "bit (2::int) i = (i = 1)" "bit (4::int) i = (i = 2)"
    "bit (8::int) i = (i = 3)" "bit (16::int) i = (i = 4)" and f: "bit (32::int) i = (i = 5)"
    using e[of 0] e[of 1] e[of 2] e[of 3] e[of 4] e[of 5] by simp_all
  show "bit (48::int) i = (i = 4 \<or> i = 5)"
    unfolding origin_mask[symmetric] bit_or_iff f using e[of 4] by simp
qed

lemmas sys_flag_simps =
  sf_is_dir_def sf_is_staging_def sf_has_staging_origin_def sf_has_staging_collision_def
  sf_status_sidecar_ready_def put_mask_def flag_on_bits origin_mask bit_or_iff bit_and_iff
  bit_not_iff mask_bit

section \<open>The round trip\<close>

text \<open>\<open>status_sidecar_ready\<close> is local to the process and no part of the dictionary form.\<close>

fun forget_status :: "system_file \<Rightarrow> system_file" where
  "forget_status (SystemFile a cs) =
     put_mask S_STATUS_READY False (SystemFile a (map forget_status cs))"

lemma read_time_isoformat:
  "pred_option valid_datetime t \<Longrightarrow> read_time (map_option (\<lambda>t. Some (isoformat t)) t) = Inr t"
  by (cases t) (simp_all add: read_time_def fromisoformat_isoformat)

lemma put_mask_field [simp]:
  "sf_name (put_mask k v f) = sf_name f" "sf_size (put_mask k v f) = sf_size f"
  "sa_created (sattrs (put_mask k v f)) = sa_created (sattrs f)"
  "sa_modified (sattrs (put_mask k v f)) = sa_modified (sattrs f)"
  "sa_mtime_ns (sattrs (put_mask k v f)) = sa_mtime_ns (sattrs f)"
  "sa_path_pair_id (sattrs (put_mask k v f)) = sa_path_pair_id (sattrs f)"
  "sa_path_pair_name (sattrs (put_mask k v f)) = sa_path_pair_name (sattrs f)"
  "skids (put_mask k v f) = skids f"
  by (simp_all add: put_mask_def)

lemma from_fields_dict_fields:
  assumes "node_ok f"
  shows "\<exists>g. from_fields (dict_fields f) = Inr g \<and> skids g = [] \<and>
    same_attrs g (put_mask S_STATUS_READY False f)"
proof -
  have t: "read_time (sd_time_created (dict_fields f)) = Inr (sa_created (sattrs f))"
    "read_time (sd_time_modified (dict_fields f)) = Inr (sa_modified (sattrs f))"
    using assms by (simp_all add: dict_fields_def read_time_isoformat node_ok_def)
  have sz: "\<not> sf_size f < 0" using assms by (simp add: node_ok_def)
  show ?thesis
    unfolding from_fields_def t
    by (cases "sa_path_pair_id (sattrs f)"; cases "sa_path_pair_name (sattrs f)";
        cases "sf_has_staging_origin f"; cases "sf_is_staging f"; cases "sf_has_staging_collision f")
      (use sz in \<open>auto simp: dict_fields_def new_system_file_def sf_set_path_pair_id_def sf_set_path_pair_name_def
         sf_set_has_staging_origin_def sf_set_has_staging_collision_def get_or_def origin_value_def
         same_attrs_def sys_flag_simps split: if_splits\<close>)
qed

lemma same_attrs_cong:
  assumes "sattrs f = sattrs f'" "sattrs g = sattrs g'"
  shows "same_attrs f g = same_attrs f' g'"
  using assms by (simp add: same_attrs_def sys_flag_simps)

lemma sys_eq_iff: "sys_eq f g \<longleftrightarrow> same_attrs f g \<and> sys_eqs (skids f) (skids g)"
  by (cases f; cases g) simp

lemma sys_eqs_append: "sys_eqs cs ds \<Longrightarrow> sys_eqs cs' ds' \<Longrightarrow> sys_eqs (cs @ cs') (ds @ ds')"
  by (induction cs ds rule: list_induct2') auto

lemma add_children_to_dict:
  assumes "sf_is_dir f"
    and "\<And>c. c \<in> set cs \<Longrightarrow> \<exists>g. from_dict (to_dict c) = Inr g \<and> sys_eq g (forget_status c)"
  shows "\<exists>gs. add_children (map to_dict cs) f = Inr (SystemFile (sattrs f) (skids f @ gs)) \<and>
    sys_eqs gs (map forget_status cs)"
  using assms
proof (induction cs arbitrary: f)
  case Nil
  then show ?case by (cases f) simp
next
  case (Cons c cs)
  obtain g where g: "from_dict (to_dict c) = Inr g" "sys_eq g (forget_status c)"
    using Cons.prems(2)[of c] by auto
  let ?f = "SystemFile (sattrs f) (skids f @ [g])"
  have "sf_is_dir ?f" using Cons.prems(1) by (simp add: sf_is_dir_def)
  then obtain gs where "add_children (map to_dict cs) ?f = Inr (SystemFile (sattrs ?f) (skids ?f @ gs))"
    "sys_eqs gs (map forget_status cs)"
    using Cons.IH[of ?f] Cons.prems(2) by auto
  with g Cons.prems(1) show ?case
    by (intro exI[of _ "g # gs"]) (simp add: sf_add_child_def)
qed

lemma from_dict_to_dict:
  "sys_ok f \<Longrightarrow> \<exists>g. from_dict (to_dict f) = Inr g \<and> sys_eq g (forget_status f)"
proof (induction f)
  case (SystemFile a cs)
  let ?f = "SystemFile a cs"
  have ok: "node_ok ?f" and kids: "\<And>c. c \<in> set cs \<Longrightarrow> sys_ok c" using SystemFile.prems by auto
  obtain g where g: "from_fields (dict_fields ?f) = Inr g" "skids g = []"
    "same_attrs g (put_mask S_STATUS_READY False ?f)"
    using from_fields_dict_fields[OF ok] by blast
  have attrs: "same_attrs (SystemFile (sattrs g) gs) (forget_status ?f)" for gs
    using g(3) by (rule same_attrs_cong[THEN iffD1, rotated 2]) (simp_all add: put_mask_def)
  show ?case
  proof (cases "cs = []")
    case True
    have "SystemFile (sattrs g) [] = g" using g(2) by (metis system_file.collapse)
    with True g(1,2) attrs[of "[]"] show ?thesis by (simp add: sys_eq_iff)
  next
    case False
    then have "sf_is_dir g" using ok g(3) by (simp add: node_ok_def same_attrs_def sys_flag_simps)
    then obtain gs where gs: "add_children (map to_dict cs) g = Inr (SystemFile (sattrs g) (skids g @ gs))"
      "sys_eqs gs (map forget_status cs)"
      using add_children_to_dict[of g cs] SystemFile.IH kids by blast
    with False g(1,2) attrs show ?thesis by (simp add: sys_eq_iff)
  qed
qed

text \<open>\<open>from_dict\<close> fails with the error of the first offending field, and a child of a plain file is
  refused.\<close>

lemma from_dict_children_of_file:
  assumes "from_fields d = Inr f" "\<not> sf_is_dir f" "from_dict c = Inr g"
  shows "from_dict (SystemFileData d (Some (c # cs))) = Inl TypeError"
  using assms by (simp add: sf_add_child_def)

end
