(* ===== verification/Exclude_Patterns.thy ===== *)
theory Exclude_Patterns
  imports System_File Glob
begin

text \<open>
  \<open>common/exclude_patterns.py\<close>: the exclusion patterns of a scan, and the filter that removes what
  they match from a scanned tree.

  The patterns come as a text separated by commas, as a list, or not at all
  (\<open>pattern_source\<close>). The main lemma says which nodes of a tree the filter keeps:
  exactly those with no excluded node on the way from the root, in the order of the scan, with
  the size of every kept directory recomputed as the total of the files left below it.
\<close>

section \<open>Definitions\<close>

datatype 'a pattern_source = NoPatterns | PatternText string | PatternList "'a list"

datatype exact_path = ExactPath (relative_path: string)

datatype transfer_exclusion = UserPattern "string option" | Exactly exact_path

definition new_exact_path :: "pyval \<Rightarrow> exact_path result" where
  "new_exact_path v =
     (case v of
        PStr p \<Rightarrow>
          if p = [] \<or> startswith p ''/'' \<or>
             list_ex (\<lambda>part. part = [] \<or> part = ''.'' \<or> part = ''..'') (split_on (CHR ''/'') p)
          then Inl ValueError
          else if list_ex (\<lambda>c. code_of c < 32 \<or> code_of c = 127) p then Inl ValueError
          else Inr (ExactPath p)
      | _ \<Rightarrow> Inl TypeError)"

text \<open>The loop of \<open>parse_exclude_patterns\<close>; \<open>seen_patterns\<close> holds the patterns parsed so far.\<close>

fun parse_loop :: "string option list \<Rightarrow> string list \<Rightarrow> string list" where
  "parse_loop [] parsed = parsed"
| "parse_loop (None # ps) parsed = parse_loop ps parsed"
| "parse_loop (Some p # ps) parsed =
     (let normalized = strip p
      in if normalized = [] \<or> normalized \<in> set parsed then parse_loop ps parsed
         else parse_loop ps (parsed @ [normalized]))"

definition parse_exclude_patterns :: "string option pattern_source \<Rightarrow> string list" where
  "parse_exclude_patterns src =
     (case src of
        NoPatterns \<Rightarrow> []
      | PatternText s \<Rightarrow> parse_loop (map Some (split_on (CHR '','') s)) []
      | PatternList ps \<Rightarrow> parse_loop ps [])"

fun partition_loop :: "transfer_exclusion list \<Rightarrow> string option list \<Rightarrow> exact_path list \<Rightarrow>
    string option list \<times> exact_path list" where
  "partition_loop [] user exact = (user, exact)"
| "partition_loop (Exactly e # es) user exact =
     partition_loop es user (if e \<in> set exact then exact else exact @ [e])"
| "partition_loop (UserPattern p # es) user exact = partition_loop es (user @ [p]) exact"

definition partition_transfer_exclusions ::
  "transfer_exclusion pattern_source \<Rightarrow> string list \<times> exact_path list" where
  "partition_transfer_exclusions src =
     (case src of
        NoPatterns \<Rightarrow> (parse_exclude_patterns NoPatterns, [])
      | PatternText s \<Rightarrow> (parse_exclude_patterns (PatternText s), [])
      | PatternList es \<Rightarrow>
          (let (user, exact) = partition_loop es [] []
           in (parse_exclude_patterns (PatternList user), exact)))"

type_synonym exclude_pattern = "string \<times> bool"

definition compile_exclude_patterns :: "string option pattern_source \<Rightarrow> exclude_pattern list" where
  "compile_exclude_patterns src =
     map (\<lambda>p. (rstrip_char (CHR ''/'') p, endswith p ''/'')) (parse_exclude_patterns src)"

definition matches_exclude :: "string \<Rightarrow> bool \<Rightarrow> exclude_pattern list \<Rightarrow> bool" where
  "matches_exclude path is_dir patterns =
     list_ex (\<lambda>(pat, dir_only). fnmatchcase path pat \<and> (\<not> dir_only \<or> is_dir)) patterns"

fun add_all :: "system_file list \<Rightarrow> system_file \<Rightarrow> system_file result" where
  "add_all [] f = Inr f"
| "add_all (c # cs) f = rbind (sf_add_child f c) (add_all cs)"

definition clone_system_file :: "system_file \<Rightarrow> system_file list option \<Rightarrow> system_file result" where
  "clone_system_file f children =
     rbind (new_system_file (sf_name f)
              (case children of None \<Rightarrow> sf_size f | Some cs \<Rightarrow> sum_list (map sf_size cs))
              (sf_is_dir f) (sa_created (sattrs f)) (sa_modified (sattrs f)) (sf_is_staging f)
              (sa_mtime_ns (sattrs f)) PNone) (\<lambda>g.
     rbind (sf_set_path_pair_id (of_opt_str (sa_path_pair_id (sattrs f))) g) (\<lambda>g.
     rbind (sf_set_path_pair_name (of_opt_str (sa_path_pair_name (sattrs f))) g) (\<lambda>g.
     rbind (sf_set_status_sidecar_ready (PBool (sf_status_sidecar_ready f)) g) (\<lambda>g.
     rbind (sf_set_has_staging_collision (PBool (sf_has_staging_collision f)) g) (\<lambda>g.
     add_all (case children of None \<Rightarrow> skids f | Some cs \<Rightarrow> cs) g)))))"

definition child_relative_path :: "string option \<Rightarrow> string \<Rightarrow> string" where
  "child_relative_path parent child =
     (case parent of
        None \<Rightarrow> child
      | Some p \<Rightarrow> if p = [] then child else p @ ''/'' @ child)"

fun filter_excluded_tree :: "exclude_pattern list \<Rightarrow> string option \<Rightarrow> system_file \<Rightarrow> system_file option result" and filter_excluded_kids :: "exclude_pattern list \<Rightarrow> string option \<Rightarrow> system_file list \<Rightarrow> system_file list result" where
  "filter_excluded_tree patterns rel (SystemFile a cs) =
     (let f = SystemFile a cs
      in if opt_holds (\<lambda>r. matches_exclude r (sf_is_dir f) patterns) rel then Inr None
         else if \<not> sf_is_dir f then rbind (clone_system_file f None) (\<lambda>g. Inr (Some g))
         else rbind (filter_excluded_kids patterns rel cs) (\<lambda>ks.
              rbind (clone_system_file f (Some ks)) (\<lambda>g. Inr (Some g))))"
| "filter_excluded_kids patterns rel [] = Inr []"
| "filter_excluded_kids patterns rel (c # cs) =
     rbind (filter_excluded_tree patterns (Some (child_relative_path rel (sf_name c))) c) (\<lambda>k.
     rbind (filter_excluded_kids patterns rel cs) (\<lambda>ks.
       Inr (case k of None \<Rightarrow> ks | Some g \<Rightarrow> g # ks)))"

fun filter_roots :: "exclude_pattern list \<Rightarrow> system_file list \<Rightarrow> system_file list result" where
  "filter_roots patterns [] = Inr []"
| "filter_roots patterns (f # fs) =
     (if matches_exclude (sf_name f) (sf_is_dir f) patterns then filter_roots patterns fs
      else rbind (if sf_is_dir f then filter_excluded_tree patterns None f
                  else rbind (clone_system_file f None) (\<lambda>g. Inr (Some g))) (\<lambda>k.
           rbind (filter_roots patterns fs) (\<lambda>ks.
             Inr (case k of None \<Rightarrow> ks | Some g \<Rightarrow> g # ks))))"

definition filter_excluded_files ::
  "system_file list option \<Rightarrow> string option pattern_source \<Rightarrow> system_file list result" where
  "filter_excluded_files files src =
     (case files of
        None \<Rightarrow> Inr []
      | Some fs \<Rightarrow>
          (let patterns = compile_exclude_patterns src
           in if patterns = [] then Inr fs else filter_roots patterns fs))"

section \<open>Parsing\<close>

lemma parse_loop_spec:
  assumes "distinct parsed" "[] \<notin> set parsed"
  shows "distinct (parse_loop ps parsed) \<and> [] \<notin> set (parse_loop ps parsed) \<and>
    set (parse_loop ps parsed) = set parsed \<union> ({strip p |p. Some p \<in> set ps} - {[]})"
  using assms by (induction ps parsed rule: parse_loop.induct) (auto simp: Let_def)

lemma partition_loop_spec:
  assumes "distinct exact"
  shows "fst (partition_loop es user exact) = user @ [p. UserPattern p \<leftarrow> es] \<and>
    distinct (snd (partition_loop es user exact)) \<and>
    set (snd (partition_loop es user exact)) = set exact \<union> {e. Exactly e \<in> set es}"
  using assms by (induction es user exact rule: partition_loop.induct) auto

lemma new_exact_path_ok:
  assumes "new_exact_path v = Inr e"
  shows "v = PStr (relative_path e) \<and> relative_path e \<noteq> [] \<and> hd (relative_path e) \<noteq> CHR ''/'' \<and>
    set (split_on (CHR ''/'') (relative_path e)) \<inter> {[], ''.'', ''..''} = {}"
  using assms
  by (auto simp: new_exact_path_def startswith_def neq_Nil_conv list_ex_iff split: pyval.splits if_splits)

section \<open>Clones\<close>

definition clone_of :: "system_file \<Rightarrow> system_file \<Rightarrow> bool" where
  "clone_of f g \<longleftrightarrow>
     sf_name g = sf_name f \<and> sf_is_dir g = sf_is_dir f \<and>
     sa_created (sattrs g) = sa_created (sattrs f) \<and> sa_modified (sattrs g) = sa_modified (sattrs f) \<and>
     sa_mtime_ns (sattrs g) = sa_mtime_ns (sattrs f) \<and>
     sa_path_pair_id (sattrs g) = sa_path_pair_id (sattrs f) \<and>
     sa_path_pair_name (sattrs g) = sa_path_pair_name (sattrs f) \<and>
     sf_is_staging g = sf_is_staging f \<and>
     sf_has_staging_collision g = sf_has_staging_collision f \<and>
     sf_status_sidecar_ready g = sf_status_sidecar_ready f \<and>
     sf_has_staging_origin g = None"

lemma add_all_dir:
  "sf_is_dir f \<or> cs = [] \<Longrightarrow> add_all cs f = Inr (SystemFile (sattrs f) (skids f @ cs))"
proof (induction cs arbitrary: f)
  case (Cons c cs)
  then have "sf_is_dir (SystemFile (sattrs f) (skids f @ [c]))" by (simp add: sf_is_dir_def)
  with Cons show ?case by (simp add: sf_add_child_def)
qed (cases f, simp)

lemma clone_runs:
  assumes "0 \<le> (case children of None \<Rightarrow> sf_size f | Some cs \<Rightarrow> sum_list (map sf_size cs))"
  obtains h where "clone_of f h" "skids h = []"
    "sf_size h = (case children of None \<Rightarrow> sf_size f | Some cs \<Rightarrow> sum_list (map sf_size cs))"
    "clone_system_file f children = add_all (case children of None \<Rightarrow> skids f | Some cs \<Rightarrow> cs) h"
proof -
  let ?sz = "case children of None \<Rightarrow> sf_size f | Some cs \<Rightarrow> sum_list (map sf_size cs)"
  let ?kids = "case children of None \<Rightarrow> skids f | Some cs \<Rightarrow> cs"
  have opt: "sf_set_path_pair_id (of_opt_str x) g = Inr (supd (\<lambda>a. a\<lparr>sa_path_pair_id := x\<rparr>) g)"
    "sf_set_path_pair_name (of_opt_str x) g = Inr (supd (\<lambda>a. a\<lparr>sa_path_pair_name := x\<rparr>) g)" for x g
    by (cases x; simp add: sf_set_path_pair_id_def sf_set_path_pair_name_def of_opt_str_def)+
  define h where "h = put_mask S_STAGING_COLLISION (sf_has_staging_collision f)
    (put_mask S_STATUS_READY (sf_status_sidecar_ready f)
    (supd (\<lambda>a. a\<lparr>sa_path_pair_name := sa_path_pair_name (sattrs f)\<rparr>)
    (supd (\<lambda>a. a\<lparr>sa_path_pair_id := sa_path_pair_id (sattrs f)\<rparr>)
    (put_mask (S_STAGING_ORIGIN_KNOWN OR S_HAS_STAGING_ORIGIN) False
      (SystemFile \<lparr>sa_name = sf_name f, sa_size = ?sz,
           sa_flags = (if sf_is_staging f then (if sf_is_dir f then S_DIR else 0) OR S_STAGING
                       else if sf_is_dir f then S_DIR else 0),
           sa_created = sa_created (sattrs f), sa_modified = sa_modified (sattrs f),
           sa_mtime_ns = sa_mtime_ns (sattrs f),
           sa_path_pair_id = None, sa_path_pair_name = None\<rparr> [])))))"
  have "clone_system_file f children = add_all ?kids h"
    using assms(1)
    by (simp add: clone_system_file_def new_system_file_def sf_set_has_staging_origin_def opt h_def
        sf_set_status_sidecar_ready_def sf_set_has_staging_collision_def)
  moreover have "clone_of f h" "sf_size h = ?sz" "skids h = []"
    unfolding h_def clone_of_def by (simp_all add: sys_flag_simps)
  ultimately show thesis using that by blast
qed

lemma clone_of_attrs: "clone_of f g \<Longrightarrow> sattrs g' = sattrs g \<Longrightarrow> clone_of f g'"
  by (simp add: clone_of_def sys_flag_simps split: if_splits)

lemma clone_system_file_spec:
  assumes "0 \<le> (case children of None \<Rightarrow> sf_size f | Some cs \<Rightarrow> sum_list (map sf_size cs))"
    and "sf_is_dir f \<or> (case children of None \<Rightarrow> skids f | Some cs \<Rightarrow> cs) = []"
  obtains g where "clone_system_file f children = Inr g" "clone_of f g"
    "sf_size g = (case children of None \<Rightarrow> sf_size f | Some cs \<Rightarrow> sum_list (map sf_size cs))"
    "skids g = (case children of None \<Rightarrow> skids f | Some cs \<Rightarrow> cs)"
proof -
  let ?kids = "case children of None \<Rightarrow> skids f | Some cs \<Rightarrow> cs"
  obtain h where h: "clone_of f h" "skids h = []"
    "sf_size h = (case children of None \<Rightarrow> sf_size f | Some cs \<Rightarrow> sum_list (map sf_size cs))"
    "clone_system_file f children = add_all ?kids h"
    by (rule clone_runs[OF assms(1)])
  have "add_all ?kids h = Inr (SystemFile (sattrs h) (skids h @ ?kids))"
    by (rule add_all_dir) (use assms(2) h(1) in \<open>auto simp: clone_of_def\<close>)
  then show thesis
    by (intro that[of "SystemFile (sattrs h) ?kids"]) (use h clone_of_attrs[OF h(1)] in simp_all)
qed

lemma add_all_attrs: "add_all cs f = Inr g \<Longrightarrow> sattrs g = sattrs f"
  by (induction cs arbitrary: f) (auto simp: rbind_Inr_iff sf_add_child_def split: if_splits)

text \<open>Every attribute of a clone is that of its original but two: the size of a directory, which is
  recomputed, and \<open>has_staging_origin\<close>, which is not copied.\<close>

lemma clone_system_file_clone:
  assumes "clone_system_file f children = Inr g"
  shows "clone_of f g"
proof -
  have "0 \<le> (case children of None \<Rightarrow> sf_size f | Some cs \<Rightarrow> sum_list (map sf_size cs))"
    using assms by (auto simp: clone_system_file_def new_system_file_def rbind_Inr_iff split: if_splits)
  then obtain h where "clone_of f h"
    "clone_system_file f children = add_all (case children of None \<Rightarrow> skids f | Some cs \<Rightarrow> cs) h"
    by (rule clone_runs)
  with assms show ?thesis by (auto intro: clone_of_attrs add_all_attrs)
qed

section \<open>The filter\<close>

text \<open>A node of a tree comes with the chain of names that leads to it from the root, each with its kind.\<close>

type_synonym chain = "(string \<times> bool) list"

definition step_down :: "system_file \<Rightarrow> chain \<times> system_file \<Rightarrow> chain \<times> system_file" where
  "step_down c = apfst ((#) (sf_name c, sf_is_dir c))"

fun tree_nodes :: "system_file \<Rightarrow> (chain \<times> system_file) list" where
  "tree_nodes (SystemFile a cs) =
     ([], SystemFile a cs) # concat (map (\<lambda>c. map (step_down c) (tree_nodes c)) cs)"

fun excluded_below :: "exclude_pattern list \<Rightarrow> string option \<Rightarrow> chain \<Rightarrow> bool" where
  "excluded_below patterns rel [] = False"
| "excluded_below patterns rel ((n, d) # ch) =
     (let r = child_relative_path rel n
      in matches_exclude r d patterns \<or> excluded_below patterns (Some r) ch)"

text \<open>The total size of the plain files of a tree.\<close>

fun files_total :: "system_file \<Rightarrow> int" where
  "files_total (SystemFile a cs) =
     (if sf_is_dir (SystemFile a cs) then sum_list (map files_total cs) else sa_size a)"

text \<open>The copy of a node in the filtered tree: a plain file keeps its size, a directory has the total of
  the files left below its copy.\<close>

definition kept_copy :: "chain \<times> system_file \<Rightarrow> chain \<times> system_file \<Rightarrow> bool" where
  "kept_copy x y \<longleftrightarrow> fst y = fst x \<and> clone_of (snd x) (snd y) \<and>
     sf_size (snd y) = (if sf_is_dir (snd x) then files_total (snd y) else sf_size (snd x))"

definition kept_nodes :: "exclude_pattern list \<Rightarrow> string option \<Rightarrow> (chain \<times> system_file) list \<Rightarrow> (chain \<times> system_file) list" where
  "kept_nodes patterns rel = filter (\<lambda>x. \<not> excluded_below patterns rel (fst x))"

definition filtered :: "exclude_pattern list \<Rightarrow> string option \<Rightarrow> system_file \<Rightarrow> system_file \<Rightarrow> bool" where
  "filtered patterns rel f g \<longleftrightarrow>
     sys_ok g \<and> sf_size g = files_total g \<and> list_all2 kept_copy (kept_nodes patterns rel (tree_nodes f)) (tree_nodes g)"

lemma clone_node_ok:
  assumes "clone_of f g" "sys_ok f" "0 \<le> sf_size g" "skids g \<noteq> [] \<longrightarrow> sf_is_dir f" "\<forall>c\<in>set (skids g). sys_ok c"
  shows "sys_ok g"
  using assms by (cases f; cases g) (auto simp: node_ok_def clone_of_def)

lemma files_total_nonneg: "sys_ok f \<Longrightarrow> 0 \<le> files_total f"
  by (induction f) (auto simp: node_ok_def intro!: sum_list_nonneg)

lemma files_total_eq:
  "files_total g = (if sf_is_dir g then sum_list (map files_total (skids g)) else sf_size g)"
  by (cases g) simp

lemma tree_nodes_eq: "tree_nodes g = ([], g) # concat (map (\<lambda>c. map (step_down c) (tree_nodes c)) (skids g))"
  by (cases g) simp

lemma filtered_root: "filtered patterns rel f g \<Longrightarrow> clone_of f g"
  by (simp add: filtered_def tree_nodes_eq[of f] tree_nodes_eq[of g] kept_nodes_def kept_copy_def)

text \<open>The clone of a plain file.\<close>

lemma clone_file_filtered:
  assumes "sys_ok f" "\<not> sf_is_dir f"
  obtains g where "clone_system_file f None = Inr g" "filtered patterns rel f g"
proof -
  have n: "0 \<le> sf_size f" "skids f = []" using assms by (cases f; auto simp: node_ok_def)+
  obtain g where g: "clone_system_file f None = Inr g" "clone_of f g" "sf_size g = sf_size f" "skids g = []"
    by (rule clone_system_file_spec[of f None]) (use n in simp_all)
  have "sys_ok g" by (rule clone_node_ok[OF g(2) assms(1)]) (use n g in simp_all)
  moreover have "\<not> sf_is_dir g" using g(2) assms(2) by (simp add: clone_of_def)
  ultimately have "filtered patterns rel f g"
    using g n assms(2)
    by (simp add: filtered_def tree_nodes_eq[of f] tree_nodes_eq[of g] files_total_eq[of g] kept_nodes_def kept_copy_def)
  with g(1) show thesis by (rule that)
qed

text \<open>What the loop over the children keeps.\<close>

lemma kept_nodes_excluded:
  "matches_exclude (child_relative_path rel (sf_name c)) (sf_is_dir c) patterns \<Longrightarrow>
   kept_nodes patterns rel (map (step_down c) xs) = []"
  by (simp add: kept_nodes_def step_down_def Let_def filter_empty_conv)

lemma kept_nodes_child:
  assumes "\<not> matches_exclude (child_relative_path rel (sf_name c)) (sf_is_dir c) patterns"
  shows "kept_nodes patterns rel (map (step_down c) xs) =
    map (step_down c) (kept_nodes patterns (Some (child_relative_path rel (sf_name c))) xs)"
  using assms by (simp add: kept_nodes_def step_down_def filter_map o_def Let_def)

lemma kept_copies_child:
  assumes "clone_of c g" "list_all2 kept_copy xs ys"
  shows "list_all2 kept_copy (map (step_down c) xs) (map (step_down g) ys)"
  unfolding list_all2_map1 list_all2_map2
  by (rule list_all2_mono[OF assms(2)]) (use assms(1) in \<open>auto simp: kept_copy_def step_down_def clone_of_def\<close>)

definition kids_filtered :: "exclude_pattern list \<Rightarrow> string option \<Rightarrow> system_file list \<Rightarrow> system_file list \<Rightarrow> bool" where
  "kids_filtered patterns rel cs ks \<longleftrightarrow>
     (\<forall>k\<in>set ks. sys_ok k \<and> sf_size k = files_total k) \<and>
     list_all2 kept_copy (concat (map (\<lambda>c. kept_nodes patterns rel (map (step_down c) (tree_nodes c))) cs))
       (concat (map (\<lambda>k. map (step_down k) (tree_nodes k)) ks))"

lemma clone_dir_filtered:
  assumes "sys_ok f" "sf_is_dir f" "kids_filtered patterns rel (skids f) ks"
  obtains g where "clone_system_file f (Some ks) = Inr g" "filtered patterns rel f g"
proof -
  have ks: "\<forall>k\<in>set ks. sys_ok k" "map sf_size ks = map files_total ks"
    using assms(3) by (auto simp: kids_filtered_def)
  have sum: "0 \<le> sum_list (map sf_size ks)"
    unfolding ks(2) by (rule sum_list_nonneg) (use ks(1) files_total_nonneg in auto)
  obtain g where g: "clone_system_file f (Some ks) = Inr g" "clone_of f g"
    "sf_size g = sum_list (map sf_size ks)" "skids g = ks"
    by (rule clone_system_file_spec[of f "Some ks"]) (use sum assms(2) in simp_all)
  have "sys_ok g" by (rule clone_node_ok[OF g(2) assms(1)]) (use sum g ks assms(2) in simp_all)
  moreover have t: "sf_size g = files_total g" using g ks(2) assms(2) by (simp add: files_total_eq[of g] clone_of_def)
  moreover have "list_all2 kept_copy (kept_nodes patterns rel (tree_nodes f)) (tree_nodes g)"
    unfolding tree_nodes_eq[of g] tree_nodes_eq[of f] g(4)
    using assms(2,3) g(2) t by (simp add: kids_filtered_def kept_nodes_def filter_concat o_def kept_copy_def[of "([], f)"])
  ultimately have "filtered patterns rel f g" by (simp add: filtered_def)
  with g(1) show thesis by (rule that)
qed

lemma filter_tree_and_kids:
  "sys_ok f \<Longrightarrow> \<exists>r. filter_excluded_tree patterns rel f = Inr r \<and>
     (if opt_holds (\<lambda>p. matches_exclude p (sf_is_dir f) patterns) rel then r = None
      else \<exists>g. r = Some g \<and> filtered patterns rel f g)"
  "\<forall>c\<in>set cs. sys_ok c \<Longrightarrow> \<exists>ks. filter_excluded_kids patterns rel cs = Inr ks \<and>
     kids_filtered patterns rel cs ks"
proof (induction patterns rel f and patterns rel cs rule: filter_excluded_tree_filter_excluded_kids.induct)
  case (1 patterns rel a cs)
  let ?f = "SystemFile a cs"
  consider "opt_holds (\<lambda>p. matches_exclude p (sf_is_dir ?f) patterns) rel"
    | "\<not> opt_holds (\<lambda>p. matches_exclude p (sf_is_dir ?f) patterns) rel" "\<not> sf_is_dir ?f"
    | "\<not> opt_holds (\<lambda>p. matches_exclude p (sf_is_dir ?f) patterns) rel" "sf_is_dir ?f" by blast
  then show ?case
  proof cases
    case 2
    obtain g where "clone_system_file ?f None = Inr g" "filtered patterns rel ?f g"
      by (rule clone_file_filtered[OF "1.prems" 2(2)])
    with 2 show ?thesis by simp
  next
    case 3
    obtain ks where ks: "filter_excluded_kids patterns rel cs = Inr ks" "kids_filtered patterns rel cs ks"
      using "1.IH"[OF refl 3(1)] 3(2) "1.prems" by auto
    obtain g where "clone_system_file ?f (Some ks) = Inr g" "filtered patterns rel ?f g"
      by (rule clone_dir_filtered[OF "1.prems" 3(2)]) (use ks(2) in simp_all)
    with 3 ks(1) show ?thesis by simp
  qed simp
next
  case (2 patterns rel)
  show ?case by (simp add: kids_filtered_def)
next
  case (3 patterns rel c cs)
  let ?r = "child_relative_path rel (sf_name c)"
  let ?m = "matches_exclude ?r (sf_is_dir c) patterns"
  obtain k where k: "filter_excluded_tree patterns (Some ?r) c = Inr k"
    "if ?m then k = None else \<exists>g. k = Some g \<and> filtered patterns (Some ?r) c g"
    using "3.IH"(1) "3.prems" by auto
  obtain ks where ks: "filter_excluded_kids patterns rel cs = Inr ks" "kids_filtered patterns rel cs ks"
    using "3.IH"(2) "3.prems" by auto
  show ?case
  proof (cases ?m)
    case True
    with k ks show ?thesis by (simp add: kids_filtered_def kept_nodes_excluded)
  next
    case False
    with k obtain g where g: "k = Some g" "filtered patterns (Some ?r) c g" by auto
    have "list_all2 kept_copy (map (step_down c) (kept_nodes patterns (Some ?r) (tree_nodes c))) (map (step_down g) (tree_nodes g))"
      by (rule kept_copies_child[OF filtered_root[OF g(2)]]) (use g(2) in \<open>simp add: filtered_def\<close>)
    then have "kids_filtered patterns rel (c # cs) (g # ks)"
      using ks(2) g(2) False by (simp add: kids_filtered_def kept_nodes_child filtered_def list_all2_appendI)
    with k(1) ks(1) g(1) show ?thesis by simp
  qed
qed

text \<open>The roots: a root is dropped by its own name, and the paths below it are relative to it.\<close>

definition root_kept :: "exclude_pattern list \<Rightarrow> system_file \<Rightarrow> bool" where
  "root_kept patterns f = (\<not> matches_exclude (sf_name f) (sf_is_dir f) patterns)"

lemma filter_root:
  assumes "sys_ok f"
  obtains g where "filtered patterns None f g"
    "(if sf_is_dir f then filter_excluded_tree patterns None f
      else rbind (clone_system_file f None) (\<lambda>g. Inr (Some g))) = Inr (Some g)"
proof (cases "sf_is_dir f")
  case True
  with that filter_tree_and_kids(1)[OF assms, of patterns None] show thesis by auto
next
  case False
  obtain g where "clone_system_file f None = Inr g" "filtered patterns None f g"
    by (rule clone_file_filtered[OF assms False])
  with that[of g] False show thesis by simp
qed

lemma filter_roots_spec:
  "\<forall>f\<in>set fs. sys_ok f \<Longrightarrow>
   \<exists>gs. filter_roots patterns fs = Inr gs \<and>
     list_all2 (filtered patterns None) (filter (root_kept patterns) fs) gs"
proof (induction fs)
  case (Cons f fs)
  then obtain gs where gs: "filter_roots patterns fs = Inr gs"
    "list_all2 (filtered patterns None) (filter (root_kept patterns) fs) gs" by auto
  obtain g where "filtered patterns None f g"
    "(if sf_is_dir f then filter_excluded_tree patterns None f
      else rbind (clone_system_file f None) (\<lambda>g. Inr (Some g))) = Inr (Some g)"
    by (rule filter_root[of f]) (use Cons.prems in simp_all)
  with gs show ?case by (simp add: root_kept_def[of patterns f])
qed simp

section \<open>Patterns that match nothing\<close>

text \<open>A tree in which every directory has the total size of the files below it, as a scan reports it.\<close>

fun sized :: "system_file \<Rightarrow> bool" where
  "sized (SystemFile a cs) \<longleftrightarrow> sa_size a = files_total (SystemFile a cs) \<and> (\<forall>c\<in>set cs. sized c)"

fun forget_origin :: "system_file \<Rightarrow> system_file" where
  "forget_origin (SystemFile a cs) =
     put_mask (S_STAGING_ORIGIN_KNOWN OR S_HAS_STAGING_ORIGIN) False (SystemFile a (map forget_origin cs))"

definition none_below :: "exclude_pattern list \<Rightarrow> string option \<Rightarrow> system_file \<Rightarrow> bool" where
  "none_below patterns rel f \<longleftrightarrow> list_all (\<lambda>x. \<not> excluded_below patterns rel (fst x)) (tree_nodes f)"

lemma none_below_kids:
  "none_below patterns rel (SystemFile a cs) \<longleftrightarrow>
   (\<forall>c\<in>set cs. \<not> matches_exclude (child_relative_path rel (sf_name c)) (sf_is_dir c) patterns \<and>
      none_below patterns (Some (child_relative_path rel (sf_name c))) c)"
proof -
  have "([], c) \<in> set (tree_nodes c)" for c by (simp add: tree_nodes_eq[of c])
  then show ?thesis by (fastforce simp: none_below_def list_all_iff step_down_def Let_def)
qed

lemma forget_origin_kids: "skids (forget_origin f) = map forget_origin (skids f)" "sf_size (forget_origin f) = sf_size f"
  by (cases f; simp add: put_mask_def)+

lemma clone_forgets:
  assumes "clone_of f g" "sf_size g = sf_size f" "sys_eqs (skids g) (map forget_origin (skids f))"
  shows "sys_eq g (forget_origin f)"
  using assms by (cases f) (simp add: sys_eq_iff same_attrs_def clone_of_def sys_flag_simps split: if_splits)

lemma sys_eqs_sizes: "sys_eqs gs (map forget_origin fs) \<Longrightarrow> map sf_size gs = map sf_size fs"
proof (induction fs arbitrary: gs)
  case Nil
  then show ?case by (cases gs) simp_all
next
  case (Cons f fs)
  then show ?case by (cases gs) (auto simp: sys_eq_iff same_attrs_def forget_origin_kids)
qed

lemma sized_eq: "sized f \<longleftrightarrow> sf_size f = files_total f \<and> (\<forall>c\<in>set (skids f). sized c)"
  by (cases f) simp

lemma harmless_tree_and_kids:
  "sys_ok f \<Longrightarrow> sized f \<Longrightarrow> none_below patterns rel f \<Longrightarrow> \<not> opt_holds (\<lambda>p. matches_exclude p (sf_is_dir f) patterns) rel \<Longrightarrow>
     \<exists>g. filter_excluded_tree patterns rel f = Inr (Some g) \<and> sys_eq g (forget_origin f)"
  "\<forall>c\<in>set cs. sys_ok c \<and> sized c \<and> \<not> matches_exclude (child_relative_path rel (sf_name c)) (sf_is_dir c) patterns \<and>
      none_below patterns (Some (child_relative_path rel (sf_name c))) c \<Longrightarrow>
     \<exists>ks. filter_excluded_kids patterns rel cs = Inr ks \<and> sys_eqs ks (map forget_origin cs)"
proof (induction patterns rel f and patterns rel cs rule: filter_excluded_tree_filter_excluded_kids.induct)
  case (1 patterns rel a cs)
  let ?f = "SystemFile a cs"
  have n: "0 \<le> sf_size ?f" using "1.prems"(1) by (simp add: node_ok_def)
  show ?case
  proof (cases "sf_is_dir ?f")
    case False
    then have cs: "cs = []" using "1.prems"(1) by (auto simp: node_ok_def)
    obtain g where "clone_system_file ?f None = Inr g" "clone_of ?f g" "sf_size g = sf_size ?f" "skids g = []"
      by (rule clone_system_file_spec[of ?f None]) (use n cs in simp_all)
    with False "1.prems"(4) cs clone_forgets[of ?f g] show ?thesis by simp
  next
    case True
    obtain ks where ks: "filter_excluded_kids patterns rel cs = Inr ks" "sys_eqs ks (map forget_origin cs)"
      using "1.IH"[OF refl "1.prems"(4)] True "1.prems" none_below_kids[of patterns rel a cs] by auto
    have "files_total c = sf_size c" if "c \<in> set cs" for c using that "1.prems"(2) sized_eq[of c] by simp
    then have "map files_total cs = map sf_size cs" by simp
    with True "1.prems"(2) have sz: "sum_list (map sf_size ks) = sf_size ?f" by (simp add: sys_eqs_sizes[OF ks(2)])
    obtain g where "clone_system_file ?f (Some ks) = Inr g" "clone_of ?f g" "sf_size g = sf_size ?f" "skids g = ks"
      by (rule clone_system_file_spec[of ?f "Some ks"]) (use n sz True in simp_all)
    with True "1.prems"(4) ks clone_forgets[of ?f g] show ?thesis by simp
  qed
next
  case (3 patterns rel c cs)
  obtain ks where "filter_excluded_kids patterns rel cs = Inr ks" "sys_eqs ks (map forget_origin cs)"
    using "3.IH"(2) "3.prems" by auto
  moreover obtain g where "filter_excluded_tree patterns (Some (child_relative_path rel (sf_name c))) c = Inr (Some g)" "sys_eq g (forget_origin c)"
    using "3.IH"(1) "3.prems" by auto
  ultimately show ?case by simp
qed simp

lemma harmless_roots:
  assumes "\<forall>f\<in>set fs. sys_ok f \<and> sized f \<and> root_kept patterns f \<and> none_below patterns None f"
  shows "\<exists>gs. filter_roots patterns fs = Inr gs \<and> list_all2 (\<lambda>f g. sys_eq g (forget_origin f)) fs gs"
  using assms
proof (induction fs)
  case (Cons f fs)
  then obtain gs where gs: "filter_roots patterns fs = Inr gs" "list_all2 (\<lambda>f g. sys_eq g (forget_origin f)) fs gs" by auto
  have f: "sys_ok f" "sized f" "root_kept patterns f" "none_below patterns None f" using Cons.prems by simp_all
  obtain g where g: "filter_excluded_tree patterns None f = Inr (Some g)" "sys_eq g (forget_origin f)"
    using harmless_tree_and_kids(1)[OF f(1,2,4)] by auto
  have "rbind (clone_system_file f None) (\<lambda>g. Inr (Some g)) = Inr (Some g)" if "\<not> sf_is_dir f" using that g(1) by (cases f) simp
  with g gs f(3) show ?case by (auto simp: root_kept_def)
qed simp

end
