(* ===== verification/Scan_Properties.thy ===== *)
theory Scan_Properties
  imports Exclude_Patterns
begin

text \<open>The properties of scanned trees: their dictionary form, and the exclusion filter.\<close>

section \<open>Sample data\<close>

definition sample_node :: "string \<Rightarrow> int \<Rightarrow> bool \<Rightarrow> system_file list \<Rightarrow> system_file" where
  "sample_node name sz is_dir cs =
     SystemFile \<lparr>sa_name = name, sa_size = sz, sa_flags = (if is_dir then 5 else 50),
       sa_created = None, sa_modified = Some \<lparr>dt_year = 2024, dt_month = 2, dt_day = 29, dt_hour = 23,
         dt_minute = 5, dt_second = 9, dt_microsecond = 120\<rparr>,
       sa_mtime_ns = Some 7, sa_path_pair_id = Some ''pair'', sa_path_pair_name = None\<rparr> cs"

definition sample_tree :: system_file where
  "sample_tree = sample_node ''show'' 42 True
     [sample_node ''a.mkv'' 30 False [], sample_node ''a.nfo'' 2 False [],
      sample_node ''subs'' 10 True [sample_node ''en.srt'' 6 False [], sample_node ''x.nfo'' 4 False []]]"

lemma sample_tree_ok: "sys_ok sample_tree"
  by (simp add: sample_tree_def sample_node_def node_ok_def sf_is_dir_def flag_on_def valid_datetime_def
      days_in_month_def leap_year_def)

text \<open>C10. The dictionary form of a scanned tree reads back: \<open>from_dict(f.to_dict())\<close> succeeds for every
  well-formed tree and gives a tree that is equal, in the sense of \<open>SystemFile.__eq__\<close> at every node,
  to the original up to \<open>status_sidecar_ready\<close>, which is not part of the form.\<close>

theorem system_file_round_trip:
  "sys_ok f \<Longrightarrow> \<exists>g. from_dict (to_dict f) = Inr g \<and> sys_eq g (forget_status f)"
  by (rule from_dict_to_dict)

theorem system_file_round_trip_witness:
  "\<exists>g. from_dict (to_dict sample_tree) = Inr g \<and> sys_eq g (forget_status sample_tree)"
  by (rule system_file_round_trip[OF sample_tree_ok])

text \<open>C8. \<open>filter_excluded_files\<close> never fails on well-formed trees. It keeps exactly the roots whose name
  is not excluded, and below each exactly the nodes with no excluded node on the way from the root, in
  the order of the scan. Every kept node, at every depth, is a copy of its original: a plain file with the
  size it has in the scan, a directory with the total size of the files left below it, and both with
  the name, kind, times, path pair and flags of the original, the staging origin apart, which no copy has.\<close>

theorem filter_keeps_exactly_the_rest:
  assumes "\<forall>f\<in>set fs. sys_ok f" "compile_exclude_patterns src \<noteq> []"
  shows "\<exists>gs. filter_excluded_files (Some fs) src = Inr gs \<and>
    list_all2 (\<lambda>f g. sys_ok g \<and>
        list_all2 kept_copy (filter (\<lambda>x. \<not> excluded_below (compile_exclude_patterns src) None (fst x)) (tree_nodes f)) (tree_nodes g))
      (filter (\<lambda>f. \<not> matches_exclude (sf_name f) (sf_is_dir f) (compile_exclude_patterns src)) fs) gs"
proof -
  let ?ps = "compile_exclude_patterns src"
  obtain gs where gs: "filter_roots ?ps fs = Inr gs"
    "list_all2 (filtered ?ps None) (filter (root_kept ?ps) fs) gs"
    using filter_roots_spec[OF assms(1), of ?ps] by blast
  have "list_all2 (\<lambda>f g. sys_ok g \<and> list_all2 kept_copy (filter (\<lambda>x. \<not> excluded_below ?ps None (fst x)) (tree_nodes f)) (tree_nodes g))
      (filter (root_kept ?ps) fs) gs"
    by (rule list_all2_mono[OF gs(2)]) (simp add: filtered_def kept_nodes_def)
  with gs(1) assms(2) show ?thesis
    by (simp add: filter_excluded_files_def Let_def root_kept_def[abs_def])
qed

lemma sample_patterns_compile:
  "compile_exclude_patterns (PatternText '' *.nfo, subs/*.nfo,,*.nfo'') = [(''*.nfo'', False), (''subs/*.nfo'', False)]"
  by code_simp

theorem filter_keeps_exactly_the_rest_witness:
  "\<exists>gs. filter_excluded_files (Some [sample_tree]) (PatternText '' *.nfo, subs/*.nfo,,*.nfo'') = Inr gs \<and>
    list_all2 (\<lambda>f g. list_all2 kept_copy
        (filter (\<lambda>x. \<not> excluded_below [(''*.nfo'', False), (''subs/*.nfo'', False)] None (fst x)) (tree_nodes f)) (tree_nodes g))
      (filter (\<lambda>f. \<not> matches_exclude (sf_name f) (sf_is_dir f) [(''*.nfo'', False), (''subs/*.nfo'', False)]) [sample_tree]) gs"
proof -
  have "compile_exclude_patterns (PatternText '' *.nfo, subs/*.nfo,,*.nfo'') \<noteq> []"
    by (simp only: sample_patterns_compile list.distinct not_False_eq_True)
  then obtain gs where gs: "filter_excluded_files (Some [sample_tree]) (PatternText '' *.nfo, subs/*.nfo,,*.nfo'') = Inr gs"
    "list_all2 (\<lambda>f g. sys_ok g \<and> list_all2 kept_copy
        (filter (\<lambda>x. \<not> excluded_below [(''*.nfo'', False), (''subs/*.nfo'', False)] None (fst x)) (tree_nodes f)) (tree_nodes g))
      (filter (\<lambda>f. \<not> matches_exclude (sf_name f) (sf_is_dir f) [(''*.nfo'', False), (''subs/*.nfo'', False)]) [sample_tree]) gs"
    using filter_keeps_exactly_the_rest[of "[sample_tree]" "PatternText '' *.nfo, subs/*.nfo,,*.nfo''"] sample_tree_ok
    unfolding sample_patterns_compile by auto
  then show ?thesis by (intro exI[of _ gs] conjI) (auto elim: list_all2_mono)
qed

text \<open>C39. Patterns that match nothing are not without effect: for scanned trees in which no pattern
  applies to any node, the filter returns the trees themselves when there is no pattern, and otherwise
  copies that are equal to them at every node, in the sense of \<open>SystemFile.__eq__\<close>, up to
  \<open>has_staging_origin\<close>, which every copied node has lost. The sizes of the directories are those a
  scan reports, the totals of the files below them.\<close>

theorem harmless_patterns_forget_staging_origin:
  assumes "\<forall>f\<in>set fs. sys_ok f \<and> sized f"
    "\<forall>f\<in>set fs. \<not> matches_exclude (sf_name f) (sf_is_dir f) (compile_exclude_patterns src) \<and> none_below (compile_exclude_patterns src) None f"
  shows "\<exists>gs. filter_excluded_files (Some fs) src = Inr gs \<and>
    (if compile_exclude_patterns src = [] then gs = fs else list_all2 (\<lambda>f g. sys_eq g (forget_origin f)) fs gs)"
  using harmless_roots[of fs "compile_exclude_patterns src"] assms
  by (simp add: filter_excluded_files_def Let_def root_kept_def)

lemma harmless_pattern_compile: "compile_exclude_patterns (PatternText ''*.tmp'') = [(''*.tmp'', False)]"
  by code_simp

theorem harmless_patterns_forget_staging_origin_witness:
  "\<exists>g. filter_excluded_files (Some [sample_node ''a.mkv'' 30 False []]) (PatternText ''*.tmp'') = Inr [g] \<and>
     sf_has_staging_origin (sample_node ''a.mkv'' 30 False []) = Some True \<and> sf_has_staging_origin g = None"
proof -
  let ?f = "sample_node ''a.mkv'' 30 False []"
  have ok: "sys_ok ?f" "sized ?f"
    by (simp_all add: sample_node_def node_ok_def sf_is_dir_def flag_on_def valid_datetime_def days_in_month_def leap_year_def)
  have none: "\<not> matches_exclude (sf_name ?f) (sf_is_dir ?f) [(''*.tmp'', False)]" "none_below [(''*.tmp'', False)] None ?f"
    and o: "sf_has_staging_origin ?f = Some True" "sf_has_staging_origin (forget_origin ?f) = None" by code_simp+
  obtain g where "filter_excluded_files (Some [?f]) (PatternText ''*.tmp'') = Inr [g]" "sys_eq g (forget_origin ?f)"
    using harmless_patterns_forget_staging_origin[of "[?f]" "PatternText ''*.tmp''"] ok none
    unfolding harmless_pattern_compile by (auto simp: list_all2_Cons1)
  with o show ?thesis by (auto simp: sys_eq_iff same_attrs_def)
qed

text \<open>A path is excluded exactly when some pattern that applies to its kind matches it, and a pattern
  matches a path exactly when the path splits into one piece for each token of the pattern: any text
  for \<open>*\<close>, and for every other token one character that token has.\<close>

theorem exclusion_is_a_split_of_the_path:
  "matches_exclude path is_dir patterns \<longleftrightarrow>
     (\<exists>(pat, dir_only)\<in>set patterns. (is_dir \<or> dir_only = False) \<and>
       (\<exists>pieces. path = concat pieces \<and>
          list_all2 (\<lambda>t p. t = GStar \<or> (\<exists>x. p = [x] \<and> token_has t x)) (glob_tokens pat) pieces))"
proof -
  have "fnmatchcase path pat \<longleftrightarrow> (\<exists>pieces. path = concat pieces \<and>
      list_all2 (\<lambda>t p. t = GStar \<or> (\<exists>x. p = [x] \<and> token_has t x)) (glob_tokens pat) pieces)" for pat
    unfolding fnmatchcase_def glob_match_iff piece_ok_def[abs_def] by blast
  then show ?thesis unfolding matches_exclude_def list_ex_iff by auto
qed

end
