(* ===== verification/Persist_Keys.thy ===== *)
theory Persist_Keys
  imports File_Id
begin

text \<open>
  \<open>controller/persist_keys.py\<close>, and the check \<open>uuid.UUID(text)\<close> makes of a text, by which the
  controller tells a legacy key with a colon from a file name with one.
\<close>

section \<open>Keys\<close>

abbreviation KEY_SEP :: char where "KEY_SEP \<equiv> CHR 0x1F"

definition persist_key :: "string option \<Rightarrow> string \<Rightarrow> string" where
  "persist_key pair_id name =
     (case pair_id of
        None \<Rightarrow> name
      | Some p \<Rightarrow> if p = [] then name else p @ KEY_SEP # name)"

definition strip_persist_key :: "string \<Rightarrow> string option \<Rightarrow> string" where
  "strip_persist_key key pair_id =
     (case pair_id of
        None \<Rightarrow> key
      | Some p \<Rightarrow>
          if p = [] then key
          else if startswith key (p @ [KEY_SEP]) then drop (Suc (length p)) key
          else if startswith key (p @ [CHR '':'']) then drop (Suc (length p)) key
          else key)"

lemma strip_persist_key_inverse: "strip_persist_key (persist_key p n) p = n"
  by (auto simp: strip_persist_key_def persist_key_def startswith_def split: option.splits)

lemma strip_legacy_key: "p \<noteq> [] \<Longrightarrow> strip_persist_key (p @ CHR '':'' # n) (Some p) = n"
  by (simp add: strip_persist_key_def startswith_def)

lemma takeWhile_sep: "c \<notin> set p \<Longrightarrow> takeWhile (\<lambda>x. x \<noteq> c) (p @ c # n) = p"
  by (induction p) auto

lemma dropWhile_sep: "c \<notin> set p \<Longrightarrow> dropWhile (\<lambda>x. x \<noteq> c) (p @ c # n) = c # n"
  by (induction p) auto

text \<open>Keys of distinct pairs are distinct when no part holds the separator.\<close>

lemma persist_key_inject:
  assumes "persist_key (Some p) n = persist_key (Some q) m"
    and "p \<noteq> []" "q \<noteq> []" "KEY_SEP \<notin> set p" "KEY_SEP \<notin> set q"
  shows "p = q \<and> n = m"
proof -
  have "p @ KEY_SEP # n = q @ KEY_SEP # m" using assms(1-3) by (simp add: persist_key_def)
  then show ?thesis
    using takeWhile_sep[of KEY_SEP p n] takeWhile_sep[of KEY_SEP q m] assms(4,5) by auto
qed

section \<open>uuid.UUID\<close>

text \<open>\<open>s.replace(pat, "")\<close> for a non-empty \<open>pat\<close>.\<close>

function remove_all :: "string \<Rightarrow> string \<Rightarrow> string" where
  "remove_all pat [] = []"
| "remove_all pat (c # s) =
     (if pat \<noteq> [] \<and> startswith (c # s) pat then remove_all pat (drop (length pat) (c # s))
      else c # remove_all pat s)"
  by pat_completeness auto
termination
proof (relation "measure (\<lambda>(pat, s). length s)")
  fix pat c s
  assume "pat \<noteq> [] \<and> startswith (c # s) pat"
  then show "((pat, drop (length pat) (c # s)), pat, c # s) \<in> measure (\<lambda>(pat, s). length s)"
    by (cases pat) auto
qed auto

definition strip_braces :: "string \<Rightarrow> string" where
  "strip_braces s =
     (let brace = (\<lambda>c. c = CHR ''{'' \<or> c = CHR ''}'') in rstrip_by brace (dropWhile brace s))"

text \<open>The digits of \<open>int(s, 16)\<close>, with single underscores between them.\<close>

fun hex_run :: "string \<Rightarrow> bool" where
  "hex_run [] = False"
| "hex_run [c] = (hex_val c \<noteq> None)"
| "hex_run (c # d # r) =
     (hex_val c \<noteq> None \<and> (if d = CHR ''_'' then hex_run r else hex_run (d # r)))"

definition int16_ok :: "string \<Rightarrow> bool" where
  "int16_ok s =
     (let t = strip s;
          t = (if startswith t ''+'' \<or> startswith t ''-'' then drop 1 t else t);
          t = (if startswith t ''0x'' \<or> startswith t ''0X''
               then (if startswith (drop 2 t) ''_'' then drop 3 t else drop 2 t) else t)
      in hex_run t)"

definition uuid_ok :: "string \<Rightarrow> bool" where
  "uuid_ok s =
     (let h = remove_all ''-'' (strip_braces (remove_all ''uuid:'' (remove_all ''urn:'' s)))
      in length h = 32 \<and> int16_ok h)"

lemma uuid_tests:
  "uuid_ok ''123e4567-e89b-12d3-a456-426614174000''"
  "\<not> uuid_ok ''123e4567-e89b-12d3-a456-42661417400g''"
  "\<not> uuid_ok ''Some.Show.S01E01.1080p.WEB.h264-GRP1''"
  by code_simp+

end
