(* ===== verification/Py_Float.thy ===== *)
theory Py_Float
  imports Prelude
begin

text \<open>
  The conversions to \<open>float\<close> the sources rely on: \<open>float(n)\<close> of an integer, the true division of two
  integers, and \<open>round\<close>. A finite \<open>float\<close> is a mantissa and a binary exponent; rounding is to the
  nearest number of 53 significant bits, ties to even, as IEEE 754 prescribes for \<open>binary64\<close>. A
  result beyond the largest finite number is an \<open>OverflowError\<close>.
\<close>

section \<open>Definitions\<close>

text \<open>The integer nearest to \<open>a / b\<close> for a positive \<open>b\<close>, the even one of two.\<close>

definition round_div :: "int \<Rightarrow> int \<Rightarrow> int" where
  "round_div a b =
     (let q = a div b; r = a mod b
      in if 2 * r < b then q else if b < 2 * r then q + 1 else if even q then q else q + 1)"

function bit_length :: "int \<Rightarrow> int" where
  "bit_length n = (if n \<le> 0 then 0 else bit_length (n div 2) + 1)"
  by pat_completeness auto
termination
  by (relation "measure nat") auto

declare bit_length.simps [simp del]

record binary64 =
  mantissa :: int
  exponent :: int

definition shifted :: "int \<Rightarrow> int \<Rightarrow> int" where
  "shifted n e = n * 2 ^ nat e"

text \<open>The rounded quotient of two positive integers.\<close>

definition quotient_exponent :: "int \<Rightarrow> int \<Rightarrow> int" where
  "quotient_exponent a b =
     (let k = bit_length a - bit_length b;
          reached = (if 0 \<le> k then shifted b k \<le> a else b \<le> shifted a (- k))
      in max ((if reached then k else k - 1) - 52) (- 1074))"

definition round_quotient :: "int \<Rightarrow> int \<Rightarrow> binary64" where
  "round_quotient a b =
     (let e = quotient_exponent a b
      in \<lparr>mantissa = (if 0 \<le> e then round_div a (shifted b e) else round_div (shifted a (- e)) b),
          exponent = e\<rparr>)"

definition too_large :: "binary64 \<Rightarrow> bool" where
  "too_large x = (971 < exponent x \<or> (exponent x = 971 \<and> 2 ^ 53 \<le> mantissa x))"

text \<open>\<open>n / d\<close> for a positive \<open>d\<close>; \<open>float(n)\<close> is \<open>n / 1\<close>.\<close>

definition true_divide :: "int \<Rightarrow> int \<Rightarrow> binary64 result" where
  "true_divide n d =
     (if n = 0 then Inr \<lparr>mantissa = 0, exponent = 0\<rparr>
      else let x = round_quotient \<bar>n\<bar> d
        in if too_large x then Inl OverflowError
           else Inr (if n < 0 then x\<lparr>mantissa := - mantissa x\<rparr> else x))"

definition float_of_int :: "int \<Rightarrow> binary64 result" where
  "float_of_int n = true_divide n 1"

definition float_value :: "binary64 \<Rightarrow> rat" where
  "float_value x =
     (if 0 \<le> exponent x then of_int (shifted (mantissa x) (exponent x))
      else of_int (mantissa x) / of_int (shifted 1 (- exponent x)))"

text \<open>\<open>int(round(x))\<close>.\<close>

definition round_float :: "binary64 \<Rightarrow> int" where
  "round_float x =
     (if 0 \<le> exponent x then shifted (mantissa x) (exponent x)
      else round_div (mantissa x) (shifted 1 (- exponent x)))"

section \<open>Bounds\<close>

lemma shifted_pos [simp]: "0 < n \<Longrightarrow> 0 < shifted n e" "0 \<le> n \<Longrightarrow> 0 \<le> shifted n e"
  by (simp_all add: shifted_def)

lemma round_div_bounds:
  assumes "0 < b" "l * b \<le> a" "a \<le> h * b"
  shows "l \<le> round_div a b \<and> round_div a b \<le> h"
proof -
  have l: "l \<le> a div b" using assms(1,2) by (metis nonzero_mult_div_cancel_right less_irrefl zdiv_mono1)
  have h: "a div b \<le> h" using assms(1,3) by (metis nonzero_mult_div_cancel_right less_irrefl zdiv_mono1)
  have "a mod b = 0" if "a div b = h"
  proof -
    have "h * b + a mod b = a" using that mult_div_mod_eq[of b a] by (simp add: mult.commute)
    then have "a mod b \<le> 0" using assms(3) by simp
    then show ?thesis using assms(1) by (simp add: order_antisym)
  qed
  then have "a div b + 1 \<le> h" if "a mod b \<noteq> 0" using that h by fastforce
  moreover have "a mod b \<noteq> 0" if "\<not> 2 * (a mod b) < b" using that assms(1) by auto
  ultimately show ?thesis using l h by (auto simp: round_div_def Let_def)
qed

lemma round_div_nonneg: "0 < b \<Longrightarrow> 0 \<le> a \<Longrightarrow> 0 \<le> round_div a b"
  by (auto simp: round_div_def Let_def pos_imp_zdiv_nonneg_iff intro: add_nonneg_nonneg)

lemma round_quotient_nonneg: "0 < a \<Longrightarrow> 0 < b \<Longrightarrow> 0 \<le> mantissa (round_quotient a b)"
  by (auto simp: round_quotient_def Let_def intro!: round_div_nonneg)

lemma true_divide_nonneg: "0 \<le> n \<Longrightarrow> 0 < d \<Longrightarrow> true_divide n d = Inr x \<Longrightarrow> 0 \<le> mantissa x"
  using round_quotient_nonneg[of n d] by (auto simp: true_divide_def Let_def split: if_splits)

lemma float_value_nonneg: "0 \<le> mantissa x \<Longrightarrow> 0 \<le> float_value x"
  by (simp add: float_value_def)

lemma float_of_int_nonneg: "0 \<le> n \<Longrightarrow> float_of_int n = Inr x \<Longrightarrow> 0 \<le> float_value x"
  using float_value_nonneg true_divide_nonneg[of n 1 x] by (simp add: float_of_int_def)

lemma bit_length_ge: "2 ^ k \<le> n \<Longrightarrow> int k < bit_length n"
proof (induction k arbitrary: n)
  case 0
  have "0 \<le> bit_length m" for m by (induction m rule: bit_length.induct) (subst bit_length.simps, simp)
  with 0 show ?case by (subst bit_length.simps) simp
next
  case (Suc k)
  then have "2 ^ k \<le> n div 2" by simp
  moreover have "0 < n" by (rule less_le_trans[OF zero_less_power Suc.prems]) simp
  ultimately show ?case using Suc.IH[of "n div 2"] by (subst bit_length.simps) simp
qed

text \<open>An integer too large for a \<open>float\<close> is refused.\<close>

lemma float_of_int_overflow:
  assumes "2 ^ 1025 \<le> n"
  shows "float_of_int n = Inl OverflowError"
proof -
  have "1025 < bit_length n" using bit_length_ge[OF assms] by simp
  moreover have "bit_length 1 = 1" by (simp add: bit_length.simps)
  ultimately have "971 < quotient_exponent n 1" by (simp add: quotient_exponent_def Let_def max_def)
  moreover have "0 < n" by (rule less_le_trans[OF zero_less_power assms]) simp
  ultimately show ?thesis
    by (simp add: float_of_int_def true_divide_def Let_def too_large_def round_quotient_def)
qed

lemma float_tests:
  "map_sum id float_value (float_of_int 9007199254740993) = Inr 9007199254740992"
  "map_sum id float_value (float_of_int (- 7)) = Inr (- 7)"
  "map_sum id float_value (true_divide 50 1000) = Inr (3602879701896397 / 72057594037927936)"
  "map_sum id round_float (true_divide 6250 100) = Inr 62"
  by code_simp+

end
