(* ===== verification/Json_Shape.thy ===== *)
theory Json_Shape
  imports File_Id
begin

text \<open>
  Whether a text is a JSON document, and whether that document is a list: what the sources ask
  \<open>json.loads\<close> of a persisted key.

  The recogniser is a push-down automaton: \<open>stack\<close> holds the open brackets (\<open>True\<close> for a list,
  \<open>False\<close> for an object) and \<open>mode\<close> what may come next. Each step skips white space and reads at
  least one character, so it ends on every text. Strings are read by \<open>scan_str\<close>; numbers and the
  constants, also \<open>NaN\<close> and the infinities, as the \<open>json\<close> module accepts them.
\<close>

datatype json_mode = Value | ValueOrEnd | After | Key | KeyOrEnd | Colon

definition json_space :: "char \<Rightarrow> bool" where
  "json_space c = (c = CHR '' '' \<or> c = CHR 0x09 \<or> c = CHR 0x0A \<or> c = CHR 0x0D)"

definition is_digit :: "char \<Rightarrow> bool" where
  "is_digit c = (48 \<le> code_of c \<and> code_of c \<le> 57)"

text \<open>The integer part, then an optional fraction, then an optional exponent.\<close>

definition skip_digits1 :: "string \<Rightarrow> string option" where
  "skip_digits1 s = (case s of c # r \<Rightarrow> if is_digit c then Some (dropWhile is_digit r) else None | [] \<Rightarrow> None)"

definition skip_fraction :: "string \<Rightarrow> string" where
  "skip_fraction s = (case s of
       c # r \<Rightarrow> if c = CHR ''.'' then (case skip_digits1 r of None \<Rightarrow> s | Some q \<Rightarrow> q) else s
     | [] \<Rightarrow> s)"

definition skip_sign :: "string \<Rightarrow> string" where
  "skip_sign s = (case s of c # r \<Rightarrow> if c = CHR ''+'' \<or> c = CHR ''-'' then r else s | [] \<Rightarrow> s)"

definition skip_exponent :: "string \<Rightarrow> string" where
  "skip_exponent s = (case s of
       c # r \<Rightarrow> if c = CHR ''e'' \<or> c = CHR ''E''
               then (case skip_digits1 (skip_sign r) of None \<Rightarrow> s | Some q \<Rightarrow> q) else s
     | [] \<Rightarrow> s)"

definition skip_number :: "string \<Rightarrow> string option" where
  "skip_number s =
     (let body = (if startswith s ''-'' then drop 1 s else s)
      in case body of
           [] \<Rightarrow> None
         | c # r \<Rightarrow>
             if c = CHR ''0'' then Some (skip_exponent (skip_fraction r))
             else if is_digit c then Some (skip_exponent (skip_fraction (dropWhile is_digit r)))
             else None)"

definition skip_word :: "string list \<Rightarrow> string \<Rightarrow> string option" where
  "skip_word ws s = (case find (startswith s) ws of None \<Rightarrow> None | Some w \<Rightarrow> Some (drop (length w) s))"

definition json_words :: "string list" where
  "json_words = [''null'', ''true'', ''false'', ''NaN'', ''Infinity'', ''-Infinity'']"

text \<open>A value that is neither a list nor an object.\<close>

definition skip_scalar :: "string \<Rightarrow> string option" where
  "skip_scalar s =
     (if startswith s [CHR 0x22] then map_option snd (scan_str (drop 1 s))
      else case skip_word json_words s of Some r \<Rightarrow> Some r | None \<Rightarrow> skip_number s)"

lemma scan_str_length: "scan_str s = Some (x, r) \<Longrightarrow> length r < length s"
proof (induction s arbitrary: x r rule: scan_str.induct)
  case (2 c s)
  show ?case
  proof (cases "c = CHR 0x22 \<or> c \<noteq> CHR 0x5C")
    case True
    with 2 show ?thesis by (auto simp: scan_str.simps(2) less_Suc_eq split: if_splits)
  next
    case False
    with "2.prems" obtain e s' n q ns where s: "s = e # s'"
      "(if e = CHR ''u'' then decode_u s' else map_option (\<lambda>n. (n, s')) (backslash e)) = Some (n, q)"
      "scan_str q = Some (ns, r)"
      by (auto simp: scan_str.simps(2) split: list.splits option.splits)
    then have "length q \<le> length s'"
      by (auto split: if_splits dest: decode_u_length)
    moreover have "length r < length q" using "2.IH"(1)[of e s' "(n, q)" n q] False s by auto
    ultimately show ?thesis using s(1) by simp
  qed
qed simp

lemma skip_digits1_length: "skip_digits1 s = Some r \<Longrightarrow> length r < length s"
  by (auto simp: skip_digits1_def less_Suc_eq_le length_dropWhile_le split: list.splits if_splits)

lemma skip_fraction_length: "length (skip_fraction s) \<le> length s"
  using skip_digits1_length by (fastforce simp: skip_fraction_def split: list.splits option.splits)

lemma skip_exponent_length: "length (skip_exponent s) \<le> length s"
proof (cases s)
  case (Cons c r)
  have "length (skip_sign r) \<le> length r" by (auto simp: skip_sign_def split: list.splits)
  then have "length q \<le> length s" if "skip_digits1 (skip_sign r) = Some q" for q
    using skip_digits1_length[OF that] Cons by simp
  then show ?thesis using Cons by (simp add: skip_exponent_def split: option.splits)
qed (simp add: skip_exponent_def)

lemma skip_number_length:
  assumes "skip_number s = Some r"
  shows "length r < length s"
proof -
  define body where "body = (if startswith s ''-'' then drop 1 s else s)"
  obtain c q where b: "body = c # q" and
    r: "r = skip_exponent (skip_fraction q) \<or> r = skip_exponent (skip_fraction (dropWhile is_digit q))"
    using assms unfolding skip_number_def body_def[symmetric] Let_def
    by (auto split: list.splits if_splits)
  have "length body \<le> length s" by (simp add: body_def)
  moreover have "length r \<le> length q"
    using r skip_exponent_length skip_fraction_length length_dropWhile_le by (metis order_trans)
  ultimately show ?thesis using b by simp
qed

lemma skip_word_length:
  assumes "skip_word ws s = Some r" "[] \<notin> set ws"
  shows "length r < length s"
proof -
  obtain w where w: "find (startswith s) ws = Some w" "r = drop (length w) s"
    using assms(1) by (auto simp: skip_word_def split: option.splits)
  then have "w \<in> set ws" "startswith s w" by (auto simp: find_Some_iff)
  then have "w \<noteq> []" "length w \<le> length s"
    using assms(2) by (auto simp: startswith_def) (metis length_take min.cobounded2 nat_le_linear take_all)
  then show ?thesis using w(2) by (cases w; cases s) simp_all
qed

lemma skip_scalar_length:
  assumes "skip_scalar s = Some r"
  shows "length r < length s"
proof (cases "startswith s [CHR 0x22]")
  case True
  with assms obtain x where "scan_str (drop 1 s) = Some (x, r)" by (auto simp: skip_scalar_def)
  then show ?thesis using scan_str_length[of "drop 1 s"] by simp
next
  case False
  have "[] \<notin> set json_words" by (simp add: json_words_def)
  with False assms show ?thesis
    by (auto simp: skip_scalar_def dest: skip_word_length skip_number_length split: option.splits)
qed

lemma skip_space_step: "dropWhile json_space s = c # r \<Longrightarrow> Suc (length r) \<le> length s"
  using length_dropWhile_le[of json_space s] by simp

lemma skip_space_scalar:
  "dropWhile json_space s = c # r \<Longrightarrow> skip_scalar (c # r) = Some q \<Longrightarrow> length q < length s"
  using skip_space_step[of s c r] skip_scalar_length[of "c # r" q] by simp

lemma skip_space_key:
  "dropWhile json_space s = c # r \<Longrightarrow> scan_str r = Some (k, q) \<Longrightarrow> length q < length s"
  using skip_space_step[of s c r] scan_str_length[of r k q] by simp

function json_accepts :: "json_mode \<Rightarrow> bool list \<Rightarrow> string \<Rightarrow> bool" where
  "json_accepts m stack s =
     (case dropWhile json_space s of
        [] \<Rightarrow> m = After \<and> stack = []
      | c # r \<Rightarrow>
          (case m of
             After \<Rightarrow>
               (case stack of
                  [] \<Rightarrow> False
                | is_list # st \<Rightarrow>
                    if c = CHR '','' then json_accepts (if is_list then Value else Key) stack r
                    else c = (if is_list then CHR '']'' else CHR ''}'') \<and> json_accepts After st r)
           | Colon \<Rightarrow> c = CHR '':'' \<and> json_accepts Value stack r
           | Key \<Rightarrow>
               c = CHR 0x22 \<and> (case scan_str r of None \<Rightarrow> False | Some (k, q) \<Rightarrow> json_accepts Colon stack q)
           | KeyOrEnd \<Rightarrow>
               if c = CHR ''}'' then json_accepts After (tl stack) r
               else c = CHR 0x22 \<and> (case scan_str r of None \<Rightarrow> False | Some (k, q) \<Rightarrow> json_accepts Colon stack q)
           | ValueOrEnd \<Rightarrow>
               if c = CHR '']'' then json_accepts After (tl stack) r
               else if c = CHR ''['' then json_accepts ValueOrEnd (True # stack) r
               else if c = CHR ''{'' then json_accepts KeyOrEnd (False # stack) r
               else (case skip_scalar (c # r) of None \<Rightarrow> False | Some q \<Rightarrow> json_accepts After stack q)
           | Value \<Rightarrow>
               if c = CHR ''['' then json_accepts ValueOrEnd (True # stack) r
               else if c = CHR ''{'' then json_accepts KeyOrEnd (False # stack) r
               else (case skip_scalar (c # r) of None \<Rightarrow> False | Some q \<Rightarrow> json_accepts After stack q)))"
  by pat_completeness auto
termination
  by (relation "measure (\<lambda>(m, stack, s). length s)")
    (auto simp: skip_space_scalar skip_space_key Suc_le_lessD[OF skip_space_step])

declare json_accepts.simps [simp del]

text \<open>\<open>isinstance(json.loads(s), list)\<close>.\<close>

definition json_is_list :: "string \<Rightarrow> bool" where
  "json_is_list s \<longleftrightarrow> startswith (dropWhile json_space s) ''['' \<and> json_accepts Value [] s"

lemma json_tests:
  "json_is_list ''[1, 2.5e3, {}, []]''" "\<not> json_is_list ''[1,]''" "\<not> json_is_list ''[2024] Show''"
  "\<not> json_is_list ''{}''" "json_is_list '' [null, true]''"
  by code_simp+

end
