(* ===== verification/Controller_Persist.thy ===== *)
theory Controller_Persist
  imports Persist_Keys Py_Float Json_Shape
begin

text \<open>
  \<open>controller/controller_persist.py\<close>: the markers the controller keeps across restarts, the
  canonical form of their keys and the migration to it, and the document they are stored as.

  A Python set is a \<open>set\<close>; where the code iterates over one, in an order Python does not fix,
  the model takes the sorted one. A timestamp is the rational its \<open>float\<close> denotes. The stored document is
  the JSON value (\<open>pyval\<close>) between \<open>json.dumps\<close> and \<open>json.loads\<close>. The lock of
  \<open>state_transaction\<close> makes every operation atomic, which a function of the state is.
\<close>

section \<open>State\<close>

record controller_persist =
  cp_downloaded :: "string set"
  cp_timestamps :: "(string, rat) dict"
  cp_extracted :: "string set"
  cp_stopped :: "string set"
  cp_move_failures :: "(string, int) dict"
  cp_final_moved :: "string set"
  cp_resume_sources :: "(string, int \<times> int) dict"
  cp_floors :: "(string, int \<times> int \<times> int \<times> int \<times> int) dict"
  cp_phase :: int

definition new_controller_persist :: controller_persist where
  "new_controller_persist =
     \<lparr>cp_downloaded = {}, cp_timestamps = [], cp_extracted = {}, cp_stopped = {},
      cp_move_failures = [], cp_final_moved = {}, cp_resume_sources = [], cp_floors = [],
      cp_phase = 0\<rparr>"

section \<open>Canonical identities\<close>

text \<open>The two strings of a JSON list spelled as \<open>build_file_id\<close> spells it.\<close>

definition scoped_parts :: "string \<Rightarrow> (nat list \<times> nat list) option" where
  "scoped_parts key =
     (if startswith key ''['' then
        (case scan_quoted (drop 1 key) of
           None \<Rightarrow> None
         | Some (a, r) \<Rightarrow>
             if startswith r '','' then
               (case scan_quoted (drop 1 r) of
                  None \<Rightarrow> None
                | Some (b, q) \<Rightarrow> if q = '']'' then Some (a, b) else None)
             else None)
      else None)"

definition canonical_scoped :: "string \<Rightarrow> bool" where
  "canonical_scoped key =
     (case scoped_parts key of
        None \<Rightarrow> False
      | Some (a, b) \<Rightarrow> key = CHR ''['' # dumps_str a @ CHR '','' # dumps_str b @ [CHR '']''])"

definition uuid_colon :: "string \<Rightarrow> bool" where
  "uuid_colon key = (37 < length key \<and> key ! 36 = CHR '':'' \<and> uuid_ok (take 36 key))"

definition canonical_file_id :: "string option \<Rightarrow> string \<Rightarrow> string option" where
  "canonical_file_id default_id key =
     (if canonical_scoped key then Some key
      else if KEY_SEP \<in> set key then
        (let pair = takeWhile (\<lambda>c. c \<noteq> KEY_SEP) key;
             name = tl (dropWhile (\<lambda>c. c \<noteq> KEY_SEP) key)
         in if pair \<noteq> [] then Some (build_file_id name (Some pair)) else None)
      else if uuid_colon key then Some (build_file_id (drop 37 key) (Some (take 36 key)))
      else case default_id of
             Some d \<Rightarrow> Some (build_file_id key (Some d))
           | None \<Rightarrow> None)"

definition canonicalize_set :: "string option \<Rightarrow> string set \<Rightarrow> string set" where
  "canonicalize_set default_id keys = Option.these (canonical_file_id default_id ` keys)"

definition get_count :: "(string, int) dict \<Rightarrow> string \<Rightarrow> int" where
  "get_count d k = (case dict_get d k of None \<Rightarrow> 0 | Some n \<Rightarrow> n)"

definition put_count :: "string \<times> int \<Rightarrow> (string, int) dict \<Rightarrow> (string, int) dict" where
  "put_count kc d = dict_set (fst kc) (max (get_count d (fst kc)) (snd kc)) d"

definition count_step :: "string option \<Rightarrow> string \<times> int \<Rightarrow> (string, int) dict \<Rightarrow> (string, int) dict" where
  "count_step default_id kc d =
     (case canonical_file_id default_id (fst kc) of
        None \<Rightarrow> d
      | Some k \<Rightarrow> put_count (k, snd kc) d)"

definition canonicalize_counts :: "string option \<Rightarrow> (string, int) dict \<Rightarrow> (string, int) dict" where
  "canonicalize_counts default_id counts = fold (count_step default_id) counts []"

definition timestamp_step :: "string option \<Rightarrow> string \<times> rat \<Rightarrow> (string, rat) dict \<Rightarrow> (string, rat) dict" where
  "timestamp_step default_id kv d =
     (case canonical_file_id default_id (fst kv) of
        None \<Rightarrow> d
      | Some k \<Rightarrow> if dict_get d k = None \<or> fst kv = k then dict_set k (snd kv) d else d)"

definition canonicalize_timestamps :: "string option \<Rightarrow> (string, rat) dict \<Rightarrow> (string, rat) dict" where
  "canonicalize_timestamps default_id stamps = fold (timestamp_step default_id) stamps []"

definition canonical_resume_source_id :: "string \<Rightarrow> string option" where
  "canonical_resume_source_id key =
     (if canonical_file_id None key = Some key then Some key
      else if KEY_SEP \<in> set key then None
      else if uuid_colon key then None
      else if json_is_list key then None
      else if key = build_file_id key None then Some key else None)"

section \<open>The migration\<close>

text \<open>\<open>dict.update\<close>.\<close>

definition dict_update :: "('k, 'v) dict \<Rightarrow> ('k, 'v) dict \<Rightarrow> ('k, 'v) dict" where
  "dict_update d e = fold (\<lambda>(k, v). dict_set k v) e d"

definition canonicalize_file_identities ::
  "string option \<Rightarrow> controller_persist \<Rightarrow> bool \<times> controller_persist" where
  "canonicalize_file_identities default_id p =
     (if 2 \<le> cp_phase p then (False, p)
      else let
          downloaded = canonicalize_set default_id (cp_downloaded p);
          extracted = canonicalize_set default_id (cp_extracted p);
          stopped = canonicalize_set default_id (cp_stopped p);
          moved = canonicalize_set default_id (cp_final_moved p);
          counts = canonicalize_counts default_id (cp_move_failures p);
          stamps = canonicalize_timestamps default_id (cp_timestamps p)
        in if cp_phase p = 0 then
             (True, p\<lparr>cp_downloaded := cp_downloaded p \<union> downloaded,
                cp_timestamps := dict_update (cp_timestamps p) stamps,
                cp_extracted := cp_extracted p \<union> extracted,
                cp_stopped := cp_stopped p \<union> stopped,
                cp_final_moved := cp_final_moved p \<union> moved,
                cp_move_failures := fold put_count counts (cp_move_failures p),
                cp_phase := 1\<rparr>)
           else
             (True, p\<lparr>cp_downloaded := downloaded, cp_timestamps := stamps,
                cp_extracted := extracted, cp_stopped := stopped, cp_final_moved := moved,
                cp_move_failures := counts, cp_phase := 2\<rparr>))"

section \<open>The stored document\<close>

abbreviation persist_error :: py_error where
  "persist_error \<equiv> AppError ''PersistError'' ''Error parsing ControllerPersist''"

definition read_string_set :: "pyval \<Rightarrow> string set result" where
  "read_string_set v =
     (case v of
        PList xs \<Rightarrow>
          if list_all (\<lambda>x. case x of PStr s \<Rightarrow> True | _ \<Rightarrow> False) xs
          then Inr (set (List.map_filter (\<lambda>x. case x of PStr s \<Rightarrow> Some s | _ \<Rightarrow> None) xs))
          else Inl TypeError
      | _ \<Rightarrow> Inl TypeError)"

definition require :: "(string, pyval) dict \<Rightarrow> string \<Rightarrow> pyval result" where
  "require d k = (case dict_get d k of None \<Rightarrow> Inl KeyError | Some v \<Rightarrow> Inr v)"

definition get_default :: "pyval \<Rightarrow> (string, pyval) dict \<Rightarrow> string \<Rightarrow> pyval" where
  "get_default dflt d k = (case dict_get d k of None \<Rightarrow> dflt | Some v \<Rightarrow> v)"

definition as_object :: "pyval \<Rightarrow> (string, pyval) dict result" where
  "as_object v = (case v of PDict d \<Rightarrow> Inr d | _ \<Rightarrow> Inl TypeError)"

text \<open>One entry of the timestamp comprehension: kept with its \<open>float\<close>, or dropped.\<close>

definition read_timestamp :: "pyval \<Rightarrow> rat option result" where
  "read_timestamp v =
     (case v of
        PInt n \<Rightarrow> rbind (float_of_int n) (\<lambda>x. Inr (if 0 \<le> float_value x then Some (float_value x) else None))
      | PFloat (FFinite q) \<Rightarrow> Inr (if 0 \<le> q then Some q else None)
      | _ \<Rightarrow> Inr None)"

fun read_timestamps :: "(string, pyval) dict \<Rightarrow> (string, rat) dict result" where
  "read_timestamps [] = Inr []"
| "read_timestamps ((k, v) # d) =
     rbind (read_timestamp v) (\<lambda>x. rbind (read_timestamps d) (\<lambda>r.
       Inr (case x of None \<Rightarrow> r | Some q \<Rightarrow> (k, q) # r)))"

definition read_counts :: "(string, pyval) dict \<Rightarrow> (string, int) dict" where
  "read_counts d = List.map_filter (\<lambda>(k, v). case v of
       PInt n \<Rightarrow> if k \<noteq> [] \<and> 0 \<le> n \<and> n \<le> 4 then Some (k, n) else None
     | _ \<Rightarrow> None) d"

text \<open>\<open>value.get(field)\<close> when its type is \<open>int\<close>.\<close>

definition int_field :: "(string, pyval) dict \<Rightarrow> string \<Rightarrow> int option" where
  "int_field d k = (case dict_get d k of Some (PInt n) \<Rightarrow> Some n | _ \<Rightarrow> None)"

definition read_resume_source :: "string \<Rightarrow> pyval \<Rightarrow> (int \<times> int) result" where
  "read_resume_source key v =
     (if canonical_resume_source_id key \<noteq> Some key then Inl TypeError
      else rbind (as_object v) (\<lambda>d.
        case (int_field d ''size'', int_field d ''mtime'') of
          (Some sz, Some mtime) \<Rightarrow>
            if sz < 0 \<or> mtime < 0 then Inl TypeError else Inr (sz, mtime)
        | _ \<Rightarrow> Inl TypeError))"

definition progress_percent :: "int \<Rightarrow> int \<Rightarrow> int result" where
  "progress_percent done_bytes source_size =
     rbind (true_divide (done_bytes * 100) source_size) (\<lambda>x. Inr (min 99 (round_float x)))"

definition read_floor :: "string \<Rightarrow> pyval \<Rightarrow> (int \<times> int \<times> int \<times> int \<times> int) result" where
  "read_floor key v =
     (if canonical_resume_source_id key \<noteq> Some key then Inl TypeError
      else rbind (as_object v) (\<lambda>d.
        case (int_field d ''bytes'', int_field d ''percent'', int_field d ''size'', int_field d ''mtime'',
              int_field d ''subset'') of
          (Some b, Some pc, Some sz, Some mtime, Some sub) \<Rightarrow>
            if b \<le> 0 \<or> \<not> (0 \<le> pc \<and> pc \<le> 99) \<or> sz \<le> 0 \<or> mtime < 0 \<or> \<not> (0 < sub \<and> sub \<le> sz)
            then Inl TypeError
            else if sz \<le> b then Inl TypeError
            else rbind (progress_percent b sz) (\<lambda>want.
              if pc \<noteq> want then Inl TypeError else Inr (b, pc, sz, mtime, sub))
        | _ \<Rightarrow> Inl TypeError))"

fun read_entries :: "(string \<Rightarrow> pyval \<Rightarrow> 'a result) \<Rightarrow> (string, pyval) dict \<Rightarrow> (string, 'a) dict result" where
  "read_entries f [] = Inr []"
| "read_entries f ((k, v) # d) =
     rbind (f k v) (\<lambda>x. rbind (read_entries f d) (\<lambda>r. Inr ((k, x) # r)))"

definition read_phase :: "pyval \<Rightarrow> int result" where
  "read_phase v = (case v of
       PInt n \<Rightarrow> if n = 0 \<or> n = 1 \<or> n = 2 then Inr n else Inl TypeError
     | _ \<Rightarrow> Inl TypeError)"

definition read_persist :: "pyval \<Rightarrow> controller_persist result" where
  "read_persist doc =
     rbind (as_object doc) (\<lambda>d.
     rbind (rbind (require d ''downloaded'') read_string_set) (\<lambda>downloaded.
     rbind (rbind (as_object (get_default (PDict []) d ''downloaded_timestamps'')) read_timestamps) (\<lambda>stamps.
     rbind (rbind (require d ''extracted'') read_string_set) (\<lambda>extracted.
     rbind (read_string_set (get_default (PList []) d ''stopped'')) (\<lambda>stopped.
     rbind (as_object (get_default (PDict []) d ''move_failure_counts'')) (\<lambda>raw_counts.
     rbind (read_string_set (get_default (PList []) d ''final_move_succeeded'')) (\<lambda>moved.
     rbind (rbind (as_object (get_default (PDict []) d ''resume_sources'')) (read_entries read_resume_source)) (\<lambda>sources.
     rbind (rbind (as_object (get_default (PDict []) d ''display_progress_floors'')) (read_entries read_floor)) (\<lambda>floors.
     rbind (read_phase (get_default (PInt 0) d ''marker_identity_migration'')) (\<lambda>phase.
       Inr \<lparr>cp_downloaded = downloaded, cp_timestamps = stamps, cp_extracted = extracted,
          cp_stopped = stopped, cp_move_failures = read_counts raw_counts, cp_final_moved = moved,
          cp_resume_sources = sources, cp_floors = floors, cp_phase = phase\<rparr>))))))))))"

text \<open>\<open>from_str\<close> wraps the errors it expects; an \<open>OverflowError\<close> is not among them.\<close>

definition persist_from_doc :: "pyval \<Rightarrow> controller_persist result" where
  "persist_from_doc doc =
     (case read_persist doc of
        Inr p \<Rightarrow> Inr p
      | Inl e \<Rightarrow> if e = ValueError \<or> e = TypeError \<or> e = KeyError then Inl persist_error else Inl e)"

definition set_doc :: "string set \<Rightarrow> pyval" where
  "set_doc S = PList (map PStr (sorted_list_of_set S))"

definition persist_to_doc :: "controller_persist \<Rightarrow> pyval" where
  "persist_to_doc p =
     PDict ([(''downloaded'', set_doc (cp_downloaded p)), (''extracted'', set_doc (cp_extracted p)),
         (''stopped'', set_doc (cp_stopped p)),
         (''move_failure_counts'', PDict (map (\<lambda>(k, n). (k, PInt n)) (cp_move_failures p))),
         (''final_move_succeeded'', set_doc (cp_final_moved p)),
         (''marker_identity_migration'', PInt (cp_phase p))] @
       (if cp_resume_sources p = [] then []
        else [(''resume_sources'', PDict (map (\<lambda>(k, sz, mtime).
                 (k, PDict [(''size'', PInt sz), (''mtime'', PInt mtime)])) (cp_resume_sources p)))]) @
       (if cp_floors p = [] then []
        else [(''display_progress_floors'', PDict (map (\<lambda>(k, b, pc, sz, mtime, sub).
                 (k, PDict [(''bytes'', PInt b), (''percent'', PInt pc), (''size'', PInt sz),
                    (''mtime'', PInt mtime), (''subset'', PInt sub)])) (cp_floors p)))]) @
       (if cp_timestamps p = [] then []
        else [(''downloaded_timestamps'', PDict (map (\<lambda>(k, q). (k, PFloat (FFinite q))) (cp_timestamps p)))]))"

section \<open>Canonical identities are fixed points\<close>

lemma scoped_parts_build: "scoped_parts (build_file_id n (Some p)) = Some (codes p, codes n)"
  by (simp add: scoped_parts_def build_file_id_def startswith_def scan_quoted_dumps scalar_codes)

lemma canonical_scoped_build [simp]: "canonical_scoped (build_file_id n (Some p))"
  by (simp add: canonical_scoped_def scoped_parts_build) (simp add: build_file_id_def)

lemma canonical_file_id_scoped [simp]: "canonical_scoped k \<Longrightarrow> canonical_file_id d k = Some k"
  by (simp add: canonical_file_id_def)

lemma canonical_file_id_canonical: "canonical_file_id d key = Some k \<Longrightarrow> canonical_scoped k"
  by (auto simp: canonical_file_id_def Let_def split: if_splits option.splits)

lemma canonical_file_id_idem: "canonical_file_id d key = Some k \<Longrightarrow> canonical_file_id d' k = Some k"
  by (simp add: canonical_file_id_canonical)

lemma canonical_file_id_persist_key:
  assumes "p \<noteq> []" "KEY_SEP \<notin> set p" "\<not> canonical_scoped (persist_key (Some p) n)"
  shows "canonical_file_id d (persist_key (Some p) n) = Some (build_file_id n (Some p))"
  using assms by (simp add: canonical_file_id_def persist_key_def takeWhile_sep dropWhile_sep Let_def)

section \<open>The migration in two phases\<close>

lemma canonicalize_set_iff:
  "k \<in> canonicalize_set d S \<longleftrightarrow> (\<exists>key\<in>S. canonical_file_id d key = Some k)"
  by (auto simp: canonicalize_set_def in_these_eq image_iff) metis+

lemma canonicalize_set_union: "canonicalize_set d (S \<union> canonicalize_set d S) = canonicalize_set d S"
proof (intro set_eqI iffI)
  fix k
  assume "k \<in> canonicalize_set d (S \<union> canonicalize_set d S)"
  then obtain key where key: "key \<in> S \<or> key \<in> canonicalize_set d S" "canonical_file_id d key = Some k"
    by (auto simp: canonicalize_set_iff[of k])
  then show "k \<in> canonicalize_set d S"
  proof (cases "key \<in> S")
    case True
    with key show ?thesis by (auto simp: canonicalize_set_iff)
  next
    case False
    with key obtain x where "canonical_file_id d x = Some key" "key \<in> canonicalize_set d S"
      by (auto simp: canonicalize_set_iff)
    with key(2) canonical_file_id_idem[of d x key d] show ?thesis by simp
  qed
qed (auto simp: canonicalize_set_iff)

subsection \<open>Counts\<close>

text \<open>The count of a canonical key is the largest of its spellings, and at least zero.\<close>

definition top_count :: "string option \<Rightarrow> (string, int) dict \<Rightarrow> string \<Rightarrow> int \<Rightarrow> bool" where
  "top_count d cs k v \<longleftrightarrow>
     0 \<le> v \<and> (\<forall>(x, n)\<in>set cs. canonical_file_id d x = Some k \<longrightarrow> n \<le> v) \<and>
     (v = 0 \<or> (\<exists>(x, n)\<in>set cs. canonical_file_id d x = Some k \<and> v = n))"

lemma top_count_unique: "top_count d cs k v \<Longrightarrow> top_count d cs k w \<Longrightarrow> v = w"
  unfolding top_count_def by fastforce

lemma get_count_put: "get_count (put_count kc d) j = (if j = fst kc then max (get_count d j) (snd kc) else get_count d j)"
  by (simp add: put_count_def get_count_def)

lemma map_of_put_count:
  "map_of (put_count kc d) j = (if j = fst kc then Some (max (get_count d j) (snd kc)) else map_of d j)"
  by (simp add: put_count_def)

lemma dict_ok_put_count: "dict_ok d \<Longrightarrow> dict_ok (put_count kc d)"
  by (simp add: put_count_def)

lemma canonicalize_counts_snoc:
  "canonicalize_counts d (cs @ [c]) = count_step d c (canonicalize_counts d cs)"
  by (simp add: canonicalize_counts_def)

lemma canonicalize_counts_top: "top_count d cs k (get_count (canonicalize_counts d cs) k)"
proof (induction cs rule: rev_induct)
  case Nil
  show ?case by (simp add: canonicalize_counts_def top_count_def get_count_def)
next
  case (snoc c cs)
  then show ?case
    by (cases c) (auto simp: canonicalize_counts_snoc count_step_def top_count_def get_count_put
        max_def split: option.splits)
qed

lemma canonicalize_counts_dom:
  "map_of (canonicalize_counts d cs) k \<noteq> None \<longleftrightarrow> (\<exists>(x, n)\<in>set cs. canonical_file_id d x = Some k)"
proof (induction cs rule: rev_induct)
  case Nil
  show ?case by (simp add: canonicalize_counts_def)
next
  case (snoc c cs)
  then show ?case
    by (cases c) (auto simp: canonicalize_counts_snoc count_step_def map_of_put_count split: option.splits)
qed

lemma dict_ok_canonicalize_counts: "dict_ok (canonicalize_counts d cs)"
proof (induction cs rule: rev_induct)
  case (snoc c cs)
  then show ?case
    by (simp add: canonicalize_counts_snoc count_step_def dict_ok_put_count split: option.splits)
qed (simp add: canonicalize_counts_def)

lemma dict_ok_fold_put_count: "dict_ok d \<Longrightarrow> dict_ok (fold put_count cs d)"
  by (induction cs arbitrary: d) (simp_all add: dict_ok_put_count)

lemma map_of_fold_put_count:
  "dict_ok cs \<Longrightarrow> map_of (fold put_count cs d) k =
     (case map_of cs k of None \<Rightarrow> map_of d k | Some n \<Rightarrow> Some (max (get_count d k) n))"
proof (induction cs arbitrary: d)
  case (Cons c cs)
  have "get_count (put_count c d) k = get_count d k" if "fst c \<noteq> k"
    using that by (simp add: get_count_put)
  with Cons show ?case
    by (cases c) (auto simp: map_of_put_count get_count_put map_of_in_iff[symmetric] split: option.splits)
qed simp

lemma canonicalize_counts_union:
  assumes "dict_ok cs"
  shows "map_of (canonicalize_counts d (fold put_count (canonicalize_counts d cs) cs)) =
    map_of (canonicalize_counts d cs)"
proof
  fix k
  let ?c = "canonicalize_counts d cs"
  let ?u = "fold put_count ?c cs"
  have mem: "(x, n) \<in> set ?u \<longleftrightarrow>
      (case map_of ?c x of None \<Rightarrow> map_of cs x = Some n | Some m \<Rightarrow> n = max (get_count cs x) m)" for x n
    unfolding dict_ok_map_of_set[OF dict_ok_fold_put_count[OF assms]]
      map_of_fold_put_count[OF dict_ok_canonicalize_counts] by (auto split: option.splits)
  have src: "(x, n) \<in> set cs \<longleftrightarrow> map_of cs x = Some n" for x n by (rule dict_ok_map_of_set[OF assms])
  have dom_can: "canonical_file_id d x = Some x" if "map_of ?c x \<noteq> None" for x
    using that canonicalize_counts_dom[of d cs x] by (auto dest: canonical_file_id_idem)
  have top: "top_count d cs k (get_count ?c k)" by (rule canonicalize_counts_top)
  have own: "get_count cs k \<le> get_count ?c k" if "map_of ?c k \<noteq> None"
    using top dom_can[OF that] src[of k]
    by (cases "map_of cs k") (auto simp: top_count_def get_count_def)
  have "top_count d ?u k (get_count ?c k)"
    unfolding top_count_def
  proof (intro conjI)
    show "0 \<le> get_count ?c k" using top by (simp add: top_count_def)
    show "\<forall>(x, n)\<in>set ?u. canonical_file_id d x = Some k \<longrightarrow> n \<le> get_count ?c k"
    proof (intro ballI, clarify)
      fix x n assume x: "(x, n) \<in> set ?u" "canonical_file_id d x = Some k"
      show "n \<le> get_count ?c k"
      proof (cases "map_of ?c x")
        case None
        with x src have "(x, n) \<in> set cs" by (simp add: mem)
        with top x(2) show ?thesis by (auto simp: top_count_def)
      next
        case (Some m)
        with x dom_can[of x] have "x = k" by simp
        with x Some own show ?thesis by (simp add: mem) (simp add: get_count_def)
      qed
    qed
    show "get_count ?c k = 0 \<or> (\<exists>(x, n)\<in>set ?u. canonical_file_id d x = Some k \<and> get_count ?c k = n)"
    proof (cases "map_of ?c k")
      case None
      then show ?thesis by (simp add: get_count_def)
    next
      case (Some m)
      with own have "(k, m) \<in> set ?u" by (simp add: mem get_count_def)
      with Some dom_can[of k] show ?thesis by (auto simp: get_count_def)
    qed
  qed
  then have same: "get_count (canonicalize_counts d ?u) k = get_count ?c k"
    by (rule top_count_unique[OF canonicalize_counts_top])
  have "(\<exists>(x, n)\<in>set ?u. canonical_file_id d x = Some k) \<longleftrightarrow> (\<exists>(x, n)\<in>set cs. canonical_file_id d x = Some k)"
    (is "?L = ?R")
  proof
    assume ?L
    then obtain x n where x: "(x, n) \<in> set ?u" "canonical_file_id d x = Some k" by auto
    show ?R
    proof (cases "map_of ?c x")
      case None
      with x src show ?thesis by (auto simp: mem)
    next
      case (Some m)
      with x dom_can[of x] have "map_of ?c k \<noteq> None" by simp
      then show ?thesis by (rule canonicalize_counts_dom[THEN iffD1])
    qed
  next
    assume ?R
    then have "map_of ?c k \<noteq> None" by (rule canonicalize_counts_dom[THEN iffD2])
    with own dom_can[of k] have "(k, get_count ?c k) \<in> set ?u" by (auto simp: mem get_count_def)
    with \<open>map_of ?c k \<noteq> None\<close> dom_can[of k] show ?L by auto
  qed
  then have "map_of (canonicalize_counts d ?u) k = None \<longleftrightarrow> map_of ?c k = None"
    using canonicalize_counts_dom[of d ?u k] canonicalize_counts_dom[of d cs k] by blast
  with same show "map_of (canonicalize_counts d ?u) k = map_of ?c k"
    by (auto simp: get_count_def split: option.splits)
qed

subsection \<open>Timestamps\<close>

text \<open>The timestamp of a canonical key: its own when it has one, else that of its first spelling.\<close>

definition stamp_of :: "string option \<Rightarrow> (string, rat) dict \<Rightarrow> string \<Rightarrow> rat option" where
  "stamp_of d ts k =
     (if canonical_scoped k \<and> map_of ts k \<noteq> None then map_of ts k
      else map_option snd (find (\<lambda>(x, v). canonical_file_id d x = Some k) ts))"

lemma canonicalize_timestamps_snoc:
  "canonicalize_timestamps d (ts @ [t]) = timestamp_step d t (canonicalize_timestamps d ts)"
  by (simp add: canonicalize_timestamps_def)

lemma find_snoc: "find P (xs @ [x]) = (case find P xs of None \<Rightarrow> if P x then Some x else None | Some y \<Rightarrow> Some y)"
  by (induction xs) auto

lemma map_of_timestamp_step:
  "map_of (timestamp_step d (x, v) m) k =
     (if canonical_file_id d x = Some k \<and> (map_of m k = None \<or> x = k) then Some v else map_of m k)"
  by (auto simp: timestamp_step_def split: option.splits)

lemma stamp_of_snoc:
  assumes "map_of ts x = None"
  shows "stamp_of d (ts @ [(x, v)]) k =
    (if canonical_file_id d x = Some k \<and> (stamp_of d ts k = None \<or> x = k) then Some v else stamp_of d ts k)"
proof -
  have app: "map_of (ts @ [(x, v)]) k = (if k = x then Some v else map_of ts k)"
    using assms by (auto simp: map_add_def split: option.splits)
  have new: "k \<noteq> x \<or> \<not> canonical_scoped k" if "canonical_file_id d x \<noteq> Some k" using that by auto
  have can: "canonical_scoped k" if "canonical_file_id d x = Some k"
    using that by (rule canonical_file_id_canonical)
  let ?F = "find (\<lambda>(x, v). canonical_file_id d x = Some k) ts"
  have F: "find (\<lambda>(x, v). canonical_file_id d x = Some k) (ts @ [(x, v)]) =
      (if ?F = None then if canonical_file_id d x = Some k then Some (x, v) else None else ?F)"
    unfolding find_snoc by (cases ?F) simp_all
  show ?thesis
  proof (cases "canonical_file_id d x = Some k")
    case True
    then show ?thesis
      unfolding stamp_of_def app F using can[OF True] assms
      by (cases "k = x"; cases "map_of ts k"; cases ?F) simp_all
  next
    case False
    then show ?thesis unfolding stamp_of_def app F using new[OF False] by (cases ?F) simp_all
  qed
qed

lemma map_of_canonicalize_timestamps:
  "dict_ok ts \<Longrightarrow> map_of (canonicalize_timestamps d ts) k = stamp_of d ts k"
proof (induction ts rule: rev_induct)
  case Nil
  show ?case by (simp add: canonicalize_timestamps_def stamp_of_def)
next
  case (snoc t ts)
  obtain x v where t: "t = (x, v)" by (cases t)
  have "map_of ts x = None" using snoc.prems t by (simp add: map_of_eq_None_iff)
  then have snoc_eq: "stamp_of d (ts @ [(x, v)]) k =
      (if canonical_file_id d x = Some k \<and> (stamp_of d ts k = None \<or> x = k) then Some v else stamp_of d ts k)"
    by (rule stamp_of_snoc)
  have IH: "map_of (canonicalize_timestamps d ts) k = stamp_of d ts k" using snoc by simp
  show ?case
    unfolding t canonicalize_timestamps_snoc map_of_timestamp_step snoc_eq IH by (rule refl)
qed

lemma dict_ok_canonicalize_timestamps: "dict_ok (canonicalize_timestamps d ts)"
proof (induction ts rule: rev_induct)
  case (snoc t ts)
  then show ?case by (simp add: canonicalize_timestamps_snoc timestamp_step_def split: option.splits)
qed (simp add: canonicalize_timestamps_def)

lemma stamp_of_None: "stamp_of d ts k = None \<longleftrightarrow> (\<forall>(x, v)\<in>set ts. canonical_file_id d x \<noteq> Some k)"
proof -
  have f: "find (\<lambda>(x, v). canonical_file_id d x = Some k) ts = None \<longleftrightarrow>
      (\<forall>(x, v)\<in>set ts. canonical_file_id d x \<noteq> Some k)"
    by (auto simp: find_None_iff)
  have "\<exists>(x, v)\<in>set ts. canonical_file_id d x = Some k" if k: "canonical_scoped k" "map_of ts k \<noteq> None"
  proof -
    obtain v where "(k, v) \<in> set ts" using k(2) map_of_SomeD by fast
    with k(1) show ?thesis by (intro bexI[of _ "(k, v)"]) simp_all
  qed
  with f show ?thesis by (auto simp: stamp_of_def)
qed

lemma dict_update_ok: "dict_ok d \<Longrightarrow> dict_ok (dict_update d e)"
  unfolding dict_update_def by (induction e arbitrary: d) (auto split: prod.splits)

lemma map_of_dict_update:
  "dict_ok e \<Longrightarrow> map_of (dict_update d e) k = (case map_of e k of None \<Rightarrow> map_of d k | Some v \<Rightarrow> Some v)"
proof (induction e arbitrary: d)
  case (Cons x e)
  then have "map_of (dict_update (dict_set (fst x) (snd x) d) e) k =
      (case map_of e k of None \<Rightarrow> map_of (dict_set (fst x) (snd x) d) k | Some v \<Rightarrow> Some v)" by simp
  moreover have "map_of e (fst x) = None" using Cons.prems by (simp add: map_of_eq_None_iff)
  ultimately show ?case by (cases x) (auto simp: dict_update_def split: option.splits)
qed (simp add: dict_update_def)

lemma canonicalize_timestamps_union:
  assumes "dict_ok ts"
  shows "map_of (canonicalize_timestamps d (dict_update ts (canonicalize_timestamps d ts))) =
    map_of (canonicalize_timestamps d ts)"
proof
  fix k
  let ?c = "canonicalize_timestamps d ts"
  let ?u = "dict_update ts ?c"
  have u: "dict_ok ?u" by (rule dict_update_ok[OF assms])
  have c: "map_of ?c x = stamp_of d ts x" for x by (rule map_of_canonicalize_timestamps[OF assms])
  have get: "map_of ?u x = (case map_of ?c x of None \<Rightarrow> map_of ts x | Some v \<Rightarrow> Some v)" for x
    by (rule map_of_dict_update[OF dict_ok_canonicalize_timestamps])
  have dom_can: "canonical_file_id d x = Some x \<and> canonical_scoped x" if "map_of ?c x \<noteq> None" for x
    using that unfolding c stamp_of_None by (auto dest: canonical_file_id_idem canonical_file_id_canonical)
  show "map_of (canonicalize_timestamps d ?u) k = map_of ?c k"
  proof (cases "map_of ?c k")
    case (Some v)
    with dom_can[of k] get[of k] show ?thesis
      unfolding map_of_canonicalize_timestamps[OF u] by (simp add: stamp_of_def)
  next
    case None
    have "canonical_file_id d x \<noteq> Some k" if "(x, v) \<in> set ?u" for x v
    proof
      assume eq: "canonical_file_id d x = Some k"
      have "map_of ?u x = Some v" using that dict_ok_map_of_set[OF u] by blast
      show False
      proof (cases "map_of ?c x")
        case None2: None
        with \<open>map_of ?u x = Some v\<close> get[of x] have "(x, v) \<in> set ts" by (simp add: map_of_SomeD)
        moreover have "stamp_of d ts k = None" using None c by simp
        ultimately show False using eq stamp_of_None[of d ts k] by fast
      next
        case (Some w)
        with dom_can[of x] eq None show False by simp
      qed
    qed
    then have "stamp_of d ?u k = None" unfolding stamp_of_None by auto
    with None show ?thesis unfolding map_of_canonicalize_timestamps[OF u] by simp
  qed
qed

subsection \<open>The whole migration\<close>

text \<open>What one direct conversion to canonical keys would leave.\<close>

definition migrated :: "string option \<Rightarrow> controller_persist \<Rightarrow> controller_persist \<Rightarrow> bool" where
  "migrated d p q \<longleftrightarrow>
     cp_downloaded q = canonicalize_set d (cp_downloaded p) \<and>
     cp_extracted q = canonicalize_set d (cp_extracted p) \<and>
     cp_stopped q = canonicalize_set d (cp_stopped p) \<and>
     cp_final_moved q = canonicalize_set d (cp_final_moved p) \<and>
     map_of (cp_move_failures q) = map_of (canonicalize_counts d (cp_move_failures p)) \<and>
     map_of (cp_timestamps q) = map_of (canonicalize_timestamps d (cp_timestamps p)) \<and>
     cp_resume_sources q = cp_resume_sources p \<and> cp_floors q = cp_floors p \<and> cp_phase q = 2"

lemma migration_phases:
  fixes d :: "string option" and p :: controller_persist
  assumes "cp_phase p = 0" "dict_ok (cp_move_failures p)" "dict_ok (cp_timestamps p)"
  defines "p1 \<equiv> snd (canonicalize_file_identities d p)"
  defines "p2 \<equiv> snd (canonicalize_file_identities d p1)"
  shows "fst (canonicalize_file_identities d p)" "cp_phase p1 = 1"
    "fst (canonicalize_file_identities d p1)" "migrated d p p2"
    "canonicalize_file_identities d p2 = (False, p2)"
proof -
  show "fst (canonicalize_file_identities d p)" "cp_phase p1 = 1"
    using assms(1) by (simp_all add: p1_def canonicalize_file_identities_def Let_def)
  then show "fst (canonicalize_file_identities d p1)" "migrated d p p2"
    "canonicalize_file_identities d p2 = (False, p2)"
    using assms(1) canonicalize_counts_union[OF assms(2)] canonicalize_timestamps_union[OF assms(3)]
    by (simp_all add: p2_def p1_def canonicalize_file_identities_def Let_def migrated_def canonicalize_set_union)
qed

text \<open>The state saved between the phases: every set and every dictionary has what it had before together
  with the converted keys, and where both have a key, the larger count and the converted timestamp.\<close>

definition merged :: "string option \<Rightarrow> controller_persist \<Rightarrow> controller_persist \<Rightarrow> bool" where
  "merged d p q \<longleftrightarrow>
     cp_downloaded q = cp_downloaded p \<union> canonicalize_set d (cp_downloaded p) \<and>
     cp_extracted q = cp_extracted p \<union> canonicalize_set d (cp_extracted p) \<and>
     cp_stopped q = cp_stopped p \<union> canonicalize_set d (cp_stopped p) \<and>
     cp_final_moved q = cp_final_moved p \<union> canonicalize_set d (cp_final_moved p) \<and>
     (\<forall>k. map_of (cp_move_failures q) k =
        (case map_of (canonicalize_counts d (cp_move_failures p)) k of
           None \<Rightarrow> map_of (cp_move_failures p) k
         | Some n \<Rightarrow> Some (max (get_count (cp_move_failures p) k) n))) \<and>
     map_of (cp_timestamps q) = map_of (cp_timestamps p) ++ map_of (canonicalize_timestamps d (cp_timestamps p)) \<and>
     cp_resume_sources q = cp_resume_sources p \<and> cp_floors q = cp_floors p \<and> cp_phase q = 1"

lemma phase_one_merges:
  assumes "cp_phase p = 0"
  shows "merged d p (snd (canonicalize_file_identities d p))"
proof -
  have "map_of (dict_update (cp_timestamps p) (canonicalize_timestamps d (cp_timestamps p))) =
      map_of (cp_timestamps p) ++ map_of (canonicalize_timestamps d (cp_timestamps p))"
    by (rule ext) (simp add: map_of_dict_update[OF dict_ok_canonicalize_timestamps] map_add_def)
  then show ?thesis
    using assms by (simp add: merged_def canonicalize_file_identities_def Let_def map_of_fold_put_count[OF dict_ok_canonicalize_counts])
qed

section \<open>The stored document\<close>

definition floor_ok :: "int \<times> int \<times> int \<times> int \<times> int \<Rightarrow> bool" where
  "floor_ok v = (case v of (b, pc, sz, mtime, sub) \<Rightarrow>
     0 < b \<and> b < sz \<and> 0 \<le> pc \<and> pc \<le> 99 \<and> 0 \<le> mtime \<and> 0 < sub \<and> sub \<le> sz \<and>
     progress_percent b sz = Inr pc)"

definition resume_key_ok :: "string \<Rightarrow> bool" where
  "resume_key_ok k = (canonical_resume_source_id k = Some k)"

definition persist_ok :: "controller_persist \<Rightarrow> bool" where
  "persist_ok p \<longleftrightarrow>
     list_all (\<lambda>(k, q). 0 \<le> q) (cp_timestamps p) \<and>
     list_all (\<lambda>(k, n). k \<noteq> [] \<and> 0 \<le> n \<and> n \<le> 4) (cp_move_failures p) \<and>
     list_all (\<lambda>(k, sz, mtime). resume_key_ok k \<and> 0 \<le> sz \<and> 0 \<le> mtime) (cp_resume_sources p) \<and>
     list_all (\<lambda>(k, v). resume_key_ok k \<and> floor_ok v) (cp_floors p) \<and>
     (cp_phase p = 0 \<or> cp_phase p = 1 \<or> cp_phase p = 2)"

lemma read_timestamps_ok: "read_timestamps d = Inr r \<Longrightarrow> list_all (\<lambda>(k, q). 0 \<le> q) r"
proof (induction d arbitrary: r rule: read_timestamps.induct)
  case (2 k v d)
  then obtain x r' where x: "read_timestamp v = Inr x" "read_timestamps d = Inr r'"
    "r = (case x of None \<Rightarrow> r' | Some q \<Rightarrow> (k, q) # r')" by (auto simp: rbind_Inr_iff)
  have "0 \<le> q" if "x = Some q" for q
    using x(1) that by (auto simp: read_timestamp_def rbind_Inr_iff split: pyval.splits pyfloat.splits if_splits)
  with x "2.IH" show ?case by (auto split: option.splits)
qed simp

lemma read_entries_ok:
  assumes ok: "\<And>k v x. f k v = Inr x \<Longrightarrow> Q k x"
  shows "read_entries f d = Inr r \<Longrightarrow> list_all (\<lambda>(k, x). Q k x) r"
proof (induction d arbitrary: r)
  case (Cons e d)
  obtain k v where e: "e = (k, v)" by (cases e)
  from Cons.prems obtain x r' where "f k v = Inr x" "read_entries f d = Inr r'" "r = (k, x) # r'"
    unfolding e by (auto simp: rbind_Inr_iff)
  with Cons.IH ok show ?case by simp
qed simp

lemma read_counts_ok: "list_all (\<lambda>(k, n). k \<noteq> [] \<and> 0 \<le> n \<and> n \<le> 4) (read_counts d)"
  by (induction d) (auto simp: read_counts_def List.map_filter_simps split: pyval.splits option.splits if_splits)

lemma read_resume_source_ok:
  assumes "read_resume_source k v = Inr x"
  shows "resume_key_ok k \<and> 0 \<le> fst x \<and> 0 \<le> snd x"
proof -
  have k: "canonical_resume_source_id k = Some k"
    using assms unfolding read_resume_source_def by (rule contrapos_pp) simp
  obtain d where "(case (int_field d ''size'', int_field d ''mtime'') of
      (Some sz, Some mtime) \<Rightarrow> if sz < 0 \<or> mtime < 0 then Inl TypeError else Inr (sz, mtime)
    | _ \<Rightarrow> Inl TypeError) = Inr x"
    using assms k unfolding read_resume_source_def by (auto simp only: rbind_Inr_iff if_False simp_thms)
  with k show ?thesis by (auto simp: resume_key_ok_def split: option.splits if_splits)
qed

lemma read_floor_ok:
  assumes "read_floor k v = Inr x"
  shows "resume_key_ok k \<and> floor_ok x"
proof -
  have k: "canonical_resume_source_id k = Some k"
    using assms unfolding read_floor_def by (rule contrapos_pp) simp
  obtain d where d: "(case (int_field d ''bytes'', int_field d ''percent'', int_field d ''size'', int_field d ''mtime'',
              int_field d ''subset'') of
          (Some b, Some pc, Some sz, Some mtime, Some sub) \<Rightarrow>
            if b \<le> 0 \<or> \<not> (0 \<le> pc \<and> pc \<le> 99) \<or> sz \<le> 0 \<or> mtime < 0 \<or> \<not> (0 < sub \<and> sub \<le> sz)
            then Inl TypeError
            else if sz \<le> b then Inl TypeError
            else rbind (progress_percent b sz) (\<lambda>want.
              if pc \<noteq> want then Inl TypeError else Inr (b, pc, sz, mtime, sub))
        | _ \<Rightarrow> Inl TypeError) = Inr x"
    using assms k unfolding read_floor_def by (auto simp only: rbind_Inr_iff if_False simp_thms)
  then obtain b pc sz mtime sub where f: "x = (b, pc, sz, mtime, sub)" "progress_percent b sz = Inr pc"
    "\<not> (b \<le> 0 \<or> \<not> (0 \<le> pc \<and> pc \<le> 99) \<or> sz \<le> 0 \<or> mtime < 0 \<or> \<not> (0 < sub \<and> sub \<le> sz))" "\<not> sz \<le> b"
    by (auto simp: rbind_Inr_iff split: option.splits if_splits)
  with k show ?thesis by (simp add: resume_key_ok_def floor_ok_def)
qed

lemma persist_from_doc_ok:
  assumes "persist_from_doc doc = Inr p"
  shows "persist_ok p"
proof -
  have "read_persist doc = Inr p"
    using assms by (auto simp: persist_from_doc_def split: sum.splits if_splits)
  then obtain d raw_stamps raw_counts raw_sources raw_floors v where
    r: "read_timestamps raw_stamps = Inr (cp_timestamps p)" "cp_move_failures p = read_counts raw_counts"
      "read_entries read_resume_source raw_sources = Inr (cp_resume_sources p)"
      "read_entries read_floor raw_floors = Inr (cp_floors p)" "read_phase v = Inr (cp_phase p)"
    unfolding read_persist_def rbind_Inr_iff by auto
  have "list_all (\<lambda>(k, sz, mtime). resume_key_ok k \<and> 0 \<le> sz \<and> 0 \<le> mtime) (cp_resume_sources p)"
  proof -
    have "list_all (\<lambda>(k, x). resume_key_ok k \<and> 0 \<le> fst x \<and> 0 \<le> snd x) (cp_resume_sources p)"
      by (rule read_entries_ok[OF _ r(3)]) (rule read_resume_source_ok)
    then show ?thesis by (simp add: case_prod_beta)
  qed
  moreover have floors: "list_all (\<lambda>(k, v). resume_key_ok k \<and> floor_ok v) (cp_floors p)"
    by (rule read_entries_ok[OF _ r(4)]) (rule read_floor_ok)
  moreover have "cp_phase p = 0 \<or> cp_phase p = 1 \<or> cp_phase p = 2"
    using r(5) by (auto simp: read_phase_def split: pyval.splits if_splits)
  ultimately show ?thesis
    unfolding persist_ok_def r(2)
    using read_timestamps_ok[OF r(1)] read_counts_ok floors by blast
qed

lemma read_string_set_doc: "finite S \<Longrightarrow> read_string_set (set_doc S) = Inr S"
proof -
  have "List.map_filter (\<lambda>x. case x of PStr s \<Rightarrow> Some s | _ \<Rightarrow> None) (map PStr xs) = xs" for xs
    by (induction xs) (simp_all add: List.map_filter_simps)
  moreover assume "finite S"
  ultimately show ?thesis by (simp add: read_string_set_def set_doc_def list_all_iff)
qed

lemma read_timestamps_doc:
  "list_all (\<lambda>(k, q). 0 \<le> q) ts \<Longrightarrow>
   read_timestamps (map (\<lambda>(k, q). (k, PFloat (FFinite q))) ts) = Inr ts"
  by (induction ts) (auto simp: read_timestamp_def)

lemma read_counts_doc:
  "list_all (\<lambda>(k, n). k \<noteq> [] \<and> 0 \<le> n \<and> n \<le> 4) cs \<Longrightarrow>
   read_counts (map (\<lambda>(k, n). (k, PInt n)) cs) = cs"
  by (induction cs) (auto simp: read_counts_def List.map_filter_simps)

lemma read_entries_doc:
  assumes "\<And>k x. (k, x) \<in> set d \<Longrightarrow> f k (g x) = Inr x"
  shows "read_entries f (map (\<lambda>(k, x). (k, g x)) d) = Inr d"
  using assms by (induction d) auto

lemma read_sources_doc:
  assumes "list_all (\<lambda>(k, sz, mtime). resume_key_ok k \<and> 0 \<le> sz \<and> 0 \<le> mtime) d"
  shows "read_entries read_resume_source
     (map (\<lambda>(k, sz, mtime). (k, PDict [(''size'', PInt sz), (''mtime'', PInt mtime)])) d) = Inr d"
  using assms by (induction d) (auto simp: read_resume_source_def resume_key_ok_def as_object_def int_field_def)

lemma read_floors_doc:
  assumes "list_all (\<lambda>(k, v). resume_key_ok k \<and> floor_ok v) d"
  shows "read_entries read_floor
     (map (\<lambda>(k, b, pc, sz, mtime, sub).
        (k, PDict [(''bytes'', PInt b), (''percent'', PInt pc), (''size'', PInt sz),
                   (''mtime'', PInt mtime), (''subset'', PInt sub)])) d) = Inr d"
  using assms by (induction d) (auto simp: read_floor_def resume_key_ok_def floor_ok_def as_object_def int_field_def)

lemma persist_from_to_doc:
  assumes "persist_ok p" "finite (cp_downloaded p)" "finite (cp_extracted p)" "finite (cp_stopped p)"
    "finite (cp_final_moved p)"
  shows "persist_from_doc (persist_to_doc p) = Inr p"
proof -
  define d where "d = [(''downloaded'', set_doc (cp_downloaded p)), (''extracted'', set_doc (cp_extracted p)),
         (''stopped'', set_doc (cp_stopped p)),
         (''move_failure_counts'', PDict (map (\<lambda>(k, n). (k, PInt n)) (cp_move_failures p))),
         (''final_move_succeeded'', set_doc (cp_final_moved p)),
         (''marker_identity_migration'', PInt (cp_phase p))]"
  define e where "e =
       (if cp_resume_sources p = [] then []
        else [(''resume_sources'', PDict (map (\<lambda>(k, sz, mtime).
                 (k, PDict [(''size'', PInt sz), (''mtime'', PInt mtime)])) (cp_resume_sources p)))]) @
       (if cp_floors p = [] then []
        else [(''display_progress_floors'', PDict (map (\<lambda>(k, b, pc, sz, mtime, sub).
                 (k, PDict [(''bytes'', PInt b), (''percent'', PInt pc), (''size'', PInt sz),
                    (''mtime'', PInt mtime), (''subset'', PInt sub)])) (cp_floors p)))]) @
       (if cp_timestamps p = [] then []
        else [(''downloaded_timestamps'', PDict (map (\<lambda>(k, q). (k, PFloat (FFinite q))) (cp_timestamps p)))])"
  have doc: "persist_to_doc p = PDict (d @ e)"
    unfolding persist_to_doc_def d_def e_def by (rule refl)
  have e: "get_default (PDict []) (d @ e) ''resume_sources'' =
        PDict (map (\<lambda>(k, sz, mtime). (k, PDict [(''size'', PInt sz), (''mtime'', PInt mtime)])) (cp_resume_sources p))"
      "get_default (PDict []) (d @ e) ''display_progress_floors'' =
        PDict (map (\<lambda>(k, b, pc, sz, mtime, sub). (k, PDict [(''bytes'', PInt b), (''percent'', PInt pc),
           (''size'', PInt sz), (''mtime'', PInt mtime), (''subset'', PInt sub)])) (cp_floors p))"
      "get_default (PDict []) (d @ e) ''downloaded_timestamps'' =
        PDict (map (\<lambda>(k, q). (k, PFloat (FFinite q))) (cp_timestamps p))"
    by (simp_all add: get_default_def d_def e_def)
  have f: "require (d @ e) ''downloaded'' = Inr (set_doc (cp_downloaded p))"
    "require (d @ e) ''extracted'' = Inr (set_doc (cp_extracted p))"
    "get_default (PList []) (d @ e) ''stopped'' = set_doc (cp_stopped p)"
    "get_default (PDict []) (d @ e) ''move_failure_counts'' =
       PDict (map (\<lambda>(k, n). (k, PInt n)) (cp_move_failures p))"
    "get_default (PList []) (d @ e) ''final_move_succeeded'' = set_doc (cp_final_moved p)"
    "get_default (PInt 0) (d @ e) ''marker_identity_migration'' = PInt (cp_phase p)"
    by (simp_all add: require_def get_default_def d_def)
  have "read_persist (persist_to_doc p) = Inr p"
    using assms unfolding doc persist_ok_def
    by (simp add: read_persist_def as_object_def e f read_string_set_doc read_timestamps_doc
        read_counts_doc read_sources_doc read_floors_doc read_phase_def)
  then show ?thesis by (simp add: persist_from_doc_def)
qed

text \<open>An integer timestamp beyond the range of \<open>float\<close> escapes the wrapping of errors.\<close>

lemma persist_from_doc_overflow:
  assumes "2 ^ 1025 \<le> n"
  shows "persist_from_doc (PDict [(''downloaded'', PList []), (''downloaded_timestamps'', PDict [(k, PInt n)]),
           (''extracted'', PList [])]) = Inl OverflowError"
  using assms by (simp add: persist_from_doc_def read_persist_def as_object_def require_def get_default_def
      read_string_set_def read_timestamp_def float_of_int_overflow)

end
