(* ===== verification/Path_Pairs.thy ===== *)
theory Path_Pairs
  imports Keyed_Store
begin

text \<open>
  \<open>common/path_pair.py\<close>: the path pairs, their collection, and the manager that keeps a collection
  in memory and on disk.

  The fields of a pair are Python values, since \<open>__post_init__\<close> and \<open>validate\<close> check their types.
  The disk is the JSON value of \<open>path_pairs.json\<close>, or its absence, or a text \<open>json.loads\<close> or
  \<open>open\<close> refuses, with the numbers of the backup files beside it. Whether a write or a copy
  succeeds is an argument (\<open>OSError\<close>), and so are the fresh identifiers of \<open>uuid.uuid4\<close> and
  the hash of \<open>uuid.uuid5\<close>.
\<close>

section \<open>Pairs\<close>

record path_pair =
  pp_remote_path :: pyval
  pp_local_path :: pyval
  pp_name :: pyval
  pp_id :: pyval
  pp_enabled :: pyval
  pp_auto_queue :: pyval

abbreviation pair_error :: "string \<Rightarrow> py_error" where
  "pair_error msg \<equiv> AppError ''PathPairError'' msg"

abbreviation conflict_error :: "string \<Rightarrow> py_error" where
  "conflict_error msg \<equiv> AppError ''PathPairConflictError'' msg"

definition basename :: "string \<Rightarrow> string" where
  "basename p = rev (takeWhile (\<lambda>c. c \<noteq> CHR ''/'') (rev p))"

definition default_name :: "string \<Rightarrow> string" where
  "default_name remote =
     (let b = basename (rstrip_char (CHR ''/'') remote) in if b = [] then ''Default'' else b)"

definition new_path_pair ::
  "pyval \<Rightarrow> pyval \<Rightarrow> pyval \<Rightarrow> pyval \<Rightarrow> pyval \<Rightarrow> pyval \<Rightarrow> path_pair result" where
  "new_path_pair remote_path local_path name ident enabled auto_queue =
     (let mk = (\<lambda>n. \<lparr>pp_remote_path = remote_path, pp_local_path = local_path, pp_name = n,
                  pp_id = ident, pp_enabled = enabled, pp_auto_queue = auto_queue\<rparr>)
      in case name of
           PStr n \<Rightarrow>
             if n = [] then
               (case remote_path of PStr r \<Rightarrow> Inr (mk (PStr (default_name r))) | _ \<Rightarrow> Inr (mk name))
             else Inr (mk name)
         | _ \<Rightarrow> Inl (pair_error ''name must be a string''))"

definition check_text :: "string \<Rightarrow> (string \<Rightarrow> string) \<Rightarrow> pyval \<Rightarrow> unit result" where
  "check_text field clean v =
     (case v of
        PStr s \<Rightarrow> if clean s = [] then Inl (pair_error (field @ '' cannot be empty'')) else Inr ()
      | _ \<Rightarrow> Inl (pair_error (field @ '' must be a string'')))"

definition check_bool :: "string \<Rightarrow> pyval \<Rightarrow> unit result" where
  "check_bool field v =
     (case v of PBool b \<Rightarrow> Inr () | _ \<Rightarrow> Inl (pair_error (field @ '' must be a boolean'')))"

definition check_str :: "string \<Rightarrow> pyval \<Rightarrow> unit result" where
  "check_str field v =
     (case v of PStr s \<Rightarrow> Inr () | _ \<Rightarrow> Inl (pair_error (field @ '' must be a string'')))"

definition validate :: "path_pair \<Rightarrow> string list result" where
  "validate p =
     rbind (check_str ''name'' (pp_name p)) (\<lambda>_.
     rbind (check_text ''remote_path'' strip (pp_remote_path p)) (\<lambda>_.
     rbind (check_text ''local_path'' strip (pp_local_path p)) (\<lambda>_.
     rbind (check_text ''id'' id (pp_id p)) (\<lambda>_.
     rbind (check_bool ''enabled'' (pp_enabled p)) (\<lambda>_.
     rbind (check_bool ''auto_queue'' (pp_auto_queue p)) (\<lambda>_. Inr []))))))"

section \<open>Collections\<close>

record collection =
  pc_pairs :: "path_pair list"
  pc_version :: int

definition empty_collection :: collection where
  "empty_collection = \<lparr>pc_pairs = [], pc_version = 1\<rparr>"

definition get_enabled_pairs :: "collection \<Rightarrow> path_pair list" where
  "get_enabled_pairs c = filter (\<lambda>p. pp_enabled p = PBool True) (pc_pairs c)"

definition get_pair_by_id :: "pyval \<Rightarrow> collection \<Rightarrow> path_pair option" where
  "get_pair_by_id i c = find (\<lambda>p. pp_id p = i) (pc_pairs c)"

definition get_pair_by_name :: "pyval \<Rightarrow> collection \<Rightarrow> path_pair option" where
  "get_pair_by_name n c = find (\<lambda>p. pp_name p = n) (pc_pairs c)"

definition add_pair :: "path_pair \<Rightarrow> collection \<Rightarrow> (string list \<times> collection) result" where
  "add_pair p c =
     rbind (validate p) (\<lambda>warnings.
       if get_pair_by_id (pp_id p) c \<noteq> None then Inl (pair_error ''id already exists'')
       else if get_pair_by_name (pp_name p) c \<noteq> None then Inl (conflict_error ''name already exists'')
       else Inr (warnings, c\<lparr>pc_pairs := pc_pairs c @ [p]\<rparr>))"

text \<open>The loop of \<open>update_pair\<close>: the pairs seen, and the rest.\<close>

fun update_loop :: "path_pair \<Rightarrow> bool \<Rightarrow> path_pair list \<Rightarrow> path_pair list result" where
  "update_loop p taken [] = Inl (pair_error ''id not found'')"
| "update_loop p taken (x # xs) =
     (if pp_id x = pp_id p then
        if pp_name x \<noteq> pp_name p \<and> taken then Inl (conflict_error ''name already exists'')
        else Inr (p # xs)
      else rbind (update_loop p taken xs) (\<lambda>ys. Inr (x # ys)))"

definition update_pair :: "path_pair \<Rightarrow> collection \<Rightarrow> (string list \<times> collection) result" where
  "update_pair p c =
     rbind (validate p) (\<lambda>warnings.
     rbind (update_loop p (get_pair_by_name (pp_name p) c \<noteq> None) (pc_pairs c)) (\<lambda>ps.
       Inr (warnings, c\<lparr>pc_pairs := ps\<rparr>)))"

fun remove_loop :: "pyval \<Rightarrow> path_pair list \<Rightarrow> path_pair list result" where
  "remove_loop i [] = Inl (pair_error ''id not found'')"
| "remove_loop i (x # xs) =
     (if pp_id x = i then Inr xs else rbind (remove_loop i xs) (\<lambda>ys. Inr (x # ys)))"

definition remove_pair :: "pyval \<Rightarrow> collection \<Rightarrow> collection result" where
  "remove_pair i c = rbind (remove_loop i (pc_pairs c)) (\<lambda>ps. Inr (c\<lparr>pc_pairs := ps\<rparr>))"

text \<open>Identifiers are strings once a pair is validated; \<open>id_text\<close> reads them.\<close>

definition id_text :: "path_pair \<Rightarrow> string" where
  "id_text p = (case pp_id p of PStr s \<Rightarrow> s | _ \<Rightarrow> [])"

definition pairs_by_id :: "path_pair list \<Rightarrow> (string, path_pair) dict" where
  "pairs_by_id ps = fold (\<lambda>p. dict_set (id_text p) p) ps []"

fun pick_all :: "(string, path_pair) dict \<Rightarrow> string list \<Rightarrow> path_pair list result" where
  "pick_all d [] = Inr []"
| "pick_all d (i # ids) =
     (case dict_get d i of
        None \<Rightarrow> Inl KeyError
      | Some p \<Rightarrow> rbind (pick_all d ids) (\<lambda>ps. Inr (p # ps)))"

definition reorder_pairs :: "string list \<Rightarrow> collection \<Rightarrow> collection result" where
  "reorder_pairs ids c =
     (if sort ids \<noteq> sort (map id_text (pc_pairs c)) then Inl (pair_error ''Reorder list must contain all existing path pair IDs'')
      else rbind (pick_all (pairs_by_id (pc_pairs c)) ids) (\<lambda>ps. Inr (c\<lparr>pc_pairs := ps\<rparr>)))"

section \<open>The stored document\<close>

abbreviation pairs_persist_error :: py_error where
  "pairs_persist_error \<equiv> AppError ''PersistError'' ''Invalid path pairs JSON''"

definition field_or :: "(string, pyval) dict \<Rightarrow> string \<Rightarrow> pyval \<Rightarrow> pyval" where
  "field_or d k dflt = (case dict_get d k of None \<Rightarrow> dflt | Some v \<Rightarrow> v)"

definition is_str :: "pyval \<Rightarrow> bool" where
  "is_str v = (case v of PStr s \<Rightarrow> True | _ \<Rightarrow> False)"

definition is_bool :: "pyval \<Rightarrow> bool" where
  "is_bool v = (case v of PBool b \<Rightarrow> True | _ \<Rightarrow> False)"

definition read_pair :: "string \<Rightarrow> pyval \<Rightarrow> path_pair result" where
  "read_pair fresh v =
     (case v of
        PDict d \<Rightarrow>
          (let ident = field_or d ''id'' (PStr fresh); name = field_or d ''name'' (PStr []);
               remote_path = field_or d ''remote_path'' PNone; local_path = field_or d ''local_path'' PNone;
               enabled = field_or d ''enabled'' (PBool True); auto_queue = field_or d ''auto_queue'' (PBool True)
           in if \<not> is_str ident \<or> \<not> is_str name then Inl TypeError
              else if \<not> is_str remote_path \<or> \<not> is_str local_path then Inl TypeError
              else if \<not> is_bool enabled \<or> \<not> is_bool auto_queue then Inl TypeError
              else rbind (new_path_pair remote_path local_path name ident enabled auto_queue) (\<lambda>p.
                   rbind (validate p) (\<lambda>_. Inr p)))
      | _ \<Rightarrow> Inl TypeError)"

fun read_pairs :: "(nat \<Rightarrow> string) \<Rightarrow> nat \<Rightarrow> pyval list \<Rightarrow> path_pair list result" where
  "read_pairs fresh n [] = Inr []"
| "read_pairs fresh n (v # vs) =
     rbind (read_pair (fresh n) v) (\<lambda>p. rbind (read_pairs fresh (Suc n) vs) (\<lambda>ps. Inr (p # ps)))"

text \<open>\<open>isinstance(version, int)\<close> also holds of a \<open>bool\<close>, which is then the number it equals.\<close>

definition read_version :: "pyval \<Rightarrow> int result" where
  "read_version v = (case v of
       PInt n \<Rightarrow> Inr n
     | PBool b \<Rightarrow> Inr (if b then 1 else 0)
     | _ \<Rightarrow> Inl TypeError)"

definition read_collection :: "(nat \<Rightarrow> string) \<Rightarrow> pyval \<Rightarrow> collection result" where
  "read_collection fresh doc =
     (case doc of
        PDict d \<Rightarrow>
          rbind (case field_or d ''path_pairs'' (PList []) of
                   PNone \<Rightarrow> Inr [] | PList vs \<Rightarrow> Inr vs | _ \<Rightarrow> Inl TypeError) (\<lambda>vs.
          rbind (read_pairs fresh 0 vs) (\<lambda>ps.
          rbind (read_version (field_or d ''version'' (PInt 1))) (\<lambda>version.
            Inr \<lparr>pc_pairs = ps, pc_version = version\<rparr>)))
      | _ \<Rightarrow> Inl TypeError)"

text \<open>\<open>from_str\<close> wraps every error its body can raise.\<close>

definition collection_from_doc :: "(nat \<Rightarrow> string) \<Rightarrow> pyval \<Rightarrow> collection result" where
  "collection_from_doc fresh doc =
     (case read_collection fresh doc of Inr c \<Rightarrow> Inr c | Inl e \<Rightarrow> Inl pairs_persist_error)"

definition pair_doc :: "path_pair \<Rightarrow> pyval" where
  "pair_doc p = PDict [(''remote_path'', pp_remote_path p), (''local_path'', pp_local_path p),
     (''name'', pp_name p), (''id'', pp_id p), (''enabled'', pp_enabled p), (''auto_queue'', pp_auto_queue p)]"

definition collection_to_doc :: "collection \<Rightarrow> pyval" where
  "collection_to_doc c =
     PDict [(''version'', PInt (pc_version c)), (''path_pairs'', PList (map pair_doc (pc_pairs c)))]"

section \<open>The manager\<close>

datatype disk_file = Missing | Unreadable | Stored pyval

record manager =
  pm_collection :: "collection option"
  pm_disk :: disk_file
  pm_backups :: "nat list"

text \<open>The search for a free backup name: \<open>path_pairs.json.1.bak\<close>, \<open>.2.bak\<close>, and so on.\<close>

function free_backup :: "nat list \<Rightarrow> nat \<Rightarrow> nat" where
  "free_backup taken i = (if i \<notin> set taken then i else free_backup taken (Suc i))"
  by pat_completeness auto
termination
proof (relation "measure (\<lambda>(taken, i). card {j \<in> set taken. i \<le> j})")
  fix taken :: "nat list" and i
  assume "\<not> i \<notin> set taken"
  then have "i \<in> {j \<in> set taken. i \<le> j}" "i \<notin> {j \<in> set taken. Suc i \<le> j}"
    "{j \<in> set taken. Suc i \<le> j} \<subseteq> {j \<in> set taken. i \<le> j}" by auto
  then have "{j \<in> set taken. Suc i \<le> j} \<subset> {j \<in> set taken. i \<le> j}" by blast
  then show "((taken, Suc i), taken, i) \<in> measure (\<lambda>(taken, i). card {j \<in> set taken. i \<le> j})"
    by (simp add: psubset_card_mono)
qed auto

declare free_backup.simps [simp del]

definition backup_file :: "bool \<Rightarrow> manager \<Rightarrow> manager" where
  "backup_file copied m =
     (if copied then m\<lparr>pm_backups := pm_backups m @ [free_backup (pm_backups m) 1]\<rparr> else m)"

text \<open>What happens outside: the fresh identifiers, whether a copy and whether a write succeeds.\<close>

record outside =
  fresh_ids :: "nat \<Rightarrow> string"
  copy_ok :: bool
  write_ok :: bool

definition load :: "outside \<Rightarrow> manager \<Rightarrow> manager" where
  "load w m =
     (case pm_disk m of
        Missing \<Rightarrow> m\<lparr>pm_collection := Some empty_collection\<rparr>
      | Unreadable \<Rightarrow> (backup_file (copy_ok w) m)\<lparr>pm_collection := Some empty_collection\<rparr>
      | Stored doc \<Rightarrow>
          (case collection_from_doc (fresh_ids w) doc of
             Inr c \<Rightarrow> m\<lparr>pm_collection := Some c\<rparr>
           | Inl e \<Rightarrow> (backup_file (copy_ok w) m)\<lparr>pm_collection := Some empty_collection\<rparr>))"

definition loaded :: "outside \<Rightarrow> manager \<Rightarrow> manager" where
  "loaded w m = (if pm_collection m = None then load w m else m)"

definition the_collection :: "manager \<Rightarrow> collection" where
  "the_collection m = (case pm_collection m of None \<Rightarrow> empty_collection | Some c \<Rightarrow> c)"

definition save :: "outside \<Rightarrow> manager \<Rightarrow> manager result" where
  "save w m =
     (case pm_collection m of
        None \<Rightarrow> Inl (pair_error ''No path pair collection loaded'')
      | Some c \<Rightarrow>
          if write_ok w then Inr (m\<lparr>pm_disk := Stored (collection_to_doc c)\<rparr>)
          else Inl (AppError ''PersistError'' ''Failed to save path pairs''))"

text \<open>The result, or the error after the roll back, with the manager it leaves.\<close>

definition mutate_and_save ::
  "outside \<Rightarrow> (collection \<Rightarrow> ('a \<times> collection) result) \<Rightarrow> manager \<Rightarrow> 'a result \<times> manager" where
  "mutate_and_save w mutation m =
     (let m1 = loaded w m; original = the_collection m1
      in case mutation original of
           Inl e \<Rightarrow> (Inl e, m1\<lparr>pm_collection := Some original\<rparr>)
         | Inr (r, c) \<Rightarrow>
             (case save w (m1\<lparr>pm_collection := Some c\<rparr>) of
                Inl e \<Rightarrow> (Inl e, m1\<lparr>pm_collection := Some original\<rparr>)
              | Inr m2 \<Rightarrow> (Inr r, m2)))"

definition manager_add :: "outside \<Rightarrow> path_pair \<Rightarrow> manager \<Rightarrow> string list result \<times> manager" where
  "manager_add w p m = mutate_and_save w (add_pair p) m"

definition manager_update :: "outside \<Rightarrow> path_pair \<Rightarrow> manager \<Rightarrow> string list result \<times> manager" where
  "manager_update w p m = mutate_and_save w (update_pair p) m"

definition manager_remove :: "outside \<Rightarrow> pyval \<Rightarrow> manager \<Rightarrow> unit result \<times> manager" where
  "manager_remove w i m = mutate_and_save w (\<lambda>c. map_sum id (Pair ()) (remove_pair i c)) m"

definition manager_reorder :: "outside \<Rightarrow> string list \<Rightarrow> manager \<Rightarrow> unit result \<times> manager" where
  "manager_reorder w ids m = mutate_and_save w (\<lambda>c. map_sum id (Pair ()) (reorder_pairs ids c)) m"

definition migrate_from_config ::
  "outside \<Rightarrow> (string \<Rightarrow> string \<Rightarrow> string) \<Rightarrow> string \<Rightarrow> string \<Rightarrow> manager \<Rightarrow> bool result \<times> manager" where
  "migrate_from_config w legacy_id remote_path local_path m =
     (let m1 = loaded w m
      in if pc_pairs (the_collection m1) \<noteq> [] \<or> pm_disk m1 \<noteq> Missing then (Inr False, m1)
         else if remote_path = [] \<or> local_path = [] then (Inr False, m1)
         else if startswith remote_path ''<'' \<or> startswith local_path ''<'' then (Inr False, m1)
         else case new_path_pair (PStr remote_path) (PStr local_path) (PStr ''Default'')
                     (PStr (legacy_id remote_path local_path)) (PBool True) (PBool True) of
                Inl e \<Rightarrow> (Inl e, m1)
              | Inr p \<Rightarrow>
                  (let (r, m2) = mutate_and_save w (add_pair p) m1
                   in (map_sum id (\<lambda>_. True) r, m2)))"

section \<open>Valid collections\<close>

definition pair_ok :: "path_pair \<Rightarrow> bool" where
  "pair_ok p \<longleftrightarrow> validate p = Inr [] \<and> pp_name p \<noteq> PStr []"

definition coll_ok :: "collection \<Rightarrow> bool" where
  "coll_ok c \<longleftrightarrow> list_all pair_ok (pc_pairs c) \<and>
     distinct (map pp_id (pc_pairs c)) \<and> distinct (map pp_name (pc_pairs c))"

lemma validate_iff:
  "validate p = Inr ws \<longleftrightarrow> ws = [] \<and>
     (\<exists>n r l i e q. p = \<lparr>pp_remote_path = PStr r, pp_local_path = PStr l, pp_name = PStr n, pp_id = PStr i,
        pp_enabled = PBool e, pp_auto_queue = PBool q\<rparr> \<and> strip r \<noteq> [] \<and> strip l \<noteq> [] \<and> i \<noteq> [])"
  by (cases p) (auto simp: validate_def rbind_Inr_iff check_str_def check_text_def check_bool_def
      split: pyval.splits if_splits)

lemma validate_ok: "validate p = Inr ws \<Longrightarrow> ws = []"
  by (auto simp: validate_iff)

lemma pair_okE:
  assumes "pair_ok p"
  obtains n r l i e q where "p = \<lparr>pp_remote_path = PStr r, pp_local_path = PStr l, pp_name = PStr n,
      pp_id = PStr i, pp_enabled = PBool e, pp_auto_queue = PBool q\<rparr>"
    "n \<noteq> []" "strip r \<noteq> []" "strip l \<noteq> []" "i \<noteq> []"
  using assms by (auto simp: pair_ok_def validate_iff)

lemma default_name_nonempty: "default_name r \<noteq> []"
  by (simp add: default_name_def Let_def)

lemma new_path_pair_named:
  "new_path_pair r l n i e q = Inr p \<Longrightarrow> validate p = Inr ws \<Longrightarrow> pair_ok p"
  by (auto simp: new_path_pair_def pair_ok_def validate_iff default_name_nonempty Let_def
      split: pyval.splits if_splits)

lemma find_pair_None: "find (\<lambda>p. f p = k) ps = None \<longleftrightarrow> k \<notin> f ` set ps"
  by (auto simp: find_None_iff)

lemma update_loop_spec:
  assumes "update_loop p taken ps = Inr qs" "distinct (map pp_id ps)"
  shows "\<exists>xs x ys. ps = xs @ x # ys \<and> qs = xs @ p # ys \<and> pp_id x = pp_id p \<and> (taken \<longrightarrow> pp_name x = pp_name p)"
  using assms
proof (induction ps arbitrary: qs)
  case (Cons y ps)
  show ?case
  proof (cases "pp_id y = pp_id p")
    case True
    with Cons.prems show ?thesis by (intro exI[of _ "[]"]) (auto split: if_splits)
  next
    case False
    with Cons.prems obtain zs where zs: "update_loop p taken ps = Inr zs" "qs = y # zs"
      by (auto simp: rbind_Inr_iff)
    with Cons obtain xs x ys where "ps = xs @ x # ys" "zs = xs @ p # ys" "pp_id x = pp_id p"
      "taken \<longrightarrow> pp_name x = pp_name p" by auto
    with zs(2) show ?thesis by (intro exI[of _ "y # xs"]) auto
  qed
qed simp

lemma remove_loop_spec:
  "remove_loop i ps = Inr qs \<Longrightarrow> \<exists>xs x ys. ps = xs @ x # ys \<and> qs = xs @ ys \<and> pp_id x = i \<and> i \<notin> pp_id ` set xs"
proof (induction ps arbitrary: qs)
  case (Cons y ps)
  show ?case
  proof (cases "pp_id y = i")
    case True
    with Cons.prems show ?thesis by (intro exI[of _ "[]"]) auto
  next
    case False
    with Cons.prems obtain zs where zs: "remove_loop i ps = Inr zs" "qs = y # zs"
      by (auto simp: rbind_Inr_iff)
    with Cons.IH obtain xs x ys where "ps = xs @ x # ys" "zs = xs @ ys" "pp_id x = i" "i \<notin> pp_id ` set xs" by blast
    with zs(2) False show ?thesis by (intro exI[of _ "y # xs"]) auto
  qed
qed simp

lemma remove_loop_missing: "i \<notin> pp_id ` set ps \<Longrightarrow> remove_loop i ps = Inl (pair_error ''id not found'')"
  by (induction ps) auto

lemma update_loop_missing: "pp_id p \<notin> pp_id ` set ps \<Longrightarrow> update_loop p t ps = Inl (pair_error ''id not found'')"
  by (induction ps) auto

lemma add_pair_ok:
  assumes "coll_ok c" "pp_name p \<noteq> PStr []" "add_pair p c = Inr (ws, c')"
  shows "coll_ok c' \<and> pc_pairs c' = pc_pairs c @ [p] \<and> ws = []"
proof -
  have v: "validate p = Inr ws" "pp_id p \<notin> pp_id ` set (pc_pairs c)" "pp_name p \<notin> pp_name ` set (pc_pairs c)"
    "c' = c\<lparr>pc_pairs := pc_pairs c @ [p]\<rparr>"
    using assms(3) by (auto simp: add_pair_def rbind_Inr_iff get_pair_by_id_def get_pair_by_name_def
        find_pair_None split: if_splits)
  then have "pair_ok p" using assms(2) validate_ok[of p ws] by (simp add: pair_ok_def)
  with v assms(1) validate_ok[OF v(1)] show ?thesis by (simp add: coll_ok_def)
qed

lemma update_pair_ok:
  assumes "coll_ok c" "pp_name p \<noteq> PStr []" "update_pair p c = Inr (ws, c')"
  shows "coll_ok c' \<and> ws = [] \<and> (\<exists>xs x ys. pc_pairs c = xs @ x # ys \<and> pc_pairs c' = xs @ p # ys \<and> pp_id x = pp_id p)"
proof -
  obtain ps where v: "validate p = Inr ws" "c' = c\<lparr>pc_pairs := ps\<rparr>"
    and u: "update_loop p (get_pair_by_name (pp_name p) c \<noteq> None) (pc_pairs c) = Inr ps"
    using assms(3) by (auto simp: update_pair_def rbind_Inr_iff)
  obtain xs x ys where s: "pc_pairs c = xs @ x # ys" "ps = xs @ p # ys" "pp_id x = pp_id p"
    and n: "get_pair_by_name (pp_name p) c \<noteq> None \<longrightarrow> pp_name x = pp_name p"
    using update_loop_spec[OF u] assms(1) by (auto simp: coll_ok_def)
  have ok: "pair_ok p" "ws = []" using v(1) validate_ok[OF v(1)] assms(2) by (simp_all add: pair_ok_def)
  have "pp_name p \<notin> pp_name ` set (xs @ ys)"
  proof (cases "pp_name x = pp_name p")
    case True
    then show ?thesis using assms(1) s(1) by (auto simp: coll_ok_def)
  next
    case False
    with n s(1) show ?thesis unfolding get_pair_by_name_def find_pair_None by auto
  qed
  with ok s v(2) assms(1) show ?thesis by (auto simp: coll_ok_def)
qed

lemma remove_pair_ok:
  assumes "coll_ok c" "remove_pair i c = Inr c'"
  shows "coll_ok c' \<and> (\<exists>xs x ys. pc_pairs c = xs @ x # ys \<and> pc_pairs c' = xs @ ys \<and> pp_id x = i) \<and>
    get_pair_by_id i c' = None"
proof -
  obtain ps where ps: "remove_loop i (pc_pairs c) = Inr ps" "c' = c\<lparr>pc_pairs := ps\<rparr>"
    using assms(2) by (auto simp: remove_pair_def rbind_Inr_iff)
  obtain xs x ys where "pc_pairs c = xs @ x # ys" "ps = xs @ ys" "pp_id x = i"
    using remove_loop_spec[OF ps(1)] by blast
  with ps(2) assms(1) show ?thesis
    unfolding get_pair_by_id_def find_pair_None by (auto simp: coll_ok_def)
qed

text \<open>Reordering: the pairs are the same, in the order of the request.\<close>

lemma pairs_by_id_get:
  "distinct (map id_text ps) \<Longrightarrow> p \<in> set ps \<Longrightarrow> map_of (pairs_by_id ps) (id_text p) = Some p"
proof (induction ps rule: rev_induct)
  case (snoc q ps)
  then show ?case by (auto simp: pairs_by_id_def) (metis imageI)
qed simp

lemma pick_all_spec:
  assumes "distinct (map id_text ps)"
  shows "set ids \<subseteq> id_text ` set ps \<Longrightarrow>
    \<exists>qs. pick_all (pairs_by_id ps) ids = Inr qs \<and> map id_text qs = ids \<and> set qs \<subseteq> set ps"
proof (induction ids)
  case (Cons i ids)
  then obtain p where p: "p \<in> set ps" "id_text p = i" by auto
  then have "map_of (pairs_by_id ps) i = Some p" using pairs_by_id_get[OF assms] by auto
  with p Cons show ?case by auto
qed simp

lemma id_text_inj: "list_all pair_ok ps \<Longrightarrow> distinct (map pp_id ps) \<Longrightarrow> distinct (map id_text ps)"
proof -
  assume ok: "list_all pair_ok ps" and d: "distinct (map pp_id ps)"
  have "pp_id p = PStr (id_text p)" if "p \<in> set ps" for p
    using ok that by (auto simp: list_all_iff id_text_def elim!: pair_okE)
  then have "map pp_id ps = map PStr (map id_text ps)" by simp
  with d show ?thesis by (metis distinct_map)
qed

lemma reorder_pairs_ok:
  assumes "coll_ok c" "sort ids = sort (map id_text (pc_pairs c))"
  shows "\<exists>c'. reorder_pairs ids c = Inr c' \<and> coll_ok c' \<and> map id_text (pc_pairs c') = ids \<and>
    mset (pc_pairs c') = mset (pc_pairs c) \<and> pc_version c' = pc_version c"
proof -
  let ?ps = "pc_pairs c"
  have m: "mset ids = mset (map id_text ?ps)" using assms(2) by (metis mset_sort)
  have d: "distinct (map id_text ?ps)" using assms(1) by (simp add: coll_ok_def id_text_inj)
  have "set ids = id_text ` set ?ps" using m by (metis image_set set_mset_mset)
  then obtain qs where qs: "pick_all (pairs_by_id ?ps) ids = Inr qs" "map id_text qs = ids" "set qs \<subseteq> set ?ps"
    using pick_all_spec[OF d, of ids] by auto
  have "distinct ids" using m d by (metis mset_eq_imp_distinct_iff)
  then have dq: "distinct qs" using qs(2) by (metis distinct_map)
  have "length qs = length ?ps" using qs(2) m by (metis length_map mset_eq_length)
  then have "set qs = set ?ps"
    using dq d qs(3) by (metis card_subset_eq distinct_card distinct_map finite_set)
  then have mm: "mset qs = mset ?ps" using dq d by (metis distinct_map set_eq_iff_mset_eq_distinct)
  then have "mset (map pp_id qs) = mset (map pp_id ?ps)" "mset (map pp_name qs) = mset (map pp_name ?ps)"
    by simp_all
  then have "distinct (map pp_id qs)" "distinct (map pp_name qs)"
    using assms(1) unfolding coll_ok_def by (metis mset_eq_imp_distinct_iff)+
  with \<open>set qs = set ?ps\<close> assms(1) have "coll_ok (c\<lparr>pc_pairs := qs\<rparr>)"
    by (simp add: coll_ok_def list_all_iff)
  with qs mm assms(2) show ?thesis by (simp add: reorder_pairs_def)
qed

lemma reorder_pairs_error:
  "sort ids \<noteq> sort (map id_text (pc_pairs c)) \<Longrightarrow> \<exists>m. reorder_pairs ids c = Inl (pair_error m)"
  by (simp add: reorder_pairs_def)

section \<open>The stored document\<close>

lemma read_pair_doc: "pair_ok p \<Longrightarrow> read_pair fresh (pair_doc p) = Inr p"
  by (erule pair_okE)
    (simp add: read_pair_def pair_doc_def field_or_def is_str_def is_bool_def new_path_pair_def validate_def
      check_str_def check_text_def check_bool_def)

lemma read_pairs_doc: "list_all pair_ok ps \<Longrightarrow> read_pairs fresh n (map pair_doc ps) = Inr ps"
  by (induction ps arbitrary: n) (auto simp: read_pair_doc)

lemma collection_from_to_doc:
  "list_all pair_ok (pc_pairs c) \<Longrightarrow> collection_from_doc fresh (collection_to_doc c) = Inr c"
  by (simp add: collection_from_doc_def read_collection_def collection_to_doc_def field_or_def
      read_pairs_doc read_version_def)

lemma read_pairs_ok: "read_pairs fresh n vs = Inr ps \<Longrightarrow> list_all pair_ok ps"
proof (induction vs arbitrary: n ps)
  case (Cons v vs)
  then obtain p qs where p: "read_pair (fresh n) v = Inr p" "ps = p # qs" "list_all pair_ok qs"
    by (auto simp: rbind_Inr_iff)
  have "pair_ok p"
    using p(1) by (auto simp: read_pair_def Let_def rbind_Inr_iff new_path_pair_named split: pyval.splits if_splits)
  with p show ?case by simp
qed simp

lemma collection_from_doc_valid: "collection_from_doc fresh doc = Inr c \<Longrightarrow> list_all pair_ok (pc_pairs c)"
  by (auto simp: collection_from_doc_def read_collection_def rbind_Inr_iff
      split: sum.splits pyval.splits dest!: read_pairs_ok)

section \<open>The manager\<close>

lemma free_backup_spec: "i \<le> free_backup taken i \<and> free_backup taken i \<notin> set taken \<and>
    (\<forall>j. i \<le> j \<and> j < free_backup taken i \<longrightarrow> j \<in> set taken)"
proof (induction taken i rule: free_backup.induct)
  case (1 taken i)
  show ?case
  proof (cases "i \<in> set taken")
    case False
    then have "free_backup taken i = i" by (subst free_backup.simps) simp
    with False show ?thesis by auto
  next
    case True
    from 1 True have IH: "Suc i \<le> free_backup taken (Suc i)" "free_backup taken (Suc i) \<notin> set taken"
      "\<forall>j. Suc i \<le> j \<and> j < free_backup taken (Suc i) \<longrightarrow> j \<in> set taken" by auto
    have "free_backup taken i = free_backup taken (Suc i)" using True by (subst free_backup.simps) simp
    moreover have "j \<in> set taken" if "i \<le> j" "j < free_backup taken (Suc i)" for j
      using that IH(3) True by (cases "j = i") auto
    ultimately show ?thesis using IH(1,2) by simp
  qed
qed

lemma loaded_disk [simp]: "pm_disk (loaded w m) = pm_disk m"
  by (auto simp: loaded_def load_def backup_file_def split: disk_file.splits sum.splits)

lemma loaded_collection: "pm_collection (loaded w m) = Some (the_collection (loaded w m))"
  by (auto simp: loaded_def load_def the_collection_def split: disk_file.splits sum.splits option.splits)

lemma loaded_idem: "pm_collection m = Some c \<Longrightarrow> loaded w m = m"
  by (simp add: loaded_def)

text \<open>A change that fails, in its check or in the write, leaves the collection and the disk.\<close>

lemma mutate_and_save_fails:
  assumes "mutate_and_save w f m = (Inl e, m')"
  shows "m' = loaded w m"
proof -
  have "(loaded w m)\<lparr>pm_collection := Some (the_collection (loaded w m))\<rparr> = loaded w m"
    using loaded_collection[of w m] by (cases "loaded w m") simp
  with assms show ?thesis
    by (auto simp: mutate_and_save_def Let_def split: sum.splits prod.splits)
qed

text \<open>A change that succeeds is in memory and on disk.\<close>

lemma mutate_and_save_succeeds:
  assumes "mutate_and_save w f m = (Inr r, m')"
  obtains c where "f (the_collection (loaded w m)) = Inr (r, c)" "write_ok w"
    "m' = (loaded w m)\<lparr>pm_collection := Some c, pm_disk := Stored (collection_to_doc c)\<rparr>"
  using assms by (auto simp: mutate_and_save_def Let_def save_def split: sum.splits prod.splits if_splits)

definition manager_ok :: "manager \<Rightarrow> bool" where
  "manager_ok m \<longleftrightarrow>
     (case pm_disk m of
        Missing \<Rightarrow> pm_collection m = None \<or> pm_collection m = Some empty_collection
      | Unreadable \<Rightarrow> False
      | Stored doc \<Rightarrow>
          (\<exists>c. coll_ok c \<and> doc = collection_to_doc c \<and> (pm_collection m = None \<or> pm_collection m = Some c)))"

lemma empty_collection_ok: "coll_ok empty_collection"
  by (simp add: coll_ok_def empty_collection_def)

lemma loaded_ok:
  assumes "manager_ok m"
  shows "manager_ok (loaded w m) \<and> coll_ok (the_collection (loaded w m))"
proof (cases "pm_disk m")
  case Missing
  with assms show ?thesis
    by (auto simp: manager_ok_def loaded_def load_def the_collection_def empty_collection_ok)
next
  case (Stored doc)
  with assms obtain c where c: "coll_ok c" "doc = collection_to_doc c"
    "pm_collection m = None \<or> pm_collection m = Some c" by (auto simp: manager_ok_def)
  have "collection_from_doc (fresh_ids w) doc = Inr c"
    using c(1,2) by (simp add: collection_from_to_doc coll_ok_def)
  with Stored c have "pm_collection (loaded w m) = Some c" by (auto simp: loaded_def load_def)
  with Stored c show ?thesis by (auto simp: manager_ok_def the_collection_def)
qed (use assms in \<open>simp add: manager_ok_def\<close>)

lemma mutate_and_save_ok:
  assumes "manager_ok m" "\<And>r c c'. coll_ok c \<Longrightarrow> f c = Inr (r, c') \<Longrightarrow> coll_ok c'"
  shows "manager_ok (snd (mutate_and_save w f m))"
proof (cases "mutate_and_save w f m")
  case (Pair x m')
  show ?thesis
  proof (cases x)
    case (Inl e)
    with Pair mutate_and_save_fails have "m' = loaded w m" by metis
    with Pair assms(1) loaded_ok show ?thesis by simp
  next
    case (Inr r)
    obtain c where c: "f (the_collection (loaded w m)) = Inr (r, c)"
      "m' = (loaded w m)\<lparr>pm_collection := Some c, pm_disk := Stored (collection_to_doc c)\<rparr>"
      by (rule mutate_and_save_succeeds[of w f m r m']) (use Pair Inr in simp_all)
    have "coll_ok c" by (rule assms(2)[OF _ c(1)]) (use assms(1) loaded_ok in simp)
    with c(2) Pair show ?thesis by (auto simp: manager_ok_def)
  qed
qed

text \<open>A caller's request, and what becomes of the manager; \<open>restart\<close> forgets what is in memory.\<close>

inductive manager_step :: "manager \<Rightarrow> manager \<Rightarrow> bool" where
  step_add: "new_path_pair r l n i e q = Inr p \<Longrightarrow>
     manager_step m (snd (manager_add w p m))"
| step_update: "new_path_pair r l n i e q = Inr p \<Longrightarrow>
     manager_step m (snd (manager_update w p m))"
| step_remove: "manager_step m (snd (manager_remove w i m))"
| step_reorder: "manager_step m (snd (manager_reorder w ids m))"
| step_migrate: "manager_step m (snd (migrate_from_config w legacy_id r l m))"
| step_load: "manager_step m (load w m)"
| step_restart: "manager_step m (m\<lparr>pm_collection := None\<rparr>)"

lemma reorder_keeps:
  assumes "coll_ok c" "reorder_pairs ids c = Inr c'"
  shows "coll_ok c'"
proof -
  have "sort ids = sort (map id_text (pc_pairs c))" using assms(2) by (auto simp: reorder_pairs_def split: if_splits)
  from reorder_pairs_ok[OF assms(1) this] assms(2) show ?thesis by auto
qed

lemma add_step_ok:
  "manager_ok m \<Longrightarrow> pp_name p \<noteq> PStr [] \<Longrightarrow> manager_ok (snd (mutate_and_save w (add_pair p) m))"
  by (rule mutate_and_save_ok) (use add_pair_ok in blast)+

lemma migrate_ok:
  assumes "manager_ok m"
  shows "manager_ok (snd (migrate_from_config w legacy_id r l m))"
proof -
  let ?p = "\<lparr>pp_remote_path = PStr r, pp_local_path = PStr l, pp_name = PStr ''Default'',
    pp_id = PStr (legacy_id r l), pp_enabled = PBool True, pp_auto_queue = PBool True\<rparr>"
  have "manager_ok (loaded w m)" using assms by (simp add: loaded_ok)
  moreover from this have "manager_ok (snd (mutate_and_save w (add_pair ?p) (loaded w m)))"
    by (rule add_step_ok) simp
  ultimately show ?thesis
    by (simp add: migrate_from_config_def Let_def new_path_pair_def split_beta)
qed

text \<open>A constructed pair has a name once it is valid, so the collection stays valid.\<close>

lemma add_constructed:
  assumes "new_path_pair r l n i e q = Inr p" "coll_ok c" "add_pair p c = Inr (ws, c')"
  shows "coll_ok c'"
proof -
  have "validate p = Inr ws" using assms(3) by (auto simp: add_pair_def rbind_Inr_iff split: if_splits)
  with new_path_pair_named[OF assms(1)] add_pair_ok[OF assms(2) _ assms(3)] show ?thesis
    by (simp add: pair_ok_def)
qed

lemma update_constructed:
  assumes "new_path_pair r l n i e q = Inr p" "coll_ok c" "update_pair p c = Inr (ws, c')"
  shows "coll_ok c'"
proof -
  have "validate p = Inr ws" using assms(3) by (auto simp: update_pair_def rbind_Inr_iff)
  with new_path_pair_named[OF assms(1)] update_pair_ok[OF assms(2) _ assms(3)] show ?thesis
    by (simp add: pair_ok_def)
qed

lemma manager_step_ok: "manager_step m m' \<Longrightarrow> manager_ok m \<Longrightarrow> manager_ok m'"
proof (induction rule: manager_step.induct)
  case (step_add r l n i e q p m w)
  show ?case unfolding manager_add_def
    by (rule mutate_and_save_ok[OF step_add.prems]) (rule add_constructed[OF step_add.hyps])
next
  case (step_update r l n i e q p m w)
  show ?case unfolding manager_update_def
    by (rule mutate_and_save_ok[OF step_update.prems]) (rule update_constructed[OF step_update.hyps])
next
  case (step_remove m w i)
  show ?case unfolding manager_remove_def
    by (rule mutate_and_save_ok[OF step_remove])
      (auto simp: map_sum_def split: sum.splits dest: remove_pair_ok)
next
  case (step_reorder m w ids)
  show ?case unfolding manager_reorder_def
    by (rule mutate_and_save_ok[OF step_reorder])
      (auto simp: map_sum_def split: sum.splits dest: reorder_keeps)
next
  case (step_migrate m w legacy_id r l)
  then show ?case by (rule migrate_ok)
next
  case (step_load m w)
  have "load w m = loaded w (m\<lparr>pm_collection := None\<rparr>)"
    by (auto simp: loaded_def load_def backup_file_def split: disk_file.splits sum.splits)
  moreover have "manager_ok (m\<lparr>pm_collection := None\<rparr>)"
    using step_load by (auto simp: manager_ok_def split: disk_file.splits)
  ultimately show ?case by (simp add: loaded_ok)
next
  case (step_restart m)
  then show ?case by (auto simp: manager_ok_def split: disk_file.splits)
qed

definition new_install :: "manager \<Rightarrow> bool" where
  "new_install m \<longleftrightarrow> pm_collection m = None \<and> pm_disk m = Missing"

interpretation path_pair_machine: invariant_system new_install manager_step manager_ok
proof unfold_locales
  fix m :: manager
  show "new_install m \<Longrightarrow> manager_ok m" by (simp add: new_install_def manager_ok_def)
qed (rule manager_step_ok)

end
