(* ===== verification/Persist_Properties.thy ===== *)
theory Persist_Properties
  imports Controller_Persist Path_Pairs
begin

text \<open>The properties of the persisted state: controller markers, their keys, and path pairs.\<close>

section \<open>Keys\<close>

text \<open>The name is recovered from a persisted key, for the default pair and for every other one.\<close>

theorem persist_key_round_trip: "strip_persist_key (persist_key pair_id name) pair_id = name"
  by (rule strip_persist_key_inverse)

section \<open>Controller markers\<close>

definition sample_persist :: controller_persist where
  "sample_persist = \<lparr>cp_downloaded = {''a.mkv'', ''pair'' @ [KEY_SEP] @ ''b''}, cp_timestamps = [(''a.mkv'', 3/2)],
     cp_extracted = {}, cp_stopped = {''[x'', ''a.mkv''}, cp_move_failures = [(''a.mkv'', 2), (''pair'' @ [KEY_SEP] @ ''b'', 4)],
     cp_final_moved = {''a.mkv''}, cp_resume_sources = [(''a.mkv'', 100, 7)],
     cp_floors = [(''a.mkv'', 50, 50, 100, 7, 60)], cp_phase = 0\<rparr>"

lemma sample_persist_ok: "persist_ok sample_persist"
  by code_simp

text \<open>C9. What the controller stores is what it reads: the document of a valid state reads back to that
  state, with every marker, count, timestamp, resume source and progress floor.\<close>

theorem controller_persist_round_trip:
  assumes "persist_ok p" "finite (cp_downloaded p)" "finite (cp_extracted p)" "finite (cp_stopped p)"
    "finite (cp_final_moved p)"
  shows "persist_from_doc (persist_to_doc p) = Inr p"
  by (rule persist_from_to_doc[OF assms])

theorem controller_persist_round_trip_witness:
  "persist_from_doc (persist_to_doc sample_persist) = Inr sample_persist"
  by (rule controller_persist_round_trip[OF sample_persist_ok]) (simp_all add: sample_persist_def)

text \<open>Whatever document is read, an accepted state is valid: failure counts are between 0 and 4 under
  non-empty names, timestamps are not negative, resume sources and progress floors sit under
  canonical identities with their numbers in range and never at a terminal percentage, and the
  migration phase is 0, 1 or 2.\<close>

theorem accepted_persist_is_valid:
  assumes "persist_from_doc doc = Inr p"
  shows "list_all (\<lambda>(k, n). k \<noteq> [] \<and> 0 \<le> n \<and> n \<le> 4) (cp_move_failures p) \<and>
    list_all (\<lambda>(k, q). 0 \<le> q) (cp_timestamps p) \<and>
    list_all (\<lambda>(k, sz, mtime). canonical_resume_source_id k = Some k \<and> 0 \<le> sz \<and> 0 \<le> mtime) (cp_resume_sources p) \<and>
    list_all (\<lambda>(k, b, pc, sz, mtime, sub). canonical_resume_source_id k = Some k \<and> 0 < b \<and> b < sz \<and>
      0 \<le> pc \<and> pc \<le> 99 \<and> 0 < sub \<and> sub \<le> sz) (cp_floors p) \<and>
    (cp_phase p = 0 \<or> cp_phase p = 1 \<or> cp_phase p = 2)"
proof -
  have ok: "persist_ok p" by (rule persist_from_doc_ok[OF assms])
  have "list_all (\<lambda>(k, b, pc, sz, mtime, sub). canonical_resume_source_id k = Some k \<and> 0 < b \<and> b < sz \<and>
      0 \<le> pc \<and> pc \<le> 99 \<and> 0 < sub \<and> sub \<le> sz) (cp_floors p)"
    using ok by (auto simp: persist_ok_def resume_key_ok_def floor_ok_def elim!: list.pred_mono_strong)
  with ok show ?thesis unfolding persist_ok_def resume_key_ok_def by blast
qed

theorem accepted_persist_is_valid_witness:
  "\<exists>p. persist_from_doc (persist_to_doc sample_persist) = Inr p \<and>
    list_all (\<lambda>(k, n). k \<noteq> [] \<and> 0 \<le> n \<and> n \<le> 4) (cp_move_failures p)"
proof -
  have "persist_from_doc (persist_to_doc sample_persist) = Inr sample_persist"
    by (rule persist_from_to_doc[OF sample_persist_ok]) (simp_all add: sample_persist_def)
  with accepted_persist_is_valid[OF this] show ?thesis by blast
qed

text \<open>C6. The migration of legacy keys in two phases, with a save after each, ends where a single
  conversion of every key would: canonical keys only, in each of the four sets the converted keys, the
  largest failure count of all spellings of a key, and the timestamp stored under the canonical key when
  there is one, else that of its first spelling. The state after the first phase, which an interruption
  may leave on disk, has in every set and dictionary each old key beside the converted ones, with no
  count lowered. Neither phase touches the resume sources and the floors; a third call changes nothing.\<close>

theorem migration_is_one_conversion:
  assumes "cp_phase p = 0" "dict_ok (cp_move_failures p)" "dict_ok (cp_timestamps p)"
    and "canonicalize_file_identities d p = (w1, p1)" "canonicalize_file_identities d p1 = (w2, p2)"
  shows "w1 \<and> w2 \<and> merged d p p1 \<and> migrated d p p2 \<and>
    (\<forall>k. top_count d (cp_move_failures p) k (get_count (cp_move_failures p2) k)) \<and>
    dict_get (cp_timestamps p2) = stamp_of d (cp_timestamps p) \<and>
    canonicalize_file_identities d p2 = (False, p2)"
proof -
  have m: "migrated d p p2" "w1" "w2" "canonicalize_file_identities d p2 = (False, p2)"
    using migration_phases[OF assms(1-3), of d] assms(4,5) by simp_all
  have "top_count d (cp_move_failures p) k (get_count (cp_move_failures p2) k)" for k
    using canonicalize_counts_top[of d "cp_move_failures p" k] m(1) by (simp add: migrated_def get_count_def)
  moreover have "dict_get (cp_timestamps p2) = stamp_of d (cp_timestamps p)"
    using map_of_canonicalize_timestamps[OF assms(3)] m(1) by (simp add: migrated_def fun_eq_iff)
  ultimately show ?thesis using m phase_one_merges[OF assms(1), of d] assms(4) by simp
qed

theorem migration_is_one_conversion_witness:
  "cp_downloaded (snd (canonicalize_file_identities (Some ''dflt'')
     (snd (canonicalize_file_identities (Some ''dflt'') sample_persist)))) =
   canonicalize_set (Some ''dflt'') (cp_downloaded sample_persist)"
proof -
  let ?p1 = "snd (canonicalize_file_identities (Some ''dflt'') sample_persist)"
  have "cp_phase sample_persist = 0" "dict_ok (cp_move_failures sample_persist)" "dict_ok (cp_timestamps sample_persist)"
    by (simp_all add: sample_persist_def)
  from migration_is_one_conversion[OF this prod.collapse[symmetric] prod.collapse[symmetric], of "Some ''dflt''"]
  show ?thesis by (simp add: migrated_def)
qed

text \<open>Every canonical key is a fixed point of the conversion, whatever the default pair is.\<close>

theorem canonical_keys_are_fixed_points:
  assumes "canonical_file_id d key = Some k"
  shows "canonical_file_id d' k = Some k"
  by (rule canonical_file_id_idem[OF assms])

theorem canonical_keys_are_fixed_points_witness:
  "canonical_file_id None (build_file_id ''b'' (Some ''pair'')) = Some (build_file_id ''b'' (Some ''pair''))"
proof -
  have "canonical_file_id (Some ''x'') (''pair'' @ [KEY_SEP] @ ''b'') = Some (build_file_id ''b'' (Some ''pair''))"
    by code_simp
  then show ?thesis by (rule canonical_keys_are_fixed_points)
qed

text \<open>C40. A timestamp that is an integer too large for a \<open>float\<close> makes the reader raise
  \<open>OverflowError\<close>, which it does not turn into the \<open>PersistError\<close> its callers handle.\<close>

theorem huge_timestamp_escapes:
  assumes "2 ^ 1025 \<le> n"
  shows "persist_from_doc (PDict [(''downloaded'', PList []), (''downloaded_timestamps'', PDict [(k, PInt n)]),
           (''extracted'', PList [])]) = Inl OverflowError"
  by (rule persist_from_doc_overflow[OF assms])

theorem huge_timestamp_escapes_witness:
  "persist_from_doc (PDict [(''downloaded'', PList []), (''downloaded_timestamps'', PDict [(''a'', PInt (2 ^ 1025))]),
     (''extracted'', PList [])]) = Inl OverflowError"
  by (rule huge_timestamp_escapes) simp

section \<open>Path pairs\<close>

definition sample_outside :: outside where
  "sample_outside = \<lparr>fresh_ids = (\<lambda>n. ''fresh''), copy_ok = True, write_ok = True\<rparr>"

definition sample_pair :: "string \<Rightarrow> string \<Rightarrow> path_pair" where
  "sample_pair n i = \<lparr>pp_remote_path = PStr ''/seed/tv'', pp_local_path = PStr ''/data'', pp_name = PStr n,
     pp_id = PStr i, pp_enabled = PBool True, pp_auto_queue = PBool False\<rparr>"

definition fresh_manager :: manager where
  "fresh_manager = \<lparr>pm_collection = None, pm_disk = Missing, pm_backups = []\<rparr>"

definition one_pair :: manager where
  "one_pair = snd (manager_add sample_outside (sample_pair ''TV'' ''1'') fresh_manager)"

lemma one_pair_step: "manager_step fresh_manager one_pair"
proof -
  have "new_path_pair (PStr ''/seed/tv'') (PStr ''/data'') (PStr ''TV'') (PStr ''1'') (PBool True) (PBool False) =
      Inr (sample_pair ''TV'' ''1'')" by (simp add: new_path_pair_def sample_pair_def)
  then show ?thesis unfolding one_pair_def by (rule step_add)
qed

text \<open>C4. From a fresh installation on, through any sequence of requests, reloads and restarts, with
  writes failing at any point, the manager never holds two pairs with one identifier or one name, and
  what is in memory is what the file on disk reads back to.\<close>

theorem path_pairs_stay_consistent:
  assumes "pm_collection m0 = None" "pm_disk m0 = Missing" "rtranclp manager_step m0 m"
  shows "(\<forall>c. pm_collection m = Some c \<longrightarrow> distinct (map pp_id (pc_pairs c)) \<and> distinct (map pp_name (pc_pairs c))) \<and>
    (\<forall>c doc. pm_collection m = Some c \<and> pm_disk m = Stored doc \<longrightarrow> (\<forall>fresh. collection_from_doc fresh doc = Inr c))"
proof -
  have ok: "manager_ok m"
    by (rule path_pair_machine.reachable_inv[OF _ assms(3)]) (use assms(1,2) in \<open>simp add: new_install_def\<close>)
  have mem: "coll_ok c" if "pm_collection m = Some c" for c
    using ok that empty_collection_ok by (auto simp: manager_ok_def split: disk_file.splits)
  moreover have "collection_from_doc fresh doc = Inr c" if "pm_collection m = Some c" "pm_disk m = Stored doc" for c doc fresh
  proof -
    have "doc = collection_to_doc c" using ok that by (auto simp: manager_ok_def)
    then show ?thesis using mem[OF that(1)] by (simp add: collection_from_to_doc coll_ok_def)
  qed
  ultimately show ?thesis by (simp add: coll_ok_def)
qed

theorem path_pairs_stay_consistent_witness:
  "\<exists>c doc. pm_collection one_pair = Some c \<and> pm_disk one_pair = Stored doc \<and> collection_from_doc (\<lambda>n. []) doc = Inr c"
proof -
  obtain c doc where c: "pm_collection one_pair = Some c" "pm_disk one_pair = Stored doc"
    by (simp add: one_pair_def manager_add_def mutate_and_save_def loaded_def load_def fresh_manager_def
        the_collection_def empty_collection_def add_pair_def validate_def check_str_def check_text_def check_bool_def
        sample_pair_def get_pair_by_id_def get_pair_by_name_def save_def sample_outside_def strip_def rstrip_by_def
        is_space_def code_of_def Let_def)
  with path_pairs_stay_consistent[of fresh_manager one_pair] one_pair_step show ?thesis
    by (auto simp: fresh_manager_def)
qed

text \<open>A request that fails, because the collection refuses it or because the file cannot be written,
  leaves the pairs in memory and the file on disk as they were.\<close>

theorem failed_request_changes_nothing:
  assumes "mutate_and_save w f m = (Inl e, m')" "pm_collection m = Some c"
  shows "m' = m"
  using mutate_and_save_fails[OF assms(1)] loaded_idem[OF assms(2)] by simp

theorem failed_request_changes_nothing_witness:
  "snd (manager_add sample_outside (sample_pair ''TV'' ''1'') one_pair) = one_pair"
proof -
  have "fst (manager_add sample_outside (sample_pair ''TV'' ''1'') one_pair) = Inl (pair_error ''id already exists'')"
    by code_simp
  then have "mutate_and_save sample_outside (add_pair (sample_pair ''TV'' ''1'')) one_pair =
      (Inl (pair_error ''id already exists''), snd (manager_add sample_outside (sample_pair ''TV'' ''1'') one_pair))"
    by (metis manager_add_def prod.collapse)
  moreover have "pm_collection one_pair = Some \<lparr>pc_pairs = [sample_pair ''TV'' ''1''], pc_version = 1\<rparr>" by code_simp
  ultimately show ?thesis by (rule failed_request_changes_nothing)
qed

text \<open>A reorder request that names every pair once yields a permutation of the pairs in exactly the
  requested order.\<close>

theorem reorder_is_a_permutation:
  assumes "coll_ok c" "sort ids = sort (map id_text (pc_pairs c))"
  shows "\<exists>c'. reorder_pairs ids c = Inr c' \<and> map id_text (pc_pairs c') = ids \<and>
    mset (pc_pairs c') = mset (pc_pairs c) \<and> coll_ok c'"
  using reorder_pairs_ok[OF assms] by blast

definition two_pairs :: collection where
  "two_pairs = \<lparr>pc_pairs = [sample_pair ''TV'' ''1'', sample_pair ''Films'' ''2''], pc_version = 1\<rparr>"

theorem reorder_is_a_permutation_witness:
  "\<exists>c'. reorder_pairs [''2'', ''1''] two_pairs = Inr c' \<and> map id_text (pc_pairs c') = [''2'', ''1'']"
proof -
  have ok: "coll_ok two_pairs" by code_simp
  have "map id_text (pc_pairs two_pairs) = [''1'', ''2'']" by code_simp
  then have "sort [''2'', ''1''] = sort (map id_text (pc_pairs two_pairs))"
    by (intro properties_for_sort) simp_all
  from reorder_is_a_permutation[OF ok this] show ?thesis by (elim exE conjE) (intro exI conjI)
qed

text \<open>C36. The search for a backup name ends: it finds the first number that no earlier backup has, so a
  backup overwrites nothing.\<close>

theorem backup_number_is_the_first_free:
  "\<exists>n. backup_file True m = m\<lparr>pm_backups := pm_backups m @ [n]\<rparr> \<and> 1 \<le> n \<and> n \<notin> set (pm_backups m) \<and>
    {1..<n} \<subseteq> set (pm_backups m)"
  using free_backup_spec[of 1 "pm_backups m"]
  by (intro exI[of _ "free_backup (pm_backups m) 1"]) (auto simp: backup_file_def)

end
