(* ===== verification/Py_Text.thy ===== *)
theory Py_Text
  imports Prelude
begin

text \<open>
  Further text operations of Python the sources call: decimal numerals, \<open>str.splitlines\<close>,
  and the parts of \<open>posixpath\<close> that take a path apart.
\<close>

section \<open>Decimal numerals\<close>

text \<open>\<open>\d\<close> of a regular expression and the digits \<open>int\<close> reads are, on the code points of the
  model, the ten ASCII digits.\<close>

definition is_digit :: "char \<Rightarrow> bool" where
  "is_digit c = (48 \<le> code_of c \<and> code_of c \<le> 57)"

definition decimal_value :: "string \<Rightarrow> int" where
  "decimal_value s = foldl (\<lambda>a c. 10 * a + (int (code_of c) - 48)) 0 s"

text \<open>\<open>int(text)\<close> refuses more than 4300 digits with a \<open>ValueError\<close>.\<close>

definition MAX_STR_DIGITS :: nat where "MAX_STR_DIGITS = 4300"

definition int_of_digits :: "string \<Rightarrow> int option" where
  "int_of_digits s = (if length s \<le> MAX_STR_DIGITS then Some (decimal_value s) else None)"

text \<open>\<open>str(n)\<close> of a number that is not negative.\<close>

fun dec_text :: "nat \<Rightarrow> string" where
  "dec_text n = (if n < 10 then [] else dec_text (n div 10)) @ [char_of (48 + n mod 10)]"

declare dec_text.simps [simp del]

lemma dec_text_length: "n < 10 ^ Suc k \<Longrightarrow> length (dec_text n) \<le> Suc k"
proof (induction k arbitrary: n)
  case (Suc k)
  then have "n div 10 < 10 ^ Suc k" by (simp add: less_mult_imp_div_less)
  with Suc.IH[of "n div 10"] show ?case by (subst dec_text.simps) simp
qed (simp add: dec_text.simps)

lemma code_of_digit: "d < 10 \<Longrightarrow> code_of (char_of (48 + d)) = 48 + d"
  by (simp add: code_of_def)

lemma decimal_value_snoc [simp]:
  "decimal_value [] = 0"
  "decimal_value (s @ [c]) = 10 * decimal_value s + (int (code_of c) - 48)"
  by (simp_all add: decimal_value_def)

lemma dec_text_digits: "list_all is_digit (dec_text n)"
  by (induction n rule: dec_text.induct) (subst dec_text.simps, simp add: is_digit_def[of "char_of _"] code_of_digit less_Suc_eq_le[symmetric])

lemma dec_text_nonempty [simp]: "dec_text n \<noteq> []"
  by (subst dec_text.simps) simp

lemma decimal_value_dec_text [simp]: "decimal_value (dec_text n) = int n"
proof (induction n rule: dec_text.induct)
  case (1 n)
  show ?case
  proof (cases "n < 10")
    case True
    then show ?thesis
      using decimal_value_snoc(2)[of "[]"] by (subst dec_text.simps) (simp add: code_of_digit)
  next
    case False
    then show ?thesis
      using 1 by (subst dec_text.simps) (simp add: code_of_digit zdiv_int zmod_int)
  qed
qed

lemma decimal_value_nonneg: "list_all is_digit s \<Longrightarrow> 0 \<le> decimal_value s"
  by (induction s rule: rev_induct) (auto simp: is_digit_def)

lemma int_of_digits_nonneg: "int_of_digits s = Some n \<Longrightarrow> list_all is_digit s \<Longrightarrow> 0 \<le> n"
  by (auto simp: int_of_digits_def decimal_value_nonneg split: if_splits)

section \<open>Lines\<close>

text \<open>\<open>str.splitlines()\<close>: a line ends at a line feed, a carriage return, both, or one of the other
  boundaries; a final boundary starts no further line.\<close>

definition line_break :: "char \<Rightarrow> bool" where
  "line_break c = (let n = code_of c in (10 \<le> n \<and> n \<le> 13) \<or> (28 \<le> n \<and> n \<le> 30) \<or> n = 133)"

definition drop_break :: "string \<Rightarrow> string" where
  "drop_break s =
     (case s of [] \<Rightarrow> []
      | c # r \<Rightarrow> if c = CHR 0x0D then (case r of [] \<Rightarrow> [] | d # q \<Rightarrow> if d = CHR 0x0A then q else r) else r)"

lemma drop_break_length: "length (drop_break s) \<le> length s - 1"
  by (auto simp: drop_break_def split: list.splits)

function splitlines :: "string \<Rightarrow> string list" where
  "splitlines s =
     (if s = [] then []
      else takeWhile (\<lambda>c. \<not> line_break c) s #
        splitlines (drop_break (dropWhile (\<lambda>c. \<not> line_break c) s)))"
  by pat_completeness auto
termination
proof (relation "measure length")
  fix s :: string assume "s \<noteq> []"
  then show "(drop_break (dropWhile (\<lambda>c. \<not> line_break c) s), s) \<in> measure length"
    using drop_break_length[of "dropWhile (\<lambda>c. \<not> line_break c) s"]
      length_dropWhile_le[of "\<lambda>c. \<not> line_break c" s]
    by (simp add: \<open>s \<noteq> []\<close> order_le_less_trans[of _ "length s - 1"])
qed simp

declare splitlines.simps [simp del]

lemma splitlines_Nil [simp]: "splitlines [] = []"
  by (subst splitlines.simps) simp

lemma splitlines_line:
  "list_all (\<lambda>c. \<not> line_break c) l \<Longrightarrow> splitlines (l @ CHR 0x0A # s) = l # splitlines s"
proof (subst splitlines.simps)
  assume l: "list_all (\<lambda>c. \<not> line_break c) l"
  have b: "line_break (CHR 0x0A)" by (simp add: line_break_def code_of_def)
  have "takeWhile (\<lambda>c. \<not> line_break c) (l @ CHR 0x0A # s) = l"
    "dropWhile (\<lambda>c. \<not> line_break c) (l @ CHR 0x0A # s) = CHR 0x0A # s"
    using l b by (simp_all add: list_all_iff takeWhile_append dropWhile_append)
  then show "(if l @ CHR 0x0A # s = [] then []
      else takeWhile (\<lambda>c. \<not> line_break c) (l @ CHR 0x0A # s) #
        splitlines (drop_break (dropWhile (\<lambda>c. \<not> line_break c) (l @ CHR 0x0A # s)))) = l # splitlines s"
    by (simp add: drop_break_def)
qed

lemma splitlines_unlines:
  "\<forall>l\<in>set ls. list_all (\<lambda>c. \<not> line_break c) l \<Longrightarrow>
   splitlines (concat (map (\<lambda>l. l @ ''\<newline>'') ls)) = ls"
  by (induction ls) (simp_all add: splitlines_line)

lemma strip_plain: "list_all (\<lambda>c. \<not> is_space c) s \<Longrightarrow> strip s = s"
proof -
  assume s: "list_all (\<lambda>c. \<not> is_space c) s"
  then have "dropWhile is_space s = s" "dropWhile is_space (rev s) = rev s"
    by (auto simp: dropWhile_eq_self_iff list_all_iff hd_rev)
  then show ?thesis by (simp add: strip_def rstrip_by_def)
qed

lemma digit_not_space: "is_digit c \<Longrightarrow> \<not> is_space c \<and> \<not> line_break c"
  by (auto simp: is_digit_def is_space_def line_break_def Let_def)

section \<open>Size in UTF-8\<close>

definition utf8_length :: "string \<Rightarrow> nat" where
  "utf8_length s = sum_list (map (\<lambda>c. if code_of c < 128 then 1 else 2) s)"

section \<open>posixpath\<close>

definition basename :: "string \<Rightarrow> string" where
  "basename p = rev (takeWhile (\<lambda>c. c \<noteq> CHR ''/'') (rev p))"

text \<open>\<open>posixpath.dirname\<close>: what is before the last slash, without trailing slashes unless it is
  nothing but slashes.\<close>

definition dirname :: "string \<Rightarrow> string" where
  "dirname p =
     (let h = rev (dropWhile (\<lambda>c. c \<noteq> CHR ''/'') (rev p))
      in if h \<noteq> [] \<and> \<not> list_all (\<lambda>c. c = CHR ''/'') h then rstrip_char (CHR ''/'') h else h)"

text \<open>\<open>os.path.splitext\<close>: the extension starts at the last dot of the last component, unless only
  dots stand before it there.\<close>

definition splitext :: "string \<Rightarrow> string \<times> string" where
  "splitext p =
     (let b = basename p;
          ext = rev (takeWhile (\<lambda>c. c \<noteq> CHR ''.'') (rev b));
          stem = take (length b - length ext - 1) b
      in if CHR ''.'' \<in> set b \<and> \<not> list_all (\<lambda>c. c = CHR ''.'') stem
         then (take (length p - length ext - 1) p, CHR ''.'' # ext) else (p, []))"

text \<open>\<open>posixpath.normpath\<close>.\<close>

definition norm_step :: "bool \<Rightarrow> string list \<Rightarrow> string \<Rightarrow> string list" where
  "norm_step rooted comps c =
     (if c = [] \<or> c = ''.'' then comps
      else if c \<noteq> ''..'' \<or> (\<not> rooted \<and> comps = []) \<or> (comps \<noteq> [] \<and> last comps = ''..'') then comps @ [c]
      else butlast comps)"

fun join_with :: "string \<Rightarrow> string list \<Rightarrow> string" where
  "join_with sep [] = []"
| "join_with sep [w] = w"
| "join_with sep (w # v # ws) = w @ sep @ join_with sep (v # ws)"

definition normpath :: "string \<Rightarrow> string" where
  "normpath p =
     (if p = [] then ''.''
      else let n = (if startswith p ''//'' \<and> \<not> startswith p ''///'' then 2 else if startswith p ''/'' then 1 else 0 :: nat);
               q = replicate n (CHR ''/'') @ join_with ''/'' (foldl (norm_step (n \<noteq> 0)) [] (split_on (CHR ''/'') p))
           in if q = [] then ''.'' else q)"

section \<open>Case\<close>

text \<open>\<open>str.casefold\<close>, for comparing texts: the sharp s is two letters, and the micro sign, whose fold is
  a letter outside the range of the model, stands for itself.\<close>

definition casefold :: "string \<Rightarrow> string" where
  "casefold s = concat (map (\<lambda>c. if code_of c = 223 then ''ss'' else [lower_char c]) s)"

section \<open>Taking an extension off\<close>

lemma splitext_append: "splitext p = (r, e) \<Longrightarrow> p = r @ e"
proof -
  assume e: "splitext p = (r, e)"
  let ?b = "basename p" and ?x = "rev (takeWhile (\<lambda>c. c \<noteq> CHR ''.'') (rev (basename p)))"
  show "p = r @ e"
  proof (cases "CHR ''.'' \<in> set ?b")
    case True
    then have "dropWhile (\<lambda>c. c \<noteq> CHR ''.'') (rev ?b) \<noteq> []" by simp
    then obtain y where "dropWhile (\<lambda>c. c \<noteq> CHR ''.'') (rev ?b) = CHR ''.'' # y"
      using hd_dropWhile[of "\<lambda>c. c \<noteq> CHR ''.''" "rev ?b"] by (cases "dropWhile (\<lambda>c. c \<noteq> CHR ''.'') (rev ?b)") auto
    then have b: "?b = rev y @ CHR ''.'' # ?x"
      using arg_cong[OF takeWhile_dropWhile_id[of "\<lambda>c. c \<noteq> CHR ''.''" "rev ?b"], of rev] by simp
    obtain q where p: "p = q @ ?b"
      unfolding basename_def by (metis rev_append rev_rev_ident takeWhile_dropWhile_id)
    have split: "p = (q @ rev y) @ CHR ''.'' # ?x" using p b by simp
    have "length p = length (q @ rev y) + Suc (length ?x)"
      using arg_cong[OF split, of length] by simp
    then have "take (length p - length ?x - 1) p = take (length (q @ rev y)) p" by simp
    also have "\<dots> = q @ rev y"
      using arg_cong[OF split, of "take (length (q @ rev y))"] by simp
    finally have "take (length p - length ?x - 1) p = q @ rev y" .
    with split e show ?thesis
      unfolding splitext_def Let_def by (auto split: if_splits)
  next
    case False
    with e show ?thesis by (simp add: splitext_def Let_def)
  qed
qed

end
