(* ===== verification/Lftp_Status.thy ===== *)
theory Lftp_Status
  imports Py_Text
begin

text \<open>
  \<open>common/lftp_status.py\<close>: the parser of the sidecar file LFTP keeps beside a file it fetches in
  segments, from which the scanners and the queue learn how much of the file is really there.

  The sidecar names the size of the file and, for every segment, the position it has reached and the
  limit it runs to; the bytes between them are still missing. The main lemma is that the size the
  parser reports is the number of bytes outside every such hole.
\<close>

section \<open>Definitions\<close>

definition MAX_LFTP_PGET_STATUS_BYTES :: nat where "MAX_LFTP_PGET_STATUS_BYTES = 64 * 1024"

definition MAX_LFTP_PGET_SEGMENTS :: nat where "MAX_LFTP_PGET_SEGMENTS = 256"

record lftp_pget_status =
  ps_total_size :: int
  ps_covered_size :: int
  ps_base_only :: bool

text \<open>The three patterns, as \<open>re.fullmatch\<close> applies them; each returns its groups.\<close>

definition size_match :: "string \<Rightarrow> string option" where
  "size_match l =
     (let v = drop 5 l in
      if startswith l ''size='' \<and> v \<noteq> [] \<and> list_all is_digit v then Some v else None)"

definition field_match :: "string \<Rightarrow> string \<Rightarrow> (string \<times> string) option" where
  "field_match key l =
     (let i = takeWhile is_digit l; r = dropWhile is_digit l; v = drop (length key) r in
      if i \<noteq> [] \<and> startswith r key \<and> v \<noteq> [] \<and> list_all is_digit v then Some (i, v) else None)"

definition position_match :: "string \<Rightarrow> (string \<times> string) option" where
  "position_match = field_match ''.pos=''"

definition limit_match :: "string \<Rightarrow> (string \<times> string) option" where
  "limit_match = field_match ''.limit=''"

definition parse_decimal :: "string \<Rightarrow> int option" where
  "parse_decimal v = int_of_digits v"

text \<open>The loop over pairs of lines; \<open>k\<close> is the number of the segment expected next.\<close>

fun segment_loop :: "int \<Rightarrow> int \<Rightarrow> (int \<times> int) list \<Rightarrow> int \<Rightarrow> string list \<Rightarrow> ((int \<times> int) list \<times> int) option" where
  "segment_loop tsize k ranges empty_size (l1 # l2 # ls) =
     (case (position_match l1, limit_match l2) of
        (Some (i, p), Some (j, q)) \<Rightarrow>
          (case (parse_decimal p, parse_decimal q) of
             (Some position, Some limit) \<Rightarrow>
               if parse_decimal i \<noteq> Some k \<or> parse_decimal j \<noteq> Some k then None
               else if position > tsize \<or> limit > tsize \<or> limit < position then None
               else if list_ex (\<lambda>(pp, pl). position < pl \<and> pp < limit) ranges then None
               else segment_loop tsize (k + 1) (ranges @ [(position, limit)])
                      (empty_size + (limit - position)) ls
           | _ \<Rightarrow> None)
      | _ \<Rightarrow> None)"
| "segment_loop tsize k ranges empty_size ls = Some (ranges, empty_size)"

definition status_lines :: "string \<Rightarrow> string list" where
  "status_lines s = map strip (filter (\<lambda>l. strip l \<noteq> []) (splitlines s))"

definition parse_base_only :: "int \<Rightarrow> string \<Rightarrow> lftp_pget_status option" where
  "parse_base_only tsize l =
     (case position_match l of
        None \<Rightarrow> None
      | Some (i, p) \<Rightarrow>
          (case parse_decimal p of
             Some covered \<Rightarrow>
               if parse_decimal i \<noteq> Some 0 \<or> covered > tsize then None
               else Some \<lparr>ps_total_size = tsize, ps_covered_size = covered, ps_base_only = True\<rparr>
           | None \<Rightarrow> None))"

definition parse_segments :: "int \<Rightarrow> string list \<Rightarrow> lftp_pget_status option" where
  "parse_segments tsize ls =
     (if ls = [] \<or> odd (length ls) then None
      else if length ls div 2 > MAX_LFTP_PGET_SEGMENTS then None
      else case segment_loop tsize 0 [] 0 ls of
        None \<Rightarrow> None
      | Some (_, empty_size) \<Rightarrow>
          if empty_size > tsize then None
          else Some \<lparr>ps_total_size = tsize, ps_covered_size = tsize - empty_size, ps_base_only = False\<rparr>)"

definition parse_lftp_pget_status :: "string \<Rightarrow> lftp_pget_status option" where
  "parse_lftp_pget_status status =
     (if utf8_length status > MAX_LFTP_PGET_STATUS_BYTES then None
      else case status_lines status of
        [] \<Rightarrow> None
      | first # ls \<Rightarrow>
          (case Option.bind (size_match first) parse_decimal of
             None \<Rightarrow> None
           | Some tsize \<Rightarrow>
               (case ls of [l] \<Rightarrow> parse_base_only tsize l | _ \<Rightarrow> parse_segments tsize ls)))"

section \<open>Holes\<close>

definition hole_bytes :: "(int \<times> int) list \<Rightarrow> int set" where
  "hole_bytes rs = (\<Union>(p, l)\<in>set rs. {p..<l})"

definition hole_free :: "int \<Rightarrow> (int \<times> int) list \<Rightarrow> int set" where
  "hole_free tsize rs = {b. 0 \<le> b \<and> b < tsize \<and> list_all (\<lambda>(p, l). b < p \<or> l \<le> b) rs}"

definition ranges_ok :: "int \<Rightarrow> (int \<times> int) list \<Rightarrow> bool" where
  "ranges_ok tsize rs \<longleftrightarrow>
     list_all (\<lambda>(p, l). 0 \<le> p \<and> p \<le> l \<and> l \<le> tsize) rs \<and>
     sorted_wrt (\<lambda>(p, l) (p', l'). \<not> (p' < l \<and> p < l')) rs"

lemma ranges_ok_snoc:
  "ranges_ok tsize (rs @ [(p, l)]) \<longleftrightarrow>
     ranges_ok tsize rs \<and> 0 \<le> p \<and> p \<le> l \<and> l \<le> tsize \<and>
     \<not> list_ex (\<lambda>(pp, pl). p < pl \<and> pp < l) rs"
  by (fastforce simp: ranges_ok_def sorted_wrt_append list_ex_iff)

lemma hole_bytes_snoc: "hole_bytes (rs @ [(p, l)]) = hole_bytes rs \<union> {p..<l}"
  by (auto simp: hole_bytes_def)

lemma finite_hole_bytes [simp]: "finite (hole_bytes rs)"
  by (auto simp: hole_bytes_def)

text \<open>The bytes of disjoint holes are counted by adding up their lengths.\<close>

lemma card_hole_bytes:
  "ranges_ok tsize rs \<Longrightarrow> int (card (hole_bytes rs)) = sum_list (map (\<lambda>(p, l). l - p) rs)"
proof (induction rs rule: rev_induct)
  case (snoc r rs)
  obtain p l where r: "r = (p, l)" by (cases r)
  have ok: "ranges_ok tsize rs" "p \<le> l" and apart: "\<not> list_ex (\<lambda>(pp, pl). p < pl \<and> pp < l) rs"
    using snoc.prems by (simp_all add: r ranges_ok_snoc)
  have "hole_bytes rs \<inter> {p..<l} = {}"
    using apart by (fastforce simp: hole_bytes_def list_ex_iff)
  with snoc.IH[OF ok(1)] ok(2) show ?case
    by (simp add: r hole_bytes_snoc card_Un_disjoint)
qed (simp add: hole_bytes_def)

lemma hole_free_eq: "hole_free tsize rs = {0..<tsize} - hole_bytes rs"
  by (force simp: hole_free_def hole_bytes_def list_all_iff)

lemma hole_bytes_within: "ranges_ok tsize rs \<Longrightarrow> hole_bytes rs \<subseteq> {0..<tsize}"
  by (force simp: ranges_ok_def hole_bytes_def list_all_iff)

lemma card_hole_free:
  assumes "ranges_ok tsize rs" "0 \<le> tsize"
  shows "int (card (hole_free tsize rs)) = tsize - sum_list (map (\<lambda>(p, l). l - p) rs)"
    and "sum_list (map (\<lambda>(p, l). l - p) rs) \<le> tsize"
proof -
  have sub: "hole_bytes rs \<subseteq> {0..<tsize}" by (rule hole_bytes_within[OF assms(1)])
  have le: "card (hole_bytes rs) \<le> card {0..<tsize}" by (rule card_mono[OF _ sub]) simp
  then show "sum_list (map (\<lambda>(p, l). l - p) rs) \<le> tsize"
    using card_hole_bytes[OF assms(1)] assms(2) by simp
  show "int (card (hole_free tsize rs)) = tsize - sum_list (map (\<lambda>(p, l). l - p) rs)"
    using le card_hole_bytes[OF assms(1)] assms(2)
    by (simp add: hole_free_eq card_Diff_subset[OF _ sub] of_nat_diff)
qed

section \<open>What an accepted status says\<close>

text \<open>The number a line ends in, after its equals sign, and the holes the lines of a status name.\<close>

definition field_value :: "string \<Rightarrow> int" where
  "field_value l = decimal_value (drop 1 (dropWhile (\<lambda>c. c \<noteq> CHR ''='') l))"

fun segment_holes :: "string list \<Rightarrow> (int \<times> int) list" where
  "segment_holes (l1 # l2 # ls) = (field_value l1, field_value l2) # segment_holes ls"
| "segment_holes ls = []"

lemma startswith_split: "startswith s p \<Longrightarrow> s = p @ drop (length p) s"
  unfolding startswith_def by (metis append_take_drop_id)

lemma digit_not_equals: "is_digit c \<Longrightarrow> c \<noteq> CHR ''=''"
  by (auto simp: is_digit_def code_of_def)

lemma field_value_split:
  "list_all (\<lambda>c. c \<noteq> CHR ''='') k \<Longrightarrow> field_value (k @ CHR ''='' # v) = decimal_value v"
  by (simp add: field_value_def dropWhile_append list_all_iff)

lemma field_match_value:
  assumes "field_match (k @ ''='') l = Some (i, v)" "list_all (\<lambda>c. c \<noteq> CHR ''='') k"
  shows "field_value l = decimal_value v" "list_all is_digit v"
proof -
  let ?i = "takeWhile is_digit l" and ?r = "dropWhile is_digit l"
  have m: "startswith ?r (k @ ''='')" "v = drop (length (k @ ''='')) ?r" "list_all is_digit v"
    using assms(1) by (auto simp: field_match_def Let_def split: if_splits)
  have "l = ?i @ k @ CHR ''='' # v"
    using startswith_split[OF m(1)] m(2) takeWhile_dropWhile_id[of is_digit l] by simp
  moreover have "list_all (\<lambda>c. c \<noteq> CHR ''='') (?i @ k)"
    using assms(2) by (auto simp: list_all_iff dest!: set_takeWhileD digit_not_equals)
  ultimately show "field_value l = decimal_value v"
    using field_value_split[of "?i @ k" v] by simp
  show "list_all is_digit v" by (rule m(3))
qed

lemma match_values:
  "position_match l = Some (i, v) \<Longrightarrow> parse_decimal v = Some n \<Longrightarrow> field_value l = n \<and> 0 \<le> n"
  "limit_match l = Some (i, v) \<Longrightarrow> parse_decimal v = Some n \<Longrightarrow> field_value l = n \<and> 0 \<le> n"
  using field_match_value[of "''.pos''" l i v] field_match_value[of "''.limit''" l i v]
  by (auto simp: position_match_def limit_match_def parse_decimal_def int_of_digits_nonneg
      int_of_digits_def decimal_value_nonneg split: if_splits)

lemma segment_loop_ok:
  "segment_loop tsize k rs e ls = Some (rs', e') \<Longrightarrow> ranges_ok tsize rs \<Longrightarrow>
   e = sum_list (map (\<lambda>(p, l). l - p) rs) \<Longrightarrow> even (length ls) \<Longrightarrow>
   rs' = rs @ segment_holes ls \<and> ranges_ok tsize rs' \<and> e' = sum_list (map (\<lambda>(p, l). l - p) rs')"
proof (induction ls arbitrary: k rs e rule: segment_holes.induct)
  case (1 l1 l2 ls)
  obtain i p j q position limit where m: "position_match l1 = Some (i, p)" "limit_match l2 = Some (j, q)"
    "parse_decimal p = Some position" "parse_decimal q = Some limit"
    using "1.prems"(1) by (auto split: option.splits prod.splits)
  have g: "parse_decimal i = Some k" "parse_decimal j = Some k"
    "position \<le> tsize" "limit \<le> tsize" "position \<le> limit"
    "\<not> list_ex (\<lambda>(pp, pl). position < pl \<and> pp < limit) rs"
    and run: "segment_loop tsize (k + 1) (rs @ [(position, limit)]) (e + (limit - position)) ls = Some (rs', e')"
    using "1.prems"(1) m by (auto split: if_splits)
  have "ranges_ok tsize (rs @ [(position, limit)])"
    using g match_values(1)[OF m(1,3)] "1.prems"(2) by (simp add: ranges_ok_snoc)
  from "1.IH"[OF run this] "1.prems"(3,4) match_values(1)[OF m(1,3)] match_values(2)[OF m(2,4)]
  show ?case by auto
qed auto

lemma parse_segments_ok:
  assumes "parse_segments tsize ls = Some st" "0 \<le> tsize"
  shows "ps_total_size st = tsize \<and> \<not> ps_base_only st \<and> ranges_ok tsize (segment_holes ls) \<and>
    ps_covered_size st = int (card (hole_free tsize (segment_holes ls)))"
proof -
  obtain rs e where run: "segment_loop tsize 0 [] 0 ls = Some (rs, e)" "even (length ls)"
    and st: "st = \<lparr>ps_total_size = tsize, ps_covered_size = tsize - e, ps_base_only = False\<rparr>"
    using assms(1) by (auto simp: parse_segments_def split: if_splits option.splits)
  have "ranges_ok tsize []" by (simp add: ranges_ok_def)
  with segment_loop_ok[OF run(1)] run(2)
  have "rs = segment_holes ls" "ranges_ok tsize rs" "e = sum_list (map (\<lambda>(p, l). l - p) rs)"
    by auto
  with card_hole_free(1)[of tsize rs] assms(2) st show ?thesis by simp
qed

lemma parse_base_only_ok:
  "parse_base_only tsize l = Some st \<Longrightarrow>
   ps_total_size st = tsize \<and> ps_base_only st \<and> ps_covered_size st = field_value l \<and>
   0 \<le> field_value l \<and> field_value l \<le> tsize"
  using match_values(1)[of l] by (fastforce simp: parse_base_only_def split: option.splits if_splits)

section \<open>The status LFTP writes\<close>

definition segment_lines :: "nat \<times> nat \<times> nat \<Rightarrow> string list" where
  "segment_lines s =
     (case s of (k, p, l) \<Rightarrow>
        [dec_text k @ ''.pos='' @ dec_text p, dec_text k @ ''.limit='' @ dec_text l])"

definition written_lines :: "nat \<Rightarrow> (nat \<times> nat) list \<Rightarrow> string list" where
  "written_lines n segs = (''size='' @ dec_text n) # concat (map segment_lines (enumerate 0 segs))"

definition written_status :: "nat \<Rightarrow> (nat \<times> nat) list \<Rightarrow> string" where
  "written_status n segs = concat (map (\<lambda>l. l @ ''\<newline>'') (written_lines n segs))"

lemma takeWhile_digits: "list_all is_digit d \<Longrightarrow> \<not> is_digit c \<Longrightarrow>
    takeWhile is_digit (d @ c # r) = d \<and> dropWhile is_digit (d @ c # r) = c # r"
  by (simp add: list_all_iff takeWhile_append dropWhile_append)

lemma field_match_written:
  "field_match (CHR ''.'' # key) (dec_text k @ CHR ''.'' # key @ dec_text n) = Some (dec_text k, dec_text n)"
proof -
  have "\<not> is_digit (CHR ''.'')" by (simp add: is_digit_def code_of_def)
  from takeWhile_digits[OF dec_text_digits this, of k "key @ dec_text n"]
  show ?thesis by (simp add: field_match_def Let_def startswith_def dec_text_digits)
qed

lemma written_matches:
  "position_match (dec_text k @ ''.pos='' @ dec_text n) = Some (dec_text k, dec_text n)"
  "limit_match (dec_text k @ ''.limit='' @ dec_text n) = Some (dec_text k, dec_text n)"
  using field_match_written[of "''pos=''" k n] field_match_written[of "''limit=''" k n]
  by (simp_all add: position_match_def limit_match_def)

lemma size_match_written: "size_match (''size='' @ dec_text n) = Some (dec_text n)"
  by (simp add: size_match_def startswith_def dec_text_digits)

lemma parse_decimal_dec_text: "length (dec_text n) \<le> MAX_STR_DIGITS \<Longrightarrow> parse_decimal (dec_text n) = Some (int n)"
  by (simp add: parse_decimal_def int_of_digits_def)

lemma written_line_plain:
  assumes "l \<in> set (written_lines n segs)"
  shows "list_all (\<lambda>c. \<not> is_space c \<and> \<not> line_break c) l" "l \<noteq> []"
proof -
  have d: "list_all (\<lambda>c. \<not> is_space c \<and> \<not> line_break c) (dec_text k)" for k
    using dec_text_digits[of k] by (auto simp: list_all_iff dest: digit_not_space)
  have keys: "list_all (\<lambda>c. \<not> is_space c \<and> \<not> line_break c) (''size='' @ ''.pos='' @ ''.limit='')"
    by (simp add: is_space_def line_break_def code_of_def Let_def)
  from assms obtain k p m where "l = ''size='' @ dec_text n \<or> l = dec_text k @ ''.pos='' @ dec_text p \<or>
      l = dec_text k @ ''.limit='' @ dec_text m"
    by (auto simp: written_lines_def segment_lines_def)
  with d keys show "list_all (\<lambda>c. \<not> is_space c \<and> \<not> line_break c) l" "l \<noteq> []" by auto
qed

lemma status_lines_written: "status_lines (written_status n segs) = written_lines n segs"
proof -
  have "splitlines (written_status n segs) = written_lines n segs"
    unfolding written_status_def
    by (rule splitlines_unlines) (use written_line_plain(1) in \<open>auto simp: list_all_iff\<close>)
  moreover have "\<forall>l\<in>set (written_lines n segs). strip l = l \<and> l \<noteq> []"
    using written_line_plain by (auto simp: list_all_iff intro!: strip_plain)
  ultimately show ?thesis
    by (auto simp: status_lines_def intro: map_idI)
qed

text \<open>The numbers of a status are short enough for \<open>int\<close>.\<close>

definition short_numbers :: "nat \<Rightarrow> (nat \<times> nat) list \<Rightarrow> bool" where
  "short_numbers n segs \<longleftrightarrow> length (dec_text n) \<le> MAX_STR_DIGITS \<and>
     list_all (\<lambda>(p, l). length (dec_text p) \<le> MAX_STR_DIGITS \<and> length (dec_text l) \<le> MAX_STR_DIGITS) segs"

definition int_ranges :: "(nat \<times> nat) list \<Rightarrow> (int \<times> int) list" where
  "int_ranges segs = map (\<lambda>(p, l). (int p, int l)) segs"

lemma int_ranges_simps [simp]:
  "int_ranges [] = []" "int_ranges ((p, l) # segs) = (int p, int l) # int_ranges segs"
  by (simp_all add: int_ranges_def)

lemma segment_loop_step:
  assumes "length (dec_text k) \<le> MAX_STR_DIGITS" "length (dec_text p) \<le> MAX_STR_DIGITS"
    "length (dec_text l) \<le> MAX_STR_DIGITS" "ranges_ok tsize rs"
  shows "segment_loop tsize (int k) rs e (segment_lines (k, p, l) @ ls) =
    (if ranges_ok tsize (rs @ [(int p, int l)])
     then segment_loop tsize (int (Suc k)) (rs @ [(int p, int l)]) (e + (int l - int p)) ls else None)"
  using assms
  by (auto simp: segment_lines_def written_matches[simplified] parse_decimal_dec_text ranges_ok_snoc add.commute)

lemma segment_loop_written:
  assumes "list_all (\<lambda>(p, l). length (dec_text p) \<le> MAX_STR_DIGITS \<and> length (dec_text l) \<le> MAX_STR_DIGITS) segs"
    "\<forall>j < k + length segs. length (dec_text j) \<le> MAX_STR_DIGITS" "ranges_ok tsize rs"
  shows "segment_loop tsize (int k) rs e (concat (map segment_lines (enumerate k segs))) =
    (if ranges_ok tsize (rs @ int_ranges segs)
     then Some (rs @ int_ranges segs, e + sum_list (map (\<lambda>(p, l). l - p) (int_ranges segs))) else None)"
  using assms
proof (induction segs arbitrary: k rs e)
  case (Cons s segs)
  obtain p l where s: "s = (p, l)" by (cases s)
  have prefix: "ranges_ok tsize (rs @ (int p, int l) # q) \<Longrightarrow> ranges_ok tsize (rs @ [(int p, int l)])" for q
    by (auto simp: ranges_ok_def sorted_wrt_append)
  have "segment_loop tsize (int k) rs e (concat (map segment_lines (enumerate k (s # segs)))) =
    (if ranges_ok tsize (rs @ [(int p, int l)])
     then segment_loop tsize (int (Suc k)) (rs @ [(int p, int l)]) (e + (int l - int p))
       (concat (map segment_lines (enumerate (Suc k) segs))) else None)"
    using segment_loop_step Cons.prems by (simp add: s)
  with Cons.IH[of "Suc k" "rs @ [(int p, int l)]" "e + (int l - int p)"] Cons.prems(1,2) prefix
  show ?case by (auto simp: s)
qed simp

lemma length_dec_text: "length (dec_text n) \<le> Suc n"
proof (induction n rule: dec_text.induct)
  case (1 n)
  show ?case
  proof (cases "n < 10")
    case False
    then have "length (dec_text (n div 10)) \<le> n"
      using 1 by (auto intro: order_trans)
    then show ?thesis using False by (subst dec_text.simps) simp
  qed (subst dec_text.simps, simp)
qed

lemma length_segment_lines: "length (concat (map segment_lines (enumerate k segs))) = 2 * length segs"
  by (induction segs arbitrary: k) (auto simp: segment_lines_def)

lemma parse_segments_run:
  "ls \<noteq> [] \<Longrightarrow> even (length ls) \<Longrightarrow> length ls div 2 \<le> MAX_LFTP_PGET_SEGMENTS \<Longrightarrow>
   segment_loop tsize 0 [] 0 ls = Some (rs, e) \<Longrightarrow> e \<le> tsize \<Longrightarrow>
   parse_segments tsize ls = Some \<lparr>ps_total_size = tsize, ps_covered_size = tsize - e, ps_base_only = False\<rparr>"
  "segment_loop tsize 0 [] 0 ls = None \<Longrightarrow> parse_segments tsize ls = None"
  by (auto simp: parse_segments_def)

lemma parse_written:
  assumes "utf8_length (written_status n segs) \<le> MAX_LFTP_PGET_STATUS_BYTES" "short_numbers n segs"
    "segs \<noteq> []" "length segs \<le> MAX_LFTP_PGET_SEGMENTS"
  shows "parse_lftp_pget_status (written_status n segs) =
    (if ranges_ok (int n) (int_ranges segs)
     then Some \<lparr>ps_total_size = int n,
       ps_covered_size = int n - sum_list (map (\<lambda>(p, l). l - p) (int_ranges segs)), ps_base_only = False\<rparr>
     else None)"
proof -
  let ?ls = "concat (map segment_lines (enumerate 0 segs))"
  have len: "length ?ls = 2 * length segs" by (rule length_segment_lines)
  have few: "\<forall>j < length segs. length (dec_text j) \<le> MAX_STR_DIGITS"
    using assms(4) length_dec_text by (force simp: MAX_LFTP_PGET_SEGMENTS_def MAX_STR_DIGITS_def intro: order_trans)
  have loop: "segment_loop (int n) 0 [] 0 ?ls =
    (if ranges_ok (int n) (int_ranges segs)
     then Some (int_ranges segs, sum_list (map (\<lambda>(p, l). l - p) (int_ranges segs))) else None)"
    using segment_loop_written[of segs 0 "int n" "[]" 0] assms(2) few
    by (simp add: short_numbers_def ranges_ok_def)
  have ne: "?ls \<noteq> []" using len assms(3) by fastforce
  have even: "even (length ?ls)" "length ?ls div 2 \<le> MAX_LFTP_PGET_SEGMENTS"
    unfolding len using assms(4) by simp_all
  have "parse_segments (int n) ?ls = (if ranges_ok (int n) (int_ranges segs)
     then Some \<lparr>ps_total_size = int n,
       ps_covered_size = int n - sum_list (map (\<lambda>(p, l). l - p) (int_ranges segs)), ps_base_only = False\<rparr>
     else None)"
    using parse_segments_run(1)[OF ne even] parse_segments_run(2) loop card_hole_free(2)[of "int n" "int_ranges segs"]
    by (cases "ranges_ok (int n) (int_ranges segs)") simp_all
  moreover have "(case ?ls of [l] \<Rightarrow> parse_base_only (int n) l | _ \<Rightarrow> parse_segments (int n) ?ls) = parse_segments (int n) ?ls"
    using even(1) by (auto split: list.splits)
  moreover have "Option.bind (size_match (''size='' @ dec_text n)) parse_decimal = Some (int n)"
    unfolding size_match_written using assms(2) by (simp add: parse_decimal_dec_text short_numbers_def)
  ultimately show ?thesis
    using assms(1) unfolding parse_lftp_pget_status_def status_lines_written
    by (simp add: written_lines_def)
qed

lemma parse_status_ok:
  assumes "parse_lftp_pget_status status = Some st"
  shows "0 \<le> ps_total_size st \<and>
    (if ps_base_only st
     then \<exists>first l. status_lines status = [first, l] \<and> ps_covered_size st = field_value l \<and>
       0 \<le> field_value l \<and> field_value l \<le> ps_total_size st
     else ranges_ok (ps_total_size st) (segment_holes (tl (status_lines status))) \<and>
       ps_covered_size st = int (card (hole_free (ps_total_size st) (segment_holes (tl (status_lines status))))))"
proof -
  obtain first ls v tsize where l: "status_lines status = first # ls" "size_match first = Some v" "parse_decimal v = Some tsize"
    and run: "(case ls of [l] \<Rightarrow> parse_base_only tsize l | _ \<Rightarrow> parse_segments tsize ls) = Some st"
    using assms by (auto simp: parse_lftp_pget_status_def bind_eq_Some_conv split: if_splits list.splits option.splits)
  have nonneg: "0 \<le> tsize"
    using l(2,3) int_of_digits_nonneg[of v tsize]
    by (auto simp: size_match_def parse_decimal_def Let_def split: if_splits)
  show ?thesis
  proof (cases "\<exists>l. ls = [l]")
    case True
    then show ?thesis using run nonneg l(1) parse_base_only_ok by auto
  next
    case False
    then have "parse_segments tsize ls = Some st" using run by (auto split: list.splits)
    then show ?thesis using parse_segments_ok[OF _ nonneg] nonneg l(1) by auto
  qed
qed

end
