(* ===== verification/Remote_Path.thy ===== *)
theory Remote_Path
  imports Prelude
begin

text \<open>
  \<open>common/remote_path_utils.py\<close>: quoting of a path for a remote shell, and the part of \<open>shlex\<close> it
  calls.

  What quoting has to achieve is stated against a reader of shell words (\<open>shell_word\<close>), which
  follows the quoting rules of the POSIX shell: outside quotes the characters with a meaning of their
  own end the word or are expanded, single quotes take everything up to the next one literally,
  double quotes everything but \<open>$\<close>, \<open>`\<close>, \<open>\\<close> and the closing quote.
\<close>

section \<open>Definitions\<close>

text \<open>The characters \<open>shlex.quote\<close> leaves unquoted: \<open>[\w@%+=:,./-]\<close> in ASCII.\<close>

definition word_char :: "char \<Rightarrow> bool" where
  "word_char c = (let n = code_of c in
     (48 \<le> n \<and> n \<le> 57) \<or> (65 \<le> n \<and> n \<le> 90) \<or> (97 \<le> n \<and> n \<le> 122) \<or> n = 95)"

definition safe_char :: "char \<Rightarrow> bool" where
  "safe_char c = (word_char c \<or> c \<in> set ''@%+=:,./-'')"

definition replace_quotes :: "string \<Rightarrow> string" where
  "replace_quotes s = concat (map (\<lambda>c. if c = CHR 0x27 then [CHR 0x27, CHR 0x22, CHR 0x27, CHR 0x22, CHR 0x27] else [c]) s)"

definition shlex_quote :: "string \<Rightarrow> string" where
  "shlex_quote s =
     (if s = [] then [CHR 0x27, CHR 0x27]
      else if list_all safe_char s then s
      else CHR 0x27 # replace_quotes s @ [CHR 0x27])"

text \<open>\<open>^~(?:[A-Za-z0-9_.-]+)?(?:/|$)\<close>, where \<open>$\<close> is the end of the text or the place before a
  final line feed.\<close>

definition user_char :: "char \<Rightarrow> bool" where
  "user_char c = (word_char c \<or> c = CHR ''.'' \<or> c = CHR ''-'')"

definition safe_tilde_prefix :: "string \<Rightarrow> bool" where
  "safe_tilde_prefix path =
     (case path of [] \<Rightarrow> False
      | c # s \<Rightarrow> c = CHR ''~'' \<and>
          (let r = dropWhile user_char s in r = [] \<or> r = [CHR 0x0A] \<or> startswith r ''/''))"

definition escape_remote_path_for_shell :: "string \<Rightarrow> bool \<Rightarrow> string" where
  "escape_remote_path_for_shell path allow_tilde_expansion =
     (if allow_tilde_expansion \<and> safe_tilde_prefix path then
        (if path = ''~'' then ''~''
         else if CHR ''/'' \<notin> set (tl path) then path
         else (let tilde_prefix = hd path # takeWhile (\<lambda>c. c \<noteq> CHR ''/'') (tl path);
                   rest = dropWhile (\<lambda>c. c \<noteq> CHR ''/'') (tl path)
               in tilde_prefix @ shlex_quote rest))
      else shlex_quote path)"

section \<open>Reading a shell word\<close>

text \<open>The result of reading one word from the start of a text: its characters, each with a mark whether
  it was quoted, and the rest of the text. A character with a meaning of its own outside quotes, and
  a \<open>$\<close>, \<open>`\<close> or \<open>\\<close> inside double quotes, is more than a word and gives \<open>None\<close>, as does a
  quote that is not closed. White space and the end of the text end a word.\<close>

definition shell_blank :: "char \<Rightarrow> bool" where
  "shell_blank c = (code_of c = 32 \<or> code_of c = 9 \<or> code_of c = 10)"

definition shell_special :: "char \<Rightarrow> bool" where
  "shell_special c = (code_of c \<in> {34, 36, 38, 39, 40, 41, 42, 59, 60, 62, 63, 91, 92, 96, 124, 33, 35, 123, 125, 93})"

definition quoted :: "string \<Rightarrow> (char \<times> bool) list" where
  "quoted s = map (\<lambda>c. (c, True)) s"

definition unquoted :: "string \<Rightarrow> (char \<times> bool) list" where
  "unquoted s = map (\<lambda>c. (c, False)) s"

datatype shell_mode = Plain | Single | Double

fun shell_word :: "shell_mode \<Rightarrow> string \<Rightarrow> ((char \<times> bool) list \<times> string) option" where
  "shell_word Plain [] = Some ([], [])"
| "shell_word Plain (c # s) =
     (if shell_blank c then Some ([], c # s)
      else if c = CHR 0x27 then shell_word Single s
      else if c = CHR 0x22 then shell_word Double s
      else if shell_special c then None
      else map_option (\<lambda>(w, r). ((c, False) # w, r)) (shell_word Plain s))"
| "shell_word Single [] = None"
| "shell_word Single (c # s) =
     (if c = CHR 0x27 then shell_word Plain s
      else map_option (\<lambda>(w, r). ((c, True) # w, r)) (shell_word Single s))"
| "shell_word Double [] = None"
| "shell_word Double (c # s) =
     (if c = CHR 0x22 then shell_word Plain s
      else if c \<in> {CHR ''$'', CHR 0x60, CHR 0x5C} then None
      else map_option (\<lambda>(w, r). ((c, True) # w, r)) (shell_word Double s))"

text \<open>An argument of a command: \<open>s\<close> stands where a word starts and \<open>r\<close> follows it.\<close>

definition ends_word :: "string \<Rightarrow> bool" where
  "ends_word r = (r = [] \<or> shell_blank (hd r))"

section \<open>Quoting\<close>

lemma safe_char_plain: "safe_char c \<Longrightarrow> \<not> shell_blank c \<and> \<not> shell_special c \<and> c \<noteq> CHR 0x27 \<and> c \<noteq> CHR 0x22"
  by (auto simp: safe_char_def word_char_def shell_blank_def shell_special_def code_of_def Let_def)

lemma user_char_safe: "user_char c \<Longrightarrow> safe_char c"
  by (auto simp: user_char_def safe_char_def)

lemma shell_word_end: "ends_word r \<Longrightarrow> shell_word Plain r = Some ([], r)"
  by (cases r) (auto simp: ends_word_def)

lemma shell_word_plain:
  "list_all (\<lambda>c. \<not> shell_blank c \<and> \<not> shell_special c) s \<Longrightarrow>
   shell_word Plain (s @ r) = map_option (\<lambda>(w, q). (unquoted s @ w, q)) (shell_word Plain r)"
proof (induction s)
  case (Cons c s)
  have "shell_special (CHR 0x27)" "shell_special (CHR 0x22)"
    by (simp_all add: shell_special_def code_of_def)
  with Cons show ?case
    by (cases "shell_word Plain r") (auto simp: unquoted_def)
qed (cases "shell_word Plain r"; auto simp: unquoted_def)

lemma shell_word_single:
  "shell_word Single (replace_quotes s @ CHR 0x27 # r) =
   map_option (\<lambda>(w, q). (quoted s @ w, q)) (shell_word Plain r)"
proof (induction s)
  case (Cons c s)
  then show ?case
    by (cases "shell_word Plain r") (auto simp: replace_quotes_def quoted_def shell_blank_def code_of_def)
qed (cases "shell_word Plain r"; auto simp: replace_quotes_def quoted_def shell_blank_def code_of_def)

lemma marks [simp]: "map fst (quoted s) = s" "map fst (unquoted s) = s"
  by (simp_all add: quoted_def unquoted_def comp_def)

text \<open>A quoted path is read as one word with exactly its characters; unquoted ones are safe.\<close>

lemma shlex_quote_read:
  assumes "ends_word r"
  shows "\<exists>w. shell_word Plain (shlex_quote s @ r) = Some (w, r) \<and> map fst w = s \<and>
    list_all (\<lambda>(c, q). q \<or> safe_char c) w"
proof (cases "s = [] \<or> \<not> list_all safe_char s")
  case True
  then have "shlex_quote s @ r = CHR 0x27 # replace_quotes s @ CHR 0x27 # r"
    by (auto simp: shlex_quote_def replace_quotes_def)
  moreover have "shell_word Plain (CHR 0x27 # replace_quotes s @ CHR 0x27 # r) = Some (quoted s, r)"
    using shell_word_single[of s r] shell_word_end[OF assms] by (simp add: shell_blank_def code_of_def)
  ultimately show ?thesis
    by (intro exI[of _ "quoted s"]) (auto simp: list_all_iff quoted_def comp_def)
next
  case False
  then have "shell_word Plain (shlex_quote s @ r) = Some (unquoted s, r)"
    using shell_word_plain[of s r] shell_word_end[OF assms] safe_char_plain
    by (simp add: shlex_quote_def list_all_iff)
  with False show ?thesis
    by (intro exI[of _ "unquoted s"]) (auto simp: list_all_iff unquoted_def comp_def)
qed

section \<open>Tildes\<close>

lemma tilde_plain: "\<not> shell_blank (CHR ''~'')" "\<not> shell_special (CHR ''~'')"
  by (simp_all add: shell_blank_def shell_special_def code_of_def)

lemma user_char_mem: "user_char c \<Longrightarrow> \<not> shell_blank c \<and> \<not> shell_special c \<and> c \<noteq> CHR ''/''"
proof -
  assume u: "user_char c"
  have "\<not> user_char (CHR ''/'')" by (simp add: user_char_def word_char_def code_of_def)
  with u safe_char_plain[OF user_char_safe[OF u]] show ?thesis by metis
qed

lemma user_char_plain: "list_all user_char u \<Longrightarrow>
    list_all (\<lambda>c. \<not> shell_blank c \<and> \<not> shell_special c) (CHR ''~'' # u) \<and> CHR ''/'' \<notin> set u"
  using user_char_mem tilde_plain by (auto simp: list_all_iff)

lemma tilde_word:
  "list_all user_char u \<Longrightarrow> shell_word Plain (CHR ''~'' # u @ s) =
     map_option (\<lambda>(w, q). (unquoted (CHR ''~'' # u) @ w, q)) (shell_word Plain s)"
  using shell_word_plain[of "CHR ''~'' # u" s] user_char_plain[of u] by simp

text \<open>The shapes of a path with a tilde that may be expanded.\<close>

lemma safe_tilde_prefixE:
  assumes "safe_tilde_prefix path"
  obtains u where "list_all user_char u" "path = CHR ''~'' # u"
  | u where "list_all user_char u" "path = CHR ''~'' # u @ ''\<newline>''"
  | u rest where "list_all user_char u" "path = CHR ''~'' # u @ CHR ''/'' # rest"
proof -
  obtain s where s: "path = CHR ''~'' # s" and
    r: "dropWhile user_char s = [] \<or> dropWhile user_char s = [CHR 0x0A] \<or> startswith (dropWhile user_char s) ''/''"
    using assms by (auto simp: safe_tilde_prefix_def Let_def split: list.splits)
  let ?u = "takeWhile user_char s"
  have u: "list_all user_char ?u" by (auto simp: list_all_iff dest: set_takeWhileD)
  have split: "s = ?u @ dropWhile user_char s" by simp
  from r consider "dropWhile user_char s = []" | "dropWhile user_char s = [CHR 0x0A]"
    | "startswith (dropWhile user_char s) ''/''" by blast
  then show thesis
  proof cases
    case 1 with that(1) u s split show thesis by simp
  next
    case 2 with that(2) u s split show thesis by simp
  next
    case 3
    then have "dropWhile user_char s = CHR ''/'' # tl (dropWhile user_char s)"
      by (cases "dropWhile user_char s") (auto simp: startswith_def)
    with that(3)[OF u, of "tl (dropWhile user_char s)"] s split show thesis by simp
  qed
qed

lemma escape_tilde:
  assumes "list_all user_char u"
  shows "escape_remote_path_for_shell (CHR ''~'' # u @ CHR ''/'' # rest) True =
      CHR ''~'' # u @ shlex_quote (CHR ''/'' # rest)"
    and "escape_remote_path_for_shell (CHR ''~'' # u) True = CHR ''~'' # u"
    and "escape_remote_path_for_shell (CHR ''~'' # u @ ''\<newline>'') True = CHR ''~'' # u @ ''\<newline>''"
proof -
  have u: "\<forall>c\<in>set u. user_char c \<and> c \<noteq> CHR ''/''" using user_char_plain[OF assms] assms by (auto simp: list_all_iff)
  have n: "\<not> user_char (CHR ''/'')" "\<not> user_char (CHR 0x0A)"
    by (simp_all add: user_char_def word_char_def code_of_def)
  have tw: "takeWhile (\<lambda>c. c \<noteq> CHR ''/'') (u @ CHR ''/'' # rest) = u"
    "dropWhile (\<lambda>c. c \<noteq> CHR ''/'') (u @ CHR ''/'' # rest) = CHR ''/'' # rest"
    "dropWhile user_char (u @ CHR ''/'' # rest) = CHR ''/'' # rest"
    "dropWhile user_char u = []" "dropWhile user_char (u @ ''\<newline>'') = ''\<newline>''"
    using u n by (simp_all add: takeWhile_append dropWhile_append)
  show "escape_remote_path_for_shell (CHR ''~'' # u @ CHR ''/'' # rest) True =
      CHR ''~'' # u @ shlex_quote (CHR ''/'' # rest)"
    by (simp add: escape_remote_path_for_shell_def safe_tilde_prefix_def Let_def tw startswith_def)
  show "escape_remote_path_for_shell (CHR ''~'' # u) True = CHR ''~'' # u"
    "escape_remote_path_for_shell (CHR ''~'' # u @ ''\<newline>'') True = CHR ''~'' # u @ ''\<newline>''"
    using u by (auto simp: escape_remote_path_for_shell_def safe_tilde_prefix_def Let_def tw)
qed

lemma escaped_read:
  assumes "ends_word r" and "allow \<Longrightarrow> \<not> safe_tilde_prefix path \<or> CHR ''/'' \<in> set path \<or> CHR 0x0A \<notin> set path"
  shows "\<exists>w. shell_word Plain (escape_remote_path_for_shell path allow @ r) = Some (w, r) \<and> map fst w = path \<and>
    list_all (\<lambda>(c, q). q \<or> safe_char c) (if allow \<and> safe_tilde_prefix path then tl w else w)"
proof (cases "allow \<and> safe_tilde_prefix path")
  case False
  then have "escape_remote_path_for_shell path allow = shlex_quote path"
    by (auto simp: escape_remote_path_for_shell_def)
  then show ?thesis unfolding if_not_P[OF False] using shlex_quote_read[OF assms(1)] by simp
next
  case True
  then have allow: allow and "safe_tilde_prefix path" by auto
  then show ?thesis
  proof (cases rule: safe_tilde_prefixE[OF \<open>safe_tilde_prefix path\<close>])
    case (1 u)
    then show ?thesis
      using True tilde_word[of u r] shell_word_end[OF assms(1)] escape_tilde(2)[of u] user_char_safe
      by (auto simp: list_all_iff unquoted_def comp_def)
  next
    case (2 u)
    then show ?thesis using assms(2)[OF allow] True user_char_plain[of u] by auto
  next
    case (3 u rest)
    obtain w where w: "shell_word Plain (shlex_quote (CHR ''/'' # rest) @ r) = Some (w, r)"
      "map fst w = CHR ''/'' # rest" "list_all (\<lambda>(c, q). q \<or> safe_char c) w"
      using shlex_quote_read[OF assms(1)] by blast
    then show ?thesis
      using 3 True tilde_word[of u "shlex_quote (CHR ''/'' # rest) @ r"] escape_tilde(1)[of u rest] user_char_safe
      by (auto simp: list_all_iff unquoted_def comp_def)
  qed
qed

lemma newline_read:
  assumes "list_all user_char u"
  shows "shell_word Plain (escape_remote_path_for_shell (CHR ''~'' # u @ ''\<newline>'') True @ r) =
    Some (unquoted (CHR ''~'' # u), ''\<newline>'' @ r)"
  using assms tilde_word[of u "CHR 0x0A # r"] shell_word_end[of "CHR 0x0A # r"]
  by (simp add: escape_tilde(3) ends_word_def shell_blank_def code_of_def)

end
