(* ===== verification/Managed_Extract.thy ===== *)
theory Managed_Extract
  imports Py_Text File_Id
begin

text \<open>
  \<open>common/managed_extract.py\<close>: the folder an archive is extracted into and the marker file left
  there, by which a scan later tells extracted folders from others.

  A marker is its JSON value (\<open>pyval\<close>) between \<open>json.dump\<close> and \<open>json.load\<close>; the time of writing
  is an argument. A file that cannot be opened or is no JSON is read as \<open>None\<close>.
\<close>

section \<open>Folder names\<close>

definition ARCHIVE_FOLDER_SUFFIXES :: "string set" where
  "ARCHIVE_FOLDER_SUFFIXES =
     {''.7z'', ''.bz2'', ''.gz'', ''.lz'', ''.rar'', ''.tar'', ''.tbz2'', ''.tgz'', ''.zip'', ''.zipx''}"

lemma splitext_root_shorter: "splitext s = (r, e) \<Longrightarrow> e \<noteq> [] \<Longrightarrow> length r < length s"
  by (auto dest: splitext_append)

function strip_archive_suffixes :: "string \<Rightarrow> string" where
  "strip_archive_suffixes folder_name =
     (let (root, suffix) = splitext folder_name in
      if root = [] \<or> lower suffix \<notin> ARCHIVE_FOLDER_SUFFIXES then folder_name
      else strip_archive_suffixes root)"
  by pat_completeness auto
termination
proof (relation "measure length")
  fix s p r e
  assume p: "p = splitext s" "(r, e) = p" "\<not> (r = [] \<or> lower e \<notin> ARCHIVE_FOLDER_SUFFIXES)"
  then have "e \<noteq> []" by (auto simp: ARCHIVE_FOLDER_SUFFIXES_def lower_def)
  with p splitext_root_shorter[of s r e] show "(r, s) \<in> measure length" by simp
qed simp

declare strip_archive_suffixes.simps [simp del]

definition build_managed_extract_folder_name :: "string \<Rightarrow> string" where
  "build_managed_extract_folder_name archive_name =
     strip_archive_suffixes (basename (rstrip_char (CHR ''/'') archive_name))"

definition build_managed_extract_folder_path :: "string \<Rightarrow> string \<Rightarrow> string" where
  "build_managed_extract_folder_path out_dir_path archive_name =
     path_join out_dir_path (build_managed_extract_folder_name archive_name)"

text \<open>The name left is the longest prefix that no archive suffix ends: a prefix, not empty unless
  the name was, with no archive suffix of its own.\<close>

definition archive_free :: "string \<Rightarrow> bool" where
  "archive_free s \<longleftrightarrow> fst (splitext s) = [] \<or> lower (snd (splitext s)) \<notin> ARCHIVE_FOLDER_SUFFIXES"

lemma strip_archive_suffixes_free: "archive_free (strip_archive_suffixes s)"
proof (induction s rule: strip_archive_suffixes.induct)
  case (1 s)
  obtain r e where x: "splitext s = (r, e)" by (cases "splitext s")
  show ?case
  proof (cases "r = [] \<or> lower e \<notin> ARCHIVE_FOLDER_SUFFIXES")
    case True
    then show ?thesis by (subst strip_archive_suffixes.simps) (simp add: x archive_free_def)
  next
    case False
    with 1[OF x[symmetric] refl] show ?thesis
      by (subst strip_archive_suffixes.simps) (simp add: x)
  qed
qed

inductive suffixed :: "string \<Rightarrow> string \<Rightarrow> bool" where
  same: "suffixed s s"
| more: "suffixed r s \<Longrightarrow> lower e \<in> ARCHIVE_FOLDER_SUFFIXES \<Longrightarrow> r \<noteq> [] \<Longrightarrow> suffixed r (s @ e)"

lemma strip_archive_suffixes_suffixed: "suffixed (strip_archive_suffixes s) s \<and> (strip_archive_suffixes s = [] \<longrightarrow> s = [])"
proof (induction s rule: strip_archive_suffixes.induct)
  case (1 s)
  obtain r e where x: "splitext s = (r, e)" by (cases "splitext s")
  show ?case
  proof (cases "r = [] \<or> lower e \<notin> ARCHIVE_FOLDER_SUFFIXES")
    case True
    then show ?thesis by (subst (1 2) strip_archive_suffixes.simps) (simp add: x suffixed.same)
  next
    case False
    then have "strip_archive_suffixes s = strip_archive_suffixes r"
      by (subst strip_archive_suffixes.simps) (simp add: x)
    with False 1[OF x[symmetric] refl] splitext_append[OF x] show ?thesis by (auto intro: suffixed.more)
  qed
qed

section \<open>Markers\<close>

definition build_managed_extract_marker :: "string \<Rightarrow> string \<Rightarrow> string option \<Rightarrow> string option \<Rightarrow> (string, pyval) dict" where
  "build_managed_extract_marker now archive_name archive_file_id path_pair_id =
     [(''schema_version'', PInt 1), (''archive_name'', PStr archive_name), (''extracted_at'', PStr now)] @
     (case archive_file_id of None \<Rightarrow> [] | Some i \<Rightarrow> [(''archive_file_id'', PStr i)]) @
     (case path_pair_id of None \<Rightarrow> [] | Some i \<Rightarrow> [(''path_pair_id'', PStr i)])"

text \<open>\<open>marker.get(key)\<close>, and the test for an optional string.\<close>

definition marker_get :: "(string, pyval) dict \<Rightarrow> string \<Rightarrow> pyval" where
  "marker_get d k = (case dict_get d k of None \<Rightarrow> PNone | Some v \<Rightarrow> v)"

definition opt_text :: "pyval \<Rightarrow> bool" where
  "opt_text v = (case v of PNone \<Rightarrow> True | PStr _ \<Rightarrow> True | _ \<Rightarrow> False)"

text \<open>\<open>v == 1\<close> holds of the integer, of \<open>True\<close> and of the float.\<close>

definition is_schema_version :: "pyval \<Rightarrow> bool" where
  "is_schema_version v =
     (case v of PInt n \<Rightarrow> n = 1 | PBool b \<Rightarrow> b | PFloat (FFinite q) \<Rightarrow> q = 1 | _ \<Rightarrow> False)"

definition read_managed_extract_marker :: "pyval option \<Rightarrow> (string, pyval) dict option" where
  "read_managed_extract_marker content =
     (case content of
        Some (PDict marker) \<Rightarrow>
          (let extracted_at = marker_get marker ''extracted_at'';
               archive_file_id = marker_get marker ''archive_file_id'';
               path_pair_id = marker_get marker ''path_pair_id''
           in if \<not> is_schema_version (marker_get marker ''schema_version'') then None
              else case marker_get marker ''archive_name'' of
                PStr archive_name \<Rightarrow>
                  if archive_name = [] \<or> \<not> opt_text extracted_at \<or> \<not> opt_text archive_file_id
                     \<or> \<not> opt_text path_pair_id then None
                  else Some ([(''schema_version'', PInt 1), (''archive_name'', PStr archive_name)] @
                    (if extracted_at = PNone then [] else [(''extracted_at'', extracted_at)]) @
                    (if archive_file_id = PNone then [] else [(''archive_file_id'', archive_file_id)]) @
                    (if path_pair_id = PNone then [] else [(''path_pair_id'', path_pair_id)]))
              | _ \<Rightarrow> None)
      | _ \<Rightarrow> None)"

definition resolve_managed_extract_file_id :: "(string, pyval) dict \<Rightarrow> string option" where
  "resolve_managed_extract_file_id marker =
     (case marker_get marker ''archive_name'' of
        PStr archive_name \<Rightarrow>
          if archive_name = [] \<or> \<not> opt_text (marker_get marker ''path_pair_id'') then None
          else (let expected_file_id = build_file_id archive_name
                      (case marker_get marker ''path_pair_id'' of PStr p \<Rightarrow> Some p | _ \<Rightarrow> None)
                in case marker_get marker ''archive_file_id'' of
                     PNone \<Rightarrow> Some expected_file_id
                   | PStr i \<Rightarrow> if i = [] then Some expected_file_id
                               else if i \<noteq> expected_file_id then None else Some i
                   | _ \<Rightarrow> None)
      | _ \<Rightarrow> None)"

lemma marker_round_trip:
  assumes "archive_name \<noteq> []"
  shows "read_managed_extract_marker (Some (PDict (build_managed_extract_marker now archive_name fid pid))) =
    Some (build_managed_extract_marker now archive_name fid pid)"
  using assms
  by (simp add: read_managed_extract_marker_def build_managed_extract_marker_def marker_get_def opt_text_def
      is_schema_version_def split: option.splits)

lemma marker_resolves:
  assumes "archive_name \<noteq> []" "fid = Some [] \<or> fid = None \<or> fid = Some (build_file_id archive_name pid)"
  shows "resolve_managed_extract_file_id (build_managed_extract_marker now archive_name fid pid) =
    Some (build_file_id archive_name pid)"
  using assms
  by (cases pid) (auto simp: resolve_managed_extract_file_id_def build_managed_extract_marker_def marker_get_def
      opt_text_def Let_def split: option.splits)

lemma marker_of_other_path:
  assumes "i \<noteq> []" "i \<noteq> build_file_id archive_name pid"
  shows "resolve_managed_extract_file_id (build_managed_extract_marker now archive_name (Some i) pid) = None"
  using assms
  by (auto simp: resolve_managed_extract_file_id_def build_managed_extract_marker_def marker_get_def opt_text_def
      Let_def split: option.splits)

end
