(* ===== verification/Extract_Dispatch.thy ===== *)
theory Extract_Dispatch
  imports Managed_Extract Model_File Keyed_Store
begin

text \<open>
  \<open>controller/extract/dispatch.py\<close>, \<open>controller/extract/extract_request.py\<close> and the detection of
  archives in \<open>controller/extract/extract.py\<close>: the queue of extraction tasks and the worker thread
  that empties it.

  The disk is seen through a \<open>probe\<close>, which says what a path holds; what the external extraction tool
  and the writing of a marker do is an argument too (\<open>archive_env\<close>). The worker does not hold the
  queue's lock while it extracts, so requests arrive between its two accesses to the queue: taking the
  first task, and removing it when it is done. These are separate steps of the state machine; the
  local variable \<open>task\<close> of the thread is \<open>dx_current\<close>. Listeners do not raise.
\<close>

section \<open>Archives\<close>

record archive_probe =
  ap_is_zip :: bool
  ap_is_tar :: bool
  ap_header :: "string option"

type_synonym disk_probe = "string \<Rightarrow> archive_probe option"

datatype archive_kind = ZIP | TAR | RAR | SEVEN_Z | GZ | BZ2

definition header_kind :: "string \<Rightarrow> archive_kind option" where
  "header_kind header =
     (if startswith header ([CHR ''R'', CHR ''a'', CHR ''r'', CHR ''!'', CHR 0x1A, CHR 0x07, CHR 0x00])
        \<or> startswith header ([CHR ''R'', CHR ''a'', CHR ''r'', CHR ''!'', CHR 0x1A, CHR 0x07, CHR 0x01, CHR 0x00])
      then Some RAR
      else if startswith header [CHR ''7'', CHR ''z'', CHR 0xBC, CHR 0xAF, CHR 0x27, CHR 0x1C] then Some SEVEN_Z
      else if startswith header [CHR 0x1F, CHR 0x8B] then Some GZ
      else if startswith header ''BZh'' then Some BZ2 else None)"

definition detect_archive_kind :: "disk_probe \<Rightarrow> string \<Rightarrow> archive_kind option" where
  "detect_archive_kind probe archive_path =
     (case probe archive_path of
        None \<Rightarrow> None
      | Some p \<Rightarrow> if ap_is_zip p then Some ZIP else if ap_is_tar p then Some TAR
                  else (case ap_header p of None \<Rightarrow> None | Some header \<Rightarrow> header_kind header))"

definition is_archive :: "disk_probe \<Rightarrow> string \<Rightarrow> bool" where
  "is_archive probe archive_path =
     (probe archive_path \<noteq> None \<and> detect_archive_kind probe archive_path \<noteq> None)"

section \<open>Requests and tasks\<close>

record extract_request =
  er_model_file :: model_file
  er_pair_id :: "string option"
  er_local_path :: string
  er_out_dir_path :: string
  er_local_path_fallback :: "string option"
  er_out_dir_path_fallback :: string

definition new_extract_request ::
  "model_file \<Rightarrow> string \<Rightarrow> string \<Rightarrow> string option \<Rightarrow> string option \<Rightarrow> string option \<Rightarrow> extract_request" where
  "new_extract_request f local_path out_dir_path pair_id local_path_fallback out_dir_path_fallback =
     \<lparr>er_model_file = f, er_pair_id = pair_id, er_local_path = local_path, er_out_dir_path = out_dir_path,
      er_local_path_fallback = local_path_fallback,
      er_out_dir_path_fallback = (case out_dir_path_fallback of
         None \<Rightarrow> out_dir_path | Some p \<Rightarrow> if p = [] then out_dir_path else p)\<rparr>"

record task_archive =
  ta_archive_path :: string
  ta_out_dir_path :: string
  ta_archive_name :: string
  ta_archive_file_id :: string
  ta_path_pair_id :: "string option"

record extract_task =
  tk_root_name :: string
  tk_root_is_dir :: bool
  tk_root_file_id :: string
  tk_path_pair_id :: "string option"
  tk_archive_paths :: "task_archive list"

abbreviation dispatch_error :: "string \<Rightarrow> py_error" where
  "dispatch_error msg \<equiv> AppError ''ExtractDispatchError'' msg"

definition resolve_archive_path :: "disk_probe \<Rightarrow> string \<Rightarrow> string option \<Rightarrow> string \<Rightarrow> string option \<times> bool" where
  "resolve_archive_path probe local_path local_path_fallback relative_path =
     (let primary = path_join local_path relative_path in
      if is_archive probe primary then (Some primary, False)
      else case local_path_fallback of
        None \<Rightarrow> (None, False)
      | Some fb \<Rightarrow>
          if fb \<noteq> [] \<and> fb \<noteq> local_path \<and> is_archive probe (path_join fb relative_path)
          then (Some (path_join fb relative_path), True) else (None, False))"

text \<open>The archive a file of a directory contributes to the task, if it does.\<close>

definition file_archive :: "disk_probe \<Rightarrow> extract_request \<Rightarrow> model_file \<Rightarrow> task_archive option" where
  "file_archive probe req f =
     (let (archive_full_path, uses_fallback) =
            resolve_archive_path probe (er_local_path req) (er_local_path_fallback req) (full_path f);
          base = (if uses_fallback \<and> er_out_dir_path_fallback req \<noteq> er_out_dir_path req
                  then er_out_dir_path_fallback req else er_out_dir_path req)
      in case (fa_local_size (attrs f), archive_full_path) of
           (Some n, Some p) \<Rightarrow>
             if n > 0 then Some \<lparr>ta_archive_path = p, ta_out_dir_path = path_join base (dirname (full_path f)),
               ta_archive_name = mf_name f, ta_archive_file_id = file_id f,
               ta_path_pair_id = fa_path_pair_id (attrs f)\<rparr>
             else None
         | _ \<Rightarrow> None)"

text \<open>The breadth first loop over the files of a directory.\<close>

lemma kids_smaller: "size_list size (kids f) < size f"
  by (cases f) simp

function collect_archives :: "disk_probe \<Rightarrow> extract_request \<Rightarrow> model_file list \<Rightarrow> task_archive list" where
  "collect_archives probe req [] = []"
| "collect_archives probe req (f # frontier) =
     (if a_is_dir (attrs f) then collect_archives probe req (frontier @ kids f)
      else (case file_archive probe req f of None \<Rightarrow> [] | Some a \<Rightarrow> [a]) @ collect_archives probe req frontier)"
  by pat_completeness auto
termination
  by (relation "measure (\<lambda>(probe, req, fs). size_list size fs)") (auto intro: less_SucI kids_smaller)

text \<open>\<open>re.match(r"^\.r\d{2,}$", ext)\<close>, where \<open>$\<close> also accepts a final line feed.\<close>

definition split_rar_ext :: "string \<Rightarrow> bool" where
  "split_rar_ext ext =
     (let body = (if ext \<noteq> [] \<and> last ext = CHR 0x0A then butlast ext else ext) in
      startswith body ''.r'' \<and> 4 \<le> length body \<and> list_all is_digit (drop 2 body))"

definition coalesce_extractions :: "task_archive list \<Rightarrow> task_archive list" where
  "coalesce_extractions as =
     filter (\<lambda>a. \<not> split_rar_ext (snd (splitext (basename (ta_archive_path a))))) as"

definition build_task :: "disk_probe \<Rightarrow> extract_request \<Rightarrow> extract_task result" where
  "build_task probe req =
     (let f = er_model_file req;
          task = (\<lambda>as. \<lparr>tk_root_name = mf_name f, tk_root_is_dir = a_is_dir (attrs f), tk_root_file_id = file_id f,
            tk_path_pair_id = fa_path_pair_id (attrs f), tk_archive_paths = as\<rparr>)
      in if a_is_dir (attrs f) then
           (let as = coalesce_extractions (collect_archives probe req [f])
            in if as = [] then Inl (dispatch_error (''Directory does not contain any archives: '' @ mf_name f))
               else Inr (task as))
         else if fa_local_size (attrs f) = None \<or> fa_local_size (attrs f) = Some 0 then
           Inl (dispatch_error (''File does not exist locally: '' @ mf_name f))
         else (let (archive_full_path, uses_fallback) =
                     resolve_archive_path probe (er_local_path req) (er_local_path_fallback req) (mf_name f);
                   base_out = (if uses_fallback \<and> er_out_dir_path_fallback req \<noteq> er_out_dir_path req
                     then er_out_dir_path_fallback req else er_out_dir_path req)
               in case archive_full_path of
                    None \<Rightarrow> Inl (dispatch_error (''File is not an archive: '' @ mf_name f))
                  | Some p \<Rightarrow>
                      if p = [] then Inl (dispatch_error (''File is not an archive: '' @ mf_name f))
                      else Inr (task [\<lparr>ta_archive_path = p, ta_out_dir_path = base_out,
                        ta_archive_name = mf_name f, ta_archive_file_id = file_id f,
                        ta_path_pair_id = fa_path_pair_id (attrs f)\<rparr>])))"

section \<open>The dispatcher\<close>

record dispatch =
  dx_out_dir_path :: string
  dx_local_path :: string
  dx_local_path_fallback :: "string option"
  dx_managed :: bool
  dx_queue :: "extract_task list"
  dx_current :: "extract_task option"
  dx_shutdown :: bool
  dx_listeners :: "nat list"

definition new_dispatch :: "string \<Rightarrow> string \<Rightarrow> string option \<Rightarrow> bool \<Rightarrow> dispatch" where
  "new_dispatch out_dir_path local_path local_path_fallback managed =
     \<lparr>dx_out_dir_path = out_dir_path, dx_local_path = local_path, dx_local_path_fallback = local_path_fallback,
      dx_managed = managed, dx_queue = [], dx_current = None, dx_shutdown = False, dx_listeners = []\<rparr>"

definition dispatch_add_listener :: "nat \<Rightarrow> dispatch \<Rightarrow> dispatch" where
  "dispatch_add_listener l d = d\<lparr>dx_listeners := dx_listeners d @ [l]\<rparr>"

definition set_base_paths :: "string \<Rightarrow> string \<Rightarrow> string option \<Rightarrow> dispatch \<Rightarrow> dispatch" where
  "set_base_paths out_dir_path local_path local_path_fallback d =
     d\<lparr>dx_out_dir_path := out_dir_path, dx_local_path := local_path,
       dx_local_path_fallback := local_path_fallback\<rparr>"

definition stop_dispatch :: "dispatch \<Rightarrow> dispatch" where
  "stop_dispatch d = d\<lparr>dx_shutdown := True\<rparr>"

record extract_status =
  xs_name :: string
  xs_is_dir :: bool
  xs_file_id :: string
  xs_path_pair_id :: "string option"

definition dispatch_status :: "dispatch \<Rightarrow> extract_status list" where
  "dispatch_status d = map (\<lambda>t. \<lparr>xs_name = tk_root_name t, xs_is_dir = tk_root_is_dir t,
     xs_file_id = tk_root_file_id t, xs_path_pair_id = tk_path_pair_id t\<rparr>) (dx_queue d)"

datatype extract_item = Request extract_request | File model_file

definition normalize_extract_request :: "dispatch \<Rightarrow> extract_item \<Rightarrow> extract_request" where
  "normalize_extract_request d item =
     (case item of
        Request req \<Rightarrow> req
      | File f \<Rightarrow> new_extract_request f (dx_local_path d) (dx_out_dir_path d) (fa_path_pair_id (attrs f))
                    (dx_local_path_fallback d) None)"

definition dispatch_extract :: "disk_probe \<Rightarrow> extract_item \<Rightarrow> dispatch \<Rightarrow> unit result \<times> dispatch" where
  "dispatch_extract probe item d =
     (let req = normalize_extract_request d item in
      case build_task probe req of
        Inl e \<Rightarrow> (Inl e, d)
      | Inr task \<Rightarrow>
          if file_id (er_model_file req) \<in> set (map tk_root_file_id (dx_queue d)) then (Inr (), d)
          else (Inr (), d\<lparr>dx_queue := dx_queue d @ [task]\<rparr>))"

section \<open>The worker\<close>

datatype call_outcome = Returned | RaisedExtractError | RaisedOSError | RaisedOther

record archive_env =
  ev_shutdown :: bool
  ev_extract :: call_outcome
  ev_marker :: call_outcome

datatype extraction =
    Extracted string string
  | Marked string string string "string option"

definition archive_out_dir :: "bool \<Rightarrow> task_archive \<Rightarrow> string" where
  "archive_out_dir managed a =
     (if managed \<and> casefold (basename (normpath (ta_out_dir_path a))) \<noteq>
           casefold (build_managed_extract_folder_name (ta_archive_name a))
      then build_managed_extract_folder_path (ta_out_dir_path a) (ta_archive_name a)
      else ta_out_dir_path a)"

text \<open>The loop over the archives of one task; \<open>env k\<close> is what happens at the turn of the k-th one. The
  result is what was done on the disk, and \<open>completed\<close>.\<close>

fun run_archives :: "bool \<Rightarrow> (nat \<Rightarrow> archive_env) \<Rightarrow> nat \<Rightarrow> task_archive list \<Rightarrow> extraction list \<times> bool" where
  "run_archives managed env k [] = ([], True)"
| "run_archives managed env k (a # as) =
     (let out = archive_out_dir managed a;
          done = Extracted (ta_archive_path a) out;
          mark = Marked out (ta_archive_name a) (ta_archive_file_id a) (ta_path_pair_id a);
          (rest, completed) = run_archives managed env (Suc k) as
      in if ev_shutdown (env k) \<or> ev_extract (env k) \<noteq> Returned then ([], False)
         else if \<not> managed then (done # rest, completed)
         else if ev_marker (env k) \<noteq> Returned then ([done], False)
         else (done # mark # rest, completed))"

text \<open>The worker takes the first task, if there is one and no shutdown is requested; when it is done
  with it, it removes the first task of the queue and tells every listener.\<close>

definition take_task :: "dispatch \<Rightarrow> dispatch option" where
  "take_task d =
     (case (dx_current d, dx_queue d) of
        (None, t # _) \<Rightarrow> if dx_shutdown d then None else Some (d\<lparr>dx_current := Some t\<rparr>)
      | _ \<Rightarrow> None)"

record notification =
  nt_listener :: nat
  nt_completed :: bool
  nt_name :: string
  nt_is_dir :: bool
  nt_file_id :: string
  nt_path_pair_id :: "string option"

definition notify_task :: "extract_task \<Rightarrow> bool \<Rightarrow> nat \<Rightarrow> notification" where
  "notify_task t completed l =
     \<lparr>nt_listener = l, nt_completed = completed, nt_name = tk_root_name t, nt_is_dir = tk_root_is_dir t,
      nt_file_id = tk_root_file_id t, nt_path_pair_id = tk_path_pair_id t\<rparr>"

definition finish_task :: "(nat \<Rightarrow> archive_env) \<Rightarrow> dispatch \<Rightarrow> (extraction list \<times> notification list \<times> dispatch) option" where
  "finish_task env d =
     (case dx_current d of
        None \<Rightarrow> None
      | Some t \<Rightarrow>
          (let (effects, completed) = run_archives (dx_managed d) env 0 (tk_archive_paths t);
               d1 = d\<lparr>dx_queue := tl (dx_queue d), dx_current := None\<rparr>
           in Some (effects, map (notify_task t completed) (dx_listeners d), d1)))"

section \<open>Which archives a directory contributes\<close>

text \<open>The files of a tree, by recursion over the tree.\<close>

fun tree_files :: "model_file \<Rightarrow> model_file list" where
  "tree_files (ModelFile a cs) = (if a_is_dir a then concat (map tree_files cs) else [ModelFile a cs])"

lemma tree_files_unfold: "tree_files f = (if a_is_dir (attrs f) then concat (map tree_files (kids f)) else [f])"
  by (cases f) simp

text \<open>The breadth first search meets every file of the trees exactly once.\<close>

lemma collect_archives_files:
  "mset (collect_archives probe req fs) =
   mset (List.map_filter (file_archive probe req) (concat (map tree_files fs)))"
proof (induction probe req fs rule: collect_archives.induct)
  case (2 probe req f frontier)
  show ?case
  proof (cases "a_is_dir (attrs f)")
    case True
    then show ?thesis using "2.IH"(1) by (simp add: map_filter_def tree_files_unfold[of f] ac_simps)
  next
    case False
    then show ?thesis
      using "2.IH"(2) by (simp add: map_filter_def tree_files_unfold[of f] split: option.splits)
  qed
qed (simp add: map_filter_def)

definition directory_archives :: "disk_probe \<Rightarrow> extract_request \<Rightarrow> task_archive set" where
  "directory_archives probe req =
     {a. \<exists>g\<in>set (tree_files (er_model_file req)). file_archive probe req g = Some a \<and>
        \<not> split_rar_ext (snd (splitext (basename (ta_archive_path a))))}"

lemma set_coalesced:
  "set (coalesce_extractions (collect_archives probe req [f])) =
   {a. \<exists>g\<in>set (tree_files f). file_archive probe req g = Some a \<and>
      \<not> split_rar_ext (snd (splitext (basename (ta_archive_path a))))}"
proof -
  have "set (collect_archives probe req [f]) = set (List.map_filter (file_archive probe req) (tree_files f))"
    using arg_cong[OF collect_archives_files[of probe req "[f]"], of set_mset] by simp
  then show ?thesis by (auto simp: coalesce_extractions_def map_filter_def image_iff)
qed

lemma build_task_task:
  assumes "build_task probe req = Inr t"
  shows "tk_root_file_id t = file_id (er_model_file req) \<and> tk_archive_paths t \<noteq> []"
  using assms by (auto simp: build_task_def Let_def split: if_splits prod.splits option.splits)

lemma build_task_dir:
  assumes "a_is_dir (attrs (er_model_file req))" "build_task probe req = Inr t"
  shows "tk_archive_paths t = coalesce_extractions (collect_archives probe req [er_model_file req])"
  using assms by (auto simp: build_task_def Let_def split: if_splits)

section \<open>The state machine\<close>

datatype dispatch_event =
    Accepted extract_task
  | Taken extract_task
  | Finished extract_task "extraction list" "notification list"

text \<open>A request that raises, or names a file that is already queued, leaves the queue and makes no event.\<close>

inductive dispatch_step :: "dispatch \<times> dispatch_event list \<Rightarrow> dispatch \<times> dispatch_event list \<Rightarrow> bool" where
  request: "dispatch_extract probe item d = (r, d') \<Longrightarrow>
    dispatch_step (d, tr) (d', tr @ map Accepted (drop (length (dx_queue d)) (dx_queue d')))"
| listen: "dispatch_step (d, tr) (dispatch_add_listener l d, tr)"
| rebase: "dispatch_step (d, tr) (set_base_paths out_dir_path local_path local_path_fallback d, tr)"
| halt: "dispatch_step (d, tr) (stop_dispatch d, tr)"
| begin_task: "take_task d = Some d' \<Longrightarrow> dispatch_step (d, tr) (d', tr @ [Taken (the (dx_current d'))])"
| end_task: "finish_task env d = Some (effects, told, d') \<Longrightarrow>
    \<forall>k. ev_shutdown (env k) \<longrightarrow> dx_shutdown d \<Longrightarrow>
    dispatch_step (d, tr) (d', tr @ [Finished (the (dx_current d)) effects told])"

inductive_cases dispatch_stepE: "dispatch_step s s'"

definition accepted_tasks :: "dispatch_event list \<Rightarrow> extract_task list" where
  "accepted_tasks tr = List.map_filter (\<lambda>e. case e of Accepted t \<Rightarrow> Some t | _ \<Rightarrow> None) tr"

definition taken_tasks :: "dispatch_event list \<Rightarrow> extract_task list" where
  "taken_tasks tr = List.map_filter (\<lambda>e. case e of Taken t \<Rightarrow> Some t | _ \<Rightarrow> None) tr"

definition finished_tasks :: "dispatch_event list \<Rightarrow> extract_task list" where
  "finished_tasks tr = List.map_filter (\<lambda>e. case e of Finished t _ _ \<Rightarrow> Some t | _ \<Rightarrow> None) tr"

lemma map_filter_append [simp]: "List.map_filter g (xs @ ys) = List.map_filter g xs @ List.map_filter g ys"
  by (simp add: map_filter_def)

lemmas trace_defs = accepted_tasks_def taken_tasks_def finished_tasks_def

text \<open>The queue is what was accepted and is not finished, in the order of acceptance, with one task for
  a root; the worker is at its first task.\<close>

definition dispatch_inv :: "dispatch \<times> dispatch_event list \<Rightarrow> bool" where
  "dispatch_inv s \<longleftrightarrow> (case s of (d, tr) \<Rightarrow>
     accepted_tasks tr = finished_tasks tr @ dx_queue d \<and>
     taken_tasks tr = finished_tasks tr @ (case dx_current d of None \<Rightarrow> [] | Some t \<Rightarrow> [t]) \<and>
     (case dx_current d of None \<Rightarrow> True | Some t \<Rightarrow> dx_queue d \<noteq> [] \<and> hd (dx_queue d) = t) \<and>
     distinct (map tk_root_file_id (dx_queue d)) \<and>
     list_all (\<lambda>t. tk_archive_paths t \<noteq> []) (dx_queue d))"

lemma extract_queue:
  assumes "dispatch_extract probe item d = (r, d')"
  obtains "d' = d"
  | t where "d' = d\<lparr>dx_queue := dx_queue d @ [t]\<rparr>" "tk_root_file_id t \<notin> set (map tk_root_file_id (dx_queue d))"
      "tk_archive_paths t \<noteq> []"
  using assms build_task_task[of probe "normalize_extract_request d item"]
  by (auto simp: dispatch_extract_def Let_def split: sum.splits if_splits)

lemma take_task_some:
  assumes "take_task d = Some d'"
  obtains t q where "dx_queue d = t # q" "dx_current d = None" "\<not> dx_shutdown d" "d' = d\<lparr>dx_current := Some t\<rparr>"
  using assms by (auto simp: take_task_def split: option.splits list.splits if_splits)

lemma finish_task_some:
  assumes "finish_task env d = Some (effects, told, d')"
  obtains t where "dx_current d = Some t" "d' = d\<lparr>dx_queue := tl (dx_queue d), dx_current := None\<rparr>"
    "effects = fst (run_archives (dx_managed d) env 0 (tk_archive_paths t))"
    "told = map (notify_task t (snd (run_archives (dx_managed d) env 0 (tk_archive_paths t)))) (dx_listeners d)"
  using assms by (auto simp: finish_task_def split: option.splits prod.splits)

lemma dispatch_step_inv: "dispatch_inv s \<Longrightarrow> dispatch_step s s' \<Longrightarrow> dispatch_inv s'"
proof (elim dispatch_stepE)
  fix probe item d r d' tr
  assume inv: "dispatch_inv s" and s: "s = (d, tr)"
    "s' = (d', tr @ map Accepted (drop (length (dx_queue d)) (dx_queue d')))"
    and run: "dispatch_extract probe item d = (r, d')"
  from run show ?thesis
    by (rule extract_queue) (use inv s in \<open>auto simp: dispatch_inv_def trace_defs map_filter_def split: option.splits\<close>)
next
  fix d d' tr
  assume inv: "dispatch_inv s" and s: "s = (d, tr)" "s' = (d', tr @ [Taken (the (dx_current d'))])"
    and run: "take_task d = Some d'"
  from run show ?thesis
    by (rule take_task_some) (use inv s in \<open>auto simp: dispatch_inv_def trace_defs map_filter_def\<close>)
next
  fix env d effects told d' tr
  assume inv: "dispatch_inv s" and s: "s = (d, tr)" "s' = (d', tr @ [Finished (the (dx_current d)) effects told])"
    and run: "finish_task env d = Some (effects, told, d')"
  from run obtain t where t: "dx_current d = Some t" "d' = d\<lparr>dx_queue := tl (dx_queue d), dx_current := None\<rparr>"
    by (rule finish_task_some)
  with inv s obtain q where "dx_queue d = t # q" by (cases "dx_queue d") (auto simp: dispatch_inv_def)
  with t inv s show ?thesis by (auto simp: dispatch_inv_def trace_defs map_filter_def)
qed (auto simp: dispatch_inv_def dispatch_add_listener_def set_base_paths_def stop_dispatch_def split: option.splits)

definition dispatch_init :: "dispatch \<times> dispatch_event list \<Rightarrow> bool" where
  "dispatch_init s \<longleftrightarrow> (\<exists>a b c m. s = (new_dispatch a b c m, []))"

interpretation dispatcher: invariant_system dispatch_init dispatch_step dispatch_inv
proof unfold_locales
  fix s assume "dispatch_init s"
  then show "dispatch_inv s"
    by (auto simp: dispatch_init_def dispatch_inv_def new_dispatch_def trace_defs map_filter_def)
qed (rule dispatch_step_inv)

section \<open>The worker empties the queue\<close>

text \<open>Whatever an extraction does, the task leaves the queue and every listener is told once. A worker
  that is not asked to stop therefore gets through the tasks it finds, in their order.\<close>

definition told_tasks :: "dispatch_event list \<Rightarrow> (extract_task \<times> notification list) list" where
  "told_tasks tr = List.map_filter (\<lambda>e. case e of Finished t _ ns \<Rightarrow> Some (t, ns) | _ \<Rightarrow> None) tr"

text \<open>\<open>completed\<close>: no call of the task raised and no shutdown was seen.\<close>

definition all_returned :: "bool \<Rightarrow> (nat \<Rightarrow> archive_env) \<Rightarrow> nat \<Rightarrow> bool" where
  "all_returned managed env n \<longleftrightarrow> list_all (\<lambda>k. \<not> ev_shutdown (env k) \<and> ev_extract (env k) = Returned \<and>
     (managed \<longrightarrow> ev_marker (env k) = Returned)) [0..<n]"

lemma run_archives_completed:
  "snd (run_archives managed env k as) \<longleftrightarrow> list_all (\<lambda>j. \<not> ev_shutdown (env j) \<and> ev_extract (env j) = Returned \<and>
     (managed \<longrightarrow> ev_marker (env j) = Returned)) [k..<k + length as]"
proof (induction as arbitrary: k)
  case (Cons a as)
  have "[k..<k + length (a # as)] = k # [Suc k..<Suc k + length as]" by (simp add: upt_rec)
  with Cons[of "Suc k"] show ?case by (auto simp: Let_def split: prod.splits)
qed simp

definition task_notices :: "bool \<Rightarrow> nat list \<Rightarrow> (extract_task \<Rightarrow> nat \<Rightarrow> archive_env) \<Rightarrow> extract_task \<Rightarrow> notification list" where
  "task_notices managed ls envs t = map (notify_task t (all_returned managed (envs t) (length (tk_archive_paths t)))) ls"

lemma one_task:
  assumes "dx_queue d = t # q" "dx_current d = None" "\<not> dx_shutdown d" "\<forall>k. \<not> ev_shutdown (envs t k)"
  shows "\<exists>tr'. rtranclp dispatch_step (d, tr) (d\<lparr>dx_queue := q\<rparr>, tr @ tr') \<and>
    told_tasks tr' = [(t, task_notices (dx_managed d) (dx_listeners d) envs t)]"
proof -
  let ?d = "d\<lparr>dx_current := Some t\<rparr>"
  let ?r = "run_archives (dx_managed d) (envs t) 0 (tk_archive_paths t)"
  let ?told = "map (notify_task t (snd ?r)) (dx_listeners d)"
  have "dispatch_step (d, tr) (?d, tr @ [Taken t])"
    using dispatch_step.begin_task[of d ?d tr] assms by (simp add: take_task_def)
  moreover have "finish_task (envs t) ?d = Some (fst ?r, ?told, d\<lparr>dx_queue := q\<rparr>)"
    using assms by (simp add: finish_task_def split: prod.splits)
  then have "dispatch_step (?d, tr @ [Taken t]) (d\<lparr>dx_queue := q\<rparr>, (tr @ [Taken t]) @ [Finished t (fst ?r) ?told])"
    using dispatch_step.end_task[of "envs t" ?d "fst ?r" ?told _ "tr @ [Taken t]"] assms(4) by simp
  ultimately have "rtranclp dispatch_step (d, tr) (d\<lparr>dx_queue := q\<rparr>, tr @ [Taken t, Finished t (fst ?r) ?told])"
    by (simp add: converse_rtranclp_into_rtranclp)
  moreover have "?told = task_notices (dx_managed d) (dx_listeners d) envs t"
    by (simp add: task_notices_def run_archives_completed all_returned_def)
  ultimately show ?thesis
    by (intro exI[of _ "[Taken t, Finished t (fst ?r) ?told]"]) (simp add: told_tasks_def map_filter_def)
qed

lemma worker_drains:
  assumes "dx_current d = None" "\<not> dx_shutdown d" "\<forall>t k. \<not> ev_shutdown (envs t k)"
  shows "\<exists>tr'. rtranclp dispatch_step (d, tr) (d\<lparr>dx_queue := []\<rparr>, tr @ tr') \<and>
    told_tasks tr' = map (\<lambda>t. (t, task_notices (dx_managed d) (dx_listeners d) envs t)) (dx_queue d)"
  using assms
proof (induction "dx_queue d" arbitrary: d tr)
  case Nil
  then have same: "d\<lparr>dx_queue := []\<rparr> = d" by (cases d) simp
  show ?case
    unfolding same Nil.hyps[symmetric] by (intro exI[of _ "[]"]) (simp add: told_tasks_def map_filter_def)
next
  case (Cons t q)
  obtain tr1 where 1: "rtranclp dispatch_step (d, tr) (d\<lparr>dx_queue := q\<rparr>, tr @ tr1)"
    "told_tasks tr1 = [(t, task_notices (dx_managed d) (dx_listeners d) envs t)]"
    using one_task[of d t q envs tr] Cons.hyps(2) Cons.prems by auto
  obtain tr2 where 2: "rtranclp dispatch_step (d\<lparr>dx_queue := q\<rparr>, tr @ tr1) (d\<lparr>dx_queue := []\<rparr>, (tr @ tr1) @ tr2)"
    "told_tasks tr2 = map (\<lambda>t. (t, task_notices (dx_managed d) (dx_listeners d) envs t)) q"
    using Cons.hyps(1)[of "d\<lparr>dx_queue := q\<rparr>" "tr @ tr1"] Cons.prems by auto
  have "told_tasks (tr1 @ tr2) = told_tasks tr1 @ told_tasks tr2" by (simp add: told_tasks_def)
  with 1 2 Cons.hyps(2)[symmetric] show ?case
    by (intro exI[of _ "tr1 @ tr2"]) (auto intro: rtranclp_trans)
qed

end
