(* ===== verification/Service_Properties.thy ===== *)
theory Service_Properties
  imports Lftp_Status Remote_Path Extract_Dispatch
begin

text \<open>The properties of the transfer services: LFTP sidecar files, quoting for a remote shell, and the
  extraction queue, with their witnesses.\<close>

section \<open>LFTP sidecar files\<close>

text \<open>An accepted sidecar never reports more than it proves. With segments, they lie within the file
  and do not overlap, and the covered size is the number of bytes of the file outside every gap from a
  segment's position to its limit; with a position alone, the covered size is that position.\<close>

theorem pget_coverage_counts_bytes:
  assumes "parse_lftp_pget_status text = Some st"
  shows "0 \<le> ps_covered_size st \<and> ps_covered_size st \<le> ps_total_size st \<and>
    (if ps_base_only st
     then \<exists>first l. status_lines text = [first, l] \<and> ps_covered_size st = field_value l
     else ranges_ok (ps_total_size st) (segment_holes (tl (status_lines text))) \<and>
       ps_covered_size st = int (card (hole_free (ps_total_size st) (segment_holes (tl (status_lines text))))))"
proof -
  let ?t = "ps_total_size st" and ?h = "segment_holes (tl (status_lines text))"
  have "hole_free ?t ?h \<subseteq> {0..<?t}" by (auto simp: hole_free_def)
  then have "card (hole_free ?t ?h) \<le> card {0..<?t}" by (rule card_mono[rotated]) simp
  with parse_status_ok[OF assms] show ?thesis by (auto split: if_splits)
qed

definition sample_status :: string where
  "sample_status = ''size=1000'' @ ''\<newline>'' @ ''0.pos=200'' @ ''\<newline>'' @ ''0.limit=500'' @ ''\<newline>'' @
     ''1.pos=700'' @ ''\<newline>'' @ ''1.limit=1000'' @ ''\<newline>''"

lemma sample_status_parsed:
  "parse_lftp_pget_status sample_status = Some \<lparr>ps_total_size = 1000, ps_covered_size = 400, ps_base_only = False\<rparr>"
  by code_simp

theorem pget_coverage_counts_bytes_witness:
  "(400::int) = int (card (hole_free 1000 (segment_holes (tl (status_lines sample_status)))))"
  using pget_coverage_counts_bytes[OF sample_status_parsed] by simp

text \<open>The sidecar LFTP writes for given segments is read back: it is accepted exactly when the
  segments lie within the file without overlapping, and then the covered size is the size of the file
  less what the segments still miss.\<close>

theorem written_pget_status_is_read:
  assumes "utf8_length (written_status n segs) \<le> MAX_LFTP_PGET_STATUS_BYTES" "short_numbers n segs"
    "segs \<noteq> []" "length segs \<le> MAX_LFTP_PGET_SEGMENTS"
  shows "parse_lftp_pget_status (written_status n segs) =
    (if ranges_ok (int n) (int_ranges segs)
     then Some \<lparr>ps_total_size = int n,
       ps_covered_size = int n - sum_list (map (\<lambda>(p, l). l - p) (int_ranges segs)), ps_base_only = False\<rparr>
     else None)"
  by (rule parse_written[OF assms])

theorem written_pget_status_is_read_witness:
  "parse_lftp_pget_status (written_status 9 [(1, 3), (2, 5)]) = None"
proof -
  have "utf8_length (written_status 9 [(1, 3), (2, 5)]) \<le> MAX_LFTP_PGET_STATUS_BYTES"
    by code_simp
  moreover have "short_numbers 9 [(1, 3), (2, 5)]" by code_simp
  moreover have "\<not> ranges_ok (int 9) (int_ranges [(1, 3), (2, 5)])" by (simp add: ranges_ok_def)
  ultimately show ?thesis
    using written_pget_status_is_read[of 9 "[(1, 3), (2, 5)]"] by (simp add: MAX_LFTP_PGET_SEGMENTS_def)
qed

section \<open>Quoting\<close>

text \<open>A remote shell reads an escaped path as one word with exactly the characters of the path, of
  which only safe ones are unquoted, and the tilde in front when its expansion is asked for. Excluded is
  a home directory followed by a line feed where expansion is allowed.\<close>

theorem escaped_path_is_one_word:
  assumes "ends_word r" "\<not> allow \<or> \<not> safe_tilde_prefix path \<or> CHR ''/'' \<in> set path \<or> CHR 0x0A \<notin> set path"
  shows "\<exists>w. shell_word Plain (escape_remote_path_for_shell path allow @ r) = Some (w, r) \<and> map fst w = path \<and>
    list_all (\<lambda>(c, q). q \<or> safe_char c) (if allow \<and> safe_tilde_prefix path then tl w else w)"
  by (rule escaped_read) (use assms in blast)+

theorem escaped_path_is_one_word_witness:
  "\<exists>w. shell_word Plain (escape_remote_path_for_shell ''~me/a; $(b)'' True @ '' x'') = Some (w, '' x'') \<and>
     map fst w = ''~me/a; $(b)'' \<and> list_all (\<lambda>(c, q). q \<or> safe_char c) (tl w)"
proof -
  have "ends_word '' x''" by code_simp
  moreover have "safe_tilde_prefix ''~me/a; $(b)''" by code_simp
  ultimately show ?thesis
    using escaped_path_is_one_word[of "'' x''" True "''~me/a; $(b)''"] by simp
qed

text \<open>The excluded case: the line feed is not quoted, so it ends the word, and the command with it.\<close>

theorem home_with_line_feed_is_not_quoted:
  assumes "list_all user_char u"
  shows "shell_word Plain (escape_remote_path_for_shell (CHR ''~'' # u @ ''\<newline>'') True @ r) =
     Some (unquoted (CHR ''~'' # u), ''\<newline>'' @ r)"
  by (rule newline_read[OF assms])

theorem home_with_line_feed_is_not_quoted_witness:
  "shell_word Plain (escape_remote_path_for_shell (''~me'' @ ''\<newline>'') True @ '' x'') =
     Some (unquoted ''~me'', ''\<newline>'' @ '' x'')"
proof -
  have "list_all user_char ''me''" by code_simp
  then show ?thesis using home_with_line_feed_is_not_quoted[of "''me''" "'' x''"] by simp
qed

section \<open>Extraction\<close>

definition sample_probe :: disk_probe where
  "sample_probe p = (if endswith p ''.zip'' then Some \<lparr>ap_is_zip = True, ap_is_tar = False, ap_header = None\<rparr> else None)"

definition sample_archive :: "string \<Rightarrow> model_file" where
  "sample_archive name = upd (put_local_size (Some 10)) (new_model_file 1 0 name False)"

definition sample_dispatch :: dispatch where
  "sample_dispatch = dispatch_add_listener 7 (new_dispatch ''/out'' ''/local'' None True)"

definition sample_queue :: dispatch where
  "sample_queue = snd (dispatch_extract sample_probe (File (sample_archive ''a.zip'')) sample_dispatch)"

text \<open>C34. The extraction queue over any interleaving of requests, changes of listeners and paths, a stop
  and the steps of the worker: what was accepted is what was finished followed by what is queued, in one
  order; the worker takes the tasks in that order and is always at the first of the queue; no root is
  queued twice, and no task is without archives.\<close>

theorem extraction_queue_is_fifo:
  assumes "dispatch_init s" "rtranclp dispatch_step s (d, tr)"
  shows "accepted_tasks tr = finished_tasks tr @ dx_queue d \<and>
    taken_tasks tr = finished_tasks tr @ (case dx_current d of None \<Rightarrow> [] | Some t \<Rightarrow> [t]) \<and>
    (case dx_current d of None \<Rightarrow> True | Some t \<Rightarrow> dx_queue d \<noteq> [] \<and> hd (dx_queue d) = t) \<and>
    distinct (map tk_root_file_id (dx_queue d)) \<and>
    list_all (\<lambda>t. tk_archive_paths t \<noteq> []) (dx_queue d)"
  using dispatcher.reachable_inv[OF assms] by (simp add: dispatch_inv_def)

lemma sample_queue_queue: "dx_queue sample_queue =
    [\<lparr>tk_root_name = ''a.zip'', tk_root_is_dir = False, tk_root_file_id = ''a.zip'', tk_path_pair_id = None,
      tk_archive_paths = [\<lparr>ta_archive_path = ''/local/a.zip'', ta_out_dir_path = ''/out'', ta_archive_name = ''a.zip'',
        ta_archive_file_id = ''a.zip'', ta_path_pair_id = None\<rparr>]\<rparr>]"
  by code_simp

theorem extraction_queue_is_fifo_witness:
  "accepted_tasks (map Accepted (dx_queue sample_queue)) = finished_tasks (map Accepted (dx_queue sample_queue)) @ dx_queue sample_queue \<and>
   dx_queue sample_queue \<noteq> []"
proof -
  let ?d0 = "new_dispatch ''/out'' ''/local'' None True"
  have "dispatch_step (?d0, []) (sample_dispatch, [])"
    unfolding sample_dispatch_def by (rule dispatch_step.listen)
  moreover have "dispatch_step (sample_dispatch, [])
      (sample_queue, [] @ map Accepted (drop (length (dx_queue sample_dispatch)) (dx_queue sample_queue)))"
    unfolding sample_queue_def by (rule dispatch_step.request) (rule prod.collapse[symmetric])
  moreover have "dx_queue sample_dispatch = []" by code_simp
  ultimately have "rtranclp dispatch_step (?d0, []) (sample_queue, map Accepted (dx_queue sample_queue))"
    by (simp add: converse_rtranclp_into_rtranclp)
  moreover have "dispatch_init (?d0, [])" by (auto simp: dispatch_init_def)
  ultimately show ?thesis
    using extraction_queue_is_fifo[of "(?d0, [])" sample_queue] by (simp add: sample_queue_queue)
qed

text \<open>A request for a directory raises exactly when no file in its tree is a local, recognised archive
  other than a later volume of a split one; otherwise the task holds exactly the archives of those files,
  wherever they are in the tree, each from the local path or the fallback path.\<close>

theorem directory_task_has_every_archive:
  assumes "a_is_dir (attrs (er_model_file req))"
  shows "(case build_task probe req of
      Inl e \<Rightarrow> e = dispatch_error (''Directory does not contain any archives: '' @ mf_name (er_model_file req)) \<and>
        directory_archives probe req = {}
    | Inr t \<Rightarrow> set (tk_archive_paths t) = directory_archives probe req \<and> directory_archives probe req \<noteq> {})"
proof -
  have e: "directory_archives probe req = set (coalesce_extractions (collect_archives probe req [er_model_file req]))"
    unfolding directory_archives_def by (rule set_coalesced[symmetric])
  show ?thesis
    unfolding e using assms by (simp add: build_task_def Let_def del: collect_archives.simps)
qed

definition sample_directory :: extract_request where
  "sample_directory = new_extract_request
     (ModelFile (attrs (new_model_file 2 0 ''d'' True)) [adopt ''d'' (sample_archive ''a.zip''), adopt ''d'' (sample_archive ''b.txt'')])
     ''/local'' ''/out'' None None None"

theorem directory_task_has_every_archive_witness:
  "(case build_task sample_probe sample_directory of
      Inl e \<Rightarrow> False
    | Inr t \<Rightarrow> set (tk_archive_paths t) = directory_archives sample_probe sample_directory \<and>
        map ta_archive_path (tk_archive_paths t) = [''/local/d/a.zip''])"
proof -
  have "a_is_dir (attrs (er_model_file sample_directory))" by code_simp
  moreover have "(case build_task sample_probe sample_directory of Inl e \<Rightarrow> False
    | Inr t \<Rightarrow> map ta_archive_path (tk_archive_paths t) = [''/local/d/a.zip''])" by code_simp
  ultimately show ?thesis
    using directory_task_has_every_archive[of sample_directory sample_probe] by (auto split: sum.splits)
qed

text \<open>Whatever its extractions do, a worker that is not asked to stop can always get on: from any state
  in which it is idle it reaches the empty queue, having told every listener once of every task, in the
  order of the queue; a task is reported as completed exactly when none of its calls raised.\<close>

theorem worker_empties_the_queue:
  assumes "dx_current d = None" "\<not> dx_shutdown d" "\<forall>t k. \<not> ev_shutdown (envs t k)"
  shows "\<exists>tr'. rtranclp dispatch_step (d, tr) (d\<lparr>dx_queue := []\<rparr>, tr @ tr') \<and>
    told_tasks tr' = map (\<lambda>t. (t, map (notify_task t (all_returned (dx_managed d) (envs t) (length (tk_archive_paths t))))
      (dx_listeners d))) (dx_queue d)"
  using worker_drains[OF assms] by (simp add: task_notices_def)

theorem worker_empties_the_queue_witness:
  "\<exists>tr'. rtranclp dispatch_step (sample_queue, []) (sample_queue\<lparr>dx_queue := []\<rparr>, tr') \<and>
     map (\<lambda>(t, ns). (tk_root_name t, map nt_completed ns)) (told_tasks tr') = [(''a.zip'', [False])]"
proof -
  let ?envs = "\<lambda>t k. \<lparr>ev_shutdown = False, ev_extract = RaisedOther, ev_marker = Returned\<rparr>"
  have "dx_current sample_queue = None" "\<not> dx_shutdown sample_queue" "dx_listeners sample_queue = [7]"
    by code_simp+
  with worker_empties_the_queue[of sample_queue ?envs "[]"] show ?thesis
    by (auto simp: sample_queue_queue notify_task_def all_returned_def)
qed

end
