(* ===== verification/Config_Values.thy ===== *)
theory Config_Values
  imports Py_Text
begin

text \<open>
  \<open>common/config.py\<close>, part one: the converters, which turn the text of a setting into its native
  type, and the checkers, which a value passes before it is stored.

  A \<open>ConfigError\<close> carries the reason of its message. \<open>json.loads\<close>, which the checker of the
  breadcrumb policy calls, is the argument \<open>loads\<close>; it gives \<open>None\<close> for a text it refuses.
\<close>

section \<open>Python operations\<close>

abbreviation config_error :: "string \<Rightarrow> py_error" where
  "config_error reason \<equiv> AppError ''ConfigError'' reason"

abbreviation attribute_error :: py_error where
  "attribute_error \<equiv> AppError ''AttributeError'' []"

definition truthy :: "pyval \<Rightarrow> bool" where
  "truthy v = (case v of
     PNone \<Rightarrow> False | PBool b \<Rightarrow> b | PInt n \<Rightarrow> n \<noteq> 0 | PFloat f \<Rightarrow> f \<noteq> FFinite 0 | PStr s \<Rightarrow> s \<noteq> []
   | PDate _ \<Rightarrow> True | PEnum _ _ \<Rightarrow> True | PList xs \<Rightarrow> xs \<noteq> [] | PDict d \<Rightarrow> d \<noteq> [])"

text \<open>\<open>v < n\<close> and \<open>v > n\<close> against an integer, on values of any type.\<close>

definition py_less :: "pyval \<Rightarrow> int \<Rightarrow> bool result" where
  "py_less v n = (case v of
     PInt m \<Rightarrow> Inr (m < n) | PBool b \<Rightarrow> Inr ((if b then 1 else 0) < n)
   | PFloat (FFinite q) \<Rightarrow> Inr (q < of_int n) | PFloat (FInf pos) \<Rightarrow> Inr (\<not> pos) | PFloat FNaN \<Rightarrow> Inr False
   | _ \<Rightarrow> Inl TypeError)"

definition py_greater :: "pyval \<Rightarrow> int \<Rightarrow> bool result" where
  "py_greater v n = (case v of
     PInt m \<Rightarrow> Inr (m > n) | PBool b \<Rightarrow> Inr ((if b then 1 else 0) > n)
   | PFloat (FFinite q) \<Rightarrow> Inr (q > of_int n) | PFloat (FInf pos) \<Rightarrow> Inr pos | PFloat FNaN \<Rightarrow> Inr False
   | _ \<Rightarrow> Inl TypeError)"

text \<open>\<open>str(n)\<close> and \<open>int(s)\<close>: a sign, digits with single underscores between them, white space around,
  and at most \<^term>\<open>4300::nat\<close> digits.\<close>

definition int_text :: "int \<Rightarrow> string" where
  "int_text n = (if n < 0 then CHR ''-'' # dec_text (nat (- n)) else dec_text (nat n))"

definition int_str :: "int \<Rightarrow> string result" where
  "int_str n = (if length (dec_text (nat \<bar>n\<bar>)) \<le> MAX_STR_DIGITS then Inr (int_text n) else Inl ValueError)"

fun digit_groups :: "string \<Rightarrow> bool" where
  "digit_groups [] = False"
| "digit_groups [c] = is_digit c"
| "digit_groups (c # d # s) = (is_digit c \<and> (if d = CHR ''_'' then digit_groups s else digit_groups (d # s)))"

definition int_of_str :: "string \<Rightarrow> int result" where
  "int_of_str s =
     (let t = strip s;
          (neg, body) = (case t of [] \<Rightarrow> (False, [])
             | c # r \<Rightarrow> if c = CHR ''-'' then (True, r) else if c = CHR ''+'' then (False, r) else (False, t));
          ds = filter is_digit body
      in if digit_groups body \<and> length ds \<le> MAX_STR_DIGITS
         then Inr (if neg then - decimal_value ds else decimal_value ds) else Inl ValueError)"

text \<open>\<open>str.upper\<close>: the sharp s becomes two letters; the two letters whose capitals are outside the range
  of the model stand for themselves.\<close>

definition upper :: "string \<Rightarrow> string" where
  "upper s = concat (map (\<lambda>c. let n = code_of c in
     if n = 223 then ''SS''
     else if (97 \<le> n \<and> n \<le> 122) \<or> (224 \<le> n \<and> n \<le> 254 \<and> n \<noteq> 247) then [char_of (n - 32)] else [c]) s)"

section \<open>Converters\<close>

definition strtobool :: "string \<Rightarrow> bool result" where
  "strtobool s =
     (let l = lower s in
      if l \<in> {''y'', ''yes'', ''t'', ''true'', ''on'', ''1''} then Inr True
      else if l \<in> {''n'', ''no'', ''f'', ''false'', ''off'', ''0''} then Inr False
      else Inl ValueError)"

definition normalize_choice :: "(string \<Rightarrow> string) \<Rightarrow> string set \<Rightarrow> string \<Rightarrow> pyval \<Rightarrow> pyval result" where
  "normalize_choice case_of choices reason v =
     (case v of
        PStr s \<Rightarrow>
          (let normalized = case_of (strip s) in
           if normalized = [] then Inl (config_error ''is empty'')
           else if normalized \<notin> choices then Inl (config_error reason) else Inr (PStr normalized))
      | _ \<Rightarrow> Inl (config_error reason))"

definition normalize_log_level :: "pyval \<Rightarrow> pyval result" where
  "normalize_log_level =
     normalize_choice upper {''DEBUG'', ''INFO'', ''WARNING'', ''ERROR'', ''CRITICAL''} ''must be a log level''"

definition normalize_log_format :: "pyval \<Rightarrow> pyval result" where
  "normalize_log_format = normalize_choice lower {''standard'', ''json''} ''must be either standard or json''"

definition normalize_transfer_protocol :: "pyval \<Rightarrow> pyval result" where
  "normalize_transfer_protocol = normalize_choice lower {''sftp'', ''ftps''} ''must be either sftp or ftps''"

definition normalize_transfer_backend :: "pyval \<Rightarrow> pyval" where
  "normalize_transfer_backend v =
     (case v of PStr s \<Rightarrow> (if lower (strip s) \<in> {''lftp'', ''rclone''} then PStr (lower (strip s)) else PStr ''lftp'')
      | _ \<Rightarrow> PStr ''lftp'')"

definition normalize_remote_python_path :: "pyval \<Rightarrow> pyval result" where
  "normalize_remote_python_path v =
     (case v of PNone \<Rightarrow> Inr (PStr ''python3'')
      | PStr s \<Rightarrow> Inr (PStr (if strip s = [] then ''python3'' else strip s))
      | _ \<Rightarrow> Inl (config_error ''must be a string value''))"

definition control_char :: "char \<Rightarrow> bool" where
  "control_char c = (code_of c < 32 \<or> code_of c = 127)"

definition reject_control_characters :: "string \<Rightarrow> string result" where
  "reject_control_characters s =
     (if list_ex control_char s then Inl (config_error ''contains control characters'') else Inr s)"

datatype config_converter = ConvNull | ConvInt | ConvBool | ConvLogLevel | ConvProtocol | ConvBackend | ConvPython

fun convert :: "config_converter \<Rightarrow> string \<Rightarrow> pyval result" where
  "convert ConvNull s = Inr (PStr s)"
| "convert ConvInt s =
     (if s = [] then Inl (config_error ''is empty'')
      else case int_of_str s of Inl e \<Rightarrow> Inl (config_error ''must be an integer value'') | Inr n \<Rightarrow> Inr (PInt n))"
| "convert ConvBool s =
     (if s = [] then Inl (config_error ''is empty'')
      else case strtobool s of Inl e \<Rightarrow> Inl (config_error ''must be a boolean value'') | Inr b \<Rightarrow> Inr (PBool b))"
| "convert ConvLogLevel s = normalize_log_level (PStr s)"
| "convert ConvProtocol s = normalize_transfer_protocol (PStr s)"
| "convert ConvBackend s = Inr (normalize_transfer_backend (PStr s))"
| "convert ConvPython s = normalize_remote_python_path (PStr s)"

section \<open>The breadcrumb policy\<close>

definition policy_level :: "pyval \<Rightarrow> bool" where
  "policy_level v =
     (case v of PStr s \<Rightarrow> lower (strip s) \<in> {''off'', ''error'', ''warning'', ''info'', ''debug'', ''trace''} | _ \<Rightarrow> False)"

text \<open>\<open>candidate.get(k1, candidate.get(k2, default))\<close>.\<close>

definition get_either :: "string \<Rightarrow> string \<Rightarrow> pyval \<Rightarrow> (string, pyval) dict \<Rightarrow> pyval" where
  "get_either k1 k2 dflt d =
     (case dict_get d k1 of Some v \<Rightarrow> v | None \<Rightarrow> (case dict_get d k2 of Some v \<Rightarrow> v | None \<Rightarrow> dflt))"

text \<open>\<open>item.split("=", 1)\<close> of an item with an equals sign, both parts stripped.\<close>

definition split_item :: "string \<Rightarrow> string \<times> string" where
  "split_item s = (strip (takeWhile (\<lambda>c. c \<noteq> CHR ''='') s), strip (drop 1 (dropWhile (\<lambda>c. c \<noteq> CHR ''='') s)))"

fun policy_items :: "string list \<Rightarrow> string option \<Rightarrow> (string, pyval) dict \<Rightarrow> (string option \<times> (string, pyval) dict) result" where
  "policy_items [] default_level rules = Inr (default_level, rules)"
| "policy_items (item # items) default_level rules =
     (let t = strip item; (category, level) = split_item t in
      if t = [] \<or> CHR ''='' \<notin> set t then Inl ValueError
      else if category = [] \<or> level = [] then Inl ValueError
      else if category \<in> {''*'', ''default'', ''default_level''} then policy_items items (Some level) rules
      else policy_items items default_level (dict_set category (PStr level) rules))"

definition policy_candidate :: "(string \<Rightarrow> pyval option) \<Rightarrow> string \<Rightarrow> (pyval \<times> bool) result" where
  "policy_candidate loads serialized =
     (case loads serialized of
        Some v \<Rightarrow> Inr (v, True)
      | None \<Rightarrow>
          (case policy_items (split_on (CHR '','') serialized) None [] of
             Inl e \<Rightarrow> Inl e
           | Inr (default_level, rules) \<Rightarrow>
               Inr (PDict [(''default'', PStr (case default_level of None \<Rightarrow> ''info'' | Some l \<Rightarrow> l)),
                           (''rules'', PDict rules)], False)))"

fun check_rules :: "(string, pyval) dict \<Rightarrow> (string, string) dict \<Rightarrow> (string, string) dict result" where
  "check_rules [] rules = Inr rules"
| "check_rules ((category, raw_level) # rest) rules =
     (let level = (case raw_level of PDict d \<Rightarrow> get_either ''level'' ''value'' PNone d | v \<Rightarrow> v) in
      if strip category = [] then Inl ValueError
      else if list_ex control_char category then Inl ValueError
      else case level of
        PStr s \<Rightarrow> if policy_level (PStr s) then check_rules rest (dict_set (strip category) (lower (strip s)) rules)
                  else Inl ValueError
      | _ \<Rightarrow> Inl ValueError)"

definition parse_breadcrumb_trace_policy :: "(string \<Rightarrow> pyval option) \<Rightarrow> pyval \<Rightarrow> (string, pyval) dict result" where
  "parse_breadcrumb_trace_policy loads value =
     (case value of
        PStr s \<Rightarrow>
          (if strip s = [] then Inl ValueError
           else case policy_candidate loads (strip s) of
             Inl e \<Rightarrow> Inl e
           | Inr (PDict candidate, parsed_json) \<Rightarrow>
               (let default_level = get_either ''default'' ''default_level'' (PStr ''info'') candidate;
                    listed = get_either ''rules'' ''categories'' PNone candidate;
                    raw_rules = (if listed = PNone
                      then PDict (filter (\<lambda>(k, _). k \<notin> {''default'', ''default_level'', ''rules'', ''categories''}) candidate)
                      else listed)
                in case default_level of
                     PStr dl \<Rightarrow>
                       if \<not> policy_level (PStr dl) then Inl ValueError
                       else (case raw_rules of
                          PDict rr \<Rightarrow>
                            (case check_rules rr [] of
                               Inl e \<Rightarrow> Inl e
                             | Inr rules \<Rightarrow>
                                 Inr (if parsed_json then candidate
                                   else [(''default'', PStr (lower (strip dl))),
                                         (''rules'', PDict (map (\<lambda>(k, l). (k, PStr l)) (sort_key fst rules)))]))
                        | _ \<Rightarrow> Inl ValueError)
                   | _ \<Rightarrow> Inl ValueError)
           | Inr _ \<Rightarrow> Inl ValueError)
      | _ \<Rightarrow> Inl ValueError)"

section \<open>Checkers\<close>

datatype config_checker =
    CheckNull | CheckBool | CheckNonempty | CheckNonemptyPlain | CheckAllowEmpty | CheckAllowEmptyPlain
  | CheckProvider | CheckLogLevel | CheckLogFormat | CheckProtocol | CheckBackend | CheckPython
  | CheckMax int | CheckPolicy | CheckPositive | CheckBudget | CheckMaxEntries | CheckRange int int | CheckByteSize

definition string_nonempty :: "pyval \<Rightarrow> pyval result" where
  "string_nonempty v =
     (if \<not> truthy v then Inl (config_error ''is empty'')
      else case v of PStr s \<Rightarrow> if strip s = [] then Inl (config_error ''is empty'') else Inr v
           | _ \<Rightarrow> Inl attribute_error)"

definition string_allow_empty :: "pyval \<Rightarrow> pyval result" where
  "string_allow_empty v = (if v = PStr [] then Inr v else string_nonempty v)"

definition no_control_chars :: "pyval \<Rightarrow> pyval result" where
  "no_control_chars v = (case v of PStr s \<Rightarrow> rbind (reject_control_characters s) (\<lambda>t. Inr (PStr t)) | _ \<Rightarrow> Inl TypeError)"

definition notification_provider :: "pyval \<Rightarrow> pyval result" where
  "notification_provider v =
     (case v of PStr s \<Rightarrow> if lower (strip s) \<in> {''webhook'', ''apprise''} then Inr (PStr (lower (strip s)))
                         else Inl (config_error ''must be webhook or apprise'')
      | _ \<Rightarrow> Inl (config_error ''must be webhook or apprise''))"

definition int_positive :: "pyval \<Rightarrow> pyval result" where
  "int_positive v = rbind (py_less v 1) (\<lambda>b. if b then Inl (config_error ''must be greater than 0'') else Inr v)"

definition int_non_negative_max :: "int \<Rightarrow> pyval \<Rightarrow> pyval result" where
  "int_non_negative_max max_val v =
     rbind (py_less v 1) (\<lambda>low. if low then Inl (config_error ''must be greater than 0'')
       else rbind (py_greater v max_val) (\<lambda>high.
         if high then Inl (config_error ''must not exceed the limit'') else Inr v))"

definition int_range :: "int \<Rightarrow> int \<Rightarrow> pyval \<Rightarrow> pyval result" where
  "int_range lo hi v =
     (case v of PInt n \<Rightarrow> if n < lo \<or> n > hi then Inl (config_error ''must be in range'') else Inr v
      | _ \<Rightarrow> Inl (config_error ''must be in range''))"

definition int_at_least :: "int \<Rightarrow> pyval \<Rightarrow> pyval result" where
  "int_at_least lo v =
     (case v of PInt n \<Rightarrow> if n < lo then Inl (config_error ''is too small'') else Inr v
      | _ \<Rightarrow> Inl (config_error ''is too small''))"

text \<open>\<open>^\d+[KMG]?$\<close> without regard to case.\<close>

definition byte_size_value :: "string \<Rightarrow> bool" where
  "byte_size_value s =
     (let r = dropWhile is_digit s in
      s \<noteq> [] \<and> is_digit (hd s) \<and> (r = [] \<or> (length r = 1 \<and> hd r \<in> set ''KMGkmg'')))"

definition byte_size_text :: "string \<Rightarrow> pyval result" where
  "byte_size_text s =
     (if s = [] then Inr (PStr [])
      else if strip s = [] then Inl (config_error ''is empty'')
      else if \<not> byte_size_value (strip s) then Inl (config_error ''must be a byte size value'')
      else Inr (PStr (if is_digit (last (strip s)) then strip s
                      else butlast (strip s) @ upper [last (strip s)])))"

definition byte_size_or_empty :: "pyval \<Rightarrow> pyval result" where
  "byte_size_or_empty v =
     (case v of PInt n \<Rightarrow> rbind (int_str n) byte_size_text
      | PStr s \<Rightarrow> byte_size_text s
      | _ \<Rightarrow> Inl (config_error ''must be a byte size value''))"

definition breadcrumb_trace_policy :: "(string \<Rightarrow> pyval option) \<Rightarrow> pyval \<Rightarrow> pyval result" where
  "breadcrumb_trace_policy loads v =
     (case v of
        PStr s \<Rightarrow>
          rbind (reject_control_characters (strip s)) (\<lambda>normalized.
            if normalized = [] then Inl (config_error ''is empty'')
            else case parse_breadcrumb_trace_policy loads (PStr normalized) of
              Inl e \<Rightarrow> Inl (config_error ''is invalid'')
            | Inr _ \<Rightarrow> Inr (PStr normalized))
      | _ \<Rightarrow> Inl (config_error ''must be a serialized policy string''))"

fun check_value :: "(string \<Rightarrow> pyval option) \<Rightarrow> config_checker \<Rightarrow> pyval \<Rightarrow> pyval result" where
  "check_value loads CheckNull v = Inr v"
| "check_value loads CheckBool v = (case v of PBool b \<Rightarrow> Inr v | _ \<Rightarrow> Inl (config_error ''must be a boolean value''))"
| "check_value loads CheckNonempty v = string_nonempty v"
| "check_value loads CheckNonemptyPlain v = rbind (string_nonempty v) no_control_chars"
| "check_value loads CheckAllowEmpty v = string_allow_empty v"
| "check_value loads CheckAllowEmptyPlain v = rbind (string_allow_empty v) no_control_chars"
| "check_value loads CheckProvider v = notification_provider v"
| "check_value loads CheckLogLevel v = normalize_log_level v"
| "check_value loads CheckLogFormat v = normalize_log_format v"
| "check_value loads CheckProtocol v = normalize_transfer_protocol v"
| "check_value loads CheckBackend v = Inr (normalize_transfer_backend v)"
| "check_value loads CheckPython v = normalize_remote_python_path v"
| "check_value loads (CheckMax m) v = int_non_negative_max m v"
| "check_value loads CheckPolicy v = breadcrumb_trace_policy loads v"
| "check_value loads CheckPositive v = int_positive v"
| "check_value loads CheckBudget v = int_at_least 1 v"
| "check_value loads CheckMaxEntries v = int_at_least 0 v"
| "check_value loads (CheckRange lo hi) v = int_range lo hi v"
| "check_value loads CheckByteSize v = byte_size_or_empty v"

section \<open>Checked values are fixed points\<close>

lemma dropWhile_rev_idem: "dropWhile p (rev (dropWhile p (rev (dropWhile p s)))) = rev (dropWhile p (rev (dropWhile p s)))"
proof (cases "dropWhile p s")
  case (Cons c r)
  then have "\<not> p c" by (metis dropWhile_eq_Cons_conv)
  then have "dropWhile p (rev r @ [c]) \<noteq> []" "last (dropWhile p (rev r @ [c])) = c"
    by (simp_all add: dropWhile_append)
  then have "hd (rev (dropWhile p (rev r @ [c]))) = c" by (simp add: hd_rev)
  with \<open>\<not> p c\<close> \<open>dropWhile p (rev r @ [c]) \<noteq> []\<close> Cons show ?thesis
    by (simp add: dropWhile_eq_self_iff)
next
  case Nil
  show ?thesis unfolding Nil by simp
qed

lemma strip_strip [simp]: "strip (strip s) = strip s"
  by (simp add: strip_def rstrip_by_def dropWhile_rev_idem)

lemma normalize_choice_idem:
  assumes "normalize_choice case_of choices reason v = Inr w" "\<forall>s\<in>choices. case_of (strip s) = s"
  shows "normalize_choice case_of choices reason w = Inr w"
  using assms by (auto simp: normalize_choice_def Let_def split: pyval.splits if_splits)

lemma choice_words:
  "\<forall>s\<in>{''DEBUG'', ''INFO'', ''WARNING'', ''ERROR'', ''CRITICAL''}. upper (strip s) = s"
  "\<forall>s\<in>{''standard'', ''json''}. lower (strip s) = s"
  "\<forall>s\<in>{''sftp'', ''ftps''}. lower (strip s) = s"
  "\<forall>s\<in>{''lftp'', ''rclone''}. lower (strip s) = s"
  "\<forall>s\<in>{''webhook'', ''apprise''}. lower (strip s) = s"
  by (simp_all, code_simp+)

lemma byte_size_valueE:
  assumes "byte_size_value s"
  obtains ds where "ds \<noteq> []" "list_all is_digit ds" "s = ds"
  | ds c where "ds \<noteq> []" "list_all is_digit ds" "s = ds @ [c]" "c \<in> set ''KMGkmg''"
proof -
  let ?ds = "takeWhile is_digit s" and ?r = "dropWhile is_digit s"
  have s: "s = ?ds @ ?r" by simp
  have ds: "?ds \<noteq> []" "list_all is_digit ?ds"
    using assms by (cases s; auto simp: byte_size_value_def Let_def list_all_iff dest: set_takeWhileD)+
  have "?r = [] \<or> (length ?r = 1 \<and> hd ?r \<in> set ''KMGkmg'')"
    using assms unfolding byte_size_value_def Let_def by blast
  then show thesis
  proof
    assume "?r = []"
    with that(1)[OF ds] s show thesis by simp
  next
    assume r: "length ?r = 1 \<and> hd ?r \<in> set ''KMGkmg''"
    then obtain c where "?r = [c]" by (auto simp: length_Suc_conv)
    with that(2)[OF ds, of c] s r show thesis by simp
  qed
qed

lemma size_letter: "c \<in> set ''KMGkmg'' \<Longrightarrow> \<not> is_digit c \<and> \<not> is_space c \<and> upper [c] \<in> {''K'', ''M'', ''G''}"
proof -
  have "list_all (\<lambda>c. \<not> is_digit c \<and> \<not> is_space c \<and> upper [c] \<in> {''K'', ''M'', ''G''}) ''KMGkmg''" by code_simp
  then show "c \<in> set ''KMGkmg'' \<Longrightarrow> ?thesis" unfolding list_all_iff by blast
qed

lemma size_letters_upper: "x \<in> {''K'', ''M'', ''G''} \<Longrightarrow> upper x = x \<and> (\<exists>c\<in>set ''KMGkmg''. x = [c])"
  by (auto simp: upper_def code_of_def)

lemma byte_size_digits:
  assumes "ds \<noteq> []" "list_all is_digit ds"
  shows "byte_size_text ds = Inr (PStr ds)"
proof -
  have "strip ds = ds" using assms(2) by (auto intro!: strip_plain simp: list_all_iff digit_not_space)
  moreover have "dropWhile is_digit ds = []" "is_digit (hd ds)" "is_digit (last ds)"
    using assms by (auto simp: list_all_iff)
  ultimately show ?thesis using assms(1) by (simp add: byte_size_text_def byte_size_value_def)
qed

lemma byte_size_suffixed:
  assumes "ds \<noteq> []" "list_all is_digit ds" "c \<in> set ''KMGkmg''"
  shows "byte_size_text (ds @ [c]) = Inr (PStr (ds @ upper [c]))"
proof -
  have c: "\<not> is_digit c" "\<not> is_space c" using size_letter[OF assms(3)] by auto
  then have "strip (ds @ [c]) = ds @ [c]"
    using assms(2) by (intro strip_plain) (auto simp: list_all_iff digit_not_space)
  moreover have "byte_size_value (ds @ [c])"
    using assms c(1) by (auto simp: byte_size_value_def Let_def list_all_iff hd_append dropWhile_append)
  ultimately show ?thesis using c(1) by (simp add: byte_size_text_def)
qed

lemma byte_size_text_idem:
  assumes "byte_size_text s = Inr w"
  shows "\<exists>t. w = PStr t \<and> byte_size_text t = Inr w"
proof (cases "s = []")
  case True
  with assms show ?thesis by (auto simp: byte_size_text_def)
next
  case False
  with assms have b: "byte_size_value (strip s)"
    and w: "w = PStr (if is_digit (last (strip s)) then strip s else butlast (strip s) @ upper [last (strip s)])"
    by (auto simp: byte_size_text_def split: if_splits)
  from b show ?thesis
  proof (cases rule: byte_size_valueE)
    case (1 ds)
    then have "is_digit (last ds)" by (simp add: list_all_iff)
    with 1 w byte_size_digits[of ds] show ?thesis by simp
  next
    case (2 ds c)
    obtain d where d: "upper [c] = [d]" "d \<in> set ''KMGkmg''" "upper [d] = [d]"
      using size_letter[OF 2(4)] size_letters_upper[of "upper [c]"] by (metis (no_types, lifting))
    with 2 w size_letter[OF 2(4)] byte_size_suffixed[of ds d] show ?thesis by simp
  qed
qed

lemma checked_same:
  "string_nonempty v = Inr w \<Longrightarrow> w = v"
  "string_allow_empty v = Inr w \<Longrightarrow> w = v"
  "no_control_chars v = Inr w \<Longrightarrow> w = v"
  "int_positive v = Inr w \<Longrightarrow> w = v"
  "int_non_negative_max m v = Inr w \<Longrightarrow> w = v"
  "int_at_least lo v = Inr w \<Longrightarrow> w = v"
  "int_range lo hi v = Inr w \<Longrightarrow> w = v"
        apply (auto simp: string_nonempty_def split: pyval.splits if_splits)[1]
       apply (auto simp: string_allow_empty_def string_nonempty_def split: pyval.splits if_splits)[1]
      apply (auto simp: no_control_chars_def reject_control_characters_def split: pyval.splits if_splits)[1]
     apply (auto simp: int_positive_def rbind_Inr_iff split: if_splits)[1]
    apply (auto simp: int_non_negative_max_def rbind_Inr_iff split: if_splits)[1]
   apply (auto simp: int_at_least_def split: pyval.splits if_splits)[1]
  apply (auto simp: int_range_def split: pyval.splits if_splits)[1]
  done

lemma backend_idem: "normalize_transfer_backend (normalize_transfer_backend v) = normalize_transfer_backend v"
  using choice_words(4) by (auto simp: normalize_transfer_backend_def split: pyval.splits)

lemma provider_idem: "notification_provider v = Inr w \<Longrightarrow> notification_provider w = Inr w"
  using choice_words(5) by (auto simp: notification_provider_def split: pyval.splits if_splits)

lemma python_idem: "normalize_remote_python_path v = Inr w \<Longrightarrow> normalize_remote_python_path w = Inr w"
proof -
  have "strip ''python3'' = ''python3''" by code_simp
  then show "normalize_remote_python_path v = Inr w \<Longrightarrow> normalize_remote_python_path w = Inr w"
    by (auto simp: normalize_remote_python_path_def split: pyval.splits if_splits)
qed

lemma policy_idem: "breadcrumb_trace_policy loads v = Inr w \<Longrightarrow> breadcrumb_trace_policy loads w = Inr w"
  by (auto simp: breadcrumb_trace_policy_def reject_control_characters_def
      split: pyval.splits if_splits sum.splits)

lemma byte_size_idem: "byte_size_or_empty v = Inr w \<Longrightarrow> byte_size_or_empty w = Inr w"
  using byte_size_text_idem
  by (fastforce simp: byte_size_or_empty_def rbind_Inr_iff split: pyval.splits)

lemma check_value_idem: "check_value loads ck v = Inr w \<Longrightarrow> check_value loads ck w = Inr w"
proof (cases ck)
  case CheckBool
  assume "check_value loads ck v = Inr w"
  with CheckBool show ?thesis by (cases v) auto
next
  case CheckNonemptyPlain
  assume "check_value loads ck v = Inr w"
  with CheckNonemptyPlain show ?thesis by (auto simp: rbind_Inr_iff dest: checked_same)
next
  case CheckAllowEmptyPlain
  assume "check_value loads ck v = Inr w"
  with CheckAllowEmptyPlain show ?thesis by (auto simp: rbind_Inr_iff dest: checked_same)
qed (auto simp: backend_idem normalize_log_level_def normalize_log_format_def normalize_transfer_protocol_def
    intro: normalize_choice_idem[OF _ choice_words(1)] normalize_choice_idem[OF _ choice_words(2)]
      normalize_choice_idem[OF _ choice_words(3)] provider_idem python_idem policy_idem byte_size_idem dest: checked_same)

section \<open>Settled values\<close>

text \<open>The pairs of checker and converter the sections use: a converter that normalises comes with the
  checker that normalises in the same way, and a converter to booleans or integers with checkers
  that return what they are given.\<close>

definition compatible :: "config_checker \<Rightarrow> config_converter \<Rightarrow> bool" where
  "compatible ck conv =
     (case conv of
        ConvNull \<Rightarrow> True
      | ConvBool \<Rightarrow> ck \<in> {CheckNull, CheckBool}
      | ConvInt \<Rightarrow> (case ck of CheckPositive \<Rightarrow> True | CheckBudget \<Rightarrow> True | CheckMaxEntries \<Rightarrow> True
                     | CheckMax _ \<Rightarrow> True | CheckRange _ _ \<Rightarrow> True | _ \<Rightarrow> False)
      | ConvLogLevel \<Rightarrow> ck = CheckLogLevel | ConvProtocol \<Rightarrow> ck = CheckProtocol
      | ConvBackend \<Rightarrow> ck = CheckBackend | ConvPython \<Rightarrow> ck = CheckPython)"

text \<open>A settled value comes through its converter and its checker unchanged.\<close>

definition settled :: "(string \<Rightarrow> pyval option) \<Rightarrow> config_checker \<Rightarrow> config_converter \<Rightarrow> pyval \<Rightarrow> bool" where
  "settled loads ck conv v \<longleftrightarrow> check_value loads ck v = Inr v \<and>
     (case v of PStr s \<Rightarrow> convert conv s = Inr v | _ \<Rightarrow> True)"

text \<open>What \<open>set_property\<close> hands to the checker.\<close>

definition native_value_of :: "config_converter \<Rightarrow> pyval \<Rightarrow> pyval result" where
  "native_value_of conv v = (case v of PStr s \<Rightarrow> convert conv s | _ \<Rightarrow> Inr v)"

lemma convert_bool_int:
  "convert ConvBool s = Inr v \<Longrightarrow> \<exists>b. v = PBool b"
  "convert ConvInt s = Inr v \<Longrightarrow> \<exists>n. v = PInt n"
  by (auto split: if_splits sum.splits)

lemma int_checks_same:
  "compatible ck ConvInt \<Longrightarrow> check_value loads ck v = Inr w \<Longrightarrow> w = v"
  by (cases ck) (auto simp: compatible_def dest: checked_same)

lemma settled_checked:
  assumes "compatible ck conv" "native_value_of conv v = Inr u" "check_value loads ck u = Inr w"
  shows "settled loads ck conv w"
proof -
  have ok: "check_value loads ck w = Inr w" by (rule check_value_idem[OF assms(3)])
  have "convert conv s = Inr w" if w: "w = PStr s" for s
  proof (cases conv)
    case ConvBool
    with assms(1,3) have "w = u" by (cases u) (auto simp: compatible_def)
    with assms(2) ConvBool w have "\<exists>t. convert ConvBool t = Inr (PStr s)"
      by (cases v) (auto simp: native_value_of_def simp del: convert.simps)
    then show ?thesis using convert_bool_int(1) by blast
  next
    case ConvInt
    with assms(1,3) have "w = u" using int_checks_same by blast
    with assms(2) ConvInt w have "\<exists>t. convert ConvInt t = Inr (PStr s)"
      by (cases v) (auto simp: native_value_of_def simp del: convert.simps)
    then show ?thesis using convert_bool_int(2) by blast
  qed (use assms(1) ok w in \<open>auto simp: compatible_def\<close>)
  with ok show ?thesis by (cases w) (auto simp: settled_def)
qed

lemma settled_native: "settled loads ck conv v \<Longrightarrow> native_value_of conv v = Inr v"
  by (cases v) (auto simp: settled_def native_value_of_def)

end
