(* ===== verification/Config_Sections.thy ===== *)
theory Config_Sections
  imports Config_Values
begin

text \<open>
  \<open>common/config.py\<close>, part two: the sections of the configuration and \<open>Config\<close> itself.

  A section is the dictionary of its properties in the order the class declares them; its class is
  the list of its properties with their checkers and converters. \<open>set_prop\<close> is
  \<open>InnerConfig.set_property\<close>, \<open>section_from_dict\<close> is \<open>InnerConfig.from_dict\<close>, which goes through
  the properties by name, and each section adds the defaults of its own \<open>from_dict\<close>.
  \<open>Lftp._set_property\<close>, which forces the protocol of the rclone backend, is the hook \<open>after_set\<close>.
\<close>

section \<open>Properties and sections\<close>

type_synonym config_section = "(string, pyval) dict"

type_synonym config_schema = "(string \<times> config_checker \<times> config_converter) list"

record config_class =
  cc_name :: string
  cc_schema :: config_schema
  cc_after_set :: "string \<Rightarrow> config_section \<Rightarrow> config_section"

definition prop_value :: "config_section \<Rightarrow> string \<Rightarrow> pyval" where
  "prop_value sec name = (case dict_get sec name of None \<Rightarrow> PNone | Some v \<Rightarrow> v)"

definition store_prop :: "(string \<Rightarrow> pyval option) \<Rightarrow> config_class \<Rightarrow> string \<Rightarrow> config_checker \<Rightarrow> pyval \<Rightarrow> config_section \<Rightarrow> config_section result" where
  "store_prop loads cls name ck v sec =
     (if v = PNone \<and> prop_value sec name = PNone then Inr (cc_after_set cls name (dict_set name PNone sec))
      else rbind (check_value loads ck v) (\<lambda>w. Inr (cc_after_set cls name (dict_set name w sec))))"

definition set_prop :: "(string \<Rightarrow> pyval option) \<Rightarrow> config_class \<Rightarrow> string \<Rightarrow> pyval \<Rightarrow> config_section \<Rightarrow> config_section result" where
  "set_prop loads cls name v sec =
     (case dict_get (cc_schema cls) name of
        None \<Rightarrow> Inl attribute_error
      | Some (ck, conv) \<Rightarrow>
          rbind (native_value_of conv v) (\<lambda>native.
            store_prop loads cls name ck native sec))"

definition has_prop :: "config_class \<Rightarrow> string \<Rightarrow> bool" where
  "has_prop cls name = (name \<in> set (dict_keys (cc_schema cls)))"

fun set_all :: "(string \<Rightarrow> pyval option) \<Rightarrow> config_class \<Rightarrow> string list \<Rightarrow> config_section \<Rightarrow> config_section \<Rightarrow> config_section result" where
  "set_all loads cls [] d sec = Inr sec"
| "set_all loads cls (name # names) d sec =
     (case dict_get d name of
        None \<Rightarrow> Inl (config_error (''Missing config: '' @ cc_name cls @ ''.'' @ name))
      | Some v \<Rightarrow> rbind (set_prop loads cls name v sec) (set_all loads cls names d))"

definition section_from_dict :: "(string \<Rightarrow> pyval option) \<Rightarrow> config_class \<Rightarrow> config_section \<Rightarrow> config_section \<Rightarrow> config_section result" where
  "section_from_dict loads cls new_sec d =
     rbind (set_all loads cls (sort (dict_keys (cc_schema cls))) d new_sec) (\<lambda>sec.
       case filter (\<lambda>k. \<not> has_prop cls k) (dict_keys d) of
         [] \<Rightarrow> Inr sec
       | k # _ \<Rightarrow> Inl (config_error (''Unknown config: '' @ cc_name cls @ ''.'' @ k)))"

definition section_as_dict :: "config_class \<Rightarrow> config_section \<Rightarrow> config_section" where
  "section_as_dict cls sec = map (\<lambda>name. (name, prop_value sec name)) (dict_keys (cc_schema cls))"

definition with_default :: "string \<Rightarrow> pyval \<Rightarrow> config_section \<Rightarrow> config_section" where
  "with_default k v d = (if k \<in> set (dict_keys d) then d else d @ [(k, v)])"

section \<open>General\<close>

definition general_class :: config_class where
  "general_class = \<lparr>cc_name = ''General'', cc_schema = [
     (''log_level'', CheckLogLevel, ConvLogLevel),
     (''verbose'', CheckNull, ConvBool),
     (''exclude_patterns'', CheckAllowEmpty, ConvNull),
     (''api_token'', CheckNull, ConvNull),
     (''allowed_hostname'', CheckNull, ConvNull),
     (''browser_handover_recovery_version'', CheckNull, ConvNull),
     (''disable_browser_auth'', CheckBool, ConvBool),
     (''breadcrumb_trace_enabled'', CheckBool, ConvBool),
     (''breadcrumb_trace_memory_budget_bytes'', CheckBudget, ConvInt),
     (''breadcrumb_trace_max_entries'', CheckMaxEntries, ConvInt),
     (''breadcrumb_trace_policy'', CheckPolicy, ConvNull),
     (''performance_diagnostics_enabled'', CheckBool, ConvBool),
     (''performance_diagnostics_retention_depth'', CheckRange 1 240, ConvInt),
     (''performance_diagnostics_sample_interval_seconds'', CheckRange 1 3600, ConvInt),
     (''py_spy_enabled'', CheckBool, ConvBool),
     (''config_api_redact_remote_details'', CheckBool, ConvBool)],
     cc_after_set = \<lambda>_ sec. sec\<rparr>"

definition new_general :: config_section where
  "new_general = [
     (''log_level'', PStr ''INFO''), (''verbose'', PNone), (''exclude_patterns'', PStr []),
     (''api_token'', PNone), (''allowed_hostname'', PNone), (''browser_handover_recovery_version'', PNone),
     (''disable_browser_auth'', PBool False), (''breadcrumb_trace_enabled'', PBool False),
     (''breadcrumb_trace_memory_budget_bytes'', PInt (256 * 1024 * 1024)),
     (''breadcrumb_trace_max_entries'', PInt 0), (''breadcrumb_trace_policy'', PStr ''{}''),
     (''performance_diagnostics_enabled'', PBool False),
     (''performance_diagnostics_retention_depth'', PInt 120),
     (''performance_diagnostics_sample_interval_seconds'', PInt 5),
     (''py_spy_enabled'', PBool False), (''config_api_redact_remote_details'', PBool True)]"

text \<open>The value of a key that an old name may still carry: the old one is dropped in any case.\<close>

definition renamed_key :: "string \<Rightarrow> string \<Rightarrow> pyval \<Rightarrow> config_section \<Rightarrow> config_section" where
  "renamed_key old k dflt d =
     (let legacy = (case dict_get d old of None \<Rightarrow> PNone | Some v \<Rightarrow> v)
      in with_default k (if legacy = PNone then dflt else legacy) (dict_pop old d))"

definition legacy_debug :: "config_section \<Rightarrow> config_section result" where
  "legacy_debug d =
     (if ''log_level'' \<in> set (dict_keys d) then Inr (dict_pop ''debug'' d)
      else case dict_get d ''debug'' of
        None \<Rightarrow> Inr (d @ [(''log_level'', PStr ''INFO'')])
      | Some v \<Rightarrow>
          rbind (case v of PStr s \<Rightarrow> convert ConvBool s
                 | PBool b \<Rightarrow> Inr v
                 | _ \<Rightarrow> Inl (config_error ''must be a boolean value'')) (\<lambda>b.
            Inr (dict_pop ''debug'' d @ [(''log_level'', PStr (if b = PBool True then ''DEBUG'' else ''INFO''))])))"

definition general_from_dict :: "(string \<Rightarrow> pyval option) \<Rightarrow> config_section \<Rightarrow> config_section result" where
  "general_from_dict loads d =
     rbind (legacy_debug
        (with_default ''disable_browser_auth'' (PBool False)
        (with_default ''browser_handover_recovery_version'' (PStr [])
        (with_default ''allowed_hostname'' (PStr [])
        (with_default ''api_token'' (PStr [])
        (with_default ''exclude_patterns'' (PStr [])
        (dict_pop ''trusted_browser_bootstrap_remote_addrs'' d))))))) (\<lambda>d.
       section_from_dict loads general_class new_general
        (with_default ''config_api_redact_remote_details'' (PBool True)
        (with_default ''py_spy_enabled'' (PBool False)
        (with_default ''performance_diagnostics_sample_interval_seconds'' (PInt 5)
        (with_default ''performance_diagnostics_retention_depth'' (PInt 120)
        (with_default ''performance_diagnostics_enabled'' (PBool False)
        (renamed_key ''breadcrumb_trace_serialization_policy'' ''breadcrumb_trace_policy'' (PStr ''{}'')
        (renamed_key ''breadcrumb_trace_retention_depth'' ''breadcrumb_trace_max_entries'' (PInt 0)
        (with_default ''breadcrumb_trace_memory_budget_bytes'' (PInt (256 * 1024 * 1024))
        (with_default ''breadcrumb_trace_enabled'' (PBool False) d))))))))))"

definition general_has_prop :: "string \<Rightarrow> bool" where
  "general_has_prop name = (name = ''debug'' \<or> has_prop general_class name)"

definition general_set_prop :: "(string \<Rightarrow> pyval option) \<Rightarrow> string \<Rightarrow> pyval \<Rightarrow> config_section \<Rightarrow> config_section result" where
  "general_set_prop loads name v sec =
     (if name = ''debug'' then
        rbind (case v of PStr s \<Rightarrow> convert ConvBool s | _ \<Rightarrow> Inr v) (\<lambda>b.
          case b of PBool c \<Rightarrow> set_prop loads general_class ''log_level'' (PStr (if c then ''DEBUG'' else ''INFO'')) sec
          | _ \<Rightarrow> Inl (config_error ''must be a boolean value''))
      else set_prop loads general_class name v sec)"

section \<open>Lftp\<close>

definition rclone_hook :: "string \<Rightarrow> config_section \<Rightarrow> config_section" where
  "rclone_hook name sec =
     (if name \<in> {''transfer_backend'', ''protocol''} \<and> prop_value sec ''transfer_backend'' = PStr ''rclone''
         \<and> prop_value sec ''protocol'' \<noteq> PStr ''sftp''
      then dict_set ''protocol'' (PStr ''sftp'') sec else sec)"

definition lftp_class :: config_class where
  "lftp_class = \<lparr>cc_name = ''Lftp'', cc_schema = [
     (''transfer_backend'', CheckBackend, ConvBackend),
     (''remote_address'', CheckNonemptyPlain, ConvNull),
     (''remote_username'', CheckNonemptyPlain, ConvNull),
     (''remote_password'', CheckAllowEmptyPlain, ConvNull),
     (''remote_port'', CheckPositive, ConvInt),
     (''remote_path'', CheckNonempty, ConvNull),
     (''local_path'', CheckNonempty, ConvNull),
     (''remote_path_to_scan_script'', CheckNonempty, ConvNull),
     (''remote_python_path'', CheckPython, ConvPython),
     (''use_ssh_key'', CheckNull, ConvBool),
     (''num_max_parallel_downloads'', CheckPositive, ConvInt),
     (''num_max_parallel_files_per_download'', CheckPositive, ConvInt),
     (''num_max_connections_per_root_file'', CheckPositive, ConvInt),
     (''num_max_connections_per_dir_file'', CheckPositive, ConvInt),
     (''num_max_total_connections'', CheckMax 32, ConvInt),
     (''use_temp_file'', CheckNull, ConvBool),
     (''rate_limit'', CheckNull, ConvNull),
     (''net_socket_buffer'', CheckByteSize, ConvNull),
     (''staging_path'', CheckNull, ConvNull),
     (''protocol'', CheckProtocol, ConvProtocol),
     (''remote_ftp_port'', CheckPositive, ConvInt),
     (''ftp_ssl_verify_certificate'', CheckBool, ConvBool),
     (''use_legacy_lftp_password_argv'', CheckBool, ConvBool)],
     cc_after_set = rclone_hook\<rparr>"

definition new_lftp :: config_section where
  "new_lftp = [
     (''transfer_backend'', PStr ''lftp''), (''remote_address'', PNone), (''remote_username'', PNone),
     (''remote_password'', PNone), (''remote_port'', PNone), (''remote_path'', PNone), (''local_path'', PNone),
     (''remote_path_to_scan_script'', PNone), (''remote_python_path'', PStr ''python3''), (''use_ssh_key'', PNone),
     (''num_max_parallel_downloads'', PNone), (''num_max_parallel_files_per_download'', PNone),
     (''num_max_connections_per_root_file'', PNone), (''num_max_connections_per_dir_file'', PNone),
     (''num_max_total_connections'', PNone), (''use_temp_file'', PNone), (''rate_limit'', PNone),
     (''net_socket_buffer'', PNone), (''staging_path'', PNone), (''protocol'', PStr ''sftp''),
     (''remote_ftp_port'', PInt 21), (''ftp_ssl_verify_certificate'', PBool True),
     (''use_legacy_lftp_password_argv'', PBool False)]"

definition lftp_from_dict :: "(string \<Rightarrow> pyval option) \<Rightarrow> config_section \<Rightarrow> config_section result" where
  "lftp_from_dict loads d =
     (let d1 = with_default ''use_legacy_lftp_password_argv'' (PBool False)
              (with_default ''ftp_ssl_verify_certificate'' (PBool True)
              (with_default ''remote_ftp_port'' (PInt 21)
              (with_default ''protocol'' (PStr ''sftp'')
              (with_default ''staging_path'' (PStr [])
              (with_default ''net_socket_buffer'' (PStr ''8M'')
              (with_default ''remote_python_path'' (PStr ''python3'')
              (with_default ''rate_limit'' (PStr ''0'')
              (with_default ''transfer_backend'' (PStr ''lftp'') d))))))));
          d2 = dict_set ''transfer_backend'' (normalize_transfer_backend (prop_value d1 ''transfer_backend'')) d1;
          d3 = (if prop_value d2 ''transfer_backend'' = PStr ''rclone''
                then dict_set ''protocol'' (PStr ''sftp'') d2 else d2)
      in section_from_dict loads lftp_class new_lftp d3)"

section \<open>The other sections\<close>

definition plain_class :: "string \<Rightarrow> config_schema \<Rightarrow> config_class" where
  "plain_class name schema = \<lparr>cc_name = name, cc_schema = schema, cc_after_set = \<lambda>_ sec. sec\<rparr>"

definition validate_class :: config_class where
  "validate_class = plain_class ''Validate'' [(''xfer_verify'', CheckBool, ConvBool)]"

definition new_validate :: config_section where
  "new_validate = [(''xfer_verify'', PBool True)]"

definition validate_from_dict :: "(string \<Rightarrow> pyval option) \<Rightarrow> config_section \<Rightarrow> config_section result" where
  "validate_from_dict loads d =
     section_from_dict loads validate_class new_validate (with_default ''xfer_verify'' (PBool True) d)"

definition controller_class :: config_class where
  "controller_class = plain_class ''Controller'' [
     (''interval_ms_remote_scan'', CheckPositive, ConvInt),
     (''interval_ms_local_scan'', CheckPositive, ConvInt),
     (''interval_ms_downloading_scan'', CheckPositive, ConvInt),
     (''extract_path'', CheckNonempty, ConvNull),
     (''use_local_path_as_extract_path'', CheckNull, ConvBool),
     (''managed_extract_folders_enabled'', CheckNull, ConvBool)]"

definition new_controller :: config_section where
  "new_controller = [
     (''interval_ms_remote_scan'', PNone), (''interval_ms_local_scan'', PNone),
     (''interval_ms_downloading_scan'', PNone), (''extract_path'', PNone),
     (''use_local_path_as_extract_path'', PNone), (''managed_extract_folders_enabled'', PBool True)]"

definition controller_from_dict :: "(string \<Rightarrow> pyval option) \<Rightarrow> config_section \<Rightarrow> config_section result" where
  "controller_from_dict loads d =
     section_from_dict loads controller_class new_controller (with_default ''managed_extract_folders_enabled'' (PBool True) d)"

definition web_class :: config_class where
  "web_class = plain_class ''Web'' [(''port'', CheckPositive, ConvInt)]"

definition new_web :: config_section where
  "new_web = [(''port'', PNone)]"

definition autoqueue_class :: config_class where
  "autoqueue_class = plain_class ''AutoQueue'' [
     (''enabled'', CheckNull, ConvBool), (''patterns_only'', CheckNull, ConvBool),
     (''auto_extract'', CheckNull, ConvBool), (''auto_delete_remote'', CheckBool, ConvBool)]"

definition new_autoqueue :: config_section where
  "new_autoqueue = [(''enabled'', PNone), (''patterns_only'', PNone), (''auto_extract'', PNone),
     (''auto_delete_remote'', PBool False)]"

definition autoqueue_from_dict :: "(string \<Rightarrow> pyval option) \<Rightarrow> config_section \<Rightarrow> config_section result" where
  "autoqueue_from_dict loads d =
     section_from_dict loads autoqueue_class new_autoqueue (with_default ''auto_delete_remote'' (PBool False) d)"

definition logging_class :: config_class where
  "logging_class = plain_class ''Logging'' [(''log_format'', CheckLogFormat, ConvNull)]"

definition new_logging :: config_section where
  "new_logging = [(''log_format'', PStr ''standard'')]"

definition logging_from_dict :: "(string \<Rightarrow> pyval option) \<Rightarrow> config_section \<Rightarrow> config_section result" where
  "logging_from_dict loads d =
     section_from_dict loads logging_class new_logging
       (case dict_get d ''log_format'' of
          None \<Rightarrow> d @ [(''log_format'', PStr ''standard'')]
        | Some (PStr s) \<Rightarrow> if strip s = [] then dict_set ''log_format'' (PStr ''standard'') d else d
        | Some _ \<Rightarrow> d)"

definition notifications_class :: config_class where
  "notifications_class = plain_class ''Notifications'' [
     (''enabled'', CheckBool, ConvBool), (''provider'', CheckProvider, ConvNull),
     (''webhook_url'', CheckAllowEmpty, ConvNull), (''hmac_secret'', CheckAllowEmpty, ConvNull),
     (''apprise_url'', CheckAllowEmpty, ConvNull), (''apprise_tag'', CheckAllowEmpty, ConvNull),
     (''allow_private_networks'', CheckBool, ConvBool), (''download_start'', CheckBool, ConvBool),
     (''download_complete'', CheckBool, ConvBool), (''extraction_complete'', CheckBool, ConvBool),
     (''delete_complete'', CheckBool, ConvBool)]"

definition new_notifications :: config_section where
  "new_notifications = [
     (''enabled'', PBool False), (''provider'', PStr ''webhook''), (''webhook_url'', PStr []),
     (''hmac_secret'', PStr []), (''apprise_url'', PStr []), (''apprise_tag'', PStr []),
     (''allow_private_networks'', PBool False), (''download_start'', PBool False),
     (''download_complete'', PBool True), (''extraction_complete'', PBool True), (''delete_complete'', PBool True)]"

definition notifications_from_dict :: "(string \<Rightarrow> pyval option) \<Rightarrow> config_section \<Rightarrow> config_section result" where
  "notifications_from_dict loads d =
     section_from_dict loads notifications_class new_notifications
       (fold (\<lambda>(k, v). dict_set k v) d (section_as_dict notifications_class new_notifications))"

section \<open>The configuration\<close>

record config =
  cf_general :: config_section
  cf_lftp :: config_section
  cf_validate :: config_section
  cf_controller :: config_section
  cf_web :: config_section
  cf_autoqueue :: config_section
  cf_logging :: config_section
  cf_notifications :: config_section

definition new_config :: config where
  "new_config = \<lparr>cf_general = new_general, cf_lftp = new_lftp, cf_validate = new_validate,
     cf_controller = new_controller, cf_web = new_web, cf_autoqueue = new_autoqueue,
     cf_logging = new_logging, cf_notifications = new_notifications\<rparr>"

type_synonym config_dict = "(string, config_section) dict"

definition check_section :: "string \<Rightarrow> config_dict \<Rightarrow> config_section result" where
  "check_section name d =
     (case dict_get d name of
        None \<Rightarrow> Inl (config_error (''Missing config section: '' @ name))
      | Some sec \<Rightarrow> Inr sec)"

definition section_or_empty :: "string \<Rightarrow> config_dict \<Rightarrow> config_section" where
  "section_or_empty name d = (case dict_get d name of None \<Rightarrow> [] | Some sec \<Rightarrow> sec)"

definition config_sections :: "string list" where
  "config_sections = [''General'', ''Lftp'', ''Validate'', ''Controller'', ''Web'', ''AutoQueue'', ''Logging'', ''Notifications'']"

definition legacy_secret :: "config_section \<Rightarrow> config_section \<Rightarrow> config_section" where
  "legacy_secret general notifications =
     (let legacy = (case dict_get general ''webhook_secret'' of None \<Rightarrow> PStr [] | Some v \<Rightarrow> v)
      in if truthy legacy \<and> \<not> truthy (prop_value notifications ''hmac_secret'')
         then dict_set ''hmac_secret'' legacy notifications else notifications)"

definition config_from_dict :: "(string \<Rightarrow> pyval option) \<Rightarrow> config_dict \<Rightarrow> config result" where
  "config_from_dict loads d =
     rbind (check_section ''General'' d) (\<lambda>g.
     rbind (general_from_dict loads (dict_pop ''webhook_secret'' g)) (\<lambda>general.
     rbind (check_section ''Lftp'' d) (\<lambda>l.
     rbind (lftp_from_dict loads l) (\<lambda>lftp.
     rbind (validate_from_dict loads (section_or_empty ''Validate'' d)) (\<lambda>validate.
     rbind (check_section ''Controller'' d) (\<lambda>c.
     rbind (controller_from_dict loads c) (\<lambda>controller.
     rbind (check_section ''Web'' d) (\<lambda>w.
     rbind (section_from_dict loads web_class new_web w) (\<lambda>web.
     rbind (check_section ''AutoQueue'' d) (\<lambda>a.
     rbind (autoqueue_from_dict loads a) (\<lambda>autoqueue.
     rbind (logging_from_dict loads (section_or_empty ''Logging'' d)) (\<lambda>logging.
     rbind (notifications_from_dict loads (legacy_secret g (section_or_empty ''Notifications'' d))) (\<lambda>notifications.
     (case filter (\<lambda>k. k \<notin> set config_sections) (dict_keys d) of
        k # _ \<Rightarrow> Inl (config_error (''Unknown section: '' @ k))
      | [] \<Rightarrow> Inr \<lparr>cf_general = general, cf_lftp = lftp, cf_validate = validate, cf_controller = controller,
          cf_web = web, cf_autoqueue = autoqueue, cf_logging = logging, cf_notifications = notifications\<rparr>))))))))))))))"

definition config_as_dict :: "config \<Rightarrow> config_dict" where
  "config_as_dict c = [
     (''General'', section_as_dict general_class (cf_general c)), (''Lftp'', section_as_dict lftp_class (cf_lftp c)),
     (''Validate'', section_as_dict validate_class (cf_validate c)),
     (''Controller'', section_as_dict controller_class (cf_controller c)),
     (''Web'', section_as_dict web_class (cf_web c)), (''AutoQueue'', section_as_dict autoqueue_class (cf_autoqueue c)),
     (''Logging'', section_as_dict logging_class (cf_logging c)),
     (''Notifications'', section_as_dict notifications_class (cf_notifications c))]"

text \<open>The texts \<open>to_str\<close> hands to \<open>configparser\<close>: \<open>str(value)\<close>, for the types the
  converters give: texts, booleans, integers and none. The printing of the floats, lists and dictionaries a set
  request may store is not modelled; \<open>TypeError\<close> stands for their texts.\<close>

definition value_text :: "pyval \<Rightarrow> string result" where
  "value_text v =
     (case v of PNone \<Rightarrow> Inr ''None'' | PBool b \<Rightarrow> Inr (if b then ''True'' else ''False'')
      | PInt n \<Rightarrow> int_str n | PStr s \<Rightarrow> Inr s | _ \<Rightarrow> Inl TypeError)"

fun section_texts :: "config_section \<Rightarrow> config_section result" where
  "section_texts [] = Inr []"
| "section_texts ((k, v) # sec) = rbind (value_text v) (\<lambda>s. rbind (section_texts sec) (\<lambda>r. Inr ((k, PStr s) # r)))"

fun config_texts :: "config_dict \<Rightarrow> config_dict result" where
  "config_texts [] = Inr []"
| "config_texts ((k, sec) # d) = rbind (section_texts sec) (\<lambda>s. rbind (config_texts d) (\<lambda>r. Inr ((k, s) # r)))"

section \<open>Sensitive fields\<close>

definition SENSITIVE_FIELDS :: "(string, string list) dict" where
  "SENSITIVE_FIELDS = [(''general'', [''api_token'', ''webhook_secret'']), (''lftp'', [''remote_password'']),
     (''notifications'', [''webhook_url'', ''hmac_secret'', ''apprise_url''])]"

definition is_sensitive_field :: "string \<Rightarrow> string \<Rightarrow> bool" where
  "is_sensitive_field sec key =
     (case dict_get SENSITIVE_FIELDS (lower sec) of None \<Rightarrow> False | Some keys \<Rightarrow> key \<in> set keys)"

definition REDACTED_SENTINEL :: string where "REDACTED_SENTINEL = ''**REDACTED**''"

definition is_redacted_value :: "pyval \<Rightarrow> bool" where
  "is_redacted_value v = (v = PStr REDACTED_SENTINEL \<or> v = PStr ''********'')"

section \<open>What a section may hold\<close>

text \<open>Every property of the class is there, and is unset or settled.\<close>

definition section_ok :: "(string \<Rightarrow> pyval option) \<Rightarrow> config_class \<Rightarrow> config_section \<Rightarrow> bool" where
  "section_ok loads cls sec \<longleftrightarrow> dict_keys sec = dict_keys (cc_schema cls) \<and>
     list_all (\<lambda>(name, ck, conv). prop_value sec name = PNone \<or> settled loads ck conv (prop_value sec name)) (cc_schema cls)"

definition class_ok :: "config_class \<Rightarrow> bool" where
  "class_ok cls \<longleftrightarrow> distinct (dict_keys (cc_schema cls)) \<and> list_all (\<lambda>(_, ck, conv). compatible ck conv) (cc_schema cls)"

lemma classes_ok:
  "class_ok general_class" "class_ok lftp_class" "class_ok validate_class" "class_ok controller_class"
  "class_ok web_class" "class_ok autoqueue_class" "class_ok logging_class" "class_ok notifications_class"
  by code_simp+

definition keeps_ok :: "(string \<Rightarrow> pyval option) \<Rightarrow> config_class \<Rightarrow> bool" where
  "keeps_ok loads cls \<longleftrightarrow> class_ok cls \<and>
     (\<forall>name sec. section_ok loads cls sec \<longrightarrow> section_ok loads cls (cc_after_set cls name sec))"

lemma prop_value_set [simp]: "prop_value (dict_set k v sec) n = (if n = k then v else prop_value sec n)"
  by (simp add: prop_value_def)

lemma section_ok_set:
  assumes "section_ok loads cls sec" "dict_get (cc_schema cls) name = Some (ck, conv)"
    "class_ok cls" "w = PNone \<or> settled loads ck conv w"
  shows "section_ok loads cls (dict_set name w sec)"
proof -
  have key: "name \<in> set (dict_keys (cc_schema cls))" using assms(2) by (force dest: map_of_SomeD)
  have uniq: "(name, a) \<in> set (cc_schema cls) \<Longrightarrow> a = (ck, conv)" for a
    using assms(2,3) by (metis class_ok_def map_of_eq_Some_iff option.inject)
  show ?thesis
    using assms(1,4) key uniq by (fastforce simp: section_ok_def update_keys list_all_iff)
qed

lemma set_prop_ok:
  assumes "keeps_ok loads cls" "section_ok loads cls sec" "set_prop loads cls name v sec = Inr sec'"
  shows "section_ok loads cls sec'"
proof -
  obtain ck conv u where p: "dict_get (cc_schema cls) name = Some (ck, conv)" "native_value_of conv v = Inr u"
    "store_prop loads cls name ck u sec = Inr sec'"
    using assms(3) by (auto simp: set_prop_def rbind_Inr_iff split: option.splits)
  have c: "class_ok cls" using assms(1) by (simp add: keeps_ok_def)
  have "compatible ck conv" using map_of_SomeD[OF p(1)] c by (auto simp: class_ok_def list_all_iff)
  then obtain w where w: "sec' = cc_after_set cls name (dict_set name w sec)" "w = PNone \<or> settled loads ck conv w"
    using p(2,3) settled_checked[of ck conv v u loads] by (auto simp: store_prop_def rbind_Inr_iff split: if_splits)
  from section_ok_set[OF assms(2) p(1) c w(2)] assms(1) w(1) show ?thesis by (simp add: keeps_ok_def)
qed

lemma set_all_ok:
  "keeps_ok loads cls \<Longrightarrow> section_ok loads cls sec \<Longrightarrow> set_all loads cls names d sec = Inr sec' \<Longrightarrow> section_ok loads cls sec'"
  by (induction names arbitrary: sec) (auto simp: rbind_Inr_iff dest: set_prop_ok split: option.splits)

lemma section_from_dict_Inr: "section_from_dict loads cls new_sec d = Inr sec \<longleftrightarrow>
    set_all loads cls (sort (dict_keys (cc_schema cls))) d new_sec = Inr sec \<and> list_all (has_prop cls) (dict_keys d)"
proof (cases "filter (\<lambda>k. \<not> has_prop cls k) (dict_keys d)")
  case Nil
  then show ?thesis by (auto simp: section_from_dict_def rbind_Inr_iff list_all_iff filter_empty_conv)
next
  case (Cons k ks)
  then have "\<not> list_all (has_prop cls) (dict_keys d)"
    by (metis filter_False list.distinct(1) list_all_iff)
  with Cons show ?thesis by (simp add: section_from_dict_def rbind_Inr_iff)
qed

lemma section_from_dict_ok:
  "keeps_ok loads cls \<Longrightarrow> section_ok loads cls new_sec \<Longrightarrow> section_from_dict loads cls new_sec d = Inr sec \<Longrightarrow>
   section_ok loads cls sec"
  unfolding section_from_dict_Inr by (blast intro: set_all_ok)

text \<open>The initial sections. The default policy is the text of an empty object, which \<open>json.loads\<close> has to
  read as such.\<close>

definition reads_empty_policy :: "(string \<Rightarrow> pyval option) \<Rightarrow> bool" where
  "reads_empty_policy loads \<longleftrightarrow> loads ''{}'' = Some (PDict [])"

lemma default_policy_ok:
  assumes "reads_empty_policy loads"
  shows "breadcrumb_trace_policy loads (PStr ''{}'') = Inr (PStr ''{}'')"
proof -
  have "strip ''{}'' = ''{}''" "reject_control_characters ''{}'' = Inr ''{}''" "policy_level (PStr ''info'')"
    by code_simp+
  with assms show ?thesis
    by (simp add: breadcrumb_trace_policy_def parse_breadcrumb_trace_policy_def policy_candidate_def
        reads_empty_policy_def get_either_def)
qed

lemma new_sections_ok:
  "reads_empty_policy loads \<Longrightarrow> section_ok loads general_class new_general"
  "section_ok loads lftp_class new_lftp"
  "section_ok loads validate_class new_validate"
  "section_ok loads controller_class new_controller"
  "section_ok loads web_class new_web"
  "section_ok loads autoqueue_class new_autoqueue"
  "section_ok loads logging_class new_logging"
  "section_ok loads notifications_class new_notifications"
proof -
  assume "reads_empty_policy loads"
  then have "breadcrumb_trace_policy loads (PStr ''{}'') = Inr (PStr ''{}'')" by (rule default_policy_ok)
  moreover have "check_value loads CheckLogLevel (PStr ''INFO'') = Inr (PStr ''INFO'')"
    "check_value loads CheckAllowEmpty (PStr []) = Inr (PStr [])" "convert ConvLogLevel ''INFO'' = Inr (PStr ''INFO'')"
    by code_simp+
  ultimately show "section_ok loads general_class new_general"
    by (simp add: section_ok_def general_class_def new_general_def prop_value_def settled_def int_at_least_def int_range_def)
qed (unfold section_ok_def, code_simp+)

lemma keeps_ok_classes:
  "keeps_ok loads general_class" "keeps_ok loads lftp_class" "keeps_ok loads validate_class"
  "keeps_ok loads controller_class" "keeps_ok loads web_class" "keeps_ok loads autoqueue_class"
  "keeps_ok loads logging_class" "keeps_ok loads notifications_class"
proof -
  have g: "dict_get (cc_schema lftp_class) ''protocol'' = Some (CheckProtocol, ConvProtocol)" by code_simp
  have c: "settled loads CheckProtocol ConvProtocol (PStr ''sftp'')" by code_simp
  have hook: "cc_after_set lftp_class = rclone_hook" by (simp add: lftp_class_def)
  show "keeps_ok loads lftp_class"
    unfolding keeps_ok_def hook rclone_hook_def
    using classes_ok(2) section_ok_set[OF _ g classes_ok(2)] c by simp
qed (unfold keeps_ok_def, simp_all add: classes_ok, simp_all add: general_class_def validate_class_def controller_class_def web_class_def
    autoqueue_class_def logging_class_def notifications_class_def plain_class_def)

section \<open>rclone uses SFTP\<close>

definition rclone_ok :: "config_section \<Rightarrow> bool" where
  "rclone_ok sec \<longleftrightarrow> (prop_value sec ''transfer_backend'' = PStr ''rclone'' \<longrightarrow> prop_value sec ''protocol'' = PStr ''sftp'')"

lemma rclone_ok_hook: "rclone_ok sec \<or> name \<in> {''transfer_backend'', ''protocol''} \<Longrightarrow> rclone_ok (rclone_hook name sec)"
  by (auto simp: rclone_ok_def rclone_hook_def)

lemma rclone_ok_set:
  assumes "rclone_ok sec" "set_prop loads lftp_class name v sec = Inr sec'"
  shows "rclone_ok sec'"
proof -
  have hook: "cc_after_set lftp_class = rclone_hook" by (simp add: lftp_class_def)
  obtain w where "sec' = rclone_hook name (dict_set name w sec)"
    using assms(2) by (auto simp: set_prop_def store_prop_def rbind_Inr_iff hook split: option.splits if_splits)
  moreover have "rclone_ok (dict_set name w sec) \<or> name \<in> {''transfer_backend'', ''protocol''}"
    using assms(1) by (auto simp: rclone_ok_def)
  ultimately show ?thesis using rclone_ok_hook by blast
qed

lemma rclone_ok_set_all:
  "rclone_ok sec \<Longrightarrow> set_all loads lftp_class names d sec = Inr sec' \<Longrightarrow> rclone_ok sec'"
  by (induction names arbitrary: sec) (auto simp: rbind_Inr_iff dest: rclone_ok_set split: option.splits)

lemma rclone_ok_from_dict: "lftp_from_dict loads d = Inr sec \<Longrightarrow> rclone_ok sec"
proof -
  have "rclone_ok new_lftp" by code_simp
  then show "lftp_from_dict loads d = Inr sec \<Longrightarrow> rclone_ok sec"
    unfolding lftp_from_dict_def Let_def section_from_dict_Inr using rclone_ok_set_all by blast
qed

section \<open>Configurations\<close>

definition config_ok :: "(string \<Rightarrow> pyval option) \<Rightarrow> config \<Rightarrow> bool" where
  "config_ok loads c \<longleftrightarrow>
     section_ok loads general_class (cf_general c) \<and> section_ok loads lftp_class (cf_lftp c) \<and>
     section_ok loads validate_class (cf_validate c) \<and> section_ok loads controller_class (cf_controller c) \<and>
     section_ok loads web_class (cf_web c) \<and> section_ok loads autoqueue_class (cf_autoqueue c) \<and>
     section_ok loads logging_class (cf_logging c) \<and> section_ok loads notifications_class (cf_notifications c) \<and>
     rclone_ok (cf_lftp c)"

lemma new_config_ok: "reads_empty_policy loads \<Longrightarrow> config_ok loads new_config"
proof -
  have "rclone_ok new_lftp" by code_simp
  then show "reads_empty_policy loads \<Longrightarrow> config_ok loads new_config"
    by (simp add: config_ok_def new_config_def new_sections_ok)
qed

lemmas from_dict_ok = section_from_dict_ok[OF keeps_ok_classes(1) new_sections_ok(1)]
  section_from_dict_ok[OF keeps_ok_classes(2) new_sections_ok(2)]
  section_from_dict_ok[OF keeps_ok_classes(3) new_sections_ok(3)]
  section_from_dict_ok[OF keeps_ok_classes(4) new_sections_ok(4)]
  section_from_dict_ok[OF keeps_ok_classes(5) new_sections_ok(5)]
  section_from_dict_ok[OF keeps_ok_classes(6) new_sections_ok(6)]
  section_from_dict_ok[OF keeps_ok_classes(7) new_sections_ok(7)]
  section_from_dict_ok[OF keeps_ok_classes(8) new_sections_ok(8)]

lemma config_from_dict_ok:
  assumes "reads_empty_policy loads" "config_from_dict loads d = Inr c"
  shows "config_ok loads c"
proof -
  obtain g l cc w a where
    g: "general_from_dict loads g = Inr (cf_general c)" and
    l: "lftp_from_dict loads l = Inr (cf_lftp c)" and
    v: "validate_from_dict loads (section_or_empty ''Validate'' d) = Inr (cf_validate c)" and
    cc: "controller_from_dict loads cc = Inr (cf_controller c)" and
    w: "section_from_dict loads web_class new_web w = Inr (cf_web c)" and
    a: "autoqueue_from_dict loads a = Inr (cf_autoqueue c)" and
    lg: "logging_from_dict loads (section_or_empty ''Logging'' d) = Inr (cf_logging c)" and
    n: "\<exists>n. notifications_from_dict loads n = Inr (cf_notifications c)"
    using assms(2) unfolding config_from_dict_def rbind_Inr_iff by (fastforce split: list.splits)
  have "section_ok loads general_class (cf_general c)"
    using g from_dict_ok(1)[OF assms(1)] by (auto simp: general_from_dict_def rbind_Inr_iff)
  moreover have "section_ok loads lftp_class (cf_lftp c)"
    using l from_dict_ok(2) by (auto simp: lftp_from_dict_def Let_def split: if_splits)
  moreover have "section_ok loads validate_class (cf_validate c)" "section_ok loads controller_class (cf_controller c)"
    "section_ok loads web_class (cf_web c)" "section_ok loads autoqueue_class (cf_autoqueue c)"
    "section_ok loads logging_class (cf_logging c)" "section_ok loads notifications_class (cf_notifications c)"
    using v cc w a lg n from_dict_ok(3-8)
    by (auto simp: validate_from_dict_def controller_from_dict_def autoqueue_from_dict_def logging_from_dict_def
        notifications_from_dict_def)
  moreover have "rclone_ok (cf_lftp c)" by (rule rclone_ok_from_dict[OF l])
  ultimately show ?thesis by (simp add: config_ok_def)
qed

end
