(* ===== verification/Config_Texts.thy ===== *)
theory Config_Texts
  imports Config_Sections
begin

text \<open>
  The configuration as texts: what \<open>Config.to_str\<close> hands to \<open>configparser\<close>, read back by
  \<open>Config.from_dict\<close>, is the configuration again.
\<close>

section \<open>One value\<close>

text \<open>A property with its native type: a boolean, an integer \<open>str\<close> can print, or a text.\<close>

definition native_type :: "config_converter \<Rightarrow> pyval \<Rightarrow> bool" where
  "native_type conv v =
     (case v of PBool b \<Rightarrow> conv = ConvBool
      | PInt n \<Rightarrow> conv = ConvInt \<and> length (dec_text (nat \<bar>n\<bar>)) \<le> MAX_STR_DIGITS
      | PStr s \<Rightarrow> conv \<notin> {ConvBool, ConvInt}
      | _ \<Rightarrow> False)"

lemma digit_groups_digits: "s \<noteq> [] \<Longrightarrow> list_all is_digit s \<Longrightarrow> digit_groups s"
proof (induction s rule: digit_groups.induct)
  case (3 c d s)
  have "\<not> is_digit (CHR ''_'')" by code_simp
  with 3 have "d \<noteq> CHR ''_''" by auto
  with 3 show ?case by simp
qed auto

lemma int_of_str_int_text:
  assumes "length (dec_text (nat \<bar>n\<bar>)) \<le> MAX_STR_DIGITS"
  shows "int_of_str (int_text n) = Inr n"
proof -
  have dig: "digit_groups (dec_text m)" "filter is_digit (dec_text m) = dec_text m" for m
    using dec_text_digits[of m] by (auto simp: digit_groups_digits list_all_iff)
  have plain: "strip (dec_text m) = dec_text m" "strip (CHR ''-'' # dec_text m) = CHR ''-'' # dec_text m" for m
  proof -
    have "\<not> is_space (CHR ''-'')" by code_simp
    then show "strip (dec_text m) = dec_text m" "strip (CHR ''-'' # dec_text m) = CHR ''-'' # dec_text m"
      using dec_text_digits[of m] by (auto intro!: strip_plain simp: list_all_iff digit_not_space)
  qed
  have "\<not> is_digit (CHR ''-'')" "\<not> is_digit (CHR ''+'')" by code_simp+
  with dec_text_digits[of "nat n"] have first: "\<exists>c r. dec_text (nat n) = c # r \<and> c \<noteq> CHR ''-'' \<and> c \<noteq> CHR ''+''"
    by (cases "dec_text (nat n)") auto
  show ?thesis
  proof (cases "n < 0")
    case True
    with assms dig plain show ?thesis by (simp add: int_of_str_def int_text_def)
  next
    case False
    with first obtain c r where "dec_text (nat n) = c # r" "c \<noteq> CHR ''-''" "c \<noteq> CHR ''+''" by blast
    moreover have "decimal_value (dec_text (nat n)) = n" using False by simp
    ultimately show ?thesis
      using False assms dig[of "nat n"] plain(1)[of "nat n"] by (simp add: int_of_str_def int_text_def)
  qed
qed

lemma convert_text:
  assumes "native_type conv v" "compatible ck conv" "check_value loads ck v = Inr v"
  shows "\<exists>s. value_text v = Inr s \<and> convert conv s = Inr v"
proof (cases v)
  case (PBool b)
  have "strtobool ''True'' = Inr True" "strtobool ''False'' = Inr False" by code_simp+
  with PBool assms(1) show ?thesis by (simp add: native_type_def value_text_def)
next
  case (PInt n)
  have "int_text n \<noteq> []" by (simp add: int_text_def)
  with PInt assms(1) int_of_str_int_text[of n] show ?thesis
    by (simp add: native_type_def value_text_def int_str_def)
next
  case (PStr s)
  with assms show ?thesis
    by (cases conv) (auto simp: native_type_def value_text_def compatible_def)
qed (use assms(1) in \<open>auto simp: native_type_def\<close>)

section \<open>One section\<close>

text \<open>A section in which every property is set, with its native type.\<close>

definition native_section :: "(string \<Rightarrow> pyval option) \<Rightarrow> config_class \<Rightarrow> config_section \<Rightarrow> bool" where
  "native_section loads cls sec \<longleftrightarrow> dict_keys sec = dict_keys (cc_schema cls) \<and>
     list_all (\<lambda>(name, ck, conv). native_type conv (prop_value sec name) \<and>
       check_value loads ck (prop_value sec name) = Inr (prop_value sec name)) (cc_schema cls)"

lemma section_texts_map:
  "list_all (\<lambda>(k, v). value_text v = Inr (t k)) sec \<Longrightarrow> section_texts sec = Inr (map (\<lambda>(k, v). (k, PStr (t k))) sec)"
  by (induction sec rule: section_texts.induct) auto

lemma set_prop_text:
  assumes "dict_get (cc_schema cls) name = Some (ck, conv)" "convert conv s = Inr v"
    "check_value loads ck v = Inr v" "v \<noteq> PNone"
  shows "set_prop loads cls name (PStr s) sec = Inr (cc_after_set cls name (dict_set name v sec))"
  using assms by (simp add: set_prop_def store_prop_def native_value_of_def)

text \<open>Setting the properties of \<open>names\<close> one after the other to the values of \<open>sec\<close>, as long as the hook of
  the class leaves every section on the way alone.\<close>

definition put_all :: "config_section \<Rightarrow> string list \<Rightarrow> config_section \<Rightarrow> config_section" where
  "put_all sec names start = fold (\<lambda>n. dict_set n (prop_value sec n)) names start"

lemma prop_value_put_all: "prop_value (put_all sec names start) n = (if n \<in> set names then prop_value sec n else prop_value start n)"
  by (induction names arbitrary: start) (auto simp: put_all_def)

lemma keys_put_all: "set names \<subseteq> set (dict_keys start) \<Longrightarrow> dict_keys (put_all sec names start) = dict_keys start"
proof (induction names arbitrary: start)
  case (Cons n names)
  have k: "dict_keys (dict_set n (prop_value sec n) start) = dict_keys start"
    using Cons.prems by (simp add: update_keys)
  then show ?case using Cons.IH[of "dict_set n (prop_value sec n) start"] Cons.prems by (simp add: put_all_def)
qed (simp add: put_all_def)

lemma set_all_put_all:
  assumes "\<forall>n\<in>set names. \<exists>ck conv s. dict_get (cc_schema cls) n = Some (ck, conv) \<and> dict_get d n = Some (PStr s) \<and>
      convert conv s = Inr (prop_value sec n) \<and> check_value loads ck (prop_value sec n) = Inr (prop_value sec n) \<and>
      prop_value sec n \<noteq> PNone"
    and "\<And>pre n post. names = pre @ n # post \<Longrightarrow>
      cc_after_set cls n (put_all sec (pre @ [n]) start) = put_all sec (pre @ [n]) start"
  shows "set_all loads cls names d start = Inr (put_all sec names start)"
  using assms
proof (induction names arbitrary: start)
  case (Cons n names)
  obtain ck conv s where p: "dict_get (cc_schema cls) n = Some (ck, conv)" "dict_get d n = Some (PStr s)"
    "convert conv s = Inr (prop_value sec n)" "check_value loads ck (prop_value sec n) = Inr (prop_value sec n)"
    "prop_value sec n \<noteq> PNone"
    using Cons.prems(1) by auto
  have "set_prop loads cls n (PStr s) start = Inr (dict_set n (prop_value sec n) start)"
    using set_prop_text[OF p(1,3,4,5)] Cons.prems(2)[of "[]" n names] by (simp add: put_all_def)
  moreover have "set_all loads cls names d (dict_set n (prop_value sec n) start) =
      Inr (put_all sec names (dict_set n (prop_value sec n) start))"
  proof (rule Cons.IH)
    fix pre m post assume "names = pre @ m # post"
    with Cons.prems(2)[of "n # pre" m post]
    show "cc_after_set cls m (put_all sec (pre @ [m]) (dict_set n (prop_value sec n) start)) =
        put_all sec (pre @ [m]) (dict_set n (prop_value sec n) start)"
      by (simp add: put_all_def)
  qed (use Cons.prems(1) in auto)
  ultimately show ?case using p(2) by (simp add: put_all_def)
qed (simp add: put_all_def)

lemma section_self: "distinct (dict_keys a) \<Longrightarrow> map (\<lambda>k. (k, prop_value a k)) (dict_keys a) = a"
proof (induction a)
  case (Cons p a)
  obtain k v where p: "p = (k, v)" by (cases p)
  have "\<forall>k'\<in>set (dict_keys a). prop_value (p # a) k' = prop_value a k'"
    using Cons.prems by (auto simp: p prop_value_def rev_image_eqI)
  then have "map (\<lambda>k. (k, prop_value (p # a) k)) (dict_keys a) = map (\<lambda>k. (k, prop_value a k)) (dict_keys a)"
    by (intro map_cong[OF refl]) blast
  with Cons show ?case by (simp add: p prop_value_def)
qed simp

lemma section_eqI:
  assumes "dict_keys a = dict_keys b" "distinct (dict_keys a)" "\<forall>k\<in>set (dict_keys a). prop_value a k = prop_value b k"
  shows "a = b"
proof -
  have "map (\<lambda>k. (k, prop_value a k)) (dict_keys a) = map (\<lambda>k. (k, prop_value b k)) (dict_keys b)"
    unfolding assms(1)[symmetric] using assms(3) by (intro map_cong[OF refl]) blast
  with section_self[of a] section_self[of b] assms(1,2) show ?thesis by simp
qed

lemma native_value:
  assumes "native_section loads cls sec" "class_ok cls" "dict_get (cc_schema cls) n = Some (ck, conv)"
  shows "\<exists>s. value_text (prop_value sec n) = Inr s \<and> convert conv s = Inr (prop_value sec n)"
    and "check_value loads ck (prop_value sec n) = Inr (prop_value sec n)" "prop_value sec n \<noteq> PNone"
proof -
  have m: "(n, ck, conv) \<in> set (cc_schema cls)" by (rule map_of_SomeD[OF assms(3)])
  then have "native_type conv (prop_value sec n)" "compatible ck conv"
    and c: "check_value loads ck (prop_value sec n) = Inr (prop_value sec n)"
    using assms(1,2) by (auto simp: native_section_def class_ok_def list_all_iff)
  then show "\<exists>s. value_text (prop_value sec n) = Inr s \<and> convert conv s = Inr (prop_value sec n)"
    by (intro convert_text)
  show "check_value loads ck (prop_value sec n) = Inr (prop_value sec n)" by (rule c)
  show "prop_value sec n \<noteq> PNone" using \<open>native_type conv _\<close> by (auto simp: native_type_def)
qed

lemma native_as_dict: "native_section loads cls sec \<Longrightarrow> class_ok cls \<Longrightarrow> section_as_dict cls sec = sec"
  unfolding section_as_dict_def native_section_def class_ok_def using section_self[of sec] by simp

text \<open>The texts of a native section are a dictionary with the same keys.\<close>

definition texts_of :: "config_section \<Rightarrow> config_section" where
  "texts_of sec = map (\<lambda>(k, v). (k, PStr (case value_text v of Inr s \<Rightarrow> s | Inl _ \<Rightarrow> []))) sec"

lemma keys_texts_of [simp]: "dict_keys (texts_of sec) = dict_keys sec"
  by (simp add: texts_of_def case_prod_beta comp_def)

lemma native_texts:
  assumes "native_section loads cls sec" "class_ok cls"
  shows "section_texts (section_as_dict cls sec) = Inr (texts_of sec)"
proof -
  have "\<exists>s. value_text v = Inr s" if "(k, v) \<in> set sec" for k v
  proof -
    have "k \<in> set (dict_keys sec)" using that by force
    moreover have keys: "dict_keys sec = dict_keys (cc_schema cls)"
      using assms(1) by (simp add: native_section_def)
    ultimately have "k \<in> set (dict_keys (cc_schema cls))" by (simp only:)
    moreover have "distinct (dict_keys sec)" unfolding keys using assms(2) by (simp add: class_ok_def)
    ultimately obtain ck conv where "dict_get (cc_schema cls) k = Some (ck, conv)"
      by (metis map_of_in_iff not_None_eq set_map surj_pair)
    moreover have "prop_value sec k = v"
      using \<open>distinct (dict_keys sec)\<close> that by (simp add: prop_value_def map_of_is_SomeI)
    ultimately show ?thesis using native_value(1)[OF assms] by blast
  qed
  then have "section_texts sec = Inr (texts_of sec)"
    by (induction sec rule: section_texts.induct) (fastforce simp: texts_of_def)+
  then show ?thesis using native_as_dict[OF assms] by simp
qed

lemma native_from_texts:
  assumes "native_section loads cls sec" "class_ok cls" "dict_keys start = dict_keys (cc_schema cls)"
    and "\<And>pre n post. sort (dict_keys (cc_schema cls)) = pre @ n # post \<Longrightarrow>
      cc_after_set cls n (put_all sec (pre @ [n]) start) = put_all sec (pre @ [n]) start"
  shows "section_from_dict loads cls start (texts_of sec) = Inr sec"
proof -
  let ?names = "sort (dict_keys (cc_schema cls))"
  have keys: "dict_keys sec = dict_keys (cc_schema cls)" and dist: "distinct (dict_keys sec)"
    using assms(1,2) by (auto simp: native_section_def class_ok_def)
  have "\<forall>n\<in>set ?names. \<exists>ck conv s. dict_get (cc_schema cls) n = Some (ck, conv) \<and> dict_get (texts_of sec) n = Some (PStr s) \<and>
      convert conv s = Inr (prop_value sec n) \<and> check_value loads ck (prop_value sec n) = Inr (prop_value sec n) \<and>
      prop_value sec n \<noteq> PNone"
  proof
    fix n assume "n \<in> set ?names"
    then have n: "n \<in> fst ` set (cc_schema cls)" by simp
    then obtain ck conv where g: "dict_get (cc_schema cls) n = Some (ck, conv)"
      by (metis map_of_in_iff not_None_eq surj_pair)
    have "n \<in> fst ` set sec" using n keys by (metis set_map)
    then obtain v where v: "dict_get sec n = Some v" by (metis map_of_in_iff not_None_eq)
    then have "dict_get (texts_of sec) n = Some (PStr (case value_text v of Inr s \<Rightarrow> s | Inl _ \<Rightarrow> []))"
      by (simp add: texts_of_def map_of_map)
    with native_value[OF assms(1,2) g] g v
    show "\<exists>ck conv s. dict_get (cc_schema cls) n = Some (ck, conv) \<and> dict_get (texts_of sec) n = Some (PStr s) \<and>
      convert conv s = Inr (prop_value sec n) \<and> check_value loads ck (prop_value sec n) = Inr (prop_value sec n) \<and>
      prop_value sec n \<noteq> PNone"
      by (auto simp: prop_value_def)
  qed
  then have "set_all loads cls ?names (texts_of sec) start = Inr (put_all sec ?names start)"
    by (rule set_all_put_all) (rule assms(4))
  moreover have "put_all sec ?names start = sec"
  proof (rule section_eqI)
    show "dict_keys (put_all sec ?names start) = dict_keys sec"
      using keys_put_all[of ?names start sec] assms(3) keys by simp
    with dist show "distinct (dict_keys (put_all sec ?names start))" by simp
    show "\<forall>k\<in>set (dict_keys (put_all sec ?names start)). prop_value (put_all sec ?names start) k = prop_value sec k"
      using keys_put_all[of ?names start sec] assms(3) by (simp add: prop_value_put_all)
  qed
  ultimately show ?thesis
    unfolding section_from_dict_Inr keys_texts_of keys by (auto simp: has_prop_def list_all_iff)
qed

section \<open>The configuration\<close>

definition native_config :: "(string \<Rightarrow> pyval option) \<Rightarrow> config \<Rightarrow> bool" where
  "native_config loads c \<longleftrightarrow>
     native_section loads general_class (cf_general c) \<and> native_section loads lftp_class (cf_lftp c) \<and>
     native_section loads validate_class (cf_validate c) \<and> native_section loads controller_class (cf_controller c) \<and>
     native_section loads web_class (cf_web c) \<and> native_section loads autoqueue_class (cf_autoqueue c) \<and>
     native_section loads logging_class (cf_logging c) \<and> native_section loads notifications_class (cf_notifications c) \<and>
     rclone_ok (cf_lftp c)"

lemma with_default_present [simp]: "k \<in> set (dict_keys d) \<Longrightarrow> with_default k v d = d"
  by (simp add: with_default_def)

lemma pop_absent: "k \<notin> set (dict_keys d) \<Longrightarrow> dict_pop k d = d"
  by (simp add: delete_idem)

lemma plain_from_texts:
  assumes "native_section loads cls sec" "class_ok cls" "dict_keys start = dict_keys (cc_schema cls)"
    "cc_after_set cls = (\<lambda>_ s. s)"
  shows "section_from_dict loads cls start (texts_of sec) = Inr sec"
  by (rule native_from_texts[OF assms(1-3)]) (simp add: assms(4))

lemma lftp_from_texts:
  assumes "native_section loads lftp_class sec" "rclone_ok sec"
  shows "section_from_dict loads lftp_class new_lftp (texts_of sec) = Inr sec"
proof (rule native_from_texts[OF assms(1) classes_ok(2)])
  show "dict_keys new_lftp = dict_keys (cc_schema lftp_class)" by code_simp
  fix pre n post
  assume names: "sort (dict_keys (cc_schema lftp_class)) = pre @ n # post"
  let ?s = "put_all sec (pre @ [n]) new_lftp"
  have order: "\<not> ''transfer_backend'' \<le> ''protocol''" "''protocol'' \<in> set (dict_keys (cc_schema lftp_class))"
    by code_simp+
  have sorted: "sorted (pre @ n # post)" unfolding names[symmetric] by simp
  have all: "''protocol'' \<in> set (pre @ n # post)" unfolding names[symmetric] set_sort by (rule order(2))
  have "prop_value ?s ''transfer_backend'' = PStr ''rclone'' \<longrightarrow> n \<in> {''transfer_backend'', ''protocol''} \<longrightarrow>
      prop_value ?s ''protocol'' = PStr ''sftp''"
  proof (intro impI)
    assume r: "prop_value ?s ''transfer_backend'' = PStr ''rclone''" and n: "n \<in> {''transfer_backend'', ''protocol''}"
    have "prop_value new_lftp ''transfer_backend'' = PStr ''lftp''" by code_simp
    with r have t: "''transfer_backend'' \<in> set (pre @ [n])" "prop_value sec ''transfer_backend'' = PStr ''rclone''"
      by (auto simp: prop_value_put_all split: if_splits)
    have "''protocol'' \<in> set (pre @ [n])"
    proof (rule ccontr)
      assume "''protocol'' \<notin> set (pre @ [n])"
      with all have "''protocol'' \<in> set post" by auto
      moreover have "\<forall>x\<in>set (pre @ [n]). \<forall>y\<in>set post. x \<le> y" using sorted by (auto simp: sorted_append)
      ultimately have "''transfer_backend'' \<le> ''protocol''" using t(1) by blast
      with order(1) show False ..
    qed
    with t(2) assms(2) show "prop_value ?s ''protocol'' = PStr ''sftp''"
      by (simp add: prop_value_put_all rclone_ok_def)
  qed
  then show "cc_after_set lftp_class n ?s = ?s"
    by (auto simp: lftp_class_def rclone_hook_def)
qed

lemma general_round_trip:
  assumes "native_section loads general_class sec"
  shows "general_from_dict loads (dict_pop ''webhook_secret'' (texts_of sec)) = Inr sec"
proof -
  have keys: "dict_keys (texts_of sec) = dict_keys (cc_schema general_class)"
    using assms by (simp add: native_section_def)
  have absent: "list_all (\<lambda>k. k \<notin> set (dict_keys (cc_schema general_class))) [''webhook_secret'',
      ''trusted_browser_bootstrap_remote_addrs'', ''debug'', ''breadcrumb_trace_retention_depth'',
      ''breadcrumb_trace_serialization_policy'']" by code_simp
  have present: "list_all (\<lambda>k. k \<in> set (dict_keys (cc_schema general_class))) [''exclude_patterns'', ''api_token'',
      ''allowed_hostname'', ''browser_handover_recovery_version'', ''disable_browser_auth'', ''log_level'',
      ''breadcrumb_trace_enabled'', ''breadcrumb_trace_memory_budget_bytes'', ''breadcrumb_trace_max_entries'',
      ''breadcrumb_trace_policy'', ''performance_diagnostics_enabled'', ''performance_diagnostics_retention_depth'',
      ''performance_diagnostics_sample_interval_seconds'', ''py_spy_enabled'', ''config_api_redact_remote_details'']"
    by code_simp
  have pop: "dict_pop k (texts_of sec) = texts_of sec" if "k \<notin> set (dict_keys (cc_schema general_class))" for k
    by (rule pop_absent) (unfold keys, rule that)
  have dflt: "with_default k v (texts_of sec) = texts_of sec" if "k \<in> set (dict_keys (cc_schema general_class))" for k v
    by (rule with_default_present) (unfold keys, rule that)
  have renamed: "renamed_key old k v (texts_of sec) = texts_of sec"
    if "old \<notin> set (dict_keys (cc_schema general_class))" "k \<in> set (dict_keys (cc_schema general_class))" for old k v
    using that by (simp add: renamed_key_def pop dflt Let_def)
  have debug: "legacy_debug (texts_of sec) = Inr (texts_of sec)"
    unfolding legacy_debug_def keys using present absent pop[of "''debug''"] by (simp add: list_all_iff)
  have "section_from_dict loads general_class new_general (texts_of sec) = Inr sec"
  proof (rule plain_from_texts[OF assms classes_ok(1)])
    show "dict_keys new_general = dict_keys (cc_schema general_class)" by code_simp
  qed (simp add: general_class_def)
  then show ?thesis
    unfolding general_from_dict_def using absent present by (simp add: pop dflt renamed debug del: set_map)
qed

lemma lftp_round_trip:
  assumes "native_section loads lftp_class sec" "rclone_ok sec"
  shows "lftp_from_dict loads (texts_of sec) = Inr sec"
proof -
  have keys: "dict_keys (texts_of sec) = dict_keys (cc_schema lftp_class)"
    using assms by (simp add: native_section_def)
  have present: "list_all (\<lambda>k. k \<in> set (dict_keys (cc_schema lftp_class))) [''transfer_backend'', ''rate_limit'',
      ''remote_python_path'', ''net_socket_buffer'', ''staging_path'', ''protocol'', ''remote_ftp_port'',
      ''ftp_ssl_verify_certificate'', ''use_legacy_lftp_password_argv'']"
    by code_simp
  have dflt: "with_default k v (texts_of sec) = texts_of sec" if "k \<in> set (dict_keys (cc_schema lftp_class))" for k v
    by (rule with_default_present) (unfold keys, rule that)
  have schema: "dict_get (cc_schema lftp_class) ''transfer_backend'' = Some (CheckBackend, ConvBackend)"
    "dict_get (cc_schema lftp_class) ''protocol'' = Some (CheckProtocol, ConvProtocol)" by code_simp+
  note b = native_value[OF assms(1) classes_ok(2) schema(1)]
  obtain bt where bt: "prop_value sec ''transfer_backend'' = PStr bt" "normalize_transfer_backend (PStr bt) = PStr bt"
    using b(2) by (auto simp: normalize_transfer_backend_def split: pyval.splits if_splits)
  have get: "dict_get (texts_of sec) k = Some (PStr t)" if "prop_value sec k = PStr t" for k t
    using that by (cases "dict_get sec k") (auto simp: prop_value_def texts_of_def map_of_map value_text_def)
  have same: "dict_set k (PStr t) (texts_of sec) = texts_of sec" if "prop_value sec k = PStr t" for k t
    by (rule update_triv[OF get[OF that]])
  have pv: "prop_value (texts_of sec) ''transfer_backend'' = PStr bt"
    using get[OF bt(1)] by (simp add: prop_value_def)
  have sftp: "dict_set ''protocol'' (PStr ''sftp'') (texts_of sec) = texts_of sec" if "bt = ''rclone''"
    using assms(2) bt(1) that by (intro same) (simp add: rclone_ok_def)
  show ?thesis
    unfolding lftp_from_dict_def Let_def using present lftp_from_texts[OF assms] bt(2) same[OF bt(1)] sftp
    by (cases "bt = ''rclone''") (simp_all add: dflt pv del: set_map)
qed

lemma fold_dict_set:
  "set (dict_keys d) \<subseteq> set (dict_keys base) \<Longrightarrow> distinct (dict_keys d) \<Longrightarrow>
   dict_keys (fold (\<lambda>(k, v). dict_set k v) d base) = dict_keys base \<and>
   (\<forall>n. prop_value (fold (\<lambda>(k, v). dict_set k v) d base) n =
     (if n \<in> set (dict_keys d) then prop_value d n else prop_value base n))"
proof (induction d arbitrary: base)
  case (Cons p d)
  obtain k v where p: "p = (k, v)" by (cases p)
  have keys: "dict_keys (dict_set k v base) = dict_keys base" using Cons.prems(1) by (simp add: p update_keys)
  have IH: "dict_keys (fold (\<lambda>(k, v). dict_set k v) d (dict_set k v base)) = dict_keys base \<and>
     (\<forall>n. prop_value (fold (\<lambda>(k, v). dict_set k v) d (dict_set k v base)) n =
       (if n \<in> set (dict_keys d) then prop_value d n else prop_value (dict_set k v base) n))"
    using Cons.IH[of "dict_set k v base"] Cons.prems unfolding keys by (auto simp: p)
  moreover have "prop_value (p # d) n = (if n = k then v else prop_value d n)" for n
    by (simp add: p prop_value_def)
  ultimately show ?case using Cons.prems(2) by (auto simp: p)
qed simp

lemma notifications_round_trip:
  assumes "native_section loads notifications_class sec"
  shows "notifications_from_dict loads (texts_of sec) = Inr sec"
proof -
  let ?base = "section_as_dict notifications_class new_notifications"
  have keys: "dict_keys (texts_of sec) = dict_keys (cc_schema notifications_class)"
    using assms by (simp add: native_section_def)
  have base: "dict_keys ?base = dict_keys (cc_schema notifications_class)" by (simp add: section_as_dict_def comp_def)
  have dist: "distinct (dict_keys (cc_schema notifications_class))" by code_simp
  have "fold (\<lambda>(k, v). dict_set k v) (texts_of sec) ?base = texts_of sec"
    using fold_dict_set[of "texts_of sec" ?base] unfolding keys base
    by (intro section_eqI) (simp_all only: keys dist, auto)
  moreover have "section_from_dict loads notifications_class new_notifications (texts_of sec) = Inr sec"
  proof (rule plain_from_texts[OF assms classes_ok(8)])
    show "dict_keys new_notifications = dict_keys (cc_schema notifications_class)" by code_simp
  qed (simp add: notifications_class_def plain_class_def)
  ultimately show ?thesis by (simp add: notifications_from_dict_def)
qed

lemma small_round_trips:
  "native_section loads validate_class v \<Longrightarrow> validate_from_dict loads (texts_of v) = Inr v"
  "native_section loads controller_class c \<Longrightarrow> controller_from_dict loads (texts_of c) = Inr c"
  "native_section loads web_class w \<Longrightarrow> section_from_dict loads web_class new_web (texts_of w) = Inr w"
  "native_section loads autoqueue_class a \<Longrightarrow> autoqueue_from_dict loads (texts_of a) = Inr a"
proof -
  have keys: "dict_keys new_validate = dict_keys (cc_schema validate_class)" "dict_keys new_controller = dict_keys (cc_schema controller_class)"
    "dict_keys new_web = dict_keys (cc_schema web_class)" "dict_keys new_autoqueue = dict_keys (cc_schema autoqueue_class)"
    by code_simp+
  have hooks: "cc_after_set validate_class = (\<lambda>_ s. s)" "cc_after_set controller_class = (\<lambda>_ s. s)"
    "cc_after_set web_class = (\<lambda>_ s. s)" "cc_after_set autoqueue_class = (\<lambda>_ s. s)"
    by (simp_all add: validate_class_def controller_class_def web_class_def autoqueue_class_def plain_class_def)
  have mem: "''xfer_verify'' \<in> set (dict_keys (cc_schema validate_class))"
    "''managed_extract_folders_enabled'' \<in> set (dict_keys (cc_schema controller_class))"
    "''auto_delete_remote'' \<in> set (dict_keys (cc_schema autoqueue_class))" by code_simp+
  have dflt: "with_default k x (texts_of sec) = texts_of sec"
    if "native_section loads cls sec" "k \<in> set (dict_keys (cc_schema cls))" for k x sec cls
  proof (rule with_default_present)
    have "dict_keys (texts_of sec) = dict_keys (cc_schema cls)" using that(1) by (simp add: native_section_def)
    with that(2) show "k \<in> set (dict_keys (texts_of sec))" by (simp only:)
  qed
  show "native_section loads validate_class v \<Longrightarrow> validate_from_dict loads (texts_of v) = Inr v"
    using plain_from_texts[OF _ classes_ok(3) keys(1) hooks(1)] dflt[OF _ mem(1)] by (simp add: validate_from_dict_def)
  show "native_section loads controller_class c \<Longrightarrow> controller_from_dict loads (texts_of c) = Inr c"
    using plain_from_texts[OF _ classes_ok(4) keys(2) hooks(2)] dflt[OF _ mem(2)] by (simp add: controller_from_dict_def)
  show "native_section loads web_class w \<Longrightarrow> section_from_dict loads web_class new_web (texts_of w) = Inr w"
    by (rule plain_from_texts[OF _ classes_ok(5) keys(3) hooks(3)])
  show "native_section loads autoqueue_class a \<Longrightarrow> autoqueue_from_dict loads (texts_of a) = Inr a"
    using plain_from_texts[OF _ classes_ok(6) keys(4) hooks(4)] dflt[OF _ mem(3)] by (simp add: autoqueue_from_dict_def)
qed

lemma logging_round_trip:
  assumes "native_section loads logging_class sec"
  shows "logging_from_dict loads (texts_of sec) = Inr sec"
proof -
  have schema: "dict_get (cc_schema logging_class) ''log_format'' = Some (CheckLogFormat, ConvNull)" by code_simp
  obtain t where t: "prop_value sec ''log_format'' = PStr t" "strip t \<noteq> []"
    using native_value(2)[OF assms classes_ok(7) schema] choice_words(2)
    by (auto simp: normalize_log_format_def normalize_choice_def Let_def lower_def split: pyval.splits if_splits)
  then have "dict_get (texts_of sec) ''log_format'' = Some (PStr t)"
    by (cases "dict_get sec ''log_format''") (auto simp: prop_value_def texts_of_def map_of_map value_text_def)
  moreover have "section_from_dict loads logging_class new_logging (texts_of sec) = Inr sec"
  proof (rule plain_from_texts[OF assms classes_ok(7)])
    show "dict_keys new_logging = dict_keys (cc_schema logging_class)" by code_simp
  qed (simp add: logging_class_def plain_class_def)
  ultimately show ?thesis using t(2) by (simp add: logging_from_dict_def)
qed

lemma legacy_secret_absent: "''webhook_secret'' \<notin> set (dict_keys g) \<Longrightarrow> legacy_secret g n = n"
  by (cases "dict_get g ''webhook_secret''") (auto simp: legacy_secret_def truthy_def dest: map_of_SomeE)

definition config_texts_of :: "config \<Rightarrow> config_dict" where
  "config_texts_of c = [
     (''General'', texts_of (cf_general c)), (''Lftp'', texts_of (cf_lftp c)), (''Validate'', texts_of (cf_validate c)),
     (''Controller'', texts_of (cf_controller c)), (''Web'', texts_of (cf_web c)),
     (''AutoQueue'', texts_of (cf_autoqueue c)), (''Logging'', texts_of (cf_logging c)),
     (''Notifications'', texts_of (cf_notifications c))]"

lemma config_round_trip:
  assumes "native_config loads c"
  shows "config_texts (config_as_dict c) = Inr (config_texts_of c) \<and> config_from_dict loads (config_texts_of c) = Inr c"
proof
  note n = assms[unfolded native_config_def]
  show "config_texts (config_as_dict c) = Inr (config_texts_of c)"
    using n classes_ok by (simp add: config_as_dict_def config_texts_of_def native_texts[of loads])
  have "dict_keys (texts_of (cf_general c)) = dict_keys (cc_schema general_class)"
    using n by (simp add: native_section_def)
  moreover have "''webhook_secret'' \<notin> set (dict_keys (cc_schema general_class))" by code_simp
  ultimately have secret: "legacy_secret (texts_of (cf_general c)) m = m" for m
    by (intro legacy_secret_absent) (simp only: not_False_eq_True)
  show "config_from_dict loads (config_texts_of c) = Inr c"
    using n unfolding config_from_dict_def
    by (simp add: config_texts_of_def check_section_def section_or_empty_def general_round_trip lftp_round_trip
        small_round_trips logging_round_trip notifications_round_trip secret config_sections_def)
qed

end
