(* ===== verification/Config_Handler.thy ===== *)
theory Config_Handler
  imports Config_Texts Keyed_Store
begin

text \<open>
  \<open>web/handler/config.py\<close>: the request that sets one property of the configuration and saves it.

  A request carries the decoded JSON body, or none when it could not be read; whether writing the
  settings file succeeds is an argument. The result is the HTTP status with the value the response
  shows, or the exception that leaves the handler, together with the configuration in memory. The two
  callbacks that are told of a saved change, for traces and for LFTP, are not modelled.
  The calls that tell the running program about a change have no effect on the configuration.
\<close>

section \<open>Sections by name\<close>

definition section_class :: "string \<Rightarrow> config_class option" where
  "section_class name = map_of [(''general'', general_class), (''lftp'', lftp_class), (''validate'', validate_class),
     (''controller'', controller_class), (''web'', web_class), (''autoqueue'', autoqueue_class),
     (''logging'', logging_class), (''notifications'', notifications_class)] name"

definition get_section :: "string \<Rightarrow> config \<Rightarrow> config_section" where
  "get_section name c =
     (if name = ''general'' then cf_general c else if name = ''lftp'' then cf_lftp c
      else if name = ''validate'' then cf_validate c else if name = ''controller'' then cf_controller c
      else if name = ''web'' then cf_web c else if name = ''autoqueue'' then cf_autoqueue c
      else if name = ''logging'' then cf_logging c else cf_notifications c)"

definition put_section :: "string \<Rightarrow> config_section \<Rightarrow> config \<Rightarrow> config" where
  "put_section name sec c =
     (if name = ''general'' then c\<lparr>cf_general := sec\<rparr> else if name = ''lftp'' then c\<lparr>cf_lftp := sec\<rparr>
      else if name = ''validate'' then c\<lparr>cf_validate := sec\<rparr> else if name = ''controller'' then c\<lparr>cf_controller := sec\<rparr>
      else if name = ''web'' then c\<lparr>cf_web := sec\<rparr> else if name = ''autoqueue'' then c\<lparr>cf_autoqueue := sec\<rparr>
      else if name = ''logging'' then c\<lparr>cf_logging := sec\<rparr> else c\<lparr>cf_notifications := sec\<rparr>)"

definition section_has_prop :: "string \<Rightarrow> config_class \<Rightarrow> string \<Rightarrow> bool" where
  "section_has_prop name cls key = (if name = ''general'' then general_has_prop key else has_prop cls key)"

definition section_set_prop ::
  "(string \<Rightarrow> pyval option) \<Rightarrow> string \<Rightarrow> config_class \<Rightarrow> string \<Rightarrow> pyval \<Rightarrow> config_section \<Rightarrow> config_section result" where
  "section_set_prop loads name cls key v sec =
     (if name = ''general'' then general_set_prop loads key v sec else set_prop loads cls key v sec)"

section \<open>Guards\<close>

definition BODY_SET_BLOCKED_FIELDS :: "(string, string list) dict" where
  "BODY_SET_BLOCKED_FIELDS = [
     (''general'', [''api_token'', ''config_api_redact_remote_details'', ''disable_browser_auth'']),
     (''notifications'', [''enabled'', ''provider'', ''webhook_url'', ''hmac_secret'', ''apprise_url'', ''apprise_tag'',
        ''allow_private_networks'', ''download_start'', ''download_complete'', ''extraction_complete'', ''delete_complete'']),
     (''lftp'', [''use_legacy_lftp_password_argv''])]"

definition is_blocked_field :: "string \<Rightarrow> string \<Rightarrow> bool" where
  "is_blocked_field sec key =
     (case dict_get BODY_SET_BLOCKED_FIELDS sec of None \<Rightarrow> False | Some keys \<Rightarrow> key \<in> set keys)"

definition is_blank_text :: "pyval \<Rightarrow> bool" where
  "is_blank_text v = (case v of PNone \<Rightarrow> True | PStr s \<Rightarrow> strip s = [] | _ \<Rightarrow> False)"

definition normalize_for_guard :: "pyval \<Rightarrow> pyval" where
  "normalize_for_guard v = (case v of PStr s \<Rightarrow> PStr (lower (strip s)) | _ \<Rightarrow> v)"

definition would_create_blank_ftps_password :: "config_section \<Rightarrow> string \<Rightarrow> string \<Rightarrow> pyval \<Rightarrow> bool" where
  "would_create_blank_ftps_password sec name key value =
     (name = ''lftp'' \<and>
      (let backend = (if key = ''transfer_backend'' then value else prop_value sec ''transfer_backend'');
           protocol = (if key = ''protocol'' then value else prop_value sec ''protocol'');
           password = (if key = ''remote_password'' then value else prop_value sec ''remote_password'')
       in normalize_for_guard backend = PStr ''lftp'' \<and> normalize_for_guard protocol = PStr ''ftps'' \<and>
          is_blank_text password))"

section \<open>Setting a property\<close>

text \<open>\<open>__restore_previous_snapshot\<close>: the values are set one after the other through the checkers; an
  exception leaves the section as far as it was restored.\<close>

fun restore_previous_snapshot ::
  "(string \<Rightarrow> pyval option) \<Rightarrow> string \<Rightarrow> config_class \<Rightarrow> config_section \<Rightarrow> config_section \<Rightarrow> py_error option \<times> config_section" where
  "restore_previous_snapshot loads name cls [] sec = (None, sec)"
| "restore_previous_snapshot loads name cls ((k, v) # snapshot) sec =
     (case section_set_prop loads name cls k v sec of
        Inl e \<Rightarrow> (Some e, sec)
      | Inr sec' \<Rightarrow> restore_previous_snapshot loads name cls snapshot sec')"

text \<open>The body of the \<open>try\<close>: the property, the constraint of the rclone backend, and the save. An exception
  comes with the section as it was left.\<close>

definition try_set ::
  "(string \<Rightarrow> pyval option) \<Rightarrow> bool \<Rightarrow> string \<Rightarrow> config_class \<Rightarrow> string \<Rightarrow> pyval \<Rightarrow> config_section \<Rightarrow> py_error option \<times> config_section" where
  "try_set loads saves name cls key value sec =
     (case section_set_prop loads name cls key value sec of
        Inl e \<Rightarrow> (Some e, sec)
      | Inr sec1 \<Rightarrow>
          (case (if name = ''lftp'' \<and> prop_value sec1 ''transfer_backend'' = PStr ''rclone''
                 then section_set_prop loads name cls ''protocol'' (PStr ''sftp'') sec1 else Inr sec1) of
             Inl e \<Rightarrow> (Some e, sec1)
           | Inr sec2 \<Rightarrow> if saves then (None, sec2) else (Some OSError, sec2)))"

definition is_config_error :: "py_error \<Rightarrow> bool" where
  "is_config_error e = (case e of AppError c _ \<Rightarrow> c = ''ConfigError'' | _ \<Rightarrow> False)"

record config_response =
  rs_status :: nat
  rs_shown :: "pyval option"

abbreviation refuse :: "nat \<Rightarrow> config \<Rightarrow> config_response result \<times> config" where
  "refuse code c \<equiv> (Inr \<lparr>rs_status = code, rs_shown = None\<rparr>, c)"

definition shown_value :: "string \<Rightarrow> config_class \<Rightarrow> string \<Rightarrow> pyval \<Rightarrow> config_section \<Rightarrow> pyval" where
  "shown_value name cls key value sec =
     (if is_sensitive_field name key then PStr REDACTED_SENTINEL
      else if has_prop cls key then prop_value sec key else value)"

definition set_checked_config ::
  "(string \<Rightarrow> pyval option) \<Rightarrow> bool \<Rightarrow> string \<Rightarrow> config_class \<Rightarrow> string \<Rightarrow> pyval \<Rightarrow> config \<Rightarrow> config_response result \<times> config" where
  "set_checked_config loads saves name cls key value c =
     (let sec = get_section name c;
          snapshot = section_as_dict cls sec
      in case try_set loads saves name cls key value sec of
           (None, sec') \<Rightarrow> (Inr \<lparr>rs_status = 200, rs_shown = Some (shown_value name cls key value sec')\<rparr>,
                            put_section name sec' c)
         | (Some e, sec') \<Rightarrow>
             (case restore_previous_snapshot loads name cls snapshot sec' of
                (Some e', sec'') \<Rightarrow> (Inl e', put_section name sec'' c)
              | (None, sec'') \<Rightarrow> (Inr \<lparr>rs_status = if is_config_error e then 400 else 500, rs_shown = None\<rparr>,
                                 put_section name sec'' c)))"

definition handle_set_config ::
  "(string \<Rightarrow> pyval option) \<Rightarrow> bool \<Rightarrow> string \<Rightarrow> string \<Rightarrow> pyval option \<Rightarrow> config \<Rightarrow> config_response result \<times> config" where
  "handle_set_config loads saves name key body c =
     (case body of
        Some (PDict data) \<Rightarrow>
          (case dict_get data ''value'' of
             None \<Rightarrow> refuse 400 c
           | Some value \<Rightarrow>
               (case section_class name of
                  None \<Rightarrow> refuse 404 c
                | Some cls \<Rightarrow>
                    if \<not> section_has_prop name cls key then refuse 404 c
                    else if is_sensitive_field name key \<and> is_redacted_value value then refuse 400 c
                    else if is_blocked_field name key then refuse 403 c
                    else if would_create_blank_ftps_password (get_section name c) name key value then refuse 400 c
                    else set_checked_config loads saves name cls key value c))
      | _ \<Rightarrow> refuse 400 c)"

section \<open>Requests keep the configuration checked\<close>

lemma section_classE:
  assumes "section_class name = Some cls"
  obtains "name = ''general''" "cls = general_class" | "name = ''lftp''" "cls = lftp_class"
  | "name = ''validate''" "cls = validate_class" | "name = ''controller''" "cls = controller_class"
  | "name = ''web''" "cls = web_class" | "name = ''autoqueue''" "cls = autoqueue_class"
  | "name = ''logging''" "cls = logging_class" | "name = ''notifications''" "cls = notifications_class"
  using assms unfolding section_class_def by (simp split: if_split_asm)

lemma plain_hooks:
  "cc_after_set general_class = (\<lambda>_ s. s)" "cc_after_set validate_class = (\<lambda>_ s. s)"
  "cc_after_set controller_class = (\<lambda>_ s. s)" "cc_after_set web_class = (\<lambda>_ s. s)"
  "cc_after_set autoqueue_class = (\<lambda>_ s. s)" "cc_after_set logging_class = (\<lambda>_ s. s)"
  "cc_after_set notifications_class = (\<lambda>_ s. s)" "cc_after_set lftp_class = rclone_hook"
  by (simp_all add: general_class_def validate_class_def controller_class_def web_class_def autoqueue_class_def
      logging_class_def notifications_class_def plain_class_def lftp_class_def)

lemma section_class_facts:
  assumes "section_class name = Some cls"
  shows "keeps_ok loads cls" "class_ok cls" "name = ''general'' \<Longrightarrow> cls = general_class"
    "name \<noteq> ''lftp'' \<Longrightarrow> cc_after_set cls = (\<lambda>_ s. s)" "name = ''lftp'' \<Longrightarrow> cls = lftp_class"
  by (rule section_classE[OF assms]; simp add: keeps_ok_classes classes_ok plain_hooks)+

lemma get_section_ok:
  assumes "config_ok loads c" "section_class name = Some cls"
  shows "section_ok loads cls (get_section name c)" "name = ''lftp'' \<Longrightarrow> rclone_ok (get_section name c)"
  using assms(1) by (rule_tac section_classE[OF assms(2)]; simp add: config_ok_def get_section_def)+

lemma put_section_ok:
  assumes "config_ok loads c" "section_class name = Some cls" "section_ok loads cls sec" "name = ''lftp'' \<Longrightarrow> rclone_ok sec"
  shows "config_ok loads (put_section name sec c)"
  using assms(1,3,4) by (rule_tac section_classE[OF assms(2)]; simp add: config_ok_def put_section_def)

lemma put_get_section: "section_class name = Some cls \<Longrightarrow> put_section name (get_section name c) c = c"
  by (erule section_classE) (simp_all add: put_section_def get_section_def)

text \<open>A section as it may stand in a configuration.\<close>

definition standing :: "(string \<Rightarrow> pyval option) \<Rightarrow> string \<Rightarrow> config_class \<Rightarrow> config_section \<Rightarrow> bool" where
  "standing loads name cls sec \<longleftrightarrow> section_ok loads cls sec \<and> (name = ''lftp'' \<longrightarrow> rclone_ok sec)"

lemma general_set_prop_set:
  assumes "general_set_prop loads key v sec = Inr sec'"
  shows "\<exists>k u. set_prop loads general_class k u sec = Inr sec'"
proof (cases "key = ''debug''")
  case True
  then obtain b where "(case b of PBool c \<Rightarrow> set_prop loads general_class ''log_level'' (PStr (if c then ''DEBUG'' else ''INFO'')) sec
      | _ \<Rightarrow> Inl (config_error ''must be a boolean value'')) = Inr sec'"
    using assms by (auto simp: general_set_prop_def rbind_Inr_iff)
  then show ?thesis by (cases b) auto
next
  case False
  with assms show ?thesis by (auto simp: general_set_prop_def)
qed

lemma standing_set:
  assumes "section_class name = Some cls" "standing loads name cls sec"
    "section_set_prop loads name cls key v sec = Inr sec'"
  shows "standing loads name cls sec'"
proof (cases "name = ''general''")
  case True
  then have "\<exists>k u. set_prop loads cls k u sec = Inr sec'"
    using assms(3) section_class_facts(3)[OF assms(1) True] general_set_prop_set
    by (simp add: section_set_prop_def)
  with True assms(2) set_prop_ok[OF section_class_facts(1)[OF assms(1)]] show ?thesis
    by (auto simp: standing_def)
next
  case False
  then have set: "set_prop loads cls key v sec = Inr sec'" using assms(3) by (simp add: section_set_prop_def)
  have "section_ok loads cls sec'"
    using assms(2) set_prop_ok[OF section_class_facts(1)[OF assms(1)] _ set] by (simp add: standing_def)
  moreover have "name = ''lftp'' \<Longrightarrow> rclone_ok sec'"
    using assms(2) set section_class_facts(5)[OF assms(1)] rclone_ok_set by (auto simp: standing_def)
  ultimately show ?thesis by (simp add: standing_def)
qed

lemma standing_restore:
  "section_class name = Some cls \<Longrightarrow> standing loads name cls sec \<Longrightarrow>
   standing loads name cls (snd (restore_previous_snapshot loads name cls snapshot sec))"
proof (induction snapshot arbitrary: sec)
  case (Cons p snapshot)
  then show ?case
    by (cases p; cases "section_set_prop loads name cls (fst p) (snd p) sec") (auto intro: standing_set)
qed simp

lemma standing_try:
  "section_class name = Some cls \<Longrightarrow> standing loads name cls sec \<Longrightarrow>
   standing loads name cls (snd (try_set loads saves name cls key v sec))"
  by (auto simp: try_set_def split: sum.splits if_splits dest: standing_set)

lemma handle_set_config_ok:
  assumes "config_ok loads c"
  shows "config_ok loads (snd (handle_set_config loads saves name key body c))"
proof -
  have "config_ok loads (snd (set_checked_config loads saves name cls key v c))"
    if "section_class name = Some cls" for cls v
  proof -
    have "standing loads name cls (get_section name c)"
      using get_section_ok[OF assms that] by (simp add: standing_def)
    then have 1: "standing loads name cls (snd (try_set loads saves name cls key v (get_section name c)))"
      by (rule standing_try[OF that])
    have put: "standing loads name cls sec \<Longrightarrow> config_ok loads (put_section name sec c)" for sec
      using put_section_ok[OF assms that] by (simp add: standing_def)
    obtain e sec1 where tried: "try_set loads saves name cls key v (get_section name c) = (e, sec1)"
      by (rule prod.exhaust)
    obtain e' sec2 where restore: "restore_previous_snapshot loads name cls (section_as_dict cls (get_section name c)) sec1 = (e', sec2)"
      by (rule prod.exhaust)
    have "config_ok loads (put_section name sec1 c)" "config_ok loads (put_section name sec2 c)"
      using put[OF 1] put[OF standing_restore[OF that 1, of "section_as_dict cls (get_section name c)"]]
      by (simp_all add: tried restore)
    then show ?thesis
      by (simp add: set_checked_config_def tried restore split: option.split)
  qed
  with assms show ?thesis
    by (auto simp: handle_set_config_def split: option.splits pyval.splits)
qed

section \<open>Restoring a section\<close>

text \<open>A section in which no property is unset.\<close>

definition section_set :: "config_section \<Rightarrow> bool" where
  "section_set sec \<longleftrightarrow> list_all (\<lambda>(k, v). v \<noteq> PNone) sec"

lemma settled_prop:
  assumes "section_ok loads cls sec" "section_set sec" "class_ok cls" "n \<in> set (dict_keys (cc_schema cls))"
  obtains ck conv where "dict_get (cc_schema cls) n = Some (ck, conv)" "settled loads ck conv (prop_value sec n)"
    "prop_value sec n \<noteq> PNone"
proof -
  have n: "n \<in> fst ` set (cc_schema cls)" using assms(4) by simp
  then obtain ck conv where g: "dict_get (cc_schema cls) n = Some (ck, conv)" by (metis map_of_in_iff not_None_eq surj_pair)
  have "n \<in> fst ` set sec" using n assms(1) by (metis section_ok_def set_map)
  then obtain v where v: "dict_get sec n = Some v" by (metis map_of_in_iff not_None_eq)
  then have "prop_value sec n \<noteq> PNone"
    using assms(2) map_of_SomeD[OF v] by (auto simp: section_set_def list_all_iff prop_value_def)
  moreover have "prop_value sec n = PNone \<or> settled loads ck conv (prop_value sec n)"
    using assms(1) map_of_SomeD[OF g] by (auto simp: section_ok_def list_all_iff)
  ultimately show thesis using g that by blast
qed

lemma set_settled:
  assumes "section_ok loads cls sec" "section_set sec" "class_ok cls" "n \<in> set (dict_keys (cc_schema cls))"
  shows "set_prop loads cls n (prop_value sec n) s = Inr (cc_after_set cls n (dict_set n (prop_value sec n) s))"
proof (rule settled_prop[OF assms])
  fix ck conv
  assume "dict_get (cc_schema cls) n = Some (ck, conv)" "settled loads ck conv (prop_value sec n)" "prop_value sec n \<noteq> PNone"
  then show ?thesis
    using settled_native[of loads ck conv "prop_value sec n"] by (simp add: set_prop_def store_prop_def settled_def)
qed

lemma section_set_settled:
  assumes "section_class name = Some cls" "section_ok loads cls sec" "section_set sec"
    "n \<in> set (dict_keys (cc_schema cls))"
  shows "section_set_prop loads name cls n (prop_value sec n) s = Inr (cc_after_set cls n (dict_set n (prop_value sec n) s))"
proof -
  have "''debug'' \<notin> set (dict_keys (cc_schema general_class))" by code_simp
  then have "name = ''general'' \<Longrightarrow> n \<noteq> ''debug''"
    using assms(4) section_class_facts(3)[OF assms(1)] by (auto simp del: set_map)
  with set_settled[OF assms(2,3) section_class_facts(2)[OF assms(1)] assms(4)] section_class_facts(3)[OF assms(1)]
  show ?thesis by (cases "name = ''general''") (simp_all add: section_set_prop_def general_set_prop_def)
qed

lemma restore_put_all:
  assumes "section_class name = Some cls" "section_ok loads cls sec" "section_set sec"
    "set names \<subseteq> set (dict_keys (cc_schema cls))"
    "\<And>pre n post. names = pre @ n # post \<Longrightarrow>
      cc_after_set cls n (put_all sec (pre @ [n]) s) = put_all sec (pre @ [n]) s"
  shows "restore_previous_snapshot loads name cls (map (\<lambda>n. (n, prop_value sec n)) names) s = (None, put_all sec names s)"
  using assms(4,5)
proof (induction names arbitrary: s)
  case (Cons n names)
  have "section_set_prop loads name cls n (prop_value sec n) s = Inr (dict_set n (prop_value sec n) s)"
    using section_set_settled[OF assms(1-3), of n s] Cons.prems(1) Cons.prems(2)[of "[]" n names]
    by (simp add: put_all_def)
  moreover have "restore_previous_snapshot loads name cls (map (\<lambda>n. (n, prop_value sec n)) names) (dict_set n (prop_value sec n) s) =
      (None, put_all sec names (dict_set n (prop_value sec n) s))"
  proof (rule Cons.IH)
    fix pre m post assume "names = pre @ m # post"
    with Cons.prems(2)[of "n # pre" m post]
    show "cc_after_set cls m (put_all sec (pre @ [m]) (dict_set n (prop_value sec n) s)) =
        put_all sec (pre @ [m]) (dict_set n (prop_value sec n) s)"
      by (simp add: put_all_def)
  qed (use Cons.prems(1) in auto)
  ultimately show ?case by (simp add: put_all_def)
qed (simp add: put_all_def)

lemma put_all_self:
  assumes "section_ok loads cls sec" "class_ok cls" "dict_keys s = dict_keys (cc_schema cls)"
    "\<forall>k\<in>set (dict_keys (cc_schema cls)). k \<notin> set names \<longrightarrow> prop_value s k = prop_value sec k"
    "set names \<subseteq> set (dict_keys (cc_schema cls))"
  shows "put_all sec names s = sec"
proof (rule section_eqI)
  have k: "dict_keys (put_all sec names s) = dict_keys (cc_schema cls)"
    using keys_put_all[of names s sec] assms(3,5) by (simp only:)
  then show "dict_keys (put_all sec names s) = dict_keys sec" using assms(1) by (simp add: section_ok_def)
  show "distinct (dict_keys (put_all sec names s))" unfolding k using assms(2) by (simp add: class_ok_def)
  show "\<forall>n\<in>set (dict_keys (put_all sec names s)). prop_value (put_all sec names s) n = prop_value sec n"
    unfolding k using assms(4) by (simp add: prop_value_put_all)
qed

lemma restore_snapshot:
  assumes "section_class name = Some cls" "standing loads name cls sec" "section_set sec" "section_ok loads cls s"
  shows "restore_previous_snapshot loads name cls (section_as_dict cls sec) s = (None, sec)"
proof (cases "name = ''lftp''")
  case False
  let ?names = "dict_keys (cc_schema cls)"
  have ok: "section_ok loads cls sec" using assms(2) by (simp add: standing_def)
  have "restore_previous_snapshot loads name cls (section_as_dict cls sec) s = (None, put_all sec ?names s)"
    unfolding section_as_dict_def
    by (rule restore_put_all[OF assms(1) ok assms(3)]) (simp_all add: section_class_facts(4)[OF assms(1) False])
  moreover have "put_all sec ?names s = sec"
    using assms(4) by (intro put_all_self[OF ok section_class_facts(2)[OF assms(1)]]) (simp_all add: section_ok_def)
  ultimately show ?thesis by simp
next
  case True
  let ?tb = "''transfer_backend''" and ?names = "tl (dict_keys (cc_schema lftp_class))"
  let ?s = "rclone_hook ?tb (dict_set ?tb (prop_value sec ?tb) s)"
  have cls: "cls = lftp_class" by (rule section_class_facts(5)[OF assms(1) True])
  have ok: "section_ok loads lftp_class sec" and r: "rclone_ok sec" using assms(2) True cls by (auto simp: standing_def)
  have facts: "?tb \<in> set (dict_keys (cc_schema lftp_class))" "?tb \<notin> set ?names"
    "dict_keys (cc_schema lftp_class) = ?tb # ?names" "''protocol'' \<in> set ?names" "''protocol'' \<in> set (dict_keys (cc_schema lftp_class))"
    by code_simp+
  have sub: "set ?names \<subseteq> set (dict_keys (cc_schema lftp_class))" by (subst (2) facts(3)) (rule set_subset_Cons)
  have keys: "dict_keys s = dict_keys (cc_schema lftp_class)" using assms(4) cls by (simp add: section_ok_def)
  have hook_keys: "dict_keys ?s = dict_keys (cc_schema lftp_class)"
    using facts(1,5) keys by (simp add: rclone_hook_def update_keys del: set_map)
  have tb: "prop_value ?s ?tb = prop_value sec ?tb" by (simp add: rclone_hook_def)
  have 1: "section_set_prop loads name lftp_class ?tb (prop_value sec ?tb) s = Inr ?s"
    using section_set_settled[OF assms(1) _ assms(3)] ok facts(1) plain_hooks(8) cls by simp
  have 2: "restore_previous_snapshot loads name lftp_class (map (\<lambda>n. (n, prop_value sec n)) ?names) ?s =
      (None, put_all sec ?names ?s)"
  proof (rule restore_put_all[OF assms(1)[unfolded cls] ok assms(3) sub])
    fix pre n post assume names: "?names = pre @ n # post"
    then have n: "n \<noteq> ?tb" "?tb \<notin> set (pre @ [n])" using facts(2) by auto
    then have "prop_value (put_all sec (pre @ [n]) ?s) ?tb = prop_value sec ?tb" by (simp add: prop_value_put_all tb)
    moreover have "n = ''protocol'' \<Longrightarrow> prop_value (put_all sec (pre @ [n]) ?s) ''protocol'' = prop_value sec ''protocol''"
      by (simp add: prop_value_put_all)
    ultimately show "cc_after_set lftp_class n (put_all sec (pre @ [n]) ?s) = put_all sec (pre @ [n]) ?s"
      unfolding plain_hooks(8) rclone_hook_def using n(1) r by (auto simp: rclone_ok_def)
  qed
  have "put_all sec ?names ?s = sec"
  proof (rule put_all_self[OF ok classes_ok(2) hook_keys _ sub])
    show "\<forall>k\<in>set (dict_keys (cc_schema lftp_class)). k \<notin> set ?names \<longrightarrow> prop_value ?s k = prop_value sec k"
      by (subst facts(3)) (simp add: tb)
  qed
  with 1 2 show ?thesis
    unfolding section_as_dict_def cls by (subst facts(3)) simp
qed

section \<open>Requests as steps\<close>

text \<open>A configuration as it was loaded, and the requests on it.\<close>

definition config_loaded :: "(string \<Rightarrow> pyval option) \<Rightarrow> config \<Rightarrow> bool" where
  "config_loaded loads c \<longleftrightarrow> c = new_config \<or> (\<exists>d. config_from_dict loads d = Inr c)"

definition config_request :: "(string \<Rightarrow> pyval option) \<Rightarrow> config \<Rightarrow> config \<Rightarrow> bool" where
  "config_request loads c c' \<longleftrightarrow>
     (\<exists>saves name key body. c' = snd (handle_set_config loads saves name key body c))"

interpretation requests: invariant_system
  "\<lambda>c. reads_empty_policy loads \<and> config_loaded loads c" "config_request loads" "config_ok loads" for loads
proof
  show "reads_empty_policy loads \<and> config_loaded loads c \<Longrightarrow> config_ok loads c" for c
    using new_config_ok config_from_dict_ok by (auto simp: config_loaded_def)
  show "config_ok loads c \<Longrightarrow> config_request loads c c' \<Longrightarrow> config_ok loads c'" for c c'
    using handle_set_config_ok by (auto simp: config_request_def)
qed

section \<open>Fields no request may set\<close>

lemma get_put_section:
  assumes "section_class name = Some cls" "section_class name' = Some cls'"
  shows "get_section name' (put_section name sec c) = (if name' = name then sec else get_section name' c)"
  by (rule section_classE[OF assms(1)]; rule section_classE[OF assms(2)])
    (simp_all add: get_section_def put_section_def)

lemma set_prop_other:
  assumes "set_prop loads cls n v s = Inr s'" "cc_after_set cls = (\<lambda>_ s. s) \<or> cc_after_set cls = rclone_hook"
    "k \<noteq> n" "k \<noteq> ''protocol''"
  shows "prop_value s' k = prop_value s k"
proof -
  obtain w where "s' = cc_after_set cls n (dict_set n w s)"
    using assms(1) by (auto simp: set_prop_def store_prop_def rbind_Inr_iff split: option.splits if_splits)
  with assms(2-4) show ?thesis by (auto simp: rclone_hook_def)
qed

lemma section_set_other:
  assumes "section_class name = Some cls" "section_set_prop loads name cls n v s = Inr s'"
    "k \<noteq> n" "k \<notin> {''protocol'', ''log_level''}"
  shows "prop_value s' k = prop_value s k"
proof -
  have hook: "cc_after_set cls = (\<lambda>_ s. s) \<or> cc_after_set cls = rclone_hook"
    using section_class_facts(4,5)[OF assms(1)] plain_hooks(8) by (cases "name = ''lftp''") simp_all
  obtain m u where "set_prop loads cls m u s = Inr s'" "k \<noteq> m"
  proof (cases "name = ''general'' \<and> n = ''debug''")
    case True
    then obtain b where "(case b of PBool c \<Rightarrow> set_prop loads general_class ''log_level'' (PStr (if c then ''DEBUG'' else ''INFO'')) s
        | _ \<Rightarrow> Inl (config_error ''must be a boolean value'')) = Inr s'"
      using assms(2) by (auto simp: section_set_prop_def general_set_prop_def rbind_Inr_iff)
    with True that[of "''log_level''"] section_class_facts(3)[OF assms(1)] assms(4) show thesis
      by (cases b) auto
  next
    case False
    with that[of n v] assms(2,3) section_class_facts(3)[OF assms(1)] show thesis
      by (auto simp: section_set_prop_def general_set_prop_def split: if_splits)
  qed
  from set_prop_other[OF this(1) hook this(2)] assms(4) show ?thesis by simp
qed

text \<open>Setting a property to the value it has.\<close>

lemma section_set_same:
  assumes "section_class name = Some cls" "section_ok loads cls sec" "k \<in> set (dict_keys (cc_schema cls))"
    "k \<notin> {''protocol'', ''log_level''}" "prop_value s k = prop_value sec k"
    "section_set_prop loads name cls k (prop_value sec k) s = Inr s'"
  shows "prop_value s' k = prop_value sec k"
proof -
  have "''debug'' \<notin> set (dict_keys (cc_schema general_class))" by code_simp
  then have set: "set_prop loads cls k (prop_value sec k) s = Inr s'"
    using assms(3,6) section_class_facts(3)[OF assms(1)]
    by (cases "name = ''general''") (auto simp: section_set_prop_def general_set_prop_def simp del: set_map split: if_splits)
  obtain ck conv where g: "dict_get (cc_schema cls) k = Some (ck, conv)"
    using set by (auto simp: set_prop_def split: option.splits)
  have settled: "prop_value sec k = PNone \<or> settled loads ck conv (prop_value sec k)"
    using assms(2) map_of_SomeD[OF g] by (auto simp: section_ok_def list_all_iff)
  then have "s' = cc_after_set cls k (dict_set k (prop_value sec k) s)"
    using set g assms(5) settled_native[of loads ck conv "prop_value sec k"]
    by (cases "prop_value sec k = PNone") (auto simp: set_prop_def store_prop_def settled_def native_value_of_def)
  moreover have "cc_after_set cls = (\<lambda>_ s. s) \<or> cc_after_set cls = rclone_hook"
    using section_class_facts(4,5)[OF assms(1)] plain_hooks(8) by (cases "name = ''lftp''") simp_all
  ultimately show ?thesis using assms(4) by (auto simp: rclone_hook_def)
qed

lemma restore_keeps:
  assumes "section_class name = Some cls" "section_ok loads cls sec" "k \<in> set (dict_keys (cc_schema cls))"
    "k \<notin> {''protocol'', ''log_level''}"
  shows "prop_value s k = prop_value sec k \<Longrightarrow>
    prop_value (snd (restore_previous_snapshot loads name cls (map (\<lambda>n. (n, prop_value sec n)) names) s)) k = prop_value sec k"
proof (induction names arbitrary: s)
  case (Cons n names)
  show ?case
  proof (cases "section_set_prop loads name cls n (prop_value sec n) s")
    case (Inr s')
    then have "prop_value s' k = prop_value sec k"
      using section_set_same[OF assms Cons.prems] section_set_other[OF assms(1) _ _ assms(4)] Cons.prems
      by (cases "k = n") auto
    with Cons.IH Inr show ?thesis by simp
  qed (simp add: Cons.prems)
qed simp

lemma try_set_other:
  assumes "section_class name = Some cls" "k \<noteq> key" "k \<notin> {''protocol'', ''log_level''}"
  shows "prop_value (snd (try_set loads saves name cls key v s)) k = prop_value s k"
proof (cases "section_set_prop loads name cls key v s")
  case (Inr s1)
  then have 1: "prop_value s1 k = prop_value s k" by (rule section_set_other[OF assms(1) _ assms(2,3)])
  have "prop_value s2 k = prop_value s1 k"
    if "section_set_prop loads name cls ''protocol'' (PStr ''sftp'') s1 = Inr s2" for s2
    by (rule section_set_other[OF assms(1) that _ assms(3)]) (use assms(3) in simp)
  with Inr 1 show ?thesis by (auto simp: try_set_def split: sum.split)
qed (simp add: try_set_def)

lemma blocked_field:
  assumes "is_blocked_field name key"
  obtains cls where "section_class name = Some cls" "key \<in> set (dict_keys (cc_schema cls))"
    "key \<notin> {''protocol'', ''log_level''}"
proof -
  have "list_all (\<lambda>(n, ks). list_all (\<lambda>k. (case section_class n of None \<Rightarrow> False
      | Some cls \<Rightarrow> k \<in> set (dict_keys (cc_schema cls))) \<and> k \<notin> {''protocol'', ''log_level''}) ks) BODY_SET_BLOCKED_FIELDS"
    by code_simp
  moreover obtain ks where "(name, ks) \<in> set BODY_SET_BLOCKED_FIELDS" "key \<in> set ks"
    using assms by (auto simp: is_blocked_field_def dest: map_of_SomeD split: option.splits)
  ultimately have "(case section_class name of None \<Rightarrow> False | Some cls \<Rightarrow> key \<in> set (dict_keys (cc_schema cls)))
      \<and> key \<notin> {''protocol'', ''log_level''}"
    unfolding list_all_iff by blast
  with that show thesis by (cases "section_class name") auto
qed

lemma set_checked_keeps:
  assumes "config_ok loads c" "section_class name = Some cls" "is_blocked_field name' k" "(name', k) \<noteq> (name, key)"
  shows "prop_value (get_section name' (snd (set_checked_config loads saves name cls key v c))) k =
    prop_value (get_section name' c) k"
proof (rule blocked_field[OF assms(3)])
  fix cls' assume f: "section_class name' = Some cls'" "k \<in> set (dict_keys (cc_schema cls'))" "k \<notin> {''protocol'', ''log_level''}"
  let ?sec = "get_section name c"
  obtain e sec1 where tried: "try_set loads saves name cls key v ?sec = (e, sec1)" by (rule prod.exhaust)
  obtain e' sec2 where restore: "restore_previous_snapshot loads name cls (section_as_dict cls ?sec) sec1 = (e', sec2)"
    by (rule prod.exhaust)
  have "prop_value sec1 k = prop_value ?sec k \<and> prop_value sec2 k = prop_value ?sec k" if n: "name' = name"
  proof -
    have cls: "cls' = cls" using f(1) assms(2) n by simp
    have 1: "prop_value sec1 k = prop_value ?sec k"
      using try_set_other[OF assms(2) _ f(3), of key loads saves v ?sec] assms(4) n tried by simp
    then have "prop_value (snd (restore_previous_snapshot loads name cls (section_as_dict cls ?sec) sec1)) k = prop_value ?sec k"
      unfolding section_as_dict_def
      by (rule restore_keeps[OF assms(2) get_section_ok(1)[OF assms(1,2)] f(2)[unfolded cls] f(3)])
    with 1 restore show ?thesis by simp
  qed
  then have "prop_value (get_section name' (put_section name sec1 c)) k = prop_value (get_section name' c) k"
    "prop_value (get_section name' (put_section name sec2 c)) k = prop_value (get_section name' c) k"
    by (simp_all add: get_put_section[OF assms(2) f(1)])
  then show ?thesis by (simp add: set_checked_config_def tried restore split: option.split)
qed

lemma handle_set_config_keeps:
  assumes "config_ok loads c" "is_blocked_field name' k"
  shows "prop_value (get_section name' (snd (handle_set_config loads saves name key body c))) k =
    prop_value (get_section name' c) k"
proof -
  have "prop_value (get_section name' (snd (set_checked_config loads saves name cls key v c))) k = prop_value (get_section name' c) k"
    if "section_class name = Some cls" "\<not> is_blocked_field name key" for cls v
    using set_checked_keeps[OF assms(1) that(1) assms(2)] that(2) assms(2) by (cases "(name', k) = (name, key)") auto
  then show ?thesis by (auto simp: handle_set_config_def split: option.splits pyval.splits)
qed

interpretation protected: invariant_system
  "\<lambda>c. reads_empty_policy loads \<and> config_loaded loads c \<and> prop_value (get_section name c) key = v" "config_request loads"
  "\<lambda>c. config_ok loads c \<and> (is_blocked_field name key \<longrightarrow> prop_value (get_section name c) key = v)"
  for loads name key v
proof
  show "reads_empty_policy loads \<and> config_loaded loads c \<and> prop_value (get_section name c) key = v \<Longrightarrow>
      config_ok loads c \<and> (is_blocked_field name key \<longrightarrow> prop_value (get_section name c) key = v)" for c
    using requests.init_inv by blast
  show "config_ok loads c \<and> (is_blocked_field name key \<longrightarrow> prop_value (get_section name c) key = v) \<Longrightarrow>
      config_request loads c c' \<Longrightarrow>
      config_ok loads c' \<and> (is_blocked_field name key \<longrightarrow> prop_value (get_section name c') key = v)" for c c'
    using handle_set_config_ok handle_set_config_keeps by (auto simp: config_request_def)
qed

end
