(* ===== verification/Config_Loaded.thy ===== *)
theory Config_Loaded
  imports Config_Texts
begin

text \<open>
  What a configuration holds when it was read from texts, as \<open>configparser\<close> gives them: after the
  defaults, the renamed keys and the normalisations of \<open>from_dict\<close>, every property is set with a value
  of its own type that its checker returns unchanged.
\<close>

section \<open>Texts and values of the right type\<close>

definition fits :: "config_class \<Rightarrow> string \<Rightarrow> pyval \<Rightarrow> bool" where
  "fits cls k v =
     (case v of
        PStr _ \<Rightarrow> True
      | _ \<Rightarrow> (case dict_get (cc_schema cls) k of None \<Rightarrow> False | Some (ck, conv) \<Rightarrow> native_type conv v))"

definition fitting :: "config_class \<Rightarrow> config_section \<Rightarrow> bool" where
  "fitting cls d \<longleftrightarrow> (\<forall>k v. dict_get d k = Some v \<longrightarrow> fits cls k v)"

definition texts_only :: "config_section \<Rightarrow> bool" where
  "texts_only d \<longleftrightarrow> list_all (\<lambda>(k, v). \<exists>s. v = PStr s) d"

lemma fits_text [simp]: "fits cls k (PStr s)"
  by (simp add: fits_def)

lemma fits_int:
  assumes "dict_get (cc_schema cls) k = Some (ck, ConvInt)" "0 \<le> n" "n < 10 ^ 9"
  shows "fits cls k (PInt n)"
proof -
  have "nat n < 10 ^ Suc 8" using assms(3) by (simp add: nat_less_iff)
  from dec_text_length[OF this] assms show ?thesis by (simp add: fits_def native_type_def MAX_STR_DIGITS_def)
qed

lemma fits_bool: "dict_get (cc_schema cls) k = Some (ck, ConvBool) \<Longrightarrow> fits cls k (PBool b)"
  by (simp add: fits_def native_type_def)

lemma texts_only_get: "texts_only d \<Longrightarrow> dict_get d k = Some v \<Longrightarrow> \<exists>s. v = PStr s"
  by (auto simp: texts_only_def list_all_iff dest!: map_of_SomeD)

lemma fitting_texts: "texts_only d \<Longrightarrow> fitting cls d"
  using texts_only_get by (fastforce simp: fitting_def)

lemma fitting_set: "fitting cls d \<Longrightarrow> fits cls k v \<Longrightarrow> fitting cls (dict_set k v d)"
  by (auto simp: fitting_def)

lemma fitting_pop: "fitting cls d \<Longrightarrow> fitting cls (dict_pop k d)"
  by (auto simp: fitting_def)

lemma fitting_add: "fitting cls d \<Longrightarrow> fits cls k v \<Longrightarrow> fitting cls (d @ [(k, v)])"
  by (auto simp: fitting_def map_add_Some_iff split: if_splits)

lemma fitting_default: "fitting cls d \<Longrightarrow> fits cls k v \<Longrightarrow> fitting cls (with_default k v d)"
  by (simp add: with_default_def fitting_add)

lemma texts_only_pop: "texts_only d \<Longrightarrow> texts_only (dict_pop k d)"
  by (auto simp: texts_only_def list_all_iff AList.delete_eq)

section \<open>Converters and checkers keep the type\<close>

lemma decimal_value_below: "list_all is_digit s \<Longrightarrow> decimal_value s < 10 ^ length s"
proof (induction s rule: rev_induct)
  case (snoc c s)
  then have "decimal_value s + 1 \<le> 10 ^ length s" "int (code_of c) \<le> 57" by (simp_all add: is_digit_def)
  then show ?case by simp
qed simp

lemma int_of_str_short:
  assumes "int_of_str s = Inr n"
  shows "length (dec_text (nat \<bar>n\<bar>)) \<le> MAX_STR_DIGITS"
proof -
  obtain ds where ds: "list_all is_digit ds" "length ds \<le> MAX_STR_DIGITS" "n = decimal_value ds \<or> n = - decimal_value ds"
  proof -
    obtain body where "length (filter is_digit body) \<le> MAX_STR_DIGITS"
      "n = decimal_value (filter is_digit body) \<or> n = - decimal_value (filter is_digit body)"
      using assms unfolding int_of_str_def Let_def by (auto split: prod.splits if_splits)
    then show thesis using that[of "filter is_digit body"] by (auto simp: list_all_iff)
  qed
  have "\<bar>n\<bar> = decimal_value ds" using ds(3) decimal_value_nonneg[OF ds(1)] by auto
  also have "\<dots> < 10 ^ length ds" by (rule decimal_value_below[OF ds(1)])
  also have "\<dots> \<le> 10 ^ MAX_STR_DIGITS" using ds(2) by (intro power_increasing) simp_all
  finally have "nat \<bar>n\<bar> < 10 ^ MAX_STR_DIGITS" by (simp add: nat_less_iff)
  moreover have "MAX_STR_DIGITS = Suc (MAX_STR_DIGITS - 1)" by (simp add: MAX_STR_DIGITS_def)
  ultimately show ?thesis using dec_text_length[of "nat \<bar>n\<bar>" "MAX_STR_DIGITS - 1"] by simp
qed

lemma convert_native: "convert conv s = Inr v \<Longrightarrow> native_type conv v"
  using int_of_str_short
  by (cases conv) (auto simp: native_type_def normalize_log_level_def normalize_transfer_protocol_def normalize_choice_def Let_def
      normalize_transfer_backend_def normalize_remote_python_path_def split: if_splits sum.splits pyval.splits)

lemma check_native:
  assumes "compatible ck conv" "native_type conv u" "check_value loads ck u = Inr w"
  shows "native_type conv w"
proof (cases "conv \<in> {ConvBool, ConvInt}")
  case True
  have "w = u"
  proof (cases "conv = ConvInt")
    case True
    then show ?thesis using assms(1,3) int_checks_same by blast
  next
    case False
    with \<open>conv \<in> {ConvBool, ConvInt}\<close> show ?thesis using assms(1,3) by (cases u) (auto simp: compatible_def)
  qed
  with assms(2) show ?thesis by simp
next
  case False
  then obtain s where u: "u = PStr s" using assms(2) by (auto simp: native_type_def split: pyval.splits)
  have "\<exists>t. w = PStr t"
    using assms(3) unfolding u
    by (cases ck) (auto simp: string_nonempty_def string_allow_empty_def no_control_chars_def notification_provider_def normalize_log_level_def
        normalize_log_format_def normalize_transfer_protocol_def normalize_transfer_backend_def normalize_remote_python_path_def normalize_choice_def
        int_non_negative_max_def int_positive_def int_range_def int_at_least_def py_less_def py_greater_def breadcrumb_trace_policy_def
        byte_size_or_empty_def byte_size_text_def Let_def rbind_Inr_iff split: if_splits sum.splits)
  with False show ?thesis by (auto simp: native_type_def)
qed

section \<open>One section\<close>

definition native_at :: "config_class \<Rightarrow> config_section \<Rightarrow> string \<Rightarrow> bool" where
  "native_at cls sec n \<longleftrightarrow> (\<forall>ck conv. dict_get (cc_schema cls) n = Some (ck, conv) \<longrightarrow> native_type conv (prop_value sec n))"

definition hook_native :: "config_class \<Rightarrow> bool" where
  "hook_native cls \<longleftrightarrow> (\<forall>name sec n. native_at cls sec n \<longrightarrow> native_at cls (cc_after_set cls name sec) n)"

lemma hooks_native:
  "hook_native general_class" "hook_native lftp_class" "hook_native validate_class" "hook_native controller_class" "hook_native web_class"
  "hook_native autoqueue_class" "hook_native logging_class" "hook_native notifications_class"
proof -
  have "dict_get (cc_schema lftp_class) ''protocol'' = Some (CheckProtocol, ConvProtocol)" by code_simp
  then show "hook_native lftp_class"
    by (auto simp: hook_native_def native_at_def lftp_class_def rclone_hook_def native_type_def)
qed (simp_all add: hook_native_def general_class_def validate_class_def controller_class_def web_class_def
    autoqueue_class_def logging_class_def notifications_class_def plain_class_def)

lemma set_prop_native:
  assumes "hook_native cls" "class_ok cls" "fits cls name v" "set_prop loads cls name v sec = Inr sec'"
  shows "native_at cls sec' name" "native_at cls sec n \<Longrightarrow> native_at cls sec' n"
proof -
  obtain ck conv u where p: "dict_get (cc_schema cls) name = Some (ck, conv)" "native_value_of conv v = Inr u"
    "store_prop loads cls name ck u sec = Inr sec'"
    using assms(4) by (auto simp: set_prop_def rbind_Inr_iff split: option.splits)
  have u: "native_type conv u"
    using assms(3) p(1,2) convert_native by (cases v) (auto simp: fits_def native_value_of_def)
  then have "u \<noteq> PNone" by (auto simp: native_type_def)
  then obtain w where w: "check_value loads ck u = Inr w" "sec' = cc_after_set cls name (dict_set name w sec)"
    using p(3) by (auto simp: store_prop_def rbind_Inr_iff)
  have "compatible ck conv" using map_of_SomeD[OF p(1)] assms(2) by (auto simp: class_ok_def list_all_iff)
  from check_native[OF this u w(1)] have "native_at cls (dict_set name w sec) name" using p(1) by (simp add: native_at_def)
  moreover from this have "native_at cls (dict_set name w sec) n" if "native_at cls sec n" for n
    using that by (cases "n = name") (simp_all add: native_at_def)
  ultimately show "native_at cls sec' name" "native_at cls sec n \<Longrightarrow> native_at cls sec' n"
    using assms(1) w(2) by (simp_all add: hook_native_def)
qed

lemma set_all_native:
  assumes "hook_native cls" "class_ok cls" "fitting cls d" "set_all loads cls names d sec = Inr sec'" "n \<in> set names \<or> native_at cls sec n"
  shows "native_at cls sec' n"
  using assms(4,5)
proof (induction names arbitrary: sec)
  case (Cons m names)
  then obtain v sec1 where s: "dict_get d m = Some v" "set_prop loads cls m v sec = Inr sec1" "set_all loads cls names d sec1 = Inr sec'"
    by (auto simp: rbind_Inr_iff split: option.splits)
  have "fits cls m v" using assms(3) s(1) by (simp add: fitting_def)
  from set_prop_native[OF assms(1,2) this s(2)] Cons.prems(2) have "n \<in> set names \<or> native_at cls sec1 n" by auto
  then show ?case by (rule Cons.IH[OF s(3)])
qed simp

lemma section_native:
  assumes "hook_native cls" "keeps_ok loads cls" "section_ok loads cls new_sec" "fitting cls d" "section_from_dict loads cls new_sec d = Inr sec"
  shows "native_section loads cls sec"
proof -
  have c: "class_ok cls" using assms(2) by (simp add: keeps_ok_def)
  have ok: "section_ok loads cls sec" by (rule section_from_dict_ok[OF assms(2,3,5)])
  have "native_type conv (prop_value sec n) \<and> check_value loads ck (prop_value sec n) = Inr (prop_value sec n)"
    if "(n, ck, conv) \<in> set (cc_schema cls)" for n ck conv
  proof
    have g: "dict_get (cc_schema cls) n = Some (ck, conv)" using that c by (simp add: class_ok_def)
    have "native_at cls sec n"
      by (rule set_all_native[OF assms(1) c assms(4)]) (use assms(5) that in \<open>force simp: section_from_dict_Inr\<close>)+
    then show t: "native_type conv (prop_value sec n)" using g by (simp add: native_at_def)
    then have "prop_value sec n \<noteq> PNone" by (auto simp: native_type_def)
    then show "check_value loads ck (prop_value sec n) = Inr (prop_value sec n)"
      using ok that by (auto simp: section_ok_def list_all_iff settled_def)
  qed
  then show ?thesis using ok by (auto simp: native_section_def section_ok_def list_all_iff)
qed

section \<open>The configuration\<close>

lemma fitting_renamed: "fitting cls d \<Longrightarrow> fits cls k dflt \<Longrightarrow> (\<And>v. dict_get d old = Some v \<Longrightarrow> \<exists>s. v = PStr s) \<Longrightarrow> fitting cls (renamed_key old k dflt d)"
  by (auto simp: renamed_key_def Let_def intro!: fitting_default fitting_pop split: option.split)

lemma legacy_debug_fits: "fitting cls d \<Longrightarrow> legacy_debug d = Inr d' \<Longrightarrow> fitting cls d'"
  by (auto simp: legacy_debug_def rbind_Inr_iff intro!: fitting_pop fitting_add split: if_splits option.splits)

lemma legacy_debug_get: "legacy_debug d = Inr d' \<Longrightarrow> dict_get d' k = Some v \<Longrightarrow> dict_get d k = Some v \<or> k = ''log_level''"
  by (auto simp: legacy_debug_def rbind_Inr_iff map_add_Some_iff split: if_splits option.splits)

lemma default_get: "dict_get (with_default k v d) n = Some w \<Longrightarrow> n \<noteq> k \<Longrightarrow> dict_get d n = Some w"
  by (auto simp: with_default_def map_add_Some_iff split: if_splits)

lemma renamed_get: "dict_get (renamed_key old k dflt d) n = Some w \<Longrightarrow> n \<noteq> k \<Longrightarrow> dict_get d n = Some w"
  by (auto simp: renamed_key_def Let_def dest: default_get split: if_splits)

lemma general_native:
  assumes "reads_empty_policy loads" "texts_only d" "general_from_dict loads d = Inr sec"
  shows "native_section loads general_class sec"
proof -
  define d0 where "d0 = with_default ''disable_browser_auth'' (PBool False) (with_default ''browser_handover_recovery_version'' (PStr [])
    (with_default ''allowed_hostname'' (PStr []) (with_default ''api_token'' (PStr []) (with_default ''exclude_patterns'' (PStr [])
    (dict_pop ''trusted_browser_bootstrap_remote_addrs'' d)))))"
  have g: "dict_get (cc_schema general_class) ''disable_browser_auth'' = Some (CheckBool, ConvBool)"
    "dict_get (cc_schema general_class) ''breadcrumb_trace_enabled'' = Some (CheckBool, ConvBool)"
    "dict_get (cc_schema general_class) ''breadcrumb_trace_memory_budget_bytes'' = Some (CheckBudget, ConvInt)"
    "dict_get (cc_schema general_class) ''breadcrumb_trace_max_entries'' = Some (CheckMaxEntries, ConvInt)"
    "dict_get (cc_schema general_class) ''performance_diagnostics_enabled'' = Some (CheckBool, ConvBool)"
    "dict_get (cc_schema general_class) ''performance_diagnostics_retention_depth'' = Some (CheckRange 1 240, ConvInt)"
    "dict_get (cc_schema general_class) ''performance_diagnostics_sample_interval_seconds'' = Some (CheckRange 1 3600, ConvInt)"
    "dict_get (cc_schema general_class) ''py_spy_enabled'' = Some (CheckBool, ConvBool)"
    "dict_get (cc_schema general_class) ''config_api_redact_remote_details'' = Some (CheckBool, ConvBool)"
    by code_simp+
  have i: "(0::int) \<le> 256 * 1024 * 1024 \<and> 256 * 1024 * 1024 < (10::int) ^ 9" "(0::int) \<le> 120 \<and> 120 < (10::int) ^ 9"
    "(0::int) \<le> 5 \<and> 5 < (10::int) ^ 9" "(0::int) \<le> 0 \<and> 0 < (10::int) ^ 9" by simp_all
  note f = g(1,2,5,8,9)[THEN fits_bool] fits_int[OF g(3) i(1)[THEN conjunct1] i(1)[THEN conjunct2]]
    fits_int[OF g(4) i(4)[THEN conjunct1] i(4)[THEN conjunct2]] fits_int[OF g(6) i(2)[THEN conjunct1] i(2)[THEN conjunct2]]
    fits_int[OF g(7) i(3)[THEN conjunct1] i(3)[THEN conjunct2]]
  have d0: "fitting general_class d0"
    unfolding d0_def by (intro fitting_default fitting_pop fitting_texts[OF assms(2)] f fits_text)
  let ?old = "{''breadcrumb_trace_serialization_policy'', ''breadcrumb_trace_retention_depth''}"
  have old: "\<exists>s. v = PStr s" if "dict_get d0 k = Some v" "k \<in> ?old" for k v
  proof (rule texts_only_get[OF texts_only_pop[OF assms(2)]])
    show "dict_get (dict_pop ''trusted_browser_bootstrap_remote_addrs'' d) k = Some v"
      using that(1) unfolding d0_def
      by (rule default_get[OF default_get[OF default_get[OF default_get[OF default_get]]]]) (use that(2) in auto)
  qed
  obtain d1 where d1: "legacy_debug d0 = Inr d1" and s: "section_from_dict loads general_class new_general
        (with_default ''config_api_redact_remote_details'' (PBool True)
        (with_default ''py_spy_enabled'' (PBool False)
        (with_default ''performance_diagnostics_sample_interval_seconds'' (PInt 5)
        (with_default ''performance_diagnostics_retention_depth'' (PInt 120)
        (with_default ''performance_diagnostics_enabled'' (PBool False)
        (renamed_key ''breadcrumb_trace_serialization_policy'' ''breadcrumb_trace_policy'' (PStr ''{}'')
        (renamed_key ''breadcrumb_trace_retention_depth'' ''breadcrumb_trace_max_entries'' (PInt 0)
        (with_default ''breadcrumb_trace_memory_budget_bytes'' (PInt (256 * 1024 * 1024))
        (with_default ''breadcrumb_trace_enabled'' (PBool False) d1))))))))) = Inr sec"
    using assms(3) unfolding general_from_dict_def d0_def[symmetric] rbind_Inr_iff by (elim exE conjE) (rule that)
  let ?d2 = "with_default ''breadcrumb_trace_memory_budget_bytes'' (PInt (256 * 1024 * 1024)) (with_default ''breadcrumb_trace_enabled'' (PBool False) d1)"
  have o2: "\<exists>s. v = PStr s" if g: "dict_get ?d2 k = Some v" and k: "k \<in> ?old" for k v
  proof -
    have "dict_get d1 k = Some v" using g by (rule default_get[OF default_get]) (use k in auto)
    from legacy_debug_get[OF d1 this] have "dict_get d0 k = Some v" using k by auto
    from old[OF this k] show ?thesis .
  qed
  let ?d3 = "renamed_key ''breadcrumb_trace_retention_depth'' ''breadcrumb_trace_max_entries'' (PInt 0) ?d2"
  have d2: "fitting general_class ?d2" by (intro fitting_default f legacy_debug_fits[OF d0 d1])
  have d3: "fitting general_class ?d3" by (rule fitting_renamed[OF d2 f(7)]) (erule o2, rule insertI2, rule singletonI)
  have o3: "\<exists>s. v = PStr s" if g: "dict_get ?d3 ''breadcrumb_trace_serialization_policy'' = Some v" for v
  proof (rule o2)
    show "dict_get ?d2 ''breadcrumb_trace_serialization_policy'' = Some v" using g by (rule renamed_get) code_simp
  qed (rule insertI1)
  show ?thesis
    by (rule section_native[OF hooks_native(1) keeps_ok_classes(1) new_sections_ok(1)[OF assms(1)] _ s])
      (intro fitting_default f fitting_renamed[OF d3 fits_text o3])
qed

lemma fitting_if: "fitting cls a \<Longrightarrow> fitting cls b \<Longrightarrow> fitting cls (if c then a else b)"
  by simp

lemma lftp_native:
  assumes "texts_only d" "lftp_from_dict loads d = Inr sec"
  shows "native_section loads lftp_class sec"
proof -
  have f: "fits lftp_class ''use_legacy_lftp_password_argv'' (PBool False)" "fits lftp_class ''ftp_ssl_verify_certificate'' (PBool True)"
    "fits lftp_class ''remote_ftp_port'' (PInt 21)" by code_simp+
  have b: "\<exists>s. normalize_transfer_backend v = PStr s" for v
    by (cases v) (auto simp: normalize_transfer_backend_def)
  then have n: "fits lftp_class k (normalize_transfer_backend v)" for k v by (metis fits_text)
  show ?thesis
    by (rule section_native[OF hooks_native(2) keeps_ok_classes(2) new_sections_ok(2) _ assms(2)[unfolded lftp_from_dict_def Let_def]])
      (intro fitting_if fitting_set fitting_default fitting_texts[OF assms(1)] f n fits_text)
qed

lemma texts_only_set: "texts_only d \<Longrightarrow> texts_only (dict_set k (PStr s) d)"
  by (induction d) (auto simp: texts_only_def)

lemma texts_only_nil [simp]: "texts_only []"
  by (simp add: texts_only_def)

lemma legacy_secret_texts: "texts_only g \<Longrightarrow> texts_only n \<Longrightarrow> texts_only (legacy_secret g n)"
  using texts_only_get[of g "''webhook_secret''"] by (cases "dict_get g ''webhook_secret''") (auto simp: legacy_secret_def Let_def texts_only_set)

lemma fitting_list: "list_all (\<lambda>(k, v). fits cls k v) d \<Longrightarrow> fitting cls d"
  by (auto simp: fitting_def list_all_iff dest!: map_of_SomeD)

lemma fitting_fold: "texts_only d \<Longrightarrow> fitting cls e \<Longrightarrow> fitting cls (fold (\<lambda>(k, v). dict_set k v) d e)"
proof (induction d arbitrary: e)
  case (Cons p d)
  then obtain k s where "p = (k, PStr s)" by (cases p) (auto simp: texts_only_def)
  with Cons show ?case by (simp add: texts_only_def fitting_set)
qed simp

lemma notifications_native:
  assumes "texts_only d" "notifications_from_dict loads d = Inr sec"
  shows "native_section loads notifications_class sec"
proof -
  have "list_all (\<lambda>(k, v). fits notifications_class k v) (section_as_dict notifications_class new_notifications)" by code_simp
  from fitting_fold[OF assms(1) fitting_list[OF this]] show ?thesis
    by (rule section_native[OF hooks_native(8) keeps_ok_classes(8) new_sections_ok(8) _ assms(2)[unfolded notifications_from_dict_def]])
qed

lemma logging_native:
  assumes "texts_only d" "logging_from_dict loads d = Inr sec"
  shows "native_section loads logging_class sec"
proof -
  have "fitting logging_class (case dict_get d ''log_format'' of
      None \<Rightarrow> d @ [(''log_format'', PStr ''standard'')]
    | Some (PStr s) \<Rightarrow> if strip s = [] then dict_set ''log_format'' (PStr ''standard'') d else d
    | Some _ \<Rightarrow> d)"
    using fitting_texts[OF assms(1), of logging_class] by (auto intro!: fitting_add fitting_set split: option.split pyval.split)
  then show ?thesis
    by (rule section_native[OF hooks_native(7) keeps_ok_classes(7) new_sections_ok(7) _ assms(2)[unfolded logging_from_dict_def]])
qed

lemma small_sections_native:
  "texts_only d \<Longrightarrow> validate_from_dict loads d = Inr sec \<Longrightarrow> native_section loads validate_class sec"
  "texts_only d \<Longrightarrow> controller_from_dict loads d = Inr sec \<Longrightarrow> native_section loads controller_class sec"
  "texts_only d \<Longrightarrow> section_from_dict loads web_class new_web d = Inr sec \<Longrightarrow> native_section loads web_class sec"
  "texts_only d \<Longrightarrow> autoqueue_from_dict loads d = Inr sec \<Longrightarrow> native_section loads autoqueue_class sec"
proof -
  have f: "fits validate_class ''xfer_verify'' (PBool True)" "fits controller_class ''managed_extract_folders_enabled'' (PBool True)"
    "fits autoqueue_class ''auto_delete_remote'' (PBool False)" by code_simp+
  show "texts_only d \<Longrightarrow> validate_from_dict loads d = Inr sec \<Longrightarrow> native_section loads validate_class sec"
    unfolding validate_from_dict_def
    by (rule section_native[OF hooks_native(3) keeps_ok_classes(3) new_sections_ok(3) fitting_default[OF fitting_texts f(1)]])
  show "texts_only d \<Longrightarrow> controller_from_dict loads d = Inr sec \<Longrightarrow> native_section loads controller_class sec"
    unfolding controller_from_dict_def
    by (rule section_native[OF hooks_native(4) keeps_ok_classes(4) new_sections_ok(4) fitting_default[OF fitting_texts f(2)]])
  show "texts_only d \<Longrightarrow> section_from_dict loads web_class new_web d = Inr sec \<Longrightarrow> native_section loads web_class sec"
    by (rule section_native[OF hooks_native(5) keeps_ok_classes(5) new_sections_ok(5) fitting_texts])
  show "texts_only d \<Longrightarrow> autoqueue_from_dict loads d = Inr sec \<Longrightarrow> native_section loads autoqueue_class sec"
    unfolding autoqueue_from_dict_def
    by (rule section_native[OF hooks_native(6) keeps_ok_classes(6) new_sections_ok(6) fitting_default[OF fitting_texts f(3)]])
qed

text \<open>The sections of a settings file, as \<open>configparser\<close> reads them: every value is a text.\<close>

definition file_texts :: "config_dict \<Rightarrow> bool" where
  "file_texts d \<longleftrightarrow> list_all (\<lambda>(name, sec). texts_only sec) d"

lemma file_section: "file_texts d \<Longrightarrow> check_section name d = Inr sec \<Longrightarrow> texts_only sec" "file_texts d \<Longrightarrow> texts_only (section_or_empty name d)"
  by (auto simp: file_texts_def list_all_iff check_section_def section_or_empty_def dest!: map_of_SomeD split: option.splits)

lemma loaded_native:
  assumes "reads_empty_policy loads" "file_texts d" "config_from_dict loads d = Inr c"
  shows "native_config loads c"
proof -
  obtain g l cc w a where
    s: "check_section ''General'' d = Inr g" "check_section ''Lftp'' d = Inr l" "check_section ''Controller'' d = Inr cc"
      "check_section ''Web'' d = Inr w" "check_section ''AutoQueue'' d = Inr a" and
    p: "general_from_dict loads (dict_pop ''webhook_secret'' g) = Inr (cf_general c)" "lftp_from_dict loads l = Inr (cf_lftp c)"
      "validate_from_dict loads (section_or_empty ''Validate'' d) = Inr (cf_validate c)"
      "controller_from_dict loads cc = Inr (cf_controller c)" "section_from_dict loads web_class new_web w = Inr (cf_web c)"
      "autoqueue_from_dict loads a = Inr (cf_autoqueue c)" "logging_from_dict loads (section_or_empty ''Logging'' d) = Inr (cf_logging c)"
      "notifications_from_dict loads (legacy_secret g (section_or_empty ''Notifications'' d)) = Inr (cf_notifications c)"
    using assms(3) unfolding config_from_dict_def rbind_Inr_iff by (fastforce split: list.splits)
  note t = s[THEN file_section(1)[OF assms(2)]] and e = file_section(2)[OF assms(2)]
  show ?thesis unfolding native_config_def
    using general_native[OF assms(1) texts_only_pop[OF t(1)] p(1)] lftp_native[OF t(2) p(2)] small_sections_native(1)[OF e p(3)]
      small_sections_native(2)[OF t(3) p(4)] small_sections_native(3)[OF t(4) p(5)] small_sections_native(4)[OF t(5) p(6)]
      logging_native[OF e p(7)] notifications_native[OF legacy_secret_texts[OF t(1) e] p(8)] rclone_ok_from_dict[OF p(2)] by blast
qed

end
