(* ===== verification/Config_Properties.thy ===== *)
theory Config_Properties
  imports Config_Handler Config_Loaded
begin

text \<open>
  Properties of the configuration: what it may hold after any requests, that its texts are read back
  as it was, that a request that fails leaves no trace, and that no request reaches the settings that
  are closed to requests.
\<close>

text \<open>A \<open>json.loads\<close> for the examples: it reads the empty object and refuses every other text.\<close>

definition empty_object_only :: "string \<Rightarrow> pyval option" where
  "empty_object_only s = (if s = ''{}'' then Some (PDict []) else None)"

lemma reads_empty_object: "reads_empty_policy empty_object_only"
  by (simp add: reads_empty_policy_def empty_object_only_def)

abbreviation port_request :: "pyval option" where
  "port_request \<equiv> Some (PDict [(''value'', PStr ''8800'')])"

text \<open>C30. Every configuration the program can have in memory is checked: after loading any settings
  file (or starting from the defaults) and after any sequence of set requests, accepted, refused,
  failed while saving or ended by an exception, each property of each section is unset or a value
  that its converter and its checker return unchanged, and the rclone backend comes with SFTP.
  Of \<open>json.loads\<close> this needs that it reads the text of the empty object.\<close>

theorem configuration_stays_checked:
  assumes "reads_empty_policy loads" "config_loaded loads c" "(config_request loads)\<^sup>*\<^sup>* c c'"
  shows "config_ok loads c'"
  using requests.reachable_inv assms by blast

theorem configuration_stays_checked_witness:
  "config_ok empty_object_only (snd (handle_set_config empty_object_only True ''web'' ''port'' port_request new_config))"
proof (rule configuration_stays_checked[OF reads_empty_object])
  show "config_loaded empty_object_only new_config" by (simp add: config_loaded_def)
  show "(config_request empty_object_only)\<^sup>*\<^sup>* new_config
      (snd (handle_set_config empty_object_only True ''web'' ''port'' port_request new_config))"
    by (rule r_into_rtranclp) (auto simp: config_request_def)
qed

definition sample_config :: config where
  "sample_config = \<lparr>
     cf_general = put_all [(''verbose'', PBool False), (''api_token'', PStr []), (''allowed_hostname'', PStr ''seed''),
         (''browser_handover_recovery_version'', PStr [])]
       [''verbose'', ''api_token'', ''allowed_hostname'', ''browser_handover_recovery_version''] new_general,
     cf_lftp = [
       (''transfer_backend'', PStr ''rclone''), (''remote_address'', PStr ''example.org''), (''remote_username'', PStr ''u''),
       (''remote_password'', PStr []), (''remote_port'', PInt 22), (''remote_path'', PStr ''/r''), (''local_path'', PStr ''/l''),
       (''remote_path_to_scan_script'', PStr ''/tmp''), (''remote_python_path'', PStr ''python3''), (''use_ssh_key'', PBool True),
       (''num_max_parallel_downloads'', PInt 2), (''num_max_parallel_files_per_download'', PInt 3),
       (''num_max_connections_per_root_file'', PInt 4), (''num_max_connections_per_dir_file'', PInt 5),
       (''num_max_total_connections'', PInt 32), (''use_temp_file'', PBool False), (''rate_limit'', PStr ''0''),
       (''net_socket_buffer'', PStr ''8M''), (''staging_path'', PStr []), (''protocol'', PStr ''sftp''),
       (''remote_ftp_port'', PInt 21), (''ftp_ssl_verify_certificate'', PBool True),
       (''use_legacy_lftp_password_argv'', PBool False)],
     cf_validate = new_validate,
     cf_controller = [
       (''interval_ms_remote_scan'', PInt 30000), (''interval_ms_local_scan'', PInt 10000),
       (''interval_ms_downloading_scan'', PInt 2000), (''extract_path'', PStr ''/x''),
       (''use_local_path_as_extract_path'', PBool True), (''managed_extract_folders_enabled'', PBool True)],
     cf_web = [(''port'', PInt 8800)],
     cf_autoqueue = [(''enabled'', PBool True), (''patterns_only'', PBool False), (''auto_extract'', PBool True),
       (''auto_delete_remote'', PBool False)],
     cf_logging = new_logging, cf_notifications = new_notifications\<rparr>"

text \<open>Integers below \<^term>\<open>10 ^ 9 :: int\<close> can be printed.\<close>

definition small_native :: "config_converter \<Rightarrow> pyval \<Rightarrow> bool" where
  "small_native conv v = (case v of PBool b \<Rightarrow> conv = ConvBool | PInt n \<Rightarrow> conv = ConvInt \<and> 0 \<le> n \<and> n < 10 ^ 9
     | PStr s \<Rightarrow> conv \<notin> {ConvBool, ConvInt} | _ \<Rightarrow> False)"

lemma small_native_type: "small_native conv v \<Longrightarrow> native_type conv v"
proof (cases v)
  case (PInt n)
  assume "small_native conv v"
  with PInt have "conv = ConvInt" "nat n < 10 ^ Suc 8" "0 \<le> n" by (auto simp: small_native_def)
  with dec_text_length[of "nat n" 8] PInt show ?thesis by (simp add: native_type_def MAX_STR_DIGITS_def)
qed (auto simp: small_native_def native_type_def)

definition small_section :: "config_class \<Rightarrow> config_section \<Rightarrow> bool" where
  "small_section cls sec \<longleftrightarrow> dict_keys sec = dict_keys (cc_schema cls) \<and>
     list_all (\<lambda>(name, ck, conv). small_native conv (prop_value sec name) \<and>
       check_value empty_object_only ck (prop_value sec name) = Inr (prop_value sec name)) (cc_schema cls)"

lemma small_section: "small_section cls sec \<Longrightarrow> native_section empty_object_only cls sec"
  using small_native_type by (force simp: small_section_def native_section_def list_all_iff)

lemma sample_config_native: "native_config empty_object_only sample_config"
proof -
  have "small_section general_class (cf_general sample_config)" "small_section lftp_class (cf_lftp sample_config)"
    "small_section validate_class (cf_validate sample_config)" "small_section controller_class (cf_controller sample_config)"
    "small_section web_class (cf_web sample_config)" "small_section autoqueue_class (cf_autoqueue sample_config)"
    "small_section logging_class (cf_logging sample_config)" "small_section notifications_class (cf_notifications sample_config)"
    "rclone_ok (cf_lftp sample_config)"
    by code_simp+
  then show ?thesis by (simp add: native_config_def small_section)
qed

lemma section_texts_only: "section_texts sec = Inr sec' \<Longrightarrow> texts_only sec'"
  by (induction sec arbitrary: sec' rule: section_texts.induct) (auto simp: rbind_Inr_iff texts_only_def)

lemma config_texts_file: "config_texts d = Inr d' \<Longrightarrow> file_texts d'"
  by (induction d arbitrary: d' rule: config_texts.induct) (auto simp: rbind_Inr_iff file_texts_def section_texts_only)

text \<open>C33. Every configuration that was read from a settings file survives being written and read again: when
  \<open>from_dict\<close> accepts the texts of a file and gives a configuration, the texts \<open>to_str\<close> hands to \<open>configparser\<close>
  for it exist, and \<open>from_dict\<close> of these texts is the configuration again, in spite of the
  defaults, renamed keys and normalisations on the way. It says nothing of values a set request
  may have put in since: the checkers let some properties hold a value of another type, which is
  written as a text their converters refuse. Of \<open>json.loads\<close> it needs that it reads the text of the
  empty object.\<close>

theorem configuration_round_trip:
  assumes "reads_empty_policy loads" "file_texts d" "config_from_dict loads d = Inr c"
  shows "\<exists>d'. config_texts (config_as_dict c) = Inr d' \<and> file_texts d' \<and> config_from_dict loads d' = Inr c"
  using config_round_trip[OF loaded_native[OF assms]] config_texts_file by blast

theorem configuration_round_trip_witness:
  "\<exists>d'. config_texts (config_as_dict sample_config) = Inr d' \<and> config_from_dict empty_object_only d' = Inr sample_config"
proof -
  note r = config_round_trip[OF sample_config_native]
  from configuration_round_trip[OF reads_empty_object config_texts_file[OF r[THEN conjunct1]] r[THEN conjunct2]] show ?thesis by blast
qed

lemma set_all_converts:
  assumes "set_all loads cls names d sec = Inr sec'" "n \<in> set names" "dict_get (cc_schema cls) n = Some (ck, conv)"
    "dict_get d n = Some (PStr s)"
  shows "\<exists>v. convert conv s = Inr v"
  using assms
proof (induction names arbitrary: sec)
  case (Cons m names)
  then show ?case
    by (cases "n = m") (auto simp: rbind_Inr_iff set_prop_def native_value_of_def split: option.splits)
qed simp

lemma autoqueue_none_refused: "autoqueue_from_dict loads ((''enabled'', PStr ''None'') # d) \<noteq> Inr s"
proof
  have g: "dict_get (cc_schema autoqueue_class) ''enabled'' = Some (CheckNull, ConvBool)" by code_simp
  have bad: "convert ConvBool ''None'' = Inl (config_error ''must be a boolean value'')" by code_simp
  obtain d' where "with_default ''auto_delete_remote'' (PBool False) ((''enabled'', PStr ''None'') # d) = (''enabled'', PStr ''None'') # d'"
    by (cases "''auto_delete_remote'' \<in> fst ` set d") (simp_all add: with_default_def)
  moreover assume "autoqueue_from_dict loads ((''enabled'', PStr ''None'') # d) = Inr s"
  ultimately have "set_all loads autoqueue_class (sort (dict_keys (cc_schema autoqueue_class)))
      ((''enabled'', PStr ''None'') # d') new_autoqueue = Inr s"
    by (simp add: autoqueue_from_dict_def section_from_dict_Inr)
  from set_all_converts[OF this _ g, of "''None''"] bad show False
    by (simp add: autoqueue_class_def plain_class_def)
qed

text \<open>A request may be accepted that leaves a settings file the program refuses: setting
  \<open>autoqueue.enabled\<close> to the JSON value null is answered with 200 and saved, since the checker lets
  every value through; the file then holds the text \<open>None\<close>, which the converter to booleans refuses,
  so the whole configuration cannot be loaded again.\<close>

theorem accepted_null_cannot_be_read_back:
  assumes "native_config loads c"
  shows "\<exists>c' d e. handle_set_config loads True ''autoqueue'' ''enabled'' (Some (PDict [(''value'', PNone)])) c =
      (Inr \<lparr>rs_status = 200, rs_shown = Some PNone\<rparr>, c') \<and>
     config_texts (config_as_dict c') = Inr d \<and> config_from_dict loads d = Inl e"
proof -
  let ?aq = "dict_set ''enabled'' PNone (cf_autoqueue c)"
  let ?c = "c\<lparr>cf_autoqueue := ?aq\<rparr>"
  note n = assms[unfolded native_config_def]
  have g: "dict_get (cc_schema autoqueue_class) ''enabled'' = Some (CheckNull, ConvBool)"
    "dict_get (cc_schema autoqueue_class) ''patterns_only'' = Some (CheckNull, ConvBool)"
    "dict_get (cc_schema autoqueue_class) ''auto_extract'' = Some (CheckNull, ConvBool)"
    "dict_get (cc_schema autoqueue_class) ''auto_delete_remote'' = Some (CheckBool, ConvBool)" by code_simp+
  have cls: "section_class ''autoqueue'' = Some autoqueue_class" by (simp add: section_class_def)
  have guards: "section_has_prop ''autoqueue'' autoqueue_class ''enabled''"
    "\<not> is_sensitive_field ''autoqueue'' ''enabled''" "\<not> is_blocked_field ''autoqueue'' ''enabled''"
    "has_prop autoqueue_class ''enabled''" by code_simp+
  have set: "section_set_prop loads ''autoqueue'' autoqueue_class ''enabled'' PNone (cf_autoqueue c) = Inr ?aq"
    by (simp add: section_set_prop_def set_prop_def g native_value_of_def store_prop_def plain_hooks)
  have 1: "handle_set_config loads True ''autoqueue'' ''enabled'' (Some (PDict [(''value'', PNone)])) c =
      (Inr \<lparr>rs_status = 200, rs_shown = Some PNone\<rparr>, ?c)"
    by (simp add: handle_set_config_def cls guards would_create_blank_ftps_password_def set_checked_config_def Let_def
        get_section_def try_set_def set shown_value_def put_section_def)
  have native: "native_section loads autoqueue_class (cf_autoqueue c)" using n by simp
  note txts = native_value(1)[OF native classes_ok(6)]
  obtain p x r where texts: "value_text (prop_value (cf_autoqueue c) ''patterns_only'') = Inr p"
    "value_text (prop_value (cf_autoqueue c) ''auto_extract'') = Inr x"
    "value_text (prop_value (cf_autoqueue c) ''auto_delete_remote'') = Inr r"
    using txts[OF g(2)] txts[OF g(3)] txts[OF g(4)] by (elim exE conjE)
  let ?a = "[(''enabled'', PStr ''None''), (''patterns_only'', PStr p), (''auto_extract'', PStr x), (''auto_delete_remote'', PStr r)]"
  have as_dict: "section_as_dict autoqueue_class ?aq = [(''enabled'', PNone), (''patterns_only'', prop_value (cf_autoqueue c) ''patterns_only''),
      (''auto_extract'', prop_value (cf_autoqueue c) ''auto_extract''), (''auto_delete_remote'', prop_value (cf_autoqueue c) ''auto_delete_remote'')]"
    by (simp add: section_as_dict_def autoqueue_class_def plain_class_def)
  have "value_text PNone = Inr ''None''" by (simp add: value_text_def)
  then obtain d where d: "config_texts (config_as_dict ?c) = Inr d" "check_section ''AutoQueue'' d = Inr ?a"
    using n classes_ok by (simp add: config_as_dict_def native_texts[of loads] as_dict texts check_section_def)
  have "autoqueue_from_dict loads ?a \<noteq> Inr s" for s by (rule autoqueue_none_refused)
  then have "config_from_dict loads d \<noteq> Inr c''" for c''
    using d(2) by (auto simp: config_from_dict_def rbind_Inr_iff)
  then obtain e where "config_from_dict loads d = Inl e" by (cases "config_from_dict loads d") auto
  with 1 d(1) show ?thesis by blast
qed

theorem accepted_null_cannot_be_read_back_witness:
  "\<exists>c' d e. handle_set_config empty_object_only True ''autoqueue'' ''enabled'' (Some (PDict [(''value'', PNone)])) sample_config =
      (Inr \<lparr>rs_status = 200, rs_shown = Some PNone\<rparr>, c') \<and>
     config_texts (config_as_dict c') = Inr d \<and> config_from_dict empty_object_only d = Inl e"
  by (rule accepted_null_cannot_be_read_back) (rule sample_config_native)

text \<open>C32. A set request whose section has every property set never raises, answers 200 only when the
  settings were saved, and with every other answer leaves the configuration exactly as it was, whichever
  of the guards, the converter, the checker, the rclone constraint or the write to disk failed.\<close>

theorem failed_requests_change_nothing:
  assumes "config_ok loads c" "section_set (get_section name c)"
  shows "case handle_set_config loads saves name key body c of
     (r, c') \<Rightarrow> \<exists>x. r = Inr x \<and> (rs_status x = 200 \<and> saves \<or> rs_status x \<noteq> 200 \<and> c' = c)"
proof -
  have "case set_checked_config loads saves name cls key v c of
     (r, c') \<Rightarrow> \<exists>x. r = Inr x \<and> (rs_status x = 200 \<and> saves \<or> rs_status x \<noteq> 200 \<and> c' = c)"
    if "section_class name = Some cls" for cls v
  proof -
    let ?sec = "get_section name c"
    have standing: "standing loads name cls ?sec" using get_section_ok[OF assms(1) that] by (simp add: standing_def)
    obtain e sec1 where tried: "try_set loads saves name cls key v ?sec = (e, sec1)" by (rule prod.exhaust)
    have "section_ok loads cls sec1" using standing_try[OF that standing, of saves key v] tried by (simp add: standing_def)
    then have restore: "restore_previous_snapshot loads name cls (section_as_dict cls ?sec) sec1 = (None, ?sec)"
      by (rule restore_snapshot[OF that standing assms(2)])
    have "e = None \<Longrightarrow> saves" using tried by (auto simp: try_set_def split: sum.splits if_splits)
    then show ?thesis
      unfolding set_checked_config_def Let_def tried prod.case restore by (cases e) (simp_all add: put_get_section[OF that])
  qed
  then show ?thesis by (auto simp: handle_set_config_def split: option.splits pyval.splits)
qed

theorem failed_requests_change_nothing_witness:
  "case handle_set_config empty_object_only False ''validate'' ''xfer_verify'' (Some (PDict [(''value'', PBool False)])) new_config of
     (r, c') \<Rightarrow> \<exists>x. r = Inr x \<and> (rs_status x = 200 \<and> False \<or> rs_status x \<noteq> 200 \<and> c' = new_config)"
proof (rule failed_requests_change_nothing)
  show "config_ok empty_object_only new_config" by (rule new_config_ok[OF reads_empty_object])
  show "section_set (get_section ''validate'' new_config)" by code_simp
qed

text \<open>The settings that no request body may set.\<close>

definition protected_setting :: "string \<Rightarrow> string \<Rightarrow> bool" where
  "protected_setting name key \<longleftrightarrow>
     name = ''general'' \<and> key \<in> {''api_token'', ''config_api_redact_remote_details'', ''disable_browser_auth''} \<or>
     name = ''notifications'' \<and> has_prop notifications_class key \<or>
     name = ''lftp'' \<and> key = ''use_legacy_lftp_password_argv''"

lemma protected_blocked: "protected_setting name key \<Longrightarrow> is_blocked_field name key"
proof -
  have "is_blocked_field ''general'' ''api_token''" "is_blocked_field ''general'' ''config_api_redact_remote_details''"
    "is_blocked_field ''general'' ''disable_browser_auth''" "is_blocked_field ''lftp'' ''use_legacy_lftp_password_argv''"
    "list_all (is_blocked_field ''notifications'') (dict_keys (cc_schema notifications_class))" by code_simp+
  moreover assume "protected_setting name key"
  ultimately show ?thesis unfolding protected_setting_def has_prop_def list_all_iff by blast
qed

lemma blocked_refused:
  assumes "is_blocked_field name key"
  shows "\<exists>x. handle_set_config loads saves name key body c = (Inr x, c) \<and> rs_status x \<noteq> 200"
  using assms by (auto simp: handle_set_config_def split: option.split pyval.split)

text \<open>C31. Five groups of settings cannot be reached by set requests: the API token, the switch that redacts
  remote details, the switch that disables browser authentication, every notification setting and the legacy
  password switch. Whatever set requests are sent to a loaded configuration, each of them keeps the value
  it was loaded with, also when a failing request restores its section, and each request to set one is
  refused and changes nothing. The allowed host name and the recovery version of the browser handover are
  not among them: a request can set these.\<close>

theorem protected_settings_are_out_of_reach:
  assumes "reads_empty_policy loads" "config_loaded loads c" "(config_request loads)\<^sup>*\<^sup>* c c'" "protected_setting name key"
  shows "prop_value (get_section name c') key = prop_value (get_section name c) key \<and>
    (\<forall>saves body. \<exists>x. handle_set_config loads saves name key body c' = (Inr x, c') \<and> rs_status x \<noteq> 200)"
  using protected.reachable_inv[of loads c name key, OF _ assms(3)] protected_blocked[OF assms(4)] blocked_refused assms by blast

theorem protected_settings_are_out_of_reach_witness:
  "prop_value (get_section ''general'' (snd (handle_set_config empty_object_only True ''general'' ''verbose''
     (Some (PDict [(''value'', PStr ''x'')])) new_config))) ''disable_browser_auth'' = PBool False"
proof -
  let ?c = "snd (handle_set_config empty_object_only True ''general'' ''verbose'' (Some (PDict [(''value'', PStr ''x'')])) new_config)"
  have "prop_value (get_section ''general'' ?c) ''disable_browser_auth'' = prop_value (get_section ''general'' new_config) ''disable_browser_auth'' \<and>
    (\<forall>saves body. \<exists>x. handle_set_config empty_object_only saves ''general'' ''disable_browser_auth'' body ?c = (Inr x, ?c) \<and> rs_status x \<noteq> 200)"
  proof (rule protected_settings_are_out_of_reach[OF reads_empty_object])
    show "config_loaded empty_object_only new_config" by (simp add: config_loaded_def)
    show "(config_request empty_object_only)\<^sup>*\<^sup>* new_config ?c" by (rule r_into_rtranclp) (auto simp: config_request_def)
    show "protected_setting ''general'' ''disable_browser_auth''" by (simp add: protected_setting_def)
  qed
  moreover have "prop_value (get_section ''general'' new_config) ''disable_browser_auth'' = PBool False" by code_simp
  ultimately show ?thesis by simp
qed

end
