(* ===== verification/Clock.thy ===== *)
theory Clock
  imports Date_Text
begin

text \<open>
  Times of day with an offset from UTC, as the authentication store keeps them: the texts of
  \<open>isoformat(timespec="seconds")\<close> in UTC, \<open>fromisoformat\<close> of a text with or without an offset, the
  comparison of aware values and the addition of less than a day.

  The clock \<open>datetime.now(timezone.utc)\<close> is a valid \<open>datetime\<close> in UTC. Instants are compared as
  microseconds since the day before year one. Texts of layouts other than those \<open>isoformat\<close> prints,
  with \<open>Z\<close> or an offset of hours and minutes, are a \<open>ValueError\<close> of the model, although \<open>datetime\<close>
  reads some of them.
\<close>

section \<open>Ordinals\<close>

definition days_before_year :: "nat \<Rightarrow> int" where
  "days_before_year y = (let p = int y - 1 in p * 365 + p div 4 - p div 100 + p div 400)"

definition days_before_month :: "nat \<Rightarrow> nat \<Rightarrow> int" where
  "days_before_month y m = int (sum_list (map (days_in_month y) [1..<m]))"

definition ordinal :: "datetime \<Rightarrow> int" where
  "ordinal t = days_before_year (dt_year t) + days_before_month (dt_year t) (dt_month t) + int (dt_day t)"

definition day_seconds :: "datetime \<Rightarrow> nat" where
  "day_seconds t = dt_hour t * 3600 + dt_minute t * 60 + dt_second t"

text \<open>The instant of a time with an offset in seconds.\<close>

definition instant :: "datetime \<Rightarrow> int \<Rightarrow> int" where
  "instant t offset = (ordinal t * 86400 + int (day_seconds t) - offset) * 1000000 + int (dt_microsecond t)"

abbreviation utc :: "datetime \<Rightarrow> int" where
  "utc t \<equiv> instant t 0"

section \<open>Addition\<close>

definition next_day :: "datetime \<Rightarrow> datetime result" where
  "next_day t =
     (if dt_day t < days_in_month (dt_year t) (dt_month t) then Inr (t\<lparr>dt_day := dt_day t + 1\<rparr>)
      else if dt_month t < 12 then Inr (t\<lparr>dt_month := dt_month t + 1, dt_day := 1\<rparr>)
      else if dt_year t < 9999 then Inr (t\<lparr>dt_year := dt_year t + 1, dt_month := 1, dt_day := 1\<rparr>)
      else Inl OverflowError)"

definition at_second :: "nat \<Rightarrow> datetime \<Rightarrow> datetime" where
  "at_second s t = t\<lparr>dt_hour := s div 3600, dt_minute := s div 60 mod 60, dt_second := s mod 60\<rparr>"

text \<open>\<open>t + timedelta(seconds=n)\<close> for less than a day.\<close>

definition add_seconds :: "nat \<Rightarrow> datetime \<Rightarrow> datetime result" where
  "add_seconds n t =
     (let s = day_seconds t + n in
      if s < 86400 then Inr (at_second s t)
      else rbind (next_day t) (\<lambda>d. Inr (at_second (s - 86400) d)))"

section \<open>Texts\<close>

definition whole_second :: "datetime \<Rightarrow> datetime" where
  "whole_second t = t\<lparr>dt_microsecond := 0\<rparr>"

definition seconds_text :: "datetime \<Rightarrow> string" where
  "seconds_text t = isoformat (whole_second t) @ ''+00:00''"

datatype stamp = Naive datetime | Aware datetime int

definition read_offset :: "string \<Rightarrow> int option" where
  "read_offset s =
     (case s of [] \<Rightarrow> None
      | sign # r \<Rightarrow>
          (case Option.bind (read_field 2 r) (\<lambda>(h, r). Option.bind (read_sep_field (CHR '':'') 2 r) (\<lambda>(mi, r).
              if r = [] \<and> h < 24 \<and> mi < 60 then Some (int (h * 3600 + mi * 60)) else None)) of
             None \<Rightarrow> None
           | Some n \<Rightarrow> if sign = CHR ''+'' then Some n else if sign = CHR ''-'' then Some (- n) else None))"

definition stamp_of_text :: "string \<Rightarrow> stamp result" where
  "stamp_of_text s =
     (case fromisoformat s of
        Inr t \<Rightarrow> Inr (Naive t)
      | Inl _ \<Rightarrow>
          if s \<noteq> [] \<and> last s = CHR ''Z'' then rbind (fromisoformat (butlast s)) (\<lambda>t. Inr (Aware t 0))
          else case read_offset (drop (length s - 6) s) of
            None \<Rightarrow> Inl ValueError
          | Some offset \<Rightarrow> rbind (fromisoformat (take (length s - 6) s)) (\<lambda>t. Inr (Aware t offset)))"

text \<open>\<open>stamp <= now\<close>, and \<open>datetime.fromisoformat(text) <= now\<close>.\<close>

definition stamp_le :: "stamp \<Rightarrow> datetime \<Rightarrow> bool result" where
  "stamp_le st now = (case st of Naive _ \<Rightarrow> Inl TypeError | Aware t offset \<Rightarrow> Inr (instant t offset \<le> utc now))"

definition text_le :: "string \<Rightarrow> datetime \<Rightarrow> bool result" where
  "text_le s now = rbind (stamp_of_text s) (\<lambda>st. stamp_le st now)"

section \<open>Laws\<close>

lemma days_before_month_Suc: "1 \<le> m \<Longrightarrow> days_before_month y (Suc m) = days_before_month y m + int (days_in_month y m)"
  by (simp add: days_before_month_def)

lemma days_before_year_Suc:
  assumes "1 \<le> y"
  shows "days_before_year (Suc y) = days_before_year y + days_before_month y 12 + int (days_in_month y 12)"
proof -
  have months: "days_before_month y 12 + int (days_in_month y 12) = (if leap_year y then 366 else 365)"
    by (simp add: days_before_month_def days_in_month_def upt_rec)
  have div: "p div k = (p - 1) div k + (if p mod k = 0 then 1 else 0)" if "(k::int) > 0" for k p
  proof -
    have p: "p = k * (p div k) + p mod k" and r: "0 \<le> p mod k" "p mod k < k" using that by simp_all
    show ?thesis
    proof (cases "p mod k = 0")
      case True
      then have "p - 1 = k * (p div k - 1) + (k - 1)" using p by (simp add: algebra_simps)
      from int_div_pos_eq[OF this] True that show ?thesis by simp
    next
      case False
      then have "p - 1 = k * (p div k) + (p mod k - 1)" using p by simp
      from int_div_pos_eq[OF this] False r show ?thesis by simp
    qed
  qed
  have leap: "leap_year y \<longleftrightarrow> int y mod 4 = 0 \<and> (int y mod 100 \<noteq> 0 \<or> int y mod 400 = 0)"
  proof -
    have "int y mod k = int (y mod nat k)" if "0 < k" for k using that by (simp add: zmod_int)
    then have "int y mod 4 = int (y mod 4)" "int y mod 100 = int (y mod 100)" "int y mod 400 = int (y mod 400)" by simp_all
    then show ?thesis unfolding leap_year_def by (simp only: of_nat_eq_0_iff)
  qed
  have mods: "int y mod 400 = 0 \<Longrightarrow> int y mod 100 = 0" "int y mod 100 = 0 \<Longrightarrow> int y mod 4 = 0" by presburger+
  have prev: "int (Suc y) - 1 = int y" by simp
  have "(a::int) = a' + (if A then 1 else 0) \<Longrightarrow> b = b' + (if B then 1 else 0) \<Longrightarrow> c = c' + (if C then 1 else 0) \<Longrightarrow>
      (C \<Longrightarrow> B) \<Longrightarrow> (B \<Longrightarrow> A) \<Longrightarrow>
      p * 365 + a - b + c = (p - 1) * 365 + a' - b' + c' + (if A \<and> (\<not> B \<or> C) then 366 else 365)" for a a' b b' c c' p A B C
    by (cases A; cases B; cases C) simp_all
  from this[OF div[of 4 "int y", OF zero_less_numeral] div[of 100 "int y", OF zero_less_numeral]
      div[of 400 "int y", OF zero_less_numeral] mods, of "int y"]
  show ?thesis unfolding days_before_year_def Let_def prev add.assoc[of _ "days_before_month y 12"] months leap .
qed

lemma ordinal_next_day:
  assumes "valid_datetime t" "next_day t = Inr d"
  shows "ordinal d = ordinal t + 1" "valid_datetime d" "day_seconds d = day_seconds t" "dt_microsecond d = dt_microsecond t"
proof -
  note v = assms(1)[unfolded valid_datetime_def]
  have one: "days_before_month y 1 = 0" for y by (simp add: days_before_month_def)
  have m31: "1 \<le> days_in_month y m" for y m by (simp add: days_in_month_def)
  show "ordinal d = ordinal t + 1"
  proof (cases "dt_day t < days_in_month (dt_year t) (dt_month t)")
    case False
    with v have day: "dt_day t = days_in_month (dt_year t) (dt_month t)" by simp
    show ?thesis
    proof (cases "dt_month t < 12")
      case True
      with False assms(2) day v show ?thesis by (auto simp: next_day_def ordinal_def days_before_month_Suc)
    next
      case F: False
      then have "dt_month t = 12" using v by simp
      with False F assms(2) day v show ?thesis
        using days_before_year_Suc[of "dt_year t"] one by (auto simp: next_day_def ordinal_def split: if_splits)
    qed
  qed (use assms(2) in \<open>auto simp: next_day_def ordinal_def\<close>)
  show "valid_datetime d" using assms(2) v m31 by (auto simp: next_day_def valid_datetime_def split: if_splits)
  show "day_seconds d = day_seconds t" "dt_microsecond d = dt_microsecond t"
    using assms(2) by (auto simp: next_day_def day_seconds_def split: if_splits)
qed

lemma at_second_facts:
  assumes "valid_datetime t" "s < 86400"
  shows "ordinal (at_second s t) = ordinal t" "day_seconds (at_second s t) = s" "valid_datetime (at_second s t)"
    "dt_microsecond (at_second s t) = dt_microsecond t"
proof -
  have "s div 3600 * 3600 + s div 60 mod 60 * 60 + s mod 60 = s"
  proof -
    have "s div 3600 = s div 60 div 60" by (simp add: div_mult2_eq[symmetric])
    then have "s div 3600 * 3600 + s div 60 mod 60 * 60 = s div 60 * 60"
      using div_mult_mod_eq[of "s div 60" 60] by linarith
    then show ?thesis using div_mult_mod_eq[of s 60] by simp
  qed
  then show "day_seconds (at_second s t) = s" by (simp add: at_second_def day_seconds_def)
  have "s div 3600 < 24" using assms(2) by (simp add: less_mult_imp_div_less)
  with assms(1) show "valid_datetime (at_second s t)" by (simp add: at_second_def valid_datetime_def)
qed (simp_all add: at_second_def ordinal_def)

lemma add_seconds_utc:
  assumes "valid_datetime t" "n \<le> 86400" "add_seconds n t = Inr u"
  shows "utc u = utc t + int n * 1000000" "valid_datetime u" "dt_microsecond u = dt_microsecond t"
proof -
  have day: "day_seconds t < 86400"
    using assms(1) by (simp add: valid_datetime_def day_seconds_def)
  have "utc u = utc t + int n * 1000000 \<and> valid_datetime u \<and> dt_microsecond u = dt_microsecond t"
  proof (cases "day_seconds t + n < 86400")
    case True
    with assms(3) have "u = at_second (day_seconds t + n) t" by (simp add: add_seconds_def)
    with at_second_facts[OF assms(1) True] show ?thesis by (simp add: instant_def)
  next
    case False
    with assms(3) obtain d where d: "next_day t = Inr d" "u = at_second (day_seconds t + n - 86400) d"
      by (auto simp: add_seconds_def Let_def rbind_Inr_iff)
    have less: "day_seconds t + n - 86400 < 86400" using day assms(2) by simp
    note nd = ordinal_next_day[OF assms(1) d(1)]
    have "int (day_seconds t + n - 86400) = int (day_seconds t) + int n - 86400" using False by simp
    with at_second_facts[OF nd(2) less] nd d(2) show ?thesis by (simp add: instant_def)
  qed
  then show "utc u = utc t + int n * 1000000" "valid_datetime u" "dt_microsecond u = dt_microsecond t" by auto
qed

lemma utc_whole_second: "utc (whole_second t) = utc t - int (dt_microsecond t)"
  by (simp add: whole_second_def instant_def ordinal_def day_seconds_def)

lemma valid_whole_second: "valid_datetime t \<Longrightarrow> valid_datetime (whole_second t)"
  by (simp add: whole_second_def valid_datetime_def)

lemma stamp_of_seconds_text:
  assumes "valid_datetime t"
  shows "stamp_of_text (seconds_text t) = Inr (Aware (whole_second t) 0)"
proof -
  let ?w = "whole_second t"
  have w: "valid_datetime ?w" "dt_microsecond ?w = 0" using assms by (auto simp: valid_whole_second) (simp add: whole_second_def)
  have d: "dt_day ?w < 100" using w days_in_month_le[of "dt_year ?w" "dt_month ?w"] by (simp add: valid_datetime_def)
  have r: "read_field 4 (digits 4 (dt_year ?w) @ r) = Some (dt_year ?w, r)" for r
    using w by (intro read_field_digits) (simp add: valid_datetime_def)
  have rs: "read_sep_field c 2 (c # digits 2 n @ r) = Some (n, r)" if "n < 100" for c n r
    using that by (intro read_sep_field_digits) simp
  have b: "dt_month ?w < 100" "dt_hour ?w < 100" "dt_minute ?w < 100" "dt_second ?w < 100"
    using w by (auto simp: valid_datetime_def)
  have "read_micro ''+00:00'' = None" by code_simp
  with w(2) d r rs b have naive: "fromisoformat (seconds_text t) = Inl ValueError"
    by (simp add: fromisoformat_def seconds_text_def isoformat_def)
  have "read_offset ''+00:00'' = Some 0" by code_simp
  moreover have "last (seconds_text t) \<noteq> CHR ''Z''" "drop (length (seconds_text t) - 6) (seconds_text t) = ''+00:00''"
    "take (length (seconds_text t) - 6) (seconds_text t) = isoformat ?w" by (simp_all add: seconds_text_def)
  ultimately show ?thesis using fromisoformat_isoformat[OF w(1)] naive by (simp add: stamp_of_text_def)
qed

lemma text_le_seconds_text:
  "valid_datetime t \<Longrightarrow> text_le (seconds_text t) now = Inr (utc (whole_second t) \<le> utc now)"
  by (simp add: text_le_def stamp_of_seconds_text stamp_le_def)

end
