(* ===== verification/Auth_Records.thy ===== *)
theory Auth_Records
  imports Config_Texts Clock
begin

text \<open>
  \<open>web/auth_store.py\<close>, part one: scopes, the hashed secrets with their base 64 texts, and the records
  of API keys, browser sessions and bootstrap secrets.

  \<open>hashlib.pbkdf2_hmac\<close> is an argument: it takes the secret, the salt and the number of iterations,
  and gives the digest or an error. Bytes are characters.
\<close>

section \<open>Scopes\<close>

definition ALLOWED_SCOPES :: "string set" where
  "ALLOWED_SCOPES = {''read'', ''write'', ''stream'', ''admin'', ''bootstrap''}"

fun scope_loop :: "pyval list \<Rightarrow> string list \<Rightarrow> string list result" where
  "scope_loop [] normalized = Inr normalized"
| "scope_loop (scope # scopes) normalized =
     (case scope of
        PStr s \<Rightarrow>
          (let scope_name = lower (strip s) in
           if scope_name = [] then Inl ValueError
           else if scope_name \<notin> ALLOWED_SCOPES then Inl ValueError
           else if scope_name \<in> set normalized then scope_loop scopes normalized
           else scope_loop scopes (normalized @ [scope_name]))
      | _ \<Rightarrow> Inl ValueError)"

definition normalize_scopes :: "pyval \<Rightarrow> string list result" where
  "normalize_scopes v =
     (case v of
        PList scopes \<Rightarrow>
          rbind (scope_loop scopes []) (\<lambda>normalized. if normalized = [] then Inl ValueError else Inr normalized)
      | _ \<Rightarrow> Inl ValueError)"

definition scopes_ok :: "string list \<Rightarrow> bool" where
  "scopes_ok scopes \<longleftrightarrow> scopes \<noteq> [] \<and> distinct scopes \<and> set scopes \<subseteq> ALLOWED_SCOPES"

lemma scope_loop_ok:
  "scope_loop scopes acc = Inr normalized \<Longrightarrow> distinct acc \<Longrightarrow> set acc \<subseteq> ALLOWED_SCOPES \<Longrightarrow>
   distinct normalized \<and> set normalized \<subseteq> ALLOWED_SCOPES"
  by (induction scopes acc rule: scope_loop.induct) (auto simp: Let_def split: pyval.splits if_splits)

lemma normalize_scopes_ok: "normalize_scopes v = Inr scopes \<Longrightarrow> scopes_ok scopes"
  using scope_loop_ok[of _ "[]" scopes]
  by (auto simp: normalize_scopes_def scopes_ok_def rbind_Inr_iff split: pyval.splits if_splits)

lemma allowed_scopes_plain: "s \<in> ALLOWED_SCOPES \<Longrightarrow> lower (strip s) = s \<and> s \<noteq> []"
proof -
  have "list_all (\<lambda>s. lower (strip s) = s \<and> s \<noteq> []) [''read'', ''write'', ''stream'', ''admin'', ''bootstrap'']" by code_simp
  then show "s \<in> ALLOWED_SCOPES \<Longrightarrow> ?thesis" by (auto simp: ALLOWED_SCOPES_def)
qed

lemma scope_loop_fixed:
  "distinct (acc @ scopes) \<Longrightarrow> set scopes \<subseteq> ALLOWED_SCOPES \<Longrightarrow> scope_loop (map PStr scopes) acc = Inr (acc @ scopes)"
proof (induction scopes arbitrary: acc)
  case (Cons s scopes)
  then have "lower (strip s) = s \<and> s \<noteq> []" by (intro allowed_scopes_plain) simp
  with Cons show ?case by (simp add: Let_def)
qed simp

lemma normalize_scopes_fixed: "scopes_ok scopes \<Longrightarrow> normalize_scopes (PList (map PStr scopes)) = Inr scopes"
  using scope_loop_fixed[of "[]" scopes] by (simp add: normalize_scopes_def scopes_ok_def)

section \<open>Base 64\<close>

definition b64_char :: "nat \<Rightarrow> char" where
  "b64_char n = (if n < 26 then char_of (65 + n) else if n < 52 then char_of (71 + n)
     else if n < 62 then char_of (n - 4) else if n = 62 then CHR ''+'' else CHR ''/'')"

definition b64_value :: "char \<Rightarrow> nat option" where
  "b64_value c = (let n = code_of c in
     if 65 \<le> n \<and> n \<le> 90 then Some (n - 65) else if 97 \<le> n \<and> n \<le> 122 then Some (n - 71)
     else if 48 \<le> n \<and> n \<le> 57 then Some (n + 4) else if n = 43 then Some 62 else if n = 47 then Some 63 else None)"

fun b64encode :: "string \<Rightarrow> string" where
  "b64encode [] = []"
| "b64encode [a] = [b64_char (code_of a div 4), b64_char (code_of a mod 4 * 16), CHR ''='', CHR ''='']"
| "b64encode [a, b] = [b64_char (code_of a div 4), b64_char (code_of a mod 4 * 16 + code_of b div 16),
     b64_char (code_of b mod 16 * 4), CHR ''='']"
| "b64encode (a # b # c # r) = b64_char (code_of a div 4) # b64_char (code_of a mod 4 * 16 + code_of b div 16) #
     b64_char (code_of b mod 16 * 4 + code_of c div 64) # b64_char (code_of c mod 64) # b64encode r"

text \<open>\<open>binascii.a2b_base64\<close>, not strict: the position in the group of four, the bits left over and the
  number of pads so far. Characters outside of the alphabet are skipped.\<close>

fun a2b_base64 :: "nat \<Rightarrow> nat \<Rightarrow> nat \<Rightarrow> string \<Rightarrow> string option" where
  "a2b_base64 q left pads [] = (if q = 0 then Some [] else None)"
| "a2b_base64 q left pads (c # s) =
     (if c = CHR ''='' then
        (if q \<ge> 2 \<and> q + (pads + 1) \<ge> 4 then Some [] else a2b_base64 q left (if q \<ge> 2 then pads + 1 else pads) s)
      else case b64_value c of
        None \<Rightarrow> a2b_base64 q left pads s
      | Some v \<Rightarrow>
          if q = 0 then a2b_base64 1 v 0 s
          else if q = 1 then map_option (Cons (char_of (left * 4 + v div 16))) (a2b_base64 2 (v mod 16) 0 s)
          else if q = 2 then map_option (Cons (char_of (left * 16 + v div 4))) (a2b_base64 3 (v mod 4) 0 s)
          else map_option (Cons (char_of (left * 64 + v))) (a2b_base64 0 0 0 s))"

definition b64decode :: "string \<Rightarrow> string option" where
  "b64decode s = a2b_base64 0 0 0 s"

lemma b64_chars: "n < 64 \<Longrightarrow> b64_value (b64_char n) = Some n \<and> b64_char n \<noteq> CHR ''='' \<and> b64_char n \<noteq> CHR ''$'' \<and> code_of (b64_char n) < 128"
proof -
  assume "n < 64"
  then have "b64_value (b64_char n) = Some n" "code_of (b64_char n) < 128"
    by (auto simp: b64_char_def b64_value_def code_of_def Let_def)
  moreover have "b64_value (CHR ''='') = None" "b64_value (CHR ''$'') = None" by code_simp+
  ultimately show ?thesis by (metis option.distinct(1))
qed

lemma code_of_less: "code_of c < 256"
  by (simp add: code_of_def)

lemma b64_bits:
  fixes a b c :: nat
  assumes "a < 256" "b < 256" "c < 256"
  shows "a div 4 < 64" "a mod 4 * 16 < 64" "a mod 4 * 16 + b div 16 < 64" "b mod 16 * 4 < 64"
    "b mod 16 * 4 + c div 64 < 64" "c mod 64 < 64"
    "a div 4 * 4 + (a mod 4 * 16 + b div 16) div 16 = a" "a div 4 * 4 + a mod 4 * 16 div 16 = a"
    "(a mod 4 * 16 + b div 16) mod 16 * 16 + (b mod 16 * 4 + c div 64) div 4 = b"
    "(a mod 4 * 16 + b div 16) mod 16 * 16 + b mod 16 * 4 div 4 = b"
    "(b mod 16 * 4 + c div 64) mod 4 * 64 + c mod 64 = c"
proof -
  have d: "(x * k + y) div k = x" "(x * k + y) mod k = y" if "y < k" for x y k :: nat using that by simp_all
  have a: "a div 4 < 64" "a mod 4 < 4" "a div 4 * 4 + a mod 4 = a" using assms(1) by (auto simp: less_mult_imp_div_less)
  have b: "b div 16 < 16" "b mod 16 < 16" "b div 16 * 16 + b mod 16 = b" using assms(2) by (auto simp: less_mult_imp_div_less)
  have c: "c div 64 < 4" "c mod 64 < 64" "c div 64 * 64 + c mod 64 = c" using assms(3) by (auto simp: less_mult_imp_div_less)
  show "a div 4 < 64" "a mod 4 * 16 < 64" "a mod 4 * 16 + b div 16 < 64" "b mod 16 * 4 < 64"
    "b mod 16 * 4 + c div 64 < 64" "c mod 64 < 64" using a(1,2) b(1,2) c(1,2) by linarith+
  show "a div 4 * 4 + (a mod 4 * 16 + b div 16) div 16 = a" "a div 4 * 4 + a mod 4 * 16 div 16 = a"
    using a(3) d(1)[OF b(1)] by simp_all
  show "(a mod 4 * 16 + b div 16) mod 16 * 16 + (b mod 16 * 4 + c div 64) div 4 = b"
    "(a mod 4 * 16 + b div 16) mod 16 * 16 + b mod 16 * 4 div 4 = b"
    using b(3) d(2)[OF b(1)] d(1)[OF c(1)] by simp_all
  show "(b mod 16 * 4 + c div 64) mod 4 * 64 + c mod 64 = c" using c(3) d(2)[OF c(1)] by simp
qed

lemma char_of_code: "char_of (code_of c) = (c :: char)"
  by (simp add: code_of_def)

lemma b64_round_trip: "b64decode (b64encode s) = Some s"
proof -
  have "a2b_base64 0 0 0 (b64encode s) = Some s"
  proof (induction s rule: b64encode.induct)
    case (2 a)
    note b = b64_bits[OF code_of_less[of a] code_of_less[of a] code_of_less[of a]]
    show ?case using b64_chars[OF b(1)] b64_chars[OF b(2)] b(8) by (simp add: char_of_code)
  next
    case (3 a b)
    note b = b64_bits[OF code_of_less[of a] code_of_less[of b] code_of_less[of b]]
    show ?case
      using b64_chars[OF b(1)] b64_chars[OF b(3)] b64_chars[OF b(4)] b(7,10) by (simp add: char_of_code)
  next
    case (4 a b c r)
    note b = b64_bits[OF code_of_less[of a] code_of_less[of b] code_of_less[of c]]
    show ?case
      using b64_chars[OF b(1)] b64_chars[OF b(3)] b64_chars[OF b(5)] b64_chars[OF b(6)] b(7,9,11) 4
      by (simp add: char_of_code)
  qed simp
  then show ?thesis by (simp add: b64decode_def)
qed

lemma b64encode_plain: "c \<in> set (b64encode s) \<Longrightarrow> c \<noteq> CHR ''$'' \<and> code_of c < 128"
proof (induction s rule: b64encode.induct)
  case (2 a)
  note b = b64_bits[OF code_of_less[of a] code_of_less[of a] code_of_less[of a]]
  show ?case using 2 b64_chars[OF b(1)] b64_chars[OF b(2)] by (auto simp: code_of_def)
next
  case (3 a b)
  note b = b64_bits[OF code_of_less[of a] code_of_less[of b] code_of_less[of b]]
  show ?case using 3 b64_chars[OF b(1)] b64_chars[OF b(3)] b64_chars[OF b(4)] by (auto simp: code_of_def)
next
  case (4 a b c r)
  note b = b64_bits[OF code_of_less[of a] code_of_less[of b] code_of_less[of c]]
  show ?case using 4 b64_chars[OF b(1)] b64_chars[OF b(3)] b64_chars[OF b(5)] b64_chars[OF b(6)] by auto
qed simp

section \<open>Secrets\<close>

type_synonym kdf = "string \<Rightarrow> string \<Rightarrow> int \<Rightarrow> string result"

definition HASH_ALGORITHM :: string where "HASH_ALGORITHM = ''pbkdf2_sha256''"

definition HASH_ITERATIONS :: int where "HASH_ITERATIONS = 200000"

definition hash_secret :: "kdf \<Rightarrow> string \<Rightarrow> string \<Rightarrow> string result" where
  "hash_secret pbkdf2 salt secret =
     (if secret = [] then Inl ValueError
      else rbind (pbkdf2 secret salt HASH_ITERATIONS) (\<lambda>digest.
        Inr (HASH_ALGORITHM @ ''$'' @ int_text HASH_ITERATIONS @ ''$'' @ b64encode salt @ ''$'' @ b64encode digest)))"

fun split_max :: "nat \<Rightarrow> char \<Rightarrow> string \<Rightarrow> string list" where
  "split_max 0 c s = [s]"
| "split_max (Suc n) c s =
     (if c \<in> set s then takeWhile (\<lambda>x. x \<noteq> c) s # split_max n c (drop 1 (dropWhile (\<lambda>x. x \<noteq> c) s)) else [s])"

definition ascii_bytes :: "string \<Rightarrow> string result" where
  "ascii_bytes s = (if list_all (\<lambda>c. code_of c < 128) s then Inr s else Inl ValueError)"

definition decode_part :: "string \<Rightarrow> string result" where
  "decode_part s = rbind (ascii_bytes s) (\<lambda>b. case b64decode b of None \<Rightarrow> Inl ValueError | Some d \<Rightarrow> Inr d)"

definition verify_parts :: "kdf \<Rightarrow> string \<Rightarrow> string list \<Rightarrow> bool result" where
  "verify_parts pbkdf2 secret parts =
     (case parts of
        [algorithm, iterations, salt_b64, digest_b64] \<Rightarrow>
          (if algorithm \<noteq> HASH_ALGORITHM then Inr False
           else rbind (decode_part salt_b64) (\<lambda>salt.
                rbind (decode_part digest_b64) (\<lambda>expected.
                rbind (int_of_str iterations) (\<lambda>n.
                rbind (pbkdf2 secret salt n) (\<lambda>actual. Inr (expected = actual))))))
      | _ \<Rightarrow> Inl ValueError)"

definition verify_secret :: "kdf \<Rightarrow> string \<Rightarrow> string \<Rightarrow> bool result" where
  "verify_secret pbkdf2 secret stored_hash =
     (case verify_parts pbkdf2 secret (split_max 3 (CHR ''$'') stored_hash) of
        Inl ValueError \<Rightarrow> Inr False
      | Inl TypeError \<Rightarrow> Inr False
      | r \<Rightarrow> r)"

lemma split_max_sep: "c \<notin> set a \<Longrightarrow> split_max (Suc n) c (a @ c # b) = a # split_max n c b"
  by (simp add: takeWhile_append dropWhile_append)

lemma hash_secret_parts:
  assumes "hash_secret pbkdf2 salt secret = Inr h"
  obtains digest where "pbkdf2 secret salt HASH_ITERATIONS = Inr digest"
    "split_max 3 (CHR ''$'') h = [HASH_ALGORITHM, int_text HASH_ITERATIONS, b64encode salt, b64encode digest]"
proof -
  obtain digest where d: "pbkdf2 secret salt HASH_ITERATIONS = Inr digest"
    and h: "h = HASH_ALGORITHM @ CHR ''$'' # (int_text HASH_ITERATIONS @ CHR ''$'' # (b64encode salt @ CHR ''$'' # b64encode digest))"
    using assms by (auto simp: hash_secret_def rbind_Inr_iff split: if_splits)
  have no: "CHR ''$'' \<notin> set HASH_ALGORITHM" by code_simp
  have it: "CHR ''$'' \<notin> set (int_text HASH_ITERATIONS)"
  proof -
    have "\<not> is_digit (CHR ''$'')" by code_simp
    then show ?thesis using dec_text_digits[of "nat 200000"] by (auto simp: int_text_def HASH_ITERATIONS_def list_all_iff)
  qed
  have "CHR ''$'' \<notin> set (b64encode salt)" using b64encode_plain by blast
  then have "split_max 3 (CHR ''$'') h = [HASH_ALGORITHM, int_text HASH_ITERATIONS, b64encode salt, b64encode digest]"
    unfolding h numeral_3_eq_3 using split_max_sep no it by (simp del: split_max.simps(2))
  with d that show thesis by blast
qed

lemma decode_part_encoded: "decode_part (b64encode s) = Inr s"
  using b64encode_plain[of _ s] by (auto simp: decode_part_def ascii_bytes_def list_all_iff b64_round_trip)

lemma int_of_iterations: "int_of_str (int_text HASH_ITERATIONS) = Inr HASH_ITERATIONS"
  using dec_text_length[of 200000 5] by (intro int_of_str_int_text) (simp add: HASH_ITERATIONS_def MAX_STR_DIGITS_def)

lemma verify_hash:
  assumes "hash_secret pbkdf2 salt secret = Inr h"
  shows "verify_secret pbkdf2 secret h = Inr True"
proof (rule hash_secret_parts[OF assms])
  fix digest
  assume "pbkdf2 secret salt HASH_ITERATIONS = Inr digest"
    "split_max 3 (CHR ''$'') h = [HASH_ALGORITHM, int_text HASH_ITERATIONS, b64encode salt, b64encode digest]"
  then show ?thesis by (simp add: verify_secret_def verify_parts_def decode_part_encoded int_of_iterations)
qed

section \<open>Records\<close>

record api_key =
  ak_id :: string
  ak_name :: string
  ak_scopes :: "string list"
  ak_hash :: string
  ak_created :: string
  ak_updated :: string
  ak_revoked :: "string option"

definition is_revoked :: "api_key \<Rightarrow> bool" where
  "is_revoked k = (ak_revoked k \<noteq> None)"

record ui_session =
  us_secret :: string
  us_scopes :: "string list"
  us_created :: string
  us_expires :: string
  us_bootstrap :: bool
  us_remembered :: bool
  us_key_id :: "string option"
  us_key_hash :: "string option"

record bootstrap_secret =
  bs_secret :: string
  bs_created :: string
  bs_expires :: string

end
