(* ===== verification/Auth_Store.thy ===== *)
theory Auth_Store
  imports Auth_Records Keyed_Store
begin

text \<open>
  \<open>web/auth_store.py\<close>, part two: \<open>ApiKeyStore\<close> with its API keys, browser sessions and bootstrap secrets.

  The store is a record. What an operation takes from outside is its environment: the clock when the
  operation starts and when it saves, whether writing the store succeeds, the token, identifier and
  salt it draws, the key derivation, and the file of the browser handover: what it holds when it is
  first read, whether it can be written, and \<open>hashlib.sha256\<close> on texts. Operations give a result or an exception, and the store
  as they leave it. The history file is the list of events with their reasons; a store without a
  file neither saves nor records. The completed-migration claim transaction and the copy of the
  bootstrap proof on disk are left out.
\<close>

section \<open>State\<close>

record history_snapshot =
  hs_keys :: nat
  hs_active :: nat
  hs_sessions :: nat
  hs_remembered :: nat
  hs_claimed :: string
  hs_proof :: bool
  hs_exchange :: bool

record handover_deadline =
  hd_kind :: string
  hd_version :: string
  hd_opened :: string
  hd_expires :: string

record handover_state =
  ho_active :: "handover_deadline option"
  ho_seen :: "string list"

record auth_store =
  as_bound :: bool
  as_keys :: "api_key list"
  as_sessions :: "(string, ui_session) dict"
  as_claimed :: string
  as_deadline :: "handover_state option"
  as_deadline_loaded :: bool
  as_deadline_invalid :: bool
  as_activated :: bool
  as_proof :: "bootstrap_secret option"
  as_exchange :: "bootstrap_secret option"
  as_migrated_version :: string
  as_snapshot :: "history_snapshot option"
  as_history :: "(string \<times> string) list"

definition new_auth_store :: "bool \<Rightarrow> auth_store" where
  "new_auth_store bound = \<lparr>as_bound = bound, as_keys = [], as_sessions = [], as_claimed = [], as_deadline = None,
     as_deadline_loaded = False, as_deadline_invalid = False, as_activated = False, as_proof = None, as_exchange = None,
     as_migrated_version = [], as_snapshot = None, as_history = []\<rparr>"

datatype deadline_file = NoFile | BadFile | DocFile pyval

record auth_env =
  ae_now :: datetime
  ae_save_now :: datetime
  ae_saves :: bool
  ae_token :: string
  ae_uuid :: string
  ae_salt :: string
  ae_kdf :: kdf
  ae_file :: deadline_file
  ae_writes :: bool
  ae_sha256 :: "string \<Rightarrow> string"

type_synonym 'a auth_op = "auth_store \<Rightarrow> 'a result \<times> auth_store"

definition UI_SESSION_TTL :: nat where "UI_SESSION_TTL = 12 * 3600"
definition BOOTSTRAP_PROOF_TTL :: nat where "BOOTSTRAP_PROOF_TTL = 10 * 60"
definition BOOTSTRAP_EXCHANGE_TTL :: nat where "BOOTSTRAP_EXCHANGE_TTL = 5 * 60"

text \<open>Run an operation and, when it returns, go on with its value.\<close>

definition athen :: "'a auth_op \<Rightarrow> ('a \<Rightarrow> 'b auth_op) \<Rightarrow> 'b auth_op" where
  "athen p k st = (case p st of (Inl e, st') \<Rightarrow> (Inl e, st') | (Inr x, st') \<Rightarrow> k x st')"

section \<open>History and saving\<close>

definition record_event :: "string \<Rightarrow> string \<Rightarrow> auth_store \<Rightarrow> auth_store" where
  "record_event event reason st = (if as_bound st then st\<lparr>as_history := as_history st @ [(event, reason)]\<rparr> else st)"

definition history_snapshot_of :: "auth_store \<Rightarrow> history_snapshot" where
  "history_snapshot_of st = \<lparr>hs_keys = length (as_keys st), hs_active = length (filter (\<lambda>k. \<not> is_revoked k) (as_keys st)),
     hs_sessions = length (as_sessions st),
     hs_remembered = length (filter (\<lambda>(_, s). us_remembered s) (as_sessions st)),
     hs_claimed = as_claimed st, hs_proof = (as_proof st \<noteq> None), hs_exchange = (as_exchange st \<noteq> None)\<rparr>"

text \<open>Whether a session is over; an expiry time that is no time counts as over.\<close>

definition session_over :: "datetime \<Rightarrow> ui_session \<Rightarrow> bool result" where
  "session_over now s =
     (if us_remembered s then Inr False
      else case text_le (us_expires s) now of Inl ValueError \<Rightarrow> Inr True | r \<Rightarrow> r)"

fun expired_session_ids :: "datetime \<Rightarrow> (string, ui_session) dict \<Rightarrow> string list result" where
  "expired_session_ids now [] = Inr []"
| "expired_session_ids now ((secret, s) # sessions) =
     rbind (session_over now s) (\<lambda>over.
     rbind (expired_session_ids now sessions) (\<lambda>ids. Inr (if over then secret # ids else ids)))"

definition prune_expired_ui_sessions :: "datetime \<Rightarrow> unit auth_op" where
  "prune_expired_ui_sessions now st =
     (case expired_session_ids now (as_sessions st) of
        Inl e \<Rightarrow> (Inl e, st)
      | Inr ids \<Rightarrow> (Inr (), st\<lparr>as_sessions := fold dict_pop ids (as_sessions st)\<rparr>))"

definition clear_bootstrap_proof :: "string \<Rightarrow> auth_store \<Rightarrow> auth_store" where
  "clear_bootstrap_proof reason st =
     (if as_proof st = None then st else record_event ''bootstrap_proof_cleared'' reason (st\<lparr>as_proof := None\<rparr>))"

definition clear_bootstrap_exchange :: "string \<Rightarrow> auth_store \<Rightarrow> auth_store" where
  "clear_bootstrap_exchange reason st =
     (if as_exchange st = None then st else record_event ''bootstrap_exchange_cleared'' reason (st\<lparr>as_exchange := None\<rparr>))"

definition secret_over :: "datetime \<Rightarrow> bootstrap_secret \<Rightarrow> bool result" where
  "secret_over now b = (case text_le (bs_expires b) now of Inl ValueError \<Rightarrow> Inr True | r \<Rightarrow> r)"

definition prune_bootstrap_proof :: "datetime \<Rightarrow> unit auth_op" where
  "prune_bootstrap_proof now st =
     (case as_proof st of
        None \<Rightarrow> (Inr (), st)
      | Some b \<Rightarrow>
          (case secret_over now b of
             Inl e \<Rightarrow> (Inl e, st)
           | Inr over \<Rightarrow> (Inr (), if over then clear_bootstrap_proof ''expired'' st else st)))"

definition prune_bootstrap_exchange :: "datetime \<Rightarrow> unit auth_op" where
  "prune_bootstrap_exchange now st =
     (case as_exchange st of
        None \<Rightarrow> (Inr (), st)
      | Some b \<Rightarrow>
          (case secret_over now b of
             Inl e \<Rightarrow> (Inl e, st)
           | Inr over \<Rightarrow> (Inr (), if over then clear_bootstrap_exchange ''expired'' st else st)))"

text \<open>What \<open>to_str\<close> does to the store before it prints it.\<close>

definition prune_all :: "datetime \<Rightarrow> unit auth_op" where
  "prune_all now =
     athen (prune_expired_ui_sessions now) (\<lambda>_.
     athen (prune_bootstrap_proof now) (\<lambda>_. prune_bootstrap_exchange now))"

definition note_snapshot :: "auth_store \<Rightarrow> auth_store" where
  "note_snapshot st =
     (if Some (history_snapshot_of st) = as_snapshot st then st
      else (record_event ''store_saved'' ''persisted'' st)\<lparr>as_snapshot := Some (history_snapshot_of st)\<rparr>)"

definition save_store :: "auth_env \<Rightarrow> unit auth_op" where
  "save_store env st =
     (if \<not> as_bound st then (Inr (), st)
      else athen (prune_all (ae_save_now env)) (\<lambda>_ st'.
        if ae_saves env then (Inr (), note_snapshot st') else (Inl OSError, st')) st)"

text \<open>Save, record the event of the operation, and return its value.\<close>

definition save_and_record :: "auth_env \<Rightarrow> string \<Rightarrow> string \<Rightarrow> 'a \<Rightarrow> 'a auth_op" where
  "save_and_record env event reason x = athen (save_store env) (\<lambda>_ st. (Inr x, record_event event reason st))"

section \<open>API keys\<close>

text \<open>\<open>hmac.compare_digest\<close> of two texts, which have to be ASCII.\<close>

definition ascii_text :: "string \<Rightarrow> bool" where
  "ascii_text s = list_all (\<lambda>c. code_of c < 128) s"

definition compare_digest :: "string \<Rightarrow> string \<Rightarrow> bool result" where
  "compare_digest a b = (if ascii_text a \<and> ascii_text b then Inr (a = b) else Inl TypeError)"

definition get_api_key :: "string \<Rightarrow> auth_store \<Rightarrow> api_key option" where
  "get_api_key key_id st = find (\<lambda>k. ak_id k = key_id) (as_keys st)"

definition active_admin_key_count :: "auth_store \<Rightarrow> nat" where
  "active_admin_key_count st = length (filter (\<lambda>k. \<not> is_revoked k \<and> ''admin'' \<in> set (ak_scopes k)) (as_keys st))"

fun find_by_secret :: "kdf \<Rightarrow> string \<Rightarrow> api_key list \<Rightarrow> api_key option result" where
  "find_by_secret kdf secret [] = Inr None"
| "find_by_secret kdf secret (k # ks) =
     rbind (verify_secret kdf secret (ak_hash k)) (\<lambda>ok. if ok then Inr (Some k) else find_by_secret kdf secret ks)"

definition find_api_key_by_secret :: "kdf \<Rightarrow> string \<Rightarrow> auth_store \<Rightarrow> api_key option result" where
  "find_api_key_by_secret kdf secret st = find_by_secret kdf secret (as_keys st)"

definition blank_text :: "pyval \<Rightarrow> bool" where
  "blank_text v = (case v of PStr s \<Rightarrow> strip s = [] | _ \<Rightarrow> True)"

definition text_of :: "pyval \<Rightarrow> string" where
  "text_of v = (case v of PStr s \<Rightarrow> strip s | _ \<Rightarrow> [])"

definition create_api_key_record :: "auth_env \<Rightarrow> pyval \<Rightarrow> pyval \<Rightarrow> (api_key \<times> string) auth_op" where
  "create_api_key_record env name scopes st =
     (case normalize_scopes scopes of
        Inl e \<Rightarrow> (Inl e, st)
      | Inr normalized \<Rightarrow>
          if blank_text name then (Inl ValueError, st)
          else case hash_secret (ae_kdf env) (ae_salt env) (ae_token env) of
            Inl e \<Rightarrow> (Inl e, st)
          | Inr h \<Rightarrow>
              (let now = seconds_text (ae_now env);
                   record = \<lparr>ak_id = ae_uuid env, ak_name = text_of name, ak_scopes = normalized, ak_hash = h,
                     ak_created = now, ak_updated = now, ak_revoked = None\<rparr>
               in (Inr (record, ae_token env), st\<lparr>as_keys := as_keys st @ [record]\<rparr>)))"

definition create_api_key :: "auth_env \<Rightarrow> pyval \<Rightarrow> pyval \<Rightarrow> (api_key \<times> string) auth_op" where
  "create_api_key env name scopes =
     athen (create_api_key_record env name scopes) (\<lambda>(record, secret) st.
       save_and_record env ''api_key_created'' ''create_api_key'' (record, secret)
         (if ''admin'' \<in> set (ak_scopes record)
          then clear_bootstrap_exchange ''admin_api_key_created'' (clear_bootstrap_proof ''admin_api_key_created'' st)
          else st))"

text \<open>The record of an identifier is changed in place: it is the first one with the identifier.\<close>

fun change_key :: "string \<Rightarrow> (api_key \<Rightarrow> api_key) \<Rightarrow> api_key list \<Rightarrow> api_key list" where
  "change_key key_id f [] = []"
| "change_key key_id f (k # ks) = (if ak_id k = key_id then f k # ks else k # change_key key_id f ks)"

definition change_record :: "string \<Rightarrow> (api_key \<Rightarrow> api_key) \<Rightarrow> auth_store \<Rightarrow> auth_store" where
  "change_record key_id f st = st\<lparr>as_keys := change_key key_id f (as_keys st)\<rparr>"

definition update_reason :: "bool \<Rightarrow> bool \<Rightarrow> string" where
  "update_reason name_changed scopes_changed =
     (if name_changed \<and> scopes_changed then ''name_and_scopes_updated'' else if name_changed then ''name_updated''
      else if scopes_changed then ''scopes_updated'' else ''metadata_refreshed'')"

text \<open>The name is stored before the scopes are checked.\<close>

definition update_api_key :: "auth_env \<Rightarrow> string \<Rightarrow> pyval \<Rightarrow> pyval \<Rightarrow> api_key auth_op" where
  "update_api_key env key_id name scopes st =
     (case get_api_key key_id st of
        None \<Rightarrow> (Inl KeyError, st)
      | Some record \<Rightarrow>
          if is_revoked record then (Inl ValueError, st)
          else if name \<noteq> PNone \<and> blank_text name then (Inl ValueError, st)
          else
            (let record1 = (if name = PNone then record else record\<lparr>ak_name := text_of name\<rparr>);
                 st1 = change_record key_id (\<lambda>_. record1) st
             in case (if scopes = PNone then Inr (ak_scopes record) else normalize_scopes scopes) of
                  Inl e \<Rightarrow> (Inl e, st1)
                | Inr normalized \<Rightarrow>
                    (let record2 = record1\<lparr>ak_scopes := normalized, ak_updated := seconds_text (ae_now env)\<rparr>
                     in save_and_record env ''api_key_updated''
                          (update_reason (ak_name record1 \<noteq> ak_name record) (normalized \<noteq> ak_scopes record)) record2
                          (change_record key_id (\<lambda>_. record2) st1))))"

definition discard_browser_sessions_for_api_key :: "string \<Rightarrow> string \<Rightarrow> auth_store \<Rightarrow> auth_store" where
  "discard_browser_sessions_for_api_key key_id reason st =
     record_event ''ui_sessions_discarded'' reason
       (st\<lparr>as_sessions := fold dict_pop (map fst (filter (\<lambda>(_, s). us_key_id s = Some key_id) (as_sessions st))) (as_sessions st)\<rparr>)"

definition delete_api_key :: "auth_env \<Rightarrow> string \<Rightarrow> api_key auth_op" where
  "delete_api_key env key_id st =
     (case get_api_key key_id st of
        None \<Rightarrow> (Inl KeyError, st)
      | Some record \<Rightarrow>
          if \<not> is_revoked record then (Inl ValueError, st)
          else
            (let st1 = discard_browser_sessions_for_api_key (ak_id record) ''api_key_deleted'' st
             in save_and_record env ''api_key_deleted'' ''api_key_deleted'' record
                  (st1\<lparr>as_keys := remove1 record (as_keys st1)\<rparr>)))"

definition revoke_api_key :: "auth_env \<Rightarrow> string \<Rightarrow> api_key auth_op" where
  "revoke_api_key env key_id st =
     (case get_api_key key_id st of
        None \<Rightarrow> (Inl KeyError, st)
      | Some record \<Rightarrow>
          if is_revoked record then (Inl ValueError, st)
          else
            (let now = seconds_text (ae_now env);
                 record1 = record\<lparr>ak_revoked := Some now, ak_updated := now\<rparr>
             in save_and_record env ''api_key_revoked'' ''api_key_revoked'' record1
                  (discard_browser_sessions_for_api_key (ak_id record) ''api_key_revoked''
                    (change_record key_id (\<lambda>_. record1) st))))"

definition rotate_api_key :: "auth_env \<Rightarrow> string \<Rightarrow> (api_key \<times> string) auth_op" where
  "rotate_api_key env key_id st =
     (case get_api_key key_id st of
        None \<Rightarrow> (Inl KeyError, st)
      | Some record \<Rightarrow>
          if is_revoked record then (Inl ValueError, st)
          else case hash_secret (ae_kdf env) (ae_salt env) (ae_token env) of
            Inl e \<Rightarrow> (Inl e, st)
          | Inr h \<Rightarrow>
              (let record1 = record\<lparr>ak_hash := h, ak_updated := seconds_text (ae_now env)\<rparr>
               in save_and_record env ''api_key_rotated'' ''api_key_rotated'' (record1, ae_token env)
                    (change_record key_id (\<lambda>_. record1) st)))"

section \<open>Browser sessions\<close>

definition opt_text :: "pyval \<Rightarrow> string option" where
  "opt_text v = (case v of PStr s \<Rightarrow> Some (strip s) | _ \<Rightarrow> None)"

definition new_ui_session ::
  "auth_env \<Rightarrow> pyval \<Rightarrow> pyval \<Rightarrow> pyval \<Rightarrow> pyval \<Rightarrow> pyval \<Rightarrow> ui_session result" where
  "new_ui_session env scopes bootstrap api_key_id api_key_secret_hash remembered =
     rbind (normalize_scopes scopes) (\<lambda>normalized.
       case bootstrap of
         PBool boot \<Rightarrow>
           (if api_key_id \<noteq> PNone \<and> blank_text api_key_id then Inl ValueError
            else if api_key_secret_hash \<noteq> PNone \<and> blank_text api_key_secret_hash then Inl ValueError
            else case remembered of
              PBool keep \<Rightarrow>
                (if boot \<and> keep then Inl ValueError
                 else rbind (if keep then Inr [] else rbind (add_seconds UI_SESSION_TTL (ae_now env)) (\<lambda>t. Inr (seconds_text t))) (\<lambda>expires.
                   Inr \<lparr>us_secret = ae_token env, us_scopes = normalized, us_created = seconds_text (ae_now env),
                     us_expires = expires, us_bootstrap = boot, us_remembered = keep,
                     us_key_id = opt_text api_key_id, us_key_hash = opt_text api_key_secret_hash\<rparr>))
            | _ \<Rightarrow> Inl ValueError)
       | _ \<Rightarrow> Inl ValueError)"

definition create_ui_session ::
  "auth_env \<Rightarrow> pyval \<Rightarrow> pyval \<Rightarrow> pyval \<Rightarrow> pyval \<Rightarrow> pyval \<Rightarrow> ui_session auth_op" where
  "create_ui_session env scopes bootstrap api_key_id api_key_secret_hash remembered st =
     (case new_ui_session env scopes bootstrap api_key_id api_key_secret_hash remembered of
        Inl e \<Rightarrow> (Inl e, st)
      | Inr record \<Rightarrow>
          athen (prune_expired_ui_sessions (ae_now env)) (\<lambda>_.
            save_and_record env ''ui_session_created''
              (if us_remembered record then ''remembered_browser_session_created''
               else if us_bootstrap record then ''bootstrap_session_created'' else ''browser_session_created'') record)
            (st\<lparr>as_sessions := dict_set (us_secret record) record (as_sessions st)\<rparr>))"

definition create_session_for_key :: "auth_env \<Rightarrow> bool \<Rightarrow> pyval \<Rightarrow> ui_session auth_op" where
  "create_session_for_key env remembered key_id st =
     (case key_id of
        PStr s \<Rightarrow>
          (if strip s = [] then (Inl ValueError, st)
           else case get_api_key s st of
             None \<Rightarrow> (Inl KeyError, st)
           | Some record \<Rightarrow>
               if is_revoked record then (Inl ValueError, st)
               else create_ui_session env (PList (map PStr (ak_scopes record))) (PBool False)
                      (PStr (ak_id record)) (PStr (ak_hash record)) (PBool remembered) st)
      | _ \<Rightarrow> (Inl ValueError, st))"

definition create_browser_session_for_api_key :: "auth_env \<Rightarrow> pyval \<Rightarrow> ui_session auth_op" where
  "create_browser_session_for_api_key env = create_session_for_key env False"

definition create_remembered_browser_session_for_api_key :: "auth_env \<Rightarrow> pyval \<Rightarrow> ui_session auth_op" where
  "create_remembered_browser_session_for_api_key env = create_session_for_key env True"

definition find_ui_session_by_secret :: "auth_env \<Rightarrow> string \<Rightarrow> ui_session option auth_op" where
  "find_ui_session_by_secret env secret =
     athen (prune_expired_ui_sessions (ae_now env)) (\<lambda>_ st.
       case dict_get (as_sessions st) secret of
         None \<Rightarrow> (Inr None, st)
       | Some record \<Rightarrow>
           (case session_over (ae_now env) record of
              Inl e \<Rightarrow> (Inl e, st)
            | Inr True \<Rightarrow> (Inr None, st\<lparr>as_sessions := dict_pop secret (as_sessions st)\<rparr>)
            | Inr False \<Rightarrow> (Inr (Some record), st)))"

definition invalidate_ui_session :: "auth_env \<Rightarrow> pyval \<Rightarrow> unit auth_op" where
  "invalidate_ui_session env secret st =
     (case secret of
        PStr s \<Rightarrow>
          (if strip s = [] \<or> dict_get (as_sessions st) s = None then (Inr (), st)
           else save_store env (st\<lparr>as_sessions := dict_pop s (as_sessions st)\<rparr>))
      | _ \<Rightarrow> (Inr (), st))"

definition resolve_ui_session_api_key :: "ui_session \<Rightarrow> auth_store \<Rightarrow> api_key option result" where
  "resolve_ui_session_api_key session st =
     (case (us_key_id session, us_key_hash session) of
        (Some key_id, Some h) \<Rightarrow>
          (if strip key_id = [] \<or> strip h = [] then Inr None
           else case get_api_key key_id st of
             None \<Rightarrow> Inr None
           | Some record \<Rightarrow>
               if is_revoked record then Inr None
               else rbind (compare_digest (ak_hash record) h) (\<lambda>same. Inr (if same then Some record else None)))
      | _ \<Rightarrow> Inr None)"

section \<open>Bootstrap secrets\<close>

definition new_bootstrap_secret :: "auth_env \<Rightarrow> nat \<Rightarrow> bootstrap_secret result" where
  "new_bootstrap_secret env ttl =
     rbind (add_seconds ttl (ae_now env)) (\<lambda>t.
       Inr \<lparr>bs_secret = ae_token env, bs_created = seconds_text (ae_now env), bs_expires = seconds_text t\<rparr>)"

definition ensure_bootstrap_proof :: "auth_env \<Rightarrow> bootstrap_secret option auth_op" where
  "ensure_bootstrap_proof env =
     athen (prune_bootstrap_proof (ae_now env)) (\<lambda>_.
     athen (prune_bootstrap_exchange (ae_now env)) (\<lambda>_ st.
       if active_admin_key_count st > 0
       then (Inr None, clear_bootstrap_exchange ''active_admin_key_exists'' (clear_bootstrap_proof ''active_admin_key_exists'' st))
       else case as_proof st of
         Some b \<Rightarrow> (Inr (Some b), st)
       | None \<Rightarrow>
           (case new_bootstrap_secret env BOOTSTRAP_PROOF_TTL of
              Inl e \<Rightarrow> (Inl e, st)
            | Inr b \<Rightarrow> (Inr (Some b), record_event ''bootstrap_proof_created'' ''first_run_bootstrap_window_opened''
                                        (st\<lparr>as_proof := Some b\<rparr>)))))"

definition ensure_bootstrap_exchange :: "auth_env \<Rightarrow> bootstrap_secret option auth_op" where
  "ensure_bootstrap_exchange env =
     athen (prune_bootstrap_exchange (ae_now env)) (\<lambda>_ st.
       if active_admin_key_count st > 0 then (Inr None, clear_bootstrap_exchange ''active_admin_key_exists'' st)
       else case as_exchange st of
         Some b \<Rightarrow> (Inr (Some b), st)
       | None \<Rightarrow>
           (case new_bootstrap_secret env BOOTSTRAP_EXCHANGE_TTL of
              Inl e \<Rightarrow> (Inl e, st)
            | Inr b \<Rightarrow> (Inr (Some b), record_event ''bootstrap_exchange_created'' ''first_run_bootstrap_window_opened''
                                        (st\<lparr>as_exchange := Some b\<rparr>))))"

definition peek_bootstrap_proof :: "auth_env \<Rightarrow> pyval \<Rightarrow> bool auth_op" where
  "peek_bootstrap_proof env secret st =
     (if blank_text secret then (Inr False, st)
      else athen (prune_bootstrap_proof (ae_now env)) (\<lambda>_ st.
        (case as_proof st of None \<Rightarrow> Inr False | Some b \<Rightarrow> compare_digest (bs_secret b) (text_of secret), st)) st)"

definition peek_bootstrap_exchange :: "auth_env \<Rightarrow> pyval \<Rightarrow> bool auth_op" where
  "peek_bootstrap_exchange env secret st =
     (if blank_text secret then (Inr False, st)
      else athen (prune_bootstrap_exchange (ae_now env)) (\<lambda>_ st.
        (case as_exchange st of None \<Rightarrow> Inr False | Some b \<Rightarrow> compare_digest (bs_secret b) (text_of secret), st)) st)"

definition consume_bootstrap_proof :: "auth_env \<Rightarrow> pyval \<Rightarrow> bool auth_op" where
  "consume_bootstrap_proof env secret =
     athen (peek_bootstrap_proof env secret) (\<lambda>ok st.
       if ok then (Inr True, record_event ''bootstrap_proof_cleared'' ''consumed'' (st\<lparr>as_proof := None\<rparr>))
       else (Inr False, st))"

definition consume_bootstrap_exchange :: "auth_env \<Rightarrow> pyval \<Rightarrow> bool auth_op" where
  "consume_bootstrap_exchange env secret =
     athen (peek_bootstrap_exchange env secret) (\<lambda>ok st.
       if ok then (Inr True, record_event ''bootstrap_exchange_cleared'' ''consumed'' (st\<lparr>as_exchange := None\<rparr>))
       else (Inr False, st))"

end
