(* ===== verification/Auth_Handover.thy ===== *)
theory Auth_Handover
  imports Auth_Store
begin

text \<open>
  \<open>web/auth_store.py\<close>, part three: the browser handover, the window in which a browser may claim the
  first administrator key, or recover access under a configured recovery version.

  The deadline lives in a file of its own, as a JSON value; a file that is unsafe or no JSON is
  \<open>BadFile\<close>. The configuration is the value of its recovery version, or none when the caller has no
  configuration. Texts of at most \<^term>\<open>128::nat\<close> digests are below the limit of the file size, whose
  check is left out.
\<close>

section \<open>The file\<close>

definition SEEN_LIMIT :: nat where "SEEN_LIMIT = 128"
definition INITIAL_TTL :: nat where "INITIAL_TTL = 8 * 3600"
definition RECOVERY_TTL :: nat where "RECOVERY_TTL = 2 * 3600"

definition equals_int :: "pyval \<Rightarrow> int \<Rightarrow> bool" where
  "equals_int v n = (case v of PInt m \<Rightarrow> m = n | PBool b \<Rightarrow> (if b then 1 else 0) = n
     | PFloat (FFinite q) \<Rightarrow> q = of_int n | _ \<Rightarrow> False)"

definition is_sha256 :: "string \<Rightarrow> bool" where
  "is_sha256 s = (length s = 64 \<and> list_all (\<lambda>c. is_digit c \<or> c \<in> set ''abcdef'') s)"

definition get_text :: "(string, pyval) dict \<Rightarrow> string \<Rightarrow> string result" where
  "get_text d k = (case dict_get d k of Some (PStr s) \<Rightarrow> Inr s | _ \<Rightarrow> Inl TypeError)"

definition aware_instant :: "string \<Rightarrow> int result" where
  "aware_instant s = rbind (stamp_of_text s) (\<lambda>st. case st of Naive _ \<Rightarrow> Inl ValueError | Aware t offset \<Rightarrow> Inr (instant t offset))"

definition validate_browser_handover_deadline :: "pyval \<Rightarrow> handover_deadline result" where
  "validate_browser_handover_deadline v =
     (case v of
        PDict d \<Rightarrow>
          (if set (dict_keys d) \<noteq> {''kind'', ''version_sha256'', ''opened_at'', ''expires_at''} then Inl ValueError
           else rbind (get_text d ''kind'') (\<lambda>kind.
             if kind \<notin> {''initial'', ''recovery''} then Inl ValueError
             else rbind (get_text d ''version_sha256'') (\<lambda>version.
               if kind = ''initial'' \<and> version \<noteq> [] then Inl ValueError
               else if kind = ''recovery'' \<and> \<not> is_sha256 version then Inl ValueError
               else rbind (get_text d ''opened_at'') (\<lambda>opened.
                    rbind (get_text d ''expires_at'') (\<lambda>expires.
                    rbind (aware_instant opened) (\<lambda>a.
                    rbind (aware_instant expires) (\<lambda>b.
                      if b \<le> a then Inl ValueError
                      else Inr \<lparr>hd_kind = kind, hd_version = version, hd_opened = opened, hd_expires = expires\<rparr>)))))))
      | _ \<Rightarrow> Inl ValueError)"

definition get_or_none :: "(string, pyval) dict \<Rightarrow> string \<Rightarrow> pyval" where
  "get_or_none d k = (case dict_get d k of None \<Rightarrow> PNone | Some v \<Rightarrow> v)"

definition parse_legacy_deadline :: "(string \<Rightarrow> string) \<Rightarrow> (string, pyval) dict \<Rightarrow> handover_state result" where
  "parse_legacy_deadline sha256 raw =
     (if set (dict_keys raw) \<noteq> {''schema'', ''kind'', ''version'', ''opened_at'', ''expires_at''} then Inl ValueError
      else rbind (get_text raw ''kind'') (\<lambda>kind.
           rbind (get_text raw ''version'') (\<lambda>version.
             if kind \<notin> {''initial'', ''recovery''} then Inl ValueError
             else
               (let digest = (if kind = ''recovery'' then sha256 version else [])
                in rbind (validate_browser_handover_deadline (PDict [(''kind'', PStr kind), (''version_sha256'', PStr digest),
                     (''opened_at'', get_or_none raw ''opened_at''), (''expires_at'', get_or_none raw ''expires_at'')])) (\<lambda>active.
                   Inr \<lparr>ho_active = Some active, ho_seen = if kind = ''recovery'' then [digest] else []\<rparr>)))))"

fun read_seen :: "pyval list \<Rightarrow> string list result" where
  "read_seen [] = Inr []"
| "read_seen (v # vs) =
     (case v of PStr s \<Rightarrow> if is_sha256 s then rbind (read_seen vs) (\<lambda>r. Inr (s # r)) else Inl ValueError
      | _ \<Rightarrow> Inl ValueError)"

definition parse_deadline_state :: "(string \<Rightarrow> string) \<Rightarrow> pyval \<Rightarrow> handover_state result" where
  "parse_deadline_state sha256 v =
     (case v of
        PDict raw \<Rightarrow>
          (if equals_int (get_or_none raw ''schema'') 1 then parse_legacy_deadline sha256 raw
           else if set (dict_keys raw) \<noteq> {''schema'', ''active'', ''seen_recovery_versions''} \<or>
                   \<not> equals_int (get_or_none raw ''schema'') 2 then Inl ValueError
           else rbind (if get_or_none raw ''active'' = PNone then Inr None
                       else rbind (validate_browser_handover_deadline (get_or_none raw ''active'')) (\<lambda>a. Inr (Some a))) (\<lambda>active.
             case get_or_none raw ''seen_recovery_versions'' of
               PList vs \<Rightarrow>
                 rbind (read_seen vs) (\<lambda>seen.
                   if length seen > SEEN_LIMIT \<or> \<not> distinct seen then Inl ValueError
                   else Inr \<lparr>ho_active = active, ho_seen = seen\<rparr>)
             | _ \<Rightarrow> Inl ValueError))
      | _ \<Rightarrow> Inl ValueError)"

definition load_browser_handover_deadline :: "auth_env \<Rightarrow> auth_store \<Rightarrow> handover_state option \<times> auth_store" where
  "load_browser_handover_deadline env st =
     (if as_deadline_loaded st then (as_deadline st, st)
      else
        (let st1 = st\<lparr>as_deadline_loaded := True\<rparr> in
         if \<not> as_bound st then (None, st1)
         else case ae_file env of
           NoFile \<Rightarrow> (None, st1)
         | BadFile \<Rightarrow> (as_deadline st1, st1\<lparr>as_deadline_invalid := True\<rparr>)
         | DocFile v \<Rightarrow>
             (case parse_deadline_state (ae_sha256 env) v of
                Inl e \<Rightarrow> (as_deadline st1, st1\<lparr>as_deadline_invalid := True\<rparr>)
              | Inr state \<Rightarrow> (Some state, st1\<lparr>as_deadline := Some state\<rparr>))))"

definition write_browser_handover_deadline :: "auth_env \<Rightarrow> unit auth_op" where
  "write_browser_handover_deadline env st = (if as_bound st \<and> \<not> ae_writes env then Inl OSError else Inr (), st)"

section \<open>Closing the window\<close>

definition mark_browser_handover_claimed :: "auth_env \<Rightarrow> string \<Rightarrow> unit auth_op" where
  "mark_browser_handover_claimed env version st =
     (if \<not> as_deadline_loaded st \<or> as_deadline_invalid st then (Inr (), st)
      else case as_deadline st of
        None \<Rightarrow> (Inr (), st)
      | Some state \<Rightarrow>
          (case ho_active state of
             None \<Rightarrow> (Inr (), st)
           | Some active \<Rightarrow>
               if hd_version active \<noteq> (if hd_kind active = ''recovery'' then ae_sha256 env version else []) then (Inr (), st)
               else write_browser_handover_deadline env (st\<lparr>as_deadline := Some (state\<lparr>ho_active := None\<rparr>)\<rparr>)))"

definition finalize_browser_handover_claim :: "auth_env \<Rightarrow> pyval \<Rightarrow> bool auth_op" where
  "finalize_browser_handover_claim env version st =
     (case mark_browser_handover_claimed env (text_of version) st of
        (Inr (), st') \<Rightarrow> (Inr True, st')
      | (Inl OSError, st') \<Rightarrow> (Inr False, st')
      | (Inl ValueError, st') \<Rightarrow> (Inr False, st')
      | (Inl e, st') \<Rightarrow> (Inl e, st'))"

section \<open>The state of the window\<close>

record handover_payload =
  hp_configured :: string
  hp_claimed :: string
  hp_open :: bool
  hp_window_type :: "string option"
  hp_opened_at :: "string option"
  hp_expires_at :: "string option"
  hp_remaining :: int
  hp_expired :: bool
  hp_invalid :: bool
  hp_recovery_closed :: bool
  hp_history_full :: bool

definition remaining_seconds :: "string \<Rightarrow> datetime \<Rightarrow> int result" where
  "remaining_seconds expires now =
     rbind (stamp_of_text expires) (\<lambda>st. case st of
       Naive _ \<Rightarrow> Inl TypeError | Aware t offset \<Rightarrow> Inr (max 0 ((instant t offset - utc now) div 1000000)))"

definition handover_payload_of ::
  "string \<Rightarrow> handover_deadline option \<Rightarrow> datetime \<Rightarrow> bool \<Rightarrow> bool \<Rightarrow> bool \<Rightarrow> bool \<Rightarrow> bool \<Rightarrow> auth_store \<Rightarrow> handover_payload result" where
  "handover_payload_of version deadline now open_window expired invalid recovery_seen history_full st =
     rbind (case deadline of
              None \<Rightarrow> Inr (open_window, 0)
            | Some d \<Rightarrow>
                if open_window
                then (case remaining_seconds (hd_expires d) now of
                        Inl ValueError \<Rightarrow> Inr (False, 0) | Inl e \<Rightarrow> Inl e | Inr n \<Rightarrow> Inr (True, n))
                else Inr (False, 0)) (\<lambda>(opened, remaining).
       Inr \<lparr>hp_configured = version, hp_claimed = as_claimed st, hp_open = opened,
         hp_window_type = map_option hd_kind deadline, hp_opened_at = map_option hd_opened deadline,
         hp_expires_at = map_option hd_expires deadline, hp_remaining = remaining, hp_expired = expired,
         hp_invalid = invalid, hp_recovery_closed = recovery_seen, hp_history_full = history_full\<rparr>)"

definition deadline_expired :: "handover_deadline \<Rightarrow> datetime \<Rightarrow> bool result" where
  "deadline_expired d now = (case text_le (hd_expires d) now of Inl ValueError \<Rightarrow> Inr True | r \<Rightarrow> r)"

definition configured_version :: "pyval option \<Rightarrow> string" where
  "configured_version config = (case config of None \<Rightarrow> [] | Some v \<Rightarrow> text_of v)"

text \<open>The window that opens now: it is kept in memory before it is written.\<close>

definition open_window :: "auth_env \<Rightarrow> string \<Rightarrow> string \<Rightarrow> handover_state option \<Rightarrow> handover_deadline auth_op" where
  "open_window env kind version state st =
     (case add_seconds (if kind = ''recovery'' then RECOVERY_TTL else INITIAL_TTL) (ae_now env) of
        Inl e \<Rightarrow> (Inl e, st)
      | Inr t \<Rightarrow>
          (let deadline = \<lparr>hd_kind = kind, hd_version = version, hd_opened = seconds_text (ae_now env), hd_expires = seconds_text t\<rparr>;
               old = (case state of None \<Rightarrow> \<lparr>ho_active = None, ho_seen = []\<rparr> | Some s \<Rightarrow> s);
               new = old\<lparr>ho_active := Some deadline, ho_seen := if kind = ''recovery'' then ho_seen old @ [version] else ho_seen old\<rparr>
           in athen (write_browser_handover_deadline env) (\<lambda>_ st'. (Inr deadline, st'))
                (st\<lparr>as_deadline := Some new, as_deadline_invalid := False\<rparr>)))"

definition window_matches :: "handover_state option \<Rightarrow> string \<Rightarrow> string \<Rightarrow> bool" where
  "window_matches state kind version =
     (case state of None \<Rightarrow> False
      | Some s \<Rightarrow> (case ho_active s of None \<Rightarrow> False | Some d \<Rightarrow> hd_kind d = kind \<and> hd_version d = version))"

definition active_window :: "handover_state option \<Rightarrow> handover_deadline option" where
  "active_window state = (case state of None \<Rightarrow> None | Some s \<Rightarrow> ho_active s)"

definition seen_versions :: "handover_state option \<Rightarrow> string list" where
  "seen_versions state = (case state of None \<Rightarrow> [] | Some s \<Rightarrow> ho_seen s)"

text \<open>Whether the window in question has expired.\<close>

definition window_expired :: "bool \<Rightarrow> handover_state option \<Rightarrow> datetime \<Rightarrow> bool result" where
  "window_expired matching state now =
     (case active_window state of None \<Rightarrow> Inr False | Some d \<Rightarrow> if matching then deadline_expired d now else Inr False)"

text \<open>The window of the wanted kind, opened when it may be.\<close>

definition handover_window ::
  "auth_env \<Rightarrow> string \<Rightarrow> bool \<Rightarrow> bool \<Rightarrow> bool \<Rightarrow> handover_state option \<Rightarrow> handover_payload auth_op" where
  "handover_window env version recovery activate reopen_initial state st =
     (let kind = (if recovery then ''recovery'' else ''initial'');
          wanted = (if recovery then ae_sha256 env version else []);
          invalid = as_deadline_invalid st;
          matching = window_matches state kind wanted;
          seen = (recovery \<and> wanted \<in> set (seen_versions state));
          full = (recovery \<and> \<not> matching \<and> \<not> seen \<and> length (seen_versions state) \<ge> SEEN_LIMIT)
      in case window_expired matching state (ae_now env) of
           Inl e \<Rightarrow> (Inl e, st)
         | Inr expired \<Rightarrow>
             if \<not> invalid \<and> ((\<not> matching \<and> \<not> seen \<and> \<not> full) \<or> (\<not> recovery \<and> expired \<and> reopen_initial)) \<and>
                (activate \<or> (recovery \<and> as_activated st))
             then athen (open_window env kind wanted state)
                    (\<lambda>deadline st'. (handover_payload_of version (Some deadline) (ae_now env) True False invalid seen full st', st')) st
             else (handover_payload_of version (if matching then active_window state else None) (ae_now env)
                     (matching \<and> \<not> expired \<and> \<not> invalid) expired invalid seen full st, st))"

definition wants_recovery :: "string \<Rightarrow> pyval option \<Rightarrow> auth_store \<Rightarrow> bool" where
  "wants_recovery version config st =
     (active_admin_key_count st > 0 \<and> version \<noteq> as_claimed st \<and> (configured_version config \<noteq> [] \<or> config = None))"

definition browser_handover_state ::
  "auth_env \<Rightarrow> string \<Rightarrow> pyval option \<Rightarrow> bool \<Rightarrow> bool \<Rightarrow> handover_payload auth_op" where
  "browser_handover_state env version config activate reopen_initial st =
     (let recovery = wants_recovery version config st;
          (state, st1) = load_browser_handover_deadline env st
      in if \<not> recovery \<and> active_admin_key_count st > 0 then
           athen (if activate then finalize_browser_handover_claim env (PStr version) else (\<lambda>st. (Inr True, st)))
             (\<lambda>_ st2. (handover_payload_of version None (ae_now env) False False (as_deadline_invalid st1) False False st2, st2)) st1
         else handover_window env version recovery activate reopen_initial state st1)"

definition effective_browser_handover_version :: "pyval option \<Rightarrow> auth_store \<Rightarrow> string" where
  "effective_browser_handover_version config st =
     (if configured_version config \<noteq> [] then configured_version config else as_migrated_version st)"

definition get_browser_handover_state :: "auth_env \<Rightarrow> pyval option \<Rightarrow> handover_payload auth_op" where
  "get_browser_handover_state env config st =
     browser_handover_state env (effective_browser_handover_version config st) config False False st"

definition activate_browser_handover :: "auth_env \<Rightarrow> pyval option \<Rightarrow> handover_payload auth_op" where
  "activate_browser_handover env config st =
     browser_handover_state env (effective_browser_handover_version config st) config True (\<not> as_activated st)
       (st\<lparr>as_activated := True\<rparr>)"

section \<open>Claiming\<close>

definition can_claim_initial_admin :: "auth_env \<Rightarrow> pyval \<Rightarrow> pyval option \<Rightarrow> bool auth_op" where
  "can_claim_initial_admin env version config =
     athen (browser_handover_state env (text_of version) config False False) (\<lambda>state st.
       (Inr (if as_activated st \<or> hp_invalid state \<or> hp_expires_at state \<noteq> None then hp_open state
             else active_admin_key_count st = 0 \<or> as_claimed st \<noteq> text_of version), st))"

definition note_claimed :: "string \<Rightarrow> auth_store \<Rightarrow> auth_store" where
  "note_claimed version st = (if as_migrated_version st = [] then st\<lparr>as_claimed := version\<rparr> else st)"

definition claim_initial_admin_if_available :: "auth_env \<Rightarrow> pyval \<Rightarrow> bool auth_op" where
  "claim_initial_admin_if_available env version =
     athen (can_claim_initial_admin env (PStr (text_of version)) None) (\<lambda>ok st.
       if \<not> ok then (Inr False, st)
       else athen (save_store env) (\<lambda>_.
            athen (finalize_browser_handover_claim env (PStr (text_of version))) (\<lambda>_ st.
              (Inr True, record_event ''browser_handover_claimed'' ''initial_admin_claimed'' st)))
            (note_claimed (text_of version) st))"

definition create_initial_admin_api_key_if_available :: "auth_env \<Rightarrow> pyval \<Rightarrow> pyval \<Rightarrow> (api_key \<times> string) option auth_op" where
  "create_initial_admin_api_key_if_available env version name =
     athen (can_claim_initial_admin env (PStr (text_of version)) None) (\<lambda>ok st.
       if \<not> ok then (Inr None, st)
       else athen (create_api_key_record env name (PList [PStr ''admin''])) (\<lambda>created st.
            athen (save_store env) (\<lambda>_.
            athen (finalize_browser_handover_claim env (PStr (text_of version))) (\<lambda>_ st.
              (Inr (Some created), record_event ''api_key_created'' ''initial_admin_created'' st)))
            (clear_bootstrap_exchange ''admin_api_key_created'' (clear_bootstrap_proof ''admin_api_key_created''
              (note_claimed (text_of version) st)))) st)"

end
