(* ===== verification/Web_Gate.thy ===== *)
theory Web_Gate
  imports Auth_Handover
begin

text \<open>
  \<open>web/web_app.py\<close>: the gate in front of every route under \<open>/server\<close>.

  A request is what the gate reads of Bottle's request object: its headers (a missing one is the empty
  text), cookies and WSGI variables. Bottle's router is the argument that gives the matched route, or
  nothing where it raises; \<open>urlparse\<close> and \<open>ipaddress\<close> are the arguments \<open>urlparse\<close> (an error where it
  raises \<open>ValueError\<close>) and \<open>loopback\<close>. The authentication store may be missing; the calls on it are those
  of \<open>Auth_Store\<close> and \<open>Auth_Handover\<close>, so a gate changes the store the way they do. Once the early
  return of the compatibility mode is passed, that mode is off, so its second branch further down is
  never reached and is left out.
\<close>

section \<open>Data\<close>

record parsed_url =
  pu_scheme :: string
  pu_hostname :: "string option"
  pu_port :: "int option result"
  pu_username :: "string option"
  pu_password :: "string option"
  pu_path :: string
  pu_params :: string
  pu_query :: string
  pu_fragment :: string

type_synonym origin = "string \<times> string \<times> int"

record web_request =
  rq_path :: string
  rq_method :: string
  rq_url :: string
  rq_scheme :: "string option"
  rq_remote_addr :: "string option"
  rq_header :: "string \<Rightarrow> string"
  rq_cookie :: "string \<Rightarrow> string option"

record route_config =
  rt_rule :: string
  rt_required_scope :: "string option"
  rt_sessionless_ui :: bool
  rt_first_admin :: bool
  rt_proof_exchange :: bool
  rt_api_key_entry :: bool
  rt_always_auth :: bool

record web_env =
  we_urlparse :: "string \<Rightarrow> parsed_url result"
  we_loopback :: "string \<Rightarrow> bool"
  we_route :: "web_request \<Rightarrow> route_config option"
  we_allowed_hostname :: string
  we_disable_browser_auth :: bool
  we_config :: "pyval option"
  we_auth :: auth_env

datatype gate_outcome = Pass | Abort nat | Redirect string

definition AUTH_SCOPES :: "string set" where
  "AUTH_SCOPES = {''read'', ''write'', ''stream'', ''admin''}"

section \<open>Hosts and origins\<close>

definition is_server_path :: "string \<Rightarrow> bool" where
  "is_server_path path = (path = ''/server'' \<or> startswith path ''/server/'')"

text \<open>\<open>s.rsplit(":", 1)[0]\<close> of a text with a colon.\<close>

definition before_last_colon :: "string \<Rightarrow> string" where
  "before_last_colon s = rev (drop 1 (dropWhile (\<lambda>c. c \<noteq> CHR '':'') (rev s)))"

definition strip_host_port :: "string \<Rightarrow> string" where
  "strip_host_port host =
     (if CHR '':'' \<in> set host \<and> \<not> startswith host ''['' then before_last_colon host
      else if startswith host ''['' \<and> is_substring '']:'' host then before_last_colon host
      else host)"

definition normalize_hostname :: "string \<Rightarrow> string" where
  "normalize_hostname host =
     (let lowered = lower (strip host);
          normalized = (if endswith lowered ''.'' then butlast lowered else lowered)
      in if startswith normalized ''['' \<and> endswith normalized '']'' then normalized
         else if CHR '':'' \<in> set normalized then ''['' @ normalized @ '']''
         else normalized)"

definition request_host :: "web_request \<Rightarrow> string" where
  "request_host rq = normalize_hostname (strip_host_port (rq_header rq ''Host''))"

definition extract_bearer_token :: "web_request \<Rightarrow> string option" where
  "extract_bearer_token rq =
     (let auth_header = strip (rq_header rq ''Authorization'')
      in if \<not> startswith auth_header ''Bearer '' then None
         else (let token = strip (drop 7 auth_header) in if token = [] then None else Some token))"

definition has_bearer_authorization_header :: "web_request \<Rightarrow> bool" where
  "has_bearer_authorization_header rq =
     (let auth_header = strip (rq_header rq ''Authorization'') in auth_header = ''Bearer'' \<or> startswith auth_header ''Bearer '')"

definition request_remote_addr :: "web_request \<Rightarrow> string" where
  "request_remote_addr rq = (case rq_remote_addr rq of None \<Rightarrow> [] | Some s \<Rightarrow> strip s)"

definition bare_authority :: "parsed_url \<Rightarrow> bool" where
  "bare_authority u =
     (pu_username u = None \<and> pu_password u = None \<and> pu_path u = [] \<and> pu_params u = [] \<and> pu_query u = [] \<and> pu_fragment u = [])"

definition request_forwarded_proto :: "web_request \<Rightarrow> string option" where
  "request_forwarded_proto rq =
     (let raw = lower (strip (rq_header rq ''X-Forwarded-Proto''))
      in if raw = [] \<or> CHR '','' \<in> set raw then None else if raw \<notin> {''http'', ''https''} then None else Some raw)"

definition request_forwarded_host :: "web_env \<Rightarrow> web_request \<Rightarrow> string option result" where
  "request_forwarded_host env rq =
     (let raw = strip (rq_header rq ''X-Forwarded-Host'')
      in if raw = [] \<or> CHR '','' \<in> set raw \<or> is_substring ''://'' raw then Inr None
         else rbind (we_urlparse env (''//'' @ raw)) (\<lambda>u.
           Inr (if pu_hostname u \<in> {None, Some []} \<or> \<not> bare_authority u then None else Some raw)))"

definition has_proxy_forwarding_headers :: "web_request \<Rightarrow> bool" where
  "has_proxy_forwarding_headers rq =
     list_ex (\<lambda>h. strip (rq_header rq h) \<noteq> []) [''Forwarded'', ''X-Forwarded-For'', ''X-Forwarded-Host'', ''X-Forwarded-Proto'']"

definition default_port :: "string \<Rightarrow> int option" where
  "default_port scheme = (if scheme = ''http'' then Some 80 else if scheme = ''https'' then Some 443 else None)"

definition request_forwarded_origin :: "web_env \<Rightarrow> web_request \<Rightarrow> origin option result" where
  "request_forwarded_origin env rq =
     rbind (request_forwarded_host env rq) (\<lambda>forwarded_host.
       case (request_forwarded_proto rq, forwarded_host) of
         (Some proto, Some host) \<Rightarrow>
           rbind (we_urlparse env (proto @ ''://'' @ host)) (\<lambda>u.
             case pu_hostname u of
               None \<Rightarrow> Inr None
             | Some name \<Rightarrow>
                 if pu_scheme u = [] \<or> name = [] \<or> \<not> bare_authority u then Inr None
                 else
                   (let scheme = lower (strip (pu_scheme u))
                    in if scheme \<notin> {''http'', ''https''} then Inr None
                       else case pu_port u of
                         Inl _ \<Rightarrow> Inr None
                       | Inr port \<Rightarrow>
                           Inr (Some (scheme, normalize_hostname name,
                             case port of Some n \<Rightarrow> n | None \<Rightarrow> if scheme = ''http'' then 80 else 443))))
       | _ \<Rightarrow> Inr None)"

definition parse_origin :: "web_env \<Rightarrow> string \<Rightarrow> origin option result" where
  "parse_origin env raw =
     (if strip raw = [] then Inr None
      else rbind (we_urlparse env (strip raw)) (\<lambda>u.
        case pu_hostname u of
          None \<Rightarrow> Inr None
        | Some name \<Rightarrow>
            if pu_scheme u = [] \<or> name = [] then Inr None
            else
              (let scheme = lower (strip (pu_scheme u))
               in if scheme = [] then Inr None
                  else case pu_port u of
                    Inl _ \<Rightarrow> Inr None
                  | Inr port \<Rightarrow>
                      (case (case port of Some n \<Rightarrow> Some n | None \<Rightarrow> default_port scheme) of
                         None \<Rightarrow> Inr None
                       | Some n \<Rightarrow> Inr (Some (scheme, normalize_hostname name, n))))))"

definition parse_browser_origin_header :: "web_env \<Rightarrow> string \<Rightarrow> origin option result" where
  "parse_browser_origin_header env raw =
     (if strip raw = [] then Inr None
      else if raw \<noteq> strip raw then Inr None
      else rbind (we_urlparse env raw) (\<lambda>u.
        if \<not> bare_authority u \<or> CHR ''?'' \<in> set raw \<or> CHR ''#'' \<in> set raw then Inr None else parse_origin env raw))"

definition effective_request_origin :: "web_env \<Rightarrow> web_request \<Rightarrow> origin option result" where
  "effective_request_origin env rq =
     rbind (if strip (rq_url rq) = [] then Inr None else parse_origin env (rq_url rq)) (\<lambda>request_origin.
       if request_origin = None then Inr None
       else rbind (request_forwarded_origin env rq) (\<lambda>forwarded_origin.
         Inr (case forwarded_origin of Some x \<Rightarrow> Some x | None \<Rightarrow> request_origin)))"

definition request_local_origin :: "web_env \<Rightarrow> web_request \<Rightarrow> origin option result" where
  "request_local_origin env rq =
     (case rq_scheme rq of
        None \<Rightarrow> Inr None
      | Some raw \<Rightarrow>
          (let scheme = lower (strip raw); host = rq_header rq ''Host''
           in if scheme \<notin> {''http'', ''https''} then Inr None
              else if strip host = [] then Inr None
              else parse_origin env (scheme @ ''://'' @ strip host)))"

text \<open>The origin a browser states: \<open>Origin\<close>, or else \<open>Referer\<close>.\<close>

definition stated_origin :: "web_env \<Rightarrow> web_request \<Rightarrow> origin option result" where
  "stated_origin env rq =
     rbind (parse_origin env (rq_header rq ''Origin'')) (\<lambda>origin.
       case origin of Some x \<Rightarrow> Inr (Some x) | None \<Rightarrow> parse_origin env (rq_header rq ''Referer''))"

definition is_direct_same_origin_browser_request :: "web_env \<Rightarrow> web_request \<Rightarrow> bool result" where
  "is_direct_same_origin_browser_request env rq =
     rbind (request_local_origin env rq) (\<lambda>request_origin.
       if request_origin = None then Inr False
       else rbind (stated_origin env rq) (\<lambda>stated. Inr (stated = request_origin)))"

definition is_same_origin_browser_request :: "web_env \<Rightarrow> web_request \<Rightarrow> bool result" where
  "is_same_origin_browser_request env rq =
     rbind (effective_request_origin env rq) (\<lambda>request_origin.
       if request_origin = None then Inr False
       else (let site = lower (strip (rq_header rq ''Sec-Fetch-Site''))
             in if site \<noteq> [] \<and> site \<notin> {''same-origin'', ''none''} then Inr False
                else rbind (stated_origin env rq) (\<lambda>stated. Inr (stated = request_origin))))"

text \<open>\<open>str.upper\<close> on the letters of ASCII; no other character up to 255 becomes one of them, and what the
  others become is in none of the words compared.\<close>

definition ascii_upper :: "string \<Rightarrow> string" where
  "ascii_upper = map (\<lambda>c. let n = code_of c in if 97 \<le> n \<and> n \<le> 122 then char_of (n - 32) else c)"

definition is_unsafe_request :: "web_request \<Rightarrow> bool" where
  "is_unsafe_request rq = (ascii_upper (rq_method rq) \<notin> {''GET'', ''HEAD'', ''OPTIONS''})"

definition hostile_header :: "web_env \<Rightarrow> origin option \<Rightarrow> string \<Rightarrow> bool \<Rightarrow> bool result" where
  "hostile_header env request_origin raw is_origin =
     (if strip raw = [] then Inr False
      else if lower (strip raw) = ''null'' then Inr True
      else rbind (if is_origin then parse_browser_origin_header env raw else parse_origin env raw) (\<lambda>parsed.
        Inr (request_origin = None \<or> parsed = None \<or> parsed \<noteq> request_origin)))"

definition has_hostile_browser_origin_signal :: "web_env \<Rightarrow> web_request \<Rightarrow> bool result" where
  "has_hostile_browser_origin_signal env rq =
     (let site = lower (strip (rq_header rq ''Sec-Fetch-Site''))
      in if site \<noteq> [] \<and> site \<notin> {''same-origin'', ''none''} then Inr True
         else rbind (effective_request_origin env rq) (\<lambda>request_origin.
           rbind (hostile_header env request_origin (rq_header rq ''Origin'') True) (\<lambda>hostile.
             if hostile then Inr True else hostile_header env request_origin (rq_header rq ''Referer'') False)))"

definition is_loopback_host :: "string \<Rightarrow> bool" where
  "is_loopback_host host = (host \<in> {''localhost'', ''127.0.0.1'', ''[::1]''})"

definition is_loopback_remote_addr :: "web_env \<Rightarrow> web_request \<Rightarrow> bool" where
  "is_loopback_remote_addr env rq = (request_remote_addr rq \<noteq> [] \<and> we_loopback env (request_remote_addr rq))"

section \<open>Operations on a store that may be missing\<close>

type_synonym 'a gate_op = "auth_store option \<Rightarrow> 'a result \<times> auth_store option"

definition gthen :: "'a gate_op \<Rightarrow> ('a \<Rightarrow> 'b gate_op) \<Rightarrow> 'b gate_op" where
  "gthen p k st = (case p st of (Inl e, st') \<Rightarrow> (Inl e, st') | (Inr x, st') \<Rightarrow> k x st')"

definition greturn :: "'a \<Rightarrow> 'a gate_op" where
  "greturn x st = (Inr x, st)"

definition glift :: "'a result \<Rightarrow> 'a gate_op" where
  "glift r st = (r, st)"

text \<open>A call on the store; without a store the given value.\<close>

definition on_store :: "'a \<Rightarrow> 'a auth_op \<Rightarrow> 'a gate_op" where
  "on_store dflt p st = (case st of None \<Rightarrow> (Inr dflt, None) | Some a \<Rightarrow> (let (r, a') = p a in (r, Some a')))"

text \<open>\<open>flag and check()\<close>: the check is made only under the flag.\<close>

definition gwhen :: "bool \<Rightarrow> bool gate_op \<Rightarrow> bool gate_op" where
  "gwhen flag p = (if flag then p else greturn False)"

section \<open>Sessions and scopes\<close>

definition truthy :: "string option \<Rightarrow> bool" where
  "truthy s = (s \<noteq> None \<and> s \<noteq> Some [])"

definition effective_scopes :: "string list \<Rightarrow> string set" where
  "effective_scopes scopes = (if ''admin'' \<in> set scopes then set scopes \<union> AUTH_SCOPES else set scopes)"

definition authorize_scopes :: "string \<Rightarrow> string list \<Rightarrow> gate_outcome" where
  "authorize_scopes required scopes = (if required \<in> effective_scopes scopes then Pass else Abort 403)"

definition session_in_use :: "web_env \<Rightarrow> string \<Rightarrow> ui_session \<Rightarrow> ui_session option auth_op" where
  "session_in_use env secret session st =
     (if truthy (us_key_id session)
      then (case resolve_ui_session_api_key session st of
              Inl e \<Rightarrow> (Inl e, st)
            | Inr None \<Rightarrow> athen (invalidate_ui_session (we_auth env) (PStr secret)) (\<lambda>_ st. (Inr None, st)) st
            | Inr (Some _) \<Rightarrow> (Inr (Some session), st))
      else if us_bootstrap session then (Inr (Some session), st)
      else athen (invalidate_ui_session (we_auth env) (PStr secret)) (\<lambda>_ st. (Inr None, st)) st)"

definition get_ui_session :: "web_env \<Rightarrow> web_request \<Rightarrow> ui_session option gate_op" where
  "get_ui_session env rq =
     (case rq_cookie rq ''seedsync_ui_session'' of
        None \<Rightarrow> greturn None
      | Some secret \<Rightarrow>
          if strip secret = [] then greturn None
          else on_store None (athen (find_ui_session_by_secret (we_auth env) secret) (\<lambda>session st.
            case session of None \<Rightarrow> (Inr None, st) | Some u \<Rightarrow> session_in_use env secret u st)))"

definition session_scopes :: "ui_session \<Rightarrow> string list option auth_op" where
  "session_scopes session st =
     (if truthy (us_key_id session)
      then (rbind (resolve_ui_session_api_key session st) (\<lambda>k. Inr (map_option ak_scopes k)), st)
      else if us_bootstrap session then (Inr (Some (us_scopes session)), st)
      else (Inr None, st))"

definition get_ui_session_scopes :: "web_env \<Rightarrow> web_request \<Rightarrow> string list option gate_op" where
  "get_ui_session_scopes env rq =
     gthen (get_ui_session env rq) (\<lambda>session.
       case session of None \<Rightarrow> greturn None | Some u \<Rightarrow> on_store None (session_scopes u))"

definition request_auth_scopes :: "web_env \<Rightarrow> web_request \<Rightarrow> string set gate_op" where
  "request_auth_scopes env rq =
     (if we_disable_browser_auth env then greturn AUTH_SCOPES
      else gthen (case extract_bearer_token rq of
                    None \<Rightarrow> greturn None
                  | Some token \<Rightarrow> on_store None (\<lambda>st. (find_api_key_by_secret (ae_kdf (we_auth env)) token st, st))) (\<lambda>record.
        case record of
          Some k \<Rightarrow>
            if is_revoked k then gthen (get_ui_session_scopes env rq) (\<lambda>scopes. greturn (effective_scopes (case scopes of None \<Rightarrow> [] | Some xs \<Rightarrow> xs)))
            else greturn (effective_scopes (ak_scopes k))
        | None \<Rightarrow> gthen (get_ui_session_scopes env rq) (\<lambda>scopes. greturn (effective_scopes (case scopes of None \<Rightarrow> [] | Some xs \<Rightarrow> xs)))))"

section \<open>The exceptions of a route\<close>

definition allow_first_admin_bootstrap :: "web_env \<Rightarrow> web_request \<Rightarrow> bool gate_op" where
  "allow_first_admin_bootstrap env rq =
     gthen (on_store False (\<lambda>st.
       can_claim_initial_admin (we_auth env) (PStr (effective_browser_handover_version (we_config env) st)) (we_config env) st)) (\<lambda>claimable.
       if claimable then glift (is_same_origin_browser_request env rq) else greturn False)"

definition allow_browser_api_key_entry :: "web_env \<Rightarrow> web_request \<Rightarrow> bool gate_op" where
  "allow_browser_api_key_entry env rq = glift (is_same_origin_browser_request env rq)"

definition no_active_admin :: "auth_store option \<Rightarrow> bool" where
  "no_active_admin st = opt_holds (\<lambda>a. active_admin_key_count a = 0) st"

definition allow_sessionless_ui_route :: "web_env \<Rightarrow> web_request \<Rightarrow> bool gate_op" where
  "allow_sessionless_ui_route env rq st =
     (if no_active_admin st \<and> is_loopback_remote_addr env rq \<and> \<not> has_proxy_forwarding_headers rq \<and> is_loopback_host (request_host rq)
      then glift (is_direct_same_origin_browser_request env rq) st else (Inr False, st))"

definition allow_bootstrap_proof_exchange :: "web_env \<Rightarrow> web_request \<Rightarrow> bool gate_op" where
  "allow_bootstrap_proof_exchange env rq st =
     (if \<not> no_active_admin st then (Inr False, st)
      else gthen (glift (is_same_origin_browser_request env rq)) (\<lambda>same.
        if \<not> same then greturn False
        else case rq_cookie rq ''seedsync_bootstrap_exchange'' of
          None \<Rightarrow> greturn False
        | Some secret \<Rightarrow>
            if strip secret = [] then greturn False
            else on_store False (peek_bootstrap_exchange (we_auth env) (PStr (strip secret)))) st)"

definition is_browser_handover_open :: "web_env \<Rightarrow> bool gate_op" where
  "is_browser_handover_open env =
     on_store False (athen (get_browser_handover_state (we_auth env) (we_config env)) (\<lambda>state st. (Inr (hp_open state), st)))"

section \<open>Authorization\<close>

definition authorize_key :: "web_env \<Rightarrow> string \<Rightarrow> string \<Rightarrow> gate_outcome gate_op" where
  "authorize_key env required token =
     gthen (on_store None (\<lambda>st. (find_api_key_by_secret (ae_kdf (we_auth env)) token st, st))) (\<lambda>record.
       case record of
         None \<Rightarrow> greturn (Abort 401)
       | Some k \<Rightarrow> if is_revoked k then greturn (Abort 403) else greturn (authorize_scopes required (ak_scopes k)))"

definition authorize_session :: "web_env \<Rightarrow> web_request \<Rightarrow> string \<Rightarrow> string list \<Rightarrow> gate_outcome gate_op" where
  "authorize_session env rq required scopes =
     gthen (if required \<in> {''write'', ''admin''} then glift (is_same_origin_browser_request env rq) else greturn True) (\<lambda>same.
       if \<not> same then greturn (Abort 403) else greturn (authorize_scopes required scopes))"

text \<open>\<open>if check(): return\<close>, and otherwise go on.\<close>

definition pass_or :: "bool gate_op \<Rightarrow> gate_outcome gate_op \<Rightarrow> gate_outcome gate_op" where
  "pass_or p q = gthen p (\<lambda>ok. if ok then greturn Pass else q)"

definition authorize_sessionless :: "web_env \<Rightarrow> web_request \<Rightarrow> route_config \<Rightarrow> gate_outcome gate_op" where
  "authorize_sessionless env rq route =
     pass_or (gwhen (rt_sessionless_ui route) (allow_sessionless_ui_route env rq))
       (pass_or (gwhen (rt_api_key_entry route) (allow_browser_api_key_entry env rq)) (greturn (Abort 401)))"

definition authorize_cookie :: "web_env \<Rightarrow> web_request \<Rightarrow> route_config \<Rightarrow> string \<Rightarrow> gate_outcome gate_op" where
  "authorize_cookie env rq route required =
     gthen (get_ui_session env rq) (\<lambda>session.
     gthen (is_browser_handover_open env) (\<lambda>open_now.
       if open_now \<and> opt_holds (\<lambda>u. \<not> us_bootstrap u) session then greturn (Redirect ''/bootstrap'')
       else gthen (get_ui_session_scopes env rq) (\<lambda>scopes.
         case scopes of
           Some xs \<Rightarrow> authorize_session env rq required xs
         | None \<Rightarrow> authorize_sessionless env rq route)))"

definition authorize_browser :: "web_env \<Rightarrow> web_request \<Rightarrow> route_config \<Rightarrow> string \<Rightarrow> gate_outcome gate_op" where
  "authorize_browser env rq route required =
     pass_or (gwhen (rt_proof_exchange route) (allow_bootstrap_proof_exchange env rq))
       (pass_or (gwhen (rt_first_admin route) (allow_first_admin_bootstrap env rq)) (authorize_cookie env rq route required))"

definition authorize_server_route :: "web_env \<Rightarrow> web_request \<Rightarrow> route_config \<Rightarrow> string \<Rightarrow> gate_outcome gate_op" where
  "authorize_server_route env rq route required =
     (if we_disable_browser_auth env \<and> \<not> rt_always_auth route
      then gthen (if is_unsafe_request rq then glift (has_hostile_browser_origin_signal env rq) else greturn False) (\<lambda>hostile.
        if hostile then greturn (Abort 403) else greturn Pass)
      else case extract_bearer_token rq of
        Some token \<Rightarrow> authorize_key env required token
      | None \<Rightarrow> if has_bearer_authorization_header rq then greturn (Abort 401) else authorize_browser env rq route required)"

definition gate_server_request :: "web_env \<Rightarrow> web_request \<Rightarrow> gate_outcome gate_op" where
  "gate_server_request env rq =
     (if \<not> is_server_path (rq_path rq) then greturn Pass
      else
        (let allowed = normalize_hostname (we_allowed_hostname env)
         in if allowed \<noteq> [] \<and> request_host rq \<notin> {''localhost'', ''127.0.0.1'', ''[::1]'', allowed} then greturn (Abort 400)
            else case we_route env rq of
              None \<Rightarrow> greturn (Abort 404)
            | Some route \<Rightarrow>
                if \<not> is_server_path (rt_rule route) then greturn (Abort 404)
                else case rt_required_scope route of
                  None \<Rightarrow> greturn (Abort 404)
                | Some raw \<Rightarrow>
                    (let required = lower (strip raw)
                     in if required \<notin> AUTH_SCOPES then greturn (Abort 404)
                        else authorize_server_route env rq route required)))"

section \<open>Registering a route\<close>

record route_flags =
  rf_sessionless_ui :: pyval
  rf_first_admin :: pyval
  rf_proof_exchange :: pyval
  rf_api_key_entry :: pyval
  rf_always_auth :: pyval

definition flag_bool :: "pyval \<Rightarrow> bool result" where
  "flag_bool v = (case v of PBool b \<Rightarrow> Inr b | _ \<Rightarrow> Inl ValueError)"

definition truthy_flag :: "pyval \<Rightarrow> bool" where
  "truthy_flag v = (case v of PBool b \<Rightarrow> b | PNone \<Rightarrow> False | PInt n \<Rightarrow> n \<noteq> 0 | PFloat x \<Rightarrow> x \<noteq> FFinite 0 | PStr s \<Rightarrow> s \<noteq> [] | PList xs \<Rightarrow> xs \<noteq> [] | PDict d \<Rightarrow> d \<noteq> [] | _ \<Rightarrow> True)"

definition register_server_route :: "string \<Rightarrow> string option \<Rightarrow> route_flags \<Rightarrow> route_config result" where
  "register_server_route path required flags =
     (case required of
        None \<Rightarrow> Inl ValueError
      | Some raw \<Rightarrow>
          (let scope = lower (strip raw)
           in if scope \<notin> AUTH_SCOPES then Inl ValueError
              else if truthy_flag (rf_sessionless_ui flags) \<and> scope \<notin> {''read'', ''stream''} then Inl ValueError
              else
                rbind (flag_bool (rf_sessionless_ui flags)) (\<lambda>a.
                rbind (flag_bool (rf_first_admin flags)) (\<lambda>b.
                rbind (flag_bool (rf_proof_exchange flags)) (\<lambda>c.
                rbind (flag_bool (rf_api_key_entry flags)) (\<lambda>d.
                rbind (flag_bool (rf_always_auth flags)) (\<lambda>e.
                  Inr \<lparr>rt_rule = path, rt_required_scope = Some scope, rt_sessionless_ui = a, rt_first_admin = b,
                       rt_proof_exchange = c, rt_api_key_entry = d, rt_always_auth = e\<rparr>)))))))"

section \<open>What a request that passes has shown\<close>

lemma gthen_Inr: "gthen p k st = (Inr x, st') \<longleftrightarrow> (\<exists>y st1. p st = (Inr y, st1) \<and> k y st1 = (Inr x, st'))"
  by (auto simp: gthen_def split: prod.split sum.split)

lemma greturn_eq [simp]: "greturn x st = (r, st') \<longleftrightarrow> r = Inr x \<and> st' = st"
  by (auto simp: greturn_def)

lemma glift_eq [simp]: "glift r st = (r', st') \<longleftrightarrow> r' = r \<and> st' = st"
  by (auto simp: glift_def)

lemma on_store_Inr:
  "on_store d p st = (Inr x, st') \<longleftrightarrow> st = None \<and> x = d \<and> st' = None \<or> (\<exists>a a'. st = Some a \<and> p a = (Inr x, a') \<and> st' = Some a')"
  by (auto simp: on_store_def split: option.split prod.split)

lemma athen_Inr: "athen p k st = (Inr x, st') \<longleftrightarrow> (\<exists>y st1. p st = (Inr y, st1) \<and> k y st1 = (Inr x, st'))"
  by (auto simp: athen_def split: prod.split sum.split)

definition key_shown :: "web_env \<Rightarrow> web_request \<Rightarrow> string \<Rightarrow> auth_store option \<Rightarrow> bool" where
  "key_shown env rq required st \<longleftrightarrow>
     (\<exists>token a k. extract_bearer_token rq = Some token \<and> st = Some a \<and> find_api_key_by_secret (ae_kdf (we_auth env)) token a = Inr (Some k) \<and>
        \<not> is_revoked k \<and> required \<in> effective_scopes (ak_scopes k))"

definition session_shown :: "web_env \<Rightarrow> web_request \<Rightarrow> string \<Rightarrow> auth_store option \<Rightarrow> bool" where
  "session_shown env rq required st \<longleftrightarrow>
     (\<exists>secret a u. rq_cookie rq ''seedsync_ui_session'' = Some secret \<and> st = Some a \<and> dict_get (as_sessions a) secret = Some u \<and>
        session_over (ae_now (we_auth env)) u = Inr False \<and>
        (required \<in> {''write'', ''admin''} \<longrightarrow> is_same_origin_browser_request env rq = Inr True) \<and>
        (if truthy (us_key_id u)
         then \<exists>k. resolve_ui_session_api_key u a = Inr (Some k) \<and> required \<in> effective_scopes (ak_scopes k)
         else us_bootstrap u \<and> required \<in> effective_scopes (us_scopes u)))"

text \<open>What lets a request through without a session: on a route for the exchange of the bootstrap proof, the
  secret of the exchange that is open and not expired while no administrator key is active; on a
  route for the first administrator, that the store lets an initial administrator be claimed; on
  a route for entering a key, nothing more; each from a page of the same origin. On a route open to
  the interface, a direct request from the machine itself while no administrator key is active.\<close>

definition exchange_shown :: "web_env \<Rightarrow> web_request \<Rightarrow> auth_store option \<Rightarrow> bool" where
  "exchange_shown env rq st \<longleftrightarrow>
     (\<exists>secret a b. rq_cookie rq ''seedsync_bootstrap_exchange'' = Some secret \<and> strip secret \<noteq> [] \<and> st = Some a \<and> active_admin_key_count a = 0 \<and>
        as_exchange a = Some b \<and> bs_secret b = strip secret \<and> secret_over (ae_now (we_auth env)) b = Inr False)"

definition claim_shown :: "web_env \<Rightarrow> web_request \<Rightarrow> route_config \<Rightarrow> auth_store option \<Rightarrow> auth_store option \<Rightarrow> bool" where
  "claim_shown env rq route st st' \<longleftrightarrow>
     (\<exists>a a'. gwhen (rt_proof_exchange route) (allow_bootstrap_proof_exchange env rq) st = (Inr False, Some a) \<and> st' = Some a' \<and>
        can_claim_initial_admin (we_auth env) (PStr (effective_browser_handover_version (we_config env) a)) (we_config env) a = (Inr True, a'))"

definition exception_shown :: "web_env \<Rightarrow> web_request \<Rightarrow> route_config \<Rightarrow> auth_store option \<Rightarrow> auth_store option \<Rightarrow> bool" where
  "exception_shown env rq route st st' \<longleftrightarrow>
     is_same_origin_browser_request env rq = Inr True \<and>
       (rt_proof_exchange route \<and> exchange_shown env rq st' \<or> rt_first_admin route \<and> claim_shown env rq route st st' \<or> rt_api_key_entry route) \<or>
     rt_sessionless_ui route \<and> no_active_admin st' \<and> is_loopback_remote_addr env rq \<and> \<not> has_proxy_forwarding_headers rq \<and>
       is_loopback_host (request_host rq) \<and> is_direct_same_origin_browser_request env rq = Inr True"

text \<open>While the handover is open, only a session of the bootstrap is let through: the others are redirected.\<close>

definition handover_respected :: "web_env \<Rightarrow> web_request \<Rightarrow> route_config \<Rightarrow> auth_store option \<Rightarrow> bool" where
  "handover_respected env rq route st \<longleftrightarrow>
     (\<exists>st1 st2 st3 st4 session open_now. gwhen (rt_proof_exchange route) (allow_bootstrap_proof_exchange env rq) st = (Inr False, st1) \<and>
        gwhen (rt_first_admin route) (allow_first_admin_bootstrap env rq) st1 = (Inr False, st2) \<and>
        get_ui_session env rq st2 = (Inr session, st3) \<and> is_browser_handover_open env st3 = (Inr open_now, st4) \<and>
        (open_now \<longrightarrow> \<not> opt_holds (\<lambda>u. \<not> us_bootstrap u) session))"

lemma find_session_found:
  assumes "find_ui_session_by_secret env secret a = (Inr (Some u), a')"
  shows "dict_get (as_sessions a') secret = Some u \<and> session_over (ae_now env) u = Inr False"
proof -
  obtain a1 where a1: "(case dict_get (as_sessions a1) secret of None \<Rightarrow> (Inr None, a1)
      | Some record \<Rightarrow> (case session_over (ae_now env) record of Inl e \<Rightarrow> (Inl e, a1)
          | Inr True \<Rightarrow> (Inr None, a1\<lparr>as_sessions := dict_pop secret (as_sessions a1)\<rparr>) | Inr False \<Rightarrow> (Inr (Some record), a1))) = (Inr (Some u), a')"
    using assms unfolding find_ui_session_by_secret_def athen_Inr by blast
  then obtain v where v: "dict_get (as_sessions a1) secret = Some v" by (cases "dict_get (as_sessions a1) secret") auto
  from a1 have "session_over (ae_now env) v = Inr False \<and> u = v \<and> a' = a1" unfolding v by (auto split: sum.splits bool.splits)
  with v show ?thesis by simp
qed

lemma session_in_use_found:
  assumes "session_in_use env secret v a = (Inr (Some u), a')"
  shows "a' = a \<and> u = v \<and> (if truthy (us_key_id u) then \<exists>k. resolve_ui_session_api_key u a = Inr (Some k) else us_bootstrap u)"
  using assms by (auto simp: session_in_use_def athen_Inr split: if_splits sum.splits option.splits)

lemma get_ui_session_found:
  assumes "get_ui_session env rq st = (Inr (Some u), st')"
  shows "\<exists>secret a. rq_cookie rq ''seedsync_ui_session'' = Some secret \<and> st' = Some a \<and> dict_get (as_sessions a) secret = Some u \<and>
    session_over (ae_now (we_auth env)) u = Inr False \<and>
    (if truthy (us_key_id u) then \<exists>k. resolve_ui_session_api_key u a = Inr (Some k) else us_bootstrap u)"
proof -
  obtain secret a v a1 a' where f: "rq_cookie rq ''seedsync_ui_session'' = Some secret" "find_ui_session_by_secret (we_auth env) secret a = (Inr (Some v), a1)"
    "session_in_use env secret v a1 = (Inr (Some u), a')" "st' = Some a'"
    using assms by (auto simp: get_ui_session_def on_store_Inr athen_Inr split: option.splits if_splits)
  from session_in_use_found[OF f(3)] find_session_found[OF f(2)] f(1,4) show ?thesis by auto
qed

lemma session_scopes_found:
  assumes "get_ui_session_scopes env rq st = (Inr (Some scopes), st')"
  shows "\<exists>secret a u. rq_cookie rq ''seedsync_ui_session'' = Some secret \<and> st' = Some a \<and> dict_get (as_sessions a) secret = Some u \<and>
    session_over (ae_now (we_auth env)) u = Inr False \<and>
    (if truthy (us_key_id u) then \<exists>k. resolve_ui_session_api_key u a = Inr (Some k) \<and> scopes = ak_scopes k
     else us_bootstrap u \<and> scopes = us_scopes u)"
proof -
  obtain u st1 where u: "get_ui_session env rq st = (Inr (Some u), st1)" "on_store None (session_scopes u) st1 = (Inr (Some scopes), st')"
    using assms by (auto simp: get_ui_session_scopes_def gthen_Inr split: option.splits)
  from get_ui_session_found[OF u(1)] obtain secret a where s: "rq_cookie rq ''seedsync_ui_session'' = Some secret" "st1 = Some a"
    "dict_get (as_sessions a) secret = Some u" "session_over (ae_now (we_auth env)) u = Inr False" by blast
  have "st' = Some a \<and> (if truthy (us_key_id u) then \<exists>k. resolve_ui_session_api_key u a = Inr (Some k) \<and> scopes = ak_scopes k
     else us_bootstrap u \<and> scopes = us_scopes u)"
    using u(2) s(2) by (auto simp: on_store_Inr session_scopes_def rbind_Inr_iff split: if_splits)
  with s show ?thesis by blast
qed

lemma authorize_session_pass:
  "authorize_session env rq required scopes st = (Inr Pass, st') \<Longrightarrow>
   st' = st \<and> required \<in> effective_scopes scopes \<and> (required \<in> {''write'', ''admin''} \<longrightarrow> is_same_origin_browser_request env rq = Inr True)"
  by (auto simp: authorize_session_def gthen_Inr authorize_scopes_def split: if_splits)

lemma authorize_key_pass:
  assumes "authorize_key env required token st = (Inr Pass, st')" "extract_bearer_token rq = Some token"
  shows "key_shown env rq required st'"
  using assms by (auto simp: authorize_key_def gthen_Inr on_store_Inr authorize_scopes_def key_shown_def split: if_splits option.splits)

lemma exchange_pass:
  assumes "allow_bootstrap_proof_exchange env rq st = (Inr True, st')"
  shows "is_same_origin_browser_request env rq = Inr True \<and> exchange_shown env rq st'"
proof -
  have n: "no_active_admin st" and o: "is_same_origin_browser_request env rq = Inr True"
    using assms by (cases "is_same_origin_browser_request env rq"; auto simp: allow_bootstrap_proof_exchange_def gthen_def glift_def split: if_splits)+
  obtain secret where c: "rq_cookie rq ''seedsync_bootstrap_exchange'' = Some secret" "strip secret \<noteq> []"
    "on_store False (peek_bootstrap_exchange (we_auth env) (PStr (strip secret))) st = (Inr True, st')"
    using assms n by (auto simp: allow_bootstrap_proof_exchange_def gthen_def glift_def o split: if_splits option.splits)
  obtain a a' where p: "st = Some a" "peek_bootstrap_exchange (we_auth env) (PStr (strip secret)) a = (Inr True, a')" "st' = Some a'"
    using c(3) unfolding on_store_Inr by auto
  have t: "text_of (PStr (strip secret)) = strip secret" by (simp add: text_of_def)
  obtain b where b: "as_exchange a = Some b" "secret_over (ae_now (we_auth env)) b = Inr False" "a' = a" "bs_secret b = strip secret"
    using p(2) unfolding peek_bootstrap_exchange_def t
    by (auto simp: athen_Inr prune_bootstrap_exchange_def clear_bootstrap_exchange_def record_event_def compare_digest_def
        split: if_splits option.splits sum.splits)
  with p n o c(1,2) show ?thesis by (auto simp: exchange_shown_def no_active_admin_def)
qed

lemma claim_pass:
  "allow_first_admin_bootstrap env rq st = (Inr True, st') \<Longrightarrow> is_same_origin_browser_request env rq = Inr True \<and>
   (\<exists>a a'. st = Some a \<and> st' = Some a' \<and>
      can_claim_initial_admin (we_auth env) (PStr (effective_browser_handover_version (we_config env) a)) (we_config env) a = (Inr True, a'))"
  by (auto simp: allow_first_admin_bootstrap_def gthen_Inr on_store_Inr split: if_splits)

lemma gwhen_True: "gwhen flag p st = (Inr True, st') \<longleftrightarrow> flag \<and> p st = (Inr True, st')"
  by (simp add: gwhen_def)

lemma sessionless_pass:
  "allow_sessionless_ui_route env rq st = (Inr True, st') \<Longrightarrow> st' = st \<and> no_active_admin st \<and> is_loopback_remote_addr env rq \<and>
     \<not> has_proxy_forwarding_headers rq \<and> is_loopback_host (request_host rq) \<and> is_direct_same_origin_browser_request env rq = Inr True"
  by (auto simp: allow_sessionless_ui_route_def split: if_splits)

lemma pass_orE:
  assumes "pass_or p q st = (Inr Pass, st')"
  obtains "p st = (Inr True, st')" | st1 where "p st = (Inr False, st1)" "q st1 = (Inr Pass, st')"
proof -
  obtain ok st1 where "p st = (Inr ok, st1)" "(if ok then greturn Pass else q) st1 = (Inr Pass, st')"
    using assms unfolding pass_or_def gthen_Inr by blast
  with that show thesis by (cases ok) auto
qed

lemma authorize_sessionless_pass:
  assumes "authorize_sessionless env rq route st1 = (Inr Pass, st')"
  shows "exception_shown env rq route st st'"
  using assms unfolding authorize_sessionless_def
  by (elim pass_orE) (auto simp: gwhen_True exception_shown_def allow_browser_api_key_entry_def dest: sessionless_pass)

lemma authorize_cookie_pass:
  assumes "authorize_cookie env rq route required st2 = (Inr Pass, st')"
    "gwhen (rt_proof_exchange route) (allow_bootstrap_proof_exchange env rq) st = (Inr False, st1)"
    "gwhen (rt_first_admin route) (allow_first_admin_bootstrap env rq) st1 = (Inr False, st2)"
  shows "session_shown env rq required st' \<and> handover_respected env rq route st \<or> exception_shown env rq route st st'"
proof -
  obtain session st3 open_now st4 scopes st5 where s: "get_ui_session_scopes env rq st4 = (Inr scopes, st5)"
    "(case scopes of Some xs \<Rightarrow> authorize_session env rq required xs | None \<Rightarrow> authorize_sessionless env rq route) st5 = (Inr Pass, st')"
    "get_ui_session env rq st2 = (Inr session, st3)" "is_browser_handover_open env st3 = (Inr open_now, st4)"
    "\<not> (open_now \<and> opt_holds (\<lambda>u. \<not> us_bootstrap u) session)"
    using assms(1) by (auto simp: authorize_cookie_def gthen_Inr split: if_splits)
  have h: "handover_respected env rq route st" unfolding handover_respected_def using assms(2,3) s(3-5) by blast
  show ?thesis
  proof (cases scopes)
    case None
    then show ?thesis using s(2) authorize_sessionless_pass by auto
  next
    case (Some xs)
    from session_scopes_found[OF s(1)[unfolded Some]] obtain secret a u where u: "rq_cookie rq ''seedsync_ui_session'' = Some secret" "st5 = Some a"
      "dict_get (as_sessions a) secret = Some u" "session_over (ae_now (we_auth env)) u = Inr False"
      "if truthy (us_key_id u) then \<exists>k. resolve_ui_session_api_key u a = Inr (Some k) \<and> xs = ak_scopes k else us_bootstrap u \<and> xs = us_scopes u" by blast
    have p: "st' = st5" "required \<in> effective_scopes xs" "required \<in> {''write'', ''admin''} \<longrightarrow> is_same_origin_browser_request env rq = Inr True"
      using authorize_session_pass[of env rq required xs st5 st'] s(2) Some by auto
    have "if truthy (us_key_id u) then \<exists>k. resolve_ui_session_api_key u a = Inr (Some k) \<and> required \<in> effective_scopes (ak_scopes k)
        else us_bootstrap u \<and> required \<in> effective_scopes (us_scopes u)" using u(5) p(2) by (cases "truthy (us_key_id u)") auto
    then have "session_shown env rq required st'" unfolding session_shown_def p(1) using u(1-4) p(3) by blast
    with h show ?thesis by blast
  qed
qed

lemma authorize_browser_pass:
  assumes "authorize_browser env rq route required st = (Inr Pass, st')"
  shows "session_shown env rq required st' \<and> handover_respected env rq route st \<or> exception_shown env rq route st st'"
  using assms unfolding authorize_browser_def
proof (elim pass_orE)
  assume "gwhen (rt_proof_exchange route) (allow_bootstrap_proof_exchange env rq) st = (Inr True, st')"
  then show ?thesis using exchange_pass by (auto simp: gwhen_True exception_shown_def)
next
  fix st1
  assume "gwhen (rt_proof_exchange route) (allow_bootstrap_proof_exchange env rq) st = (Inr False, st1)"
    "gwhen (rt_first_admin route) (allow_first_admin_bootstrap env rq) st1 = (Inr True, st')"
  then show ?thesis using claim_pass[of env rq st1 st'] by (auto simp: gwhen_True exception_shown_def claim_shown_def)
qed (rule authorize_cookie_pass)

text \<open>The two ways a request passes: credentials are asked for and shown, or the compatibility mode is on
  and no foreign origin is behind an unsafe request.\<close>

definition gate_open :: "web_env \<Rightarrow> web_request \<Rightarrow> route_config \<Rightarrow> string \<Rightarrow> auth_store option \<Rightarrow> auth_store option \<Rightarrow> bool" where
  "gate_open env rq route required st st' \<longleftrightarrow>
     (if we_disable_browser_auth env \<and> \<not> rt_always_auth route
      then is_unsafe_request rq \<longrightarrow> has_hostile_browser_origin_signal env rq = Inr False
      else key_shown env rq required st' \<or>
        extract_bearer_token rq = None \<and> \<not> has_bearer_authorization_header rq \<and>
          (session_shown env rq required st' \<and> handover_respected env rq route st \<or> exception_shown env rq route st st'))"

lemma authorize_route_pass:
  assumes "authorize_server_route env rq route required st = (Inr Pass, st')"
  shows "gate_open env rq route required st st'"
proof (cases "we_disable_browser_auth env \<and> \<not> rt_always_auth route")
  case True
  then show ?thesis using assms by (auto simp: authorize_server_route_def gthen_Inr gate_open_def split: if_splits)
next
  case False
  show ?thesis
  proof (cases "extract_bearer_token rq")
    case None
    then have b: "authorize_browser env rq route required st = (Inr Pass, st')" "\<not> has_bearer_authorization_header rq"
      using assms False by (auto simp: authorize_server_route_def split: if_splits)
    from authorize_browser_pass[OF b(1)] b(2) show ?thesis using False None by (auto simp: gate_open_def)
  next
    case (Some token)
    then have "authorize_key env required token st = (Inr Pass, st')"
      using assms False by (auto simp: authorize_server_route_def)
    from authorize_key_pass[OF this Some] show ?thesis using False by (auto simp: gate_open_def)
  qed
qed

lemma gate_pass:
  assumes "gate_server_request env rq st = (Inr Pass, st')" "is_server_path (rq_path rq)"
  shows "\<exists>route raw. we_route env rq = Some route \<and> is_server_path (rt_rule route) \<and> rt_required_scope route = Some raw \<and>
    lower (strip raw) \<in> AUTH_SCOPES \<and> gate_open env rq route (lower (strip raw)) st st'"
proof -
  obtain route raw where r: "we_route env rq = Some route" "is_server_path (rt_rule route)" "rt_required_scope route = Some raw"
    "lower (strip raw) \<in> AUTH_SCOPES" "authorize_server_route env rq route (lower (strip raw)) st = (Inr Pass, st')"
    using assms by (auto simp: gate_server_request_def Let_def split: if_splits option.splits)
  from authorize_route_pass[OF r(5)] r(1-4) show ?thesis by blast
qed

text \<open>A registered route asks for a known scope, and opens to a browser without a session only for reading.\<close>

lemma register_route_spec:
  assumes "register_server_route path required flags = Inr route"
  shows "\<exists>scope. rt_rule route = path \<and> rt_required_scope route = Some scope \<and> scope \<in> AUTH_SCOPES \<and> lower (strip scope) = scope \<and>
    (rt_sessionless_ui route \<longrightarrow> scope \<in> {''read'', ''stream''})"
proof -
  obtain raw where r: "required = Some raw" "lower (strip raw) \<in> AUTH_SCOPES" "rt_rule route = path" "rt_required_scope route = Some (lower (strip raw))"
    "rt_sessionless_ui route \<longrightarrow> lower (strip raw) \<in> {''read'', ''stream''}"
    using assms by (auto simp: register_server_route_def Let_def rbind_Inr_iff flag_bool_def truthy_flag_def split: option.splits if_splits pyval.splits)
  have "lower (strip s) = s" if "s \<in> AUTH_SCOPES" for s
  proof -
    have "\<forall>s \<in> AUTH_SCOPES. lower (strip s) = s" by code_simp
    with that show ?thesis by blast
  qed
  with r show ?thesis by blast
qed

end
