(* ===== verification/Auth_Calls.thy ===== *)
theory Auth_Calls
  imports Auth_Handover
begin

text \<open>
  The calls of the authentication store as a state machine: every call is a sequence of primitive
  edits, whatever it returns or raises, and what an edit keeps every call keeps.
\<close>

section \<open>Edits\<close>

text \<open>Nothing but sessions and bootstrap secrets that are dropped, and the history.\<close>

definition store_frame :: "auth_store \<Rightarrow> auth_store" where
  "store_frame st = st\<lparr>as_sessions := [], as_proof := None, as_exchange := None, as_snapshot := None, as_history := []\<rparr>"

definition trims :: "auth_store \<Rightarrow> auth_store \<Rightarrow> bool" where
  "trims st st' \<longleftrightarrow> store_frame st' = store_frame st \<and>
     (dict_ok (as_sessions st) \<longrightarrow> dict_ok (as_sessions st')) \<and>
     map_of (as_sessions st') \<subseteq>\<^sub>m map_of (as_sessions st) \<and>
     (as_proof st' = None \<or> as_proof st' = as_proof st) \<and> (as_exchange st' = None \<or> as_exchange st' = as_exchange st)"

lemma store_frame_eq: "store_frame st' = store_frame st \<longleftrightarrow>
     as_bound st' = as_bound st \<and> as_keys st' = as_keys st \<and> as_claimed st' = as_claimed st \<and>
     as_deadline st' = as_deadline st \<and> as_deadline_loaded st' = as_deadline_loaded st \<and>
     as_deadline_invalid st' = as_deadline_invalid st \<and> as_activated st' = as_activated st \<and>
     as_migrated_version st' = as_migrated_version st"
  by (cases st; cases st') (auto simp: store_frame_def)

text \<open>A session under its secret; unless it is remembered its expiry is no time without an offset.\<close>

definition naive_text :: "string \<Rightarrow> bool" where
  "naive_text s = (case stamp_of_text s of Inr (Naive _) \<Rightarrow> True | _ \<Rightarrow> False)"

definition session_ok :: "string \<Rightarrow> ui_session \<Rightarrow> bool" where
  "session_ok secret s \<longleftrightarrow> us_secret s = secret \<and> scopes_ok (us_scopes s) \<and>
     (us_remembered s \<or> \<not> naive_text (us_expires s))"

definition window_ok :: "handover_state \<Rightarrow> bool" where
  "window_ok state \<longleftrightarrow> distinct (ho_seen state) \<and> length (ho_seen state) \<le> SEEN_LIMIT"

definition env_ok :: "auth_env \<Rightarrow> bool" where
  "env_ok env \<longleftrightarrow> valid_datetime (ae_now env) \<and> valid_datetime (ae_save_now env)"

inductive edit :: "auth_env \<Rightarrow> auth_store \<Rightarrow> auth_store \<Rightarrow> bool" for env where
  trim: "trims st st' \<Longrightarrow> edit env st st'"
| change: "get_api_key key_id st = Some k \<Longrightarrow> \<not> is_revoked k \<Longrightarrow> ak_id k' = key_id \<Longrightarrow>
    (scopes_ok (ak_scopes k) \<Longrightarrow> scopes_ok (ak_scopes k')) \<Longrightarrow> edit env st (change_record key_id (\<lambda>_. k') st)"
| remove: "edit env st (st\<lparr>as_keys := remove1 k (as_keys st)\<rparr>)"
| add_session: "session_ok (ae_token env) s \<Longrightarrow> edit env st (st\<lparr>as_sessions := dict_set (ae_token env) s (as_sessions st)\<rparr>)"
| new_proof: "bs_secret b = ae_token env \<Longrightarrow> edit env st (st\<lparr>as_proof := Some b\<rparr>)"
| new_exchange: "bs_secret b = ae_token env \<Longrightarrow> edit env st (st\<lparr>as_exchange := Some b\<rparr>)"
| claim: "edit env st (st\<lparr>as_claimed := version\<rparr>)"
| activate: "edit env st (st\<lparr>as_activated := True\<rparr>)"
| load: "\<not> as_deadline_loaded st \<Longrightarrow> (\<And>s. state = Some s \<Longrightarrow> window_ok s) \<Longrightarrow>
    edit env st (st\<lparr>as_deadline_loaded := True, as_deadline := state, as_deadline_invalid := invalid\<rparr>)"
| shut: "as_deadline_loaded st \<Longrightarrow> as_deadline st = Some state \<Longrightarrow>
    edit env st (st\<lparr>as_deadline := Some (state\<lparr>ho_active := None\<rparr>)\<rparr>)"
| open_initial: "as_deadline_loaded st \<Longrightarrow> hd_version d = [] \<Longrightarrow>
    edit env st (st\<lparr>as_deadline := Some \<lparr>ho_active = Some d, ho_seen = seen_versions (as_deadline st)\<rparr>, as_deadline_invalid := False\<rparr>)"
| open_recovery: "as_deadline_loaded st \<Longrightarrow> hd_version d \<notin> set (seen_versions (as_deadline st)) \<Longrightarrow>
    length (seen_versions (as_deadline st)) < SEEN_LIMIT \<Longrightarrow>
    edit env st (st\<lparr>as_deadline := Some \<lparr>ho_active = Some d, ho_seen = seen_versions (as_deadline st) @ [hd_version d]\<rparr>,
      as_deadline_invalid := False\<rparr>)"

text \<open>A store that has not read the file of the handover yet knows no window.\<close>

definition unread :: "auth_store \<Rightarrow> bool" where
  "unread st \<longleftrightarrow> (\<not> as_deadline_loaded st \<longrightarrow> as_deadline st = None \<and> \<not> as_deadline_invalid st)"

lemma edit_unread: "edit env st st' \<Longrightarrow> unread st \<Longrightarrow> unread st'"
  by (induction rule: edit.induct) (auto simp: unread_def trims_def store_frame_eq change_record_def)

lemma edits_unread: "(edit env)\<^sup>*\<^sup>* st st' \<Longrightarrow> unread st \<Longrightarrow> unread st'"
  by (induction rule: rtranclp_induct) (auto intro: edit_unread)

definition does :: "auth_env \<Rightarrow> 'a auth_op \<Rightarrow> bool" where
  "does env p \<longleftrightarrow> (\<forall>st. unread st \<longrightarrow> (edit env)\<^sup>*\<^sup>* st (snd (p st)))"

lemma doesD: "does env p \<Longrightarrow> unread st \<Longrightarrow> (edit env)\<^sup>*\<^sup>* st (snd (p st))"
  by (simp add: does_def)

lemma does_athen:
  assumes "does env p" "\<And>x. does env (k x)"
  shows "does env (athen p k)"
  unfolding does_def
proof (intro allI impI)
  fix st assume u: "unread st"
  obtain r st1 where p: "p st = (r, st1)" by (rule prod.exhaust)
  then have 1: "(edit env)\<^sup>*\<^sup>* st st1" using doesD[OF assms(1) u] by simp
  show "(edit env)\<^sup>*\<^sup>* st (snd (athen p k st))"
  proof (cases r)
    case (Inl e)
    then show ?thesis using 1 by (simp add: athen_def p)
  next
    case (Inr x)
    have "(edit env)\<^sup>*\<^sup>* st1 (snd (k x st1))" by (rule doesD[OF assms(2) edits_unread[OF 1 u]])
    then show ?thesis using 1 Inr by (simp add: athen_def p)
  qed
qed

text \<open>An operation that may also add one key.\<close>

definition adds_key :: "auth_env \<Rightarrow> auth_store \<Rightarrow> auth_store \<Rightarrow> bool" where
  "adds_key env st st' \<longleftrightarrow>
     (\<exists>k. ak_id k = ae_uuid env \<and> scopes_ok (ak_scopes k) \<and> st' = st\<lparr>as_keys := as_keys st @ [k]\<rparr>)"

definition call_edits :: "auth_env \<Rightarrow> auth_store \<Rightarrow> auth_store \<Rightarrow> bool" where
  "call_edits env st st' \<longleftrightarrow> (edit env)\<^sup>*\<^sup>* st st' \<or>
     (\<exists>a b. (edit env)\<^sup>*\<^sup>* st a \<and> adds_key env a b \<and> (edit env)\<^sup>*\<^sup>* b st')"

definition creates :: "auth_env \<Rightarrow> 'a auth_op \<Rightarrow> bool" where
  "creates env p \<longleftrightarrow> (\<forall>st. unread st \<longrightarrow> call_edits env st (snd (p st)))"

lemma createsD: "creates env p \<Longrightarrow> unread st \<Longrightarrow> call_edits env st (snd (p st))"
  by (simp add: creates_def)

lemma adds_key_unread: "adds_key env st st' \<Longrightarrow> unread st \<Longrightarrow> unread st'"
  by (auto simp: adds_key_def unread_def)

lemma call_edits_unread: "call_edits env st st' \<Longrightarrow> unread st \<Longrightarrow> unread st'"
  using edits_unread adds_key_unread by (fastforce simp: call_edits_def)

lemma call_edits_then: "call_edits env a b \<Longrightarrow> (edit env)\<^sup>*\<^sup>* b c \<Longrightarrow> call_edits env a c"
  unfolding call_edits_def by (meson rtranclp_trans)

lemma then_call_edits: "(edit env)\<^sup>*\<^sup>* a b \<Longrightarrow> call_edits env b c \<Longrightarrow> call_edits env a c"
  unfolding call_edits_def by (meson rtranclp_trans)

lemma does_creates: "does env p \<Longrightarrow> creates env p"
  by (simp add: does_def creates_def call_edits_def)

lemma creates_athen:
  assumes "creates env p" "\<And>x. does env (k x)"
  shows "creates env (athen p k)"
  unfolding creates_def
proof (intro allI impI)
  fix st assume u: "unread st"
  obtain r st1 where p: "p st = (r, st1)" by (rule prod.exhaust)
  then have 1: "call_edits env st st1" using createsD[OF assms(1) u] by simp
  show "call_edits env st (snd (athen p k st))"
    using 1 call_edits_then[OF 1] doesD[OF assms(2) call_edits_unread[OF 1 u]]
    by (cases r) (auto simp: athen_def p)
qed

lemma athen_creates:
  assumes "does env p" "\<And>x. creates env (k x)"
  shows "creates env (athen p k)"
  unfolding creates_def
proof (intro allI impI)
  fix st assume u: "unread st"
  obtain r st1 where p: "p st = (r, st1)" by (rule prod.exhaust)
  then have 1: "(edit env)\<^sup>*\<^sup>* st st1" using doesD[OF assms(1) u] by simp
  show "call_edits env st (snd (athen p k st))"
    using 1 then_call_edits[OF 1] createsD[OF assms(2) edits_unread[OF 1 u]]
    by (cases r) (auto simp: athen_def p call_edits_def)
qed

section \<open>Trimming\<close>

lemma trims_refl [simp]: "trims st st"
  by (simp add: trims_def store_frame_eq)

lemma trims_trans [trans]: "trims a b \<Longrightarrow> trims b c \<Longrightarrow> trims a c"
  unfolding trims_def by (elim conjE, intro conjI) (simp, blast, blast intro: map_le_trans, argo+)

lemma trims_record_event [simp]: "trims st (record_event event reason st)"
  by (simp add: trims_def store_frame_eq record_event_def)

lemma trims_sessions: "trims st (st\<lparr>as_sessions := fold dict_pop ids (as_sessions st)\<rparr>)"
  by (simp add: trims_def store_frame_eq fold_pop_get fold_pop_ok map_le_def dom_def)

lemma trims_clears:
  "trims st (clear_bootstrap_proof reason st)" "trims st (clear_bootstrap_exchange reason st)"
proof -
  have "trims st (st\<lparr>as_proof := None\<rparr>)" "trims st (st\<lparr>as_exchange := None\<rparr>)" by (simp_all add: trims_def store_frame_eq)
  then show "trims st (clear_bootstrap_proof reason st)" "trims st (clear_bootstrap_exchange reason st)"
    unfolding clear_bootstrap_proof_def clear_bootstrap_exchange_def
    by (auto intro: trims_trans[OF _ trims_record_event])
qed

lemma trims_prunes:
  "trims st (snd (prune_expired_ui_sessions now st))" "trims st (snd (prune_bootstrap_proof now st))"
  "trims st (snd (prune_bootstrap_exchange now st))"
  by (auto simp: prune_expired_ui_sessions_def prune_bootstrap_proof_def prune_bootstrap_exchange_def
      trims_sessions trims_clears split: sum.split option.split)

lemma trims_athen:
  "(\<And>st. trims st (snd (p st))) \<Longrightarrow> (\<And>x st. trims st (snd (k x st))) \<Longrightarrow> trims st (snd (athen p k st))"
  unfolding athen_def by (auto split: prod.split sum.split) (metis snd_conv, metis snd_conv trims_trans)

lemma trims_note_snapshot: "trims st (note_snapshot st)"
proof -
  have "trims st' (st'\<lparr>as_snapshot := x\<rparr>)" for st' x by (simp add: trims_def store_frame_eq)
  then show ?thesis unfolding note_snapshot_def by (auto intro: trims_trans[OF trims_record_event])
qed

lemma trims_save: "trims st (snd (save_store env st))"
proof -
  have "trims st (snd (prune_all now st))" for now st
    unfolding prune_all_def by (intro trims_athen trims_prunes)
  then show ?thesis
    unfolding save_store_def using trims_note_snapshot by (auto intro!: trims_athen)
qed

lemma trims_save_and_record: "trims st (snd (save_and_record env event reason x st))"
  unfolding save_and_record_def by (intro trims_athen trims_save) simp

lemma does_trims: "(\<And>st. trims st (snd (p st))) \<Longrightarrow> does env p"
  by (simp add: does_def edit.trim r_into_rtranclp)

lemma edit_then_trims: "edit env st st1 \<Longrightarrow> trims st1 st2 \<Longrightarrow> (edit env)\<^sup>*\<^sup>* st st2"
  by (meson edit.trim r_into_rtranclp rtranclp.rtrancl_into_rtrancl)

lemma edit_trim: "trims st st' \<Longrightarrow> (edit env)\<^sup>*\<^sup>* st st'"
  by (simp add: edit.trim r_into_rtranclp)

lemma edit_step: "edit env st st1 \<Longrightarrow> (edit env)\<^sup>*\<^sup>* st1 st2 \<Longrightarrow> (edit env)\<^sup>*\<^sup>* st st2"
  by (rule converse_rtranclp_into_rtranclp)

lemma edit_save: "edit env st st1 \<Longrightarrow> (edit env)\<^sup>*\<^sup>* st (snd (save_and_record env event reason x st1))"
  by (erule edit_then_trims) (rule trims_save_and_record)

section \<open>Operations\<close>

lemma does_trivial: "does env (\<lambda>st. (r, st))"
  by (simp add: does_def)

lemma does_saving: "does env (save_store env')" "does env (save_and_record env' event reason x)"
  by (simp_all add: does_trims trims_save trims_save_and_record)

lemma creates_record: "creates env (create_api_key_record env name scopes)"
proof -
  have "call_edits env st (st\<lparr>as_keys := as_keys st @ [k]\<rparr>)" if "ak_id k = ae_uuid env" "scopes_ok (ak_scopes k)" for st k
    using that by (auto simp: call_edits_def adds_key_def)
  moreover have "call_edits env st st" for st by (simp add: call_edits_def)
  ultimately show ?thesis
    unfolding creates_def create_api_key_record_def
    by (auto simp: Let_def normalize_scopes_ok split: sum.split)
qed

lemma creates_api_key: "creates env (create_api_key env name scopes)"
  unfolding create_api_key_def
proof (intro creates_athen creates_record)
  fix created :: "api_key \<times> string"
  have "trims st (clear_bootstrap_exchange r (clear_bootstrap_proof r' st))" for r r' st
    by (rule trims_trans[OF trims_clears(1) trims_clears(2)])
  then show "does env (case created of (record, secret) \<Rightarrow> \<lambda>st.
       save_and_record env ''api_key_created'' ''create_api_key'' (record, secret)
         (if ''admin'' \<in> set (ak_scopes record)
          then clear_bootstrap_exchange ''admin_api_key_created'' (clear_bootstrap_proof ''admin_api_key_created'' st)
          else st))"
    by (auto intro!: does_trims trims_save_and_record intro: trims_trans[OF _ trims_save_and_record] split: prod.split)
qed

lemma get_api_key_id: "get_api_key key_id st = Some k \<Longrightarrow> ak_id k = key_id \<and> k \<in> set (as_keys st)"
  by (auto simp: get_api_key_def find_Some_iff)

lemma get_changed: "get_api_key key_id st = Some k \<Longrightarrow> ak_id k' = key_id \<Longrightarrow>
  get_api_key key_id (change_record key_id (\<lambda>_. k') st) = Some k'"
proof -
  have "find (\<lambda>k. ak_id k = key_id) ks = Some k \<Longrightarrow> ak_id k' = key_id \<Longrightarrow>
      find (\<lambda>k. ak_id k = key_id) (change_key key_id (\<lambda>_. k') ks) = Some k'" for ks
    by (induction ks) (auto split: if_splits)
  then show "get_api_key key_id st = Some k \<Longrightarrow> ak_id k' = key_id \<Longrightarrow> ?thesis"
    by (simp add: get_api_key_def change_record_def)
qed

lemma does_update: "does env (update_api_key env key_id name scopes)"
  unfolding does_def
proof (intro allI impI)
  fix st
  show "(edit env)\<^sup>*\<^sup>* st (snd (update_api_key env key_id name scopes st))"
  proof (cases "\<exists>k. get_api_key key_id st = Some k \<and> \<not> is_revoked k \<and> \<not> (name \<noteq> PNone \<and> blank_text name)")
    case True
    then obtain k where k: "get_api_key key_id st = Some k" "\<not> is_revoked k" "\<not> (name \<noteq> PNone \<and> blank_text name)" by blast
    let ?k1 = "if name = PNone then k else k\<lparr>ak_name := text_of name\<rparr>"
    let ?st1 = "change_record key_id (\<lambda>_. ?k1) st"
    have k1: "ak_id ?k1 = key_id" "\<not> is_revoked ?k1" "ak_scopes ?k1 = ak_scopes k"
      using get_api_key_id[OF k(1)] k(2) by (auto simp: is_revoked_def)
    have 1: "edit env st ?st1" using k1 by (intro edit.change[OF k(1,2)]) auto
    show ?thesis
    proof (cases "if scopes = PNone then Inr (ak_scopes k) else normalize_scopes scopes")
      case (Inl e)
      then show ?thesis using k 1 by (simp add: update_api_key_def Let_def)
    next
      case (Inr normalized)
      let ?k2 = "?k1\<lparr>ak_scopes := normalized, ak_updated := seconds_text (ae_now env)\<rparr>"
      have "edit env ?st1 (change_record key_id (\<lambda>_. ?k2) ?st1)"
        using Inr k1 normalize_scopes_ok by (intro edit.change[OF get_changed[OF k(1) k1(1)] k1(2)]) (auto split: if_splits)
      from edit_step[OF 1 edit_save[OF this]] k Inr show ?thesis
        by (cases "name = PNone") (simp_all add: update_api_key_def Let_def)
    qed
  next
    case False
    then have "snd (update_api_key env key_id name scopes st) = st"
      by (auto simp: update_api_key_def split: option.split)
    then show ?thesis by simp
  qed
qed

lemma trims_discard: "trims st (discard_browser_sessions_for_api_key key_id reason st)"
  unfolding discard_browser_sessions_for_api_key_def by (rule trims_trans[OF trims_sessions trims_record_event])

lemma does_delete: "does env (delete_api_key env key_id)"
  unfolding does_def
proof (intro allI impI)
  fix st
  show "(edit env)\<^sup>*\<^sup>* st (snd (delete_api_key env key_id st))"
    by (auto simp: delete_api_key_def Let_def split: option.split
        intro: edit_step[OF edit.trim[OF trims_discard] edit_save[OF edit.remove]])
qed

lemma does_revoke: "does env (revoke_api_key env key_id)"
  unfolding does_def
proof (intro allI impI)
  fix st
  show "(edit env)\<^sup>*\<^sup>* st (snd (revoke_api_key env key_id st))"
  proof (cases "\<exists>k. get_api_key key_id st = Some k \<and> \<not> is_revoked k")
    case True
    then obtain k where k: "get_api_key key_id st = Some k" "\<not> is_revoked k" by blast
    let ?k1 = "k\<lparr>ak_revoked := Some (seconds_text (ae_now env)), ak_updated := seconds_text (ae_now env)\<rparr>"
    have "edit env st (change_record key_id (\<lambda>_. ?k1) st)"
      using get_api_key_id[OF k(1)] by (intro edit.change[OF k]) auto
    from edit_then_trims[OF this trims_trans[OF trims_discard trims_save_and_record]] k show ?thesis
      by (simp add: revoke_api_key_def Let_def)
  next
    case False
    then have "snd (revoke_api_key env key_id st) = st" by (auto simp: revoke_api_key_def split: option.split)
    then show ?thesis by simp
  qed
qed

lemma does_rotate: "does env (rotate_api_key env key_id)"
  unfolding does_def
proof (intro allI impI)
  fix st
  show "(edit env)\<^sup>*\<^sup>* st (snd (rotate_api_key env key_id st))"
  proof (cases "\<exists>k h. get_api_key key_id st = Some k \<and> \<not> is_revoked k \<and> hash_secret (ae_kdf env) (ae_salt env) (ae_token env) = Inr h")
    case True
    then obtain k h where k: "get_api_key key_id st = Some k" "\<not> is_revoked k"
      and h: "hash_secret (ae_kdf env) (ae_salt env) (ae_token env) = Inr h" by blast
    let ?k1 = "k\<lparr>ak_hash := h, ak_updated := seconds_text (ae_now env)\<rparr>"
    have "edit env st (change_record key_id (\<lambda>_. ?k1) st)"
      using get_api_key_id[OF k(1)] by (intro edit.change[OF k]) auto
    from edit_save[OF this] k h show ?thesis by (simp add: rotate_api_key_def Let_def)
  next
    case False
    then have "snd (rotate_api_key env key_id st) = st" by (auto simp: rotate_api_key_def split: option.split sum.split)
    then show ?thesis by simp
  qed
qed

lemma new_ui_session_ok:
  assumes "env_ok env" "new_ui_session env scopes b i h r = Inr s"
  shows "session_ok (ae_token env) s \<and> us_secret s = ae_token env"
proof -
  have now: "valid_datetime (ae_now env)" using assms(1) by (simp add: env_ok_def)
  have ttl: "UI_SESSION_TTL \<le> 86400" by (simp add: UI_SESSION_TTL_def)
  obtain normalized boot keep expires where s: "normalize_scopes scopes = Inr normalized"
    "(if keep then Inr [] else rbind (add_seconds UI_SESSION_TTL (ae_now env)) (\<lambda>t. Inr (seconds_text t))) = Inr expires"
    "s = \<lparr>us_secret = ae_token env, us_scopes = normalized, us_created = seconds_text (ae_now env),
       us_expires = expires, us_bootstrap = boot, us_remembered = keep, us_key_id = opt_text i, us_key_hash = opt_text h\<rparr>"
    using assms(2) unfolding new_ui_session_def rbind_Inr_iff
    by (cases b; cases r) (auto simp: rbind_Inr_iff split: if_split_asm)
  have "keep \<or> \<not> naive_text expires"
    using s(2) add_seconds_utc(2)[OF now ttl] by (cases keep) (auto simp: rbind_Inr_iff naive_text_def stamp_of_seconds_text)
  then show ?thesis using s(3) normalize_scopes_ok[OF s(1)] by (simp add: session_ok_def)
qed

lemma does_create_ui_session: "env_ok env \<Longrightarrow> does env (create_ui_session env scopes b i h r)"
  unfolding does_def
proof (intro allI impI)
  fix st assume env: "env_ok env"
  show "(edit env)\<^sup>*\<^sup>* st (snd (create_ui_session env scopes b i h r st))"
  proof (cases "new_ui_session env scopes b i h r")
    case (Inr s)
    note ok = new_ui_session_ok[OF env Inr]
    have "edit env st (st\<lparr>as_sessions := dict_set (us_secret s) s (as_sessions st)\<rparr>)"
      using ok edit.add_session[of env s st] by simp
    then show ?thesis
      by (rule edit_then_trims) (simp add: create_ui_session_def Inr trims_athen trims_prunes trims_save_and_record)
  qed (simp add: create_ui_session_def)
qed

lemma does_session_for_key: "env_ok env \<Longrightarrow> does env (create_session_for_key env remembered key_id)"
proof -
  assume "env_ok env"
  from doesD[OF does_create_ui_session[OF this]] show ?thesis
    by (simp add: does_def create_session_for_key_def split: pyval.split option.split)
qed

lemma does_find: "does env (find_ui_session_by_secret env secret)"
  unfolding find_ui_session_by_secret_def
proof (intro does_trims trims_athen trims_prunes)
  fix st
  have "trims st (st\<lparr>as_sessions := dict_pop secret (as_sessions st)\<rparr>)" using trims_sessions[of st "[secret]"] by simp
  then show "trims st (snd (case dict_get (as_sessions st) secret of None \<Rightarrow> (Inr None, st)
       | Some record \<Rightarrow> (case session_over (ae_now env) record of Inl e \<Rightarrow> (Inl e, st)
            | Inr True \<Rightarrow> (Inr None, st\<lparr>as_sessions := dict_pop secret (as_sessions st)\<rparr>)
            | Inr False \<Rightarrow> (Inr (Some record), st))))"
    by (auto split: option.split sum.split bool.split)
qed

lemma does_invalidate: "does env (invalidate_ui_session env secret)"
proof (rule does_trims)
  fix st
  have "trims st (st\<lparr>as_sessions := dict_pop x (as_sessions st)\<rparr>)" for x using trims_sessions[of st "[x]"] by simp
  then show "trims st (snd (invalidate_ui_session env secret st))"
    unfolding invalidate_ui_session_def by (auto intro: trims_trans[OF _ trims_save] split: pyval.split)
qed

lemma does_bootstrap:
  "does env (ensure_bootstrap_proof env)" "does env (ensure_bootstrap_exchange env)"
  "does env (peek_bootstrap_proof env secret)" "does env (peek_bootstrap_exchange env secret)"
  "does env (consume_bootstrap_proof env secret)" "does env (consume_bootstrap_exchange env secret)"
proof -
  have prunes: "does env (prune_bootstrap_proof now)" "does env (prune_bootstrap_exchange now)" for now
    by (auto intro: does_trims trims_prunes)
  have both: "trims st (clear_bootstrap_exchange r (clear_bootstrap_proof r' st))" for r r' st
    by (rule trims_trans[OF trims_clears(1) trims_clears(2)])
  have secret: "bs_secret b = ae_token env" if "new_bootstrap_secret env ttl = Inr b" for ttl b
    using that by (auto simp: new_bootstrap_secret_def rbind_Inr_iff)
  have new: "(edit env)\<^sup>*\<^sup>* st (record_event e r (st\<lparr>as_proof := Some b\<rparr>))"
    "(edit env)\<^sup>*\<^sup>* st (record_event e r (st\<lparr>as_exchange := Some b\<rparr>))" if "new_bootstrap_secret env ttl = Inr b" for ttl b st e r
    by (rule edit_then_trims[OF _ trims_record_event], rule edit.new_proof[OF secret[OF that]])
      (rule edit_then_trims[OF _ trims_record_event], rule edit.new_exchange[OF secret[OF that]])
  show "does env (ensure_bootstrap_proof env)"
    unfolding ensure_bootstrap_proof_def
    by (intro does_athen prunes)
      (auto simp: does_def split: option.split sum.split intro!: new edit_trim[OF both])
  show "does env (ensure_bootstrap_exchange env)"
    unfolding ensure_bootstrap_exchange_def
    by (intro does_athen prunes)
      (auto simp: does_def split: option.split sum.split intro!: new edit_trim[OF trims_clears(2)])
  show peeks: "does env (peek_bootstrap_proof env secret)" "does env (peek_bootstrap_exchange env secret)"
    unfolding peek_bootstrap_proof_def peek_bootstrap_exchange_def
    by (auto intro!: does_trims trims_athen trims_prunes split: option.split)
  have gone: "trims st (record_event e r (st\<lparr>as_proof := None\<rparr>))" "trims st (record_event e r (st\<lparr>as_exchange := None\<rparr>))" for st e r
    by (rule trims_trans[OF _ trims_record_event], simp add: trims_def store_frame_eq)+
  show "does env (consume_bootstrap_proof env secret)" "does env (consume_bootstrap_exchange env secret)"
    unfolding consume_bootstrap_proof_def consume_bootstrap_exchange_def
    by (intro does_athen peeks does_trims; simp add: gone)+
qed

section \<open>The handover\<close>

lemma read_seen_length: "read_seen vs = Inr seen \<Longrightarrow> length seen = length vs"
  by (induction vs arbitrary: seen) (auto simp: rbind_Inr_iff split: pyval.splits if_splits)

lemma guard_Inr: "(if b then Inl e else x) = Inr y \<longleftrightarrow> \<not> b \<and> x = Inr y"
  by simp

lemma legacy_window_ok: "parse_legacy_deadline sha256 raw = Inr state \<Longrightarrow> window_ok state"
  unfolding parse_legacy_deadline_def Let_def guard_Inr rbind_Inr_iff sum.inject
  by (elim exE conjE, hypsubst, simp add: window_ok_def SEEN_LIMIT_def)

lemma parsed_window_ok:
  assumes "parse_deadline_state sha256 v = Inr state"
  shows "window_ok state"
proof (cases v)
  case (PDict raw)
  show ?thesis
  proof (cases "equals_int (get_or_none raw ''schema'') 1")
    case True
    with assms PDict show ?thesis by (simp add: parse_deadline_state_def legacy_window_ok)
  next
    case False
    with assms PDict obtain active where "(case get_or_none raw ''seen_recovery_versions'' of
          PList vs \<Rightarrow> rbind (read_seen vs) (\<lambda>seen. if length seen > SEEN_LIMIT \<or> \<not> distinct seen then Inl ValueError
             else Inr \<lparr>ho_active = active, ho_seen = seen\<rparr>)
        | _ \<Rightarrow> Inl ValueError) = Inr state"
      unfolding parse_deadline_state_def by (simp only: pyval.case if_False guard_Inr rbind_Inr_iff) blast
    then show ?thesis
      by (cases "get_or_none raw ''seen_recovery_versions''") (auto simp: rbind_Inr_iff guard_Inr window_ok_def)
  qed
qed (use assms in \<open>simp_all add: parse_deadline_state_def\<close>)

lemma loading:
  assumes "unread st" "load_browser_handover_deadline env st = (state, st1)"
  shows "(edit env)\<^sup>*\<^sup>* st st1" "as_deadline_loaded st1" "state = as_deadline st1"
    "as_keys st1 = as_keys st" "as_claimed st1 = as_claimed st" "as_activated st1 = as_activated st"
    "as_migrated_version st1 = as_migrated_version st"
proof -
  have "(edit env)\<^sup>*\<^sup>* st st1 \<and> as_deadline_loaded st1 \<and> state = as_deadline st1"
  proof (cases "as_deadline_loaded st")
    case False
    have e: "(edit env)\<^sup>*\<^sup>* st (st\<lparr>as_deadline_loaded := True, as_deadline := s, as_deadline_invalid := b\<rparr>)"
      if "\<And>w. s = Some w \<Longrightarrow> window_ok w" for s b
      by (rule r_into_rtranclp) (rule edit.load[OF False that])
    have same: "st\<lparr>as_deadline_loaded := True\<rparr> = st\<lparr>as_deadline_loaded := True, as_deadline := None, as_deadline_invalid := False\<rparr>"
      "st\<lparr>as_deadline_loaded := True, as_deadline_invalid := True\<rparr> = st\<lparr>as_deadline_loaded := True, as_deadline := None, as_deadline_invalid := True\<rparr>"
      "st\<lparr>as_deadline_loaded := True, as_deadline := Some w\<rparr> = st\<lparr>as_deadline_loaded := True, as_deadline := Some w, as_deadline_invalid := False\<rparr>" for w
      using assms(1) False by (cases st; simp add: unread_def)+
    note e0 = e[of None False, folded same(1)] and e1 = e[of None True, folded same(2)] and u = assms(1)[unfolded unread_def] and l = assms(2)[unfolded load_browser_handover_deadline_def Let_def]
    show ?thesis
    proof (cases "as_bound st")
      case True
      show ?thesis
      proof (cases "ae_file env")
        case (DocFile v)
        show ?thesis
        proof (cases "parse_deadline_state (ae_sha256 env) v")
          case (Inl x)
          with True False DocFile l u e1 show ?thesis by auto
        next
          case (Inr w)
          with True False DocFile l u e[of "Some w" False, folded same(3)] parsed_window_ok[of "ae_sha256 env" v w] show ?thesis by auto
        qed
      qed (use True False l u e0 e1 in auto)
    qed (use False l u e0 in auto)
  qed (use assms(2) in \<open>auto simp: load_browser_handover_deadline_def\<close>)
  then show "(edit env)\<^sup>*\<^sup>* st st1" "as_deadline_loaded st1" "state = as_deadline st1" by auto
  show "as_keys st1 = as_keys st" "as_claimed st1 = as_claimed st" "as_activated st1 = as_activated st"
    "as_migrated_version st1 = as_migrated_version st"
    using assms(2) by (auto simp: load_browser_handover_deadline_def Let_def split: if_splits deadline_file.splits sum.splits)
qed

lemma does_finalize: "does env (finalize_browser_handover_claim env version)"
proof -
  have "(edit env)\<^sup>*\<^sup>* st (snd (mark_browser_handover_claimed env v st))" for v st
    by (auto simp: mark_browser_handover_claimed_def write_browser_handover_deadline_def split: option.split
        intro!: r_into_rtranclp edit.shut)
  then show ?thesis
    unfolding does_def finalize_browser_handover_claim_def
    by (auto split: prod.split sum.split unit.split py_error.split) (metis snd_conv)+
qed

lemma open_window_edit:
  assumes "as_deadline_loaded st"
    "kind = ''recovery'' \<Longrightarrow> version \<notin> set (seen_versions (as_deadline st)) \<and> length (seen_versions (as_deadline st)) < SEEN_LIMIT"
    "kind \<noteq> ''recovery'' \<Longrightarrow> version = []"
  shows "(edit env)\<^sup>*\<^sup>* st (snd (open_window env kind version (as_deadline st) st))"
proof (cases "add_seconds (if kind = ''recovery'' then RECOVERY_TTL else INITIAL_TTL) (ae_now env)")
  case (Inr t)
  let ?d = "\<lparr>hd_kind = kind, hd_version = version, hd_opened = seconds_text (ae_now env), hd_expires = seconds_text t\<rparr>"
  let ?seen = "if kind = ''recovery'' then seen_versions (as_deadline st) @ [version] else seen_versions (as_deadline st)"
  have "snd (open_window env kind version (as_deadline st) st) =
      st\<lparr>as_deadline := Some \<lparr>ho_active = Some ?d, ho_seen = ?seen\<rparr>, as_deadline_invalid := False\<rparr>"
    using Inr by (cases "as_deadline st")
      (auto simp: open_window_def Let_def athen_def write_browser_handover_deadline_def seen_versions_def split: sum.split)
  moreover have "edit env st (st\<lparr>as_deadline := Some \<lparr>ho_active = Some ?d, ho_seen = ?seen\<rparr>, as_deadline_invalid := False\<rparr>)"
    using edit.open_initial[OF assms(1), of ?d env] edit.open_recovery[OF assms(1), of ?d env] assms(2,3)
    by (cases "kind = ''recovery''") simp_all
  ultimately show ?thesis by (simp add: r_into_rtranclp)
qed (simp add: open_window_def)

lemma athen_snd: "snd (athen p (\<lambda>x st. (f x st, st)) st) = snd (p st)"
  by (simp add: athen_def split: prod.split sum.split)

lemma handover_window_edits:
  assumes "as_deadline_loaded st" "state = as_deadline st"
  shows "(edit env)\<^sup>*\<^sup>* st (snd (handover_window env version recovery activate reopen state st))"
proof -
  let ?kind = "if recovery then ''recovery'' else ''initial''" and ?wanted = "if recovery then ae_sha256 env version else []"
  let ?matching = "window_matches state ?kind ?wanted"
  show ?thesis
  proof (cases "window_expired ?matching state (ae_now env)")
    case (Inr expired)
    have "snd (handover_window env version recovery activate reopen state st) \<in> {st, snd (open_window env ?kind ?wanted state st)}"
      using Inr by (simp add: handover_window_def Let_def athen_snd)
    moreover have "(edit env)\<^sup>*\<^sup>* st (snd (open_window env ?kind ?wanted state st))"
      if "snd (handover_window env version recovery activate reopen state st) \<noteq> st"
      unfolding assms(2)
    proof (rule open_window_edit[OF assms(1)])
      assume "?kind = ''recovery''"
      then have recovery by (simp split: if_splits)
      with Inr that assms(2) show "?wanted \<notin> set (seen_versions (as_deadline st)) \<and> length (seen_versions (as_deadline st)) < SEEN_LIMIT"
        by (auto simp: handover_window_def Let_def athen_snd split: if_splits)
    qed (auto split: if_splits)
    ultimately show ?thesis
      by (cases "snd (handover_window env version recovery activate reopen state st) = st") (simp, auto)
  qed (simp add: handover_window_def Let_def)
qed

lemma does_handover_state: "does env (browser_handover_state env version config activate reopen)"
  unfolding does_def
proof (intro allI impI)
  fix st assume u: "unread st"
  obtain state st1 where l: "load_browser_handover_deadline env st = (state, st1)" by (rule prod.exhaust)
  note load = loading[OF u l]
  have "snd (browser_handover_state env version config activate reopen st) \<in> {st1, snd (finalize_browser_handover_claim env (PStr version) st1),
      snd (handover_window env version (wants_recovery version config st) activate reopen state st1)}"
    by (simp add: browser_handover_state_def Let_def l athen_snd)
  then have "(edit env)\<^sup>*\<^sup>* st1 (snd (browser_handover_state env version config activate reopen st))"
    using doesD[OF does_finalize edits_unread[OF load(1) u]] handover_window_edits[OF load(2,3)] by auto
  with load(1) show "(edit env)\<^sup>*\<^sup>* st (snd (browser_handover_state env version config activate reopen st))"
    by (rule rtranclp_trans)
qed

lemma does_handover:
  "does env (get_browser_handover_state env config)" "does env (activate_browser_handover env config)"
  "does env (can_claim_initial_admin env v config)" "does env (claim_initial_admin_if_available env v)"
  "creates env (create_initial_admin_api_key_if_available env v name)"
proof -
  show "does env (get_browser_handover_state env config)"
    using doesD[OF does_handover_state] by (simp add: does_def get_browser_handover_state_def)
  show "does env (activate_browser_handover env config)"
    unfolding does_def activate_browser_handover_def
    using edit_step[OF edit.activate doesD[OF does_handover_state]] edit_unread[OF edit.activate] by blast
  show can: "does env (can_claim_initial_admin env v config)" for v config
    unfolding can_claim_initial_admin_def by (intro does_athen does_handover_state does_trivial does_trims) simp
  have claimed: "(edit env)\<^sup>*\<^sup>* st (note_claimed v st)" for v st
    by (auto simp: note_claimed_def intro: r_into_rtranclp edit.claim)
  have after: "does env (\<lambda>st. p (g st))" if "\<And>st. (edit env)\<^sup>*\<^sup>* st (g st)" "does env p" for p :: "'x auth_op" and g
    unfolding does_def using that doesD[OF that(2)] edits_unread[of env] by (meson rtranclp_trans)
  have note_trims: "trims st (record_event a b st)" for st a b by simp
  have tail: "does env (athen (save_store env) (\<lambda>_. athen (finalize_browser_handover_claim env w) (\<lambda>_ st. (Inr x, record_event a b st))))"
    for w x a b by (intro does_athen does_saving does_finalize does_trims) simp
  have cleared: "(edit env)\<^sup>*\<^sup>* st (clear_bootstrap_exchange r (clear_bootstrap_proof r (note_claimed v st)))" for st r v
    using claimed edit_trim[OF trims_trans[OF trims_clears(1) trims_clears(2)]] by (meson rtranclp_trans)
  show "does env (claim_initial_admin_if_available env v)"
    unfolding claim_initial_admin_if_available_def
    by (rule does_athen[OF can], case_tac x) (simp_all add: does_trivial, rule after[OF claimed tail])
  have made: "creates env (athen (create_api_key_record env name sc) (\<lambda>created st.
      athen (save_store env) (\<lambda>_. athen (finalize_browser_handover_claim env w) (\<lambda>_ st. (Inr (Some created), record_event a b st)))
        (clear_bootstrap_exchange r (clear_bootstrap_proof r (note_claimed u st)))))" for sc w a b r u
    by (intro creates_athen[OF creates_record] after[OF cleared tail])
  show "creates env (create_initial_admin_api_key_if_available env v name)"
    unfolding create_initial_admin_api_key_if_available_def
    by (rule athen_creates[OF can], case_tac x) (simp_all add: does_creates does_trivial, rule made)
qed

section \<open>Calls\<close>

datatype auth_call =
    CreateKey pyval pyval | UpdateKey string pyval pyval | DeleteKey string | RevokeKey string | RotateKey string
  | CreateSession pyval pyval pyval pyval pyval | BrowserSession pyval | RememberedSession pyval
  | FindSession string | InvalidateSession pyval
  | EnsureProof | EnsureExchange | PeekProof pyval | PeekExchange pyval | ConsumeProof pyval | ConsumeExchange pyval
  | ClearProof string | ClearExchange string | SaveStore
  | HandoverState "pyval option" | ActivateHandover "pyval option" | CanClaim pyval "pyval option"
  | FinalizeClaim pyval | ClaimAdmin pyval | CreateAdmin pyval pyval

fun run_call :: "auth_env \<Rightarrow> auth_call \<Rightarrow> auth_store \<Rightarrow> auth_store" where
  "run_call env (CreateKey name scopes) st = snd (create_api_key env name scopes st)"
| "run_call env (UpdateKey key_id name scopes) st = snd (update_api_key env key_id name scopes st)"
| "run_call env (DeleteKey key_id) st = snd (delete_api_key env key_id st)"
| "run_call env (RevokeKey key_id) st = snd (revoke_api_key env key_id st)"
| "run_call env (RotateKey key_id) st = snd (rotate_api_key env key_id st)"
| "run_call env (CreateSession scopes b i h r) st = snd (create_ui_session env scopes b i h r st)"
| "run_call env (BrowserSession key_id) st = snd (create_browser_session_for_api_key env key_id st)"
| "run_call env (RememberedSession key_id) st = snd (create_remembered_browser_session_for_api_key env key_id st)"
| "run_call env (FindSession secret) st = snd (find_ui_session_by_secret env secret st)"
| "run_call env (InvalidateSession secret) st = snd (invalidate_ui_session env secret st)"
| "run_call env EnsureProof st = snd (ensure_bootstrap_proof env st)"
| "run_call env EnsureExchange st = snd (ensure_bootstrap_exchange env st)"
| "run_call env (PeekProof secret) st = snd (peek_bootstrap_proof env secret st)"
| "run_call env (PeekExchange secret) st = snd (peek_bootstrap_exchange env secret st)"
| "run_call env (ConsumeProof secret) st = snd (consume_bootstrap_proof env secret st)"
| "run_call env (ConsumeExchange secret) st = snd (consume_bootstrap_exchange env secret st)"
| "run_call env (ClearProof reason) st = clear_bootstrap_proof reason st"
| "run_call env (ClearExchange reason) st = clear_bootstrap_exchange reason st"
| "run_call env SaveStore st = snd (save_store env st)"
| "run_call env (HandoverState config) st = snd (get_browser_handover_state env config st)"
| "run_call env (ActivateHandover config) st = snd (activate_browser_handover env config st)"
| "run_call env (CanClaim version config) st = snd (can_claim_initial_admin env version config st)"
| "run_call env (FinalizeClaim version) st = snd (finalize_browser_handover_claim env version st)"
| "run_call env (ClaimAdmin version) st = snd (claim_initial_admin_if_available env version st)"
| "run_call env (CreateAdmin version name) st = snd (create_initial_admin_api_key_if_available env version name st)"

text \<open>A step is a call in an environment with a valid clock whose identifier and token are new: they
  are none of the identifiers in use and none of the given texts.\<close>

definition auth_step :: "string set \<Rightarrow> auth_store \<Rightarrow> auth_store \<Rightarrow> bool" where
  "auth_step used st st' \<longleftrightarrow> (\<exists>env call. env_ok env \<and> ae_uuid env \<notin> used \<union> ak_id ` set (as_keys st) \<and> ae_token env \<notin> used \<and>
     st' = run_call env call st)"

lemmas does_calls = does_update does_delete does_revoke does_rotate does_create_ui_session
  does_session_for_key does_find does_invalidate does_bootstrap does_saving does_handover(1-4) does_finalize

lemma run_call_edits:
  assumes "env_ok env" "unread st"
  shows "call_edits env st (run_call env call st)"
proof -
  have d: "does env p \<Longrightarrow> call_edits env st (snd (p st))" for p :: "'a auth_op"
    using doesD assms(2) by (auto simp: call_edits_def)
  have t: "trims st st' \<Longrightarrow> call_edits env st st'" for st' by (simp add: call_edits_def edit_trim)
  show ?thesis
    by (cases call) (simp_all add: d does_calls assms createsD creates_api_key does_handover(5)
        create_browser_session_for_api_key_def create_remembered_browser_session_for_api_key_def t trims_clears)
qed

section \<open>What every call keeps\<close>

text \<open>A property that trimming, edits and new keys keep is kept by every call.\<close>

lemma call_keeps:
  assumes "\<And>a b. edit env a b \<Longrightarrow> P a \<Longrightarrow> P b" "\<And>a b. adds_key env a b \<Longrightarrow> P a \<Longrightarrow> P b"
    "env_ok env" "unread st" "P st"
  shows "P (run_call env call st)"
proof -
  have "P b" if "(edit env)\<^sup>*\<^sup>* a b" "P a" for a b
    using that by (induction rule: rtranclp_induct) (auto intro: assms(1))
  with assms(2,5) run_call_edits[OF assms(3,4), of call] show ?thesis
    unfolding call_edits_def by metis
qed

definition auth_ok :: "auth_store \<Rightarrow> bool" where
  "auth_ok st \<longleftrightarrow> unread st \<and> distinct (map ak_id (as_keys st)) \<and> list_all (\<lambda>k. scopes_ok (ak_scopes k)) (as_keys st) \<and>
     dict_ok (as_sessions st) \<and> list_all (\<lambda>(secret, s). session_ok secret s) (as_sessions st) \<and>
     (case as_deadline st of None \<Rightarrow> True | Some state \<Rightarrow> window_ok state)"

end
