(* ===== verification/Auth_Document.thy ===== *)
theory Auth_Document
  imports Auth_Calls "HOL-Library.Product_Lexorder"
begin

text \<open>
  \<open>web/auth_store.py\<close>, part four: the store as a JSON document (\<open>to_str\<close> and \<open>from_str\<close>), and the
  invariant that loading and every call keep.
\<close>

section \<open>Documents\<close>

abbreviation auth_persist_error :: py_error where
  "auth_persist_error \<equiv> AppError ''PersistError'' []"

definition opt_doc :: "string option \<Rightarrow> pyval" where
  "opt_doc v = (case v of None \<Rightarrow> PNone | Some s \<Rightarrow> PStr s)"

definition api_key_doc :: "api_key \<Rightarrow> pyval" where
  "api_key_doc k = PDict [(''id'', PStr (ak_id k)), (''name'', PStr (ak_name k)), (''scopes'', PList (map PStr (ak_scopes k))),
     (''secret_hash'', PStr (ak_hash k)), (''created_at'', PStr (ak_created k)), (''updated_at'', PStr (ak_updated k)),
     (''revoked_at'', opt_doc (ak_revoked k))]"

definition ui_session_doc :: "ui_session \<Rightarrow> pyval" where
  "ui_session_doc s = PDict [(''secret'', PStr (us_secret s)), (''scopes'', PList (map PStr (us_scopes s))),
     (''created_at'', PStr (us_created s)), (''expires_at'', PStr (us_expires s)), (''bootstrap'', PBool (us_bootstrap s)),
     (''remembered'', PBool (us_remembered s)), (''api_key_id'', opt_doc (us_key_id s)),
     (''api_key_secret_hash'', opt_doc (us_key_hash s))]"

definition store_doc :: "auth_store \<Rightarrow> pyval" where
  "store_doc st = PDict [(''version'', PInt 3), (''api_keys'', PList (map api_key_doc (as_keys st))),
     (''ui_sessions'', PList (map ui_session_doc (sort_key (\<lambda>s. (us_created s, us_secret s)) (map snd (as_sessions st))))),
     (''browser_handover_claimed_version'', PStr (as_claimed st))]"

text \<open>\<open>to_str\<close>: the document of the store, after what is over was dropped.\<close>

definition store_to_doc :: "datetime \<Rightarrow> pyval auth_op" where
  "store_to_doc now = athen (prune_all now) (\<lambda>_ st. (Inr (store_doc st), st))"

definition required_string_field :: "(string, pyval) dict \<Rightarrow> string \<Rightarrow> string result" where
  "required_string_field d k = (case dict_get d k of Some (PStr s) \<Rightarrow> Inr s | _ \<Rightarrow> Inl auth_persist_error)"

definition optional_string_field :: "(string, pyval) dict \<Rightarrow> string \<Rightarrow> string option result" where
  "optional_string_field d k =
     (case get_or_none d k of PNone \<Rightarrow> Inr None | PStr s \<Rightarrow> Inr (Some s) | _ \<Rightarrow> Inl auth_persist_error)"

definition bool_field :: "(string, pyval) dict \<Rightarrow> string \<Rightarrow> bool result" where
  "bool_field d k = (case dict_get d k of None \<Rightarrow> Inr False | Some (PBool b) \<Rightarrow> Inr b | _ \<Rightarrow> Inl auth_persist_error)"

definition scopes_field :: "(string, pyval) dict \<Rightarrow> string list result" where
  "scopes_field d =
     (case normalize_scopes (case dict_get d ''scopes'' of None \<Rightarrow> PList [] | Some v \<Rightarrow> v) of
        Inl e \<Rightarrow> Inl auth_persist_error | Inr scopes \<Rightarrow> Inr scopes)"

definition read_api_key :: "pyval \<Rightarrow> api_key result" where
  "read_api_key v =
     (case v of
        PDict d \<Rightarrow>
          rbind (required_string_field d ''id'') (\<lambda>i.
          rbind (required_string_field d ''name'') (\<lambda>n.
          rbind (scopes_field d) (\<lambda>sc.
          rbind (required_string_field d ''secret_hash'') (\<lambda>h.
          rbind (required_string_field d ''created_at'') (\<lambda>c.
          rbind (required_string_field d ''updated_at'') (\<lambda>u.
          rbind (optional_string_field d ''revoked_at'') (\<lambda>r.
            Inr \<lparr>ak_id = i, ak_name = n, ak_scopes = sc, ak_hash = h, ak_created = c, ak_updated = u, ak_revoked = r\<rparr>)))))))
      | _ \<Rightarrow> Inl auth_persist_error)"

definition read_ui_session :: "pyval \<Rightarrow> ui_session result" where
  "read_ui_session v =
     (case v of
        PDict d \<Rightarrow>
          rbind (optional_string_field d ''api_key_id'') (\<lambda>i.
          rbind (optional_string_field d ''api_key_secret_hash'') (\<lambda>h.
          rbind (bool_field d ''remembered'') (\<lambda>r.
          rbind (required_string_field d ''secret'') (\<lambda>s.
          rbind (bool_field d ''bootstrap'') (\<lambda>b.
          rbind (scopes_field d) (\<lambda>sc.
          rbind (required_string_field d ''created_at'') (\<lambda>c.
          rbind (required_string_field d ''expires_at'') (\<lambda>e.
            Inr \<lparr>us_secret = s, us_scopes = sc, us_created = c, us_expires = e, us_bootstrap = b, us_remembered = r,
              us_key_id = i, us_key_hash = h\<rparr>))))))))
      | _ \<Rightarrow> Inl auth_persist_error)"

fun read_api_keys :: "pyval list \<Rightarrow> api_key list result" where
  "read_api_keys [] = Inr []"
| "read_api_keys (v # vs) = rbind (read_api_key v) (\<lambda>k. rbind (read_api_keys vs) (\<lambda>ks. Inr (k # ks)))"

fun read_ui_sessions :: "pyval list \<Rightarrow> (string, ui_session) dict \<Rightarrow> (string, ui_session) dict result" where
  "read_ui_sessions [] sessions = Inr sessions"
| "read_ui_sessions (v # vs) sessions =
     rbind (read_ui_session v) (\<lambda>s. read_ui_sessions vs (dict_set (us_secret s) s sessions))"

definition list_field :: "(string, pyval) dict \<Rightarrow> string \<Rightarrow> pyval list result" where
  "list_field d k = (case dict_get d k of None \<Rightarrow> Inr [] | Some (PList vs) \<Rightarrow> Inr vs | _ \<Rightarrow> Inl auth_persist_error)"

definition version_ok :: "(string, pyval) dict \<Rightarrow> bool" where
  "version_ok d = (case dict_get d ''version'' of None \<Rightarrow> True | Some (PInt n) \<Rightarrow> n \<ge> 1 | _ \<Rightarrow> False)"

definition store_from_doc :: "pyval \<Rightarrow> auth_store result" where
  "store_from_doc v =
     (case v of
        PDict d \<Rightarrow>
          (if \<not> version_ok d then Inl auth_persist_error
           else rbind (optional_string_field d ''browser_handover_claimed_version'') (\<lambda>claimed.
                rbind (list_field d ''api_keys'') (\<lambda>records.
                rbind (read_api_keys records) (\<lambda>keys.
                rbind (list_field d ''ui_sessions'') (\<lambda>raw.
                rbind (read_ui_sessions raw []) (\<lambda>sessions.
                  Inr ((new_auth_store False)\<lparr>as_claimed := (case claimed of None \<Rightarrow> [] | Some s \<Rightarrow> s),
                    as_keys := keys, as_sessions := sessions\<rparr>)))))))
      | _ \<Rightarrow> Inl auth_persist_error)"

section \<open>Round trip\<close>

lemma optional_string_doc: "dict_get d k = Some (opt_doc v) \<Longrightarrow> optional_string_field d k = Inr v"
  by (cases v) (simp_all add: optional_string_field_def get_or_none_def opt_doc_def)

lemma scopes_field_doc:
  "dict_get d ''scopes'' = Some (PList (map PStr scopes)) \<Longrightarrow> scopes_ok scopes \<Longrightarrow> scopes_field d = Inr scopes"
  by (simp add: scopes_field_def normalize_scopes_fixed)

lemma read_api_key_doc: "scopes_ok (ak_scopes k) \<Longrightarrow> read_api_key (api_key_doc k) = Inr k"
  by (cases k) (simp add: read_api_key_def api_key_doc_def required_string_field_def optional_string_doc scopes_field_doc)

lemma read_ui_session_doc: "scopes_ok (us_scopes s) \<Longrightarrow> read_ui_session (ui_session_doc s) = Inr s"
  by (cases s) (simp add: read_ui_session_def ui_session_doc_def required_string_field_def optional_string_doc scopes_field_doc
      bool_field_def)

lemma read_api_keys_docs: "list_all (\<lambda>k. scopes_ok (ak_scopes k)) ks \<Longrightarrow> read_api_keys (map api_key_doc ks) = Inr ks"
  by (induction ks) (simp_all add: read_api_key_doc)

lemma read_ui_sessions_docs:
  "list_all (\<lambda>s. scopes_ok (us_scopes s)) ss \<Longrightarrow>
   read_ui_sessions (map ui_session_doc ss) d = Inr (fold (\<lambda>s. dict_set (us_secret s) s) ss d)"
  by (induction ss arbitrary: d) (simp_all add: read_ui_session_doc)

lemma fold_sessions:
  assumes "distinct (map us_secret ss)"
  shows "map_of (fold (\<lambda>s. dict_set (us_secret s) s) ss d) = map_of d ++ map_of (map (\<lambda>s. (us_secret s, s)) ss)"
  using assms
proof (induction ss arbitrary: d)
  case (Cons s ss)
  then have "us_secret s \<notin> dom (map_of (map (\<lambda>s. (us_secret s, s)) ss))" by (auto simp: dom_map_of_conv_image_fst image_image)
  then have "map_of (map (\<lambda>s. (us_secret s, s)) ss) (us_secret s) = None" by blast
  then show ?case using Cons by (auto simp: fun_eq_iff map_add_def split: option.split)
qed simp

lemma sessions_as_values:
  assumes "dict_ok d" "list_all (\<lambda>(secret, s). us_secret s = secret) d"
  shows "map (\<lambda>s. (us_secret s, s)) (map snd d) = d"
  using assms by (induction d) auto

lemma sorted_sessions_map:
  assumes "dict_ok d" "list_all (\<lambda>(secret, s). us_secret s = secret) d"
  shows "map_of (fold (\<lambda>s. dict_set (us_secret s) s) (sort_key f (map snd d)) []) = map_of d"
proof -
  let ?ss = "sort_key f (map snd d)"
  have v: "map (\<lambda>s. (us_secret s, s)) (map snd d) = d" by (rule sessions_as_values[OF assms])
  have "map us_secret (map snd d) = map fst d" using arg_cong[OF v, of "map fst"] by (simp add: comp_def)
  then have dist: "distinct (map us_secret (map snd d))" using assms(1) by (simp only:)
  then have "distinct (map snd d)" "inj_on us_secret (set (map snd d))" by (simp_all only: distinct_map)
  then have d2: "distinct (map us_secret ?ss)" by (simp only: distinct_map distinct_sort set_sort)
  have "set (map (\<lambda>s. (us_secret s, s)) ?ss) = set d" using arg_cong[OF v, of set] by (simp add: image_image)
  moreover have "distinct (map fst (map (\<lambda>s. (us_secret s, s)) ?ss))" using d2 by (simp add: comp_def)
  ultimately have "map_of (map (\<lambda>s. (us_secret s, s)) ?ss) = map_of d"
    using assms(1) map_of_inject_set by blast
  then show ?thesis using fold_sessions[OF d2, of "[]"] by simp
qed

lemma dict_ok_fold_sessions: "dict_ok d \<Longrightarrow> dict_ok (fold (\<lambda>s. dict_set (us_secret s) s) ss d)"
  by (induction ss arbitrary: d) auto

section \<open>The invariant\<close>

lemma dict_list_all: "dict_ok d \<Longrightarrow> list_all (\<lambda>(k, v). P k v) d \<longleftrightarrow> (\<forall>k v. dict_get d k = Some v \<longrightarrow> P k v)"
  by (auto simp: list_all_iff map_of_eq_Some_iff)

lemma change_key_ids: "ak_id k' = key_id \<Longrightarrow> map ak_id (change_key key_id (\<lambda>_. k') ks) = map ak_id ks"
  by (induction ks) auto

lemma change_key_members: "k \<in> set (change_key key_id (\<lambda>_. k') ks) \<Longrightarrow> k = k' \<or> k \<in> set ks"
  by (induction ks) (auto split: if_splits)

lemma trims_ok: "trims st st' \<Longrightarrow> auth_ok st \<Longrightarrow> auth_ok st'"
proof -
  assume t: "trims st st'" and ok: "auth_ok st"
  have d: "dict_ok (as_sessions st)" "dict_ok (as_sessions st')" using t ok by (auto simp: trims_def auth_ok_def)
  have "\<forall>k v. dict_get (as_sessions st) k = Some v \<longrightarrow> session_ok k v"
    using ok unfolding auth_ok_def dict_list_all[OF d(1)] by simp
  moreover have "map_of (as_sessions st') \<subseteq>\<^sub>m map_of (as_sessions st)" using t by (simp add: trims_def)
  ultimately have "\<forall>k v. dict_get (as_sessions st') k = Some v \<longrightarrow> session_ok k v"
    by (metis (no_types, lifting) domI map_le_def)
  with t ok d show ?thesis
    unfolding auth_ok_def dict_list_all[OF d(2)] by (simp add: trims_def store_frame_eq unread_def)
qed

lemma edit_ok: "edit env st st' \<Longrightarrow> auth_ok st \<Longrightarrow> auth_ok st'"
proof (induction rule: edit.induct)
  case (trim st st')
  then show ?case by (simp add: trims_ok)
next
  case (change key_id st k k')
  then have "scopes_ok (ak_scopes k')"
    using get_api_key_id[of key_id st k] by (auto simp: auth_ok_def list_all_iff)
  with change show ?case
    using change_key_ids[of k' key_id "as_keys st"] change_key_members[of _ key_id k' "as_keys st"]
    by (auto simp: auth_ok_def change_record_def unread_def list_all_iff)
next
  case (remove st k)
  then show ?case by (auto simp: auth_ok_def unread_def list_all_iff distinct_map notin_set_remove1 dest: set_remove1_subset[THEN subsetD]
      intro: inj_on_diff)
next
  case (add_session s st)
  have d: "dict_ok (as_sessions st)" "dict_ok (dict_set (ae_token env) s (as_sessions st))" using add_session by (auto simp: auth_ok_def)
  have "\<forall>k v. dict_get (as_sessions st) k = Some v \<longrightarrow> session_ok k v"
    using add_session(2) unfolding auth_ok_def dict_list_all[OF d(1)] by simp
  with add_session(1) have "\<forall>k v. dict_get (dict_set (ae_token env) s (as_sessions st)) k = Some v \<longrightarrow> session_ok k v" by simp
  with add_session(2) d show ?case
    unfolding auth_ok_def by (simp add: dict_list_all[OF d(2)] unread_def)
next
  case (open_initial st d)
  then show ?case by (cases "as_deadline st") (auto simp: auth_ok_def unread_def window_ok_def seen_versions_def SEEN_LIMIT_def)
next
  case (open_recovery st d)
  then show ?case by (cases "as_deadline st") (auto simp: auth_ok_def unread_def window_ok_def seen_versions_def SEEN_LIMIT_def)
qed (auto simp: auth_ok_def unread_def window_ok_def split: option.split)

lemma edit_ids: "edit env st st' \<Longrightarrow> ak_id ` set (as_keys st') \<subseteq> ak_id ` set (as_keys st)"
proof (induction rule: edit.induct)
  case (trim st st')
  then show ?case by (simp add: trims_def store_frame_eq)
next
  case (change key_id st k k')
  then show ?case
    using arg_cong[OF change_key_ids[of k' key_id "as_keys st"], of set] by (simp add: change_record_def)
next
  case (remove st k)
  then show ?case by (auto dest: set_remove1_subset[THEN subsetD])
qed auto

lemma run_call_ok:
  assumes "env_ok env" "ae_uuid env \<notin> ak_id ` set (as_keys st)" "auth_ok st"
  shows "auth_ok (run_call env call st)"
proof -
  have ok: "(edit env)\<^sup>*\<^sup>* a b \<Longrightarrow> auth_ok a \<Longrightarrow> auth_ok b" for a b
    by (induction rule: rtranclp_induct) (auto intro: edit_ok)
  have ids: "(edit env)\<^sup>*\<^sup>* a b \<Longrightarrow> ak_id ` set (as_keys b) \<subseteq> ak_id ` set (as_keys a)" for a b
  proof (induction rule: rtranclp_induct)
    case (step y z)
    then show ?case using edit_ids[of env y z] by blast
  qed simp
  have added: "auth_ok b" if "adds_key env a b" "auth_ok a" "ae_uuid env \<notin> ak_id ` set (as_keys a)" for a b
    using that by (auto simp: adds_key_def auth_ok_def unread_def)
  have "unread st" using assms(3) by (simp add: auth_ok_def)
  from run_call_edits[OF assms(1) this, of call] show ?thesis
    unfolding call_edits_def using ok ids added assms(2,3) by (metis (no_types, lifting) subsetD)
qed

text \<open>A store as it is at the start: new, or read from a document with one record for each identifier
  and no session whose expiry lacks an offset.\<close>

definition auth_loaded :: "auth_store \<Rightarrow> bool" where
  "auth_loaded st \<longleftrightarrow> (\<exists>bound. st = new_auth_store bound) \<or>
     (\<exists>doc st0 bound. store_from_doc doc = Inr st0 \<and> st = st0\<lparr>as_bound := bound\<rparr> \<and>
        distinct (map ak_id (as_keys st)) \<and>
        list_all (\<lambda>(_, s). us_remembered s \<or> \<not> naive_text (us_expires s)) (as_sessions st))"

lemma scopes_field_ok: "scopes_field d = Inr scopes \<Longrightarrow> scopes_ok scopes"
  by (auto simp: scopes_field_def dest: normalize_scopes_ok split: sum.splits)

lemma read_api_keys_ok: "read_api_keys vs = Inr ks \<Longrightarrow> list_all (\<lambda>k. scopes_ok (ak_scopes k)) ks"
  by (induction vs arbitrary: ks)
    (auto simp: rbind_Inr_iff read_api_key_def dest!: scopes_field_ok split: pyval.splits)

lemma read_ui_sessions_ok:
  "read_ui_sessions vs d = Inr d' \<Longrightarrow> dict_ok d \<Longrightarrow>
   \<forall>k s. dict_get d k = Some s \<longrightarrow> us_secret s = k \<and> scopes_ok (us_scopes s) \<Longrightarrow>
   dict_ok d' \<and> (\<forall>k s. dict_get d' k = Some s \<longrightarrow> us_secret s = k \<and> scopes_ok (us_scopes s))"
proof (induction vs arbitrary: d)
  case (Cons v vs)
  then obtain s where s: "read_ui_session v = Inr s" "read_ui_sessions vs (dict_set (us_secret s) s d) = Inr d'"
    by (auto simp: rbind_Inr_iff)
  have "scopes_ok (us_scopes s)"
    using s(1) by (auto simp: read_ui_session_def rbind_Inr_iff dest!: scopes_field_ok split: pyval.splits)
  with Cons.prems show ?case by (intro Cons.IH[OF s(2)]) auto
qed simp

lemma auth_loaded_ok: "auth_loaded st \<Longrightarrow> auth_ok st"
proof -
  assume "auth_loaded st"
  then consider (new) bound where "st = new_auth_store bound"
    | (read) doc st0 bound where "store_from_doc doc = Inr st0" "st = st0\<lparr>as_bound := bound\<rparr>" "distinct (map ak_id (as_keys st))"
        "list_all (\<lambda>(_, s). us_remembered s \<or> \<not> naive_text (us_expires s)) (as_sessions st)"
    unfolding auth_loaded_def by blast
  then show "auth_ok st"
  proof cases
    case new
    then show ?thesis by (simp add: auth_ok_def unread_def new_auth_store_def)
  next
    case read
    obtain vs ks ws claimed sessions where r: "read_api_keys vs = Inr ks" "read_ui_sessions ws [] = Inr sessions"
      "st0 = (new_auth_store False)\<lparr>as_claimed := claimed, as_keys := ks, as_sessions := sessions\<rparr>"
      using read(1) by (auto simp: store_from_doc_def rbind_Inr_iff split: pyval.splits if_splits)
    note s = read_ui_sessions_ok[OF r(2)]
    have d: "dict_ok sessions" using s by simp
    have "list_all (\<lambda>(k, s). session_ok k s) sessions"
      unfolding dict_list_all[OF d] session_ok_def
      using s read(2,4) r(3) dict_list_all[OF d, of "\<lambda>_ s. us_remembered s \<or> \<not> naive_text (us_expires s)"] by simp
    then show ?thesis
      using read(2,3) r(3) read_api_keys_ok[OF r(1)] d by (simp add: auth_ok_def unread_def new_auth_store_def)
  qed
qed

interpretation auth: invariant_system auth_loaded "auth_step used" auth_ok for used
proof
  show "auth_loaded st \<Longrightarrow> auth_ok st" for st by (rule auth_loaded_ok)
  show "auth_ok st \<Longrightarrow> auth_step used st st' \<Longrightarrow> auth_ok st'" for st st'
    unfolding auth_step_def using run_call_ok by blast
qed

end
