(* ===== verification/Auth_Safety.thy ===== *)
theory Auth_Safety
  imports Auth_Document
begin

text \<open>
  What the calls of the authentication store cannot undo: a revoked key, a used bootstrap secret and a
  recovery window that was opened; and how long sessions live.
\<close>

section \<open>Revoked keys\<close>

definition retired :: "string \<Rightarrow> auth_store \<Rightarrow> bool" where
  "retired key_id st \<longleftrightarrow> unread st \<and> list_all (\<lambda>k. ak_id k = key_id \<longrightarrow> is_revoked k) (as_keys st)"

lemma edit_retired: "edit env st st' \<Longrightarrow> retired key_id st \<Longrightarrow> retired key_id st'"
proof -
  assume e: "edit env st st'" and r: "retired key_id st"
  have "list_all (\<lambda>k. ak_id k = key_id \<longrightarrow> is_revoked k) (as_keys st')"
    using e r
  proof (induction rule: edit.induct)
    case (trim st st')
    then show ?case by (simp add: retired_def trims_def store_frame_eq)
  next
    case (change i st k k')
    then have "i \<noteq> key_id" using get_api_key_id[of i st k] by (auto simp: retired_def list_all_iff)
    then show ?case using change change_key_members[of _ i k' "as_keys st"]
      by (auto simp: retired_def change_record_def list_all_iff)
  next
    case (remove st k)
    then show ?case by (auto simp: retired_def list_all_iff dest: set_remove1_subset[THEN subsetD])
  qed (simp_all add: retired_def)
  with edit_unread[OF e] r show ?thesis by (simp add: retired_def)
qed

interpretation retirement: invariant_system "retired key_id" "auth_step (insert key_id used)" "retired key_id" for key_id used
proof
  show "retired key_id st'" if now: "retired key_id st" and step: "auth_step (insert key_id used) st st'" for st st'
  proof -
    obtain env call where e: "env_ok env" "ae_uuid env \<noteq> key_id" "st' = run_call env call st"
      using step by (auto simp: auth_step_def)
    have "retired key_id b" if "adds_key env a b" "retired key_id a" for a b
      using that e(2) adds_key_unread[OF that(1)] by (auto simp: adds_key_def retired_def)
    with call_keeps[of env "retired key_id" st call] edit_retired e now show ?thesis
      by (auto simp: retired_def)
  qed
qed

lemma change_key_retires:
  "distinct (map ak_id ks) \<Longrightarrow> is_revoked k' \<Longrightarrow> k \<in> set (change_key key_id (\<lambda>_. k') ks) \<Longrightarrow> ak_id k = key_id \<Longrightarrow> is_revoked k"
proof (induction ks)
  case (Cons a ks)
  then show ?case by (cases "ak_id a = key_id") auto
qed simp

lemma revoke_retires:
  assumes "auth_ok st" "env_ok env" "revoke_api_key env key_id st = (Inr k, st1)"
  shows "retired key_id st1" "list_all (\<lambda>(_, s). us_key_id s \<noteq> Some key_id) (as_sessions st1)"
proof -
  obtain k0 where k0: "get_api_key key_id st = Some k0" "\<not> is_revoked k0"
    using assms(3) by (auto simp: revoke_api_key_def split: option.splits if_splits)
  let ?k = "k0\<lparr>ak_revoked := Some (seconds_text (ae_now env)), ak_updated := seconds_text (ae_now env)\<rparr>"
  let ?m = "discard_browser_sessions_for_api_key key_id ''api_key_revoked'' (change_record key_id (\<lambda>_. ?k) st)"
  have id: "ak_id k0 = key_id" using get_api_key_id[OF k0(1)] by simp
  have st1: "st1 = snd (save_and_record env ''api_key_revoked'' ''api_key_revoked'' ?k ?m)"
    using assms(3) k0 id by (simp add: revoke_api_key_def Let_def)
  then have t: "trims ?m st1" using trims_save_and_record by simp
  have frame: "store_frame ?m = store_frame (change_record key_id (\<lambda>_. ?k) st)" using trims_discard by (simp add: trims_def)
  have keys: "as_keys st1 = change_key key_id (\<lambda>_. ?k) (as_keys st)"
    using t frame by (simp add: trims_def store_frame_eq change_record_def)
  have "unread st1" using edits_unread[OF doesD[OF does_revoke]] assms(1,3) by (metis auth_ok_def snd_conv)
  moreover have "is_revoked ?k" by (simp add: is_revoked_def)
  ultimately show "retired key_id st1"
    using assms(1) change_key_retires[of "as_keys st" ?k _ key_id] by (auto simp: retired_def keys list_all_iff auth_ok_def)
  have gone: "dict_get (as_sessions ?m) secret = Some s \<Longrightarrow> us_key_id s \<noteq> Some key_id" for secret s
  proof -
    assume "dict_get (as_sessions ?m) secret = Some s"
    then have "secret \<notin> fst ` set (filter (\<lambda>(_, s). us_key_id s = Some key_id) (as_sessions st))" "dict_get (as_sessions st) secret = Some s"
      by (auto simp: discard_browser_sessions_for_api_key_def record_event_def change_record_def fold_pop_get split: if_splits)
    then show ?thesis by (force dest: map_of_SomeD)
  qed
  have d: "dict_ok (as_sessions ?m)"
    using assms(1) by (simp add: discard_browser_sessions_for_api_key_def record_event_def change_record_def auth_ok_def fold_pop_ok)
  then have d1: "dict_ok (as_sessions st1)" using t by (simp add: trims_def)
  show "list_all (\<lambda>(_, s). us_key_id s \<noteq> Some key_id) (as_sessions st1)"
    unfolding dict_list_all[OF d1]
  proof (intro allI impI)
    fix secret s assume s: "dict_get (as_sessions st1) secret = Some s"
    have "map_of (as_sessions st1) \<subseteq>\<^sub>m map_of (as_sessions ?m)" using t by (simp add: trims_def)
    moreover have "secret \<in> dom (map_of (as_sessions st1))" using s by (rule domI)
    ultimately have "dict_get (as_sessions ?m) secret = Some s" using s unfolding map_le_def by simp
    then show "us_key_id s \<noteq> Some key_id" by (rule gone)
  qed
qed

lemma find_by_secret_member: "find_by_secret kdf secret ks = Inr (Some k) \<Longrightarrow> k \<in> set ks"
  by (induction ks) (auto simp: rbind_Inr_iff split: if_splits)

lemma retired_refused:
  assumes "retired key_id st"
  shows "resolve_ui_session_api_key session st = Inr (Some k) \<Longrightarrow> ak_id k \<noteq> key_id"
    and "find_api_key_by_secret kdf secret st = Inr (Some k) \<Longrightarrow> ak_id k = key_id \<Longrightarrow> is_revoked k"
proof -
  assume "resolve_ui_session_api_key session st = Inr (Some k)"
  then obtain i where "get_api_key i st = Some k" "\<not> is_revoked k"
    by (auto simp: resolve_ui_session_api_key_def rbind_Inr_iff split: option.splits if_splits)
  with assms show "ak_id k \<noteq> key_id" using get_api_key_id by (fastforce simp: retired_def list_all_iff)
next
  assume "find_api_key_by_secret kdf secret st = Inr (Some k)" "ak_id k = key_id"
  with assms show "is_revoked k"
    using find_by_secret_member[of kdf secret "as_keys st" k] by (auto simp: find_api_key_by_secret_def retired_def list_all_iff)
qed

section \<open>Bootstrap secrets\<close>

definition spent :: "string \<Rightarrow> auth_store \<Rightarrow> bool" where
  "spent secret st \<longleftrightarrow> unread st \<and> (case as_proof st of None \<Rightarrow> True | Some b \<Rightarrow> bs_secret b \<noteq> secret)"

lemma edit_spent: "edit env st st' \<Longrightarrow> ae_token env \<noteq> secret \<Longrightarrow> spent secret st \<Longrightarrow> spent secret st'"
proof -
  assume e: "edit env st st'" and t: "ae_token env \<noteq> secret" and s: "spent secret st"
  have "case as_proof st' of None \<Rightarrow> True | Some b \<Rightarrow> bs_secret b \<noteq> secret"
    using e s t by (induction rule: edit.induct) (auto simp: spent_def trims_def change_record_def split: option.splits)
  with edit_unread[OF e] s show ?thesis by (simp add: spent_def)
qed

interpretation spending: invariant_system "spent secret" "auth_step (insert secret used)" "spent secret" for secret used
proof
  show "spent secret st'" if now: "spent secret st" and step: "auth_step (insert secret used) st st'" for st st'
  proof -
    obtain env call where e: "env_ok env" "ae_token env \<noteq> secret" "st' = run_call env call st"
      using step by (auto simp: auth_step_def)
    have "spent secret b" if "adds_key env a b" "spent secret a" for a b
      using that adds_key_unread[OF that(1)] by (auto simp: adds_key_def spent_def)
    with call_keeps[of env "spent secret" st call] edit_spent[OF _ e(2)] e now show ?thesis
      by (auto simp: spent_def)
  qed
qed

lemma pruned_proof:
  "prune_bootstrap_proof now st = (Inr (), st') \<Longrightarrow> as_proof st' = Some b \<Longrightarrow>
   as_proof st = Some b \<and> secret_over now b = Inr False"
  by (auto simp: prune_bootstrap_proof_def clear_bootstrap_proof_def record_event_def split: option.splits sum.splits if_splits)

lemma consumed_proof:
  assumes "consume_bootstrap_proof env (PStr secret) st = (Inr True, st1)"
  shows "\<exists>b. as_proof st = Some b \<and> bs_secret b = strip secret \<and> secret_over (ae_now env) b = Inr False" "as_proof st1 = None"
proof -
  obtain st2 where p: "peek_bootstrap_proof env (PStr secret) st = (Inr True, st2)"
    and st1: "st1 = record_event ''bootstrap_proof_cleared'' ''consumed'' (st2\<lparr>as_proof := None\<rparr>)"
    using assms by (auto simp: consume_bootstrap_proof_def athen_def split: prod.splits sum.splits if_splits)
  obtain st3 b where s: "prune_bootstrap_proof (ae_now env) st = (Inr (), st3)" "as_proof st3 = Some b" "bs_secret b = strip secret"
    using p by (auto simp: peek_bootstrap_proof_def athen_def text_of_def compare_digest_def split: prod.splits sum.splits if_splits option.splits)
  from pruned_proof[OF s(1,2)] s(3) show "\<exists>b. as_proof st = Some b \<and> bs_secret b = strip secret \<and> secret_over (ae_now env) b = Inr False"
    by blast
  show "as_proof st1 = None" by (simp add: st1 record_event_def)
qed

section \<open>Recovery windows\<close>

definition opened_once :: "string \<Rightarrow> handover_deadline \<Rightarrow> auth_store \<Rightarrow> bool" where
  "opened_once version d st \<longleftrightarrow> as_deadline_loaded st \<and> version \<in> set (seen_versions (as_deadline st)) \<and>
     (\<forall>d'. active_window (as_deadline st) = Some d' \<longrightarrow> hd_version d' = version \<longrightarrow> d' = d)"

lemma edit_opened_once:
  "edit env st st' \<Longrightarrow> version \<noteq> [] \<Longrightarrow> opened_once version d st \<Longrightarrow> opened_once version d st'"
proof (induction rule: edit.induct)
  case (open_initial st d')
  then show ?case by (auto simp: opened_once_def active_window_def seen_versions_def)
next
  case (open_recovery st d')
  then show ?case by (auto simp: opened_once_def active_window_def seen_versions_def)
qed (auto simp: opened_once_def trims_def store_frame_eq change_record_def active_window_def seen_versions_def)

interpretation windows: invariant_system
  "\<lambda>st. unread st \<and> version \<noteq> [] \<and> opened_once version d st" "auth_step used" "\<lambda>st. unread st \<and> version \<noteq> [] \<and> opened_once version d st"
  for version d used
proof
  show "unread st' \<and> version \<noteq> [] \<and> opened_once version d st'"
    if now: "unread st \<and> version \<noteq> [] \<and> opened_once version d st" and step: "auth_step used st st'" for st st'
  proof -
    obtain env call where e: "env_ok env" "st' = run_call env call st" using step by (auto simp: auth_step_def)
    let ?P = "\<lambda>st. unread st \<and> version \<noteq> [] \<and> opened_once version d st"
    have "?P b" if "adds_key env a b" "?P a" for a b
      using that adds_key_unread[OF that(1)] by (auto simp: adds_key_def opened_once_def)
    moreover have "?P b" if "edit env a b" "?P a" for a b
      using that edit_unread[OF that(1)] edit_opened_once[OF that(1)] by blast
    ultimately show ?thesis using call_keeps[of env ?P st call] e now by blast
  qed
qed

lemma closed_payload: "handover_payload_of version d now False expired invalid seen full st = Inr p \<Longrightarrow> \<not> hp_open p"
  by (auto simp: handover_payload_of_def split: option.splits)

lemma expired_window_closed:
  assumes "opened_once (ae_sha256 env version) d st" "wants_recovery version config st"
    "text_le (hd_expires d) (ae_now env) = Inr True"
    "fst (browser_handover_state env version config activate reopen st) = Inr p"
  shows "\<not> hp_open p"
proof -
  let ?v = "ae_sha256 env version"
  let ?m = "window_matches (as_deadline st) ''recovery'' ?v"
  have load: "load_browser_handover_deadline env st = (as_deadline st, st)"
    using assms(1) by (simp add: opened_once_def load_browser_handover_deadline_def)
  have seen: "?v \<in> set (seen_versions (as_deadline st))" using assms(1) by (simp add: opened_once_def)
  have expired: "window_expired True (as_deadline st) (ae_now env) = Inr True" if ?m
  proof -
    from that obtain d' where "active_window (as_deadline st) = Some d'" "hd_version d' = ?v"
      by (auto simp: window_matches_def active_window_def split: option.splits)
    moreover then have "d' = d" using assms(1) by (auto simp: opened_once_def)
    ultimately show ?thesis using assms(3) by (simp add: window_expired_def deadline_expired_def)
  qed
  have "fst (handover_window env version True activate reopen (as_deadline st) st) = Inr p"
    using assms(2,4) by (simp add: browser_handover_state_def load)
  then show ?thesis
    using seen expired
    by (cases ?m) (auto simp: handover_window_def Let_def window_expired_def dest!: closed_payload split: option.splits)
qed

section \<open>Session lifetime\<close>

lemma fromisoformat_error: "fromisoformat s = Inl e \<Longrightarrow> e = ValueError"
  by (simp add: fromisoformat_def split: option.splits if_splits)

lemma stamp_of_text_error: "stamp_of_text s = Inl e \<Longrightarrow> e = ValueError"
proof -
  have r: "rbind (fromisoformat u) (\<lambda>t. Inr (Aware t n)) = Inl e \<Longrightarrow> e = ValueError" for u n
    using fromisoformat_error[of u] by (cases "fromisoformat u") auto
  show "stamp_of_text s = Inl e \<Longrightarrow> e = ValueError"
    using r by (auto simp: stamp_of_text_def split: sum.splits option.splits if_splits)
qed

lemma session_over_known: "session_ok k s \<Longrightarrow> \<exists>b. session_over now s = Inr b"
proof (cases "us_remembered s")
  case False
  assume "session_ok k s"
  with False have n: "\<not> naive_text (us_expires s)" by (simp add: session_ok_def)
  show ?thesis
  proof (cases "stamp_of_text (us_expires s)")
    case (Inl e)
    with stamp_of_text_error[OF Inl] False show ?thesis by (auto simp: session_over_def text_le_def)
  next
    case (Inr x)
    with n obtain t off where "x = Aware t off" by (cases x) (simp_all add: naive_text_def)
    with Inr False show ?thesis by (simp add: session_over_def text_le_def stamp_le_def)
  qed
qed (auto simp: session_over_def)

lemma expired_ids_known:
  "list_all (\<lambda>(k, s). session_ok k s) d \<Longrightarrow> expired_session_ids now d = Inr (map fst (filter (\<lambda>(_, s). session_over now s = Inr True) d))"
proof (induction d)
  case (Cons p d)
  obtain k s where p: "p = (k, s)" by (cases p)
  with Cons.prems obtain b where "session_over now s = Inr b" using session_over_known by fastforce
  with Cons show ?case by (simp add: p)
qed simp

lemma prune_known:
  assumes "auth_ok st"
  shows "\<exists>st'. prune_expired_ui_sessions now st = (Inr (), st') \<and> trims st st' \<and>
    (\<forall>k. dict_get (as_sessions st') k = (case dict_get (as_sessions st) k of None \<Rightarrow> None
       | Some s \<Rightarrow> if session_over now s = Inr True then None else Some s))"
proof -
  let ?ids = "map fst (filter (\<lambda>(_, s). session_over now s = Inr True) (as_sessions st))"
  let ?st' = "st\<lparr>as_sessions := fold dict_pop ?ids (as_sessions st)\<rparr>"
  have p: "prune_expired_ui_sessions now st = (Inr (), ?st')"
    using expired_ids_known[of "as_sessions st" now] assms by (simp add: prune_expired_ui_sessions_def auth_ok_def)
  have d: "dict_ok (as_sessions st)" using assms by (simp add: auth_ok_def)
  have "k \<in> set ?ids \<longleftrightarrow> (\<exists>s. dict_get (as_sessions st) k = Some s \<and> session_over now s = Inr True)" for k
    using d by (force simp: map_of_eq_Some_iff)
  then have "dict_get (as_sessions ?st') k = (case dict_get (as_sessions st) k of None \<Rightarrow> None
       | Some s \<Rightarrow> if session_over now s = Inr True then None else Some s)" for k
    by (auto simp: fold_pop_get split: option.split)
  with p trims_sessions show ?thesis by blast
qed

text \<open>The sessions a successful save leaves.\<close>

lemma prune_secrets_sessions:
  "as_sessions (snd (prune_bootstrap_proof now st)) = as_sessions st"
  "as_sessions (snd (prune_bootstrap_exchange now st)) = as_sessions st"
  by (auto simp: prune_bootstrap_proof_def prune_bootstrap_exchange_def clear_bootstrap_proof_def clear_bootstrap_exchange_def
      record_event_def split: option.split sum.split)

lemma save_sessions:
  assumes "save_store env st = (Inr (), st')"
  shows "as_sessions st' = (if as_bound st then as_sessions (snd (prune_expired_ui_sessions (ae_save_now env) st)) else as_sessions st)"
proof (cases "as_bound st")
  case True
  obtain r a where a: "prune_expired_ui_sessions (ae_save_now env) st = (r, a)" by (rule prod.exhaust)
  obtain r1 b where b: "prune_bootstrap_proof (ae_save_now env) a = (r1, b)" by (rule prod.exhaust)
  obtain r2 c where c: "prune_bootstrap_exchange (ae_save_now env) b = (r2, c)" by (rule prod.exhaust)
  have st': "st' = note_snapshot c"
    using assms True by (cases r; cases r1; cases r2) (auto simp: save_store_def prune_all_def athen_def a b c split: if_splits)
  have "as_sessions c = as_sessions a"
    using prune_secrets_sessions(1)[of "ae_save_now env" a] prune_secrets_sessions(2)[of "ae_save_now env" b] by (simp add: b c)
  then show ?thesis using True by (simp add: st' note_snapshot_def record_event_def a)
qed (use assms in \<open>simp add: save_store_def\<close>)

lemma new_session_over:
  assumes "env_ok env" "new_ui_session env scopes b i h r = Inr s" "\<not> us_remembered s"
  shows "session_over t s = Inr (utc (ae_now env) - int (dt_microsecond (ae_now env)) + int UI_SESSION_TTL * 1000000 \<le> utc t)"
proof -
  have now: "valid_datetime (ae_now env)" using assms(1) by (simp add: env_ok_def)
  have ttl: "UI_SESSION_TTL \<le> 86400" by (simp add: UI_SESSION_TTL_def)
  obtain e where e: "add_seconds UI_SESSION_TTL (ae_now env) = Inr e" "us_expires s = seconds_text e"
    using assms(2,3) unfolding new_ui_session_def rbind_Inr_iff
    by (cases b; cases r) (auto simp: rbind_Inr_iff split: if_split_asm)
  note u = add_seconds_utc[OF now ttl e(1)]
  show ?thesis
    using assms(3) e(2) u(1,3) text_le_seconds_text[OF u(2), of t] by (simp add: session_over_def utc_whole_second algebra_simps)
qed

lemma created_session:
  assumes "auth_ok st" "env_ok env" "create_ui_session env scopes b i h r st = (Inr s, st1)"
  shows "new_ui_session env scopes b i h r = Inr s" "auth_ok st1"
    "\<not> us_remembered s \<Longrightarrow> dict_get (as_sessions st1) (us_secret s) =
       (if as_bound st \<and> session_over (ae_save_now env) s = Inr True then None else Some s)"
proof -
  show new: "new_ui_session env scopes b i h r = Inr s"
    using assms(3) by (cases "new_ui_session env scopes b i h r")
      (auto simp: create_ui_session_def save_and_record_def athen_def split: prod.splits sum.splits)
  have id: "us_secret s = ae_token env" "session_ok (ae_token env) s" using new_ui_session_ok[OF assms(2) new] by auto
  let ?a = "st\<lparr>as_sessions := dict_set (us_secret s) s (as_sessions st)\<rparr>"
  have a: "auth_ok ?a" using edit_ok[OF edit.add_session[OF id(2)] assms(1)] id(1) by simp
  obtain a' where a': "prune_expired_ui_sessions (ae_now env) ?a = (Inr (), a')" "trims ?a a'"
    "\<forall>k. dict_get (as_sessions a') k = (case dict_get (as_sessions ?a) k of None \<Rightarrow> None
       | Some s \<Rightarrow> if session_over (ae_now env) s = Inr True then None else Some s)"
    using prune_known[OF a, of "ae_now env"] by blast
  obtain c where c: "save_store env a' = (Inr (), c)" "\<exists>e x. st1 = record_event e x c"
    using assms(3) a'(1) by (auto simp: create_ui_session_def new save_and_record_def athen_def split: prod.splits sum.splits)
  have ok': "auth_ok a'" by (rule trims_ok[OF a'(2) a])
  have "trims a' c" using trims_save[of a' env] c(1) by simp
  from trims_ok[OF this ok'] c(2) trims_ok[OF trims_record_event] show "auth_ok st1" by blast
  assume notr: "\<not> us_remembered s"
  have "utc (ae_now env) - int (dt_microsecond (ae_now env)) + int UI_SESSION_TTL * 1000000 > utc (ae_now env)"
    using assms(2) by (simp add: env_ok_def valid_datetime_def UI_SESSION_TTL_def)
  then have "session_over (ae_now env) s = Inr False" using new_session_over[OF assms(2) new notr] by simp
  then have g: "dict_get (as_sessions a') (us_secret s) = Some s" using a'(3) by simp
  have bound: "as_bound a' = as_bound st" using a'(2) by (simp add: trims_def store_frame_eq)
  obtain c' where "prune_expired_ui_sessions (ae_save_now env) a' = (Inr (), c')"
    "\<forall>k. dict_get (as_sessions c') k = (case dict_get (as_sessions a') k of None \<Rightarrow> None
       | Some s \<Rightarrow> if session_over (ae_save_now env) s = Inr True then None else Some s)"
    using prune_known[OF ok', of "ae_save_now env"] by blast
  then have "dict_get (as_sessions c) (us_secret s) = (if as_bound st \<and> session_over (ae_save_now env) s = Inr True then None else Some s)"
    using save_sessions[OF c(1)] g bound by simp
  then show "dict_get (as_sessions st1) (us_secret s) =
       (if as_bound st \<and> session_over (ae_save_now env) s = Inr True then None else Some s)"
    using c(2) by (auto simp: record_event_def)
qed

lemma find_known:
  assumes "auth_ok st"
  shows "fst (find_ui_session_by_secret env secret st) = Inr (case dict_get (as_sessions st) secret of None \<Rightarrow> None
       | Some s \<Rightarrow> if session_over (ae_now env) s = Inr True then None else Some s)"
proof -
  obtain st' where p: "prune_expired_ui_sessions (ae_now env) st = (Inr (), st')"
    "\<forall>k. dict_get (as_sessions st') k = (case dict_get (as_sessions st) k of None \<Rightarrow> None
       | Some s \<Rightarrow> if session_over (ae_now env) s = Inr True then None else Some s)"
    using prune_known[OF assms, of "ae_now env"] by blast
  show ?thesis
  proof (cases "dict_get (as_sessions st) secret")
    case (Some s)
    then have "session_ok secret s" using assms by (auto simp: auth_ok_def list_all_iff dest!: map_of_SomeD)
    then obtain b where "session_over (ae_now env) s = Inr b" using session_over_known by blast
    with Some p show ?thesis by (cases b) (simp_all add: find_ui_session_by_secret_def athen_def)
  qed (use p in \<open>simp add: find_ui_session_by_secret_def athen_def\<close>)
qed

section \<open>Claiming the first administrator\<close>

lemma edits_migrated: "(edit env)\<^sup>*\<^sup>* st st' \<Longrightarrow> as_migrated_version st' = as_migrated_version st"
proof (induction rule: rtranclp_induct)
  case (step y z)
  from step(2) have "as_migrated_version z = as_migrated_version y"
    by (induction rule: edit.induct) (auto simp: trims_def store_frame_eq change_record_def)
  with step(3) show ?case by simp
qed simp

lemma finalize_frame:
  "as_keys (snd (finalize_browser_handover_claim env v st)) = as_keys st"
  "as_claimed (snd (finalize_browser_handover_claim env v st)) = as_claimed st"
proof -
  have snd: "snd (finalize_browser_handover_claim env v st) = snd (mark_browser_handover_claimed env (text_of v) st)"
    by (simp add: finalize_browser_handover_claim_def split: prod.split sum.split unit.split py_error.split)
  have "as_keys (snd (mark_browser_handover_claimed env w st)) = as_keys st \<and>
      as_claimed (snd (mark_browser_handover_claimed env w st)) = as_claimed st" for w
    by (simp add: mark_browser_handover_claimed_def write_browser_handover_deadline_def split: option.split)
  then show "as_keys (snd (finalize_browser_handover_claim env v st)) = as_keys st"
    "as_claimed (snd (finalize_browser_handover_claim env v st)) = as_claimed st" unfolding snd by simp_all
qed

lemma admin_claimed:
  assumes "create_initial_admin_api_key_if_available env v name st = (Inr (Some (k, secret)), st1)" "as_migrated_version st = []" "unread st"
  shows "as_claimed st1 = text_of v" "k \<in> set (as_keys st1)" "\<not> is_revoked k" "''admin'' \<in> set (ak_scopes k)" "unread st1"
proof -
  let ?w = "PStr (text_of v)"
  obtain a where a: "can_claim_initial_admin env ?w None st = (Inr True, a)"
    using assms(1) by (auto simp: create_initial_admin_api_key_if_available_def athen_def split: prod.splits sum.splits if_splits)
  have ea: "(edit env)\<^sup>*\<^sup>* st a" using doesD[OF does_handover(3) assms(3), of env ?w None] a by simp
  obtain b where b: "create_api_key_record env name (PList [PStr ''admin'']) a = (Inr (k, secret), b)"
    using assms(1) a by (auto simp: create_initial_admin_api_key_if_available_def athen_def split: prod.splits sum.splits)
  let ?c = "clear_bootstrap_exchange ''admin_api_key_created'' (clear_bootstrap_proof ''admin_api_key_created'' (note_claimed (text_of v) b))"
  obtain d where d: "save_store env ?c = (Inr (), d)"
    and st1: "st1 = record_event ''api_key_created'' ''initial_admin_created'' (snd (finalize_browser_handover_claim env ?w d))"
    using assms(1) a b by (auto simp: create_initial_admin_api_key_if_available_def athen_def split: prod.splits sum.splits)
  have t: "trims (note_claimed (text_of v) b) d"
    using trims_trans[OF trims_trans[OF trims_clears(1) trims_clears(2)] trims_save[of ?c env]] d by simp
  have "normalize_scopes (PList [PStr ''admin'']) = Inr [''admin'']" by code_simp
  then have kb: "as_keys b = as_keys a @ [k]" "\<not> is_revoked k" "''admin'' \<in> set (ak_scopes k)" "as_migrated_version b = as_migrated_version a"
    using b by (auto simp: create_api_key_record_def Let_def is_revoked_def split: if_splits sum.splits)
  have "as_migrated_version b = []" using kb(4) edits_migrated[OF ea] assms(2) by simp
  with t have "as_claimed d = text_of v" "as_keys d = as_keys b"
    by (auto simp: trims_def store_frame_eq note_claimed_def)
  with kb show "as_claimed st1 = text_of v" "k \<in> set (as_keys st1)" "\<not> is_revoked k" "''admin'' \<in> set (ak_scopes k)"
    by (auto simp: st1 record_event_def finalize_frame)
  show "unread st1"
    using call_edits_unread[OF createsD[OF does_handover(5) assms(3)] assms(3), of env v name] assms(1) by simp
qed

lemma claimed_is_closed:
  assumes "unread st" "k \<in> set (as_keys st)" "\<not> is_revoked k" "''admin'' \<in> set (ak_scopes k)" "as_claimed st = text_of v"
  shows "fst (can_claim_initial_admin env v config st) = Inr False"
proof -
  obtain state st1 where l: "load_browser_handover_deadline env st = (state, st1)" by (rule prod.exhaust)
  note f = loading(4,5)[OF assms(1) l]
  have count: "active_admin_key_count s > 0" if "as_keys s = as_keys st" for s
    using assms(2-4) that unfolding active_admin_key_count_def length_greater_0_conv filter_empty_conv by auto
  then have "browser_handover_state env (text_of v) config False False st =
      (handover_payload_of (text_of v) None (ae_now env) False False (as_deadline_invalid st1) False False st1, st1)"
    using assms(5) by (simp add: browser_handover_state_def wants_recovery_def l athen_def)
  moreover have "active_admin_key_count st1 \<noteq> 0" using count[OF f(1)] by simp
  ultimately show ?thesis
    using f(2) assms(5) by (auto simp: can_claim_initial_admin_def athen_def handover_payload_of_def)
qed

end
