(* ===== verification/Auth_Properties.thy ===== *)
theory Auth_Properties
  imports Auth_Safety
begin

text \<open>
  Properties of the authentication store: its invariant, what revocation, rotation and the bootstrap
  secrets guarantee, the lifetime of sessions, the browser handover, and its document.
\<close>

section \<open>Examples\<close>

definition sample_time :: datetime where
  "sample_time = \<lparr>dt_year = 2026, dt_month = 2, dt_day = 28, dt_hour = 20, dt_minute = 4, dt_second = 5, dt_microsecond = 6\<rparr>"

definition sample_env :: auth_env where
  "sample_env = \<lparr>ae_now = sample_time, ae_save_now = sample_time, ae_saves = True, ae_token = ''token'', ae_uuid = ''uuid'',
     ae_salt = ''salt'', ae_kdf = (\<lambda>secret salt _. Inr (secret @ salt)), ae_file = NoFile, ae_writes = True,
     ae_sha256 = (\<lambda>_. replicate 64 (CHR ''0''))\<rparr>"

definition sample_key :: api_key where
  "sample_key = \<lparr>ak_id = ''k1'', ak_name = ''first'', ak_scopes = [''admin''], ak_hash = ''h'', ak_created = [], ak_updated = [],
     ak_revoked = None\<rparr>"

definition sample_auth :: auth_store where
  "sample_auth = (new_auth_store True)\<lparr>as_keys := [sample_key]\<rparr>"

lemma sample_time_valid: "valid_datetime sample_time" "valid_datetime (sample_time\<lparr>dt_hour := 21\<rparr>)"
  by (simp_all add: sample_time_def valid_datetime_def days_in_month_def leap_year_def)

lemma sample_env_ok: "env_ok sample_env"
  using sample_time_valid by (simp add: env_ok_def sample_env_def)

lemma sample_auth_ok: "auth_ok sample_auth"
  by code_simp

section \<open>Properties\<close>

text \<open>C26. From a new store, or one read from a document with one record for each identifier and no
  session time without an offset, every sequence of calls, whatever they return or raise and whether
  or not the file can be written, leaves a store in which identifiers are unique, the scopes of every
  key and session are a non-empty list of distinct known names, sessions stand under their own
  secret with a time that can be compared, and the recovery versions seen are at most 128 different
  ones. New identifiers are assumed not to repeat.\<close>

theorem auth_store_stays_consistent:
  assumes "auth_loaded st" "(auth_step used)\<^sup>*\<^sup>* st st'"
  shows "auth_ok st'"
  using auth.reachable_inv[OF assms] .

theorem auth_store_stays_consistent_witness:
  "auth_ok (run_call sample_env (CreateKey (PStr ''a'') (PList [PStr '' Admin''])) (new_auth_store True))"
proof (rule auth_store_stays_consistent)
  show "auth_loaded (new_auth_store True)" by (auto simp: auth_loaded_def)
  have "auth_step {} (new_auth_store True) (run_call sample_env (CreateKey (PStr ''a'') (PList [PStr '' Admin''])) (new_auth_store True))"
    unfolding auth_step_def using sample_env_ok by (fastforce simp: new_auth_store_def)
  then show "(auth_step {})\<^sup>*\<^sup>* (new_auth_store True) (run_call sample_env (CreateKey (PStr ''a'') (PList [PStr '' Admin''])) (new_auth_store True))"
    by (rule r_into_rtranclp)
qed

text \<open>A revoked key never acts again: its browser sessions are gone with the revocation, and whatever
  calls follow, as long as its identifier is not drawn a second time, no session resolves to a key
  of this identifier and a secret that is found belongs to it only as revoked.\<close>

theorem revoked_key_never_acts_again:
  assumes "auth_ok st" "env_ok env" "revoke_api_key env key_id st = (Inr k, st1)"
    "(auth_step (insert key_id used))\<^sup>*\<^sup>* st1 st2"
  shows "list_all (\<lambda>(_, s). us_key_id s \<noteq> Some key_id) (as_sessions st1) \<and>
    (\<forall>session k'. resolve_ui_session_api_key session st2 = Inr (Some k') \<longrightarrow> ak_id k' \<noteq> key_id) \<and>
    (\<forall>kdf secret k'. find_api_key_by_secret kdf secret st2 = Inr (Some k') \<longrightarrow> ak_id k' = key_id \<longrightarrow> is_revoked k')"
proof -
  note r = revoke_retires[OF assms(1-3)]
  have "retired key_id st2" by (rule retirement.steps_inv[OF assms(4) r(1)])
  with r(2) retired_refused show ?thesis by blast
qed

theorem revoked_key_never_acts_again_witness:
  "\<exists>k st1. revoke_api_key sample_env ''k1'' sample_auth = (Inr k, st1) \<and>
    (\<forall>session k'. resolve_ui_session_api_key session st1 = Inr (Some k') \<longrightarrow> ak_id k' \<noteq> ''k1'')"
proof -
  have "isl (fst (revoke_api_key sample_env ''k1'' sample_auth)) = False" by code_simp
  then obtain k st1 where r: "revoke_api_key sample_env ''k1'' sample_auth = (Inr k, st1)"
    by (cases "revoke_api_key sample_env ''k1'' sample_auth"; cases "fst (revoke_api_key sample_env ''k1'' sample_auth)") auto
  with revoked_key_never_acts_again[OF sample_auth_ok sample_env_ok r rtranclp.rtrancl_refl] show ?thesis by blast
qed

text \<open>A browser session that is not remembered lives for exactly twelve hours: created in a
  consistent store, it is found under its secret at every later time before the twelve hours, counted
  from the second of its creation, are over, and at no time after; the calendar is respected, over
  midnight, ends of months and leap years.\<close>

theorem session_lives_twelve_hours:
  assumes "auth_ok st" "env_ok env" "create_ui_session env scopes b i h (PBool False) st = (Inr s, st1)"
    "utc (ae_save_now env) \<le> utc (ae_now env')"
  shows "fst (find_ui_session_by_secret env' (us_secret s) st1) =
    Inr (if utc (ae_now env') < utc (ae_now env) - int (dt_microsecond (ae_now env)) + 12 * 3600 * 1000000 then Some s else None)"
proof -
  note c = created_session[OF assms(1-3)]
  have r: "\<not> us_remembered s"
    using c(1) unfolding new_ui_session_def rbind_Inr_iff by (cases b) (auto simp: rbind_Inr_iff split: if_split_asm)
  note over = new_session_over[OF assms(2) c(1) r]
  show ?thesis
    unfolding find_known[OF c(2)] c(3)[OF r]
    using over[of "ae_save_now env"] over[of "ae_now env'"] assms(4) by (auto simp: UI_SESSION_TTL_def)
qed

lemma sample_session:
  "\<exists>s st1. create_ui_session sample_env (PList [PStr ''read'']) (PBool False) PNone PNone (PBool False) (new_auth_store False) = (Inr s, st1)"
proof -
  have "normalize_scopes (PList [PStr ''read'']) = Inr [''read'']" by code_simp
  then obtain s where s: "new_ui_session sample_env (PList [PStr ''read'']) (PBool False) PNone PNone (PBool False) = Inr s" "\<not> us_remembered s"
    by (simp add: new_ui_session_def sample_env_def sample_time_def add_seconds_def day_seconds_def UI_SESSION_TTL_def next_day_def
        days_in_month_def leap_year_def)
  have "session_over sample_time s = Inr False"
    using new_session_over[OF sample_env_ok s, of sample_time]
    by (simp add: UI_SESSION_TTL_def sample_env_def sample_time_def)
  with s(1) show ?thesis
    by (simp add: create_ui_session_def prune_expired_ui_sessions_def new_auth_store_def athen_def save_and_record_def save_store_def
        sample_env_def)
qed

theorem session_lives_twelve_hours_witness:
  "\<exists>s st1. create_ui_session sample_env (PList [PStr ''read'']) (PBool False) PNone PNone (PBool False) (new_auth_store False) = (Inr s, st1) \<and>
     fst (find_ui_session_by_secret sample_env (us_secret s) st1) = Inr (Some s)"
proof -
  obtain s st1 where c: "create_ui_session sample_env (PList [PStr ''read'']) (PBool False) PNone PNone (PBool False) (new_auth_store False) = (Inr s, st1)"
    using sample_session by blast
  have "auth_ok (new_auth_store False)" by (rule auth_loaded_ok) (auto simp: auth_loaded_def)
  moreover have "utc (ae_save_now sample_env) \<le> utc (ae_now sample_env)" by (simp add: sample_env_def)
  ultimately show ?thesis
    using session_lives_twelve_hours[OF _ sample_env_ok c, of sample_env] c by (simp add: sample_env_def sample_time_def)
qed

text \<open>C28. A bootstrap proof works once and in time: a proof that is accepted was the current one and had
  not expired, and afterwards, whatever calls follow, as long as its secret is not drawn a second
  time, it is never accepted again.\<close>

theorem spent_bootstrap_proof_is_refused:
  assumes "auth_ok st" "env_ok env" "consume_bootstrap_proof env (PStr secret) st = (Inr True, st1)"
    "(auth_step (insert (strip secret) used))\<^sup>*\<^sup>* st1 st2"
  shows "(\<exists>b. as_proof st = Some b \<and> bs_secret b = strip secret \<and> secret_over (ae_now env) b = Inr False) \<and>
    fst (consume_bootstrap_proof env' (PStr secret) st2) \<noteq> Inr True"
proof -
  note c = consumed_proof[OF assms(3)]
  have "unread st" using assms(1) by (simp add: auth_ok_def)
  then have "unread st1" using edits_unread[OF doesD[OF does_bootstrap(5)]] assms(3) by (metis snd_conv)
  with c(2) have "spent (strip secret) st1" by (simp add: spent_def)
  then have s: "spent (strip secret) st2" by (rule spending.steps_inv[OF assms(4)])
  have "consume_bootstrap_proof env' (PStr secret) st2 \<noteq> (Inr True, st3)" for st3
    using consumed_proof(1)[of env' secret st2 st3] s by (auto simp: spent_def)
  then show ?thesis using c(1) by (cases "consume_bootstrap_proof env' (PStr secret) st2") auto
qed

definition sample_proof :: bootstrap_secret where
  "sample_proof = \<lparr>bs_secret = ''token'', bs_created = [], bs_expires = seconds_text (sample_time\<lparr>dt_hour := 21\<rparr>)\<rparr>"

lemma sample_proof_live: "secret_over sample_time sample_proof = Inr False"
  using text_le_seconds_text[OF sample_time_valid(2), of sample_time]
  by (simp add: secret_over_def sample_proof_def instant_def ordinal_def day_seconds_def whole_second_def sample_time_def)

theorem spent_bootstrap_proof_is_refused_witness:
  "\<exists>st1. consume_bootstrap_proof sample_env (PStr ''token'') (sample_auth\<lparr>as_proof := Some sample_proof\<rparr>) = (Inr True, st1) \<and>
    fst (consume_bootstrap_proof sample_env (PStr ''token'') st1) \<noteq> Inr True"
proof -
  let ?st = "sample_auth\<lparr>as_proof := Some sample_proof\<rparr>"
  have ok: "auth_ok ?st" using sample_auth_ok by (simp add: auth_ok_def unread_def)
  have t: "strip ''token'' = ''token''" "ascii_text ''token''" by code_simp+
  have "\<exists>st1. consume_bootstrap_proof sample_env (PStr ''token'') ?st = (Inr True, st1)"
    using sample_proof_live t
    by (simp add: consume_bootstrap_proof_def peek_bootstrap_proof_def prune_bootstrap_proof_def athen_def blank_text_def text_of_def
        compare_digest_def sample_env_def) (simp add: sample_proof_def)
  then obtain st1 where c: "consume_bootstrap_proof sample_env (PStr ''token'') ?st = (Inr True, st1)" ..
  from spent_bootstrap_proof_is_refused[OF ok sample_env_ok c rtranclp.rtrancl_refl, of sample_env] c show ?thesis by blast
qed





text \<open>The first administrator is claimed once: after a browser was given the initial administrator key,
  a second request under the same handover version gets nothing, whatever its name, clock and
  environment are, and neither does a bare claim. (For a store that carries no version of a completed
  migration.)\<close>

theorem first_admin_is_claimed_once:
  assumes "unread st" "as_migrated_version st = []"
    "create_initial_admin_api_key_if_available env version name st = (Inr (Some (k, secret)), st1)"
  shows "fst (create_initial_admin_api_key_if_available env' version name' st1) = Inr None \<and>
    fst (claim_initial_admin_if_available env' version st1) = Inr False"
proof -
  note c = admin_claimed[OF assms(3,2,1)]
  have "strip [] = []" by code_simp
  then have "text_of (PStr (text_of version)) = text_of version" by (cases version) (simp_all add: text_of_def)
  then have "fst (can_claim_initial_admin env' (PStr (text_of version)) None st1) = Inr False"
    using c(1) by (intro claimed_is_closed[OF c(5,2,3,4)]) simp
  then show ?thesis
    by (cases "can_claim_initial_admin env' (PStr (text_of version)) None st1")
      (simp add: create_initial_admin_api_key_if_available_def claim_initial_admin_if_available_def athen_def)
qed

lemma finalize_returns: "\<exists>b st'. finalize_browser_handover_claim env v st = (Inr b, st')"
proof -
  obtain r st' where m: "mark_browser_handover_claimed env (text_of v) st = (r, st')" by (rule prod.exhaust)
  then have "r = Inr () \<or> r = Inl OSError"
    unfolding mark_browser_handover_claimed_def write_browser_handover_deadline_def
    by (simp only: split: if_split_asm option.split_asm) simp_all
  then have "finalize_browser_handover_claim env v st \<in> {(Inr True, st'), (Inr False, st')}"
    unfolding finalize_browser_handover_claim_def m by (elim disjE; hypsubst) (simp_all split: unit.split)
  then show ?thesis by blast
qed

lemma sample_can_claim:
  "\<exists>st. can_claim_initial_admin sample_env v None (new_auth_store False) = (Inr True, st) \<and> \<not> as_bound st"
  by (simp add: can_claim_initial_admin_def browser_handover_state_def load_browser_handover_deadline_def handover_window_def
      window_expired_def window_matches_def active_window_def seen_versions_def handover_payload_of_def wants_recovery_def
      active_admin_key_count_def athen_def new_auth_store_def sample_env_def Let_def)

lemma sample_admin:
  "\<exists>k secret st1. create_initial_admin_api_key_if_available sample_env v (PStr ''me'') (new_auth_store False) = (Inr (Some (k, secret)), st1)"
proof -
  obtain a where a: "can_claim_initial_admin sample_env (PStr (text_of v)) None (new_auth_store False) = (Inr True, a)" "\<not> as_bound a"
    using sample_can_claim by blast
  have "normalize_scopes (PList [PStr ''admin'']) = Inr [''admin'']" "strip ''me'' = ''me''" by code_simp+
  then obtain k b where b: "create_api_key_record sample_env (PStr ''me'') (PList [PStr ''admin'']) a = (Inr (k, ''token''), b)" "\<not> as_bound b"
    using a(2) by (simp add: create_api_key_record_def blank_text_def hash_secret_def sample_env_def Let_def)
  let ?c = "clear_bootstrap_exchange ''admin_api_key_created'' (clear_bootstrap_proof ''admin_api_key_created'' (note_claimed (text_of v) b))"
  have "\<not> as_bound ?c"
    using b(2) by (simp add: clear_bootstrap_exchange_def clear_bootstrap_proof_def note_claimed_def record_event_def)
  then have "save_store sample_env ?c = (Inr (), ?c)" by (simp add: save_store_def)
  moreover obtain x d where "finalize_browser_handover_claim sample_env (PStr (text_of v)) ?c = (Inr x, d)"
    using finalize_returns by blast
  ultimately show ?thesis using a(1) b(1) by (simp add: create_initial_admin_api_key_if_available_def athen_def)
qed

theorem first_admin_is_claimed_once_witness:
  "\<exists>k secret st1. create_initial_admin_api_key_if_available sample_env (PStr ''v1'') (PStr ''me'') (new_auth_store False) = (Inr (Some (k, secret)), st1) \<and>
     fst (create_initial_admin_api_key_if_available sample_env (PStr ''v1'') (PStr ''you'') st1) = Inr None"
proof -
  obtain k secret st1 where c: "create_initial_admin_api_key_if_available sample_env (PStr ''v1'') (PStr ''me'') (new_auth_store False) =
      (Inr (Some (k, secret)), st1)"
    using sample_admin by blast
  have "unread (new_auth_store False)" "as_migrated_version (new_auth_store False) = []" by (simp_all add: unread_def new_auth_store_def)
  from first_admin_is_claimed_once[OF this c] c show ?thesis by blast
qed

text \<open>A store survives its document: what \<open>to_str\<close> prints, after it dropped what is over, is accepted
  by \<open>from_str\<close> and gives the same keys in the same order, the same sessions under the same secrets, and
  the same claimed version.\<close>

theorem auth_store_round_trip:
  assumes "auth_ok st" "store_to_doc now st = (Inr doc, st1)"
  shows "\<exists>st2. store_from_doc doc = Inr st2 \<and> as_keys st2 = as_keys st \<and>
    map_of (as_sessions st2) = map_of (as_sessions st1) \<and> as_claimed st2 = as_claimed st"
proof -
  have p: "st1 = snd (prune_all now st)" "doc = store_doc st1"
    using assms(2) by (auto simp: store_to_doc_def athen_def split: prod.splits sum.splits)
  have t: "trims st st1" unfolding p(1) prune_all_def by (intro trims_athen trims_prunes)
  have ok: "auth_ok st1" by (rule trims_ok[OF t assms(1)])
  have s: "list_all (\<lambda>(secret, s). us_secret s = secret) (as_sessions st1)" "list_all (\<lambda>s. scopes_ok (us_scopes s)) (map snd (as_sessions st1))"
    "dict_ok (as_sessions st1)"
    using ok by (auto simp: auth_ok_def session_ok_def list_all_iff)
  let ?ss = "sort_key (\<lambda>s. (us_created s, us_secret s)) (map snd (as_sessions st1))"
  have "list_all (\<lambda>s. scopes_ok (us_scopes s)) ?ss" using s(2) by (simp add: list_all_iff)
  moreover have "read_api_keys (map api_key_doc (as_keys st1)) = Inr (as_keys st1)"
    using ok by (intro read_api_keys_docs) (simp add: auth_ok_def)
  ultimately show ?thesis
    using sorted_sessions_map[OF s(3,1)] t
    by (simp add: p(2) store_from_doc_def store_doc_def version_ok_def optional_string_field_def get_or_none_def list_field_def
        read_ui_sessions_docs trims_def store_frame_eq)
qed

theorem auth_store_round_trip_witness:
  "\<exists>doc st1 st2. store_to_doc sample_time sample_auth = (Inr doc, st1) \<and> store_from_doc doc = Inr st2 \<and> as_keys st2 = [sample_key]"
proof -
  have "\<exists>doc st1. store_to_doc sample_time sample_auth = (Inr doc, st1)"
    by (simp add: store_to_doc_def prune_all_def prune_expired_ui_sessions_def prune_bootstrap_proof_def prune_bootstrap_exchange_def
        athen_def sample_auth_def new_auth_store_def)
  then obtain doc st1 where d: "store_to_doc sample_time sample_auth = (Inr doc, st1)" by blast
  from auth_store_round_trip[OF sample_auth_ok d] d show ?thesis by (auto simp: sample_auth_def)
qed

text \<open>A rotated key needs its new secret: the secret that is returned verifies against the record the
  store now has under the identifier, and every session bound to another hash, as all earlier ones
  are, resolves to no key.\<close>

theorem rotated_key_needs_the_new_secret:
  assumes "rotate_api_key env key_id st = (Inr (k, secret), st1)"
  shows "get_api_key key_id st1 = Some k \<and> verify_secret (ae_kdf env) secret (ak_hash k) = Inr True \<and>
    (\<forall>session k'. us_key_id session = Some key_id \<longrightarrow> us_key_hash session \<noteq> Some (ak_hash k) \<longrightarrow>
       resolve_ui_session_api_key session st1 \<noteq> Inr (Some k'))"
proof -
  obtain k0 h where k0: "get_api_key key_id st = Some k0" "\<not> is_revoked k0"
    and h: "hash_secret (ae_kdf env) (ae_salt env) (ae_token env) = Inr h"
    using assms by (auto simp: rotate_api_key_def split: option.splits if_splits sum.splits)
  let ?k = "k0\<lparr>ak_hash := h, ak_updated := seconds_text (ae_now env)\<rparr>"
  have r: "save_and_record env ''api_key_rotated'' ''api_key_rotated'' (?k, ae_token env) (change_record key_id (\<lambda>_. ?k) st) = (Inr (k, secret), st1)"
    using assms k0 h by (simp add: rotate_api_key_def Let_def)
  then have k: "k = ?k" "secret = ae_token env" by (auto simp: save_and_record_def athen_def split: prod.splits sum.splits)
  have "trims (change_record key_id (\<lambda>_. ?k) st) st1" using trims_save_and_record r by (metis snd_conv)
  then have "as_keys st1 = as_keys (change_record key_id (\<lambda>_. ?k) st)" by (simp add: trims_def store_frame_eq)
  then have g: "get_api_key key_id st1 = Some k"
    using get_changed[OF k0(1), of ?k] get_api_key_id[OF k0(1)] k(1) by (simp add: get_api_key_def)
  moreover have "verify_secret (ae_kdf env) secret (ak_hash k) = Inr True" using verify_hash[OF h] k by simp
  moreover have "resolve_ui_session_api_key session st1 \<noteq> Inr (Some k')"
    if "us_key_id session = Some key_id" "us_key_hash session \<noteq> Some (ak_hash k)" for session k'
    using that g by (auto simp: resolve_ui_session_api_key_def rbind_Inr_iff compare_digest_def split: option.splits if_splits)
  ultimately show ?thesis by blast
qed

theorem rotated_key_needs_the_new_secret_witness:
  "\<exists>k st1. rotate_api_key sample_env ''k1'' (sample_auth\<lparr>as_bound := False\<rparr>) = (Inr (k, ''token''), st1) \<and>
     verify_secret (ae_kdf sample_env) ''token'' (ak_hash k) = Inr True"
proof -
  have "\<exists>k st1. rotate_api_key sample_env ''k1'' (sample_auth\<lparr>as_bound := False\<rparr>) = (Inr (k, ''token''), st1)"
    by (simp add: rotate_api_key_def get_api_key_def sample_auth_def sample_key_def is_revoked_def hash_secret_def save_and_record_def
        save_store_def athen_def change_record_def sample_env_def Let_def new_auth_store_def)
  with rotated_key_needs_the_new_secret show ?thesis by blast
qed

text \<open>C37. A failed update of a key is not undone: when a request names a key and gives it scopes that are
  refused, the error is raised after the new name was stored, so the store in memory, and with the next
  save the file, has the new name although the request failed.\<close>

theorem failed_update_keeps_the_new_name:
  assumes "get_api_key key_id st = Some k" "\<not> is_revoked k" "strip name \<noteq> []" "scopes \<noteq> PNone" "normalize_scopes scopes = Inl e"
  shows "\<exists>st'. update_api_key env key_id (PStr name) scopes st = (Inl e, st') \<and>
    get_api_key key_id st' = Some (k\<lparr>ak_name := strip name\<rparr>)"
  using assms get_changed[OF assms(1), of "k\<lparr>ak_name := strip name\<rparr>"] get_api_key_id[OF assms(1)]
  by (simp add: update_api_key_def blank_text_def text_of_def Let_def)

theorem failed_update_keeps_the_new_name_witness:
  "\<exists>st'. update_api_key sample_env ''k1'' (PStr ''renamed'') (PList []) sample_auth = (Inl ValueError, st') \<and>
    get_api_key ''k1'' st' = Some (sample_key\<lparr>ak_name := strip ''renamed''\<rparr>)"
proof (rule failed_update_keeps_the_new_name)
  show "get_api_key ''k1'' sample_auth = Some sample_key" by (simp add: get_api_key_def sample_auth_def sample_key_def)
  show "\<not> is_revoked sample_key" by (simp add: is_revoked_def sample_key_def)
  show "strip ''renamed'' \<noteq> []" by code_simp
qed (simp_all add: normalize_scopes_def)

lemma naive_session_fails:
  assumes "(secret, s) \<in> set (as_sessions st)" "\<not> us_remembered s" "naive_text (us_expires s)"
  shows "fst (find_ui_session_by_secret env other st) = Inl TypeError \<and> (as_bound st \<longrightarrow> fst (save_store env st) = Inl TypeError)"
proof -
  have over: "session_over now s = Inl TypeError" for now
    using assms(2,3) by (auto simp: session_over_def text_le_def stamp_le_def naive_text_def split: sum.splits stamp.splits)
  have errors: "session_over now s' = Inl e \<Longrightarrow> e = TypeError" for now s' e
  proof (cases "stamp_of_text (us_expires s')")
    case (Inl e')
    assume "session_over now s' = Inl e"
    with stamp_of_text_error[OF Inl] Inl show "e = TypeError" by (simp add: session_over_def text_le_def split: if_splits)
  next
    case (Inr x)
    assume "session_over now s' = Inl e"
    with Inr show "e = TypeError" by (cases x) (simp_all add: session_over_def text_le_def stamp_le_def split: if_splits)
  qed
  have "(secret, s) \<in> set d \<Longrightarrow> expired_session_ids now d = Inl TypeError" for now d
  proof (induction d)
    case (Cons p d)
    obtain k s' where p: "p = (k, s')" by (cases p)
    show ?case
    proof (cases "session_over now s'")
      case (Inl e)
      with errors show ?thesis by (simp add: p)
    next
      case (Inr b)
      with Cons over show ?thesis by (auto simp: p)
    qed
  qed simp
  then have "prune_expired_ui_sessions now st = (Inl TypeError, st)" for now
    using assms(1) by (simp add: prune_expired_ui_sessions_def)
  then show ?thesis
    by (simp add: find_ui_session_by_secret_def save_store_def prune_all_def athen_def)
qed

lemma read_ui_sessions_snoc:
  "read_ui_sessions (vs @ [v]) d = rbind (read_ui_sessions vs d) (\<lambda>d'. rbind (read_ui_session v) (\<lambda>s. Inr (dict_set (us_secret s) s d')))"
proof (induction vs arbitrary: d)
  case (Cons w vs)
  then show ?case by (cases "read_ui_session w") simp_all
qed simp

text \<open>C38. One session with a time that has no offset blocks the store. Take any document the loader accepts, and
  append to its sessions one with known scopes that is not a remembered one and whose expiry has no time zone. The
  loader accepts that document too, and from then on every search for a session raises a
  \<open>TypeError\<close> that the code does not expect, and so does every save once the store is bound to its file.
  A remembered session is not compared with the clock, and a store without a file is not saved.\<close>

theorem naive_session_blocks_the_store:
  assumes "store_from_doc (PDict d) = Inr st0" "list_field d ''ui_sessions'' = Inr raw"
    "scopes_ok (us_scopes s)" "\<not> us_remembered s" "naive_text (us_expires s)"
  shows "\<exists>st. store_from_doc (PDict (dict_set ''ui_sessions'' (PList (raw @ [ui_session_doc s])) d)) = Inr st \<and>
    (\<forall>env other. fst (find_ui_session_by_secret env other st) = Inl TypeError \<and>
       fst (save_store env (st\<lparr>as_bound := True\<rparr>)) = Inl TypeError)"
proof -
  let ?d = "dict_set ''ui_sessions'' (PList (raw @ [ui_session_doc s])) d"
  obtain claimed records keys ss where p: "version_ok d" "optional_string_field d ''browser_handover_claimed_version'' = Inr claimed"
    "list_field d ''api_keys'' = Inr records" "read_api_keys records = Inr keys" "read_ui_sessions raw [] = Inr ss"
    using assms(1,2) by (auto simp: store_from_doc_def rbind_Inr_iff split: if_splits)
  have f: "version_ok ?d = version_ok d" "list_field ?d ''api_keys'' = list_field d ''api_keys''" "list_field ?d ''ui_sessions'' = Inr (raw @ [ui_session_doc s])"
    "optional_string_field ?d ''browser_handover_claimed_version'' = optional_string_field d ''browser_handover_claimed_version''"
    by (simp_all add: version_ok_def optional_string_field_def get_or_none_def list_field_def)
  let ?st = "(new_auth_store False)\<lparr>as_claimed := (case claimed of None \<Rightarrow> [] | Some x \<Rightarrow> x), as_keys := keys,
    as_sessions := dict_set (us_secret s) s ss\<rparr>"
  have "store_from_doc (PDict ?d) = Inr ?st"
    by (simp add: store_from_doc_def f p read_ui_sessions_snoc read_ui_session_doc[OF assms(3)])
  moreover have "(us_secret s, s) \<in> set (as_sessions ?st)"
    by (rule map_of_SomeD) simp
  ultimately show ?thesis
    using naive_session_fails[of "us_secret s" s ?st] naive_session_fails[of "us_secret s" s "?st\<lparr>as_bound := True\<rparr>"] assms(4,5) by simp
qed

theorem naive_session_blocks_the_store_witness:
  "\<exists>st. store_from_doc (PDict [(''ui_sessions'', PList [ui_session_doc \<lparr>us_secret = ''s'', us_scopes = [''read''],
       us_created = ''2026-01-01T00:00:00'', us_expires = isoformat sample_time, us_bootstrap = False, us_remembered = False,
       us_key_id = None, us_key_hash = None\<rparr>])]) = Inr st \<and>
     fst (find_ui_session_by_secret sample_env ''s'' st) = Inl TypeError"
proof -
  let ?s = "\<lparr>us_secret = ''s'', us_scopes = [''read''], us_created = ''2026-01-01T00:00:00'', us_expires = isoformat sample_time,
     us_bootstrap = False, us_remembered = False, us_key_id = None, us_key_hash = None\<rparr>"
  have "naive_text (isoformat sample_time)"
    using fromisoformat_isoformat[OF sample_time_valid(1)] by (simp add: naive_text_def stamp_of_text_def)
  moreover have "store_from_doc (PDict []) = Inr (new_auth_store False)" "list_field [] ''ui_sessions'' = Inr []"
    by (simp_all add: store_from_doc_def version_ok_def optional_string_field_def get_or_none_def list_field_def new_auth_store_def)
  moreover have "scopes_ok (us_scopes ?s)" by (simp add: scopes_ok_def) code_simp
  ultimately have "\<exists>st. store_from_doc (PDict (dict_set ''ui_sessions'' (PList ([] @ [ui_session_doc ?s])) [])) = Inr st \<and>
    (\<forall>env other. fst (find_ui_session_by_secret env other st) = Inl TypeError \<and>
       fst (save_store env (st\<lparr>as_bound := True\<rparr>)) = Inl TypeError)"
    by (intro naive_session_blocks_the_store) simp_all
  then show ?thesis by auto
qed

end
