(* ===== verification/Web_Properties.thy ===== *)
theory Web_Properties
  imports Web_Gate Auth_Properties
begin

text \<open>
  The properties of the gate in front of the server routes, alone and together with the
  authentication store it asks.
\<close>

section \<open>The gate only edits the store\<close>

definition gate_does :: "auth_env \<Rightarrow> 'a gate_op \<Rightarrow> bool" where
  "gate_does env p \<longleftrightarrow> (\<forall>a. unread a \<longrightarrow> (\<exists>a'. snd (p (Some a)) = Some a' \<and> rtranclp (edit env) a a'))"

lemma gate_does_then:
  assumes "gate_does env p" "\<And>x. gate_does env (k x)"
  shows "gate_does env (gthen p k)"
  unfolding gate_does_def
proof (intro allI impI)
  fix a assume u: "unread a"
  obtain r st1 where p: "p (Some a) = (r, st1)" by (rule prod.exhaust)
  then obtain a1 where 1: "st1 = Some a1" "rtranclp (edit env) a a1" using assms(1) u by (auto simp: gate_does_def)
  show "\<exists>a'. snd (gthen p k (Some a)) = Some a' \<and> rtranclp (edit env) a a'"
  proof (cases r)
    case (Inl e)
    then show ?thesis using 1 by (simp add: gthen_def p)
  next
    case (Inr x)
    obtain a2 where "snd (k x (Some a1)) = Some a2" "rtranclp (edit env) a1 a2"
      using assms(2)[of x] edits_unread[OF 1(2) u] by (auto simp: gate_does_def)
    then show ?thesis using 1 Inr by (auto simp: gthen_def p)
  qed
qed

lemma gate_does_pure [simp, intro]: "gate_does env (greturn x)" "gate_does env (glift r)"
  by (auto simp: gate_does_def greturn_def glift_def)

lemma gate_does_store: "does env p \<Longrightarrow> gate_does env (on_store d p)"
  by (auto simp: gate_does_def does_def on_store_def split: prod.split)

lemma gate_does_reads: "gate_does env (on_store d (\<lambda>st. (f st, st)))"
  by (auto simp: gate_does_def on_store_def)

lemma gate_does_when: "gate_does env p \<Longrightarrow> gate_does env (gwhen b p)"
  by (simp add: gwhen_def)

lemma gate_does_pass_or: "gate_does env p \<Longrightarrow> gate_does env q \<Longrightarrow> gate_does env (pass_or p q)"
  unfolding pass_or_def by (rule gate_does_then) auto

lemma does_in_use: "does (we_auth env) (session_in_use env secret u)"
proof -
  have i: "does (we_auth env) (athen (invalidate_ui_session (we_auth env) (PStr secret)) (\<lambda>_ st. (Inr None, st)))"
    by (intro does_athen does_invalidate does_trivial does_trims) simp
  show ?thesis unfolding does_def
  proof (intro allI impI)
    fix st assume "unread st"
    from doesD[OF i this] show "rtranclp (edit (we_auth env)) st (snd (session_in_use env secret u st))"
      by (auto simp: session_in_use_def split: sum.split option.split)
  qed
qed

lemma gate_does_sessions: "gate_does (we_auth env) (get_ui_session env rq)" "gate_does (we_auth env) (get_ui_session_scopes env rq)"
proof -
  have f: "does (we_auth env) (athen (find_ui_session_by_secret (we_auth env) secret) (\<lambda>session st.
      case session of None \<Rightarrow> (Inr None, st) | Some u \<Rightarrow> session_in_use env secret u st))" for secret
  proof (rule does_athen[OF does_find])
    show "does (we_auth env) (\<lambda>st. case session of None \<Rightarrow> (Inr None, st) | Some u \<Rightarrow> session_in_use env secret u st)" for session
      by (cases session) (simp_all add: does_in_use does_trivial does_trims)
  qed
  show g: "gate_does (we_auth env) (get_ui_session env rq)"
    unfolding get_ui_session_def by (auto intro: gate_does_store[OF f] split: option.split)
  have s: "does (we_auth env) (session_scopes u)" for u
    by (rule does_trims) (simp add: session_scopes_def)
  show "gate_does (we_auth env) (get_ui_session_scopes env rq)"
    unfolding get_ui_session_scopes_def
    by (rule gate_does_then[OF g]) (auto intro: gate_does_store[OF s] split: option.split)
qed

lemma gate_does_exceptions:
  "gate_does (we_auth env) (allow_first_admin_bootstrap env rq)" "gate_does (we_auth env) (allow_browser_api_key_entry env rq)"
  "gate_does (we_auth env) (allow_sessionless_ui_route env rq)" "gate_does (we_auth env) (allow_bootstrap_proof_exchange env rq)"
  "gate_does (we_auth env) (is_browser_handover_open env)"
proof -
  have c: "does (we_auth env) (\<lambda>st. can_claim_initial_admin (we_auth env) (PStr (effective_browser_handover_version (we_config env) st)) (we_config env) st)"
    unfolding does_def using doesD[OF does_handover(3)] by blast
  show "gate_does (we_auth env) (allow_first_admin_bootstrap env rq)"
    unfolding allow_first_admin_bootstrap_def by (rule gate_does_then[OF gate_does_store[OF c]]) auto
  show "gate_does (we_auth env) (allow_browser_api_key_entry env rq)" by (simp add: allow_browser_api_key_entry_def)
  show "gate_does (we_auth env) (allow_sessionless_ui_route env rq)"
    by (auto simp: gate_does_def allow_sessionless_ui_route_def glift_def)
  have "gate_does (we_auth env) (gthen (glift (is_same_origin_browser_request env rq)) (\<lambda>same.
        if \<not> same then greturn False
        else case rq_cookie rq ''seedsync_bootstrap_exchange'' of
          None \<Rightarrow> greturn False
        | Some secret \<Rightarrow>
            if strip secret = [] then greturn False
            else on_store False (peek_bootstrap_exchange (we_auth env) (PStr (strip secret)))))"
    by (rule gate_does_then) (auto intro: gate_does_store does_bootstrap(4) split: option.split)
  then show "gate_does (we_auth env) (allow_bootstrap_proof_exchange env rq)"
    by (auto simp: gate_does_def allow_bootstrap_proof_exchange_def)
  have "does (we_auth env) (athen (get_browser_handover_state (we_auth env) (we_config env)) (\<lambda>state st. (Inr (hp_open state), st)))"
    by (intro does_athen does_handover does_trims) simp
  then show "gate_does (we_auth env) (is_browser_handover_open env)"
    unfolding is_browser_handover_open_def by (rule gate_does_store)
qed

lemma gate_does_browser: "gate_does (we_auth env) (authorize_browser env rq route required)"
proof -
  have s: "gate_does (we_auth env) (authorize_session env rq required xs)" for xs
    unfolding authorize_session_def by (rule gate_does_then) auto
  have n: "gate_does (we_auth env) (authorize_sessionless env rq route)"
    unfolding authorize_sessionless_def by (intro gate_does_pass_or gate_does_when gate_does_exceptions gate_does_pure)
  have "gate_does (we_auth env) (authorize_cookie env rq route required)"
    unfolding authorize_cookie_def
    by (intro gate_does_then gate_does_sessions gate_does_exceptions)
      (auto intro!: gate_does_then gate_does_sessions s n split: option.split)
  then show ?thesis
    unfolding authorize_browser_def by (intro gate_does_pass_or gate_does_when gate_does_exceptions)
qed

lemma gate_does_gate: "gate_does (we_auth env) (gate_server_request env rq)"
proof -
  have k: "gate_does (we_auth env) (authorize_key env required token)" for required token
    unfolding authorize_key_def by (rule gate_does_then[OF gate_does_reads]) (auto split: option.split)
  have c: "gate_does (we_auth env) (gthen (if is_unsafe_request rq then glift (has_hostile_browser_origin_signal env rq) else greturn False) (\<lambda>hostile.
        if hostile then greturn (Abort 403) else greturn Pass))"
    by (rule gate_does_then) auto
  have "gate_does (we_auth env) (authorize_server_route env rq route required)" for route required
    unfolding authorize_server_route_def using k c gate_does_browser by (auto split: option.split)
  then show ?thesis unfolding gate_server_request_def by (auto simp: Let_def split: option.split)
qed

section \<open>The key behind a request\<close>

text \<open>The identifier of the key a request acts with: the one its bearer token belongs to, or else the one
  its browser session stands for.\<close>

definition acting_key :: "web_env \<Rightarrow> web_request \<Rightarrow> auth_store \<Rightarrow> string option" where
  "acting_key env rq a =
     (case extract_bearer_token rq of
        Some token \<Rightarrow>
          (case find_api_key_by_secret (ae_kdf (we_auth env)) token a of
             Inr (Some k) \<Rightarrow> if is_revoked k then None else Some (ak_id k)
           | _ \<Rightarrow> None)
      | None \<Rightarrow>
          (case rq_cookie rq ''seedsync_ui_session'' of
             None \<Rightarrow> None
           | Some secret \<Rightarrow>
               (case dict_get (as_sessions a) secret of
                  None \<Rightarrow> None
                | Some u \<Rightarrow> (case resolve_ui_session_api_key u a of Inr (Some k) \<Rightarrow> Some (ak_id k) | _ \<Rightarrow> None))))"

lemma retired_not_acting:
  assumes "retired key_id a"
  shows "acting_key env rq a \<noteq> Some key_id"
  using retired_refused[OF assms] by (auto simp: acting_key_def split: option.split sum.split)

lemma edits_retired: "rtranclp (edit env) a a' \<Longrightarrow> retired key_id a \<Longrightarrow> retired key_id a'"
  by (induction rule: rtranclp_induct) (auto intro: edit_retired)

lemma gate_keeps_retired:
  assumes "retired key_id a" "gate_server_request env rq (Some a) = (r, st')"
  shows "\<exists>a'. st' = Some a' \<and> retired key_id a'"
proof -
  have "unread a" using assms(1) by (simp add: retired_def)
  then obtain a' where "st' = Some a'" "rtranclp (edit (we_auth env)) a a'"
    using gate_does_gate[of env rq] assms(2) unfolding gate_does_def by (metis snd_conv)
  with edits_retired assms(1) show ?thesis by blast
qed

lemma key_route_result:
  assumes "is_server_path (rq_path rq)" "we_route env rq = Some route" "\<not> (we_disable_browser_auth env \<and> \<not> rt_always_auth route)"
    "extract_bearer_token rq = Some token" "find_api_key_by_secret (ae_kdf (we_auth env)) token a = Inr (Some k)" "is_revoked k"
  shows "fst (gate_server_request env rq (Some a)) \<noteq> Inr Pass"
proof
  assume "fst (gate_server_request env rq (Some a)) = Inr Pass"
  then obtain st' where g: "gate_server_request env rq (Some a) = (Inr Pass, st')" by (cases "gate_server_request env rq (Some a)") auto
  have "authorize_server_route env rq route required (Some a) = (Inr (Abort 403), Some a)" for required
    using assms(3-6) by (auto simp: authorize_server_route_def authorize_key_def gthen_def on_store_def greturn_def)
  with g assms(1,2) show False by (auto simp: gate_server_request_def Let_def split: if_splits option.splits)
qed

lemma host_check:
  assumes "gate_server_request env rq st = (Inr Pass, st')" "is_server_path (rq_path rq)" "normalize_hostname (we_allowed_hostname env) \<noteq> []"
  shows "is_loopback_host (request_host rq) \<or> request_host rq = normalize_hostname (we_allowed_hostname env)"
  using assms by (auto simp: gate_server_request_def Let_def is_loopback_host_def split: if_splits)

section \<open>Examples\<close>

definition sample_route :: "string \<Rightarrow> route_config" where
  "sample_route scope = \<lparr>rt_rule = ''/server/x'', rt_required_scope = Some scope, rt_sessionless_ui = False, rt_first_admin = False,
     rt_proof_exchange = False, rt_api_key_entry = False, rt_always_auth = False\<rparr>"

definition sample_url :: parsed_url where
  "sample_url = \<lparr>pu_scheme = ''http'', pu_hostname = Some ''h'', pu_port = Inr None, pu_username = None, pu_password = None,
     pu_path = [], pu_params = [], pu_query = [], pu_fragment = []\<rparr>"

definition sample_web :: "string \<Rightarrow> web_env" where
  "sample_web scope = \<lparr>we_urlparse = (\<lambda>s. if s = ''http://['' then Inl ValueError else Inr sample_url), we_loopback = (\<lambda>_. False),
     we_route = (\<lambda>_. Some (sample_route scope)), we_allowed_hostname = ''H.'', we_disable_browser_auth = False, we_config = None,
     we_auth = sample_env\<rparr>"

definition sample_request :: web_request where
  "sample_request = \<lparr>rq_path = ''/server/x'', rq_method = ''POST'', rq_url = ''http://h/server/x'', rq_scheme = Some ''http'',
     rq_remote_addr = None, rq_header = (\<lambda>n. if n = ''Host'' then ''h:80'' else if n = ''Origin'' then ''http://h'' else []),
     rq_cookie = (\<lambda>n. if n = ''seedsync_ui_session'' then Some ''s'' else None)\<rparr>"

definition sample_login :: auth_store where
  "sample_login = sample_auth\<lparr>as_sessions := [(''s'', \<lparr>us_secret = ''s'', us_scopes = [''admin''], us_created = [], us_expires = [],
     us_bootstrap = True, us_remembered = True, us_key_id = None, us_key_hash = None\<rparr>)], as_deadline_loaded := True\<rparr>"

definition sample_keyed :: "string \<Rightarrow> auth_store" where
  "sample_keyed h = (new_auth_store False)\<lparr>as_keys := [sample_key\<lparr>ak_hash := h\<rparr>]\<rparr>"

definition sample_bearer :: web_request where
  "sample_bearer = sample_request\<lparr>rq_header := (\<lambda>n. if n = ''Host'' then ''h'' else if n = ''Authorization'' then ''Bearer token'' else [])\<rparr>"

lemma sample_keyed_ok: "auth_ok (sample_keyed h)"
  using sample_auth_ok by (simp add: auth_ok_def unread_def sample_keyed_def sample_auth_def new_auth_store_def)

lemma sample_hash: "\<exists>h. hash_secret (ae_kdf sample_env) ''salt'' ''token'' = Inr h"
  by (simp add: hash_secret_def sample_env_def)

lemma sample_revoked:
  assumes "hash_secret (ae_kdf sample_env) ''salt'' ''token'' = Inr h"
  shows "\<exists>k st1. revoke_api_key sample_env ''k1'' (sample_keyed h) = (Inr k, st1) \<and>
    find_api_key_by_secret (ae_kdf sample_env) ''token'' st1 = Inr (Some k) \<and> ak_id k = ''k1''"
  using verify_hash[OF assms]
  by (simp add: revoke_api_key_def sample_keyed_def get_api_key_def is_revoked_def sample_key_def new_auth_store_def Let_def
      save_and_record_def discard_browser_sessions_for_api_key_def record_event_def change_record_def athen_def save_store_def
      find_api_key_by_secret_def)

lemma sample_pass: "fst (gate_server_request (sample_web ''write'') sample_request (Some sample_login)) = Inr Pass"
  by code_simp

section \<open>Properties\<close>

text \<open>C24. A request to a server route goes through only when its host is a loopback name or the configured
  one (where one is configured), the router knows the route, the route asks for a known scope, and the
  request has shown what that scope needs. With the compatibility mode on and the route not marked, that is
  only that no foreign origin is behind an unsafe request. Otherwise it is one of: a bearer token of a
  key that is not revoked and has the scope or that of an administrator; a session in force with such
  a scope, for writing from a page of the same origin, and, while the handover is open, one of the
  bootstrap; or an exception of the route: from a page of the same origin, the secret of the exchange
  that is open and not expired while no administrator key is active, or that an initial administrator can
  be claimed, or that the route is for entering a key; or a direct request from the machine itself
  while no administrator key is active. What was shown holds in the store the gate leaves.\<close>

theorem server_gate_admits_only_the_authorized:
  assumes "gate_server_request env rq st = (Inr Pass, st')" "is_server_path (rq_path rq)"
  shows "(normalize_hostname (we_allowed_hostname env) \<noteq> [] \<longrightarrow>
      is_loopback_host (request_host rq) \<or> request_host rq = normalize_hostname (we_allowed_hostname env)) \<and>
    (\<exists>route raw. we_route env rq = Some route \<and> is_server_path (rt_rule route) \<and> rt_required_scope route = Some raw \<and>
      lower (strip raw) \<in> AUTH_SCOPES \<and> gate_open env rq route (lower (strip raw)) st st')"
  using gate_pass[OF assms] host_check[OF assms] by blast

theorem server_gate_admits_only_the_authorized_witness:
  "\<exists>st'. gate_server_request (sample_web ''write'') sample_request (Some sample_login) = (Inr Pass, st') \<and>
    gate_open (sample_web ''write'') sample_request (sample_route ''write'') ''write'' (Some sample_login) st'"
proof -
  obtain st' where g: "gate_server_request (sample_web ''write'') sample_request (Some sample_login) = (Inr Pass, st')"
    using sample_pass by (cases "gate_server_request (sample_web ''write'') sample_request (Some sample_login)") auto
  have "is_server_path (rq_path sample_request)" "lower (strip ''write'') = ''write''" by code_simp+
  with server_gate_admits_only_the_authorized[OF g] g show ?thesis
    by (auto simp: sample_web_def sample_route_def)
qed

text \<open>C25. What another site can make a browser change with the user's cookie: on a route that was registered
  for writing or administration, a request without a bearer token that goes through comes from a page of
  the same origin, unless the compatibility mode is on and the route is not marked. In that mode an
  unsafe request that goes through bears no sign of a foreign origin, which is less: a request
  that says nothing of its origin passes. Registration refuses to open such a route to a
  browser without a session.\<close>

theorem cookie_writes_respect_the_origin:
  assumes "register_server_route path required flags = Inr route" "rt_required_scope route \<in> {Some ''write'', Some ''admin''}"
    "we_route env rq = Some route" "is_server_path (rq_path rq)" "extract_bearer_token rq = None" "gate_server_request env rq st = (Inr Pass, st')"
  shows "if we_disable_browser_auth env \<and> \<not> rt_always_auth route
    then is_unsafe_request rq \<longrightarrow> has_hostile_browser_origin_signal env rq = Inr False
    else is_same_origin_browser_request env rq = Inr True"
proof -
  obtain scope where r: "rt_required_scope route = Some scope" "lower (strip scope) = scope" "rt_sessionless_ui route \<longrightarrow> scope \<in> {''read'', ''stream''}"
    using register_route_spec[OF assms(1)] by blast
  with assms(2) have w: "scope \<in> {''write'', ''admin''}" "\<not> rt_sessionless_ui route" by auto
  have g: "gate_open env rq route scope st st'" using gate_pass[OF assms(6,4)] assms(3) r(1,2) by auto
  show ?thesis
  proof (cases "we_disable_browser_auth env \<and> \<not> rt_always_auth route")
    case True
    with g show ?thesis unfolding gate_open_def by simp
  next
    case False
    then have "session_shown env rq scope st' \<or> exception_shown env rq route st st'"
      using g assms(5) unfolding gate_open_def key_shown_def by auto
    with w have "is_same_origin_browser_request env rq = Inr True" unfolding session_shown_def exception_shown_def by blast
    then show ?thesis unfolding if_not_P[OF False] .
  qed
qed

theorem cookie_writes_respect_the_origin_witness:
  "is_same_origin_browser_request (sample_web ''write'') sample_request = Inr True"
proof -
  let ?flags = "\<lparr>rf_sessionless_ui = PBool False, rf_first_admin = PBool False, rf_proof_exchange = PBool False,
    rf_api_key_entry = PBool False, rf_always_auth = PBool False\<rparr>"
  have w: "lower (strip ''write'') = ''write''" by code_simp
  then have r: "register_server_route ''/server/x'' (Some ''write'') ?flags = Inr (sample_route ''write'')"
    by (simp add: register_server_route_def flag_bool_def truthy_flag_def sample_route_def AUTH_SCOPES_def)
  obtain st' where g: "gate_server_request (sample_web ''write'') sample_request (Some sample_login) = (Inr Pass, st')"
    using sample_pass by (cases "gate_server_request (sample_web ''write'') sample_request (Some sample_login)") auto
  have "is_server_path (rq_path sample_request)" "extract_bearer_token sample_request = None" by code_simp+
  with cookie_writes_respect_the_origin[OF r, of "sample_web ''write''" sample_request] g show ?thesis
    by (simp add: sample_web_def sample_route_def)
qed

lemma unmarked_route_result:
  assumes "is_server_path (rq_path rq)" "we_route env rq = Some route" "we_disable_browser_auth env" "\<not> rt_always_auth route"
  shows "\<exists>outcome. \<forall>st. gate_server_request env rq st = (outcome, st)"
proof -
  let ?p = "gthen (if is_unsafe_request rq then glift (has_hostile_browser_origin_signal env rq) else greturn False) (\<lambda>hostile.
      if hostile then greturn (Abort 403) else greturn Pass)"
  have p: "\<exists>outcome. \<forall>st. ?p st = (outcome, st)"
    by (cases "has_hostile_browser_origin_signal env rq") (auto simp: gthen_def glift_def greturn_def split: if_splits)
  have "\<exists>outcome. \<forall>st. greturn x st = (outcome, st)" for x :: gate_outcome by (simp add: greturn_def)
  with p show ?thesis
    using assms by (auto simp: gate_server_request_def authorize_server_route_def Let_def split: option.split)
qed

text \<open>C27. A revoked key gives no access any more: after its revocation, whatever calls follow, as long as its
  identifier is not drawn a second time, the gate leaves for no request at all a store in which the
  request acts with this key, neither by a bearer token nor by a browser session. Where
  credentials are asked for, a request whose token belongs to the key does not go through. With the
  compatibility mode on and the route not marked, none are asked for: such a request fares as any
  request does, whatever the store holds, and may go through.\<close>

theorem revoked_key_gives_no_access:
  assumes "auth_ok st" "env_ok aenv" "revoke_api_key aenv key_id st = (Inr k, st1)"
    "(auth_step (insert key_id used))\<^sup>*\<^sup>* st1 st2" "gate_server_request env rq (Some st2) = (outcome, st')"
  shows "(\<exists>st3. st' = Some st3 \<and> acting_key env rq st3 \<noteq> Some key_id) \<and>
    (is_server_path (rq_path rq) \<and> we_route env rq = Some route \<longrightarrow>
      (if we_disable_browser_auth env \<and> \<not> rt_always_auth route then \<forall>other. gate_server_request env rq other = (outcome, other)
       else \<forall>token k'. extract_bearer_token rq = Some token \<and> find_api_key_by_secret (ae_kdf (we_auth env)) token st2 = Inr (Some k') \<and>
              ak_id k' = key_id \<longrightarrow> outcome \<noteq> Inr Pass))"
proof
  have r: "retired key_id st2" by (rule retirement.steps_inv[OF assms(4) revoke_retires(1)[OF assms(1-3)]])
  from gate_keeps_retired[OF r assms(5)] retired_not_acting show "\<exists>st3. st' = Some st3 \<and> acting_key env rq st3 \<noteq> Some key_id" by blast
  show "is_server_path (rq_path rq) \<and> we_route env rq = Some route \<longrightarrow>
      (if we_disable_browser_auth env \<and> \<not> rt_always_auth route then \<forall>other. gate_server_request env rq other = (outcome, other)
       else \<forall>token k'. extract_bearer_token rq = Some token \<and> find_api_key_by_secret (ae_kdf (we_auth env)) token st2 = Inr (Some k') \<and>
              ak_id k' = key_id \<longrightarrow> outcome \<noteq> Inr Pass)"
  proof (cases "we_disable_browser_auth env \<and> \<not> rt_always_auth route")
    case True
    then show ?thesis using unmarked_route_result[of rq env route] assms(5) by fastforce
  next
    case False
    have "outcome \<noteq> Inr Pass" if "is_server_path (rq_path rq)" "we_route env rq = Some route" "extract_bearer_token rq = Some token"
        "find_api_key_by_secret (ae_kdf (we_auth env)) token st2 = Inr (Some k')" "ak_id k' = key_id" for token k'
      using key_route_result[OF that(1,2) False that(3,4) retired_refused(2)[OF r that(4,5)]] assms(5) by simp
    then show ?thesis unfolding if_not_P[OF False] by blast
  qed
qed

theorem revoked_key_gives_no_access_witness:
  "\<exists>h k st1 outcome st3. revoke_api_key sample_env ''k1'' (sample_keyed h) = (Inr k, st1) \<and>
    find_api_key_by_secret (ae_kdf sample_env) ''token'' (sample_keyed h) \<noteq> Inr None \<and>
    gate_server_request (sample_web ''write'') sample_bearer (Some st1) = (outcome, Some st3) \<and>
    acting_key (sample_web ''write'') sample_bearer st3 \<noteq> Some ''k1'' \<and> outcome \<noteq> Inr Pass"
proof -
  obtain h where h: "hash_secret (ae_kdf sample_env) ''salt'' ''token'' = Inr h" using sample_hash ..
  then obtain k st1 where r: "revoke_api_key sample_env ''k1'' (sample_keyed h) = (Inr k, st1)"
    "find_api_key_by_secret (ae_kdf sample_env) ''token'' st1 = Inr (Some k)" "ak_id k = ''k1''" using sample_revoked by blast
  have f: "find_api_key_by_secret (ae_kdf sample_env) ''token'' (sample_keyed h) \<noteq> Inr None"
    using verify_hash[OF h] by (simp add: find_api_key_by_secret_def sample_keyed_def)
  obtain outcome st' where g: "gate_server_request (sample_web ''write'') sample_bearer (Some st1) = (outcome, st')" by (rule prod.exhaust)
  have p: "is_server_path (rq_path sample_bearer)" "extract_bearer_token sample_bearer = Some ''token''" by code_simp+
  have w: "we_route (sample_web ''write'') sample_bearer = Some (sample_route ''write'')" "\<not> we_disable_browser_auth (sample_web ''write'')"
    "we_auth (sample_web ''write'') = sample_env" by (simp_all add: sample_web_def)
  from revoked_key_gives_no_access[OF sample_keyed_ok sample_env_ok r(1) rtranclp.rtrancl_refl g, of "sample_route ''write''"] p w r
  obtain st3 where "st' = Some st3" "acting_key (sample_web ''write'') sample_bearer st3 \<noteq> Some ''k1''" "outcome \<noteq> Inr Pass"
    by auto
  with r(1) f g show ?thesis by blast
qed

text \<open>A stated origin that \<open>urlparse\<close> refuses, such as one with an unclosed bracket, is not treated as
  a foreign one: the error leaves the gate, where an origin with a bad port is a refusal.\<close>

lemma malformed_origin_escapes:
  assumes "effective_request_origin env rq = Inr (Some origin)" "strip (rq_header rq ''Sec-Fetch-Site'') = []"
    "strip (rq_header rq ''Origin'') \<noteq> []" "we_urlparse env (strip (rq_header rq ''Origin'')) = Inl e"
  shows "is_same_origin_browser_request env rq = Inl e"
  using assms by (simp add: is_same_origin_browser_request_def stated_origin_def parse_origin_def Let_def lower_def)

end
