(* ===== verification/Tree_Match.thy ===== *)
theory Tree_Match
  imports System_File "HOL-Library.Product_Lexorder"
begin

text \<open>
  \<open>controller/model_builder.py\<close>, part one: how the builder compares a scanned remote tree with a local
  one. Leaves are matched by size and modification time at three levels of trust; directories are walked
  along equal names. The results decide what is left out of a transfer, what counts as progress, what may
  be moved out of the staging folder and when a root is complete.

  A remote tree is never \<open>None\<close> in a recursive call; where a caller may pass \<open>None\<close> the definition takes
  an option. The dictionary \<open>{child.name: child for child in ...}\<close> is \<open>kid_dict\<close>: the last child of
  a name wins and keeps the place of the first. Observers, which only feed diagnostics, are left out.

  The walks are compared with one description of a tree by its paths, \<open>node_at\<close>.
\<close>

section \<open>Children by name\<close>

definition kid_dict :: "system_file list \<Rightarrow> (string, system_file) dict" where
  "kid_dict cs = fold (\<lambda>c d. dict_set (sf_name c) c d) cs []"

definition kid :: "system_file list \<Rightarrow> string \<Rightarrow> system_file option" where
  "kid cs n = dict_get (kid_dict cs) n"

lemma kid_dict_fold:
  assumes "dict_ok d" "\<forall>(k, c) \<in> set d. sf_name c = k"
  shows "dict_ok (fold (\<lambda>c d. dict_set (sf_name c) c d) cs d) \<and>
    (\<forall>(k, c) \<in> set (fold (\<lambda>c d. dict_set (sf_name c) c d) cs d). sf_name c = k \<and> ((k, c) \<in> set d \<or> c \<in> set cs))"
  using assms
proof (induction cs arbitrary: d)
  case (Cons c cs)
  have s: "x \<in> set (AList.update k v d) \<Longrightarrow> x = (k, v) \<or> x \<in> set d" for x k v and d :: "(string, system_file) dict"
    by (induction d) (auto split: if_splits)
  have "\<forall>(k, c) \<in> set (dict_set (sf_name c) c d). sf_name c = k" using Cons.prems(2) s by fastforce
  from Cons.IH[OF _ this] Cons.prems(1) show ?case using s by fastforce
qed auto

lemma kid_dict_ok [simp]: "dict_ok (kid_dict cs)"
  using kid_dict_fold[of "[]" cs] by (simp add: kid_dict_def)

lemma kid_dict_mem:
  assumes "(k, c) \<in> set (kid_dict cs)"
  shows "sf_name c = k \<and> c \<in> set cs"
  using kid_dict_fold[of "[]" cs] assms by (auto simp: kid_dict_def)

lemma kid_mem: "kid cs n = Some c \<Longrightarrow> c \<in> set cs \<and> sf_name c = n"
  unfolding kid_def using kid_dict_mem map_of_SomeD by fastforce

lemma kid_dict_iff: "(k, c) \<in> set (kid_dict cs) \<longleftrightarrow> kid cs k = Some c"
  unfolding kid_def by (metis dict_ok_map_of_set kid_dict_ok)

lemma kid_dict_keys: "fst ` set (kid_dict cs) = sf_name ` set cs"
proof -
  have "fst ` set (fold (\<lambda>c d. dict_set (sf_name c) c d) cs d) = fst ` set d \<union> sf_name ` set cs" for d
    by (induction cs arbitrary: d) auto
  then show ?thesis by (simp add: kid_dict_def)
qed

lemma kid_None_iff: "kid cs n = None \<longleftrightarrow> n \<notin> sf_name ` set cs"
  unfolding kid_def kid_dict_keys[symmetric] by (metis map_of_eq_None_iff)

lemma kid_distinct:
  assumes "distinct (map sf_name cs)" "c \<in> set cs"
  shows "kid cs (sf_name c) = Some c"
proof -
  obtain d where d: "kid cs (sf_name c) = Some d" using assms(2) by (cases "kid cs (sf_name c)") (auto simp: kid_None_iff)
  then have "d \<in> set cs" "sf_name d = sf_name c" using kid_mem by blast+
  with assms d show ?thesis by (metis distinct_map inj_onD)
qed

lemma kid_dict_distinct: "distinct (map sf_name cs) \<Longrightarrow> kid_dict cs = map (\<lambda>c. (sf_name c, c)) cs"
proof -
  have "distinct (map sf_name cs) \<Longrightarrow> fst ` set d \<inter> sf_name ` set cs = {} \<Longrightarrow>
      fold (\<lambda>c d. dict_set (sf_name c) c d) cs d = d @ map (\<lambda>c. (sf_name c, c)) cs" for d
    by (induction cs arbitrary: d) (auto simp: dict_set_new)
  then show "distinct (map sf_name cs) \<Longrightarrow> ?thesis" by (simp add: kid_dict_def)
qed

lemma skids_smaller [termination_simp]: "c \<in> set (skids f) \<Longrightarrow> size c < size f"
  by (cases f) (auto dest: size_list_estimation'[of _ _ "size c" size])

lemma kid_dict_smaller [termination_simp]: "(k, c) \<in> set (kid_dict (skids f)) \<Longrightarrow> size c < size f"
  using kid_dict_mem skids_smaller by blast

section \<open>Leaves\<close>

definition is_authoritative_local_file :: "system_file option \<Rightarrow> bool" where
  "is_authoritative_local_file local_file =
     (case local_file of None \<Rightarrow> False | Some l \<Rightarrow> \<not> sf_is_staging l \<and> \<not> sf_has_staging_collision l)"

definition local_size_is_authoritative_progress :: "system_file option \<Rightarrow> system_file option \<Rightarrow> int option \<Rightarrow> bool" where
  "local_size_is_authoritative_progress local_file remote_file retained =
     (case local_file of
        None \<Rightarrow> False
      | Some l \<Rightarrow>
          if \<not> is_authoritative_local_file (Some l) then False
          else case retained of
            None \<Rightarrow> False
          | Some n \<Rightarrow> n \<le> sf_size l \<or> opt_holds (\<lambda>r. sf_size r \<le> sf_size l) remote_file)"

definition local_file_proves_download_completion :: "system_file option \<Rightarrow> system_file option \<Rightarrow> bool" where
  "local_file_proves_download_completion local_file remote_file =
     (case local_file of
        None \<Rightarrow> False
      | Some l \<Rightarrow> is_authoritative_local_file (Some l) \<and> opt_holds (\<lambda>r. sf_size r \<le> sf_size l) remote_file)"

definition BILLION :: int where "BILLION = 1000000000"

definition mtime_epoch_second :: "system_file \<Rightarrow> int option" where
  "mtime_epoch_second f = map_option (\<lambda>n. n div BILLION) (sa_mtime_ns (sattrs f))"

definition same_mtimes :: "(int \<Rightarrow> int \<Rightarrow> bool) \<Rightarrow> system_file \<Rightarrow> system_file \<Rightarrow> bool" where
  "same_mtimes same r l =
     (case (sa_mtime_ns (sattrs l), sa_mtime_ns (sattrs r)) of (Some a, Some b) \<Rightarrow> same a b | _ \<Rightarrow> False)"

definition leaf_matches_remote_identity :: "system_file \<Rightarrow> system_file \<Rightarrow> bool" where
  "leaf_matches_remote_identity r l =
     (\<not> sf_is_dir r \<and> \<not> sf_is_dir l \<and> sf_size l = sf_size r \<and> same_mtimes (\<lambda>a b. a = b) r l)"

definition is_verified_final_leaf :: "system_file \<Rightarrow> system_file \<Rightarrow> bool" where
  "is_verified_final_leaf r l =
     (\<not> sf_is_dir r \<and> \<not> sf_is_dir l \<and> is_authoritative_local_file (Some l) \<and> leaf_matches_remote_identity r l)"

definition leaf_matches_remote_queue_exclusion_identity :: "system_file \<Rightarrow> system_file \<Rightarrow> bool" where
  "leaf_matches_remote_queue_exclusion_identity r l =
     (\<not> sf_is_dir r \<and> \<not> sf_is_dir l \<and> is_authoritative_local_file (Some l) \<and> sf_size l = sf_size r \<and>
      same_mtimes (\<lambda>a b. a = b \<or> (a mod BILLION = 0 \<and> a div BILLION = b div BILLION)) r l)"

definition leaf_matches_remote_collision_identity :: "system_file \<Rightarrow> system_file \<Rightarrow> bool" where
  "leaf_matches_remote_collision_identity r l =
     (\<not> sf_is_dir r \<and> \<not> sf_is_dir l \<and> sf_size l = sf_size r \<and>
      same_mtimes (\<lambda>a b. a div BILLION = b div BILLION) r l)"

definition remote_indicates_newer_content :: "system_file option \<Rightarrow> system_file option \<Rightarrow> bool" where
  "remote_indicates_newer_content local_file remote_file =
     (case (local_file, remote_file) of
        (Some l, Some r) \<Rightarrow>
          if \<not> local_file_proves_download_completion (Some l) (Some r) then True
          else (case (mtime_epoch_second l, mtime_epoch_second r) of (Some a, Some b) \<Rightarrow> a < b | _ \<Rightarrow> False)
      | _ \<Rightarrow> False)"

section \<open>Walks over the trees\<close>

fun has_staging_descendant :: "system_file \<Rightarrow> bool" where
  "has_staging_descendant f = (sf_is_staging f \<or> list_ex has_staging_descendant (skids f))"

fun has_staging_collision_descendant :: "system_file \<Rightarrow> bool" where
  "has_staging_collision_descendant f =
     (sf_has_staging_collision f \<or> list_ex has_staging_collision_descendant (skids f))"

fun has_staging_ambiguity_descendant :: "bool \<Rightarrow> system_file \<Rightarrow> bool" where
  "has_staging_ambiguity_descendant include_status_sidecar f =
     (sf_is_staging f \<or> sf_has_staging_origin f = Some True \<or> sf_has_staging_collision f \<or>
      (include_status_sidecar \<and> sf_status_sidecar_ready f) \<or>
      list_ex (has_staging_ambiguity_descendant include_status_sidecar) (skids f))"

fun has_remote_transferable_content :: "system_file \<Rightarrow> bool" where
  "has_remote_transferable_content f = (\<not> sf_is_dir f \<or> list_ex has_remote_transferable_content (skids f))"

fun authoritative_remote_leaf_progress_bytes :: "system_file \<Rightarrow> system_file option \<Rightarrow> int" where
  "authoritative_remote_leaf_progress_bytes r local_file =
     (case local_file of
        None \<Rightarrow> 0
      | Some l \<Rightarrow>
          if sf_is_dir r \<noteq> sf_is_dir l \<or> sf_has_staging_collision l then 0
          else if \<not> sf_is_dir r
          then (if is_authoritative_local_file (Some l) then min (sf_size l) (sf_size r) else 0)
          else sum_list (map (\<lambda>rc. authoritative_remote_leaf_progress_bytes rc (kid (skids l) (sf_name rc))) (skids r)))"

fun trusted_final_leaf_bytes :: "system_file option \<Rightarrow> system_file \<Rightarrow> bool \<Rightarrow> int" where
  "trusted_final_leaf_bytes remote_file l ancestor_has_staging_collision =
     (case remote_file of
        None \<Rightarrow> 0
      | Some r \<Rightarrow>
          if sf_is_dir r \<noteq> sf_is_dir l then 0
          else let collision = (ancestor_has_staging_collision \<or> sf_has_staging_collision l) in
            if \<not> sf_is_dir r
            then (if leaf_matches_remote_queue_exclusion_identity r l \<and> \<not> collision then min (sf_size l) (sf_size r) else 0)
            else sum_list (map (\<lambda>c. trusted_final_leaf_bytes (kid (skids r) (sf_name c)) c collision) (skids l)))"

fun staged_remote_leaf_bytes :: "system_file \<Rightarrow> system_file option \<Rightarrow> int" where
  "staged_remote_leaf_bytes r local_file =
     (case local_file of
        None \<Rightarrow> 0
      | Some l \<Rightarrow>
          if sf_is_dir r \<noteq> sf_is_dir l \<or> sf_has_staging_collision l then 0
          else if \<not> sf_is_dir r
          then (if \<not> sf_is_staging l \<or> \<not> sf_status_sidecar_ready l then 0 else min (sf_size l) (sf_size r))
          else sum_list (map (\<lambda>rc. staged_remote_leaf_bytes rc (kid (skids l) (sf_name rc))) (skids r)))"

definition join_relative :: "string \<Rightarrow> string \<Rightarrow> string" where
  "join_relative relative name = (if relative = [] then name else relative @ ''/'' @ name)"

fun trusted_leaf_visit :: "system_file \<Rightarrow> system_file \<Rightarrow> string \<Rightarrow> bool \<Rightarrow> string list" where
  "trusted_leaf_visit r l relative ancestor_has_staging_collision =
     (if sf_is_dir r \<noteq> sf_is_dir l then []
      else let collision = (ancestor_has_staging_collision \<or> sf_has_staging_collision l) in
        if \<not> sf_is_dir r
        then (if leaf_matches_remote_queue_exclusion_identity r l \<and> \<not> collision then [relative] else [])
        else concat (map (\<lambda>c. case kid (skids r) (sf_name c) of
                                None \<Rightarrow> []
                              | Some rc \<Rightarrow> trusted_leaf_visit rc c (join_relative relative (sf_name c)) collision) (skids l)))"

definition get_trusted_final_leaf_paths :: "bool \<Rightarrow> bool \<Rightarrow> system_file option \<Rightarrow> system_file option \<Rightarrow> string list" where
  "get_trusted_final_leaf_paths unknown_pair allow_unknown_pair remote_root local_root =
     (case (remote_root, local_root) of
        (Some r, Some l) \<Rightarrow>
          if \<not> sf_is_dir r \<or> \<not> sf_is_dir l then []
          else if unknown_pair \<and> \<not> allow_unknown_pair then []
          else sort (remdups (trusted_leaf_visit r l [] False))
      | _ \<Rightarrow> [])"

fun finalizable_visit :: "system_file \<Rightarrow> system_file option \<Rightarrow> string \<Rightarrow> bool \<Rightarrow> string list" where
  "finalizable_visit r local_file relative collision_ancestor =
     (case local_file of
        None \<Rightarrow> []
      | Some l \<Rightarrow>
          if sf_is_dir r \<noteq> sf_is_dir l then []
          else let collision = (collision_ancestor \<or> sf_has_staging_collision l) in
            if \<not> sf_is_dir r
            then (if relative \<noteq> [] \<and> CHR 0x5C \<notin> set relative \<and> \<not> collision \<and> sf_is_staging l \<and>
                     \<not> sf_status_sidecar_ready l \<and> leaf_matches_remote_collision_identity r l then [relative] else [])
            else concat (map (\<lambda>rc. finalizable_visit rc (kid (skids l) (sf_name rc)) (join_relative relative (sf_name rc)) collision)
                   (skids r)))"

definition get_finalizable_staging_leaf_candidates ::
  "(string, system_file) dict \<Rightarrow> (string, system_file) dict \<Rightarrow> (string \<times> string) list" where
  "get_finalizable_staging_leaf_candidates remote_files local_files =
     sort (concat (map (\<lambda>(root_id, r).
       if \<not> sf_is_dir r then []
       else case dict_get local_files root_id of
         None \<Rightarrow> []
       | Some l \<Rightarrow> map (Pair root_id) (finalizable_visit r (Some l) [] False)) remote_files))"

text \<open>\<open>next((child for child in ... if child.name == part), None)\<close>: the first child of a name.\<close>

definition first_kid :: "system_file list \<Rightarrow> string \<Rightarrow> system_file option" where
  "first_kid cs n = find (\<lambda>c. sf_name c = n) cs"

fun candidate_walk :: "string list \<Rightarrow> system_file \<Rightarrow> system_file option \<Rightarrow> bool \<Rightarrow> string option" where
  "candidate_walk [] r local_file collision =
     (if sf_is_dir r then None
      else case local_file of
        None \<Rightarrow> Some ''missing''
      | Some l \<Rightarrow>
          if sf_is_dir l \<noteq> sf_is_dir r then Some ''type''
          else if collision \<or> sf_has_staging_collision l then Some ''collision''
          else if \<not> sf_is_staging l then Some ''not_staging''
          else if sf_status_sidecar_ready l then Some ''sidecar''
          else if sf_size l \<noteq> sf_size r then Some ''size''
          else if \<not> same_mtimes (\<lambda>a b. a div BILLION = b div BILLION) r l then Some ''mtime''
          else Some ''match'')"
| "candidate_walk (part # parts) r local_file collision =
     (if \<not> sf_is_dir r then None
      else case first_kid (skids r) part of
        None \<Rightarrow> None
      | Some rc \<Rightarrow>
          (case local_file of
             None \<Rightarrow> candidate_walk parts rc None collision
           | Some l \<Rightarrow>
               if sf_is_dir l \<noteq> sf_is_dir r then Some ''type''
               else candidate_walk parts rc (first_kid (skids l) part) (collision \<or> sf_has_staging_collision l)))"

definition get_finalizable_staging_leaf_candidate_reason ::
  "system_file option \<Rightarrow> system_file option \<Rightarrow> string \<Rightarrow> string option" where
  "get_finalizable_staging_leaf_candidate_reason remote_root local_root relative_path =
     (if relative_path = [] \<or> CHR 0x5C \<in> set relative_path then None
      else if list_ex (\<lambda>part. part = []) (split_on (CHR ''/'') relative_path) then None
      else case remote_root of
        None \<Rightarrow> None
      | Some r \<Rightarrow> if \<not> sf_is_dir r then None else candidate_walk (split_on (CHR ''/'') relative_path) r local_root False)"

datatype source_identity = Unknown | Absent | Directory | FileSource int int

fun source_walk :: "string list \<Rightarrow> system_file \<Rightarrow> source_identity" where
  "source_walk [] f =
     (if sf_is_dir f then Directory
      else case sa_mtime_ns (sattrs f) of None \<Rightarrow> Unknown | Some n \<Rightarrow> FileSource (sf_size f) n)"
| "source_walk (part # parts) f =
     (if part \<in> {[], ''.'', ''..''} \<or> \<not> sf_is_dir f then Unknown
      else case first_kid (skids f) part of None \<Rightarrow> Absent | Some c \<Rightarrow> source_walk parts c)"

definition get_queue_collision_source_identity :: "bool \<Rightarrow> system_file option \<Rightarrow> string \<Rightarrow> source_identity" where
  "get_queue_collision_source_identity reconciled remote_root relative_path =
     (if \<not> reconciled then Unknown
      else case remote_root of
        None \<Rightarrow> Unknown
      | Some r \<Rightarrow>
          if \<not> sf_is_dir r \<or> relative_path = [] \<or> CHR 0x5C \<in> set relative_path then Unknown
          else source_walk (split_on (CHR ''/'') relative_path) r)"

fun remote_leaf_walk :: "string list \<Rightarrow> system_file \<Rightarrow> bool" where
  "remote_leaf_walk [] f = (\<not> sf_is_dir f)"
| "remote_leaf_walk (part # parts) f =
     (if \<not> sf_is_dir f then False
      else case first_kid (skids f) part of None \<Rightarrow> False | Some c \<Rightarrow> remote_leaf_walk parts c)"

definition is_remote_leaf_path :: "system_file option \<Rightarrow> string \<Rightarrow> bool" where
  "is_remote_leaf_path remote_file relative_path =
     (case remote_file of
        None \<Rightarrow> False
      | Some r \<Rightarrow> relative_path \<noteq> [] \<and> remote_leaf_walk (split_on (CHR ''/'') relative_path) r)"

section \<open>Completion\<close>

fun directory_leaves_cover_remote :: "system_file \<Rightarrow> system_file option \<Rightarrow> bool" where
  "directory_leaves_cover_remote r local_file =
     (case local_file of
        None \<Rightarrow> False
      | Some l \<Rightarrow>
          if sf_is_dir r \<noteq> sf_is_dir l then False
          else if sf_has_staging_collision l then False
          else if \<not> sf_is_dir r then sf_size r \<le> sf_size l
          else if list_ex (\<lambda>(n, c). kid (skids r) n = None \<and> (sf_has_staging_collision c \<or> has_staging_descendant c))
                    (kid_dict (skids l)) then False
          else list_all (\<lambda>(n, rc). directory_leaves_cover_remote rc (kid (skids l) (sf_name rc))) (kid_dict (skids r)))"

fun directory_leaves_cover_remote_for_presentation :: "system_file \<Rightarrow> system_file option \<Rightarrow> bool" where
  "directory_leaves_cover_remote_for_presentation r local_file =
     (case local_file of
        None \<Rightarrow> False
      | Some l \<Rightarrow>
          if sf_is_dir r \<noteq> sf_is_dir l then False
          else if sf_has_staging_collision l then False
          else if \<not> sf_is_dir r then sf_size r \<le> sf_size l
          else list_all (\<lambda>rc. directory_leaves_cover_remote_for_presentation rc (kid (skids l) (sf_name rc))) (skids r))"

definition effective_local_tree_proves_completion :: "system_file option \<Rightarrow> system_file option \<Rightarrow> bool" where
  "effective_local_tree_proves_completion remote_file local_file =
     (case (remote_file, local_file) of
        (Some r, Some l) \<Rightarrow>
          if sf_is_dir r \<noteq> sf_is_dir l then False
          else if sf_has_staging_collision l then False
          else if sf_is_dir r
          then directory_leaves_cover_remote r (Some l) \<or> (sf_is_staging l \<and> skids l = [] \<and> sf_size r \<le> sf_size l)
          else sf_size r \<le> sf_size l
      | _ \<Rightarrow> False)"

fun covers_remote_leaves_allowing_collision :: "system_file \<Rightarrow> system_file option \<Rightarrow> bool" where
  "covers_remote_leaves_allowing_collision r local_file =
     (case local_file of
        None \<Rightarrow> False
      | Some l \<Rightarrow>
          if sf_is_dir r \<noteq> sf_is_dir l then False
          else if \<not> sf_is_dir r then sf_size r \<le> sf_size l
          else if list_ex (\<lambda>(n, c). kid (skids r) n = None \<and> (sf_is_staging c \<or> has_staging_descendant c))
                    (kid_dict (skids l)) then False
          else list_all (\<lambda>(n, rc). covers_remote_leaves_allowing_collision rc (kid (skids l) (sf_name rc))) (kid_dict (skids r)))"

definition local_transfer_snapshot_is_caught_up :: "system_file option \<Rightarrow> system_file option \<Rightarrow> int option \<Rightarrow> bool" where
  "local_transfer_snapshot_is_caught_up local_file remote_file retained =
     (case remote_file of
        Some r \<Rightarrow>
          if sf_is_dir r
          then effective_local_tree_proves_completion (Some r) local_file \<or>
               opt_holds (\<lambda>n. n \<le> authoritative_remote_leaf_progress_bytes r local_file) retained
          else if retained = None then local_file_proves_download_completion local_file (Some r)
          else local_size_is_authoritative_progress local_file (Some r) retained
      | None \<Rightarrow>
          if retained = None then local_file_proves_download_completion local_file None
          else local_size_is_authoritative_progress local_file None retained)"

text \<open>The proof that a staged tree may be moved: whether it is verified, and whether a staged leaf was
  seen. The loop over the remote children stops at the first that is not verified.\<close>

fun staging_visit :: "system_file \<Rightarrow> system_file option \<Rightarrow> bool \<times> bool" where
  "staging_visit r effective_file =
     (case effective_file of
        None \<Rightarrow> (False, False)
      | Some l \<Rightarrow>
          if sf_is_dir r \<noteq> sf_is_dir l \<or> sf_has_staging_collision l then (False, False)
          else if \<not> sf_is_dir r then
            (if sf_status_sidecar_ready l then (False, False)
             else if sf_is_staging l then (leaf_matches_remote_collision_identity r l, True)
             else (leaf_matches_remote_queue_exclusion_identity r l, False))
          else if list_ex (\<lambda>(n, c). kid (skids r) n = None \<and>
                     (sf_has_staging_origin c \<noteq> Some False \<or> has_staging_ambiguity_descendant True c)) (kid_dict (skids l))
          then (False, False)
          else let results = map (\<lambda>(n, rc). staging_visit rc (kid (skids l) n)) (kid_dict (skids r)) in
            if list_all fst results then (True, list_ex snd results) else (False, False))"

definition trees_have_verified_complete_staging_remote_identity :: "system_file option \<Rightarrow> system_file option \<Rightarrow> bool" where
  "trees_have_verified_complete_staging_remote_identity remote_root effective_root =
     (case (remote_root, effective_root) of
        (Some r, Some l) \<Rightarrow> sf_is_dir r = sf_is_dir l \<and> fst (staging_visit r (Some l)) \<and> snd (staging_visit r (Some l))
      | _ \<Rightarrow> False)"

fun collision_visit :: "system_file \<Rightarrow> system_file option \<Rightarrow> system_file option \<Rightarrow> bool \<Rightarrow> bool" where
  "collision_visit r effective_file active_file ancestor_has_collision =
     (case effective_file of
        None \<Rightarrow> False
      | Some l \<Rightarrow>
          if sf_is_dir r \<noteq> sf_is_dir l then False
          else let collision = (ancestor_has_collision \<or> sf_has_staging_collision l) in
            if sf_is_dir r then
              (if opt_holds (\<lambda>a. \<not> sf_is_dir a) active_file then False
               else list_all (\<lambda>rc. collision_visit rc (kid (skids l) (sf_name rc))
                      (case active_file of None \<Rightarrow> None | Some a \<Rightarrow> kid (skids a) (sf_name rc)) collision) (skids r))
            else if \<not> collision then True
            else leaf_matches_remote_collision_identity r l \<and>
                 (case active_file of None \<Rightarrow> True | Some a \<Rightarrow> leaf_matches_remote_collision_identity r a))"

definition has_verified_staging_collision_remote_identity ::
  "bool \<Rightarrow> system_file option \<Rightarrow> system_file option \<Rightarrow> system_file option \<Rightarrow> bool" where
  "has_verified_staging_collision_remote_identity terminalizable remote_root effective_root active_root =
     (terminalizable \<and>
      (case (remote_root, effective_root) of
         (Some r, Some l) \<Rightarrow> sf_is_dir r = sf_is_dir l \<and> collision_visit r (Some l) active_root False
       | _ \<Rightarrow> False))"

fun collision_paths_visit :: "system_file \<Rightarrow> string \<Rightarrow> bool \<Rightarrow> string list" where
  "collision_paths_visit f relative ancestor_has_collision =
     (let collision = (ancestor_has_collision \<or> sf_has_staging_collision f) in
      if sf_is_dir f
      then concat (map (\<lambda>c. collision_paths_visit c (join_relative relative (sf_name c)) collision) (skids f))
      else if collision then [relative] else [])"

definition get_staging_collision_relative_paths :: "system_file option \<Rightarrow> string list" where
  "get_staging_collision_relative_paths effective_root =
     (case effective_root of None \<Rightarrow> [] | Some f \<Rightarrow> sort (remdups (collision_paths_visit f [] False)))"

fun authoritative_final_local_only_size :: "system_file option \<Rightarrow> system_file \<Rightarrow> int" where
  "authoritative_final_local_only_size remote l =
     (if sf_is_staging l \<or> sf_has_staging_collision l then 0
      else case remote of
        None \<Rightarrow> if \<not> sf_is_dir l then sf_size l else sum_list (map (authoritative_final_local_only_size None) (skids l))
      | Some r \<Rightarrow>
          if sf_is_dir r \<noteq> sf_is_dir l then 0
          else if \<not> sf_is_dir l then 0
          else sum_list (map (\<lambda>c. authoritative_final_local_only_size (kid (skids r) (sf_name c)) c) (skids l)))"

lemmas tree_walk_simps =
  has_staging_descendant.simps has_staging_collision_descendant.simps has_staging_ambiguity_descendant.simps
  has_remote_transferable_content.simps authoritative_remote_leaf_progress_bytes.simps trusted_final_leaf_bytes.simps
  staged_remote_leaf_bytes.simps trusted_leaf_visit.simps finalizable_visit.simps directory_leaves_cover_remote.simps
  directory_leaves_cover_remote_for_presentation.simps covers_remote_leaves_allowing_collision.simps staging_visit.simps
  collision_visit.simps collision_paths_visit.simps authoritative_final_local_only_size.simps

declare tree_walk_simps [simp del]

end
