(* ===== verification/Tree_Proofs.thy ===== *)
theory Tree_Proofs
  imports Tree_Match
begin

text \<open>
  What the walks of \<open>Tree_Match\<close> compute, in terms of the nodes at the paths of the two trees: completion
  and the proof for a staged move as statements over every remote path, the two sources of progress as
  disjoint parts of the remote bytes, and the two ways to find the leaves that may be published.
\<close>

section \<open>Nodes at paths\<close>

fun node_at :: "system_file \<Rightarrow> string list \<Rightarrow> system_file option" where
  "node_at f [] = Some f"
| "node_at f (n # ns) = (if sf_is_dir f then (case kid (skids f) n of None \<Rightarrow> None | Some c \<Rightarrow> node_at c ns) else None)"

text \<open>Every node of the remote tree has a counterpart in the local tree, and what the local tree has
  beside them below a remote directory is harmless.\<close>

definition along :: "(system_file \<Rightarrow> system_file \<Rightarrow> bool) \<Rightarrow> (system_file \<Rightarrow> bool) \<Rightarrow> system_file \<Rightarrow> system_file \<Rightarrow> bool" where
  "along matches harmless r l \<longleftrightarrow>
     (\<forall>p n. node_at r p = Some n \<longrightarrow> (\<exists>m. node_at l p = Some m \<and> matches n m)) \<and>
     (\<forall>p k c. node_at r p \<noteq> None \<longrightarrow> node_at r (p @ [k]) = None \<longrightarrow> node_at l (p @ [k]) = Some c \<longrightarrow> harmless c)"

lemma node_at_kid: "sf_is_dir f \<Longrightarrow> kid (skids f) k = Some c \<Longrightarrow> node_at f (k # p) = node_at c p"
  by simp

lemma node_at_Cons: "node_at f (k # p) = Some n \<longleftrightarrow> sf_is_dir f \<and> (\<exists>c. kid (skids f) k = Some c \<and> node_at c p = Some n)"
  by (auto split: option.splits)

lemma node_at_None: "node_at f (k # p) = None \<longleftrightarrow> (sf_is_dir f \<longrightarrow> (\<forall>c. kid (skids f) k = Some c \<longrightarrow> node_at c p = None))"
  by (auto split: option.splits)

lemma node_at_leaf: "\<not> sf_is_dir f \<Longrightarrow> node_at f p = Some n \<longleftrightarrow> p = [] \<and> n = f"
  by (cases p) auto

declare node_at.simps(2) [simp del]

lemma along_root: "along M X r l \<Longrightarrow> M r l"
  unfolding along_def by (metis node_at.simps(1) option.inject)

lemma along_extra:
  assumes "along M X r l" "sf_is_dir r" "sf_is_dir l" "kid (skids r) k = None" "kid (skids l) k = Some c"
  shows "X c"
proof -
  have "node_at r [] \<noteq> None" "node_at r ([] @ [k]) = None" "node_at l ([] @ [k]) = Some c"
    using assms by (simp_all add: node_at_None node_at_Cons)
  then show ?thesis using assms(1) unfolding along_def by blast
qed

lemma along_kid:
  assumes a: "along M X r l" and d: "sf_is_dir r" "sf_is_dir l" and k: "kid (skids r) k = Some rc"
  shows "\<exists>lc. kid (skids l) k = Some lc \<and> along M X rc lc"
proof -
  have "node_at r [k] = Some rc" using k d by (simp add: node_at_Cons)
  then obtain m where "node_at l [k] = Some m" using a unfolding along_def by blast
  then obtain lc where lc: "kid (skids l) k = Some lc" by (auto simp: node_at_Cons)
  note r = node_at_kid[OF d(1) k] and l = node_at_kid[OF d(2) lc]
  have "along M X rc lc"
    unfolding along_def
  proof (intro conjI allI impI)
    show "\<exists>m. node_at lc p = Some m \<and> M n m" if "node_at rc p = Some n" for p n
      using a that unfolding along_def r[symmetric] l[symmetric] by blast
    show "X c" if "node_at rc p \<noteq> None" "node_at rc (p @ [j]) = None" "node_at lc (p @ [j]) = Some c" for p j c
      using a that unfolding along_def r[symmetric] l[symmetric] append_Cons[symmetric] by blast
  qed
  with lc show ?thesis by blast
qed

lemma alongI:
  assumes "M r l" "sf_is_dir r = sf_is_dir l"
    and x: "\<And>k c. sf_is_dir r \<Longrightarrow> kid (skids r) k = None \<Longrightarrow> kid (skids l) k = Some c \<Longrightarrow> X c"
    and c: "\<And>k rc. sf_is_dir r \<Longrightarrow> kid (skids r) k = Some rc \<Longrightarrow> \<exists>lc. kid (skids l) k = Some lc \<and> along M X rc lc"
  shows "along M X r l"
  unfolding along_def
proof (intro conjI allI impI)
  show "\<exists>m. node_at l p = Some m \<and> M n m" if n: "node_at r p = Some n" for p n
  proof (cases p)
    case (Cons k q)
    then obtain rc where rc: "sf_is_dir r" "kid (skids r) k = Some rc" "node_at rc q = Some n" using n by (auto simp: node_at_Cons)
    then obtain lc where lc: "kid (skids l) k = Some lc" "along M X rc lc" using c by blast
    then have "\<exists>m. node_at lc q = Some m \<and> M n m" using rc(3) unfolding along_def by blast
    then show ?thesis using lc(1) rc(1) assms(2) Cons by (simp add: node_at_kid)
  qed (use n assms(1) in simp)
  show "X d" if h: "node_at r p \<noteq> None" "node_at r (p @ [k]) = None" "node_at l (p @ [k]) = Some d" for p k d
  proof (cases p)
    case Nil
    then show ?thesis using h assms(2) x[of k d] by (auto simp: node_at_Cons node_at_None)
  next
    case (Cons j q)
    then obtain rc where rc: "sf_is_dir r" "kid (skids r) j = Some rc" "node_at rc q \<noteq> None"
      using h(1) by (auto simp: node_at_Cons)
    then obtain lc where lc: "kid (skids l) j = Some lc" "along M X rc lc" using c by blast
    have "node_at rc (q @ [k]) = None" "node_at lc (q @ [k]) = Some d"
      using h(2,3) rc(1,2) lc(1) Cons assms(2) by (simp_all add: node_at_kid)
    with lc(2) rc(3) show ?thesis unfolding along_def by blast
  qed
qed

lemma along_iff:
  assumes "\<And>n m. M n m \<Longrightarrow> sf_is_dir n = sf_is_dir m"
  shows "along M X r l \<longleftrightarrow> M r l \<and> (sf_is_dir r \<longrightarrow>
    (\<forall>k c. kid (skids r) k = None \<longrightarrow> kid (skids l) k = Some c \<longrightarrow> X c) \<and>
    (\<forall>k rc. kid (skids r) k = Some rc \<longrightarrow> (\<exists>lc. kid (skids l) k = Some lc \<and> along M X rc lc)))"
proof
  assume a: "along M X r l"
  have m: "M r l" by (rule along_root[OF a])
  with along_extra[OF a] along_kid[OF a] assms show "M r l \<and> (sf_is_dir r \<longrightarrow>
      (\<forall>k c. kid (skids r) k = None \<longrightarrow> kid (skids l) k = Some c \<longrightarrow> X c) \<and>
      (\<forall>k rc. kid (skids r) k = Some rc \<longrightarrow> (\<exists>lc. kid (skids l) k = Some lc \<and> along M X rc lc)))"
    by blast
next
  show "along M X r l" if "M r l \<and> (sf_is_dir r \<longrightarrow>
      (\<forall>k c. kid (skids r) k = None \<longrightarrow> kid (skids l) k = Some c \<longrightarrow> X c) \<and>
      (\<forall>k rc. kid (skids r) k = Some rc \<longrightarrow> (\<exists>lc. kid (skids l) k = Some lc \<and> along M X rc lc)))"
    by (rule alongI) (use that assms in blast)+
qed

lemma along_mono:
  assumes "along M X r l" "\<And>n m. M n m \<Longrightarrow> M' n m" "\<And>c. X c \<Longrightarrow> X' c"
  shows "along M' X' r l"
  using assms unfolding along_def by blast

text \<open>A walk over the children of a remote node, through the dictionaries of both nodes, in terms of
  lookups.\<close>

lemma all_kids_iff:
  "list_all (\<lambda>(n, rc). P n rc) (kid_dict (skids r)) \<longleftrightarrow> (\<forall>k rc. kid (skids r) k = Some rc \<longrightarrow> P k rc)"
  unfolding list_all_iff kid_dict_iff[symmetric] by auto

lemma some_kid_iff:
  "list_ex (\<lambda>(n, c). P n c) (kid_dict (skids l)) \<longleftrightarrow> (\<exists>k c. kid (skids l) k = Some c \<and> P k c)"
  unfolding list_ex_iff kid_dict_iff[symmetric] by auto

section \<open>Completion\<close>

definition covers :: "system_file \<Rightarrow> system_file \<Rightarrow> bool" where
  "covers n m \<longleftrightarrow> sf_is_dir n = sf_is_dir m \<and> \<not> sf_has_staging_collision m \<and> (\<not> sf_is_dir n \<longrightarrow> sf_size n \<le> sf_size m)"

definition unstaged :: "system_file \<Rightarrow> bool" where
  "unstaged c \<longleftrightarrow> \<not> sf_has_staging_collision c \<and> \<not> has_staging_descendant c"

lemma covers_kind: "covers n m \<Longrightarrow> sf_is_dir n = sf_is_dir m"
  by (simp add: covers_def)

lemma cover_iff_along: "directory_leaves_cover_remote r (Some l) \<longleftrightarrow> along covers unstaged r l"
proof (induction r arbitrary: l rule: measure_induct_rule[of size])
  case (less r)
  have "directory_leaves_cover_remote rc (kid (skids l) (sf_name rc)) \<longleftrightarrow> (\<exists>lc. kid (skids l) k = Some lc \<and> along covers unstaged rc lc)"
    if k: "kid (skids r) k = Some rc" for k rc
    using less[of rc] kid_mem[OF k] skids_smaller[of rc r]
    by (cases "kid (skids l) k") (auto simp: directory_leaves_cover_remote.simps[of rc None])
  then have all: "list_all (\<lambda>(n, rc). directory_leaves_cover_remote rc (kid (skids l) (sf_name rc))) (kid_dict (skids r)) \<longleftrightarrow>
      (\<forall>k rc. kid (skids r) k = Some rc \<longrightarrow> (\<exists>lc. kid (skids l) k = Some lc \<and> along covers unstaged rc lc))"
    unfolding all_kids_iff by blast
  have ex: "(\<exists>k c. kid (skids l) k = Some c \<and> kid (skids r) k = None \<and> (sf_has_staging_collision c \<or> has_staging_descendant c)) \<longleftrightarrow>
      \<not> (\<forall>k c. kid (skids r) k = None \<longrightarrow> kid (skids l) k = Some c \<longrightarrow> unstaged c)"
    unfolding unstaged_def by blast
  note rec = along_iff[of covers unstaged r l, OF covers_kind, unfolded covers_def[of r l]]
  show ?case
    unfolding directory_leaves_cover_remote.simps[of r] option.case
      all some_kid_iff ex
    by (cases "sf_is_dir r"; cases "sf_is_dir l"; cases "sf_has_staging_collision l") (simp_all add: rec, force)
qed

section \<open>The proof for a staged move\<close>

definition portable_match :: "system_file \<Rightarrow> system_file \<Rightarrow> bool" where
  "portable_match n m \<longleftrightarrow> sf_is_dir n = sf_is_dir m \<and> \<not> sf_has_staging_collision m \<and>
     (\<not> sf_is_dir n \<longrightarrow> \<not> sf_status_sidecar_ready m \<and>
        (if sf_is_staging m then leaf_matches_remote_collision_identity n m else leaf_matches_remote_queue_exclusion_identity n m))"

definition plainly_final :: "system_file \<Rightarrow> bool" where
  "plainly_final c \<longleftrightarrow> sf_has_staging_origin c = Some False \<and> \<not> has_staging_ambiguity_descendant True c"

definition staged_leaf :: "system_file \<Rightarrow> system_file \<Rightarrow> string list \<Rightarrow> bool" where
  "staged_leaf r l p \<longleftrightarrow> (\<exists>n m. node_at r p = Some n \<and> \<not> sf_is_dir n \<and> node_at l p = Some m \<and> sf_is_staging m)"

lemma portable_match_kind: "portable_match n m \<Longrightarrow> sf_is_dir n = sf_is_dir m"
  by (simp add: portable_match_def)

lemma staging_visit_along: "fst (staging_visit r (Some l)) \<longleftrightarrow> along portable_match plainly_final r l"
proof (induction r arbitrary: l rule: measure_induct_rule[of size])
  case (less r)
  have none: "staging_visit rc None = (False, False)" for rc by (simp add: staging_visit.simps)
  have "fst (staging_visit rc (kid (skids l) k)) \<longleftrightarrow> (\<exists>lc. kid (skids l) k = Some lc \<and> along portable_match plainly_final rc lc)"
    if k: "kid (skids r) k = Some rc" for k rc
    using less[of rc] kid_mem[OF k] skids_smaller[of rc r] none by (cases "kid (skids l) k") auto
  then have all: "list_all fst (map (\<lambda>(n, rc). staging_visit rc (kid (skids l) n)) (kid_dict (skids r))) \<longleftrightarrow>
      (\<forall>k rc. kid (skids r) k = Some rc \<longrightarrow> (\<exists>lc. kid (skids l) k = Some lc \<and> along portable_match plainly_final rc lc))"
    unfolding list.pred_map comp_def case_prod_beta' using all_kids_iff[of "\<lambda>k rc. fst (staging_visit rc (kid (skids l) k))" r]
    by (simp add: case_prod_beta')
  have ex: "(\<exists>k c. kid (skids l) k = Some c \<and> kid (skids r) k = None \<and>
        (sf_has_staging_origin c \<noteq> Some False \<or> has_staging_ambiguity_descendant True c)) \<longleftrightarrow>
      \<not> (\<forall>k c. kid (skids r) k = None \<longrightarrow> kid (skids l) k = Some c \<longrightarrow> plainly_final c)"
    unfolding plainly_final_def by blast
  note rec = along_iff[of portable_match plainly_final r l, OF portable_match_kind, unfolded portable_match_def[of r l]]
  show ?case
    unfolding
      staging_visit.simps[of r] option.case Let_def all some_kid_iff ex
    by (cases "sf_is_dir r"; cases "sf_is_dir l"; cases "sf_has_staging_collision l") (simp_all add: rec, metis option.distinct(1))
qed

lemma staging_visit_leaf:
  "fst (staging_visit r (Some l)) \<Longrightarrow> snd (staging_visit r (Some l)) \<longleftrightarrow> (\<exists>p. staged_leaf r l p)"
proof (induction r arbitrary: l rule: measure_induct_rule[of size])
  case (less r)
  show ?case
  proof (cases "sf_is_dir r")
    case False
    then have "staged_leaf r l p \<longleftrightarrow> p = [] \<and> sf_is_staging l" for p by (auto simp: staged_leaf_def node_at_leaf)
    with False less.prems show ?thesis by (auto simp: staging_visit.simps[of r] split: if_splits)
  next
    case True
    let ?f = "\<lambda>(n, rc). staging_visit rc (kid (skids l) n)"
    have l: "sf_is_dir l" and s: "staging_visit r (Some l) = (True, list_ex snd (map ?f (kid_dict (skids r))))"
      and v: "list_all fst (map ?f (kid_dict (skids r)))"
      using less.prems True by (auto simp: staging_visit.simps[of r] Let_def split: if_splits)
    have k: "snd (staging_visit rc (kid (skids l) k)) \<longleftrightarrow> (\<exists>p. staged_leaf r l (k # p))" if rc: "kid (skids r) k = Some rc" for k rc
    proof -
      have "(k, rc) \<in> set (kid_dict (skids r))" using rc by (simp add: kid_dict_iff)
      with v have f: "fst (staging_visit rc (kid (skids l) k))" by (auto simp: list_all_iff)
      then obtain lc where lc: "kid (skids l) k = Some lc" by (cases "kid (skids l) k") (auto simp: staging_visit.simps)
      have "staged_leaf r l (k # p) \<longleftrightarrow> staged_leaf rc lc p" for p
        using node_at_kid[OF True rc] node_at_kid[OF l lc] by (simp add: staged_leaf_def)
      moreover have "size rc < size r" using kid_mem[OF rc] skids_smaller by blast
      ultimately show ?thesis using less.IH[of rc lc] f lc by simp
    qed
    have "staged_leaf r l p \<longleftrightarrow> (\<exists>k q rc. p = k # q \<and> kid (skids r) k = Some rc \<and> staged_leaf r l (k # q))" for p
      using True by (cases p) (auto simp: staged_leaf_def node_at_Cons)
    moreover have "snd (staging_visit r (Some l)) \<longleftrightarrow> (\<exists>j rc. kid (skids r) j = Some rc \<and> snd (staging_visit rc (kid (skids l) j)))"
      unfolding s snd_conv list_ex_iff kid_dict_iff[symmetric] by force
    ultimately show ?thesis using k by (metis (no_types, lifting))
  qed
qed

lemma no_ambiguity_unstaged: "\<not> has_staging_ambiguity_descendant b c \<Longrightarrow> unstaged c"
proof -
  have "has_staging_descendant c \<Longrightarrow> has_staging_ambiguity_descendant b c"
  proof (induction c rule: has_staging_descendant.induct)
    case (1 f)
    then show ?case
      unfolding has_staging_descendant.simps[of f] has_staging_ambiguity_descendant.simps[of b f] list_ex_iff by blast
  qed
  then show "\<not> has_staging_ambiguity_descendant b c \<Longrightarrow> ?thesis"
    by (auto simp: unstaged_def has_staging_ambiguity_descendant.simps[of b c])
qed

lemma staged_move_completes:
  assumes "along portable_match plainly_final r l"
  shows "along covers unstaged r l"
proof (rule along_mono[OF assms])
  show "covers n m" if "portable_match n m" for n m
    using that by (auto simp: portable_match_def covers_def leaf_matches_remote_collision_identity_def
        leaf_matches_remote_queue_exclusion_identity_def split: if_splits)
  show "unstaged c" if "plainly_final c" for c using that no_ambiguity_unstaged by (auto simp: plainly_final_def)
qed

section \<open>Bytes\<close>

text \<open>A scanned tree: sizes are not negative, only directories have children, and siblings have different
  names.\<close>

fun tidy :: "system_file \<Rightarrow> bool" where
  "tidy f = (0 \<le> sf_size f \<and> (skids f \<noteq> [] \<longrightarrow> sf_is_dir f) \<and> distinct (map sf_name (skids f)) \<and> list_all tidy (skids f))"

fun leaf_bytes :: "system_file \<Rightarrow> int" where
  "leaf_bytes f = (if sf_is_dir f then sum_list (map leaf_bytes (skids f)) else sf_size f)"

declare tidy.simps [simp del] leaf_bytes.simps [simp del]

lemma tidy_size: "tidy f \<Longrightarrow> 0 \<le> sf_size f" by (simp add: tidy.simps)

lemma tidy_kids: "tidy f \<Longrightarrow> distinct (map sf_name (skids f))" by (simp add: tidy.simps)

lemma tidy_kid: "tidy f \<Longrightarrow> c \<in> set (skids f) \<Longrightarrow> tidy c" by (auto simp: tidy.simps[of f] list_all_iff)

lemma kid_sum:
  assumes "distinct (map sf_name cs)"
  shows "sum_list (map h cs) = (\<Sum>n \<in> sf_name ` set cs. h (the (kid cs n)))"
proof -
  have "sum_list (map h cs) = (\<Sum>c \<in> set cs. h c)" using assms by (simp add: sum_list_distinct_conv_sum_set distinct_map)
  also have "\<dots> = (\<Sum>n \<in> sf_name ` set cs. h (the (kid cs n)))"
    using assms by (intro sum.reindex_cong[of "\<lambda>n. the (kid cs n)" "sf_name ` set cs" "set cs"])
      (auto simp: kid_distinct inj_on_def image_iff)
  finally show ?thesis .
qed

text \<open>A sum over the local children that looks up remote ones is a sum over the remote children that
  looks up local ones.\<close>

lemma kid_sum_swap:
  assumes "distinct (map sf_name rs)" "distinct (map sf_name ls)" "\<And>c. f None c = (0::int)"
  shows "sum_list (map (\<lambda>c. f (kid rs (sf_name c)) c) ls) =
    sum_list (map (\<lambda>rc. case kid ls (sf_name rc) of None \<Rightarrow> 0 | Some c \<Rightarrow> f (Some rc) c) rs)"
proof -
  have n: "sf_name (the (kid cs n)) = n" "kid cs n = Some (the (kid cs n))" if "n \<in> sf_name ` set cs" for cs n
    using that kid_None_iff[of cs n] kid_mem[of cs n] by (cases "kid cs n"; simp)+
  let ?g = "\<lambda>n. f (kid rs n) (the (kid ls n))"
  have "sum_list (map (\<lambda>c. f (kid rs (sf_name c)) c) ls) = (\<Sum>n \<in> sf_name ` set ls. ?g n)"
    unfolding kid_sum[OF assms(2)] by (intro sum.cong) (auto simp: kid_distinct[OF assms(2)])
  also have "\<dots> = (\<Sum>n \<in> sf_name ` set ls \<inter> sf_name ` set rs. ?g n)"
  proof (rule sum.mono_neutral_right)
    show "\<forall>n \<in> sf_name ` set ls - sf_name ` set ls \<inter> sf_name ` set rs. ?g n = 0"
      using assms(3) kid_None_iff[of rs] by (metis DiffD1 DiffD2 IntI)
  qed auto
  also have "\<dots> = (\<Sum>n \<in> sf_name ` set rs. case kid ls n of None \<Rightarrow> 0 | Some c \<Rightarrow> f (kid rs n) c)"
  proof (rule sum.mono_neutral_cong_left)
    show "\<forall>n \<in> sf_name ` set rs - sf_name ` set ls \<inter> sf_name ` set rs. (case kid ls n of None \<Rightarrow> 0 | Some c \<Rightarrow> f (kid rs n) c) = 0"
      using kid_None_iff[of ls] by (metis DiffD1 DiffD2 IntI option.simps(4))
    show "?g k = (case kid ls k of None \<Rightarrow> 0 | Some c \<Rightarrow> f (kid rs k) c)" if "k \<in> sf_name ` set ls \<inter> sf_name ` set rs" for k
      using n(2)[of k ls] that by (metis IntD1 option.simps(5))
  qed auto
  also have "\<dots> = sum_list (map (\<lambda>rc. case kid ls (sf_name rc) of None \<Rightarrow> 0 | Some c \<Rightarrow> f (Some rc) c) rs)"
    unfolding kid_sum[OF assms(1)] by (intro sum.cong) (auto simp: kid_distinct[OF assms(1)] split: option.split)
  finally show ?thesis .
qed

lemma sum_list_bound:
  assumes "\<And>x. x \<in> set xs \<Longrightarrow> 0 \<le> f x \<and> 0 \<le> g x \<and> f x + g x \<le> (h x :: int)"
  shows "0 \<le> sum_list (map f xs) \<and> 0 \<le> sum_list (map g xs) \<and> sum_list (map f xs) + sum_list (map g xs) \<le> sum_list (map h xs)"
  using assms by (induction xs) (auto simp: add_mono intro!: add_nonneg_nonneg, fastforce)

lemma leaf_bytes_nonneg: "tidy f \<Longrightarrow> 0 \<le> leaf_bytes f"
proof (induction f rule: leaf_bytes.induct)
  case (1 f)
  have "0 \<le> sum_list (map leaf_bytes (skids f))" if "sf_is_dir f"
    using 1(1)[OF that] tidy_kid[OF 1(2)] by (intro sum_list_nonneg) auto
  then show ?case using tidy_size[OF 1(2)] by (simp add: leaf_bytes.simps[of f])
qed

lemma final_and_staged_bytes:
  assumes "tidy r" "tidy l"
  shows "0 \<le> trusted_final_leaf_bytes (Some r) l collision \<and> 0 \<le> staged_remote_leaf_bytes r (Some l) \<and>
    trusted_final_leaf_bytes (Some r) l collision + staged_remote_leaf_bytes r (Some l) \<le> leaf_bytes r"
  using assms
proof (induction r arbitrary: l collision rule: measure_induct_rule[of size])
  case (less r)
  show ?case
  proof (cases "sf_is_dir r \<and> sf_is_dir l")
    case True
    let ?c = "collision \<or> sf_has_staging_collision l"
    let ?T = "\<lambda>rc. case kid (skids l) (sf_name rc) of None \<Rightarrow> 0 | Some c \<Rightarrow> trusted_final_leaf_bytes (Some rc) c ?c"
    let ?S = "\<lambda>rc. staged_remote_leaf_bytes rc (kid (skids l) (sf_name rc))"
    have "0 \<le> ?T rc \<and> 0 \<le> ?S rc \<and> ?T rc + ?S rc \<le> leaf_bytes rc" if rc: "rc \<in> set (skids r)" for rc
    proof (cases "kid (skids l) (sf_name rc)")
      case None
      then show ?thesis using leaf_bytes_nonneg tidy_kid[OF less.prems(1) rc] by (simp add: staged_remote_leaf_bytes.simps)
    next
      case (Some lc)
      then have "lc \<in> set (skids l)" using kid_mem by blast
      then show ?thesis
        using less.IH[OF skids_smaller[OF rc] tidy_kid[OF less.prems(1) rc] tidy_kid[OF less.prems(2)], of lc ?c] Some by simp
    qed
    note b = sum_list_bound[of "skids r" ?T ?S leaf_bytes, OF this]
    have t: "trusted_final_leaf_bytes (Some r) l collision = sum_list (map ?T (skids r))"
      using True kid_sum_swap[of "skids r" "skids l" "\<lambda>x c. trusted_final_leaf_bytes x c ?c", OF tidy_kids[OF less.prems(1)] tidy_kids[OF less.prems(2)]]
      by (simp add: trusted_final_leaf_bytes.simps[of "Some r"] trusted_final_leaf_bytes.simps[of None] Let_def)
    have s: "staged_remote_leaf_bytes r (Some l) = (if sf_has_staging_collision l then 0 else sum_list (map ?S (skids r)))"
      using True by (simp add: staged_remote_leaf_bytes.simps[of r])
    show ?thesis unfolding t s leaf_bytes.simps[of r] using b True by simp
  next
    case False
    show ?thesis
    proof (cases "sf_is_dir r = sf_is_dir l")
      case True
      with False tidy_size[OF less.prems(1)] tidy_size[OF less.prems(2)] show ?thesis
      by (auto simp: trusted_final_leaf_bytes.simps[of "Some r"] staged_remote_leaf_bytes.simps[of r] leaf_bytes.simps[of r] Let_def
          leaf_matches_remote_queue_exclusion_identity_def is_authoritative_local_file_def)
    next
      case False
      then show ?thesis
        using leaf_bytes_nonneg[OF less.prems(1)] by (simp add: trusted_final_leaf_bytes.simps[of "Some r"] staged_remote_leaf_bytes.simps[of r])
    qed
  qed
qed

section \<open>Leaves that may be published\<close>

lemma first_kid_distinct:
  assumes "distinct (map sf_name cs)"
  shows "first_kid cs n = kid cs n"
proof (cases "first_kid cs n")
  case None
  then have "kid cs n = None" by (auto simp: first_kid_def find_None_iff kid_None_iff)
  with None show ?thesis by simp
next
  case (Some c)
  then have "c \<in> set cs" "sf_name c = n" by (auto simp: first_kid_def find_Some_iff)
  with Some kid_distinct[OF assms] show ?thesis by auto
qed

lemma first_kid_mem: "first_kid cs n = Some c \<Longrightarrow> c \<in> set cs \<and> sf_name c = n"
  by (auto simp: first_kid_def find_Some_iff)

text \<open>\<open>tidy_names\<close>: names are what a directory listing yields, not empty and without a slash.\<close>

fun tidy_names :: "system_file \<Rightarrow> bool" where
  "tidy_names f = list_all (\<lambda>c. sf_name c \<noteq> [] \<and> CHR ''/'' \<notin> set (sf_name c) \<and> tidy_names c) (skids f)"

declare tidy_names.simps [simp del]

definition may_publish :: "string \<Rightarrow> bool" where
  "may_publish relative \<longleftrightarrow> relative \<noteq> [] \<and> CHR 0x5C \<notin> set relative"

lemma candidate_needs_local: "candidate_walk ns r None collision \<noteq> Some ''match''"
  by (induction ns r "None :: system_file option" collision rule: candidate_walk.induct) (auto split: option.splits)

lemma finalizable_visit_iff:
  assumes "tidy r" "pred_option tidy local_file"
  shows "relative \<in> set (finalizable_visit r local_file pre collision) \<longleftrightarrow>
    may_publish relative \<and> (\<exists>ns. relative = foldl join_relative pre ns \<and> candidate_walk ns r local_file collision = Some ''match'')"
  using assms
proof (induction r arbitrary: local_file pre collision rule: measure_induct_rule[of size])
  case (less r)
  show ?case
  proof (cases local_file)
    case None
    with candidate_needs_local show ?thesis by (simp add: finalizable_visit.simps)
  next
    case (Some l)
    show ?thesis
    proof (cases "sf_is_dir r")
      case False
      have "candidate_walk ns r (Some l) collision = Some ''match'' \<longleftrightarrow> ns = [] \<and> \<not> sf_is_dir l \<and>
          \<not> collision \<and> \<not> sf_has_staging_collision l \<and> sf_is_staging l \<and> \<not> sf_status_sidecar_ready l \<and> leaf_matches_remote_collision_identity r l" for ns
        using False by (cases ns) (auto simp: leaf_matches_remote_collision_identity_def)
      with Some False show ?thesis by (auto simp: finalizable_visit.simps[of r] may_publish_def Let_def)
    next
      case True
      have l: "tidy l" using less.prems(2) Some by simp
      have w: "candidate_walk (n # ns) r (Some l) collision = Some ''match'' \<longleftrightarrow> sf_is_dir l \<and>
          (\<exists>rc. kid (skids r) n = Some rc \<and> candidate_walk ns rc (kid (skids l) n) (collision \<or> sf_has_staging_collision l) = Some ''match'')" for n ns
        using True by (auto simp: first_kid_distinct[OF tidy_kids[OF less.prems(1)]] first_kid_distinct[OF tidy_kids[OF l]] split: option.splits)
      have e: "candidate_walk [] r (Some l) collision \<noteq> Some ''match''" using True by simp
      have IH: "relative \<in> set (finalizable_visit rc (kid (skids l) (sf_name rc)) pre' collision') \<longleftrightarrow>
          may_publish relative \<and> (\<exists>ns. relative = foldl join_relative pre' ns \<and> candidate_walk ns rc (kid (skids l) (sf_name rc)) collision' = Some ''match'')"
        if rc: "rc \<in> set (skids r)" for rc pre' collision'
        using kid_mem[of "skids l" "sf_name rc"] tidy_kid[OF l]
        by (intro less.IH[OF skids_smaller[OF rc] tidy_kid[OF less.prems(1) rc]]) (auto simp: option.pred_set)
      have "relative \<in> set (finalizable_visit r (Some l) pre collision) \<longleftrightarrow> sf_is_dir l \<and>
          (\<exists>rc \<in> set (skids r). relative \<in> set (finalizable_visit rc (kid (skids l) (sf_name rc)) (join_relative pre (sf_name rc))
              (collision \<or> sf_has_staging_collision l)))"
        using True by (auto simp: finalizable_visit.simps[of r] Let_def)
      also have "\<dots> \<longleftrightarrow> may_publish relative \<and> (\<exists>n ns. relative = foldl join_relative pre (n # ns) \<and> candidate_walk (n # ns) r (Some l) collision = Some ''match'')"
        unfolding w using IH kid_mem[of "skids r"] kid_distinct[OF tidy_kids[OF less.prems(1)]] by fastforce
      also have "\<dots> \<longleftrightarrow> may_publish relative \<and> (\<exists>ns. relative = foldl join_relative pre ns \<and> candidate_walk ns r (Some l) collision = Some ''match'')"
        using e by (metis neq_Nil_conv)
      finally show ?thesis unfolding Some .
    qed
  qed
qed

lemma candidate_walk_names:
  "tidy_names r \<Longrightarrow> candidate_walk ns r local_file collision = Some ''match'' \<Longrightarrow> list_all (\<lambda>n. n \<noteq> [] \<and> CHR ''/'' \<notin> set n) ns"
proof (induction ns r local_file collision rule: candidate_walk.induct)
  case (2 part parts r local_file collision)
  from 2(4) obtain rc where d: "sf_is_dir r" and rc: "first_kid (skids r) part = Some rc"
    by (auto split: if_splits option.splits)
  have n: "part \<noteq> [] \<and> CHR ''/'' \<notin> set part" "tidy_names rc"
    using 2(3) first_kid_mem[OF rc] by (auto simp: tidy_names.simps[of r] list_all_iff)
  show ?case
  proof (cases local_file)
    case None
    then show ?thesis using 2(1)[of rc] 2(4) d rc n by simp
  next
    case (Some l)
    then show ?thesis using 2(2)[of rc l] 2(4) d rc n by (simp split: if_splits)
  qed
qed simp

lemma split_on_append: "c \<notin> set s \<Longrightarrow> split_on c (s @ c # t) = s # split_on c t"
  by (induction s) auto

lemma join_rest: "pre \<noteq> [] \<Longrightarrow> foldl join_relative pre ns = pre @ concat (map ((#) (CHR ''/'')) ns)"
  by (induction ns arbitrary: pre) (simp_all add: join_relative_def)

lemma join_names: "n \<noteq> [] \<Longrightarrow> foldl join_relative [] (n # ns) = n @ concat (map ((#) (CHR ''/'')) ns)"
  by (simp add: join_relative_def join_rest)

lemma split_of_join:
  "CHR ''/'' \<notin> set n \<Longrightarrow> list_all (\<lambda>n. CHR ''/'' \<notin> set n) ns \<Longrightarrow>
    split_on (CHR ''/'') (n @ concat (map ((#) (CHR ''/'')) ns)) = n # ns"
  by (induction ns arbitrary: n) (simp_all add: split_on_plain split_on_append)

lemma join_of_split: "split_on c s = n # ns \<Longrightarrow> s = n @ concat (map ((#) c) ns)"
proof (induction s arbitrary: n ns)
  case (Cons x s)
  obtain m ms where m: "split_on c s = m # ms" by (metis split_on_nonempty neq_Nil_conv)
  have "n # ns = (if x = c then [] # m # ms else (x # m) # ms)"
    using Cons.prems[symmetric] unfolding split_on.simps m list.case .
  with Cons.IH[OF m] show ?case by (cases "x = c") simp_all
qed simp

lemma finalizable_iff_match:
  assumes "tidy r" "tidy l" "tidy_names r" "sf_is_dir r"
  shows "relative \<in> set (finalizable_visit r (Some l) [] False) \<longleftrightarrow>
    get_finalizable_staging_leaf_candidate_reason (Some r) (Some l) relative = Some ''match''"
proof -
  let ?walk = "\<lambda>ns. candidate_walk ns r (Some l) False = Some ''match''"
  have "relative \<in> set (finalizable_visit r (Some l) [] False) \<longleftrightarrow> may_publish relative \<and> (\<exists>ns. relative = foldl join_relative [] ns \<and> ?walk ns)"
    by (rule finalizable_visit_iff) (use assms in simp_all)
  also have "\<dots> \<longleftrightarrow> may_publish relative \<and> list_all (\<lambda>n. n \<noteq> []) (split_on (CHR ''/'') relative) \<and> ?walk (split_on (CHR ''/'') relative)"
  proof (intro conj_cong refl iffI)
    assume "\<exists>ns. relative = foldl join_relative [] ns \<and> ?walk ns"
    then obtain ns where ns: "relative = foldl join_relative [] ns" "?walk ns" by blast
    have g: "list_all (\<lambda>n. n \<noteq> [] \<and> CHR ''/'' \<notin> set n) ns" by (rule candidate_walk_names[OF assms(3) ns(2)])
    obtain m ms where m: "ns = m # ms" using ns(2) assms(4) by (cases ns) auto
    then have "split_on (CHR ''/'') relative = ns"
      using g split_of_join[of m ms] join_names[of m ms] ns(1) by (auto simp: list_all_iff)
    then show "list_all (\<lambda>n. n \<noteq> []) (split_on (CHR ''/'') relative) \<and> ?walk (split_on (CHR ''/'') relative)"
      using g ns(2) by (auto simp: list_all_iff)
  next
    assume a: "list_all (\<lambda>n. n \<noteq> []) (split_on (CHR ''/'') relative) \<and> ?walk (split_on (CHR ''/'') relative)"
    obtain m ms where m: "split_on (CHR ''/'') relative = m # ms" by (metis split_on_nonempty neq_Nil_conv)
    have "m \<noteq> []" using a m by simp
    then have "relative = foldl join_relative [] (m # ms)" using join_of_split[OF m] join_names by metis
    then show "\<exists>ns. relative = foldl join_relative [] ns \<and> ?walk ns" using a m by metis
  qed
  also have "\<dots> \<longleftrightarrow> get_finalizable_staging_leaf_candidate_reason (Some r) (Some l) relative = Some ''match''"
    using assms(4) by (auto simp: get_finalizable_staging_leaf_candidate_reason_def may_publish_def list_all_iff list_ex_iff)
  finally show ?thesis .
qed

lemma candidates_iff_match:
  assumes "dict_ok remote_files" "\<forall>r \<in> snd ` set remote_files. tidy r \<and> tidy_names r" "\<forall>l \<in> snd ` set local_files. tidy l"
  shows "(root_id, relative) \<in> set (get_finalizable_staging_leaf_candidates remote_files local_files) \<longleftrightarrow>
    get_finalizable_staging_leaf_candidate_reason (dict_get remote_files root_id) (dict_get local_files root_id) relative = Some ''match''"
proof -
  let ?reason = "\<lambda>r. get_finalizable_staging_leaf_candidate_reason (Some r) (dict_get local_files root_id) relative"
  have "(root_id, relative) \<in> set (get_finalizable_staging_leaf_candidates remote_files local_files) \<longleftrightarrow>
      (\<exists>r. (root_id, r) \<in> set remote_files \<and> sf_is_dir r \<and> (\<exists>l. dict_get local_files root_id = Some l \<and> relative \<in> set (finalizable_visit r (Some l) [] False)))"
  proof -
    let ?row = "\<lambda>(i, r). if \<not> sf_is_dir r then [] else case dict_get local_files i of None \<Rightarrow> [] | Some l \<Rightarrow> map (Pair i) (finalizable_visit r (Some l) [] False)"
    have "(root_id, relative) \<in> set (?row (i, r)) \<longleftrightarrow> i = root_id \<and> sf_is_dir r \<and>
        (\<exists>l. dict_get local_files root_id = Some l \<and> relative \<in> set (finalizable_visit r (Some l) [] False))" for i r
      by (cases "dict_get local_files i") auto
    then have "(\<exists>x \<in> set remote_files. (root_id, relative) \<in> set (?row x)) \<longleftrightarrow>
        (\<exists>r. (root_id, r) \<in> set remote_files \<and> sf_is_dir r \<and> (\<exists>l. dict_get local_files root_id = Some l \<and> relative \<in> set (finalizable_visit r (Some l) [] False)))"
      by force
    then show ?thesis unfolding get_finalizable_staging_leaf_candidates_def by simp
  qed
  also have "\<dots> \<longleftrightarrow> (\<exists>r. dict_get remote_files root_id = Some r \<and> ?reason r = Some ''match'')"
  proof (rule ex_cong1)
    fix r
    have "sf_is_dir r \<and> (\<exists>l. dict_get local_files root_id = Some l \<and> relative \<in> set (finalizable_visit r (Some l) [] False)) \<longleftrightarrow> ?reason r = Some ''match''"
      if r: "(root_id, r) \<in> set remote_files"
    proof (cases "sf_is_dir r")
      case True
      have t: "tidy r" "tidy_names r" using r assms(2) by force+
      show ?thesis
      proof (cases "dict_get local_files root_id")
        case None
        then show ?thesis using candidate_needs_local by (auto simp: get_finalizable_staging_leaf_candidate_reason_def)
      next
        case (Some l)
        then have "tidy l" using assms(3) map_of_SomeD by fastforce
        then show ?thesis using finalizable_iff_match[OF t(1) _ t(2) True, of l relative] True Some by simp
      qed
    qed (simp add: get_finalizable_staging_leaf_candidate_reason_def)
    then show "((root_id, r) \<in> set remote_files \<and> sf_is_dir r \<and> (\<exists>l. dict_get local_files root_id = Some l \<and> relative \<in> set (finalizable_visit r (Some l) [] False)))
        = (dict_get remote_files root_id = Some r \<and> ?reason r = Some ''match'')"
      using dict_ok_map_of_set[OF assms(1)] by blast
  qed
  also have "\<dots> \<longleftrightarrow> get_finalizable_staging_leaf_candidate_reason (dict_get remote_files root_id) (dict_get local_files root_id) relative = Some ''match''"
    by (cases "dict_get remote_files root_id") (auto simp: get_finalizable_staging_leaf_candidate_reason_def)
  finally show ?thesis .
qed

end
