(* ===== verification/Split_Root.thy ===== *)
theory Split_Root
  imports Tree_Proofs Exclude_Patterns "HOL-Library.Sublist"
begin

text \<open>
  \<open>controller/model_builder.py\<close>, part two: trees that are put together from two scans. A root may be
  split between the final folder and the staging folder; the scan of active transfers is laid over the
  last full scan without hiding leaves that are already final, and differences are marked as collisions.
  A confirmed deletion is cut out of a tree without a new scan.

  The source copies nodes before it changes them, so the model passes new trees along. The constructor
  and the setters may raise; the lemmas show that on scanned trees they do not.
\<close>

section \<open>Operations\<close>

definition of_opt_bool :: "bool option \<Rightarrow> pyval" where
  "of_opt_bool v = (case v of None \<Rightarrow> PNone | Some b \<Rightarrow> PBool b)"

definition clone_node :: "system_file \<Rightarrow> system_file list option \<Rightarrow> bool option \<Rightarrow> int option \<Rightarrow> system_file result" where
  "clone_node f children is_staging aggregate_size =
     rbind (new_system_file (sf_name f)
              (case aggregate_size of
                 Some n \<Rightarrow> n
               | None \<Rightarrow> (case children of Some cs \<Rightarrow> sum_list (map sf_size cs) | None \<Rightarrow> sf_size f))
              (sf_is_dir f) (sa_created (sattrs f)) (sa_modified (sattrs f))
              (case is_staging of None \<Rightarrow> sf_is_staging f | Some b \<Rightarrow> b)
              (sa_mtime_ns (sattrs f)) (of_opt_bool (sf_has_staging_origin f))) (\<lambda>g.
     rbind (sf_set_path_pair_id (of_opt_str (sa_path_pair_id (sattrs f))) g) (\<lambda>g.
     rbind (sf_set_path_pair_name (of_opt_str (sa_path_pair_name (sattrs f))) g) (\<lambda>g.
     rbind (sf_set_status_sidecar_ready (PBool (sf_status_sidecar_ready f)) g) (\<lambda>g.
     rbind (sf_set_has_staging_collision (PBool (sf_has_staging_collision f)) g) (\<lambda>g.
     add_all (case children of None \<Rightarrow> skids f | Some cs \<Rightarrow> cs) g)))))"

fun mark_active_tree_staging :: "system_file \<Rightarrow> system_file" where
  "mark_active_tree_staging (SystemFile a cs) = put_mask S_STAGING True (SystemFile a (map mark_active_tree_staging cs))"

fun final_split_root_structure :: "system_file \<Rightarrow> system_file option \<Rightarrow> system_file option result" and final_kids :: "system_file list \<Rightarrow> system_file list \<Rightarrow> system_file list result" where
  "final_split_root_structure (SystemFile x cs) remote_file =
     (let e = SystemFile x cs in
      case remote_file of
        None \<Rightarrow> Inr None
      | Some r \<Rightarrow>
          if sf_is_dir e \<noteq> sf_is_dir r then Inr None
          else if \<not> sf_is_dir e
          then Inr (if leaf_matches_remote_queue_exclusion_identity r e then Some e else None)
          else rbind (final_kids cs (skids r)) (\<lambda>ks.
            if ks = [] \<and> sf_is_staging e then Inr None
            else rbind (clone_node e (Some ks) (Some False) None) (\<lambda>g. Inr (Some g))))"
| "final_kids [] rs = Inr []"
| "final_kids (c # cs) rs =
     rbind (final_split_root_structure c (kid rs (sf_name c))) (\<lambda>k.
     rbind (final_kids cs rs) (\<lambda>ks. Inr (case k of None \<Rightarrow> ks | Some k \<Rightarrow> k # ks)))"

definition mark_origin :: "system_file \<Rightarrow> system_file \<Rightarrow> system_file result" where
  "mark_origin active g =
     (if sf_is_staging active \<or> sf_has_staging_origin active = Some True then sf_set_has_staging_origin (PBool True) g else Inr g)"

definition remote_kids :: "system_file option \<Rightarrow> system_file list" where
  "remote_kids remote_file = (case remote_file of None \<Rightarrow> [] | Some r \<Rightarrow> if sf_is_dir r then skids r else [])"

fun merge_active_split_root :: "system_file \<Rightarrow> system_file \<Rightarrow> system_file option \<Rightarrow> system_file result" and merge_kids :: "system_file list \<Rightarrow> (string, system_file) dict \<Rightarrow> system_file list \<Rightarrow> (system_file list \<times> (string, system_file) dict) result" where
  "merge_active_split_root (SystemFile x cs) active remote_file =
     (let e = SystemFile x cs in
      if sf_is_dir e \<noteq> sf_is_dir active then
        rbind (if opt_holds (\<lambda>r. sf_is_dir e = sf_is_dir r) remote_file then clone_node e None None None else clone_node active None None None)
          (sf_set_has_staging_collision (PBool True))
      else if sf_is_dir e then
        rbind (merge_kids cs (kid_dict (skids active)) (remote_kids remote_file)) (\<lambda>(ks, left_over).
        rbind (clone_node e (Some (sort_key sf_name (ks @ map snd left_over))) (Some (sf_is_staging e \<and> sf_is_staging active)) None) (\<lambda>g.
        rbind (mark_origin active g)
          (sf_set_has_staging_collision (PBool (sf_has_staging_collision e \<or> sf_has_staging_collision active)))))
      else
        (case remote_file of
           Some r \<Rightarrow>
             if \<not> sf_is_staging e \<and> leaf_matches_remote_identity r e then
               rbind (clone_node e None None None) (\<lambda>g.
               rbind (sf_set_has_staging_collision (PBool (\<not> leaf_matches_remote_identity r active)) g) (mark_origin active))
             else rbind (clone_node active None None None)
               (sf_set_has_staging_collision (PBool (sf_has_staging_collision e \<or> sf_has_staging_collision active)))
         | None \<Rightarrow> rbind (clone_node active None None None)
               (sf_set_has_staging_collision (PBool (sf_has_staging_collision e \<or> sf_has_staging_collision active)))))"
| "merge_kids [] d rs = Inr ([], d)"
| "merge_kids (c # cs) d rs =
     (case dict_get d (sf_name c) of
        None \<Rightarrow>
          rbind (final_split_root_structure c (kid rs (sf_name c))) (\<lambda>k.
          rbind (merge_kids cs d rs) (\<lambda>(ks, left_over). Inr (case k of None \<Rightarrow> ks | Some k \<Rightarrow> k # ks, left_over)))
      | Some a \<Rightarrow>
          rbind (merge_active_split_root c a (kid rs (sf_name c))) (\<lambda>k.
          rbind (merge_kids cs (dict_pop (sf_name c) d) rs) (\<lambda>(ks, left_over). Inr (k # ks, left_over))))"

fun has_verified_split_root_final_leaf :: "system_file \<Rightarrow> system_file option \<Rightarrow> bool" where
  "has_verified_split_root_final_leaf (SystemFile x cs) remote_file =
     (let e = SystemFile x cs in
      case remote_file of
        None \<Rightarrow> False
      | Some r \<Rightarrow>
          if sf_is_dir e \<noteq> sf_is_dir r then False
          else if \<not> sf_is_dir e then \<not> sf_has_staging_collision e \<and> is_verified_final_leaf r e
          else list_ex (\<lambda>c. has_verified_split_root_final_leaf c (kid (skids r) (sf_name c))) cs)"

type_synonym pruned = "system_file option \<times> int \<times> bool"

fun prune_confirmed_local_descendant :: "system_file \<Rightarrow> string list \<Rightarrow> pruned result" and prune_kids :: "system_file list \<Rightarrow> string \<Rightarrow> string list \<Rightarrow> (nat \<times> bool \<times> int \<times> system_file list) result" where
  "prune_confirmed_local_descendant (SystemFile x cs) [] = Inr (Some (SystemFile x cs), 0, False)"
| "prune_confirmed_local_descendant (SystemFile x cs) (name # names) =
     (let source = SystemFile x cs in
      if \<not> sf_is_dir source then Inr (Some source, 0, False)
      else rbind (prune_kids cs name names) (\<lambda>(matches, changed, removed_size, children).
        if matches \<noteq> 1 \<or> \<not> changed then Inr (Some source, 0, False)
        else rbind (clone_node source (Some children) None (Some (max 0 (sf_size source - removed_size)))) (\<lambda>g.
          Inr (Some g, removed_size, True))))"
| "prune_kids [] name names = Inr (0, False, 0, [])"
| "prune_kids (c # cs) name names =
     (if sf_name c \<noteq> name
      then rbind (prune_kids cs name names) (\<lambda>(matches, changed, removed_size, children).
             Inr (matches, changed, removed_size, c # children))
      else rbind (if names = [] then Inr (None, sf_size c, True) else prune_confirmed_local_descendant c names) (\<lambda>(updated, gone, child_changed).
           rbind (prune_kids cs name names) (\<lambda>(matches, changed, removed_size, children).
             Inr (Suc matches, child_changed \<or> changed, (if child_changed then gone else 0) + removed_size,
                  case updated of None \<Rightarrow> children | Some u \<Rightarrow> u # children))))"

definition prune_confirmed_local_deletion :: "system_file \<Rightarrow> string list \<Rightarrow> system_file option result" where
  "prune_confirmed_local_deletion source names =
     (if names = [] then Inr None
      else rbind (prune_confirmed_local_descendant source names) (\<lambda>(updated, _, changed).
        Inr (if changed then updated else Some source)))"

text \<open>The tree a root is judged by when transfers are active: the scan of active files laid over the full
  scan, or one of the two. \<open>queue_trusted_absent\<close> is what the observer of the walk notes: a final leaf
  that was left out of the transfer and that the active scan does not have. \<open>effective_local_file\<close> is the
  choice the loop over the active files makes for one of them; the loop itself, and the observers that only
  collect diagnostics, are not modelled. Whether the file is nested and whether its path pair is
  known are arguments.\<close>

fun queue_trusted_absent :: "system_file \<Rightarrow> system_file option \<Rightarrow> system_file option \<Rightarrow> bool \<Rightarrow> bool \<Rightarrow> bool" where
  "queue_trusted_absent (SystemFile x cs) remote_file active_file missing conflict =
     (let e = SystemFile x cs in
      case remote_file of
        None \<Rightarrow> False
      | Some r \<Rightarrow>
          if sf_is_dir e \<noteq> sf_is_dir r then False
          else
            (let fresh = (\<not> missing \<and> \<not> conflict);
                 missing = (missing \<or> (fresh \<and> active_file = None));
                 conflict = (conflict \<or> (fresh \<and> opt_holds (\<lambda>a. sf_is_dir a \<noteq> sf_is_dir e) active_file))
             in if \<not> sf_is_dir e
                then missing \<and> \<not> conflict \<and> \<not> sf_status_sidecar_ready e \<and> leaf_matches_remote_queue_exclusion_identity r e
                else
                  (let open_path = (\<not> missing \<and> \<not> conflict);
                       active_kids = (case active_file of Some a \<Rightarrow> if open_path \<and> sf_is_dir a then skids a else [] | None \<Rightarrow> [])
                   in list_ex (\<lambda>c. queue_trusted_absent c (kid (skids r) (sf_name c))
                        (if open_path then kid active_kids (sf_name c) else None)
                        (missing \<or> (open_path \<and> kid active_kids (sf_name c) = None))
                        (conflict \<or> (open_path \<and> opt_holds (\<lambda>a. sf_is_dir a \<noteq> sf_is_dir c) (kid active_kids (sf_name c))))) cs)))"

definition wants_split_merge :: "bool \<Rightarrow> system_file \<Rightarrow> system_file \<Rightarrow> system_file \<Rightarrow> bool" where
  "wants_split_merge known_pair e active r =
     ((has_staging_descendant e \<or> has_staging_collision_descendant e) \<and>
      (has_verified_split_root_final_leaf e (Some r) \<or>
       has_staging_collision_descendant e \<or>
       (known_pair \<and> queue_trusted_absent e (Some r) (Some active) False False)))"

definition effective_local_file ::
  "bool \<Rightarrow> bool \<Rightarrow> system_file option \<Rightarrow> system_file \<Rightarrow> system_file option \<Rightarrow> system_file option result" where
  "effective_local_file nested known_pair existing active remote_file =
     (if nested then Inr existing
      else case existing of
        None \<Rightarrow> Inr (Some active)
      | Some e \<Rightarrow>
          if opt_holds (wants_split_merge known_pair e active) remote_file
          then rbind (merge_active_split_root e active remote_file) (\<lambda>m. Inr (Some m))
          else if sf_is_staging e then Inr (Some e)
          else if is_authoritative_local_file (Some e) \<and> sf_is_staging active \<and> sf_size active \<le> sf_size e \<and>
                  \<not> remote_indicates_newer_content (Some e) remote_file
          then Inr (Some e)
          else Inr (Some active))"

section \<open>Copies\<close>

definition copy_of :: "bool \<Rightarrow> int \<Rightarrow> system_file list \<Rightarrow> system_file \<Rightarrow> system_file \<Rightarrow> bool" where
  "copy_of staging sz ks f g \<longleftrightarrow>
     sf_name g = sf_name f \<and> sf_size g = sz \<and> sf_is_dir g = sf_is_dir f \<and> sf_is_staging g = staging \<and>
     sa_created (sattrs g) = sa_created (sattrs f) \<and> sa_modified (sattrs g) = sa_modified (sattrs f) \<and>
     sa_mtime_ns (sattrs g) = sa_mtime_ns (sattrs f) \<and>
     sa_path_pair_id (sattrs g) = sa_path_pair_id (sattrs f) \<and> sa_path_pair_name (sattrs g) = sa_path_pair_name (sattrs f) \<and>
     sf_has_staging_origin g = sf_has_staging_origin f \<and> sf_has_staging_collision g = sf_has_staging_collision f \<and>
     sf_status_sidecar_ready g = sf_status_sidecar_ready f \<and> skids g = ks"

lemma clone_node_copy:
  assumes "0 \<le> (case agg of Some n \<Rightarrow> n | None \<Rightarrow> (case children of Some cs \<Rightarrow> sum_list (map sf_size cs) | None \<Rightarrow> sf_size f))"
    and "sf_is_dir f \<or> (case children of None \<Rightarrow> skids f | Some cs \<Rightarrow> cs) = []"
  obtains g where "clone_node f children st agg = Inr g"
    "copy_of (case st of None \<Rightarrow> sf_is_staging f | Some b \<Rightarrow> b)
       (case agg of Some n \<Rightarrow> n | None \<Rightarrow> (case children of Some cs \<Rightarrow> sum_list (map sf_size cs) | None \<Rightarrow> sf_size f))
       (case children of None \<Rightarrow> skids f | Some cs \<Rightarrow> cs) f g"
proof -
  let ?sz = "case agg of Some n \<Rightarrow> n | None \<Rightarrow> (case children of Some cs \<Rightarrow> sum_list (map sf_size cs) | None \<Rightarrow> sf_size f)"
  let ?st = "case st of None \<Rightarrow> sf_is_staging f | Some b \<Rightarrow> b"
  let ?kids = "case children of None \<Rightarrow> skids f | Some cs \<Rightarrow> cs"
  have opt: "sf_set_path_pair_id (of_opt_str x) g = Inr (supd (\<lambda>a. a\<lparr>sa_path_pair_id := x\<rparr>) g)"
    "sf_set_path_pair_name (of_opt_str x) g = Inr (supd (\<lambda>a. a\<lparr>sa_path_pair_name := x\<rparr>) g)" for x g
    by (cases x; simp add: sf_set_path_pair_id_def sf_set_path_pair_name_def of_opt_str_def)+
  obtain h0 where h0: "new_system_file (sf_name f) ?sz (sf_is_dir f) (sa_created (sattrs f)) (sa_modified (sattrs f)) ?st
      (sa_mtime_ns (sattrs f)) (of_opt_bool (sf_has_staging_origin f)) = Inr h0"
    and a: "sf_name h0 = sf_name f" "sf_size h0 = ?sz" "sf_is_dir h0 = sf_is_dir f" "sf_is_staging h0 = ?st"
      "sa_created (sattrs h0) = sa_created (sattrs f)" "sa_modified (sattrs h0) = sa_modified (sattrs f)"
      "sa_mtime_ns (sattrs h0) = sa_mtime_ns (sattrs f)" "sf_has_staging_origin h0 = sf_has_staging_origin f" "skids h0 = []"
    using assms(1) unfolding new_system_file_def sf_set_has_staging_origin_def of_opt_bool_def
    by (cases "sf_has_staging_origin f"; cases "the (sf_has_staging_origin f)")
      (auto simp: sys_flag_simps split: if_splits)
  define h where "h = put_mask S_STAGING_COLLISION (sf_has_staging_collision f)
    (put_mask S_STATUS_READY (sf_status_sidecar_ready f)
    (supd (\<lambda>a. a\<lparr>sa_path_pair_name := sa_path_pair_name (sattrs f)\<rparr>)
    (supd (\<lambda>a. a\<lparr>sa_path_pair_id := sa_path_pair_id (sattrs f)\<rparr>) h0)))"
  have run: "clone_node f children st agg = add_all ?kids h"
    unfolding clone_node_def h0 rbind_simps opt h_def sf_set_status_sidecar_ready_def sf_set_has_staging_collision_def by simp
  have c: "copy_of ?st ?sz [] f h"
    unfolding copy_of_def h_def using a by (auto simp: sys_flag_simps split: if_splits)
  have "add_all ?kids h = Inr (SystemFile (sattrs h) (skids h @ ?kids))"
    by (rule add_all_dir) (use assms(2) c in \<open>auto simp: copy_of_def\<close>)
  moreover have "copy_of ?st ?sz ?kids f (SystemFile (sattrs h) (skids h @ ?kids))"
    using c by (auto simp: copy_of_def sf_is_dir_def sf_is_staging_def sf_has_staging_origin_def sf_has_staging_collision_def
        sf_status_sidecar_ready_def split: if_splits)
  ultimately show thesis using that run by simp
qed

lemma tidy_leaf: "tidy f \<Longrightarrow> \<not> sf_is_dir f \<Longrightarrow> skids f = []"
  by (auto simp: tidy.simps[of f])

lemma clone_whole:
  assumes "tidy f"
  obtains g where "clone_node f None None None = Inr g" "copy_of (sf_is_staging f) (sf_size f) (skids f) f g"
  using clone_node_copy[where agg = None and children = None and f = f and st = None] tidy_size[OF assms] tidy_leaf[OF assms] by auto

lemma clone_with_kids:
  assumes "sf_is_dir f" "list_all tidy ks"
  obtains g where "clone_node f (Some ks) (Some st) None = Inr g" "copy_of st (sum_list (map sf_size ks)) ks f g"
proof -
  have "0 \<le> sum_list (map sf_size ks)" using assms(2) tidy_size by (intro sum_list_nonneg) (auto simp: list_all_iff)
  then show thesis using clone_node_copy[where agg = None and children = "Some ks" and f = f and st = "Some st"] assms(1) that by auto
qed

lemma set_flags:
  "sf_set_has_staging_collision (PBool b) g = Inr (put_mask S_STAGING_COLLISION b g)"
  "sf_set_has_staging_origin (PBool True) g = Inr (put_mask (S_STAGING_ORIGIN_KNOWN OR S_HAS_STAGING_ORIGIN) True g)"
  by (simp_all add: sf_set_has_staging_collision_def sf_set_has_staging_origin_def)

lemma mask_collision:
  "sf_has_staging_collision (put_mask S_STAGING_COLLISION b g) = b"
  "sf_is_dir (put_mask S_STAGING_COLLISION b g) = sf_is_dir g" "sf_is_staging (put_mask S_STAGING_COLLISION b g) = sf_is_staging g"
  by (simp_all add: sys_flag_simps)

text \<open>What the last steps of a merge leave of a node.\<close>

definition agrees :: "system_file \<Rightarrow> system_file \<Rightarrow> bool" where
  "agrees f g \<longleftrightarrow> sf_name g = sf_name f \<and> sf_size g = sf_size f \<and> sf_is_dir g = sf_is_dir f \<and>
     sf_is_staging g = sf_is_staging f \<and> sa_mtime_ns (sattrs g) = sa_mtime_ns (sattrs f) \<and> skids g = skids f"

lemma agrees_put [simp]: "agrees g (put_mask S_STAGING_COLLISION b g)"
  by (simp add: agrees_def mask_collision)

lemma agrees_trans: "agrees f g \<Longrightarrow> agrees g h \<Longrightarrow> agrees f h"
  by (simp add: agrees_def)

lemma agrees_tidy: "agrees f g \<Longrightarrow> tidy f \<Longrightarrow> tidy g"
  by (simp add: agrees_def tidy.simps[of f] tidy.simps[of g])

lemma mark_origin_runs:
  obtains h where "mark_origin a g = Inr h" "agrees g h" "sf_has_staging_collision h = sf_has_staging_collision g"
proof -
  have "agrees g (put_mask (S_STAGING_ORIGIN_KNOWN OR S_HAS_STAGING_ORIGIN) True g)"
    "sf_has_staging_collision (put_mask (S_STAGING_ORIGIN_KNOWN OR S_HAS_STAGING_ORIGIN) True g) = sf_has_staging_collision g"
    by (simp_all add: agrees_def sys_flag_simps)
  moreover have "agrees g g" by (simp add: agrees_def)
  ultimately show thesis using that by (cases "sf_is_staging a \<or> sf_has_staging_origin a = Some True") (auto simp: mark_origin_def set_flags)
qed

lemma copy_tidy: "copy_of st sz ks f g \<Longrightarrow> 0 \<le> sz \<Longrightarrow> ks \<noteq> [] \<longrightarrow> sf_is_dir f \<Longrightarrow> distinct (map sf_name ks) \<Longrightarrow> list_all tidy ks \<Longrightarrow> tidy g"
  by (simp add: copy_of_def tidy.simps[of g])

section \<open>Final leaves\<close>

text \<open>Retaining the final part of a tree never raises, keeps the names, and keeps every leaf that
  has the remote identity at its path.\<close>

definition retained :: "system_file \<Rightarrow> system_file option \<Rightarrow> system_file option \<Rightarrow> bool" where
  "retained e remote k \<longleftrightarrow> (\<forall>g. k = Some g \<longrightarrow> tidy g \<and> sf_name g = sf_name e) \<and>
     (\<forall>r p n q. remote = Some r \<longrightarrow> node_at e p = Some n \<longrightarrow> node_at r p = Some q \<longrightarrow> leaf_matches_remote_queue_exclusion_identity q n \<longrightarrow>
        (\<exists>g. k = Some g \<and> node_at g p = Some n))"

lemma final_kids_spec:
  assumes "\<And>c. c \<in> set cs \<Longrightarrow> \<exists>k. final_split_root_structure c (kid rs (sf_name c)) = Inr k \<and> retained c (kid rs (sf_name c)) k"
    and "distinct (map sf_name cs)"
  shows "\<exists>ks. final_kids cs rs = Inr ks \<and> list_all tidy ks \<and> distinct (map sf_name ks) \<and> sf_name ` set ks \<subseteq> sf_name ` set cs \<and>
    (\<forall>c k. c \<in> set cs \<longrightarrow> final_split_root_structure c (kid rs (sf_name c)) = Inr (Some k) \<longrightarrow> k \<in> set ks)"
  using assms
proof (induction cs)
  case (Cons c cs)
  obtain ks where ks: "final_kids cs rs = Inr ks" "list_all tidy ks" "distinct (map sf_name ks)" "sf_name ` set ks \<subseteq> sf_name ` set cs"
    "\<forall>c k. c \<in> set cs \<longrightarrow> final_split_root_structure c (kid rs (sf_name c)) = Inr (Some k) \<longrightarrow> k \<in> set ks"
    using Cons.IH Cons.prems by auto
  obtain k where k: "final_split_root_structure c (kid rs (sf_name c)) = Inr k" "retained c (kid rs (sf_name c)) k"
    using Cons.prems(1)[of c] by auto
  show ?case
  proof (cases k)
    case None
    then show ?thesis using ks k by (intro exI[of _ ks]) auto
  next
    case (Some g)
    have "tidy g" "sf_name g = sf_name c" using k(2) Some by (simp_all add: retained_def)
    moreover have "sf_name c \<notin> sf_name ` set ks" using ks(4) Cons.prems(2) by auto
    ultimately show ?thesis using ks k Some by (intro exI[of _ "g # ks"]) auto
  qed
qed simp

lemma kid_unique: "distinct (map sf_name ks) \<Longrightarrow> g \<in> set ks \<Longrightarrow> sf_name g = n \<Longrightarrow> kid ks n = Some g"
  using kid_distinct by blast

lemma retained_dir:
  assumes e: "tidy e" "sf_is_dir e" and r: "sf_is_dir r"
    and kids: "\<And>c. c \<in> set (skids e) \<Longrightarrow> \<exists>k. final_split_root_structure c (kid (skids r) (sf_name c)) = Inr k \<and> retained c (kid (skids r) (sf_name c)) k"
    and ks: "list_all tidy ks" "distinct (map sf_name ks)"
      "\<forall>c k. c \<in> set (skids e) \<longrightarrow> final_split_root_structure c (kid (skids r) (sf_name c)) = Inr (Some k) \<longrightarrow> k \<in> set ks"
    and g: "copy_of st sz ks e g" "0 \<le> sz"
  shows "retained e (Some r) (Some g)"
proof -
  have "node_at g p = Some n"
    if h: "node_at e p = Some n" "node_at r p = Some q" "leaf_matches_remote_queue_exclusion_identity q n" for p n q
  proof (cases p)
    case Nil
    then show ?thesis using h e by (simp add: leaf_matches_remote_queue_exclusion_identity_def)
  next
    case (Cons m ms)
    obtain c where c: "kid (skids e) m = Some c" "node_at c ms = Some n" using h(1) Cons by (auto simp: node_at_Cons)
    obtain rc where rc: "kid (skids r) m = Some rc" "node_at rc ms = Some q" using h(2) Cons by (auto simp: node_at_Cons)
    have cm: "c \<in> set (skids e)" "sf_name c = m" using kid_mem[OF c(1)] by auto
    obtain k where k: "final_split_root_structure c (Some rc) = Inr k" "retained c (Some rc) k" using kids[OF cm(1)] cm(2) rc(1) by auto
    then obtain k' where k': "k = Some k'" "node_at k' ms = Some n" using c(2) rc(2) h(3) unfolding retained_def by blast
    have "k' \<in> set ks" using ks(3) cm k(1) k'(1) rc(1) by auto
    moreover have "sf_name k' = m" using k(2) k'(1) cm(2) by (simp add: retained_def)
    ultimately have "kid (skids g) m = Some k'" using g(1) kid_unique[OF ks(2)] by (simp add: copy_of_def)
    moreover have "sf_is_dir g" using g(1) e(2) by (simp add: copy_of_def)
    ultimately show ?thesis using Cons k'(2) by (simp add: node_at_kid)
  qed
  moreover have "tidy g" by (rule copy_tidy[OF g]) (use e ks in simp_all)
  ultimately show ?thesis using g(1) by (auto simp: retained_def copy_of_def)
qed

lemma retained_leaf:
  assumes "tidy e" "\<not> sf_is_dir e" "\<not> sf_is_dir r"
  shows "retained e (Some r) (if leaf_matches_remote_queue_exclusion_identity r e then Some e else None)"
  using assms by (auto simp: retained_def node_at_leaf)

lemma retained_none:
  assumes "remote = None \<or> (\<exists>r. remote = Some r \<and> sf_is_dir e \<noteq> sf_is_dir r)"
  shows "retained e remote None"
proof -
  have False if h: "remote = Some r" "node_at e p = Some n" "node_at r p = Some q" "leaf_matches_remote_queue_exclusion_identity q n" for r p n q
  proof -
    have "sf_is_dir e \<noteq> sf_is_dir r" using assms h(1) by auto
    with h(2-4) show False by (cases p) (auto simp: node_at_Cons leaf_matches_remote_queue_exclusion_identity_def)
  qed
  then show ?thesis unfolding retained_def by blast
qed

lemma final_split_root_spec:
  "tidy e \<Longrightarrow> \<exists>k. final_split_root_structure e remote = Inr k \<and> retained e remote k"
proof (induction e arbitrary: remote)
  case (SystemFile x cs)
  let ?e = "SystemFile x cs"
  show ?case
  proof (cases "\<exists>r. remote = Some r \<and> sf_is_dir ?e = sf_is_dir r")
    case False
    then have "final_split_root_structure ?e remote = Inr None" by (cases remote) (simp_all add: Let_def)
    with retained_none[of remote ?e] False show ?thesis by (cases remote) auto
  next
    case True
    then obtain r where r: "remote = Some r" "sf_is_dir ?e = sf_is_dir r" by blast
    show ?thesis
    proof (cases "sf_is_dir ?e")
      case False
      then have "final_split_root_structure ?e remote = Inr (if leaf_matches_remote_queue_exclusion_identity r ?e then Some ?e else None)"
        using r by (simp add: Let_def)
      with retained_leaf[OF SystemFile.prems False, of r] False r show ?thesis by auto
    next
      case True
      have kids: "\<exists>k. final_split_root_structure c (kid (skids r) (sf_name c)) = Inr k \<and> retained c (kid (skids r) (sf_name c)) k"
        if "c \<in> set cs" for c using SystemFile.IH[OF that] tidy_kid[OF SystemFile.prems, of c] that by simp
      obtain ks where ks: "final_kids cs (skids r) = Inr ks" "list_all tidy ks" "distinct (map sf_name ks)"
        "\<forall>c k. c \<in> set cs \<longrightarrow> final_split_root_structure c (kid (skids r) (sf_name c)) = Inr (Some k) \<longrightarrow> k \<in> set ks"
        using final_kids_spec[of cs "skids r", OF kids] tidy_kids[OF SystemFile.prems] by auto
      have sz: "0 \<le> sum_list (map sf_size ks)" using ks(2) tidy_size by (intro sum_list_nonneg) (auto simp: list_all_iff)
      obtain g where g: "clone_node ?e (Some ks) (Some False) None = Inr g" "copy_of False (sum_list (map sf_size ks)) ks ?e g"
        by (rule clone_with_kids[OF True ks(2)])
      have R: "retained ?e (Some r) (Some g)"
        by (rule retained_dir[OF SystemFile.prems True _ _ ks(2,3) _ g(2) sz]) (use True r kids ks(4) in simp_all)
      have run: "final_split_root_structure ?e remote = Inr (if ks = [] \<and> sf_is_staging ?e then None else Some g)"
        using True r ks(1) g(1) by (simp add: Let_def)
      have "retained ?e (Some r) None" if "ks = []"
      proof -
        have "skids g = []" "sf_is_dir g" using g(2) that True by (simp_all add: copy_of_def)
        then have "node_at g p = Some n \<Longrightarrow> sf_is_dir n" for p n using kid_mem[of "[]"] by (cases p) (auto simp: node_at_Cons)
        then show ?thesis using R unfolding retained_def leaf_matches_remote_queue_exclusion_identity_def by blast
      qed
      with R run r(1) show ?thesis by auto
    qed
  qed
qed

section \<open>The merge\<close>

definition keeps_final :: "system_file \<Rightarrow> system_file \<Rightarrow> system_file option \<Rightarrow> system_file \<Rightarrow> bool" where
  "keeps_final e a remote m \<longleftrightarrow> tidy m \<and> sf_name m = sf_name e \<and>
     (\<forall>r p n q. remote = Some r \<longrightarrow> node_at e p = Some n \<longrightarrow> node_at r p = Some q \<longrightarrow> is_verified_final_leaf q n \<longrightarrow>
        (\<exists>x. node_at m p = Some x \<and> \<not> sf_is_dir x \<and> \<not> sf_is_staging x \<and> sf_size x = sf_size n \<and>
             sa_mtime_ns (sattrs x) = sa_mtime_ns (sattrs n) \<and>
             (\<forall>y. node_at a p = Some y \<longrightarrow> sf_has_staging_collision x = (\<not> leaf_matches_remote_identity q y))))"

lemma verified_leaf: "is_verified_final_leaf q n \<Longrightarrow> \<not> sf_is_dir n \<and> \<not> sf_is_dir q \<and> \<not> sf_is_staging n \<and> leaf_matches_remote_identity q n"
  by (simp add: is_verified_final_leaf_def is_authoritative_local_file_def)

lemma verified_queue: "is_verified_final_leaf q n \<Longrightarrow> leaf_matches_remote_queue_exclusion_identity q n"
  by (auto simp: is_verified_final_leaf_def leaf_matches_remote_queue_exclusion_identity_def leaf_matches_remote_identity_def same_mtimes_def
      split: option.splits)

lemma leaves_same_kind:
  "node_at e p = Some n \<Longrightarrow> node_at r p = Some q \<Longrightarrow> \<not> sf_is_dir n \<Longrightarrow> \<not> sf_is_dir q \<Longrightarrow> sf_is_dir e = sf_is_dir r"
  by (cases p) (auto simp: node_at_Cons)

lemma node_at_agrees: "agrees f g \<Longrightarrow> node_at g (k # p) = node_at f (k # p)"
  by (simp add: agrees_def node_at.simps)

lemma copy_agrees: "copy_of (sf_is_staging f) (sf_size f) (skids f) f g \<Longrightarrow> agrees f g"
  by (simp add: copy_of_def agrees_def)

lemma merge_mixed_kinds:
  assumes t: "tidy e" "tidy a" "sf_name a = sf_name e" and k: "sf_is_dir e \<noteq> sf_is_dir a"
  shows "\<exists>m. merge_active_split_root e a remote = Inr m \<and> keeps_final e a remote m"
proof -
  obtain g where g: "clone_node e None None None = Inr g" "agrees e g" using clone_whole[OF t(1)] copy_agrees by blast
  obtain h where h: "clone_node a None None None = Inr h" "agrees a h" using clone_whole[OF t(2)] copy_agrees by blast
  let ?pick = "if opt_holds (\<lambda>r. sf_is_dir e = sf_is_dir r) remote then g else h"
  let ?m = "put_mask S_STAGING_COLLISION True ?pick"
  have run: "merge_active_split_root e a remote = Inr ?m" using k g(1) h(1) by (cases e) (simp add: Let_def set_flags)
  have m: "agrees ?pick ?m" "sf_has_staging_collision ?m" by (simp_all add: mask_collision)
  have "tidy ?m" by (rule agrees_tidy[OF m(1)]) (use agrees_tidy[OF g(2) t(1)] agrees_tidy[OF h(2) t(2)] in simp)
  moreover have "sf_name ?m = sf_name e" using g(2) h(2) t(3) by (simp add: agrees_def)
  moreover have "\<exists>x. node_at ?m p = Some x \<and> \<not> sf_is_dir x \<and> \<not> sf_is_staging x \<and> sf_size x = sf_size n \<and>
      sa_mtime_ns (sattrs x) = sa_mtime_ns (sattrs n) \<and>
      (\<forall>y. node_at a p = Some y \<longrightarrow> sf_has_staging_collision x = (\<not> leaf_matches_remote_identity q y))"
    if v: "remote = Some r" "node_at e p = Some n" "node_at r p = Some q" "is_verified_final_leaf q n" for r p n q
  proof -
    note l = verified_leaf[OF v(4)]
    have "sf_is_dir e = sf_is_dir r" by (rule leaves_same_kind[OF v(2,3)]) (use l in simp_all)
    then have em: "agrees e ?m" using v(1) agrees_trans[OF g(2) agrees_put, of True] by simp
    show ?thesis
    proof (cases p)
      case Nil
      then have "n = e" using v(2) by simp
      then show ?thesis using Nil em m(2) l k by (auto simp: agrees_def leaf_matches_remote_identity_def)
    next
      case (Cons j q')
      then have "node_at a p = None" using v(2) k by (auto simp: node_at_Cons node_at_None)
      with Cons v(2) node_at_agrees[OF em] l show ?thesis by auto
    qed
  qed
  ultimately have "keeps_final e a remote ?m" unfolding keeps_final_def by blast
  with run show ?thesis by blast
qed

lemma merge_leaves:
  assumes t: "tidy e" "tidy a" "sf_name a = sf_name e" and k: "\<not> sf_is_dir e" "\<not> sf_is_dir a"
  shows "\<exists>m. merge_active_split_root e a remote = Inr m \<and> keeps_final e a remote m"
proof -
  obtain g where g: "clone_node e None None None = Inr g" "agrees e g" using clone_whole[OF t(1)] copy_agrees by blast
  obtain h where h: "clone_node a None None None = Inr h" "agrees a h" using clone_whole[OF t(2)] copy_agrees by blast
  show ?thesis
  proof (cases "\<exists>r. remote = Some r \<and> \<not> sf_is_staging e \<and> leaf_matches_remote_identity r e")
    case True
    then obtain r where r: "remote = Some r" "\<not> sf_is_staging e" "leaf_matches_remote_identity r e" by blast
    let ?g = "put_mask S_STAGING_COLLISION (\<not> leaf_matches_remote_identity r a) g"
    obtain m where m: "mark_origin a ?g = Inr m" "agrees ?g m" "sf_has_staging_collision m = sf_has_staging_collision ?g"
      by (rule mark_origin_runs)
    have run: "merge_active_split_root e a remote = Inr m" using k r g(1) m(1) by (cases e) (simp add: Let_def set_flags)
    have em: "agrees e m" using agrees_trans[OF agrees_trans[OF g(2) agrees_put] m(2)] .
    have c: "sf_has_staging_collision m = (\<not> leaf_matches_remote_identity r a)" using m(3) by (simp add: mask_collision)
    have "keeps_final e a remote m"
      unfolding keeps_final_def using agrees_tidy[OF em t(1)] em c r k by (auto simp: agrees_def node_at_leaf)
    with run show ?thesis by blast
  next
    case False
    let ?m = "put_mask S_STAGING_COLLISION (sf_has_staging_collision e \<or> sf_has_staging_collision a) h"
    have run: "merge_active_split_root e a remote = Inr ?m" using k False h(1) by (cases e; cases remote) (auto simp: Let_def set_flags)
    have am: "agrees a ?m" using agrees_trans[OF h(2) agrees_put] .
    have none: "\<not> is_verified_final_leaf q n" if "remote = Some r" "node_at e p = Some n" "node_at r p = Some q" for r p n q
    proof
      assume v: "is_verified_final_leaf q n"
      have "p = [] \<and> n = e" using that(2) k by (simp add: node_at_leaf)
      with that(3) v verified_leaf[OF v] False that(1) show False by simp
    qed
    have "keeps_final e a remote ?m"
      unfolding keeps_final_def using agrees_tidy[OF am t(2)] am t(3) none by (simp add: agrees_def)
    with run show ?thesis by blast
  qed
qed

text \<open>The child that the merge makes of a child of the full scan.\<close>

definition merged_kid :: "(string, system_file) dict \<Rightarrow> system_file list \<Rightarrow> system_file \<Rightarrow> system_file \<Rightarrow> bool" where
  "merged_kid d rs c k \<longleftrightarrow>
     (case dict_get d (sf_name c) of
        None \<Rightarrow> final_split_root_structure c (kid rs (sf_name c)) = Inr (Some k)
      | Some a \<Rightarrow> merge_active_split_root c a (kid rs (sf_name c)) = Inr k)"

definition kids_merged :: "system_file list \<Rightarrow> (string, system_file) dict \<Rightarrow> system_file list \<Rightarrow> system_file list \<Rightarrow> bool" where
  "kids_merged cs d rs ks \<longleftrightarrow> list_all tidy ks \<and> distinct (map sf_name ks) \<and> sf_name ` set ks \<subseteq> sf_name ` set cs \<and>
     (\<forall>c \<in> set cs. \<forall>k. merged_kid d rs c k \<longrightarrow> k \<in> set ks)"

lemma kids_merged_skip:
  "kids_merged cs d rs ks \<Longrightarrow> (\<And>k. \<not> merged_kid d rs c k) \<Longrightarrow> kids_merged (c # cs) d rs ks"
  by (auto simp: kids_merged_def)

lemma kids_merged_add:
  assumes "kids_merged cs d rs ks" "\<And>k. merged_kid d rs c k \<Longrightarrow> k = g" "tidy g" "sf_name g = sf_name c" "sf_name c \<notin> sf_name ` set cs"
  shows "kids_merged (c # cs) d rs (g # ks)"
proof -
  have "sf_name g \<notin> sf_name ` set ks" using assms(1,4,5) by (auto simp: kids_merged_def)
  with assms show ?thesis by (auto simp: kids_merged_def)
qed

lemma kids_merged_pop:
  assumes "kids_merged cs (dict_pop n d) rs ks" "n \<notin> sf_name ` set cs"
  shows "kids_merged cs d rs ks"
proof -
  have "merged_kid (dict_pop n d) rs c = merged_kid d rs c" if "c \<in> set cs" for c
    using that assms(2) by (intro ext) (auto simp: merged_kid_def)
  with assms(1) show ?thesis by (simp add: kids_merged_def)
qed

lemma merge_kids_spec:
  assumes "\<And>c a. c \<in> set cs \<Longrightarrow> tidy a \<Longrightarrow> sf_name a = sf_name c \<Longrightarrow>
      \<exists>m. merge_active_split_root c a (kid rs (sf_name c)) = Inr m \<and> keeps_final c a (kid rs (sf_name c)) m"
    and "\<forall>c \<in> set cs. tidy c" "distinct (map sf_name cs)" "\<forall>(k, a) \<in> set d. sf_name a = k \<and> tidy a" "dict_ok d"
  shows "\<exists>ks. merge_kids cs d rs = Inr (ks, filter (\<lambda>(k, a). k \<notin> sf_name ` set cs) d) \<and> kids_merged cs d rs ks"
  using assms
proof (induction cs arbitrary: d)
  case Nil
  show ?case by (simp add: kids_merged_def)
next
  case (Cons c cs)
  have c: "tidy c" and new: "sf_name c \<notin> sf_name ` set cs" using Cons.prems(2,3) by auto
  have prem: "\<exists>m. merge_active_split_root c' a (kid rs (sf_name c')) = Inr m \<and> keeps_final c' a (kid rs (sf_name c')) m"
    if "c' \<in> set cs" "tidy a" "sf_name a = sf_name c'" for c' a by (rule Cons.prems(1)) (use that in simp_all)
  have rest: "\<forall>c \<in> set cs. tidy c" "distinct (map sf_name cs)" using Cons.prems(2,3) by simp_all
  show ?case
  proof (cases "dict_get d (sf_name c)")
    case None
    obtain ks where ks: "merge_kids cs d rs = Inr (ks, filter (\<lambda>(k, a). k \<notin> sf_name ` set cs) d)" "kids_merged cs d rs ks"
      using Cons.IH[OF prem rest Cons.prems(4,5)] by blast
    obtain k where k: "final_split_root_structure c (kid rs (sf_name c)) = Inr k" "retained c (kid rs (sf_name c)) k"
      using final_split_root_spec[OF c] by blast
    have f: "filter (\<lambda>(k, a). k \<notin> sf_name ` set cs) d = filter (\<lambda>(k, a). k \<notin> sf_name ` set (c # cs)) d"
      using None by (intro filter_cong) (auto simp: map_of_eq_None_iff image_iff)
    have "kids_merged (c # cs) d rs (case k of None \<Rightarrow> ks | Some g \<Rightarrow> g # ks)"
    proof (cases k)
      case None
      then show ?thesis
        using kids_merged_skip[OF ks(2), of c] k(1) \<open>dict_get d (sf_name c) = None\<close> by (simp add: merged_kid_def)
    next
      case (Some g)
      then show ?thesis
        using kids_merged_add[OF ks(2), of c g] k new \<open>dict_get d (sf_name c) = None\<close> by (simp add: merged_kid_def retained_def)
    qed
    then show ?thesis using ks(1) k(1) None f by simp
  next
    case (Some a)
    have a: "tidy a" "sf_name a = sf_name c" using Cons.prems(4) map_of_SomeD[OF Some] by auto
    obtain m where m: "merge_active_split_root c a (kid rs (sf_name c)) = Inr m" "keeps_final c a (kid rs (sf_name c)) m"
      using Cons.prems(1)[of c a] a by auto
    have d: "\<forall>(k, a) \<in> set (dict_pop (sf_name c) d). sf_name a = k \<and> tidy a"
      using Cons.prems(4) by (auto simp: AList.delete_eq)
    obtain ks where ks: "merge_kids cs (dict_pop (sf_name c) d) rs = Inr (ks, filter (\<lambda>(k, a). k \<notin> sf_name ` set cs) (dict_pop (sf_name c) d))"
      "kids_merged cs (dict_pop (sf_name c) d) rs ks"
      using Cons.IH[OF prem rest d dict_ok_pop[OF Cons.prems(5)]] by blast
    have f: "filter (\<lambda>(k, a). k \<notin> sf_name ` set cs) (dict_pop (sf_name c) d) = filter (\<lambda>(k, a). k \<notin> sf_name ` set (c # cs)) d"
      by (auto simp: AList.delete_eq intro: filter_cong)
    have "kids_merged (c # cs) d rs (m # ks)"
      by (rule kids_merged_add[OF kids_merged_pop[OF ks(2) new]]) (use m Some new in \<open>auto simp: merged_kid_def keeps_final_def\<close>)
    then show ?thesis using ks(1) m(1) Some f by simp
  qed
qed

lemma left_over_names:
  assumes "dict_ok d" "\<forall>(k, a) \<in> set d. sf_name a = k"
  shows "distinct (map sf_name (map snd (filter P d)))" "sf_name ` snd ` set (filter (\<lambda>(k, a). k \<notin> N) d) \<inter> N = {}"
proof -
  have "map sf_name (map snd (filter P d)) = map fst (filter P d)" using assms(2) by (auto intro!: map_cong)
  then show "distinct (map sf_name (map snd (filter P d)))" using assms(1) by (simp only: distinct_map_filter)
  show "sf_name ` snd ` set (filter (\<lambda>(k, a). k \<notin> N) d) \<inter> N = {}" using assms(2) by auto
qed

lemma distinct_names_sort: "distinct (map f xs) \<Longrightarrow> distinct (map f (sort_key g xs))"
  by (simp add: distinct_map)

text \<open>The children of a merged directory, sorted by name.\<close>

lemma merged_kids_list:
  assumes "kids_merged cs d rs ks" "dict_ok d" "\<forall>(k, a) \<in> set d. sf_name a = k \<and> tidy a"
  defines "L \<equiv> sort_key sf_name (ks @ map snd (filter (\<lambda>(k, a). k \<notin> sf_name ` set cs) d))"
  shows "list_all tidy L" "distinct (map sf_name L)" "set ks \<subseteq> set L"
proof -
  let ?left = "filter (\<lambda>(k, a). k \<notin> sf_name ` set cs) d"
  have d: "\<forall>(k, a) \<in> set d. sf_name a = k" using assms(3) by auto
  have k: "list_all tidy ks" "distinct (map sf_name ks)" "sf_name ` set ks \<subseteq> sf_name ` set cs" using assms(1) by (simp_all add: kids_merged_def)
  show "list_all tidy L" using k(1) assms(3) by (auto simp: L_def list_all_iff)
  show "set ks \<subseteq> set L" by (simp add: L_def)
  note n = left_over_names(1)[OF assms(2) d, of "\<lambda>(k, a). k \<notin> sf_name ` set cs"] left_over_names(2)[OF assms(2) d, of "sf_name ` set cs"]
  have "distinct (map sf_name (ks @ map snd ?left))"
    unfolding map_append distinct_append using k(2,3) n by (simp only: set_map simp_thms) blast
  then show "distinct (map sf_name L)" unfolding L_def by (rule distinct_names_sort)
qed

text \<open>One step down the path of a verified leaf.\<close>

lemma merged_kid_keeps:
  assumes t: "tidy c" "tidy a" "sf_is_dir a" and rc: "kid rs (sf_name c) = Some rc"
    and v: "node_at c p = Some n" "node_at rc p = Some q" "is_verified_final_leaf q n"
    and IH: "\<And>a. tidy a \<Longrightarrow> sf_name a = sf_name c \<Longrightarrow> \<exists>m. merge_active_split_root c a (Some rc) = Inr m \<and> keeps_final c a (Some rc) m"
  shows "\<exists>k x. merged_kid (kid_dict (skids a)) rs c k \<and> sf_name k = sf_name c \<and> node_at k p = Some x \<and> \<not> sf_is_dir x \<and> \<not> sf_is_staging x \<and>
    sf_size x = sf_size n \<and> sa_mtime_ns (sattrs x) = sa_mtime_ns (sattrs n) \<and>
    (\<forall>y. node_at a (sf_name c # p) = Some y \<longrightarrow> sf_has_staging_collision x = (\<not> leaf_matches_remote_identity q y))"
proof (cases "kid (skids a) (sf_name c)")
  case None
  obtain k where k: "final_split_root_structure c (Some rc) = Inr k" "retained c (Some rc) k" using final_split_root_spec[OF t(1)] by blast
  then obtain g where g: "k = Some g" "node_at g p = Some n" using v(1,2) verified_queue[OF v(3)] unfolding retained_def by blast
  have "merged_kid (kid_dict (skids a)) rs c g" using None k(1) g(1) rc by (simp add: merged_kid_def kid_def)
  moreover have "node_at a (sf_name c # p) = None" using None by (simp add: node_at_None)
  moreover have "sf_name g = sf_name c" using k(2) g(1) by (simp add: retained_def)
  ultimately show ?thesis using g(2) verified_leaf[OF v(3)] by auto
next
  case (Some a')
  have a': "tidy a'" "sf_name a' = sf_name c" using kid_mem[OF Some] tidy_kid[OF t(2)] by auto
  obtain m where m: "merge_active_split_root c a' (Some rc) = Inr m" "keeps_final c a' (Some rc) m" using IH[OF a'] by blast
  then obtain x where x: "node_at m p = Some x" "\<not> sf_is_dir x" "\<not> sf_is_staging x" "sf_size x = sf_size n"
    "sa_mtime_ns (sattrs x) = sa_mtime_ns (sattrs n)"
    "\<forall>y. node_at a' p = Some y \<longrightarrow> sf_has_staging_collision x = (\<not> leaf_matches_remote_identity q y)"
    using v unfolding keeps_final_def by blast
  have "merged_kid (kid_dict (skids a)) rs c m" using Some m(1) rc by (simp add: merged_kid_def kid_def)
  moreover have "sf_name m = sf_name c" using m(2) by (simp add: keeps_final_def)
  ultimately show ?thesis using x node_at_kid[OF t(3) Some] by auto
qed

lemma merge_dirs:
  assumes t: "tidy e" "tidy a" and k: "sf_is_dir e" "sf_is_dir a"
    and IH: "\<And>c a remote. c \<in> set (skids e) \<Longrightarrow> tidy a \<Longrightarrow> sf_name a = sf_name c \<Longrightarrow>
      \<exists>m. merge_active_split_root c a remote = Inr m \<and> keeps_final c a remote m"
  shows "\<exists>m. merge_active_split_root e a remote = Inr m \<and> keeps_final e a remote m"
proof -
  let ?d = "kid_dict (skids a)" and ?rs = "remote_kids remote"
  have d: "\<forall>(k, a) \<in> set ?d. sf_name a = k \<and> tidy a" using kid_dict_mem tidy_kid[OF t(2)] by fastforce
  obtain ks where ks: "merge_kids (skids e) ?d ?rs = Inr (ks, filter (\<lambda>(k, a). k \<notin> sf_name ` set (skids e)) ?d)"
    "kids_merged (skids e) ?d ?rs ks"
    using merge_kids_spec[of "skids e" ?rs ?d, OF IH _ tidy_kids[OF t(1)] d kid_dict_ok] tidy_kid[OF t(1)] by blast
  define L where "L = sort_key sf_name (ks @ map snd (filter (\<lambda>(k, a). k \<notin> sf_name ` set (skids e)) ?d))"
  note L = merged_kids_list[OF ks(2) kid_dict_ok d, folded L_def]
  obtain g where g: "clone_node e (Some L) (Some (sf_is_staging e \<and> sf_is_staging a)) None = Inr g"
    "copy_of (sf_is_staging e \<and> sf_is_staging a) (sum_list (map sf_size L)) L e g"
    by (rule clone_with_kids[OF k(1) L(1)])
  obtain h where h: "mark_origin a g = Inr h" "agrees g h" by (rule mark_origin_runs)
  let ?m = "put_mask S_STAGING_COLLISION (sf_has_staging_collision e \<or> sf_has_staging_collision a) h"
  have gm: "agrees g ?m" by (rule agrees_trans[OF h(2) agrees_put])
  have run: "merge_active_split_root e a remote = Inr ?m"
    using k ks(1) g(1) h(1) by (cases e) (simp add: Let_def set_flags L_def)
  have "0 \<le> sum_list (map sf_size L)" using L(1) tidy_size by (intro sum_list_nonneg) (auto simp: list_all_iff)
  then have "tidy ?m" using agrees_tidy[OF gm] copy_tidy[OF g(2) _ _ L(2,1)] k(1) by blast
  moreover have "sf_name ?m = sf_name e" "sf_is_dir ?m" "skids ?m = L" using gm g(2) k(1) by (simp_all add: agrees_def copy_of_def)
  moreover have "\<exists>x. node_at ?m p = Some x \<and> \<not> sf_is_dir x \<and> \<not> sf_is_staging x \<and> sf_size x = sf_size n \<and>
      sa_mtime_ns (sattrs x) = sa_mtime_ns (sattrs n) \<and>
      (\<forall>y. node_at a p = Some y \<longrightarrow> sf_has_staging_collision x = (\<not> leaf_matches_remote_identity q y))"
    if v: "remote = Some r" "node_at e p = Some n" "node_at r p = Some q" "is_verified_final_leaf q n" for r p n q
  proof (cases p)
    case Nil
    then show ?thesis using v(2) k verified_leaf[OF v(4)] by simp
  next
    case (Cons j js)
    obtain c where c: "kid (skids e) j = Some c" "node_at c js = Some n" using v(2) Cons by (auto simp: node_at_Cons)
    obtain rc where rc: "sf_is_dir r" "kid (skids r) j = Some rc" "node_at rc js = Some q" using v(3) Cons by (auto simp: node_at_Cons)
    have cm: "c \<in> set (skids e)" "sf_name c = j" using kid_mem[OF c(1)] by auto
    have rk: "kid ?rs (sf_name c) = Some rc" using v(1) rc cm by (simp add: remote_kids_def)
    obtain x y where x: "merged_kid ?d ?rs c x" "sf_name x = j" "node_at x js = Some y"
      and y: "\<not> sf_is_dir y" "\<not> sf_is_staging y" "sf_size y = sf_size n" "sa_mtime_ns (sattrs y) = sa_mtime_ns (sattrs n)"
        "\<forall>z. node_at a p = Some z \<longrightarrow> sf_has_staging_collision y = (\<not> leaf_matches_remote_identity q z)"
      using merged_kid_keeps[OF tidy_kid[OF t(1) cm(1)] t(2) k(2) rk c(2) rc(3) v(4) IH[OF cm(1)]] cm(2) Cons by auto
    have "x \<in> set L" using ks(2) x(1) cm(1) L(3) unfolding kids_merged_def by blast
    then have "kid L j = Some x" by (rule kid_unique[OF L(2)]) (use x(2) in simp)
    then have "node_at ?m p = Some y" using x(3) Cons gm g(2) k(1) by (simp add: node_at_kid agrees_def copy_of_def)
    with y show ?thesis by blast
  qed
  ultimately have "keeps_final e a remote ?m" unfolding keeps_final_def by blast
  with run show ?thesis by blast
qed

lemma merge_spec:
  "tidy e \<Longrightarrow> tidy a \<Longrightarrow> sf_name a = sf_name e \<Longrightarrow> \<exists>m. merge_active_split_root e a remote = Inr m \<and> keeps_final e a remote m"
proof (induction e arbitrary: a remote rule: measure_induct_rule[of size])
  case (less e)
  consider "sf_is_dir e \<noteq> sf_is_dir a" | "\<not> sf_is_dir e" "\<not> sf_is_dir a" | "sf_is_dir e" "sf_is_dir a" by blast
  then show ?case
  proof cases
    case 1
    then show ?thesis by (rule merge_mixed_kinds[OF less.prems])
  next
    case 2
    then show ?thesis by (rule merge_leaves[OF less.prems])
  next
    case 3
    show ?thesis
      by (rule merge_dirs[OF less.prems(1,2) 3 less.IH[OF skids_smaller tidy_kid[OF less.prems(1)]]])
  qed
qed

end
