(* ===== verification/Split_Prune.thy ===== *)
theory Split_Prune
  imports Split_Root
begin

text \<open>
  What a confirmed deletion leaves of a scanned tree: the node and all below it are gone, the sizes of the
  directories above shrink by the size of the node, and everything else is the node it was.
\<close>

lemma prune_kids_none: "n \<notin> sf_name ` set cs \<Longrightarrow> prune_kids cs n ns = Inr (0, False, 0, cs)"
  by (induction cs) auto

lemma prune_kids_one:
  assumes "distinct (map sf_name (as @ c # bs))" "sf_name c = n"
    and "(if ns = [] then Inr (None, sf_size c, True) else prune_confirmed_local_descendant c ns) = Inr (u, gone, ch)"
  shows "prune_kids (as @ c # bs) n ns = Inr (1, ch, if ch then gone else 0, as @ (case u of None \<Rightarrow> [] | Some u \<Rightarrow> [u]) @ bs)"
  using assms
proof (induction as)
  case Nil
  then have "prune_kids bs n ns = Inr (0, False, 0, bs)" by (intro prune_kids_none) auto
  with Nil show ?case by (cases u) simp_all
next
  case (Cons a as)
  then have "sf_name a \<noteq> n" by auto
  with Cons show ?case by simp
qed

lemma kid_split:
  assumes "kid cs n = Some c"
  obtains as bs where "cs = as @ c # bs" "sf_name c = n"
  using kid_mem[OF assms] by (metis split_list)

lemma kid_append_distinct:
  assumes "distinct (map sf_name (as @ c # bs))"
  shows "kid (as @ bs) (sf_name c) = None" "k \<noteq> sf_name c \<Longrightarrow> kid (as @ bs) k = kid (as @ c # bs) k"
    "sf_name u = sf_name c \<Longrightarrow> kid (as @ u # bs) (sf_name c) = Some u"
    "sf_name u = sf_name c \<Longrightarrow> k \<noteq> sf_name c \<Longrightarrow> kid (as @ u # bs) k = kid (as @ c # bs) k"
proof -
  have one: "kid cs k = kid ds k"
    if "distinct (map sf_name cs)" "distinct (map sf_name ds)" "\<And>x. sf_name x = k \<Longrightarrow> x \<in> set cs \<longleftrightarrow> x \<in> set ds" for cs ds k
  proof (cases "kid cs k")
    case None
    then have "\<forall>x \<in> set cs. sf_name x \<noteq> k" using kid_None_iff[of cs k] by auto
    then have "kid ds k = None" using that(3) kid_mem[of ds k] by (cases "kid ds k") auto
    with None show ?thesis by simp
  next
    case (Some x)
    then show ?thesis using kid_mem[OF Some] that(2,3) kid_distinct by metis
  qed
  show "kid (as @ bs) (sf_name c) = None" using assms by (auto simp: kid_None_iff)
  show "k \<noteq> sf_name c \<Longrightarrow> kid (as @ bs) k = kid (as @ c # bs) k" by (rule one) (use assms in auto)
  show "kid (as @ u # bs) (sf_name c) = Some u" if "sf_name u = sf_name c"
    by (rule kid_unique) (use assms that in auto)
  show "kid (as @ u # bs) k = kid (as @ c # bs) k" if "sf_name u = sf_name c" "k \<noteq> sf_name c"
    by (rule one) (use assms that in auto)
qed

definition cut_out :: "system_file \<Rightarrow> string list \<Rightarrow> int \<Rightarrow> system_file \<Rightarrow> bool" where
  "cut_out f p gone g \<longleftrightarrow> tidy g \<and> sf_name g = sf_name f \<and> (\<forall>q. prefix p q \<longrightarrow> node_at g q = None) \<and>
     (\<forall>q. \<not> prefix q p \<longrightarrow> \<not> prefix p q \<longrightarrow> node_at g q = node_at f q) \<and>
     (\<forall>q. strict_prefix q p \<longrightarrow>
        (\<exists>x y. node_at f q = Some x \<and> node_at g q = Some y \<and> copy_of (sf_is_staging x) (max 0 (sf_size x - gone)) (skids y) x y))"

lemma cut_outI:
  assumes g: "copy_of (sf_is_staging f) (max 0 (sf_size f - gone)) ks f g" "tidy g" and d: "sf_is_dir f"
    and other: "\<And>k. k \<noteq> n \<Longrightarrow> kid ks k = kid (skids f) k"
    and below: "ns = [] \<and> kid ks n = None \<or> ns \<noteq> [] \<and> (\<exists>c u. kid (skids f) n = Some c \<and> kid ks n = Some u \<and> cut_out c ns gone u)"
  shows "cut_out f (n # ns) gone g"
proof -
  have gd: "sf_is_dir g" "skids g = ks" using g(1) d by (simp_all add: copy_of_def)
  have step: "node_at g (n # q) = node_at u q \<and> node_at f (n # q) = node_at c q"
    if "kid (skids f) n = Some c" "kid ks n = Some u" for c u q using that gd d by (simp add: node_at_kid)
  show ?thesis
    unfolding cut_out_def
  proof (intro conjI allI impI)
    show "tidy g" "sf_name g = sf_name f" using g by (simp_all add: copy_of_def)
    show "node_at g q = None" if "prefix (n # ns) q" for q
    proof -
      obtain w where "q = (n # ns) @ w" using \<open>prefix (n # ns) q\<close> by (rule prefixE)
      then obtain q' where q: "q = n # q'" "prefix ns q'" by simp
      from below show ?thesis
      proof
        assume "ns = [] \<and> kid ks n = None"
        then show ?thesis using q gd by (simp add: node_at_None)
      next
        assume "ns \<noteq> [] \<and> (\<exists>c u. kid (skids f) n = Some c \<and> kid ks n = Some u \<and> cut_out c ns gone u)"
        then show ?thesis using q step unfolding cut_out_def by metis
      qed
    qed
    show "node_at g q = node_at f q" if x: "\<not> prefix q (n # ns)" "\<not> prefix (n # ns) q" for q
    proof -
      obtain k q' where q: "q = k # q'" using x(1) by (cases q) auto
      show ?thesis
      proof (cases "k = n")
        case False
        then show ?thesis using q gd d other by (simp add: node_at.simps)
      next
        case True
        then have "\<not> prefix q' ns" "\<not> prefix ns q'" "ns \<noteq> []" using x q by auto
        then show ?thesis using below q True step unfolding cut_out_def by metis
      qed
    qed
    show "\<exists>x y. node_at f q = Some x \<and> node_at g q = Some y \<and> copy_of (sf_is_staging x) (max 0 (sf_size x - gone)) (skids y) x y"
      if "strict_prefix q (n # ns)" for q
    proof (cases q)
      case Nil
      then show ?thesis using g(1) gd by simp
    next
      case (Cons k q')
      then have "k = n" "strict_prefix q' ns" "ns \<noteq> []" using that by auto
      then show ?thesis using below Cons step unfolding cut_out_def by metis
    qed
  qed
qed

lemma prune_dir:
  assumes "sf_is_dir f"
  shows "prune_confirmed_local_descendant f (n # ns) =
    rbind (prune_kids (skids f) n ns) (\<lambda>(matches, changed, removed_size, children).
      if matches \<noteq> 1 \<or> \<not> changed then Inr (Some f, 0, False)
      else rbind (clone_node f (Some children) None (Some (max 0 (sf_size f - removed_size)))) (\<lambda>g. Inr (Some g, removed_size, True)))"
  using assms by (cases f) (clarsimp simp: Let_def)

lemma prune_step:
  assumes "tidy f" "sf_is_dir f" "skids f = as @ c # bs"
    and "(if ns = [] then Inr (None, sf_size c, True) else prune_confirmed_local_descendant c ns) = Inr (u, gone, ch)"
  shows "prune_confirmed_local_descendant f (sf_name c # ns) =
    (if ch then rbind (clone_node f (Some (as @ (case u of None \<Rightarrow> [] | Some u \<Rightarrow> [u]) @ bs)) None (Some (max 0 (sf_size f - gone)))) (\<lambda>g. Inr (Some g, gone, True))
     else Inr (Some f, 0, False))"
proof -
  have "distinct (map sf_name (as @ c # bs))" using tidy_kids[OF assms(1)] assms(3) by simp
  from prune_kids_one[OF this refl assms(4)] show ?thesis unfolding prune_dir[OF assms(2)] assms(3) by simp
qed

lemma prune_found:
  assumes f: "tidy f" "sf_is_dir f" "skids f = as @ c # bs"
    and r: "(if ns = [] then Inr (None, sf_size c, True) else prune_confirmed_local_descendant c ns) = Inr (u, gone, True)"
    and u: "ns = [] \<and> u = None \<or> ns \<noteq> [] \<and> (\<exists>u'. u = Some u' \<and> cut_out c ns gone u')"
  shows "\<exists>g. prune_confirmed_local_descendant f (sf_name c # ns) = Inr (Some g, gone, True) \<and> cut_out f (sf_name c # ns) gone g"
proof -
  let ?ks = "as @ (case u of None \<Rightarrow> [] | Some u \<Rightarrow> [u]) @ bs"
  have dist: "distinct (map sf_name (as @ c # bs))" using tidy_kids[OF f(1)] f(3) by simp
  have t: "list_all tidy (as @ bs)" using tidy_kid[OF f(1)] f(3) by (auto simp: list_all_iff)
  have c: "kid (skids f) (sf_name c) = Some c" by (rule kid_distinct[OF tidy_kids[OF f(1)]]) (simp add: f(3))
  obtain g where g: "clone_node f (Some ?ks) None (Some (max 0 (sf_size f - gone))) = Inr g"
    "copy_of (sf_is_staging f) (max 0 (sf_size f - gone)) ?ks f g"
    using clone_node_copy[where f = f and children = "Some ?ks" and st = None and agg = "Some (max 0 (sf_size f - gone))"] f(2) by auto
  have un: "tidy u' \<and> sf_name u' = sf_name c" if "u = Some u'" for u' using u that by (auto simp: cut_out_def)
  have ks: "distinct (map sf_name ?ks) \<and> list_all tidy ?ks"
  proof (cases u)
    case (Some u')
    with un[OF Some] dist t show ?thesis by simp
  qed (use dist t in simp)
  have "tidy g" by (rule copy_tidy[OF g(2)]) (use ks f(2) in simp_all)
  moreover have "kid ?ks j = kid (skids f) j" if j: "j \<noteq> sf_name c" for j
  proof (cases u)
    case None
    show ?thesis unfolding None option.case append_Nil f(3) by (rule kid_append_distinct(2)[OF dist j])
  next
    case (Some u')
    show ?thesis unfolding Some option.case append_Cons append_Nil f(3) by (rule kid_append_distinct(4)[OF dist _ j]) (use un[OF Some] in simp)
  qed
  moreover have "ns = [] \<and> kid ?ks (sf_name c) = None \<or>
      ns \<noteq> [] \<and> (\<exists>d u. kid (skids f) (sf_name c) = Some d \<and> kid ?ks (sf_name c) = Some u \<and> cut_out d ns gone u)"
  proof (cases u)
    case None
    then show ?thesis using u kid_append_distinct(1)[OF dist] by simp
  next
    case (Some u')
    have "kid ?ks (sf_name c) = Some u'"
      unfolding Some option.case append_Cons append_Nil by (rule kid_append_distinct(3)[OF dist]) (use un[OF Some] in simp)
    then show ?thesis using u c Some by auto
  qed
  ultimately have "cut_out f (sf_name c # ns) gone g" by (intro cut_outI[OF g(2) _ f(2)]) auto
  then show ?thesis using prune_step[OF f r] g(1) by simp
qed

lemma prune_spec:
  assumes "tidy f" "p \<noteq> []"
  shows "(node_at f p = None \<longrightarrow> prune_confirmed_local_descendant f p = Inr (Some f, 0, False)) \<and>
    (\<forall>n. node_at f p = Some n \<longrightarrow> (\<exists>g. prune_confirmed_local_descendant f p = Inr (Some g, sf_size n, True) \<and> cut_out f p (sf_size n) g))"
  using assms
proof (induction p arbitrary: f)
  case (Cons n ns)
  show ?case
  proof (cases "\<exists>c. sf_is_dir f \<and> kid (skids f) n = Some c")
    case False
    then have "prune_confirmed_local_descendant f (n # ns) = Inr (Some f, 0, False)"
      using prune_kids_none[of n "skids f" ns] kid_None_iff[of "skids f" n] by (cases f) (auto simp: Let_def)
    moreover have "node_at f (n # ns) = None" using False by (auto simp: node_at_None)
    ultimately show ?thesis by simp
  next
    case True
    then obtain c where d: "sf_is_dir f" and c: "kid (skids f) n = Some c" by blast
    obtain as bs where k: "skids f = as @ c # bs" "sf_name c = n" by (rule kid_split[OF c])
    have t: "tidy c" using tidy_kid[OF Cons.prems(1)] k(1) by simp
    have at: "node_at f (n # ns) = node_at c ns" by (rule node_at_kid[OF d c])
    note run = prune_step[OF Cons.prems(1) d k(1), of ns, unfolded k(2)]
    note cut = prune_found[OF Cons.prems(1) d k(1), of ns, unfolded k(2)]
    show ?thesis
    proof (cases "ns = []")
      case True
      then show ?thesis using cut[of None "sf_size c"] at by simp
    next
      case False
      note IH = Cons.IH[OF t False]
      show ?thesis
      proof (cases "node_at c ns")
        case None
        then show ?thesis using IH run[of "Some c" 0 False] False at by simp
      next
        case (Some x)
        then obtain g where "prune_confirmed_local_descendant c ns = Inr (Some g, sf_size x, True)" "cut_out c ns (sf_size x) g" using IH by blast
        then show ?thesis using cut[of "Some g" "sf_size x"] False at Some by simp
      qed
    qed
  qed
qed simp

end
