(* ===== verification/Builder_Properties.thy ===== *)
theory Builder_Properties
  imports Split_Prune
begin

text \<open>
  The properties of the model builder's trees: what completion, a staged move and a leaf that may be
  published mean in terms of the paths of the two trees, that the two sources of progress never count
  a byte twice, that laying a scan of active transfers over the last scan hides no final leaf, and that
  a confirmed deletion removes one node and nothing else.
\<close>

section \<open>Sample trees\<close>

definition sample_leaf :: "string \<Rightarrow> int \<Rightarrow> int \<Rightarrow> int \<Rightarrow> system_file" where
  "sample_leaf name sz mtime flags =
     SystemFile \<lparr>sa_name = name, sa_size = sz, sa_flags = flags, sa_created = None, sa_modified = None, sa_mtime_ns = Some mtime,
       sa_path_pair_id = None, sa_path_pair_name = None\<rparr> []"

definition sample_dir :: "string \<Rightarrow> int \<Rightarrow> system_file list \<Rightarrow> system_file" where
  "sample_dir name sz cs =
     SystemFile \<lparr>sa_name = name, sa_size = sz, sa_flags = 1, sa_created = None, sa_modified = None, sa_mtime_ns = None,
       sa_path_pair_id = None, sa_path_pair_name = None\<rparr> cs"

definition remote_sample :: system_file where
  "remote_sample = sample_dir ''show'' 7 [sample_leaf ''a'' 3 5 0, sample_dir ''b'' 4 [sample_leaf ''c'' 4 6 0]]"

text \<open>The local tree has \<open>a\<close> final and \<open>b/c\<close> staged.\<close>

definition local_sample :: system_file where
  "local_sample = sample_dir ''show'' 7 [sample_leaf ''a'' 3 5 0, sample_dir ''b'' 4 [sample_leaf ''c'' 4 6 2]]"

definition active_sample :: system_file where
  "active_sample = sample_dir ''show'' 2 [sample_leaf ''a'' 2 9 2]"

section \<open>Properties\<close>

text \<open>C16. Completion is coverage of every remote path: the walk over the two trees accepts a local
  directory exactly when every remote node has a local node of its kind at the same path, without a
  collision, as large as the remote one when it is a file, and when nothing staged and no collision
  stands in a remote directory under a name the remote tree does not have there.\<close>

theorem completion_covers_every_leaf:
  "directory_leaves_cover_remote r (Some l) = along covers unstaged r l"
  by (rule cover_iff_along)



text \<open>The list of leaves that may be published and the explanation for a single leaf agree: on scanned
  trees a pair of a root and a path is a candidate exactly when the reason given for it is a match.\<close>

theorem candidates_agree_with_their_reasons:
  assumes "dict_ok remote_files" "\<forall>r \<in> snd ` set remote_files. tidy r \<and> tidy_names r" "\<forall>l \<in> snd ` set local_files. tidy l"
  shows "(root_id, relative) \<in> set (get_finalizable_staging_leaf_candidates remote_files local_files) \<longleftrightarrow>
    get_finalizable_staging_leaf_candidate_reason (dict_get remote_files root_id) (dict_get local_files root_id) relative = Some ''match''"
  by (rule candidates_iff_match[OF assms])

theorem candidates_agree_with_their_reasons_witness:
  "(''show'', ''b/c'') \<in> set (get_finalizable_staging_leaf_candidates [(''show'', remote_sample)] [(''show'', local_sample)]) \<and>
   (''show'', ''a'') \<notin> set (get_finalizable_staging_leaf_candidates [(''show'', remote_sample)] [(''show'', local_sample)])"
proof -
  have t: "tidy remote_sample" "tidy_names remote_sample" "tidy local_sample" by code_simp+
  have "get_finalizable_staging_leaf_candidate_reason (Some remote_sample) (Some local_sample) ''b/c'' = Some ''match''"
    "get_finalizable_staging_leaf_candidate_reason (Some remote_sample) (Some local_sample) ''a'' \<noteq> Some ''match''" by code_simp+
  then show ?thesis
    using candidates_agree_with_their_reasons[of "[(''show'', remote_sample)]" "[(''show'', local_sample)]" "''show''"] t by simp
qed

text \<open>The two sources of a directory's progress are disjoint parts of the remote tree: bytes of leaves
  that are already final and bytes a status sidecar proves in the staging folder together never exceed
  the bytes of the remote leaves, whatever the two trees are.\<close>

theorem progress_sources_are_disjoint:
  assumes "tidy r" "tidy l"
  shows "0 \<le> trusted_final_leaf_bytes (Some r) l collision \<and> 0 \<le> staged_remote_leaf_bytes r (Some l) \<and>
    trusted_final_leaf_bytes (Some r) l collision + staged_remote_leaf_bytes r (Some l) \<le> leaf_bytes r"
  by (rule final_and_staged_bytes[OF assms])

theorem progress_sources_are_disjoint_witness:
  "trusted_final_leaf_bytes (Some remote_sample) local_sample False = 3 \<and>
   trusted_final_leaf_bytes (Some remote_sample) local_sample False + staged_remote_leaf_bytes remote_sample (Some local_sample)
     \<le> leaf_bytes remote_sample"
proof -
  have t: "tidy remote_sample" "tidy local_sample" by code_simp+
  have "trusted_final_leaf_bytes (Some remote_sample) local_sample False = 3" by code_simp
  with progress_sources_are_disjoint[OF t, of False] show ?thesis by blast
qed

text \<open>C15. Laying the scan of active transfers over the full scan hides no final leaf: on scanned trees the merge
  does not raise, and a final leaf with the exact remote identity is still there at its path, not
  staged, with its size and time. When the active scan has a node at that path it is marked as a
  collision exactly if that node is not the same remote content, and then the root is not complete.\<close>

theorem merge_hides_no_final_leaf:
  assumes "tidy e" "tidy a" "sf_name a = sf_name e" "node_at e p = Some n" "node_at r p = Some q" "is_verified_final_leaf q n"
  shows "\<exists>m x. merge_active_split_root e a (Some r) = Inr m \<and> node_at m p = Some x \<and> \<not> sf_is_staging x \<and>
    sf_size x = sf_size n \<and> sa_mtime_ns (sattrs x) = sa_mtime_ns (sattrs n) \<and>
    (\<forall>y. node_at a p = Some y \<longrightarrow> sf_has_staging_collision x = (\<not> leaf_matches_remote_identity q y) \<and>
       (\<not> leaf_matches_remote_identity q y \<longrightarrow> \<not> effective_local_tree_proves_completion (Some r) (Some m)))"
proof -
  obtain m where m: "merge_active_split_root e a (Some r) = Inr m" "keeps_final e a (Some r) m" using merge_spec[OF assms(1-3)] by blast
  then obtain x where x: "node_at m p = Some x" "\<not> sf_is_dir x" "\<not> sf_is_staging x" "sf_size x = sf_size n"
    "sa_mtime_ns (sattrs x) = sa_mtime_ns (sattrs n)"
    "\<forall>y. node_at a p = Some y \<longrightarrow> sf_has_staging_collision x = (\<not> leaf_matches_remote_identity q y)"
    using assms(4-6) unfolding keeps_final_def by blast
  have "\<not> effective_local_tree_proves_completion (Some r) (Some m)" if c: "sf_has_staging_collision x"
  proof (cases p)
    case Nil
    then show ?thesis using x(1) c by (simp add: effective_local_tree_proves_completion_def)
  next
    case (Cons k ks)
    have "\<not> along covers unstaged r m" using assms(5) x(1) c unfolding along_def covers_def by (metis option.inject)
    moreover have "skids m \<noteq> []" "sf_is_dir r" using x(1) assms(5) Cons kid_mem[of "skids m" k] by (auto simp: node_at_Cons)
    ultimately show ?thesis by (simp add: effective_local_tree_proves_completion_def cover_iff_along)
  qed
  with m(1) x show ?thesis by blast
qed

theorem merge_hides_no_final_leaf_witness:
  "\<exists>m x. merge_active_split_root local_sample active_sample (Some remote_sample) = Inr m \<and> node_at m [''a''] = Some x \<and>
     \<not> sf_is_staging x \<and> sf_size x = 3 \<and> sf_has_staging_collision x"
proof -
  have t: "tidy local_sample" "tidy active_sample" "sf_name active_sample = sf_name local_sample"
    "node_at local_sample [''a''] = Some (sample_leaf ''a'' 3 5 0)" "node_at remote_sample [''a''] = Some (sample_leaf ''a'' 3 5 0)"
    "is_verified_final_leaf (sample_leaf ''a'' 3 5 0) (sample_leaf ''a'' 3 5 0)"
    "node_at active_sample [''a''] = Some (sample_leaf ''a'' 2 9 2)"
    "\<not> leaf_matches_remote_identity (sample_leaf ''a'' 3 5 0) (sample_leaf ''a'' 2 9 2)" "sf_size (sample_leaf ''a'' 3 5 0) = 3"
    by code_simp+
  from merge_hides_no_final_leaf[OF t(1-6)] t(7-9) show ?thesis by auto
qed

text \<open>A confirmed deletion cuts out one node: on a scanned tree the pruned tree has nothing at the
  deleted path or below it, every directory above keeps all its attributes but its size, which shrinks
  by the size of the deleted node and not below zero, and every other path leads to the node it led
  to before; a path that leads nowhere leaves the tree as it is.\<close>

theorem confirmed_deletion_cuts_one_node:
  assumes "tidy f" "p \<noteq> []"
  shows "case node_at f p of
      None \<Rightarrow> prune_confirmed_local_deletion f p = Inr (Some f)
    | Some n \<Rightarrow> \<exists>g. prune_confirmed_local_deletion f p = Inr (Some g) \<and> (\<forall>q. prefix p q \<longrightarrow> node_at g q = None) \<and>
        (\<forall>q. \<not> prefix q p \<longrightarrow> \<not> prefix p q \<longrightarrow> node_at g q = node_at f q) \<and>
        (\<forall>q. strict_prefix q p \<longrightarrow> (\<exists>x y. node_at f q = Some x \<and> node_at g q = Some y \<and>
           copy_of (sf_is_staging x) (max 0 (sf_size x - sf_size n)) (skids y) x y))"
  using prune_spec[OF assms] assms(2) unfolding prune_confirmed_local_deletion_def cut_out_def
  by (cases "node_at f p") auto

theorem confirmed_deletion_cuts_one_node_witness:
  "\<exists>g. prune_confirmed_local_deletion local_sample [''b'', ''c''] = Inr (Some g) \<and> node_at g [''b'', ''c''] = None \<and>
     node_at g [''a''] = Some (sample_leaf ''a'' 3 5 0)"
proof -
  have t: "tidy local_sample" "node_at local_sample [''b'', ''c''] = Some (sample_leaf ''c'' 4 6 2)"
    "node_at local_sample [''a''] = Some (sample_leaf ''a'' 3 5 0)" by code_simp+
  from confirmed_deletion_cuts_one_node[OF t(1), of "[''b'', ''c'']"] t(2) obtain g where
    g: "prune_confirmed_local_deletion local_sample [''b'', ''c''] = Inr (Some g)"
      "\<forall>q. prefix [''b'', ''c''] q \<longrightarrow> node_at g q = None"
      "\<forall>q. \<not> prefix q [''b'', ''c''] \<longrightarrow> \<not> prefix [''b'', ''c''] q \<longrightarrow> node_at g q = node_at local_sample q" by auto
  have "node_at g [''a''] = node_at local_sample [''a'']" using g(3) by simp
  with g(1,2) t(3) show ?thesis by auto
qed

end
