(* ===== verification/Transfer_Floor.thy ===== *)
theory Transfer_Floor
  imports Split_Root Job_Status Py_Float
begin

text \<open>
  \<open>controller/model_builder.py\<close>, part three: the counters of a running transfer. LFTP reports the bytes
  of the subset it is working on; \<open>__combine_split_root_transfer_state\<close> turns them into progress of the
  whole root, keeps the last accepted value as a floor while the same job runs, and adds the leaves that
  are already final.

  The steps of the method are separate definitions here; only one of its branches returns before the
  end (\<open>Return\<close>). Percentages are integers, as the status parser produces them.
\<close>

section \<open>Operations\<close>

record live_snapshot =
  sn_root :: string
  sn_size :: "int option"
  sn_percent :: "int option"
  sn_speed :: "int option"
  sn_eta :: "int option"
  sn_job_id :: "int option"
  sn_job_type :: "string option"
  sn_subset :: "int option"
  sn_subset_remote :: "int option"
  sn_updated :: int

definition percent_of :: "int \<Rightarrow> int \<Rightarrow> int result" where
  "percent_of part whole = rbind (true_divide (part * 100) whole) (\<lambda>x. Inr (round_float x))"

definition snapshot_identity_matches :: "live_snapshot option \<Rightarrow> int option \<Rightarrow> job_type option \<Rightarrow> bool" where
  "snapshot_identity_matches previous job_id job_type =
     opt_holds (\<lambda>s. sn_job_id s = job_id \<and> sn_job_type s = map_option job_type_value job_type) previous"

definition bridge_counters :: "transfer_state \<Rightarrow> system_file option \<Rightarrow> live_snapshot option \<Rightarrow> bool \<Rightarrow> job_type option \<Rightarrow> transfer_state" where
  "bridge_counters t remote_file previous matches job_type =
     (case previous of
        None \<Rightarrow> t
      | Some s \<Rightarrow>
          if matches \<and> job_type = Some PGET \<and> size_local t = None \<and> percent_local t = None \<and> sn_size s \<noteq> None
          then t\<lparr>size_local := sn_size s,
                 size_remote := (case remote_file of Some r \<Rightarrow> Some (sf_size r) | None \<Rightarrow> sn_subset_remote s),
                 percent_local := sn_percent s\<rparr>
          else t)"

definition clamp :: "int \<Rightarrow> int \<Rightarrow> int" where
  "clamp whole n = max 0 (min n whole)"

definition with_floor :: "int option \<Rightarrow> int \<Rightarrow> int" where
  "with_floor lowest n = (case lowest of None \<Rightarrow> n | Some m \<Rightarrow> max n m)"

definition whole_root :: "int \<Rightarrow> int \<Rightarrow> transfer_state \<Rightarrow> transfer_state result" where
  "whole_root n whole t =
     (if 0 < whole
      then rbind (percent_of n whole) (\<lambda>p. Inr (t\<lparr>size_local := Some n, size_remote := Some whole, percent_local := Some p\<rparr>))
      else Inr (t\<lparr>size_local := Some n, size_remote := Some whole, percent_local := None\<rparr>))"

datatype normalized = Return transfer_state | Continue transfer_state

definition previous_size :: "live_snapshot option \<Rightarrow> bool \<Rightarrow> int option" where
  "previous_size previous matches = (case previous of Some s \<Rightarrow> if matches then sn_size s else None | None \<Rightarrow> None)"

definition previous_subset :: "live_snapshot option \<Rightarrow> bool \<Rightarrow> int option" where
  "previous_subset previous matches = (case previous of Some s \<Rightarrow> if matches then sn_subset s else None | None \<Rightarrow> None)"

definition normalize_counters ::
  "transfer_state \<Rightarrow> int \<Rightarrow> int \<Rightarrow> int \<Rightarrow> int \<Rightarrow> live_snapshot option \<Rightarrow> bool \<Rightarrow> job_type option \<Rightarrow> normalized result" where
  "normalize_counters t whole total_bytes remaining part_bytes previous matches job_type =
     (if part_bytes = 0 then Inr (Continue (t\<lparr>size_local := Some 0, size_remote := Some whole, percent_local := Some 0\<rparr>))
      else if job_type = Some MIRROR \<and> (remaining \<noteq> whole \<or> whole < total_bytes)
      then rbind (whole_root (clamp whole (with_floor (previous_subset previous matches) part_bytes)) whole t) (\<lambda>t. Inr (Continue t))
      else if remaining \<noteq> whole
      then rbind (whole_root (clamp whole (with_floor (previous_size previous matches) (whole - (remaining - part_bytes)))) whole t) (\<lambda>t. Inr (Return t))
      else if whole < total_bytes
      then rbind (whole_root (clamp whole (with_floor (previous_size previous matches) part_bytes)) whole t) (\<lambda>t. Inr (Continue t))
      else if previous_size previous matches \<noteq> None
      then
        (let lowest = (if job_type = Some MIRROR then previous_subset previous matches else previous_size previous matches);
             applied = opt_holds (\<lambda>m. part_bytes < m) lowest;
             n = clamp whole (max part_bytes (case lowest of None \<Rightarrow> 0 | Some m \<Rightarrow> m))
         in if applied \<and> 0 < whole then rbind (whole_root n whole t) (\<lambda>t. Inr (Continue t))
            else Inr (Continue (t\<lparr>size_local := Some n, size_remote := Some whole\<rparr>)))
      else Inr (Continue t))"

definition normalize_subset ::
  "transfer_state \<Rightarrow> system_file option \<Rightarrow> live_snapshot option \<Rightarrow> bool \<Rightarrow> job_type option \<Rightarrow> normalized result" where
  "normalize_subset t remote_file previous matches job_type =
     (case (remote_file, size_remote t, size_local t) of
        (Some r, Some total_bytes, Some local_bytes) \<Rightarrow>
          (let whole = sf_size r;
               remaining = max 0 (min total_bytes whole);
               part_bytes = max 0 (min local_bytes remaining)
           in normalize_counters t whole total_bytes remaining part_bytes previous matches job_type)
      | _ \<Rightarrow> Inr (Continue t))"

definition local_has_staging :: "system_file option \<Rightarrow> bool" where
  "local_has_staging local_file = opt_holds has_staging_descendant local_file"

definition lift_to :: "int option \<Rightarrow> int option \<Rightarrow> int option" where
  "lift_to lowest v = (case lowest of None \<Rightarrow> v | Some m \<Rightarrow> (case v of None \<Rightarrow> Some m | Some n \<Rightarrow> Some (if n < m then m else n)))"

definition keep_floor ::
  "transfer_state \<Rightarrow> system_file option \<Rightarrow> live_snapshot option \<Rightarrow> bool \<Rightarrow> job_type option \<Rightarrow> transfer_state" where
  "keep_floor t local_file previous matches job_type =
     (case previous of
        None \<Rightarrow> t
      | Some s \<Rightarrow>
          if matches \<and> (size_local t \<noteq> None \<or> percent_local t \<noteq> None) \<and> size_local t \<noteq> Some 0
          then t\<lparr>size_local := lift_to (if job_type = Some MIRROR \<and> local_has_staging local_file then sn_subset s else sn_size s) (size_local t),
                 percent_local := lift_to (sn_percent s) (percent_local t)\<rparr>
          else t)"

definition or_zero :: "int option \<Rightarrow> int" where
  "or_zero v = (case v of None \<Rightarrow> 0 | Some n \<Rightarrow> n)"

definition checkpoint_bytes ::
  "int option \<Rightarrow> int \<Rightarrow> int \<Rightarrow> live_snapshot option \<Rightarrow> bool \<Rightarrow> int \<Rightarrow> int" where
  "checkpoint_bytes raw current final_bytes previous matches fresh =
     (let resume = (raw = Some 0 \<and>
            (case previous of
               None \<Rightarrow> True
             | Some s \<Rightarrow> matches \<and> sn_subset s = Some 0 \<and> opt_holds (\<lambda>n. final_bytes < n) (sn_size s)));
          first = (if resume
                   then (case previous of None \<Rightarrow> current | Some s \<Rightarrow> min current (max 0 (or_zero (sn_size s) - final_bytes)))
                   else 0);
          second = (if raw = Some 0 \<and> matches then max first fresh else first)
      in case previous of
           None \<Rightarrow> second
         | Some s \<Rightarrow>
             (case (raw, sn_size s, sn_subset s) of
                (Some n, Some a, Some b) \<Rightarrow>
                  if n \<noteq> 0 \<and> matches \<and> b + final_bytes < a then min current (max 0 (a - final_bytes)) else second
              | _ \<Rightarrow> second))"

definition add_final_leaves ::
  "transfer_state \<Rightarrow> int option \<Rightarrow> system_file option \<Rightarrow> system_file option \<Rightarrow> live_snapshot option \<Rightarrow> bool \<Rightarrow> int \<Rightarrow> transfer_state result" where
  "add_final_leaves t raw remote_file local_file previous matches fresh =
     (case local_file of
        None \<Rightarrow> Inr t
      | Some l \<Rightarrow>
          if \<not> has_staging_descendant l then Inr t
          else
            (let final_bytes = trusted_final_leaf_bytes remote_file l False;
                 current = (if size_local t = None then 0
                            else case remote_file of None \<Rightarrow> 0 | Some r \<Rightarrow> staged_remote_leaf_bytes r (Some l));
                 staged = max (or_zero (size_local t)) (checkpoint_bytes raw current final_bytes previous matches fresh)
             in if final_bytes = 0 \<and> staged = or_zero (size_local t) then Inr t
                else case remote_file of
                  None \<Rightarrow> Inr (t\<lparr>size_local := Some (final_bytes + staged)\<rparr>)
                | Some r \<Rightarrow>
                    (let n = min (final_bytes + staged) (sf_size r) in
                     if 0 < sf_size r
                     then rbind (percent_of n (sf_size r)) (\<lambda>p. Inr (t\<lparr>size_local := Some n, size_remote := Some (sf_size r), percent_local := Some p\<rparr>))
                     else Inr (t\<lparr>size_local := Some n, size_remote := Some (sf_size r)\<rparr>))))"

definition combine_split_root_transfer_state ::
  "transfer_state \<Rightarrow> system_file option \<Rightarrow> system_file option \<Rightarrow> live_snapshot option \<Rightarrow> int option \<Rightarrow> job_type option \<Rightarrow> int \<Rightarrow> transfer_state result" where
  "combine_split_root_transfer_state t remote_file local_file previous job_id job_type fresh =
     (let matches = snapshot_identity_matches previous job_id job_type
      in rbind (normalize_subset (bridge_counters t remote_file previous matches job_type) remote_file previous matches job_type) (\<lambda>r.
           case r of
             Return t' \<Rightarrow> Inr t'
           | Continue t' \<Rightarrow>
               add_final_leaves (keep_floor t' local_file previous matches job_type) (size_local t) remote_file local_file previous matches fresh))"

section \<open>Percentages\<close>

lemma bit_length_nonneg: "0 \<le> bit_length m"
  by (induction m rule: bit_length.induct) (subst bit_length.simps, simp)

lemma bit_length_less: "0 \<le> n \<Longrightarrow> n < 2 ^ k \<Longrightarrow> bit_length n \<le> int k"
proof (induction k arbitrary: n)
  case 0
  then show ?case by (simp add: bit_length.simps)
next
  case (Suc k)
  then have "bit_length (n div 2) \<le> int k" by (intro Suc.IH) (simp_all add: pos_imp_zdiv_nonneg_iff)
  then show ?case by (subst bit_length.simps) simp
qed

lemma bit_length_lower: "0 < n \<Longrightarrow> 2 ^ nat (bit_length n - 1) \<le> n"
proof (induction n rule: bit_length.induct)
  case (1 n)
  show ?case
  proof (cases "n = 1")
    case True
    then show ?thesis by (simp add: bit_length.simps)
  next
    case False
    then have n: "0 < n div 2" using 1(2) by linarith
    have b: "bit_length n = bit_length (n div 2) + 1" using 1(2) by (subst bit_length.simps) simp
    have p: "0 < bit_length (n div 2)" using n bit_length_nonneg[of "n div 2 div 2"] by (subst bit_length.simps) simp
    have "2 ^ nat (bit_length (n div 2) - 1) \<le> n div 2" using 1(1) 1(2) n by simp
    moreover have "nat (bit_length n - 1) = Suc (nat (bit_length (n div 2) - 1))" using b p by simp
    ultimately show ?thesis by simp
  qed
qed

lemma bit_length_upper:
  assumes "0 < n"
  shows "n < 2 ^ nat (bit_length n)"
proof (rule ccontr)
  assume "\<not> ?thesis"
  then have "int (nat (bit_length n)) < bit_length n" by (intro bit_length_ge) simp
  then show False using bit_length_nonneg[of n] by simp
qed

text \<open>A quotient of at most one hundred is far below the largest \<open>float\<close>, so the division of two counters
  does not raise, and rounding keeps it between zero and one hundred.\<close>

lemma quotient_exponent_small:
  assumes "0 < a" "0 < b" "a \<le> 100 * b"
  shows "quotient_exponent a b \<le> - 45"
proof -
  have "b < 2 ^ nat (bit_length b)" by (rule bit_length_upper[OF assms(2)])
  then have "a < 2 ^ (nat (bit_length b) + 7)" using assms(2,3) by (simp add: power_add)
  then have "bit_length a \<le> int (nat (bit_length b) + 7)" using assms(1) by (intro bit_length_less) simp_all
  then have "bit_length a - bit_length b \<le> 7" using bit_length_nonneg[of b] by simp
  then show ?thesis by (simp add: quotient_exponent_def Let_def max_def)
qed

lemma percent_of_bounds:
  assumes "0 \<le> n" "n \<le> w" "0 < w"
  shows "\<exists>p. percent_of n w = Inr p \<and> 0 \<le> p \<and> p \<le> 100"
proof (cases "n = 0")
  case True
  then show ?thesis by (simp add: percent_of_def true_divide_def round_float_def shifted_def)
next
  case False
  then have a: "0 < n * 100" "n * 100 \<le> 100 * w" using assms by simp_all
  define e where "e = quotient_exponent (n * 100) w"
  have e: "e \<le> - 45" unfolding e_def by (rule quotient_exponent_small) (use a assms in simp_all)
  let ?s = "shifted 1 (- e)"
  have s: "0 < ?s" by simp
  let ?m = "round_div (shifted (n * 100) (- e)) w"
  have x: "round_quotient (n * 100) w = \<lparr>mantissa = ?m, exponent = e\<rparr>" using e by (simp add: round_quotient_def e_def Let_def)
  have "0 \<le> ?m \<and> ?m \<le> 100 * ?s"
  proof (rule round_div_bounds)
    show "0 < w" by fact
    show "0 * w \<le> shifted (n * 100) (- e)" using assms by (simp add: shifted_def)
    have "n * 100 * 2 ^ nat (- e) \<le> 100 * w * 2 ^ nat (- e)" using a(2) by (intro mult_right_mono) simp_all
    then show "shifted (n * 100) (- e) \<le> 100 * ?s * w" by (simp add: shifted_def mult.commute mult.left_commute)
  qed
  then have "0 \<le> round_div ?m ?s \<and> round_div ?m ?s \<le> 100" by (intro round_div_bounds[OF s]) simp_all
  moreover have "\<not> too_large (round_quotient (n * 100) w)" using e by (simp add: x too_large_def)
  ultimately show ?thesis using a(1) e x by (simp add: percent_of_def true_divide_def Let_def round_float_def)
qed

section \<open>Bounds and the floor\<close>

lemma clamp_range: "0 \<le> w \<Longrightarrow> 0 \<le> clamp w n \<and> clamp w n \<le> w"
  by (simp add: clamp_def)

lemma whole_root_runs:
  assumes "0 \<le> n" "n \<le> w"
  obtains t' where "whole_root n w t = Inr t'" "size_local t' = Some n" "size_remote t' = Some w" "opt_holds (\<lambda>p. 0 \<le> p \<and> p \<le> 100) (percent_local t') \<or> percent_local t' = None"
  using percent_of_bounds[OF assms] by (cases "0 < w") (auto simp: whole_root_def)

text \<open>A state whose counter lies within the root and not below a floor.\<close>

definition counts :: "int \<Rightarrow> int \<Rightarrow> transfer_state \<Rightarrow> bool" where
  "counts low w t \<longleftrightarrow> opt_holds (\<lambda>n. low \<le> n \<and> 0 \<le> n \<and> n \<le> w) (size_local t)"

lemma whole_root_counts:
  assumes "0 \<le> w" "low \<le> w" "low \<le> m \<or> low = 0"
  shows "\<exists>t'. whole_root (clamp w m) w t = Inr t' \<and> counts low w t'"
proof -
  obtain t' where "whole_root (clamp w m) w t = Inr t'" "size_local t' = Some (clamp w m)"
    using clamp_range[OF assms(1), of m] whole_root_runs by metis
  then show ?thesis using assms by (auto simp: counts_def clamp_def)
qed

text \<open>The floor is the last size of the same job, or zero.\<close>

definition floor_of :: "live_snapshot option \<Rightarrow> bool \<Rightarrow> job_type option \<Rightarrow> int \<Rightarrow> bool" where
  "floor_of previous matches job_type low \<longleftrightarrow> 0 \<le> low \<and>
     (0 < low \<longrightarrow> job_type \<noteq> Some MIRROR \<and> previous_size previous matches = Some low)"

text \<open>What the conversion hands on: a state of the root, whether or not it ends the method.\<close>

definition counted :: "int \<Rightarrow> int \<Rightarrow> normalized result \<Rightarrow> bool" where
  "counted low w x \<longleftrightarrow> (case x of Inl _ \<Rightarrow> False | Inr (Return t) \<Rightarrow> counts low w t | Inr (Continue t) \<Rightarrow> counts low w t)"

lemma counted_whole_root:
  assumes "0 \<le> w" "low \<le> w" "low \<le> m \<or> low = 0"
  shows "counted low w (rbind (whole_root (clamp w m) w t) (\<lambda>t. Inr (Continue t)))"
    and "counted low w (rbind (whole_root (clamp w m) w t) (\<lambda>t. Inr (Return t)))"
  using whole_root_counts[OF assms, of t] by (auto simp: counted_def)

lemma floor_of_size: "floor_of previous matches job_type low \<Longrightarrow> low \<le> with_floor (previous_size previous matches) m \<or> low = 0"
  by (auto simp: floor_of_def with_floor_def)

lemma floor_of_zero: "floor_of previous matches job_type low \<Longrightarrow> job_type = Some MIRROR \<or> previous_size previous matches = None \<Longrightarrow> low = 0"
  unfolding floor_of_def by force

lemma counted_counters:
  assumes w: "low \<le> w" and low: "floor_of previous matches job_type low"
    and sub: "0 \<le> part_bytes" "part_bytes \<le> w" "0 < low \<longrightarrow> 0 < part_bytes"
    and t: "remaining = w \<Longrightarrow> \<not> w < total_bytes \<Longrightarrow> size_local t = Some part_bytes"
  shows "counted low w (normalize_counters t w total_bytes remaining part_bytes previous matches job_type)"
proof -
  have w0: "0 \<le> w" using sub by linarith
  note root = counted_whole_root[OF w0 w]
  have l0: "0 \<le> low" using low by (simp add: floor_of_def)
  consider (reset) "part_bytes = 0"
    | (mirror) "part_bytes \<noteq> 0" "job_type = Some MIRROR" "remaining \<noteq> w \<or> w < total_bytes"
    | (part) "part_bytes \<noteq> 0" "job_type \<noteq> Some MIRROR" "remaining \<noteq> w"
    | (more) "part_bytes \<noteq> 0" "job_type \<noteq> Some MIRROR" "remaining = w" "w < total_bytes"
    | (whole) "part_bytes \<noteq> 0" "remaining = w" "\<not> w < total_bytes" by blast
  then show ?thesis
  proof cases
    case reset
    then have "low = 0" using sub l0 by auto
    with reset w0 show ?thesis by (simp add: normalize_counters_def counted_def counts_def)
  next
    case mirror
    then have "low = 0" using floor_of_zero[OF low] by simp
    with mirror root(1)[of "with_floor (previous_subset previous matches) part_bytes"] show ?thesis by (simp add: normalize_counters_def)
  next
    case part
    with root(2)[OF floor_of_size[OF low]] show ?thesis by (simp add: normalize_counters_def)
  next
    case more
    with root(1)[OF floor_of_size[OF low]] show ?thesis by (simp add: normalize_counters_def)
  next
    case whole
    show ?thesis
    proof (cases "previous_size previous matches")
      case None
      have "low = 0" using floor_of_zero[OF low] None by simp
      then show ?thesis using whole None t sub by (simp add: normalize_counters_def counted_def counts_def)
    next
      case (Some m)
      define lowest where "lowest = (if job_type = Some MIRROR then previous_subset previous matches else previous_size previous matches)"
      define n where "n = max part_bytes (case lowest of None \<Rightarrow> 0 | Some m \<Rightarrow> m)"
      have n: "low \<le> n \<or> low = 0"
        using low Some floor_of_zero[OF low] unfolding floor_of_def n_def lowest_def by (cases "job_type = Some MIRROR") auto
      have c: "counts low w (t\<lparr>size_local := Some (clamp w n), size_remote := Some w\<rparr>)"
        using n w w0 by (auto simp: counts_def clamp_def)
      have "normalize_counters t w total_bytes remaining part_bytes previous matches job_type =
          (if opt_holds (\<lambda>m. part_bytes < m) lowest \<and> 0 < w then rbind (whole_root (clamp w n) w t) (\<lambda>t. Inr (Continue t))
           else Inr (Continue (t\<lparr>size_local := Some (clamp w n), size_remote := Some w\<rparr>)))"
        using whole Some by (simp add: normalize_counters_def Let_def flip: lowest_def n_def)
      then show ?thesis using root(1)[OF n] c by (simp add: counted_def)
    qed
  qed
qed

lemma counted_subset:
  assumes "low \<le> sf_size r" "0 \<le> sf_size r" "size_remote t = Some total_bytes" "size_local t = Some n"
    and "0 \<le> n" "n \<le> total_bytes" "0 < low \<longrightarrow> 0 < n" "floor_of previous matches job_type low"
  shows "counted low (sf_size r) (normalize_subset t (Some r) previous matches job_type)"
proof -
  have "counted low (sf_size r) (normalize_counters t (sf_size r) total_bytes (max 0 (min total_bytes (sf_size r)))
      (max 0 (min n (max 0 (min total_bytes (sf_size r))))) previous matches job_type)"
    by (rule counted_counters) (use assms in \<open>auto simp: max_def min_def split: if_splits\<close>)
  then show ?thesis using assms(3,4) by (simp add: normalize_subset_def Let_def)
qed

text \<open>The last accepted snapshot lies within the root.\<close>

definition snapshot_within :: "int \<Rightarrow> live_snapshot option \<Rightarrow> bool" where
  "snapshot_within w previous \<longleftrightarrow> pred_option (\<lambda>s. pred_option (\<lambda>n. n \<le> w) (sn_size s) \<and> pred_option (\<lambda>n. n \<le> w) (sn_subset s)) previous"

lemma lift_to_counts:
  assumes "0 \<le> n" "low \<le> n" "n \<le> w" "pred_option (\<lambda>m. m \<le> w) lowest"
  shows "opt_holds (\<lambda>n. low \<le> n \<and> 0 \<le> n \<and> n \<le> w) (lift_to lowest (Some n))"
  using assms by (cases lowest) (auto simp: lift_to_def)

lemma keep_floor_counts:
  assumes "counts low w t" "snapshot_within w previous"
  shows "counts low w (keep_floor t local_file previous matches job_type)"
proof -
  obtain n where n: "size_local t = Some n" "0 \<le> n" "low \<le> n" "n \<le> w" using assms(1) by (cases "size_local t") (auto simp: counts_def)
  show ?thesis
  proof (cases previous)
    case None
    then show ?thesis using assms(1) by (simp add: keep_floor_def)
  next
    case (Some s)
    then have "pred_option (\<lambda>m. m \<le> w) (if job_type = Some MIRROR \<and> local_has_staging local_file then sn_subset s else sn_size s)"
      using assms(2) by (simp add: snapshot_within_def)
    from lift_to_counts[OF n(2,3,4) this] show ?thesis
      using Some assms(1) n(1) by (simp add: keep_floor_def counts_def)
  qed
qed

lemma add_final_counts:
  assumes "counts low (sf_size r) t" "0 \<le> sf_size r" "\<And>l. local_file = Some l \<Longrightarrow> 0 \<le> trusted_final_leaf_bytes (Some r) l False"
  shows "\<exists>t'. add_final_leaves t raw (Some r) local_file previous matches fresh = Inr t' \<and> counts low (sf_size r) t'"
proof (cases "\<exists>l. local_file = Some l \<and> has_staging_descendant l")
  case False
  then show ?thesis using assms(1) by (auto simp: add_final_leaves_def split: option.split)
next
  case True
  then obtain l where l: "local_file = Some l" "has_staging_descendant l" by blast
  obtain n where n: "size_local t = Some n" "0 \<le> n" "low \<le> n" "n \<le> sf_size r"
    using assms(1) by (cases "size_local t") (auto simp: counts_def)
  define f where "f = trusted_final_leaf_bytes (Some r) l False"
  define st where "st = max n (checkpoint_bytes raw (staged_remote_leaf_bytes r (Some l)) f previous matches fresh)"
  define k where "k = min (f + st) (sf_size r)"
  have f: "0 \<le> f" using assms(3)[OF l(1)] by (simp add: f_def)
  have k: "0 \<le> k" "low \<le> k" "k \<le> sf_size r" using n f unfolding k_def st_def by linarith+
  have eq: "add_final_leaves t raw (Some r) local_file previous matches fresh =
      (if f = 0 \<and> st = n then Inr t
       else if 0 < sf_size r then rbind (percent_of k (sf_size r)) (\<lambda>p. Inr (t\<lparr>size_local := Some k, size_remote := Some (sf_size r), percent_local := Some p\<rparr>))
       else Inr (t\<lparr>size_local := Some k, size_remote := Some (sf_size r)\<rparr>))"
    using l n(1) by (simp add: add_final_leaves_def Let_def or_zero_def flip: f_def st_def k_def)
  show ?thesis
  proof (cases "0 < sf_size r")
    case True
    with percent_of_bounds[OF k(1,3)] show ?thesis using assms(1) k unfolding eq by (auto simp: counts_def)
  next
    case False
    then show ?thesis using assms(1) k unfolding eq by (simp add: counts_def)
  qed
qed

lemma combine_counts:
  assumes r: "tidy r" "pred_option tidy local_file" and w: "low \<le> sf_size r" "snapshot_within (sf_size r) previous"
    and t: "size_remote t = Some total_bytes" "size_local t = Some n" "0 \<le> n" "n \<le> total_bytes" "0 < low \<longrightarrow> 0 < n"
    and low: "floor_of previous (snapshot_identity_matches previous job_id job_type) job_type low"
  shows "\<exists>t'. combine_split_root_transfer_state t (Some r) local_file previous job_id job_type fresh = Inr t' \<and> counts low (sf_size r) t'"
proof -
  let ?m = "snapshot_identity_matches previous job_id job_type"
  have s0: "0 \<le> sf_size r" by (rule tidy_size[OF r(1)])
  have bridge: "bridge_counters t (Some r) previous ?m job_type = t" using t(2) by (cases previous) (simp_all add: bridge_counters_def)
  have c: "counted low (sf_size r) (normalize_subset t (Some r) previous ?m job_type)"
    by (rule counted_subset[OF w(1) s0 t low])
  then obtain x where x: "normalize_subset t (Some r) previous ?m job_type = Inr x" by (cases "normalize_subset t (Some r) previous ?m job_type") (simp_all add: counted_def)
  have final: "0 \<le> trusted_final_leaf_bytes (Some r) l False" if "local_file = Some l" for l
    using final_and_staged_bytes[OF r(1)] r(2) that by simp
  show ?thesis
  proof (cases x)
    case (Return t')
    then show ?thesis using c x bridge by (simp add: combine_split_root_transfer_state_def Let_def counted_def)
  next
    case (Continue t')
    then have "counts low (sf_size r) (keep_floor t' local_file previous ?m job_type)"
      using c x w(2) by (intro keep_floor_counts) (simp_all add: counted_def)
    from add_final_counts[OF this s0 final] show ?thesis
      using Continue x bridge by (simp add: combine_split_root_transfer_state_def Let_def)
  qed
qed

section \<open>Every status of the same job\<close>

text \<open>A status without a denominator or without counters takes other ways through the method; what holds on all of
  them is stated for the counter alone.\<close>

definition reaches :: "int \<Rightarrow> transfer_state \<Rightarrow> bool" where
  "reaches low t \<longleftrightarrow> opt_holds (\<lambda>n. low \<le> n) (size_local t)"

fun normalized_state :: "normalized \<Rightarrow> transfer_state" where
  "normalized_state (Return t) = t"
| "normalized_state (Continue t) = t"

text \<open>A reset: no bytes of the subset the status speaks of, or a counter of zero when it names no subset.\<close>

definition is_reset :: "system_file \<Rightarrow> transfer_state \<Rightarrow> bool" where
  "is_reset r t =
     (case size_local t of
        None \<Rightarrow> False
      | Some n \<Rightarrow> (case size_remote t of None \<Rightarrow> n = 0 | Some total_bytes \<Rightarrow> min n (min total_bytes (sf_size r)) \<le> 0))"

lemma whole_root_clamp: "0 \<le> w \<Longrightarrow> \<exists>t'. whole_root (clamp w m) w t = Inr t' \<and> size_local t' = Some (clamp w m)"
  using clamp_range[of w m] whole_root_runs[of "clamp w m" w] by metis

lemma whole_root_continues: "0 \<le> w \<Longrightarrow> \<exists>x. rbind (whole_root (clamp w m) w t) (\<lambda>t. Inr (c t)) = Inr x"
  using whole_root_clamp[of w m t] by auto

lemma normalize_counters_runs:
  assumes "0 \<le> w"
  shows "\<exists>x. normalize_counters t w total_bytes remaining part_bytes previous matches job_type = Inr x"
  using whole_root_continues[OF assms] by (auto simp: normalize_counters_def Let_def)

lemma normalize_counters_floor:
  assumes "0 \<le> w" "job_type \<noteq> Some MIRROR" "previous_size previous matches = Some m" "part_bytes \<noteq> 0"
    "normalize_counters t w total_bytes remaining part_bytes previous matches job_type = Inr x"
  shows "reaches (min m w) (normalized_state x)"
proof -
  have c: "min m w \<le> clamp w n" if "m \<le> n" for n using assms(1) that by (auto simp: clamp_def)
  have r: "reaches (min m w) t'" if "whole_root (clamp w n) w t = Inr t'" "m \<le> n" for n t'
    using whole_root_clamp[OF assms(1), of n t] that c by (auto simp: reaches_def)
  show ?thesis
    using assms(2-5) c unfolding normalize_counters_def Let_def
    by (auto simp: rbind_Inr_iff with_floor_def intro: r split: if_splits) (simp_all add: reaches_def)
qed

lemma checkpoint_nonneg: "0 \<le> current \<Longrightarrow> 0 \<le> checkpoint_bytes raw current final_bytes previous matches fresh"
  by (auto simp: checkpoint_bytes_def Let_def max_def split: option.split)

lemma keep_floor_reaches: "reaches low t \<Longrightarrow> reaches low (keep_floor t local_file previous matches job_type)"
  by (cases "size_local t"; cases previous) (auto simp: reaches_def keep_floor_def lift_to_def split: option.split)

lemma add_final_runs:
  assumes "0 \<le> sf_size r" "\<And>l. local_file = Some l \<Longrightarrow> 0 \<le> trusted_final_leaf_bytes (Some r) l False \<and> 0 \<le> staged_remote_leaf_bytes r (Some l)"
  shows "\<exists>t'. add_final_leaves t raw (Some r) local_file previous matches fresh = Inr t' \<and>
    (\<forall>low. low \<le> sf_size r \<and> reaches low t \<longrightarrow> reaches low t')"
proof (cases "\<exists>l. local_file = Some l \<and> has_staging_descendant l")
  case False
  then show ?thesis by (auto simp: add_final_leaves_def split: option.split)
next
  case True
  then obtain l where l: "local_file = Some l" "has_staging_descendant l" by blast
  define f where "f = trusted_final_leaf_bytes (Some r) l False"
  define cur where "cur = (if size_local t = None then 0 else staged_remote_leaf_bytes r (Some l))"
  define st where "st = max (or_zero (size_local t)) (checkpoint_bytes raw cur f previous matches fresh)"
  define k where "k = min (f + st) (sf_size r)"
  have f: "0 \<le> f" and cur: "0 \<le> cur" using assms(2)[OF l(1)] by (simp_all add: f_def cur_def)
  have st: "0 \<le> st" using checkpoint_nonneg[OF cur] by (simp add: st_def le_max_iff_disj)
  then have k: "0 \<le> k" "k \<le> sf_size r" using f assms(1) by (simp_all add: k_def)
  have low: "low \<le> k" if "low \<le> sf_size r" "reaches low t" for low
    using that f by (cases "size_local t") (auto simp: reaches_def k_def st_def or_zero_def)
  have eq: "add_final_leaves t raw (Some r) local_file previous matches fresh =
      (if f = 0 \<and> st = or_zero (size_local t) then Inr t
       else if 0 < sf_size r then rbind (percent_of k (sf_size r)) (\<lambda>p. Inr (t\<lparr>size_local := Some k, size_remote := Some (sf_size r), percent_local := Some p\<rparr>))
       else Inr (t\<lparr>size_local := Some k, size_remote := Some (sf_size r)\<rparr>))"
    using l unfolding add_final_leaves_def k_def st_def cur_def f_def by (simp only: option.case Let_def not_True_eq_False if_False)
  show ?thesis
  proof (cases "0 < sf_size r")
    case True
    with percent_of_bounds[OF k] low show ?thesis unfolding eq by (auto simp: reaches_def)
  next
    case False
    with low show ?thesis unfolding eq by (auto simp: reaches_def)
  qed
qed

text \<open>Before the leaves are added, the counter of a status that reports progress of the same job is not below
  the last one.\<close>

lemma floor_before_leaves:
  fixes t :: transfer_state and job_type :: "job_type option"
  assumes "0 \<le> sf_size r" "job_type \<noteq> Some MIRROR" "previous = Some s" "sn_size s = Some m" "\<not> is_reset r t"
    "size_local t \<noteq> None \<or> percent_local t \<noteq> None \<or> job_type = Some PGET"
    "normalize_subset (bridge_counters t (Some r) previous True job_type) (Some r) previous True job_type = Inr x"
  shows "case x of Return t' \<Rightarrow> reaches (min m (sf_size r)) t'
    | Continue t' \<Rightarrow> reaches (min m (sf_size r)) (keep_floor t' local_file previous True job_type)"
proof -
  let ?w = "sf_size r"
  have p: "previous_size previous True = Some m" using assms(3,4) by (simp add: previous_size_def)
  have both: ?thesis if "reaches (min m ?w) (normalized_state x)"
    using that keep_floor_reaches by (cases x) auto
  have lift: ?thesis if "x = Continue t" "size_local t \<noteq> Some 0" "size_local t \<noteq> None \<or> percent_local t \<noteq> None"
    using that assms(2-4) by (cases "size_local t") (auto simp: keep_floor_def reaches_def lift_to_def)
  consider (bridge) "job_type = Some PGET" "size_local t = None" "percent_local t = None"
    | (percent) "size_local t = None" "percent_local t \<noteq> None" | (bare) n where "size_local t = Some n" "size_remote t = None"
    | (counters) n total_bytes where "size_local t = Some n" "size_remote t = Some total_bytes"
    using assms(6) by (cases "size_local t"; cases "size_remote t") auto
  then show ?thesis
  proof cases
    case bridge
    then have n: "normalize_counters (t\<lparr>size_local := Some m, size_remote := Some ?w, percent_local := sn_percent s\<rparr>) ?w ?w ?w (max 0 (min m ?w)) previous True job_type = Inr x"
      using assms(1,3,4,7) by (simp add: bridge_counters_def normalize_subset_def Let_def)
    show ?thesis
    proof (cases "max 0 (min m ?w) = 0")
      case True
      then show ?thesis using n by (intro both) (auto simp: normalize_counters_def reaches_def)
    next
      case False
      show ?thesis by (rule both, rule normalize_counters_floor[OF assms(1,2) p False n])
    qed
  next
    case percent
    then show ?thesis using assms(3,7) by (intro lift) (auto simp: bridge_counters_def normalize_subset_def split: option.splits)
  next
    case (bare n)
    then show ?thesis using assms(3,5,7) by (intro lift) (auto simp: bridge_counters_def normalize_subset_def is_reset_def)
  next
    case (counters n total_bytes)
    have "max 0 (min n (max 0 (min total_bytes ?w))) \<noteq> 0" using assms(5) counters by (auto simp: is_reset_def max_def min_def split: if_splits)
    then show ?thesis using assms(3,7) counters
      by (intro both normalize_counters_floor[OF assms(1,2) p]) (auto simp: bridge_counters_def normalize_subset_def Let_def)
  qed
qed

lemma normalize_subset_runs: "0 \<le> sf_size r \<Longrightarrow> \<exists>x. normalize_subset t (Some r) previous matches job_type = Inr x"
  using normalize_counters_runs by (auto simp: normalize_subset_def Let_def split: option.split)

lemma combine_reaches:
  assumes "tidy r" "pred_option tidy local_file"
  shows "\<exists>t'. combine_split_root_transfer_state t (Some r) local_file previous job_id job_type fresh = Inr t' \<and>
    (\<forall>s m. previous = Some s \<and> snapshot_identity_matches previous job_id job_type \<and> job_type \<noteq> Some MIRROR \<and> sn_size s = Some m \<and>
       (size_local t \<noteq> None \<or> percent_local t \<noteq> None \<or> job_type = Some PGET) \<and> \<not> is_reset r t \<longrightarrow> reaches (min m (sf_size r)) t')"
proof -
  let ?m = "snapshot_identity_matches previous job_id job_type"
  have s0: "0 \<le> sf_size r" by (rule tidy_size[OF assms(1)])
  obtain x where x: "normalize_subset (bridge_counters t (Some r) previous ?m job_type) (Some r) previous ?m job_type = Inr x"
    using normalize_subset_runs[OF s0] by blast
  have leaves: "0 \<le> trusted_final_leaf_bytes (Some r) l False \<and> 0 \<le> staged_remote_leaf_bytes r (Some l)" if "local_file = Some l" for l
    using final_and_staged_bytes[OF assms(1)] assms(2) that by simp
  have low: "case x of Return t' \<Rightarrow> reaches (min m (sf_size r)) t' | Continue t' \<Rightarrow> reaches (min m (sf_size r)) (keep_floor t' local_file previous ?m job_type)"
    if "previous = Some s" "?m" "job_type \<noteq> Some MIRROR" "sn_size s = Some m" "\<not> is_reset r t"
      "size_local t \<noteq> None \<or> percent_local t \<noteq> None \<or> job_type = Some PGET" for s m
    using floor_before_leaves[OF s0 that(3,1,4,5,6), of x local_file] x that(2) by (cases x) simp_all
  show ?thesis
  proof (cases x)
    case (Return t')
    then show ?thesis using x low by (auto simp: combine_split_root_transfer_state_def Let_def)
  next
    case (Continue t')
    obtain t2 where t2: "add_final_leaves (keep_floor t' local_file previous ?m job_type) (size_local t) (Some r) local_file previous ?m fresh = Inr t2"
      "\<forall>low. low \<le> sf_size r \<and> reaches low (keep_floor t' local_file previous ?m job_type) \<longrightarrow> reaches low t2"
      using add_final_runs[OF s0 leaves] by blast
    have "combine_split_root_transfer_state t (Some r) local_file previous job_id job_type fresh = Inr t2"
      using x Continue t2(1) by (simp add: combine_split_root_transfer_state_def Let_def)
    with low t2(2) Continue show ?thesis by auto
  qed
qed

end
