(* ===== verification/Live_Snapshots.thy ===== *)
theory Live_Snapshots
  imports Transfer_Floor Extract_Dispatch
begin

text \<open>
  \<open>controller/model_builder.py\<close>, part four: what the builder remembers of running and stopped transfers.

  A snapshot is kept under the identity of its file and names the root it belongs to. A root has two
  spellings while statuses and scans are being reconciled, the scoped one and the plain name, so a
  lookup that misses may find a single snapshot under an alias and moves it to the canonical key.
  \<open>json.loads\<close>, which takes an identity apart, is the argument \<open>loads\<close> (\<open>None\<close> where it raises
  \<open>ValueError\<close>); the clock is the argument \<open>now\<close>.

  \<open>builder\<close> holds the attributes of \<open>ModelBuilder\<close> that the modelled methods read or write.
\<close>

section \<open>State\<close>

type_synonym snapshots = "(string, live_snapshot) dict"

type_synonym json_loads = "string \<Rightarrow> pyval option"

record validate_status =
  vs_file_id :: string
  vs_state :: file_state
  vs_progress :: "int option"
  vs_error :: "string option"
  vs_corrupt_chunks :: "int list option"

record builder =
  local_files_by_pair :: "(string option, (string, system_file) dict) dict"
  remote_files_by_pair :: "(string option, (string, system_file) dict) dict"
  active_files :: "(string, system_file) dict"
  lftp_statuses :: "(string, job_status) dict"
  recent_live :: snapshots
  display_floors :: "(string, int \<times> int \<times> int \<times> int \<times> int) dict"
  revoked_identities :: "(string, int \<times> string) dict"
  retained_stopped :: snapshots
  b_downloaded_files :: "string set option"
  b_extract_statuses :: "(string, extract_status) dict"
  b_extracted_files :: "string set"
  b_stopped_files :: "string set"
  b_validation_statuses :: "(string, validate_status) dict"
  move_failed_files :: "string set"
  final_move_succeeded_files :: "string set"
  unknown_local_pairs :: "string option set"
  suppressed_extracted_names :: "string set"

definition new_builder :: builder where
  "new_builder = \<lparr>local_files_by_pair = [], remote_files_by_pair = [], active_files = [], lftp_statuses = [], recent_live = [],
     display_floors = [], revoked_identities = [], retained_stopped = [], b_downloaded_files = None, b_extract_statuses = [],
     b_extracted_files = {}, b_stopped_files = {}, b_validation_statuses = [], move_failed_files = {},
     final_move_succeeded_files = {}, unknown_local_pairs = {}, suppressed_extracted_names = {}\<rparr>"

section \<open>Identities of roots\<close>

definition file_id_path_pair_id :: "json_loads \<Rightarrow> string \<Rightarrow> string option" where
  "file_id_path_pair_id loads i = (case loads i of Some (PList [PStr p, PStr _]) \<Rightarrow> Some p | _ \<Rightarrow> None)"

definition completion_file_path :: "json_loads \<Rightarrow> string \<Rightarrow> string \<times> string option" where
  "completion_file_path loads i = (case loads i of Some (PList [PStr p, PStr n]) \<Rightarrow> (n, Some p) | _ \<Rightarrow> (i, None))"

definition bucket_files :: "system_file list \<Rightarrow> (string option, (string, system_file) dict) dict" where
  "bucket_files files = foldl (\<lambda>buckets f.
     let pair = sa_path_pair_id (sattrs f);
         bucket = (case dict_get buckets pair of None \<Rightarrow> [] | Some d \<Rightarrow> d)
     in dict_set pair (dict_set (build_file_id (sf_name f) pair) f bucket) buckets) [] files"

definition flatten_buckets :: "(string option, (string, system_file) dict) dict \<Rightarrow> (string, system_file) dict" where
  "flatten_buckets buckets = foldl (\<lambda>d (i, f). dict_set i f d) [] (concat (map snd buckets))"

definition from_bucket :: "json_loads \<Rightarrow> (string option, (string, system_file) dict) dict \<Rightarrow> string \<Rightarrow> system_file option" where
  "from_bucket loads buckets i =
     dict_get (case dict_get buckets (file_id_path_pair_id loads i) of None \<Rightarrow> [] | Some d \<Rightarrow> d) i"

definition local_file_of :: "json_loads \<Rightarrow> builder \<Rightarrow> string \<Rightarrow> system_file option" where
  "local_file_of loads b = from_bucket loads (local_files_by_pair b)"

definition remote_file_of :: "json_loads \<Rightarrow> builder \<Rightarrow> string \<Rightarrow> system_file option" where
  "remote_file_of loads b = from_bucket loads (remote_files_by_pair b)"

definition get_remote_resume_source_identity :: "json_loads \<Rightarrow> builder \<Rightarrow> string \<Rightarrow> (int \<times> int) option" where
  "get_remote_resume_source_identity loads b i =
     (case remote_file_of loads b i of
        None \<Rightarrow> None
      | Some r \<Rightarrow>
          if sf_is_dir r then None
          else case sa_mtime_ns (sattrs r) of None \<Rightarrow> None | Some t \<Rightarrow> Some (sf_size r, t div 1000000000))"

section \<open>Explicitly stopped files\<close>

definition first_pair :: "system_file option \<Rightarrow> system_file option \<Rightarrow> job_status option \<Rightarrow> string option" where
  "first_pair remote local_file status =
     (case Option.bind remote (\<lambda>r. sa_path_pair_id (sattrs r)) of
        Some p \<Rightarrow> Some p
      | None \<Rightarrow>
          (case Option.bind local_file (\<lambda>l. sa_path_pair_id (sattrs l)) of
             Some p \<Rightarrow> Some p
           | None \<Rightarrow> Option.bind status js_path_pair_id))"

definition first_name :: "system_file option \<Rightarrow> system_file option \<Rightarrow> job_status option \<Rightarrow> string option" where
  "first_name remote local_file status =
     (case status of
        Some j \<Rightarrow> Some (js_name j)
      | None \<Rightarrow> (case remote of Some r \<Rightarrow> Some (sf_name r) | None \<Rightarrow> map_option sf_name local_file))"

definition candidate_stopped_file_ids ::
  "string option \<Rightarrow> system_file option \<Rightarrow> system_file option \<Rightarrow> job_status option \<Rightarrow> string set" where
  "candidate_stopped_file_ids i remote local_file status =
     set_option i \<union>
     (case (first_pair remote local_file status, first_name remote local_file status) of
        (Some p, Some n) \<Rightarrow> {build_file_id n (Some p)}
      | _ \<Rightarrow> {})"

definition is_stopped_file ::
  "json_loads \<Rightarrow> builder \<Rightarrow> string \<Rightarrow> system_file option \<Rightarrow> system_file option \<Rightarrow> job_status option \<Rightarrow> bool" where
  "is_stopped_file loads b i remote local_file status =
     (if candidate_stopped_file_ids (Some i) remote local_file status \<inter> b_stopped_files b \<noteq> {} then True
      else
        (let r = (case remote of None \<Rightarrow> remote_file_of loads b i | Some _ \<Rightarrow> remote);
             l = (case local_file of None \<Rightarrow> local_file_of loads b i | Some _ \<Rightarrow> local_file);
             st = (if r = None \<and> l = None \<and> status = None then dict_get (lftp_statuses b) i else status)
         in if opt_holds (\<lambda>j. js_name j \<in> b_stopped_files b) st then True
            else opt_holds (\<lambda>f. sf_name f \<in> b_stopped_files b) r \<or> opt_holds (\<lambda>f. sf_name f \<in> b_stopped_files b) l))"

section \<open>Finding a snapshot\<close>

text \<open>\<open>list(dict.fromkeys(xs))\<close>: the first occurrence of every element.\<close>

definition from_keys :: "'a list \<Rightarrow> 'a list" where
  "from_keys xs = rev (remdups (rev xs))"

definition candidate_snapshot_root_aliases :: "json_loads \<Rightarrow> string option \<Rightarrow> string list" where
  "candidate_snapshot_root_aliases loads root_id =
     (case root_id of
        None \<Rightarrow> []
      | Some r \<Rightarrow> from_keys (r # (case loads r of Some (PList [_, PStr n]) \<Rightarrow> [n] | _ \<Rightarrow> [])))"

definition get_transfer_snapshot_alias_keys :: "json_loads \<Rightarrow> snapshots \<Rightarrow> string option \<Rightarrow> string set \<Rightarrow> string list" where
  "get_transfer_snapshot_alias_keys loads store root_id excluded =
     (let aliases = candidate_snapshot_root_aliases loads root_id
      in if aliases = [] then []
         else from_keys (filter (\<lambda>a. a \<notin> excluded \<and> dict_get store a \<noteq> None) aliases @
           map fst (filter (\<lambda>(k, s). k \<notin> excluded \<and> k \<notin> set aliases \<and> sn_root s \<in> set aliases) store)))"

type_synonym found = "string option \<times> live_snapshot option"

definition resolve_transfer_snapshot :: "json_loads \<Rightarrow> snapshots \<Rightarrow> string \<Rightarrow> string option \<Rightarrow> found" where
  "resolve_transfer_snapshot loads store i root_id =
     (case dict_get store i of
        Some s \<Rightarrow> (Some i, Some s)
      | None \<Rightarrow>
          if root_id = None then (None, None)
          else (case get_transfer_snapshot_alias_keys loads store root_id {i} of
                  [k] \<Rightarrow> (Some k, dict_get store k)
                | _ \<Rightarrow> (None, None)))"

definition promote_transfer_snapshot ::
  "snapshots \<Rightarrow> string option \<Rightarrow> string \<Rightarrow> string option \<Rightarrow> snapshots \<times> live_snapshot option" where
  "promote_transfer_snapshot store resolved canonical canonical_root =
     (case resolved of
        None \<Rightarrow> (store, None)
      | Some k \<Rightarrow>
          (case dict_get store k of
             None \<Rightarrow> (store, None)
           | Some s \<Rightarrow>
               (let s' = (case canonical_root of None \<Rightarrow> s | Some r \<Rightarrow> s\<lparr>sn_root := r\<rparr>)
                in if k \<noteq> canonical then (dict_set canonical s' (dict_pop k store), Some s')
                   else (dict_set k s' store, Some s'))))"

definition resolve_and_promote :: "json_loads \<Rightarrow> snapshots \<Rightarrow> string \<Rightarrow> string option \<Rightarrow> snapshots \<times> found" where
  "resolve_and_promote loads store i root_id =
     (let (k, s) = resolve_transfer_snapshot loads store i root_id;
          (store', promoted) = promote_transfer_snapshot store k i root_id
      in case promoted of Some x \<Rightarrow> (store', Some i, Some x) | None \<Rightarrow> (store', k, s))"

definition resolve_retained_stopped_transfer_snapshot ::
  "json_loads \<Rightarrow> string \<Rightarrow> string option \<Rightarrow> builder \<Rightarrow> builder \<times> found" where
  "resolve_retained_stopped_transfer_snapshot loads i root_id b =
     (let (store, x) = resolve_and_promote loads (retained_stopped b) i root_id in (b\<lparr>retained_stopped := store\<rparr>, x))"

definition resolve_recent_live_transfer_snapshot ::
  "json_loads \<Rightarrow> string \<Rightarrow> string option \<Rightarrow> builder \<Rightarrow> builder \<times> found" where
  "resolve_recent_live_transfer_snapshot loads i root_id b =
     (let (store, x) = resolve_and_promote loads (recent_live b) i root_id in (b\<lparr>recent_live := store\<rparr>, x))"

definition is_lifecycle_revoked_status_identity :: "builder \<Rightarrow> string \<Rightarrow> int option \<Rightarrow> string option \<Rightarrow> bool" where
  "is_lifecycle_revoked_status_identity b i job_id job_type =
     (case (dict_get (revoked_identities b) i, job_id, job_type) of
        (Some revoked, Some j, Some ty) \<Rightarrow> revoked = (j, ty)
      | _ \<Rightarrow> False)"

section \<open>Finding the snapshot of a job\<close>

definition with_slashes :: "string \<Rightarrow> string" where
  "with_slashes = map (\<lambda>c. if c = CHR 0x5C then CHR ''/'' else c)"

text \<open>A query fixes the file, the root, the job and its type.\<close>

record job_query =
  q_file :: string
  q_root :: "string option"
  q_job :: int
  q_type :: string

definition or_id :: "string option \<Rightarrow> string \<Rightarrow> string" where
  "or_id root_id i = (case root_id of None \<Rightarrow> i | Some r \<Rightarrow> if r = [] then i else r)"

definition query_pair :: "json_loads \<Rightarrow> job_query \<Rightarrow> string option" where
  "query_pair loads q =
     (case file_id_path_pair_id loads (q_file q) of
        Some p \<Rightarrow> Some p
      | None \<Rightarrow> file_id_path_pair_id loads (or_id (q_root q) []))"

definition query_aliases :: "json_loads \<Rightarrow> job_query \<Rightarrow> string set" where
  "query_aliases loads q =
     set (candidate_snapshot_root_aliases loads (q_root q)) \<union> set (candidate_snapshot_root_aliases loads (Some (q_file q)))"

definition is_nested_root_candidate :: "json_loads \<Rightarrow> job_query \<Rightarrow> string \<Rightarrow> bool" where
  "is_nested_root_candidate loads q key =
     (let requested = fst (completion_file_path loads (q_file q));
          root_path = fst (completion_file_path loads (or_id (q_root q) (q_file q)))
      in requested = root_path \<and>
         startswith (with_slashes (fst (completion_file_path loads key))) (rstrip_char CHR ''/'' (with_slashes root_path) @ ''/''))"

definition is_scoped_candidate :: "json_loads \<Rightarrow> job_query \<Rightarrow> string \<Rightarrow> live_snapshot \<Rightarrow> bool" where
  "is_scoped_candidate loads q key s =
     (let requested = query_pair loads q;
          root_pair = file_id_path_pair_id loads (sn_root s);
          key_pair = file_id_path_pair_id loads key
      in if is_nested_root_candidate loads q key then False
         else if key \<noteq> q_file q \<and> sn_root s \<notin> query_aliases loads q then False
         else if key = q_file q then requested = None \<or> root_pair = None \<or> root_pair = requested
         else if requested = None then root_pair = None \<and> key_pair = None
         else root_pair = requested \<or> key_pair = requested)"

definition is_revoked_snapshot :: "builder \<Rightarrow> job_query \<Rightarrow> live_snapshot \<Rightarrow> bool" where
  "is_revoked_snapshot b q s =
     (\<exists>i \<in> {q_file q, sn_root s} \<union> set_option (q_root q). is_lifecycle_revoked_status_identity b i (Some (q_job q)) (Some (q_type q)))"

definition job_candidates :: "json_loads \<Rightarrow> builder \<Rightarrow> job_query \<Rightarrow> snapshots" where
  "job_candidates loads b q =
     filter (\<lambda>(k, s). is_scoped_candidate loads q k s \<and> sn_job_id s = Some (q_job q) \<and> sn_job_type s = Some (q_type q) \<and>
       \<not> is_revoked_snapshot b q s) (recent_live b)"

text \<open>\<open>max\<close> of a list that is not empty: the first of the greatest elements.\<close>

fun first_max :: "('a \<Rightarrow> 'a \<Rightarrow> bool) \<Rightarrow> 'a \<Rightarrow> 'a list \<Rightarrow> 'a" where
  "first_max lt x [] = x"
| "first_max lt x (y # ys) = first_max lt (if lt x y then y else x) ys"

definition progress_key :: "string \<times> live_snapshot \<Rightarrow> int \<times> int" where
  "progress_key c = (case sn_size (snd c) of None \<Rightarrow> - 1 | Some n \<Rightarrow> n, case sn_percent (snd c) of None \<Rightarrow> - 1 | Some p \<Rightarrow> p)"

definition lex_less :: "int \<times> int \<Rightarrow> int \<times> int \<Rightarrow> bool" where
  "lex_less x y = (fst x < fst y \<or> fst x = fst y \<and> snd x < snd y)"

definition updated_max :: "snapshots \<Rightarrow> int" where
  "updated_max cs = (case map (\<lambda>c. sn_updated (snd c)) cs of [] \<Rightarrow> 0 | t # ts \<Rightarrow> first_max (<) t ts)"

definition newer :: "string \<Rightarrow> string \<times> live_snapshot \<Rightarrow> string \<times> live_snapshot \<Rightarrow> bool" where
  "newer i x y = lex_less (sn_updated (snd x), of_bool (fst x = i)) (sn_updated (snd y), of_bool (fst y = i))"

definition latest_zero :: "string \<Rightarrow> snapshots \<Rightarrow> (string \<times> live_snapshot) option" where
  "latest_zero i zero =
     (case zero of [] \<Rightarrow> None | c # cs \<Rightarrow> Some (first_max (newer i) c cs))"

definition best_candidates :: "snapshots \<Rightarrow> snapshots" where
  "best_candidates nonzero =
     (case map progress_key nonzero of
        [] \<Rightarrow> []
      | k # ks \<Rightarrow>
          (let best = filter (\<lambda>c. progress_key c = first_max lex_less k ks) nonzero
           in filter (\<lambda>c. sn_updated (snd c) = updated_max best) best))"

text \<open>A single best candidate is taken; among several only the one under the file itself.\<close>

definition only_or_exact :: "string \<Rightarrow> snapshots \<Rightarrow> (string \<times> live_snapshot) option" where
  "only_or_exact i best =
     (if length best = 1 then Some (hd best)
      else (let exact = filter (\<lambda>c. fst c = i) best in if length exact = 1 then Some (hd exact) else None))"

definition select_candidate :: "string \<Rightarrow> snapshots \<Rightarrow> (string \<times> live_snapshot) option" where
  "select_candidate i candidates =
     (let zero = filter (\<lambda>c. sn_size (snd c) = Some 0) candidates;
          nonzero = filter (\<lambda>c. sn_size (snd c) \<noteq> Some 0) candidates
      in if zero \<noteq> [] \<and> (nonzero = [] \<or> updated_max nonzero \<le> updated_max zero) then latest_zero i zero
         else if nonzero \<noteq> [] then only_or_exact i (best_candidates nonzero) else None)"

definition resolve_unscoped :: "json_loads \<Rightarrow> job_query \<Rightarrow> builder \<Rightarrow> builder \<times> found" where
  "resolve_unscoped loads q b =
     (let (k, _) = resolve_transfer_snapshot loads (recent_live b) (q_file q) (q_root q)
      in if opt_holds (is_nested_root_candidate loads q) k then (b, None, None)
         else
           (let (b', k', s) = resolve_recent_live_transfer_snapshot loads (q_file q) (q_root q) b
            in if opt_holds (\<lambda>x. sn_job_id x = Some (q_job q) \<and> sn_job_type x = Some (q_type q) \<and>
                   (is_revoked_snapshot b' q x \<or> \<not> is_scoped_candidate loads q (case k' of None \<Rightarrow> [] | Some k \<Rightarrow> k) x)) s
               then (b', None, None) else (b', k', s)))"

definition resolve_job_query :: "json_loads \<Rightarrow> job_query \<Rightarrow> builder \<Rightarrow> builder \<times> found" where
  "resolve_job_query loads q b =
     (case select_candidate (q_file q) (job_candidates loads b q) of
        Some (k, _) \<Rightarrow>
          (let (store, promoted) = promote_transfer_snapshot (recent_live b) (Some k) (q_file q)
                 (if query_pair loads q \<noteq> None then Some (q_file q) else q_root q);
               b' = b\<lparr>recent_live := store\<rparr>
           in case promoted of
                Some x \<Rightarrow> (b', Some (q_file q), Some x)
              | None \<Rightarrow> if query_pair loads q \<noteq> None then (b', None, None) else resolve_unscoped loads q b')
      | None \<Rightarrow> if query_pair loads q \<noteq> None then (b, None, None) else resolve_unscoped loads q b)"

definition resolve_recent_live_transfer_snapshot_for_job ::
  "json_loads \<Rightarrow> string \<Rightarrow> string option \<Rightarrow> int option \<Rightarrow> string option \<Rightarrow> builder \<Rightarrow> builder \<times> found" where
  "resolve_recent_live_transfer_snapshot_for_job loads i root_id job_id job_type b =
     (case (job_id, job_type) of
        (Some j, Some ty) \<Rightarrow>
          if ty = [] then resolve_recent_live_transfer_snapshot loads i root_id b
          else resolve_job_query loads \<lparr>q_file = i, q_root = root_id, q_job = j, q_type = ty\<rparr> b
      | _ \<Rightarrow> resolve_recent_live_transfer_snapshot loads i root_id b)"

definition resolve_transfer_checkpoint_snapshot ::
  "json_loads \<Rightarrow> string \<Rightarrow> string \<Rightarrow> int option \<Rightarrow> string option \<Rightarrow> int option \<Rightarrow> builder \<Rightarrow> builder \<times> found" where
  "resolve_transfer_checkpoint_snapshot loads i root_id job_id job_type raw b =
     (let (b', k, s) = resolve_recent_live_transfer_snapshot_for_job loads i (Some root_id) job_id job_type b
      in if s = None \<and> raw = Some 0 then resolve_retained_stopped_transfer_snapshot loads i (Some root_id) b' else (b', k, s))"

section \<open>Storing and evicting\<close>

definition snapshot_of ::
  "string \<Rightarrow> transfer_state \<Rightarrow> int option \<Rightarrow> string option \<Rightarrow> int option \<Rightarrow> int option \<Rightarrow> int \<Rightarrow> live_snapshot" where
  "snapshot_of root_id t job_id job_type sub_local sub_remote now =
     \<lparr>sn_root = root_id, sn_size = size_local t, sn_percent = percent_local t, sn_speed = ts_speed t, sn_eta = ts_eta t,
      sn_job_id = job_id, sn_job_type = job_type, sn_subset = sub_local, sn_subset_remote = sub_remote, sn_updated = now\<rparr>"

definition promote_recent_live_pget_snapshot_to_display_floor ::
  "json_loads \<Rightarrow> string \<Rightarrow> string \<Rightarrow> live_snapshot \<Rightarrow> transfer_state option \<Rightarrow> builder \<Rightarrow> builder result" where
  "promote_recent_live_pget_snapshot_to_display_floor loads i root_id s raw b =
     (let status = dict_get (lftp_statuses b) root_id;
          remote = remote_file_of loads b i;
          local_file = (case dict_get (active_files b) root_id of Some f \<Rightarrow> Some f | None \<Rightarrow> local_file_of loads b i);
          pget = opt_holds (\<lambda>j. js_state j = JOB_RUNNING \<and> js_type j = PGET) status
      in if pget \<and> opt_holds (\<lambda>t. size_local t = Some 0) raw then Inr (b\<lparr>display_floors := dict_pop i (display_floors b)\<rparr>)
         else case (remote, raw) of
           (Some r, Some t) \<Rightarrow>
             (case (size_local t, size_remote t, sa_mtime_ns (sattrs r), sn_size s) of
                (Some n, Some total_bytes, Some mtime, Some credited) \<Rightarrow>
                  if pget \<and> \<not> sf_is_dir r \<and> \<not> is_stopped_file loads b i remote local_file status \<and>
                     opt_holds sf_status_sidecar_ready local_file \<and> 0 < n \<and> n \<le> total_bytes \<and> total_bytes \<le> sf_size r \<and>
                     0 < credited \<and> credited < sf_size r
                  then rbind (percent_of credited (sf_size r)) (\<lambda>p.
                    Inr (b\<lparr>display_floors := dict_set i (credited, min 99 p, sf_size r, mtime div 1000000000, total_bytes) (display_floors b)\<rparr>))
                  else Inr b
              | _ \<Rightarrow> Inr b)
         | _ \<Rightarrow> Inr b)"

definition merged_subset :: "int option \<Rightarrow> live_snapshot option \<Rightarrow> int option \<Rightarrow> string option \<Rightarrow> int option" where
  "merged_subset subset_local previous job_id job_type =
     (case (subset_local, previous) of
        (Some n, Some s) \<Rightarrow>
          (if sn_job_id s = job_id \<and> sn_job_type s = job_type
           then (case sn_subset s of None \<Rightarrow> Some n | Some m \<Rightarrow> Some (max n m)) else Some n)
      | _ \<Rightarrow> subset_local)"

definition store_recent_live_transfer_snapshot ::
  "json_loads \<Rightarrow> int \<Rightarrow> string \<Rightarrow> string \<Rightarrow> transfer_state \<Rightarrow> transfer_state option \<Rightarrow> int option \<Rightarrow> string option \<Rightarrow> bool \<Rightarrow> bool \<Rightarrow> builder \<Rightarrow> builder result" where
  "store_recent_live_transfer_snapshot loads now i root_id t raw job_id job_type merge_floor resolve_alias b =
     (let raw_local = Option.bind raw size_local;
          (b1, sub_local) =
            (if merge_floor \<and> raw_local \<noteq> None \<and> raw_local \<noteq> Some 0
             then if resolve_alias
                  then (let (b', _, previous) = resolve_recent_live_transfer_snapshot loads i (Some root_id) b
                        in (b', merged_subset raw_local previous job_id job_type))
                  else (b, merged_subset raw_local (dict_get (recent_live b) i) job_id job_type)
             else (b, raw_local))
      in if is_lifecycle_revoked_status_identity b1 root_id job_id job_type then Inr b1
         else if size_local t = None then Inr b1
         else (let s = snapshot_of root_id t job_id job_type sub_local (Option.bind raw size_remote) now
               in promote_recent_live_pget_snapshot_to_display_floor loads i root_id s raw (b1\<lparr>recent_live := dict_set i s (recent_live b1)\<rparr>)))"

definition store_retained_stopped_transfer_snapshot ::
  "int \<Rightarrow> string \<Rightarrow> string \<Rightarrow> transfer_state \<Rightarrow> transfer_state option \<Rightarrow> int option \<Rightarrow> string option \<Rightarrow> builder \<Rightarrow> builder" where
  "store_retained_stopped_transfer_snapshot now i root_id t raw job_id job_type b =
     (if is_lifecycle_revoked_status_identity b root_id job_id job_type then b
      else if size_local t = None then b
      else b\<lparr>retained_stopped := dict_set i
        (snapshot_of root_id t job_id job_type (Option.bind raw size_local) (Option.bind raw size_remote) now) (retained_stopped b)\<rparr>)"

definition evict_retained_stopped_transfer_snapshots :: "string \<Rightarrow> builder \<Rightarrow> builder" where
  "evict_retained_stopped_transfer_snapshots i b = b\<lparr>retained_stopped := dict_pop i (retained_stopped b)\<rparr>"

definition pop_found :: "string option \<Rightarrow> snapshots \<Rightarrow> snapshots" where
  "pop_found k store = (case k of None \<Rightarrow> store | Some k \<Rightarrow> dict_pop k store)"

definition evict_transfer_completion_snapshots :: "json_loads \<Rightarrow> string \<Rightarrow> string option \<Rightarrow> builder \<Rightarrow> builder" where
  "evict_transfer_completion_snapshots loads i root_id b =
     (let (b1, k, _) = resolve_recent_live_transfer_snapshot loads i root_id b;
          b2 = b1\<lparr>recent_live := pop_found k (recent_live b1)\<rparr>;
          (b3, k', _) = resolve_retained_stopped_transfer_snapshot loads i root_id b2
      in b3\<lparr>retained_stopped := pop_found k' (retained_stopped b3)\<rparr>)"

section \<open>The calls keep the stores well formed\<close>

text \<open>One call of the builder on what it remembers; a lookup also changes it, by moving an alias.\<close>

datatype memory_call =
    ResolveRecent string "string option"
  | ResolveRetained string "string option"
  | ResolveForJob string "string option" "int option" "string option"
  | ResolveCheckpoint string string "int option" "string option" "int option"
  | StoreRecent int string string transfer_state "transfer_state option" "int option" "string option" bool bool
  | StoreRetained int string string transfer_state "transfer_state option" "int option" "string option"
  | EvictRetained string
  | EvictCompletion string "string option"

fun run_memory_call :: "json_loads \<Rightarrow> memory_call \<Rightarrow> builder \<Rightarrow> builder result" where
  "run_memory_call loads (ResolveRecent i r) b = Inr (fst (resolve_recent_live_transfer_snapshot loads i r b))"
| "run_memory_call loads (ResolveRetained i r) b = Inr (fst (resolve_retained_stopped_transfer_snapshot loads i r b))"
| "run_memory_call loads (ResolveForJob i r j ty) b = Inr (fst (resolve_recent_live_transfer_snapshot_for_job loads i r j ty b))"
| "run_memory_call loads (ResolveCheckpoint i r j ty raw) b = Inr (fst (resolve_transfer_checkpoint_snapshot loads i r j ty raw b))"
| "run_memory_call loads (StoreRecent now i r t raw j ty m a) b = store_recent_live_transfer_snapshot loads now i r t raw j ty m a b"
| "run_memory_call loads (StoreRetained now i r t raw j ty) b = Inr (store_retained_stopped_transfer_snapshot now i r t raw j ty b)"
| "run_memory_call loads (EvictRetained i) b = Inr (evict_retained_stopped_transfer_snapshots i b)"
| "run_memory_call loads (EvictCompletion i r) b = Inr (evict_transfer_completion_snapshots loads i r b)"

fun run_memory_calls :: "json_loads \<Rightarrow> memory_call list \<Rightarrow> builder \<Rightarrow> builder result" where
  "run_memory_calls loads [] b = Inr b"
| "run_memory_calls loads (c # cs) b = rbind (run_memory_call loads c b) (run_memory_calls loads cs)"

definition snapshots_ok :: "snapshots \<Rightarrow> bool" where
  "snapshots_ok store \<longleftrightarrow> dict_ok store \<and> (\<forall>s \<in> snd ` set store. sn_size s \<noteq> None)"

definition floor_ok :: "int \<times> int \<times> int \<times> int \<times> int \<Rightarrow> bool" where
  "floor_ok x = (case x of (credited, percent, whole, mtime, total_bytes) \<Rightarrow>
     0 < credited \<and> credited < whole \<and> 0 \<le> percent \<and> percent \<le> 99 \<and> 0 < total_bytes \<and> total_bytes \<le> whole)"

definition floors_ok :: "(string, int \<times> int \<times> int \<times> int \<times> int) dict \<Rightarrow> bool" where
  "floors_ok floors \<longleftrightarrow> dict_ok floors \<and> (\<forall>x \<in> snd ` set floors. floor_ok x)"

definition memory_ok :: "builder \<Rightarrow> bool" where
  "memory_ok b \<longleftrightarrow> snapshots_ok (recent_live b) \<and> snapshots_ok (retained_stopped b) \<and> floors_ok (display_floors b)"

lemma snd_of_update: "snd ` set (AList.update k v d) \<subseteq> insert v (snd ` set d)"
  by (induction d) auto

lemma snd_of_delete: "snd ` set (AList.delete k d) \<subseteq> snd ` set d"
  by (auto simp: AList.delete_eq)

lemma snapshots_ok_set: "snapshots_ok store \<Longrightarrow> sn_size s \<noteq> None \<Longrightarrow> snapshots_ok (dict_set k s store)"
  using snd_of_update[of k s store] dict_ok_set[of store k s] unfolding snapshots_ok_def by blast

lemma snapshots_ok_pop: "snapshots_ok store \<Longrightarrow> snapshots_ok (dict_pop k store)"
  using snd_of_delete[of k store] dict_ok_pop[of store k] unfolding snapshots_ok_def by blast

lemma snapshots_ok_get: "snapshots_ok store \<Longrightarrow> dict_get store k = Some s \<Longrightarrow> sn_size s \<noteq> None"
  unfolding snapshots_ok_def using map_of_SomeD by force

lemma snapshots_ok_found: "snapshots_ok store \<Longrightarrow> snapshots_ok (pop_found k store)"
  by (simp add: pop_found_def snapshots_ok_pop split: option.split)

lemma promote_ok:
  assumes "snapshots_ok store"
  shows "snapshots_ok (fst (promote_transfer_snapshot store k i r))"
proof (cases "\<exists>key s. k = Some key \<and> dict_get store key = Some s")
  case False
  then show ?thesis using assms by (auto simp: promote_transfer_snapshot_def split: option.split)
next
  case True
  then obtain key s where k: "k = Some key" "dict_get store key = Some s" by blast
  define s' where "s' = (case r of None \<Rightarrow> s | Some x \<Rightarrow> s\<lparr>sn_root := x\<rparr>)"
  have "sn_size s' \<noteq> None" using snapshots_ok_get[OF assms k(2)] by (simp add: s'_def split: option.split)
  then show ?thesis
    using assms k by (simp add: promote_transfer_snapshot_def snapshots_ok_set snapshots_ok_pop flip: s'_def)
qed

lemma resolve_and_promote_ok: "snapshots_ok store \<Longrightarrow> snapshots_ok (fst (resolve_and_promote loads store i r))"
  using promote_ok[of store "fst (resolve_transfer_snapshot loads store i r)" i r]
  by (auto simp: resolve_and_promote_def Let_def split: prod.split option.split)

lemma resolve_recent_ok: "memory_ok b \<Longrightarrow> memory_ok (fst (resolve_recent_live_transfer_snapshot loads i r b))"
  using resolve_and_promote_ok[of "recent_live b" loads i r]
  by (auto simp: memory_ok_def resolve_recent_live_transfer_snapshot_def split: prod.split)

lemma resolve_retained_ok: "memory_ok b \<Longrightarrow> memory_ok (fst (resolve_retained_stopped_transfer_snapshot loads i r b))"
  using resolve_and_promote_ok[of "retained_stopped b" loads i r]
  by (auto simp: memory_ok_def resolve_retained_stopped_transfer_snapshot_def split: prod.split)

lemma resolve_unscoped_ok: "memory_ok b \<Longrightarrow> memory_ok (fst (resolve_unscoped loads q b))"
  using resolve_recent_ok[of b loads "q_file q" "q_root q"]
  by (auto simp: resolve_unscoped_def Let_def split: prod.split)

lemma resolve_job_query_ok:
  assumes "memory_ok b"
  shows "memory_ok (fst (resolve_job_query loads q b))"
proof -
  have p: "memory_ok (b\<lparr>recent_live := store\<rparr>)" if "promote_transfer_snapshot (recent_live b) k i r = (store, x)" for k i r store x
    using assms promote_ok[of "recent_live b" k i r] that by (simp add: memory_ok_def)
  then show ?thesis
    using assms by (auto simp: resolve_job_query_def Let_def resolve_unscoped_ok dest: p split: option.split prod.split)
qed

lemma resolve_for_job_ok: "memory_ok b \<Longrightarrow> memory_ok (fst (resolve_recent_live_transfer_snapshot_for_job loads i r j ty b))"
  by (auto simp: resolve_recent_live_transfer_snapshot_for_job_def resolve_recent_ok resolve_job_query_ok split: option.split)

lemma resolve_checkpoint_ok: "memory_ok b \<Longrightarrow> memory_ok (fst (resolve_transfer_checkpoint_snapshot loads i r j ty raw b))"
  using resolve_for_job_ok[of b loads i "Some r" j ty]
  by (auto simp: resolve_transfer_checkpoint_snapshot_def Let_def resolve_retained_ok split: prod.split)

lemma floors_ok_pop: "floors_ok d \<Longrightarrow> floors_ok (dict_pop k d)"
  using snd_of_delete[of k d] dict_ok_pop[of d k] unfolding floors_ok_def by blast

lemma floors_ok_set: "floors_ok d \<Longrightarrow> floor_ok x \<Longrightarrow> floors_ok (dict_set k x d)"
  using snd_of_update[of k x d] dict_ok_set[of d k x] unfolding floors_ok_def by blast

lemma put_floor_ok:
  assumes "memory_ok b" "0 < c" "c < w" "0 < m" "m \<le> n" "n \<le> w"
  shows "\<exists>b'. rbind (percent_of c w) (\<lambda>p. Inr (b\<lparr>display_floors := dict_set i (c, min 99 p, w, t, n) (display_floors b)\<rparr>)) = Inr b' \<and> memory_ok b'"
proof -
  obtain p where p: "percent_of c w = Inr p" "0 \<le> p" using percent_of_bounds[of c w] assms by auto
  have "memory_ok (b\<lparr>display_floors := dict_set i (c, min 99 p, w, t, n) (display_floors b)\<rparr>)"
    using assms p(2) by (simp add: memory_ok_def floors_ok_set floor_ok_def)
  with p(1) show ?thesis by simp
qed

lemma promote_floor_ok:
  assumes "memory_ok b"
  shows "\<exists>b'. promote_recent_live_pget_snapshot_to_display_floor loads i root_id s raw b = Inr b' \<and> memory_ok b'"
proof -
  have pop: "memory_ok (b\<lparr>display_floors := dict_pop i (display_floors b)\<rparr>)" using assms by (simp add: memory_ok_def floors_ok_pop)
  show ?thesis unfolding promote_recent_live_pget_snapshot_to_display_floor_def Let_def
    using assms pop by (auto simp del: ex_simps intro: put_floor_ok[OF assms] split: option.split)
qed

lemma store_recent_ok:
  assumes "memory_ok b"
  shows "\<exists>b'. store_recent_live_transfer_snapshot loads now i root_id t raw j ty m a b = Inr b' \<and> memory_ok b'"
proof -
  define raw_local where "raw_local = Option.bind raw size_local"
  define x where "x = (if m \<and> raw_local \<noteq> None \<and> raw_local \<noteq> Some 0
     then if a
          then (let (b', _, previous) = resolve_recent_live_transfer_snapshot loads i (Some root_id) b
                in (b', merged_subset raw_local previous j ty))
          else (b, merged_subset raw_local (dict_get (recent_live b) i) j ty)
     else (b, raw_local))"
  obtain b1 sub_local where x1: "x = (b1, sub_local)" by (cases x)
  have b1: "memory_ok b1"
    using x1 assms resolve_recent_ok[OF assms, of loads i "Some root_id"] unfolding x_def by (auto split: if_splits prod.splits)
  define s where "s = snapshot_of root_id t j ty sub_local (Option.bind raw size_remote) now"
  have eq: "store_recent_live_transfer_snapshot loads now i root_id t raw j ty m a b =
    (if is_lifecycle_revoked_status_identity b1 root_id j ty then Inr b1
     else if size_local t = None then Inr b1
     else promote_recent_live_pget_snapshot_to_display_floor loads i root_id s raw (b1\<lparr>recent_live := dict_set i s (recent_live b1)\<rparr>))"
    unfolding store_recent_live_transfer_snapshot_def Let_def raw_local_def[symmetric]
    using x1 by (simp add: x_def[unfolded Let_def] s_def)
  show ?thesis
  proof (cases "size_local t = None")
    case True
    then show ?thesis using b1 by (simp add: eq)
  next
    case False
    then have "memory_ok (b1\<lparr>recent_live := dict_set i s (recent_live b1)\<rparr>)"
      using b1 by (simp add: memory_ok_def s_def snapshot_of_def snapshots_ok_set)
    from promote_floor_ok[OF this, of loads i root_id s raw] show ?thesis using False b1 by (auto simp: eq)
  qed
qed

lemma evict_completion_ok:
  assumes "memory_ok b"
  shows "memory_ok (evict_transfer_completion_snapshots loads i r b)"
proof -
  obtain b1 k x where r1: "resolve_recent_live_transfer_snapshot loads i r b = (b1, k, x)" by (metis prod_cases3)
  have b1: "memory_ok b1" using resolve_recent_ok[OF assms, of loads i r] r1 by simp
  define b2 where "b2 = b1\<lparr>recent_live := pop_found k (recent_live b1)\<rparr>"
  have b2: "memory_ok b2" using b1 by (simp add: memory_ok_def b2_def snapshots_ok_found)
  obtain b3 k' y where r3: "resolve_retained_stopped_transfer_snapshot loads i r b2 = (b3, k', y)" by (metis prod_cases3)
  have "memory_ok b3" using resolve_retained_ok[OF b2, of loads i r] r3 by simp
  then show ?thesis
    using r1 r3 by (simp add: evict_transfer_completion_snapshots_def Let_def memory_ok_def snapshots_ok_found flip: b2_def)
qed

lemma memory_call_ok: "memory_ok b \<Longrightarrow> \<exists>b'. run_memory_call loads c b = Inr b' \<and> memory_ok b'"
  by (cases c) (simp_all add: resolve_recent_ok resolve_retained_ok resolve_for_job_ok resolve_checkpoint_ok store_recent_ok
      evict_completion_ok, auto simp: memory_ok_def store_retained_stopped_transfer_snapshot_def
      evict_retained_stopped_transfer_snapshots_def snapshots_ok_pop snapshot_of_def intro!: snapshots_ok_set)

lemma memory_calls_ok: "memory_ok b \<Longrightarrow> \<exists>b'. run_memory_calls loads cs b = Inr b' \<and> memory_ok b'"
proof (induction cs arbitrary: b)
  case (Cons c cs)
  obtain b1 where "run_memory_call loads c b = Inr b1" "memory_ok b1" using memory_call_ok[OF Cons.prems] by blast
  then show ?case using Cons.IH by simp
qed simp

text \<open>Between two calls any other attribute of the builder may change.\<close>

inductive builder_step :: "json_loads \<Rightarrow> builder \<Rightarrow> builder \<Rightarrow> bool" for loads where
  call: "run_memory_call loads c b = Inr b' \<Longrightarrow> builder_step loads b b'"
| sources: "recent_live b' = recent_live b \<Longrightarrow> retained_stopped b' = retained_stopped b \<Longrightarrow> display_floors b' = display_floors b \<Longrightarrow>
    builder_step loads b b'"

interpretation memory: invariant_system "\<lambda>b. b = new_builder" "builder_step loads" memory_ok
proof unfold_locales
  show "memory_ok b" if "b = new_builder" for b
    using that by (simp add: memory_ok_def snapshots_ok_def floors_ok_def new_builder_def)
  show "memory_ok b'" if "memory_ok b" "builder_step loads b b'" for b b'
    using that(2,1)
  proof cases
    case (call c)
    with memory_call_ok[OF that(1), of loads c] show ?thesis by auto
  qed (simp add: memory_ok_def)
qed

section \<open>The snapshot found for a job\<close>

lemma first_max_mem: "first_max lt x xs \<in> insert x (set xs)"
proof (induction xs arbitrary: x)
  case (Cons y ys)
  then show ?case using Cons[of x] Cons[of y] by auto
qed simp

lemma latest_zero_mem: "latest_zero i zero = Some c \<Longrightarrow> c \<in> set zero"
  using first_max_mem[of "newer i"] by (auto simp: latest_zero_def split: list.splits)

lemma length_one_hd: "length xs = 1 \<Longrightarrow> hd xs \<in> set xs"
  by (cases xs) auto

lemma only_or_exact_mem:
  assumes "only_or_exact i best = Some c"
  shows "c \<in> set best"
proof (cases "length best = 1")
  case True
  then show ?thesis using assms length_one_hd[OF True] by (simp add: only_or_exact_def)
next
  case False
  then have "c \<in> set (filter (\<lambda>c. fst c = i) best)"
    using assms length_one_hd by (auto simp: only_or_exact_def Let_def simp del: set_filter split: if_splits)
  then show ?thesis by simp
qed

lemma best_candidates_mem: "set (best_candidates nonzero) \<subseteq> set nonzero"
  by (auto simp: best_candidates_def Let_def split: list.split)

lemma select_candidate_mem:
  assumes "select_candidate i cs = Some c"
  shows "c \<in> set cs"
proof -
  let ?z = "filter (\<lambda>c. sn_size (snd c) = Some 0) cs" and ?n = "filter (\<lambda>c. sn_size (snd c) \<noteq> Some 0) cs"
  have "latest_zero i ?z = Some c \<or> only_or_exact i (best_candidates ?n) = Some c"
    using assms unfolding select_candidate_def Let_def by (metis option.distinct(1))
  then have "c \<in> set ?z \<or> c \<in> set ?n"
    using latest_zero_mem only_or_exact_mem best_candidates_mem by blast
  then show ?thesis by auto
qed

text \<open>A scoped lookup returns a snapshot of the very job, which was kept under the file itself or belongs
  to the same path pair; it is now kept under the file, and no other snapshot has changed.\<close>

definition found_for_job :: "json_loads \<Rightarrow> job_query \<Rightarrow> builder \<Rightarrow> builder \<Rightarrow> live_snapshot \<Rightarrow> bool" where
  "found_for_job loads q b b' x \<longleftrightarrow>
     (\<exists>key s. dict_get (recent_live b) key = Some s \<and> x = s\<lparr>sn_root := q_file q\<rparr> \<and>
        sn_job_id s = Some (q_job q) \<and> sn_job_type s = Some (q_type q) \<and> \<not> is_revoked_snapshot b q s \<and>
        (if key = q_file q then file_id_path_pair_id loads (sn_root s) \<in> {None, query_pair loads q}
         else query_pair loads q \<in> {file_id_path_pair_id loads (sn_root s), file_id_path_pair_id loads key}) \<and>
        dict_get (recent_live b') = (dict_get (recent_live b))(key := None, q_file q \<mapsto> x))"

lemma scoped_query_spec:
  assumes "dict_ok (recent_live b)" "query_pair loads q = Some p"
  shows "resolve_job_query loads q b = (b, None, None) \<or>
    (\<exists>b' x. resolve_job_query loads q b = (b', Some (q_file q), Some x) \<and> found_for_job loads q b b' x)"
proof (cases "select_candidate (q_file q) (job_candidates loads b q)")
  case None
  then show ?thesis using assms(2) by (simp add: resolve_job_query_def)
next
  case (Some c)
  obtain key s where c: "c = (key, s)" by (cases c)
  have mem: "(key, s) \<in> set (job_candidates loads b q)" using select_candidate_mem[OF Some] c by simp
  then have job: "is_scoped_candidate loads q key s" "sn_job_id s = Some (q_job q)" "sn_job_type s = Some (q_type q)" "\<not> is_revoked_snapshot b q s"
    and get: "dict_get (recent_live b) key = Some s" using assms(1) by (auto simp: job_candidates_def)
  let ?x = "s\<lparr>sn_root := q_file q\<rparr>"
  let ?b = "b\<lparr>recent_live := fst (promote_transfer_snapshot (recent_live b) (Some key) (q_file q) (Some (q_file q)))\<rparr>"
  have r: "resolve_job_query loads q b = (?b, Some (q_file q), Some ?x)"
    using Some c get assms(2) by (simp add: resolve_job_query_def promote_transfer_snapshot_def Let_def)
  have "dict_get (recent_live ?b) = (dict_get (recent_live b))(key := None, q_file q \<mapsto> ?x)"
    using get by (auto simp: promote_transfer_snapshot_def Let_def)
  moreover have "if key = q_file q then file_id_path_pair_id loads (sn_root s) \<in> {None, query_pair loads q}
      else query_pair loads q \<in> {file_id_path_pair_id loads (sn_root s), file_id_path_pair_id loads key}"
    using job(1) assms(2) by (auto simp: is_scoped_candidate_def Let_def split: if_splits)
  ultimately have "found_for_job loads q b ?b ?x" unfolding found_for_job_def using get job by blast
  with r show ?thesis by blast
qed

end
