(* ===== verification/Root_State.thy ===== *)
theory Root_State
  imports Live_Snapshots
begin

text \<open>
  \<open>controller/model_builder.py\<close>, part five: the state a root is published with.

  After a root and its children are filled in, \<open>build_model\<close> estimates its remaining time, decides
  whether it is downloaded (\<open>__check_root_downloaded\<close>), projects local-only leaves into its totals and
  lets the persisted markers and the extraction and validation statuses have the last word
  (\<open>__determine_state\<close>); \<open>settle_root\<close> is that sequence. Traces and log messages are left out. An
  exception leaves the build, so a half-changed file is not kept.
\<close>

section \<open>Parts of a root\<close>

definition put_state :: "file_state \<Rightarrow> model_file \<Rightarrow> model_file" where
  "put_state s = upd (\<lambda>a. a\<lparr>fa_state := s\<rparr>)"

text \<open>\<open>math.ceil\<close> of a \<open>float\<close>.\<close>

definition ceil_float :: "binary64 \<Rightarrow> int" where
  "ceil_float x = (if 0 \<le> exponent x then shifted (mantissa x) (exponent x) else - ((- mantissa x) div shifted 1 (- exponent x)))"

definition estimate_eta :: "model_file \<Rightarrow> model_file result" where
  "estimate_eta f =
     (let a = attrs f in
      case (a_downloading_speed a, fa_remote_size a, a_transferred_size a) of
        (Some v, Some remote, Some transferred) \<Rightarrow>
          if fa_state a = DOWNLOADING \<and> a_eta a = None \<and> 0 < v
          then rbind (true_divide (max (remote - transferred) 0) v) (\<lambda>x. set_eta (PInt (ceil_float x)) f)
          else Inr f
      | _ \<Rightarrow> Inr f)"

text \<open>The two breadth first walks over the children of a root.\<close>

function has_incomplete_remote_files :: "model_file list \<Rightarrow> bool" where
  "has_incomplete_remote_files [] = False"
| "has_incomplete_remote_files (c # frontier) =
     (if a_is_dir (attrs c) then has_incomplete_remote_files (frontier @ kids c)
      else if (case fa_remote_size (attrs c) of
                 None \<Rightarrow> False
               | Some n \<Rightarrow> (case fa_local_size (attrs c) of None \<Rightarrow> True | Some m \<Rightarrow> m < n))
      then True else has_incomplete_remote_files frontier)"
  by pat_completeness auto
termination
  by (relation "measure (size_list size)") (auto intro: less_SucI kids_smaller)

definition has_incomplete_remote_file_children :: "model_file \<Rightarrow> bool" where
  "has_incomplete_remote_file_children f = has_incomplete_remote_files (kids f)"

text \<open>Whether every remote file is downloaded, and whether there is one.\<close>

function scan_downloads :: "model_file list \<Rightarrow> bool \<Rightarrow> bool \<times> bool" where
  "scan_downloads [] seen = (True, seen)"
| "scan_downloads (c # frontier) seen =
     (if \<not> a_is_dir (attrs c) \<and> fa_remote_size (attrs c) \<noteq> None
      then if mf_state c \<noteq> DOWNLOADED then (False, True) else scan_downloads (frontier @ kids c) True
      else scan_downloads (frontier @ kids c) seen)"
  by pat_completeness auto
termination
  by (relation "measure (\<lambda>(fs, seen). size_list size fs)") (auto intro: less_SucI kids_smaller)

definition model_file_matches_persisted_name :: "model_file \<Rightarrow> string set option \<Rightarrow> bool" where
  "model_file_matches_persisted_name f names = opt_holds (\<lambda>s. file_id f \<in> s) names"

section \<open>Is the root downloaded?\<close>

definition mark_complete :: "int option \<Rightarrow> int option \<Rightarrow> model_file \<Rightarrow> model_file result" where
  "mark_complete transferred progress f =
     rbind (set_transferred_size (of_opt_int transferred) (put_state DOWNLOADED f)) (\<lambda>f.
     rbind (set_download_progress (of_opt_int progress) f) (\<lambda>f.
     rbind (set_downloading_speed PNone f) (set_eta PNone)))"

record root_input =
  ri_file_id :: string
  ri_remote :: "system_file option"
  ri_local :: "system_file option"
  ri_status :: "job_status option"
  ri_stopped :: bool
  ri_retained :: "transfer_state option"

definition status_file_id :: "root_input \<Rightarrow> model_file \<Rightarrow> string" where
  "status_file_id x f = (case ri_status x of Some j \<Rightarrow> js_file_id j | None \<Rightarrow> file_id f)"

definition is_staged :: "system_file option \<Rightarrow> bool" where
  "is_staged = opt_holds sf_is_staging"

definition finish_live_download ::
  "json_loads \<Rightarrow> root_input \<Rightarrow> model_file \<Rightarrow> string \<Rightarrow> builder \<Rightarrow> (builder \<times> model_file \<times> string) result" where
  "finish_live_download loads x f source b =
     (if mf_state f = DOWNLOADING \<and> local_file_proves_download_completion (ri_local x) (ri_remote x) \<and>
         effective_local_tree_proves_completion (ri_remote x) (ri_local x)
      then rbind (mark_complete (case ri_remote x of Some r \<Rightarrow> Some (sf_size r) | None \<Rightarrow> fa_local_size (attrs f)) None f) (\<lambda>f'.
        Inr (evict_transfer_completion_snapshots loads (ri_file_id x) (Some (status_file_id x f)) b, f',
             ''suppressed_by_authoritative_local_completion''))
      else Inr (b, f, source))"

definition finish_staged_download ::
  "json_loads \<Rightarrow> root_input \<Rightarrow> model_file \<Rightarrow> string \<Rightarrow> builder \<Rightarrow> (builder \<times> model_file \<times> string) result" where
  "finish_staged_download loads x f source b =
     (case (ri_remote x, ri_local x) of
        (Some r, Some l) \<Rightarrow>
          if mf_state f = DOWNLOADING \<and> ri_status x = None \<and> \<not> ri_stopped x \<and> sf_is_staging l \<and> sf_size r \<le> sf_size l \<and>
             effective_local_tree_proves_completion (ri_remote x) (ri_local x) \<and> \<not> has_incomplete_remote_file_children f
          then
            (let (b', _, snapshot) = resolve_recent_live_transfer_snapshot loads (ri_file_id x) (Some (status_file_id x f)) b
             in if snapshot \<noteq> None
                then rbind (mark_complete (Some (sf_size r)) None f) (\<lambda>f'.
                  Inr (evict_transfer_completion_snapshots loads (ri_file_id x) (Some (status_file_id x f)) b', f',
                       ''suppressed_by_staging_completion_after_live_status_lost''))
                else Inr (b', f, source))
          else Inr (b, f, source)
      | _ \<Rightarrow> Inr (b, f, source))"

definition sizes_reach :: "int option \<Rightarrow> int option \<Rightarrow> bool" where
  "sizes_reach local_size remote_size =
     (case (local_size, remote_size) of (Some m, Some n) \<Rightarrow> n \<le> m | _ \<Rightarrow> False)"

definition settle_default_file :: "root_input \<Rightarrow> builder \<Rightarrow> model_file \<Rightarrow> string \<Rightarrow> (model_file \<times> bool \<times> string) result" where
  "settle_default_file x b f source =
     (let a = attrs f;
          proved = effective_local_tree_proves_completion (ri_remote x) (ri_local x)
      in if \<not> (ri_stopped x \<and> ri_retained x \<noteq> None) \<and> is_authoritative_local_file (ri_local x) \<and> proved \<and>
            sizes_reach (fa_local_size a) (fa_remote_size a)
         then Inr (put_state DOWNLOADED f, False, source)
         else if ri_status x = None \<and> \<not> ri_stopped x \<and> is_staged (ri_local x) \<and> proved \<and> sizes_reach (fa_local_size a) (fa_remote_size a)
         then rbind (mark_complete (fa_remote_size a) None f) (\<lambda>f'. Inr (f', False, ''staging_completion_without_live_status''))
         else if fa_local_size a \<noteq> None \<and> fa_remote_size a = None \<and> is_authoritative_local_file (ri_local x) \<and>
            model_file_matches_persisted_name f (b_downloaded_files b)
         then Inr (put_state DOWNLOADED f, False, source)
         else Inr (f, False, source))"

definition settle_default_dir :: "root_input \<Rightarrow> model_file \<Rightarrow> string \<Rightarrow> (model_file \<times> bool \<times> string) result" where
  "settle_default_dir x f source =
     (case fa_remote_size (attrs f) of
        None \<Rightarrow> Inr (f, False, source)
      | Some n \<Rightarrow>
          (let proved = effective_local_tree_proves_completion (ri_remote x) (ri_local x)
           in if ri_status x = None \<and> \<not> ri_stopped x \<and> is_staged (ri_local x) \<and> proved \<and>
                 opt_holds (\<lambda>l. n \<le> sf_size l) (ri_local x)
              then if \<not> has_incomplete_remote_file_children f
                   then rbind (mark_complete (Some n) None f) (\<lambda>f'. Inr (f', False, ''staging_completion_without_live_status''))
                   else Inr (f, False, source)
              else
                (let (all_downloaded, seen) = scan_downloads (kids f) False;
                     trusted = trees_have_verified_complete_staging_remote_identity (ri_remote x) (ri_local x)
                 in if seen \<and> (all_downloaded \<or> trusted) \<and> proved
                    then Inr (put_state DOWNLOADED f, False, source)
                    else Inr (f, True, source))))"

definition settle_default :: "root_input \<Rightarrow> builder \<Rightarrow> model_file \<Rightarrow> string \<Rightarrow> (model_file \<times> bool \<times> string) result" where
  "settle_default x b f source =
     (if mf_state f \<noteq> DEFAULT then Inr (f, False, source)
      else if a_is_dir (attrs f) then settle_default_dir x f source
      else settle_default_file x b f source)"

definition terminal_counters :: "root_input \<Rightarrow> model_file \<Rightarrow> model_file result" where
  "terminal_counters x f =
     (case ri_remote x of
        Some r \<Rightarrow> if mf_state f = DOWNLOADED \<and> 0 < sf_size r then mark_complete (Some (sf_size r)) (Some 100) f else Inr f
      | None \<Rightarrow> Inr f)"

definition check_root_downloaded ::
  "json_loads \<Rightarrow> root_input \<Rightarrow> model_file \<Rightarrow> string \<Rightarrow> builder \<Rightarrow> (builder \<times> model_file \<times> bool \<times> string) result" where
  "check_root_downloaded loads x f source b =
     rbind (finish_live_download loads x f source b) (\<lambda>(b, f, source).
     rbind (finish_staged_download loads x f source b) (\<lambda>(b, f, source).
     rbind (settle_default x b f source) (\<lambda>(f, incomplete, source).
     rbind (terminal_counters x f) (\<lambda>f. Inr (b, f, incomplete, source)))))"

section \<open>Local-only leaves in the totals\<close>

definition credit_local_only :: "int \<Rightarrow> bool \<Rightarrow> model_file \<Rightarrow> model_file result" where
  "credit_local_only n has_remote f =
     (if has_remote \<and> a_is_dir (attrs f) \<and> a_remote_content (attrs f) \<and> n \<noteq> 0
      then rbind (set_display_size_total (PInt (or_zero (fa_remote_size (attrs f)) + n)) f)
             (\<lambda>f. set_display_transferred_size (PInt (or_zero (a_transferred_size (attrs f)) + n)) f)
      else Inr f)"

definition kids_of :: "system_file option \<Rightarrow> system_file list" where
  "kids_of f = (case f of None \<Rightarrow> [] | Some f \<Rightarrow> skids f)"

fun apply_local_only_union_progress :: "model_file \<Rightarrow> system_file option \<Rightarrow> system_file option \<Rightarrow> model_file result"
  and union_kids :: "model_file list \<Rightarrow> system_file list \<Rightarrow> system_file list \<Rightarrow> model_file list result" where
  "apply_local_only_union_progress (ModelFile a cs) remote scanned =
     rbind (credit_local_only (case scanned of None \<Rightarrow> 0 | Some l \<Rightarrow> authoritative_final_local_only_size remote l) (remote \<noteq> None) (ModelFile a cs)) (\<lambda>f.
     rbind (union_kids cs (kids_of remote) (kids_of scanned)) (\<lambda>cs. Inr (ModelFile (attrs f) cs)))"
| "union_kids [] remotes locals = Inr []"
| "union_kids (c # cs) remotes locals =
     rbind (case (kid remotes (mf_name c), kid locals (mf_name c)) of
              (Some r, Some l) \<Rightarrow>
                if a_is_dir (attrs c) \<and> sf_is_dir r = sf_is_dir l
                then apply_local_only_union_progress c (Some r) (Some l) else Inr c
            | _ \<Rightarrow> Inr c) (\<lambda>c'.
     rbind (union_kids cs remotes locals) (\<lambda>cs'. Inr (c' # cs')))"

section \<open>Markers and other statuses\<close>

definition check_persist_authority :: "builder \<Rightarrow> model_file \<Rightarrow> model_file" where
  "check_persist_authority b f =
     (if b_downloaded_files b = None then f
      else if fa_path_pair_id (attrs f) \<in> unknown_local_pairs b then f
      else if mf_state f = DEFAULT \<and> fa_local_size (attrs f) = None \<and> model_file_matches_persisted_name f (b_downloaded_files b)
      then put_state DELETED f else f)"

definition check_extracting :: "builder \<Rightarrow> model_file \<Rightarrow> model_file result" where
  "check_extracting b f =
     (case dict_get (b_extract_statuses b) (file_id f) of
        None \<Rightarrow> Inr f
      | Some st \<Rightarrow>
          if a_is_dir (attrs f) \<noteq> xs_is_dir st then Inl (AppError ''ModelError'' ''Mismatch in is_dir between file and extract status'')
          else if mf_state f \<in> {DEFAULT, DOWNLOADED} \<and> fa_local_size (attrs f) \<noteq> None
          then Inr (put_state EXTRACTING f) else Inr f)"

definition check_extracted :: "builder \<Rightarrow> system_file option \<Rightarrow> model_file \<Rightarrow> model_file" where
  "check_extracted b local_file f =
     (if model_file_matches_persisted_name f (Some (b_extracted_files b)) \<and> mf_state f = DOWNLOADED \<and> is_authoritative_local_file local_file \<and>
         (file_id f \<in> b_extracted_files b \<or> mf_name f \<notin> suppressed_extracted_names b)
      then put_state EXTRACTED f else f)"

definition check_validating :: "builder \<Rightarrow> model_file \<Rightarrow> model_file result" where
  "check_validating b f =
     (case dict_get (b_validation_statuses b) (file_id f) of
        None \<Rightarrow> Inr f
      | Some v \<Rightarrow>
          if mf_state f \<in> {DEFAULT, DOWNLOADED, EXTRACTED, VALIDATING, VALIDATED, CORRUPT} \<and>
             fa_local_size (attrs f) \<noteq> None \<and> fa_remote_size (attrs f) \<noteq> None
          then rbind (set_validation_progress (of_opt_int (vs_progress v)) (put_state (vs_state v) f)) (\<lambda>f.
            rbind (set_validation_error (of_opt_str (vs_error v)) f)
              (set_corrupt_chunks (of_opt_ints (vs_corrupt_chunks v))))
          else Inr f)"

definition determine_state :: "builder \<Rightarrow> model_file \<Rightarrow> system_file option \<Rightarrow> model_file result" where
  "determine_state b f local_file =
     rbind (set_final_move_succeeded (PBool (file_id f \<in> final_move_succeeded_files b)) f) (\<lambda>f.
     rbind (check_extracting b (check_persist_authority b f)) (\<lambda>f.
     rbind (check_validating b (check_extracted b local_file f)) (\<lambda>f.
       Inr (if file_id f \<in> move_failed_files b then put_state MOVE_FAILED f else f))))"

definition settle_root ::
  "json_loads \<Rightarrow> root_input \<Rightarrow> model_file \<Rightarrow> string \<Rightarrow> builder \<Rightarrow> (builder \<times> model_file \<times> string) result" where
  "settle_root loads x f source b =
     rbind (estimate_eta f) (\<lambda>f.
     rbind (check_root_downloaded loads x f source b) (\<lambda>(b, f, _, source).
     rbind (apply_local_only_union_progress f (ri_remote x) (local_file_of loads b (ri_file_id x))) (\<lambda>f.
     rbind (determine_state b f (ri_local x)) (\<lambda>f. Inr (b, f, source)))))"

section \<open>What a root keeps\<close>

definition same_root :: "model_file \<Rightarrow> model_file \<Rightarrow> bool" where
  "same_root f g \<longleftrightarrow> file_id g = file_id f \<and> mf_name g = mf_name f \<and> a_is_dir (attrs g) = a_is_dir (attrs f) \<and>
     fa_local_size (attrs g) = fa_local_size (attrs f) \<and> fa_remote_size (attrs g) = fa_remote_size (attrs f) \<and>
     fa_path_pair_id (attrs g) = fa_path_pair_id (attrs f)"

lemma same_root_refl [simp]: "same_root f f"
  by (simp add: same_root_def)

lemma same_root_trans: "same_root f g \<Longrightarrow> same_root g h \<Longrightarrow> same_root f h"
  by (simp add: same_root_def)

lemma same_root_state [simp]: "same_root f (put_state s f)" "mf_state (put_state s f) = s" "kids (put_state s f) = kids f"
  by (simp_all add: same_root_def put_state_def file_id_def full_path_def split: option.split)

lemma same_root_runtime [simp]: "same_root f (upd (set_runtime k v d) f)"
  by (simp add: same_root_def file_id_def full_path_def split: option.split)

lemma same_root_kids [simp]: "same_root (ModelFile a cs) (ModelFile a ds)"
  by (simp add: same_root_def file_id_def full_path_def split: option.split)

lemma set_ranged_frame:
  assumes "set_ranged err ok key v f = Inr g"
  shows "same_root f g \<and> mf_state g = mf_state f \<and> kids g = kids f"
  using assms by (cases v) (auto simp: set_ranged_def split: if_splits)

lemma mark_complete_spec:
  assumes "mark_complete t p f = Inr g"
  shows "same_root f g \<and> mf_state g = DOWNLOADED \<and> kids g = kids f \<and> a_transferred_size (attrs g) = t \<and> a_download_progress (attrs g) = p \<and>
    a_downloading_speed (attrs g) = None \<and> a_eta (attrs g) = None"
proof -
  obtain f1 f2 f3 where s: "set_transferred_size (of_opt_int t) (put_state DOWNLOADED f) = Inr f1" "set_download_progress (of_opt_int p) f1 = Inr f2"
    "set_downloading_speed PNone f2 = Inr f3" "set_eta PNone f3 = Inr g" using assms by (auto simp: mark_complete_def rbind_Inr_iff)
  note d = set_transferred_size_def set_download_progress_def set_downloading_speed_def set_eta_def
  have "same_root f g \<and> mf_state g = DOWNLOADED \<and> kids g = kids f"
    using s[unfolded d, THEN set_ranged_frame] same_root_state[where f = f and s = DOWNLOADED] same_root_trans by metis
  moreover have "attrs f1 = put_opt_int ''transferred_size'' t (attrs (put_state DOWNLOADED f))" "attrs f2 = put_opt_int ''download_progress'' p (attrs f1)"
    "attrs f3 = put_opt_int ''downloading_speed'' None (attrs f2)" "attrs g = put_opt_int ''eta'' None (attrs f3)"
    using s by (auto simp: d set_ranged_def of_opt_int_def split: option.splits if_splits)
  ultimately show ?thesis
    by (simp add: a_transferred_size_def a_download_progress_def a_downloading_speed_def a_eta_def of_opt_int_def as_opt_int_def split: option.split)
qed

lemma mark_complete_runs: "opt_nonneg t \<Longrightarrow> p = None \<or> p = Some 100 \<Longrightarrow> \<exists>g. mark_complete t p f = Inr g"
  by (cases t; cases p) (auto simp: mark_complete_def set_transferred_size_def set_download_progress_def set_downloading_speed_def set_eta_def
      set_ranged_def of_opt_int_def opt_nonneg_def)

section \<open>The evidence for a download\<close>

definition evidence :: "root_input \<Rightarrow> builder \<Rightarrow> model_file \<Rightarrow> bool" where
  "evidence x b f \<longleftrightarrow>
     effective_local_tree_proves_completion (ri_remote x) (ri_local x) \<or>
     (\<not> a_is_dir (attrs f) \<and> fa_local_size (attrs f) \<noteq> None \<and> fa_remote_size (attrs f) = None \<and> is_authoritative_local_file (ri_local x) \<and>
      model_file_matches_persisted_name f (b_downloaded_files b))"

text \<open>What the steps leave of the builder: everything but the two stores of snapshots.\<close>

definition same_inputs :: "builder \<Rightarrow> builder \<Rightarrow> bool" where
  "same_inputs b b' \<longleftrightarrow> b' = b\<lparr>recent_live := recent_live b', retained_stopped := retained_stopped b'\<rparr>"

lemma same_inputs_refl [simp]: "same_inputs b b"
  by (simp add: same_inputs_def)

lemma same_inputs_trans: "same_inputs a b \<Longrightarrow> same_inputs b c \<Longrightarrow> same_inputs a c"
  by (cases a; cases b; cases c) (simp add: same_inputs_def)

lemma same_inputs_stores: "same_inputs b (b\<lparr>recent_live := r\<rparr>)" "same_inputs b (b\<lparr>retained_stopped := r\<rparr>)"
  by (simp_all add: same_inputs_def)

lemma resolve_recent_inputs: "same_inputs b (fst (resolve_recent_live_transfer_snapshot loads i r b))"
  by (simp add: resolve_recent_live_transfer_snapshot_def same_inputs_stores split: prod.split)

lemma resolve_retained_inputs: "same_inputs b (fst (resolve_retained_stopped_transfer_snapshot loads i r b))"
  by (simp add: resolve_retained_stopped_transfer_snapshot_def same_inputs_stores split: prod.split)

lemma evict_inputs: "same_inputs b (evict_transfer_completion_snapshots loads i r b)"
proof -
  obtain b1 k x where r1: "resolve_recent_live_transfer_snapshot loads i r b = (b1, k, x)" by (metis prod_cases3)
  define b2 where "b2 = b1\<lparr>recent_live := pop_found k (recent_live b1)\<rparr>"
  obtain b3 k' y where r3: "resolve_retained_stopped_transfer_snapshot loads i r b2 = (b3, k', y)" by (metis prod_cases3)
  have "same_inputs b b1" using resolve_recent_inputs[of b loads i r] r1 by simp
  moreover have "same_inputs b1 b2" by (simp add: b2_def same_inputs_stores)
  moreover have "same_inputs b2 b3" using resolve_retained_inputs[of b2 loads i r] r3 by simp
  ultimately have "same_inputs b b3" by (meson same_inputs_trans)
  moreover have "evict_transfer_completion_snapshots loads i r b = b3\<lparr>retained_stopped := pop_found k' (retained_stopped b3)\<rparr>"
    using r1 r3 by (simp add: evict_transfer_completion_snapshots_def Let_def flip: b2_def)
  ultimately show ?thesis using same_inputs_stores(2) same_inputs_trans by metis
qed

text \<open>One step on the way to the state of a root: it keeps the root, and calls it downloaded only on evidence.\<close>

definition settles :: "root_input \<Rightarrow> builder \<Rightarrow> model_file \<Rightarrow> builder \<Rightarrow> model_file \<Rightarrow> bool" where
  "settles x b f b' g \<longleftrightarrow> same_root f g \<and> same_inputs b b' \<and> (mf_state g = mf_state f \<or> mf_state g = DOWNLOADED \<and> evidence x b f)"

lemma evidence_cong: "same_root f g \<Longrightarrow> same_inputs b b' \<Longrightarrow> evidence x b' g = evidence x b f"
  by (cases b; cases b') (simp add: evidence_def same_root_def same_inputs_def model_file_matches_persisted_name_def)

lemma settles_trans: "settles x b f b1 g \<Longrightarrow> settles x b1 g b2 h \<Longrightarrow> settles x b f b2 h"
  unfolding settles_def using same_root_trans same_inputs_trans evidence_cong by metis

lemma settles_refl [simp]: "settles x b f b f"
  by (simp add: settles_def)

lemma settles_complete: "evidence x b f \<Longrightarrow> same_inputs b b' \<Longrightarrow> mark_complete t p f = Inr g \<Longrightarrow> settles x b f b' g"
  using mark_complete_spec by (simp add: settles_def)

lemma settles_state: "evidence x b f \<Longrightarrow> settles x b f b (put_state DOWNLOADED f)"
  by (simp add: settles_def)

lemma finish_live_settles:
  assumes "finish_live_download loads x f source b = Inr (b', g, source')"
  shows "settles x b f b' g"
  using assms evict_inputs
  by (auto simp: finish_live_download_def rbind_Inr_iff evidence_def split: if_splits intro!: settles_complete)

lemma finish_staged_settles:
  assumes "finish_staged_download loads x f source b = Inr (b', g, source')"
  shows "settles x b f b' g"
proof -
  obtain b1 k s where r: "resolve_recent_live_transfer_snapshot loads (ri_file_id x) (Some (status_file_id x f)) b = (b1, k, s)" by (metis prod_cases3)
  have b1: "same_inputs b b1" using resolve_recent_inputs[of b loads "ri_file_id x" "Some (status_file_id x f)"] r by simp
  have e: "same_inputs b (evict_transfer_completion_snapshots loads i j b1)" for i j using b1 evict_inputs same_inputs_trans by metis
  have q: "settles x b f b1 f" using b1 by (simp add: settles_def)
  from assms e q r show ?thesis
    by (auto simp: finish_staged_download_def rbind_Inr_iff evidence_def split: if_splits option.splits intro!: settles_complete)
qed

lemma settle_default_settles:
  assumes "settle_default x b f source = Inr (g, incomplete, source')"
  shows "settles x b f b g"
  using assms
  by (auto simp: settle_default_def settle_default_dir_def settle_default_file_def Let_def rbind_Inr_iff evidence_def
      split: if_splits option.splits prod.splits intro!: settles_complete settles_state)

lemma terminal_counters_settles:
  assumes "terminal_counters x f = Inr g" "mf_state f = DOWNLOADED \<longrightarrow> evidence x b f"
  shows "settles x b f b g"
  using assms by (auto simp: terminal_counters_def split: option.splits if_splits intro!: settles_complete)

lemma check_root_settles:
  assumes "check_root_downloaded loads x f source b = Inr (b', g, incomplete, source')" "mf_state f \<noteq> DOWNLOADED"
  shows "settles x b f b' g"
proof -
  obtain b1 f1 s1 f2 s2 f3 i3 s3 where s: "finish_live_download loads x f source b = Inr (b1, f1, s1)"
    "finish_staged_download loads x f1 s1 b1 = Inr (b', f2, s2)" "settle_default x b' f2 s2 = Inr (f3, i3, s3)" "terminal_counters x f3 = Inr g"
    using assms(1) by (auto simp: check_root_downloaded_def rbind_Inr_iff)
  have "settles x b f b' f3"
    using finish_live_settles[OF s(1)] finish_staged_settles[OF s(2)] settle_default_settles[OF s(3)] by (meson settles_trans)
  moreover from this have "mf_state f3 = DOWNLOADED \<longrightarrow> evidence x b' f3"
    using assms(2) evidence_cong unfolding settles_def by metis
  from terminal_counters_settles[OF s(4) this] have "settles x b' f3 b' g" .
  ultimately show ?thesis by (rule settles_trans)
qed

text \<open>The decision does not raise on sizes that are not negative, and a downloaded root of a remote tree
  with bytes carries the exact terminal counters.\<close>

lemma finish_live_runs:
  assumes "pred_option (\<lambda>r. 0 \<le> sf_size r) (ri_remote x)" "opt_nonneg (fa_local_size (attrs f))"
  obtains b' g source' where "finish_live_download loads x f source b = Inr (b', g, source')"
proof -
  let ?t = "case ri_remote x of Some r \<Rightarrow> Some (sf_size r) | None \<Rightarrow> fa_local_size (attrs f)"
  have "opt_nonneg ?t" using assms by (auto simp: opt_nonneg_def split: option.split)
  then obtain g where "mark_complete ?t None f = Inr g" using mark_complete_runs by blast
  then have "finish_live_download loads x f source b \<noteq> Inl e" for e by (simp add: finish_live_download_def)
  with that show thesis by (metis sum.exhaust prod_cases3)
qed

lemma finish_staged_runs:
  assumes "pred_option (\<lambda>r. 0 \<le> sf_size r) (ri_remote x)"
  obtains b' g source' where "finish_staged_download loads x f source b = Inr (b', g, source')"
proof -
  have m: "\<exists>g. mark_complete (Some (sf_size r)) None f = Inr g" if "ri_remote x = Some r" for r
    using assms that mark_complete_runs by (simp add: opt_nonneg_def)
  obtain b1 k s where "resolve_recent_live_transfer_snapshot loads (ri_file_id x) (Some (status_file_id x f)) b = (b1, k, s)" by (metis prod_cases3)
  then have "finish_staged_download loads x f source b \<noteq> Inl e" for e
    by (auto simp: finish_staged_download_def Let_def dest!: m split: option.splits if_splits)
  with that show thesis by (metis sum.exhaust prod_cases3)
qed

lemma settle_default_runs:
  assumes "opt_nonneg (fa_remote_size (attrs f))"
  obtains g incomplete source' where "settle_default x b f source = Inr (g, incomplete, source')"
proof -
  obtain h where h: "mark_complete (fa_remote_size (attrs f)) None f = Inr h" using mark_complete_runs[OF assms] by blast
  have "settle_default_file x b f source \<noteq> Inl e" for e using h by (simp add: settle_default_file_def Let_def)
  moreover have "settle_default_dir x f source \<noteq> Inl e" for e
    using h by (cases "fa_remote_size (attrs f)") (auto simp: settle_default_dir_def Let_def split: prod.splits if_splits)
  ultimately have "settle_default x b f source \<noteq> Inl e" for e by (simp add: settle_default_def)
  with that show thesis by (metis sum.exhaust prod_cases3)
qed

definition carries_total :: "int \<Rightarrow> model_file \<Rightarrow> bool" where
  "carries_total n f \<longleftrightarrow> a_transferred_size (attrs f) = Some n \<and> a_download_progress (attrs f) = Some 100 \<and>
     a_downloading_speed (attrs f) = None \<and> a_eta (attrs f) = None"

lemma terminal_counters_spec:
  assumes "pred_option (\<lambda>r. 0 \<le> sf_size r) (ri_remote x)"
  shows "\<exists>g. terminal_counters x f = Inr g \<and> (\<forall>r. ri_remote x = Some r \<longrightarrow> 0 < sf_size r \<longrightarrow> mf_state g = DOWNLOADED \<longrightarrow> carries_total (sf_size r) g)"
proof (cases "\<exists>r. ri_remote x = Some r \<and> mf_state f = DOWNLOADED \<and> 0 < sf_size r")
  case False
  then show ?thesis by (auto simp: terminal_counters_def split: option.split)
next
  case True
  then obtain r where r: "ri_remote x = Some r" "mf_state f = DOWNLOADED" "0 < sf_size r" by blast
  obtain g where g: "mark_complete (Some (sf_size r)) (Some 100) f = Inr g" using mark_complete_runs[of "Some (sf_size r)" "Some 100" f] r(3) by (auto simp: opt_nonneg_def)
  from mark_complete_spec[OF g] show ?thesis using g r by (auto simp: terminal_counters_def carries_total_def)
qed

lemma check_root_runs:
  assumes "pred_option (\<lambda>r. 0 \<le> sf_size r) (ri_remote x)" "opt_nonneg (fa_local_size (attrs f))" "opt_nonneg (fa_remote_size (attrs f))"
  shows "\<exists>b' g incomplete source'. check_root_downloaded loads x f source b = Inr (b', g, incomplete, source') \<and>
    (\<forall>r. ri_remote x = Some r \<longrightarrow> 0 < sf_size r \<longrightarrow> mf_state g = DOWNLOADED \<longrightarrow> carries_total (sf_size r) g)"
proof -
  obtain b1 f1 s1 where 1: "finish_live_download loads x f source b = Inr (b1, f1, s1)" using finish_live_runs[OF assms(1,2)] by metis
  obtain b2 f2 s2 where 2: "finish_staged_download loads x f1 s1 b1 = Inr (b2, f2, s2)" using finish_staged_runs[OF assms(1)] by metis
  have "same_root f f2" using finish_live_settles[OF 1] finish_staged_settles[OF 2] same_root_trans by (auto simp: settles_def)
  then have "opt_nonneg (fa_remote_size (attrs f2))" using assms(3) by (simp add: same_root_def)
  then obtain f3 i3 s3 where 3: "settle_default x b2 f2 s2 = Inr (f3, i3, s3)" using settle_default_runs by metis
  from terminal_counters_spec[OF assms(1), of f3] show ?thesis using 1 2 3 by (auto simp: check_root_downloaded_def)
qed

section \<open>The reason for a published state\<close>

lemma estimate_eta_frame: "estimate_eta f = Inr g \<Longrightarrow> same_root f g \<and> mf_state g = mf_state f"
  by (auto simp: estimate_eta_def Let_def rbind_Inr_iff set_eta_def dest: set_ranged_frame split: option.splits if_splits)

lemma credit_frame: "credit_local_only n has_remote f = Inr g \<Longrightarrow> same_root f g \<and> mf_state g = mf_state f"
  by (auto simp: credit_local_only_def rbind_Inr_iff set_display_size_total_def set_display_transferred_size_def
      dest!: set_ranged_frame split: if_splits intro: same_root_trans)

lemma union_frame:
  assumes "apply_local_only_union_progress f remote scanned = Inr g"
  shows "same_root f g \<and> mf_state g = mf_state f"
proof -
  obtain a cs where f: "f = ModelFile a cs" by (cases f)
  obtain h ds where h: "credit_local_only (case scanned of None \<Rightarrow> 0 | Some l \<Rightarrow> authoritative_final_local_only_size remote l) (remote \<noteq> None) f = Inr h"
    "g = ModelFile (attrs h) ds" using assms by (auto simp: f rbind_Inr_iff)
  have "same_root h g" using h(2) same_root_kids[of "attrs h" "kids h" ds] by simp
  with credit_frame[OF h(1)] h(2) show ?thesis using same_root_trans by auto
qed

definition state_reason :: "root_input \<Rightarrow> builder \<Rightarrow> model_file \<Rightarrow> file_state \<Rightarrow> bool" where
  "state_reason x b f s \<longleftrightarrow>
     (case s of
        MOVE_FAILED \<Rightarrow> file_id f \<in> move_failed_files b
      | DOWNLOADED \<Rightarrow> evidence x b f
      | EXTRACTED \<Rightarrow> evidence x b f \<and> is_authoritative_local_file (ri_local x) \<and> file_id f \<in> b_extracted_files b
      | EXTRACTING \<Rightarrow> dict_get (b_extract_statuses b) (file_id f) \<noteq> None \<and> fa_local_size (attrs f) \<noteq> None
      | DELETED \<Rightarrow> mf_state f = DEFAULT \<and> fa_local_size (attrs f) = None \<and> fa_path_pair_id (attrs f) \<notin> unknown_local_pairs b \<and>
          model_file_matches_persisted_name f (b_downloaded_files b)
      | _ \<Rightarrow> mf_state f = s)"

definition validation_reason :: "builder \<Rightarrow> model_file \<Rightarrow> file_state \<Rightarrow> bool" where
  "validation_reason b f s \<longleftrightarrow> fa_local_size (attrs f) \<noteq> None \<and> fa_remote_size (attrs f) \<noteq> None \<and>
     opt_holds (\<lambda>v. vs_state v = s) (dict_get (b_validation_statuses b) (file_id f))"

lemma persist_authority_spec:
  "same_root f (check_persist_authority b f) \<and>
   (mf_state (check_persist_authority b f) = mf_state f \<or>
    mf_state (check_persist_authority b f) = DELETED \<and> mf_state f = DEFAULT \<and> state_reason x b f DELETED)"
  by (simp add: check_persist_authority_def state_reason_def)

lemma extracting_spec:
  "check_extracting b f = Inr g \<Longrightarrow> same_root f g \<and> (mf_state g = mf_state f \<or> mf_state g = EXTRACTING \<and> state_reason x b f EXTRACTING)"
  by (auto simp: check_extracting_def state_reason_def split: option.splits if_splits)

lemma extracted_spec:
  "same_root f (check_extracted b (ri_local x) f) \<and>
   (mf_state (check_extracted b (ri_local x) f) = mf_state f \<or>
    mf_state (check_extracted b (ri_local x) f) = EXTRACTED \<and> (evidence x b f \<longrightarrow> state_reason x b f EXTRACTED) \<and> mf_state f = DOWNLOADED)"
  by (auto simp: check_extracted_def state_reason_def model_file_matches_persisted_name_def)

lemma validating_spec:
  assumes "check_validating b f = Inr g"
  shows "same_root f g \<and> (mf_state g = mf_state f \<or> validation_reason b f (mf_state g))"
proof (cases "check_validating b f = Inr f")
  case True
  then show ?thesis using assms by simp
next
  case False
  then obtain v g1 g2 where v: "dict_get (b_validation_statuses b) (file_id f) = Some v" "fa_local_size (attrs f) \<noteq> None" "fa_remote_size (attrs f) \<noteq> None"
    "set_validation_progress (of_opt_int (vs_progress v)) (put_state (vs_state v) f) = Inr g1"
    "set_validation_error (of_opt_str (vs_error v)) g1 = Inr g2" "set_corrupt_chunks (of_opt_ints (vs_corrupt_chunks v)) g2 = Inr g"
    using assms by (auto simp: check_validating_def rbind_Inr_iff split: option.splits if_splits)
  have "same_root (put_state (vs_state v) f) g1 \<and> mf_state g1 = vs_state v" using v(4) set_ranged_frame by (force simp: set_validation_progress_def)
  moreover have "same_root g1 g2 \<and> mf_state g2 = mf_state g1" using v(5) by (auto simp: set_validation_error_def split: pyval.splits)
  moreover have "same_root g2 g \<and> mf_state g = mf_state g2" using v(6) by (auto simp: set_corrupt_chunks_def split: pyval.splits if_splits)
  ultimately have "same_root f g" "mf_state g = vs_state v" using same_root_state(1) same_root_trans by metis+
  with v(1-3) show ?thesis by (simp add: validation_reason_def)
qed

lemma reasons_cong:
  assumes "same_root f g" "same_inputs b b'"
  shows "evidence x b' g = evidence x b f" "validation_reason b' g s = validation_reason b f s"
    "state_reason x b' g EXTRACTING = state_reason x b f EXTRACTING" "state_reason x b' g EXTRACTED = state_reason x b f EXTRACTED"
    "mf_state g = mf_state f \<Longrightarrow> state_reason x b' g s = state_reason x b f s"
proof -
  show e: "evidence x b' g = evidence x b f" by (rule evidence_cong[OF assms])
  have i: "b_validation_statuses b' = b_validation_statuses b" "b_extract_statuses b' = b_extract_statuses b" "b_extracted_files b' = b_extracted_files b"
    "move_failed_files b' = move_failed_files b" "unknown_local_pairs b' = unknown_local_pairs b" "b_downloaded_files b' = b_downloaded_files b"
    using assms(2) by (cases b; cases b'; simp add: same_inputs_def)+
  show "validation_reason b' g s = validation_reason b f s" using assms(1) i by (simp add: validation_reason_def same_root_def)
  show "state_reason x b' g EXTRACTING = state_reason x b f EXTRACTING" "state_reason x b' g EXTRACTED = state_reason x b f EXTRACTED"
    using assms(1) i e by (simp_all add: state_reason_def same_root_def)
  show "mf_state g = mf_state f \<Longrightarrow> state_reason x b' g s = state_reason x b f s"
    using assms(1) i e by (cases s) (simp_all add: state_reason_def same_root_def model_file_matches_persisted_name_def)
qed

lemma determine_state_spec:
  assumes "determine_state b f (ri_local x) = Inr g" "mf_state f = DOWNLOADED \<longrightarrow> evidence x b f"
    "mf_state f \<in> {DEFAULT, DOWNLOADING, QUEUED, DOWNLOADED}"
  shows "(file_id f \<in> move_failed_files b \<longrightarrow> mf_state g = MOVE_FAILED) \<and> (validation_reason b f (mf_state g) \<or> state_reason x b f (mf_state g))"
proof -
  obtain f1 f3 f5 where s: "set_final_move_succeeded (PBool (file_id f \<in> final_move_succeeded_files b)) f = Inr f1"
    "check_extracting b (check_persist_authority b f1) = Inr f3" "check_validating b (check_extracted b (ri_local x) f3) = Inr f5"
    "g = (if file_id f5 \<in> move_failed_files b then put_state MOVE_FAILED f5 else f5)"
    using assms(1) by (auto simp: determine_state_def rbind_Inr_iff)
  let ?f2 = "check_persist_authority b f1" and ?f4 = "check_extracted b (ri_local x) f3"
  have r1: "same_root f f1" "mf_state f1 = mf_state f" using s(1) by (auto simp: set_final_move_succeeded_def set_checked_flag_def)
  have r2: "same_root f1 ?f2" "mf_state ?f2 = mf_state f1 \<or> mf_state ?f2 = DELETED \<and> state_reason x b f1 DELETED"
    using persist_authority_spec[of f1 b x] by auto
  have r3: "same_root ?f2 f3" "mf_state f3 = mf_state ?f2 \<or> mf_state f3 = EXTRACTING \<and> state_reason x b ?f2 EXTRACTING"
    using extracting_spec[OF s(2), of x] by auto
  have r4: "same_root f3 ?f4" "mf_state ?f4 = mf_state f3 \<or> mf_state ?f4 = EXTRACTED \<and> mf_state f3 = DOWNLOADED \<and> (evidence x b f3 \<longrightarrow> state_reason x b f3 EXTRACTED)"
    using extracted_spec[of f3 b x] by auto
  have r5: "same_root ?f4 f5" "mf_state f5 = mf_state ?f4 \<or> validation_reason b ?f4 (mf_state f5)" using validating_spec[OF s(3)] by auto
  note root = r1(1) same_root_trans[OF r1(1) r2(1)]
  note root3 = same_root_trans[OF root(2) r3(1)]
  note root4 = same_root_trans[OF root3 r4(1)]
  note root5 = same_root_trans[OF root4 r5(1)]
  have id: "file_id f5 = file_id f" using root5 by (simp add: same_root_def)
  have st3: "mf_state f3 = mf_state f \<or> mf_state f3 \<in> {DELETED, EXTRACTING}" using r1(2) r2(2) r3(2) by auto
  have a: "state_reason x b f (mf_state f3)"
  proof -
    have "state_reason x b f (mf_state f)" using assms(2,3) by (auto simp: state_reason_def)
    moreover have "state_reason x b f DELETED" if "state_reason x b f1 DELETED"
      using reasons_cong(5)[OF root(1) same_inputs_refl r1(2), where x = x and s = DELETED] that by simp
    moreover have "state_reason x b f EXTRACTING" if "state_reason x b ?f2 EXTRACTING"
      using reasons_cong(3)[OF root(2) same_inputs_refl] that by simp
    ultimately show ?thesis using r1(2) r2(2) r3(2) by metis
  qed
  have "state_reason x b f (mf_state ?f4)"
  proof (cases "mf_state ?f4 = mf_state f3")
    case True
    then show ?thesis using a by simp
  next
    case False
    then have e: "mf_state ?f4 = EXTRACTED" "mf_state f3 = DOWNLOADED" "evidence x b f3 \<longrightarrow> state_reason x b f3 EXTRACTED" using r4(2) by auto
    have "evidence x b f" using a e(2) by (simp add: state_reason_def)
    then show ?thesis using e reasons_cong(1,4)[OF root3 same_inputs_refl] by simp
  qed
  moreover have "validation_reason b f s" if "validation_reason b ?f4 s" for s using reasons_cong(2)[OF root4 same_inputs_refl] that by simp
  ultimately have "validation_reason b f (mf_state f5) \<or> state_reason x b f (mf_state f5)" using r5(2) by metis
  then show ?thesis using s(4) id by (auto simp: state_reason_def)
qed

lemma settle_root_reason:
  assumes "settle_root loads x f source b = Inr (b', g, source')" "mf_state f \<in> {DEFAULT, DOWNLOADING, QUEUED}"
  shows "(file_id f \<in> move_failed_files b \<longrightarrow> mf_state g = MOVE_FAILED) \<and> (validation_reason b f (mf_state g) \<or> state_reason x b f (mf_state g))"
proof -
  obtain f0 f1 i1 s1 f2 where s: "estimate_eta f = Inr f0" "check_root_downloaded loads x f0 source b = Inr (b', f1, i1, s1)"
    "apply_local_only_union_progress f1 (ri_remote x) (local_file_of loads b' (ri_file_id x)) = Inr f2" "determine_state b' f2 (ri_local x) = Inr g"
    using assms(1) by (auto simp: settle_root_def rbind_Inr_iff)
  have f0: "same_root f f0" "mf_state f0 = mf_state f" using estimate_eta_frame[OF s(1)] by auto
  have "mf_state f0 \<noteq> DOWNLOADED" using f0(2) assms(2) by auto
  from check_root_settles[OF s(2) this] have f1: "same_root f0 f1" "same_inputs b b'" "mf_state f1 = mf_state f0 \<or> mf_state f1 = DOWNLOADED \<and> evidence x b f0"
    by (auto simp: settles_def)
  have f2: "same_root f1 f2" "mf_state f2 = mf_state f1" using union_frame[OF s(3)] by auto
  have r: "same_root f f2" using f0(1) f1(1) f2(1) same_root_trans by metis
  have e: "evidence x b f0 = evidence x b f" by (rule evidence_cong[OF f0(1) same_inputs_refl])
  note c = reasons_cong[OF r f1(2)]
  have "evidence x b f0" if "mf_state f2 = DOWNLOADED" using that f1(3) f2(2) f0(2) assms(2) by auto
  then have d: "mf_state f2 = DOWNLOADED \<longrightarrow> evidence x b' f2" unfolding e c(1) by blast
  have m: "mf_state f2 \<in> {DEFAULT, DOWNLOADING, QUEUED, DOWNLOADED}" using f1(3) f2(2) f0(2) assms(2) by auto
  have g: "(file_id f2 \<in> move_failed_files b' \<longrightarrow> mf_state g = MOVE_FAILED)" "validation_reason b' f2 (mf_state g) \<or> state_reason x b' f2 (mf_state g)"
    using determine_state_spec[OF s(4) d m] by auto
  have i: "move_failed_files b' = move_failed_files b" "file_id f2 = file_id f"
    using f1(2) r by (cases b; cases b'; simp add: same_inputs_def) (simp add: r[unfolded same_root_def])
  have "state_reason x b f (mf_state g)" if q: "state_reason x b' f2 (mf_state g)"
  proof (cases "mf_state f2 = mf_state f")
    case True
    with c(5) q show ?thesis by simp
  next
    case False
    then have n: "mf_state f2 = DOWNLOADED" "evidence x b f" using f1(3) f2(2) f0(2) e by auto
    have "mf_state g \<in> {DOWNLOADED, EXTRACTED, EXTRACTING, MOVE_FAILED}" using q n(1) by (cases "mf_state g") (auto simp: state_reason_def)
    then show ?thesis using q n(2) c(3,4) i by (auto simp: state_reason_def)
  qed
  then show ?thesis using g c(2) unfolding i by blast
qed

end
