(* ===== verification/Root_Properties.thy ===== *)
theory Root_Properties
  imports Builder_Properties Root_State
begin

text \<open>
  The properties of the model builder's transfers and roots: progress of a running job does not fall,
  what is remembered of transfers stays well formed, a lookup for a job stays within its path pair, and
  every state a root is published with has its reason.
\<close>

section \<open>Samples\<close>

definition sample_transfer :: "int \<Rightarrow> int \<Rightarrow> transfer_state" where
  "sample_transfer n total_bytes = \<lparr>size_local = Some n, size_remote = Some total_bytes, percent_local = None, ts_speed = None, ts_eta = None\<rparr>"

definition sample_snapshot :: "string \<Rightarrow> int \<Rightarrow> live_snapshot" where
  "sample_snapshot root_id n =
     \<lparr>sn_root = root_id, sn_size = Some n, sn_percent = None, sn_speed = None, sn_eta = None, sn_job_id = Some 4, sn_job_type = Some ''pget'',
      sn_subset = Some n, sn_subset_remote = Some n, sn_updated = 1\<rparr>"

text \<open>A \<open>json.loads\<close> for the examples: it takes apart what \<open>build_file_id\<close> writes for one pair and
  refuses every other text.\<close>

definition sample_loads :: json_loads where
  "sample_loads i = (if i = build_file_id ''f'' (Some ''p'') then Some (PList [PStr ''p'', PStr ''f'']) else None)"

definition sample_root :: model_file where
  "sample_root = put_state DOWNLOADING (new_model_file 0 0 ''a'' False)"

definition sample_input :: root_input where
  "sample_input = \<lparr>ri_file_id = ''a'', ri_remote = Some (sample_leaf ''a'' 3 5 0), ri_local = Some (sample_leaf ''a'' 3 5 0), ri_status = None,
     ri_stopped = False, ri_retained = None\<rparr>"

section \<open>Properties\<close>

text \<open>C17. The progress of a running transfer does not fall. For well-formed scanned trees the combined state is
  computed without an exception, whatever the status says. While the job is the one of the last accepted
  snapshot and not a mirror, a status that is no reset and reports a counter, with or without the total it
  refers to, or a percentage, and for a segmented download also a status without either, gives a counter
  that is not below the last one, as far as the root is that large, however the subset LFTP
  reports changes. And a counter that comes with its total and does not exceed it gives one between
  zero and the size of the root, if the last snapshot lay within the root.\<close>

theorem running_progress_never_falls:
  assumes "tidy r" "pred_option tidy local_file"
  shows "\<exists>t'. combine_split_root_transfer_state t (Some r) local_file previous job_id job_type fresh = Inr t' \<and>
    (\<forall>s m. previous = Some s \<and> sn_job_id s = job_id \<and> sn_job_type s = map_option job_type_value job_type \<and> job_type \<noteq> Some MIRROR \<and>
       sn_size s = Some m \<and> (size_local t \<noteq> None \<or> percent_local t \<noteq> None \<or> job_type = Some PGET) \<and> \<not> is_reset r t \<longrightarrow>
       (\<exists>k. size_local t' = Some k \<and> min m (sf_size r) \<le> k)) \<and>
    (\<forall>n total_bytes. size_local t = Some n \<and> size_remote t = Some total_bytes \<and> 0 \<le> n \<and> n \<le> total_bytes \<and> snapshot_within (sf_size r) previous \<longrightarrow>
       (\<exists>k. size_local t' = Some k \<and> 0 \<le> k \<and> k \<le> sf_size r))"
proof -
  let ?m = "snapshot_identity_matches previous job_id job_type"
  obtain t' where t': "combine_split_root_transfer_state t (Some r) local_file previous job_id job_type fresh = Inr t'"
    and low: "\<And>s m. previous = Some s \<and> ?m \<and> job_type \<noteq> Some MIRROR \<and> sn_size s = Some m \<and>
       (size_local t \<noteq> None \<or> percent_local t \<noteq> None \<or> job_type = Some PGET) \<and> \<not> is_reset r t \<Longrightarrow> reaches (min m (sf_size r)) t'"
    using combine_reaches[OF assms, of t previous job_id job_type fresh] by blast
  have a: "\<exists>k. size_local t' = Some k \<and> min m (sf_size r) \<le> k" if "previous = Some s" "sn_job_id s = job_id"
      "sn_job_type s = map_option job_type_value job_type" "job_type \<noteq> Some MIRROR" "sn_size s = Some m"
      "size_local t \<noteq> None \<or> percent_local t \<noteq> None \<or> job_type = Some PGET" "\<not> is_reset r t" for s m
    using low[of s m] that by (cases "size_local t'") (simp_all add: reaches_def snapshot_identity_matches_def)
  have b: "\<exists>k. size_local t' = Some k \<and> 0 \<le> k \<and> k \<le> sf_size r" if "size_local t = Some n" "size_remote t = Some total_bytes"
      "0 \<le> n" "n \<le> total_bytes" "snapshot_within (sf_size r) previous" for n total_bytes
    using combine_counts[OF assms tidy_size[OF assms(1)] that(5,2,1,3,4), of job_id job_type fresh] t'
    by (cases "size_local t'") (auto simp: counts_def floor_of_def)
  from t' a b show ?thesis by blast
qed

definition bare_transfer :: "int \<Rightarrow> transfer_state" where
  "bare_transfer n = \<lparr>size_local = Some n, size_remote = None, percent_local = None, ts_speed = None, ts_eta = None\<rparr>"

theorem running_progress_never_falls_witness:
  "\<exists>t' k. combine_split_root_transfer_state (bare_transfer 1) (Some remote_sample) None (Some (sample_snapshot ''show'' 6)) (Some 4) (Some PGET) 0 = Inr t' \<and>
     size_local t' = Some k \<and> 6 \<le> k"
proof -
  have t: "tidy remote_sample" "sf_size remote_sample = 7" by code_simp+
  have s: "sn_job_id (sample_snapshot ''show'' 6) = Some 4" "sn_job_type (sample_snapshot ''show'' 6) = map_option job_type_value (Some PGET)"
    "sn_size (sample_snapshot ''show'' 6) = Some 6" "\<not> is_reset remote_sample (bare_transfer 1)" "size_local (bare_transfer 1) \<noteq> None"
    by code_simp+
  from running_progress_never_falls[OF t(1), of None "bare_transfer 1" "Some (sample_snapshot ''show'' 6)" "Some 4" "Some PGET" 0] s t(2)
  show ?thesis by fastforce
qed

text \<open>C19. What the builder remembers of transfers stays well formed: from the empty builder, over any sequence of
  lookups, stores and evictions and any change of its other inputs, no call raises, every snapshot has a size and every
  display floor is below its file's size and below one hundred percent.\<close>

theorem remembered_transfers_stay_well_formed:
  assumes "rtranclp (builder_step loads) new_builder b"
  shows "memory_ok b \<and> (\<exists>b'. run_memory_calls loads calls b = Inr b' \<and> memory_ok b')"
  using memory.reachable_inv[OF refl assms] memory_calls_ok by blast

theorem remembered_transfers_stay_well_formed_witness:
  "\<exists>b. rtranclp (builder_step sample_loads) new_builder b \<and> recent_live b = [(''f'', sample_snapshot ''f'' 3)] \<and> memory_ok b"
proof -
  let ?b = "new_builder\<lparr>recent_live := [(''f'', sample_snapshot ''f'' 3)]\<rparr>"
  let ?c = "StoreRecent 1 ''f'' ''f'' (sample_transfer 3 3) (Some (sample_transfer 3 3)) (Some 4) (Some ''pget'') False False"
  have "run_memory_call sample_loads ?c new_builder = Inr ?b"
    by (simp add: store_recent_live_transfer_snapshot_def new_builder_def sample_transfer_def sample_snapshot_def snapshot_of_def
        is_lifecycle_revoked_status_identity_def promote_recent_live_pget_snapshot_to_display_floor_def remote_file_of_def from_bucket_def Let_def)
  then have s: "rtranclp (builder_step sample_loads) new_builder ?b" by (blast intro: builder_step.call)
  with remembered_transfers_stay_well_formed[OF s, of "[]"] show ?thesis by (intro exI[of _ ?b]) simp
qed

text \<open>C18. A lookup for a job stays within its path pair: for a file of a pair it finds nothing and changes
  nothing, or it returns a snapshot of that very job and type, not revoked, which was kept under the
  file itself or belongs to the pair; the snapshot is then kept under the file and every other one
  is as it was. Of \<open>json.loads\<close> this needs that it takes the identity of the file apart.\<close>

theorem job_lookup_stays_in_its_pair:
  assumes "loads (build_file_id name (Some pair)) = Some (PList [PStr pair, PStr name])" "dict_ok (recent_live b)" "ty \<noteq> []"
    "q = \<lparr>q_file = build_file_id name (Some pair), q_root = root_id, q_job = j, q_type = ty\<rparr>"
    "resolve_recent_live_transfer_snapshot_for_job loads (q_file q) root_id (Some j) (Some ty) b = (b', found)"
  shows "b' = b \<and> found = (None, None) \<or>
    (\<exists>key s. dict_get (recent_live b) key = Some s \<and> found = (Some (q_file q), Some (s\<lparr>sn_root := q_file q\<rparr>)) \<and>
       sn_job_id s = Some j \<and> sn_job_type s = Some ty \<and> \<not> is_revoked_snapshot b q s \<and>
       (if key = q_file q then file_id_path_pair_id loads (sn_root s) \<in> {None, Some pair}
        else Some pair \<in> {file_id_path_pair_id loads (sn_root s), file_id_path_pair_id loads key}) \<and>
       dict_get (recent_live b') = (dict_get (recent_live b))(key := None, q_file q \<mapsto> s\<lparr>sn_root := q_file q\<rparr>))"
proof -
  have p: "query_pair loads q = Some pair" using assms(1,4) by (simp add: query_pair_def file_id_path_pair_id_def)
  have r: "resolve_job_query loads q b = (b', found)"
    using assms(3,4,5) by (simp add: resolve_recent_live_transfer_snapshot_for_job_def)
  have q: "q_job q = j" "q_type q = ty" using assms(4) by simp_all
  consider "b' = b" "found = (None, None)" | x where "found = (Some (q_file q), Some x)" "found_for_job loads q b b' x"
    using scoped_query_spec[OF assms(2) p] r by auto
  then show ?thesis
  proof cases
    case 1
    then show ?thesis by blast
  next
    case (2 x)
    from 2(2) obtain key s where k: "dict_get (recent_live b) key = Some s" "x = s\<lparr>sn_root := q_file q\<rparr>" "sn_job_id s = Some j" "sn_job_type s = Some ty"
      "\<not> is_revoked_snapshot b q s"
      "if key = q_file q then file_id_path_pair_id loads (sn_root s) \<in> {None, Some pair}
       else Some pair \<in> {file_id_path_pair_id loads (sn_root s), file_id_path_pair_id loads key}"
      "dict_get (recent_live b') = (dict_get (recent_live b))(key := None, q_file q \<mapsto> x)"
      unfolding found_for_job_def p q by blast
    have "found = (Some (q_file q), Some (s\<lparr>sn_root := q_file q\<rparr>))" using 2(1) k(2) by simp
    with k(1,3-6) k(7)[unfolded k(2)] show ?thesis by blast
  qed
qed

theorem job_lookup_stays_in_its_pair_witness:
  "snd (snd (resolve_recent_live_transfer_snapshot_for_job sample_loads (build_file_id ''f'' (Some ''p'')) None (Some 4) (Some ''pget'')
     (new_builder\<lparr>recent_live := [(''x'', sample_snapshot (build_file_id ''f'' (Some ''p'')) 3), (''f'', sample_snapshot ''g'' 9)]\<rparr>)))
   = Some (sample_snapshot (build_file_id ''f'' (Some ''p'')) 3)"
proof -
  let ?i = "build_file_id ''f'' (Some ''p'')"
  let ?b = "new_builder\<lparr>recent_live := [(''x'', sample_snapshot ?i 3), (''f'', sample_snapshot ''g'' 9)]\<rparr>"
  let ?x = "resolve_recent_live_transfer_snapshot_for_job sample_loads ?i None (Some 4) (Some ''pget'') ?b"
  let ?q = "\<lparr>q_file = ?i, q_root = None, q_job = 4, q_type = ''pget''\<rparr>"
  have h: "sample_loads ?i = Some (PList [PStr ''p'', PStr ''f''])" "dict_ok (recent_live ?b)" "''pget'' \<noteq> []"
    by (simp_all add: sample_loads_def new_builder_def)
  have e: "snd ?x \<noteq> (None, None)" by code_simp
  obtain b' found where x: "?x = (b', found)" by (cases ?x)
  have y: "resolve_recent_live_transfer_snapshot_for_job sample_loads (q_file ?q) None (Some 4) (Some ''pget'') ?b = (b', found)" using x by simp
  have ne: "''x'' \<noteq> ?i" "''f'' \<noteq> ?i" "''g'' \<noteq> ?i" by (simp_all add: build_file_id_def)
  from job_lookup_stays_in_its_pair[where q = ?q and b = ?b, OF h refl y] show ?thesis
  proof (elim disjE exE conjE)
    assume "found = (None, None)"
    with e x show ?thesis by simp
  next
    fix key s
    assume k: "dict_get (recent_live ?b) key = Some s" "found = (Some (q_file ?q), Some (s\<lparr>sn_root := q_file ?q\<rparr>))"
      "if key = q_file ?q then file_id_path_pair_id sample_loads (sn_root s) \<in> {None, Some ''p''}
       else Some ''p'' \<in> {file_id_path_pair_id sample_loads (sn_root s), file_id_path_pair_id sample_loads key}"
    have "key = ''x'' \<and> s = sample_snapshot ?i 3 \<or> key = ''f'' \<and> s = sample_snapshot ''g'' 9"
      using k(1) by (auto simp: new_builder_def split: if_splits)
    moreover have "\<not> (key = ''f'' \<and> s = sample_snapshot ''g'' 9)"
      using k(3) ne by (auto simp: file_id_path_pair_id_def sample_loads_def sample_snapshot_def)
    ultimately show ?thesis using k(2) x by (auto simp: sample_snapshot_def)
  qed
qed

text \<open>C12. A root is called downloaded only on evidence: on sizes that are not negative the decision does not
  raise, it changes the state of a root that is not downloaded only to downloaded, and then the local
  tree covers the remote one, or the file is a final local-only file with the persisted marker; a
  downloaded root of a remote tree with bytes carries exactly its size, one hundred percent, no speed
  and no remaining time.\<close>

theorem downloaded_only_on_evidence:
  assumes "pred_option (\<lambda>r. 0 \<le> sf_size r) (ri_remote x)" "opt_nonneg (fa_local_size (attrs f))" "opt_nonneg (fa_remote_size (attrs f))"
    "mf_state f \<noteq> DOWNLOADED"
  shows "\<exists>b' g incomplete source'. check_root_downloaded loads x f source b = Inr (b', g, incomplete, source') \<and>
    (mf_state g = mf_state f \<or> mf_state g = DOWNLOADED \<and>
       (effective_local_tree_proves_completion (ri_remote x) (ri_local x) \<or>
        \<not> a_is_dir (attrs f) \<and> fa_local_size (attrs f) \<noteq> None \<and> fa_remote_size (attrs f) = None \<and>
        is_authoritative_local_file (ri_local x) \<and> model_file_matches_persisted_name f (b_downloaded_files b))) \<and>
    (\<forall>r. ri_remote x = Some r \<and> 0 < sf_size r \<and> mf_state g = DOWNLOADED \<longrightarrow> carries_total (sf_size r) g)"
proof -
  obtain b' g incomplete source' where c: "check_root_downloaded loads x f source b = Inr (b', g, incomplete, source')"
    "\<forall>r. ri_remote x = Some r \<longrightarrow> 0 < sf_size r \<longrightarrow> mf_state g = DOWNLOADED \<longrightarrow> carries_total (sf_size r) g"
    using check_root_runs[OF assms(1-3)] by blast
  have "mf_state g = mf_state f \<or> mf_state g = DOWNLOADED \<and> evidence x b f" using check_root_settles[OF c(1) assms(4)] by (simp add: settles_def)
  with c show ?thesis unfolding evidence_def by blast
qed

theorem downloaded_only_on_evidence_witness:
  "\<exists>b' g incomplete source'. check_root_downloaded sample_loads sample_input sample_root ''s'' new_builder = Inr (b', g, incomplete, source') \<and>
     mf_state g = DOWNLOADED \<and> carries_total 3 g"
proof -
  have x: "pred_option (\<lambda>r. 0 \<le> sf_size r) (ri_remote sample_input)" "opt_nonneg (fa_local_size (attrs sample_root))"
    "opt_nonneg (fa_remote_size (attrs sample_root))" "mf_state sample_root \<noteq> DOWNLOADED"
    by (simp_all add: sample_input_def sample_leaf_def sample_root_def put_state_def new_model_file_def opt_nonneg_def)
  have s: "case check_root_downloaded sample_loads sample_input sample_root ''s'' new_builder of Inr (_, g, _) \<Rightarrow> mf_state g = DOWNLOADED | Inl _ \<Rightarrow> False"
    by code_simp
  have r: "ri_remote sample_input = Some (sample_leaf ''a'' 3 5 0)" "sf_size (sample_leaf ''a'' 3 5 0) = 3" by (simp_all add: sample_input_def sample_leaf_def)
  from downloaded_only_on_evidence[OF x, of sample_loads "''s''" new_builder] s r show ?thesis by auto
qed

text \<open>C13. Every state a root is published with has its reason: a root that entered as default, downloading or
  queued leaves with a failed move exactly when its marker is there (unless a validation status says
  so), downloaded only on evidence, extracted only when it is final, evident and marked, extracting only under
  an extraction status, deleted only when it was default, has no local size, its pair was
  scanned and the downloaded marker is there, with the state of a validation status only when
  both sizes are known, and otherwise with the state it entered with.\<close>

theorem published_state_has_its_reason:
  assumes "settle_root loads x f source b = Inr (b', g, source')" "mf_state f \<in> {DEFAULT, DOWNLOADING, QUEUED}"
  shows "(file_id f \<in> move_failed_files b \<longrightarrow> mf_state g = MOVE_FAILED) \<and> (validation_reason b f (mf_state g) \<or> state_reason x b f (mf_state g))"
  by (rule settle_root_reason[OF assms])

theorem published_state_has_its_reason_witness:
  "case settle_root sample_loads sample_input sample_root ''s'' (new_builder\<lparr>move_failed_files := {''a''}\<rparr>) of
     Inr (_, g, _) \<Rightarrow> mf_state g = MOVE_FAILED | Inl _ \<Rightarrow> False"
proof -
  let ?b = "new_builder\<lparr>move_failed_files := {''a''}\<rparr>"
  have s: "case settle_root sample_loads sample_input sample_root ''s'' ?b of Inr _ \<Rightarrow> True | Inl _ \<Rightarrow> False" by code_simp
  then obtain b' g src where r: "settle_root sample_loads sample_input sample_root ''s'' ?b = Inr (b', g, src)"
    by (auto split: sum.splits prod.splits)
  have m: "mf_state sample_root \<in> {DEFAULT, DOWNLOADING, QUEUED}" "file_id sample_root \<in> move_failed_files ?b" by code_simp+
  from published_state_has_its_reason[OF r m(1)] m(2) r show ?thesis by simp
qed

end
