(* ===== verification/Model_Pages.thy ===== *)
theory Model_Pages
  imports Model_Api Config_Values
begin

text \<open>
  The pages of the model a browser reads: the queries of \<open>Controller\<close> (\<open>controller/controller.py\<close>) that
  select the files of a scope, and the request parameters and cursors of \<open>web/handler/model_api.py\<close>.

  A scope is the identifier of a path pair, or a fixed name for the files of none. The four methods run
  under the lock of the model, so each is a function of it. A record is the dictionary the source
  builds; how a time is written is the argument \<open>stamp\<close>. The text of a cursor is made and read by the
  arguments \<open>enc\<close> and \<open>dec\<close>, which stand for JSON in base64 without padding.
\<close>

section \<open>Identities in a scope\<close>

definition MODEL_LEGACY_SCOPE_ID :: string where
  "MODEL_LEGACY_SCOPE_ID = ''__legacy__''"

definition expected_pair :: "string \<Rightarrow> string option" where
  "expected_pair scope_id = (if scope_id = MODEL_LEGACY_SCOPE_ID then None else Some scope_id)"

abbreviation page_error :: "string \<Rightarrow> py_error" where
  "page_error msg \<equiv> AppError ''ModelPageCursorError'' msg"

definition text_of_codes :: "nat list \<Rightarrow> string option" where
  "text_of_codes cps = (if list_all (\<lambda>n. n < 256) cps then Some (map char_of cps) else None)"

text \<open>The two texts of a JSON list, as \<open>json.dumps\<close> writes it. Another spelling of the same list is read by
  \<open>json.loads\<close> too, and then refused because it is not the canonical one.\<close>

definition decode_identity :: "string \<Rightarrow> (string \<times> string) option" where
  "decode_identity s =
     (if \<not> startswith s ''['' then None
      else case scan_quoted (drop 1 s) of
        None \<Rightarrow> None
      | Some (a, r) \<Rightarrow>
          if \<not> startswith r '','' then None
          else case scan_quoted (drop 1 r) of
            None \<Rightarrow> None
          | Some (b, q) \<Rightarrow>
              (case (text_of_codes a, text_of_codes b) of (Some x, Some y) \<Rightarrow> if q = '']'' then Some (x, y) else None | _ \<Rightarrow> None))"

definition identity_path :: "string \<Rightarrow> string \<Rightarrow> string result" where
  "identity_path scope_id fid =
     (if scope_id = MODEL_LEGACY_SCOPE_ID then Inr fid
      else case decode_identity fid of
        None \<Rightarrow> Inl (page_error ''File identity is malformed'')
      | Some (pair, path) \<Rightarrow>
          if pair \<noteq> scope_id then Inl (page_error ''File identity is outside this path-pair scope'') else Inr path)"

definition scoped_file_path :: "string \<Rightarrow> string \<Rightarrow> string result" where
  "scoped_file_path scope_id fid =
     rbind (identity_path scope_id fid) (\<lambda>path.
       if path = [] \<or> startswith path ''/'' then Inl (page_error ''File identity is malformed'')
       else
         (let normalized = normpath path
          in if normalized \<in> {''.'', ''..''} \<or> startswith normalized ''../'' then Inl (page_error ''File identity is malformed'')
             else if build_file_id normalized (expected_pair scope_id) \<noteq> fid then Inl (page_error ''File identity is not canonical'')
             else Inr normalized))"

definition is_model_error :: "py_error \<Rightarrow> bool" where
  "is_model_error e = (case e of AppError c _ \<Rightarrow> c = ''ModelError'' | _ \<Rightarrow> False)"

fun descend :: "string list \<Rightarrow> model_file \<Rightarrow> model_file result" where
  "descend [] f = Inr f"
| "descend (c # cs) f =
     (case find (\<lambda>g. mf_name g = c) (kids f) of
        None \<Rightarrow> Inl (page_error ''File does not exist in this path-pair scope'')
      | Some g \<Rightarrow> descend cs g)"

definition resolve_scoped_model_file :: "string \<Rightarrow> string \<Rightarrow> model \<Rightarrow> model_file result" where
  "resolve_scoped_model_file scope_id fid m =
     rbind (scoped_file_path scope_id fid) (\<lambda>path.
       (let components = split_on (CHR ''/'') path
        in if [] \<in> set components then Inl (page_error ''File identity is malformed'')
           else case get_file (build_file_id (hd components) (expected_pair scope_id)) m of
             Inl e \<Rightarrow> Inl (if is_model_error e then page_error ''File does not exist in this path-pair scope'' else e)
           | Inr current \<Rightarrow>
               if fa_path_pair_id (attrs current) \<noteq> expected_pair scope_id then Inl (page_error ''File is outside this path-pair scope'')
               else rbind (descend (tl components) current) (\<lambda>f.
                 if file_id f \<noteq> fid then Inl (page_error ''File identity is not canonical'') else Inr f)))"

section \<open>Selecting the files of a page\<close>

text \<open>\<open>iter_files_by_id\<close> as its consumer sees it.\<close>

definition roots_in_order :: "model \<Rightarrow> model_file list result" where
  "roots_in_order m =
     (let fs = iter_files_by_id m in if None \<in> set fs then Inl KeyError else Inr (map the fs))"

definition scoped_model_file_candidates :: "string \<Rightarrow> string option \<Rightarrow> model \<Rightarrow> model_file list result" where
  "scoped_model_file_candidates scope_id parent m =
     (case parent of
        Some fid \<Rightarrow> rbind (resolve_scoped_model_file scope_id fid m) (\<lambda>f. Inr (kids f))
      | None \<Rightarrow> rbind (roots_in_order m) (\<lambda>fs. Inr (filter (\<lambda>f. fa_path_pair_id (attrs f) = expected_pair scope_id) fs)))"

definition cursor_after :: "string option \<Rightarrow> pyval list option \<Rightarrow> string option" where
  "cursor_after cursor_file_id cursor_sort_key =
     (case cursor_sort_key of Some [PStr s] \<Rightarrow> Some s | _ \<Rightarrow> cursor_file_id)"

definition is_passed :: "string option \<Rightarrow> model_file \<Rightarrow> bool" where
  "is_passed after f = (case after of None \<Rightarrow> False | Some a \<Rightarrow> file_id f \<le> a)"

fun root_loop :: "int \<Rightarrow> string option \<Rightarrow> model_file list \<Rightarrow> int \<times> model_file list \<times> bool \<Rightarrow> int \<times> model_file list \<times> bool" where
  "root_loop limit after [] acc = acc"
| "root_loop limit after (f # fs) (n, selected, has_next) =
     root_loop limit after fs
       (if is_passed after f then (n + 1, selected, has_next)
        else if int (length selected) < limit then (n + 1, selected @ [f], has_next)
        else (n + 1, selected, True))"

text \<open>The heap keeps its greatest entry in front. Only the front and the set of entries are read, so
  it is the list of its entries in descending order; no two children of a directory have the
  same name, so no two entries are equal.\<close>

fun heap_push :: "model_file \<Rightarrow> model_file list \<Rightarrow> model_file list" where
  "heap_push f [] = [f]"
| "heap_push f (g # h) = (if file_id f < file_id g then g # heap_push f h else f # g # h)"

fun child_loop :: "int \<Rightarrow> string option \<Rightarrow> model_file list \<Rightarrow> int \<times> model_file list \<times> bool \<Rightarrow> (int \<times> model_file list \<times> bool) result" where
  "child_loop limit after [] acc = Inr acc"
| "child_loop limit after (f # fs) (n, heap, has_next) =
     (if is_passed after f then child_loop limit after fs (n + 1, heap, has_next)
      else if int (length heap) < limit then child_loop limit after fs (n + 1, heap_push f heap, has_next)
      else case heap of
        [] \<Rightarrow> Inl IndexError
      | g # h \<Rightarrow>
          child_loop limit after fs (if file_id f < file_id g then (n + 1, heap_push f h, True) else (n + 1, heap, True)))"

definition bounded_model_page_files ::
  "model_file list \<Rightarrow> int \<Rightarrow> string option \<Rightarrow> pyval list option \<Rightarrow> string option \<Rightarrow> (int \<times> model_file list \<times> bool) result" where
  "bounded_model_page_files candidates limit cursor_file_id cursor_sort_key parent =
     (let after = cursor_after cursor_file_id cursor_sort_key
      in if parent = None then Inr (root_loop limit after candidates (0, [], False))
         else rbind (child_loop limit after candidates (0, [], False)) (\<lambda>(n, heap, has_next). Inr (n, sort_key file_id heap, has_next)))"

section \<open>Records\<close>

definition state_name :: "file_state \<Rightarrow> string" where
  "state_name s =
     (case s of DEFAULT \<Rightarrow> ''default'' | DOWNLOADING \<Rightarrow> ''downloading'' | QUEUED \<Rightarrow> ''queued'' | DOWNLOADED \<Rightarrow> ''downloaded''
      | DELETED \<Rightarrow> ''deleted'' | EXTRACTING \<Rightarrow> ''extracting'' | EXTRACTED \<Rightarrow> ''extracted'' | VALIDATING \<Rightarrow> ''validating''
      | VALIDATED \<Rightarrow> ''validated'' | CORRUPT \<Rightarrow> ''corrupt'' | MOVE_FAILED \<Rightarrow> ''move_failed'')"

definition stamp_value :: "(int \<Rightarrow> string) \<Rightarrow> int option \<Rightarrow> pyval" where
  "stamp_value stamp t = (case t of None \<Rightarrow> PNone | Some n \<Rightarrow> PStr (stamp n))"

definition model_file_page_record :: "(int \<Rightarrow> string) \<Rightarrow> model_file \<Rightarrow> (string, pyval) dict" where
  "model_file_page_record stamp f =
     (let a = attrs f in
      [(''name'', PStr (mf_name f)), (''is_dir'', PBool (a_is_dir a)), (''state'', PStr (state_name (mf_state f))),
       (''remote_size'', of_opt_int (fa_remote_size a)), (''local_size'', of_opt_int (fa_local_size a)),
       (''remote_present'', PBool (a_remote_present a)), (''local_present'', PBool (a_local_present a)),
       (''remote_has_transferable_content'', PBool (a_remote_content a)),
       (''transferred_size'', of_opt_int (a_transferred_size a)), (''display_size_total'', of_opt_int (a_display_size_total a)),
       (''display_transferred_size'', of_opt_int (a_display_transferred_size a)),
       (''download_progress'', of_opt_int (a_download_progress a)), (''downloading_speed'', of_opt_int (a_downloading_speed a)),
       (''eta'', of_opt_int (a_eta a)), (''is_extractable'', PBool (a_is_extractable a)), (''is_stoppable'', PBool (a_is_stoppable a)),
       (''explicitly_stopped'', PBool (a_explicitly_stopped a)), (''complete_local_coverage'', PBool (a_complete_local_coverage a)),
       (''local_created_timestamp'', stamp_value stamp (fa_local_created a)), (''local_modified_timestamp'', stamp_value stamp (fa_local_modified a)),
       (''remote_created_timestamp'', stamp_value stamp (fa_remote_created a)), (''remote_modified_timestamp'', stamp_value stamp (fa_remote_modified a)),
       (''downloaded_timestamp'', stamp_value stamp (a_downloaded_timestamp a)), (''full_path'', PStr (full_path f)),
       (''file_id'', PStr (file_id f)), (''path_pair_id'', of_opt_str (fa_path_pair_id a)), (''path_pair_name'', of_opt_str (fa_path_pair_name a)),
       (''validation_progress'', of_opt_int (a_validation_progress a)), (''validation_error'', of_opt_str (a_validation_error a)),
       (''corrupt_chunks'', of_opt_ints (a_corrupt_chunks a)), (''final_move_succeeded'', PBool (a_final_move_succeeded a)),
       (''final_move_pending'', PBool (a_final_move_pending a)), (''children'', PList []), (''child_count'', PInt (child_count f)),
       (''has_children'', PBool (child_count f > 0))])"

definition progress_of :: "model_file \<Rightarrow> (string, pyval) dict" where
  "progress_of f =
     [(''download_progress'', of_opt_int (a_download_progress (attrs f))), (''transferred_size'', of_opt_int (a_transferred_size (attrs f))),
      (''downloading_speed'', of_opt_int (a_downloading_speed (attrs f))), (''eta'', of_opt_int (a_eta (attrs f)))]"

definition model_file_progress_presentation :: "model \<Rightarrow> model_file \<Rightarrow> (string, pyval) dict" where
  "model_file_progress_presentation m f =
     (case fst (published_file_with_job_identity (file_id f) m) of None \<Rightarrow> progress_of f | Some published \<Rightarrow> progress_of published)"

definition model_file_page_record_with_overlay :: "(int \<Rightarrow> string) \<Rightarrow> model \<Rightarrow> model_file \<Rightarrow> (string, pyval) dict" where
  "model_file_page_record_with_overlay stamp m f =
     fold (\<lambda>(k, v). dict_set k v) (model_file_progress_presentation m f) (model_file_page_record stamp f)"

text \<open>The state a summary counts a file under.\<close>

definition or_nought :: "int option \<Rightarrow> int" where
  "or_nought v = (case v of None \<Rightarrow> 0 | Some n \<Rightarrow> n)"

definition model_record_visible_state :: "model_file \<Rightarrow> string" where
  "model_record_visible_state f =
     (let a = attrs f; s = mf_state f;
          display = (a_display_size_total a \<noteq> None \<and> a_display_transferred_size a \<noteq> None);
          display_complete = (display \<and> or_nought (a_display_size_total a) > 0 \<and>
            or_nought (a_display_transferred_size a) \<ge> or_nought (a_display_size_total a));
          size = (if display then a_display_size_total a else fa_remote_size a);
          transferred = (if display then a_display_transferred_size a else a_transferred_size a);
          complete = (a_complete_local_coverage a \<and> (\<not> display \<or> display_complete) \<and> \<not> a_explicitly_stopped a);
          retained = (a_remote_content a \<and> or_nought size > 0 \<and> (or_nought transferred > 0 \<or> or_nought (a_download_progress a) > 0))
      in if a_final_move_pending a \<and> a_complete_local_coverage a \<and> \<not> a_explicitly_stopped a \<and> \<not> a_final_move_succeeded a \<and>
            s \<in> {DEFAULT, DOWNLOADING, DOWNLOADED} then ''moving''
         else if a_local_present a \<and> \<not> a_remote_content a \<and> \<not> (a_final_move_pending a \<and> a_complete_local_coverage a) then ''local_only''
         else if s \<in> {DEFAULT, DOWNLOADED} \<and> a_explicitly_stopped a then ''stopped''
         else if s = DEFAULT \<and> complete then ''downloaded''
         else if s = DEFAULT \<and> retained then ''stopped''
         else if s = DOWNLOADED then ''downloaded''
         else state_name s)"

section \<open>Pages and updates\<close>

record model_page =
  pg_model_version :: int
  pg_global_version :: int
  pg_path_pair_id :: string
  pg_parent_file_id :: "string option"
  pg_limit :: int
  pg_total :: int
  pg_records :: "(string, pyval) dict list"
  pg_next_file_id :: "string option"
  pg_next_sort_key :: "pyval list option"

definition get_model_page_locked ::
  "(int \<Rightarrow> string) \<Rightarrow> string \<Rightarrow> int \<Rightarrow> string option \<Rightarrow> pyval list option \<Rightarrow> string option \<Rightarrow> model \<Rightarrow> model_page result" where
  "get_model_page_locked stamp scope_id limit cursor_file_id cursor_sort_key parent m =
     rbind (scoped_model_file_candidates scope_id parent m) (\<lambda>candidates.
     rbind (bounded_model_page_files candidates limit cursor_file_id cursor_sort_key parent) (\<lambda>(n, files, has_next).
       (let next_id = (if has_next \<and> files \<noteq> [] then Some (file_id (last files)) else None)
        in Inr \<lparr>pg_model_version = scope_version (expected_pair scope_id) m, pg_global_version = m_version m,
             pg_path_pair_id = scope_id, pg_parent_file_id = parent, pg_limit = limit, pg_total = n,
             pg_records = map (model_file_page_record_with_overlay stamp m) files, pg_next_file_id = next_id,
             pg_next_sort_key = (case next_id of None \<Rightarrow> None | Some i \<Rightarrow> if i = [] then None else Some [PStr i])\<rparr>)))"

record root_updates =
  ru_model_version :: int
  ru_global_version :: int
  ru_records :: "(string, pyval) dict list"
  ru_removed :: "string list"

definition changed_root_id :: "string \<Rightarrow> string \<Rightarrow> string list" where
  "changed_root_id scope_id fid =
     (case scoped_file_path scope_id fid of
        Inl _ \<Rightarrow> []
      | Inr path \<Rightarrow> [build_file_id (hd (split_on (CHR ''/'') path)) (expected_pair scope_id)])"

fun collect_updates ::
  "(int \<Rightarrow> string) \<Rightarrow> string \<Rightarrow> model \<Rightarrow> string list \<Rightarrow> ((string, pyval) dict list \<times> string list) result" where
  "collect_updates stamp scope_id m [] = Inr ([], [])"
| "collect_updates stamp scope_id m (i # is) =
     (case get_file i m of
        Inl e \<Rightarrow>
          if is_model_error e then rbind (collect_updates stamp scope_id m is) (\<lambda>(rs, ds). Inr (rs, i # ds)) else Inl e
      | Inr f \<Rightarrow>
          rbind (collect_updates stamp scope_id m is) (\<lambda>(rs, ds).
            if fa_path_pair_id (attrs f) = expected_pair scope_id
            then Inr (model_file_page_record_with_overlay stamp m f # rs, ds) else Inr (rs, i # ds)))"

definition get_model_root_updates :: "(int \<Rightarrow> string) \<Rightarrow> string \<Rightarrow> string list \<Rightarrow> model \<Rightarrow> root_updates result" where
  "get_model_root_updates stamp scope_id fids m =
     rbind (collect_updates stamp scope_id m (sorted_list_of_set (set (concat (map (changed_root_id scope_id) fids))))) (\<lambda>(records, removed).
       Inr \<lparr>ru_model_version = scope_version (expected_pair scope_id) m, ru_global_version = m_version m,
            ru_records = records, ru_removed = removed\<rparr>)"

definition get_model_scope_version_snapshot :: "string \<Rightarrow> model \<Rightarrow> int \<times> int" where
  "get_model_scope_version_snapshot scope_id m = (scope_version (expected_pair scope_id) m, m_version m)"

section \<open>What a page of roots holds\<close>

lemma root_loop_spec:
  assumes "0 \<le> limit" "int (length sel) \<le> limit"
  shows "root_loop limit after cs (n, sel, b) =
    (let rest = filter (\<lambda>f. \<not> is_passed after f) cs
     in (n + int (length cs), sel @ take (nat limit - length sel) rest, b \<or> limit < int (length sel + length rest)))"
  using assms
proof (induction cs arbitrary: n sel b)
  case (Cons f cs)
  consider "is_passed after f" | "\<not> is_passed after f" "int (length sel) < limit" | "\<not> is_passed after f" "int (length sel) = limit"
    using Cons.prems by linarith
  then show ?case
  proof cases
    case 1
    then show ?thesis using Cons.IH[OF Cons.prems] by (simp add: Let_def)
  next
    case 2
    then have "nat limit - length sel = Suc (nat limit - length (sel @ [f]))" by simp
    then show ?thesis using 2 Cons.IH[of "sel @ [f]"] Cons.prems(1) by (simp add: Let_def ac_simps)
  next
    case 3
    then have "nat limit - length sel = 0" by simp
    then show ?thesis using 3 Cons.IH[OF Cons.prems, of "n + 1" True] by (simp add: Let_def)
  qed
qed (simp add: Let_def)

lemma roots_in_order_ok:
  assumes "minv R m"
  shows "\<exists>fs. roots_in_order m = Inr fs \<and> map file_id fs = m_ordered m \<and> (\<forall>f. f \<in> set fs \<longleftrightarrow> map_of (m_files m) (file_id f) = Some f)"
proof -
  have r: "roots_ok (m_files m) (m_ordered m) (m_by_name m)" using assms by (simp add: minv_def)
  have some: "\<exists>f. map_of (m_files m) i = Some f \<and> file_id f = i" if "i \<in> set (m_ordered m)" for i
  proof -
    have "map_of (m_files m) i \<noteq> None" using r that by (simp add: roots_ok_def map_of_eq_None_iff)
    with r show ?thesis by (auto simp: roots_ok_def)
  qed
  let ?fs = "map (\<lambda>i. the (map_of (m_files m) i)) (m_ordered m)"
  have "None \<notin> set (iter_files_by_id m)" using some by (force simp: iter_files_by_id_def)
  then have "roots_in_order m = Inr ?fs" by (simp add: roots_in_order_def iter_files_by_id_def comp_def Let_def)
  moreover have "map file_id ?fs = m_ordered m"
  proof -
    have "file_id (the (map_of (m_files m) i)) = i" if "i \<in> set (m_ordered m)" for i using some[OF that] by auto
    then show ?thesis by (simp add: comp_def map_idI)
  qed
  moreover have "f \<in> set ?fs \<longleftrightarrow> map_of (m_files m) (file_id f) = Some f" for f
  proof
    assume "f \<in> set ?fs"
    with some show "map_of (m_files m) (file_id f) = Some f" by fastforce
  next
    assume f: "map_of (m_files m) (file_id f) = Some f"
    then have "file_id f \<in> fst ` set (m_files m)" by (force dest: map_of_SomeD)
    with r have "file_id f \<in> set (m_ordered m)" by (simp add: roots_ok_def)
    with f show "f \<in> set ?fs" by force
  qed
  ultimately show ?thesis by blast
qed

text \<open>The roots of a scope in the order of their identities.\<close>

definition scope_roots :: "string \<Rightarrow> model \<Rightarrow> model_file list" where
  "scope_roots scope_id m = (case scoped_model_file_candidates scope_id None m of Inl _ \<Rightarrow> [] | Inr fs \<Rightarrow> fs)"

lemma sorted_ids_filter: "sorted_wrt (<) (map f xs) \<Longrightarrow> sorted_wrt (<) (map f (filter P xs))"
  by (induction xs) auto

lemma scope_roots_ok:
  assumes "minv R m"
  shows "scoped_model_file_candidates scope_id None m = Inr (scope_roots scope_id m)"
    "sorted_wrt (<) (map file_id (scope_roots scope_id m))"
    "f \<in> set (scope_roots scope_id m) \<longleftrightarrow> map_of (m_files m) (file_id f) = Some f \<and> fa_path_pair_id (attrs f) = expected_pair scope_id"
proof -
  obtain fs where fs: "roots_in_order m = Inr fs" "map file_id fs = m_ordered m" "\<forall>f. f \<in> set fs \<longleftrightarrow> map_of (m_files m) (file_id f) = Some f"
    using roots_in_order_ok[OF assms] by blast
  let ?rs = "filter (\<lambda>f. fa_path_pair_id (attrs f) = expected_pair scope_id) fs"
  have c: "scoped_model_file_candidates scope_id None m = Inr ?rs" using fs(1) by (simp add: scoped_model_file_candidates_def)
  then have rs: "scope_roots scope_id m = ?rs" by (simp add: scope_roots_def)
  show "scoped_model_file_candidates scope_id None m = Inr (scope_roots scope_id m)" by (simp add: c rs)
  have "sorted_wrt (<) (m_ordered m)" using assms by (simp add: minv_def roots_ok_def strict_sorted_iff)
  then show "sorted_wrt (<) (map file_id (scope_roots scope_id m))" unfolding rs fs(2)[symmetric] by (rule sorted_ids_filter)
  show "f \<in> set (scope_roots scope_id m) \<longleftrightarrow> map_of (m_files m) (file_id f) = Some f \<and> fa_path_pair_id (attrs f) = expected_pair scope_id"
    using fs(3) by (auto simp: rs)
qed

definition record_id :: "(string, pyval) dict \<Rightarrow> string option" where
  "record_id r = (case dict_get r ''file_id'' of Some (PStr s) \<Rightarrow> Some s | _ \<Rightarrow> None)"

lemma record_id_page: "record_id (model_file_page_record_with_overlay stamp m f) = Some (file_id f)"
proof -
  have k: "dict_get (fold (\<lambda>(k, v). dict_set k v) (progress_of g) d) ''file_id'' = dict_get d ''file_id''" for g d
    by (simp add: progress_of_def)
  have "dict_get (model_file_page_record_with_overlay stamp m f) ''file_id'' = Some (PStr (file_id f))"
    unfolding model_file_page_record_with_overlay_def model_file_progress_presentation_def
    by (cases "fst (published_file_with_job_identity (file_id f) m)") (simp_all add: k, simp_all add: model_file_page_record_def Let_def)
  then show ?thesis by (simp add: record_id_def)
qed

definition page_of :: "(int \<Rightarrow> string) \<Rightarrow> string \<Rightarrow> int \<Rightarrow> string option \<Rightarrow> model \<Rightarrow> model_page result" where
  "page_of stamp scope_id limit cursor m =
     get_model_page_locked stamp scope_id limit cursor (case cursor of None \<Rightarrow> None | Some i \<Rightarrow> if i = [] then None else Some [PStr i]) None m"

definition roots_after :: "string \<Rightarrow> string option \<Rightarrow> model \<Rightarrow> model_file list" where
  "roots_after scope_id cursor m = filter (\<lambda>f. \<not> is_passed cursor f) (scope_roots scope_id m)"

lemma page_of_spec:
  assumes "minv R m" "0 < limit"
  shows "\<exists>p. page_of stamp scope_id limit cursor m = Inr p \<and>
    pg_records p = map (model_file_page_record_with_overlay stamp m) (take (nat limit) (roots_after scope_id cursor m)) \<and>
    pg_total p = int (length (scope_roots scope_id m)) \<and>
    pg_next_file_id p = (if limit < int (length (roots_after scope_id cursor m))
       then Some (file_id (roots_after scope_id cursor m ! (nat limit - 1))) else None)"
proof -
  have a: "cursor_after cursor (case cursor of None \<Rightarrow> None | Some i \<Rightarrow> if i = [] then None else Some [PStr i]) = cursor"
    by (cases cursor) (simp_all add: cursor_after_def)
  let ?rest = "roots_after scope_id cursor m"
  have l: "last (take (nat limit) ?rest) = ?rest ! (nat limit - 1)" if "limit < int (length ?rest)"
    using that assms(2) by (subst last_conv_nth) (auto simp: min_def)
  have ne: "take (nat limit) ?rest \<noteq> []" if "limit < int (length ?rest)" using that assms(2) by (cases ?rest) auto
  show ?thesis
    unfolding page_of_def get_model_page_locked_def scope_roots_ok(1)[OF assms(1)] rbind_simps bounded_model_page_files_def a
    using root_loop_spec[of limit "[]" cursor "scope_roots scope_id m" 0 False] assms(2) l ne
    by (simp add: Let_def roots_after_def)
qed

section \<open>Following the cursor\<close>

text \<open>The pages a client reads one after the other, each from the model as it is at that time.\<close>

inductive page_chain :: "(int \<Rightarrow> string) \<Rightarrow> string \<Rightarrow> int \<Rightarrow> string option \<Rightarrow> model list \<Rightarrow> model_page list \<Rightarrow> bool"
  for stamp scope_id limit where
  last_page: "page_of stamp scope_id limit c m = Inr p \<Longrightarrow> pg_next_file_id p = None \<Longrightarrow> page_chain stamp scope_id limit c [m] [p]"
| next_page: "page_of stamp scope_id limit c m = Inr p \<Longrightarrow> pg_next_file_id p = Some i \<Longrightarrow> page_chain stamp scope_id limit (Some i) ms ps \<Longrightarrow>
    page_chain stamp scope_id limit c (m # ms) (p # ps)"

definition page_ids :: "model_page \<Rightarrow> string option list" where
  "page_ids p = map record_id (pg_records p)"

definition beyond :: "string option \<Rightarrow> string \<Rightarrow> bool" where
  "beyond c i = (case c of None \<Rightarrow> True | Some a \<Rightarrow> a < i)"

lemma roots_after_ids: "map file_id (roots_after scope_id c m) = filter (beyond c) (map file_id (scope_roots scope_id m))"
proof -
  have "(\<not> is_passed c f) = beyond c (file_id f)" for f by (cases c) (auto simp: is_passed_def beyond_def)
  then show ?thesis by (simp add: roots_after_def filter_map comp_def)
qed

lemma page_ids_of:
  assumes "minv R m" "0 < limit" "page_of stamp scope_id limit c m = Inr p"
  shows "page_ids p = map Some (take (nat limit) (filter (beyond c) (map file_id (scope_roots scope_id m))))"
    "pg_next_file_id p = (if limit < int (length (filter (beyond c) (map file_id (scope_roots scope_id m))))
       then Some (filter (beyond c) (map file_id (scope_roots scope_id m)) ! (nat limit - 1)) else None)"
proof -
  have len: "length (filter (beyond c) (map file_id (scope_roots scope_id m))) = length (roots_after scope_id c m)"
    by (metis roots_after_ids length_map)
  obtain q where q: "page_of stamp scope_id limit c m = Inr q"
    "pg_records q = map (model_file_page_record_with_overlay stamp m) (take (nat limit) (roots_after scope_id c m))"
    "pg_next_file_id q = (if limit < int (length (roots_after scope_id c m))
       then Some (file_id (roots_after scope_id c m ! (nat limit - 1))) else None)"
    using page_of_spec[OF assms(1,2)] by blast
  then have p: "q = p" using assms(3) by simp
  have "page_ids p = map (\<lambda>f. Some (file_id f)) (take (nat limit) (roots_after scope_id c m))"
    using q(2) by (simp add: page_ids_def p record_id_page comp_def)
  also have "\<dots> = map Some (take (nat limit) (map file_id (roots_after scope_id c m)))" by (simp add: take_map comp_def)
  finally show "page_ids p = map Some (take (nat limit) (filter (beyond c) (map file_id (scope_roots scope_id m))))"
    unfolding roots_after_ids .
  have "file_id (roots_after scope_id c m ! (nat limit - 1)) = filter (beyond c) (map file_id (scope_roots scope_id m)) ! (nat limit - 1)"
    if "limit < int (length (roots_after scope_id c m))"
    unfolding roots_after_ids[symmetric] using that assms(2) by (subst nth_map) auto
  then show "pg_next_file_id p = (if limit < int (length (filter (beyond c) (map file_id (scope_roots scope_id m))))
       then Some (filter (beyond c) (map file_id (scope_roots scope_id m)) ! (nat limit - 1)) else None)"
    using q(3) unfolding p len by simp
qed

text \<open>A prefix of a strictly increasing list: what is in it, what is not.\<close>

lemma increasing_take:
  fixes xs :: "'a :: linorder list"
  assumes "sorted_wrt (<) xs" "0 < k" "k < length xs"
  shows "\<forall>x \<in> set (take k xs). x \<le> xs ! (k - 1)" "\<forall>x \<in> set xs. x \<le> xs ! (k - 1) \<longrightarrow> x \<in> set (take k xs)"
    "filter (\<lambda>x. xs ! (k - 1) < x) xs = drop k xs"
proof -
  have split: "xs = take (k - 1) xs @ xs ! (k - 1) # drop k xs"
    using assms(2,3) id_take_nth_drop[of "k - 1" xs] by simp
  have tk: "take k xs = take (k - 1) xs @ [xs ! (k - 1)]"
    using assms(2,3) take_Suc_conv_app_nth[of "k - 1" xs] by simp
  define y ys zs where d: "y = xs ! (k - 1)" "ys = take (k - 1) xs" "zs = drop k xs"
  have s: "sorted_wrt (<) (ys @ y # zs)" using assms(1) split by (simp add: d)
  then have lt: "\<forall>x \<in> set ys. x < y" "\<forall>x \<in> set zs. y < x" by (auto simp: sorted_wrt_append)
  show "\<forall>x \<in> set (take k xs). x \<le> xs ! (k - 1)" using lt unfolding tk d[symmetric] by auto
  show "\<forall>x \<in> set xs. x \<le> xs ! (k - 1) \<longrightarrow> x \<in> set (take k xs)"
  proof (intro ballI impI)
    fix x assume x: "x \<in> set xs" "x \<le> xs ! (k - 1)"
    have "x \<in> set (ys @ y # zs)" using x(1) split by (simp add: d)
    moreover have "x \<notin> set zs" using x(2) lt(2) by (auto simp: d(1))
    ultimately have "x \<in> set ys \<or> x = y" by auto
    then show "x \<in> set (take k xs)" by (auto simp: tk d)
  qed
  have "filter (\<lambda>x. y < x) (ys @ y # zs) = zs" using lt by (auto simp: filter_empty_conv filter_id_conv dest: less_asym)
  moreover have "xs = ys @ y # zs" unfolding d by (rule split)
  ultimately show "filter (\<lambda>x. xs ! (k - 1) < x) xs = drop k xs" unfolding d(1,3)[symmetric] by simp
qed

lemma page_chain_spec:
  assumes "page_chain stamp scope_id limit c ms ps" "0 < limit" "\<forall>m \<in> set ms. minv {} m"
  shows "\<exists>ids. concat (map page_ids ps) = map Some ids \<and> sorted_wrt (<) ids \<and> (\<forall>i \<in> set ids. beyond c i) \<and>
    (\<forall>fid. beyond c fid \<and> (\<forall>m \<in> set ms. fid \<in> file_id ` set (scope_roots scope_id m)) \<longrightarrow> fid \<in> set ids)"
  using assms
proof (induction rule: page_chain.induct)
  case (last_page c m p)
  let ?xs = "filter (beyond c) (map file_id (scope_roots scope_id m))"
  have inv: "minv {} m" using last_page by simp
  have s: "sorted_wrt (<) ?xs" using scope_roots_ok(2)[OF inv] by (rule sorted_wrt_filter)
  note p = page_ids_of[OF inv last_page(3,1)]
  have "int (length ?xs) \<le> limit" using p(2) last_page(2) by (simp split: if_splits)
  then have "page_ids p = map Some ?xs" using p(1) by simp
  with s show ?case by (intro exI[of _ ?xs]) auto
next
  case (next_page c m p i ms ps)
  let ?xs = "filter (beyond c) (map file_id (scope_roots scope_id m))"
  have inv: "minv {} m" using next_page.prems by simp
  have s: "sorted_wrt (<) ?xs" using scope_roots_ok(2)[OF inv] by (rule sorted_wrt_filter)
  note p = page_ids_of[OF inv next_page(5,1)]
  have k: "0 < nat limit" "nat limit < length ?xs" "i = ?xs ! (nat limit - 1)"
    using p(2) next_page(2,5) by (auto split: if_splits)
  note t = increasing_take[OF s k(1,2), folded k(3)]
  let ?ys = "take (nat limit) ?xs"
  have i: "i \<in> set ?xs" using k by (metis One_nat_def diff_less in_set_conv_nth less_trans zero_less_one)
  then have bi: "beyond c i" by simp
  obtain ids where ids: "concat (map page_ids ps) = map Some ids" "sorted_wrt (<) ids" "\<forall>j \<in> set ids. beyond (Some i) j"
    "\<forall>fid. beyond (Some i) fid \<and> (\<forall>m \<in> set ms. fid \<in> file_id ` set (scope_roots scope_id m)) \<longrightarrow> fid \<in> set ids"
    using next_page.IH next_page.prems by auto
  have gt: "\<forall>j \<in> set ids. i < j" using ids(3) by (simp add: beyond_def)
  have "sorted_wrt (<) (?ys @ ids)"
    using sorted_wrt_take[OF s] ids(2) t(1) gt by (auto simp: sorted_wrt_append intro: le_less_trans)
  moreover have "\<forall>j \<in> set (?ys @ ids). beyond c j"
  proof
    fix j assume "j \<in> set (?ys @ ids)"
    then consider "j \<in> set ?xs" | "i < j" using gt by (auto dest: in_set_takeD)
    then show "beyond c j" using bi by cases (auto simp: beyond_def split: option.splits intro: less_trans)
  qed
  moreover have "fid \<in> set (?ys @ ids)"
    if f: "beyond c fid" "\<forall>m' \<in> set (m # ms). fid \<in> file_id ` set (scope_roots scope_id m')" for fid
  proof (cases "fid \<le> i")
    case True
    have "fid \<in> set ?xs" using f by auto
    with t(2) True show ?thesis by auto
  next
    case False
    then have "beyond (Some i) fid" by (simp add: beyond_def)
    with ids(4) f(2) show ?thesis by auto
  qed
  moreover have "concat (map page_ids (p # ps)) = map Some (?ys @ ids)" using p(1) ids(1) by simp
  ultimately show ?case by blast
qed

lemma page_chain_complete:
  assumes "minv {} m" "0 < limit"
  shows "\<exists>ps. page_chain stamp scope_id limit c (replicate (length ps) m) ps"
proof (induction "length (filter (beyond c) (map file_id (scope_roots scope_id m)))" arbitrary: c rule: less_induct)
  case less
  let ?xs = "filter (beyond c) (map file_id (scope_roots scope_id m))"
  obtain p where p: "page_of stamp scope_id limit c m = Inr p" using page_of_spec[OF assms] by blast
  note n = page_ids_of(2)[OF assms p]
  show ?case
  proof (cases "pg_next_file_id p")
    case None
    with p have "page_chain stamp scope_id limit c [m] [p]" by (rule last_page)
    then show ?thesis by (intro exI[of _ "[p]"]) simp
  next
    case (Some i)
    have s: "sorted_wrt (<) ?xs" using scope_roots_ok(2)[OF assms(1)] by (rule sorted_wrt_filter)
    have k: "0 < nat limit" "nat limit < length ?xs" "i = ?xs ! (nat limit - 1)"
      using n Some assms(2) by (auto split: if_splits)
    have "i \<in> set ?xs" using k by (metis One_nat_def diff_less in_set_conv_nth less_trans zero_less_one)
    then have bi: "beyond c i" by simp
    from bi have "filter (beyond (Some i)) (map file_id (scope_roots scope_id m)) = filter (\<lambda>x. i < x) ?xs"
      unfolding filter_filter by (intro filter_cong refl) (auto simp: beyond_def split: option.splits intro: less_trans)
    then have "length (filter (beyond (Some i)) (map file_id (scope_roots scope_id m))) < length ?xs"
      using increasing_take(3)[OF s k(1,2)] k by simp
    from less[OF this] obtain ps where "page_chain stamp scope_id limit (Some i) (replicate (length ps) m) ps" by blast
    from next_page[OF p Some this] show ?thesis by (intro exI[of _ "p # ps"]) simp
  qed
qed

end
