(* ===== verification/Page_Lookups.thy ===== *)
theory Page_Lookups
  imports Model_Pages
begin

text \<open>
  What the other queries of the page interface give: a page of children is the sorted prefix of the
  children after the cursor, an identity is resolved only to the file that carries it, and an update
  of changed roots shows the roots of the model as they are.
\<close>

section \<open>Pages of children\<close>

lemma heap_push_rev:
  "\<forall>g \<in> set t. file_id g \<noteq> file_id f \<Longrightarrow> heap_push f (rev t) = rev (insort_key file_id f t)" if "sorted (map file_id t)"
  using that
proof (induction t rule: rev_induct)
  case (snoc g t)
  have push: "heap_push f (g # rev t) = (if file_id f < file_id g then g # heap_push f (rev t) else f # g # rev t)" by simp
  show ?case
  proof (cases "file_id f < file_id g")
    case True
    then have "insort_key file_id f (t @ [g]) = insort_key file_id f t @ [g]" by (induction t) auto
    with True snoc show ?thesis by (simp add: sorted_append)
  next
    case False
    have "\<forall>x \<in> set (t @ [g]). file_id x < file_id f"
    proof
      fix x assume x: "x \<in> set (t @ [g])"
      then have "file_id x \<le> file_id g" using snoc.prems(2) by (auto simp: sorted_append)
      moreover have "file_id g < file_id f" using snoc.prems(1) False by (auto simp: not_less le_less)
      ultimately show "file_id x < file_id f" by simp
    qed
    then have "insort_key file_id f (t @ [g]) = t @ [g, f]"
      by (induction t) auto
    with False show ?thesis by simp
  qed
qed simp

lemma take_insort:
  assumes "sorted (map file_id t)" "\<forall>g \<in> set t. file_id g \<noteq> file_id f" "0 < k" "k \<le> length t"
  shows "take k (insort_key file_id f t) = (if file_id f < file_id (t ! (k - 1)) then insort_key file_id f (take (k - 1) t) else take k t)"
  using assms
proof (induction t arbitrary: k)
  case (Cons g t)
  obtain j where k: "k = Suc j" using Cons.prems(3) by (cases k) auto
  show ?case
  proof (cases "file_id f \<le> file_id g")
    case True
    then have lt: "file_id f < file_id g" using Cons.prems(2) by (auto simp: le_less)
    have "file_id g \<le> file_id ((g # t) ! j)" using Cons.prems(1,4) k by (cases j) auto
    with lt have "file_id f < file_id ((g # t) ! (k - 1))" by (simp add: k)
    then show ?thesis using True by (cases j) (simp_all add: k)
  next
    case False
    then show ?thesis
    proof (cases j)
      case 0
      with False show ?thesis by (auto simp: k)
    next
      case (Suc i)
      with Cons.IH[of j] Cons.prems k False show ?thesis by auto
    qed
  qed
qed simp

lemma insort_set [simp]: "set (insort_key f x xs) = insert x (set xs)"
  by (rule set_insort_key)

lemma child_loop_spec:
  assumes "0 < limit" "sorted (map file_id t)" "distinct (map file_id (t @ filter (\<lambda>f. \<not> is_passed after f) cs))"
  shows "child_loop limit after cs (n, rev (take (nat limit) t), b) =
    (let rest = filter (\<lambda>f. \<not> is_passed after f) cs
     in Inr (n + int (length cs), rev (take (nat limit) (fold (insort_key file_id) rest t)), b \<or> rest \<noteq> [] \<and> limit < int (length t + length rest)))"
  using assms(2,3)
proof (induction cs arbitrary: n t b)
  case (Cons f cs)
  let ?k = "nat limit"
  show ?case
  proof (cases "is_passed after f")
    case True
    with Cons show ?thesis by (simp add: Let_def)
  next
    case False
    let ?t = "insort_key file_id f t"
    have "file_id f \<notin> file_id ` set t" using Cons.prems(2) False by auto
    then have new: "\<forall>g \<in> set t. file_id g \<noteq> file_id f" by (metis image_eqI)
    have d: "distinct (map file_id (?t @ filter (\<lambda>f. \<not> is_passed after f) cs))"
    proof -
      have "distinct (map file_id (f # t @ filter (\<lambda>f. \<not> is_passed after f) cs))" using Cons.prems(2) False by auto
      moreover have "mset (map file_id (?t @ filter (\<lambda>f. \<not> is_passed after f) cs)) = mset (map file_id (f # t @ filter (\<lambda>f. \<not> is_passed after f) cs))"
        by simp
      ultimately show ?thesis by (metis mset_eq_imp_distinct_iff)
    qed
    have st: "sorted (map file_id ?t)" using Cons.prems(1) by (simp add: sorted_insort_key)
    note IH = Cons.IH[OF st d]
    show ?thesis
    proof (cases "int (length t) < limit")
      case True
      then have tk: "take ?k t = t" "take ?k ?t = ?t" by simp_all
      have "heap_push f (rev t) = rev ?t" by (rule heap_push_rev[OF Cons.prems(1) new])
      then have "child_loop limit after (f # cs) (n, rev (take ?k t), b) = child_loop limit after cs (n + 1, rev (take ?k ?t), b)"
        using False True by (simp add: tk)
      moreover have "limit < int (length ?t + length (filter (\<lambda>f. \<not> is_passed after f) cs)) \<Longrightarrow> filter (\<lambda>f. \<not> is_passed after f) cs \<noteq> []"
        using True by (cases "filter (\<lambda>f. \<not> is_passed after f) cs") simp_all
      ultimately show ?thesis using False IH[of "n + 1" b] by (auto simp: Let_def)
    next
      case full: False
      have k: "0 < ?k" "?k \<le> length t" using full assms(1) by auto
      have tk: "take ?k t = take (?k - 1) t @ [t ! (?k - 1)]" using k take_Suc_conv_app_nth[of "?k - 1" t] by simp
      have sp: "sorted (map file_id (take (?k - 1) t))" using Cons.prems(1) by (simp add: take_map[symmetric] sorted_wrt_take)
      have "\<forall>g \<in> set (take (?k - 1) t). file_id g \<noteq> file_id f" using new by (auto dest: in_set_takeD)
      note push = heap_push_rev[OF sp this]
      have len: "\<not> int (length (rev (take ?k t))) < limit" using k by simp
      have heap: "rev (take ?k t) = t ! (?k - 1) # rev (take (?k - 1) t)" using tk by simp
      have step: "child_loop limit after (f # cs) (n, rev (take ?k t), b) =
          child_loop limit after cs (if file_id f < file_id (t ! (?k - 1)) then (n + 1, heap_push f (rev (take (?k - 1) t)), True) else (n + 1, rev (take ?k t), True))"
        using False len unfolding heap by (simp del: length_rev length_take)
      have "child_loop limit after (f # cs) (n, rev (take ?k t), b) = child_loop limit after cs (n + 1, rev (take ?k ?t), True)"
        unfolding step push take_insort[OF Cons.prems(1) new k] by (cases "file_id f < file_id (t ! (?k - 1))") simp_all
      then show ?thesis using False IH[of "n + 1" True] full by (simp add: Let_def)
    qed
  qed
qed simp

text \<open>A page of children is the sorted prefix of the children after the cursor.\<close>

lemma fold_insort_sort:
  assumes "inj_on f (set xs)"
  shows "fold (insort_key f) xs [] = sort_key f xs"
proof -
  have "fold (insort_key f) xs [] = sort_key f (rev xs)" by (simp add: sort_key_def foldr_conv_fold)
  also have "\<dots> = sort_key f xs"
    by (rule sort_key_inj_key_eq) (use assms in auto)
  finally show ?thesis .
qed

lemma sort_rev_sorted:
  assumes "inj_on f (set xs)" "sorted (map f xs)"
  shows "sort_key f (rev xs) = xs"
  by (rule sort_key_inj_key_eq) (use assms in auto)

lemma child_page_spec:
  assumes "0 < limit" "distinct (map file_id cs)" "parent \<noteq> None"
  shows "bounded_model_page_files cs limit cursor key parent =
    (let rest = filter (\<lambda>f. \<not> is_passed (cursor_after cursor key) f) cs
     in Inr (int (length cs), take (nat limit) (sort_key file_id rest), limit < int (length rest)))"
proof -
  let ?after = "cursor_after cursor key"
  let ?rest = "filter (\<lambda>f. \<not> is_passed ?after f) cs"
  have d: "distinct (map file_id ?rest)" using assms(2) by (simp add: distinct_map inj_on_def)
  then have inj: "inj_on file_id (set ?rest)" by (simp add: distinct_map)
  have f: "fold (insort_key file_id) ?rest [] = sort_key file_id ?rest" by (rule fold_insort_sort[OF inj])
  have l: "child_loop limit ?after cs (0, [], False) =
      Inr (int (length cs), rev (take (nat limit) (sort_key file_id ?rest)), ?rest \<noteq> [] \<and> limit < int (length ?rest))"
    using child_loop_spec[OF assms(1), of "[]" ?after cs 0 False] d by (simp add: Let_def f)
  have s: "sort_key file_id (rev (take (nat limit) (sort_key file_id ?rest))) = take (nat limit) (sort_key file_id ?rest)"
  proof (rule sort_rev_sorted)
    show "inj_on file_id (set (take (nat limit) (sort_key file_id ?rest)))"
      by (rule inj_on_subset[OF inj]) (auto dest: in_set_takeD)
    have "sorted (map file_id (sort_key file_id ?rest))" by (rule sorted_sort_key)
    then show "sorted (map file_id (take (nat limit) (sort_key file_id ?rest)))" by (simp add: take_map[symmetric] sorted_wrt_take)
  qed
  have "(?rest \<noteq> [] \<and> limit < int (length ?rest)) = (limit < int (length ?rest))" using assms(1) by auto
  with assms(3) l s show ?thesis by (auto simp: bounded_model_page_files_def Let_def)
qed

section \<open>Resolving an identity\<close>

text \<open>A file and the files below it.\<close>

inductive in_tree :: "model_file \<Rightarrow> model_file \<Rightarrow> bool" where
  here: "in_tree f f"
| below: "g \<in> set (kids f) \<Longrightarrow> in_tree h g \<Longrightarrow> in_tree h f"

lemma descend_in_tree: "descend cs f = Inr g \<Longrightarrow> in_tree g f"
proof (induction cs f rule: descend.induct)
  case (2 c cs f)
  then obtain h where h: "find (\<lambda>g. mf_name g = c) (kids f) = Some h" "descend cs h = Inr g" by (auto split: option.splits)
  then have "h \<in> set (kids f)" by (auto simp: find_Some_iff)
  then show ?case using 2(1)[OF h] by (rule below)
qed (simp add: here)

lemma get_file_ok:
  assumes "minv R m"
  shows "get_file i m = Inr f \<Longrightarrow> map_of (m_files m) (file_id f) = Some f"
    and "map_of (m_files m) i = Some f \<Longrightarrow> get_file i m = Inr f"
    and "get_file i m = Inl e \<Longrightarrow> is_model_error e"
    and "map_of (m_files m) i = None \<Longrightarrow> ids_by_name (m_files m) i = {} \<Longrightarrow> get_file i m = Inl does_not_exist"
proof -
  have r: "roots_ok (m_files m) (m_ordered m) (m_by_name m)" using assms by (simp add: minv_def)
  then have key: "map_of (m_files m) j = Some g \<Longrightarrow> file_id g = j" for j g by (auto simp: roots_ok_def)
  have name: "map_of (m_by_name m) n = some_nonempty (ids_by_name (m_files m) n)" for n using r by (simp add: roots_ok_def)
  show "map_of (m_files m) (file_id f) = Some f" if "get_file i m = Inr f"
    using that key by (auto simp: get_file_def rbind_Inr_iff split: option.splits)
  show "get_file i m = Inr f" if "map_of (m_files m) i = Some f" using that by (simp add: get_file_def resolve_file_id_def)
  show "get_file i m = Inl does_not_exist" if "map_of (m_files m) i = None" "ids_by_name (m_files m) i = {}"
    using that name[of i] by (simp add: get_file_def resolve_file_id_def some_nonempty_def)
  show "is_model_error e" if e: "get_file i m = Inl e"
  proof (cases "resolve_file_id i m")
    case (Inl e')
    then have "e' = does_not_exist \<or> e' = lookup_ambiguous" by (auto simp: resolve_file_id_def split: if_splits option.splits)
    moreover have "e = e'" using e Inl by (simp add: get_file_def)
    ultimately show ?thesis by (auto simp: is_model_error_def does_not_exist_def lookup_ambiguous_def)
  next
    case (Inr fid)
    have "map_of (m_files m) fid \<noteq> None"
    proof (cases "map_of (m_files m) i = None")
      case True
      then obtain s where s: "map_of (m_by_name m) i = Some s" "s \<noteq> {}" "\<not> card s > 1" "fid = the_elem s"
        using Inr by (auto simp: resolve_file_id_def split: if_splits option.splits)
      then have "s = ids_by_name (m_files m) i" using name[of i] by (auto simp: some_nonempty_def split: if_splits)
      moreover have "finite (ids_by_name (m_files m) i)"
        by (rule finite_subset[of _ "fst ` set (m_files m)"]) (force simp: ids_by_name_def dest: map_of_SomeD, simp)
      ultimately have "card s = 1" using s(2,3) by (metis One_nat_def Suc_leI card_gt_0_iff le_antisym not_less)
      then obtain x where "s = {x}" by (auto simp: card_1_singleton_iff)
      then have "fid \<in> ids_by_name (m_files m) i" using s(4) \<open>s = ids_by_name (m_files m) i\<close> by simp
      then show ?thesis by (auto simp: ids_by_name_def)
    qed (use Inr in \<open>auto simp: resolve_file_id_def\<close>)
    with e Inr show ?thesis by (auto simp: get_file_def)
  qed
qed

lemma resolved_file:
  assumes "minv R m" "resolve_scoped_model_file scope_id fid m = Inr f"
  shows "file_id f = fid \<and> (\<exists>r \<in> set (scope_roots scope_id m). in_tree f r)"
proof -
  obtain i r cs where r: "get_file i m = Inr r" "fa_path_pair_id (attrs r) = expected_pair scope_id" "descend cs r = Inr f" "file_id f = fid"
    using assms(2) by (auto simp: resolve_scoped_model_file_def rbind_Inr_iff Let_def split: if_splits sum.splits)
  have "r \<in> set (scope_roots scope_id m)" unfolding scope_roots_ok(3)[OF assms(1)] using get_file_ok(1)[OF assms(1) r(1)] r(2) by simp
  with descend_in_tree[OF r(3)] r(4) show ?thesis by blast
qed

section \<open>Updates of changed roots\<close>

text \<open>A name a file system gives.\<close>

definition file_name :: "string \<Rightarrow> bool" where
  "file_name n \<longleftrightarrow> n \<noteq> [] \<and> CHR ''/'' \<notin> set n \<and> n \<noteq> ''.'' \<and> n \<noteq> ''..''"

lemma text_of_codes_codes: "text_of_codes (codes s) = Some s"
proof -
  have "list_all (\<lambda>n. n < 256) (codes s)" using codes_bound by (auto simp: list_all_iff)
  moreover have "map char_of (codes s) = s" by (simp add: codes_def comp_def)
  ultimately show ?thesis by (simp add: text_of_codes_def)
qed

lemma decode_identity_build: "decode_identity (build_file_id p (Some s)) = Some (s, p)"
  by (simp add: decode_identity_def build_file_id_def startswith_def scan_quoted_dumps scalar_codes text_of_codes_codes)

lemma name_without_slash: "file_name n \<Longrightarrow> CHR ''/'' \<in> set p \<Longrightarrow> \<not> startswith n p"
  unfolding file_name_def startswith_def by (metis in_set_takeD)

lemma normpath_name: "file_name n \<Longrightarrow> normpath n = n"
proof -
  assume n: "file_name n"
  then have s: "split_on (CHR ''/'') n = [n]" by (simp add: file_name_def split_on_plain)
  have "\<not> startswith n ''/''" "\<not> startswith n ''//''" using name_without_slash[OF n] by simp_all
  with n s show ?thesis by (simp add: normpath_def Let_def norm_step_def file_name_def)
qed

lemma changed_root:
  assumes "file_name n"
  shows "changed_root_id scope_id (build_file_id n (expected_pair scope_id)) = [build_file_id n (expected_pair scope_id)]"
proof -
  let ?fid = "build_file_id n (expected_pair scope_id)"
  have i: "identity_path scope_id ?fid = Inr n"
    by (cases "scope_id = MODEL_LEGACY_SCOPE_ID")
      (simp_all add: identity_path_def expected_pair_def decode_identity_build build_file_id_def[of _ None])
  have "\<not> startswith n ''/''" "\<not> startswith n ''../''" using name_without_slash[OF assms] by simp_all
  then have "scoped_file_path scope_id ?fid = Inr n"
    using assms by (simp add: scoped_file_path_def i normpath_name[OF assms] Let_def) (simp add: file_name_def)
  then show ?thesis using assms by (simp add: changed_root_id_def split_on_plain file_name_def)
qed

lemma collect_updates_spec:
  assumes "minv R m"
  shows "\<exists>rs ds. collect_updates stamp scope_id m is = Inr (rs, ds) \<and>
    (\<forall>r \<in> set rs. \<exists>f \<in> set (scope_roots scope_id m). r = model_file_page_record_with_overlay stamp m f) \<and>
    (\<forall>i \<in> set is. case get_file i m of
        Inl _ \<Rightarrow> i \<in> set ds
      | Inr f \<Rightarrow> if fa_path_pair_id (attrs f) = expected_pair scope_id then model_file_page_record_with_overlay stamp m f \<in> set rs else i \<in> set ds) \<and>
    set ds \<subseteq> set is"
proof (induction "is")
  case (Cons i "is")
  then obtain rs ds where c: "collect_updates stamp scope_id m is = Inr (rs, ds)"
    "\<forall>r \<in> set rs. \<exists>f \<in> set (scope_roots scope_id m). r = model_file_page_record_with_overlay stamp m f"
    "\<forall>i \<in> set is. case get_file i m of
        Inl _ \<Rightarrow> i \<in> set ds
      | Inr f \<Rightarrow> if fa_path_pair_id (attrs f) = expected_pair scope_id then model_file_page_record_with_overlay stamp m f \<in> set rs else i \<in> set ds"
    "set ds \<subseteq> set is" by blast
  show ?case
  proof (cases "get_file i m")
    case (Inl e)
    then have "is_model_error e" by (rule get_file_ok(3)[OF assms])
    then have "collect_updates stamp scope_id m (i # is) = Inr (rs, i # ds)" using Inl c(1) by simp
    then show ?thesis using Inl c(2-4) by (intro exI[of _ rs] exI[of _ "i # ds"]) (auto split: sum.splits if_splits)
  next
    case (Inr f)
    show ?thesis
    proof (cases "fa_path_pair_id (attrs f) = expected_pair scope_id")
      case True
      then have "f \<in> set (scope_roots scope_id m)" unfolding scope_roots_ok(3)[OF assms] using get_file_ok(1)[OF assms Inr] by simp
      moreover have "collect_updates stamp scope_id m (i # is) = Inr (model_file_page_record_with_overlay stamp m f # rs, ds)" using Inr True c(1) by simp
      ultimately show ?thesis using Inr True c(2-4)
        by (intro exI[of _ "model_file_page_record_with_overlay stamp m f # rs"] exI[of _ ds]) (auto split: sum.splits if_splits)
    next
      case False
      then have "collect_updates stamp scope_id m (i # is) = Inr (rs, i # ds)" using Inr c(1) by simp
      then show ?thesis using Inr False c(2-4) by (intro exI[of _ rs] exI[of _ "i # ds"]) (auto split: sum.splits if_splits)
    qed
  qed
qed simp

end
