(* ===== verification/Model_Streams.thy ===== *)
theory Model_Streams
  imports Page_Lookups Keyed_Store
begin

text \<open>
  \<open>web/handler/model_api.py\<close>: the parameters and cursors of a page request, and the listeners that collect
  the changes of the model for a stream of events.

  A request parameter is a text or missing. A refused request ends in an HTTP status. A listener is
  called by the model and by the thread of its stream, each time under its lock, so its life is a
  sequence of these calls. Its event flag is the field \<open>sl_available\<close>.
\<close>

section \<open>Parameters\<close>

definition has_control :: "string \<Rightarrow> bool" where
  "has_control s = list_ex (\<lambda>c. code_of c < 32) s"

definition validate_scope_id :: "string \<Rightarrow> nat + string" where
  "validate_scope_id s = (if s = [] \<or> length s > 128 then Inl 400 else if has_control s then Inl 400 else Inr s)"

definition read_limit :: "string option \<Rightarrow> nat + int" where
  "read_limit raw =
     (if raw \<in> {None, Some []} then Inr 100
      else case int_of_str (the raw) of
        Inl _ \<Rightarrow> Inl 400
      | Inr n \<Rightarrow> if n < 1 \<or> n > 200 then Inl 400 else Inr n)"

definition read_parent_file_id :: "string option \<Rightarrow> nat + string" where
  "read_parent_file_id raw = (case raw of None \<Rightarrow> Inl 400 | Some s \<Rightarrow> if s = [] \<or> length s > 4096 then Inl 400 else Inr s)"

definition ALLOWED_STATUSES :: "string set" where
  "ALLOWED_STATUSES = {''default'', ''queued'', ''downloading'', ''downloaded'', ''stopped'', ''deleted'', ''extracting'', ''extracted'',
     ''validating'', ''validated'', ''corrupt'', ''move_failed'', ''move_succeeded'', ''local_only''}"

definition or_none :: "string option \<Rightarrow> string option" where
  "or_none s = (if s = Some [] then None else s)"

definition read_query :: "string option \<Rightarrow> string option \<Rightarrow> string option \<Rightarrow> nat + (int \<times> string option \<times> string option \<times> string)" where
  "read_query raw_sort status name =
     (case int_of_str (case raw_sort of None \<Rightarrow> ''1'' | Some s \<Rightarrow> s) of
        Inl _ \<Rightarrow> Inl 400
      | Inr mode \<Rightarrow>
          if mode \<notin> {0..12} then Inl 400
          else if opt_holds (\<lambda>s. s \<notin> ALLOWED_STATUSES) (or_none status) then Inl 400
          else if opt_holds (\<lambda>n. length n > 256 \<or> has_control n) (or_none name) then Inl 400
          else Inr (mode, or_none status, or_none name, ''identity-v1''))"

section \<open>Cursors\<close>

datatype cursor_result = NoCursor | BadCursor | ForeignCursor | Cursor string int "pyval list"

definition is_key_part :: "pyval \<Rightarrow> bool" where
  "is_key_part v = (case v of PStr _ \<Rightarrow> True | PInt _ \<Rightarrow> True | PFloat _ \<Rightarrow> True | _ \<Rightarrow> False)"

definition get_or_none :: "(string, pyval) dict \<Rightarrow> string \<Rightarrow> pyval" where
  "get_or_none d k = (case dict_get d k of None \<Rightarrow> PNone | Some v \<Rightarrow> v)"

definition read_cursor :: "string \<Rightarrow> string option \<Rightarrow> string \<Rightarrow> pyval \<Rightarrow> cursor_result" where
  "read_cursor scope_id parent signature payload =
     (case payload of
        PDict d \<Rightarrow>
          (case (get_or_none d ''after'', get_or_none d ''version'', get_or_none d ''after_key'') of
             (PStr after, PInt version, PList key) \<Rightarrow>
               if \<not> list_all is_key_part key then BadCursor
               else if get_or_none d ''scope'' \<noteq> PStr scope_id \<or> get_or_none d ''parent'' \<noteq> of_opt_str parent \<or>
                 get_or_none d ''query'' \<noteq> PStr signature then ForeignCursor
               else Cursor after version key
           | _ \<Rightarrow> BadCursor)
      | _ \<Rightarrow> BadCursor)"

definition decode_cursor :: "(string \<Rightarrow> pyval option) \<Rightarrow> string option \<Rightarrow> string \<Rightarrow> string option \<Rightarrow> string \<Rightarrow> cursor_result" where
  "decode_cursor dec raw scope_id parent signature =
     (if raw \<in> {None, Some []} then NoCursor
      else if length (the raw) > 4096 then BadCursor
      else case dec (the raw) of None \<Rightarrow> BadCursor | Some payload \<Rightarrow> read_cursor scope_id parent signature payload)"

definition cursor_payload :: "int \<Rightarrow> string \<Rightarrow> string option \<Rightarrow> string \<Rightarrow> pyval list option \<Rightarrow> string \<Rightarrow> pyval" where
  "cursor_payload version scope_id parent after key signature =
     PDict [(''version'', PInt version), (''scope'', PStr scope_id), (''parent'', of_opt_str parent), (''after'', PStr after),
       (''after_key'', PList (case key of None \<Rightarrow> [] | Some ks \<Rightarrow> ks)), (''query'', PStr signature)]"

definition encode_cursor :: "(pyval \<Rightarrow> string) \<Rightarrow> int \<Rightarrow> string \<Rightarrow> string option \<Rightarrow> string option \<Rightarrow> pyval list option \<Rightarrow> string \<Rightarrow> string option" where
  "encode_cursor enc version scope_id parent after key signature =
     (case after of None \<Rightarrow> None | Some a \<Rightarrow> Some (enc (cursor_payload version scope_id parent a key signature)))"

section \<open>Page requests\<close>

record page_request =
  pr_limit :: "string option"
  pr_sort :: "string option"
  pr_status :: "string option"
  pr_name :: "string option"
  pr_cursor :: "string option"

datatype page_reply = PageAbort nat | PageProblem string | PageShown model_page "string option"

definition is_page_error :: "py_error \<Rightarrow> bool" where
  "is_page_error e = (case e of AppError c _ \<Rightarrow> c = ''ModelPageCursorError'' | _ \<Rightarrow> False)"

definition public_page :: "(pyval \<Rightarrow> string) \<Rightarrow> string \<Rightarrow> model_page \<Rightarrow> page_reply" where
  "public_page enc signature p =
     PageShown p (encode_cursor enc (pg_model_version p) (pg_path_pair_id p) (pg_parent_file_id p) (pg_next_file_id p) (pg_next_sort_key p) signature)"

definition shown_page :: "(pyval \<Rightarrow> string) \<Rightarrow> string \<Rightarrow> model_page result \<Rightarrow> page_reply result" where
  "shown_page enc signature r =
     (case r of
        Inl e \<Rightarrow> if is_page_error e then Inr (PageProblem ''invalid_model_cursor'') else Inl e
      | Inr p \<Rightarrow> Inr (public_page enc signature p))"

definition get_page ::
  "(pyval \<Rightarrow> string) \<Rightarrow> (string \<Rightarrow> pyval option) \<Rightarrow> (int \<Rightarrow> string) \<Rightarrow> string \<Rightarrow> string option \<Rightarrow> page_request \<Rightarrow> model \<Rightarrow> page_reply result" where
  "get_page enc dec stamp scope_id parent rq m =
     (case read_limit (pr_limit rq) of
        Inl code \<Rightarrow> Inr (PageAbort code)
      | Inr limit \<Rightarrow>
          (case read_query (pr_sort rq) (pr_status rq) (pr_name rq) of
             Inl code \<Rightarrow> Inr (PageAbort code)
           | Inr (_, _, _, signature) \<Rightarrow>
               (case decode_cursor dec (pr_cursor rq) scope_id parent signature of
                  BadCursor \<Rightarrow> Inr (PageAbort 400)
                | ForeignCursor \<Rightarrow> Inr (PageProblem ''cursor_reset_required'')
                | NoCursor \<Rightarrow> shown_page enc signature (get_model_page_locked stamp scope_id limit None None parent m)
                | Cursor after _ key \<Rightarrow> shown_page enc signature (get_model_page_locked stamp scope_id limit (Some after) (Some key) parent m))))"

definition reply_status :: "page_reply \<Rightarrow> nat" where
  "reply_status r =
     (case r of PageAbort code \<Rightarrow> code | PageProblem s \<Rightarrow> if s = ''cursor_reset_required'' then 409 else 400 | PageShown _ _ \<Rightarrow> 200)"

definition handle_roots ::
  "(pyval \<Rightarrow> string) \<Rightarrow> (string \<Rightarrow> pyval option) \<Rightarrow> (int \<Rightarrow> string) \<Rightarrow> string \<Rightarrow> page_request \<Rightarrow> model \<Rightarrow> page_reply result" where
  "handle_roots enc dec stamp path_pair_id rq m =
     (case validate_scope_id path_pair_id of Inl code \<Rightarrow> Inr (PageAbort code) | Inr scope_id \<Rightarrow> get_page enc dec stamp scope_id None rq m)"

definition handle_children ::
  "(pyval \<Rightarrow> string) \<Rightarrow> (string \<Rightarrow> pyval option) \<Rightarrow> (int \<Rightarrow> string) \<Rightarrow> string \<Rightarrow> string option \<Rightarrow> page_request \<Rightarrow> model \<Rightarrow> page_reply result" where
  "handle_children enc dec stamp path_pair_id parent rq m =
     (case validate_scope_id path_pair_id of
        Inl code \<Rightarrow> Inr (PageAbort code)
      | Inr scope_id \<Rightarrow>
          (case read_parent_file_id parent of
             Inl code \<Rightarrow> Inr (PageAbort code)
           | Inr fid \<Rightarrow> get_page enc dec stamp scope_id (Some fid) rq m))"

section \<open>The listener of one scope\<close>

record scoped_listener =
  sl_scope :: string
  sl_changes :: "(string, int) dict"
  sl_globals :: "(string, int) dict"
  sl_reset :: "int option"
  sl_reset_origin :: "int option"
  sl_bytes :: int
  sl_closed :: bool
  sl_available :: bool

definition new_scoped_listener :: "string \<Rightarrow> scoped_listener" where
  "new_scoped_listener scope_id = \<lparr>sl_scope = scope_id, sl_changes = [], sl_globals = [], sl_reset = None, sl_reset_origin = None,
     sl_bytes = 0, sl_closed = False, sl_available = False\<rparr>"

definition MAX_IDENTITIES :: nat where "MAX_IDENTITIES = 200"
definition MAX_IDENTITY_BYTES :: int where "MAX_IDENTITY_BYTES = 32 * 1024"

text \<open>The length of a text in UTF-8.\<close>

definition utf8_length :: "string \<Rightarrow> int" where
  "utf8_length s = sum_list (map (\<lambda>c. if code_of c < 128 then 1 else 2) s)"

definition event_scope :: "string option \<Rightarrow> string" where
  "event_scope path_pair_id = (case path_pair_id of None \<Rightarrow> MODEL_LEGACY_SCOPE_ID | Some p \<Rightarrow> p)"

definition forget_change :: "string \<Rightarrow> scoped_listener \<Rightarrow> scoped_listener" where
  "forget_change fid l =
     (if dict_get (sl_changes l) fid = None then l
      else l\<lparr>sl_changes := dict_pop fid (sl_changes l), sl_globals := dict_pop fid (sl_globals l), sl_bytes := sl_bytes l - utf8_length fid\<rparr>)"

definition note_change :: "int \<Rightarrow> int \<Rightarrow> string \<Rightarrow> scoped_listener \<Rightarrow> scoped_listener" where
  "note_change version gv fid l =
     (let l1 = forget_change fid l
      in l1\<lparr>sl_changes := dict_set fid version (sl_changes l1), sl_globals := dict_set fid gv (sl_globals l1),
            sl_bytes := sl_bytes l1 + utf8_length fid\<rparr>)"

definition overflow :: "int \<Rightarrow> int \<Rightarrow> scoped_listener \<Rightarrow> scoped_listener" where
  "overflow version gv l =
     (if length (sl_changes l) > MAX_IDENTITIES \<or> sl_bytes l > MAX_IDENTITY_BYTES
      then l\<lparr>sl_changes := [], sl_globals := [], sl_bytes := 0, sl_reset := Some version, sl_reset_origin := Some gv\<rparr>
      else l)"

definition model_version_published :: "int \<Rightarrow> int \<Rightarrow> string option \<Rightarrow> string \<Rightarrow> scoped_listener \<Rightarrow> scoped_listener" where
  "model_version_published version gv path_pair_id fid l =
     (if event_scope path_pair_id \<noteq> sl_scope l then l
      else if sl_closed l then l
      else case sl_reset l of
        Some r \<Rightarrow> l\<lparr>sl_reset := Some (max r version), sl_reset_origin := Some gv\<rparr>
      | None \<Rightarrow> (overflow version gv (note_change version gv fid l))\<lparr>sl_available := True\<rparr>)"

datatype stream_event = ModelReset int "int option" | ModelInvalidate int "string list" "int option"

definition origin_version :: "(string, int) dict \<Rightarrow> (string, int) dict \<Rightarrow> int option" where
  "origin_version gvs changes =
     (let v = Max (insert (- 1) (set (map (\<lambda>(fid, _). case dict_get gvs fid of None \<Rightarrow> - 1 | Some g \<Rightarrow> g) changes)))
      in if v \<ge> 0 then Some v else None)"

definition take_next_event :: "scoped_listener \<Rightarrow> stream_event option \<times> scoped_listener" where
  "take_next_event l =
     (if sl_closed l then (None, l)
      else case sl_reset l of
        Some r \<Rightarrow> (Some (ModelReset r (sl_reset_origin l)),
          l\<lparr>sl_reset := None, sl_reset_origin := None, sl_globals := [], sl_available := False\<rparr>)
      | None \<Rightarrow>
          if sl_changes l = [] then (None, l)
          else (Some (ModelInvalidate (Max (set (map snd (sl_changes l)))) (map fst (sl_changes l)) (origin_version (sl_globals l) (sl_changes l))),
            l\<lparr>sl_changes := [], sl_globals := [], sl_bytes := 0, sl_available := False\<rparr>))"

definition close_listener :: "scoped_listener \<Rightarrow> scoped_listener" where
  "close_listener l = l\<lparr>sl_closed := True, sl_changes := [], sl_globals := [], sl_bytes := 0, sl_reset := None, sl_reset_origin := None,
     sl_available := True\<rparr>"

text \<open>What a stream sends for an event: the roots as the model has them when it is sent.\<close>

datatype stream_payload = InvalidatePayload "string list" root_updates | ResetPayload int

definition stream_payload_of :: "(int \<Rightarrow> string) \<Rightarrow> string \<Rightarrow> model \<Rightarrow> stream_event \<Rightarrow> stream_payload result" where
  "stream_payload_of stamp scope_id m ev =
     (case ev of
        ModelInvalidate _ fids _ \<Rightarrow> rbind (get_model_root_updates stamp scope_id fids m) (\<lambda>u. Inr (InvalidatePayload fids u))
      | ModelReset _ _ \<Rightarrow> Inr (ResetPayload (fst (get_model_scope_version_snapshot scope_id m))))"

section \<open>The listener of the summary\<close>

record summary_listener =
  sm_scopes :: "(string, int) dict"
  sm_reset :: bool
  sm_closed :: bool
  sm_available :: bool

definition new_summary_listener :: summary_listener where
  "new_summary_listener = \<lparr>sm_scopes = [], sm_reset = False, sm_closed = False, sm_available = False\<rparr>"

definition MAX_SCOPES :: nat where "MAX_SCOPES = 128"

definition summary_version_changed :: "int \<Rightarrow> string option \<Rightarrow> summary_listener \<Rightarrow> summary_listener" where
  "summary_version_changed version path_pair_id l =
     (if sm_closed l \<or> sm_reset l then l
      else
        (let scope = event_scope path_pair_id;
             scopes = dict_pop scope (sm_scopes l) @ [(scope, version)];
             l1 = (if length scopes > MAX_SCOPES then l\<lparr>sm_scopes := [], sm_reset := True\<rparr> else l\<lparr>sm_scopes := scopes\<rparr>)
         in l1\<lparr>sm_available := True\<rparr>))"

definition model_summary_changed :: "summary_listener \<Rightarrow> summary_listener" where
  "model_summary_changed l = (if sm_closed l then l else l\<lparr>sm_reset := True, sm_available := True\<rparr>)"

datatype summary_event = SummaryReset | SummaryUpdate "string list"

definition take_summary_event :: "summary_listener \<Rightarrow> summary_event option \<times> summary_listener" where
  "take_summary_event l =
     (if sm_closed l then (None, l)
      else if sm_reset l then (Some SummaryReset, l\<lparr>sm_reset := False, sm_available := False\<rparr>)
      else if sm_scopes l = [] then (None, l)
      else (Some (SummaryUpdate (map fst (sm_scopes l))), l\<lparr>sm_scopes := [], sm_available := False\<rparr>))"

definition close_summary :: "summary_listener \<Rightarrow> summary_listener" where
  "close_summary l = l\<lparr>sm_closed := True, sm_scopes := [], sm_available := True\<rparr>"

section \<open>The calls on a listener\<close>

datatype listener_call = Published int int "string option" string | TakeEvent | CloseListener

fun run_listener :: "listener_call \<Rightarrow> scoped_listener \<Rightarrow> scoped_listener" where
  "run_listener (Published version gv pair fid) l = model_version_published version gv pair fid l"
| "run_listener TakeEvent l = snd (take_next_event l)"
| "run_listener CloseListener l = close_listener l"

definition listener_step :: "scoped_listener \<Rightarrow> scoped_listener \<Rightarrow> bool" where
  "listener_step l l' \<longleftrightarrow> (\<exists>call. l' = run_listener call l)"

definition fresh_listener :: "scoped_listener \<Rightarrow> bool" where
  "fresh_listener l \<longleftrightarrow> (\<exists>scope_id. l = new_scoped_listener scope_id)"

text \<open>The changes are bounded and counted, a pending reset replaces them, and the flag the stream waits on is
  set exactly when there is something to take or the listener is closed.\<close>

definition listener_ok :: "scoped_listener \<Rightarrow> bool" where
  "listener_ok l \<longleftrightarrow> dict_ok (sl_changes l) \<and> length (sl_changes l) \<le> MAX_IDENTITIES \<and>
     sl_bytes l = sum_list (map (\<lambda>c. utf8_length (fst c)) (sl_changes l)) \<and> sl_bytes l \<le> MAX_IDENTITY_BYTES \<and>
     (sl_reset l \<noteq> None \<longrightarrow> sl_changes l = []) \<and> (sl_closed l \<longrightarrow> sl_changes l = [] \<and> sl_reset l = None) \<and>
     sl_available l = (sl_closed l \<or> sl_changes l \<noteq> [] \<or> sl_reset l \<noteq> None)"

lemma pop_sum:
  "dict_ok d \<Longrightarrow> dict_get d k = Some v \<Longrightarrow> sum_list (map (\<lambda>c. g (fst c)) (dict_pop k d)) = sum_list (map (\<lambda>c. g (fst c)) d) - (g k :: int)"
proof (induction d)
  case (Cons c d)
  show ?case
  proof (cases "fst c = k")
    case True
    then have "k \<notin> fst ` set d" using Cons.prems(1) by (cases c) auto
    then have "dict_pop k (c # d) = d" using True by (cases c) (force simp: AList.delete_eq filter_id_conv)
    then show ?thesis using True by (cases c) simp
  next
    case False
    with Cons show ?thesis by (cases c) auto
  qed
qed simp

lemma set_absent: "dict_get d k = None \<Longrightarrow> dict_set k v d = d @ [(k, v)]"
  by (induction d) (auto split: if_splits)

lemma note_change_eq:
  assumes "dict_ok (sl_changes l)"
  shows "sl_changes (note_change version gv fid l) = dict_pop fid (sl_changes l) @ [(fid, version)]"
    "sl_bytes l = sum_list (map (\<lambda>c. utf8_length (fst c)) (sl_changes l)) \<Longrightarrow>
     sl_bytes (note_change version gv fid l) = sum_list (map (\<lambda>c. utf8_length (fst c)) (sl_changes (note_change version gv fid l)))"
    "sl_scope (note_change version gv fid l) = sl_scope l" "sl_reset (note_change version gv fid l) = sl_reset l"
    "sl_closed (note_change version gv fid l) = sl_closed l"
proof -
  have g: "dict_get (dict_pop fid (sl_changes l)) fid = None" by (simp add: map_of_delete)
  show c: "sl_changes (note_change version gv fid l) = dict_pop fid (sl_changes l) @ [(fid, version)]"
  proof (cases "dict_get (sl_changes l) fid")
    case None
    then have "dict_pop fid (sl_changes l) = sl_changes l" by (simp add: map_of_eq_None_iff delete_id)
    with None show ?thesis by (simp add: note_change_def forget_change_def Let_def set_absent)
  next
    case (Some v)
    then show ?thesis using set_absent[OF g, of version] by (simp add: note_change_def forget_change_def Let_def)
  qed
  show "sl_bytes (note_change version gv fid l) = sum_list (map (\<lambda>c. utf8_length (fst c)) (sl_changes (note_change version gv fid l)))"
    if b: "sl_bytes l = sum_list (map (\<lambda>c. utf8_length (fst c)) (sl_changes l))"
  proof (cases "dict_get (sl_changes l) fid")
    case None
    then have "dict_pop fid (sl_changes l) = sl_changes l" by (simp add: map_of_eq_None_iff delete_id)
    with None b show ?thesis unfolding c by (simp add: note_change_def forget_change_def Let_def)
  next
    case (Some v)
    then show ?thesis using pop_sum[OF assms Some, of utf8_length] b unfolding c by (simp add: note_change_def forget_change_def Let_def)
  qed
qed (simp_all add: note_change_def forget_change_def Let_def)

lemma published_ok_listener: "listener_ok l \<Longrightarrow> listener_ok (model_version_published version gv pair fid l)"
proof -
  assume ok: "listener_ok l"
  show ?thesis
  proof (cases "event_scope pair \<noteq> sl_scope l \<or> sl_closed l \<or> sl_reset l \<noteq> None")
    case True
    with ok show ?thesis by (auto simp: model_version_published_def listener_ok_def)
  next
    case False
    then have e: "model_version_published version gv pair fid l = (overflow version gv (note_change version gv fid l))\<lparr>sl_available := True\<rparr>"
      by (simp add: model_version_published_def)
    have d: "dict_ok (sl_changes l)" "sl_bytes l = sum_list (map (\<lambda>c. utf8_length (fst c)) (sl_changes l))" using ok by (simp_all add: listener_ok_def)
    note n = note_change_eq[OF d(1), of version gv fid]
    have "fid \<notin> fst ` set (dict_pop fid (sl_changes l))" by (simp add: map_of_eq_None_iff[symmetric])
    then have ok': "dict_ok (sl_changes (note_change version gv fid l))" unfolding n(1) using d(1) by (simp add: dict_ok_pop)
    have ne: "sl_changes (note_change version gv fid l) \<noteq> []" unfolding n(1) by simp
    show ?thesis
      using False n(2)[OF d(2)] n(4,5) ok' ne unfolding e
      by (cases "length (sl_changes (note_change version gv fid l)) > MAX_IDENTITIES \<or> sl_bytes (note_change version gv fid l) > MAX_IDENTITY_BYTES")
        (simp_all add: overflow_def listener_ok_def MAX_IDENTITY_BYTES_def)
  qed
qed

lemma take_ok_listener: "listener_ok l \<Longrightarrow> listener_ok (snd (take_next_event l))"
  by (auto simp: take_next_event_def listener_ok_def MAX_IDENTITY_BYTES_def split: option.split)

lemma close_ok_listener: "listener_ok (close_listener l)"
  by (simp add: close_listener_def listener_ok_def MAX_IDENTITY_BYTES_def)

interpretation stream: invariant_system fresh_listener listener_step listener_ok
proof
  show "listener_ok l" if "fresh_listener l" for l
    using that by (auto simp: fresh_listener_def new_scoped_listener_def listener_ok_def MAX_IDENTITY_BYTES_def)
  show "listener_ok l'" if ok: "listener_ok l" and step: "listener_step l l'" for l l'
  proof -
    obtain call where "l' = run_listener call l" using step by (auto simp: listener_step_def)
    with ok show ?thesis by (cases call) (simp_all add: published_ok_listener take_ok_listener close_ok_listener)
  qed
qed

section \<open>No change is lost\<close>

text \<open>A change of a file at a version is still to be reported.\<close>

definition to_report :: "string \<Rightarrow> int \<Rightarrow> scoped_listener \<Rightarrow> bool" where
  "to_report fid version l \<longleftrightarrow> (\<exists>r. sl_reset l = Some r \<and> version \<le> r) \<or> (\<exists>v. dict_get (sl_changes l) fid = Some v \<and> version \<le> v)"

lemma published_frame [simp]:
  "sl_scope (model_version_published v g pair fid l) = sl_scope l" "sl_closed (model_version_published v g pair fid l) = sl_closed l"
  by (simp_all add: model_version_published_def overflow_def note_change_def forget_change_def Let_def split: option.split)

lemma published_to_report:
  assumes "listener_ok l" "\<not> sl_closed l" "event_scope pair = sl_scope l"
  shows "to_report fid version (model_version_published version gv pair fid l)"
    and "to_report fid' version' l \<Longrightarrow> version' \<le> version \<Longrightarrow> to_report fid' version' (model_version_published version gv pair fid l)"
proof -
  have d: "dict_ok (sl_changes l)" using assms(1) by (simp add: listener_ok_def)
  note n = note_change_eq[OF d, of version gv fid]
  have g: "dict_get (sl_changes (note_change version gv fid l)) i = (if i = fid then Some version else dict_get (sl_changes l) i)" for i
    unfolding n(1) map_of_append by (simp add: map_add_def split: option.split)
  show "to_report fid version (model_version_published version gv pair fid l)"
    using assms g by (cases "sl_reset l") (auto simp: model_version_published_def to_report_def overflow_def)
  show "to_report fid' version' (model_version_published version gv pair fid l)" if "to_report fid' version' l" "version' \<le> version"
  proof (cases "sl_reset l")
    case None
    with that obtain v where "dict_get (sl_changes l) fid' = Some v" "version' \<le> v" by (auto simp: to_report_def)
    with None assms g that(2) show ?thesis by (auto simp: model_version_published_def to_report_def overflow_def)
  next
    case (Some r)
    then have "sl_changes l = []" using assms(1) by (simp add: listener_ok_def)
    with Some that assms show ?thesis by (auto simp: model_version_published_def to_report_def)
  qed
qed

abbreviation publish :: "int \<times> int \<times> string option \<times> string \<Rightarrow> scoped_listener \<Rightarrow> scoped_listener" where
  "publish c l \<equiv> (case c of (v, g, pair, fid) \<Rightarrow> model_version_published v g pair fid l)"

lemma publish_elsewhere: "event_scope pair \<noteq> sl_scope l \<Longrightarrow> model_version_published v g pair fid l = l"
  by (simp add: model_version_published_def)

lemma publications_keep:
  assumes "listener_ok l" "\<not> sl_closed l" "to_report fid version l" "\<forall>(v, g, pair, i) \<in> set cs. event_scope pair = sl_scope l \<longrightarrow> version \<le> v"
  shows "listener_ok (fold publish cs l) \<and> \<not> sl_closed (fold publish cs l) \<and> sl_scope (fold publish cs l) = sl_scope l \<and> to_report fid version (fold publish cs l)"
  using assms
proof (induction cs arbitrary: l)
  case (Cons c cs)
  obtain v g pair i where c: "c = (v, g, pair, i)" by (cases c) auto
  let ?l = "model_version_published v g pair i l"
  have "to_report fid version ?l"
  proof (cases "event_scope pair = sl_scope l")
    case True
    moreover from this have "version \<le> v" using Cons.prems(4) by (auto simp: c)
    ultimately show ?thesis using published_to_report(2)[OF Cons.prems(1,2) True Cons.prems(3)] by blast
  next
    case False
    then show ?thesis using Cons.prems(3) by (simp add: publish_elsewhere)
  qed
  with Cons.IH[of ?l] Cons.prems published_ok_listener show ?case by (simp add: c)
qed simp

lemma taken_event:
  assumes "listener_ok l" "\<not> sl_closed l" "to_report fid version l"
  shows "\<exists>ev. fst (take_next_event l) = Some ev \<and> (case ev of ModelReset r _ \<Rightarrow> version \<le> r | ModelInvalidate w fids _ \<Rightarrow> fid \<in> set fids \<and> version \<le> w)"
proof (cases "sl_reset l")
  case None
  with assms(3) obtain v where v: "dict_get (sl_changes l) fid = Some v" "version \<le> v" by (auto simp: to_report_def)
  then have m: "(fid, v) \<in> set (sl_changes l)" by (auto dest: map_of_SomeD)
  then have "fid \<in> set (map fst (sl_changes l))" "v \<le> Max (set (map snd (sl_changes l)))" by (force, force intro: Max_ge)
  moreover have "sl_changes l \<noteq> []" using m by auto
  ultimately show ?thesis using None assms(2) v(2) by (auto simp: take_next_event_def)
next
  case (Some r)
  then have "sl_changes l = []" using assms(1) by (simp add: listener_ok_def)
  with Some assms show ?thesis by (simp add: take_next_event_def to_report_def)
qed

end
