(* ===== verification/Page_Properties.thy ===== *)
theory Page_Properties
  imports Model_Streams Model_Properties
begin

text \<open>
  The properties of the pages and the event streams a browser follows the model with.
\<close>

section \<open>Roots behind identities\<close>

text \<open>In a model whose roots are keyed by their identities, an identity of the scope is that of a root in it.\<close>

lemma root_in_scope:
  assumes "minv R m" "map_of (m_files m) (build_file_id n (expected_pair scope_id)) = Some f" "plain_path n (expected_pair scope_id)"
  shows "fa_path_pair_id (attrs f) = expected_pair scope_id"
proof -
  have f: "build_file_id n (expected_pair scope_id) = file_id f" "root_file f" using assms(1,2) by (auto simp: minv_def roots_ok_def)
  then have "file_id f = build_file_id (mf_name f) (fa_path_pair_id (attrs f))" by (simp add: file_id_def full_path_def root_file_def)
  with f(1) have "build_file_id n (expected_pair scope_id) = build_file_id (mf_name f) (fa_path_pair_id (attrs f))" by simp
  moreover have "plain_path (mf_name f) (fa_path_pair_id (attrs f))" using f(2) by (simp add: root_file_def)
  ultimately show ?thesis using file_id.ident_inject[OF assms(3)] by metis
qed

text \<open>The Model falls back to names; no other root of the scope has the identity as its name.\<close>

definition only_identity :: "string \<Rightarrow> string \<Rightarrow> model \<Rightarrow> bool" where
  "only_identity scope_id fid m \<longleftrightarrow>
     list_all (\<lambda>(i, f). fa_path_pair_id (attrs f) = expected_pair scope_id \<and> mf_name f = fid \<longrightarrow> i = fid) (m_files m)"

lemma found_by_name:
  assumes "minv R m" "map_of (m_files m) i = None" "get_file i m = Inr f"
  shows "mf_name f = i"
proof -
  have name: "map_of (m_by_name m) i = some_nonempty (ids_by_name (m_files m) i)" using assms(1) by (simp add: minv_def roots_ok_def)
  obtain fid where r: "resolve_file_id i m = Inr fid" "map_of (m_files m) fid = Some f"
    using assms(3) by (auto simp: get_file_def rbind_Inr_iff split: option.splits)
  then obtain s where s: "map_of (m_by_name m) i = Some s" "s \<noteq> {}" "\<not> card s > 1" "fid = the_elem s"
    using assms(2) by (auto simp: resolve_file_id_def split: if_splits option.splits)
  then have e: "s = ids_by_name (m_files m) i" using name by (auto simp: some_nonempty_def split: if_splits)
  have "finite (ids_by_name (m_files m) i)"
    by (rule finite_subset[of _ "fst ` set (m_files m)"]) (force simp: ids_by_name_def dest: map_of_SomeD, simp)
  then have "card s = 1" using e s(2,3) by (metis One_nat_def Suc_leI card_gt_0_iff le_antisym not_less)
  then obtain x where "s = {x}" by (auto simp: card_1_singleton_iff)
  then have "fid \<in> ids_by_name (m_files m) i" using s(4) e by simp
  with r(2) show ?thesis by (auto simp: ids_by_name_def)
qed

lemma updates_show:
  assumes "minv R m" "file_name n" "plain_path n (expected_pair scope_id)" "build_file_id n (expected_pair scope_id) \<in> set fids"
    "only_identity scope_id (build_file_id n (expected_pair scope_id)) m"
  shows "\<exists>u. get_model_root_updates stamp scope_id fids m = Inr u \<and>
    (case map_of (m_files m) (build_file_id n (expected_pair scope_id)) of
       Some f \<Rightarrow> model_file_page_record_with_overlay stamp m f \<in> set (ru_records u)
     | None \<Rightarrow> build_file_id n (expected_pair scope_id) \<in> set (ru_removed u))"
proof -
  let ?fid = "build_file_id n (expected_pair scope_id)"
  let ?is = "sorted_list_of_set (set (concat (map (changed_root_id scope_id) fids)))"
  have "?fid \<in> set ?is" using assms(4) changed_root[OF assms(2), of scope_id] by force
  then obtain rs ds where c: "collect_updates stamp scope_id m ?is = Inr (rs, ds)"
    "case get_file ?fid m of
        Inl _ \<Rightarrow> ?fid \<in> set ds
      | Inr f \<Rightarrow> if fa_path_pair_id (attrs f) = expected_pair scope_id then model_file_page_record_with_overlay stamp m f \<in> set rs else ?fid \<in> set ds"
    using collect_updates_spec[OF assms(1), of stamp scope_id ?is] by blast
  show ?thesis
  proof (cases "map_of (m_files m) ?fid")
    case None
    have "fa_path_pair_id (attrs f) \<noteq> expected_pair scope_id" if f: "get_file ?fid m = Inr f" for f
    proof
      assume p: "fa_path_pair_id (attrs f) = expected_pair scope_id"
      have "(file_id f, f) \<in> set (m_files m)" using get_file_ok(1)[OF assms(1) f] by (rule map_of_SomeD)
      then have "file_id f = ?fid" using assms(5) p found_by_name[OF assms(1) None f] by (auto simp: only_identity_def list_all_iff)
      with get_file_ok(1)[OF assms(1) f] None show False by simp
    qed
    then have "?fid \<in> set ds" using c(2) by (auto split: sum.splits if_splits)
    with c(1) None show ?thesis by (simp add: get_model_root_updates_def)
  next
    case (Some f)
    then have "get_file ?fid m = Inr f" by (rule get_file_ok(2)[OF assms(1)])
    with c Some root_in_scope[OF assms(1) Some assms(3)] show ?thesis by (simp add: get_model_root_updates_def)
  qed
qed

section \<open>Cursors\<close>

text \<open>The cursor of a page, sent back with the same parameters, gives the page that follows. The text of a cursor
  must not be longer than the 4096 characters a request may carry.\<close>

lemma cursor_leads_on:
  assumes "\<And>d. dec (enc d) = Some d" "\<And>d. enc d \<noteq> []" "length c \<le> 4096"
    "get_page enc dec stamp scope_id parent rq m = Inr (PageShown p (Some c))" "pg_path_pair_id p = scope_id" "pg_parent_file_id p = parent"
    "pg_next_file_id p = Some i" "pg_next_sort_key p = Some [PStr i]"
  shows "get_page enc dec stamp scope_id parent (rq\<lparr>pr_cursor := Some c\<rparr>) m' =
    shown_page enc ''identity-v1'' (get_model_page_locked stamp scope_id (case read_limit (pr_limit rq) of Inr n \<Rightarrow> n | Inl _ \<Rightarrow> 0) (Some i) (Some [PStr i]) parent m')"
proof -
  obtain limit mode st nm where l: "read_limit (pr_limit rq) = Inr limit" "read_query (pr_sort rq) (pr_status rq) (pr_name rq) = Inr (mode, st, nm, ''identity-v1'')"
    using assms(4) by (auto simp: get_page_def read_query_def split: sum.splits if_splits)
  have "Some c = encode_cursor enc (pg_model_version p) scope_id parent (Some i) (Some [PStr i]) ''identity-v1''"
    using assms(4-8) l by (auto simp: get_page_def shown_page_def public_page_def split: cursor_result.splits sum.splits if_splits)
  then have c: "c = enc (cursor_payload (pg_model_version p) scope_id parent i (Some [PStr i]) ''identity-v1'')"
    by (simp add: encode_cursor_def)
  then have "c \<noteq> []" using assms(2) by simp
  then have "decode_cursor dec (Some c) scope_id parent ''identity-v1'' = Cursor i (pg_model_version p) [PStr i]"
    using assms(1,3) c by (simp add: decode_cursor_def read_cursor_def cursor_payload_def get_or_none_def is_key_part_def)
  with l show ?thesis by (simp add: get_page_def)
qed

section \<open>Properties\<close>

text \<open>C20. A client that follows the cursors of a scope from the first page reads strictly increasing
  identities, so no file twice, although the model may be another one at each page, and every root
  that is in the scope all the while is on one of the pages; and in a model that stays the same the
  cursors come to an end.\<close>

theorem paging_misses_no_root:
  assumes "0 < limit" "page_chain stamp scope_id limit None ms ps" "list_all model_inv ms" "model_inv m0"
  shows "(\<exists>ids. concat (map page_ids ps) = map Some ids \<and> sorted_wrt (<) ids \<and>
      (\<forall>fid. list_all (\<lambda>m. \<exists>f. map_of (m_files m) fid = Some f \<and> fa_path_pair_id (attrs f) = expected_pair scope_id) ms \<longrightarrow> fid \<in> set ids)) \<and>
    (\<exists>qs. page_chain stamp scope_id limit None (replicate (length qs) m0) qs)"
proof
  have inv: "\<forall>m \<in> set ms. minv {} m" using assms(3) by (simp add: list_all_iff)
  obtain ids where ids: "concat (map page_ids ps) = map Some ids" "sorted_wrt (<) ids"
    "\<forall>fid. beyond None fid \<and> (\<forall>m \<in> set ms. fid \<in> file_id ` set (scope_roots scope_id m)) \<longrightarrow> fid \<in> set ids"
    using page_chain_spec[OF assms(2,1) inv] by blast
  have root: "fid \<in> file_id ` set (scope_roots scope_id m)"
    if "m \<in> set ms" "map_of (m_files m) fid = Some f" "fa_path_pair_id (attrs f) = expected_pair scope_id" for m fid f
  proof -
    have i: "minv {} m" using inv that(1) by blast
    then have "fid = file_id f" using that(2) by (auto simp: minv_def roots_ok_def)
    with that(2,3) show ?thesis using scope_roots_ok(3)[OF i] by blast
  qed
  have "fid \<in> set ids"
    if "list_all (\<lambda>m. \<exists>f. map_of (m_files m) fid = Some f \<and> fa_path_pair_id (attrs f) = expected_pair scope_id) ms" for fid
    using ids(3) root that by (fastforce simp: beyond_def list_all_iff)
  with ids(1,2) show "\<exists>ids. concat (map page_ids ps) = map Some ids \<and> sorted_wrt (<) ids \<and>
      (\<forall>fid. list_all (\<lambda>m. \<exists>f. map_of (m_files m) fid = Some f \<and> fa_path_pair_id (attrs f) = expected_pair scope_id) ms \<longrightarrow> fid \<in> set ids)"
    by blast
  show "\<exists>qs. page_chain stamp scope_id limit None (replicate (length qs) m0) qs"
    using page_chain_complete[OF _ assms(1)] assms(4) by blast
qed

theorem paging_misses_no_root_witness:
  "\<exists>m ps ids. m_files m = [(''a'', sample_root 1 ''a'')] \<and>
    page_chain (\<lambda>_. []) MODEL_LEGACY_SCOPE_ID 1 None (replicate (length ps) m) ps \<and> concat (map page_ids ps) = map Some ids \<and> ''a'' \<in> set ids"
proof -
  obtain m where m: "model_step (new_model 0) m" "m_files m = [(''a'', sample_root 1 ''a'')]" by (rule sample_step)
  have "model_init (new_model 0)" by (auto simp: model_init_def)
  with m(1) have inv: "model_inv m" using model_machine.reachable_inv[of "new_model 0" m] by blast
  obtain ps where ps: "page_chain (\<lambda>_. []) MODEL_LEGACY_SCOPE_ID 1 None (replicate (length ps) m) ps"
    using page_chain_complete[OF inv zero_less_one] by blast
  have "list_all model_inv (replicate (length ps) m)" using inv by (simp add: list_all_iff)
  moreover have "list_all (\<lambda>m. \<exists>f. map_of (m_files m) ''a'' = Some f \<and> fa_path_pair_id (attrs f) = expected_pair MODEL_LEGACY_SCOPE_ID) (replicate (length ps) m)"
    by (simp add: list_all_iff m(2) expected_pair_def sample_root_def new_model_file_def)
  ultimately obtain ids where "concat (map page_ids ps) = map Some ids" "''a'' \<in> set ids"
    using paging_misses_no_root[OF _ ps _ inv] by auto
  with m(2) ps show ?thesis by blast
qed

text \<open>C22. The heap that selects a page of children selects what sorting would: on a page of children with
  different identities stand the first ones after the cursor in the order of the identities, the
  total counts all of them, and a next page is announced exactly when some are left.\<close>

theorem child_page_is_the_sorted_prefix:
  assumes "0 < limit" "distinct (map file_id candidates)" "parent = Some fid"
  shows "bounded_model_page_files candidates limit cursor key parent =
    (let rest = filter (\<lambda>f. \<not> is_passed (cursor_after cursor key) f) candidates
     in Inr (int (length candidates), take (nat limit) (sort_key file_id rest), limit < int (length rest)))"
  using child_page_spec[OF assms(1,2)] assms(3) by simp

theorem child_page_is_the_sorted_prefix_witness:
  "bounded_model_page_files [sample_root 1 ''c'', sample_root 2 ''a'', sample_root 3 ''b''] 2 None None (Some ''p'') =
    Inr (3, [sample_root 2 ''a'', sample_root 3 ''b''], True)"
proof -
  have "distinct (map file_id [sample_root 1 ''c'', sample_root 2 ''a'', sample_root 3 ''b''])" by (simp add: sample_root_id)
  from child_page_is_the_sorted_prefix[OF _ this refl, where limit = 2 and fid = "''p''" and cursor = None and key = None] show ?thesis
    by (simp add: cursor_after_def is_passed_def sample_root_id)
qed

text \<open>What a stream keeps for its browser is bounded whatever the model tells it and whenever it is read.\<close>

theorem stream_listener_stays_bounded:
  assumes "fresh_listener l0" "rtranclp listener_step l0 l"
  shows "length (sl_changes l) \<le> 200 \<and> sum_list (map (\<lambda>c. utf8_length (fst c)) (sl_changes l)) \<le> 32768 \<and>
    (sl_available l \<longleftrightarrow> sl_closed l \<or> fst (take_next_event l) \<noteq> None)"
proof -
  have "listener_ok l" by (rule stream.reachable_inv[OF assms])
  then show ?thesis by (auto simp: listener_ok_def MAX_IDENTITIES_def MAX_IDENTITY_BYTES_def take_next_event_def split: option.split)
qed

text \<open>C21. A change of a root reaches the browser: when the model has told the listener of a stream about it,
  then whatever further changes follow, with versions that do not go back, the next event the stream takes
  is a reset, or it names the root and is sent with the record the root has in the model at that
  time, or with its identity among the removed ones when it is gone. (For a name a file system gives, and
  where no other root of the scope bears this identity as its name.)\<close>

theorem stream_shows_every_change:
  assumes "fresh_listener l0" "rtranclp listener_step l0 l" "\<not> sl_closed l" "sl_scope l = scope_id" "event_scope pair = scope_id"
    "fid = build_file_id n (expected_pair scope_id)" "file_name n" "plain_path n (expected_pair scope_id)"
    "list_all (\<lambda>(v, _, p, _). event_scope p = scope_id \<longrightarrow> version \<le> v) changes"
    "model_inv m" "only_identity scope_id fid m"
  shows "\<exists>ev payload. fst (take_next_event (fold publish changes (model_version_published version gv pair fid l))) = Some ev \<and>
    stream_payload_of stamp scope_id m ev = Inr payload \<and>
    (case payload of
       ResetPayload w \<Rightarrow> w = scope_version (expected_pair scope_id) m
     | InvalidatePayload fids u \<Rightarrow> fid \<in> set fids \<and>
         (case map_of (m_files m) fid of
            Some f \<Rightarrow> model_file_page_record_with_overlay stamp m f \<in> set (ru_records u)
          | None \<Rightarrow> fid \<in> set (ru_removed u)))"
proof -
  let ?l = "model_version_published version gv pair fid l"
  have ok: "listener_ok l" by (rule stream.reachable_inv[OF assms(1,2)])
  have "event_scope pair = sl_scope l" using assms(4,5) by simp
  from published_to_report(1)[OF ok assms(3) this] have r: "to_report fid version ?l" .
  have k: "listener_ok ?l" "\<not> sl_closed ?l" using published_ok_listener[OF ok] assms(3) by simp_all
  have "\<forall>(v, g, p, i) \<in> set changes. event_scope p = sl_scope ?l \<longrightarrow> version \<le> v" using assms(4,9) by (auto simp: list_all_iff)
  from publications_keep[OF k r this] have "listener_ok (fold publish changes ?l)" "\<not> sl_closed (fold publish changes ?l)"
    "to_report fid version (fold publish changes ?l)" by simp_all
  from taken_event[OF this] obtain ev where ev: "fst (take_next_event (fold publish changes ?l)) = Some ev"
    "case ev of ModelReset r _ \<Rightarrow> version \<le> r | ModelInvalidate w fids _ \<Rightarrow> fid \<in> set fids \<and> version \<le> w" by blast
  show ?thesis
  proof (cases ev)
    case (ModelReset w g)
    with ev(1) show ?thesis by (auto simp: stream_payload_of_def get_model_scope_version_snapshot_def)
  next
    case (ModelInvalidate w fids g)
    with ev(2) have "fid \<in> set fids" by simp
    with updates_show[OF assms(10,7,8), of fids stamp] assms(6,11) obtain u where "get_model_root_updates stamp scope_id fids m = Inr u"
      "case map_of (m_files m) fid of Some f \<Rightarrow> model_file_page_record_with_overlay stamp m f \<in> set (ru_records u) | None \<Rightarrow> fid \<in> set (ru_removed u)" by auto
    with ev(1) ModelInvalidate \<open>fid \<in> set fids\<close> show ?thesis
      by (intro exI[of _ ev] exI[of _ "InvalidatePayload fids u"]) (simp add: stream_payload_of_def)
  qed
qed

theorem stream_shows_every_change_witness:
  "\<exists>m ev payload. m_files m = [(''a'', sample_root 1 ''a'')] \<and>
    fst (take_next_event (model_version_published 1 1 None ''a'' (new_scoped_listener MODEL_LEGACY_SCOPE_ID))) = Some ev \<and>
    stream_payload_of (\<lambda>_. []) MODEL_LEGACY_SCOPE_ID m ev = Inr payload"
proof -
  obtain m where m: "model_step (new_model 0) m" "m_files m = [(''a'', sample_root 1 ''a'')]" by (rule sample_step)
  have "model_init (new_model 0)" by (auto simp: model_init_def)
  with m(1) have inv: "model_inv m" using model_machine.reachable_inv[of "new_model 0" m] by blast
  have l: "fresh_listener (new_scoped_listener MODEL_LEGACY_SCOPE_ID)" by (auto simp: fresh_listener_def)
  have n: "file_name ''a''" "plain_path ''a'' (expected_pair MODEL_LEGACY_SCOPE_ID)"
    using not_spelled_a by (simp_all add: file_name_def plain_path_def)
  have o: "only_identity MODEL_LEGACY_SCOPE_ID ''a'' m" by (simp add: only_identity_def m(2))
  have e: "event_scope None = MODEL_LEGACY_SCOPE_ID" "''a'' = build_file_id ''a'' (expected_pair MODEL_LEGACY_SCOPE_ID)"
    "sl_scope (new_scoped_listener MODEL_LEGACY_SCOPE_ID) = MODEL_LEGACY_SCOPE_ID" "\<not> sl_closed (new_scoped_listener MODEL_LEGACY_SCOPE_ID)"
    by (simp_all add: event_scope_def expected_pair_def build_file_id_def new_scoped_listener_def)
  from stream_shows_every_change[OF l rtranclp.rtrancl_refl e(4,3,1,2) n _ inv o, of 1 "[]" 1 "\<lambda>_. []"] m(2) show ?thesis by auto
qed

end
