(* ===== verification/Pairs_Handler.thy ===== *)
theory Pairs_Handler
  imports Path_Pairs
begin

text \<open>
  \<open>web/handler/path_pairs.py\<close>: the requests that read and change the path pairs, over the manager and the
  controller that has to adopt a change.

  A request body is the decoded JSON value, or none when it could not be read. The controller may be
  missing; whether it can adopt the pairs, and what keeps it from reserving a move, are arguments, and
  the calls it gets are recorded. Whether the file can be written is an argument for the change
  and another one for its restoration.
\<close>

section \<open>Requests and replies\<close>

datatype controller_call = RefreshCall | ReserveCall pyval | ReleaseCall pyval

record pairs_state =
  ps_manager :: manager
  ps_calls :: "controller_call list"

record pairs_env =
  pe_controller :: bool
  pe_refresh :: "nat \<Rightarrow> bool"
  pe_reserve :: "path_pair \<Rightarrow> path_pair \<Rightarrow> py_error option"
  pe_first :: outside
  pe_second :: outside
  pe_new_id :: string

record pairs_reply =
  re_status :: nat
  re_error :: string
  re_pairs :: "path_pair list"

type_synonym pairs_result = "pairs_reply result \<times> pairs_state"

definition REFRESH_FAILURE :: string where
  "REFRESH_FAILURE = ''Failed to apply path pair changes''"

definition ROLLBACK_FAILURE :: string where
  "ROLLBACK_FAILURE = ''Path pair activation failed and the saved configuration could not be restored''"

definition CONSISTENCY_FAILURE :: string where
  "CONSISTENCY_FAILURE = ''Path pair configuration was restored but runtime activation is inconsistent''"

definition reply_ok :: "path_pair list \<Rightarrow> pairs_reply result" where
  "reply_ok ps = Inr \<lparr>re_status = 200, re_error = [], re_pairs = ps\<rparr>"

definition reply_error :: "nat \<Rightarrow> string \<Rightarrow> pairs_reply result" where
  "reply_error code msg = Inr \<lparr>re_status = code, re_error = msg, re_pairs = []\<rparr>"

text \<open>The \<open>except\<close> clauses of a request; another exception leaves it.\<close>

definition pair_failure :: "nat \<Rightarrow> nat \<Rightarrow> py_error \<Rightarrow> pairs_reply result" where
  "pair_failure conflict refused e =
     (case e of
        ValueError \<Rightarrow> reply_error 400 ''Invalid JSON''
      | AppError c msg \<Rightarrow>
          if c = ''PathPairConflictError'' then reply_error conflict msg
          else if c = ''PathPairError'' then reply_error refused msg
          else if c = ''PersistError'' then reply_error 500 msg
          else Inl e
      | _ \<Rightarrow> Inl e)"

definition is_restore_error :: "py_error \<Rightarrow> bool" where
  "is_restore_error e =
     (case e of AppError c _ \<Rightarrow> c \<in> {''PathPairConflictError'', ''PathPairError'', ''PersistError''} | _ \<Rightarrow> False)"

definition field_type_ok :: "(string, pyval) dict \<Rightarrow> (pyval \<Rightarrow> bool) \<Rightarrow> string \<Rightarrow> bool" where
  "field_type_ok d ok k = (case dict_get d k of None \<Rightarrow> True | Some v \<Rightarrow> ok v)"

definition validate_request_json :: "pyval \<Rightarrow> (string, pyval) dict result" where
  "validate_request_json v =
     (case v of
        PDict d \<Rightarrow>
          if list_all (field_type_ok d is_str) [''id'', ''name'', ''remote_path'', ''local_path''] \<and>
             list_all (field_type_ok d is_bool) [''enabled'', ''auto_queue'']
          then Inr d else Inl (pair_error ''field has the wrong type'')
      | _ \<Rightarrow> Inl (pair_error ''Path pair request body must be a JSON object''))"

definition string_value :: "(string, pyval) dict \<Rightarrow> string \<Rightarrow> pyval \<Rightarrow> pyval" where
  "string_value d k dflt = (case dict_get d k of Some (PStr s) \<Rightarrow> PStr s | _ \<Rightarrow> dflt)"

definition bool_value :: "(string, pyval) dict \<Rightarrow> string \<Rightarrow> pyval \<Rightarrow> pyval" where
  "bool_value d k dflt = (case dict_get d k of Some (PBool b) \<Rightarrow> PBool b | _ \<Rightarrow> dflt)"

section \<open>The controller\<close>

definition tell :: "controller_call \<Rightarrow> pairs_state \<Rightarrow> pairs_state" where
  "tell call st = st\<lparr>ps_calls := ps_calls st @ [call]\<rparr>"

text \<open>Whether the controller adopted the pairs; the answer may be another one each time it is asked.\<close>

definition refresh_path_pairs :: "pairs_env \<Rightarrow> pairs_state \<Rightarrow> bool \<times> pairs_state" where
  "refresh_path_pairs env st =
     (if \<not> pe_controller env then (True, st)
      else (pe_refresh env (length (filter (\<lambda>c. c = RefreshCall) (ps_calls st))), tell RefreshCall st))"

definition update_affects_runtime :: "path_pair \<Rightarrow> path_pair \<Rightarrow> bool" where
  "update_affects_runtime existing updated =
     (if pp_enabled existing \<noteq> pp_enabled updated then True
      else if pp_enabled existing \<noteq> PBool True \<and> pp_enabled updated \<noteq> PBool True then False
      else pp_name existing \<noteq> pp_name updated \<or> pp_remote_path existing \<noteq> pp_remote_path updated \<or>
        pp_local_path existing \<noteq> pp_local_path updated)"

section \<open>Reading\<close>

definition handle_get_all :: "pairs_env \<Rightarrow> pairs_state \<Rightarrow> pairs_result" where
  "handle_get_all env st =
     (let m = loaded (pe_first env) (ps_manager st) in (reply_ok (pc_pairs (the_collection m)), st\<lparr>ps_manager := m\<rparr>))"

definition handle_get_one :: "pairs_env \<Rightarrow> string \<Rightarrow> pairs_state \<Rightarrow> pairs_result" where
  "handle_get_one env pair_id st =
     (let m = loaded (pe_first env) (ps_manager st); st1 = st\<lparr>ps_manager := m\<rparr>
      in case get_pair_by_id (PStr pair_id) (the_collection m) of
           None \<Rightarrow> (reply_error 404 ''not found'', st1)
         | Some p \<Rightarrow> (reply_ok [p], st1))"

section \<open>Creating\<close>

definition created_pair :: "pairs_env \<Rightarrow> (string, pyval) dict \<Rightarrow> path_pair result" where
  "created_pair env d =
     new_path_pair (string_value d ''remote_path'' (PStr [])) (string_value d ''local_path'' (PStr []))
       (string_value d ''name'' (PStr [])) (PStr (pe_new_id env)) (bool_value d ''enabled'' (PBool True)) (bool_value d ''auto_queue'' (PBool True))"

definition save_created :: "pairs_env \<Rightarrow> path_pair \<Rightarrow> pairs_state \<Rightarrow> pairs_result" where
  "save_created env pair st =
     (case manager_add (pe_first env) pair (ps_manager st) of
        (Inl e, m) \<Rightarrow> (pair_failure 409 400 e, st\<lparr>ps_manager := m\<rparr>)
      | (Inr _, m) \<Rightarrow>
          (let st1 = st\<lparr>ps_manager := m\<rparr>
           in if pp_enabled pair \<noteq> PBool True then (reply_ok [pair], st1)
              else case refresh_path_pairs env st1 of
                (True, st2) \<Rightarrow> (reply_ok [pair], st2)
              | (False, st2) \<Rightarrow> (reply_error 500 REFRESH_FAILURE, st2)))"

definition handle_create :: "pairs_env \<Rightarrow> pyval option \<Rightarrow> pairs_state \<Rightarrow> pairs_result" where
  "handle_create env body st =
     (case body of
        None \<Rightarrow> (reply_error 400 ''Invalid JSON'', st)
      | Some v \<Rightarrow>
          (case validate_request_json v of
             Inl e \<Rightarrow> (pair_failure 409 400 e, st)
           | Inr d \<Rightarrow>
               if dict_get d ''remote_path'' = None \<or> dict_get d ''local_path'' = None
               then (reply_error 400 ''remote_path and local_path are required'', st)
               else case created_pair env d of
                 Inl e \<Rightarrow> (pair_failure 409 400 e, st)
               | Inr pair \<Rightarrow> save_created env pair st))"

section \<open>Updating\<close>

definition updated_pair :: "string \<Rightarrow> path_pair \<Rightarrow> (string, pyval) dict \<Rightarrow> path_pair result" where
  "updated_pair pair_id existing d =
     new_path_pair (string_value d ''remote_path'' (pp_remote_path existing)) (string_value d ''local_path'' (pp_local_path existing))
       (string_value d ''name'' (pp_name existing)) (PStr pair_id) (bool_value d ''enabled'' (pp_enabled existing))
       (bool_value d ''auto_queue'' (pp_auto_queue existing))"

definition wants_relocation :: "pairs_env \<Rightarrow> path_pair \<Rightarrow> path_pair \<Rightarrow> bool" where
  "wants_relocation env existing pair =
     (pe_controller env \<and> pp_enabled existing = PBool True \<and> pp_local_path existing \<noteq> pp_local_path pair)"

text \<open>The pair as it was is saved again, and the controller asked to adopt that.\<close>

definition restore_pair :: "pairs_env \<Rightarrow> path_pair \<Rightarrow> pairs_state \<Rightarrow> pairs_result" where
  "restore_pair env existing st =
     (case manager_update (pe_second env) existing (ps_manager st) of
        (Inl e, m) \<Rightarrow> (if is_restore_error e then reply_error 500 ROLLBACK_FAILURE else pair_failure 409 400 e, st\<lparr>ps_manager := m\<rparr>)
      | (Inr _, m) \<Rightarrow>
          (case refresh_path_pairs env (st\<lparr>ps_manager := m\<rparr>) of
             (True, st1) \<Rightarrow> (reply_error 500 REFRESH_FAILURE, st1)
           | (False, st1) \<Rightarrow> (reply_error 500 CONSISTENCY_FAILURE, st1)))"

definition apply_update :: "pairs_env \<Rightarrow> path_pair \<Rightarrow> path_pair \<Rightarrow> pairs_state \<Rightarrow> pairs_result" where
  "apply_update env existing pair st =
     (case manager_update (pe_first env) pair (ps_manager st) of
        (Inl e, m) \<Rightarrow> (pair_failure 409 400 e, st\<lparr>ps_manager := m\<rparr>)
      | (Inr _, m) \<Rightarrow>
          (let st1 = st\<lparr>ps_manager := m\<rparr>
           in if \<not> update_affects_runtime existing pair then (reply_ok [pair], st1)
              else case refresh_path_pairs env st1 of
                (True, st2) \<Rightarrow> (reply_ok [pair], st2)
              | (False, st2) \<Rightarrow> restore_pair env existing st2))"

definition reserve_and_update :: "pairs_env \<Rightarrow> path_pair \<Rightarrow> path_pair \<Rightarrow> pairs_state \<Rightarrow> pairs_result" where
  "reserve_and_update env existing pair st =
     (if \<not> wants_relocation env existing pair then apply_update env existing pair st
      else case pe_reserve env existing pair of
        Some e \<Rightarrow> (pair_failure 409 400 e, st)
      | None \<Rightarrow>
          (let (r, st1) = apply_update env existing pair (tell (ReserveCall (pp_id existing)) st)
           in (r, tell (ReleaseCall (pp_id existing)) st1)))"

definition handle_update :: "pairs_env \<Rightarrow> string \<Rightarrow> pyval option \<Rightarrow> pairs_state \<Rightarrow> pairs_result" where
  "handle_update env pair_id body st =
     (let m = loaded (pe_first env) (ps_manager st); st1 = st\<lparr>ps_manager := m\<rparr>
      in case get_pair_by_id (PStr pair_id) (the_collection m) of
           None \<Rightarrow> (reply_error 404 ''not found'', st1)
         | Some existing \<Rightarrow>
             (case body of
                None \<Rightarrow> (reply_error 400 ''Invalid JSON'', st1)
              | Some v \<Rightarrow>
                  (case rbind (validate_request_json v) (updated_pair pair_id existing) of
                     Inl e \<Rightarrow> (pair_failure 409 400 e, st1)
                   | Inr pair \<Rightarrow> reserve_and_update env existing pair st1)))"

section \<open>Deleting and reordering\<close>

definition handle_delete :: "pairs_env \<Rightarrow> string \<Rightarrow> pairs_state \<Rightarrow> pairs_result" where
  "handle_delete env pair_id st =
     (let m = loaded (pe_first env) (ps_manager st); existing = get_pair_by_id (PStr pair_id) (the_collection m)
      in case manager_remove (pe_first env) (PStr pair_id) m of
           (Inl e, m1) \<Rightarrow> (if e = ValueError then Inl e else pair_failure 404 404 e, st\<lparr>ps_manager := m1\<rparr>)
         | (Inr _, m1) \<Rightarrow>
             (let st1 = st\<lparr>ps_manager := m1\<rparr>
              in if \<not> opt_holds (\<lambda>p. pp_enabled p = PBool True) existing then (reply_ok [], st1)
                 else case refresh_path_pairs env st1 of
                   (True, st2) \<Rightarrow> (reply_ok [], st2)
                 | (False, st2) \<Rightarrow> (reply_error 500 REFRESH_FAILURE, st2)))"

fun string_list :: "pyval list \<Rightarrow> string list option" where
  "string_list [] = Some []"
| "string_list (v # vs) = (case (v, string_list vs) of (PStr s, Some ss) \<Rightarrow> Some (s # ss) | _ \<Rightarrow> None)"

definition handle_reorder :: "pairs_env \<Rightarrow> pyval option \<Rightarrow> pairs_state \<Rightarrow> pairs_result" where
  "handle_reorder env body st =
     (case body of
        None \<Rightarrow> (reply_error 400 ''Invalid JSON'', st)
      | Some v \<Rightarrow>
          (case validate_request_json v of
             Inl e \<Rightarrow> (pair_failure 400 400 e, st)
           | Inr d \<Rightarrow>
               (case dict_get d ''order'' of
                  Some (PList vs) \<Rightarrow>
                    (case string_list vs of
                       None \<Rightarrow> (reply_error 400 ''order field must be a list of path pair IDs'', st)
                     | Some ids \<Rightarrow>
                         (case manager_reorder (pe_first env) ids (ps_manager st) of
                            (Inl e, m) \<Rightarrow> (pair_failure 400 400 e, st\<lparr>ps_manager := m\<rparr>)
                          | (Inr _, m) \<Rightarrow> (reply_ok (pc_pairs (the_collection m)), st\<lparr>ps_manager := m\<rparr>)))
                | _ \<Rightarrow> (reply_error 400 ''order field must be a list of path pair IDs'', st))))"

section \<open>A refused update is undone\<close>

lemma loaded_again: "loaded w (loaded w' m) = loaded w' m"
  using loaded_collection[of w' m] by (simp add: loaded_idem)

lemma manager_fails: "manager_update w p m = (Inl e, m') \<Longrightarrow> m' = loaded w m"
  unfolding manager_update_def by (rule mutate_and_save_fails)

text \<open>Putting the old pair back after an update gives the collection as it was.\<close>

lemma update_back:
  assumes "coll_ok c" "get_pair_by_id i c = Some old" "pp_id p = i" "update_pair p c = Inr (ws, c')" "pp_name p \<noteq> PStr []"
  shows "\<exists>ws'. update_pair old c' = Inr (ws', c)"
proof -
  obtain xs x ys where s: "pc_pairs c = xs @ x # ys" "pc_pairs c' = xs @ p # ys" "pp_id x = pp_id p"
    and ok: "coll_ok c'" using update_pair_ok[OF assms(1,5,4)] by blast
  have c': "c' = c\<lparr>pc_pairs := xs @ p # ys\<rparr>" using assms(4) s(2) by (auto simp: update_pair_def rbind_Inr_iff)
  have "i \<notin> pp_id ` set xs" using assms(1,3) s by (auto simp: coll_ok_def)
  then have xs: "\<forall>y \<in> set xs. pp_id y \<noteq> i" by (metis image_eqI)
  have o: "old = x"
  proof -
    have "find (\<lambda>p. pp_id p = i) (xs @ x # ys) = Some x" using xs s(3) assms(3) by (induction xs) auto
    with assms(2) s(1) show ?thesis by (simp add: get_pair_by_id_def)
  qed
  have pair: "pair_ok x" using assms(1) s(1) by (simp add: coll_ok_def)
  then have v: "validate x = Inr []" by (simp add: pair_ok_def)
  have loop: "update_loop x t (xs @ p # ys) = Inr (xs @ x # ys)" if "\<not> (pp_name p \<noteq> pp_name x \<and> t)" for t
    using xs s(3) assms(3) that by (induction xs) auto
  have "\<not> (pp_name p \<noteq> pp_name x \<and> get_pair_by_name (pp_name x) c' \<noteq> None)"
  proof
    assume a: "pp_name p \<noteq> pp_name x \<and> get_pair_by_name (pp_name x) c' \<noteq> None"
    then have "pp_name x \<in> pp_name ` set (xs @ p # ys)" unfolding get_pair_by_name_def c' by (auto simp: find_pair_None)
    with a have "pp_name x \<in> pp_name ` set (xs @ ys)" by auto
    with assms(1) s(1) show False by (auto simp: coll_ok_def)
  qed
  from loop[OF this] v have "update_pair x c' = Inr ([], c'\<lparr>pc_pairs := xs @ x # ys\<rparr>)" by (simp add: update_pair_def c')
  moreover have "c'\<lparr>pc_pairs := xs @ x # ys\<rparr> = c" using s(1) by (simp add: c')
  ultimately show ?thesis by (simp add: o)
qed

text \<open>The replies an update that is in force may have: success, or that it could not be taken back.\<close>

definition granted :: "pairs_reply result \<Rightarrow> bool" where
  "granted r \<longleftrightarrow> (\<exists>rep. r = Inr rep \<and> re_status rep = 200)"

definition not_restored :: "pairs_reply result \<Rightarrow> bool" where
  "not_restored r \<longleftrightarrow> r = reply_error 500 ROLLBACK_FAILURE"

text \<open>Memory and file both hold a collection.\<close>

definition holds :: "manager \<Rightarrow> collection \<Rightarrow> bool" where
  "holds m c \<longleftrightarrow> pm_collection m = Some c \<and> pm_disk m = Stored (collection_to_doc c)"

lemma error_not_granted: "\<not> granted (pair_failure 409 400 e)" "code \<noteq> 200 \<Longrightarrow> \<not> granted (reply_error code msg)"
  by (auto simp: granted_def pair_failure_def reply_error_def split: py_error.splits if_splits)

lemma refresh_manager: "refresh_path_pairs env st = (b, st') \<Longrightarrow> ps_manager st' = ps_manager st"
  by (auto simp: refresh_path_pairs_def tell_def split: if_splits)

lemma updated_manager:
  assumes "pm_collection m = Some c" "manager_update w p m = (Inr ws, m')"
  obtains c' where "update_pair p c = Inr (ws, c')" "holds m' c'"
proof -
  have l: "loaded w m = m" "the_collection m = c" using assms(1) by (simp_all add: loaded_idem the_collection_def)
  show thesis
  proof (rule mutate_and_save_succeeds[OF assms(2)[unfolded manager_update_def]])
    fix c' assume "update_pair p (the_collection (loaded w m)) = Inr (ws, c')"
      "m' = (loaded w m)\<lparr>pm_collection := Some c', pm_disk := Stored (collection_to_doc c')\<rparr>"
    then show thesis using that[of c'] by (simp add: l holds_def)
  qed
qed

text \<open>After a failed adoption the old pair is saved again, or the new one stays and the reply says so.\<close>

lemma restore_outcome:
  assumes "holds (ps_manager st) c'" "update_pair existing c' = Inr (ws, c)" "restore_pair env existing st = (r, st')"
  shows "\<not> granted r \<and> (holds (ps_manager st') c \<or> not_restored r \<and> holds (ps_manager st') c')"
proof -
  have m: "pm_collection (ps_manager st) = Some c'" using assms(1) by (simp add: holds_def)
  obtain r1 m1 where v: "manager_update (pe_second env) existing (ps_manager st) = (r1, m1)" by (rule prod.exhaust)
  show ?thesis
  proof (cases r1)
    case (Inl e)
    have "\<exists>e'. e = AppError ''PersistError'' e'"
      using v Inl assms(2) m loaded_idem[OF m]
      by (auto simp: manager_update_def mutate_and_save_def the_collection_def save_def Let_def split: if_splits)
    then have "r = reply_error 500 ROLLBACK_FAILURE" "ps_manager st' = m1" using assms(3) v Inl by (auto simp: restore_pair_def is_restore_error_def)
    moreover have "m1 = ps_manager st" using manager_fails[OF v[unfolded Inl]] loaded_idem[OF m] by simp
    ultimately show ?thesis using assms(1) by (simp add: not_restored_def error_not_granted)
  next
    case (Inr ws')
    obtain c1 where c1: "update_pair existing c' = Inr (ws', c1)" "holds m1 c1" using updated_manager[OF m v[unfolded Inr]] by blast
    obtain b st1 where f: "refresh_path_pairs env (st\<lparr>ps_manager := m1\<rparr>) = (b, st1)" by (rule prod.exhaust)
    then have "st' = st1" "\<not> granted r" using assms(3) v Inr by (auto simp: restore_pair_def error_not_granted split: bool.splits)
    with refresh_manager[OF f] c1 assms(2) show ?thesis by simp
  qed
qed

lemma apply_update_outcome:
  assumes "holds (ps_manager st) c" "coll_ok c" "get_pair_by_id i c = Some existing" "pp_id pair = i" "pp_name pair \<noteq> PStr []"
    "apply_update env existing pair st = (r, st')"
  shows "holds (ps_manager st') c \<and> \<not> granted r \<or>
    (granted r \<or> not_restored r) \<and> (\<exists>ws c'. update_pair pair c = Inr (ws, c') \<and> holds (ps_manager st') c')"
proof -
  let ?m = "ps_manager st"
  have m: "pm_collection ?m = Some c" using assms(1) by (simp add: holds_def)
  obtain r1 m1 where u: "manager_update (pe_first env) pair ?m = (r1, m1)" by (rule prod.exhaust)
  show ?thesis
  proof (cases r1)
    case (Inl e)
    with u manager_fails have "m1 = ?m" using loaded_idem[OF m] by metis
    with Inl u assms show ?thesis by (auto simp: apply_update_def error_not_granted)
  next
    case (Inr ws)
    obtain c' where c': "update_pair pair c = Inr (ws, c')" "holds m1 c'" using updated_manager[OF m u[unfolded Inr]] by blast
    obtain b st2 where f: "refresh_path_pairs env (st\<lparr>ps_manager := m1\<rparr>) = (b, st2)" by (rule prod.exhaust)
    have m2: "ps_manager st2 = m1" using refresh_manager[OF f] by simp
    consider "granted r" "ps_manager st' = m1" | "restore_pair env existing st2 = (r, st')"
      using assms(6) u Inr f m2 by (auto simp: apply_update_def Let_def reply_ok_def granted_def split: if_splits bool.splits)
    then show ?thesis
    proof cases
      case 1
      with c' show ?thesis by blast
    next
      case 2
      obtain ws2 where "update_pair existing c' = Inr (ws2, c)" using update_back[OF assms(2,3,4) c'(1) assms(5)] by blast
      from restore_outcome[OF _ this 2] c' m2 show ?thesis by auto
    qed
  qed
qed

lemma updated_pair_named:
  assumes "pair_ok existing" "updated_pair pair_id existing d = Inr p"
  shows "pp_id p = PStr pair_id" "pp_name p \<noteq> PStr []"
proof -
  obtain q where q: "pp_remote_path existing = PStr q" using assms(1) by (elim pair_okE) auto
  have "\<exists>r. string_value d ''remote_path'' (PStr q) = PStr r" by (auto simp: string_value_def split: option.split pyval.split)
  then obtain r where r: "string_value d ''remote_path'' (pp_remote_path existing) = PStr r" unfolding q ..
  show "pp_id p = PStr pair_id" "pp_name p \<noteq> PStr []"
    using assms(2) unfolding updated_pair_def r
    by (auto simp: new_path_pair_def Let_def default_name_nonempty split: pyval.splits if_splits)
qed

text \<open>An existing pair is in the file.\<close>

lemma existing_on_disk:
  assumes "manager_ok m" "get_pair_by_id i (the_collection (loaded w m)) = Some p"
  shows "pm_disk m = Stored (collection_to_doc (the_collection (loaded w m)))" "coll_ok (the_collection (loaded w m))"
    "pm_collection (loaded w m) = Some (the_collection (loaded w m))" "pair_ok p"
proof -
  let ?c = "the_collection (loaded w m)"
  have ok: "manager_ok (loaded w m)" "coll_ok ?c" using loaded_ok[OF assms(1), of w] by simp_all
  show "coll_ok ?c" by (rule ok(2))
  show l: "pm_collection (loaded w m) = Some ?c" by (rule loaded_collection)
  have "?c \<noteq> empty_collection" using assms(2) by (auto simp: get_pair_by_id_def empty_collection_def)
  then show "pm_disk m = Stored (collection_to_doc ?c)"
    using ok(1) l by (auto simp: manager_ok_def split: disk_file.splits)
  have "p \<in> set (pc_pairs ?c)" using assms(2) by (auto simp: get_pair_by_id_def find_Some_iff)
  then show "pair_ok p" using ok(2) by (simp add: coll_ok_def list_all_iff)
qed

lemma reserve_outcome:
  assumes "holds (ps_manager st) c" "coll_ok c" "get_pair_by_id i c = Some existing" "pp_id pair = i" "pp_name pair \<noteq> PStr []"
    "reserve_and_update env existing pair st = (r, st')"
  shows "holds (ps_manager st') c \<and> \<not> granted r \<or>
    (granted r \<or> not_restored r) \<and> (\<exists>ws c'. update_pair pair c = Inr (ws, c') \<and> holds (ps_manager st') c')"
proof -
  consider "apply_update env existing pair st = (r, st')" | "st' = st" "\<not> granted r"
    | st1 where "apply_update env existing pair (tell (ReserveCall (pp_id existing)) st) = (r, st1)" "st' = tell (ReleaseCall (pp_id existing)) st1"
    using assms(6) by (auto simp: reserve_and_update_def error_not_granted split: if_splits option.splits prod.splits)
  then show ?thesis
  proof cases
    case 1
    then show ?thesis by (rule apply_update_outcome[OF assms(1-5)])
  next
    case 2
    then show ?thesis using assms(1) by simp
  next
    case (3 st1)
    have "ps_manager (tell (ReserveCall (pp_id existing)) st) = ps_manager st" "ps_manager st' = ps_manager st1" by (simp_all add: tell_def 3)
    then show ?thesis using apply_update_outcome[OF _ assms(2-5) 3(1)] assms(1) by simp
  qed
qed

section \<open>The calls of an update\<close>

lemma refresh_calls: "refresh_path_pairs env st = (b, st') \<Longrightarrow> \<exists>k \<le> 1. ps_calls st' = ps_calls st @ replicate k RefreshCall"
  by (auto simp: refresh_path_pairs_def tell_def split: if_splits intro: exI[of _ 0] exI[of _ 1])

lemma restore_calls: "restore_pair env existing st = (r, st') \<Longrightarrow> \<exists>k \<le> 1. ps_calls st' = ps_calls st @ replicate k RefreshCall"
proof -
  assume r: "restore_pair env existing st = (r, st')"
  obtain r1 m where u: "manager_update (pe_second env) existing (ps_manager st) = (r1, m)" by (rule prod.exhaust)
  obtain b st1 where f: "refresh_path_pairs env (st\<lparr>ps_manager := m\<rparr>) = (b, st1)" by (rule prod.exhaust)
  show ?thesis
  proof (cases r1)
    case (Inl e)
    with r u have "ps_calls st' = ps_calls st @ replicate 0 RefreshCall" by (auto simp: restore_pair_def)
    then show ?thesis by blast
  next
    case (Inr ws)
    then have "st' = st1" using r u f by (auto simp: restore_pair_def split: bool.splits)
    with refresh_calls[OF f] show ?thesis by simp
  qed
qed

lemma apply_update_calls: "apply_update env existing pair st = (r, st') \<Longrightarrow> \<exists>k. ps_calls st' = ps_calls st @ replicate k RefreshCall"
proof -
  assume a: "apply_update env existing pair st = (r, st')"
  obtain r1 m where u: "manager_update (pe_first env) pair (ps_manager st) = (r1, m)" by (rule prod.exhaust)
  obtain b st1 where f: "refresh_path_pairs env (st\<lparr>ps_manager := m\<rparr>) = (b, st1)" by (rule prod.exhaust)
  obtain k where k: "ps_calls st1 = ps_calls st @ replicate k RefreshCall" using refresh_calls[OF f] by auto
  consider "ps_calls st' = ps_calls st" | "st' = st1" | "restore_pair env existing st1 = (r, st')"
    using a u f by (cases r1) (auto simp: apply_update_def Let_def split: if_splits bool.splits)
  then show ?thesis
  proof cases
    case 1
    then show ?thesis by (intro exI[of _ 0]) simp
  next
    case 2
    then show ?thesis using k by blast
  next
    case 3
    then obtain j where "ps_calls st' = ps_calls st1 @ replicate j RefreshCall" using restore_calls by blast
    then have "ps_calls st' = ps_calls st @ replicate (k + j) RefreshCall" by (simp add: k replicate_add)
    then show ?thesis by blast
  qed
qed

lemma reserve_calls:
  assumes "reserve_and_update env existing pair st = (r, st')"
  shows "\<exists>calls. ps_calls st' = ps_calls st @ calls \<and>
    (list_all (\<lambda>c. c = RefreshCall) calls \<or> (\<exists>i k. calls = ReserveCall i # replicate k RefreshCall @ [ReleaseCall i]))"
proof -
  consider "apply_update env existing pair st = (r, st')" | "st' = st"
    | st1 where "apply_update env existing pair (tell (ReserveCall (pp_id existing)) st) = (r, st1)" "st' = tell (ReleaseCall (pp_id existing)) st1"
    using assms by (auto simp: reserve_and_update_def split: if_splits option.splits prod.splits)
  then show ?thesis
  proof cases
    case 1
    then obtain k where "ps_calls st' = ps_calls st @ replicate k RefreshCall" using apply_update_calls by blast
    then show ?thesis by (auto intro!: exI[of _ "replicate k RefreshCall"] simp: list_all_iff)
  next
    case 2
    then show ?thesis by (auto intro!: exI[of _ "[]"])
  next
    case (3 st1)
    then obtain k where "ps_calls st1 = ps_calls (tell (ReserveCall (pp_id existing)) st) @ replicate k RefreshCall" using apply_update_calls by blast
    then have "ps_calls st' = ps_calls st @ ReserveCall (pp_id existing) # replicate k RefreshCall @ [ReleaseCall (pp_id existing)]"
      using 3(2) by (simp add: tell_def)
    then show ?thesis by blast
  qed
qed

section \<open>Properties\<close>

text \<open>The change a request asks for is in memory and in the file.\<close>

definition change_in_force :: "string \<Rightarrow> pyval option \<Rightarrow> collection \<Rightarrow> manager \<Rightarrow> bool" where
  "change_in_force pair_id body c m \<longleftrightarrow>
     (\<exists>existing v d pair ws c'. get_pair_by_id (PStr pair_id) c = Some existing \<and> body = Some v \<and> validate_request_json v = Inr d \<and>
        updated_pair pair_id existing d = Inr pair \<and> update_pair pair c = Inr (ws, c') \<and> holds m c')"

text \<open>C23. A request to change a path pair has one of two ends. Either the pairs in memory and in the file are
  those before the request, and the reply is no success; also when the change was saved and the controller then
  could not adopt it. Or the change is in force, in memory and in the file alike, and the reply is a
  success or the failure that says the old configuration could not be restored: after that failure,
  and no other, the refused pair stays. And a reservation made for a move is released at the end, whatever
  the outcome.\<close>

theorem pair_update_is_undone_or_in_force:
  assumes "manager_ok (ps_manager st)" "handle_update env pair_id body st = (r, st')"
  shows "(the_collection (ps_manager st') = the_collection (loaded (pe_first env) (ps_manager st)) \<and>
        pm_disk (ps_manager st') = pm_disk (ps_manager st) \<and> \<not> granted r \<or>
      change_in_force pair_id body (the_collection (loaded (pe_first env) (ps_manager st))) (ps_manager st') \<and>
        (granted r \<or> not_restored r)) \<and>
    (\<exists>calls. ps_calls st' = ps_calls st @ calls \<and>
      (list_all (\<lambda>c. c = RefreshCall) calls \<or>
       (\<exists>i k. calls = ReserveCall i # replicate k RefreshCall @ [ReleaseCall i])))"
proof -
  let ?m = "loaded (pe_first env) (ps_manager st)"
  let ?c = "the_collection ?m"
  let ?st = "st\<lparr>ps_manager := ?m\<rparr>"
  consider "st' = ?st" "\<not> granted r" | existing v d pair where "get_pair_by_id (PStr pair_id) ?c = Some existing"
    "updated_pair pair_id existing d = Inr pair" "reserve_and_update env existing pair ?st = (r, st')" "body = Some v" "validate_request_json v = Inr d"
    using assms(2) by (auto simp: handle_update_def Let_def rbind_Inr_iff error_not_granted split: option.splits sum.splits)
  then show ?thesis
  proof cases
    case 1
    then show ?thesis by (auto intro!: exI[of _ "[]"])
  next
    case (2 existing v d pair)
    note e = existing_on_disk[OF assms(1) 2(1)]
    have h: "holds (ps_manager ?st) ?c" using e(1,3) by (simp add: holds_def)
    from reserve_outcome[OF h e(2) 2(1) updated_pair_named[OF e(4) 2(2)] 2(3)] have
      "the_collection (ps_manager st') = ?c \<and> pm_disk (ps_manager st') = pm_disk (ps_manager st) \<and> \<not> granted r \<or>
       change_in_force pair_id body ?c (ps_manager st') \<and> (granted r \<or> not_restored r)"
    proof (elim disjE)
      assume "holds (ps_manager st') ?c \<and> \<not> granted r"
      then show ?thesis using e(1) by (simp add: holds_def the_collection_def[of "ps_manager st'"])
    next
      assume "(granted r \<or> not_restored r) \<and> (\<exists>ws c'. update_pair pair ?c = Inr (ws, c') \<and> holds (ps_manager st') c')"
      then show ?thesis using 2 unfolding change_in_force_def by blast
    qed
    with reserve_calls[OF 2(3)] show ?thesis by simp
  qed
qed

definition sample_pairs_env :: pairs_env where
  "sample_pairs_env = \<lparr>pe_controller = True, pe_refresh = (\<lambda>n. n \<noteq> 0), pe_reserve = (\<lambda>_ _. None),
     pe_first = \<lparr>fresh_ids = (\<lambda>_. ''f''), copy_ok = True, write_ok = True\<rparr>, pe_second = \<lparr>fresh_ids = (\<lambda>_. ''f''), copy_ok = True, write_ok = True\<rparr>,
     pe_new_id = ''new''\<rparr>"

definition sample_pair_entry :: path_pair where
  "sample_pair_entry = \<lparr>pp_remote_path = PStr ''r'', pp_local_path = PStr ''l'', pp_name = PStr ''n'', pp_id = PStr ''i'',
     pp_enabled = PBool True, pp_auto_queue = PBool True\<rparr>"

definition sample_pairs_state :: pairs_state where
  "sample_pairs_state =
     (let c = \<lparr>pc_pairs = [sample_pair_entry], pc_version = 1\<rparr>
      in \<lparr>ps_manager = \<lparr>pm_collection = Some c, pm_disk = Stored (collection_to_doc c), pm_backups = []\<rparr>, ps_calls = []\<rparr>)"

theorem pair_update_is_undone_or_in_force_witness:
  "\<exists>r st'. handle_update sample_pairs_env ''i'' (Some (PDict [(''local_path'', PStr ''x'')])) sample_pairs_state = (r, st') \<and> \<not> granted r \<and>
     pc_pairs (the_collection (ps_manager st')) = [sample_pair_entry] \<and> ps_calls st' \<noteq> []"
proof -
  let ?h = "handle_update sample_pairs_env ''i'' (Some (PDict [(''local_path'', PStr ''x'')])) sample_pairs_state"
  obtain r st' where h: "?h = (r, st')" by (rule prod.exhaust)
  have ok: "manager_ok (ps_manager sample_pairs_state)"
  proof -
    have "coll_ok \<lparr>pc_pairs = [sample_pair_entry], pc_version = 1\<rparr>" by code_simp
    then show ?thesis by (auto simp: manager_ok_def sample_pairs_state_def Let_def)
  qed
  have f: "(case fst ?h of Inr rep \<Rightarrow> re_status rep = 500 \<and> re_error rep = REFRESH_FAILURE | Inl _ \<Rightarrow> False)" by code_simp
  have c: "ps_calls (snd ?h) \<noteq> []" by code_simp
  have "REFRESH_FAILURE \<noteq> ROLLBACK_FAILURE" by code_simp
  with f have n: "\<not> granted r" "\<not> not_restored r" by (auto simp: h granted_def not_restored_def reply_error_def split: sum.splits)
  have "pc_pairs (the_collection (loaded (pe_first sample_pairs_env) (ps_manager sample_pairs_state))) = [sample_pair_entry]"
    by (simp add: sample_pairs_state_def loaded_def the_collection_def Let_def)
  with pair_update_is_undone_or_in_force[OF ok h] n have "pc_pairs (the_collection (ps_manager st')) = [sample_pair_entry]" by auto
  with h n c show ?thesis by (intro exI[of _ r] exI[of _ st']) simp
qed

text \<open>A creation the controller cannot adopt is answered as a failure, and stays saved.\<close>

lemma add_pair_error: "add_pair p c = Inl e \<Longrightarrow> \<exists>k msg. e = AppError k msg \<and> k \<in> {''PathPairError'', ''PathPairConflictError''}"
proof -
  have b: "rbind r f = Inl x \<longleftrightarrow> r = Inl x \<or> (\<exists>y. r = Inr y \<and> f y = Inl x)" for r :: "unit result" and f :: "unit \<Rightarrow> string list result" and x
    by (cases r) auto
  have k: "check_str f v = Inl x \<Longrightarrow> \<exists>msg. x = pair_error msg" "check_text f g v = Inl x \<Longrightarrow> \<exists>msg. x = pair_error msg"
    "check_bool f v = Inl x \<Longrightarrow> \<exists>msg. x = pair_error msg" for f g v x
    by (auto simp: check_str_def check_text_def check_bool_def split: pyval.splits if_splits)
  have "validate p = Inl e' \<Longrightarrow> \<exists>msg. e' = pair_error msg" for e'
    unfolding validate_def b using k by blast
  moreover assume "add_pair p c = Inl e"
  ultimately show ?thesis by (cases "validate p") (auto simp: add_pair_def split: if_splits)
qed

lemma add_failure:
  assumes "manager_add w p m = (Inl e, m')"
  shows "pair_failure 409 400 e \<noteq> reply_error 500 REFRESH_FAILURE"
proof -
  have ne: "''Failed to save path pairs'' \<noteq> REFRESH_FAILURE" by code_simp
  consider "add_pair p (the_collection (loaded w m)) = Inl e" | "e = AppError ''PersistError'' ''Failed to save path pairs''"
    using assms by (auto simp: manager_add_def mutate_and_save_def save_def Let_def split: sum.splits if_splits)
  then show ?thesis
  proof cases
    case 1
    from add_pair_error[OF this] show ?thesis by (auto simp: pair_failure_def reply_error_def)
  next
    case 2
    then show ?thesis using ne by (simp add: pair_failure_def reply_error_def)
  qed
qed

theorem failed_creation_stays_saved:
  assumes "handle_create env body st = (reply_error 500 REFRESH_FAILURE, st')"
  shows "\<exists>pair. pc_pairs (the_collection (ps_manager st')) = pc_pairs (the_collection (loaded (pe_first env) (ps_manager st))) @ [pair] \<and>
    pm_disk (ps_manager st') = Stored (collection_to_doc (the_collection (ps_manager st')))"
proof -
  have v: "pair_failure 409 400 (pair_error msg) \<noteq> reply_error 500 REFRESH_FAILURE" for msg by (simp add: pair_failure_def reply_error_def)
  have c: "created_pair env d = Inl e \<Longrightarrow> \<exists>msg. e = pair_error msg" for d e
    by (auto simp: created_pair_def new_path_pair_def Let_def split: pyval.splits if_splits)
  have d: "validate_request_json w = Inl e \<Longrightarrow> \<exists>msg. e = pair_error msg" for w e
    by (auto simp: validate_request_json_def split: pyval.splits if_splits)
  obtain pair where p: "save_created env pair st = (reply_error 500 REFRESH_FAILURE, st')"
    using assms v c d unfolding handle_create_def
    by (auto simp: reply_error_def[of 400] reply_error_def[of 500] split: option.splits sum.splits if_splits) (metis v reply_error_def)+
  let ?w = "pe_first env"
  obtain r m where u: "manager_add ?w pair (ps_manager st) = (r, m)" by (rule prod.exhaust)
  obtain ws where r: "r = Inr ws"
  proof (cases r)
    case (Inl e)
    then show thesis using p u add_failure[OF u[unfolded Inl]] by (simp add: save_created_def)
  qed (rule that)
  obtain b st2 where f: "refresh_path_pairs env (st\<lparr>ps_manager := m\<rparr>) = (b, st2)" by (rule prod.exhaust)
  then have m: "ps_manager st' = m" using p u r refresh_manager[OF f] by (auto simp: save_created_def Let_def split: if_splits bool.splits)
  show ?thesis
  proof (rule mutate_and_save_succeeds[OF u[unfolded r manager_add_def]])
    fix c' assume c': "add_pair pair (the_collection (loaded ?w (ps_manager st))) = Inr (ws, c')"
      "m = (loaded ?w (ps_manager st))\<lparr>pm_collection := Some c', pm_disk := Stored (collection_to_doc c')\<rparr>"
    then have "pc_pairs c' = pc_pairs (the_collection (loaded ?w (ps_manager st))) @ [pair]" by (auto simp: add_pair_def rbind_Inr_iff split: if_splits)
    moreover have "the_collection m = c'" "pm_disk m = Stored (collection_to_doc c')" by (simp_all add: the_collection_def c'(2))
    ultimately show ?thesis unfolding m by blast
  qed
qed

end
