(* ===== verification/Spec2Isabelle.thy ===== *)
theory Spec2Isabelle
  imports Model_Properties File_Properties Auto_Queue_Properties Scan_Properties Persist_Properties
    Service_Properties Config_Properties Web_Properties Builder_Properties Root_Properties
    Page_Properties Pairs_Handler
begin

text \<open>
  SeedSync: a verification development of the Python backend under \<open>src/src/python\<close>.

  \<^bold>\<open>The program.\<close> SeedSync mirrors directories of a remote server with LFTP. Scanners list the remote,
  local and active files as trees of \<open>SystemFile\<close> (\<open>system/file.py\<close>) and drop what the exclusion
  patterns match (\<open>common/exclude_patterns.py\<close>). LFTP reports its jobs as \<open>LftpJobStatus\<close>
  (\<open>lftp/job_status.py\<close>). From both the \<open>ModelBuilder\<close> (\<open>controller/model_builder.py\<close>) composes a
  candidate model, which is diffed against the live one (\<open>model/diff.py\<close>) and applied to the \<open>Model\<close> (\<open>model/model.py\<close>), whose
  roots are \<open>ModelFile\<close> trees (\<open>model/file.py\<close>); every change is published to listeners with
  version counters, and the counters of running LFTP jobs are shown as overlays over the published
  roots. \<open>AutoQueue\<close> (\<open>controller/auto_queue.py\<close>) listens to the Model and sends commands (queue,
  extract, delete remote) to the controller. Directories are configured as path pairs
  (\<open>common/path_pair.py\<close>), and what the controller has to remember across restarts is kept under
  canonical keys (\<open>controller/controller_persist.py\<close>, \<open>controller/persist_keys.py\<close>). Finished
  archives go through the extraction queue (\<open>controller/extract/dispatch.py\<close>). The settings
  (\<open>common/config.py\<close>) and the path pairs are changed through the web (\<open>web/handler/config.py\<close>,
  \<open>web/handler/path_pairs.py\<close>); the model is read in pages and followed through event streams
  (\<open>web/handler/model_api.py\<close> over queries of \<open>controller/controller.py\<close>). Every request to a server
  route first passes the gate of the web application (\<open>web/web_app.py\<close>), which asks the
  authentication store (\<open>web/auth_store.py\<close>) for keys and sessions.

  \<^bold>\<open>Theories and the code they model.\<close>
  \<^item> \<open>Prelude\<close>: Python errors and dynamically typed values, dictionaries in insertion order, string
    operations, \<open>bisect\<close>. \<open>Py_Text\<close>, \<open>Date_Text\<close>, \<open>Clock\<close>, \<open>Glob\<close>, \<open>Json_Shape\<close>, \<open>Py_Float\<close>: the parts
    of \<open>str\<close>, \<open>os.path\<close>, \<open>datetime\<close>, \<open>fnmatch\<close>, \<open>json\<close> and binary64 arithmetic the sources use.
  \<^item> \<open>File_Id\<close>, \<open>Model_File\<close>: \<open>ModelFile\<close>, as the record of its slots (flags as a bit set, runtime
    values as a sparse dictionary) and its children, one operation per property, setter and method.
  \<^item> \<open>Job_Status\<close>: \<open>LftpJobStatus\<close> with its guarded setters and parser provenance.
  \<^item> \<open>Model_State\<close>, \<open>Model_Ops\<close>: the state of \<open>Model\<close> as the record \<open>model\<close>, and its methods in a state
    and exception monad. \<open>Publication\<close>, \<open>Method_Logic\<close>, \<open>Model_Invariant\<close>, \<open>Model_Overlays\<close>,
    \<open>Model_Roots\<close>, \<open>Model_Replacement\<close>: their verification, from the published record up to methods
    that run other methods. \<open>Model_Api\<close>: the public calls as one state machine.
  \<^item> \<open>Model_Diff\<close>: \<open>ModelDiffUtil.diff_models\<close>.
  \<^item> \<open>System_File\<close>, \<open>Exclude_Patterns\<close>: scan nodes, their dictionary form, and the exclusion filter.
  \<^item> \<open>Persist_Keys\<close>, \<open>Controller_Persist\<close>: keys, markers, migration, and the stored document.
  \<^item> \<open>Path_Pairs\<close>: pairs, the collection and \<open>PathPairManager\<close> over a file that may fail.
  \<^item> \<open>Auto_Queue_Patterns\<close>, \<open>Auto_Queue\<close>: patterns, listeners and \<open>AutoQueue.process\<close>;
    \<open>Auto_Queue_Lanes\<close> and \<open>Auto_Queue_Cycle\<close> say what a cycle selects and sends.
  \<^item> \<open>Tree_Match\<close>: how \<open>ModelBuilder\<close> compares a remote and a local tree: identities of leaves, coverage,
    the proof for a staged move, leaves that may be published, collisions, bytes of progress.
    \<open>Tree_Proofs\<close> states these walks over paths. \<open>Split_Root\<close>: the merge of the scan of active
    transfers into the full scan and the choice of the effective local tree; \<open>Split_Prune\<close>: what a
    confirmed deletion removes. \<open>Transfer_Floor\<close>: the counters of a running transfer.
    \<open>Live_Snapshots\<close>: the attributes of the builder (\<open>builder\<close>), the remembered transfers and their
    lookup. \<open>Root_State\<close>: the state a root is published with (\<open>settle_root\<close>).
  \<^item> \<open>Lftp_Status\<close>, \<open>Remote_Path\<close>: LFTP's sidecar files and the quoting of remote paths.
  \<^item> \<open>Managed_Extract\<close>, \<open>Extract_Dispatch\<close>: managed folders, archive tasks, the queue and its worker.
  \<^item> \<open>Config_Values\<close>, \<open>Config_Sections\<close>, \<open>Config_Texts\<close>, \<open>Config_Handler\<close>: checkers and converters of
    the settings, the sections, their file and the requests that change them; \<open>Config_Loaded\<close>: the values
    a configuration has that was read from texts.
  \<^item> \<open>Auth_Records\<close>, \<open>Auth_Store\<close>, \<open>Auth_Handover\<close>, \<open>Auth_Document\<close>: scopes, secrets, keys, sessions,
    bootstrap secrets, the handover window and the stored document; \<open>Auth_Calls\<close> and \<open>Auth_Safety\<close>:
    the calls as a state machine and what holds over all its runs.
  \<^item> \<open>Web_Gate\<close>: hosts, origins, sessions and scopes of a request, the gate before the server routes
    (\<open>gate_server_request\<close>) over the calls of the authentication store, and the registration of
    routes. The router, \<open>urlparse\<close> and \<open>ipaddress\<close> are arguments.
  \<^item> \<open>Model_Pages\<close>: the controller's queries for the files of a scope: identities, candidates, the selection of a
    page, records, updates of changed roots. \<open>Page_Lookups\<close>: what they give. \<open>Model_Streams\<close>:
    parameters and cursors of page requests and the listeners behind the event streams, with their
    invariant. \<open>Pairs_Handler\<close>: the requests on path pairs over the manager and the controller's
    answers.
  \<^item> \<open>Keyed_Store\<close>: the interfaces the components share. \<open>invariant_system\<close> is a state machine with an
    invariant, interpreted on the calls of \<open>Model\<close>, the requests and restarts of the path pair
    manager, the extraction queue, the configuration requests, the calls of the authentication
    store, what the builder remembers and the listener of a stream; \<open>keyed_store\<close> is a store whose values carry their keys, interpreted on the roots of
    \<open>Model\<close>, and its client is the application of a diff.
  \<^item> \<open>Model_Properties\<close>, \<open>File_Properties\<close>, \<open>Auto_Queue_Properties\<close>, \<open>Scan_Properties\<close>,
    \<open>Persist_Properties\<close>, \<open>Service_Properties\<close>, \<open>Config_Properties\<close>, \<open>Auth_Properties\<close>, \<open>Web_Properties\<close>,
    \<open>Builder_Properties\<close>, \<open>Root_Properties\<close>, \<open>Page_Properties\<close>: the properties, with the concrete inputs that show their
    hypotheses hold.

  \<^bold>\<open>What is shown.\<close>
  \<^item> \<^emph>\<open>Model.\<close> Every model reachable through the public methods, nested and raising calls included, keeps
    its roots, name index, version counters, overlays and publications consistent; versions never
    move back and the global one is the sum of the others; what is published for a root is the root
    under its overlay, but for the mark of a pending final move, which is never published. Each method is described on every branch. Counters of LFTP jobs fail closed, do
    not regress within a job, and late reports of an older job are ignored. Replaying a diff in any
    order turns the one model into the other (\<open>replay_change\<close> is what a client does for each change:
    one of the three calls on the live model).
  \<^item> \<^emph>\<open>Files.\<close> Identities are injective, setters keep attributes well-formed and raise out of range,
    equality is an equivalence.
  \<^item> \<^emph>\<open>Scans.\<close> The dictionary form reads back, the filter keeps exactly the nodes with no excluded
    node on their way, each as a copy of its original but for the staging origin, and a pattern matches exactly the splits of a path along its tokens.
  \<^item> \<^emph>\<open>Persistence.\<close> The stored document reads back, whatever is accepted is within its bounds, migration
    in two phases refines one conversion and keeps every old key in between, path pairs stay unique and in agreement with their file
    through failures and restarts.
  \<^item> \<^emph>\<open>AutoQueue.\<close> Every command sent is one the rules allow, commands come in the order of the lanes,
    new roots that may be queued are queued, and a cycle that raises loses no event.
  \<^item> \<^emph>\<open>Builder.\<close> Completion is coverage of every remote path; a staged tree is moved only on a proof for
    every leaf; the merge of scans hides no final leaf; a confirmed deletion cuts out one node; the
    sources of progress are disjoint and the progress of a running job that is no mirror does not fall but by a
    reset; a lookup of a
    remembered transfer stays within its job and path pair; a root is called downloaded only on
    evidence, and every state it is published with has its reason.
  \<^item> \<^emph>\<open>Services.\<close> The extraction queue is first in, first out, each archive of a directory is found once,
    coverage read from a sidecar file counts bytes, a quoted path is one word.
  \<^item> \<^emph>\<open>Configuration.\<close> Every setting reachable through requests passed its checker; the API token, the
    switches for redaction, browser authentication and the legacy password and the notification settings
    cannot be set by a request; a refused request changes nothing; a configuration read from a file is written as texts
    that read back.
  \<^item> \<^emph>\<open>Authentication.\<close> The store stays consistent through write failures; a revoked key, a spent
    proof and an expired recovery window stay that way; the document reads back. A session without a time zone
    in it is accepted and then blocks searches and saves.
  \<^item> \<^emph>\<open>Web gate.\<close> A request that goes through has shown what its route asks for; writing with a cookie
    needs a page of the same origin; the gate changes the store only as its calls do, so no request acts
    with a revoked key. In the compatibility mode without browser authentication, unmarked routes ask only
    that an unsafe request bears no sign of a foreign origin, and the theorems say so.
  \<^item> \<^emph>\<open>Pages, streams and path pair requests.\<close> Following the cursors misses no root and lists none twice while
    the model changes; the bounded heap selects what sorting would; every change a stream was told
    of is shown by its next event; a change of a path pair is undone when the reply is no success, unless
    the reply says that restoring failed, and its reservation is released.

  \<^bold>\<open>Modelling choices.\<close>
  \<^item> Strings are lists of code points up to 255.
  \<^item> Locks make each operation atomic, which a function of the state is; the order of operations is the
    order of the steps of the state machines.
  \<^item> Listeners, callbacks and diagnostics are outside code that does not raise; what they are told
    is recorded as events.
  \<^item> A parent pointer is the parent's path; the identity of an object is a number where the code
    asks \<open>is\<close>.
  \<^item> Where the code iterates a set in no fixed order the model takes the sorted one.
  \<^item> JSON documents are the values between \<open>json.dumps\<close> and \<open>json.loads\<close>; the file system, \<open>uuid\<close>,
    the clock and the answers of the controller are arguments.
  \<^item> \<open>fromisoformat\<close> is modelled on the layouts \<open>isoformat\<close> prints.
  \<^item> No definition uses fuel: every loop is structural or ends by a measure.

  \<^bold>\<open>Not modelled.\<close> The controller's main loop and commands and the model updater, which drive the components above
  through threads, timers and child processes; of the builder, the setters of its inputs with their
  invalidation and partial builds, the children of a root, and \<open>build_model\<close> around \<open>settle_root\<close>; the
  LFTP, SSH and rclone drivers, the status parser's regular expressions, the scanners and the
  extraction, validation and deletion workers, which are input and output of external processes;
  migration and its journals, in the authentication store too; the web application around the
  gate and the modelled requests, and the generators that write the event streams; diagnostics, logging and traces, which affect no decision; process
  start-up.
\<close>

end
